(* ===== verification/Prelude.thy ===== *)
theory Prelude
  imports Main "HOL-Library.Word"
begin

text \<open>
  Vocabulary shared by every component of the gateway firmware model: the machine integer
  types of \<open>common/types.h\<close>, the \<open>Result\<close> enumeration, byte access to 16 and 32 bit
  values, and C strings. A C string is a \<open>string\<close> that does not contain the terminating NUL:
  reading the NUL is reaching the end of the list. A \<open>UINT32\<close> counter is a \<open>nat\<close> below
  \<open>2 ^ 32\<close> with the wrap-around written out (\<open>u32\<close>), bytes and check words are \<open>word\<close>s.
\<close>

unbundle bit_operations_syntax

named_theorems bytes_simps \<open>byte splitting and joining of 16 and 32 bit values\<close>
named_theorems cstr_simps \<open>C string scanning\<close>

subsection \<open>Machine types and results\<close>

type_synonym byte = "8 word"
type_synonym bytes = "byte list"
type_synonym u16 = "16 word"
type_synonym u32w = "32 word"

datatype result =
    RESULT_SUCCESS
  | RESULT_ERROR
  | RESULT_TIMEOUT
  | RESULT_INVALID_PARAM
  | RESULT_NOT_INITIALIZED
  | RESULT_ALREADY_INITIALIZED
  | RESULT_OUT_OF_MEMORY
  | RESULT_NOT_FOUND
  | RESULT_BUSY
  | RESULT_NOT_SUPPORTED

fun result_code :: "result \<Rightarrow> int" where
  "result_code RESULT_SUCCESS = 0"
| "result_code RESULT_ERROR = -1"
| "result_code RESULT_TIMEOUT = -2"
| "result_code RESULT_INVALID_PARAM = -3"
| "result_code RESULT_NOT_INITIALIZED = -4"
| "result_code RESULT_ALREADY_INITIALIZED = -5"
| "result_code RESULT_OUT_OF_MEMORY = -6"
| "result_code RESULT_NOT_FOUND = -7"
| "result_code RESULT_BUSY = -8"
| "result_code RESULT_NOT_SUPPORTED = -9"

definition result_is_success :: "result \<Rightarrow> bool" where
  "result_is_success r \<longleftrightarrow> r = RESULT_SUCCESS"

definition result_is_error :: "result \<Rightarrow> bool" where
  "result_is_error r \<longleftrightarrow> r \<noteq> RESULT_SUCCESS"

lemma result_code_inj: "result_code r = result_code s \<Longrightarrow> r = s"
  by (cases r; cases s) auto

text \<open>The enumeration is ordered by its numeric codes, as C compares it.\<close>

instantiation result :: linorder
begin

definition less_eq_result :: "result \<Rightarrow> result \<Rightarrow> bool" where
  "less_eq_result r s \<longleftrightarrow> result_code r \<le> result_code s"

definition less_result :: "result \<Rightarrow> result \<Rightarrow> bool" where
  "less_result r s \<longleftrightarrow> result_code r < result_code s"

instance
  by standard (auto simp: less_eq_result_def less_result_def intro: result_code_inj)

end

subsection \<open>UINT32 arithmetic on naturals\<close>

definition u32 :: "nat \<Rightarrow> nat" where
  "u32 n = n mod 2 ^ 32"

abbreviation UINT32_MAX :: nat where
  "UINT32_MAX \<equiv> 4294967295"

text \<open>Unsigned subtraction wraps around: \<open>a - b\<close> modulo \<open>2 ^ 32\<close>.\<close>

definition u32_minus :: "nat \<Rightarrow> nat \<Rightarrow> nat" where
  "u32_minus a b = u32 (a + (2 ^ 32 - u32 b))"

lemma u32_small [simp]: "n < 4294967296 \<Longrightarrow> u32 n = n"
  by (simp add: u32_def)

lemma u32_less [simp]: "u32 n < 4294967296"
  by (simp add: u32_def)

lemma u32_le_max [simp]: "u32 n \<le> UINT32_MAX"
  using u32_less [of n] by linarith

lemma u32_idem [simp]: "u32 (u32 n) = u32 n"
  by simp

lemma u32_minus_small:
  assumes "b \<le> a" and "a < 4294967296"
  shows "u32_minus a b = a - b"
proof -
  have "a + (4294967296 - b) = (a - b) + 4294967296"
    using assms by linarith
  then have "(a + (4294967296 - b)) mod 4294967296 = (a - b) mod 4294967296"
    by (simp only: mod_add_self2)
  then show ?thesis
    using assms by (simp add: u32_minus_def u32_def)
qed

lemma u32_minus_less [simp]: "u32_minus a b < 4294967296"
  by (simp add: u32_minus_def)

subsection \<open>Bytes of 16 and 32 bit values\<close>

definition byte_of_nat :: "nat \<Rightarrow> byte" where
  "byte_of_nat n = of_nat n"

definition hi8 :: "nat \<Rightarrow> byte" where
  "hi8 n = of_nat (n div 256)"

definition lo8 :: "nat \<Rightarrow> byte" where
  "lo8 n = of_nat n"

definition be16 :: "byte \<Rightarrow> byte \<Rightarrow> nat" where
  "be16 h l = unat h * 256 + unat l"

definition be32 :: "byte \<Rightarrow> byte \<Rightarrow> byte \<Rightarrow> byte \<Rightarrow> nat" where
  "be32 a b c d = ((unat a * 256 + unat b) * 256 + unat c) * 256 + unat d"

definition be32_bytes :: "nat \<Rightarrow> bytes" where
  "be32_bytes n = [of_nat (n div 16777216), of_nat (n div 65536), of_nat (n div 256), of_nat n]"

lemma unat_byte_less [simp]: "unat (b :: byte) < 256"
  using unsigned_less [of b] by simp

lemma unat_byte_of_nat [bytes_simps]: "unat (of_nat n :: byte) = n mod 256"
  by (simp add: unat_of_nat)

lemma be16_hi8_lo8 [bytes_simps]: "n < 65536 \<Longrightarrow> be16 (hi8 n) (lo8 n) = n"
  by (simp add: be16_def hi8_def lo8_def unat_byte_of_nat)

lemma be16_less [simp]: "be16 h l < 65536"
proof -
  have "unat h \<le> 255" "unat l \<le> 255"
    using unat_byte_less [of h] unat_byte_less [of l] by linarith+
  then show ?thesis by (simp add: be16_def)
qed

lemma hi8_be16 [bytes_simps]: "hi8 (be16 h l) = h"
  using unat_byte_less [of l] by (simp add: hi8_def be16_def)

lemma lo8_be16 [bytes_simps]: "lo8 (be16 h l) = l"
proof -
  have "unat (lo8 (be16 h l)) = (unat h * 256 + unat l) mod 256"
    by (simp only: lo8_def be16_def unat_byte_of_nat)
  also have "\<dots> = unat l"
    using unat_byte_less [of l] by simp
  finally show ?thesis by (simp only: unsigned_word_eqI)
qed

lemma be32_be32_bytes:
  assumes "n < 4294967296"
  shows "be32 (of_nat (n div 16777216)) (of_nat (n div 65536)) (of_nat (n div 256)) (of_nat n) = n"
proof -
  define a where "a = n div 256"
  define b where "b = a div 256"
  define c where "c = b div 256"
  have n: "n = a * 256 + n mod 256" and a: "a = b * 256 + a mod 256" and b: "b = c * 256 + b mod 256"
    by (simp_all add: a_def b_def c_def)
  have "n div 65536 = b" and "n div 16777216 = c"
    by (simp_all add: a_def b_def c_def flip: div_mult2_eq)
  moreover have "c mod 256 = c"
    using assms by (simp add: a_def b_def c_def flip: div_mult2_eq)
  ultimately show ?thesis
    using n a b by (simp only: be32_def unat_byte_of_nat flip: a_def)
qed

subsection \<open>Lists\<close>

lemma take_drop_split: "i \<le> length xs \<Longrightarrow> xs = take i xs @ drop i xs"
  by simp

lemma nth_append_left: "i < length xs \<Longrightarrow> (xs @ ys) ! i = xs ! i"
  by (simp add: nth_append)

lemma take_add_drop: "take (i + n) xs = take i xs @ take n (drop i xs)"
  by (simp add: take_add)

subsection \<open>C characters and strings\<close>

definition char_code :: "char \<Rightarrow> nat" where
  "char_code c = of_char c"

definition byte_of_char :: "char \<Rightarrow> byte" where
  "byte_of_char c = of_char c"

definition is_digit :: "char \<Rightarrow> bool" where
  "is_digit c \<longleftrightarrow> 48 \<le> char_code c \<and> char_code c \<le> 57"

definition is_upper_hex :: "char \<Rightarrow> bool" where
  "is_upper_hex c \<longleftrightarrow> 65 \<le> char_code c \<and> char_code c \<le> 70"

definition is_lower_hex :: "char \<Rightarrow> bool" where
  "is_lower_hex c \<longleftrightarrow> 97 \<le> char_code c \<and> char_code c \<le> 102"

text \<open>
  \<open>strchr (s, c)\<close> as the list from the found character on, \<open>None\<close> for a null pointer.
\<close>

fun strchr :: "string \<Rightarrow> char \<Rightarrow> string option" where
  "strchr [] c = None"
| "strchr (x # xs) c = (if x = c then Some (x # xs) else strchr xs c)"

lemma strchr_Some [cstr_simps]: "c \<notin> set p \<Longrightarrow> strchr (p @ c # q) c = Some (c # q)"
  by (induction p) auto

lemma strchr_None [cstr_simps]: "c \<notin> set p \<Longrightarrow> strchr p c = None"
  by (induction p) auto

lemma strchr_None_iff: "strchr s c = None \<longleftrightarrow> c \<notin> set s"
  by (induction s) auto

lemma strchr_SomeD:
  "strchr s c = Some t \<Longrightarrow> \<exists>p q. s = p @ c # q \<and> t = c # q \<and> c \<notin> set p"
proof (induction s)
  case Nil
  then show ?case by simp
next
  case (Cons x xs)
  show ?case
  proof (cases "x = c")
    case True
    with Cons.prems have "x # xs = [] @ c # xs \<and> t = c # xs \<and> c \<notin> set []" by simp
    then show ?thesis by blast
  next
    case False
    with Cons.prems Cons.IH obtain p q where "xs = p @ c # q" "t = c # q" "c \<notin> set p"
      by auto
    with False have "x # xs = (x # p) @ c # q \<and> t = c # q \<and> c \<notin> set (x # p)" by simp
    then show ?thesis by blast
  qed
qed

subsection \<open>Little-endian words\<close>

definition le32_bytes :: "nat \<Rightarrow> bytes" where
  "le32_bytes n = [of_nat n, of_nat (n div 256), of_nat (n div 65536), of_nat (n div 16777216)]"

definition le32 :: "bytes \<Rightarrow> nat" where
  "le32 bs = be32 (bs ! 3) (bs ! 2) (bs ! 1) (bs ! 0)"

lemma length_le32_bytes [simp]: "length (le32_bytes n) = 4"
  by (simp add: le32_bytes_def)

lemma le32_le32_bytes [bytes_simps]: "n < 4294967296 \<Longrightarrow> le32 (le32_bytes n @ t) = n"
  by (simp add: le32_def le32_bytes_def be32_be32_bytes)

definition char_of_byte :: "byte \<Rightarrow> char" where
  "char_of_byte b = char_of (unat b)"

lemma char_of_byte_of_char [simp]: "char_of_byte (byte_of_char c) = c"
proof -
  have "unat (of_char c :: byte) = of_char c mod 256"
    by (metis of_char_mod_256 of_nat_of_char unat_byte_of_nat)
  then show ?thesis by (simp add: char_of_byte_def byte_of_char_def)
qed

end
