(* ===== verification/C_Strings.thy ===== *)
theory C_Strings
  imports Prelude
begin

text \<open>
  The part of the C library the string code of the firmware uses, on NUL-free \<open>string\<close>s:
  \<open>isspace\<close>, \<open>tolower\<close>, \<open>strncasecmp\<close>, \<open>strcasecmp\<close>, \<open>atoi\<close>, \<open>strtoul\<close>, \<open>strstr\<close>, and hexadecimal
  digits. \<open>int\<close> and \<open>unsigned long\<close> are 32 bits wide on the target; \<open>atoi\<close> and \<open>strtoul\<close>
  saturate as the newlib of the SDK does.
\<close>

subsection \<open>Characters\<close>

definition c_isspace :: "char \<Rightarrow> bool" where
  "c_isspace c \<longleftrightarrow> char_code c = 32 \<or> (9 \<le> char_code c \<and> char_code c \<le> 13)"

definition c_tolower :: "char \<Rightarrow> char" where
  "c_tolower c = (if 65 \<le> char_code c \<and> char_code c \<le> 90 then char_of (char_code c + 32) else c)"

fun strncasecmp_eq :: "nat \<Rightarrow> string \<Rightarrow> string \<Rightarrow> bool" where
  "strncasecmp_eq 0 s t = True"
| "strncasecmp_eq (Suc n) [] [] = True"
| "strncasecmp_eq (Suc n) (a # s) (b # t) = (c_tolower a = c_tolower b \<and> strncasecmp_eq n s t)"
| "strncasecmp_eq (Suc n) s t = False"

definition strcasecmp_eq :: "string \<Rightarrow> string \<Rightarrow> bool" where
  "strcasecmp_eq s t \<longleftrightarrow> map c_tolower s = map c_tolower t"

lemma strncasecmp_eq_refl: "strncasecmp_eq (length s) (s @ t) s"
  by (induction s) auto

subsection \<open>Decimal numbers\<close>

definition digit_val :: "char \<Rightarrow> nat" where
  "digit_val c = char_code c - 48"

fun dec_prefix :: "nat \<Rightarrow> string \<Rightarrow> nat" where
  "dec_prefix acc [] = acc"
| "dec_prefix acc (c # s) = (if is_digit c then dec_prefix (acc * 10 + digit_val c) s else acc)"

text \<open>White space and a sign in front of a number: is it negative, and the rest.\<close>

definition split_sign :: "string \<Rightarrow> bool \<times> string" where
  "split_sign s =
     (case dropWhile c_isspace s of
        [] \<Rightarrow> (False, [])
      | c # t \<Rightarrow> if c = CHR ''-'' then (True, t) else if c = CHR ''+'' then (False, t) else (False, c # t))"

definition atoi :: "string \<Rightarrow> int" where
  "atoi s =
     (let (neg, t) = split_sign s; v = int (dec_prefix 0 t)
      in max (- 2147483648) (min 2147483647 (if neg then - v else v)))"

definition strtoul10 :: "string \<Rightarrow> nat" where
  "strtoul10 s =
     (let (neg, t) = split_sign s; v = dec_prefix 0 t
      in if v > UINT32_MAX then UINT32_MAX else if neg then u32_minus 0 v else v)"

lemma strtoul10_less: "strtoul10 s < 4294967296"
  by (auto simp: strtoul10_def Let_def split: prod.split)

subsection \<open>Hexadecimal digits\<close>

text \<open>The value of a hexadecimal digit, as a table: the reference for the digit readers of the
  program, each of which is translated where it stands (\<open>hex_nibble\<close> of the command map,
  \<open>hex_char_to_val\<close> of the login packet, \<open>UTILS_HEX_VAL\<close> and \<open>UTILS_HEX_NIBBLE\<close> of \<open>utils.c\<close>).\<close>

definition hex_digits :: "(char \<times> nat) list" where
  "hex_digits = zip ''0123456789abcdefABCDEF'' [0, 1, 2, 3, 4, 5, 6, 7, 8, 9, 10, 11, 12, 13, 14, 15, 10, 11, 12, 13, 14, 15]"

definition hex_val :: "char \<Rightarrow> nat option" where
  "hex_val c = map_of hex_digits c"

lemma char_code_inj: "char_code c = char_code d \<longleftrightarrow> c = d"
  by (simp add: char_code_def)

lemma hex_val_code:
  "hex_val c =
     (if is_digit c then Some (char_code c - 48)
      else if is_lower_hex c then Some (char_code c - 97 + 10)
      else if is_upper_hex c then Some (char_code c - 65 + 10)
      else None)"
proof -
  have "map_of xs c = map_of (map (map_prod char_code id) xs) (char_code c)" for xs :: "(char \<times> nat) list"
    by (induction xs) (auto simp: char_code_inj)
  then have v: "hex_val c = map_of (map (map_prod char_code id) hex_digits) (char_code c)"
    by (simp only: hex_val_def)
  have t: "map (map_prod char_code id) hex_digits = zip ([48..<58] @ [97..<103] @ [65..<71]) ([0..<16] @ [10..<16])"
    by (simp add: hex_digits_def char_code_def upt_rec numeral_eq_Suc)
  have "map_of (zip ([48..<58] @ [97..<103] @ [65..<71]) ([0..<16] @ [10..<16])) n =
    (if 48 \<le> n \<and> n \<le> 57 then Some (n - 48) else if 97 \<le> n \<and> n \<le> 102 then Some (n - 97 + 10)
     else if 65 \<le> n \<and> n \<le> 70 then Some (n - 65 + 10) else None)" for n :: nat
    by (simp add: upt_rec) presburger
  then show ?thesis
    by (simp only: v t is_digit_def is_lower_hex_def is_upper_hex_def)
qed

definition hex_digit_upper :: "nat \<Rightarrow> char" where
  "hex_digit_upper n = ''0123456789ABCDEF'' ! n"

lemma hex_val_less: "hex_val c = Some n \<Longrightarrow> n < 16"
  by (auto simp: hex_val_code is_digit_def is_lower_hex_def is_upper_hex_def split: if_splits)

lemma less_16_cases: "n < 16 \<Longrightarrow> n \<in> {0, 1, 2, 3, 4, 5, 6, 7, 8, 9, 10, 11, 12, 13, 14, 15 :: nat}"
  by (auto simp: numeral_eq_Suc less_Suc_eq)

lemma hex_val_digit_upper [simp]: "n < 16 \<Longrightarrow> hex_val (hex_digit_upper n) = Some n"
  by (drule less_16_cases)
     (auto simp: hex_digit_upper_def hex_val_code is_digit_def is_lower_hex_def is_upper_hex_def char_code_def)

lemma hex_digit_upper_code:
  "n < 16 \<Longrightarrow> 48 \<le> char_code (hex_digit_upper n) \<and> char_code (hex_digit_upper n) \<le> 70"
  by (drule less_16_cases) (auto simp: hex_digit_upper_def char_code_def)

text \<open>Two hexadecimal digits per byte, upper case: the rendering of \<open>utils_bytes_to_hex_str\<close>.\<close>

definition hex_of_byte :: "byte \<Rightarrow> string" where
  "hex_of_byte b = [hex_digit_upper (unat (drop_bit 4 b) mod 16), hex_digit_upper (unat b mod 16)]"

definition hex_of_bytes :: "bytes \<Rightarrow> string" where
  "hex_of_bytes bs = concat (map hex_of_byte bs)"

text \<open>The byte of two digits, \<open>(hi << 4) | lo\<close>.\<close>

definition byte_of_nibbles :: "nat \<Rightarrow> nat \<Rightarrow> byte" where
  "byte_of_nibbles hi lo = push_bit 4 (of_nat hi) OR of_nat lo"

lemma unat_byte_of_nibbles:
  assumes "hi < 16" and "lo < 16"
  shows "unat (byte_of_nibbles hi lo) = hi * 16 + lo"
proof -
  have "push_bit 4 (of_nat hi :: byte) AND of_nat lo = 0"
  proof (rule bit_word_eqI)
    fix n
    have "lo = take_bit 4 lo"
      using assms(2) by (simp add: take_bit_nat_eq_self)
    then have "bit lo n \<longrightarrow> n < 4"
      by (metis bit_take_bit_iff)
    then show "bit (push_bit 4 (of_nat hi :: byte) AND of_nat lo) n = bit (0 :: byte) n"
      by (auto simp: bit_simps)
  qed
  then have "byte_of_nibbles hi lo = push_bit 4 (of_nat hi) + of_nat lo"
    by (simp add: byte_of_nibbles_def disjunctive_add_eq_or flip: disjunctive_add_eq_or)
  also have "\<dots> = of_nat (hi * 16 + lo)"
    by (simp add: push_bit_eq_mult)
  finally have "byte_of_nibbles hi lo = of_nat (hi * 16 + lo)" .
  then have "unat (byte_of_nibbles hi lo) = (hi * 16 + lo) mod 256"
    by (simp only: unat_byte_of_nat)
  then show ?thesis
    using assms by simp
qed

lemma byte_of_nibbles_unat: "byte_of_nibbles (unat b div 16) (unat b mod 16) = b"
proof -
  have "unat b div 16 < 16" using unat_byte_less [of b] by linarith
  then have "unat (byte_of_nibbles (unat b div 16) (unat b mod 16)) = unat b"
    by (simp add: unat_byte_of_nibbles)
  then show ?thesis by (simp only: unsigned_word_eqI)
qed

subsection \<open>Substring search\<close>

text \<open>\<open>strstr (s, p)\<close> as the suffix of the first occurrence.\<close>

fun strstr :: "string \<Rightarrow> string \<Rightarrow> string option" where
  "strstr [] p = (if p = [] then Some [] else None)"
| "strstr (c # s) p = (if take (length p) (c # s) = p then Some (c # s) else strstr s p)"

lemma strstr_prefix: "take (length p) x = p \<Longrightarrow> strstr x p = Some x"
  by (cases x) auto

lemma strstr_here: "strstr (p @ s) p = Some (p @ s)"
  by (rule strstr_prefix) simp

text \<open>The first occurrence is found when no earlier position matches.\<close>

lemma strstr_skip:
  assumes "\<forall>i < length a. take (length p) (drop i (a @ p @ s)) \<noteq> p"
  shows "strstr (a @ p @ s) p = Some (p @ s)"
  using assms
proof (induction a)
  case Nil
  then show ?case by (simp add: strstr_here)
next
  case (Cons c a)
  have "\<forall>i < length a. take (length p) (drop i (a @ p @ s)) \<noteq> p"
    using Cons.prems by fastforce
  moreover have "take (length p) (c # a @ p @ s) \<noteq> p"
    using Cons.prems by (metis append_Cons drop0 length_greater_0_conv list.distinct(1))
  ultimately show ?case using Cons.IH by simp
qed

end
