(* ===== verification/Crc.thy ===== *)
theory Crc
  imports Prelude
begin

text \<open>
  The contract of the reflected 16 bit check words of the firmware (\<open>stm_crc16\<close>, polynomial
  \<open>0x8408\<close>, and \<open>utils_crc16_modbus\<close>, polynomial \<open>0xA001\<close>): one shift register turn per data bit. The
  locale asks that a turn feeds back a polynomial whose top bit is set; then a turn can be undone,
  and a check word misses no change of a single byte.
\<close>

lemma and_1_odd: "(x :: u16) AND 1 \<noteq> 0 \<longleftrightarrow> odd x"
  by (simp add: and_one_eq odd_iff_mod_2_eq_one)

lemma xor_cancel_left: "x XOR a = x XOR b \<Longrightarrow> a = b" for x :: u16
proof -
  assume "x XOR a = x XOR b"
  then have "x XOR (x XOR a) = x XOR (x XOR b)" by (rule arg_cong)
  then show "a = b" by (simp flip: xor.assoc)
qed

lemma xor_cancel_right: "a XOR x = b XOR x \<Longrightarrow> a = b" for x :: u16
  by (rule xor_cancel_left [of x]) (simp only: xor.commute)

lemma ucast_byte_inj: "(ucast (c :: byte) :: u16) = ucast d \<Longrightarrow> c = d"
proof -
  assume "(ucast c :: u16) = ucast d"
  then have "(ucast (ucast c :: u16) :: byte) = ucast (ucast d :: u16)"
    by (rule arg_cong)
  then show "c = d" by (simp add: ucast_up_ucast is_up)
qed

locale crc_register =
  fixes poly :: u16 and shift :: "u16 \<Rightarrow> u16" and step :: "u16 \<Rightarrow> byte \<Rightarrow> u16"
  assumes shift_unfold: "shift x = (if x AND 1 \<noteq> 0 then drop_bit 1 x XOR poly else drop_bit 1 x)"
    and step_unfold: "step f d = (shift ^^ 8) (f XOR ucast d)"
    and top_bit: "bit poly 15"
begin

lemma bit_shift_15: "bit (shift x) 15 \<longleftrightarrow> odd x"
proof -
  have "\<not> bit x 16" by (auto dest: bit_imp_le_length)
  then show ?thesis
    using top_bit by (simp add: shift_unfold and_1_odd bit_simps)
qed

lemma shift_inj: "shift x = shift y \<Longrightarrow> x = y"
proof -
  assume eq: "shift x = shift y"
  then have odd: "odd x \<longleftrightarrow> odd y"
    by (simp flip: bit_shift_15)
  have "drop_bit 1 x = drop_bit 1 y"
    using eq odd by (auto simp: shift_unfold and_1_odd split: if_splits dest: xor_cancel_right)
  show "x = y"
  proof (rule bit_word_eqI)
    fix n
    show "bit x n = bit y n"
    proof (cases n)
      case 0
      then show ?thesis using odd by (simp add: bit_0)
    next
      case (Suc m)
      have "bit (drop_bit 1 x) m = bit (drop_bit 1 y) m"
        by (simp only: \<open>drop_bit 1 x = drop_bit 1 y\<close>)
      then show ?thesis by (simp add: Suc bit_simps)
    qed
  qed
qed

lemma shift_pow_inj: "(shift ^^ n) x = (shift ^^ n) y \<Longrightarrow> x = y"
  by (induction n arbitrary: x y) (auto dest: shift_inj)

lemma step_inj_state: "step f d = step g d \<Longrightarrow> f = g"
  unfolding step_unfold by (drule shift_pow_inj) (rule xor_cancel_right)

lemma step_inj_data: "step f c = step f d \<Longrightarrow> c = d"
  unfolding step_unfold by (drule shift_pow_inj, drule xor_cancel_left, drule ucast_byte_inj)

lemma step_8: "step f d = shift (shift (shift (shift (shift (shift (shift (shift (f XOR ucast d))))))))"
  by (simp add: step_unfold numeral_eq_Suc)

lemma fold_inj: "foldl step f xs = foldl step g xs \<Longrightarrow> f = g"
  by (induction xs arbitrary: f g) (auto dest: step_inj_state)

lemma detects_byte:
  assumes "a \<noteq> b"
  shows "foldl step f (xs @ a # ys) \<noteq> foldl step f (xs @ b # ys)"
proof
  assume "foldl step f (xs @ a # ys) = foldl step f (xs @ b # ys)"
  then have "step (foldl step f xs) a = step (foldl step f xs) b"
    by (simp add: fold_inj)
  with assms show False by (blast dest: step_inj_data)
qed

end

end
