(* ===== verification/Stm_Protocol.thy ===== *)
theory Stm_Protocol
  imports Crc
begin

text \<open>
  \<open>common/stm_binary_protocol.c\<close>: the framing of the UART link to the STM32 (GW-STM-BIN-001).
  A frame is \<open>AA 55 VER TYPE SRC_TYPE SRC_LEN SRC_ADDR CMD LEN_H LEN_L PAYLOAD CRC_H CRC_L\<close>.
  The check word is computed on \<open>16 word\<close>; the output buffer of a builder is the list of the
  bytes written from its start. A pointer that may be null is an \<open>option\<close>; a buffer of
  length \<open>len\<close> is the list of its first \<open>len\<close> bytes.
\<close>

subsection \<open>Constants\<close>

definition STM_SOF1 :: byte where "STM_SOF1 = 0xAA"
definition STM_SOF2 :: byte where "STM_SOF2 = 0x55"
definition STM_VER :: byte where "STM_VER = 0x01"
definition STM_TYPE_STM :: byte where "STM_TYPE_STM = 0x01"
definition STM_SRC_TYPE_TCP :: byte where "STM_SRC_TYPE_TCP = 0x01"
definition STM_SRC_TYPE_SMS :: byte where "STM_SRC_TYPE_SMS = 0x02"
definition STM_SRC_TYPE_BLE :: byte where "STM_SRC_TYPE_BLE = 0x03"
definition STM_SRC_TYPE_LOCAL :: byte where "STM_SRC_TYPE_LOCAL = 0x04"
definition STM_CMD_RESP_BIT :: byte where "STM_CMD_RESP_BIT = 0x80"
definition STM_CMD_SYSTEM_RESTART :: byte where "STM_CMD_SYSTEM_RESTART = 0x02"
definition STM_CMD_GET_DEV_INFO :: byte where "STM_CMD_GET_DEV_INFO = 0x04"
definition STM_CMD_SYSTEM_UPDATE :: byte where "STM_CMD_SYSTEM_UPDATE = 0x06"
definition STM_CMD_GW_HEALTH :: byte where "STM_CMD_GW_HEALTH = 0x30"
definition STM_CMD_SET_GSM_STATUS :: byte where "STM_CMD_SET_GSM_STATUS = 0x31"
definition STM_CMD_STM_OTA :: byte where "STM_CMD_STM_OTA = 0x40"
definition STM_CMD_PERI_OTA :: byte where "STM_CMD_PERI_OTA = 0x41"
definition STM_OTA_CHUNK_CRC :: byte where "STM_OTA_CHUNK_CRC = 0x01"

abbreviation STM_FRAME_MIN_SIZE :: nat where "STM_FRAME_MIN_SIZE \<equiv> 11"
abbreviation STM_MAX_PAYLOAD :: nat where "STM_MAX_PAYLOAD \<equiv> 1040"
abbreviation STM_SRC_LEN_MAX :: nat where "STM_SRC_LEN_MAX \<equiv> 31"
abbreviation STM_FRAME_NEED_MORE :: int where "STM_FRAME_NEED_MORE \<equiv> 0"
abbreviation STM_FRAME_BAD :: int where "STM_FRAME_BAD \<equiv> - 1"

subsection \<open>The check word\<close>

text \<open>One turn of the inner loop: shift right, feed back the polynomial on a carry.\<close>

definition crc_shift :: "u16 \<Rightarrow> u16" where
  "crc_shift fcs =
     (if fcs AND 1 \<noteq> 0 then (drop_bit 1 fcs) XOR 0x8408 else drop_bit 1 fcs)"

text \<open>One turn of the outer loop: eight shifts per data byte.\<close>

definition crc_byte :: "u16 \<Rightarrow> byte \<Rightarrow> u16" where
  "crc_byte fcs d = (crc_shift ^^ 8) (fcs XOR ucast d)"

fun stm_crc16 :: "bytes option \<Rightarrow> u16" where
  "stm_crc16 None = NOT 0xFFFF AND 0xFFFF"
| "stm_crc16 (Some data) = NOT (foldl crc_byte 0xFFFF data) AND 0xFFFF"

definition crc_hi :: "u16 \<Rightarrow> byte" where
  "crc_hi crc = ucast (drop_bit 8 crc AND 0xFF)"

definition crc_lo :: "u16 \<Rightarrow> byte" where
  "crc_lo crc = ucast (crc AND 0xFF)"

definition rx_crc :: "byte \<Rightarrow> byte \<Rightarrow> u16" where
  "rx_crc h l = push_bit 8 (ucast h) OR ucast l"

subsection \<open>Building a frame\<close>

text \<open>The bytes \<open>VER\<close> to the last payload byte, over which the check word is taken.\<close>

definition frame_body :: "byte \<Rightarrow> bytes \<Rightarrow> byte \<Rightarrow> bytes \<Rightarrow> bytes" where
  "frame_body src_type addr cmd payload =
     [STM_VER, STM_TYPE_STM, src_type, of_nat (length addr)] @ addr @
     [cmd, hi8 (length payload), lo8 (length payload)] @ payload"

definition frame_bytes :: "byte \<Rightarrow> bytes \<Rightarrow> byte \<Rightarrow> bytes \<Rightarrow> bytes" where
  "frame_bytes src_type addr cmd payload =
     (let body = frame_body src_type addr cmd payload; crc = stm_crc16 (Some body)
      in [STM_SOF1, STM_SOF2] @ body @ [crc_hi crc, crc_lo crc])"

text \<open>
  \<open>stm_build_frame_src\<close>: the checks in their order, then the frame. The result is the return
  value and the bytes written to \<open>out\<close>. The caller's buffers hold at least \<open>src_len\<close> and
  \<open>payload_len\<close> bytes, as the C code requires of them.
\<close>

definition stm_build_frame_src ::
    "bool \<Rightarrow> int \<Rightarrow> byte \<Rightarrow> bytes option \<Rightarrow> nat \<Rightarrow> byte \<Rightarrow> bytes option \<Rightarrow> nat \<Rightarrow> int \<times> bytes" where
  "stm_build_frame_src out_ok out_cap src_type src_addr src_len cmd payload payload_len =
     (if \<not> out_ok then (-1, [])
      else if src_len > STM_SRC_LEN_MAX then (-1, [])
      else if src_len > 0 \<and> src_addr = None then (-1, [])
      else if payload_len > STM_MAX_PAYLOAD then (-1, [])
      else if payload_len > 0 \<and> payload = None then (-1, [])
      else
        let total = 9 + int src_len + int payload_len + 2 in
        if out_cap < total then (-1, [])
        else (total,
              frame_bytes src_type
                (take src_len (case src_addr of None \<Rightarrow> [] | Some a \<Rightarrow> a)) cmd
                (take payload_len (case payload of None \<Rightarrow> [] | Some p \<Rightarrow> p))))"

definition stm_build_frame ::
    "bool \<Rightarrow> int \<Rightarrow> byte \<Rightarrow> byte \<Rightarrow> bytes option \<Rightarrow> nat \<Rightarrow> int \<times> bytes" where
  "stm_build_frame out_ok out_cap src_type cmd payload payload_len =
     stm_build_frame_src out_ok out_cap src_type None 0 cmd payload payload_len"

subsection \<open>Recognising a frame\<close>

fun stm_frame_complete :: "bytes option \<Rightarrow> int" where
  "stm_frame_complete None = STM_FRAME_NEED_MORE"
| "stm_frame_complete (Some buf) =
     (let len = length buf in
      if len < 2 then STM_FRAME_NEED_MORE
      else if buf ! 0 \<noteq> STM_SOF1 \<or> buf ! 1 \<noteq> STM_SOF2 then STM_FRAME_BAD
      else if len < 6 then STM_FRAME_NEED_MORE
      else
        let src_len = unat (buf ! 5) in
        if src_len > STM_SRC_LEN_MAX then STM_FRAME_BAD
        else if len < 9 + src_len then STM_FRAME_NEED_MORE
        else
          let payload_len = be16 (buf ! (7 + src_len)) (buf ! (8 + src_len)) in
          if payload_len > STM_MAX_PAYLOAD then STM_FRAME_BAD
          else
            let total = 9 + src_len + payload_len + 2 in
            if len < total then STM_FRAME_NEED_MORE
            else
              let calc = stm_crc16 (Some (take (total - 4) (drop 2 buf)));
                  rx = rx_crc (buf ! (total - 2)) (buf ! (total - 1)) in
              if calc \<noteq> rx then STM_FRAME_BAD else int total)"

definition stm_frame_cmd :: "bytes \<Rightarrow> byte" where
  "stm_frame_cmd buf = buf ! (6 + unat (buf ! 5))"

definition stm_frame_payload :: "bytes \<Rightarrow> bytes" where
  "stm_frame_payload buf = drop (9 + unat (buf ! 5)) buf"

definition stm_frame_payload_len :: "bytes \<Rightarrow> nat" where
  "stm_frame_payload_len buf =
     (let src_len = unat (buf ! 5) in be16 (buf ! (7 + src_len)) (buf ! (8 + src_len)))"

definition stm_protocol_selftest :: bool where
  "stm_protocol_selftest =
     (if stm_crc16 (Some (map byte_of_char ''123456789'')) \<noteq> 0x906E then False
      else
        let (n, frame) = stm_build_frame True (int STM_FRAME_MIN_SIZE) STM_SRC_TYPE_TCP
                           STM_CMD_GET_DEV_INFO None 0 in
        if n \<noteq> int STM_FRAME_MIN_SIZE then False
        else if frame ! 9 \<noteq> 0x7F \<or> frame ! 10 \<noteq> 0xAB then False
        else if stm_frame_complete (Some (take (nat n) frame)) \<noteq> n then False
        else True)"

lemmas stm_consts =
  STM_SOF1_def STM_SOF2_def STM_VER_def STM_TYPE_STM_def STM_SRC_TYPE_TCP_def
  STM_SRC_TYPE_SMS_def STM_SRC_TYPE_BLE_def STM_SRC_TYPE_LOCAL_def STM_CMD_RESP_BIT_def
  STM_CMD_SYSTEM_RESTART_def STM_CMD_GET_DEV_INFO_def STM_CMD_SYSTEM_UPDATE_def
  STM_CMD_GW_HEALTH_def STM_CMD_SET_GSM_STATUS_def STM_CMD_STM_OTA_def STM_CMD_PERI_OTA_def
  STM_OTA_CHUNK_CRC_def

subsection \<open>Facts about the check word\<close>

declare stm_crc16.simps [simp del] stm_frame_complete.simps [simp del]

lemma bit_255: "bit (255 :: int) k \<longleftrightarrow> k < 8"
proof -
  have "(255 :: int) = mask 8"
    by (simp add: mask_eq_exp_minus_1)
  then show ?thesis by (simp only: bit_mask_iff) simp
qed

lemma rx_crc_split [simp]: "rx_crc (crc_hi c) (crc_lo c) = c"
proof (rule bit_word_eqI)
  fix n
  assume "n < LENGTH(16)"
  then show "bit (rx_crc (crc_hi c) (crc_lo c)) n = bit c n"
    by (cases "n < 8") (auto simp: rx_crc_def crc_hi_def crc_lo_def bit_simps bit_255)
qed

lemma crc_hi_rx_crc [simp]: "crc_hi (rx_crc h l) = h"
  and crc_lo_rx_crc [simp]: "crc_lo (rx_crc h l) = l"
  by (rule bit_word_eqI; simp add: rx_crc_def crc_hi_def crc_lo_def bit_simps bit_255;
      auto dest: bit_imp_le_length)+

interpretation stm_crc: crc_register "0x8408" crc_shift crc_byte
  by unfold_locales (simp_all add: crc_shift_def crc_byte_def)

lemma stm_crc16_Some: "stm_crc16 (Some xs) = NOT (foldl crc_byte 0xFFFF xs)"
proof -
  have "(w :: u16) AND 0xFFFF = w" for w
    using take_bit_eq_mask [of 16 w] by (simp add: mask_numeral take_bit_word_eq_self)
  then show ?thesis by (simp add: stm_crc16.simps)
qed

lemma crc_detects_byte:
  assumes "a \<noteq> b"
  shows "stm_crc16 (Some (xs @ a # ys)) \<noteq> stm_crc16 (Some (xs @ b # ys))"
proof
  assume "stm_crc16 (Some (xs @ a # ys)) = stm_crc16 (Some (xs @ b # ys))"
  then have "foldl crc_byte 0xFFFF (xs @ a # ys) = foldl crc_byte 0xFFFF (xs @ b # ys)"
    by (simp only: stm_crc16_Some) (metis bit.double_compl)
  with stm_crc.detects_byte [OF assms] show False by blast
qed

subsection \<open>The layout of a built frame\<close>

lemma frame_bytes_layout:
  "frame_bytes st addr cmd pl =
     STM_SOF1 # STM_SOF2 # STM_VER # STM_TYPE_STM # st # of_nat (length addr) # addr @
     cmd # hi8 (length pl) # lo8 (length pl) # pl @
     [crc_hi (stm_crc16 (Some (frame_body st addr cmd pl))),
      crc_lo (stm_crc16 (Some (frame_body st addr cmd pl)))]"
  by (simp add: frame_bytes_def frame_body_def Let_def)

lemma length_frame_body [simp]: "length (frame_body st addr cmd pl) = 7 + length addr + length pl"
  by (simp add: frame_body_def)

lemma length_frame_bytes [simp]: "length (frame_bytes st addr cmd pl) = 11 + length addr + length pl"
  by (simp add: frame_bytes_layout)

lemma unat_of_nat_src_len: "n \<le> STM_SRC_LEN_MAX \<Longrightarrow> unat (of_nat n :: byte) = n"
  by (simp add: unat_byte_of_nat)

text \<open>Reading the fields of a buffer that starts with a built frame.\<close>

definition wf_fields :: "bytes \<Rightarrow> bytes \<Rightarrow> bool" where
  "wf_fields addr pl \<longleftrightarrow> length addr \<le> STM_SRC_LEN_MAX \<and> length pl \<le> STM_MAX_PAYLOAD"

lemma frame_src_len:
  "wf_fields addr pl \<Longrightarrow> unat ((frame_bytes st addr cmd pl @ rest) ! 5) = length addr"
  by (simp add: frame_bytes_layout wf_fields_def unat_of_nat_src_len)

lemma nth_shift_6:
  "i \<ge> 6 + n \<Longrightarrow> length addr = n \<Longrightarrow>
   (a # b # c # d # e # f # addr @ xs) ! i = xs ! (i - 6 - n)"
  by (simp add: nth_append numeral_eq_Suc nth_Cons split: nat.splits)

lemma frame_nth_cmd:
  "(frame_bytes st addr cmd pl @ rest) ! (6 + length addr) = cmd"
  unfolding frame_bytes_layout by (simp add: nth_shift_6)

lemma frame_nth_len:
  "(frame_bytes st addr cmd pl @ rest) ! (7 + length addr) = hi8 (length pl)"
  "(frame_bytes st addr cmd pl @ rest) ! (8 + length addr) = lo8 (length pl)"
  unfolding frame_bytes_layout by (simp_all add: nth_shift_6 nth_append)

lemma frame_payload_len_field:
  assumes "wf_fields addr pl"
  shows "be16 ((frame_bytes st addr cmd pl @ rest) ! (7 + length addr))
              ((frame_bytes st addr cmd pl @ rest) ! (8 + length addr)) = length pl"
  using assms by (simp add: frame_nth_len be16_hi8_lo8 wf_fields_def)

lemma frame_nth_crc:
  "(frame_bytes st addr cmd pl @ rest) ! (9 + length addr + length pl) =
     crc_hi (stm_crc16 (Some (frame_body st addr cmd pl)))"
  "(frame_bytes st addr cmd pl @ rest) ! (10 + length addr + length pl) =
     crc_lo (stm_crc16 (Some (frame_body st addr cmd pl)))"
  unfolding frame_bytes_layout by (simp_all add: nth_shift_6 nth_append)

lemma frame_body_slice:
  "take (7 + length addr + length pl) (drop 2 (frame_bytes st addr cmd pl @ rest)) =
     frame_body st addr cmd pl"
  by (simp add: frame_bytes_def Let_def)

lemma frame_payload_after:
  assumes "wf_fields addr pl"
  shows "take (length pl) (drop (9 + unat ((frame_bytes st addr cmd pl @ rest) ! 5))
           (frame_bytes st addr cmd pl @ rest)) = pl"
proof -
  have "drop (9 + length addr) (frame_bytes st addr cmd pl @ rest) =
    pl @ [crc_hi (stm_crc16 (Some (frame_body st addr cmd pl))),
          crc_lo (stm_crc16 (Some (frame_body st addr cmd pl)))] @ rest"
    unfolding frame_bytes_layout by (simp add: numeral_eq_Suc)
  then show ?thesis
    by (simp add: frame_src_len [OF assms])
qed

text \<open>
  The recogniser on a buffer that is long enough: only the check word decides.
\<close>

lemma stm_frame_complete_crc:
  assumes "buf ! 0 = STM_SOF1" and "buf ! 1 = STM_SOF2"
    and "unat (buf ! 5) = n" and "n \<le> STM_SRC_LEN_MAX"
    and "be16 (buf ! (7 + n)) (buf ! (8 + n)) = m" and "m \<le> STM_MAX_PAYLOAD"
    and "length buf \<ge> 11 + n + m"
  shows "stm_frame_complete (Some buf) =
    (if stm_crc16 (Some (take (7 + n + m) (drop 2 buf))) = rx_crc (buf ! (9 + n + m)) (buf ! (10 + n + m))
     then int (11 + n + m) else STM_FRAME_BAD)"
  using assms by (simp add: stm_frame_complete.simps Let_def add_ac)

lemma stm_frame_complete_frame:
  assumes "wf_fields addr pl"
  shows "stm_frame_complete (Some (frame_bytes st addr cmd pl @ rest)) = int (11 + length addr + length pl)"
proof -
  let ?buf = "frame_bytes st addr cmd pl @ rest"
  have "?buf ! 0 = STM_SOF1" "?buf ! 1 = STM_SOF2"
    by (simp_all add: frame_bytes_layout)
  moreover note frame_src_len [OF assms] frame_payload_len_field [OF assms]
  moreover have "length addr \<le> STM_SRC_LEN_MAX" "length pl \<le> STM_MAX_PAYLOAD"
    "11 + length addr + length pl \<le> length ?buf"
    using assms by (simp_all add: wf_fields_def)
  ultimately have "stm_frame_complete (Some ?buf) =
    (if stm_crc16 (Some (take (7 + length addr + length pl) (drop 2 ?buf))) =
        rx_crc (?buf ! (9 + length addr + length pl)) (?buf ! (10 + length addr + length pl))
     then int (11 + length addr + length pl) else STM_FRAME_BAD)"
    by (intro stm_frame_complete_crc)
  then show ?thesis
    by (simp only: frame_body_slice frame_nth_crc rx_crc_split if_True simp_thms)
qed

text \<open>Cutting a long enough buffer at the field boundaries.\<close>

lemma frame_split:
  assumes "11 + n + m \<le> length buf"
  shows "buf = buf ! 0 # buf ! 1 # buf ! 2 # buf ! 3 # buf ! 4 # buf ! 5 # take n (drop 6 buf) @
    buf ! (6 + n) # buf ! (7 + n) # buf ! (8 + n) # take m (drop (9 + n) buf) @
    buf ! (9 + n + m) # buf ! (10 + n + m) # drop (11 + n + m) buf"
proof -
  have step: "drop k buf = buf ! k # drop (k + 1) buf" if "k < 11 + n + m" for k
    using that assms by (simp add: Cons_nth_drop_Suc)
  have head: "buf = buf ! 0 # buf ! 1 # buf ! 2 # buf ! 3 # buf ! 4 # buf ! 5 # drop 6 buf"
    using step [of 0] step [of 1] step [of 2] step [of 3] step [of 4] step [of 5]
    by (simp add: numeral_eq_Suc)
  have addr: "drop 6 buf = take n (drop 6 buf) @ drop (6 + n) buf"
    by (metis append_take_drop_id drop_drop add.commute)
  have mid: "drop (6 + n) buf = buf ! (6 + n) # buf ! (7 + n) # buf ! (8 + n) # drop (9 + n) buf"
    using step [of "6 + n"] step [of "7 + n"] step [of "8 + n"] by (simp add: add_ac)
  have pl: "drop (9 + n) buf = take m (drop (9 + n) buf) @ drop (9 + n + m) buf"
    by (metis append_take_drop_id drop_drop add.commute)
  have tail: "drop (9 + n + m) buf = buf ! (9 + n + m) # buf ! (10 + n + m) # drop (11 + n + m) buf"
    using step [of "9 + n + m"] step [of "10 + n + m"] by (simp add: add_ac)
  show ?thesis
    by (subst head, subst addr, subst mid, subst pl, subst tail) (rule refl)
qed

text \<open>What a positive answer of the recogniser says about the buffer.\<close>

lemma stm_frame_complete_pos:
  assumes "stm_frame_complete (Some buf) = r" and "0 < r"
  obtains n m where "buf ! 0 = STM_SOF1" "buf ! 1 = STM_SOF2" "n = unat (buf ! 5)"
    "n \<le> STM_SRC_LEN_MAX" "m = be16 (buf ! (7 + n)) (buf ! (8 + n))" "m \<le> STM_MAX_PAYLOAD"
    "r = int (11 + n + m)" "11 + n + m \<le> length buf"
    "stm_crc16 (Some (take (7 + n + m) (drop 2 buf))) = rx_crc (buf ! (9 + n + m)) (buf ! (10 + n + m))"
  using assms
  by (auto simp: stm_frame_complete.simps Let_def not_less add_ac split: if_splits)

text \<open>A frame with any version and type.\<close>

definition frame_with :: "byte \<Rightarrow> byte \<Rightarrow> byte \<Rightarrow> bytes \<Rightarrow> byte \<Rightarrow> bytes \<Rightarrow> bytes" where
  "frame_with v t src_type addr cmd payload =
     (let body = [v, t, src_type, of_nat (length addr)] @ addr @ [cmd, hi8 (length payload), lo8 (length payload)] @ payload;
          crc = stm_crc16 (Some body)
      in [STM_SOF1, STM_SOF2] @ body @ [crc_hi crc, crc_lo crc])"

lemma frame_bytes_with: "frame_bytes st addr cmd pl = frame_with STM_VER STM_TYPE_STM st addr cmd pl"
  by (simp add: frame_bytes_def frame_with_def frame_body_def Let_def)

lemma frame_with_of_buffer:
  assumes "11 + n + m \<le> length buf" and "buf ! 0 = STM_SOF1" and "buf ! 1 = STM_SOF2" and "n = unat (buf ! 5)"
    and "m = be16 (buf ! (7 + n)) (buf ! (8 + n))"
    and "stm_crc16 (Some (take (7 + n + m) (drop 2 buf))) =
         rx_crc (buf ! (9 + n + m)) (buf ! (10 + n + m))"
  shows "take (11 + n + m) buf =
         frame_with (buf ! 2) (buf ! 3) (buf ! 4) (take n (drop 6 buf)) (buf ! (6 + n)) (take m (drop (9 + n) buf))"
proof -
  let ?a = "take n (drop 6 buf)" and ?p = "take m (drop (9 + n) buf)"
  let ?body = "[buf ! 2, buf ! 3, buf ! 4, of_nat (length ?a)] @ ?a @ [buf ! (6 + n), hi8 (length ?p), lo8 (length ?p)] @ ?p"
  have la: "length ?a = n" and lp: "length ?p = m"
    using assms(1) by simp_all
  have len: "hi8 m = buf ! (7 + n)" "lo8 m = buf ! (8 + n)" "(of_nat n :: byte) = buf ! 5"
    using assms(4,5) by (simp_all add: hi8_be16 lo8_be16)
  have split: "buf = STM_SOF1 # STM_SOF2 # ?body @
      buf ! (9 + n + m) # buf ! (10 + n + m) # drop (11 + n + m) buf"
    using frame_split [OF assms(1)] la lp len assms(2,3) by simp
  have lb: "length ?body = 7 + n + m"
    using la lp by simp
  have "drop 2 buf = ?body @ buf ! (9 + n + m) # buf ! (10 + n + m) # drop (11 + n + m) buf"
    by (subst split) simp
  then have body: "take (7 + n + m) (drop 2 buf) = ?body"
    using lb by (metis append_eq_conv_conj)
  have crc: "stm_crc16 (Some ?body) = rx_crc (buf ! (9 + n + m)) (buf ! (10 + n + m))"
    using assms(6) unfolding body .
  have cut: "take (Suc (Suc (length b + 2))) (x # y # b @ g # h # r) = x # y # b @ [g, h]" for b :: bytes and x y g h r by simp
  have total: "11 + n + m = Suc (Suc (length ?body + 2))"
    using lb by linarith
  have "take (Suc (Suc (length ?body + 2)))
      (STM_SOF1 # STM_SOF2 # ?body @ buf ! (9 + n + m) # buf ! (10 + n + m) # drop (11 + n + m) buf) =
      STM_SOF1 # STM_SOF2 # ?body @ [buf ! (9 + n + m), buf ! (10 + n + m)]"
    by (rule cut)
  then have "take (11 + n + m) buf = STM_SOF1 # STM_SOF2 # ?body @ [buf ! (9 + n + m), buf ! (10 + n + m)]"
    unfolding total [symmetric] split [symmetric] .
  then show ?thesis
    unfolding frame_with_def Let_def crc crc_hi_rx_crc crc_lo_rx_crc by (simp only: append.simps)
qed

lemma frame_with_complete:
  assumes "wf_fields addr pl"
  shows "stm_frame_complete (Some (frame_with v t st addr cmd pl @ rest)) = int (11 + length addr + length pl)"
proof -
  let ?n = "length addr" and ?m = "length pl"
  let ?body = "[v, t, st, of_nat ?n] @ addr @ [cmd, hi8 ?m, lo8 ?m] @ pl"
  let ?crc = "stm_crc16 (Some ?body)" and ?buf = "frame_with v t st addr cmd pl @ rest"
  have buf: "?buf = STM_SOF1 # STM_SOF2 # v # t # st # of_nat ?n # addr @ cmd # hi8 ?m # lo8 ?m # pl @ crc_hi ?crc # crc_lo ?crc # rest"
    by (simp add: frame_with_def Let_def)
  have "?buf ! 0 = STM_SOF1" "?buf ! 1 = STM_SOF2" by (simp_all add: buf)
  moreover have n: "unat (?buf ! 5) = ?n" using assms by (simp add: buf wf_fields_def unat_of_nat_src_len)
  moreover have "be16 (?buf ! (7 + ?n)) (?buf ! (8 + ?n)) = ?m"
    using assms unfolding buf by (simp add: nth_shift_6 nth_append be16_hi8_lo8 wf_fields_def)
  moreover have "?buf ! (9 + ?n + ?m) = crc_hi ?crc" "?buf ! (10 + ?n + ?m) = crc_lo ?crc"
    unfolding buf by (simp_all add: nth_shift_6 nth_append)
  moreover have "take (7 + ?n + ?m) (drop 2 ?buf) = ?body"
  proof -
    have "drop 2 ?buf = ?body @ crc_hi ?crc # crc_lo ?crc # rest" unfolding buf by simp
    moreover have "length ?body = 7 + ?n + ?m" by simp
    ultimately show ?thesis by (metis append_eq_conv_conj)
  qed
  moreover have "?n \<le> STM_SRC_LEN_MAX" "?m \<le> STM_MAX_PAYLOAD" "11 + ?n + ?m \<le> length ?buf"
    using assms by (simp_all add: wf_fields_def frame_with_def Let_def)
  ultimately show ?thesis by (subst stm_frame_complete_crc [of ?buf ?n ?m]) (simp_all only: rx_crc_split if_True simp_thms)
qed

text \<open>A cut frame is never rejected: every check reads only bytes that have arrived.\<close>

lemma stm_frame_complete_cut:
  assumes "wf_fields addr pl" and "k < 11 + length addr + length pl"
  shows "stm_frame_complete (Some (take k (frame_bytes st addr cmd pl))) = STM_FRAME_NEED_MORE"
proof -
  let ?f = "frame_bytes st addr cmd pl"
  have nth: "take k ?f ! i = ?f ! i" if "i < k" for i
    using that by simp
  have len: "length (take k ?f) = k"
    using assms(2) by simp
  have f: "?f ! 0 = STM_SOF1" "?f ! 1 = STM_SOF2"
    by (simp_all add: frame_bytes_layout)
  have n: "unat (?f ! 5) = length addr"
    using frame_src_len [OF assms(1), where rest = "[]"] by simp
  have m: "be16 (?f ! (7 + length addr)) (?f ! (8 + length addr)) = length pl"
    using frame_payload_len_field [OF assms(1), where rest = "[]"] by simp
  have b: "\<not> length addr > STM_SRC_LEN_MAX" "\<not> length pl > STM_MAX_PAYLOAD"
    using assms(1) by (simp_all add: wf_fields_def)
  consider "k < 2" | "2 \<le> k" "k < 6" | "6 \<le> k" "k < 9 + length addr" | "9 + length addr \<le> k"
    by linarith
  then show ?thesis
  proof cases
    case 1
    then show ?thesis by (simp only: stm_frame_complete.simps len Let_def if_True)
  next
    case 2
    then show ?thesis
      using f nth [of 0] nth [of 1] by (simp add: stm_frame_complete.simps len Let_def)
  next
    case 3
    then show ?thesis
      using f nth [of 0] nth [of 1] nth [of 5] n b
      by (simp add: stm_frame_complete.simps len Let_def)
  next
    case 4
    then show ?thesis
      using f nth [of 0] nth [of 1] nth [of 5] nth [of "7 + length addr"] nth [of "8 + length addr"]
        n m b assms(2)
      by (simp add: stm_frame_complete.simps len Let_def)
  qed
qed

text \<open>A changed byte that is not part of a length field leaves the lengths and breaks the check word.\<close>

lemma foldl_crc_update:
  assumes "i < length xs" and "b \<noteq> xs ! i"
  shows "stm_crc16 (Some (xs[i := b])) \<noteq> stm_crc16 (Some xs)"
proof -
  have "xs = take i xs @ xs ! i # drop (Suc i) xs"
    using assms(1) by (rule id_take_nth_drop)
  moreover have "xs[i := b] = take i xs @ b # drop (Suc i) xs"
    using assms(1) by (rule upd_conv_take_nth_drop)
  ultimately show ?thesis
    using assms(2) crc_detects_byte by metis
qed

lemma take_drop_update:
  "k \<le> i \<Longrightarrow> take n (drop k (xs[i := b])) = (take n (drop k xs))[i - k := b]"
  by (simp add: drop_update_swap take_update_swap)

lemma stm_frame_complete_corrupt:
  assumes wf: "wf_fields addr pl" and i: "2 \<le> i" "i < 11 + length addr + length pl"
    and "i \<noteq> 5" "i \<noteq> 7 + length addr" "i \<noteq> 8 + length addr"
    and b: "b \<noteq> frame_bytes st addr cmd pl ! i"
  shows "stm_frame_complete (Some ((frame_bytes st addr cmd pl)[i := b])) = STM_FRAME_BAD"
proof -
  let ?f = "frame_bytes st addr cmd pl" and ?n = "length addr" and ?m = "length pl"
  let ?g = "?f[i := b]" and ?body = "frame_body st addr cmd pl"
  have f: "?f ! 0 = STM_SOF1" "?f ! 1 = STM_SOF2"
    by (simp_all add: frame_bytes_layout)
  have n: "unat (?f ! 5) = ?n"
    using frame_src_len [OF wf, where rest = "[]"] by simp
  have m: "be16 (?f ! (7 + ?n)) (?f ! (8 + ?n)) = ?m"
    using frame_payload_len_field [OF wf, where rest = "[]"] by simp
  have crc: "?f ! (9 + ?n + ?m) = crc_hi (stm_crc16 (Some ?body))"
    "?f ! (10 + ?n + ?m) = crc_lo (stm_crc16 (Some ?body))"
    using frame_nth_crc [where rest = "[]"] by simp_all
  have body: "take (7 + ?n + ?m) (drop 2 ?f) = ?body"
    using frame_body_slice [where rest = "[]"] by simp
  have "stm_frame_complete (Some ?g) =
    (if stm_crc16 (Some (take (7 + ?n + ?m) (drop 2 ?g))) = rx_crc (?g ! (9 + ?n + ?m)) (?g ! (10 + ?n + ?m))
     then int (11 + ?n + ?m) else STM_FRAME_BAD)"
    using assms f n m by (intro stm_frame_complete_crc) (simp_all add: wf_fields_def)
  moreover have "take (7 + ?n + ?m) (drop 2 ?g) = ?body[i - 2 := b]"
    using i(1) by (simp only: take_drop_update body)
  moreover have "stm_crc16 (Some (?body[i - 2 := b])) \<noteq> rx_crc (?g ! (9 + ?n + ?m)) (?g ! (10 + ?n + ?m))"
  proof (cases "i < 9 + ?n + ?m")
    case True
    have "Suc (Suc (i - 2)) = i" using i(1) by simp
    then have "?body ! (i - 2) = ?f ! i"
      using True i(1) body [symmetric] by simp
    then have "stm_crc16 (Some (?body[i - 2 := b])) \<noteq> stm_crc16 (Some ?body)"
      using True i(1) b by (intro foldl_crc_update) simp_all
    then show ?thesis
      using True crc by simp
  next
    case False
    then have "i = 9 + ?n + ?m \<or> i = 10 + ?n + ?m" and "?body[i - 2 := b] = ?body"
      using i by (auto simp: list_update_beyond)
    moreover have "crc_hi (stm_crc16 (Some ?body)) \<noteq> b" if "i = 9 + ?n + ?m"
      using that b crc by auto
    moreover have "crc_lo (stm_crc16 (Some ?body)) \<noteq> b" if "i = 10 + ?n + ?m"
      using that b crc by auto
    ultimately show ?thesis
      using crc i by (metis crc_hi_rx_crc crc_lo_rx_crc length_frame_bytes nth_list_update_eq nth_list_update_neq)
  qed
  ultimately show ?thesis by simp
qed

subsection \<open>Properties\<close>

text \<open>C1: round trip. Every frame the builder produces is recognised at its full length, whatever
  bytes follow it, and the accessors return the command, payload length and payload given.\<close>

theorem stm_frame_roundtrip:
  assumes "stm_build_frame_src out_ok cap st (Some addr) (length addr) cmd (Some pl) (length pl) = (r, out)"
    and "0 < r"
  shows "stm_frame_complete (Some (out @ rest)) = r \<and> stm_frame_cmd (out @ rest) = cmd \<and>
    stm_frame_payload_len (out @ rest) = length pl \<and>
    take (length pl) (stm_frame_payload (out @ rest)) = pl"
proof -
  have wf: "wf_fields addr pl" and out: "out = frame_bytes st addr cmd pl"
    and r: "r = int (11 + length addr + length pl)"
    using assms by (auto simp: stm_build_frame_src_def wf_fields_def Let_def split: if_splits)
  show ?thesis
    using stm_frame_complete_frame [OF wf] frame_src_len [OF wf] frame_payload_len_field [OF wf]
      frame_payload_after [OF wf]
    by (simp add: out r stm_frame_cmd_def stm_frame_payload_len_def stm_frame_payload_def
        frame_nth_cmd Let_def)
qed

theorem stm_frame_roundtrip_witness:
  "stm_frame_complete (Some (frame_bytes 2 [65] 4 [7, 8] @ [1])) = 14"
  using stm_frame_roundtrip [of True 20 2 "[65]" 4 "[7, 8]" 14 "frame_bytes 2 [65] 4 [7, 8]" "[1]"]
  by (simp add: stm_build_frame_src_def)

text \<open>C4: the recogniser accepts exactly the frames. It accepts a buffer with length \<open>n\<close> when, and only when, the buffer
  starts with a frame of \<open>n\<close> bytes: marks, header, an address of at most 31 and a payload of at most 1040 bytes of the lengths
  the header gives, and the check word of all that. Neither the version nor the type is compared: any
  two bytes stand there.\<close>

theorem stm_frame_complete_iff:
  "stm_frame_complete (Some buf) = int n \<and> 0 < n \<longleftrightarrow>
     (\<exists>v t st addr cmd pl rest. wf_fields addr pl \<and> buf = frame_with v t st addr cmd pl @ rest \<and> n = 11 + length addr + length pl)"
proof
  assume "stm_frame_complete (Some buf) = int n \<and> 0 < n"
  then have "stm_frame_complete (Some buf) = int n" "0 < int n" by simp_all
  then show "\<exists>v t st addr cmd pl rest. wf_fields addr pl \<and> buf = frame_with v t st addr cmd pl @ rest \<and> n = 11 + length addr + length pl"
  proof (rule stm_frame_complete_pos)
    fix k m
    assume k: "k = unat (buf ! 5)" and m: "m = be16 (buf ! (7 + k)) (buf ! (8 + k))"
      and h: "k \<le> STM_SRC_LEN_MAX" "m \<le> STM_MAX_PAYLOAD" "int n = int (11 + k + m)" "11 + k + m \<le> length buf"
        "buf ! 0 = STM_SOF1" "buf ! 1 = STM_SOF2"
        "stm_crc16 (Some (take (7 + k + m) (drop 2 buf))) = rx_crc (buf ! (9 + k + m)) (buf ! (10 + k + m))"
    have "take (11 + k + m) buf = frame_with (buf ! 2) (buf ! 3) (buf ! 4) (take k (drop 6 buf)) (buf ! (6 + k)) (take m (drop (9 + k) buf))"
      by (rule frame_with_of_buffer [OF h(4-6) k m h(7)])
    then have "buf = frame_with (buf ! 2) (buf ! 3) (buf ! 4) (take k (drop 6 buf)) (buf ! (6 + k)) (take m (drop (9 + k) buf)) @ drop (11 + k + m) buf"
      by (metis append_take_drop_id)
    moreover have "length (take k (drop 6 buf)) = k" "length (take m (drop (9 + k) buf)) = m" using h(4) by simp_all
    ultimately show ?thesis using h(1-3) by (intro exI conjI) (auto simp: wf_fields_def)
  qed
next
  assume "\<exists>v t st addr cmd pl rest. wf_fields addr pl \<and> buf = frame_with v t st addr cmd pl @ rest \<and> n = 11 + length addr + length pl"
  then show "stm_frame_complete (Some buf) = int n \<and> 0 < n" using frame_with_complete by fastforce
qed

text \<open>Streaming. A proper prefix of a well-formed frame is never rejected: the recogniser asks
  for more bytes until the whole frame has arrived.\<close>

theorem stm_frame_prefix_needs_more:
  assumes "wf_fields addr pl" and "k < length (frame_bytes st addr cmd pl)"
  shows "stm_frame_complete (Some (take k (frame_bytes st addr cmd pl))) = STM_FRAME_NEED_MORE"
  using assms by (intro stm_frame_complete_cut) simp_all

theorem stm_frame_prefix_needs_more_witness:
  "stm_frame_complete (Some (take 9 (frame_bytes 1 [] 4 []))) = 0"
  using stm_frame_prefix_needs_more [of "[]" "[]" 9 1 4] by (simp add: wf_fields_def)

text \<open>C18: error detection. Changing any one byte of a frame, the marks of its start included, other than the three
  length bytes (which move the boundary of the frame), makes the recogniser report a bad frame.\<close>

theorem stm_frame_detects_corruption:
  assumes "wf_fields addr pl" and "i < length (frame_bytes st addr cmd pl)"
    and "i \<notin> {5, 7 + length addr, 8 + length addr}"
    and "b \<noteq> frame_bytes st addr cmd pl ! i"
  shows "stm_frame_complete (Some ((frame_bytes st addr cmd pl)[i := b])) = STM_FRAME_BAD"
proof (cases "2 \<le> i")
  case True
  then show ?thesis using assms by (intro stm_frame_complete_corrupt) simp_all
next
  case False
  then have "i = 0 \<or> i = 1" by auto
  then show ?thesis using assms(4) by (auto simp: stm_frame_complete.simps frame_bytes_layout)
qed

theorem stm_frame_detects_corruption_witness:
  "stm_frame_complete (Some ((frame_bytes 1 [] 4 [])[1 := 5])) = -1"
  using stm_frame_detects_corruption [of "[]" "[]" 1 1 4 5]
  by (simp add: wf_fields_def frame_bytes_layout stm_consts)

end
