(* ===== verification/Stm_Command_Map.thy ===== *)
theory Stm_Command_Map
  imports C_Strings Stm_Protocol
begin

text \<open>
  \<open>common/stm_command_map.c\<close>: translation of an ASCII user command to a binary STM frame. An
  argument list is the text after the first comma (\<open>None\<close> for the null pointer), a pointer into
  it is the suffix it points at. An encoder writes a payload and returns its length: it is
  modelled as \<open>Some\<close> of the bytes written, \<open>None\<close> for \<open>-1\<close>.
\<close>

subsection \<open>Argument parsing\<close>

definition hex_nibble :: "char \<Rightarrow> int" where
  "hex_nibble c =
     (if 48 \<le> char_code c \<and> char_code c \<le> 57 then int (char_code c) - 48
      else if 97 \<le> char_code c \<and> char_code c \<le> 102 then int (char_code c) - 97 + 10
      else if 65 \<le> char_code c \<and> char_code c \<le> 70 then int (char_code c) - 65 + 10
      else -1)"

lemma hex_nibble_table: "hex_nibble c = (case hex_val c of Some n \<Rightarrow> int n | None \<Rightarrow> -1)"
  by (auto simp: hex_nibble_def hex_val_code is_digit_def is_lower_hex_def is_upper_hex_def)

text \<open>The nibble of the character at position \<open>k\<close>; the terminating NUL is no digit.\<close>

definition nibble_at :: "string \<Rightarrow> nat \<Rightarrow> int" where
  "nibble_at s k = (if k < length s then hex_nibble (s ! k) else -1)"

fun mac_loop :: "nat \<Rightarrow> string \<Rightarrow> bytes option" where
  "mac_loop 0 s = Some []"
| "mac_loop (Suc n) s =
     (let hi = nibble_at s 0; lo = (if hi \<ge> 0 then nibble_at s 1 else -1) in
      if hi < 0 \<or> lo < 0 then None
      else
        let b = byte_of_nibbles (nat hi) (nat lo); s' = drop 2 s in
        if n > 0 then
          (case s' of
             c # t \<Rightarrow> if c = CHR '':'' then map_option (\<lambda>m. b # m) (mac_loop n t) else None
           | [] \<Rightarrow> None)
        else Some [b])"

fun mac_to_bytes :: "string option \<Rightarrow> bytes option" where
  "mac_to_bytes None = None"
| "mac_to_bytes (Some s) = mac_loop 6 s"

fun parse_dev_id :: "string option \<Rightarrow> int \<Rightarrow> int \<Rightarrow> int" where
  "parse_dev_id None lo hi = -1"
| "parse_dev_id (Some args) lo hi =
     (if args = [] then -1
      else let v = atoi args in if v < lo \<or> v > hi then -1 else v)"

fun parse_bool :: "string option \<Rightarrow> int" where
  "parse_bool None = -1"
| "parse_bool (Some s) =
     (if strncasecmp_eq 4 s ''true'' then 1
      else if strncasecmp_eq 5 s ''false'' then 0
      else case s of
        c # _ \<Rightarrow> if c = CHR ''1'' then 1 else if c = CHR ''0'' then 0 else -1
      | [] \<Rightarrow> -1)"

subsection \<open>Argument encoders\<close>

definition enc_dev_id_1_5 :: "string option \<Rightarrow> nat \<Rightarrow> bytes option" where
  "enc_dev_id_1_5 args cap =
     (if cap < 1 then None
      else let id = parse_dev_id args 1 5 in
        if id < 0 then None else Some [of_int id])"

definition enc_dev_id_get_peri :: "string option \<Rightarrow> nat \<Rightarrow> bytes option" where
  "enc_dev_id_get_peri args cap =
     (if cap < 1 then None
      else case args of
        None \<Rightarrow> Some [0x00]
      | Some s \<Rightarrow>
          if s = [] then Some [0x00]
          else let id = atoi s in Some [if id \<ge> 1 \<and> id \<le> 5 then of_int id else 0xFF])"

definition enc_gsm_status :: "string option \<Rightarrow> nat \<Rightarrow> bytes option" where
  "enc_gsm_status args cap =
     (case args of
        None \<Rightarrow> None
      | Some s \<Rightarrow> if cap < 1 \<or> s = [] then None else Some [if atoi s \<noteq> 0 then 0x01 else 0x00])"

text \<open>The suffixes after the first \<open>k\<close> commas, the loop that fills \<open>f[1 .. 6]\<close>.\<close>

fun comma_suffixes :: "nat \<Rightarrow> string \<Rightarrow> string list" where
  "comma_suffixes 0 s = []"
| "comma_suffixes (Suc k) [] = []"
| "comma_suffixes (Suc k) (c # s) =
     (if c = CHR '','' then s # comma_suffixes k s else comma_suffixes (Suc k) s)"

definition enc_set_ble_peri :: "string option \<Rightarrow> nat \<Rightarrow> bytes option" where
  "enc_set_ble_peri args cap =
     (case args of
        None \<Rightarrow> None
      | Some s \<Rightarrow>
          let f = s # comma_suffixes 6 s in
          if length f < 7 then None
          else
            let id = parse_dev_id (Some (f ! 0)) 1 5 in
            if id < 0 then None
            else case mac_to_bytes (Some (f ! 1)) of
              None \<Rightarrow> None
            | Some mac \<Rightarrow>
                let name = f ! 2 in
                (case strchr name CHR '','' of
                   None \<Rightarrow> None
                 | Some name_end \<Rightarrow>
                     let name_len = length name - length name_end in
                     if name_len = 0 \<or> name_len > 15 then None
                     else
                       let interval = strtoul10 (f ! 3);
                           log_b = parse_bool (Some (f ! 4));
                           gps_b = parse_bool (Some (f ! 5));
                           type_b = parse_bool (Some (f ! 6)) in
                       if log_b < 0 \<or> gps_b < 0 \<or> type_b < 0 then None
                       else if cap < 1 + 6 + 1 + name_len + 4 + 1 + 1 + 1 then None
                       else Some ([of_int id] @ mac @ [of_nat name_len] @
                              map byte_of_char (take name_len name) @ be32_bytes interval @
                              [if log_b \<noteq> 0 then 0x01 else 0x00, if gps_b \<noteq> 0 then 0x01 else 0x00,
                               if type_b \<noteq> 0 then 0x33 else 0x34])))"

text \<open>
  The hexadecimal data of \<open>peri-cmd\<close>: blanks and tabs are skipped, CR or LF ends the data,
  \<open>hi\<close> is the pending high nibble (\<open>-1\<close> for none), \<open>acc\<close> the bytes so far, written from offset 9.
\<close>

fun hex_data_loop :: "nat \<Rightarrow> string \<Rightarrow> int \<Rightarrow> bytes \<Rightarrow> bytes option" where
  "hex_data_loop cap [] hi acc = (if hi \<ge> 0 then None else Some acc)"
| "hex_data_loop cap (c # s) hi acc =
     (if c = CHR 0x0D \<or> c = CHR 0x0A then (if hi \<ge> 0 then None else Some acc)
      else if c = CHR '' '' \<or> c = CHR 0x09 then hex_data_loop cap s hi acc
      else
        let nib = hex_nibble c in
        if nib < 0 then None
        else if hi < 0 then hex_data_loop cap s nib acc
        else if 9 + length acc \<ge> cap then None
        else hex_data_loop cap s (-1) (acc @ [byte_of_nibbles (nat hi) (nat nib)]))"

definition enc_peri_cmd :: "string option \<Rightarrow> nat \<Rightarrow> bytes option" where
  "enc_peri_cmd args cap =
     (case args of
        None \<Rightarrow> None
      | Some s \<Rightarrow>
          let id = parse_dev_id (Some s) 0 5 in
          if id < 0 then None
          else case strchr s CHR '','' of
            None \<Rightarrow> None
          | Some c1 \<Rightarrow>
              let mac_s = tl c1 in
              case strchr mac_s CHR '','' of
                None \<Rightarrow> None
              | Some c2 \<Rightarrow>
                  (case (if length c2 < length mac_s then mac_to_bytes (Some mac_s)
                         else Some (replicate 6 0)) of
                     None \<Rightarrow> None
                   | Some mac \<Rightarrow>
                       let lenf = tl c2 in
                       (case strchr lenf CHR '','' of
                          None \<Rightarrow> None
                        | Some c3 \<Rightarrow>
                            let hex = tl c3 in
                            if cap < 1 + 6 + 2 then None
                            else case hex_data_loop cap hex (-1) [] of
                              None \<Rightarrow> None
                            | Some ds \<Rightarrow>
                                let dlen = length ds mod 65536 in
                                Some ([of_int id] @ mac @ [hi8 dlen, lo8 dlen] @ ds))))"

subsection \<open>The command table\<close>

type_synonym stm_arg_encoder = "string option \<Rightarrow> nat \<Rightarrow> bytes option"
type_synonym stm_cmd_entry = "string \<times> byte \<times> stm_arg_encoder option"

definition k_cmd_table :: "stm_cmd_entry list" where
  "k_cmd_table =
    [(''set-stm-reboot'', 0x01, None),
     (''system-restart'', 0x02, None),
     (''set-stm-factory-reset'', 0x03, None),
     (''get-device-info'', 0x04, None),
     (''get-reboot-info'', 0x05, None),
     (''system_alive'', 0x06, None),
     (''set-ble-scan-on'', 0x20, None),
     (''set-ble-scan-off'', 0x21, None),
     (''get-ag-data'', 0x26, None),
     (''get-fuel-data'', 0x27, None),
     (''get-ble-data'', 0x32, None),
     (''get-peri-link'', 0x29, None),
     (''set-ble-peri-info'', 0x22, Some enc_set_ble_peri),
     (''get-ble-peri-info'', 0x23, Some enc_dev_id_get_peri),
     (''del-ble-peri-info'', 0x24, Some enc_dev_id_1_5),
     (''peri-cmd'', 0x25, Some enc_peri_cmd),
     (''set-ble-peri-cmd'', 0x25, Some enc_peri_cmd),
     (''get-peri-info'', 0x28, Some enc_dev_id_1_5),
     (''set-gsm-status'', 0x31, Some enc_gsm_status)]"

text \<open>The name up to the first comma, at most \<open>cap - 1\<close> characters.\<close>

fun cmd_name_token :: "string \<Rightarrow> nat \<Rightarrow> string" where
  "cmd_name_token [] n = []"
| "cmd_name_token (c # s) 0 = []"
| "cmd_name_token (c # s) (Suc n) = (if c = CHR '','' then [] else c # cmd_name_token s n)"

fun find_entry :: "string \<Rightarrow> stm_cmd_entry list \<Rightarrow> stm_cmd_entry option" where
  "find_entry name [] = None"
| "find_entry name (e # es) = (if name = fst e then Some e else find_entry name es)"

abbreviation STM_CMD_UNKNOWN :: int where "STM_CMD_UNKNOWN \<equiv> 0"
abbreviation STM_CMD_BUILD_ERR :: int where "STM_CMD_BUILD_ERR \<equiv> - 1"

text \<open>The encoder step: the payload of an entry for a command line, \<open>None\<close> on an encoding error.\<close>

definition encode_args :: "stm_arg_encoder option \<Rightarrow> string \<Rightarrow> bytes option" where
  "encode_args enc ascii_cmd =
     (case enc of
        None \<Rightarrow> Some []
      | Some f \<Rightarrow> f (map_option tl (strchr ascii_cmd CHR '','')) STM_MAX_PAYLOAD)"

definition stm_cmd_build_from_ascii ::
    "string option \<Rightarrow> byte \<Rightarrow> bytes option \<Rightarrow> nat \<Rightarrow> bool \<Rightarrow> int \<Rightarrow> int \<times> bytes" where
  "stm_cmd_build_from_ascii ascii_cmd src_type src_addr src_len out_ok out_cap =
     (case ascii_cmd of
        None \<Rightarrow> (STM_CMD_BUILD_ERR, [])
      | Some s \<Rightarrow>
          if \<not> out_ok then (STM_CMD_BUILD_ERR, [])
          else
            case find_entry (cmd_name_token s 39) k_cmd_table of
              None \<Rightarrow> (STM_CMD_UNKNOWN, [])
            | Some (name, opcode, enc) \<Rightarrow>
                (case encode_args enc s of
                   None \<Rightarrow> (STM_CMD_BUILD_ERR, [])
                 | Some payload \<Rightarrow>
                     let plen = length payload mod 65536;
                         (flen, out) = stm_build_frame_src out_ok out_cap src_type src_addr src_len opcode
                            (if plen > 0 then Some payload else None) plen
                     in (if flen > 0 then flen else STM_CMD_BUILD_ERR, out)))"

definition stm_cmd_try_hex_passthrough :: "string option \<Rightarrow> int" where
  "stm_cmd_try_hex_passthrough body = 0"

subsection \<open>The encoder contract\<close>

declare parse_bool.simps [simp del] parse_dev_id.simps [simp del] mac_to_bytes.simps [simp del]
  mac_loop.simps [simp del]

text \<open>
  What \<open>stm_cmd_build_from_ascii\<close> relies on: an encoder never writes more than the capacity it is
  given. The lemmas of the locale are the client side; every encoder of the table is an instance.
\<close>

locale arg_encoder =
  fixes enc :: stm_arg_encoder
  assumes enc_bounded: "enc args cap = Some p \<Longrightarrow> length p \<le> cap"
begin

lemma payload_fits: "enc args STM_MAX_PAYLOAD = Some p \<Longrightarrow> length p mod 65536 = length p"
  by (drule enc_bounded) simp

lemma frame_fits:
  "enc args STM_MAX_PAYLOAD = Some p \<Longrightarrow> length addr \<le> STM_SRC_LEN_MAX \<Longrightarrow> wf_fields addr p"
  by (drule enc_bounded) (simp add: wf_fields_def)

end

lemma length_mac_loop: "mac_loop n s = Some m \<Longrightarrow> length m = n"
  by (induction n s arbitrary: m rule: mac_loop.induct)
     (auto simp: Let_def mac_loop.simps split: if_splits list.splits)

lemma length_mac: "mac_to_bytes a = Some m \<Longrightarrow> length m = 6"
  by (cases a) (auto simp: mac_to_bytes.simps dest: length_mac_loop)

lemma hex_data_loop_bound:
  "hex_data_loop cap s hi acc = Some ds \<Longrightarrow> 9 + length acc \<le> cap \<Longrightarrow> 9 + length ds \<le> cap"
  by (induction cap s hi acc rule: hex_data_loop.induct) (auto simp: Let_def split: if_splits)

lemma hex_data_loop_cap:
  "hex_data_loop cap s hi acc = Some ds \<Longrightarrow> 9 \<le> cap \<Longrightarrow> 9 + length acc \<le> cap \<Longrightarrow> length ds \<le> cap - 9"
  by (drule hex_data_loop_bound) auto

interpretation enc_1_5: arg_encoder enc_dev_id_1_5
  by unfold_locales (auto simp: enc_dev_id_1_5_def Let_def split: if_splits)

interpretation enc_get_peri: arg_encoder enc_dev_id_get_peri
  by unfold_locales (auto simp: enc_dev_id_get_peri_def Let_def split: if_splits option.splits)

interpretation enc_gsm: arg_encoder enc_gsm_status
  by unfold_locales (auto simp: enc_gsm_status_def Let_def split: if_splits option.splits)

interpretation enc_set_ble: arg_encoder enc_set_ble_peri
  by unfold_locales
     (auto simp: enc_set_ble_peri_def Let_def be32_bytes_def length_mac
       split: if_splits option.splits)

interpretation enc_peri: arg_encoder enc_peri_cmd
  by unfold_locales
     (auto simp: enc_peri_cmd_def Let_def dest!: length_mac hex_data_loop_cap
       split: if_splits option.splits)

text \<open>Every encoder of the table meets the contract.\<close>

lemma table_encoders: "(name, op, Some f) \<in> set k_cmd_table \<Longrightarrow> arg_encoder f"
  by (auto simp: k_cmd_table_def enc_1_5.arg_encoder_axioms enc_get_peri.arg_encoder_axioms
      enc_gsm.arg_encoder_axioms enc_set_ble.arg_encoder_axioms enc_peri.arg_encoder_axioms)

subsection \<open>Looking a command up\<close>

lemma find_entry_Some: "find_entry name es = Some e \<Longrightarrow> e \<in> set es \<and> fst e = name"
  by (induction es) (auto split: if_splits)

lemma find_entry_None: "find_entry name es = None \<longleftrightarrow> name \<notin> fst ` set es"
  by (induction es) auto

lemma find_entry_distinct:
  "distinct (map fst es) \<Longrightarrow> e \<in> set es \<Longrightarrow> find_entry (fst e) es = Some e"
  by (induction es) (auto simp: rev_image_eqI)

lemma distinct_k_cmd_table: "distinct (map fst k_cmd_table)"
  by (simp add: k_cmd_table_def)

lemma cmd_name_token_append:
  "CHR '','' \<notin> set name \<Longrightarrow> length name \<le> n \<Longrightarrow> t = [] \<or> hd t = CHR '','' \<Longrightarrow>
   cmd_name_token (name @ t) n = name"
proof (induction name arbitrary: n)
  case Nil
  then show ?case by (cases t; cases n) auto
next
  case (Cons c name)
  then show ?case by (cases n) auto
qed

lemma k_cmd_table_names:
  "\<forall>e \<in> set k_cmd_table. CHR '','' \<notin> set (fst e) \<and> length (fst e) \<le> 39"
  by (simp add: k_cmd_table_def)

subsection \<open>Reading well-formed arguments\<close>

definition dec_char :: "nat \<Rightarrow> char" where
  "dec_char k = char_of (48 + k)"

lemma char_code_dec_char [simp]: "k < 10 \<Longrightarrow> char_code (dec_char k) = 48 + k"
  by (simp add: char_code_def dec_char_def)

lemma dec_char_eqs: "dec_char 1 = CHR ''1''" "dec_char (Suc 0) = CHR ''1''" "dec_char 2 = CHR ''2''"
  by code_simp+

lemma dec_char_facts:
  assumes "k < 10"
  shows "is_digit (dec_char k)" and "digit_val (dec_char k) = k" and "\<not> c_isspace (dec_char k)"
    and "dec_char k \<noteq> CHR ''-''" and "dec_char k \<noteq> CHR ''+''" and "dec_char k \<noteq> CHR '',''"
proof -
  show "is_digit (dec_char k)" and "digit_val (dec_char k) = k" and "\<not> c_isspace (dec_char k)"
    using assms by (simp_all add: is_digit_def digit_val_def c_isspace_def)
  have "char_code (dec_char k) \<noteq> 45" "char_code (dec_char k) \<noteq> 43" "char_code (dec_char k) \<noteq> 44"
    using assms by simp_all
  then show "dec_char k \<noteq> CHR ''-''" and "dec_char k \<noteq> CHR ''+''" and "dec_char k \<noteq> CHR '',''"
    by (auto simp: char_code_def)
qed

lemma not_digit_comma: "\<not> is_digit CHR '',''"
  by (simp add: is_digit_def char_code_def)

lemma is_digit_facts:
  assumes "is_digit c"
  shows "\<not> c_isspace c" and "c \<noteq> CHR ''-''" and "c \<noteq> CHR ''+''" and "c \<noteq> CHR '',''"
  using assms by (auto simp: is_digit_def c_isspace_def char_code_def)

lemma dec_prefix_stop: "list_all is_digit ds \<Longrightarrow> dec_prefix n (ds @ CHR '','' # t) = dec_prefix n ds"
  by (induction ds arbitrary: n) (auto simp: not_digit_comma)

lemma split_sign_digit: "is_digit c \<Longrightarrow> split_sign (c # t) = (False, c # t)"
  by (simp add: split_sign_def is_digit_facts)

lemma atoi_dec_char: "k < 10 \<Longrightarrow> atoi (dec_char k # CHR '','' # t) = int k"
  by (simp add: atoi_def split_sign_digit dec_char_facts not_digit_comma)

lemma parse_dev_id_digit:
  "k < 10 \<Longrightarrow> lo \<le> int k \<Longrightarrow> int k \<le> hi \<Longrightarrow>
   parse_dev_id (Some (dec_char k # CHR '','' # t)) lo hi = int k"
  by (simp add: parse_dev_id.simps atoi_dec_char)

lemma strtoul10_digits:
  assumes "list_all is_digit ds" and "ds \<noteq> []" and "dec_prefix 0 ds \<le> UINT32_MAX"
  shows "strtoul10 (ds @ CHR '','' # t) = dec_prefix 0 ds"
proof -
  obtain c cs where ds: "ds = c # cs" using assms(2) by (cases ds) auto
  have "split_sign (ds @ CHR '','' # t) = (False, ds @ CHR '','' # t)"
    using assms(1) by (simp add: ds split_sign_digit)
  then show ?thesis
    using assms by (simp add: strtoul10_def dec_prefix_stop)
qed

subsection \<open>Reading hexadecimal text\<close>

lemma hex_of_byte_eq:
  "hex_of_byte b = [hex_digit_upper (unat b div 16), hex_digit_upper (unat b mod 16)]"
proof -
  have "unat (drop_bit 4 b) = unat b div 16"
    by (simp only: unat_drop_bit_eq) (simp add: drop_bit_eq_div)
  moreover have "unat b div 16 < 16"
    using unat_byte_less [of b] by linarith
  ultimately show ?thesis by (simp add: hex_of_byte_def)
qed

lemma unat_div_16: "unat (b :: byte) div 16 < 16"
  using unat_byte_less [of b] by linarith

lemma hex_nibble_digit: "n < 16 \<Longrightarrow> hex_nibble (hex_digit_upper n) = int n"
  by (simp add: hex_nibble_table)

lemma hex_digit_not_special:
  assumes "n < 16"
  shows "hex_digit_upper n \<noteq> CHR 0x0D" and "hex_digit_upper n \<noteq> CHR 0x0A"
    and "hex_digit_upper n \<noteq> CHR '' ''" and "hex_digit_upper n \<noteq> CHR 0x09"
    and "hex_digit_upper n \<noteq> CHR '',''"
  using hex_digit_upper_code [OF assms] by (auto simp: char_code_def)

lemma hex_data_loop_hex:
  "9 + length acc + length ds \<le> cap \<Longrightarrow> hex_data_loop cap (hex_of_bytes ds) (-1) acc = Some (acc @ ds)"
proof (induction ds arbitrary: acc)
  case Nil
  then show ?case by (simp add: hex_of_bytes_def)
next
  case (Cons b ds)
  from Cons.prems have "hex_data_loop cap (hex_of_bytes ds) (-1) (acc @ [b]) = Some (acc @ [b] @ ds)"
    using Cons.IH [of "acc @ [b]"] by simp
  then show ?case
    using Cons.prems unat_div_16 [of b]
    by (simp add: hex_of_bytes_def hex_of_byte_eq hex_digit_not_special hex_nibble_digit
        byte_of_nibbles_unat)
qed

text \<open>A MAC address in the notation the commands use: \<open>AA:BB:CC:DD:EE:FF\<close>.\<close>

fun mac_text :: "bytes \<Rightarrow> string" where
  "mac_text [] = []"
| "mac_text [b] = hex_of_byte b"
| "mac_text (b # c # bs) = hex_of_byte b @ CHR '':'' # mac_text (c # bs)"

lemma nibble_at_hex:
  "nibble_at (hex_of_byte b @ t) 0 = int (unat b div 16)"
  "nibble_at (hex_of_byte b @ t) (Suc 0) = int (unat b mod 16)"
  using unat_div_16 [of b]
  by (simp_all add: nibble_at_def hex_of_byte_eq hex_nibble_digit)

lemma mac_loop_text: "m \<noteq> [] \<Longrightarrow> mac_loop (length m) (mac_text m @ t) = Some m"
proof (induction m rule: mac_text.induct)
  case 1
  then show ?case by simp
next
  case (2 b)
  then show ?case
    by (simp add: mac_loop.simps nibble_at_hex byte_of_nibbles_unat)
next
  case (3 b c bs)
  moreover have "drop 2 (hex_of_byte b @ u) = u" for u
    by (simp add: hex_of_byte_eq)
  ultimately show ?case
    by (simp add: mac_loop.simps nibble_at_hex byte_of_nibbles_unat)
qed

lemma mac_to_bytes_text: "length m = 6 \<Longrightarrow> mac_to_bytes (Some (mac_text m @ t)) = Some m"
  using mac_loop_text [of m t] by (cases "m = []") (auto simp: mac_to_bytes.simps)

lemma hex_of_byte_no_comma: "CHR '','' \<notin> set (hex_of_byte b)"
proof -
  have "hex_digit_upper (unat b div 16) \<noteq> CHR '',''"
    and "hex_digit_upper (unat b mod 16) \<noteq> CHR '',''"
    using unat_div_16 [of b] by (simp_all add: hex_digit_not_special(5))
  then show ?thesis by (auto simp: hex_of_byte_eq)
qed

lemma mac_text_no_comma: "CHR '','' \<notin> set (mac_text m)"
  by (induction m rule: mac_text.induct) (auto simp: hex_of_byte_no_comma)

definition bool_text :: "bool \<Rightarrow> string" where
  "bool_text b = (if b then ''true'' else ''false'')"

lemma parse_bool_text: "parse_bool (Some (bool_text b @ t)) = (if b then 1 else 0)"
  by (simp add: parse_bool.simps bool_text_def numeral_eq_Suc c_tolower_def char_code_def)

lemma bool_text_no_comma: "CHR '','' \<notin> set (bool_text b)"
  by (simp add: bool_text_def)

lemma comma_suffixes_field:
  "CHR '','' \<notin> set p \<Longrightarrow> comma_suffixes (Suc k) (p @ CHR '','' # t) = t # comma_suffixes k t"
  by (induction p) auto

lemma digits_no_comma: "list_all is_digit ds \<Longrightarrow> CHR '','' \<notin> set ds"
  by (auto simp: list_all_iff not_digit_comma)

subsection \<open>Properties\<close>

lemma encode_args_bounded:
  "(name, op, enc) \<in> set k_cmd_table \<Longrightarrow> encode_args enc s = Some p \<Longrightarrow> length p \<le> STM_MAX_PAYLOAD"
  by (cases enc) (auto simp: encode_args_def dest!: table_encoders dest: arg_encoder.enc_bounded)

lemma build_entry:
  assumes e: "find_entry (cmd_name_token s 39) k_cmd_table = Some (name, op, enc)"
    and p: "encode_args enc s = Some pl"
    and a: "length addr \<le> STM_SRC_LEN_MAX" and c: "11 + int (length addr) + int (length pl) \<le> cap"
  shows "stm_cmd_build_from_ascii (Some s) st (Some addr) (length addr) True cap =
    (int (11 + length addr + length pl), frame_bytes st addr op pl)"
proof -
  have l: "length pl \<le> 1040"
    using encode_args_bounded [OF _ p] find_entry_Some [OF e] by auto
  then have "length pl mod 65536 = length pl" by simp
  with assms l show ?thesis
    by (auto simp: stm_cmd_build_from_ascii_def stm_build_frame_src_def)
qed

text \<open>name resolution. No entry of the command table shadows another: a command line that
  consists of a table name, alone or followed by a comma and arguments, is resolved to exactly
  that entry; the code answers \<open>STM_CMD_UNKNOWN\<close> exactly for the names not in the table.\<close>

theorem stm_command_resolution:
  assumes "e \<in> set k_cmd_table" and "args = [] \<or> hd args = CHR '',''"
  shows "find_entry (cmd_name_token (fst e @ args) 39) k_cmd_table = Some e \<and>
    (\<forall>s. fst (stm_cmd_build_from_ascii (Some s) st (Some addr) n True cap) = STM_CMD_UNKNOWN \<longleftrightarrow>
         cmd_name_token s 39 \<notin> fst ` set k_cmd_table)"
proof
  have "cmd_name_token (fst e @ args) 39 = fst e"
    using assms k_cmd_table_names by (intro cmd_name_token_append) auto
  then show "find_entry (cmd_name_token (fst e @ args) 39) k_cmd_table = Some e"
    using assms(1) find_entry_distinct [OF distinct_k_cmd_table] by simp
  show "\<forall>s. fst (stm_cmd_build_from_ascii (Some s) st (Some addr) n True cap) = STM_CMD_UNKNOWN \<longleftrightarrow>
         cmd_name_token s 39 \<notin> fst ` set k_cmd_table"
  proof
    fix s
    show "fst (stm_cmd_build_from_ascii (Some s) st (Some addr) n True cap) = STM_CMD_UNKNOWN \<longleftrightarrow>
         cmd_name_token s 39 \<notin> fst ` set k_cmd_table"
      unfolding find_entry_None [symmetric]
      by (cases "find_entry (cmd_name_token s 39) k_cmd_table")
        (auto simp: stm_cmd_build_from_ascii_def Let_def split: option.splits prod.splits)
  qed
qed

theorem stm_command_resolution_witness:
  "find_entry (cmd_name_token (''get-peri-info'' @ '',3'') 39) k_cmd_table =
     Some (''get-peri-info'', 0x28, Some enc_dev_id_1_5)"
  using stm_command_resolution [of "(''get-peri-info'', 0x28, Some enc_dev_id_1_5)" "'',3''" 1 "[]" 0 0]
  by (simp add: k_cmd_table_def)

text \<open>C38: a known command is answered either by a frame or by \<open>STM_CMD_BUILD_ERR\<close>, and by the
  latter precisely when its arguments do not encode or the frame would exceed the buffer. In the
  other case the frame is recognised whole by the receiving side, which reads back the opcode of
  the table and the encoded arguments, whatever bytes follow.\<close>

theorem stm_cmd_build_end_to_end:
  assumes e: "find_entry (cmd_name_token s 39) k_cmd_table = Some (name, op, enc)"
    and addr: "length addr \<le> STM_SRC_LEN_MAX"
  shows "case encode_args enc s of
      None \<Rightarrow> stm_cmd_build_from_ascii (Some s) st (Some addr) (length addr) True cap = (STM_CMD_BUILD_ERR, [])
    | Some pl \<Rightarrow> \<exists>r out. stm_cmd_build_from_ascii (Some s) st (Some addr) (length addr) True cap = (r, out) \<and>
        (if 11 + int (length addr) + int (length pl) \<le> cap
         then 0 < r \<and> stm_frame_complete (Some (out @ rest)) = r \<and> stm_frame_cmd (out @ rest) = op \<and>
           stm_frame_payload_len (out @ rest) = length pl \<and>
           take (length pl) (stm_frame_payload (out @ rest)) = pl
         else r = STM_CMD_BUILD_ERR \<and> out = [])"
proof (cases "encode_args enc s")
  case None
  then show ?thesis using e by (simp add: stm_cmd_build_from_ascii_def)
next
  case (Some pl)
  have l: "length pl \<le> STM_MAX_PAYLOAD"
    using encode_args_bounded [OF _ Some] find_entry_Some [OF e] by auto
  then have wf: "wf_fields addr pl" using addr by (simp add: wf_fields_def)
  show ?thesis
  proof (cases "11 + int (length addr) + int (length pl) \<le> cap")
    case True
    then have "stm_cmd_build_from_ascii (Some s) st (Some addr) (length addr) True cap =
        (int (11 + length addr + length pl), frame_bytes st addr op pl)"
      using addr by (intro build_entry [OF e Some])
    then show ?thesis
      using True stm_frame_complete_frame [OF wf] frame_src_len [OF wf] frame_payload_len_field [OF wf]
        frame_payload_after [OF wf]
      by (simp add: Some stm_frame_cmd_def stm_frame_payload_len_def stm_frame_payload_def
          frame_nth_cmd Let_def)
  next
    case False
    then have "stm_cmd_build_from_ascii (Some s) st (Some addr) (length addr) True cap = (-1, [])"
      using e Some l by (auto simp: stm_cmd_build_from_ascii_def stm_build_frame_src_def Let_def)
    then show ?thesis using False by (simp add: Some)
  qed
qed

theorem stm_cmd_build_end_to_end_witness:
  "\<exists>r out. stm_cmd_build_from_ascii (Some ''get-fuel-data'') 1 (Some []) (length ([] :: bytes)) True 256 = (r, out) \<and>
     stm_frame_cmd (out @ []) = 0x27"
proof -
  have "find_entry (cmd_name_token ''get-fuel-data'' 39) k_cmd_table = Some (''get-fuel-data'', 0x27, None)"
    using find_entry_distinct [OF distinct_k_cmd_table, of "(''get-fuel-data'', 0x27, None)"]
      cmd_name_token_append [of "''get-fuel-data''" 39 "[]"]
    by (simp add: k_cmd_table_def)
  from stm_cmd_build_end_to_end [OF this, where addr = "[]" and st = 1 and cap = 256 and rest = "[]"]
  show ?thesis by (auto simp: encode_args_def)
qed

text \<open>\<open>peri-cmd\<close> round trip. A device digit 0 to 5, an optional MAC address in the colon notation,
  an ignored length field and the data in hexadecimal encode to the binary payload with the
  device, the address (all zero when absent), the big-endian number of data bytes and exactly the
  data, for all data that fit a frame payload.\<close>

theorem enc_peri_cmd_roundtrip:
  assumes "k \<le> 5" and "mac = None \<or> (\<exists>m. mac = Some m \<and> length m = 6)"
    and "CHR '','' \<notin> set len_field" and "9 + length ds \<le> STM_MAX_PAYLOAD"
  shows "enc_peri_cmd (Some ([dec_char k] @ CHR '','' # (case mac of None \<Rightarrow> [] | Some m \<Rightarrow> mac_text m) @
      CHR '','' # len_field @ CHR '','' # hex_of_bytes ds)) STM_MAX_PAYLOAD =
    Some ([of_nat k] @ (case mac of None \<Rightarrow> replicate 6 0 | Some m \<Rightarrow> m) @
      [hi8 (length ds), lo8 (length ds)] @ ds)"
proof -
  let ?mt = "case mac of None \<Rightarrow> [] | Some m \<Rightarrow> mac_text m"
  let ?t2 = "len_field @ CHR '','' # hex_of_bytes ds"
  let ?t1 = "?mt @ CHR '','' # ?t2"
  have id: "parse_dev_id (Some (dec_char k # CHR '','' # ?t1)) 0 5 = int k"
    using assms(1) by (intro parse_dev_id_digit) auto
  have c1: "strchr (dec_char k # CHR '','' # ?t1) CHR '','' = Some (CHR '','' # ?t1)"
    using assms(1) dec_char_facts(6) [of k] by simp
  have c2: "strchr ?t1 CHR '','' = Some (CHR '','' # ?t2)"
    by (rule strchr_Some) (simp add: mac_text_no_comma split: option.split)
  have c3: "strchr ?t2 CHR '','' = Some (CHR '','' # hex_of_bytes ds)"
    by (rule strchr_Some) (rule assms(3))
  have mac: "(if length (CHR '','' # ?t2) < length ?t1 then mac_to_bytes (Some ?t1)
      else Some (replicate 6 0)) = Some (case mac of None \<Rightarrow> replicate 6 0 | Some m \<Rightarrow> m)"
  proof (cases mac)
    case None
    then show ?thesis by simp
  next
    case (Some m)
    then have "length m = 6" using assms(2) by auto
    moreover from this have "mac_text m \<noteq> []"
      by (cases m rule: mac_text.cases) (auto simp: hex_of_byte_eq)
    ultimately show ?thesis by (simp add: Some mac_to_bytes_text)
  qed
  have hex: "hex_data_loop STM_MAX_PAYLOAD (hex_of_bytes ds) (-1) [] = Some ds"
    using hex_data_loop_hex [of "[]" ds STM_MAX_PAYLOAD] assms(4) by simp
  have "length ds mod 65536 = length ds" using assms(4) by simp
  with id c1 c2 c3 mac hex show ?thesis
    by (simp only: enc_peri_cmd_def append_Cons append_Nil option.case list.sel Let_def)
       (use assms(1) in simp)
qed

lemma replicate_6: "replicate 6 x = [x, x, x, x, x, x]"
  by (simp add: numeral_eq_Suc)

theorem enc_peri_cmd_roundtrip_witness:
  "enc_peri_cmd (Some ''2,,2,A10F'') 1040 = Some [2, 0, 0, 0, 0, 0, 0, 0, 2, 0xA1, 0x0F]"
  using enc_peri_cmd_roundtrip [of 2 None "''2''" "[0xA1, 0x0F]"]
  by (simp add: dec_char_eqs replicate_6 hex_of_bytes_def hex_of_byte_eq hex_digit_upper_def hi8_def lo8_def)

text \<open>\<open>set-ble-peri-info\<close> round trip. The seven fields of the command (device 1 to 5, MAC address,
  a name of 1 to 15 characters, an interval, two flags and the tag type) encode to the payload
  of the protocol: every field is read back as written, the interval as four big-endian bytes and
  the type as \<open>0x33\<close> or \<open>0x34\<close>.\<close>

theorem enc_set_ble_peri_roundtrip:
  assumes "1 \<le> k" "k \<le> 5" and "length m = 6" and "name \<noteq> []" "length name \<le> 15"
    and "CHR '','' \<notin> set name" and "list_all is_digit ds" "ds \<noteq> []" "dec_prefix 0 ds \<le> UINT32_MAX"
  shows "enc_set_ble_peri (Some ([dec_char k] @ CHR '','' # mac_text m @ CHR '','' # name @ CHR '','' # ds @
      CHR '','' # bool_text log @ CHR '','' # bool_text gps @ CHR '','' # bool_text tag)) STM_MAX_PAYLOAD =
    Some ([of_nat k] @ m @ [of_nat (length name)] @ map byte_of_char name @
      be32_bytes (dec_prefix 0 ds) @
      [if log then 1 else 0, if gps then 1 else 0, if tag then 0x33 else 0x34])"
proof -
  let ?t6 = "bool_text tag"
  let ?t5 = "bool_text gps @ CHR '','' # ?t6"
  let ?t4 = "bool_text log @ CHR '','' # ?t5"
  let ?t3 = "ds @ CHR '','' # ?t4"
  let ?t2 = "name @ CHR '','' # ?t3"
  let ?t1 = "mac_text m @ CHR '','' # ?t2"
  let ?s = "[dec_char k] @ CHR '','' # ?t1"
  have six: "(6 :: nat) = Suc (Suc (Suc (Suc (Suc (Suc 0)))))" by simp
  have f: "comma_suffixes 6 ?s = [?t1, ?t2, ?t3, ?t4, ?t5, ?t6]"
    unfolding six using assms(2,6,7) dec_char_facts(6) [of k]
    by (simp add: comma_suffixes_field mac_text_no_comma bool_text_no_comma digits_no_comma)
  have id: "parse_dev_id (Some ?s) 1 5 = int k"
    using parse_dev_id_digit [of k 1 5 ?t1] assms(1,2) by simp
  have name: "strchr ?t2 CHR '','' = Some (CHR '','' # ?t3)"
    by (rule strchr_Some) (rule assms(6))
  have tag: "parse_bool (Some ?t6) = (if tag then 1 else 0)"
    using parse_bool_text [of tag "[]"] by simp
  show ?thesis
    unfolding enc_set_ble_peri_def option.case Let_def f
    using assms id name tag
    by (simp add: mac_to_bytes_text strtoul10_digits parse_bool_text)
qed

theorem enc_set_ble_peri_roundtrip_witness:
  "enc_set_ble_peri (Some ''1,00:00:00:00:00:0A,Tag,60,true,false,true'') 1040 =
     Some [1, 0, 0, 0, 0, 0, 10, 3, 0x54, 0x61, 0x67, 0, 0, 0, 60, 1, 0, 0x33]"
  using enc_set_ble_peri_roundtrip [of 1 "[0, 0, 0, 0, 0, 10]" "''Tag''" "''60''" True False True]
  by (simp add: dec_char_eqs hex_of_byte_eq hex_digit_upper_def bool_text_def byte_of_char_def
      be32_bytes_def is_digit_def char_code_def digit_val_def)

end
