(* ===== verification/Flash.thy ===== *)
theory Flash
  imports Prelude
begin

text \<open>
  The flash file interface of the SDK (\<open>functionality/wm_sdk_file.h\<close>). Its implementation is not part
  of the repository, so it is a parameter: a record \<open>'w flash\<close> of operations on a world \<open>'w\<close>. What the
  firmware relies on is the predicate \<open>flash_laws\<close>, stated over the contents of the files (\<open>C\<close>) and
  the open handles (\<open>H\<close>: path, position, append mode): the documented effect of each call when it
  reports success, and that a call that fails changes no contents, save that a failed write may have
  damaged the file it writes. Every call may fail. \<open>flash_reliable\<close> adds that none does that is asked
  for something possible (a file that exists, a handle that is open, a position within the file). A store in memory meets both, which shows that they are
  satisfiable and lets the properties be evaluated.
\<close>

datatype sdk_result = SDK_SUCCESS | SDK_NOT_SUPPORTED | SDK_ERROR | SDK_INVALID_PARAM

record 'w flash =
  f_open :: "string \<Rightarrow> string \<Rightarrow> 'w \<Rightarrow> nat option \<times> 'w"
  f_close :: "nat \<Rightarrow> 'w \<Rightarrow> bool \<times> 'w"
  f_write :: "nat \<Rightarrow> bytes \<Rightarrow> 'w \<Rightarrow> bool \<times> nat \<times> 'w"
  f_read :: "nat \<Rightarrow> nat \<Rightarrow> 'w \<Rightarrow> bool \<times> bytes \<times> 'w"
  f_seek :: "nat \<Rightarrow> nat \<Rightarrow> 'w \<Rightarrow> bool \<times> 'w"
  f_size :: "nat \<Rightarrow> 'w \<Rightarrow> bool \<times> nat \<times> 'w"
  f_exists :: "string \<Rightarrow> 'w \<Rightarrow> bool \<times> 'w"
  f_delete :: "string \<Rightarrow> 'w \<Rightarrow> bool \<times> 'w"
  f_mkdir :: "string \<Rightarrow> 'w \<Rightarrow> sdk_result \<times> 'w"
  f_rename :: "string \<Rightarrow> string \<Rightarrow> 'w \<Rightarrow> sdk_result \<times> 'w"
  f_seek_cur :: "nat \<Rightarrow> nat \<Rightarrow> 'w \<Rightarrow> bool \<times> 'w"
  f_sync :: "nat \<Rightarrow> 'w \<Rightarrow> bool \<times> 'w"

type_synonym 'w contents = "'w \<Rightarrow> string \<Rightarrow> bytes option"
type_synonym 'w handles = "'w \<Rightarrow> nat \<Rightarrow> (string \<times> nat \<times> bool) option"

subsection \<open>What the code relies on\<close>

definition open_law :: "'w flash \<Rightarrow> 'w contents \<Rightarrow> 'w handles \<Rightarrow> bool" where
  "open_law F C H \<longleftrightarrow> (\<forall>p m w r w'. f_open F p m w = (r, w') \<longrightarrow>
     (case r of
        None \<Rightarrow> C w' = C w
      | Some h \<Rightarrow>
          if m = ''rb'' then C w p \<noteq> None \<and> C w' = C w \<and> H w' h = Some (p, 0, False)
          else if m = ''wb'' \<or> m = ''wb+'' then C w' = (C w)(p \<mapsto> []) \<and> H w' h = Some (p, 0, False)
          else if m = ''ab+'' then
            C w' = (C w)(p \<mapsto> (case C w p of None \<Rightarrow> [] | Some c \<Rightarrow> c)) \<and> (\<exists>k. H w' h = Some (p, k, True))
          else True))"

definition write_law :: "'w flash \<Rightarrow> 'w contents \<Rightarrow> 'w handles \<Rightarrow> bool" where
  "write_law F C H \<longleftrightarrow> (\<forall>h d w ok n w' p k a c. f_write F h d w = (ok, n, w') \<and>
     H w h = Some (p, k, a) \<and> C w p = Some c \<longrightarrow>
     (\<forall>q. q \<noteq> p \<longrightarrow> C w' q = C w q) \<and>
     (ok \<and> n = length d \<longrightarrow>
        C w' p = Some (if a then c @ d else take k c @ d @ drop (k + length d) c) \<and>
        H w' h = Some (p, k + length d, a)))"

definition read_law :: "'w flash \<Rightarrow> 'w contents \<Rightarrow> 'w handles \<Rightarrow> bool" where
  "read_law F C H \<longleftrightarrow> (\<forall>h n w ok bs w' p k a c. f_read F h n w = (ok, bs, w') \<and>
     H w h = Some (p, k, a) \<and> C w p = Some c \<longrightarrow>
     C w' = C w \<and> length bs \<le> n \<and>
     (ok \<longrightarrow> bs = take (length bs) (drop k c) \<and> H w' h = Some (p, k + length bs, a)))"

definition seek_law :: "'w flash \<Rightarrow> 'w contents \<Rightarrow> 'w handles \<Rightarrow> bool" where
  "seek_law F C H \<longleftrightarrow> (\<forall>h i w ok w' p k a c. f_seek F h i w = (ok, w') \<and>
     H w h = Some (p, k, a) \<and> C w p = Some c \<longrightarrow>
     C w' = C w \<and> (ok \<and> i \<le> length c \<longrightarrow> H w' h = Some (p, i, a)))"

definition skip_law :: "'w flash \<Rightarrow> 'w contents \<Rightarrow> 'w handles \<Rightarrow> bool" where
  "skip_law F C H \<longleftrightarrow> (\<forall>h n w ok w' p k a c. f_seek_cur F h n w = (ok, w') \<and>
     H w h = Some (p, k, a) \<and> C w p = Some c \<longrightarrow>
     C w' = C w \<and> (ok \<and> k + n \<le> length c \<longrightarrow> H w' h = Some (p, k + n, a)))"

definition path_law :: "'w flash \<Rightarrow> 'w contents \<Rightarrow> 'w handles \<Rightarrow> bool" where
  "path_law F C H \<longleftrightarrow>
     (\<forall>h w ok w'. f_close F h w = (ok, w') \<longrightarrow> C w' = C w) \<and>
     (\<forall>h w ok w'. f_sync F h w = (ok, w') \<longrightarrow> C w' = C w) \<and>
     (\<forall>p w ok w'. f_exists F p w = (ok, w') \<longrightarrow> C w' = C w \<and> (ok \<longrightarrow> C w p \<noteq> None)) \<and>
     (\<forall>p w ok w'. f_delete F p w = (ok, w') \<longrightarrow> C w' = (if ok then (C w)(p := None) else C w)) \<and>
     (\<forall>p w r w'. f_mkdir F p w = (r, w') \<longrightarrow> C w' = C w) \<and>
     (\<forall>p q w r w'. f_rename F p q w = (r, w') \<longrightarrow>
        C w' = (if r = SDK_SUCCESS then (C w)(p := None, q := C w p) else C w)) \<and>
     (\<forall>h w ok n w' p k a c. f_size F h w = (ok, n, w') \<and> H w h = Some (p, k, a) \<and> C w p = Some c \<longrightarrow>
        C w' = C w \<and> H w' h = H w h \<and> (ok \<longrightarrow> n = length c))"

definition flash_laws :: "'w flash \<Rightarrow> 'w contents \<Rightarrow> 'w handles \<Rightarrow> bool" where
  "flash_laws F C H \<longleftrightarrow> open_law F C H \<and> write_law F C H \<and> read_law F C H \<and> seek_law F C H \<and>
     skip_law F C H \<and> path_law F C H"

definition flash_reliable :: "'w flash \<Rightarrow> 'w contents \<Rightarrow> 'w handles \<Rightarrow> bool" where
  "flash_reliable F C H \<longleftrightarrow>
     (\<forall>p m w. m \<noteq> ''rb'' \<or> C w p \<noteq> None \<longrightarrow> fst (f_open F p m w) \<noteq> None) \<and>
     (\<forall>h w. fst (f_close F h w)) \<and>
     (\<forall>h d w. H w h \<noteq> None \<longrightarrow> fst (f_write F h d w) \<and> fst (snd (f_write F h d w)) = length d) \<and>
     (\<forall>h n w p k a c. H w h = Some (p, k, a) \<and> C w p = Some c \<longrightarrow>
        fst (f_read F h n w) \<and> length (fst (snd (f_read F h n w))) = min n (length c - k)) \<and>
     (\<forall>h i w p k a c. H w h = Some (p, k, a) \<and> C w p = Some c \<and> i \<le> length c \<longrightarrow> fst (f_seek F h i w)) \<and>
     (\<forall>h n w p k a c. H w h = Some (p, k, a) \<and> C w p = Some c \<and> k + n \<le> length c \<longrightarrow> fst (f_seek_cur F h n w)) \<and>
     (\<forall>h w. H w h \<noteq> None \<longrightarrow> fst (f_size F h w)) \<and>
     (\<forall>p w. C w p \<noteq> None \<longrightarrow> fst (f_exists F p w) \<and> fst (f_delete F p w))"

lemma open_spec:
  assumes "flash_laws F C H" and "f_open F p m w = (r, w')"
  shows "case r of None \<Rightarrow> C w' = C w
      | Some h \<Rightarrow>
          if m = ''rb'' then C w p \<noteq> None \<and> C w' = C w \<and> H w' h = Some (p, 0, False)
          else if m = ''wb'' \<or> m = ''wb+'' then C w' = (C w)(p \<mapsto> []) \<and> H w' h = Some (p, 0, False)
          else if m = ''ab+'' then
            C w' = (C w)(p \<mapsto> (case C w p of None \<Rightarrow> [] | Some c \<Rightarrow> c)) \<and> (\<exists>k. H w' h = Some (p, k, True))
          else True"
  using assms unfolding flash_laws_def open_law_def by blast

lemma open_rb:
  assumes "flash_laws F C H" and "f_open F p ''rb'' w = (r, w')"
  shows "C w' = C w" and "r = Some h \<Longrightarrow> \<exists>c. C w p = Some c \<and> C w' p = Some c \<and> H w' h = Some (p, 0, False)"
  using open_spec [OF assms] by (auto split: option.splits)

lemma open_wb:
  assumes "flash_laws F C H" and "f_open F p m w = (r, w')" and "m = ''wb'' \<or> m = ''wb+''"
  shows "r = None \<Longrightarrow> C w' = C w"
    and "r = Some h \<Longrightarrow> C w' = (C w)(p \<mapsto> []) \<and> H w' h = Some (p, 0, False)"
  using open_spec [OF assms(1,2)] assms(3) by auto

lemma open_ab:
  assumes "flash_laws F C H" and "f_open F p ''ab+'' w = (r, w')"
  shows "r = None \<Longrightarrow> C w' = C w"
    and "r = Some h \<Longrightarrow> C w' = (C w)(p \<mapsto> (case C w p of None \<Rightarrow> [] | Some c \<Rightarrow> c)) \<and> (\<exists>k. H w' h = Some (p, k, True))"
  using open_spec [OF assms] by auto

lemma write_spec:
  assumes "flash_laws F C H" and "f_write F h d w = (ok, n, w')" and "H w h = Some (p, k, a)" and "C w p = Some c"
  shows "q \<noteq> p \<Longrightarrow> C w' q = C w q"
    and "ok \<Longrightarrow> n = length d \<Longrightarrow> C w' p = Some (if a then c @ d else take k c @ d @ drop (k + length d) c) \<and>
        H w' h = Some (p, k + length d, a)"
  using assms unfolding flash_laws_def write_law_def by blast+

lemma read_spec:
  assumes "flash_laws F C H" and "f_read F h n w = (ok, bs, w')" and "H w h = Some (p, k, a)" and "C w p = Some c"
  shows "C w' = C w" and "length bs \<le> n"
    and "ok \<Longrightarrow> bs = take (length bs) (drop k c)" and "ok \<Longrightarrow> H w' h = Some (p, k + length bs, a)"
  using assms unfolding flash_laws_def read_law_def by blast+

lemma seek_spec:
  assumes "flash_laws F C H" and "f_seek F h i w = (ok, w')" and "H w h = Some (p, k, a)" and "C w p = Some c"
  shows "C w' = C w" and "ok \<Longrightarrow> i \<le> length c \<Longrightarrow> H w' h = Some (p, i, a)"
  using assms unfolding flash_laws_def seek_law_def by blast+

lemma skip_spec:
  assumes "flash_laws F C H" and "f_seek_cur F h n w = (ok, w')" and "H w h = Some (p, k, a)" and "C w p = Some c"
  shows "C w' = C w" and "ok \<Longrightarrow> k + n \<le> length c \<Longrightarrow> H w' h = Some (p, k + n, a)"
  using assms unfolding flash_laws_def skip_law_def by blast+

lemma path_specs:
  assumes "flash_laws F C H"
  shows close_spec: "f_close F h w = (ok, w') \<Longrightarrow> C w' = C w"
    and sync_spec: "f_sync F h w = (ok, w') \<Longrightarrow> C w' = C w"
    and exists_spec: "f_exists F p w = (ok, w') \<Longrightarrow> C w' = C w"
    and exists_true: "f_exists F p w = (True, w') \<Longrightarrow> C w p \<noteq> None"
    and delete_spec: "f_delete F p w = (ok, w') \<Longrightarrow> C w' = (if ok then (C w)(p := None) else C w)"
    and mkdir_spec: "f_mkdir F p w = (r, w') \<Longrightarrow> C w' = C w"
    and rename_spec: "f_rename F p q w = (r, w') \<Longrightarrow>
        C w' = (if r = SDK_SUCCESS then (C w)(p := None, q := C w p) else C w)"
    and size_spec: "f_size F h w = (ok, n, w') \<Longrightarrow> H w h = Some (p, k, a) \<Longrightarrow> C w p = Some c \<Longrightarrow>
        C w' = C w \<and> H w' h = H w h \<and> (ok \<longrightarrow> n = length c)"
  using assms unfolding flash_laws_def path_law_def by metis+

subsection \<open>A store in memory\<close>

record ram_world =
  rw_files :: "string \<Rightarrow> bytes option"
  rw_handles :: "nat \<Rightarrow> (string \<times> nat \<times> bool) option"
  rw_next :: nat

definition ram_open :: "string \<Rightarrow> string \<Rightarrow> ram_world \<Rightarrow> nat option \<times> ram_world" where
  "ram_open p m w =
     (if m = ''rb'' \<and> rw_files w p = None then (None, w)
      else
        let h = rw_next w;
            c = (if m = ''rb'' \<or> m = ''ab+'' then (case rw_files w p of None \<Rightarrow> [] | Some c \<Rightarrow> c) else [])
        in (Some h, w\<lparr>rw_files := (rw_files w)(p \<mapsto> c), rw_handles := (rw_handles w)(h \<mapsto> (p, 0, m = ''ab+'')),
                      rw_next := Suc h\<rparr>))"

definition ram_write :: "nat \<Rightarrow> bytes \<Rightarrow> ram_world \<Rightarrow> bool \<times> nat \<times> ram_world" where
  "ram_write h d w =
     (case rw_handles w h of
        None \<Rightarrow> (False, 0, w)
      | Some (p, k, a) \<Rightarrow>
          let c = (case rw_files w p of None \<Rightarrow> [] | Some c \<Rightarrow> c) in
          (True, length d, w\<lparr>rw_files := (rw_files w)(p \<mapsto> (if a then c @ d else take k c @ d @ drop (k + length d) c)),
                             rw_handles := (rw_handles w)(h \<mapsto> (p, k + length d, a))\<rparr>))"

definition ram_read :: "nat \<Rightarrow> nat \<Rightarrow> ram_world \<Rightarrow> bool \<times> bytes \<times> ram_world" where
  "ram_read h n w =
     (case rw_handles w h of
        None \<Rightarrow> (False, [], w)
      | Some (p, k, a) \<Rightarrow>
          let bs = take n (drop k (case rw_files w p of None \<Rightarrow> [] | Some c \<Rightarrow> c)) in
          (True, bs, w\<lparr>rw_handles := (rw_handles w)(h \<mapsto> (p, k + length bs, a))\<rparr>))"

definition ram_seek :: "nat \<Rightarrow> nat \<Rightarrow> ram_world \<Rightarrow> bool \<times> ram_world" where
  "ram_seek h i w =
     (case rw_handles w h of
        None \<Rightarrow> (False, w)
      | Some (p, k, a) \<Rightarrow> (True, w\<lparr>rw_handles := (rw_handles w)(h \<mapsto> (p, i, a))\<rparr>))"

definition ram_seek_cur :: "nat \<Rightarrow> nat \<Rightarrow> ram_world \<Rightarrow> bool \<times> ram_world" where
  "ram_seek_cur h n w =
     (case rw_handles w h of
        None \<Rightarrow> (False, w)
      | Some (p, k, a) \<Rightarrow> (True, w\<lparr>rw_handles := (rw_handles w)(h \<mapsto> (p, k + n, a))\<rparr>))"

definition ram_size :: "nat \<Rightarrow> ram_world \<Rightarrow> bool \<times> nat \<times> ram_world" where
  "ram_size h w =
     (case rw_handles w h of
        None \<Rightarrow> (False, 0, w)
      | Some (p, k, a) \<Rightarrow> (True, length (case rw_files w p of None \<Rightarrow> [] | Some c \<Rightarrow> c), w))"

definition ram_flash :: "ram_world flash" where
  "ram_flash = \<lparr>f_open = ram_open, f_close = (\<lambda>h w. (True, w)), f_write = ram_write, f_read = ram_read,
     f_seek = ram_seek, f_size = ram_size, f_exists = (\<lambda>p w. (rw_files w p \<noteq> None, w)),
     f_delete = (\<lambda>p w. (rw_files w p \<noteq> None, w\<lparr>rw_files := (rw_files w)(p := None)\<rparr>)),
     f_mkdir = (\<lambda>p w. (SDK_SUCCESS, w)),
     f_rename = (\<lambda>p q w. (SDK_SUCCESS, w\<lparr>rw_files := (rw_files w)(p := None, q := rw_files w p)\<rparr>)),
     f_seek_cur = ram_seek_cur, f_sync = (\<lambda>h w. (True, w))\<rparr>"

definition empty_ram :: ram_world where
  "empty_ram = \<lparr>rw_files = (\<lambda>_. None), rw_handles = (\<lambda>_. None), rw_next = 0\<rparr>"

lemma ram_laws: "flash_laws ram_flash rw_files rw_handles"
  unfolding flash_laws_def
proof (intro conjI)
  show "open_law ram_flash rw_files rw_handles"
    by (auto simp: open_law_def ram_flash_def ram_open_def Let_def split: option.splits if_splits)
  show "write_law ram_flash rw_files rw_handles"
    by (auto simp: write_law_def ram_flash_def ram_write_def Let_def split: option.splits)
  show "read_law ram_flash rw_files rw_handles"
    by (auto simp: read_law_def ram_flash_def ram_read_def Let_def min_def split: option.splits)
  show "seek_law ram_flash rw_files rw_handles"
    by (auto simp: seek_law_def ram_flash_def ram_seek_def split: option.splits)
  show "skip_law ram_flash rw_files rw_handles"
    by (auto simp: skip_law_def ram_flash_def ram_seek_cur_def split: option.splits)
  show "path_law ram_flash rw_files rw_handles"
    by (auto simp: path_law_def ram_flash_def ram_size_def fun_upd_idem_iff split: option.splits)
qed

lemma ram_reliable: "flash_reliable ram_flash rw_files rw_handles"
  by (auto simp: flash_reliable_def ram_flash_def ram_open_def ram_write_def ram_read_def ram_size_def
      ram_seek_def ram_seek_cur_def Let_def split: option.splits)

subsection \<open>Rewriting the contents\<close>

named_theorems flash_simps \<open>contents after the calls that keep them\<close>

lemma close_C [flash_simps]: "flash_laws F C H \<Longrightarrow> C (snd (f_close F h w)) = C w"
  by (rule close_spec [OF _ prod.collapse [symmetric]])

lemma sync_C [flash_simps]: "flash_laws F C H \<Longrightarrow> C (snd (f_sync F h w)) = C w"
  by (rule sync_spec [OF _ prod.collapse [symmetric]])

lemma exists_C [flash_simps]: "flash_laws F C H \<Longrightarrow> C (snd (f_exists F p w)) = C w"
  by (rule exists_spec [OF _ prod.collapse [symmetric]])

lemma mkdir_C [flash_simps]: "flash_laws F C H \<Longrightarrow> C (snd (f_mkdir F p w)) = C w"
  by (rule mkdir_spec [OF _ prod.collapse [symmetric]])

lemma delete_C [flash_simps]:
  "flash_laws F C H \<Longrightarrow> C (snd (f_delete F p w)) = (if fst (f_delete F p w) then (C w)(p := None) else C w)"
  by (rule delete_spec [OF _ prod.collapse [symmetric]])

lemma open_rb_C [flash_simps]: "flash_laws F C H \<Longrightarrow> C (snd (f_open F p ''rb'' w)) = C w"
  by (rule open_rb(1) [OF _ prod.collapse [symmetric]])

lemma reliable_open: "flash_reliable F C H \<Longrightarrow> m \<noteq> ''rb'' \<or> C w p \<noteq> None \<Longrightarrow> \<exists>h w'. f_open F p m w = (Some h, w')"
  unfolding flash_reliable_def by (metis option.exhaust prod.collapse)

lemma reliable_close: "flash_reliable F C H \<Longrightarrow> \<exists>w'. f_close F h w = (True, w')"
  unfolding flash_reliable_def by (metis (full_types) prod.collapse)

lemma reliable_write: "flash_reliable F C H \<Longrightarrow> H w h \<noteq> None \<Longrightarrow> \<exists>w'. f_write F h d w = (True, length d, w')"
  unfolding flash_reliable_def by (metis (full_types) prod.collapse)

lemma reliable_read:
  assumes "flash_laws F C H" and "flash_reliable F C H" and "H w h = Some (p, k, a)" and "C w p = Some c"
  shows "\<exists>w'. f_read F h n w = (True, take n (drop k c), w') \<and> C w' = C w \<and>
    H w' h = Some (p, k + min n (length c - k), a)"
proof -
  obtain ok bs w' where rd: "f_read F h n w = (ok, bs, w')" by (metis prod_cases3)
  have ok: ok and len: "length bs = min n (length c - k)"
    using assms(2-4) rd unfolding flash_reliable_def by (metis fst_conv snd_conv)+
  have "bs = take (length bs) (drop k c)" using read_spec(3) [OF assms(1) rd assms(3,4) ok] .
  then have "bs = take n (drop k c)" by (simp add: len min_def split: if_splits)
  then show ?thesis
    using rd ok len read_spec(1,4) [OF assms(1) rd assms(3,4)] by simp
qed

lemma reliable_seek:
  assumes "flash_laws F C H" and "flash_reliable F C H" and "H w h = Some (p, k, a)" and "C w p = Some c" and "i \<le> length c"
  shows "\<exists>w'. f_seek F h i w = (True, w') \<and> C w' = C w \<and> H w' h = Some (p, i, a)"
proof -
  obtain ok w' where s: "f_seek F h i w = (ok, w')" by fastforce
  have ok using assms(2-5) s unfolding flash_reliable_def by (metis fst_conv)
  then show ?thesis using s seek_spec [OF assms(1) s assms(3,4)] assms(5) by simp
qed

lemma reliable_delete: "flash_reliable F C H \<Longrightarrow> C w p \<noteq> None \<Longrightarrow> \<exists>w'. f_delete F p w = (True, w')"
  unfolding flash_reliable_def by (metis (full_types) prod.collapse)

lemma reliable_exists: "flash_reliable F C H \<Longrightarrow> C w p \<noteq> None \<Longrightarrow> \<exists>w'. f_exists F p w = (True, w')"
  unfolding flash_reliable_def by (metis (full_types) prod.collapse)

end
