(* ===== verification/File_System.thy ===== *)
theory File_System
  imports Flash C_Strings
begin

text \<open>
  \<open>system/storage/file_system.c\<close> and \<open>system/storage/flash_paths.c\<close>: whole-file helpers over the flash
  interface. A null path or buffer is \<open>None\<close>. A function returns its result, what it writes through
  its output pointers, and the world. Directory listing and disk information go to the vendor API
  directly and are not modelled.
\<close>

subsection \<open>Paths\<close>

text \<open>The part of a path before its last slash.\<close>

fun before_last_slash :: "string \<Rightarrow> string option" where
  "before_last_slash [] = None"
| "before_last_slash (c # s) =
     (case before_last_slash s of
        Some d \<Rightarrow> Some (c # d)
      | None \<Rightarrow> if c = CHR ''/'' then Some [] else None)"

definition fs_ensure_parent_dir :: "'w flash \<Rightarrow> string \<Rightarrow> 'w \<Rightarrow> bool \<times> 'w" where
  "fs_ensure_parent_dir F path w =
     (case before_last_slash path of
        None \<Rightarrow> (False, w)
      | Some dir \<Rightarrow>
          if length dir < 3 \<or> length dir + 1 > 64 then (False, w)
          else if dir = ''C:'' \<or> dir = ''C:/'' then (False, w)
          else
            let (ex, w1) = f_exists F dir w in
            if ex then (False, w1)
            else
              let (_, w2) = f_mkdir F dir w1 in f_exists F dir w2)"

fun strip_slashes :: "string \<Rightarrow> string" where
  "strip_slashes [] = []"
| "strip_slashes (c # r) = (if length (c # r) > 3 \<and> c = CHR ''/'' then strip_slashes r else c # r)"

definition flash_paths_dir_no_slash :: "string option \<Rightarrow> bool \<Rightarrow> nat \<Rightarrow> string option" where
  "flash_paths_dir_no_slash dir out_ok out_size =
     (case dir of
        None \<Rightarrow> None
      | Some d \<Rightarrow>
          if \<not> out_ok \<or> out_size = 0 then None
          else if length d = 0 \<or> length d + 1 > out_size then None
          else Some (rev (strip_slashes (rev d))))"

subsection \<open>Files\<close>

definition file_system_do_delete :: "'w flash \<Rightarrow> string option \<Rightarrow> 'w \<Rightarrow> result \<times> 'w" where
  "file_system_do_delete F path w =
     (case path of
        None \<Rightarrow> (RESULT_INVALID_PARAM, w)
      | Some p \<Rightarrow> let (ok, w1) = f_delete F p w in (if ok then RESULT_SUCCESS else RESULT_ERROR, w1))"

definition file_system_delete :: "'w flash \<Rightarrow> string option \<Rightarrow> 'w \<Rightarrow> result \<times> 'w" where
  "file_system_delete F path w = file_system_do_delete F path w"

definition file_system_remove :: "'w flash \<Rightarrow> string option \<Rightarrow> 'w \<Rightarrow> result \<times> 'w" where
  "file_system_remove F path w = file_system_do_delete F path w"

definition file_system_init :: result where
  "file_system_init = RESULT_SUCCESS"

text \<open>Open for writing; on failure create the parent directory once and try again.\<close>

definition open_for_write :: "'w flash \<Rightarrow> string \<Rightarrow> 'w \<Rightarrow> nat option \<times> 'w" where
  "open_for_write F path w =
     (let (file, w1) = f_open F path ''wb+'' w in
      case file of
        Some h \<Rightarrow> (Some h, w1)
      | None \<Rightarrow>
          let (again, w2) = fs_ensure_parent_dir F path w1 in
          if again then f_open F path ''wb+'' w2 else (None, w2))"

definition file_system_write_file :: "'w flash \<Rightarrow> string option \<Rightarrow> bytes option \<Rightarrow> nat \<Rightarrow> 'w \<Rightarrow> result \<times> 'w" where
  "file_system_write_file F path data data_len w =
     (case (path, data) of
        (Some p, Some d) \<Rightarrow>
          if data_len = 0 then (RESULT_INVALID_PARAM, w)
          else
            let (file, w1) = open_for_write F p w in
            (case file of
               None \<Rightarrow> (RESULT_ERROR, w1)
             | Some h \<Rightarrow>
                 let (ok, written, w2) = f_write F h (take data_len d) w1 in
                 if \<not> ok \<or> written \<noteq> data_len then
                   let (_, w3) = f_close F h w2 in (RESULT_ERROR, w3)
                 else
                   let (cl, w3) = f_close F h w2 in
                   (if cl then RESULT_SUCCESS else RESULT_ERROR, w3))
      | _ \<Rightarrow> (RESULT_INVALID_PARAM, w))"

text \<open>The result, the buffer afterwards and \<open>*out_read_len\<close> (\<open>None\<close> when it is not set).\<close>

definition file_system_read_file ::
    "'w flash \<Rightarrow> string option \<Rightarrow> bytes option \<Rightarrow> nat \<Rightarrow> 'w \<Rightarrow> result \<times> bytes option \<times> nat option \<times> 'w" where
  "file_system_read_file F path buffer buffer_size w =
     (case (path, buffer) of
        (Some p, Some b) \<Rightarrow>
          if buffer_size = 0 then (RESULT_INVALID_PARAM, buffer, None, w)
          else
            let (file, w1) = f_open F p ''rb'' w in
            (case file of
               None \<Rightarrow> (RESULT_NOT_FOUND, buffer, None, w1)
             | Some h \<Rightarrow>
                 let (sz_ok, sz, w2) = f_size F h w1;
                     file_size = (if sz_ok then sz else buffer_size);
                     to_read = (if file_size < buffer_size then file_size else buffer_size);
                     (ok, bs, w3) = f_read F h to_read w2;
                     b' = bs @ replicate (buffer_size - length bs) 0 @ drop buffer_size b;
                     (_, w4) = f_close F h w3
                 in if \<not> ok \<or> (length bs = 0 \<and> to_read > 0) then (RESULT_ERROR, Some b', None, w4)
                    else (RESULT_SUCCESS, Some b', Some (length bs), w4))
      | _ \<Rightarrow> (RESULT_INVALID_PARAM, buffer, None, w))"

definition file_system_get_file_size :: "'w flash \<Rightarrow> string option \<Rightarrow> bool \<Rightarrow> 'w \<Rightarrow> result \<times> nat option \<times> 'w" where
  "file_system_get_file_size F path out_ok w =
     (case path of
        None \<Rightarrow> (RESULT_INVALID_PARAM, None, w)
      | Some p \<Rightarrow>
          if \<not> out_ok then (RESULT_INVALID_PARAM, None, w)
          else
            let (file, w1) = f_open F p ''rb'' w in
            (case file of
               None \<Rightarrow> (RESULT_NOT_FOUND, None, w1)
             | Some h \<Rightarrow>
                 let (ok, sz, w2) = f_size F h w1; (_, w3) = f_close F h w2 in
                 if ok then (RESULT_SUCCESS, Some sz, w3) else (RESULT_ERROR, None, w3)))"

definition file_system_read_at_offset ::
    "'w flash \<Rightarrow> string option \<Rightarrow> bytes option \<Rightarrow> nat \<Rightarrow> nat \<Rightarrow> 'w \<Rightarrow> result \<times> bytes option \<times> nat option \<times> 'w" where
  "file_system_read_at_offset F path buffer buffer_size offset w =
     (case (path, buffer) of
        (Some p, Some b) \<Rightarrow>
          if buffer_size = 0 then (RESULT_INVALID_PARAM, buffer, None, w)
          else
            let (file, w1) = f_open F p ''rb'' w in
            (case file of
               None \<Rightarrow> (RESULT_NOT_FOUND, buffer, None, w1)
             | Some h \<Rightarrow>
                 let (sk, w2) = (if offset > 0 then f_seek F h offset w1 else (True, w1)) in
                 if \<not> sk then let (_, w3) = f_close F h w2 in (RESULT_ERROR, buffer, None, w3)
                 else
                   let (ok, bs, w3) = f_read F h buffer_size w2;
                       b' = bs @ drop (length bs) b;
                       (_, w4) = f_close F h w3
                   in if ok then (RESULT_SUCCESS, Some b', Some (length bs), w4)
                      else (RESULT_ERROR, Some b', None, w4))
      | _ \<Rightarrow> (RESULT_INVALID_PARAM, buffer, None, w))"

definition sdk_to_result :: "sdk_result \<Rightarrow> result" where
  "sdk_to_result r =
     (case r of SDK_NOT_SUPPORTED \<Rightarrow> RESULT_NOT_SUPPORTED | SDK_SUCCESS \<Rightarrow> RESULT_SUCCESS | _ \<Rightarrow> RESULT_ERROR)"

definition file_system_rename :: "'w flash \<Rightarrow> string option \<Rightarrow> string option \<Rightarrow> 'w \<Rightarrow> result \<times> 'w" where
  "file_system_rename F old_path new_path w =
     (case (old_path, new_path) of
        (Some p, Some q) \<Rightarrow> let (r, w1) = f_rename F p q w in (sdk_to_result r, w1)
      | _ \<Rightarrow> (RESULT_INVALID_PARAM, w))"

definition file_system_mkdir :: "'w flash \<Rightarrow> string option \<Rightarrow> 'w \<Rightarrow> result \<times> 'w" where
  "file_system_mkdir F path w =
     (case path of
        None \<Rightarrow> (RESULT_INVALID_PARAM, w)
      | Some p \<Rightarrow> let (r, w1) = f_mkdir F p w in (sdk_to_result r, w1))"

definition flash_paths_ensure_directory :: "'w flash \<Rightarrow> string option \<Rightarrow> 'w \<Rightarrow> result \<times> 'w" where
  "flash_paths_ensure_directory F dir w =
     (case flash_paths_dir_no_slash dir True 64 of
        None \<Rightarrow> (RESULT_INVALID_PARAM, w)
      | Some path \<Rightarrow>
          let (ex, w1) = f_exists F path w in
          if ex then (RESULT_SUCCESS, w1)
          else
            let (r, w2) = file_system_mkdir F (Some path) w1 in
            if r \<noteq> RESULT_SUCCESS then (RESULT_ERROR, w2)
            else
              let (ex2, w3) = f_exists F path w2 in
              (if ex2 then RESULT_SUCCESS else RESULT_ERROR, w3))"

fun ensure_dirs_loop :: "'w flash \<Rightarrow> string list \<Rightarrow> result \<Rightarrow> 'w \<Rightarrow> result \<times> 'w" where
  "ensure_dirs_loop F [] overall w = (overall, w)"
| "ensure_dirs_loop F (d # ds) overall w =
     (let (r, w1) = flash_paths_ensure_directory F (Some d) w in
      ensure_dirs_loop F ds (if r \<noteq> RESULT_SUCCESS then RESULT_ERROR else overall) w1)"

definition flash_paths_ensure_directories :: "'w flash \<Rightarrow> 'w \<Rightarrow> result \<times> 'w" where
  "flash_paths_ensure_directories F w =
     ensure_dirs_loop F [''C:/config/'', ''C:/fota/'', ''C:/preboot/'', ''C:/queue/''] RESULT_SUCCESS w"

subsection \<open>What the helpers do to the files\<close>

lemma ensure_parent_C [flash_simps]:
  "flash_laws F C H \<Longrightarrow> C (snd (fs_ensure_parent_dir F p w)) = C w"
  by (simp add: fs_ensure_parent_dir_def Let_def case_prod_beta flash_simps split: option.split)

lemma open_for_write_spec:
  assumes L: "flash_laws F C H" and o: "open_for_write F p w = (r, w')"
  shows "r = None \<Longrightarrow> C w' = C w" and "r = Some h \<Longrightarrow> C w' = (C w)(p \<mapsto> []) \<and> H w' h = Some (p, 0, False)"
proof -
  obtain r1 w1 where o1: "f_open F p ''wb+'' w = (r1, w1)" by fastforce
  obtain again w2 where e: "fs_ensure_parent_dir F p w1 = (again, w2)" by fastforce
  obtain r3 w3 where o3: "f_open F p ''wb+'' w2 = (r3, w3)" by fastforce
  have C2: "C w2 = C w1" using ensure_parent_C [OF L, of p w1] e by simp
  have none1: "r1 = None \<Longrightarrow> C w1 = C w" and none3: "r3 = None \<Longrightarrow> C w3 = C w2"
    and some1: "r1 = Some h \<Longrightarrow> C w1 = (C w)(p \<mapsto> []) \<and> H w1 h = Some (p, 0, False)"
    and some3: "r3 = Some h \<Longrightarrow> C w3 = (C w2)(p \<mapsto> []) \<and> H w3 h = Some (p, 0, False)"
    using open_wb [OF L o1] open_wb [OF L o3] by simp_all
  show "r = None \<Longrightarrow> C w' = C w" and "r = Some h \<Longrightarrow> C w' = (C w)(p \<mapsto> []) \<and> H w' h = Some (p, 0, False)"
    using o none1 none3 some1 some3 C2
    by (auto simp: open_for_write_def o1 e o3 split: option.splits if_splits)
qed

text \<open>A write that reports success has replaced the file by the data; whatever it reports, no other
  file is touched.\<close>

lemma write_file_spec:
  assumes L: "flash_laws F C H" and f: "file_system_write_file F (Some p) (Some d) (length d) w = (r, w')"
  shows "r = RESULT_SUCCESS \<Longrightarrow> C w' = (C w)(p \<mapsto> d)" and "q \<noteq> p \<Longrightarrow> C w' q = C w q"
proof -
  obtain ro w1 where o: "open_for_write F p w = (ro, w1)" by fastforce
  show "r = RESULT_SUCCESS \<Longrightarrow> C w' = (C w)(p \<mapsto> d)" and "q \<noteq> p \<Longrightarrow> C w' q = C w q"
  proof (atomize (full), cases "d = []")
    case True
    then show "(r = RESULT_SUCCESS \<longrightarrow> C w' = (C w)(p \<mapsto> d)) \<and> (q \<noteq> p \<longrightarrow> C w' q = C w q)"
      using f by (simp add: file_system_write_file_def)
  next
    case False
    show "(r = RESULT_SUCCESS \<longrightarrow> C w' = (C w)(p \<mapsto> d)) \<and> (q \<noteq> p \<longrightarrow> C w' q = C w q)"
    proof (cases ro)
      case None
      then show ?thesis
        using False f o open_for_write_spec(1) [OF L o] by (simp add: file_system_write_file_def)
    next
      case (Some h)
      obtain ok n w2 where wr: "f_write F h d w1 = (ok, n, w2)" by (metis prod_cases3)
      obtain cl w3 where cl: "f_close F h w2 = (cl, w3)" by fastforce
      have 1: "C w1 = (C w)(p \<mapsto> [])" "H w1 h = Some (p, 0, False)"
        using open_for_write_spec(2) [OF L o Some] by auto
      have 3: "C w3 = C w2" by (rule close_spec [OF L cl])
      have 2: "q \<noteq> p \<Longrightarrow> C w2 q = C w1 q" for q
        by (rule write_spec(1) [OF L wr 1(2)]) (simp_all add: 1)
      have 4: "ok \<Longrightarrow> n = length d \<Longrightarrow> C w2 p = Some d"
        using write_spec(2) [OF L wr 1(2), of "[]"] 1 by simp
      have "C w2 = (C w)(p \<mapsto> d)" if "ok" "n = length d"
        using 2 4 that 1(1) by (intro ext) (metis fun_upd_apply)
      then show ?thesis
        using f False 1 2 3
        by (auto simp: file_system_write_file_def o Some wr cl split: if_splits)
    qed
  qed
qed

text \<open>A read never changes a file; on success it returns a prefix of the file, zero padded.\<close>

lemma read_file_spec:
  assumes L: "flash_laws F C H" and f: "file_system_read_file F (Some p) (Some b) n w = (r, b', m, w')"
  shows "C w' = C w"
    and "r = RESULT_SUCCESS \<Longrightarrow> \<exists>c k. C w p = Some c \<and> m = Some k \<and> k \<le> n \<and> k \<le> length c \<and>
        b' = Some (take k c @ replicate (n - k) 0 @ drop n b)"
proof -
  have "C w' = C w \<and> (r = RESULT_SUCCESS \<longrightarrow> (\<exists>c k. C w p = Some c \<and> m = Some k \<and> k \<le> n \<and> k \<le> length c \<and>
        b' = Some (take k c @ replicate (n - k) 0 @ drop n b)))"
  proof (cases "n = 0")
    case True
    then show ?thesis using f by (simp add: file_system_read_file_def)
  next
    case False
    obtain ro w1 where o: "f_open F p ''rb'' w = (ro, w1)" by fastforce
    show ?thesis
    proof (cases ro)
      case None
      then show ?thesis
        using f False o open_rb(1) [OF L o] by (simp add: file_system_read_file_def)
    next
      case (Some h)
      obtain c where c: "C w p = Some c" "C w1 p = Some c" "H w1 h = Some (p, 0, False)" "C w1 = C w"
        using open_rb [OF L o] Some by blast
      obtain so sz w2 where sz: "f_size F h w1 = (so, sz, w2)" by (metis prod_cases3)
      have s: "C w2 = C w1 \<and> H w2 h = H w1 h" using size_spec [OF L sz c(3,2)] by simp
      define t where "t = (if (if so then sz else n) < n then if so then sz else n else n)"
      obtain ok bs w3 where rd: "f_read F h t w2 = (ok, bs, w3)" by (metis prod_cases3)
      have h2: "H w2 h = Some (p, 0, False)" and c2: "C w2 p = Some c" using s c by simp_all
      obtain cl w4 where cl: "f_close F h w3 = (cl, w4)" by fastforce
      have C4: "C w4 = C w"
        using close_spec [OF L cl] read_spec(1) [OF L rd h2 c2] s c(4) by simp
      have len: "length bs \<le> n" using read_spec(2) [OF L rd h2 c2] by (simp add: t_def split: if_splits)
      have pre: "ok \<Longrightarrow> bs = take (length bs) c" using read_spec(3) [OF L rd h2 c2] by simp
      then have lc: "ok \<Longrightarrow> length bs \<le> length c" by (metis length_take min.cobounded1)
      have "(r, b', m, w') = (if \<not> ok \<or> (length bs = 0 \<and> t > 0)
          then (RESULT_ERROR, Some (bs @ replicate (n - length bs) 0 @ drop n b), None, w4)
          else (RESULT_SUCCESS, Some (bs @ replicate (n - length bs) 0 @ drop n b), Some (length bs), w4))"
        using f False unfolding file_system_read_file_def
        by (simp add: o Some sz Let_def t_def [symmetric] rd cl)
      then show ?thesis using C4 len pre lc c(1) by (auto split: if_splits)
    qed
  qed
  then show "C w' = C w"
    and "r = RESULT_SUCCESS \<Longrightarrow> \<exists>c k. C w p = Some c \<and> m = Some k \<and> k \<le> n \<and> k \<le> length c \<and>
        b' = Some (take k c @ replicate (n - k) 0 @ drop n b)" by simp_all
qed

text \<open>On a store that does not fail, a write succeeds and a read of an existing file is complete.\<close>

lemma reliable_write_file:
  assumes L: "flash_laws F C H" and R: "flash_reliable F C H" and d: "d \<noteq> []"
  shows "\<exists>w'. file_system_write_file F (Some p) (Some d) (length d) w = (RESULT_SUCCESS, w')"
proof -
  obtain h w1 where o: "f_open F p ''wb+'' w = (Some h, w1)"
    using reliable_open [OF R, of "''wb+''" w p] by auto
  have "H w1 h \<noteq> None" using open_wb(2) [OF L o _ refl] by simp
  from reliable_write [OF R this] obtain w2 where wr: "f_write F h d w1 = (True, length d, w2)"
    by blast
  obtain w3 where "f_close F h w2 = (True, w3)" using reliable_close [OF R] by blast
  with o wr show ?thesis
    using d by (simp add: file_system_write_file_def open_for_write_def)
qed

lemma reliable_read_file:
  assumes L: "flash_laws F C H" and R: "flash_reliable F C H" and c: "C w p = Some c"
    and n: "0 < n" "n \<le> length c" "length b = n"
  shows "\<exists>w'. file_system_read_file F (Some p) (Some b) n w = (RESULT_SUCCESS, Some (take n c), Some n, w')"
proof -
  obtain h w1 where o: "f_open F p ''rb'' w = (Some h, w1)"
    using reliable_open [OF R, of "''rb''" w p] c by auto
  have h1: "H w1 h = Some (p, 0, False)" and c1: "C w1 p = Some c"
    using open_rb(2) [OF L o refl] c by auto
  obtain so sz w2 where sz: "f_size F h w1 = (so, sz, w2)" by (metis prod_cases3)
  have s: "C w2 = C w1" "H w2 h = H w1 h" "so \<Longrightarrow> sz = length c" using size_spec [OF L sz h1 c1] by simp_all
  have t: "(if (if so then sz else n) < n then if so then sz else n else n) = n"
    using s(3) n(2) by auto
  have h2: "H w2 h = Some (p, 0, False)" and c2: "C w2 p = Some c" using s h1 c1 by simp_all
  obtain w3 where rd: "f_read F h n w2 = (True, take n c, w3)" using reliable_read [OF L R h2 c2] by auto
  obtain w4 where cl: "f_close F h w3 = (True, w4)" using reliable_close [OF R] by blast
  have "length (take n c) = n" using n(2) by simp
  then show ?thesis
    using n by (simp only: file_system_read_file_def o sz prod.case option.case Let_def t rd cl) simp
qed

end
