(* ===== verification/Utils.thy ===== *)
theory Utils
  imports C_Strings Crc
begin

text \<open>
  \<open>common/utils.c\<close>: bounded memory and string operations, tokenisation, validation, hexadecimal
  conversion, check words, and the text extraction helpers of the JSON and configuration code.

  A character buffer is a list of all its characters, NULs included (\<open>cbuf\<close>); \<open>c_str\<close> reads the
  string stored at its start. Pointers are options, \<open>None\<close> the null pointer; a \<open>size_t\<close> is a
  \<open>nat\<close>, its maximum written where the code tests it. An operation that writes through a pointer
  returns the buffer afterwards. A pointer into a string is the suffix it points at.
\<close>

type_synonym cbuf = "char list"

abbreviation NUL :: char where "NUL \<equiv> CHR 0x00"

definition c_str :: "cbuf \<Rightarrow> string" where
  "c_str b = takeWhile (\<lambda>c. c \<noteq> NUL) b"

definition write_at :: "'a list \<Rightarrow> nat \<Rightarrow> 'a list \<Rightarrow> 'a list" where
  "write_at b off xs = take off b @ xs @ drop (off + length xs) b"

subsection \<open>Time differences\<close>

text \<open>The ticks are milliseconds; \<open>now\<close> is the value \<open>wm_sdk_get_ticks\<close> returns.\<close>

definition utils_get_uptime_seconds :: "nat \<Rightarrow> nat" where
  "utils_get_uptime_seconds now = now div 1000"

definition utils_elapsed_ms_since :: "nat \<Rightarrow> nat \<Rightarrow> nat" where
  "utils_elapsed_ms_since now start_ticks =
     (if now \<ge> start_ticks then now - start_ticks
      else u32 (u32_minus UINT32_MAX start_ticks + now + 1))"

definition utils_monotonic_ms_now :: "nat \<Rightarrow> nat" where
  "utils_monotonic_ms_now now = now"

definition utils_monotonic_ms_elapsed :: "nat \<Rightarrow> nat \<Rightarrow> nat" where
  "utils_monotonic_ms_elapsed now_ticks start_ms =
     (let now = utils_monotonic_ms_now now_ticks in
      if now \<ge> start_ms then now - start_ms
      else u32 (u32_minus UINT32_MAX start_ms + now + 1))"

subsection \<open>Memory and strings\<close>

definition utils_memcpy_safe ::
    "'a list option \<Rightarrow> nat \<Rightarrow> 'a list option \<Rightarrow> nat \<Rightarrow> int \<times> 'a list option" where
  "utils_memcpy_safe dest dest_size src src_size =
     (case (dest, src) of
        (Some d, Some s) \<Rightarrow>
          if dest_size = 0 \<or> src_size = 0 then (-1, dest)
          else let n = if src_size < dest_size then src_size else dest_size
               in (int n, Some (write_at d 0 (take n s)))
      | _ \<Rightarrow> (-1, dest))"

definition utils_memset_safe ::
    "bytes option \<Rightarrow> nat \<Rightarrow> byte \<Rightarrow> nat \<Rightarrow> int \<times> bytes option" where
  "utils_memset_safe dest dest_size v cnt =
     (case dest of
        None \<Rightarrow> (-1, None)
      | Some d \<Rightarrow>
          if dest_size = 0 \<or> cnt = 0 then (-1, dest)
          else let n = if cnt < dest_size then cnt else dest_size
               in (int n, Some (write_at d 0 (replicate n v))))"

definition utils_strcpy_safe :: "cbuf option \<Rightarrow> nat \<Rightarrow> string option \<Rightarrow> int \<times> cbuf option" where
  "utils_strcpy_safe dest dest_size src =
     (case (dest, src) of
        (Some d, Some s) \<Rightarrow>
          if dest_size = 0 then (-1, dest)
          else if length s \<ge> dest_size then (-1, dest)
          else (int (length s), Some (write_at d 0 (s @ [NUL])))
      | _ \<Rightarrow> (-1, dest))"

definition utils_strcat_safe :: "cbuf option \<Rightarrow> nat \<Rightarrow> string option \<Rightarrow> int \<times> cbuf option" where
  "utils_strcat_safe dest dest_size src =
     (case (dest, src) of
        (Some d, Some s) \<Rightarrow>
          if dest_size = 0 then (-1, dest)
          else
            let dest_len = length (c_str d); src_len = length s in
            if dest_len > UINT32_MAX - src_len \<or> dest_len + src_len \<ge> dest_size then (-1, dest)
            else (int (dest_len + src_len), Some (write_at d dest_len (s @ [NUL])))
      | _ \<Rightarrow> (-1, dest))"

text \<open>The number of characters before the NUL, at most the bound: the counting loop of
  \<open>strncpy_safe\<close>, \<open>strlen_safe\<close> and \<open>strdup_for_tokenization\<close>.\<close>

fun bounded_len :: "nat \<Rightarrow> string \<Rightarrow> nat" where
  "bounded_len 0 s = 0"
| "bounded_len (Suc n) [] = 0"
| "bounded_len (Suc n) (c # s) = Suc (bounded_len n s)"

text \<open>\<open>strncpy\<close> copies up to the NUL and pads the rest of its count with NULs.\<close>

definition c_strncpy :: "string \<Rightarrow> nat \<Rightarrow> cbuf" where
  "c_strncpy s n = take n s @ replicate (n - length s) NUL"

definition utils_strncpy_safe :: "cbuf option \<Rightarrow> string option \<Rightarrow> nat \<Rightarrow> int \<times> cbuf option" where
  "utils_strncpy_safe dest src dest_size =
     (case (dest, src) of
        (Some d, Some s) \<Rightarrow>
          if dest_size = 0 then (-1, dest)
          else let copy_len = dest_size - 1
               in (int (bounded_len copy_len s), Some (write_at d 0 (c_strncpy s copy_len @ [NUL])))
      | _ \<Rightarrow> (-1, dest))"

text \<open>\<open>alloc_ok\<close> is whether \<open>wm_sdk_memory_alloc\<close> returned memory.\<close>

definition utils_strdup_for_tokenization :: "bool \<Rightarrow> string option \<Rightarrow> string option" where
  "utils_strdup_for_tokenization alloc_ok src =
     (case src of
        None \<Rightarrow> None
      | Some s \<Rightarrow>
          let len = bounded_len 2048 s in
          if len = 2048 \<and> len < length s then None
          else if \<not> alloc_ok then None
          else Some (take len s))"

definition utils_strlen_safe :: "string option \<Rightarrow> nat \<Rightarrow> int" where
  "utils_strlen_safe str max_len =
     (case str of
        None \<Rightarrow> -1
      | Some s \<Rightarrow>
          let len = bounded_len max_len s in
          if len = max_len \<and> len < length s then -1 else int len)"

definition utils_calculate_checksum :: "bytes option \<Rightarrow> int \<Rightarrow> byte" where
  "utils_calculate_checksum data len =
     (case data of
        None \<Rightarrow> 0
      | Some d \<Rightarrow> if len \<le> 0 then 0 else foldl (XOR) 0 (take (nat len) d))"

subsection \<open>Tokens\<close>

text \<open>
  \<open>utils_strtok_r\<close> returns the token and the new \<open>*saveptr\<close>. The NUL it writes ends the token, which
  is why a token is a string of its own here.
\<close>

definition utils_strtok_r :: "string option \<Rightarrow> string option \<Rightarrow> string option option \<Rightarrow>
    string option \<times> string option option" where
  "utils_strtok_r str delim saveptr =
     (case (delim, saveptr) of
        (Some dl, Some save) \<Rightarrow>
          (case (case str of None \<Rightarrow> save | Some s \<Rightarrow> Some s) of
             None \<Rightarrow> (None, Some save)
           | Some s \<Rightarrow>
               let t = dropWhile (\<lambda>c. c \<in> set dl) s in
               if t = [] then (None, Some None)
               else
                 let tok = takeWhile (\<lambda>c. c \<notin> set dl) t; rest = dropWhile (\<lambda>c. c \<notin> set dl) t in
                 (Some tok, Some (if rest \<noteq> [] then Some (tl rest) else None)))
      | _ \<Rightarrow> (None, saveptr))"

text \<open>The callers' loop: a first call on the string \<open>str\<close>, whose rest \<open>utils_strtok_r\<close> leaves in
  \<open>*saveptr\<close>, then calls with a null pointer until no token is left. Each call consumes a character of
  the rest. The callers start with a null \<open>saveptr\<close>.\<close>

function tok_calls :: "string \<Rightarrow> string option \<Rightarrow> string option \<Rightarrow> string list" where
  "tok_calls dl str save =
     (case utils_strtok_r str (Some dl) (Some save) of
        (Some tok, Some save') \<Rightarrow> tok # tok_calls dl None save'
      | _ \<Rightarrow> [])"
  by pat_completeness auto

definition tok_loop :: "string \<Rightarrow> string option \<Rightarrow> string list" where
  "tok_loop dl str = tok_calls dl str None"

text \<open>How much of the string is left for the next call.\<close>

definition save_size :: "string option \<Rightarrow> nat" where
  "save_size save = (case save of None \<Rightarrow> 0 | Some s \<Rightarrow> Suc (length s))"

lemma length_tl_less: "length r \<le> n \<Longrightarrow> r \<noteq> [] \<Longrightarrow> length (tl r) < n"
  by (cases r) auto

lemma strtok_r_size:
  assumes "utils_strtok_r str (Some dl) (Some save) = (Some tok, Some save')"
  shows "save_size save' < save_size (case str of None \<Rightarrow> save | Some s \<Rightarrow> Some s)"
proof (cases "case str of None \<Rightarrow> save | Some s \<Rightarrow> Some s")
  case None
  then show ?thesis using assms by (simp add: utils_strtok_r_def)
next
  case (Some s)
  let ?t = "dropWhile (\<lambda>c. c \<in> set dl) s"
  let ?r = "dropWhile (\<lambda>c. c \<notin> set dl) ?t"
  have "length ?r \<le> length s"
    using length_dropWhile_le [of "\<lambda>c. c \<notin> set dl" ?t] length_dropWhile_le [of "\<lambda>c. c \<in> set dl" s]
    by linarith
  then have "?r \<noteq> [] \<Longrightarrow> length (tl ?r) < length s"
    by (rule length_tl_less)
  moreover have "save' = (if ?r \<noteq> [] then Some (tl ?r) else None)"
    using assms
    by (simp only: Some utils_strtok_r_def Let_def option.case prod.case prod.inject
        option.inject option.distinct not_False_eq_True not_True_eq_False if_True if_False simp_thms
        split: if_split_asm)
  ultimately show ?thesis
    by (cases "?r = []") (simp_all only: Some save_size_def option.case if_True if_False
        not_False_eq_True not_True_eq_False simp_thms Suc_less_eq zero_less_Suc)
qed

termination tok_calls
  by (relation "measure (\<lambda>(dl, str, save). save_size (case str of None \<Rightarrow> save | Some s \<Rightarrow> Some s))")
     (simp, simp only: in_measure prod.case option.case, erule strtok_r_size [OF sym])

declare tok_calls.simps [simp del]

subsection \<open>Validation\<close>

text \<open>The loop of \<open>utils_validate_ip_address\<close>: dots seen, digits since the last dot.\<close>

fun ip_loop :: "nat \<Rightarrow> nat \<Rightarrow> string \<Rightarrow> int" where
  "ip_loop dots digits [] = (if dots = 3 \<and> digits > 0 \<and> digits \<le> 3 then 1 else 0)"
| "ip_loop dots digits (c # s) =
     (if c = CHR ''.'' then
        (if digits = 0 \<or> digits > 3 then 0 else ip_loop (dots + 1) 0 s)
      else if is_digit c then
        (if digits + 1 > 3 then 0 else ip_loop dots (digits + 1) s)
      else 0)"

definition utils_validate_ip_address :: "string option \<Rightarrow> int" where
  "utils_validate_ip_address ip = (case ip of None \<Rightarrow> 0 | Some s \<Rightarrow> ip_loop 0 0 s)"

definition utils_validate_port :: "nat \<Rightarrow> int" where
  "utils_validate_port port = (if port > 0 \<and> port \<le> 65535 then 1 else 0)"

definition utils_validate_imei :: "string option \<Rightarrow> int" where
  "utils_validate_imei imei =
     (case imei of
        None \<Rightarrow> 0
      | Some s \<Rightarrow>
          if length (takeWhile is_digit s) = 15 \<and> dropWhile is_digit s = [] then 1 else 0)"

subsection \<open>Hexadecimal conversion\<close>

text \<open>The macro of \<open>utils_imei_to_8bytes\<close>, and the loop of that function from \<open>out_idx\<close> for \<open>n\<close>
  more bytes. The bytes are the output on success; what a failing call has written before the bad digit
  is not kept.\<close>

definition UTILS_HEX_VAL :: "char \<Rightarrow> nat" where
  "UTILS_HEX_VAL c =
     (if 48 \<le> char_code c \<and> char_code c \<le> 57 then char_code c - 48
      else if 65 \<le> char_code c \<and> char_code c \<le> 70 then char_code c - 65 + 10
      else if 97 \<le> char_code c \<and> char_code c \<le> 102 then char_code c - 97 + 10
      else 0xFF)"

fun imei_loop :: "string \<Rightarrow> nat \<Rightarrow> nat \<Rightarrow> bytes option" where
  "imei_loop s out_idx 0 = Some []"
| "imei_loop s out_idx (Suc n) =
     (let str_idx = (if length s = 15 then out_idx * 2 - 1 else out_idx * 2) in
      if str_idx + 1 \<ge> length s then None
      else
        let v1 = UTILS_HEX_VAL (s ! str_idx); v2 = UTILS_HEX_VAL (s ! (str_idx + 1)) in
        if v1 = 0xFF \<or> v2 = 0xFF then None
        else map_option (\<lambda>bs. byte_of_nibbles v1 v2 # bs) (imei_loop s (out_idx + 1) n))"

definition utils_imei_to_8bytes :: "string option \<Rightarrow> bool \<Rightarrow> bytes option" where
  "utils_imei_to_8bytes imei output_ok =
     (case imei of
        None \<Rightarrow> None
      | Some s \<Rightarrow>
          if \<not> output_ok then None
          else if length s \<noteq> 15 \<and> length s \<noteq> 16 then None
          else if length s = 15 then
            (let v2 = UTILS_HEX_VAL (s ! 0) in
             if v2 = 0xFF then None else map_option (\<lambda>bs. byte_of_nibbles 0 v2 # bs) (imei_loop s 1 7))
          else imei_loop s 0 8)"

definition modbus_shift :: "u16 \<Rightarrow> u16" where
  "modbus_shift crc = (if crc AND 1 \<noteq> 0 then (drop_bit 1 crc) XOR 0xA001 else drop_bit 1 crc)"

definition modbus_byte :: "u16 \<Rightarrow> byte \<Rightarrow> u16" where
  "modbus_byte crc d = (modbus_shift ^^ 8) (crc XOR ucast d)"

definition utils_crc16_modbus :: "bytes \<Rightarrow> u16" where
  "utils_crc16_modbus data = foldl modbus_byte 0xFFFF data"

text \<open>The result is the return value and the buffer; a character per digit, then the NUL. The C
  expression \<open>data_len * 2 + 1\<close> does not wrap: no object of the target has \<open>2 ^ 31\<close> bytes.\<close>

definition utils_bytes_to_hex_str ::
    "bytes option \<Rightarrow> nat \<Rightarrow> cbuf option \<Rightarrow> nat \<Rightarrow> int \<times> cbuf option" where
  "utils_bytes_to_hex_str data data_len hex_out hex_out_size =
     (case hex_out of
        None \<Rightarrow> (0, None)
      | Some h \<Rightarrow>
          if hex_out_size < data_len * 2 + 1 then (0, Some h)
          else if data_len > 0 \<and> data = None then (0, Some h)
          else
            let d = (case data of None \<Rightarrow> [] | Some d \<Rightarrow> d)
            in (1, Some (write_at h 0 (hex_of_bytes (take data_len d) @ [NUL]))))"

text \<open>The macro of \<open>utils_hex_str_to_bytes\<close>, and its loop from byte \<open>i\<close> for \<open>n\<close> bytes: \<open>None\<close> at a
  bad digit. Behind the end of the string the loop sees its NUL, which is no digit.\<close>

definition UTILS_HEX_NIBBLE :: "char \<Rightarrow> nat" where
  "UTILS_HEX_NIBBLE c =
     (if 48 \<le> char_code c \<and> char_code c \<le> 57 then char_code c - 48
      else if 65 \<le> char_code c \<and> char_code c \<le> 70 then char_code c - 65 + 10
      else if 97 \<le> char_code c \<and> char_code c \<le> 102 then char_code c - 97 + 10
      else 16)"

definition hex_str_at :: "string \<Rightarrow> nat \<Rightarrow> char" where
  "hex_str_at s i = (if i < length s then s ! i else NUL)"

fun hex_bytes_loop :: "string \<Rightarrow> nat \<Rightarrow> nat \<Rightarrow> bytes option" where
  "hex_bytes_loop s i 0 = Some []"
| "hex_bytes_loop s i (Suc n) =
     (let v1 = UTILS_HEX_NIBBLE (hex_str_at s (i * 2)); v2 = UTILS_HEX_NIBBLE (hex_str_at s (i * 2 + 1)) in
      if v1 \<ge> 16 \<or> v2 \<ge> 16 then None
      else map_option (\<lambda>bs. byte_of_nibbles v1 v2 # bs) (hex_bytes_loop s (i + 1) n))"

text \<open>The return value, and the bytes of which \<open>*out_len\<close> is the number (none on failure).\<close>

definition utils_hex_str_to_bytes ::
    "string option \<Rightarrow> nat \<Rightarrow> bool \<Rightarrow> nat \<Rightarrow> bool \<Rightarrow> int \<times> bytes" where
  "utils_hex_str_to_bytes hex_str hex_len out_ok out_cap out_len_ok =
     (if \<not> out_len_ok then (0, [])
      else if hex_len = 0 then (1, [])
      else case hex_str of
        None \<Rightarrow> (0, [])
      | Some s \<Rightarrow>
          if \<not> out_ok then (0, [])
          else if hex_len mod 2 \<noteq> 0 then (0, [])
          else if hex_len div 2 > out_cap then (0, [])
          else (case hex_bytes_loop s 0 (hex_len div 2) of
                  None \<Rightarrow> (0, [])
                | Some bs \<Rightarrow> (1, bs)))"

subsection \<open>Text extraction\<close>

definition json_space :: "char \<Rightarrow> bool" where
  "json_space c \<longleftrightarrow> c = CHR '' '' \<or> c = CHR 0x09 \<or> c = CHR 0x0D \<or> c = CHR 0x0A"

definition json_value_end :: "char \<Rightarrow> bool" where
  "json_value_end c \<longleftrightarrow> c = CHR '','' \<or> c = CHR ''}'' \<or> c = CHR '']'' \<or> json_space c"

definition dquote :: char where "dquote = CHR 0x22"

text \<open>From the position after the key on: find the colon, skip blanks, take the value.\<close>

definition json_value :: "string \<Rightarrow> nat \<Rightarrow> int \<times> string" where
  "json_value after_key out_len =
     (case strchr after_key CHR '':'' of
        None \<Rightarrow> (-1, [])
      | Some colon \<Rightarrow>
          let pos = dropWhile json_space (tl colon) in
          if pos \<noteq> [] \<and> hd pos = dquote then
            (case strchr (tl pos) dquote of
               None \<Rightarrow> (-1, [])
             | Some end \<Rightarrow>
                 let len = length (tl pos) - length end in
                 if len \<ge> out_len then (-2, []) else (0, take len (tl pos)))
          else
            let v = takeWhile (\<lambda>c. \<not> json_value_end c) pos in
            if v = [] \<or> length v \<ge> out_len then (-1, []) else (0, v))"

text \<open>The result code and the string written to \<open>out\<close> (empty when nothing is written).\<close>

definition utils_extract_json_string ::
    "string option \<Rightarrow> string option \<Rightarrow> bool \<Rightarrow> nat \<Rightarrow> int \<times> string" where
  "utils_extract_json_string json key out_ok out_len =
     (case (json, key) of
        (Some j, Some k) \<Rightarrow>
          if \<not> out_ok \<or> out_len = 0 then (-1, [])
          else if length k + 2 \<ge> 64 then (-1, [])
          else
            let pattern = dquote # k @ [dquote] in
            (case strstr j pattern of
               Some pos \<Rightarrow> json_value (drop (length pattern) pos) out_len
             | None \<Rightarrow>
                 if length k \<ge> 64 then (-1, [])
                 else (case strstr j k of
                         None \<Rightarrow> (-1, [])
                       | Some pos \<Rightarrow> json_value (drop (length k) pos) out_len))
      | _ \<Rightarrow> (-1, []))"

text \<open>Skip \<open>n\<close> items: each step needs a closing bracket and a comma before it.\<close>

fun skip_items :: "nat \<Rightarrow> string \<Rightarrow> string option" where
  "skip_items 0 s = Some s"
| "skip_items (Suc n) s =
     (case strchr s CHR '']'' of
        None \<Rightarrow> None
      | Some bracket \<Rightarrow>
          (case strchr s CHR '','' of
             None \<Rightarrow> None
           | Some comma \<Rightarrow>
               if length comma > length bracket then skip_items n (tl comma) else None))"

text \<open>The opening bracket: behind the quoted key, or the first one when the key is empty.\<close>

definition json_array_start :: "string \<Rightarrow> string \<Rightarrow> string option" where
  "json_array_start j k =
     (if length k > 0 then
        (if length k + 2 \<ge> 64 then None
         else case strstr j (dquote # k @ [dquote]) of
           None \<Rightarrow> None
         | Some p \<Rightarrow> strchr p CHR ''['')
      else strchr j CHR ''['')"

definition utils_extract_json_array_item ::
    "string option \<Rightarrow> string option \<Rightarrow> int \<Rightarrow> bool \<Rightarrow> nat \<Rightarrow> int \<times> string" where
  "utils_extract_json_array_item json array_key index out_ok out_len =
     (case (json, array_key) of
        (Some j, Some k) \<Rightarrow>
          if \<not> out_ok \<or> out_len = 0 then (-1, [])
          else if index < 0 then (-1, [])
          else
            (case json_array_start j k of
               None \<Rightarrow> (-1, [])
             | Some a \<Rightarrow>
                 (case skip_items (nat index) (tl a) of
                    None \<Rightarrow> (-1, [])
                  | Some item \<Rightarrow>
                      (case strchr item CHR '']'' of
                         None \<Rightarrow> (-1, [])
                       | Some bracket_end \<Rightarrow>
                           let len =
                             (case strchr item CHR '','' of
                                Some item_end \<Rightarrow>
                                  if length item_end > length bracket_end
                                  then length item - length item_end
                                  else length item - length bracket_end
                              | None \<Rightarrow> length item - length bracket_end)
                           in if len \<ge> out_len then (-2, []) else (0, take len item))))
      | _ \<Rightarrow> (-1, []))"

text \<open>An enumeration map has a value and a possibly null string per entry.\<close>

fun utils_enum_to_string :: "int \<Rightarrow> (int \<times> string option) list option \<Rightarrow> string option \<Rightarrow> string" where
  "utils_enum_to_string v None dflt = (case dflt of Some s \<Rightarrow> s | None \<Rightarrow> ''NULL'')"
| "utils_enum_to_string v (Some emap) dflt =
     (if emap = [] then (case dflt of Some s \<Rightarrow> s | None \<Rightarrow> ''NULL'')
      else case map_of emap v of
        Some (Some s) \<Rightarrow> s
      | Some None \<Rightarrow> ''NULL''
      | None \<Rightarrow> (case dflt of Some s \<Rightarrow> s | None \<Rightarrow> ''UNKNOWN''))"

definition utils_extract_config_value :: "string option \<Rightarrow> string option" where
  "utils_extract_config_value token =
     (case token of
        None \<Rightarrow> None
      | Some t \<Rightarrow> (case strchr t CHR '':'' of Some colon \<Rightarrow> Some (tl colon) | None \<Rightarrow> Some t))"

definition utils_config_parse_key :: "string option \<Rightarrow> bool \<Rightarrow> nat \<Rightarrow> string option" where
  "utils_config_parse_key token key_buf_ok key_buf_size =
     (case token of
        None \<Rightarrow> None
      | Some t \<Rightarrow>
          if \<not> key_buf_ok \<or> key_buf_size = 0 then None
          else case strchr t CHR '':'' of
            None \<Rightarrow> None
          | Some colon \<Rightarrow>
              let key_len = length t - length colon in
              if key_len = 0 \<or> key_len \<ge> key_buf_size then None else Some (take key_len t))"

fun key_index_loop :: "string \<Rightarrow> (string option \<times> int) list \<Rightarrow> int" where
  "key_index_loop key [] = -1"
| "key_index_loop key ((k, i) # t) =
     (case k of
        Some s \<Rightarrow> if strcasecmp_eq key s then i else key_index_loop key t
      | None \<Rightarrow> key_index_loop key t)"

definition utils_config_key_to_index ::
    "string option \<Rightarrow> (string option \<times> int) list option \<Rightarrow> int" where
  "utils_config_key_to_index key table =
     (case (key, table) of (Some k, Some t) \<Rightarrow> key_index_loop k t | _ \<Rightarrow> -1)"

definition is_blank :: "char \<Rightarrow> bool" where
  "is_blank c \<longleftrightarrow> c = CHR '' '' \<or> c = CHR 0x09"

text \<open>The trailing loop stops at the first character of the trimmed string.\<close>

definition utils_trim_whitespace :: "string option \<Rightarrow> string option" where
  "utils_trim_whitespace str =
     (case str of
        None \<Rightarrow> None
      | Some s \<Rightarrow>
          (case dropWhile is_blank s of
             [] \<Rightarrow> Some []
           | c # t \<Rightarrow> Some (c # rev (dropWhile is_blank (rev t)))))"

subsection \<open>Facts about buffers and digits\<close>

lemma length_write_at [simp]: "off + length xs \<le> length b \<Longrightarrow> length (write_at b off xs) = length b"
  by (simp add: write_at_def)

lemma drop_write_at: "off + length xs \<le> n \<Longrightarrow> n \<le> length b \<Longrightarrow> drop n (write_at b off xs) = drop n b"
  by (simp add: write_at_def)

lemma c_str_append_NUL: "NUL \<notin> set s \<Longrightarrow> c_str (s @ NUL # t) = s"
  by (induction s) (auto simp: c_str_def)

lemma c_str_no_NUL: "NUL \<notin> set (c_str b)"
  by (auto simp: c_str_def dest: set_takeWhileD)

lemma take_c_str: "take (length (c_str b)) b = c_str b"
  unfolding c_str_def by (rule takeWhile_eq_take [symmetric])

lemma bounded_len_min: "bounded_len n s = min n (length s)"
  by (induction n s rule: bounded_len.induct) auto

lemma c_strncpy_NUL: "c_strncpy s n @ [NUL] = take n s @ NUL # replicate (n - length s) NUL"
  by (simp add: c_strncpy_def replicate_append_same)

interpretation modbus: crc_register "0xA001" modbus_shift modbus_byte
  by unfold_locales (simp_all add: modbus_shift_def modbus_byte_def)

lemma length_hex_of_bytes [simp]: "length (hex_of_bytes bs) = 2 * length bs"
  by (induction bs) (auto simp: hex_of_bytes_def hex_of_byte_def)

lemma hex_digit_not_NUL: "n < 16 \<Longrightarrow> hex_digit_upper n \<noteq> NUL"
  using hex_digit_upper_code [of n] by (auto simp: char_code_def)

lemma NUL_hex_of_bytes: "NUL \<notin> set (hex_of_bytes bs)"
  using hex_digit_not_NUL [of "_ mod 16"] by (auto simp: hex_of_bytes_def hex_of_byte_def dest: sym)

text \<open>Both digit readers agree with the table of digits.\<close>

lemma UTILS_HEX_VAL_table: "UTILS_HEX_VAL c = (case hex_val c of Some v \<Rightarrow> v | None \<Rightarrow> 0xFF)"
  by (auto simp: UTILS_HEX_VAL_def hex_val_code is_digit_def is_lower_hex_def is_upper_hex_def)

lemma UTILS_HEX_NIBBLE_table: "UTILS_HEX_NIBBLE c = (case hex_val c of Some v \<Rightarrow> v | None \<Rightarrow> 16)"
  by (auto simp: UTILS_HEX_NIBBLE_def hex_val_code is_digit_def is_lower_hex_def is_upper_hex_def)

lemma hex_val_NUL [simp]: "hex_val NUL = None"
  by (simp add: hex_val_code is_digit_def is_lower_hex_def is_upper_hex_def char_code_def)

lemma hex_val_bounds: "hex_val c = Some v \<Longrightarrow> v \<noteq> 255" "hex_val c = Some v \<Longrightarrow> \<not> 16 \<le> v"
  by (auto dest: hex_val_less)

text \<open>The value of a digit and the byte of two digits at a position, by the table.\<close>

definition hex_val_at :: "string \<Rightarrow> nat \<Rightarrow> nat option" where
  "hex_val_at s i = (if i < length s then hex_val (s ! i) else None)"

definition byte_of_hex_at :: "string \<Rightarrow> nat \<Rightarrow> byte option" where
  "byte_of_hex_at s i =
     (case (hex_val_at s i, hex_val_at s (i + 1)) of
        (Some v1, Some v2) \<Rightarrow> Some (byte_of_nibbles v1 v2)
      | _ \<Rightarrow> None)"

lemma imei_loop_Suc:
  "imei_loop s k (Suc n) =
     (let str_idx = (if length s = 15 then k * 2 - 1 else k * 2) in
      if str_idx + 1 \<ge> length s then None
      else case byte_of_hex_at s str_idx of
        None \<Rightarrow> None
      | Some b \<Rightarrow> map_option (\<lambda>bs. b # bs) (imei_loop s (k + 1) n))"
  by (auto simp: Let_def byte_of_hex_at_def hex_val_at_def UTILS_HEX_VAL_table hex_val_bounds split: option.split)

lemma hex_bytes_loop_Suc:
  "hex_bytes_loop s i (Suc n) =
     (case byte_of_hex_at s (i * 2) of
        None \<Rightarrow> None
      | Some b \<Rightarrow> map_option (\<lambda>bs. b # bs) (hex_bytes_loop s (i + 1) n))"
  by (auto simp: Let_def hex_str_at_def byte_of_hex_at_def hex_val_at_def UTILS_HEX_NIBBLE_table hex_val_bounds
      split: option.split)

declare imei_loop.simps(2) [simp del] hex_bytes_loop.simps(2) [simp del]
declare imei_loop_Suc [simp] hex_bytes_loop_Suc [simp]

lemma hex_val_at_Cons: "hex_val_at (c # s) (Suc i) = hex_val_at s i"
  by (simp add: hex_val_at_def)

lemma byte_of_hex_at_Cons2: "byte_of_hex_at (c # d # s) (Suc (Suc i)) = byte_of_hex_at s i"
  by (simp add: byte_of_hex_at_def hex_val_at_Cons)

text \<open>The indexed loop is a structural decoding of the string.\<close>

fun decode_hex :: "nat \<Rightarrow> string \<Rightarrow> bytes option" where
  "decode_hex 0 s = Some []"
| "decode_hex (Suc n) (c # d # s) =
     (case (hex_val c, hex_val d) of
        (Some v1, Some v2) \<Rightarrow> map_option (\<lambda>bs. byte_of_nibbles v1 v2 # bs) (decode_hex n s)
      | _ \<Rightarrow> None)"
| "decode_hex (Suc n) s = None"

lemma hex_bytes_loop_shift: "hex_bytes_loop (c # d # s) (Suc i) n = hex_bytes_loop s i n"
  by (induction n arbitrary: i) (simp_all add: byte_of_hex_at_Cons2 del: One_nat_def split: option.split)

lemma hex_bytes_loop_decode: "hex_bytes_loop s 0 n = decode_hex n s"
proof (induction n s rule: decode_hex.induct)
  case (2 n c d s)
  then show ?case
    by (auto simp: byte_of_hex_at_def hex_val_at_def hex_bytes_loop_shift split: option.split)
qed (auto simp: byte_of_hex_at_def hex_val_at_def split: option.split)

lemma decode_hex_of_bytes: "decode_hex (length bs) (hex_of_bytes bs @ t) = Some bs"
proof (induction bs)
  case Nil
  then show ?case by simp
next
  case (Cons b bs)
  have "unat b div 16 < 16" using unat_byte_less [of b] by linarith
  moreover have "unat (drop_bit 4 b) = unat b div 16"
    by (simp only: unat_drop_bit_eq) (simp add: drop_bit_eq_div)
  ultimately show ?case
    using Cons by (simp add: hex_of_bytes_def hex_of_byte_def byte_of_nibbles_unat)
qed

lemma imei_loop_16: "length s = 16 \<Longrightarrow> i + n = 8 \<Longrightarrow> imei_loop s i n = hex_bytes_loop s i n"
  by (induction n arbitrary: i) (auto simp: Let_def split: option.split)

lemma imei_loop_15:
  "length s = 15 \<Longrightarrow> i + n = 8 \<Longrightarrow> 0 < i \<Longrightarrow> imei_loop s i n = hex_bytes_loop (CHR ''0'' # s) i n"
proof (induction n arbitrary: i)
  case 0
  then show ?case by simp
next
  case (Suc n)
  obtain j where i: "i = Suc j" using Suc.prems by (cases i) auto
  have "byte_of_hex_at (CHR ''0'' # s) (i * 2) = byte_of_hex_at s (i * 2 - 1)"
    by (simp add: i byte_of_hex_at_def hex_val_at_Cons)
  then show ?case using Suc by (auto simp: Let_def split: option.split)
qed

subsection \<open>Properties\<close>

text \<open>the bounded string operations never leave their buffer. On a buffer of at least
  \<open>dest_size\<close> characters, \<open>strncpy_safe\<close> stores the longest prefix that fits, \<open>strcpy_safe\<close> and
  \<open>strcat_safe\<close> store the whole string or refuse and change nothing; the stored string is always
  terminated, the returned number is its length, and nothing beyond \<open>dest_size\<close> is touched.\<close>

theorem safe_strings_in_bounds:
  assumes "0 < dest_size" "dest_size \<le> length d" "NUL \<notin> set s" "length s \<le> UINT32_MAX"
    and "length (c_str d) < dest_size"
  shows "(\<exists>d'. utils_strncpy_safe (Some d) (Some s) dest_size = (int (min (dest_size - 1) (length s)), Some d') \<and>
        c_str d' = take (dest_size - 1) s \<and> length d' = length d \<and> drop dest_size d' = drop dest_size d) \<and>
    (if length s < dest_size
     then \<exists>d'. utils_strcpy_safe (Some d) dest_size (Some s) = (int (length s), Some d') \<and>
        c_str d' = s \<and> length d' = length d \<and> drop dest_size d' = drop dest_size d
     else utils_strcpy_safe (Some d) dest_size (Some s) = (-1, Some d)) \<and>
    (if length (c_str d) + length s < dest_size \<and> length (c_str d) + length s \<le> UINT32_MAX
     then \<exists>d'. utils_strcat_safe (Some d) dest_size (Some s) = (int (length (c_str d) + length s), Some d') \<and>
        c_str d' = c_str d @ s \<and> length d' = length d \<and> drop dest_size d' = drop dest_size d
     else utils_strcat_safe (Some d) dest_size (Some s) = (-1, Some d))"
proof (intro conjI)
  let ?n = "write_at d 0 (c_strncpy s (dest_size - 1) @ [NUL])"
  have "NUL \<notin> set (take (dest_size - 1) s)" using assms(3) by (meson in_set_takeD)
  then have "c_str ?n = take (dest_size - 1) s"
    unfolding write_at_def c_strncpy_NUL by (simp add: c_str_append_NUL)
  moreover have "length (c_strncpy s (dest_size - 1) @ [NUL]) = dest_size"
    using assms(1) by (simp add: c_strncpy_def)
  ultimately have "utils_strncpy_safe (Some d) (Some s) dest_size = (int (min (dest_size - 1) (length s)), Some ?n) \<and>
      c_str ?n = take (dest_size - 1) s \<and> length ?n = length d \<and> drop dest_size ?n = drop dest_size d"
    using assms(1,2) by (simp add: utils_strncpy_safe_def bounded_len_min drop_write_at Let_def)
  then show "\<exists>d'. utils_strncpy_safe (Some d) (Some s) dest_size = (int (min (dest_size - 1) (length s)), Some d') \<and>
        c_str d' = take (dest_size - 1) s \<and> length d' = length d \<and> drop dest_size d' = drop dest_size d"
    by blast
next
  let ?c = "write_at d 0 (s @ [NUL])"
  have "c_str ?c = s" using assms(3) by (simp add: write_at_def c_str_append_NUL)
  then show "if length s < dest_size
     then \<exists>d'. utils_strcpy_safe (Some d) dest_size (Some s) = (int (length s), Some d') \<and>
        c_str d' = s \<and> length d' = length d \<and> drop dest_size d' = drop dest_size d
     else utils_strcpy_safe (Some d) dest_size (Some s) = (-1, Some d)"
    using assms(1,2) by (simp add: utils_strcpy_safe_def drop_write_at)
next
  let ?a = "write_at d (length (c_str d)) (s @ [NUL])"
  have "c_str ?a = c_str d @ s"
    using assms(3) c_str_append_NUL [of "c_str d @ s"] c_str_no_NUL [of d]
    by (simp add: write_at_def take_c_str)
  then show "if length (c_str d) + length s < dest_size \<and> length (c_str d) + length s \<le> UINT32_MAX
     then \<exists>d'. utils_strcat_safe (Some d) dest_size (Some s) = (int (length (c_str d) + length s), Some d') \<and>
        c_str d' = c_str d @ s \<and> length d' = length d \<and> drop dest_size d' = drop dest_size d
     else utils_strcat_safe (Some d) dest_size (Some s) = (-1, Some d)"
    using assms(1,2,4) by (auto simp: utils_strcat_safe_def drop_write_at Let_def)
qed

theorem safe_strings_in_bounds_witness:
  "utils_strcat_safe (Some [CHR ''a'', NUL, NUL]) 3 (Some ''bc'') = (-1, Some [CHR ''a'', NUL, NUL])"
  using safe_strings_in_bounds [of 3 "[CHR ''a'', NUL, NUL]" "''bc''"] by (simp add: c_str_def)

text \<open>Round trip of the hexadecimal conversions. What \<open>utils_bytes_to_hex_str\<close> writes for any
  bytes is read back by \<open>utils_hex_str_to_bytes\<close> as the same bytes, given room for them; without
  room for the digits and their NUL the encoder refuses and leaves the buffer as it was.\<close>

theorem hex_str_roundtrip:
  assumes "hex_out_size \<le> length h" and "length bs \<le> out_cap"
  shows "(if length bs * 2 + 1 \<le> hex_out_size
     then \<exists>h'. utils_bytes_to_hex_str (Some bs) (length bs) (Some h) hex_out_size = (1, Some h') \<and>
       utils_hex_str_to_bytes (Some (c_str h')) (length (c_str h')) True out_cap True = (1, bs)
     else utils_bytes_to_hex_str (Some bs) (length bs) (Some h) hex_out_size = (0, Some h))"
proof -
  let ?h = "write_at h 0 (hex_of_bytes bs @ [NUL])"
  have c: "c_str ?h = hex_of_bytes bs"
    by (simp add: write_at_def c_str_append_NUL NUL_hex_of_bytes)
  have "utils_hex_str_to_bytes (Some (hex_of_bytes bs)) (2 * length bs) True out_cap True = (1, bs)"
    using assms(2) decode_hex_of_bytes [of bs "[]"]
    by (auto simp: utils_hex_str_to_bytes_def hex_bytes_loop_decode)
  then show ?thesis by (auto simp: utils_bytes_to_hex_str_def c)
qed

theorem hex_str_roundtrip_witness:
  "utils_bytes_to_hex_str (Some [0x0F]) 1 (Some [NUL, NUL]) 2 = (0, Some [NUL, NUL])"
  using hex_str_roundtrip [of 2 "[NUL, NUL]" "[0x0F]" 1] by simp

lemma imei_to_8bytes_loop:
  "utils_imei_to_8bytes (Some s) True =
    (if length s = 15 then hex_bytes_loop (CHR ''0'' # s) 0 8
     else if length s = 16 then hex_bytes_loop s 0 8 else None)"
proof -
  have z: "hex_val CHR ''0'' = Some 0" by (simp add: hex_val_code is_digit_def char_code_def)
  have "hex_bytes_loop (CHR ''0'' # s) 0 8 =
      (case hex_val_at s 0 of None \<Rightarrow> None
       | Some v2 \<Rightarrow> map_option (\<lambda>bs. byte_of_nibbles 0 v2 # bs) (hex_bytes_loop (CHR ''0'' # s) 1 7))"
    using hex_bytes_loop_Suc [of "CHR ''0'' # s" 0 7]
    by (simp add: byte_of_hex_at_def hex_val_at_Cons z split: option.split)
       (simp add: hex_val_at_def z)
  then show ?thesis
    using imei_loop_15 [of s 1 7] imei_loop_16 [of s 0 8]
    by (auto simp: utils_imei_to_8bytes_def hex_val_at_def UTILS_HEX_VAL_table hex_val_bounds split: option.split)
qed

text \<open>The decoding of an even number of digits, digit by digit from the table.\<close>

definition hex_number_at :: "string \<Rightarrow> nat \<Rightarrow> nat" where
  "hex_number_at s i = the (hex_val (s ! i))"

lemma byte_of_nibbles_number: "x < 16 \<Longrightarrow> y < 16 \<Longrightarrow> byte_of_nibbles x y = of_nat (16 * x + y)"
proof -
  assume "x < 16" and "y < 16"
  then have "unat (byte_of_nibbles x y) = unat (of_nat (16 * x + y) :: byte)"
    by (simp only: unat_byte_of_nibbles unat_byte_of_nat) simp
  then show ?thesis by (simp only: unsigned_word_eqI)
qed

lemma decode_hex_digits:
  "length s = 2 * n \<Longrightarrow> decode_hex n s =
     (if list_all (\<lambda>c. hex_val c \<noteq> None) s
      then Some (map (\<lambda>i. of_nat (16 * hex_number_at s (2 * i) + hex_number_at s (2 * i + 1))) [0..<n]) else None)"
proof (induction n s rule: decode_hex.induct)
  case (2 n c d s)
  then show ?case
    by (auto simp: map_upt_Suc byte_of_nibbles_number hex_val_less hex_number_at_def simp del: upt_Suc split: option.split)
qed auto

text \<open>\<open>utils_imei_to_8bytes\<close> packs an IMEI of 15 digits, with a zero digit before it, or of 16 digits into
  eight bytes of two digits each, the high digit first; it fails exactly when the length is another or
  some character is no hexadecimal digit.\<close>

theorem imei_to_8bytes_decodes:
  "utils_imei_to_8bytes (Some s) True =
    (let t = (if length s = 15 then CHR ''0'' # s else s) in
     if length t = 16 \<and> list_all (\<lambda>c. hex_val c \<noteq> None) t
     then Some (map (\<lambda>i. of_nat (16 * hex_number_at t (2 * i) + hex_number_at t (2 * i + 1))) [0..<8]) else None)"
  unfolding imei_to_8bytes_loop hex_bytes_loop_decode Let_def
  using decode_hex_digits [of s 8] decode_hex_digits [of "CHR ''0'' # s" 8]
  by simp

subsection \<open>Splitting a string\<close>

text \<open>The reference for tokenisation: the pieces between separators, empty ones included.\<close>

fun split_chars :: "char set \<Rightarrow> string \<Rightarrow> string list" where
  "split_chars D [] = [[]]"
| "split_chars D (c # s) =
     (if c \<in> D then [] # split_chars D s
      else (c # hd (split_chars D s)) # tl (split_chars D s))"

lemma split_chars_not_Nil [simp]: "split_chars D s \<noteq> []"
  by (cases s) auto

lemma split_chars_token:
  "set p \<inter> D = {} \<Longrightarrow> d \<in> D \<Longrightarrow> split_chars D (p @ d # s) = p # split_chars D s"
  by (induction p) auto

lemma split_chars_last: "set p \<inter> D = {} \<Longrightarrow> split_chars D p = [p]"
  by (induction p) auto

lemma split_chars_drop:
  "filter (\<lambda>t. t \<noteq> []) (split_chars D (dropWhile (\<lambda>c. c \<in> D) s)) = filter (\<lambda>t. t \<noteq> []) (split_chars D s)"
  by (induction s) auto

lemma takeWhile_disj: "set (takeWhile (\<lambda>c. c \<notin> D) t) \<inter> D = {}"
  by (auto dest: set_takeWhileD)

lemma dropWhile_hd: "dropWhile P t = c # r \<Longrightarrow> \<not> P c"
  by (metis hd_dropWhile list.distinct(1) list.sel(1))

lemma tok_calls_None: "tok_calls dl None (Some s) = tok_calls dl (Some s) save"
  by (simp add: tok_calls.simps [of dl None] tok_calls.simps [of dl "Some s"] utils_strtok_r_def)

lemma tok_calls_split:
  "tok_calls dl (Some s) save = filter (\<lambda>t. t \<noteq> []) (split_chars (set dl) s)"
proof (induction s arbitrary: save rule: measure_induct_rule [where f = length])
  case (less s)
  define t where "t = dropWhile (\<lambda>c. c \<in> set dl) s"
  define tok where "tok = takeWhile (\<lambda>c. c \<notin> set dl) t"
  define rest where "rest = dropWhile (\<lambda>c. c \<notin> set dl) t"
  have call: "utils_strtok_r (Some s) (Some dl) (Some save) =
      (if t = [] then (None, Some None) else (Some tok, Some (if rest \<noteq> [] then Some (tl rest) else None)))"
    by (simp only: utils_strtok_r_def Let_def option.case prod.case t_def [symmetric]
        tok_def [symmetric] rest_def [symmetric])
  have split: "filter (\<lambda>t. t \<noteq> []) (split_chars (set dl) s) = filter (\<lambda>t. t \<noteq> []) (split_chars (set dl) t)"
    unfolding t_def by (rule split_chars_drop [symmetric])
  have t: "t = tok @ rest" by (simp only: tok_def rest_def takeWhile_dropWhile_id)
  have disj: "set tok \<inter> set dl = {}" unfolding tok_def by (rule takeWhile_disj)
  show ?case
  proof (cases "t = []")
    case True
    then show ?thesis by (simp add: tok_calls.simps call split)
  next
    case False
    then obtain c u where cu: "t = c # u" by (cases t) auto
    have "dropWhile (\<lambda>c. c \<in> set dl) s = c # u" using cu by (simp only: t_def)
    from dropWhile_hd [OF this] have "c \<notin> set dl" .
    then have tok: "tok \<noteq> []" unfolding tok_def cu by simp
    show ?thesis
    proof (cases rest)
      case Nil
      have "tok_calls dl None None = []" by (simp add: tok_calls.simps utils_strtok_r_def)
      then show ?thesis
        using t Nil tok disj by (simp add: tok_calls.simps [of _ "Some s"] call split split_chars_last)
    next
      case (Cons d r)
      then have "dropWhile (\<lambda>c. c \<notin> set dl) t = d # r" by (simp only: rest_def)
      from dropWhile_hd [OF this] have "d \<in> set dl" by simp
      moreover have "length r < length s"
        using t Cons length_dropWhile_le [of "\<lambda>c. c \<in> set dl" s] by (simp add: t_def [symmetric])
      ultimately show ?thesis
        using t Cons tok disj less.IH [of r None] tok_calls_None [of dl r None]
        by (simp add: tok_calls.simps [of _ "Some s"] call split split_chars_token)
    qed
  qed
qed

text \<open>Tokenisation is complete and exact. Calling \<open>utils_strtok_r\<close> on a string and then with a null
  pointer until it returns null yields precisely the non-empty pieces of the string between delimiters,
  in order; the loop of calls ends for every string.\<close>

theorem strtok_r_tokens:
  "tok_loop dl (Some s) = filter (\<lambda>t. t \<noteq> []) (split_chars (set dl) s)"
  by (simp add: tok_loop_def tok_calls_split)

definition octet :: "string \<Rightarrow> bool" where
  "octet t \<longleftrightarrow> list_all is_digit t \<and> 1 \<le> length t \<and> length t \<le> 3"

lemma dot_not_digit: "\<not> is_digit CHR ''.''"
  by (simp add: is_digit_def char_code_def)

lemma ip_loop_split:
  "digits \<le> 3 \<Longrightarrow> ip_loop dots digits s = 1 \<longleftrightarrow>
     dots + length (split_chars {CHR ''.''} s) = 4 \<and>
     list_all is_digit (hd (split_chars {CHR ''.''} s)) \<and>
     1 \<le> digits + length (hd (split_chars {CHR ''.''} s)) \<and>
     digits + length (hd (split_chars {CHR ''.''} s)) \<le> 3 \<and>
     (\<forall>t \<in> set (tl (split_chars {CHR ''.''} s)). octet t)"
proof (induction s arbitrary: dots digits)
  case Nil
  then show ?case by auto
next
  case (Cons c s)
  obtain p ps where "split_chars {CHR ''.''} s = p # ps"
    using split_chars_not_Nil by (cases "split_chars {CHR ''.''} s") auto
  then show ?case
    using Cons.prems Cons.IH [of 0 "Suc dots"] Cons.IH [of "Suc digits" dots]
    by (cases "c = CHR ''.''"; cases "is_digit c") (auto simp: dot_not_digit octet_def)
qed

text \<open>\<open>utils_validate_ip_address\<close> accepts exactly the strings of four octets between three dots,
  each of one to three decimal digits (their values are not looked at: \<open>999.1.1.1\<close> passes).\<close>

theorem validate_ip_address_iff:
  "utils_validate_ip_address (Some s) = 1 \<longleftrightarrow>
     length (split_chars {CHR ''.''} s) = 4 \<and> (\<forall>t \<in> set (split_chars {CHR ''.''} s). octet t)"
proof -
  obtain p ps where "split_chars {CHR ''.''} s = p # ps"
    using split_chars_not_Nil by (cases "split_chars {CHR ''.''} s") auto
  then show ?thesis
    by (auto simp: utils_validate_ip_address_def ip_loop_split octet_def)
qed

theorem validate_ip_address_iff_witness: "utils_validate_ip_address (Some ''999.1.1.1'') = 1"
  unfolding validate_ip_address_iff by (simp add: octet_def is_digit_def char_code_def)

lemma elapsed_ms_wraps:
  assumes "start < 2 ^ 32" and "delta < 2 ^ 32"
  shows "utils_elapsed_ms_since (u32 (start + delta)) start = delta \<and>
    utils_monotonic_ms_elapsed (u32 (start + delta)) start = delta"
proof -
  have m: "u32_minus UINT32_MAX start = UINT32_MAX - start"
    using assms(1) by (simp add: u32_minus_small)
  show ?thesis
  proof (cases "start + delta < 2 ^ 32")
    case True
    then show ?thesis
      by (simp add: utils_elapsed_ms_since_def utils_monotonic_ms_elapsed_def utils_monotonic_ms_now_def)
  next
    case False
    then have w: "u32 (start + delta) = start + delta - 2 ^ 32"
      using assms by (simp add: u32_def mod_if)
    have "start + delta - 4294967296 < start" and "UINT32_MAX - start + (start + delta - 4294967296) + 1 = delta"
      using assms False by auto
    then show ?thesis
      using w assms m
      by (simp add: utils_elapsed_ms_since_def utils_monotonic_ms_elapsed_def utils_monotonic_ms_now_def)
  qed
qed

text \<open>The same on an ideal clock that does not wrap.\<close>

lemma elapsed_ms_ideal:
  assumes "t0 \<le> t" and "t < t0 + 4294967296"
  shows "utils_elapsed_ms_since (u32 t) (u32 t0) = t - t0"
proof -
  have "u32 t = u32 (u32 t0 + (t - t0))"
    using mod_add_left_eq [of t0 "2 ^ 32" "t - t0"] assms(1) by (simp add: u32_def)
  then show ?thesis
    using elapsed_ms_wraps [of "u32 t0" "t - t0"] assms by simp
qed

text \<open>Elapsed time is right across the wrap-around of the millisecond counter. For every start
  value and every interval below \<open>2 ^ 32\<close> ms, both elapsed-time functions return the interval,
  although the counter may have wrapped in between.\<close>

theorem elapsed_ms_wrap_safe:
  assumes "start < 2 ^ 32" and "delta < 2 ^ 32"
  shows "utils_elapsed_ms_since (u32 (start + delta)) start = delta \<and>
    utils_monotonic_ms_elapsed (u32 (start + delta)) start = delta"
  using assms by (rule elapsed_ms_wraps)

theorem elapsed_ms_wrap_safe_witness: "utils_elapsed_ms_since 4 4294967290 = 10"
  using elapsed_ms_wrap_safe [of 4294967290 10] by (simp add: u32_def)

text \<open>\<open>utils_extract_json_string\<close> finds a quoted value. When the first occurrence of the quoted key
  is followed by a colon and a quoted string (blanks and text without a colon may stand between),
  the result is that string if it fits the output buffer, and \<open>-2\<close> otherwise.\<close>

theorem extract_json_string_quoted:
  assumes first: "\<forall>i < length pre. take (length k + 2) (drop i (pre @ (dquote # k @ [dquote]) @ rest)) \<noteq> dquote # k @ [dquote]"
    and rest: "rest = mid @ CHR '':'' # blanks @ dquote # v @ dquote # post"
    and "CHR '':'' \<notin> set mid" and "list_all json_space blanks" and "dquote \<notin> set v"
    and "length k < 62" and "0 < out_len"
  shows "utils_extract_json_string (Some (pre @ (dquote # k @ [dquote]) @ rest)) (Some k) True out_len =
    (if length v < out_len then (0, v) else (-2, []))"
proof -
  let ?p = "dquote # k @ [dquote]"
  have "strstr (pre @ ?p @ rest) ?p = Some (?p @ rest)"
    using first by (intro strstr_skip) simp
  moreover have "strchr rest CHR '':'' = Some (CHR '':'' # blanks @ dquote # v @ dquote # post)"
    unfolding rest using assms(3) by (rule strchr_Some)
  moreover have "dropWhile json_space (blanks @ dquote # v @ dquote # post) = dquote # v @ dquote # post"
    using assms(4) by (simp add: dropWhile_append3 list_all_iff json_space_def dquote_def)
  moreover have "strchr (v @ dquote # post) dquote = Some (dquote # post)"
    using assms(5) by (rule strchr_Some)
  ultimately show ?thesis
    using assms(6,7) by (simp add: utils_extract_json_string_def json_value_def Let_def)
qed

theorem extract_json_string_quoted_witness:
  "utils_extract_json_string (Some ([] @ (dquote # ''id'' @ [dquote]) @
      CHR '':'' # [CHR '' ''] @ dquote # ''W7'' @ dquote # ''}'')) (Some ''id'') True 3 = (0, ''W7'')"
  using extract_json_string_quoted [of "[]" "''id''" "CHR '':'' # [CHR '' ''] @ dquote # ''W7'' @ dquote # ''}''"
      "[]" "[CHR '' '']" "''W7''" "''}''" 3]
  by (simp add: json_space_def dquote_def)

text \<open>Array items joined by commas.\<close>

fun join_items :: "string list \<Rightarrow> string" where
  "join_items [] = []"
| "join_items [x] = x"
| "join_items (x # y # xs) = x @ CHR '','' # join_items (y # xs)"

definition plain_item :: "string \<Rightarrow> bool" where
  "plain_item x \<longleftrightarrow> CHR '','' \<notin> set x \<and> CHR '']'' \<notin> set x"

lemma strchr_append_notin: "c \<notin> set p \<Longrightarrow> strchr (p @ s) c = strchr s c"
  by (induction p) auto

lemma strchr_length: "strchr s c = Some t \<Longrightarrow> length t \<le> length s"
  by (auto dest!: strchr_SomeD)

lemma strchr_bracket_join:
  "list_all plain_item xs \<Longrightarrow> strchr (join_items xs @ CHR '']'' # post) CHR '']'' = Some (CHR '']'' # post)"
  by (induction xs rule: join_items.induct) (auto simp: plain_item_def strchr_append_notin)

lemma strchr_comma_post:
  "plain_item x \<Longrightarrow> strchr (x @ CHR '']'' # post) CHR '','' = strchr post CHR '',''"
  by (simp add: plain_item_def strchr_append_notin)

lemma skip_items_join:
  "list_all plain_item xs \<Longrightarrow> xs \<noteq> [] \<Longrightarrow>
   skip_items i (join_items xs @ CHR '']'' # post) =
     (if i < length xs then Some (join_items (drop i xs) @ CHR '']'' # post) else None)"
proof (induction xs arbitrary: i rule: join_items.induct)
  case 1
  then show ?case by simp
next
  case (2 x)
  then show ?case
    using strchr_bracket_join [of "[x]" post] strchr_length [of post]
    by (cases i) (auto simp: strchr_comma_post split: option.split dest!: strchr_length)
next
  case (3 x y xs)
  let ?t = "CHR '']'' # post"
  have b: "strchr (join_items (x # y # xs) @ ?t) CHR '']'' = Some ?t"
    using "3.prems"(1) by (rule strchr_bracket_join)
  have c: "strchr (join_items (x # y # xs) @ ?t) CHR '','' = Some (CHR '','' # join_items (y # xs) @ ?t)"
    using "3.prems"(1) by (simp add: plain_item_def strchr_append_notin)
  have ih: "skip_items j (join_items (y # xs) @ ?t) =
      (if j < length (y # xs) then Some (join_items (drop j (y # xs)) @ ?t) else None)" for j
    using 3 by simp
  show ?case
    by (cases i) (simp_all add: b c ih del: join_items.simps)
qed

lemma json_array_start_key:
  assumes "k \<noteq> []" and "length k < 62" and "CHR ''['' \<notin> set (k @ mid)"
    and "\<forall>i < length pre. take (length k + 2) (drop i (pre @ (dquote # k @ [dquote]) @ mid @ CHR ''['' # r)) \<noteq> dquote # k @ [dquote]"
  shows "json_array_start (pre @ (dquote # k @ [dquote]) @ mid @ CHR ''['' # r) k = Some (CHR ''['' # r)"
proof -
  let ?p = "dquote # k @ [dquote]"
  have "strstr (pre @ ?p @ mid @ CHR ''['' # r) ?p = Some (?p @ mid @ CHR ''['' # r)"
    using assms(4) by (intro strstr_skip) simp
  moreover have "strchr (?p @ mid @ CHR ''['' # r) CHR ''['' = Some (CHR ''['' # r)"
    using strchr_Some [of "CHR ''[''" "?p @ mid" r] assms(3) by (simp add: dquote_def)
  ultimately show ?thesis using assms(1,2) by (simp add: json_array_start_def)
qed

lemma json_array_item_at:
  assumes "json_array_start j k = Some (CHR ''['' # join_items xs @ CHR '']'' # post)"
    and "list_all plain_item xs" and "xs \<noteq> []" and "0 < out_len"
  shows "utils_extract_json_array_item (Some j) (Some k) (int i) True out_len =
    (if i < length xs then (if length (xs ! i) < out_len then (0, xs ! i) else (-2, [])) else (-1, []))"
proof (cases "i < length xs")
  case False
  then show ?thesis
    using assms by (simp add: utils_extract_json_array_item_def strchr_append_notin skip_items_join)
next
  case True
  then obtain ys where d: "drop i xs = xs ! i # ys" using Cons_nth_drop_Suc by metis
  have all: "list_all plain_item (xs ! i # ys)"
    using assms(2) d by (metis in_set_dropD list_all_iff)
  have b: "strchr (join_items (xs ! i # ys) @ CHR '']'' # post) CHR '']'' = Some (CHR '']'' # post)"
    using all by (rule strchr_bracket_join)
  show ?thesis
  proof (cases ys)
    case Nil
    then show ?thesis
      using assms True d all b
      by (auto simp: utils_extract_json_array_item_def strchr_append_notin skip_items_join
          strchr_comma_post split: option.split dest!: strchr_length)
  next
    case (Cons y zs)
    then show ?thesis
      using assms True d all b
      by (auto simp: utils_extract_json_array_item_def strchr_append_notin skip_items_join
          plain_item_def)
  qed
qed

text \<open>\<open>utils_extract_json_array_item\<close> indexes the JSON array of plain items that follows the first
  occurrence of the quoted key, whatever stands before the key and behind the closing bracket: item
  \<open>i\<close> when there is one and it fits, \<open>-2\<close> when it does not fit, \<open>-1\<close> when the array is shorter. Between
  the key and the array no other bracket opens.\<close>

theorem extract_json_array_item_nth:
  assumes "k \<noteq> []" and "length k < 62" and "CHR ''['' \<notin> set (k @ mid)"
    and "\<forall>i < length pre. take (length k + 2) (drop i (pre @ (dquote # k @ [dquote]) @ mid @ CHR ''['' #
      join_items xs @ CHR '']'' # post)) \<noteq> dquote # k @ [dquote]"
    and "list_all plain_item xs" and "xs \<noteq> []" and "0 < out_len"
  shows "utils_extract_json_array_item (Some (pre @ (dquote # k @ [dquote]) @ mid @ CHR ''['' # join_items xs @ CHR '']'' # post))
      (Some k) (int i) True out_len =
    (if i < length xs then (if length (xs ! i) < out_len then (0, xs ! i) else (-2, [])) else (-1, []))"
  by (rule json_array_item_at [OF json_array_start_key [OF assms(1-4)] assms(5-7)])

theorem extract_json_array_item_nth_witness:
  "utils_extract_json_array_item (Some (''[0],'' @ (dquote # ''id'' @ [dquote]) @ '':'' @ CHR ''['' # join_items [''12'', ''7''] @
     CHR '']'' # '',9'')) (Some ''id'') (int 1) True 4 = (0, ''7'')"
proof -
  have "\<forall>i < length ''[0],''. take (length ''id'' + 2) (drop i (''[0],'' @ (dquote # ''id'' @ [dquote]) @ '':'' @ CHR ''['' #
      join_items [''12'', ''7''] @ CHR '']'' # '',9'')) \<noteq> dquote # ''id'' @ [dquote]"
    by (simp add: dquote_def numeral_eq_Suc All_less_Suc)
  from extract_json_array_item_nth [OF _ _ _ this, of 4 1] show ?thesis by (simp add: plain_item_def)
qed

text \<open>With an empty key the array is the first one of the text.\<close>

lemma extract_json_array_item_first:
  assumes "CHR ''['' \<notin> set pre" and "list_all plain_item xs" and "xs \<noteq> []" and "0 < out_len"
  shows "utils_extract_json_array_item (Some (pre @ CHR ''['' # join_items xs @ CHR '']'' # post)) (Some [])
      (int i) True out_len =
    (if i < length xs then (if length (xs ! i) < out_len then (0, xs ! i) else (-2, [])) else (-1, []))"
  using assms by (intro json_array_item_at) (simp_all add: json_array_start_def strchr_Some)

text \<open>Trimming removes blanks at both ends and nothing else.\<close>

lemma trim_whitespace_strips:
  "utils_trim_whitespace (Some s) = Some (rev (dropWhile is_blank (rev (dropWhile is_blank s))))"
proof (cases "dropWhile is_blank s")
  case Nil
  show ?thesis by (simp only: utils_trim_whitespace_def option.case Nil list.case) simp
next
  case (Cons c u)
  then have "\<not> is_blank c" by (rule dropWhile_hd)
  then have "dropWhile is_blank (rev u @ [c]) = dropWhile is_blank (rev u) @ [c]"
    by (induction "rev u" arbitrary: u) (auto simp: dropWhile_append split: if_splits)
  then show ?thesis by (simp only: utils_trim_whitespace_def option.case Cons list.case) simp
qed

end
