(* ===== verification/Pre_Boot.thy ===== *)
theory Pre_Boot
  imports File_System Utils
begin

text \<open>
  \<open>system/reset/pre_boot_handler.c\<close>: the record that survives a reset, a packed structure of 58 bytes in
  one file. The static \<open>s_disk\<close> and the cache flag are the state \<open>pre_boot\<close>, empty after a reboot;
  \<open>UINT32\<close> fields are naturals, little-endian on flash.
\<close>

datatype reset_type = RESET_TYPE_NONE | RESET_TYPE_CFUN | RESET_TYPE_SOFT | RESET_TYPE_HARD

fun reset_type_code :: "reset_type \<Rightarrow> nat" where
  "reset_type_code RESET_TYPE_NONE = 0"
| "reset_type_code RESET_TYPE_CFUN = 1"
| "reset_type_code RESET_TYPE_SOFT = 2"
| "reset_type_code RESET_TYPE_HARD = 3"

text \<open>The cast of a stored value that \<open>reset_type_valid\<close> has accepted.\<close>

definition reset_type_of :: "nat \<Rightarrow> reset_type" where
  "reset_type_of v =
     (if v = 0 then RESET_TYPE_NONE else if v = 1 then RESET_TYPE_CFUN
      else if v = 2 then RESET_TYPE_SOFT else RESET_TYPE_HARD)"

definition reset_type_name :: "nat \<Rightarrow> string" where
  "reset_type_name u = (if u < 4 then [''NONE'', ''CFUN'', ''SOFT'', ''HARD''] ! u else ''?'')"

definition reset_type_valid :: "nat \<Rightarrow> bool" where
  "reset_type_valid v \<longleftrightarrow> v \<le> reset_type_code RESET_TYPE_HARD"

record pre_boot_on_disk =
  pb_magic :: nat
  pb_version :: nat
  pb_reset_type :: nat
  pb_reset_time :: nat
  pb_total_resets :: nat
  pb_reset_module :: cbuf
  pb_offset :: nat
  pb_offset_valid :: byte

record last_sw_reset_info =
  lr_reset_type :: reset_type
  lr_reset_time :: nat
  lr_total_resets :: nat
  lr_module_name :: cbuf
  lr_valid :: bool

record pre_boot =
  s_disk :: pre_boot_on_disk
  s_cache_have :: bool

abbreviation PRE_BOOT_MAGIC :: nat where "PRE_BOOT_MAGIC \<equiv> 0x46494250"
abbreviation PRE_BOOT_VERSION :: nat where "PRE_BOOT_VERSION \<equiv> 4"
abbreviation MODULE_NAME_SIZE :: nat where "MODULE_NAME_SIZE \<equiv> 33"
abbreviation DISK_SIZE :: nat where "DISK_SIZE \<equiv> 58"

definition PRE_BOOT_INFO_FILE_PATH :: string where
  "PRE_BOOT_INFO_FILE_PATH = ''C:/preboot/weware_preboot.bin''"

subsection \<open>The packed layout\<close>

text \<open>The bytes of the packed struct in memory, as the compiler lays it out: little endian, without padding. The code
  reads and writes the struct itself.\<close>

definition disk_bytes :: "pre_boot_on_disk \<Rightarrow> bytes" where
  "disk_bytes r =
     le32_bytes (pb_magic r) @ le32_bytes (pb_version r) @ le32_bytes (pb_reset_type r) @
     le32_bytes (pb_reset_time r) @ le32_bytes (pb_total_resets r) @
     map byte_of_char (pb_reset_module r) @ le32_bytes (pb_offset r) @ [pb_offset_valid r]"

definition disk_of_bytes :: "bytes \<Rightarrow> pre_boot_on_disk" where
  "disk_of_bytes bs = \<lparr>pb_magic = le32 bs, pb_version = le32 (drop 4 bs),
     pb_reset_type = le32 (drop 8 bs), pb_reset_time = le32 (drop 12 bs),
     pb_total_resets = le32 (drop 16 bs), pb_reset_module = map char_of_byte (take 33 (drop 20 bs)),
     pb_offset = le32 (drop 53 bs), pb_offset_valid = bs ! 57\<rparr>"

subsection \<open>Helpers\<close>

definition disk_header_ok :: "pre_boot_on_disk \<Rightarrow> bool" where
  "disk_header_ok r \<longleftrightarrow>
     pb_magic r = PRE_BOOT_MAGIC \<and> pb_version r = PRE_BOOT_VERSION \<and> reset_type_valid (pb_reset_type r)"

definition disk_init_empty :: pre_boot_on_disk where
  "disk_init_empty = \<lparr>pb_magic = PRE_BOOT_MAGIC, pb_version = PRE_BOOT_VERSION, pb_reset_type = 0,
     pb_reset_time = 0, pb_total_resets = 0, pb_reset_module = replicate MODULE_NAME_SIZE NUL,
     pb_offset = 0, pb_offset_valid = 0\<rparr>"

definition disk_clear_reset_slot :: "pre_boot_on_disk \<Rightarrow> pre_boot_on_disk" where
  "disk_clear_reset_slot r = r\<lparr>pb_reset_type := reset_type_code RESET_TYPE_NONE, pb_reset_time := 0,
     pb_reset_module := (pb_reset_module r)[0 := NUL]\<rparr>"

definition disk_clear_tcp_offset :: "pre_boot_on_disk \<Rightarrow> pre_boot_on_disk" where
  "disk_clear_tcp_offset r = r\<lparr>pb_offset := 0, pb_offset_valid := 0\<rparr>"

definition cache_set :: "pre_boot_on_disk \<Rightarrow> pre_boot \<Rightarrow> pre_boot" where
  "cache_set r pb = pb\<lparr>s_disk := r, s_cache_have := True\<rparr>"

definition staged_from_cache :: "pre_boot \<Rightarrow> pre_boot_on_disk" where
  "staged_from_cache pb = (if s_cache_have pb then s_disk pb else disk_init_empty)"

subsection \<open>File access\<close>

definition disk_read :: "'w flash \<Rightarrow> 'w \<Rightarrow> result \<times> pre_boot_on_disk \<times> 'w" where
  "disk_read F w =
     (let (r, b, n, w1) = file_system_read_file F (Some PRE_BOOT_INFO_FILE_PATH) (Some (replicate DISK_SIZE 0)) DISK_SIZE w;
          out = disk_of_bytes (case b of None \<Rightarrow> replicate DISK_SIZE 0 | Some x \<Rightarrow> x)
      in if r \<noteq> RESULT_SUCCESS then (RESULT_NOT_FOUND, out, w1)
         else if n \<noteq> Some DISK_SIZE then (RESULT_ERROR, out, w1)
         else (RESULT_SUCCESS, out, w1))"

definition disk_write :: "'w flash \<Rightarrow> pre_boot_on_disk \<Rightarrow> 'w \<Rightarrow> result \<times> 'w" where
  "disk_write F r w = file_system_write_file F (Some PRE_BOOT_INFO_FILE_PATH) (Some (disk_bytes r)) DISK_SIZE w"

definition disk_store :: "'w flash \<Rightarrow> pre_boot_on_disk \<Rightarrow> pre_boot \<Rightarrow> 'w \<Rightarrow> result \<times> pre_boot \<times> 'w" where
  "disk_store F r pb w =
     (let (res, w1) = disk_write F r w in
      (res, if res = RESULT_SUCCESS then cache_set r pb else pb, w1))"

definition disk_load_or_create :: "'w flash \<Rightarrow> pre_boot \<Rightarrow> 'w \<Rightarrow> result \<times> pre_boot_on_disk \<times> pre_boot \<times> 'w" where
  "disk_load_or_create F pb w =
     (let (rr, out, w1) = disk_read F w;
          (out2, w4) =
            (if rr = RESULT_NOT_FOUND then
               let (_, w2) = disk_write F disk_init_empty w1 in (disk_init_empty, w2)
             else if rr = RESULT_ERROR \<or> \<not> disk_header_ok out then
               let (_, w2) = file_system_delete F (Some PRE_BOOT_INFO_FILE_PATH) w1;
                   (_, w3) = disk_write F disk_init_empty w2 in (disk_init_empty, w3)
             else (out, w1))
      in (RESULT_SUCCESS, out2, cache_set out2 pb, w4))"

definition prior_empty :: last_sw_reset_info where
  "prior_empty = \<lparr>lr_reset_type = RESET_TYPE_NONE, lr_reset_time = 0, lr_total_resets = 0,
     lr_module_name = replicate MODULE_NAME_SIZE NUL, lr_valid = False\<rparr>"

definition prior_from_disk :: "pre_boot_on_disk \<Rightarrow> last_sw_reset_info" where
  "prior_from_disk r =
     (if \<not> disk_header_ok r \<or> pb_reset_type r = reset_type_code RESET_TYPE_NONE then prior_empty
      else \<lparr>lr_reset_type = reset_type_of (pb_reset_type r), lr_reset_time = pb_reset_time r,
             lr_total_resets = pb_total_resets r,
             lr_module_name =
               (case snd (utils_strncpy_safe (Some (lr_module_name prior_empty)) (Some (c_str (pb_reset_module r)))
                            MODULE_NAME_SIZE) of
                  None \<Rightarrow> [] | Some b \<Rightarrow> b),
             lr_valid = True\<rparr>)"

definition disk_consume_reset_slot :: "'w flash \<Rightarrow> pre_boot \<Rightarrow> 'w \<Rightarrow> result \<times> pre_boot \<times> 'w" where
  "disk_consume_reset_slot F pb w =
     (if \<not> s_cache_have pb then (RESULT_ERROR, pb, w)
      else disk_store F (disk_clear_reset_slot (s_disk pb)) pb w)"

subsection \<open>The interface\<close>

definition pre_boot_handler_load_prior_reset ::
    "'w flash \<Rightarrow> bool \<Rightarrow> pre_boot \<Rightarrow> 'w \<Rightarrow> result \<times> last_sw_reset_info option \<times> pre_boot \<times> 'w" where
  "pre_boot_handler_load_prior_reset F prior_ok pb w =
     (if \<not> prior_ok then (RESULT_INVALID_PARAM, None, pb, w)
      else
        let (lr, disk, pb1, w1) = disk_load_or_create F pb w in
        if lr \<noteq> RESULT_SUCCESS then (lr, None, pb1, w1)
        else
          let prior = prior_from_disk disk in
          if lr_valid prior then
            let (_, pb2, w2) = disk_consume_reset_slot F pb1 w1 in (RESULT_SUCCESS, Some prior, pb2, w2)
          else (RESULT_SUCCESS, Some prior, pb1, w1))"

definition stage_reset :: "reset_type \<Rightarrow> nat \<Rightarrow> string option \<Rightarrow> pre_boot \<Rightarrow> pre_boot_on_disk" where
  "stage_reset t reset_time module_name pb =
     (let staged = staged_from_cache pb in
      staged\<lparr>pb_reset_type := reset_type_code t, pb_reset_time := reset_time,
        pb_total_resets := (if s_cache_have pb then u32 (pb_total_resets (s_disk pb) + 1) else 1),
        pb_reset_module :=
          (case module_name of
             Some nm \<Rightarrow>
               if nm \<noteq> [] then
                 (case snd (utils_strncpy_safe (Some (pb_reset_module staged)) (Some nm) MODULE_NAME_SIZE) of
                    None \<Rightarrow> [] | Some b \<Rightarrow> b)
               else (pb_reset_module staged)[0 := NUL]
           | None \<Rightarrow> (pb_reset_module staged)[0 := NUL])\<rparr>)"

definition pre_boot_handler_save_before_soc_reset ::
    "'w flash \<Rightarrow> reset_type \<Rightarrow> nat \<Rightarrow> string option \<Rightarrow> pre_boot \<Rightarrow> 'w \<Rightarrow> result \<times> pre_boot \<times> 'w" where
  "pre_boot_handler_save_before_soc_reset F t reset_time module_name pb w =
     (if t \<noteq> RESET_TYPE_SOFT \<and> t \<noteq> RESET_TYPE_HARD then (RESULT_INVALID_PARAM, pb, w)
      else disk_store F (stage_reset t reset_time module_name pb) pb w)"

definition pre_boot_handler_save_tcp_send_queue_offset ::
    "'w flash \<Rightarrow> nat \<Rightarrow> pre_boot \<Rightarrow> 'w \<Rightarrow> result \<times> pre_boot \<times> 'w" where
  "pre_boot_handler_save_tcp_send_queue_offset F off pb w =
     disk_store F ((staged_from_cache pb)\<lparr>pb_offset := off, pb_offset_valid := 1\<rparr>) pb w"

definition pre_boot_handler_clear_tcp_send_queue_offset ::
    "'w flash \<Rightarrow> pre_boot \<Rightarrow> 'w \<Rightarrow> result \<times> pre_boot \<times> 'w" where
  "pre_boot_handler_clear_tcp_send_queue_offset F pb w =
     disk_store F (disk_clear_tcp_offset (staged_from_cache pb)) pb w"

text \<open>Whether there was an offset, and it; \<open>out_ok\<close>: the pointer for it is valid.\<close>

definition pre_boot_handler_take_tcp_send_queue_offset ::
    "'w flash \<Rightarrow> bool \<Rightarrow> pre_boot \<Rightarrow> 'w \<Rightarrow> nat option \<times> pre_boot \<times> 'w" where
  "pre_boot_handler_take_tcp_send_queue_offset F out_ok pb w =
     (if \<not> out_ok \<or> \<not> s_cache_have pb \<or> pb_offset_valid (s_disk pb) = 0 then (None, pb, w)
      else
        let off = pb_offset (s_disk pb);
            (r, pb1, w1) = pre_boot_handler_clear_tcp_send_queue_offset F pb w
        in (Some off,
            if r \<noteq> RESULT_SUCCESS then pb1\<lparr>s_disk := disk_clear_tcp_offset (s_disk pb1)\<rparr> else pb1, w1))"

text \<open>The statics after a reboot are zero.\<close>

definition pre_boot_boot :: "pre_boot" where
  "pre_boot_boot = \<lparr>s_disk = \<lparr>pb_magic = 0, pb_version = 0, pb_reset_type = 0, pb_reset_time = 0,
     pb_total_resets = 0, pb_reset_module = replicate MODULE_NAME_SIZE NUL, pb_offset = 0,
     pb_offset_valid = 0\<rparr>, s_cache_have = False\<rparr>"

subsection \<open>Well-formed records and the round trip\<close>

definition wf_disk :: "pre_boot_on_disk \<Rightarrow> bool" where
  "wf_disk r \<longleftrightarrow> pb_magic r < 2 ^ 32 \<and> pb_version r < 2 ^ 32 \<and> pb_reset_type r < 2 ^ 32 \<and>
     pb_reset_time r < 2 ^ 32 \<and> pb_total_resets r < 2 ^ 32 \<and> pb_offset r < 2 ^ 32 \<and>
     length (pb_reset_module r) = MODULE_NAME_SIZE"

lemma length_disk_bytes: "wf_disk r \<Longrightarrow> length (disk_bytes r) = DISK_SIZE"
  by (simp add: disk_bytes_def wf_disk_def)

lemma map_char_roundtrip: "map char_of_byte (map byte_of_char s) = s"
  by (induction s) auto

lemma disk_bytes_roundtrip:
  assumes "wf_disk r"
  shows "disk_of_bytes (disk_bytes r) = r"
proof -
  let ?m = "map byte_of_char (pb_reset_module r)"
  have m: "length ?m = 33" using assms by (simp add: wf_disk_def)
  have d4: "drop 4 (disk_bytes r) = le32_bytes (pb_version r) @ drop 8 (disk_bytes r)"
    and d8: "drop 8 (disk_bytes r) = le32_bytes (pb_reset_type r) @ drop 12 (disk_bytes r)"
    and d12: "drop 12 (disk_bytes r) = le32_bytes (pb_reset_time r) @ drop 16 (disk_bytes r)"
    and d16: "drop 16 (disk_bytes r) = le32_bytes (pb_total_resets r) @ drop 20 (disk_bytes r)"
    and d20: "drop 20 (disk_bytes r) = ?m @ drop 53 (disk_bytes r)"
    and d53: "drop 53 (disk_bytes r) = le32_bytes (pb_offset r) @ [pb_offset_valid r]"
    using m by (simp_all add: disk_bytes_def)
  have d0: "disk_bytes r = le32_bytes (pb_magic r) @ drop 4 (disk_bytes r)"
    by (simp add: disk_bytes_def)
  have l: "n < 2 ^ 32 \<Longrightarrow> bs = le32_bytes n @ t \<Longrightarrow> le32 bs = n" for n bs t
    by (simp add: bytes_simps)
  have wf: "pb_magic r < 2 ^ 32" "pb_version r < 2 ^ 32" "pb_reset_type r < 2 ^ 32"
    "pb_reset_time r < 2 ^ 32" "pb_total_resets r < 2 ^ 32" "pb_offset r < 2 ^ 32"
    using assms by (simp_all only: wf_disk_def)
  have "take 33 (drop 20 (disk_bytes r)) = ?m" using m by (simp only: d20) simp
  then have "map char_of_byte (take 33 (drop 20 (disk_bytes r))) = pb_reset_module r"
    by (simp only: map_char_roundtrip)
  moreover have "disk_bytes r ! 57 = pb_offset_valid r"
    using m by (simp add: disk_bytes_def nth_append)
  ultimately show ?thesis
    by (simp only: disk_of_bytes_def l [OF wf(1) d0] l [OF wf(2) d4] l [OF wf(3) d8] l [OF wf(4) d12]
        l [OF wf(5) d16] l [OF wf(6) d53]) simp
qed

subsection \<open>Storing and loading\<close>

lemma PATH_fold: "disk_write F r w = file_system_write_file F (Some PRE_BOOT_INFO_FILE_PATH) (Some (disk_bytes r)) DISK_SIZE w"
  by (simp add: disk_write_def)

lemma disk_store_spec:
  assumes L: "flash_laws F C H" and wf: "wf_disk r" and f: "disk_store F r pb w = (res, pb', w')"
  shows "res = RESULT_SUCCESS \<Longrightarrow> pb' = cache_set r pb \<and> C w' = (C w)(PRE_BOOT_INFO_FILE_PATH \<mapsto> disk_bytes r)"
    and "res \<noteq> RESULT_SUCCESS \<Longrightarrow> pb' = pb"
    and "q \<noteq> PRE_BOOT_INFO_FILE_PATH \<Longrightarrow> C w' q = C w q"
proof -
  have w: "file_system_write_file F (Some PRE_BOOT_INFO_FILE_PATH) (Some (disk_bytes r)) (length (disk_bytes r)) w = (res, w')"
    and pb: "pb' = (if res = RESULT_SUCCESS then cache_set r pb else pb)"
    using f wf by (auto simp: disk_store_def disk_write_def length_disk_bytes split: prod.splits)
  show "res = RESULT_SUCCESS \<Longrightarrow> pb' = cache_set r pb \<and> C w' = (C w)(PRE_BOOT_INFO_FILE_PATH \<mapsto> disk_bytes r)"
    and "res \<noteq> RESULT_SUCCESS \<Longrightarrow> pb' = pb" and "q \<noteq> PRE_BOOT_INFO_FILE_PATH \<Longrightarrow> C w' q = C w q"
    using pb write_file_spec [OF L w] by simp_all
qed

lemma reliable_store:
  assumes L: "flash_laws F C H" and R: "flash_reliable F C H" and wf: "wf_disk r"
  shows "\<exists>w'. disk_store F r pb w = (RESULT_SUCCESS, cache_set r pb, w') \<and>
    C w' = (C w)(PRE_BOOT_INFO_FILE_PATH \<mapsto> disk_bytes r)"
proof -
  have "disk_bytes r \<noteq> []" using length_disk_bytes [OF wf] by auto
  from reliable_write_file [OF L R this, of PRE_BOOT_INFO_FILE_PATH w]
  obtain w' where w: "file_system_write_file F (Some PRE_BOOT_INFO_FILE_PATH) (Some (disk_bytes r)) DISK_SIZE w =
      (RESULT_SUCCESS, w')"
    using length_disk_bytes [OF wf] by auto
  then have "disk_store F r pb w = (RESULT_SUCCESS, cache_set r pb, w')"
    by (simp add: disk_store_def disk_write_def)
  with disk_store_spec(1) [OF L wf this] show ?thesis by simp
qed

lemma reliable_load:
  assumes L: "flash_laws F C H" and R: "flash_reliable F C H" and wf: "wf_disk r" and ok: "disk_header_ok r"
    and c: "C w PRE_BOOT_INFO_FILE_PATH = Some (disk_bytes r)"
  shows "\<exists>w'. disk_load_or_create F pb w = (RESULT_SUCCESS, r, cache_set r pb, w') \<and> C w' = C w"
proof -
  obtain w' where rd: "file_system_read_file F (Some PRE_BOOT_INFO_FILE_PATH) (Some (replicate DISK_SIZE 0)) DISK_SIZE w =
      (RESULT_SUCCESS, Some (take DISK_SIZE (disk_bytes r)), Some DISK_SIZE, w')"
    using reliable_read_file [OF L R c, of DISK_SIZE "replicate DISK_SIZE 0"] length_disk_bytes [OF wf] by auto
  have "take DISK_SIZE (disk_bytes r) = disk_bytes r" using length_disk_bytes [OF wf] by simp
  then have "disk_read F w = (RESULT_SUCCESS, r, w')"
    by (simp only: disk_read_def rd prod.case Let_def option.case disk_bytes_roundtrip [OF wf]) simp
  then show ?thesis
    using ok read_file_spec(1) [OF L rd] by (simp add: disk_load_or_create_def)
qed

text \<open>The record in the cache is well formed and carries the magic number, the version and a valid
  reset type: the invariant of every operation.\<close>

definition pb_inv :: "pre_boot \<Rightarrow> bool" where
  "pb_inv pb \<longleftrightarrow> (s_cache_have pb \<longrightarrow> wf_disk (s_disk pb) \<and> disk_header_ok (s_disk pb))"

lemma wf_disk_init_empty [simp]: "wf_disk disk_init_empty" "disk_header_ok disk_init_empty"
  by (simp_all add: wf_disk_def disk_header_ok_def disk_init_empty_def reset_type_valid_def)

lemma staged_wf: "pb_inv pb \<Longrightarrow> wf_disk (staged_from_cache pb) \<and> disk_header_ok (staged_from_cache pb)"
  by (simp add: pb_inv_def staged_from_cache_def)

lemma pb_inv_boot [simp]: "pb_inv pre_boot_boot"
  by (simp add: pb_inv_def pre_boot_boot_def)

lemma strncpy_33:
  assumes "length d = MODULE_NAME_SIZE" and "NUL \<notin> set s"
  shows "\<exists>b. snd (utils_strncpy_safe (Some d) (Some s) MODULE_NAME_SIZE) = Some b \<and>
    length b = MODULE_NAME_SIZE \<and> c_str b = take 32 s"
proof -
  let ?b = "write_at d 0 (c_strncpy s 32 @ [NUL])"
  have "NUL \<notin> set (take 32 s)" using assms(2) by (meson in_set_takeD)
  then have "c_str ?b = take 32 s" unfolding write_at_def c_strncpy_NUL by (simp add: c_str_append_NUL)
  moreover have "length ?b = MODULE_NAME_SIZE" using assms(1) by (simp add: c_strncpy_def)
  ultimately show ?thesis by (simp add: utils_strncpy_safe_def)
qed

lemma stage_reset_wf:
  assumes "pb_inv pb" and "time < 2 ^ 32" and "case nm of None \<Rightarrow> True | Some s \<Rightarrow> NUL \<notin> set s"
  shows "wf_disk (stage_reset t time nm pb)" and "disk_header_ok (stage_reset t time nm pb)"
proof -
  have wf: "wf_disk (staged_from_cache pb)" "disk_header_ok (staged_from_cache pb)"
    using staged_wf [OF assms(1)] by simp_all
  then have l: "length (pb_reset_module (staged_from_cache pb)) = MODULE_NAME_SIZE"
    by (simp add: wf_disk_def)
  have "reset_type_code t < 4294967296" "reset_type_valid (reset_type_code t)"
    by (cases t; simp add: reset_type_valid_def)+
  moreover have "length (pb_reset_module (stage_reset t time nm pb)) = MODULE_NAME_SIZE"
    using l strncpy_33 [OF l, of "the nm"] assms(3)
    by (auto simp: stage_reset_def Let_def split: option.splits)
  ultimately show "wf_disk (stage_reset t time nm pb)" and "disk_header_ok (stage_reset t time nm pb)"
    using wf assms(2) by (simp_all add: wf_disk_def disk_header_ok_def stage_reset_def Let_def)
qed

lemma disk_clear_reset_slot_wf: "wf_disk r \<Longrightarrow> disk_header_ok r \<Longrightarrow>
  wf_disk (disk_clear_reset_slot r) \<and> disk_header_ok (disk_clear_reset_slot r)"
  by (simp add: wf_disk_def disk_header_ok_def disk_clear_reset_slot_def reset_type_valid_def)

lemma disk_clear_tcp_offset_wf: "wf_disk r \<Longrightarrow> disk_header_ok r \<Longrightarrow>
  wf_disk (disk_clear_tcp_offset r) \<and> disk_header_ok (disk_clear_tcp_offset r)"
  by (simp add: wf_disk_def disk_header_ok_def disk_clear_tcp_offset_def)

lemma reset_type_of_code [simp]: "reset_type_of (reset_type_code t) = t"
  by (cases t) (simp_all add: reset_type_of_def)

text \<open>Booting on a stored record: the prior reset is reported and its slot cleared on flash.\<close>

lemma boot_load:
  assumes L: "flash_laws F C H" and R: "flash_reliable F C H" and wf: "wf_disk r" "disk_header_ok r"
    and c: "C w PRE_BOOT_INFO_FILE_PATH = Some (disk_bytes r)"
  shows "\<exists>w'. let r' = (if pb_reset_type r = 0 then r else disk_clear_reset_slot r) in
    pre_boot_handler_load_prior_reset F True pre_boot_boot w =
      (RESULT_SUCCESS, Some (prior_from_disk r), cache_set r' pre_boot_boot, w') \<and>
    C w' = (C w)(PRE_BOOT_INFO_FILE_PATH \<mapsto> disk_bytes r')"
proof -
  obtain w1 where ld: "disk_load_or_create F pre_boot_boot w = (RESULT_SUCCESS, r, cache_set r pre_boot_boot, w1)"
    and C1: "C w1 = C w"
    using reliable_load [OF L R wf c] by blast
  have v: "lr_valid (prior_from_disk r) \<longleftrightarrow> pb_reset_type r \<noteq> 0"
    using wf(2) by (simp add: prior_from_disk_def prior_empty_def)
  show ?thesis
  proof (cases "pb_reset_type r = 0")
    case True
    moreover have "(C w)(PRE_BOOT_INFO_FILE_PATH \<mapsto> disk_bytes r) = C w" using c by (simp add: fun_upd_idem)
    ultimately show ?thesis using ld v C1 by (simp add: pre_boot_handler_load_prior_reset_def)
  next
    case False
    have "wf_disk (disk_clear_reset_slot r)" using disk_clear_reset_slot_wf [OF wf] by simp
    from reliable_store [OF L R this, of "cache_set r pre_boot_boot" w1] obtain w2
      where "disk_store F (disk_clear_reset_slot r) (cache_set r pre_boot_boot) w1 =
          (RESULT_SUCCESS, cache_set (disk_clear_reset_slot r) (cache_set r pre_boot_boot), w2)"
        and "C w2 = (C w1)(PRE_BOOT_INFO_FILE_PATH \<mapsto> disk_bytes (disk_clear_reset_slot r))" by blast
    then show ?thesis
      using False ld v C1
      by (simp add: pre_boot_handler_load_prior_reset_def disk_consume_reset_slot_def cache_set_def Let_def)
  qed
qed

lemma take_none: "pb_offset_valid (s_disk pb) = 0 \<Longrightarrow> fst (pre_boot_handler_take_tcp_send_queue_offset F ok pb w) = None"
  by (simp add: pre_boot_handler_take_tcp_send_queue_offset_def)

subsection \<open>Properties\<close>

text \<open>What is reported of a staged record.\<close>

lemma prior_of_staged:
  assumes inv: "pb_inv pb" and t: "t = RESET_TYPE_SOFT \<or> t = RESET_TYPE_HARD" and time: "time < 2 ^ 32"
    and nm: "nm \<noteq> []" "NUL \<notin> set nm"
  defines "p \<equiv> prior_from_disk (stage_reset t time (Some nm) pb)"
  shows "lr_valid p" and "lr_reset_type p = t" and "lr_reset_time p = time" and "c_str (lr_module_name p) = take 32 nm"
    and "lr_total_resets p = (if s_cache_have pb then u32 (pb_total_resets (s_disk pb) + 1) else 1)"
proof -
  let ?r = "stage_reset t time (Some nm) pb"
  have wf: "disk_header_ok ?r" using stage_reset_wf [OF inv time, of "Some nm"] nm by simp
  have code: "pb_reset_type ?r = reset_type_code t" "reset_type_code t \<noteq> 0" using t by (auto simp: stage_reset_def Let_def)
  have l: "length (pb_reset_module (staged_from_cache pb)) = MODULE_NAME_SIZE" using staged_wf [OF inv] by (simp add: wf_disk_def)
  obtain b where b: "snd (utils_strncpy_safe (Some (pb_reset_module (staged_from_cache pb))) (Some nm) MODULE_NAME_SIZE) = Some b"
    and cb: "c_str b = take 32 nm"
    using strncpy_33 [OF l nm(2)] by blast
  have mod: "pb_reset_module ?r = b" using nm(1) b by (simp add: stage_reset_def Let_def)
  have l2: "length (lr_module_name prior_empty) = MODULE_NAME_SIZE" by (simp add: prior_empty_def)
  have "NUL \<notin> set (c_str b)" by (rule c_str_no_NUL)
  from strncpy_33 [OF l2 this] obtain b2
    where "snd (utils_strncpy_safe (Some (lr_module_name prior_empty)) (Some (c_str b)) MODULE_NAME_SIZE) = Some b2"
      and "c_str b2 = take 32 (c_str b)" by blast
  then show "c_str (lr_module_name p) = take 32 nm" using wf code by (simp add: p_def prior_from_disk_def mod cb)
  show "lr_valid p" "lr_reset_type p = t" "lr_reset_time p = time"
    "lr_total_resets p = (if s_cache_have pb then u32 (pb_total_resets (s_disk pb) + 1) else 1)"
    using wf code by (simp_all add: p_def prior_from_disk_def) (simp_all add: stage_reset_def Let_def)
qed

text \<open>C16: a reset record survives exactly one reboot. On flash that does not fail, a soft or hard reset
  saved before the restart is reported by the next boot with its type, time, reset count and the
  first 32 characters of the module name, and the boot after that reports none.\<close>

theorem reset_record_reported_once:
  assumes L: "flash_laws F C H" and R: "flash_reliable F C H" and inv: "pb_inv pb"
    and t: "t = RESET_TYPE_SOFT \<or> t = RESET_TYPE_HARD" and time: "time < 2 ^ 32"
    and nm: "nm \<noteq> []" "NUL \<notin> set nm"
  shows "\<exists>pb1 w1 p pb2 w2 pb3 w3.
    pre_boot_handler_save_before_soc_reset F t time (Some nm) pb w = (RESULT_SUCCESS, pb1, w1) \<and>
    pre_boot_handler_load_prior_reset F True pre_boot_boot w1 = (RESULT_SUCCESS, Some p, pb2, w2) \<and>
    lr_valid p \<and> lr_reset_type p = t \<and> lr_reset_time p = time \<and> c_str (lr_module_name p) = take 32 nm \<and>
    lr_total_resets p = (if s_cache_have pb then u32 (pb_total_resets (s_disk pb) + 1) else 1) \<and>
    pre_boot_handler_load_prior_reset F True pre_boot_boot w2 = (RESULT_SUCCESS, Some prior_empty, pb3, w3)"
proof -
  let ?r = "stage_reset t time (Some nm) pb"
  let ?p = "prior_from_disk ?r"
  let ?c = "disk_clear_reset_slot ?r"
  have wf: "wf_disk ?r" "disk_header_ok ?r" using stage_reset_wf [OF inv time, of "Some nm"] nm by simp_all
  have code: "pb_reset_type ?r = reset_type_code t" "reset_type_code t \<noteq> 0"
    using t by (auto simp: stage_reset_def Let_def)
  obtain w1 where s: "disk_store F ?r pb w = (RESULT_SUCCESS, cache_set ?r pb, w1)"
    and c1: "C w1 = (C w)(PRE_BOOT_INFO_FILE_PATH \<mapsto> disk_bytes ?r)"
    using reliable_store [OF L R wf(1)] by blast
  obtain w2 where b1: "pre_boot_handler_load_prior_reset F True pre_boot_boot w1 =
      (RESULT_SUCCESS, Some ?p, cache_set ?c pre_boot_boot, w2)"
    and c2: "C w2 PRE_BOOT_INFO_FILE_PATH = Some (disk_bytes ?c)"
    using boot_load [OF L R wf, of w1] code c1 by (auto simp: Let_def)
  have wfc: "wf_disk ?c" "disk_header_ok ?c" using disk_clear_reset_slot_wf [OF wf] by simp_all
  have "prior_from_disk ?c = prior_empty" and "pb_reset_type ?c = 0"
    by (simp_all add: prior_from_disk_def disk_clear_reset_slot_def)
  then obtain w3 where b2: "pre_boot_handler_load_prior_reset F True pre_boot_boot w2 =
      (RESULT_SUCCESS, Some prior_empty, cache_set ?c pre_boot_boot, w3)"
    using boot_load [OF L R wfc c2] by (auto simp: Let_def)
  note p = prior_of_staged [OF inv t time nm]
  have "pre_boot_handler_save_before_soc_reset F t time (Some nm) pb w =
      (RESULT_SUCCESS, cache_set ?r pb, w1)"
    using t s by (auto simp: pre_boot_handler_save_before_soc_reset_def)
  then show ?thesis using b1 b2 p by blast
qed

theorem reset_record_reported_once_witness:
  "\<exists>pb1 w1. pre_boot_handler_save_before_soc_reset ram_flash RESET_TYPE_HARD 5 (Some ''OTA'') pre_boot_boot empty_ram =
     (RESULT_SUCCESS, pb1, w1)"
  using reset_record_reported_once [OF ram_laws ram_reliable, of pre_boot_boot RESET_TYPE_HARD 5 "''OTA''" empty_ram]
  by auto

text \<open>C17: The resume offset of the TCP queue is taken exactly once. Saved before a reboot on flash that
  does not fail, it is returned by the first \<open>take\<close> of the next boot. A second \<open>take\<close> in that boot returns none,
  even when the flash fails at the first one, and so does a \<open>take\<close> in the boot after it: the offset is gone from
  flash as well.\<close>

theorem tcp_offset_taken_once:
  assumes L: "flash_laws F C H" and R: "flash_reliable F C H" and inv: "pb_inv pb" and off: "off < 2 ^ 32"
  shows "\<exists>pb1 w1 pr pb2 w2 pb3 w3 pr' pb4 w4.
    pre_boot_handler_save_tcp_send_queue_offset F off pb w = (RESULT_SUCCESS, pb1, w1) \<and>
    pre_boot_handler_load_prior_reset F True pre_boot_boot w1 = (RESULT_SUCCESS, pr, pb2, w2) \<and>
    pre_boot_handler_take_tcp_send_queue_offset F True pb2 w2 = (Some off, pb3, w3) \<and>
    (\<forall>F' F'' w' w''. fst (pre_boot_handler_take_tcp_send_queue_offset F'' True (fst (snd (
       pre_boot_handler_take_tcp_send_queue_offset F' True pb2 w'))) w'') = None) \<and>
    pre_boot_handler_load_prior_reset F True pre_boot_boot w3 = (RESULT_SUCCESS, pr', pb4, w4) \<and>
    fst (pre_boot_handler_take_tcp_send_queue_offset F True pb4 w4) = None"
proof -
  let ?r = "(staged_from_cache pb)\<lparr>pb_offset := off, pb_offset_valid := 1\<rparr>"
  have wf: "wf_disk ?r" "disk_header_ok ?r"
    using staged_wf [OF inv] off by (simp_all add: wf_disk_def disk_header_ok_def)
  obtain w1 where s: "disk_store F ?r pb w = (RESULT_SUCCESS, cache_set ?r pb, w1)"
    and c1: "C w1 = (C w)(PRE_BOOT_INFO_FILE_PATH \<mapsto> disk_bytes ?r)"
    using reliable_store [OF L R wf(1)] by blast
  define r' where "r' = (if pb_reset_type ?r = 0 then ?r else disk_clear_reset_slot ?r)"
  obtain w2 where b1: "pre_boot_handler_load_prior_reset F True pre_boot_boot w1 =
      (RESULT_SUCCESS, Some (prior_from_disk ?r), cache_set r' pre_boot_boot, w2)"
    using boot_load [OF L R wf, of w1] c1 by (auto simp: r'_def Let_def)
  have r': "pb_offset r' = off" "pb_offset_valid r' = 1" by (simp_all add: r'_def disk_clear_reset_slot_def)
  have wf': "wf_disk r'" "disk_header_ok r'" using wf disk_clear_reset_slot_wf [OF wf] by (simp_all add: r'_def)
  let ?q = "disk_clear_tcp_offset r'" and ?pb2 = "cache_set r' pre_boot_boot"
  have wfq: "wf_disk ?q" "disk_header_ok ?q" using disk_clear_tcp_offset_wf [OF wf'] by simp_all
  obtain w3 where st: "disk_store F ?q ?pb2 w2 = (RESULT_SUCCESS, cache_set ?q ?pb2, w3)"
    and c3: "C w3 = (C w2)(PRE_BOOT_INFO_FILE_PATH \<mapsto> disk_bytes ?q)"
    using reliable_store [OF L R wfq(1)] by blast
  have "staged_from_cache ?pb2 = r'" "s_cache_have ?pb2" "s_disk ?pb2 = r'" by (simp_all add: staged_from_cache_def cache_set_def)
  then have tk: "pre_boot_handler_take_tcp_send_queue_offset F True ?pb2 w2 = (Some off, cache_set ?q ?pb2, w3)"
    using st r' by (simp add: pre_boot_handler_take_tcp_send_queue_offset_def pre_boot_handler_clear_tcp_send_queue_offset_def)
  have again: "pb_offset_valid (s_disk (fst (snd (pre_boot_handler_take_tcp_send_queue_offset F' True ?pb2 w')))) = 0" for F' w'
    by (simp add: pre_boot_handler_take_tcp_send_queue_offset_def cache_set_def r' disk_clear_tcp_offset_def
        pre_boot_handler_clear_tcp_send_queue_offset_def disk_store_def staged_from_cache_def split: prod.split)
  have none: "\<forall>F' F'' w' w''. fst (pre_boot_handler_take_tcp_send_queue_offset F'' True (fst (snd (
       pre_boot_handler_take_tcp_send_queue_offset F' True ?pb2 w'))) w'') = None"
    by (intro allI take_none again)
  have "C w3 PRE_BOOT_INFO_FILE_PATH = Some (disk_bytes ?q)" using c3 by simp
  note boot_load [OF L R wfq this]
  then obtain q' w4 where b2: "pre_boot_handler_load_prior_reset F True pre_boot_boot w3 =
      (RESULT_SUCCESS, Some (prior_from_disk ?q), cache_set q' pre_boot_boot, w4)"
    and q': "q' = (if pb_reset_type ?q = 0 then ?q else disk_clear_reset_slot ?q)" by (auto simp: Let_def)
  have "pb_offset_valid (s_disk (cache_set q' pre_boot_boot)) = 0"
    by (simp add: q' cache_set_def disk_clear_tcp_offset_def disk_clear_reset_slot_def)
  note take_none [OF this, of F True w4]
  with tk b1 s none b2 show ?thesis
    unfolding pre_boot_handler_save_tcp_send_queue_offset_def by blast
qed

theorem tcp_offset_taken_once_witness:
  "\<exists>pb1 w1. pre_boot_handler_save_tcp_send_queue_offset ram_flash 259 pre_boot_boot empty_ram = (RESULT_SUCCESS, pb1, w1)"
  using tcp_offset_taken_once [OF ram_laws ram_reliable, of pre_boot_boot 259 empty_ram] by auto

end
