(* ===== verification/Queue_Manager.thy ===== *)
theory Queue_Manager
  imports Pre_Boot
begin

text \<open>
  \<open>common/queue_manager.c\<close>: named ring buffers with an overflow file and a reboot snapshot. A queue
  holds elements \<open>'e\<close>; what C does by casting an element to bytes or to a \<open>ModuleMessage\<close> is the
  parameter \<open>'e abi\<close> (the compiler's layout of the element). The record \<open>'e queue\<close> has the fields of
  \<open>struct Queue\<close> but the mutex: an operation runs under the lock from its first access on, so it is one
  step. \<open>args_ok\<close> is false when a pointer argument is null. Offsets into a file and record sizes are
  added without wrap-around where the code does not test for it: a file is never longer than
  \<open>max_file_size\<close> and a record is at most 65538 bytes.
\<close>

subsection \<open>Messages and configuration\<close>

text \<open>The module numbers of \<open>ModuleId\<close>.\<close>

datatype module_id =
    MODULE_ID_LOG | MODULE_ID_UART | MODULE_ID_CMD | MODULE_ID_URC | MODULE_ID_SIM | MODULE_ID_NETWORK
  | MODULE_ID_TCP | MODULE_ID_GPS | MODULE_ID_SMS | MODULE_ID_BLE | MODULE_ID_SYSTEM
  | MODULE_ID_FILE_TRANSFER | MODULE_ID_COUNT

abbreviation MODULE_MESSAGE_INLINE_SIZE :: nat where "MODULE_MESSAGE_INLINE_SIZE \<equiv> 256"

record module_message =
  mm_source_module :: module_id
  mm_destination_module :: module_id
  mm_address :: cbuf
  mm_message :: bytes
  mm_dynamic_buffer :: "bytes option"
  mm_data_len :: nat
  mm_use_dynamic_buffer :: bool
  mm_is_raw :: bool
  mm_payload_is_binary :: bool

definition module_message_payload :: "module_message \<Rightarrow> bytes option" where
  "module_message_payload m = (if mm_use_dynamic_buffer m then mm_dynamic_buffer m else Some (mm_message m))"

record 'e abi =
  e_bytes :: "'e \<Rightarrow> bytes"
  e_of_bytes :: "bytes \<Rightarrow> 'e"
  e_message :: "'e \<Rightarrow> module_message"
  e_of_message :: "module_message \<Rightarrow> 'e"

record queue_config =
  qc_name :: "string option"
  qc_element_size :: nat
  qc_capacity :: nat
  qc_thread_safe :: bool
  qc_max_file_size :: nat
  qc_persist_on_reboot :: bool

record 'e queue =
  q_head :: nat
  q_tail :: nat
  q_count :: nat
  q_buffer :: "'e list option"
  q_file_size :: nat
  q_file_read_offset :: nat

definition queue_is_tcp_send_q :: "queue_config \<Rightarrow> bool" where
  "queue_is_tcp_send_q cfg \<longleftrightarrow> qc_name cfg = Some ''TCP_SEND_Q''"

definition queue_has_file :: "queue_config \<Rightarrow> bool" where
  "queue_has_file cfg \<longleftrightarrow> qc_max_file_size cfg > 0"

definition queue_make_filename :: "queue_config \<Rightarrow> string \<Rightarrow> string" where
  "queue_make_filename cfg suffix =
     take 63 (''C:/queue/queue_'' @ (case qc_name cfg of None \<Rightarrow> ''unknown'' | Some n \<Rightarrow> n) @ suffix)"

definition overflow_file :: "queue_config \<Rightarrow> string" where
  "overflow_file cfg = queue_make_filename cfg ''_overflow.dat''"

definition snapshot_file :: "queue_config \<Rightarrow> string" where
  "snapshot_file cfg = queue_make_filename cfg ''.dat''"

subsection \<open>Compact records of the TCP send queue\<close>

definition GPS_PACKET_TYPE :: byte where "GPS_PACKET_TYPE = 0x49"
definition BLE_PACKET_TYPE :: byte where "BLE_PACKET_TYPE = 0x4A"
definition TCP_CMD_RESP_PACKET_TYPE :: byte where "TCP_CMD_RESP_PACKET_TYPE = 38"

definition tcp_type_ok :: "byte \<Rightarrow> bool" where
  "tcp_type_ok t \<longleftrightarrow> t = GPS_PACKET_TYPE \<or> t = BLE_PACKET_TYPE \<or> t = TCP_CMD_RESP_PACKET_TYPE"

definition queue_tcp_type_to_source_module :: "byte \<Rightarrow> module_id" where
  "queue_tcp_type_to_source_module t =
     (if t = GPS_PACKET_TYPE then MODULE_ID_GPS
      else if t = BLE_PACKET_TYPE then MODULE_ID_BLE
      else if t = TCP_CMD_RESP_PACKET_TYPE then MODULE_ID_CMD
      else MODULE_ID_COUNT)"

definition queue_tcp_source_allowed :: "module_id \<Rightarrow> bool" where
  "queue_tcp_source_allowed s \<longleftrightarrow> s = MODULE_ID_GPS \<or> s = MODULE_ID_BLE \<or> s = MODULE_ID_CMD"

text \<open>The payload pointer and its length, \<open>None\<close> when the length is 0 or the pointer null.\<close>

definition queue_tcp_payload_len_from_message :: "module_message \<Rightarrow> (bytes \<times> nat) option" where
  "queue_tcp_payload_len_from_message m =
     (case module_message_payload m of
        None \<Rightarrow> None
      | Some payload \<Rightarrow>
          if payload ! 0 \<noteq> 0x57 \<or> payload ! 1 \<noteq> 0x45 then None
          else if mm_data_len m = 0 then None
          else if \<not> mm_use_dynamic_buffer m \<and> mm_data_len m > MODULE_MESSAGE_INLINE_SIZE then None
          else if mm_data_len m mod 65536 = 0 then None
          else Some (payload, mm_data_len m mod 65536))"

definition queue_tcp_file_write_compact_record ::
    "'w flash \<Rightarrow> nat \<Rightarrow> module_message \<Rightarrow> 'w \<Rightarrow> result \<times> nat \<times> 'w" where
  "queue_tcp_file_write_compact_record F fp m w =
     (case queue_tcp_payload_len_from_message m of
        None \<Rightarrow> (RESULT_INVALID_PARAM, 0, w)
      | Some (payload, payload_len) \<Rightarrow>
          let type = payload ! 2 in
          if \<not> tcp_type_ok type then (RESULT_INVALID_PARAM, 0, w)
          else
            let hdr = [lo8 payload_len, hi8 payload_len, type];
                (ok1, n1, w1) = f_write F fp hdr w in
            if \<not> ok1 \<or> n1 \<noteq> 3 then (RESULT_ERROR, 0, w1)
            else
              let (ok2, n2, w2) = f_write F fp (take payload_len payload) w1 in
              if \<not> ok2 \<or> n2 \<noteq> payload_len then (RESULT_ERROR, 0, w2)
              else (RESULT_SUCCESS, 3 + payload_len, w2))"

definition hdr_len :: "bytes \<Rightarrow> nat" where
  "hdr_len hdr = be16 (hdr ! 1) (hdr ! 0)"

text \<open>The message a record is turned into: all other fields are zero.\<close>

definition restored_message :: "module_id \<Rightarrow> bytes \<Rightarrow> module_message" where
  "restored_message src payload = \<lparr>mm_source_module = src, mm_destination_module = MODULE_ID_TCP,
     mm_address = replicate 64 NUL,
     mm_message = payload @ replicate (MODULE_MESSAGE_INLINE_SIZE - length payload) 0,
     mm_dynamic_buffer = None, mm_data_len = length payload, mm_use_dynamic_buffer = False,
     mm_is_raw = False, mm_payload_is_binary = False\<rparr>"

text \<open>The result, the message (\<open>None\<close> on an error) and the new offset.\<close>

definition queue_tcp_file_read_compact_record ::
    "'w flash \<Rightarrow> nat \<Rightarrow> nat \<Rightarrow> nat \<Rightarrow> 'w \<Rightarrow> result \<times> module_message option \<times> nat \<times> 'w" where
  "queue_tcp_file_read_compact_record F fp off file_size w =
     (if off + 3 > file_size then (RESULT_NOT_FOUND, None, off, w)
      else
        let (_, w1) = f_seek F fp off w;
            (ok, hdr, w2) = f_read F fp 3 w1 in
        if \<not> ok \<or> length hdr \<noteq> 3 then (RESULT_ERROR, None, off, w2)
        else
          let payload_len = hdr_len hdr; type = hdr ! 2 in
          if payload_len = 0 \<or> payload_len > MODULE_MESSAGE_INLINE_SIZE then (RESULT_ERROR, None, off, w2)
          else if off + 3 + payload_len > file_size then (RESULT_ERROR, None, off, w2)
          else if \<not> tcp_type_ok type then (RESULT_ERROR, None, off, w2)
          else
            let src = queue_tcp_type_to_source_module type in
            if \<not> queue_tcp_source_allowed src then (RESULT_ERROR, None, off, w2)
            else
              let (ok2, bs, w3) = f_read F fp payload_len w2 in
              if \<not> ok2 \<or> length bs \<noteq> payload_len then (RESULT_ERROR, None, off, w3)
              else (RESULT_SUCCESS, Some (restored_message src bs), off + 3 + payload_len, w3))"

text \<open>The counting loop: the offset grows by at least four bytes with every record.\<close>

function count_records_loop :: "'w flash \<Rightarrow> nat \<Rightarrow> nat \<Rightarrow> nat \<Rightarrow> nat \<Rightarrow> 'w \<Rightarrow> nat \<times> 'w" where
  "count_records_loop F fp file_size off cnt w =
     (if off + 3 \<le> file_size then
        let (_, w1) = f_seek F fp off w;
            (ok, hdr, w2) = f_read F fp 3 w1 in
        if \<not> ok \<or> length hdr \<noteq> 3 then (cnt, w2)
        else if hdr_len hdr = 0 \<or> hdr_len hdr > MODULE_MESSAGE_INLINE_SIZE then (cnt, w2)
        else if off + 3 + hdr_len hdr > file_size then (cnt, w2)
        else count_records_loop F fp file_size (off + 3 + hdr_len hdr) (cnt + 1) w2
      else (cnt, w))"
  by pat_completeness auto
termination
  by (relation "measure (\<lambda>(F, fp, file_size, off, cnt, w). file_size - off)") auto

declare count_records_loop.simps [simp del]

definition queue_tcp_file_count_records ::
    "'w flash \<Rightarrow> 'e queue \<Rightarrow> queue_config \<Rightarrow> 'w \<Rightarrow> nat \<times> 'w" where
  "queue_tcp_file_count_records F q cfg w =
     (if \<not> queue_is_tcp_send_q cfg then (0, w)
      else if q_file_read_offset q \<ge> q_file_size q then (0, w)
      else
        let (fp, w1) = f_open F (overflow_file cfg) ''rb'' w in
        (case fp of
           None \<Rightarrow> (0, w1)
         | Some h \<Rightarrow>
             let (n, w2) = count_records_loop F h (q_file_size q) (q_file_read_offset q) 0 w1;
                 (_, w3) = f_close F h w2
             in (n, w3)))"

definition queue_tcp_restore_saved_file_offset ::
    "'w flash \<Rightarrow> queue_config \<Rightarrow> 'e queue \<Rightarrow> pre_boot \<Rightarrow> 'w \<Rightarrow> result \<times> 'e queue \<times> pre_boot \<times> 'w" where
  "queue_tcp_restore_saved_file_offset F cfg q pb w =
     (if \<not> queue_is_tcp_send_q cfg \<or> q_file_size q = 0 then (RESULT_SUCCESS, q, pb, w)
      else
        let (saved, pb1, w1) = pre_boot_handler_take_tcp_send_queue_offset F True pb w in
        (case saved of
           None \<Rightarrow> (RESULT_SUCCESS, q, pb1, w1)
         | Some saved_offset \<Rightarrow>
             if saved_offset > q_file_size q then
               (RESULT_ERROR, q\<lparr>q_file_read_offset := 0\<rparr>, pb1, w1)
             else if saved_offset = q_file_size q then
               let (_, w2) = f_delete F (overflow_file cfg) w1 in
               (RESULT_SUCCESS, q\<lparr>q_file_size := 0, q_file_read_offset := 0\<rparr>, pb1, w2)
             else (RESULT_SUCCESS, q\<lparr>q_file_read_offset := saved_offset\<rparr>, pb1, w1)))"

definition queue_tcp_persist_file_offset ::
    "'w flash \<Rightarrow> queue_config \<Rightarrow> 'e queue \<Rightarrow> pre_boot \<Rightarrow> 'w \<Rightarrow> result \<times> pre_boot \<times> 'w" where
  "queue_tcp_persist_file_offset F cfg q pb w =
     (if \<not> queue_is_tcp_send_q cfg then (RESULT_SUCCESS, pb, w)
      else if q_file_size q = 0 \<or> q_file_read_offset q \<ge> q_file_size q
      then pre_boot_handler_clear_tcp_send_queue_offset F pb w
      else pre_boot_handler_save_tcp_send_queue_offset F (q_file_read_offset q) pb w)"

subsection \<open>The overflow file\<close>

text \<open>The space an element takes in the file, \<open>None\<close> when it cannot be stored.\<close>

definition append_record_size :: "'e abi \<Rightarrow> queue_config \<Rightarrow> 'e \<Rightarrow> nat option" where
  "append_record_size A cfg e =
     (if queue_is_tcp_send_q cfg then
        (case queue_tcp_payload_len_from_message (e_message A e) of
           None \<Rightarrow> None
         | Some (_, payload_len) \<Rightarrow> Some (3 + payload_len))
      else Some (qc_element_size cfg))"

text \<open>A record that would overflow the size, or the file limit, clears the file first.\<close>

definition file_make_room :: "'w flash \<Rightarrow> queue_config \<Rightarrow> nat \<Rightarrow> 'e queue \<Rightarrow> 'w \<Rightarrow> 'e queue \<times> 'w" where
  "file_make_room F cfg record_size q w =
     (let (q1, w1) =
            (if record_size > UINT32_MAX - q_file_size q then
               let (_, w') = f_delete F (overflow_file cfg) w in
               (q\<lparr>q_file_size := 0, q_file_read_offset := 0\<rparr>, w')
             else (q, w))
      in if q_file_size q1 + record_size > qc_max_file_size cfg then
           let (_, w') = f_delete F (overflow_file cfg) w1 in
           (q1\<lparr>q_file_size := 0, q_file_read_offset := 0\<rparr>, w')
         else (q1, w1))"

definition file_write_record ::
    "'w flash \<Rightarrow> 'e abi \<Rightarrow> queue_config \<Rightarrow> nat \<Rightarrow> 'e \<Rightarrow> 'w \<Rightarrow> result \<times> nat \<times> 'w" where
  "file_write_record F A cfg h e w =
     (if queue_is_tcp_send_q cfg then queue_tcp_file_write_compact_record F h (e_message A e) w
      else
        let (ok, n, w') = f_write F h (e_bytes A e) w in
        if \<not> ok \<or> n \<noteq> qc_element_size cfg then (RESULT_ERROR, 0, w')
        else (RESULT_SUCCESS, qc_element_size cfg, w'))"

definition queue_file_append ::
    "'w flash \<Rightarrow> 'e abi \<Rightarrow> queue_config \<Rightarrow> 'e queue \<Rightarrow> 'e \<Rightarrow> 'w \<Rightarrow> result \<times> 'e queue \<times> 'w" where
  "queue_file_append F A cfg q e w =
     (if \<not> queue_has_file cfg then (RESULT_INVALID_PARAM, q, w)
      else case append_record_size A cfg e of
        None \<Rightarrow> (RESULT_ERROR, q, w)
      | Some record_size \<Rightarrow>
          let (q2, w2) = file_make_room F cfg record_size q w;
              (fp, w3) = f_open F (overflow_file cfg) ''ab+'' w2
          in (case fp of
                None \<Rightarrow> (RESULT_ERROR, q2, w3)
              | Some h \<Rightarrow>
                  let (wr, size, w4) = file_write_record F A cfg h e w3;
                      (_, w5) = f_close F h w4
                  in if wr \<noteq> RESULT_SUCCESS then (RESULT_ERROR, q2, w5)
                     else (RESULT_SUCCESS, q2\<lparr>q_file_size := q_file_size q2 + size\<rparr>, w5)))"

text \<open>The result, the element, and the offset after it.\<close>

definition file_read_record ::
    "'w flash \<Rightarrow> 'e abi \<Rightarrow> queue_config \<Rightarrow> nat \<Rightarrow> 'e queue \<Rightarrow> 'w \<Rightarrow> result \<times> 'e option \<times> nat \<times> 'w" where
  "file_read_record F A cfg h q w =
     (if queue_is_tcp_send_q cfg then
        let (r, m, off, w') = queue_tcp_file_read_compact_record F h (q_file_read_offset q) (q_file_size q) w
        in (r, map_option (e_of_message A) m, off, w')
      else
        let (_, w') = f_seek F h (q_file_read_offset q) w;
            (ok, bs, w'') = f_read F h (qc_element_size cfg) w' in
        if \<not> ok \<or> length bs \<noteq> qc_element_size cfg then (RESULT_ERROR, None, q_file_read_offset q, w'')
        else (RESULT_SUCCESS, Some (e_of_bytes A bs), q_file_read_offset q + qc_element_size cfg, w''))"

text \<open>The result, the element read and the queue.\<close>

definition queue_file_read ::
    "'w flash \<Rightarrow> 'e abi \<Rightarrow> queue_config \<Rightarrow> 'e queue \<Rightarrow> 'w \<Rightarrow> result \<times> 'e option \<times> 'e queue \<times> 'w" where
  "queue_file_read F A cfg q w =
     (if \<not> queue_has_file cfg then (RESULT_INVALID_PARAM, None, q, w)
      else if q_file_read_offset q \<ge> q_file_size q then (RESULT_NOT_FOUND, None, q, w)
      else
        let (fp, w1) = f_open F (overflow_file cfg) ''rb'' w in
        (case fp of
           None \<Rightarrow> (RESULT_ERROR, None, q, w1)
         | Some h \<Rightarrow>
             let (rr, out, off, w2) = file_read_record F A cfg h q w1;
                 q1 = q\<lparr>q_file_read_offset := off\<rparr>;
                 (_, w3) = f_close F h w2
             in if rr \<noteq> RESULT_SUCCESS then (RESULT_ERROR, None, q1, w3)
                else if off \<ge> q_file_size q then
                  let (_, w4) = f_delete F (overflow_file cfg) w3 in
                  (RESULT_SUCCESS, out, q1\<lparr>q_file_size := 0, q_file_read_offset := 0\<rparr>, w4)
                else (RESULT_SUCCESS, out, q1, w3)))"

definition queue_file_restore ::
    "'w flash \<Rightarrow> queue_config \<Rightarrow> 'e queue \<Rightarrow> pre_boot \<Rightarrow> 'w \<Rightarrow> result \<times> 'e queue \<times> pre_boot \<times> 'w" where
  "queue_file_restore F cfg q pb w =
     (if \<not> queue_has_file cfg then (RESULT_INVALID_PARAM, q, pb, w)
      else
        let (ex, w1) = f_exists F (overflow_file cfg) w in
        if \<not> ex then (RESULT_SUCCESS, q, pb, w1)
        else
          let (fp, w2) = f_open F (overflow_file cfg) ''rb'' w1 in
          (case fp of
             None \<Rightarrow> (RESULT_SUCCESS, q, pb, w2)
           | Some h \<Rightarrow>
               let (ok, n, w3) = f_size F h w2;
                   file_size = (if ok then n else 0);
                   (_, w4) = f_close F h w3 in
               if file_size = 0 then
                 let (_, w5) = f_delete F (overflow_file cfg) w4 in (RESULT_SUCCESS, q, pb, w5)
               else
                 let q1 = q\<lparr>q_file_size := file_size, q_file_read_offset := 0\<rparr> in
                 if queue_is_tcp_send_q cfg then
                   let (_, q2, pb2, w5) = queue_tcp_restore_saved_file_offset F cfg q1 pb w4
                   in (RESULT_SUCCESS, q2, pb2, w5)
                 else (RESULT_SUCCESS, q1, pb, w4)))"

subsection \<open>The reboot snapshot\<close>

text \<open>Writing the elements from \<open>idx\<close> on, \<open>n\<close> of them; \<open>False\<close> at the first failing write.\<close>

fun save_elements :: "'w flash \<Rightarrow> 'e abi \<Rightarrow> queue_config \<Rightarrow> nat \<Rightarrow> 'e list \<Rightarrow> nat \<Rightarrow> nat \<Rightarrow> 'w \<Rightarrow> bool \<times> 'w" where
  "save_elements F A cfg h buf idx 0 w = (True, w)"
| "save_elements F A cfg h buf idx (Suc n) w =
     (let (ok, k, w1) = f_write F h (e_bytes A (buf ! idx)) w in
      if \<not> ok \<or> k \<noteq> qc_element_size cfg then (False, w1)
      else save_elements F A cfg h buf ((idx + 1) mod qc_capacity cfg) n w1)"

definition write_u32 :: "'w flash \<Rightarrow> nat \<Rightarrow> nat \<Rightarrow> 'w \<Rightarrow> bool \<times> 'w" where
  "write_u32 F h v w = (let (ok, k, w1) = f_write F h (le32_bytes v) w in (ok \<and> k = 4, w1))"

definition queue_persist_save ::
    "'w flash \<Rightarrow> 'e abi \<Rightarrow> queue_config \<Rightarrow> 'e queue \<Rightarrow> 'w \<Rightarrow> result \<times> 'w" where
  "queue_persist_save F A cfg q w =
     (if \<not> qc_persist_on_reboot cfg then (RESULT_INVALID_PARAM, w)
      else
        let (fp, w1) = f_open F (snapshot_file cfg) ''wb'' w in
        (case fp of
           None \<Rightarrow> (RESULT_ERROR, w1)
         | Some h \<Rightarrow>
             let (ok1, w2) = write_u32 F h (q_count q) w1;
                 (ok2, w3) = (if ok1 then write_u32 F h (q_head q) w2 else (False, w2));
                 (ok3, w4) = (if ok2 then write_u32 F h (q_tail q) w3 else (False, w3));
                 (ok4, w5) =
                   (if ok3 then
                      save_elements F A cfg h (case q_buffer q of None \<Rightarrow> [] | Some b \<Rightarrow> b) (q_head q) (q_count q) w4
                    else (False, w4));
                 (_, w6) = f_close F h w5
             in (if ok4 then RESULT_SUCCESS else RESULT_ERROR, w6)))"

definition read_u32 :: "'w flash \<Rightarrow> nat \<Rightarrow> 'w \<Rightarrow> nat option \<times> 'w" where
  "read_u32 F h w =
     (let (ok, bs, w1) = f_read F h 4 w in (if ok \<and> length bs = 4 then Some (le32 bs) else None, w1))"

fun load_elements :: "'w flash \<Rightarrow> 'e abi \<Rightarrow> queue_config \<Rightarrow> nat \<Rightarrow> 'e list \<Rightarrow> nat \<Rightarrow> nat \<Rightarrow> 'w \<Rightarrow> bool \<times> 'e list \<times> 'w" where
  "load_elements F A cfg h buf idx 0 w = (True, buf, w)"
| "load_elements F A cfg h buf idx (Suc n) w =
     (let (ok, bs, w1) = f_read F h (qc_element_size cfg) w in
      if \<not> ok \<or> length bs \<noteq> qc_element_size cfg then (False, buf, w1)
      else load_elements F A cfg h (buf[idx := e_of_bytes A bs]) ((idx + 1) mod qc_capacity cfg) n w1)"

definition queue_persist_load ::
    "'w flash \<Rightarrow> 'e abi \<Rightarrow> queue_config \<Rightarrow> 'e queue \<Rightarrow> 'w \<Rightarrow> result \<times> 'e queue \<times> 'w" where
  "queue_persist_load F A cfg q w =
     (if \<not> qc_persist_on_reboot cfg then (RESULT_INVALID_PARAM, q, w)
      else
        let (fp, w1) = f_open F (snapshot_file cfg) ''rb'' w in
        (case fp of
           None \<Rightarrow> (RESULT_SUCCESS, q, w1)
         | Some h \<Rightarrow>
             let (c, w2) = read_u32 F h w1;
                 (hd_v, w3) = (if c \<noteq> None then read_u32 F h w2 else (None, w2));
                 (tl_v, w4) = (if hd_v \<noteq> None then read_u32 F h w3 else (None, w3));
                 (ok, q1, w5) =
                   (case (c, hd_v, tl_v) of
                      (Some count, Some head, Some tail) \<Rightarrow>
                        if count > qc_capacity cfg \<or> head \<ge> qc_capacity cfg \<or> tail \<ge> qc_capacity cfg
                        then (False, q, w4)
                        else
                          let (ok, buf, w') =
                                load_elements F A cfg h (case q_buffer q of None \<Rightarrow> [] | Some b \<Rightarrow> b) head count w4
                          in if ok
                             then (True, q\<lparr>q_count := count, q_head := head, q_tail := tail, q_buffer := Some buf\<rparr>, w')
                             else (False, q\<lparr>q_count := 0, q_head := 0, q_tail := 0, q_buffer := Some buf\<rparr>, w')
                    | _ \<Rightarrow> (False, q, w4));
                 (_, w6) = f_close F h w5
             in if ok then (RESULT_SUCCESS, q1, w6)
                else let (_, w7) = f_delete F (snapshot_file cfg) w6 in (RESULT_ERROR, q1, w7)))"

definition queue_overflow_drained_locked :: "'e queue \<Rightarrow> queue_config \<Rightarrow> bool" where
  "queue_overflow_drained_locked q cfg =
     (if \<not> queue_has_file cfg \<or> q_file_size q = 0 then True else q_file_read_offset q \<ge> q_file_size q)"

definition queue_persist_delete_snapshot :: "'w flash \<Rightarrow> queue_config \<Rightarrow> 'w \<Rightarrow> result \<times> 'w" where
  "queue_persist_delete_snapshot F cfg w =
     (if \<not> qc_persist_on_reboot cfg then (RESULT_SUCCESS, w)
      else
        let (ex, w1) = f_exists F (snapshot_file cfg) w in
        if \<not> ex then (RESULT_SUCCESS, w1)
        else let (ok, w2) = f_delete F (snapshot_file cfg) w1 in (if ok then RESULT_SUCCESS else RESULT_ERROR, w2))"

definition queue_persist_clear_snapshot_after_consume ::
    "'w flash \<Rightarrow> bool \<Rightarrow> queue_config \<Rightarrow> 'e queue \<Rightarrow> pre_boot \<Rightarrow> 'w \<Rightarrow> result \<times> pre_boot \<times> 'w" where
  "queue_persist_clear_snapshot_after_consume F args_ok cfg q pb w =
     (if \<not> args_ok then (RESULT_INVALID_PARAM, pb, w)
      else if \<not> qc_persist_on_reboot cfg then (RESULT_SUCCESS, pb, w)
      else if q_count q \<noteq> 0 then (RESULT_SUCCESS, pb, w)
      else
        let (pb1, w1) =
              (if queue_overflow_drained_locked q cfg \<and> queue_is_tcp_send_q cfg then
                 let (_, pb', w') = pre_boot_handler_clear_tcp_send_queue_offset F pb w in (pb', w')
               else (pb, w));
            (r, w2) = queue_persist_delete_snapshot F cfg w1
        in (r, pb1, w2))"

definition queue_manager_persist ::
    "'w flash \<Rightarrow> 'e abi \<Rightarrow> bool \<Rightarrow> queue_config \<Rightarrow> 'e queue \<Rightarrow> pre_boot \<Rightarrow> 'w \<Rightarrow> result \<times> pre_boot \<times> 'w" where
  "queue_manager_persist F A args_ok cfg q pb w =
     (if \<not> args_ok then (RESULT_INVALID_PARAM, pb, w)
      else if \<not> qc_persist_on_reboot cfg then (RESULT_SUCCESS, pb, w)
      else
        let (r, w1) = queue_persist_save F A cfg q w in
        if result_is_error r then (r, pb, w1) else queue_tcp_persist_file_offset F cfg q pb w1)"

subsection \<open>Creation\<close>

abbreviation QUEUE_MANAGER_MAX_QUEUES :: nat where "QUEUE_MANAGER_MAX_QUEUES \<equiv> 16"

text \<open>
  \<open>g_queues\<close> is a list of 16 slots holding queue handles (their addresses). \<open>new_handle\<close> and \<open>buf_ok\<close>
  are the answers of the allocator, \<open>mutex_ok\<close> that of the mutex service; a fresh buffer has any
  contents (\<open>junk\<close>).
\<close>

fun first_free :: "nat option list \<Rightarrow> nat option" where
  "first_free [] = None"
| "first_free (s # ss) = (if s = None then Some 0 else map_option Suc (first_free ss))"

definition queue_manager_create ::
    "'w flash \<Rightarrow> 'e abi \<Rightarrow> bool \<Rightarrow> nat option \<Rightarrow> bool \<Rightarrow> bool \<Rightarrow> 'e list \<Rightarrow> queue_config \<Rightarrow> nat option list \<Rightarrow> pre_boot \<Rightarrow> 'w \<Rightarrow>
     result \<times> (nat \<times> 'e queue) option \<times> nat option list \<times> pre_boot \<times> 'w" where
  "queue_manager_create F A args_ok new_handle buf_ok mutex_ok junk cfg g_queues pb w =
     (if \<not> args_ok \<or> qc_name cfg = None then (RESULT_INVALID_PARAM, None, g_queues, pb, w)
      else case first_free g_queues of
        None \<Rightarrow> (RESULT_BUSY, None, g_queues, pb, w)
      | Some slot \<Rightarrow>
          (case new_handle of
             None \<Rightarrow> (RESULT_OUT_OF_MEMORY, None, g_queues, pb, w)
           | Some hq \<Rightarrow>
               if \<not> buf_ok then (RESULT_OUT_OF_MEMORY, None, g_queues, pb, w)
               else if qc_thread_safe cfg \<and> \<not> mutex_ok then (RESULT_ERROR, None, g_queues, pb, w)
               else
                 let q0 = \<lparr>q_head = 0, q_tail = 0, q_count = 0, q_buffer = Some (take (qc_capacity cfg) junk),
                           q_file_size = 0, q_file_read_offset = 0\<rparr>;
                     (q1, w1) = (if qc_persist_on_reboot cfg
                                 then let (_, q', w') = queue_persist_load F A cfg q0 w in (q', w')
                                 else (q0, w));
                     (q2, pb2, w2) = (if queue_has_file cfg
                                      then let (_, q', pb', w') = queue_file_restore F cfg q1 pb w1 in (q', pb', w')
                                      else (q1, pb, w1))
                 in (RESULT_SUCCESS, Some (hq, q2), g_queues[slot := Some hq], pb2, w2)))"

fun clear_slot :: "nat \<Rightarrow> nat option list \<Rightarrow> nat option list" where
  "clear_slot hq [] = []"
| "clear_slot hq (s # ss) = (if s = Some hq then None # ss else s # clear_slot hq ss)"

definition queue_manager_destroy :: "nat option \<Rightarrow> nat option list \<Rightarrow> result \<times> nat option list" where
  "queue_manager_destroy hq g_queues =
     (case hq of
        None \<Rightarrow> (RESULT_INVALID_PARAM, g_queues)
      | Some h \<Rightarrow> (RESULT_SUCCESS, clear_slot h g_queues))"

subsection \<open>Queue operations\<close>

definition bad_indices :: "queue_config \<Rightarrow> 'e queue \<Rightarrow> bool" where
  "bad_indices cfg q \<longleftrightarrow> q_head q \<ge> qc_capacity cfg \<or> q_tail q \<ge> qc_capacity cfg"

definition ring_push :: "queue_config \<Rightarrow> 'e list \<Rightarrow> 'e \<Rightarrow> 'e queue \<Rightarrow> 'e queue" where
  "ring_push cfg buf d q = q\<lparr>q_buffer := Some (buf[q_tail q := d]),
     q_tail := (q_tail q + 1) mod qc_capacity cfg, q_count := q_count q + 1\<rparr>"

definition ring_drop :: "queue_config \<Rightarrow> 'e queue \<Rightarrow> 'e queue" where
  "ring_drop cfg q = q\<lparr>q_head := (q_head q + 1) mod qc_capacity cfg, q_count := q_count q - 1\<rparr>"

definition queue_push ::
    "'w flash \<Rightarrow> 'e abi \<Rightarrow> bool \<Rightarrow> queue_config \<Rightarrow> 'e queue \<Rightarrow> 'e \<Rightarrow> 'w \<Rightarrow> result \<times> 'e queue \<times> 'w" where
  "queue_push F A args_ok cfg q data w =
     (if \<not> args_ok then (RESULT_INVALID_PARAM, q, w)
      else case q_buffer q of
        None \<Rightarrow> (RESULT_ERROR, q, w)
      | Some buf \<Rightarrow>
          if bad_indices cfg q then (RESULT_ERROR, q, w)
          else if q_count q \<ge> qc_capacity cfg then
            (if \<not> queue_has_file cfg then (RESULT_BUSY, q, w)
             else
               let (r, q1, w1) = queue_file_append F A cfg q (buf ! q_head q) w in
               if result_is_error r then (r, q1, w1)
               else (RESULT_SUCCESS, ring_push cfg buf data (ring_drop cfg q1), w1))
          else (RESULT_SUCCESS, ring_push cfg buf data q, w))"

text \<open>The loop of \<open>queue_pop\<close> for at most \<open>n\<close> more elements: the elements stored to \<open>out\<close>.\<close>

fun pop_loop :: "'w flash \<Rightarrow> 'e abi \<Rightarrow> queue_config \<Rightarrow> nat \<Rightarrow> 'e queue \<Rightarrow> 'w \<Rightarrow> 'e list \<times> 'e queue \<times> 'w" where
  "pop_loop F A cfg 0 q w = ([], q, w)"
| "pop_loop F A cfg (Suc n) q w =
     (if queue_has_file cfg \<and> q_file_read_offset q < q_file_size q then
        let (r, out, q1, w1) = queue_file_read F A cfg q w in
        (if r \<noteq> RESULT_SUCCESS then ([], q1, w1)
         else case out of
           None \<Rightarrow> ([], q1, w1)
         | Some e \<Rightarrow> let (es, q2, w2) = pop_loop F A cfg n q1 w1 in (e # es, q2, w2))
      else if q_count q > 0 then
        (if q_head q \<ge> qc_capacity cfg then ([], q, w)
         else
           let e = (case q_buffer q of None \<Rightarrow> [] | Some b \<Rightarrow> b) ! q_head q;
               (es, q2, w2) = pop_loop F A cfg n (ring_drop cfg q) w
           in (e # es, q2, w2))
      else ([], q, w))"

definition queue_pop ::
    "'w flash \<Rightarrow> 'e abi \<Rightarrow> bool \<Rightarrow> queue_config \<Rightarrow> nat \<Rightarrow> 'e queue \<Rightarrow> 'w \<Rightarrow> result \<times> 'e list \<times> 'e queue \<times> 'w" where
  "queue_pop F A args_ok cfg num_elements q w =
     (if \<not> args_ok \<or> num_elements = 0 then (RESULT_INVALID_PARAM, [], q, w)
      else if q_buffer q = None then (RESULT_ERROR, [], q, w)
      else if bad_indices cfg q then (RESULT_ERROR, [], q, w)
      else
        let (es, q1, w1) = pop_loop F A cfg num_elements q w in
        (if es = [] then RESULT_NOT_FOUND else RESULT_SUCCESS, es, q1, w1))"

definition queue_peek :: "bool \<Rightarrow> queue_config \<Rightarrow> 'e queue \<Rightarrow> result \<times> 'e option" where
  "queue_peek args_ok cfg q =
     (if \<not> args_ok then (RESULT_INVALID_PARAM, None)
      else case q_buffer q of
        None \<Rightarrow> (RESULT_ERROR, None)
      | Some buf \<Rightarrow>
          if bad_indices cfg q then (RESULT_ERROR, None)
          else if q_count q = 0 then (RESULT_NOT_FOUND, None)
          else (RESULT_SUCCESS, Some (buf ! q_head q)))"

text \<open>The record at index \<open>which\<close> from \<open>off\<close> on, skipping the records before it.\<close>

fun peek_record_loop ::
    "'w flash \<Rightarrow> nat \<Rightarrow> nat \<Rightarrow> nat \<Rightarrow> nat \<Rightarrow> 'w \<Rightarrow> result \<times> module_message option \<times> 'w" where
  "peek_record_loop F fp file_size 0 off w =
     (if off \<ge> file_size then (RESULT_NOT_FOUND, None, w)
      else let (r, m, _, w1) = queue_tcp_file_read_compact_record F fp off file_size w in (r, m, w1))"
| "peek_record_loop F fp file_size (Suc which) off w =
     (if off \<ge> file_size then (RESULT_NOT_FOUND, None, w)
      else
        let (_, w1) = f_seek F fp off w;
            (ok, hdr, w2) = f_read F fp 3 w1 in
        if \<not> ok \<or> length hdr \<noteq> 3 then (RESULT_ERROR, None, w2)
        else if hdr_len hdr = 0 \<or> hdr_len hdr > MODULE_MESSAGE_INLINE_SIZE \<or> off + 3 + hdr_len hdr > file_size
        then (RESULT_ERROR, None, w2)
        else peek_record_loop F fp file_size which (off + 3 + hdr_len hdr) w2)"

definition queue_file_peek_element ::
    "'w flash \<Rightarrow> 'e abi \<Rightarrow> queue_config \<Rightarrow> 'e queue \<Rightarrow> nat \<Rightarrow> 'w \<Rightarrow> result \<times> 'e option \<times> 'w" where
  "queue_file_peek_element F A cfg q which w =
     (if \<not> queue_has_file cfg then (RESULT_INVALID_PARAM, None, w)
      else if q_file_read_offset q \<ge> q_file_size q then (RESULT_NOT_FOUND, None, w)
      else
        let (fp, w1) = f_open F (overflow_file cfg) ''rb'' w in
        (case fp of
           None \<Rightarrow> (RESULT_ERROR, None, w1)
         | Some h \<Rightarrow>
             let es = qc_element_size cfg;
                 (r, out, w2) =
                   (if queue_is_tcp_send_q cfg then
                      let (r, m, w') = peek_record_loop F h (q_file_size q) which (q_file_read_offset q) w1
                      in (r, map_option (e_of_message A) m, w')
                    else if es = 0 then (RESULT_INVALID_PARAM, None, w1)
                    else if which \<ge> (q_file_size q - q_file_read_offset q) div es then (RESULT_NOT_FOUND, None, w1)
                    else if u32 (which * es) > UINT32_MAX - q_file_read_offset q then (RESULT_ERROR, None, w1)
                    else if q_file_read_offset q + u32 (which * es) > u32_minus (q_file_size q) es
                    then (RESULT_ERROR, None, w1)
                    else
                      let (_, w') = f_seek F h (q_file_read_offset q + u32 (which * es)) w1;
                          (ok, bs, w'') = f_read F h es w' in
                      if \<not> ok \<or> length bs \<noteq> es then (RESULT_ERROR, None, w'')
                      else (RESULT_SUCCESS, Some (e_of_bytes A bs), w''));
                 (_, w3) = f_close F h w2
             in (r, out, w3)))"

text \<open>The copying loop from index \<open>cnt\<close> on, \<open>n\<close> elements at most.\<close>

fun peek_loop ::
    "'w flash \<Rightarrow> 'e abi \<Rightarrow> queue_config \<Rightarrow> 'e queue \<Rightarrow> nat \<Rightarrow> nat \<Rightarrow> nat \<Rightarrow> 'w \<Rightarrow> 'e list \<times> 'w" where
  "peek_loop F A cfg q file_slots cnt 0 w = ([], w)"
| "peek_loop F A cfg q file_slots cnt (Suc n) w =
     (if cnt < file_slots then
        let (r, out, w1) = queue_file_peek_element F A cfg q cnt w in
        (if r \<noteq> RESULT_SUCCESS then ([], w1)
         else case out of
           None \<Rightarrow> ([], w1)
         | Some e \<Rightarrow> let (es, w2) = peek_loop F A cfg q file_slots (cnt + 1) n w1 in (e # es, w2))
      else if cnt - file_slots \<ge> q_count q then ([], w)
      else
        let e = (case q_buffer q of None \<Rightarrow> [] | Some b \<Rightarrow> b) !
                  ((q_head q + (cnt - file_slots)) mod qc_capacity cfg);
            (es, w2) = peek_loop F A cfg q file_slots (cnt + 1) n w
        in (e # es, w2))"

definition file_slot_count :: "'w flash \<Rightarrow> queue_config \<Rightarrow> 'e queue \<Rightarrow> 'w \<Rightarrow> nat \<times> 'w" where
  "file_slot_count F cfg q w =
     (if queue_has_file cfg \<and> q_file_read_offset q < q_file_size q then
        (if queue_is_tcp_send_q cfg then queue_tcp_file_count_records F q cfg w
         else if qc_element_size cfg > 0
         then ((q_file_size q - q_file_read_offset q) div qc_element_size cfg, w)
         else (0, w))
      else (0, w))"

definition queue_peek_batch ::
    "'w flash \<Rightarrow> 'e abi \<Rightarrow> bool \<Rightarrow> queue_config \<Rightarrow> nat \<Rightarrow> 'e queue \<Rightarrow> 'w \<Rightarrow> result \<times> 'e list \<times> 'w" where
  "queue_peek_batch F A args_ok cfg max_elements q w =
     (if \<not> args_ok \<or> max_elements = 0 then (RESULT_INVALID_PARAM, [], w)
      else if q_buffer q = None \<or> bad_indices cfg q then (RESULT_ERROR, [], w)
      else
        let (file_slots, w1) = file_slot_count F cfg q w;
            total_logical = file_slots + q_count q in
        if total_logical = 0 then (RESULT_NOT_FOUND, [], w1)
        else
          let (es, w2) = peek_loop F A cfg q file_slots 0 (min max_elements total_logical) w1 in
          (if es = [] then RESULT_NOT_FOUND else RESULT_SUCCESS, es, w2))"

definition queue_get_count :: "bool \<Rightarrow> 'e queue \<Rightarrow> result \<times> nat option" where
  "queue_get_count args_ok q = (if \<not> args_ok then (RESULT_INVALID_PARAM, None) else (RESULT_SUCCESS, Some (q_count q)))"

definition queue_is_empty :: "'e queue option \<Rightarrow> bool" where
  "queue_is_empty q = (case q of None \<Rightarrow> True | Some q \<Rightarrow> q_count q = 0)"

definition queue_is_full :: "'e queue option \<Rightarrow> queue_config option \<Rightarrow> bool" where
  "queue_is_full q cfg =
     (case (q, cfg) of (Some q, Some cfg) \<Rightarrow> q_count q \<ge> qc_capacity cfg | _ \<Rightarrow> True)"

definition queue_copy_tail_locked :: "queue_config \<Rightarrow> 'e queue \<Rightarrow> result \<times> 'e option" where
  "queue_copy_tail_locked cfg q =
     (case q_buffer q of
        None \<Rightarrow> (RESULT_NOT_FOUND, None)
      | Some buf \<Rightarrow>
          if q_count q = 0 then (RESULT_NOT_FOUND, None)
          else if q_tail q \<ge> qc_capacity cfg then (RESULT_ERROR, None)
          else (RESULT_SUCCESS, Some (buf ! ((q_tail q + qc_capacity cfg - 1) mod qc_capacity cfg))))"

definition queue_pop_tail :: "bool \<Rightarrow> queue_config \<Rightarrow> 'e queue \<Rightarrow> result \<times> 'e option \<times> 'e queue" where
  "queue_pop_tail args_ok cfg q =
     (if \<not> args_ok then (RESULT_INVALID_PARAM, None, q)
      else if q_buffer q = None then (RESULT_ERROR, None, q)
      else
        let (r, out) = queue_copy_tail_locked cfg q in
        if r \<noteq> RESULT_SUCCESS then (r, out, q)
        else if q_tail q \<ge> qc_capacity cfg then (RESULT_ERROR, out, q)
        else (RESULT_SUCCESS, out, q\<lparr>q_tail := (q_tail q + qc_capacity cfg - 1) mod qc_capacity cfg,
                                     q_count := q_count q - 1\<rparr>))"

end
