(* ===== verification/Queue_Fifo.thy ===== *)
theory Queue_Fifo
  imports Queue_Manager
begin

text \<open>
  The queue manager implements a FIFO. The abstract queue is the unread part of the overflow file
  followed by the ring buffer; \<open>push\<close>, \<open>pop\<close>, \<open>pop_tail\<close> and \<open>peek_batch\<close> are shown to be the list
  operations on it. What they need of the overflow file is the locale \<open>overflow_format\<close>, proved for
  queues without a file, for plain fixed-size records, and for the compact records of the TCP queue.
\<close>

subsection \<open>The ring buffer\<close>

definition wf_ring :: "queue_config \<Rightarrow> 'e queue \<Rightarrow> bool" where
  "wf_ring cfg q \<longleftrightarrow>
     (\<exists>buf. q_buffer q = Some buf \<and> length buf = qc_capacity cfg) \<and> q_head q < qc_capacity cfg \<and>
     q_count q \<le> qc_capacity cfg \<and> q_tail q = (q_head q + q_count q) mod qc_capacity cfg"

definition ring_items :: "queue_config \<Rightarrow> 'e queue \<Rightarrow> 'e list" where
  "ring_items cfg q = map (\<lambda>i. the (q_buffer q) ! ((q_head q + i) mod qc_capacity cfg)) [0..<q_count q]"

lemma length_ring_items [simp]: "length (ring_items cfg q) = q_count q"
  by (simp add: ring_items_def)

lemma wf_ring_indices: "wf_ring cfg q \<Longrightarrow> \<not> bad_indices cfg q \<and> 0 < qc_capacity cfg"
  using mod_less_divisor [of "qc_capacity cfg" "q_head q + q_count q"]
  by (auto simp: wf_ring_def bad_indices_def simp del: mod_less_divisor)

lemma mod_add_inj:
  assumes "i < cap" and "j < cap" and "((h :: nat) + i) mod cap = (h + j) mod cap"
  shows "i = j"
proof -
  define g where "g = h mod cap"
  have g: "g < cap" using assms(1) by (simp add: g_def)
  have m: "(g + k) mod cap = (if g + k < cap then g + k else g + k - cap)" if "k < cap" for k
    using that g by (simp add: mod_if)
  have "(g + i) mod cap = (g + j) mod cap" using assms(3) by (simp add: g_def mod_add_left_eq)
  then show ?thesis using assms(1,2) g by (simp add: m split: if_splits)
qed

lemma ring_push_items:
  assumes wf: "wf_ring cfg q" and room: "q_count q < qc_capacity cfg" and buf: "q_buffer q = Some buf"
  shows "wf_ring cfg (ring_push cfg buf d q)" and "ring_items cfg (ring_push cfg buf d q) = ring_items cfg q @ [d]"
proof -
  let ?cap = "qc_capacity cfg"
  have l: "length buf = ?cap" and t: "q_tail q = (q_head q + q_count q) mod ?cap" and c: "0 < ?cap"
    using wf buf by (auto simp: wf_ring_def)
  show "wf_ring cfg (ring_push cfg buf d q)"
    using wf room l t by (auto simp: wf_ring_def ring_push_def mod_Suc_eq)
  have "buf[q_tail q := d] ! ((q_head q + i) mod ?cap) = buf ! ((q_head q + i) mod ?cap)" if "i < q_count q" for i
    using mod_add_inj [of i ?cap "q_count q" "q_head q"] that room t by (metis nth_list_update_neq less_trans nat_neq_iff)
  moreover have "buf[q_tail q := d] ! ((q_head q + q_count q) mod ?cap) = d"
    using l t c by simp
  ultimately show "ring_items cfg (ring_push cfg buf d q) = ring_items cfg q @ [d]"
    by (simp add: ring_items_def ring_push_def buf)
qed

lemma ring_drop_items:
  assumes wf: "wf_ring cfg q" and n: "0 < q_count q"
  shows "wf_ring cfg (ring_drop cfg q)" and "ring_items cfg (ring_drop cfg q) = tl (ring_items cfg q)"
    and "hd (ring_items cfg q) = the (q_buffer q) ! q_head q"
proof -
  let ?cap = "qc_capacity cfg"
  obtain m where m: "q_count q = Suc m" using n by (cases "q_count q") auto
  have h: "q_head q < ?cap" using wf by (simp add: wf_ring_def)
  show "wf_ring cfg (ring_drop cfg q)"
    using wf m by (auto simp: wf_ring_def ring_drop_def mod_simps)
  have "[0..<Suc m] = 0 # map Suc [0..<m]" by (simp add: map_Suc_upt upt_conv_Cons)
  then show "ring_items cfg (ring_drop cfg q) = tl (ring_items cfg q)"
    by (simp add: ring_items_def ring_drop_def m mod_simps del: upt_Suc)
  show "hd (ring_items cfg q) = the (q_buffer q) ! q_head q"
    using h by (simp add: ring_items_def m upt_conv_Cons del: upt_Suc)
qed

lemma ring_items_last:
  assumes wf: "wf_ring cfg q" and n: "0 < q_count q"
  shows "last (ring_items cfg q) = the (q_buffer q) ! ((q_tail q + qc_capacity cfg - 1) mod qc_capacity cfg)"
proof -
  let ?cap = "qc_capacity cfg"
  obtain m where m: "q_count q = Suc m" using n by (cases "q_count q") auto
  have c: "0 < ?cap" and t: "q_tail q = (q_head q + Suc m) mod ?cap" using wf m by (auto simp: wf_ring_def)
  have "(q_tail q + ?cap - 1) mod ?cap = ((q_head q + Suc m) mod ?cap + (?cap - 1)) mod ?cap"
    using c t by simp
  also have "\<dots> = (q_head q + Suc m + (?cap - 1)) mod ?cap" by (rule mod_add_left_eq)
  also have "q_head q + Suc m + (?cap - 1) = q_head q + m + ?cap" using c by simp
  finally have "(q_tail q + ?cap - 1) mod ?cap = (q_head q + m) mod ?cap" by simp
  then show ?thesis by (simp add: ring_items_def m)
qed

subsection \<open>The contract of an overflow file\<close>

text \<open>Two queues with the same ring part, and the same file part.\<close>

definition same_ring :: "'e queue \<Rightarrow> 'e queue \<Rightarrow> bool" where
  "same_ring q q' \<longleftrightarrow> q_head q' = q_head q \<and> q_tail q' = q_tail q \<and> q_count q' = q_count q \<and> q_buffer q' = q_buffer q"

definition same_file :: "'e queue \<Rightarrow> 'e queue \<Rightarrow> bool" where
  "same_file q q' \<longleftrightarrow> q_file_size q' = q_file_size q \<and> q_file_read_offset q' = q_file_read_offset q"

lemma same_ring_items: "same_ring q q' \<Longrightarrow> ring_items cfg q' = ring_items cfg q"
  and same_ring_wf: "same_ring q q' \<Longrightarrow> wf_ring cfg q' = wf_ring cfg q"
  by (simp_all add: same_ring_def ring_items_def wf_ring_def)

lemma same_file_ring_ops [simp]:
  "same_file q (ring_push cfg buf d q)" "same_file q (ring_drop cfg q)"
  by (simp_all add: same_file_def ring_push_def ring_drop_def)

lemma same_file_trans: "same_file p q \<Longrightarrow> same_file q r \<Longrightarrow> same_file p r"
  by (simp add: same_file_def)

text \<open>
  The contract. \<open>rel q w xs\<close>: in world \<open>w\<close> the unread part of the file of \<open>q\<close> holds the items \<open>xs\<close>;
  \<open>view\<close> is what the file keeps of an element, \<open>storable\<close> which elements it accepts, \<open>clears q e\<close> whether
  appending \<open>e\<close> has to discard the file first. \<open>queue_holds\<close> is the abstract queue: the items of the
  file, then those of the ring. The client part shows that the operations of the queue
  manager are those of a FIFO.
\<close>

definition queue_holds :: "('e queue \<Rightarrow> 'w \<Rightarrow> 'a list \<Rightarrow> bool) \<Rightarrow> ('e \<Rightarrow> 'a) \<Rightarrow> queue_config \<Rightarrow>
    'e queue \<Rightarrow> 'w \<Rightarrow> 'a list \<Rightarrow> bool" where
  "queue_holds rel view cfg q w l \<longleftrightarrow> wf_ring cfg q \<and> (\<exists>xs. rel q w xs \<and> l = xs @ map view (ring_items cfg q))"

locale overflow_format =
  fixes F :: "'w flash" and A :: "'e abi" and cfg :: queue_config
    and rel :: "'e queue \<Rightarrow> 'w \<Rightarrow> 'a list \<Rightarrow> bool"
    and view :: "'e \<Rightarrow> 'a" and storable :: "'e \<Rightarrow> bool" and clears :: "'e queue \<Rightarrow> 'e \<Rightarrow> bool"
  assumes unread_law: "rel q w xs \<Longrightarrow> queue_has_file cfg \<and> q_file_read_offset q < q_file_size q \<longleftrightarrow> xs \<noteq> []"
    and ring_law: "rel q w xs \<Longrightarrow> same_file q q' \<Longrightarrow> rel q' w xs"
    and append_law: "rel q w xs \<Longrightarrow> queue_has_file cfg \<Longrightarrow> storable e \<Longrightarrow>
      \<exists>q' w'. queue_file_append F A cfg q e w = (RESULT_SUCCESS, q', w') \<and> same_ring q q' \<and>
        rel q' w' ((if clears q e then [] else xs) @ [view e])"
    and read_law: "rel q w (x # xs) \<Longrightarrow>
      \<exists>e q' w'. queue_file_read F A cfg q w = (RESULT_SUCCESS, Some e, q', w') \<and> same_ring q q' \<and>
        view e = x \<and> rel q' w' xs"
    and count_law: "rel q w xs \<Longrightarrow> xs \<noteq> [] \<Longrightarrow>
      \<exists>w'. file_slot_count F cfg q w = (length xs, w') \<and> rel q w' xs"
    and peek_law: "rel q w xs \<Longrightarrow> i < length xs \<Longrightarrow>
      \<exists>e w'. queue_file_peek_element F A cfg q i w = (RESULT_SUCCESS, Some e, w') \<and> view e = xs ! i \<and> rel q w' xs"
begin

lemma push_room:
  assumes "wf_ring cfg q" and "rel q w xs" and "q_count q < qc_capacity cfg"
  shows "\<exists>q'. queue_push F A True cfg q d w = (RESULT_SUCCESS, q', w) \<and> wf_ring cfg q' \<and> rel q' w xs \<and>
    ring_items cfg q' = ring_items cfg q @ [d]"
proof -
  obtain buf where b: "q_buffer q = Some buf" using assms(1) by (auto simp: wf_ring_def)
  have "rel (ring_push cfg buf d q) w xs" by (rule ring_law [OF assms(2)]) simp
  then show ?thesis
    using ring_push_items [OF assms(1,3) b] wf_ring_indices [OF assms(1)] assms(3) b
    by (simp add: queue_push_def)
qed

lemma push_full:
  assumes wf: "wf_ring cfg q" and r: "rel q w xs" and full: "q_count q = qc_capacity cfg" and f: "queue_has_file cfg"
    and s: "storable (hd (ring_items cfg q))"
  shows "\<exists>q' w'. queue_push F A True cfg q d w = (RESULT_SUCCESS, q', w') \<and> wf_ring cfg q' \<and>
    rel q' w' ((if clears q (hd (ring_items cfg q)) then [] else xs) @ [view (hd (ring_items cfg q))]) \<and>
    ring_items cfg q' = tl (ring_items cfg q) @ [d]"
proof -
  obtain buf where b: "q_buffer q = Some buf" using wf by (auto simp: wf_ring_def)
  have n: "0 < q_count q" using wf_ring_indices [OF wf] full by simp
  have hd: "hd (ring_items cfg q) = buf ! q_head q" using ring_drop_items(3) [OF wf n] b by simp
  obtain q1 w1 where ap: "queue_file_append F A cfg q (buf ! q_head q) w = (RESULT_SUCCESS, q1, w1)"
    and sr: "same_ring q q1" and r1: "rel q1 w1 ((if clears q (buf ! q_head q) then [] else xs) @ [view (buf ! q_head q)])"
    using append_law [OF r f] s hd by metis
  have wf1: "wf_ring cfg q1" and n1: "0 < q_count q1" using sr wf n by (simp_all add: same_ring_wf) (simp add: same_ring_def)
  note d1 = ring_drop_items [OF wf1 n1]
  have b2: "q_buffer (ring_drop cfg q1) = Some buf" using sr b by (simp add: ring_drop_def same_ring_def)
  have c2: "q_count (ring_drop cfg q1) < qc_capacity cfg"
    using sr full n by (simp add: ring_drop_def same_ring_def)
  note p2 = ring_push_items [OF d1(1) c2 b2, of d]
  have "rel (ring_push cfg buf d (ring_drop cfg q1)) w1 ((if clears q (buf ! q_head q) then [] else xs) @ [view (buf ! q_head q)])"
    by (rule ring_law [OF r1]) (rule same_file_trans [of _ "ring_drop cfg q1"]; simp)
  then show ?thesis
    using p2 d1(2) same_ring_items [OF sr] wf_ring_indices [OF wf] full f b hd
    by (simp add: queue_push_def ap result_is_error_def)
qed

lemma push_busy:
  assumes "wf_ring cfg q" and "q_count q = qc_capacity cfg" and "\<not> queue_has_file cfg"
  shows "queue_push F A True cfg q d w = (RESULT_BUSY, q, w)"
  using assms wf_ring_indices [OF assms(1)] by (auto simp: queue_push_def wf_ring_def)

text \<open>A push appends; when the ring is full and the file had to be cleared first, the unread part of the
  file is lost and the ring is kept.\<close>

lemma push_fifo:
  assumes h: "queue_holds rel view cfg q w l"
    and st: "q_count q = qc_capacity cfg \<Longrightarrow> queue_has_file cfg \<and> storable (hd (ring_items cfg q))"
  shows "\<exists>q' w'. queue_push F A True cfg q d w = (RESULT_SUCCESS, q', w') \<and>
    queue_holds rel view cfg q' w'
      ((if q_count q = qc_capacity cfg \<and> clears q (hd (ring_items cfg q)) then drop (length l - q_count q) l else l) @ [view d])"
proof -
  obtain xs where wf: "wf_ring cfg q" and r: "rel q w xs" and l: "l = xs @ map view (ring_items cfg q)"
    using h by (auto simp: queue_holds_def)
  show ?thesis
  proof (cases "q_count q = qc_capacity cfg")
    case False
    then have "q_count q < qc_capacity cfg" using wf by (auto simp: wf_ring_def)
    from push_room [OF wf r this, of d] l False show ?thesis
      by (auto simp: queue_holds_def)
  next
    case True
    have n: "0 < q_count q" using True wf_ring_indices [OF wf] by simp
    then have "ring_items cfg q \<noteq> []" by (metis length_greater_0_conv length_ring_items)
    then have ri: "hd (ring_items cfg q) # tl (ring_items cfg q) = ring_items cfg q" by simp
    obtain q' w' where p: "queue_push F A True cfg q d w = (RESULT_SUCCESS, q', w')" "wf_ring cfg q'"
      "rel q' w' ((if clears q (hd (ring_items cfg q)) then [] else xs) @ [view (hd (ring_items cfg q))])"
      "ring_items cfg q' = tl (ring_items cfg q) @ [d]"
      using push_full [OF wf r True] st [OF True] by blast
    have "map view (ring_items cfg q) = view (hd (ring_items cfg q)) # map view (tl (ring_items cfg q))"
      using ri by (metis list.simps(9))
    moreover have "drop (length l - q_count q) l = map view (ring_items cfg q)" by (simp add: l)
    ultimately have "(if q_count q = qc_capacity cfg \<and> clears q (hd (ring_items cfg q))
        then drop (length l - q_count q) l else l) @ [view d] =
      ((if clears q (hd (ring_items cfg q)) then [] else xs) @ [view (hd (ring_items cfg q))]) @
      map view (ring_items cfg q')"
      using True l by (simp add: p(4))
    then have "queue_holds rel view cfg q' w' ((if q_count q = qc_capacity cfg \<and> clears q (hd (ring_items cfg q))
        then drop (length l - q_count q) l else l) @ [view d])"
      unfolding queue_holds_def using p(2,3) by blast
    then show ?thesis using p(1) by blast
  qed
qed

lemma pop_loop_fifo:
  "wf_ring cfg q \<Longrightarrow> rel q w xs \<Longrightarrow>
   \<exists>es q' w' ys. pop_loop F A cfg n q w = (es, q', w') \<and> wf_ring cfg q' \<and> rel q' w' ys \<and>
     map view es = take n (xs @ map view (ring_items cfg q)) \<and>
     ys @ map view (ring_items cfg q') = drop n (xs @ map view (ring_items cfg q))"
proof (induction n arbitrary: q w xs)
  case 0
  then show ?case by auto
next
  case (Suc n)
  show ?case
  proof (cases xs)
    case (Cons x ys)
    obtain e q1 w1 where rd: "queue_file_read F A cfg q w = (RESULT_SUCCESS, Some e, q1, w1)"
      and sr: "same_ring q q1" and v: "view e = x" and r1: "rel q1 w1 ys"
      using read_law Suc.prems(2) Cons by blast
    have wf1: "wf_ring cfg q1" using Suc.prems(1) same_ring_wf [OF sr] by blast
    obtain es q' w' zs where p: "pop_loop F A cfg n q1 w1 = (es, q', w')" "wf_ring cfg q'" "rel q' w' zs"
      "map view es = take n (ys @ map view (ring_items cfg q1))"
      "zs @ map view (ring_items cfg q') = drop n (ys @ map view (ring_items cfg q1))"
      using Suc.IH [OF wf1 r1] by blast
    have "pop_loop F A cfg (Suc n) q w = (e # es, q', w')"
      using unread_law [OF Suc.prems(2)] Cons by (simp add: rd p(1))
    moreover have "map view (e # es) = take (Suc n) (xs @ map view (ring_items cfg q))"
      and "zs @ map view (ring_items cfg q') = drop (Suc n) (xs @ map view (ring_items cfg q))"
      using p(4,5) v Cons same_ring_items [OF sr, of cfg] by simp_all
    ultimately show ?thesis using p(2,3) by blast
  next
    case Nil
    have nf: "\<not> (queue_has_file cfg \<and> q_file_read_offset q < q_file_size q)"
      using unread_law [OF Suc.prems(2)] Nil by simp
    show ?thesis
    proof (cases "q_count q = 0")
      case True
      then have "ring_items cfg q = []" by (simp add: ring_items_def)
      then show ?thesis using Suc.prems Nil nf True by auto
    next
      case False
      then have n: "0 < q_count q" by simp
      note d = ring_drop_items [OF Suc.prems(1) n]
      have r1: "rel (ring_drop cfg q) w []" by (rule ring_law [OF Suc.prems(2) [unfolded Nil]]) simp
      obtain es q' w' zs where p: "pop_loop F A cfg n (ring_drop cfg q) w = (es, q', w')" "wf_ring cfg q'" "rel q' w' zs"
        "map view es = take n ([] @ map view (ring_items cfg (ring_drop cfg q)))"
        "zs @ map view (ring_items cfg q') = drop n ([] @ map view (ring_items cfg (ring_drop cfg q)))"
        using Suc.IH [OF d(1) r1] by blast
      obtain buf where b: "q_buffer q = Some buf" using Suc.prems(1) by (auto simp: wf_ring_def)
      have "pop_loop F A cfg (Suc n) q w = (hd (ring_items cfg q) # es, q', w')"
        using n wf_ring_indices [OF Suc.prems(1)] d(3) b
        by (simp only: pop_loop.simps nf if_False) (simp add: p(1) bad_indices_def)
      moreover have "ring_items cfg q = hd (ring_items cfg q) # ring_items cfg (ring_drop cfg q)"
        using n d(2) by (metis length_greater_0_conv length_ring_items list.collapse)
      then have "map view (hd (ring_items cfg q) # es) = take (Suc n) (xs @ map view (ring_items cfg q))"
        and "zs @ map view (ring_items cfg q') = drop (Suc n) (xs @ map view (ring_items cfg q))"
        using p(4,5) Nil by (metis append_Nil drop_Suc_Cons list.simps(9) take_Suc_Cons)+
      ultimately show ?thesis using p(2,3) by blast
    qed
  qed
qed

lemma pop_fifo:
  assumes "queue_holds rel view cfg q w l" and "0 < n"
  shows "\<exists>es q' w'. queue_pop F A True cfg n q w = (if l = [] then RESULT_NOT_FOUND else RESULT_SUCCESS, es, q', w') \<and>
    map view es = take n l \<and> queue_holds rel view cfg q' w' (drop n l)"
proof -
  obtain xs where wf: "wf_ring cfg q" and r: "rel q w xs" and l: "l = xs @ map view (ring_items cfg q)"
    using assms(1) by (auto simp: queue_holds_def)
  obtain es q' w' ys where p: "pop_loop F A cfg n q w = (es, q', w')" "wf_ring cfg q'" "rel q' w' ys"
    "map view es = take n l" "ys @ map view (ring_items cfg q') = drop n l"
    using pop_loop_fifo [OF wf r] l by blast
  have "es = [] \<longleftrightarrow> l = []" using p(4) assms(2) by (metis list.map_disc_iff neq0_conv take_eq_Nil)
  moreover have "q_buffer q \<noteq> None" using wf by (auto simp: wf_ring_def)
  ultimately have "queue_pop F A True cfg n q w = (if l = [] then RESULT_NOT_FOUND else RESULT_SUCCESS, es, q', w')"
    using assms(2) wf_ring_indices [OF wf] by (simp add: queue_pop_def p(1))
  then show ?thesis using p(2-5) by (auto simp: queue_holds_def)
qed

lemma peek_loop_fifo:
  "wf_ring cfg q \<Longrightarrow> rel q w xs \<Longrightarrow>
   \<exists>es w'. peek_loop F A cfg q (length xs) i n w = (es, w') \<and> rel q w' xs \<and>
     map view es = take n (drop i (xs @ map view (ring_items cfg q)))"
proof (induction n arbitrary: i w)
  case 0
  then show ?case by auto
next
  case (Suc n)
  let ?l = "xs @ map view (ring_items cfg q)"
  show ?case
  proof (cases "i < length xs")
    case True
    obtain e w1 where pk: "queue_file_peek_element F A cfg q i w = (RESULT_SUCCESS, Some e, w1)"
      and v: "view e = xs ! i" and r1: "rel q w1 xs"
      using peek_law [OF Suc.prems(2) True] by blast
    obtain es w' where p: "peek_loop F A cfg q (length xs) (i + 1) n w1 = (es, w')" "rel q w' xs"
      "map view es = take n (drop (i + 1) ?l)"
      using Suc.IH [OF Suc.prems(1) r1] by blast
    have "drop i ?l = xs ! i # drop (i + 1) ?l"
      using True by (metis Cons_nth_drop_Suc Suc_eq_plus1 length_append nth_append_left trans_less_add1)
    then have "map view (e # es) = take (Suc n) (drop i ?l)" using p(3) v by simp
    moreover have "peek_loop F A cfg q (length xs) i (Suc n) w = (e # es, w')"
      using True p(1) by (simp add: pk)
    ultimately show ?thesis using p(2) by blast
  next
    case False
    show ?thesis
    proof (cases "i - length xs < q_count q")
      case True
      let ?e = "the (q_buffer q) ! ((q_head q + (i - length xs)) mod qc_capacity cfg)"
      obtain es w' where p: "peek_loop F A cfg q (length xs) (i + 1) n w = (es, w')" "rel q w' xs"
        "map view es = take n (drop (i + 1) ?l)"
        using Suc.IH [OF Suc.prems] by blast
      have il: "i < length ?l" using True False by simp
      have "?l ! i = view ?e" using True False by (simp add: nth_append ring_items_def)
      then have "drop i ?l = view ?e # drop (i + 1) ?l" using il by (metis Cons_nth_drop_Suc Suc_eq_plus1)
      then have "map view (?e # es) = take (Suc n) (drop i ?l)" using p(3) by simp
      moreover have "peek_loop F A cfg q (length xs) i (Suc n) w = (?e # es, w')"
        using True False p(1) Suc.prems(1) by (auto simp: wf_ring_def)
      ultimately show ?thesis using p(2) by blast
    next
      case out: False
      then have "drop i ?l = []" using False by simp
      then show ?thesis using Suc.prems out False by auto
    qed
  qed
qed

lemma peek_batch_fifo:
  assumes "queue_holds rel view cfg q w l" and "0 < n"
  shows "\<exists>es w'. queue_peek_batch F A True cfg n q w = (if l = [] then RESULT_NOT_FOUND else RESULT_SUCCESS, es, w') \<and>
    map view es = take n l \<and> queue_holds rel view cfg q w' l"
proof -
  obtain xs where wf: "wf_ring cfg q" and r: "rel q w xs" and l: "l = xs @ map view (ring_items cfg q)"
    using assms(1) by (auto simp: queue_holds_def)
  obtain w1 where c: "file_slot_count F cfg q w = (length xs, w1)" and r1: "rel q w1 xs"
  proof (cases "xs = []")
    case True
    then have "file_slot_count F cfg q w = (0, w)" using unread_law [OF r] by (auto simp: file_slot_count_def)
    with True r that show ?thesis by simp
  next
    case False
    with count_law [OF r] that show ?thesis by blast
  qed
  have ll: "length xs + q_count q = length l" by (simp add: l)
  obtain es w' where p: "peek_loop F A cfg q (length xs) 0 (min n (length l)) w1 = (es, w')" "rel q w' xs"
    "map view es = take (min n (length l)) (drop 0 l)"
    using peek_loop_fifo [OF wf r1, of 0 "min n (length l)"] unfolding l by blast
  have t: "map view es = take n l" using p(3) by (simp add: min_def)
  then have es: "es = [] \<longleftrightarrow> l = []" using assms(2) by (metis list.map_disc_iff neq0_conv take_eq_Nil)
  have b: "q_buffer q \<noteq> None" using wf by (auto simp: wf_ring_def)
  have f1: "queue_holds rel view cfg q w1 l" and f2: "queue_holds rel view cfg q w' l" using wf r1 p(2) l by (auto simp: queue_holds_def)
  show ?thesis
  proof (cases "l = []")
    case True
    then have "queue_peek_batch F A True cfg n q w = (RESULT_NOT_FOUND, [], w1)"
      using assms(2) b wf_ring_indices [OF wf] ll by (simp add: queue_peek_batch_def c)
    then show ?thesis using True f1 by auto
  next
    case False
    then have "queue_peek_batch F A True cfg n q w = (RESULT_SUCCESS, es, w')"
      using assms(2) b wf_ring_indices [OF wf] ll es p(1) by (auto simp: queue_peek_batch_def c)
    then show ?thesis using False t f2 by auto
  qed
qed

end

subsection \<open>The bytes of the overflow file\<close>

text \<open>The unread bytes of the file: none when the size is zero (then there is no file, or an empty one),
  otherwise what follows the read offset.\<close>

definition file_rel :: "queue_config \<Rightarrow> 'e queue \<Rightarrow> bytes option \<Rightarrow> bytes \<Rightarrow> bool" where
  "file_rel cfg q c u \<longleftrightarrow> q_file_size q \<le> qc_max_file_size cfg \<and>
     (if q_file_size q = 0 then q_file_read_offset q = 0 \<and> u = [] \<and> (c = None \<or> c = Some [])
      else \<exists>bs. c = Some bs \<and> length bs = q_file_size q \<and> q_file_read_offset q < q_file_size q \<and>
             u = drop (q_file_read_offset q) bs)"

definition clears_size :: "queue_config \<Rightarrow> nat \<Rightarrow> 'e queue \<Rightarrow> bool" where
  "clears_size cfg n q \<longleftrightarrow> n > UINT32_MAX - q_file_size q \<or> q_file_size q + n > qc_max_file_size cfg"

lemma file_rel_unread: "file_rel cfg q c u \<Longrightarrow> q_file_read_offset q < q_file_size q \<longleftrightarrow> u \<noteq> []"
  by (auto simp: file_rel_def split: if_splits)

lemma file_rel_same_file: "file_rel cfg q c u \<Longrightarrow> same_file q q' \<Longrightarrow> file_rel cfg q' c u"
  by (simp add: file_rel_def same_file_def)

lemma delete_gone:
  assumes "flash_laws F C H" and "flash_reliable F C H" and "f_delete F p w = (r, w')"
  shows "C w' p = None"
  using delete_spec [OF assms(1,3)] reliable_delete [OF assms(2), of w p] assms(3)
  by (cases "C w p") (auto split: if_splits)

lemma same_ring_file [simp]:
  "same_ring q (q\<lparr>q_file_size := a, q_file_read_offset := b\<rparr>)" "same_ring q q"
  "same_ring q (q\<lparr>q_file_size := a\<rparr>)" "same_ring q (q\<lparr>q_file_read_offset := b\<rparr>)"
  by (simp_all add: same_ring_def)

lemma same_ring_trans: "same_ring p q \<Longrightarrow> same_ring q r \<Longrightarrow> same_ring p r"
  by (simp add: same_ring_def)

lemma make_room_spec:
  assumes L: "flash_laws F C H" and R: "flash_reliable F C H" and f: "file_rel cfg q (C w (overflow_file cfg)) u"
    and n: "n \<le> qc_max_file_size cfg"
  shows "\<exists>q2 w2. file_make_room F cfg n q w = (q2, w2) \<and> same_ring q q2 \<and>
    file_rel cfg q2 (C w2 (overflow_file cfg)) (if clears_size cfg n q then [] else u) \<and>
    q_file_size q2 + n \<le> qc_max_file_size cfg"
proof -
  obtain r w1 where d: "f_delete F (overflow_file cfg) w = (r, w1)" by fastforce
  have g: "C w1 (overflow_file cfg) = None" by (rule delete_gone [OF L R d])
  let ?q = "q\<lparr>q_file_size := 0, q_file_read_offset := 0\<rparr>"
  have z: "file_rel cfg ?q (C w1 (overflow_file cfg)) []" using g by (simp add: file_rel_def)
  show ?thesis
  proof (cases "n > UINT32_MAX - q_file_size q")
    case True
    then have "file_make_room F cfg n q w = (?q, w1)" using n by (simp add: file_make_room_def d)
    then show ?thesis using True z n by (simp add: clears_size_def)
  next
    case a: False
    show ?thesis
    proof (cases "q_file_size q + n > qc_max_file_size cfg")
      case True
      then have "file_make_room F cfg n q w = (?q, w1)" using a by (simp add: file_make_room_def d)
      then show ?thesis using True z n by (simp add: clears_size_def)
    next
      case False
      then have "file_make_room F cfg n q w = (q, w)" using a by (simp add: file_make_room_def)
      then show ?thesis using a False f by (simp add: clears_size_def)
    qed
  qed
qed

text \<open>Opening for appending and writing a record of bytes \<open>d\<close>.\<close>

lemma append_bytes:
  assumes L: "flash_laws F C H" and R: "flash_reliable F C H" and f: "file_rel cfg q (C w (overflow_file cfg)) u"
  shows "\<exists>h w3 c k. f_open F (overflow_file cfg) ''ab+'' w = (Some h, w3) \<and> C w3 (overflow_file cfg) = Some c \<and>
    H w3 h = Some (overflow_file cfg, k, True) \<and>
    (\<forall>w4 w5 d r. C w4 (overflow_file cfg) = Some (c @ d) \<longrightarrow> d \<noteq> [] \<longrightarrow> f_close F h w4 = (r, w5) \<longrightarrow>
       q_file_size q + length d \<le> qc_max_file_size cfg \<longrightarrow>
       file_rel cfg (q\<lparr>q_file_size := q_file_size q + length d\<rparr>) (C w5 (overflow_file cfg)) (u @ d))"
proof -
  obtain h w3 where o: "f_open F (overflow_file cfg) ''ab+'' w = (Some h, w3)"
    using reliable_open [OF R, of "''ab+''" w "overflow_file cfg"] by auto
  define c where "c = (case C w (overflow_file cfg) of None \<Rightarrow> [] | Some c \<Rightarrow> c)"
  have o3: "C w3 (overflow_file cfg) = Some c" "\<exists>k. H w3 h = Some (overflow_file cfg, k, True)"
    using open_ab(2) [OF L o refl] by (simp_all add: c_def)
  have cl: "length c = q_file_size q \<and> q_file_read_offset q \<le> length c \<and> u = drop (q_file_read_offset q) c"
    using f by (auto simp: file_rel_def c_def split: if_splits)
  have "file_rel cfg (q\<lparr>q_file_size := q_file_size q + length d\<rparr>) (C w5 (overflow_file cfg)) (u @ d)"
    if "C w4 (overflow_file cfg) = Some (c @ d)" "d \<noteq> []" "f_close F h w4 = (r, w5)"
      "q_file_size q + length d \<le> qc_max_file_size cfg" for w4 w5 d r
  proof -
    have "q_file_read_offset q < q_file_size q + length d" using that(2) cl by (cases d) auto
    then show ?thesis using that cl close_spec [OF L that(3)] by (simp add: file_rel_def)
  qed
  with o o3 show ?thesis by blast
qed

text \<open>Opening for reading with unread bytes.\<close>

lemma read_open:
  assumes L: "flash_laws F C H" and R: "flash_reliable F C H" and f: "file_rel cfg q (C w (overflow_file cfg)) u" and u: "u \<noteq> []"
  shows "\<exists>h w1 bs. f_open F (overflow_file cfg) ''rb'' w = (Some h, w1) \<and> C w1 = C w \<and>
    C w (overflow_file cfg) = Some bs \<and> H w1 h = Some (overflow_file cfg, 0, False) \<and>
    length bs = q_file_size q \<and> q_file_read_offset q < q_file_size q \<and> u = drop (q_file_read_offset q) bs"
proof -
  obtain bs where bs: "C w (overflow_file cfg) = Some bs" "length bs = q_file_size q"
      "q_file_read_offset q < q_file_size q" "u = drop (q_file_read_offset q) bs"
    using f u by (auto simp: file_rel_def split: if_splits)
  obtain h w1 where o: "f_open F (overflow_file cfg) ''rb'' w = (Some h, w1)"
    using reliable_open [OF R, of "''rb''" w "overflow_file cfg"] bs(1) by auto
  then show ?thesis using open_rb(1) [OF L o] open_rb(2) [OF L o refl] bs by auto
qed

text \<open>A successful read of a prefix \<open>d\<close> of the unread bytes advances the offset and deletes a file read
  to its end.\<close>

lemma file_read_advance:
  assumes L: "flash_laws F C H" and R: "flash_reliable F C H" and hf: "queue_has_file cfg"
    and f: "file_rel cfg q (C w (overflow_file cfg)) (d @ u)" and d: "d \<noteq> []"
    and rd: "\<And>h w1. C w1 = C w \<Longrightarrow> H w1 h = Some (overflow_file cfg, 0, False) \<Longrightarrow>
      \<exists>w2. file_read_record F A cfg h q w1 = (RESULT_SUCCESS, Some e, q_file_read_offset q + length d, w2) \<and> C w2 = C w1"
  shows "\<exists>q' w'. queue_file_read F A cfg q w = (RESULT_SUCCESS, Some e, q', w') \<and> same_ring q q' \<and>
    file_rel cfg q' (C w' (overflow_file cfg)) u"
proof -
  obtain h w1 bs where o: "f_open F (overflow_file cfg) ''rb'' w = (Some h, w1)" "C w1 = C w"
      "C w (overflow_file cfg) = Some bs" "H w1 h = Some (overflow_file cfg, 0, False)"
      "length bs = q_file_size q" "q_file_read_offset q < q_file_size q" "d @ u = drop (q_file_read_offset q) bs"
    using read_open [OF L R f] d by auto
  obtain w2 where r: "file_read_record F A cfg h q w1 = (RESULT_SUCCESS, Some e, q_file_read_offset q + length d, w2)" "C w2 = C w1"
    using rd [OF o(2,4)] by blast
  obtain cr w3 where cl: "f_close F h w2 = (cr, w3)" by fastforce
  have c3: "C w3 = C w" using close_spec [OF L cl] r(2) o(2) by simp
  have ll: "q_file_size q = q_file_read_offset q + length d + length u"
    using arg_cong [OF o(7), of length] o(5,6) by simp
  have u: "u = drop (q_file_read_offset q + length d) bs"
    using arg_cong [OF o(7), of "drop (length d)"] by (simp add: add.commute)
  let ?q1 = "q\<lparr>q_file_read_offset := q_file_read_offset q + length d\<rparr>"
  show ?thesis
  proof (cases "u = []")
    case True
    obtain dr w4 where dl: "f_delete F (overflow_file cfg) w3 = (dr, w4)" by fastforce
    have "queue_file_read F A cfg q w =
        (RESULT_SUCCESS, Some e, ?q1\<lparr>q_file_size := 0, q_file_read_offset := 0\<rparr>, w4)"
      using hf o(6) ll True by (simp add: queue_file_read_def o(1) r(1) cl dl)
    moreover have "file_rel cfg (?q1\<lparr>q_file_size := 0, q_file_read_offset := 0\<rparr>) (C w4 (overflow_file cfg)) u"
      using delete_gone [OF L R dl] True by (simp add: file_rel_def)
    ultimately show ?thesis by (auto simp: same_ring_def)
  next
    case False
    then have "queue_file_read F A cfg q w = (RESULT_SUCCESS, Some e, ?q1, w3)"
      using hf o(6) ll by (simp add: queue_file_read_def o(1) r(1) cl)
    moreover have "file_rel cfg ?q1 (C w3 (overflow_file cfg)) u"
    proof -
      have "q_file_size q \<le> qc_max_file_size cfg" using f by (simp add: file_rel_def)
      moreover have "0 < q_file_size q" and "q_file_read_offset q + length d < q_file_size q"
        using ll False o(6) by (cases u; simp)+
      ultimately show ?thesis
        unfolding file_rel_def using o(3,5) u c3 by simp
    qed
    ultimately show ?thesis by (auto simp: same_ring_def)
  qed
qed

subsection \<open>Queues without a file and with plain records\<close>

interpretation no_file: overflow_format F A cfg "\<lambda>q w xs. \<not> queue_has_file cfg \<and> xs = []"
    "\<lambda>e. e" "\<lambda>e. False" "\<lambda>q e. False" for F :: "'w flash" and A :: "'e abi" and cfg
  by unfold_locales simp_all

text \<open>An element of \<open>n\<close> bytes that is rebuilt from its bytes.\<close>

definition abi_elem :: "'e abi \<Rightarrow> nat \<Rightarrow> 'e \<Rightarrow> bool" where
  "abi_elem A n e \<longleftrightarrow> length (e_bytes A e) = n \<and> e_of_bytes A (e_bytes A e) = e"

definition abi_ok :: "'e abi \<Rightarrow> nat \<Rightarrow> bool" where
  "abi_ok A n \<longleftrightarrow> (\<forall>e. length (e_bytes A e) = n \<and> e_of_bytes A (e_bytes A e) = e)"

lemma abi_ok_elem: "abi_ok A n \<Longrightarrow> abi_elem A n e"
  by (simp add: abi_ok_def abi_elem_def)

definition plain_bytes :: "'e abi \<Rightarrow> 'e list \<Rightarrow> bytes" where
  "plain_bytes A xs = concat (map (e_bytes A) xs)"

definition plain_rel :: "'w flash \<Rightarrow> 'w contents \<Rightarrow> 'w handles \<Rightarrow> 'e abi \<Rightarrow> queue_config \<Rightarrow>
    'e queue \<Rightarrow> 'w \<Rightarrow> 'e list \<Rightarrow> bool" where
  "plain_rel F C H A cfg q w xs \<longleftrightarrow> flash_laws F C H \<and> flash_reliable F C H \<and> abi_ok A (qc_element_size cfg) \<and>
     \<not> queue_is_tcp_send_q cfg \<and> 0 < qc_element_size cfg \<and> qc_element_size cfg \<le> qc_max_file_size cfg \<and>
     qc_max_file_size cfg < 2 ^ 32 \<and> file_rel cfg q (C w (overflow_file cfg)) (plain_bytes A xs)"

lemma plain_bytes_simps [simp]:
  "plain_bytes A [] = []" "plain_bytes A (x # xs) = e_bytes A x @ plain_bytes A xs"
  "plain_bytes A (xs @ ys) = plain_bytes A xs @ plain_bytes A ys"
  by (simp_all add: plain_bytes_def)

lemma length_plain_bytes: "abi_ok A n \<Longrightarrow> length (plain_bytes A xs) = length xs * n"
  by (induction xs) (auto simp: abi_ok_def)

lemma plain_bytes_nth:
  assumes "abi_ok A n" and "i < length xs"
  shows "take n (drop (i * n) (plain_bytes A xs)) = e_bytes A (xs ! i)"
proof -
  have "plain_bytes A xs = plain_bytes A (take i xs) @ e_bytes A (xs ! i) @ plain_bytes A (drop (Suc i) xs)"
    using assms(2) by (metis append_take_drop_id id_take_nth_drop plain_bytes_simps(2,3))
  moreover have "length (plain_bytes A (take i xs)) = i * n"
    using assms by (simp add: length_plain_bytes)
  moreover have "length (e_bytes A (xs ! i)) = n" using assms(1) by (simp add: abi_ok_def)
  ultimately show ?thesis by simp
qed

lemma plain_unread: "plain_rel F C H A cfg q w xs \<Longrightarrow> q_file_read_offset q < q_file_size q \<longleftrightarrow> xs \<noteq> []"
  using length_plain_bytes [of A "qc_element_size cfg" xs]
  by (auto simp: plain_rel_def dest: file_rel_unread)

lemma plain_append:
  assumes r: "plain_rel F C H A cfg q w xs"
  shows "\<exists>q' w'. queue_file_append F A cfg q e w = (RESULT_SUCCESS, q', w') \<and> same_ring q q' \<and>
    plain_rel F C H A cfg q' w' ((if clears_size cfg (qc_element_size cfg) q then [] else xs) @ [e])"
proof -
  let ?n = "qc_element_size cfg" and ?f = "overflow_file cfg"
  have L: "flash_laws F C H" and R: "flash_reliable F C H" and ab: "abi_ok A ?n" and nt: "\<not> queue_is_tcp_send_q cfg"
    and n: "0 < ?n" "?n \<le> qc_max_file_size cfg" and f: "file_rel cfg q (C w ?f) (plain_bytes A xs)"
    using r by (simp_all add: plain_rel_def)
  have le: "length (e_bytes A e) = ?n" using ab by (simp add: abi_ok_def)
  let ?u = "if clears_size cfg ?n q then [] else plain_bytes A xs"
  obtain q2 w2 where m: "file_make_room F cfg ?n q w = (q2, w2)" "same_ring q q2" "file_rel cfg q2 (C w2 ?f) ?u"
      "q_file_size q2 + ?n \<le> qc_max_file_size cfg"
    using make_room_spec [OF L R f n(2)] by blast
  obtain h w3 c k where o: "f_open F ?f ''ab+'' w2 = (Some h, w3)" "C w3 ?f = Some c" "H w3 h = Some (?f, k, True)"
    and fin: "\<And>w4 w5 d r. C w4 ?f = Some (c @ d) \<Longrightarrow> d \<noteq> [] \<Longrightarrow> f_close F h w4 = (r, w5) \<Longrightarrow>
       q_file_size q2 + length d \<le> qc_max_file_size cfg \<Longrightarrow>
       file_rel cfg (q2\<lparr>q_file_size := q_file_size q2 + length d\<rparr>) (C w5 ?f) (?u @ d)"
    using append_bytes [OF L R m(3)] by blast
  have "H w3 h \<noteq> None" using o(3) by simp
  from reliable_write [OF R this] obtain w4 where wr: "f_write F h (e_bytes A e) w3 = (True, ?n, w4)" using le by metis
  have c4: "C w4 ?f = Some (c @ e_bytes A e)"
    using write_spec(2) [OF L wr o(3,2) TrueI] le by simp
  obtain cr w5 where cl: "f_close F h w4 = (cr, w5)" by fastforce
  have ne: "e_bytes A e \<noteq> []" using le n(1) by auto
  have "file_rel cfg (q2\<lparr>q_file_size := q_file_size q2 + ?n\<rparr>) (C w5 ?f) (?u @ e_bytes A e)"
    using fin [OF c4 ne cl] m(4) le by simp
  moreover have "queue_file_append F A cfg q e w = (RESULT_SUCCESS, q2\<lparr>q_file_size := q_file_size q2 + ?n\<rparr>, w5)"
    using n nt by (simp add: queue_file_append_def queue_has_file_def append_record_size_def m(1) o(1)
        file_write_record_def wr cl)
  moreover have "same_ring q (q2\<lparr>q_file_size := q_file_size q2 + ?n\<rparr>)"
    using m(2) by (simp add: same_ring_def)
  ultimately show ?thesis using r by (auto simp: plain_rel_def)
qed

lemma seek_read:
  assumes L: "flash_laws F C H" and R: "flash_reliable F C H" and h: "H w h = Some (p, k, a)" and c: "C w p = Some bs"
    and i: "i \<le> length bs"
  shows "\<exists>r w1 w2. f_seek F h i w = (r, w1) \<and> f_read F h n w1 = (True, take n (drop i bs), w2) \<and> C w2 = C w \<and>
    H w2 h = Some (p, i + min n (length bs - i), a)"
proof -
  obtain w1 where s: "f_seek F h i w = (True, w1)" and "C w1 = C w" "H w1 h = Some (p, i, a)"
    using reliable_seek [OF L R h c i] by blast
  moreover from this c obtain w2 where "f_read F h n w1 = (True, take n (drop i bs), w2)" "C w2 = C w1"
      "H w2 h = Some (p, i + min n (length bs - i), a)"
    using reliable_read [OF L R, of w1 h p i a bs n] by auto
  ultimately show ?thesis using s by auto
qed

lemma plain_read:
  assumes r: "plain_rel F C H A cfg q w (x # xs)"
  shows "\<exists>e q' w'. queue_file_read F A cfg q w = (RESULT_SUCCESS, Some e, q', w') \<and> same_ring q q' \<and>
    e = x \<and> plain_rel F C H A cfg q' w' xs"
proof -
  let ?n = "qc_element_size cfg" and ?f = "overflow_file cfg"
  have L: "flash_laws F C H" and R: "flash_reliable F C H" and ab: "abi_ok A ?n" and nt: "\<not> queue_is_tcp_send_q cfg"
    and n: "0 < ?n" "?n \<le> qc_max_file_size cfg" and f: "file_rel cfg q (C w ?f) (e_bytes A x @ plain_bytes A xs)"
    using r by (simp_all add: plain_rel_def)
  have le: "length (e_bytes A x) = ?n" and dec: "e_of_bytes A (e_bytes A x) = x" using ab by (simp_all add: abi_ok_def)
  have ne: "e_bytes A x \<noteq> []" using le n(1) by auto
  obtain bs where bs: "C w ?f = Some bs" "length bs = q_file_size q" "q_file_read_offset q < q_file_size q"
      "e_bytes A x @ plain_bytes A xs = drop (q_file_read_offset q) bs"
    using read_open [OF L R f] ne by auto
  have "\<exists>w2. file_read_record F A cfg h q w1 = (RESULT_SUCCESS, Some x, q_file_read_offset q + length (e_bytes A x), w2) \<and> C w2 = C w1"
    if c1: "C w1 = C w" and h1: "H w1 h = Some (?f, 0, False)" for h w1
  proof -
    obtain rr w2 w3 where s: "f_seek F h (q_file_read_offset q) w1 = (rr, w2)"
        "f_read F h ?n w2 = (True, take ?n (drop (q_file_read_offset q) bs), w3)" "C w3 = C w1"
      using seek_read [OF L R h1, of bs "q_file_read_offset q" ?n] c1 bs by auto
    have "take ?n (drop (q_file_read_offset q) bs) = e_bytes A x" using le bs(4) by (simp flip: bs(4))
    then show ?thesis using nt s le dec by (simp add: file_read_record_def)
  qed
  note rd = this
  have hf: "queue_has_file cfg" using n by (simp add: queue_has_file_def)
  obtain q' w' where "queue_file_read F A cfg q w = (RESULT_SUCCESS, Some x, q', w')" "same_ring q q'"
      "file_rel cfg q' (C w' ?f) (plain_bytes A xs)"
    using file_read_advance [OF L R hf f ne rd] by blast
  moreover from this(3) have "plain_rel F C H A cfg q' w' xs" using r by (simp add: plain_rel_def)
  ultimately show ?thesis by blast
qed

lemma plain_count:
  assumes "plain_rel F C H A cfg q w xs" and "xs \<noteq> []"
  shows "file_slot_count F cfg q w = (length xs, w)"
proof -
  have "abi_ok A (qc_element_size cfg)" and n: "0 < qc_element_size cfg" "qc_element_size cfg \<le> qc_max_file_size cfg"
    and "\<not> queue_is_tcp_send_q cfg"
    using assms(1) by (simp_all add: plain_rel_def)
  moreover have "q_file_size q - q_file_read_offset q = length (plain_bytes A xs)"
    using assms plain_unread [OF assms(1)] by (auto simp: plain_rel_def file_rel_def split: if_splits)
  ultimately show ?thesis
    using plain_unread [OF assms(1)] assms(2)
    by (simp add: file_slot_count_def queue_has_file_def length_plain_bytes)
qed

lemma plain_peek:
  assumes r: "plain_rel F C H A cfg q w xs" and i: "i < length xs"
  shows "\<exists>e w'. queue_file_peek_element F A cfg q i w = (RESULT_SUCCESS, Some e, w') \<and> e = xs ! i \<and>
    plain_rel F C H A cfg q w' xs"
proof -
  let ?n = "qc_element_size cfg" and ?f = "overflow_file cfg" and ?o = "q_file_read_offset q"
  have L: "flash_laws F C H" and R: "flash_reliable F C H" and ab: "abi_ok A ?n" and nt: "\<not> queue_is_tcp_send_q cfg"
    and n: "0 < ?n" "?n \<le> qc_max_file_size cfg" "qc_max_file_size cfg < 2 ^ 32"
    and f: "file_rel cfg q (C w ?f) (plain_bytes A xs)"
    using r by (simp_all add: plain_rel_def)
  have len: "length (plain_bytes A xs) = length xs * ?n" using ab by (rule length_plain_bytes)
  have "plain_bytes A xs \<noteq> []" using len i n(1) by auto
  then obtain h w1 bs where o: "f_open F ?f ''rb'' w = (Some h, w1)" "C w1 = C w" "C w ?f = Some bs"
      "H w1 h = Some (?f, 0, False)" "length bs = q_file_size q" "?o < q_file_size q" "plain_bytes A xs = drop ?o bs"
    using read_open [OF L R f] by blast
  have sz: "q_file_size q = ?o + length xs * ?n" using arg_cong [OF o(7), of length] len o(5,6) by simp
  have mx: "q_file_size q < 2 ^ 32" using f n(3) by (simp add: file_rel_def)
  have "Suc i * ?n \<le> length xs * ?n" using i by (intro mult_le_mono1) simp
  then have le: "?o + i * ?n + ?n \<le> q_file_size q" using sz by simp
  have u: "u32 (i * ?n) = i * ?n" and um: "u32_minus (q_file_size q) ?n = q_file_size q - ?n"
    using le mx by (simp_all add: u32_minus_small)
  obtain rr w2 w3 where s: "f_seek F h (?o + i * ?n) w1 = (rr, w2)"
      "f_read F h ?n w2 = (True, take ?n (drop (?o + i * ?n) bs), w3)" "C w3 = C w1"
    using seek_read [OF L R o(4), of bs "?o + i * ?n" ?n] o(2,3,5) le by auto
  have "take ?n (drop (?o + i * ?n) bs) = e_bytes A (xs ! i)"
    using plain_bytes_nth [OF ab i] by (simp add: o(7) add.commute)
  then have rd: "f_read F h ?n w2 = (True, e_bytes A (xs ! i), w3)" using s(2) by simp
  obtain cr w4 where cl: "f_close F h w3 = (cr, w4)" by fastforce
  have c4: "C w4 = C w" using close_spec [OF L cl] s(3) o(2) by simp
  have dec: "e_of_bytes A (e_bytes A (xs ! i)) = xs ! i" "length (e_bytes A (xs ! i)) = ?n"
    using ab by (simp_all add: abi_ok_def)
  have "\<not> i \<ge> (q_file_size q - ?o) div ?n" using sz n(1) i by simp
  moreover have "\<not> i * ?n > UINT32_MAX - ?o" "\<not> ?o + i * ?n > q_file_size q - ?n" using le mx by simp_all
  ultimately have "queue_file_peek_element F A cfg q i w = (RESULT_SUCCESS, Some (xs ! i), w4)"
    using n nt o(6) dec
    by (simp add: queue_file_peek_element_def queue_has_file_def o(1) u um s(1) rd cl Let_def)
  then show ?thesis using r c4 by (simp add: plain_rel_def)
qed

interpretation plain: overflow_format F A cfg "plain_rel F C H A cfg" "\<lambda>e. e" "\<lambda>e. True"
    "\<lambda>q e. clears_size cfg (qc_element_size cfg) q" for F :: "'w flash" and C H and A :: "'e abi" and cfg
proof
  fix q :: "'e queue" and w xs
  assume r: "plain_rel F C H A cfg q w xs"
  have hf: "queue_has_file cfg" using r by (auto simp: plain_rel_def queue_has_file_def)
  show "(queue_has_file cfg \<and> q_file_read_offset q < q_file_size q) = (xs \<noteq> [])"
    using hf plain_unread [OF r] by simp
  show "plain_rel F C H A cfg q' w xs" if "same_file q q'" for q'
    using r file_rel_same_file [OF _ that] by (auto simp: plain_rel_def)
  show "\<exists>q' w'. queue_file_append F A cfg q e w = (RESULT_SUCCESS, q', w') \<and> same_ring q q' \<and>
      plain_rel F C H A cfg q' w' ((if clears_size cfg (qc_element_size cfg) q then [] else xs) @ [e])" for e
    by (rule plain_append [OF r])
  show "\<exists>w'. file_slot_count F cfg q w = (length xs, w') \<and> plain_rel F C H A cfg q w' xs" if "xs \<noteq> []"
    using plain_count [OF r that] r by blast
  show "\<exists>e w'. queue_file_peek_element F A cfg q i w = (RESULT_SUCCESS, Some e, w') \<and> e = xs ! i \<and>
      plain_rel F C H A cfg q w' xs" if "i < length xs" for i
    by (rule plain_peek [OF r that])
next
  fix q :: "'e queue" and w x xs
  assume "plain_rel F C H A cfg q w (x # xs)"
  then show "\<exists>e q' w'. queue_file_read F A cfg q w = (RESULT_SUCCESS, Some e, q', w') \<and> same_ring q q' \<and>
      e = x \<and> plain_rel F C H A cfg q' w' xs"
    by (rule plain_read)
qed

subsection \<open>The compact records of the TCP queue\<close>

definition wf_packet :: "bytes \<Rightarrow> bool" where
  "wf_packet p \<longleftrightarrow> 3 \<le> length p \<and> length p \<le> MODULE_MESSAGE_INLINE_SIZE \<and> p ! 0 = 0x57 \<and> p ! 1 = 0x45 \<and> tcp_type_ok (p ! 2)"

definition tcp_record :: "bytes \<Rightarrow> bytes" where
  "tcp_record p = [lo8 (length p), hi8 (length p), p ! 2] @ p"

definition tcp_bytes :: "bytes list \<Rightarrow> bytes" where
  "tcp_bytes xs = concat (map tcp_record xs)"

definition tcp_view :: "'e abi \<Rightarrow> 'e \<Rightarrow> bytes" where
  "tcp_view A e = (case queue_tcp_payload_len_from_message (e_message A e) of None \<Rightarrow> [] | Some (p, n) \<Rightarrow> take n p)"

definition tcp_storable :: "'e abi \<Rightarrow> 'e \<Rightarrow> bool" where
  "tcp_storable A e \<longleftrightarrow> (\<exists>p n. queue_tcp_payload_len_from_message (e_message A e) = Some (p, n) \<and>
     n \<le> length p \<and> wf_packet (take n p))"

definition msg_abi_ok :: "'e abi \<Rightarrow> bool" where
  "msg_abi_ok A \<longleftrightarrow> (\<forall>m. e_message A (e_of_message A m) = m)"

definition tcp_rel :: "'w flash \<Rightarrow> 'w contents \<Rightarrow> 'w handles \<Rightarrow> 'e abi \<Rightarrow> queue_config \<Rightarrow>
    'e queue \<Rightarrow> 'w \<Rightarrow> bytes list \<Rightarrow> bool" where
  "tcp_rel F C H A cfg q w xs \<longleftrightarrow> flash_laws F C H \<and> flash_reliable F C H \<and> msg_abi_ok A \<and>
     queue_is_tcp_send_q cfg \<and> 259 \<le> qc_max_file_size cfg \<and> qc_max_file_size cfg < 2 ^ 32 \<and>
     list_all wf_packet xs \<and> file_rel cfg q (C w (overflow_file cfg)) (tcp_bytes xs)"

lemma tcp_bytes_simps [simp]:
  "tcp_bytes [] = []" "tcp_bytes (x # xs) = tcp_record x @ tcp_bytes xs"
  "tcp_bytes (xs @ ys) = tcp_bytes xs @ tcp_bytes ys"
  by (simp_all add: tcp_bytes_def)

lemma tcp_record_facts:
  assumes "wf_packet p"
  shows "length (tcp_record p) = 3 + length p" and "tcp_record p \<noteq> []"
    and "hdr_len (take 3 (tcp_record p @ t)) = length p" and "take 3 (tcp_record p @ t) ! 2 = p ! 2"
    and "take (length p) (drop 3 (tcp_record p @ t)) = p"
proof -
  have "length p < 65536" using assms by (simp add: wf_packet_def)
  then show "hdr_len (take 3 (tcp_record p @ t)) = length p"
    by (simp add: tcp_record_def hdr_len_def be16_hi8_lo8)
qed (simp_all add: tcp_record_def)

lemma tcp_bytes_Nil: "list_all wf_packet xs \<Longrightarrow> tcp_bytes xs = [] \<longleftrightarrow> xs = []"
  by (cases xs) (auto simp: tcp_record_facts)

lemma type_source_allowed: "tcp_type_ok t \<Longrightarrow> queue_tcp_source_allowed (queue_tcp_type_to_source_module t)"
  by (auto simp: tcp_type_ok_def queue_tcp_source_allowed_def queue_tcp_type_to_source_module_def)

lemma tcp_view_restored:
  assumes "msg_abi_ok A" and "wf_packet p"
  shows "tcp_view A (e_of_message A (restored_message s p)) = p"
proof -
  have l: "3 \<le> length p" "length p \<le> 256" "p ! 0 = 0x57" "p ! 1 = 0x45" using assms(2) by (simp_all add: wf_packet_def)
  from l(1) have "0 < length p" "Suc 0 < length p" by linarith+
  with l have "(p @ z) ! 0 = 0x57" "(p @ z) ! Suc 0 = 0x45" for z by (simp_all add: nth_append_left)
  with l have "queue_tcp_payload_len_from_message (restored_message s p) =
      Some (p @ replicate (256 - length p) 0, length p)"
    by (auto simp: queue_tcp_payload_len_from_message_def module_message_payload_def restored_message_def)
  then show ?thesis using assms(1) by (simp add: tcp_view_def msg_abi_ok_def)
qed

text \<open>Skipping to a record and reading its header, then its payload.\<close>

lemma read_header:
  assumes L: "flash_laws F C H" and R: "flash_reliable F C H" and h: "H w h = Some (f, k, a)" and c: "C w f = Some bs"
    and d: "drop off bs = tcp_record p @ t" and p: "wf_packet p" and sz: "length bs = sz"
  shows "\<exists>r w1 hdr w2. f_seek F h off w = (r, w1) \<and> f_read F h 3 w1 = (True, hdr, w2) \<and> length hdr = 3 \<and>
    hdr_len hdr = length p \<and> hdr ! 2 = p ! 2 \<and> C w2 = C w \<and> H w2 h = Some (f, off + 3, a) \<and> off + 3 + length p \<le> sz"
proof -
  have ll: "length bs - off = 3 + length p + length t"
    using arg_cong [OF d, of length] tcp_record_facts(1) [OF p] by simp
  then have off: "off \<le> length bs" by linarith
  obtain r w1 w2 where s: "f_seek F h off w = (r, w1)" "f_read F h 3 w1 = (True, take 3 (drop off bs), w2)" "C w2 = C w"
      "H w2 h = Some (f, off + min 3 (length bs - off), a)"
    using seek_read [OF L R h c off, of 3] by blast
  have m: "min 3 (length bs - off) = 3" and l3: "length (take 3 (drop off bs)) = 3" using ll by simp_all
  have "hdr_len (take 3 (drop off bs)) = length p" "take 3 (drop off bs) ! 2 = p ! 2"
    using tcp_record_facts(3,4) [OF p, of t] by (simp_all only: d)
  moreover have "off + 3 + length p \<le> sz" using ll off sz by linarith
  ultimately show ?thesis using s l3 unfolding m by blast
qed

lemma read_compact_record:
  assumes L: "flash_laws F C H" and R: "flash_reliable F C H" and h: "H w h = Some (f, k, a)" and c: "C w f = Some bs"
    and d: "drop off bs = tcp_record p @ t" and p: "wf_packet p" and sz: "length bs = sz"
  shows "\<exists>w'. queue_tcp_file_read_compact_record F h off sz w =
      (RESULT_SUCCESS, Some (restored_message (queue_tcp_type_to_source_module (p ! 2)) p), off + 3 + length p, w') \<and>
    C w' = C w"
proof -
  obtain r w1 hdr w2 where s: "f_seek F h off w = (r, w1)" "f_read F h 3 w1 = (True, hdr, w2)" "length hdr = 3"
      "hdr_len hdr = length p" "hdr ! 2 = p ! 2" "C w2 = C w" "H w2 h = Some (f, off + 3, a)" "off + 3 + length p \<le> sz"
    using read_header [OF assms] by blast
  have "take (length p) (drop (off + 3) bs) = p"
    using tcp_record_facts(5) [OF p, of t] by (simp add: d [symmetric] add.commute)
  then obtain w3 where rd: "f_read F h (length p) w2 = (True, p, w3)" "C w3 = C w2"
    using reliable_read [OF L R s(7), of bs "length p"] s(6) c by auto
  have "3 \<le> length p" "length p \<le> 256" "tcp_type_ok (p ! 2)" using p by (simp_all add: wf_packet_def)
  moreover from this have "p \<noteq> []" by auto
  ultimately show ?thesis
    using s rd type_source_allowed by (simp add: queue_tcp_file_read_compact_record_def)
qed

lemma tcp_count_loop:
  "flash_laws F C H \<Longrightarrow> flash_reliable F C H \<Longrightarrow> list_all wf_packet xs \<Longrightarrow> H w h = Some (f, k, a) \<Longrightarrow>
   C w f = Some bs \<Longrightarrow> drop off bs = tcp_bytes xs \<Longrightarrow> length bs = sz \<Longrightarrow>
   \<exists>w'. count_records_loop F h sz off cnt w = (cnt + length xs, w') \<and> C w' = C w"
proof (induction xs arbitrary: off cnt w k)
  case Nil
  then have "\<not> off + 3 \<le> sz" by simp
  then show ?case by (simp add: count_records_loop.simps)
next
  case (Cons p xs)
  have p: "wf_packet p" and all: "list_all wf_packet xs" and d: "drop off bs = tcp_record p @ tcp_bytes xs"
    using Cons.prems by simp_all
  obtain r w1 hdr w2 where s: "f_seek F h off w = (r, w1)" "f_read F h 3 w1 = (True, hdr, w2)" "length hdr = 3"
      "hdr_len hdr = length p" "hdr ! 2 = p ! 2" "C w2 = C w" "H w2 h = Some (f, off + 3, a)" "off + 3 + length p \<le> sz"
    using read_header [OF Cons.prems(1,2,4,5) d p Cons.prems(7)] by blast
  have lp: "3 \<le> length p" "length p \<le> 256" using p by (simp_all add: wf_packet_def)
  have d2: "drop (off + 3 + length p) bs = tcp_bytes xs"
    using arg_cong [OF d, of "drop (3 + length p)"] tcp_record_facts(1) [OF p] by (simp add: add.commute add.left_commute)
  have c2: "C w2 f = Some bs" using s(6) Cons.prems(5) by simp
  obtain w' where "count_records_loop F h sz (off + 3 + length p) (cnt + 1) w2 = (cnt + 1 + length xs, w')" "C w' = C w2"
    using Cons.IH [OF Cons.prems(1,2) all s(7) c2 d2 Cons.prems(7)] by blast
  then show ?case
    using s lp by (subst count_records_loop.simps) auto
qed

lemma tcp_peek_loop:
  "flash_laws F C H \<Longrightarrow> flash_reliable F C H \<Longrightarrow> list_all wf_packet xs \<Longrightarrow> i < length xs \<Longrightarrow>
   H w h = Some (f, k, a) \<Longrightarrow> C w f = Some bs \<Longrightarrow> drop off bs = tcp_bytes xs \<Longrightarrow> length bs = sz \<Longrightarrow>
   \<exists>w'. peek_record_loop F h sz i off w =
     (RESULT_SUCCESS, Some (restored_message (queue_tcp_type_to_source_module (xs ! i ! 2)) (xs ! i)), w') \<and> C w' = C w"
proof (induction i arbitrary: xs off w k)
  case 0
  then obtain p ys where xs: "xs = p # ys" by (cases xs) auto
  then have p: "wf_packet p" and d: "drop off bs = tcp_record p @ tcp_bytes ys" using 0 by simp_all
  have "off < sz" using arg_cong [OF d, of length] tcp_record_facts(1) [OF p] 0(8) by simp
  then show ?case
    using read_compact_record [OF 0(1,2,5,6) d p 0(8)] by (auto simp: xs)
next
  case (Suc i)
  then obtain p ys where xs: "xs = p # ys" by (cases xs) auto
  then have p: "wf_packet p" and all: "list_all wf_packet ys" and i: "i < length ys"
    and d: "drop off bs = tcp_record p @ tcp_bytes ys"
    using Suc.prems by simp_all
  obtain r w1 hdr w2 where s: "f_seek F h off w = (r, w1)" "f_read F h 3 w1 = (True, hdr, w2)" "length hdr = 3"
      "hdr_len hdr = length p" "hdr ! 2 = p ! 2" "C w2 = C w" "H w2 h = Some (f, off + 3, a)" "off + 3 + length p \<le> sz"
    using read_header [OF Suc.prems(1,2,5,6) d p Suc.prems(8)] by blast
  have lp: "3 \<le> length p" "length p \<le> 256" using p by (simp_all add: wf_packet_def)
  have d2: "drop (off + 3 + length p) bs = tcp_bytes ys"
    using arg_cong [OF d, of "drop (3 + length p)"] tcp_record_facts(1) [OF p] by (simp add: add.commute add.left_commute)
  have c2: "C w2 f = Some bs" using s(6) Suc.prems(6) by simp
  obtain w' where "peek_record_loop F h sz i (off + 3 + length p) w2 =
     (RESULT_SUCCESS, Some (restored_message (queue_tcp_type_to_source_module (ys ! i ! 2)) (ys ! i)), w')" "C w' = C w2"
    using Suc.IH [OF Suc.prems(1,2) all i s(7) c2 d2 Suc.prems(8)] by blast
  then show ?case using s lp by (auto simp: xs)
qed

lemma tcp_append:
  assumes r: "tcp_rel F C H A cfg q w xs" and st: "tcp_storable A e"
  shows "\<exists>q' w'. queue_file_append F A cfg q e w = (RESULT_SUCCESS, q', w') \<and> same_ring q q' \<and>
    tcp_rel F C H A cfg q' w' ((if clears_size cfg (3 + length (tcp_view A e)) q then [] else xs) @ [tcp_view A e])"
proof -
  let ?f = "overflow_file cfg"
  obtain p n where pl: "queue_tcp_payload_len_from_message (e_message A e) = Some (p, n)" and np: "n \<le> length p"
    and wp: "wf_packet (take n p)"
    using st by (auto simp: tcp_storable_def)
  have L: "flash_laws F C H" and R: "flash_reliable F C H" and tq: "queue_is_tcp_send_q cfg"
    and mx: "259 \<le> qc_max_file_size cfg" and f: "file_rel cfg q (C w ?f) (tcp_bytes xs)"
    using r by (simp_all add: tcp_rel_def)
  have v: "tcp_view A e = take n p" by (simp add: tcp_view_def pl)
  have n3: "3 \<le> n" "n \<le> 256" using wp np by (simp_all add: wf_packet_def)
  have "tcp_type_ok (take n p ! 2)" using wp by (simp only: wf_packet_def)
  moreover have "take n p ! 2 = p ! 2" using n3(1) by simp
  ultimately have ty: "tcp_type_ok (p ! 2)" by simp
  have n: "3 + n \<le> qc_max_file_size cfg" using n3 mx by simp
  let ?u = "if clears_size cfg (3 + n) q then [] else tcp_bytes xs"
  obtain q2 w2 where m: "file_make_room F cfg (3 + n) q w = (q2, w2)" "same_ring q q2" "file_rel cfg q2 (C w2 ?f) ?u"
      "q_file_size q2 + (3 + n) \<le> qc_max_file_size cfg"
    using make_room_spec [OF L R f n] by blast
  obtain h w3 c k where o: "f_open F ?f ''ab+'' w2 = (Some h, w3)" "C w3 ?f = Some c" "H w3 h = Some (?f, k, True)"
    and fin: "\<And>w4 w5 d r. C w4 ?f = Some (c @ d) \<Longrightarrow> d \<noteq> [] \<Longrightarrow> f_close F h w4 = (r, w5) \<Longrightarrow>
       q_file_size q2 + length d \<le> qc_max_file_size cfg \<Longrightarrow>
       file_rel cfg (q2\<lparr>q_file_size := q_file_size q2 + length d\<rparr>) (C w5 ?f) (?u @ d)"
    using append_bytes [OF L R m(3)] by blast
  let ?hdr = "[lo8 n, hi8 n, p ! 2]"
  have "H w3 h \<noteq> None" using o(3) by simp
  from reliable_write [OF R this] obtain w4 where w1: "f_write F h ?hdr w3 = (True, length ?hdr, w4)" by blast
  have c4: "C w4 ?f = Some (c @ ?hdr) \<and> H w4 h = Some (?f, k + length ?hdr, True)"
    using write_spec(2) [OF L w1 o(3,2) TrueI refl] by simp
  then have "H w4 h \<noteq> None" by simp
  from reliable_write [OF R this] obtain w5 where w2: "f_write F h (take n p) w4 = (True, n, w5)" using np
    by (metis length_take min.absorb2)
  have c5: "C w5 ?f = Some (c @ tcp_record (take n p))"
    using write_spec(2) [OF L w2 conjunct2 [OF c4] conjunct1 [OF c4] TrueI] np n3
    by (simp add: tcp_record_def min.absorb2)
  obtain cr w6 where cl: "f_close F h w5 = (cr, w6)" by fastforce
  have lr: "length (tcp_record (take n p)) = 3 + n" using tcp_record_facts(1) [OF wp] np by simp
  have "file_rel cfg (q2\<lparr>q_file_size := q_file_size q2 + (3 + n)\<rparr>) (C w6 ?f) (?u @ tcp_record (take n p))"
    using fin [OF c5 tcp_record_facts(2) [OF wp] cl] m(4) lr by simp
  moreover have "queue_file_append F A cfg q e w = (RESULT_SUCCESS, q2\<lparr>q_file_size := q_file_size q2 + (3 + n)\<rparr>, w6)"
    using tq mx ty w1
    by (simp add: queue_file_append_def queue_has_file_def append_record_size_def pl m(1) o(1)
        file_write_record_def queue_tcp_file_write_compact_record_def w2 cl)
  moreover have "same_ring q (q2\<lparr>q_file_size := q_file_size q2 + (3 + n)\<rparr>)"
    using m(2) by (simp add: same_ring_def)
  moreover have "length (take n p) = n" using np by simp
  ultimately show ?thesis using r wp by (auto simp: tcp_rel_def v)
qed

lemma tcp_read:
  assumes r: "tcp_rel F C H A cfg q w (x # xs)"
  shows "\<exists>e q' w'. queue_file_read F A cfg q w = (RESULT_SUCCESS, Some e, q', w') \<and> same_ring q q' \<and>
    tcp_view A e = x \<and> tcp_rel F C H A cfg q' w' xs"
proof -
  let ?f = "overflow_file cfg" and ?o = "q_file_read_offset q"
  let ?e = "e_of_message A (restored_message (queue_tcp_type_to_source_module (x ! 2)) x)"
  have L: "flash_laws F C H" and R: "flash_reliable F C H" and tq: "queue_is_tcp_send_q cfg" and ab: "msg_abi_ok A"
    and mx: "259 \<le> qc_max_file_size cfg" and f: "file_rel cfg q (C w ?f) (tcp_record x @ tcp_bytes xs)"
    and x: "wf_packet x"
    using r by (simp_all add: tcp_rel_def)
  have hf: "queue_has_file cfg" using mx by (simp add: queue_has_file_def)
  have lr: "length (tcp_record x) = 3 + length x" and ne: "tcp_record x \<noteq> []"
    using tcp_record_facts [OF x] by simp_all
  obtain bs where bs: "C w ?f = Some bs" "length bs = q_file_size q" "tcp_record x @ tcp_bytes xs = drop ?o bs"
    using read_open [OF L R f] ne by auto
  have rd: "\<exists>w2. file_read_record F A cfg h q w1 = (RESULT_SUCCESS, Some ?e, ?o + length (tcp_record x), w2) \<and> C w2 = C w1"
    if c1: "C w1 = C w" and h1: "H w1 h = Some (?f, 0, False)" for h w1
    using read_compact_record [OF L R h1, of bs ?o x "tcp_bytes xs" "q_file_size q"] c1 bs x tq lr
    by (auto simp: file_read_record_def add.assoc)
  obtain q' w' where "queue_file_read F A cfg q w = (RESULT_SUCCESS, Some ?e, q', w')" "same_ring q q'"
      "file_rel cfg q' (C w' ?f) (tcp_bytes xs)"
    using file_read_advance [OF L R hf f ne rd] by blast
  moreover from this(3) have "tcp_rel F C H A cfg q' w' xs" using r by (simp add: tcp_rel_def)
  ultimately show ?thesis using tcp_view_restored [OF ab x] by blast
qed

lemma tcp_opened:
  assumes r: "tcp_rel F C H A cfg q w xs" and ne: "xs \<noteq> []"
  shows "\<exists>h w1 bs. f_open F (overflow_file cfg) ''rb'' w = (Some h, w1) \<and> C w1 = C w \<and>
    C w (overflow_file cfg) = Some bs \<and> H w1 h = Some (overflow_file cfg, 0, False) \<and> length bs = q_file_size q \<and>
    q_file_read_offset q < q_file_size q \<and> tcp_bytes xs = drop (q_file_read_offset q) bs"
proof -
  have "tcp_bytes xs \<noteq> []" using tcp_bytes_Nil r ne by (simp add: tcp_rel_def)
  with read_open [of F C H cfg q w "tcp_bytes xs"] r show ?thesis by (simp add: tcp_rel_def)
qed

lemma tcp_count:
  assumes r: "tcp_rel F C H A cfg q w xs" and ne: "xs \<noteq> []"
  shows "\<exists>w'. file_slot_count F cfg q w = (length xs, w') \<and> tcp_rel F C H A cfg q w' xs"
proof -
  have L: "flash_laws F C H" and R: "flash_reliable F C H" and tq: "queue_is_tcp_send_q cfg"
    and mx: "259 \<le> qc_max_file_size cfg" and all: "list_all wf_packet xs"
    using r by (simp_all add: tcp_rel_def)
  obtain h w1 bs where o: "f_open F (overflow_file cfg) ''rb'' w = (Some h, w1)" "C w1 = C w"
      "C w (overflow_file cfg) = Some bs" "H w1 h = Some (overflow_file cfg, 0, False)" "length bs = q_file_size q"
      "q_file_read_offset q < q_file_size q" "drop (q_file_read_offset q) bs = tcp_bytes xs"
    using tcp_opened [OF r ne] by metis
  have "C w1 (overflow_file cfg) = Some bs" using o(2,3) by simp
  then obtain w2 where l: "count_records_loop F h (q_file_size q) (q_file_read_offset q) 0 w1 = (length xs, w2)" "C w2 = C w1"
    using tcp_count_loop [OF L R all o(4) _ o(7) o(5), of 0] by auto
  obtain cr w3 where cl: "f_close F h w2 = (cr, w3)" by fastforce
  have "C w3 = C w" using close_spec [OF L cl] l(2) o(2) by simp
  moreover have "file_slot_count F cfg q w = (length xs, w3)"
    using tq mx o(6) by (simp add: file_slot_count_def queue_has_file_def queue_tcp_file_count_records_def o(1) l(1) cl)
  ultimately show ?thesis using r by (simp add: tcp_rel_def)
qed

lemma tcp_peek:
  assumes r: "tcp_rel F C H A cfg q w xs" and i: "i < length xs"
  shows "\<exists>e w'. queue_file_peek_element F A cfg q i w = (RESULT_SUCCESS, Some e, w') \<and> tcp_view A e = xs ! i \<and>
    tcp_rel F C H A cfg q w' xs"
proof -
  let ?e = "e_of_message A (restored_message (queue_tcp_type_to_source_module (xs ! i ! 2)) (xs ! i))"
  have L: "flash_laws F C H" and R: "flash_reliable F C H" and tq: "queue_is_tcp_send_q cfg" and ab: "msg_abi_ok A"
    and mx: "259 \<le> qc_max_file_size cfg" and all: "list_all wf_packet xs"
    using r by (simp_all add: tcp_rel_def)
  have ne: "xs \<noteq> []" using i by auto
  obtain h w1 bs where o: "f_open F (overflow_file cfg) ''rb'' w = (Some h, w1)" "C w1 = C w"
      "C w (overflow_file cfg) = Some bs" "H w1 h = Some (overflow_file cfg, 0, False)" "length bs = q_file_size q"
      "q_file_read_offset q < q_file_size q" "drop (q_file_read_offset q) bs = tcp_bytes xs"
    using tcp_opened [OF r ne] by metis
  have "C w1 (overflow_file cfg) = Some bs" using o(2,3) by simp
  then obtain w2 where l: "peek_record_loop F h (q_file_size q) i (q_file_read_offset q) w1 =
      (RESULT_SUCCESS, Some (restored_message (queue_tcp_type_to_source_module (xs ! i ! 2)) (xs ! i)), w2)" "C w2 = C w1"
    using tcp_peek_loop [OF L R all i o(4) _ o(7) o(5)] by blast
  obtain cr w3 where cl: "f_close F h w2 = (cr, w3)" by fastforce
  have "C w3 = C w" using close_spec [OF L cl] l(2) o(2) by simp
  moreover have "queue_file_peek_element F A cfg q i w = (RESULT_SUCCESS, Some ?e, w3)"
    using tq mx o(6) by (simp add: queue_file_peek_element_def queue_has_file_def o(1) l(1) cl)
  moreover have "tcp_view A ?e = xs ! i"
    using tcp_view_restored [OF ab] all i by (simp add: list_all_length)
  ultimately show ?thesis using r by (simp add: tcp_rel_def)
qed

interpretation tcp: overflow_format F A cfg "tcp_rel F C H A cfg" "tcp_view A" "tcp_storable A"
    "\<lambda>q e. clears_size cfg (3 + length (tcp_view A e)) q" for F :: "'w flash" and C H and A :: "'e abi" and cfg
proof
  fix q :: "'e queue" and w xs
  assume r: "tcp_rel F C H A cfg q w xs"
  have hf: "queue_has_file cfg" using r by (auto simp: tcp_rel_def queue_has_file_def)
  show "(queue_has_file cfg \<and> q_file_read_offset q < q_file_size q) = (xs \<noteq> [])"
    using hf r file_rel_unread [of cfg q "C w (overflow_file cfg)" "tcp_bytes xs"] tcp_bytes_Nil [of xs]
    by (auto simp: tcp_rel_def)
  show "tcp_rel F C H A cfg q' w xs" if "same_file q q'" for q'
    using r file_rel_same_file [OF _ that] by (auto simp: tcp_rel_def)
  show "\<exists>q' w'. queue_file_append F A cfg q e w = (RESULT_SUCCESS, q', w') \<and> same_ring q q' \<and>
      tcp_rel F C H A cfg q' w' ((if clears_size cfg (3 + length (tcp_view A e)) q then [] else xs) @ [tcp_view A e])"
    if "tcp_storable A e" for e
    by (rule tcp_append [OF r that])
  show "\<exists>w'. file_slot_count F cfg q w = (length xs, w') \<and> tcp_rel F C H A cfg q w' xs" if "xs \<noteq> []"
    by (rule tcp_count [OF r that])
  show "\<exists>e w'. queue_file_peek_element F A cfg q i w = (RESULT_SUCCESS, Some e, w') \<and> tcp_view A e = xs ! i \<and>
      tcp_rel F C H A cfg q w' xs" if "i < length xs" for i
    by (rule tcp_peek [OF r that])
next
  fix q :: "'e queue" and w x xs
  assume "tcp_rel F C H A cfg q w (x # xs)"
  then show "\<exists>e q' w'. queue_file_read F A cfg q w = (RESULT_SUCCESS, Some e, q', w') \<and> same_ring q q' \<and>
      tcp_view A e = x \<and> tcp_rel F C H A cfg q' w' xs"
    by (rule tcp_read)
qed

subsection \<open>Properties of the queue operations\<close>

text \<open>C14: pushing to the TCP send queue appends. On flash that does not fail, a push succeeds whenever the
  element it may have to move to the overflow file is a valid packet, and the queue then holds the
  packets it held, in order, followed by the new one; only when the file would exceed its limit are
  the packets of the file dropped, and the ring is still kept.\<close>

theorem tcp_queue_push_appends:
  assumes "queue_holds (tcp_rel F C H A cfg) (tcp_view A) cfg q w l"
    and "q_count q = qc_capacity cfg \<longrightarrow> queue_has_file cfg \<and> tcp_storable A (hd (ring_items cfg q))"
  shows "\<exists>q' w'. queue_push F A True cfg q d w = (RESULT_SUCCESS, q', w') \<and>
    queue_holds (tcp_rel F C H A cfg) (tcp_view A) cfg q' w'
      ((if q_count q = qc_capacity cfg \<and> clears_size cfg (3 + length (tcp_view A (hd (ring_items cfg q)))) q
        then drop (length l - q_count q) l else l) @ [tcp_view A d])"
  using assms by (intro tcp.push_fifo) auto

text \<open>C13: peeking a batch and popping it agree. On flash that does not fail, \<open>queue_peek_batch\<close> returns
  the first \<open>n\<close> packets of the TCP send queue (fewer when it holds fewer, \<open>RESULT_NOT_FOUND\<close> when it is
  empty) and removes none, across the boundary between file and ring; a pop after it returns and
  removes exactly those packets.\<close>

theorem tcp_queue_peek_then_pop:
  assumes h: "queue_holds (tcp_rel F C H A cfg) (tcp_view A) cfg q w l" and n: "0 < n"
  shows "\<exists>es w1 es' q' w2. queue_peek_batch F A True cfg n q w = (if l = [] then RESULT_NOT_FOUND else RESULT_SUCCESS, es, w1) \<and>
    map (tcp_view A) es = take n l \<and> queue_holds (tcp_rel F C H A cfg) (tcp_view A) cfg q w1 l \<and>
    queue_pop F A True cfg n q w1 = (if l = [] then RESULT_NOT_FOUND else RESULT_SUCCESS, es', q', w2) \<and>
    map (tcp_view A) es' = take n l \<and> queue_holds (tcp_rel F C H A cfg) (tcp_view A) cfg q' w2 (drop n l)"
proof -
  obtain es w1 where p: "queue_peek_batch F A True cfg n q w = (if l = [] then RESULT_NOT_FOUND else RESULT_SUCCESS, es, w1)"
      "map (tcp_view A) es = take n l" "queue_holds (tcp_rel F C H A cfg) (tcp_view A) cfg q w1 l"
    using tcp.peek_batch_fifo [OF h n] by blast
  with tcp.pop_fifo [OF p(3) n] show ?thesis by blast
qed

text \<open>A queue of messages whose representation is the message itself, for evaluation.\<close>

definition msg_abi :: "module_message abi" where
  "msg_abi = \<lparr>e_bytes = (\<lambda>m. []), e_of_bytes = (\<lambda>bs. restored_message MODULE_ID_COUNT bs), e_message = (\<lambda>m. m), e_of_message = (\<lambda>m. m)\<rparr>"

definition tcp_cfg :: "nat \<Rightarrow> queue_config" where
  "tcp_cfg cap = \<lparr>qc_name = Some ''TCP_SEND_Q'', qc_element_size = 344, qc_capacity = cap, qc_thread_safe = True,
     qc_max_file_size = 1024, qc_persist_on_reboot = True\<rparr>"

definition empty_queue :: "nat \<Rightarrow> 'e \<Rightarrow> 'e queue" where
  "empty_queue cap x = \<lparr>q_head = 0, q_tail = 0, q_count = 0, q_buffer = Some (replicate cap x), q_file_size = 0,
     q_file_read_offset = 0\<rparr>"

definition sample_msg :: module_message where
  "sample_msg = restored_message MODULE_ID_GPS [0x57, 0x45, 0x49]"

lemma empty_tcp_queue:
  "0 < cap \<Longrightarrow> queue_holds (tcp_rel ram_flash rw_files rw_handles msg_abi (tcp_cfg cap)) (tcp_view msg_abi) (tcp_cfg cap)
     (empty_queue cap x) empty_ram []"
  by (simp add: queue_holds_def wf_ring_def empty_queue_def tcp_rel_def ram_laws ram_reliable tcp_cfg_def
      msg_abi_ok_def msg_abi_def queue_is_tcp_send_q_def file_rel_def ring_items_def empty_ram_def)

theorem tcp_queue_push_appends_witness:
  "\<exists>q' w'. queue_push ram_flash msg_abi True (tcp_cfg 1) (empty_queue 1 sample_msg) sample_msg empty_ram = (RESULT_SUCCESS, q', w')"
  using tcp_queue_push_appends [OF empty_tcp_queue [of 1 sample_msg]]
  by (simp add: empty_queue_def tcp_cfg_def) blast

theorem tcp_queue_peek_then_pop_witness:
  "\<exists>es w1. queue_peek_batch ram_flash msg_abi True (tcp_cfg 1) 2 (empty_queue 1 sample_msg) empty_ram = (RESULT_NOT_FOUND, es, w1)"
  using tcp_queue_peek_then_pop [OF empty_tcp_queue [of 1 sample_msg], of 2] by auto

text \<open>a queue with plain fixed-size records is a FIFO with an overflow file: on flash that does not
  fail, every push succeeds and appends (dropping the file's elements only when the file is full), and
  popping \<open>n\<close> returns and removes the first \<open>n\<close> elements, \<open>RESULT_NOT_FOUND\<close> only on an empty queue.\<close>

theorem plain_queue_fifo:
  assumes h: "queue_holds (plain_rel F C H A cfg) (\<lambda>e. e) cfg q w l" and n: "0 < n"
  shows "(\<exists>q' w'. queue_push F A True cfg q d w = (RESULT_SUCCESS, q', w') \<and>
      queue_holds (plain_rel F C H A cfg) (\<lambda>e. e) cfg q' w'
        ((if q_count q = qc_capacity cfg \<and> clears_size cfg (qc_element_size cfg) q then drop (length l - q_count q) l else l) @ [d])) \<and>
    (\<exists>q' w'. queue_pop F A True cfg n q w = (if l = [] then RESULT_NOT_FOUND else RESULT_SUCCESS, take n l, q', w') \<and>
      queue_holds (plain_rel F C H A cfg) (\<lambda>e. e) cfg q' w' (drop n l))"
proof
  have hf: "queue_has_file cfg" using h by (auto simp: queue_holds_def plain_rel_def queue_has_file_def)
  then show "\<exists>q' w'. queue_push F A True cfg q d w = (RESULT_SUCCESS, q', w') \<and>
      queue_holds (plain_rel F C H A cfg) (\<lambda>e. e) cfg q' w'
        ((if q_count q = qc_capacity cfg \<and> clears_size cfg (qc_element_size cfg) q then drop (length l - q_count q) l else l) @ [d])"
    using plain.push_fifo [OF h, of d] by simp
  show "\<exists>q' w'. queue_pop F A True cfg n q w = (if l = [] then RESULT_NOT_FOUND else RESULT_SUCCESS, take n l, q', w') \<and>
      queue_holds (plain_rel F C H A cfg) (\<lambda>e. e) cfg q' w' (drop n l)"
    using plain.pop_fifo [OF h n] by auto
qed

definition byte_abi :: "byte abi" where
  "byte_abi = \<lparr>e_bytes = (\<lambda>b. [b]), e_of_bytes = hd, e_message = (\<lambda>b. sample_msg), e_of_message = (\<lambda>m. 0)\<rparr>"

definition byte_cfg :: "nat \<Rightarrow> nat \<Rightarrow> queue_config" where
  "byte_cfg cap file = \<lparr>qc_name = Some ''GPS_Q'', qc_element_size = 1, qc_capacity = cap, qc_thread_safe = False,
     qc_max_file_size = file, qc_persist_on_reboot = True\<rparr>"

lemma empty_plain_queue:
  "0 < cap \<Longrightarrow> 0 < file \<Longrightarrow> file < 2 ^ 32 \<Longrightarrow>
   queue_holds (plain_rel ram_flash rw_files rw_handles byte_abi (byte_cfg cap file)) (\<lambda>e. e) (byte_cfg cap file)
     (empty_queue cap x) empty_ram []"
  by (simp add: queue_holds_def wf_ring_def empty_queue_def plain_rel_def ram_laws ram_reliable byte_cfg_def
      abi_ok_def byte_abi_def queue_is_tcp_send_q_def file_rel_def ring_items_def empty_ram_def)

theorem plain_queue_fifo_witness:
  "\<exists>q' w'. queue_pop ram_flash byte_abi True (byte_cfg 2 9) 3 (empty_queue 2 0) empty_ram = (RESULT_NOT_FOUND, [], q', w')"
  using plain_queue_fifo [OF empty_plain_queue [of 2 9 0], of 3 5] by auto

text \<open>Without a file: pushing, and reading at both ends.\<close>

lemma ring_push_no_file:
  assumes wf: "wf_ring cfg q" and nf: "\<not> queue_has_file cfg"
  shows "if q_count q < qc_capacity cfg
     then \<exists>q'. queue_push F A True cfg q d w = (RESULT_SUCCESS, q', w) \<and> wf_ring cfg q' \<and>
            ring_items cfg q' = ring_items cfg q @ [d]
     else queue_push F A True cfg q d w = (RESULT_BUSY, q, w)"
proof (cases "q_count q < qc_capacity cfg")
  case True
  note no_file.push_room [where F = F and A = A and d = d and w = w, OF wf conjI [OF nf refl] True]
  with True show ?thesis by auto
next
  case False
  then have full: "q_count q = qc_capacity cfg" using wf by (auto simp: wf_ring_def)
  with no_file.push_busy [where F = F and A = A and d = d and w = w, OF wf full nf] show ?thesis by simp
qed

lemma ring_peek_and_tail:
  assumes wf: "wf_ring cfg q"
  shows "if q_count q = 0
     then queue_peek True cfg q = (RESULT_NOT_FOUND, None) \<and> queue_pop_tail True cfg q = (RESULT_NOT_FOUND, None, q)
     else queue_peek True cfg q = (RESULT_SUCCESS, Some (hd (ring_items cfg q))) \<and>
       (\<exists>q'. queue_pop_tail True cfg q = (RESULT_SUCCESS, Some (last (ring_items cfg q)), q') \<and> wf_ring cfg q' \<and>
             ring_items cfg q' = butlast (ring_items cfg q))"
proof -
  obtain buf where buf: "q_buffer q = Some buf" using wf by (auto simp: wf_ring_def)
  note idx = wf_ring_indices [OF wf]
  let ?cap = "qc_capacity cfg"
  show ?thesis
  proof (cases "q_count q = 0")
    case True
    then show ?thesis using idx buf by (simp add: queue_peek_def queue_pop_tail_def queue_copy_tail_locked_def)
  next
    case False
    then obtain m where m: "q_count q = Suc m" by (cases "q_count q") auto
    then have pos: "0 < q_count q" by simp
    let ?q = "q\<lparr>q_tail := (q_tail q + ?cap - 1) mod ?cap, q_count := q_count q - 1\<rparr>"
    have tail: "q_tail q < ?cap" using idx by (simp add: bad_indices_def)
    have "(q_tail q + ?cap - 1) mod ?cap = (q_head q + m) mod ?cap"
    proof -
      have "(q_tail q + ?cap - 1) mod ?cap = ((q_head q + Suc m) mod ?cap + (?cap - 1)) mod ?cap"
        using idx wf m by (simp add: wf_ring_def)
      also have "\<dots> = (q_head q + Suc m + (?cap - 1)) mod ?cap" by (rule mod_add_left_eq)
      also have "q_head q + Suc m + (?cap - 1) = q_head q + m + ?cap" using idx by simp
      finally show ?thesis by simp
    qed
    then have "wf_ring cfg ?q" using wf m by (simp add: wf_ring_def)
    moreover have "ring_items cfg ?q = butlast (ring_items cfg q)" by (simp add: ring_items_def m)
    moreover have "queue_pop_tail True cfg q = (RESULT_SUCCESS, Some (last (ring_items cfg q)), ?q)"
      using pos tail buf ring_items_last [OF wf pos] by (simp add: queue_pop_tail_def queue_copy_tail_locked_def)
    moreover have "queue_peek True cfg q = (RESULT_SUCCESS, Some (hd (ring_items cfg q)))"
      using pos idx buf ring_drop_items(3) [OF wf pos] by (simp add: queue_peek_def)
    ultimately show ?thesis using False by auto
  qed
qed

text \<open>a queue without an overflow file is a bounded FIFO in memory: a push appends while there is
  room and is refused with \<open>RESULT_BUSY\<close>, changing nothing, exactly when the ring is full; \<open>peek\<close>
  reads the first element, \<open>pop\<close> removes from the front and \<open>pop_tail\<close> the last pushed element.\<close>

theorem ring_queue_operations:
  assumes wf: "wf_ring cfg q" and nf: "\<not> queue_has_file cfg" and n: "0 < n"
  shows "(if q_count q < qc_capacity cfg
     then \<exists>q'. queue_push F A True cfg q d w = (RESULT_SUCCESS, q', w) \<and> wf_ring cfg q' \<and>
            ring_items cfg q' = ring_items cfg q @ [d]
     else queue_push F A True cfg q d w = (RESULT_BUSY, q, w)) \<and>
    (\<exists>q' w'. queue_pop F A True cfg n q w =
        (if ring_items cfg q = [] then RESULT_NOT_FOUND else RESULT_SUCCESS, take n (ring_items cfg q), q', w') \<and>
       wf_ring cfg q' \<and> ring_items cfg q' = drop n (ring_items cfg q)) \<and>
    (if q_count q = 0
     then queue_peek True cfg q = (RESULT_NOT_FOUND, None) \<and> queue_pop_tail True cfg q = (RESULT_NOT_FOUND, None, q)
     else queue_peek True cfg q = (RESULT_SUCCESS, Some (hd (ring_items cfg q))) \<and>
       (\<exists>q'. queue_pop_tail True cfg q = (RESULT_SUCCESS, Some (last (ring_items cfg q)), q') \<and> wf_ring cfg q' \<and>
             ring_items cfg q' = butlast (ring_items cfg q)))"
proof (intro conjI ring_push_no_file [OF wf nf] ring_peek_and_tail [OF wf])
  have h: "queue_holds (\<lambda>q w xs. \<not> queue_has_file cfg \<and> xs = []) (\<lambda>e. e) cfg q w (ring_items cfg q)"
    using wf nf by (simp add: queue_holds_def)
  show "\<exists>q' w'. queue_pop F A True cfg n q w =
        (if ring_items cfg q = [] then RESULT_NOT_FOUND else RESULT_SUCCESS, take n (ring_items cfg q), q', w') \<and>
       wf_ring cfg q' \<and> ring_items cfg q' = drop n (ring_items cfg q)"
    using no_file.pop_fifo [OF h n, of F A] by (auto simp: queue_holds_def)
qed

theorem ring_queue_operations_witness:
  "queue_push ram_flash byte_abi True (byte_cfg 1 0) ((empty_queue 1 7)\<lparr>q_count := 1\<rparr>) 5 empty_ram =
     (RESULT_BUSY, (empty_queue 1 7)\<lparr>q_count := 1\<rparr>, empty_ram)"
  using ring_queue_operations [of "byte_cfg 1 0" "(empty_queue 1 7)\<lparr>q_count := 1\<rparr>" 1 ram_flash byte_abi 5 empty_ram]
  by (simp add: wf_ring_def byte_cfg_def empty_queue_def queue_has_file_def)

text \<open>C15: head-of-line blocking. When the ring of the TCP send queue is full and its oldest element is a
  packet of a type the overflow file does not take (type 39, the binary command response, among them),
  every push fails with \<open>RESULT_ERROR\<close> and the ring stays full with the same head, whatever the flash
  does: the next push fails the same way.\<close>

theorem tcp_queue_push_blocked:
  assumes wf: "wf_ring cfg q" and full: "q_count q = qc_capacity cfg" and tq: "queue_is_tcp_send_q cfg"
    and hf: "queue_has_file cfg"
    and pl: "queue_tcp_payload_len_from_message (e_message A (hd (ring_items cfg q))) = Some (p, n)"
    and ty: "\<not> tcp_type_ok (p ! 2)"
  shows "\<exists>q' w'. queue_push F A True cfg q d w = (RESULT_ERROR, q', w') \<and> same_ring q q'"
proof -
  obtain buf where b: "q_buffer q = Some buf" using wf by (auto simp: wf_ring_def)
  have pos: "0 < q_count q" using wf_ring_indices [OF wf] full by simp
  have hd: "hd (ring_items cfg q) = buf ! q_head q" using ring_drop_items(3) [OF wf pos] b by simp
  obtain q2 w2 where m: "file_make_room F cfg (3 + n) q w = (q2, w2)" by fastforce
  then have sr: "same_ring q q2"
    by (auto simp: file_make_room_def same_ring_def Let_def split: if_splits prod.splits)
  have wr: "\<exists>w'. file_write_record F A cfg h (buf ! q_head q) v = (RESULT_INVALID_PARAM, 0, w')" for h v
    using tq pl ty hd by (simp add: file_write_record_def queue_tcp_file_write_compact_record_def)
  have "\<exists>w'. queue_file_append F A cfg q (buf ! q_head q) w = (RESULT_ERROR, q2, w')"
  proof -
    obtain fp w3 where o: "f_open F (overflow_file cfg) ''ab+'' w2 = (fp, w3)" by fastforce
    show ?thesis
    proof (cases fp)
      case None
      then show ?thesis using tq hf pl hd by (simp add: queue_file_append_def append_record_size_def m o)
    next
      case (Some h)
      obtain w4 where w4: "file_write_record F A cfg h (buf ! q_head q) w3 = (RESULT_INVALID_PARAM, 0, w4)" using wr by blast
      then show ?thesis
        using tq hf pl hd by (simp add: queue_file_append_def append_record_size_def m o Some split: prod.split)
    qed
  qed
  then show ?thesis
    using wf_ring_indices [OF wf] full hf b sr by (auto simp: queue_push_def result_is_error_def)
qed

definition type39_msg :: module_message where
  "type39_msg = restored_message MODULE_ID_CMD [0x57, 0x45, 39]"

theorem tcp_queue_push_blocked_witness:
  "\<exists>q' w'. queue_push ram_flash msg_abi True (tcp_cfg 1) ((empty_queue 1 type39_msg)\<lparr>q_count := 1\<rparr>) sample_msg empty_ram =
     (RESULT_ERROR, q', w')"
  using tcp_queue_push_blocked [of "tcp_cfg 1" "(empty_queue 1 type39_msg)\<lparr>q_count := 1\<rparr>" msg_abi
      "[0x57, 0x45, 39] @ replicate 253 0" 3 ram_flash sample_msg empty_ram]
  by (auto simp: wf_ring_def tcp_cfg_def empty_queue_def queue_is_tcp_send_q_def queue_has_file_def msg_abi_def
      ring_items_def type39_msg_def restored_message_def queue_tcp_payload_len_from_message_def
      module_message_payload_def tcp_type_ok_def GPS_PACKET_TYPE_def BLE_PACKET_TYPE_def TCP_CMD_RESP_PACKET_TYPE_def)

end
