(* ===== verification/Queue_Snapshot.thy ===== *)
theory Queue_Snapshot
  imports Queue_Fifo
begin

text \<open>
  Queues across a reboot: what \<open>queue_manager_persist\<close> leaves on flash (the snapshot of the ring and, for
  the TCP send queue, the read offset of its overflow file in the pre-boot record) and what
  \<open>queue_manager_create\<close> makes of it in the next boot.
\<close>

subsection \<open>The snapshot of the ring\<close>

text \<open>Writing at the end of a file and reading on from a position.\<close>

lemma write_end:
  assumes L: "flash_laws F C H" and R: "flash_reliable F C H" and h: "H w h = Some (f, length c, False)" and c: "C w f = Some c"
  shows "\<exists>w'. f_write F h d w = (True, length d, w') \<and> C w' = (C w)(f \<mapsto> c @ d) \<and> H w' h = Some (f, length (c @ d), False)"
proof -
  have "H w h \<noteq> None" using h by simp
  from reliable_write [OF R this] obtain w' where w: "f_write F h d w = (True, length d, w')" by blast
  with write_spec [OF L w h c] show ?thesis by (auto simp: fun_eq_iff)
qed

lemma write_u32_end:
  assumes "flash_laws F C H" and "flash_reliable F C H" and "H w h = Some (f, length c, False)" and "C w f = Some c"
  shows "\<exists>w'. write_u32 F h v w = (True, w') \<and> C w' = (C w)(f \<mapsto> c @ le32_bytes v) \<and>
    H w' h = Some (f, length (c @ le32_bytes v), False)"
  using write_end [OF assms, of "le32_bytes v"] by (auto simp: write_u32_def)

definition ring_seg :: "queue_config \<Rightarrow> 'e list \<Rightarrow> nat \<Rightarrow> nat \<Rightarrow> 'e list" where
  "ring_seg cfg buf idx n = map (\<lambda>i. buf ! ((idx + i) mod qc_capacity cfg)) [0..<n]"

lemma ring_seg_Suc:
  assumes "idx < qc_capacity cfg"
  shows "ring_seg cfg buf idx (Suc n) = buf ! idx # ring_seg cfg buf ((idx + 1) mod qc_capacity cfg) n"
proof -
  have "[0..<Suc n] = 0 # map Suc [0..<n]" by (simp add: map_Suc_upt upt_conv_Cons)
  then show ?thesis using assms by (simp add: ring_seg_def mod_simps del: upt_Suc)
qed

lemma save_elements_end:
  "flash_laws F C H \<Longrightarrow> flash_reliable F C H \<Longrightarrow> \<forall>e \<in> set (ring_seg cfg buf idx n). abi_elem A (qc_element_size cfg) e \<Longrightarrow>
   idx < qc_capacity cfg \<Longrightarrow> H w h = Some (f, length c, False) \<Longrightarrow> C w f = Some c \<Longrightarrow>
   \<exists>w'. save_elements F A cfg h buf idx n w = (True, w') \<and>
     C w' = (C w)(f \<mapsto> c @ plain_bytes A (ring_seg cfg buf idx n))"
proof (induction n arbitrary: idx w c)
  case 0
  then show ?case by (auto simp: ring_seg_def fun_eq_iff)
next
  case (Suc n)
  let ?d = "e_bytes A (buf ! idx)" and ?i = "(idx + 1) mod qc_capacity cfg"
  obtain w1 where w1: "f_write F h ?d w = (True, length ?d, w1)" "C w1 = (C w)(f \<mapsto> c @ ?d)"
      "H w1 h = Some (f, length (c @ ?d), False)"
    using write_end [OF Suc.prems(1,2,5,6)] by blast
  have i: "?i < qc_capacity cfg" using Suc.prems(4) by simp
  have ab: "\<forall>e \<in> set (ring_seg cfg buf ?i n). abi_elem A (qc_element_size cfg) e" and "abi_elem A (qc_element_size cfg) (buf ! idx)"
    using Suc.prems(3) by (simp_all add: ring_seg_Suc [OF Suc.prems(4)])
  then have "length ?d = qc_element_size cfg" by (simp add: abi_elem_def)
  moreover have "C w1 f = Some (c @ ?d)" using w1(2) by simp
  then obtain w' where w': "save_elements F A cfg h buf ?i n w1 = (True, w')"
      "C w' = (C w1)(f \<mapsto> (c @ ?d) @ plain_bytes A (ring_seg cfg buf ?i n))"
    using Suc.IH [OF Suc.prems(1,2) ab i w1(3)] by blast
  ultimately show ?case using w1(1,2) w' by (simp add: ring_seg_Suc [OF Suc.prems(4)] fun_eq_iff)
qed

lemma read_part:
  assumes L: "flash_laws F C H" and R: "flash_reliable F C H" and h: "H w h = Some (f, length p, a)"
    and c: "C w f = Some (p @ d @ t)"
  shows "\<exists>w'. f_read F h (length d) w = (True, d, w') \<and> C w' = C w \<and> H w' h = Some (f, length (p @ d), a)"
  using reliable_read [OF L R h c, of "length d"] by auto

lemma read_u32_part:
  assumes "flash_laws F C H" and "flash_reliable F C H" and "H w h = Some (f, length p, a)"
    and "C w f = Some (p @ le32_bytes v @ t)" and "v < 2 ^ 32"
  shows "\<exists>w'. read_u32 F h w = (Some v, w') \<and> C w' = C w \<and> H w' h = Some (f, length (p @ le32_bytes v), a)"
  using read_part [OF assms(1-4)] le32_le32_bytes [of v "[]"] assms(5) by (auto simp: read_u32_def)

lemma load_elements_part:
  "flash_laws F C H \<Longrightarrow> flash_reliable F C H \<Longrightarrow> \<forall>e \<in> set xs. abi_elem A (qc_element_size cfg) e \<Longrightarrow> idx < qc_capacity cfg \<Longrightarrow>
   length buf = qc_capacity cfg \<Longrightarrow> length xs \<le> qc_capacity cfg \<Longrightarrow>
   H w h = Some (f, length p, a) \<Longrightarrow> C w f = Some (p @ plain_bytes A xs) \<Longrightarrow>
   \<exists>buf' w'. load_elements F A cfg h buf idx (length xs) w = (True, buf', w') \<and> C w' = C w \<and>
     length buf' = qc_capacity cfg \<and> ring_seg cfg buf' idx (length xs) = xs \<and>
     (\<forall>j < qc_capacity cfg. (\<forall>i < length xs. j \<noteq> (idx + i) mod qc_capacity cfg) \<longrightarrow> buf' ! j = buf ! j)"
proof (induction xs arbitrary: idx buf w p)
  case Nil
  then show ?case by (simp add: ring_seg_def)
next
  case (Cons x xs)
  let ?cap = "qc_capacity cfg" and ?n = "qc_element_size cfg" and ?i = "(idx + 1) mod qc_capacity cfg"
  have le: "length (e_bytes A x) = ?n" "e_of_bytes A (e_bytes A x) = x" using Cons.prems(3) by (simp_all add: abi_elem_def)
  have c: "C w f = Some (p @ e_bytes A x @ plain_bytes A xs)" using Cons.prems(8) by simp
  obtain w1 where w1: "f_read F h ?n w = (True, e_bytes A x, w1)" "C w1 = C w" "H w1 h = Some (f, length (p @ e_bytes A x), a)"
    using read_part [OF Cons.prems(1,2,7) c] le by auto
  have i: "?i < ?cap" and l: "length (buf[idx := x]) = ?cap" "length xs \<le> ?cap" using Cons.prems by simp_all
  have c1: "C w1 f = Some ((p @ e_bytes A x) @ plain_bytes A xs)" using w1(2) c by simp
  obtain buf' w' where b: "load_elements F A cfg h (buf[idx := x]) ?i (length xs) w1 = (True, buf', w')" "C w' = C w1"
      "length buf' = ?cap" "ring_seg cfg buf' ?i (length xs) = xs"
      "\<And>j. j < ?cap \<Longrightarrow> \<forall>i < length xs. j \<noteq> (?i + i) mod ?cap \<Longrightarrow> buf' ! j = buf[idx := x] ! j"
    using Cons.IH [OF Cons.prems(1,2) _ i l w1(3) c1] Cons.prems(3) by auto
  have shift: "(?i + k) mod ?cap = (idx + Suc k) mod ?cap" for k by (simp add: mod_simps)
  have apart: "idx \<noteq> (idx + Suc k) mod ?cap" if "k < length xs" for k
    using mod_add_inj [of 0 ?cap "Suc k" idx] that Cons.prems(4,6) by auto
  have "\<forall>i < length xs. idx \<noteq> (?i + i) mod ?cap" unfolding shift using apart by blast
  then have "buf' ! idx = x"
    using b(5) [OF Cons.prems(4)] Cons.prems(4,5) by simp
  then have "ring_seg cfg buf' idx (length (x # xs)) = x # xs"
    using b(4) Cons.prems(4) by (simp add: ring_seg_Suc)
  moreover have "buf' ! j = buf ! j" if j: "j < ?cap" "\<forall>i < length (x # xs). j \<noteq> (idx + i) mod ?cap" for j
  proof -
    have "j \<noteq> idx" using j(2) Cons.prems(4) by (metis add_0_right length_greater_0_conv list.distinct(1) mod_less)
    moreover have "\<forall>i < length xs. j \<noteq> (?i + i) mod ?cap" unfolding shift
    proof (intro allI impI)
      fix i
      assume "i < length xs"
      then have "Suc i < length (x # xs)" by simp
      with j(2) show "j \<noteq> (idx + Suc i) mod ?cap" by blast
    qed
    ultimately show ?thesis using b(5) [OF j(1)] by simp
  qed
  ultimately show ?case using b(1-3) w1(1,2) le by simp
qed

definition snapshot_bytes :: "'e abi \<Rightarrow> queue_config \<Rightarrow> 'e queue \<Rightarrow> bytes" where
  "snapshot_bytes A cfg q = le32_bytes (q_count q) @ le32_bytes (q_head q) @ le32_bytes (q_tail q) @ plain_bytes A (ring_items cfg q)"

lemma persist_save_spec:
  assumes L: "flash_laws F C H" and R: "flash_reliable F C H" and ab: "\<forall>e \<in> set (ring_items cfg q). abi_elem A (qc_element_size cfg) e"
    and wf: "wf_ring cfg q" and p: "qc_persist_on_reboot cfg"
  shows "\<exists>w'. queue_persist_save F A cfg q w = (RESULT_SUCCESS, w') \<and> C w' = (C w)(snapshot_file cfg \<mapsto> snapshot_bytes A cfg q)"
proof -
  let ?f = "snapshot_file cfg" and ?cap = "qc_capacity cfg"
  obtain buf where buf: "q_buffer q = Some buf" and h: "q_head q < ?cap"
    using wf by (auto simp: wf_ring_def)
  have items: "ring_items cfg q = ring_seg cfg buf (q_head q) (q_count q)"
    by (simp add: ring_items_def ring_seg_def buf)
  let ?c1 = "le32_bytes (q_count q)" and ?c2 = "le32_bytes (q_head q)" and ?c3 = "le32_bytes (q_tail q)"
  obtain hd w1 where o: "f_open F ?f ''wb'' w = (Some hd, w1)" using reliable_open [OF R, of "''wb''" w ?f] by auto
  have s0: "H w1 hd = Some (?f, length [], False)" "C w1 ?f = Some []" "C w1 = (C w)(?f \<mapsto> [])"
    using open_wb(2) [OF L o _ refl] by simp_all
  obtain w2 where w2: "write_u32 F hd (q_count q) w1 = (True, w2)" "C w2 = (C w1)(?f \<mapsto> [] @ ?c1)" "H w2 hd = Some (?f, length ([] @ ?c1), False)"
    using write_u32_end [OF L R s0(1,2)] by blast
  then have m2: "C w2 ?f = Some ([] @ ?c1)" by simp
  obtain w3 where w3: "write_u32 F hd (q_head q) w2 = (True, w3)" "C w3 = (C w2)(?f \<mapsto> ([] @ ?c1) @ ?c2)" "H w3 hd = Some (?f, length (([] @ ?c1) @ ?c2), False)"
    using write_u32_end [OF L R w2(3) m2] by blast
  then have m3: "C w3 ?f = Some (([] @ ?c1) @ ?c2)" by simp
  obtain w4 where w4: "write_u32 F hd (q_tail q) w3 = (True, w4)" "C w4 = (C w3)(?f \<mapsto> (([] @ ?c1) @ ?c2) @ ?c3)" "H w4 hd = Some (?f, length ((([] @ ?c1) @ ?c2) @ ?c3), False)"
    using write_u32_end [OF L R w3(3) m3] by blast
  then have m4: "C w4 ?f = Some ((([] @ ?c1) @ ?c2) @ ?c3)" by simp
  obtain w5 where w5: "save_elements F A cfg hd buf (q_head q) (q_count q) w4 = (True, w5)"
      "C w5 = (C w4)(?f \<mapsto> ((([] @ ?c1) @ ?c2) @ ?c3) @ plain_bytes A (ring_items cfg q))"
    using save_elements_end [OF L R ab [unfolded items] h w4(3) m4] items by metis
  obtain cr w6 where cl: "f_close F hd w5 = (cr, w6)" by fastforce
  have "C w6 = (C w)(?f \<mapsto> snapshot_bytes A cfg q)"
    using close_spec [OF L cl] w5(2) w4(2) w3(2) w2(2) s0(3) by (simp add: snapshot_bytes_def)
  moreover have "queue_persist_save F A cfg q w = (RESULT_SUCCESS, w6)"
    using p buf by (simp add: queue_persist_save_def o w2(1) w3(1) w4(1) w5(1) cl)
  ultimately show ?thesis by blast
qed

lemma persist_load_spec:
  assumes L: "flash_laws F C H" and R: "flash_reliable F C H" and ab: "\<forall>e \<in> set (ring_items cfg q). abi_elem A (qc_element_size cfg) e"
    and wf: "wf_ring cfg q" and p: "qc_persist_on_reboot cfg" and cap: "qc_capacity cfg < 2 ^ 32"
    and fresh: "q_buffer q0 = Some junk" "length junk = qc_capacity cfg"
    and saved: "C w6 (snapshot_file cfg) = Some (snapshot_bytes A cfg q)"
  shows "\<exists>b w'. queue_persist_load F A cfg q0 w6 =
      (RESULT_SUCCESS, q0\<lparr>q_count := q_count q, q_head := q_head q, q_tail := q_tail q, q_buffer := Some b\<rparr>, w') \<and> C w' = C w6 \<and>
    wf_ring cfg (q0\<lparr>q_count := q_count q, q_head := q_head q, q_tail := q_tail q, q_buffer := Some b\<rparr>) \<and>
    ring_items cfg (q0\<lparr>q_count := q_count q, q_head := q_head q, q_tail := q_tail q, q_buffer := Some b\<rparr>) = ring_items cfg q"
proof -
  let ?f = "snapshot_file cfg" and ?cap = "qc_capacity cfg" and ?xs = "ring_items cfg q"
  let ?c1 = "le32_bytes (q_count q)" and ?c2 = "le32_bytes (q_head q)" and ?c3 = "le32_bytes (q_tail q)"
  have h: "q_head q < ?cap" "q_count q \<le> ?cap" "q_tail q < ?cap"
    using wf wf_ring_indices [OF wf] by (auto simp: wf_ring_def bad_indices_def not_le)
  obtain ld v1 where o2: "f_open F ?f ''rb'' w6 = (Some ld, v1)"
    using reliable_open [OF R, of "''rb''" w6 ?f] saved by auto
  have l0: "H v1 ld = Some (?f, length [], False)" "C v1 ?f = Some ([] @ ?c1 @ ?c2 @ ?c3 @ plain_bytes A ?xs)"
    using open_rb(2) [OF L o2 refl] saved by (auto simp: snapshot_bytes_def)
  obtain v2 where v2: "read_u32 F ld v1 = (Some (q_count q), v2)" "C v2 = C v1" "H v2 ld = Some (?f, length ([] @ ?c1), False)"
    using read_u32_part [OF L R l0(1,2)] h(2) cap by auto
  have m2: "C v2 ?f = Some (([] @ ?c1) @ ?c2 @ ?c3 @ plain_bytes A ?xs)" using v2(2) l0(2) by simp
  obtain v3 where v3: "read_u32 F ld v2 = (Some (q_head q), v3)" "C v3 = C v2" "H v3 ld = Some (?f, length (([] @ ?c1) @ ?c2), False)"
    using read_u32_part [OF L R v2(3) m2] h(1) cap by auto
  have m3: "C v3 ?f = Some ((([] @ ?c1) @ ?c2) @ ?c3 @ plain_bytes A ?xs)" using v3(2) m2 by simp
  obtain v4 where v4: "read_u32 F ld v3 = (Some (q_tail q), v4)" "C v4 = C v3" "H v4 ld = Some (?f, length ((([] @ ?c1) @ ?c2) @ ?c3), False)"
    using read_u32_part [OF L R v3(3) m3] h(3) cap by auto
  have m4: "C v4 ?f = Some (((([] @ ?c1) @ ?c2) @ ?c3) @ plain_bytes A ?xs)" using v4(2) m3 by simp
  have lx: "length ?xs = q_count q" "length ?xs \<le> ?cap" using h(2) by simp_all
  obtain b v5 where b: "load_elements F A cfg ld junk (q_head q) (length ?xs) v4 = (True, b, v5)"
      "length b = ?cap" "ring_seg cfg b (q_head q) (length ?xs) = ?xs" "C v5 = C v4"
    using load_elements_part [OF L R ab h(1) fresh(2) lx(2) v4(3) m4] by blast
  obtain cr2 v6 where cl2: "f_close F ld v5 = (cr2, v6)" by fastforce
  let ?q1 = "q0\<lparr>q_count := q_count q, q_head := q_head q, q_tail := q_tail q, q_buffer := Some b\<rparr>"
  have "queue_persist_load F A cfg q0 w6 = (RESULT_SUCCESS, ?q1, v6)"
    using p h fresh(1) b(1) by (simp add: queue_persist_load_def o2 v2(1) v3(1) v4(1) cl2)
  moreover have "wf_ring cfg ?q1" using wf b(2) by (simp add: wf_ring_def)
  moreover have "ring_items cfg ?q1 = ring_items cfg q"
    using b(3) by (simp add: ring_items_def [of cfg ?q1] ring_seg_def)
  moreover have "C v6 = C w6"
    using close_spec [OF L cl2] b(4) v4(2) v3(2) v2(2) open_rb(1) [OF L o2] by simp
  ultimately show ?thesis by blast
qed

text \<open>The reboot snapshot restores the ring. On flash that does not fail, saving any well-formed ring
  and loading it after a reboot into a fresh buffer, whatever that buffer holds, gives a well-formed
  ring with the same elements in the same order.\<close>

theorem queue_snapshot_roundtrip:
  assumes L: "flash_laws F C H" and R: "flash_reliable F C H"
    and ab: "\<forall>e \<in> set (ring_items cfg q). abi_elem A (qc_element_size cfg) e"
    and wf: "wf_ring cfg q" and p: "qc_persist_on_reboot cfg" and cap: "qc_capacity cfg < 2 ^ 32"
    and fresh: "q_buffer q0 = Some junk" "length junk = qc_capacity cfg"
  shows "\<exists>w1 q1 w2. queue_persist_save F A cfg q w = (RESULT_SUCCESS, w1) \<and>
    queue_persist_load F A cfg q0 w1 = (RESULT_SUCCESS, q1, w2) \<and> wf_ring cfg q1 \<and>
    ring_items cfg q1 = ring_items cfg q"
proof -
  obtain w1 where "queue_persist_save F A cfg q w = (RESULT_SUCCESS, w1)" "C w1 (snapshot_file cfg) = Some (snapshot_bytes A cfg q)"
    using persist_save_spec [OF L R ab wf p, of w] by auto
  with persist_load_spec [OF L R ab wf p cap fresh] show ?thesis by blast
qed

theorem queue_snapshot_roundtrip_witness:
  "\<exists>w1. queue_persist_save ram_flash byte_abi (byte_cfg 2 9) (empty_queue 2 0) empty_ram = (RESULT_SUCCESS, w1)"
proof -
  have "\<forall>e \<in> set (ring_items (byte_cfg 2 9) (empty_queue 2 0)). abi_elem byte_abi (qc_element_size (byte_cfg 2 9)) e"
    by (simp add: abi_elem_def byte_abi_def byte_cfg_def)
  moreover have "wf_ring (byte_cfg 2 9) (empty_queue 2 0)" by (simp add: wf_ring_def byte_cfg_def empty_queue_def)
  moreover have "q_buffer (empty_queue 2 1) = Some (replicate 2 (1 :: byte))" by (simp add: empty_queue_def)
  ultimately show ?thesis
    using queue_snapshot_roundtrip [OF ram_laws ram_reliable, of "byte_cfg 2 9" "empty_queue 2 0" byte_abi
      "empty_queue 2 1" "replicate 2 1" empty_ram]
    by (auto simp: byte_cfg_def)
qed


subsection \<open>The TCP send queue across a reboot\<close>

lemma tcp_paths:
  assumes "queue_is_tcp_send_q cfg"
  shows "overflow_file cfg \<noteq> snapshot_file cfg" "overflow_file cfg \<noteq> PRE_BOOT_INFO_FILE_PATH"
    "snapshot_file cfg \<noteq> PRE_BOOT_INFO_FILE_PATH"
  using assms by (simp_all add: queue_is_tcp_send_q_def overflow_file_def snapshot_file_def queue_make_filename_def
      PRE_BOOT_INFO_FILE_PATH_def)

text \<open>The record that \<open>queue_manager_persist\<close> leaves in the pre-boot file.\<close>

definition offset_record :: "'e queue \<Rightarrow> pre_boot \<Rightarrow> pre_boot_on_disk" where
  "offset_record q pb =
     (if q_file_size q = 0 then disk_clear_tcp_offset (staged_from_cache pb)
      else (staged_from_cache pb)\<lparr>pb_offset := q_file_read_offset q, pb_offset_valid := 1\<rparr>)"

lemma offset_record_wf:
  assumes "pb_inv pb" and "q_file_size q < 2 ^ 32" and "q_file_size q \<noteq> 0 \<longrightarrow> q_file_read_offset q < q_file_size q"
  shows "wf_disk (offset_record q pb) \<and> disk_header_ok (offset_record q pb)"
  using staged_wf [OF assms(1)] disk_clear_tcp_offset_wf [of "staged_from_cache pb"] assms(2,3)
  by (auto simp: offset_record_def wf_disk_def disk_header_ok_def)

lemma persist_offset_spec:
  assumes L: "flash_laws F C H" and R: "flash_reliable F C H" and inv: "pb_inv pb" and tq: "queue_is_tcp_send_q cfg"
    and sz: "q_file_size q < 2 ^ 32" and off: "q_file_size q \<noteq> 0 \<longrightarrow> q_file_read_offset q < q_file_size q"
  shows "\<exists>pb' w'. queue_tcp_persist_file_offset F cfg q pb w = (RESULT_SUCCESS, pb', w') \<and>
    C w' = (C w)(PRE_BOOT_INFO_FILE_PATH \<mapsto> disk_bytes (offset_record q pb))"
proof -
  have "queue_tcp_persist_file_offset F cfg q pb w = disk_store F (offset_record q pb) pb w"
    using tq off by (cases "q_file_size q = 0") (simp_all add: queue_tcp_persist_file_offset_def offset_record_def
        not_le [symmetric] pre_boot_handler_clear_tcp_send_queue_offset_def pre_boot_handler_save_tcp_send_queue_offset_def)
  with reliable_store [OF L R conjunct1 [OF offset_record_wf [OF inv sz off]], of pb w] show ?thesis by auto
qed

text \<open>Restoring the overflow file after the boot: an empty one is removed, any other is taken over with
  the offset of the record.\<close>

lemma file_restore_empty:
  assumes L: "flash_laws F C H" and R: "flash_reliable F C H" and hf: "queue_has_file cfg"
    and c: "C w (overflow_file cfg) = None \<or> C w (overflow_file cfg) = Some []"
  shows "\<exists>w'. queue_file_restore F cfg q pb w = (RESULT_SUCCESS, q, pb, w') \<and> C w' (overflow_file cfg) = None"
proof -
  let ?f = "overflow_file cfg"
  obtain ex w1 where ex: "f_exists F ?f w = (ex, w1)" by fastforce
  have C1: "C w1 = C w" using exists_spec [OF L ex] .
  show ?thesis
  proof (cases "C w ?f")
    case None
    then have "\<not> ex" using exists_true [OF L] ex by (cases ex) auto
    then show ?thesis using hf ex C1 None by (simp add: queue_file_restore_def)
  next
    case (Some bs)
    then have e: "f_exists F ?f w = (True, w1)" using reliable_exists [OF R, of w ?f] ex by auto
    obtain h w2 where o: "f_open F ?f ''rb'' w1 = (Some h, w2)" using reliable_open [OF R, of "''rb''" w1 ?f] C1 Some by auto
    have h: "H w2 h = Some (?f, 0, False)" "C w2 ?f = Some []" using open_rb(2) [OF L o refl] c C1 Some by auto
    obtain ok n w3 where z: "f_size F h w2 = (ok, n, w3)" by (metis prod_cases3)
    have n: "(if ok then n else 0) = 0" using size_spec [OF L z h] by simp
    obtain k w4 where cl: "f_close F h w3 = (k, w4)" by fastforce
    obtain d w5 where d: "f_delete F ?f w4 = (d, w5)" by fastforce
    have "queue_file_restore F cfg q pb w = (RESULT_SUCCESS, q, pb, w5)"
      using hf n by (simp add: queue_file_restore_def e o z cl d)
    then show ?thesis using delete_gone [OF L R d] by blast
  qed
qed

lemma file_restore_tcp:
  assumes L: "flash_laws F C H" and R: "flash_reliable F C H" and hf: "queue_has_file cfg" and tq: "queue_is_tcp_send_q cfg"
    and c: "C w (overflow_file cfg) = Some bs" and off: "off < length bs"
    and pb: "s_cache_have pb" "wf_disk (s_disk pb)" "disk_header_ok (s_disk pb)" "pb_offset_valid (s_disk pb) = 1" "pb_offset (s_disk pb) = off"
  shows "\<exists>pb' w'. queue_file_restore F cfg q pb w =
      (RESULT_SUCCESS, q\<lparr>q_file_size := length bs, q_file_read_offset := off\<rparr>, pb', w') \<and> C w' (overflow_file cfg) = Some bs"
proof -
  let ?f = "overflow_file cfg"
  obtain w1 where e: "f_exists F ?f w = (True, w1)" using reliable_exists [OF R, of w ?f] c by auto
  have C1: "C w1 = C w" using exists_spec [OF L e] .
  obtain h w2 where o: "f_open F ?f ''rb'' w1 = (Some h, w2)" using reliable_open [OF R, of "''rb''" w1 ?f] C1 c by auto
  have h: "H w2 h = Some (?f, 0, False)" "C w2 ?f = Some bs" using open_rb(2) [OF L o refl] c C1 by auto
  obtain ok n w3 where z: "f_size F h w2 = (ok, n, w3)" by (metis prod_cases3)
  have "ok" using R h(1) z unfolding flash_reliable_def by (metis fst_conv option.distinct(1))
  then have n: "ok" "n = length bs" "C w3 ?f = Some bs" using size_spec [OF L z h] h by simp_all
  obtain k w4 where cl: "f_close F h w3 = (k, w4)" by fastforce
  have C4: "C w4 ?f = Some bs" using close_spec [OF L cl] n(3) by simp
  have st: "staged_from_cache pb = s_disk pb" using pb(1) by (simp add: staged_from_cache_def)
  obtain w5 where s: "disk_store F (disk_clear_tcp_offset (s_disk pb)) pb w4 =
      (RESULT_SUCCESS, cache_set (disk_clear_tcp_offset (s_disk pb)) pb, w5)"
    and C5: "C w5 = (C w4)(PRE_BOOT_INFO_FILE_PATH \<mapsto> disk_bytes (disk_clear_tcp_offset (s_disk pb)))"
    using reliable_store [OF L R conjunct1 [OF disk_clear_tcp_offset_wf [OF pb(2,3)]], of pb w4] by blast
  have take: "pre_boot_handler_take_tcp_send_queue_offset F True pb w4 =
      (Some off, cache_set (disk_clear_tcp_offset (s_disk pb)) pb, w5)"
    using pb s by (simp add: pre_boot_handler_take_tcp_send_queue_offset_def pre_boot_handler_clear_tcp_send_queue_offset_def st)
  have "bs \<noteq> []" using off by auto
  then have "queue_file_restore F cfg q pb w = (RESULT_SUCCESS, q\<lparr>q_file_size := length bs, q_file_read_offset := off\<rparr>,
      cache_set (disk_clear_tcp_offset (s_disk pb)) pb, w5)"
    using hf tq n off by (simp add: queue_file_restore_def e o z cl queue_tcp_restore_saved_file_offset_def take)
  then show ?thesis using C5 C4 tcp_paths [OF tq] by auto
qed

text \<open>Both cases together: the unread bytes of the file are those of the queue before the boot.\<close>

lemma file_restore_rel:
  assumes L: "flash_laws F C H" and R: "flash_reliable F C H" and hf: "queue_has_file cfg" and tq: "queue_is_tcp_send_q cfg"
    and f: "file_rel cfg q (C u (overflow_file cfg)) bs" and wf: "wf_disk r" "disk_header_ok r"
    and r: "q_file_size q \<noteq> 0 \<longrightarrow> pb_offset_valid r = 1 \<and> pb_offset r = q_file_read_offset q"
    and q1: "q_file_size q1 = 0" "q_file_read_offset q1 = 0"
  shows "\<exists>q' pb' w'. queue_file_restore F cfg q1 (cache_set r pre_boot_boot) u = (RESULT_SUCCESS, q', pb', w') \<and>
      same_ring q1 q' \<and> file_rel cfg q' (C w' (overflow_file cfg)) bs"
proof (cases "q_file_size q = 0")
  case True
  then have z: "C u (overflow_file cfg) = None \<or> C u (overflow_file cfg) = Some []" "bs = []"
    using f by (auto simp: file_rel_def)
  obtain w3 where "queue_file_restore F cfg q1 (cache_set r pre_boot_boot) u = (RESULT_SUCCESS, q1, cache_set r pre_boot_boot, w3)"
    and "C w3 (overflow_file cfg) = None" using file_restore_empty [OF L R hf z(1)] by blast
  then show ?thesis using z q1 by (auto simp: file_rel_def)
next
  case False
  then obtain cs where cs: "C u (overflow_file cfg) = Some cs" "length cs = q_file_size q" "q_file_read_offset q < length cs"
    "bs = drop (q_file_read_offset q) cs" "q_file_size q \<le> qc_max_file_size cfg"
    using f by (auto simp: file_rel_def)
  obtain pb3 w3 where "queue_file_restore F cfg q1 (cache_set r pre_boot_boot) u =
      (RESULT_SUCCESS, q1\<lparr>q_file_size := length cs, q_file_read_offset := q_file_read_offset q\<rparr>, pb3, w3)"
    and "C w3 (overflow_file cfg) = Some cs"
    using file_restore_tcp [OF L R hf tq cs(1,3), of "cache_set r pre_boot_boot" q1] wf r False by (auto simp: cache_set_def)
  then show ?thesis using cs by (auto simp: file_rel_def)
qed

lemma create_spec:
  assumes "qc_name cfg \<noteq> None" and "first_free gq = Some slot" and "qc_persist_on_reboot cfg" and "queue_has_file cfg"
    and "length junk = qc_capacity cfg"
    and "queue_persist_load F A cfg \<lparr>q_head = 0, q_tail = 0, q_count = 0, q_buffer = Some junk, q_file_size = 0,
      q_file_read_offset = 0\<rparr> w = (r1, q1, w1)"
    and "queue_file_restore F cfg q1 pb w1 = (r2, q2, pb2, w2)"
  shows "queue_manager_create F A True (Some hq) True True junk cfg gq pb w =
    (RESULT_SUCCESS, Some (hq, q2), gq[slot := Some hq], pb2, w2)"
  using assms by (simp add: queue_manager_create_def)

text \<open>C7: an orderly reboot loses no packet. On flash that does not fail, when \<open>queue_manager_persist\<close> has
  saved the TCP send queue and the device restarts, the start-up code (the pre-boot record first,
  then \<open>queue_manager_create\<close>) yields a queue that holds exactly the packets it held before, in the
  same order: those of the overflow file that were not read yet, then those of the ring, whatever
  the fresh memory contains. The elements of the ring must not refer to dynamic buffers, the
  contents of which are not saved.\<close>

theorem tcp_queue_survives_reboot:
  assumes h: "queue_holds (tcp_rel F C H A cfg) (tcp_view A) cfg q w l"
    and ab: "\<forall>e \<in> set (ring_items cfg q). abi_elem A (qc_element_size cfg) e \<and> \<not> mm_use_dynamic_buffer (e_message A e)"
    and p: "qc_persist_on_reboot cfg" and cap: "qc_capacity cfg < 2 ^ 32" and inv: "pb_inv pb"
    and gq: "first_free gq = Some slot" and junk: "length junk = qc_capacity cfg"
  shows "\<exists>pb1 w1 prior pb2 w2 q' pb3 w3.
    queue_manager_persist F A True cfg q pb w = (RESULT_SUCCESS, pb1, w1) \<and>
    pre_boot_handler_load_prior_reset F True pre_boot_boot w1 = (RESULT_SUCCESS, prior, pb2, w2) \<and>
    queue_manager_create F A True (Some hq) True True junk cfg gq pb2 w2 =
      (RESULT_SUCCESS, Some (hq, q'), gq[slot := Some hq], pb3, w3) \<and>
    queue_holds (tcp_rel F C H A cfg) (tcp_view A) cfg q' w3 l"
proof -
  let ?f = "overflow_file cfg" and ?s = "snapshot_file cfg" and ?b = "PRE_BOOT_INFO_FILE_PATH"
  let ?q0 = "\<lparr>q_head = 0, q_tail = 0, q_count = 0, q_buffer = Some junk, q_file_size = 0, q_file_read_offset = 0\<rparr>"
  obtain xs where wf: "wf_ring cfg q" and rel: "tcp_rel F C H A cfg q w xs" and l: "l = xs @ map (tcp_view A) (ring_items cfg q)"
    using h by (auto simp: queue_holds_def)
  have L: "flash_laws F C H" and R: "flash_reliable F C H" and tq: "queue_is_tcp_send_q cfg"
    and mx: "259 \<le> qc_max_file_size cfg" "qc_max_file_size cfg < 2 ^ 32"
    and f: "file_rel cfg q (C w ?f) (tcp_bytes xs)" using rel by (simp_all add: tcp_rel_def)
  have hf: "queue_has_file cfg" using mx by (simp add: queue_has_file_def)
  have nm: "qc_name cfg \<noteq> None" using tq by (simp add: queue_is_tcp_send_q_def)
  have ab': "\<forall>e \<in> set (ring_items cfg q). abi_elem A (qc_element_size cfg) e" using ab by blast
  have sz: "q_file_size q < 2 ^ 32" and off: "q_file_size q \<noteq> 0 \<longrightarrow> q_file_read_offset q < q_file_size q"
    using f mx by (auto simp: file_rel_def split: if_splits)
  note paths = tcp_paths [OF tq]
  obtain v1 where save: "queue_persist_save F A cfg q w = (RESULT_SUCCESS, v1)" and V1: "C v1 = (C w)(?s \<mapsto> snapshot_bytes A cfg q)"
    using persist_save_spec [OF L R ab' wf p] by blast
  let ?r = "offset_record q pb"
  obtain pb1 w1 where off_saved: "queue_tcp_persist_file_offset F cfg q pb v1 = (RESULT_SUCCESS, pb1, w1)"
    and C1: "C w1 = (C v1)(?b \<mapsto> disk_bytes ?r)" using persist_offset_spec [OF L R inv tq sz off] by blast
  have persist: "queue_manager_persist F A True cfg q pb w = (RESULT_SUCCESS, pb1, w1)"
    using p save off_saved by (simp add: queue_manager_persist_def result_is_error_def)
  define r' where "r' = (if pb_reset_type ?r = 0 then ?r else disk_clear_reset_slot ?r)"
  have rwf: "wf_disk ?r" "disk_header_ok ?r" using offset_record_wf [OF inv sz off] by simp_all
  have rwf': "wf_disk r'" "disk_header_ok r'" using rwf disk_clear_reset_slot_wf [OF rwf] by (simp_all add: r'_def)
  obtain w2 where boot: "pre_boot_handler_load_prior_reset F True pre_boot_boot w1 =
      (RESULT_SUCCESS, Some (prior_from_disk ?r), cache_set r' pre_boot_boot, w2)" and C2: "C w2 = (C w1)(?b \<mapsto> disk_bytes r')"
    using boot_load [OF L R rwf, of w1] C1 by (auto simp: r'_def Let_def)
  have snap: "C w2 ?s = Some (snapshot_bytes A cfg q)" and over: "C w2 ?f = C w ?f"
    using C2 C1 V1 paths by auto
  obtain b u where ld: "queue_persist_load F A cfg ?q0 w2 =
      (RESULT_SUCCESS, ?q0\<lparr>q_count := q_count q, q_head := q_head q, q_tail := q_tail q, q_buffer := Some b\<rparr>, u)"
    and U: "C u = C w2"
    and ring: "wf_ring cfg (?q0\<lparr>q_count := q_count q, q_head := q_head q, q_tail := q_tail q, q_buffer := Some b\<rparr>)"
      "ring_items cfg (?q0\<lparr>q_count := q_count q, q_head := q_head q, q_tail := q_tail q, q_buffer := Some b\<rparr>) = ring_items cfg q"
    using persist_load_spec [OF L R ab' wf p cap _ junk snap, of ?q0] by auto
  define q1 where "q1 = ?q0\<lparr>q_count := q_count q, q_head := q_head q, q_tail := q_tail q, q_buffer := Some b\<rparr>"
  have "q_file_size q \<noteq> 0 \<longrightarrow> pb_offset_valid r' = 1 \<and> pb_offset r' = q_file_read_offset q"
    by (simp add: r'_def offset_record_def disk_clear_reset_slot_def)
  then have "\<exists>q' pb3 w3. queue_file_restore F cfg q1 (cache_set r' pre_boot_boot) u = (RESULT_SUCCESS, q', pb3, w3) \<and>
      same_ring q1 q' \<and> file_rel cfg q' (C w3 ?f) (tcp_bytes xs)"
    using f U over by (intro file_restore_rel [where q = q, OF L R hf tq _ rwf']) (simp_all add: q1_def)
  then obtain q' pb3 w3 where rs: "queue_file_restore F cfg q1 (cache_set r' pre_boot_boot) u = (RESULT_SUCCESS, q', pb3, w3)"
    and sr: "same_ring q1 q'" and fr: "file_rel cfg q' (C w3 ?f) (tcp_bytes xs)" by blast
  have "wf_ring cfg q'" "ring_items cfg q' = ring_items cfg q"
    using ring same_ring_wf [OF sr, of cfg] same_ring_items [OF sr, of cfg] by (simp_all add: q1_def)
  then have "queue_holds (tcp_rel F C H A cfg) (tcp_view A) cfg q' w3 l"
    using rel fr l by (auto simp: queue_holds_def tcp_rel_def)
  then show ?thesis
    using persist boot create_spec [OF nm gq p hf junk ld rs [unfolded q1_def], of hq] by blast
qed

definition disk_abi :: "module_message abi" where
  "disk_abi = msg_abi\<lparr>e_bytes := \<lambda>m. replicate 344 0, e_of_bytes := \<lambda>bs. sample_msg\<rparr>"

definition one_packet_queue :: "module_message queue" where
  "one_packet_queue = (empty_queue 2 sample_msg)\<lparr>q_tail := 1, q_count := 1\<rparr>"

theorem tcp_queue_survives_reboot_witness:
  "\<exists>pb1 w1. queue_manager_persist ram_flash disk_abi True (tcp_cfg 2) one_packet_queue pre_boot_boot empty_ram =
     (RESULT_SUCCESS, pb1, w1)"
proof -
  have "queue_holds (tcp_rel ram_flash rw_files rw_handles disk_abi (tcp_cfg 2)) (tcp_view disk_abi) (tcp_cfg 2)
      one_packet_queue empty_ram [tcp_view disk_abi sample_msg]"
    by (simp add: queue_holds_def wf_ring_def one_packet_queue_def empty_queue_def tcp_rel_def ram_laws ram_reliable tcp_cfg_def
        msg_abi_ok_def disk_abi_def msg_abi_def queue_is_tcp_send_q_def file_rel_def ring_items_def empty_ram_def)
  moreover have "\<forall>e \<in> set (ring_items (tcp_cfg 2) one_packet_queue).
      abi_elem disk_abi (qc_element_size (tcp_cfg 2)) e \<and> \<not> mm_use_dynamic_buffer (e_message disk_abi e)"
    by (simp add: ring_items_def one_packet_queue_def empty_queue_def tcp_cfg_def abi_elem_def disk_abi_def msg_abi_def
        sample_msg_def restored_message_def)
  ultimately show ?thesis
    using tcp_queue_survives_reboot [of ram_flash rw_files rw_handles disk_abi "tcp_cfg 2" one_packet_queue empty_ram
        "[tcp_view disk_abi sample_msg]" pre_boot_boot "[None]" 0 "[sample_msg, sample_msg]" 1]
    by (auto simp: tcp_cfg_def)
qed

end
