(* ===== verification/Event_Manager.thy ===== *)
theory Event_Manager
  imports Prelude "HOL-Library.Multiset"
begin

text \<open>
  The publish/subscribe hub of the firmware, \<open>common/event_manager.c\<close>: one fixed array of
  sixteen callback slots per event type, registration with a duplicate check, removal by moving
  the last entry into the gap, and the broadcast loop over a snapshot of the entry count.

  A function pointer is a handle (\<open>nat option\<close>, \<open>None\<close> the null pointer); what the callback does is
  a parameter \<open>call\<close> of the broadcast, a function on the registries and the rest of the program
  state \<open>'w\<close>, so that callbacks may register and unregister while the loop runs. An \<open>EventType\<close>
  argument is the number the caller passes. The array has its sixteen slots in the model, unused
  ones included, because the loop reads them.
\<close>

named_theorems event_simps \<open>operations of the event registries\<close>

subsection \<open>State\<close>

definition MAX_CALLBACKS_PER_EVENT :: nat where "MAX_CALLBACKS_PER_EVENT = 16"

definition EVENT_RESET_SOFT :: nat where "EVENT_RESET_SOFT = 20"
definition EVENT_RESET_HARD :: nat where "EVENT_RESET_HARD = 21"
definition EVENT_COUNT :: nat where "EVENT_COUNT = 26"

record callback_entry =
  ce_callback :: "nat option"
  ce_user_data :: nat
  ce_module_name :: "string option"
  ce_active :: bool

record event_registry =
  er_callbacks :: "callback_entry list"
  er_count :: nat

record event_manager =
  em_registries :: "event_registry list"
  em_initialized :: bool

record event_data =
  ed_type :: nat
  ed_source_module :: string
  ed_data :: "nat option"
  ed_data_size :: nat

text \<open>All bytes zero, as \<open>memset\<close> leaves them.\<close>

definition entry_zero :: callback_entry where
  "entry_zero = \<lparr>ce_callback = None, ce_user_data = 0, ce_module_name = None, ce_active = False\<rparr>"

definition registry_clear :: event_registry where
  "registry_clear = \<lparr>er_callbacks = replicate MAX_CALLBACKS_PER_EVENT entry_zero, er_count = 0\<rparr>"

definition em_boot :: event_manager where
  "em_boot = \<lparr>em_registries = replicate EVENT_COUNT registry_clear, em_initialized = False\<rparr>"

subsection \<open>Operations\<close>

definition event_manager_is_valid_event :: "nat \<Rightarrow> bool" where
  "event_manager_is_valid_event t \<longleftrightarrow> t < EVENT_COUNT"

definition registry_remove_index :: "event_registry \<Rightarrow> nat \<Rightarrow> bool \<times> event_registry" where
  "registry_remove_index r idx =
     (if idx \<ge> er_count r \<or> er_count r = 0 then (False, r)
      else let cs = er_callbacks r;
               cs1 = (if idx < er_count r - 1 then cs[idx := cs ! (er_count r - 1)] else cs)
           in (True, \<lparr>er_callbacks = cs1[er_count r - 1 := entry_zero], er_count = er_count r - 1\<rparr>))"

definition event_manager_init :: "event_manager \<Rightarrow> result \<times> event_manager" where
  "event_manager_init em =
     (if em_initialized em then (RESULT_ALREADY_INITIALIZED, em)
      else (RESULT_SUCCESS, em_boot\<lparr>em_initialized := True\<rparr>))"

definition event_manager_deinit :: "event_manager \<Rightarrow> result \<times> event_manager" where
  "event_manager_deinit em =
     (if \<not> em_initialized em then (RESULT_SUCCESS, em)
      else (RESULT_SUCCESS, \<lparr>em_registries = map (\<lambda>_. registry_clear) (em_registries em), em_initialized = False\<rparr>))"

text \<open>The linear searches of the registration functions: the index of the first active entry of the
  callback among the counted ones, from index \<open>i\<close> on.\<close>

function find_callback :: "event_registry \<Rightarrow> nat \<Rightarrow> nat \<Rightarrow> nat option" where
  "find_callback r cb i =
     (if i < er_count r then
        if ce_active (er_callbacks r ! i) \<and> ce_callback (er_callbacks r ! i) = Some cb then Some i
        else find_callback r cb (i + 1)
      else None)"
  by pat_completeness auto
termination by (relation "measure (\<lambda>(r, cb, i). er_count r - i)") auto

declare find_callback.simps [simp del]

definition set_registry :: "event_manager \<Rightarrow> nat \<Rightarrow> event_registry \<Rightarrow> event_manager" where
  "set_registry em t r = em\<lparr>em_registries := (em_registries em)[t := r]\<rparr>"

definition event_manager_register ::
    "nat \<Rightarrow> nat option \<Rightarrow> nat \<Rightarrow> string option \<Rightarrow> event_manager \<Rightarrow> result \<times> event_manager" where
  "event_manager_register t callback user_data module_name em =
     (if \<not> em_initialized em then (RESULT_ERROR, em)
      else if \<not> event_manager_is_valid_event t then (RESULT_INVALID_PARAM, em)
      else case callback of
        None \<Rightarrow> (RESULT_INVALID_PARAM, em)
      | Some cb \<Rightarrow>
          if module_name = None \<or> module_name = Some [] then (RESULT_INVALID_PARAM, em)
          else let r = em_registries em ! t in
            if find_callback r cb 0 \<noteq> None then (RESULT_ALREADY_INITIALIZED, em)
            else if er_count r \<ge> MAX_CALLBACKS_PER_EVENT then (RESULT_ERROR, em)
            else (RESULT_SUCCESS, set_registry em t
              \<lparr>er_callbacks = (er_callbacks r)[er_count r :=
                  \<lparr>ce_callback = Some cb, ce_user_data = user_data, ce_module_name = module_name, ce_active = True\<rparr>],
               er_count = er_count r + 1\<rparr>))"

definition event_manager_unregister :: "nat \<Rightarrow> nat option \<Rightarrow> event_manager \<Rightarrow> result \<times> event_manager" where
  "event_manager_unregister t callback em =
     (if \<not> em_initialized em then (RESULT_ERROR, em)
      else if \<not> event_manager_is_valid_event t then (RESULT_INVALID_PARAM, em)
      else case callback of
        None \<Rightarrow> (RESULT_INVALID_PARAM, em)
      | Some cb \<Rightarrow>
          let r = em_registries em ! t in
          case find_callback r cb 0 of
            None \<Rightarrow> (RESULT_ERROR, em)
          | Some i \<Rightarrow> (RESULT_SUCCESS, set_registry em t (snd (registry_remove_index r i))))"

text \<open>The inner loop of \<open>event_manager_unregister_module\<close>: an index is looked at again after a removal.\<close>

function remove_module_loop :: "string \<Rightarrow> event_registry \<Rightarrow> nat \<Rightarrow> event_registry" where
  "remove_module_loop name r i =
     (if i < er_count r then
        if ce_active (er_callbacks r ! i) \<and> ce_module_name (er_callbacks r ! i) = Some name
        then remove_module_loop name (snd (registry_remove_index r i)) i
        else remove_module_loop name r (i + 1)
      else r)"
  by pat_completeness auto
termination
  by (relation "measure (\<lambda>(name, r, i). er_count r - i)") (auto simp: registry_remove_index_def Let_def)

declare remove_module_loop.simps [simp del]

definition event_manager_unregister_module :: "string option \<Rightarrow> event_manager \<Rightarrow> result \<times> event_manager" where
  "event_manager_unregister_module module_name em =
     (if \<not> em_initialized em then (RESULT_ERROR, em)
      else case module_name of
        None \<Rightarrow> (RESULT_INVALID_PARAM, em)
      | Some name \<Rightarrow>
          if name = [] then (RESULT_INVALID_PARAM, em)
          else (RESULT_SUCCESS, em\<lparr>em_registries := map (\<lambda>r. remove_module_loop name r 0) (em_registries em)\<rparr>))"

text \<open>The broadcast loop runs \<open>n\<close> more times from index \<open>i\<close>; each round reads the slot as the callbacks
  before it have left it.\<close>

fun broadcast_loop ::
    "(nat \<Rightarrow> event_data \<Rightarrow> nat \<Rightarrow> event_manager \<times> 'w \<Rightarrow> event_manager \<times> 'w) \<Rightarrow> nat \<Rightarrow> event_data \<Rightarrow>
     nat \<Rightarrow> nat \<Rightarrow> event_manager \<times> 'w \<Rightarrow> event_manager \<times> 'w" where
  "broadcast_loop call t ev 0 i s = s"
| "broadcast_loop call t ev (Suc n) i s =
     (let e = er_callbacks (em_registries (fst s) ! t) ! i in
      broadcast_loop call t ev n (i + 1)
        (case ce_callback e of
           None \<Rightarrow> s
         | Some cb \<Rightarrow> if ce_active e then call cb ev (ce_user_data e) s else s))"

definition event_manager_broadcast ::
    "(nat \<Rightarrow> event_data \<Rightarrow> nat \<Rightarrow> event_manager \<times> 'w \<Rightarrow> event_manager \<times> 'w) \<Rightarrow> nat \<Rightarrow> string option \<Rightarrow>
     nat option \<Rightarrow> nat \<Rightarrow> event_manager \<times> 'w \<Rightarrow> result \<times> event_manager \<times> 'w" where
  "event_manager_broadcast call t source_module data data_size s =
     (if \<not> em_initialized (fst s) then (RESULT_ERROR, s)
      else if \<not> event_manager_is_valid_event t then (RESULT_INVALID_PARAM, s)
      else case source_module of
        None \<Rightarrow> (RESULT_INVALID_PARAM, s)
      | Some src \<Rightarrow>
          if src = [] then (RESULT_INVALID_PARAM, s)
          else let n = er_count (em_registries (fst s) ! t) in
            if n = 0 then (RESULT_SUCCESS, s)
            else (RESULT_SUCCESS, broadcast_loop call t
                    \<lparr>ed_type = t, ed_source_module = src, ed_data = data, ed_data_size = data_size\<rparr> n 0 s))"

definition event_manager_get_listener_count :: "nat \<Rightarrow> event_manager \<Rightarrow> int" where
  "event_manager_get_listener_count t em =
     (if \<not> em_initialized em \<or> \<not> event_manager_is_valid_event t then -1
      else int (er_count (em_registries em ! t)))"

subsection \<open>The registered listeners\<close>

definition listeners :: "event_registry \<Rightarrow> callback_entry list" where
  "listeners r = take (er_count r) (er_callbacks r)"

definition entry_ok :: "callback_entry \<Rightarrow> bool" where
  "entry_ok e \<longleftrightarrow> ce_active e \<and> ce_callback e \<noteq> None \<and> ce_module_name e \<noteq> None \<and> ce_module_name e \<noteq> Some []"

text \<open>A registry is well formed when its counted entries are complete and no two have the same callback,
  and the slots after them are all zero.\<close>

definition wf_registry :: "event_registry \<Rightarrow> bool" where
  "wf_registry r \<longleftrightarrow> length (er_callbacks r) = MAX_CALLBACKS_PER_EVENT \<and> er_count r \<le> MAX_CALLBACKS_PER_EVENT \<and>
     list_all entry_ok (listeners r) \<and> distinct (map ce_callback (listeners r)) \<and>
     drop (er_count r) (er_callbacks r) = replicate (MAX_CALLBACKS_PER_EVENT - er_count r) entry_zero"

definition em_inv :: "event_manager \<Rightarrow> bool" where
  "em_inv em \<longleftrightarrow> length (em_registries em) = EVENT_COUNT \<and> list_all wf_registry (em_registries em)"

definition em_listeners :: "event_manager \<Rightarrow> nat \<Rightarrow> callback_entry list" where
  "em_listeners em t = listeners (em_registries em ! t)"

lemma length_listeners [event_simps]: "wf_registry r \<Longrightarrow> length (listeners r) = er_count r"
  by (simp add: listeners_def wf_registry_def)

lemma nth_listeners [event_simps]: "i < er_count r \<Longrightarrow> er_callbacks r ! i = listeners r ! i"
  by (simp add: listeners_def)

lemma em_inv_registry: "em_inv em \<Longrightarrow> t < EVENT_COUNT \<Longrightarrow> wf_registry (em_registries em ! t)"
  by (simp add: em_inv_def list_all_length)

lemma wf_registry_clear [simp]: "wf_registry registry_clear"
  by (simp add: wf_registry_def registry_clear_def listeners_def)

lemma em_inv_boot: "em_inv em_boot"
  by (simp add: em_inv_def em_boot_def list_all_length)

lemma em_inv_set_registry:
  "em_inv em \<Longrightarrow> wf_registry r \<Longrightarrow> em_inv (set_registry em t r)"
  unfolding em_inv_def set_registry_def list_all_iff
  using set_update_subset_insert [of "em_registries em" t r] by auto

lemma em_listeners_set_registry [event_simps]:
  "em_inv em \<Longrightarrow> t < EVENT_COUNT \<Longrightarrow>
     em_listeners (set_registry em t r) t' = (if t' = t then listeners r else em_listeners em t')"
  by (simp add: em_listeners_def set_registry_def em_inv_def nth_list_update)

lemma set_registry_initialized [simp]: "em_initialized (set_registry em t r) = em_initialized em"
  by (simp add: set_registry_def)

subsection \<open>Searching and removing\<close>

lemma find_callback_Some:
  assumes "wf_registry r" and "find_callback r cb i = Some j"
  shows "i \<le> j \<and> j < er_count r \<and> ce_callback (listeners r ! j) = Some cb"
  using assms
proof (induction r cb i rule: find_callback.induct)
  case (1 r cb i)
  show ?case
    using "1.prems"(2) "1.IH"[OF _ _ "1.prems"(1)]
    by (subst (asm) find_callback.simps) (auto simp: nth_listeners split: if_splits)
qed

lemma find_callback_None:
  assumes "wf_registry r" and "find_callback r cb i = None" and "i \<le> j" and "j < er_count r"
  shows "ce_callback (listeners r ! j) \<noteq> Some cb"
  using assms
proof (induction r cb i rule: find_callback.induct)
  case (1 r cb i)
  have act: "i < er_count r \<Longrightarrow> ce_active (er_callbacks r ! i)"
    using "1.prems"(1) by (simp add: wf_registry_def list_all_length listeners_def entry_ok_def)
  show ?case
  proof (cases "j = i")
    case True
    then show ?thesis
      using "1.prems" act by (subst (asm) find_callback.simps) (auto simp: nth_listeners split: if_splits)
  next
    case False
    then show ?thesis
      using "1.IH"[OF _ _ "1.prems"(1)] "1.prems" find_callback.simps [of r cb i] by (auto split: if_splits)
  qed
qed

lemma find_callback_iff:
  assumes "wf_registry r"
  shows "find_callback r cb 0 = None \<longleftrightarrow> Some cb \<notin> ce_callback ` set (listeners r)"
proof
  assume "find_callback r cb 0 = None"
  from find_callback_None[OF assms this]
  show "Some cb \<notin> ce_callback ` set (listeners r)"
    by (auto simp: in_set_conv_nth length_listeners[OF assms]) metis
next
  assume n: "Some cb \<notin> ce_callback ` set (listeners r)"
  show "find_callback r cb 0 = None"
  proof (cases "find_callback r cb 0")
    case (Some j)
    then have "j < er_count r" "ce_callback (listeners r ! j) = Some cb"
      using find_callback_Some[OF assms] by blast+
    then have "Some cb \<in> ce_callback ` set (listeners r)"
      by (metis image_eqI length_listeners[OF assms] nth_mem)
    with n show ?thesis by simp
  qed simp
qed

text \<open>Moving the last element into the gap removes exactly the element of the gap.\<close>

definition swap_remove :: "nat \<Rightarrow> 'a list \<Rightarrow> 'a list" where
  "swap_remove i xs = (butlast xs)[i := last xs]"

lemma mset_swap_remove:
  assumes "i < length xs"
  shows "add_mset (xs ! i) (mset (swap_remove i xs)) = mset xs"
proof -
  from assms obtain ys y where xs: "xs = ys @ [y]" by (metis append_butlast_last_id length_0_conv not_less0)
  show ?thesis
  proof (cases "i < length ys")
    case True
    then show ?thesis
      by (simp add: swap_remove_def xs nth_append mset_update)
  next
    case False
    with assms xs have "i = length ys" by simp
    then show ?thesis by (simp add: swap_remove_def xs list_update_beyond)
  qed
qed

lemma drop_swap_remove:
  assumes "i < length xs"
  shows "take i (swap_remove i xs) = take i xs" and
    "add_mset (xs ! i) (mset (drop i (swap_remove i xs))) = mset (drop i xs)"
proof -
  show t: "take i (swap_remove i xs) = take i xs"
    using assms by (simp add: swap_remove_def butlast_conv_take)
  have "mset (take i xs) + add_mset (xs ! i) (mset (drop i (swap_remove i xs))) = mset (take i xs) + mset (drop i xs)"
    using mset_swap_remove[OF assms] t
    by (metis append_take_drop_id mset_append union_mset_add_mset_right)
  then show "add_mset (xs ! i) (mset (drop i (swap_remove i xs))) = mset (drop i xs)"
    by simp
qed

lemma length_swap_remove [simp]: "length (swap_remove i xs) = length xs - 1"
  by (simp add: swap_remove_def)

lemma registry_remove_listeners:
  assumes wf: "wf_registry r" and i: "i < er_count r"
  shows "listeners (snd (registry_remove_index r i)) = swap_remove i (listeners r)"
    and "er_count (snd (registry_remove_index r i)) = er_count r - 1"
    and "wf_registry (snd (registry_remove_index r i))"
proof -
  let ?r = "snd (registry_remove_index r i)"
  obtain n where n: "er_count r = Suc n" using i by (cases "er_count r") auto
  have len: "length (er_callbacks r) = 16" "n < 16"
    using wf n by (simp_all add: wf_registry_def MAX_CALLBACKS_PER_EVENT_def)
  show c: "er_count ?r = er_count r - 1"
    using i by (simp add: registry_remove_index_def Let_def)
  show l: "listeners ?r = swap_remove i (listeners r)"
  proof (rule nth_equalityI)
    show "length (listeners ?r) = length (swap_remove i (listeners r))"
      using i n len by (simp add: registry_remove_index_def Let_def listeners_def)
  next
    fix k assume "k < length (listeners ?r)"
    then have "k < n" using i n len by (simp add: registry_remove_index_def Let_def listeners_def)
    then show "listeners ?r ! k = swap_remove i (listeners r) ! k"
      using i n len
      by (auto simp: registry_remove_index_def Let_def listeners_def swap_remove_def nth_list_update take_Suc_conv_app_nth)
  qed
  have "i < length (listeners r)" using i length_listeners[OF wf] by simp
  from mset_swap_remove[OF this] have m: "mset (listeners r ! i # swap_remove i (listeners r)) = mset (listeners r)" by simp
  have ok: "list_all entry_ok (swap_remove i (listeners r))"
    using wf mset_eq_setD[OF m] by (auto simp: wf_registry_def list_all_iff)
  have "mset (map ce_callback (listeners r ! i # swap_remove i (listeners r))) = mset (map ce_callback (listeners r))"
    using m by (metis mset_map)
  then have d: "distinct (map ce_callback (swap_remove i (listeners r)))"
    using wf mset_eq_imp_distinct_iff by (fastforce simp: wf_registry_def)
  have "drop n (er_callbacks ?r) = replicate (16 - n) entry_zero"
  proof (rule nth_equalityI)
    show "length (drop n (er_callbacks ?r)) = length (replicate (16 - n) entry_zero)"
      using i n len by (simp add: registry_remove_index_def Let_def)
  next
    fix k assume "k < length (drop n (er_callbacks ?r))"
    then have k: "n + k < 16" using i n len by (auto simp: registry_remove_index_def Let_def split: if_splits)
    have "k \<noteq> 0 \<Longrightarrow> er_callbacks r ! (n + k) = drop (Suc n) (er_callbacks r) ! (k - 1)"
      using len k by simp
    also have "k \<noteq> 0 \<Longrightarrow> \<dots> = entry_zero"
      using wf n k by (auto simp: wf_registry_def MAX_CALLBACKS_PER_EVENT_def)
    finally have "k \<noteq> 0 \<Longrightarrow> er_callbacks r ! (n + k) = entry_zero" .
    then show "drop n (er_callbacks ?r) ! k = replicate (16 - n) entry_zero ! k"
      using i n len k by (cases "k = 0") (auto simp: registry_remove_index_def Let_def nth_list_update)
  qed
  then show "wf_registry ?r"
    using l c ok d i n len
    by (simp add: wf_registry_def MAX_CALLBACKS_PER_EVENT_def) (simp add: registry_remove_index_def Let_def)
qed

lemma remove_module_loop_spec:
  assumes "wf_registry r"
  shows "wf_registry (remove_module_loop name r i) \<and>
    mset (listeners (remove_module_loop name r i)) =
      mset (take i (listeners r)) + filter_mset (\<lambda>e. ce_module_name e \<noteq> Some name) (mset (drop i (listeners r)))"
  using assms
proof (induction name r i rule: remove_module_loop.induct)
  case (1 name r i)
  note wf = "1.prems"
  show ?case
  proof (cases "i < er_count r")
    case False
    then show ?thesis using wf length_listeners[OF wf] by (subst (1 2) remove_module_loop.simps) simp
  next
    case True
    then have i: "i < length (listeners r)" using length_listeners[OF wf] by simp
    have act: "ce_active (er_callbacks r ! i)"
      using wf True by (simp add: wf_registry_def list_all_length listeners_def entry_ok_def)
    show ?thesis
    proof (cases "ce_module_name (listeners r ! i) = Some name")
      case m: True
      note rr = registry_remove_listeners[OF wf True]
      have "filter_mset (\<lambda>e. ce_module_name e \<noteq> Some name) (mset (drop i (listeners r))) =
        filter_mset (\<lambda>e. ce_module_name e \<noteq> Some name) (mset (drop i (swap_remove i (listeners r))))"
        using drop_swap_remove(2)[OF i] m by (metis (mono_tags, lifting) filter_mset_add_mset)
      then show ?thesis
        using "1.IH"(1)[OF True _ rr(3)] True act m rr(1) drop_swap_remove(1)[OF i]
        by (subst (1 2) remove_module_loop.simps) (simp add: nth_listeners)
    next
      case m: False
      have "mset (take (i + 1) (listeners r)) + filter_mset (\<lambda>e. ce_module_name e \<noteq> Some name) (mset (drop (i + 1) (listeners r)))
        = mset (take i (listeners r)) + filter_mset (\<lambda>e. ce_module_name e \<noteq> Some name) (mset (drop i (listeners r)))"
        using i m by (simp add: take_Suc_conv_app_nth Cons_nth_drop_Suc [symmetric])
      then show ?thesis
        using "1.IH"(2)[OF True _ wf] True act m
        by (subst (1 2) remove_module_loop.simps) (simp add: nth_listeners)
    qed
  qed
qed

subsection \<open>Registration\<close>

lemma register_added:
  assumes wf: "wf_registry r" and room: "er_count r < MAX_CALLBACKS_PER_EVENT"
    and new: "find_callback r cb 0 = None" and ok: "entry_ok e" "ce_callback e = Some cb"
  shows "listeners \<lparr>er_callbacks = (er_callbacks r)[er_count r := e], er_count = er_count r + 1\<rparr> = listeners r @ [e]"
    and "wf_registry \<lparr>er_callbacks = (er_callbacks r)[er_count r := e], er_count = er_count r + 1\<rparr>"
proof -
  let ?r = "\<lparr>er_callbacks = (er_callbacks r)[er_count r := e], er_count = er_count r + 1\<rparr>"
  show l: "listeners ?r = listeners r @ [e]"
    using wf room by (simp add: listeners_def wf_registry_def take_Suc_conv_app_nth)
  have "Some cb \<notin> ce_callback ` set (listeners r)"
    using new find_callback_iff[OF wf] by blast
  moreover have "drop (er_count r + 1) (er_callbacks r) = replicate (MAX_CALLBACKS_PER_EVENT - (er_count r + 1)) entry_zero"
  proof -
    have "drop (er_count r + 1) (er_callbacks r) = drop 1 (drop (er_count r) (er_callbacks r))" by simp
    also have "\<dots> = drop 1 (replicate (MAX_CALLBACKS_PER_EVENT - er_count r) entry_zero)"
      using wf by (simp only: wf_registry_def)
    finally show ?thesis by (simp add: drop_replicate)
  qed
  ultimately show "wf_registry ?r"
    using wf room ok by (simp add: wf_registry_def l [simplified])
qed

text \<open>The operations in terms of the listeners.\<close>

lemma register_spec:
  assumes inv: "em_inv em" and t: "t < EVENT_COUNT" and on: "em_initialized em" and nm: "nm \<noteq> []"
  shows "event_manager_register t (Some cb) ud (Some nm) em =
     (if Some cb \<in> ce_callback ` set (em_listeners em t) then (RESULT_ALREADY_INITIALIZED, em)
      else if length (em_listeners em t) = MAX_CALLBACKS_PER_EVENT then (RESULT_ERROR, em)
      else (RESULT_SUCCESS, snd (event_manager_register t (Some cb) ud (Some nm) em)))"
    and "Some cb \<notin> ce_callback ` set (em_listeners em t) \<Longrightarrow> length (em_listeners em t) \<noteq> MAX_CALLBACKS_PER_EVENT \<Longrightarrow>
      em_listeners (snd (event_manager_register t (Some cb) ud (Some nm) em)) t' =
        (if t' = t then em_listeners em t @ [\<lparr>ce_callback = Some cb, ce_user_data = ud, ce_module_name = Some nm, ce_active = True\<rparr>]
         else em_listeners em t')"
proof -
  note wf = em_inv_registry[OF inv t]
  let ?r = "em_registries em ! t"
  have bound: "er_count ?r \<le> MAX_CALLBACKS_PER_EVENT" and len: "length (em_listeners em t) = er_count ?r"
    using wf length_listeners[OF wf] by (simp_all add: wf_registry_def em_listeners_def)
  show "event_manager_register t (Some cb) ud (Some nm) em =
     (if Some cb \<in> ce_callback ` set (em_listeners em t) then (RESULT_ALREADY_INITIALIZED, em)
      else if length (em_listeners em t) = MAX_CALLBACKS_PER_EVENT then (RESULT_ERROR, em)
      else (RESULT_SUCCESS, snd (event_manager_register t (Some cb) ud (Some nm) em)))"
    using t on nm bound len find_callback_iff[OF wf, of cb]
    by (auto simp: event_manager_register_def event_manager_is_valid_event_def Let_def em_listeners_def)
  assume new: "Some cb \<notin> ce_callback ` set (em_listeners em t)" and room: "length (em_listeners em t) \<noteq> MAX_CALLBACKS_PER_EVENT"
  have "find_callback ?r cb 0 = None" "er_count ?r < MAX_CALLBACKS_PER_EVENT"
    using new room bound len find_callback_iff[OF wf, of cb] by (simp_all add: em_listeners_def)
  with register_added(1)[OF wf this(2) this(1), of "\<lparr>ce_callback = Some cb, ce_user_data = ud, ce_module_name = Some nm, ce_active = True\<rparr>"]
  show "em_listeners (snd (event_manager_register t (Some cb) ud (Some nm) em)) t' =
        (if t' = t then em_listeners em t @ [\<lparr>ce_callback = Some cb, ce_user_data = ud, ce_module_name = Some nm, ce_active = True\<rparr>]
         else em_listeners em t')"
    using t on nm inv
    by (simp add: event_manager_register_def event_manager_is_valid_event_def Let_def event_simps entry_ok_def)
      (simp add: em_listeners_def)
qed

lemma unregister_spec:
  assumes inv: "em_inv em" and t: "t < EVENT_COUNT" and on: "em_initialized em"
  shows "event_manager_unregister t (Some cb) em =
     (if Some cb \<in> ce_callback ` set (em_listeners em t)
      then (RESULT_SUCCESS, snd (event_manager_unregister t (Some cb) em)) else (RESULT_ERROR, em))"
    and "em_inv (snd (event_manager_unregister t (Some cb) em))"
    and "mset (em_listeners (snd (event_manager_unregister t (Some cb) em)) t') =
        (if t' = t then filter_mset (\<lambda>e. ce_callback e \<noteq> Some cb) (mset (em_listeners em t)) else mset (em_listeners em t'))"
    and "Some cb = ce_callback (em_listeners em t ! i) \<Longrightarrow> i < length (em_listeners em t) \<Longrightarrow>
      snd (event_manager_unregister t (Some cb) em) = set_registry em t (snd (registry_remove_index (em_registries em ! t) i))"
proof -
  note wf = em_inv_registry[OF inv t]
  let ?r = "em_registries em ! t" and ?em = "snd (event_manager_unregister t (Some cb) em)"
  have len: "length (listeners ?r) = er_count ?r" by (rule length_listeners[OF wf])
  have dist: "distinct (map ce_callback (listeners ?r))" using wf by (simp add: wf_registry_def)
  have e: "event_manager_unregister t (Some cb) em = (case find_callback ?r cb 0 of None \<Rightarrow> (RESULT_ERROR, em)
      | Some i \<Rightarrow> (RESULT_SUCCESS, set_registry em t (snd (registry_remove_index ?r i))))"
    using t on by (simp add: event_manager_unregister_def event_manager_is_valid_event_def Let_def)
  show "event_manager_unregister t (Some cb) em =
     (if Some cb \<in> ce_callback ` set (em_listeners em t) then (RESULT_SUCCESS, ?em) else (RESULT_ERROR, em))"
    using find_callback_iff[OF wf, of cb] by (auto simp: e em_listeners_def split: option.splits)
  show "em_inv ?em"
    using find_callback_Some[OF wf] registry_remove_listeners(3)[OF wf] em_inv_set_registry[OF inv] inv
    by (auto simp: e split: option.splits)
  have gone: "filter_mset (\<lambda>e. ce_callback e \<noteq> Some cb) (mset (listeners ?r)) = mset (swap_remove j (listeners ?r))"
    if j: "j < er_count ?r" "ce_callback (listeners ?r ! j) = Some cb" for j
  proof -
    have jl: "j < length (listeners ?r)" using j len by simp
    have "mset (map ce_callback (listeners ?r ! j # swap_remove j (listeners ?r))) = mset (map ce_callback (listeners ?r))"
      using mset_swap_remove[OF jl] by (metis mset.simps(2) mset_map)
    from mset_eq_imp_distinct_iff[OF this] dist
    have "Some cb \<notin> ce_callback ` set (swap_remove j (listeners ?r))" using j by auto
    then have "filter_mset (\<lambda>e. ce_callback e \<noteq> Some cb) (mset (swap_remove j (listeners ?r))) = mset (swap_remove j (listeners ?r))"
      by (auto simp: filter_mset_eq_conv image_iff)
    then show ?thesis using mset_swap_remove[OF jl] j by (metis (mono_tags, lifting) filter_mset_add_mset)
  qed
  have none: "filter_mset (\<lambda>e. ce_callback e \<noteq> Some cb) (mset (listeners ?r)) = mset (listeners ?r)"
    if "find_callback ?r cb 0 = None"
    using that find_callback_iff[OF wf, of cb] by (auto simp: filter_mset_eq_conv image_iff)
  show "mset (em_listeners ?em t') =
        (if t' = t then filter_mset (\<lambda>e. ce_callback e \<noteq> Some cb) (mset (em_listeners em t)) else mset (em_listeners em t'))"
  proof (cases "find_callback ?r cb 0")
    case None
    then show ?thesis using none by (simp add: e em_listeners_def)
  next
    case (Some j)
    from find_callback_Some[OF wf this] have j: "j < er_count ?r" "ce_callback (listeners ?r ! j) = Some cb" by simp_all
    show ?thesis
      using Some gone[OF j] registry_remove_listeners(1)[OF wf j(1)]
      by (simp add: e em_listeners_set_registry[OF inv t]) (simp add: em_listeners_def)
  qed
  assume i: "Some cb = ce_callback (em_listeners em t ! i)" "i < length (em_listeners em t)"
  have "find_callback ?r cb 0 = Some i"
  proof (cases "find_callback ?r cb 0")
    case None
    with i find_callback_None[OF wf None, of i] len show ?thesis by (simp add: em_listeners_def)
  next
    case (Some j)
    from find_callback_Some[OF wf this] i dist len have "j = i"
      by (auto simp: em_listeners_def distinct_conv_nth)
    with Some show ?thesis by simp
  qed
  then show "?em = set_registry em t (snd (registry_remove_index ?r i))" by (simp add: e)
qed

lemma register_inv:
  assumes inv: "em_inv em"
  shows "em_inv (snd (event_manager_register t cb ud nm em))"
proof (cases "em_initialized em \<and> t < EVENT_COUNT \<and> cb \<noteq> None \<and> nm \<noteq> None \<and> nm \<noteq> Some []")
  case True
  then obtain c where c: "cb = Some c" by auto
  note wf = em_inv_registry[OF inv conjunct1[OF conjunct2[OF True]]]
  show ?thesis
    using True inv em_inv_set_registry[OF inv register_added(2)[OF wf], of c]
    by (auto simp: c event_manager_register_def Let_def entry_ok_def)
next
  case False
  then show ?thesis
    using inv by (auto simp: event_manager_register_def event_manager_is_valid_event_def split: option.splits)
qed

lemma unregister_inv:
  assumes "em_inv em"
  shows "em_inv (snd (event_manager_unregister t cb em))"
proof (cases "em_initialized em \<and> t < EVENT_COUNT \<and> cb \<noteq> None")
  case True
  then show ?thesis using unregister_spec(2)[OF assms] by auto
next
  case False
  then show ?thesis
    using assms by (auto simp: event_manager_unregister_def event_manager_is_valid_event_def split: option.splits)
qed

lemma unregister_module_inv:
  assumes "em_inv em"
  shows "em_inv (snd (event_manager_unregister_module nm em))"
  using assms remove_module_loop_spec
  by (auto simp: event_manager_unregister_module_def em_inv_def list_all_length split: option.splits)

lemma init_inv: "em_inv em \<Longrightarrow> em_inv (snd (event_manager_init em))"
  using em_inv_boot by (simp add: event_manager_init_def em_inv_def)

lemma deinit_inv: "em_inv em \<Longrightarrow> em_inv (snd (event_manager_deinit em))"
  by (simp add: event_manager_deinit_def em_inv_def list_all_length)

text \<open>What the rest of the program can do to the registries.\<close>

inductive em_step :: "event_manager \<Rightarrow> event_manager \<Rightarrow> bool" where
  step_init: "em_step em (snd (event_manager_init em))"
| step_deinit: "em_step em (snd (event_manager_deinit em))"
| step_register: "em_step em (snd (event_manager_register t cb ud nm em))"
| step_unregister: "em_step em (snd (event_manager_unregister t cb em))"
| step_unregister_module: "em_step em (snd (event_manager_unregister_module nm em))"

lemma em_step_inv: "em_step em em' \<Longrightarrow> em_inv em \<Longrightarrow> em_inv em'"
  by (induction rule: em_step.induct)
    (simp_all add: init_inv deinit_inv register_inv unregister_inv unregister_module_inv)

lemma em_reach_inv: "em_step\<^sup>*\<^sup>* em em' \<Longrightarrow> em_inv em \<Longrightarrow> em_inv em'"
  by (induction rule: rtranclp_induct) (auto intro: em_step_inv)

lemma drop_replicate_nth: "drop c xs = replicate k z \<Longrightarrow> c \<le> i \<Longrightarrow> i < length xs \<Longrightarrow> xs ! i = z"
proof -
  assume d: "drop c xs = replicate k z" and i: "c \<le> i" "i < length xs"
  have "length xs - c = k" using arg_cong[OF d, of length] by simp
  then have "i - c < k" using i by linarith
  then have "drop c xs ! (i - c) = z" unfolding d by simp
  then show "xs ! i = z" using i by simp
qed

text \<open>C39: the registries stay well formed. Whatever sequence of initialisation, registration and removal
  runs from power-up, an event has at most sixteen listeners, every listener is active with a
  callback and a module name, no callback is listed twice for one event, the slots behind the
  counted ones are zero, and the reported listener count is their number (-1 before
  initialisation).\<close>

theorem event_registry_invariant:
  assumes "em_step\<^sup>*\<^sup>* em_boot em" and "t < EVENT_COUNT"
  shows "length (em_listeners em t) \<le> 16 \<and> list_all entry_ok (em_listeners em t) \<and>
    distinct (map ce_callback (em_listeners em t)) \<and>
    (\<forall>i. length (em_listeners em t) \<le> i \<and> i < 16 \<longrightarrow> er_callbacks (em_registries em ! t) ! i = entry_zero) \<and>
    event_manager_get_listener_count t em = (if em_initialized em then int (length (em_listeners em t)) else -1)"
proof -
  from em_reach_inv[OF assms(1) em_inv_boot] have wf: "wf_registry (em_registries em ! t)"
    using assms(2) by (rule em_inv_registry)
  note len = length_listeners[OF wf]
  have "er_callbacks (em_registries em ! t) ! i = entry_zero" if "er_count (em_registries em ! t) \<le> i" "i < 16" for i
    using wf that by (intro drop_replicate_nth) (auto simp: wf_registry_def MAX_CALLBACKS_PER_EVENT_def)
  then show ?thesis
    using wf len assms(2)
    by (auto simp: em_listeners_def wf_registry_def MAX_CALLBACKS_PER_EVENT_def event_manager_get_listener_count_def
        event_manager_is_valid_event_def)
qed

definition em_demo :: event_manager where
  "em_demo = snd (event_manager_register 3 (Some 8) 0 (Some ''gps'') (snd (event_manager_register 3 (Some 7) 0 (Some ''tcp'')
     (snd (event_manager_init em_boot)))))"

lemma em_demo_reached: "em_step\<^sup>*\<^sup>* em_boot em_demo"
  unfolding em_demo_def
  by (rule rtranclp.rtrancl_into_rtrancl[OF rtranclp.rtrancl_into_rtrancl[OF rtranclp.rtrancl_into_rtrancl[OF rtranclp.rtrancl_refl]]])
    (rule step_init step_register)+

lemma em_demo_inv: "em_inv em_demo"
  by (rule em_reach_inv[OF em_demo_reached em_inv_boot])

lemma em_demo_listeners: "em_initialized em_demo \<and> em_listeners em_demo 3 =
  [\<lparr>ce_callback = Some 7, ce_user_data = 0, ce_module_name = Some ''tcp'', ce_active = True\<rparr>,
   \<lparr>ce_callback = Some 8, ce_user_data = 0, ce_module_name = Some ''gps'', ce_active = True\<rparr>]"
  by code_simp

theorem event_registry_invariant_witness: "event_manager_get_listener_count 3 em_demo = 2"
  using event_registry_invariant [OF em_demo_reached, of 3] em_demo_listeners by (simp add: EVENT_COUNT_def)

text \<open>Registration and removal do exactly what they say. On an initialised manager, registering a
  callback that is not listening appends it, and is refused with nothing changed when it is
  listening already or sixteen others are; unregistering removes exactly that callback or reports
  an error, changing nothing; unregistering a module removes exactly its callbacks from every event.
  The other events are not touched, and the remaining listeners are kept (their order may change).\<close>

theorem event_registration:
  assumes inv: "em_inv em" and t: "t < EVENT_COUNT" "t' < EVENT_COUNT" and on: "em_initialized em" and nm: "nm \<noteq> []"
  shows "(if Some cb \<in> ce_callback ` set (em_listeners em t)
     then event_manager_register t (Some cb) ud (Some nm) em = (RESULT_ALREADY_INITIALIZED, em)
     else if length (em_listeners em t) = 16 then event_manager_register t (Some cb) ud (Some nm) em = (RESULT_ERROR, em)
     else \<exists>em'. event_manager_register t (Some cb) ud (Some nm) em = (RESULT_SUCCESS, em') \<and> em_inv em' \<and>
       em_listeners em' t' = em_listeners em t' @ (if t' = t then
         [\<lparr>ce_callback = Some cb, ce_user_data = ud, ce_module_name = Some nm, ce_active = True\<rparr>] else [])) \<and>
    (if Some cb \<in> ce_callback ` set (em_listeners em t)
     then \<exists>em'. event_manager_unregister t (Some cb) em = (RESULT_SUCCESS, em') \<and> em_inv em' \<and>
       mset (em_listeners em' t') =
         filter_mset (\<lambda>e. t' = t \<longrightarrow> ce_callback e \<noteq> Some cb) (mset (em_listeners em t'))
     else event_manager_unregister t (Some cb) em = (RESULT_ERROR, em)) \<and>
    (\<exists>em'. event_manager_unregister_module (Some nm) em = (RESULT_SUCCESS, em') \<and> em_inv em' \<and>
       mset (em_listeners em' t') = filter_mset (\<lambda>e. ce_module_name e \<noteq> Some nm) (mset (em_listeners em t')))"
proof (intro conjI)
  show "if Some cb \<in> ce_callback ` set (em_listeners em t)
     then event_manager_register t (Some cb) ud (Some nm) em = (RESULT_ALREADY_INITIALIZED, em)
     else if length (em_listeners em t) = 16 then event_manager_register t (Some cb) ud (Some nm) em = (RESULT_ERROR, em)
     else \<exists>em'. event_manager_register t (Some cb) ud (Some nm) em = (RESULT_SUCCESS, em') \<and> em_inv em' \<and>
       em_listeners em' t' = em_listeners em t' @ (if t' = t then
         [\<lparr>ce_callback = Some cb, ce_user_data = ud, ce_module_name = Some nm, ce_active = True\<rparr>] else [])"
    using register_spec[OF inv t(1) on nm, of cb ud] register_inv[OF inv, of t "Some cb" ud "Some nm"]
    by (auto simp: MAX_CALLBACKS_PER_EVENT_def)
  show "if Some cb \<in> ce_callback ` set (em_listeners em t)
     then \<exists>em'. event_manager_unregister t (Some cb) em = (RESULT_SUCCESS, em') \<and> em_inv em' \<and>
       mset (em_listeners em' t') =
         filter_mset (\<lambda>e. t' = t \<longrightarrow> ce_callback e \<noteq> Some cb) (mset (em_listeners em t'))
     else event_manager_unregister t (Some cb) em = (RESULT_ERROR, em)"
    using unregister_spec(1-3)[OF inv t(1) on, of cb] by auto
  show "\<exists>em'. event_manager_unregister_module (Some nm) em = (RESULT_SUCCESS, em') \<and> em_inv em' \<and>
       mset (em_listeners em' t') = filter_mset (\<lambda>e. ce_module_name e \<noteq> Some nm) (mset (em_listeners em t'))"
    using unregister_module_inv[OF inv, of "Some nm"] remove_module_loop_spec[OF em_inv_registry[OF inv t(2)], of nm 0] on nm t inv
    by (simp add: event_manager_unregister_module_def em_listeners_def em_inv_def)
qed

theorem event_registration_witness:
  "fst (event_manager_register 3 (Some 8) 1 (Some ''sms'') em_demo) = RESULT_ALREADY_INITIALIZED"
  using event_registration [OF em_demo_inv, of 3 3 "''sms''" 8 1] em_demo_listeners by (simp add: EVENT_COUNT_def)

subsection \<open>Broadcast\<close>

text \<open>What a broadcast runs when the callbacks leave the registries alone: every listener, in order.\<close>

definition notify ::
    "(nat \<Rightarrow> event_data \<Rightarrow> nat \<Rightarrow> event_manager \<times> 'w \<Rightarrow> event_manager \<times> 'w) \<Rightarrow> event_data \<Rightarrow>
     event_manager \<Rightarrow> callback_entry list \<Rightarrow> 'w \<Rightarrow> 'w" where
  "notify call ev em es w = fold (\<lambda>e w. snd (call (the (ce_callback e)) ev (ce_user_data e) (em, w))) es w"

lemma broadcast_loop_quiet:
  assumes ok: "list_all entry_ok (take n (drop i (er_callbacks (em_registries em ! t))))"
    and len: "i + n \<le> length (er_callbacks (em_registries em ! t))"
    and quiet: "\<forall>e \<in> set (take n (drop i (er_callbacks (em_registries em ! t)))). \<forall>w.
       fst (call (the (ce_callback e)) ev (ce_user_data e) (em, w)) = em"
  shows "broadcast_loop call t ev n i (em, w) = (em, notify call ev em (take n (drop i (er_callbacks (em_registries em ! t)))) w)"
  using assms
proof (induction n arbitrary: i w)
  case 0
  then show ?case by (simp add: notify_def)
next
  case (Suc n)
  let ?cs = "er_callbacks (em_registries em ! t)"
  have d: "drop i ?cs = ?cs ! i # drop (i + 1) ?cs"
    using Suc.prems(2) by (simp add: Cons_nth_drop_Suc)
  obtain cb where cb: "ce_callback (?cs ! i) = Some cb" and act: "ce_active (?cs ! i)"
    using Suc.prems(1) by (auto simp: d entry_ok_def)
  have q: "call cb ev (ce_user_data (?cs ! i)) (em, w) = (em, snd (call cb ev (ce_user_data (?cs ! i)) (em, w)))" for w
    using Suc.prems(3) cb by (simp add: d prod_eq_iff)
  have "broadcast_loop call t ev n (i + 1) (em, w) = (em, notify call ev em (take n (drop (i + 1) ?cs)) w)" for w
    using Suc.prems by (intro Suc.IH) (simp_all add: d)
  then show ?case
    using cb act q[of w] by (simp add: d Let_def) (metis (no_types, lifting) fold_simps(2) notify_def option.sel)
qed

lemma broadcast_starts:
  assumes "em_inv em" and "t < EVENT_COUNT" and "em_initialized em" and "src \<noteq> []"
  shows "event_manager_broadcast call t (Some src) data sz (em, w) =
    (RESULT_SUCCESS, broadcast_loop call t
      \<lparr>ed_type = t, ed_source_module = src, ed_data = data, ed_data_size = sz\<rparr> (length (em_listeners em t)) 0 (em, w))"
  using assms length_listeners[OF em_inv_registry[OF assms(1,2)]]
  by (simp add: event_manager_broadcast_def event_manager_is_valid_event_def Let_def em_listeners_def)

lemma broadcast_quiet:
  assumes inv: "em_inv em" and t: "t < EVENT_COUNT" and on: "em_initialized em" and src: "src \<noteq> []"
    and quiet: "\<forall>e \<in> set (em_listeners em t). \<forall>ev w. fst (call (the (ce_callback e)) ev (ce_user_data e) (em, w)) = em"
  shows "event_manager_broadcast call t (Some src) data sz (em, w) = (RESULT_SUCCESS, em,
    fold (\<lambda>e w. snd (call (the (ce_callback e))
        \<lparr>ed_type = t, ed_source_module = src, ed_data = data, ed_data_size = sz\<rparr> (ce_user_data e) (em, w)))
      (em_listeners em t) w)"
proof -
  note wf = em_inv_registry[OF inv t]
  have l: "take (length (em_listeners em t)) (drop 0 (er_callbacks (em_registries em ! t))) = em_listeners em t"
    using length_listeners[OF wf] by (simp add: em_listeners_def) (simp add: listeners_def)
  show ?thesis
    unfolding broadcast_starts[OF inv t on src]
    using wf quiet by (subst broadcast_loop_quiet) (simp_all only: l, auto simp: notify_def wf_registry_def em_listeners_def listeners_def)
qed

text \<open>a broadcast reaches every listener. When the callbacks listening to an event leave the
  registries alone, broadcasting it calls each of them exactly once, in the order of the registry,
  with the event's type, source and data and the user data of its registration.\<close>

theorem broadcast_notifies_all:
  assumes inv: "em_inv em" and t: "t < EVENT_COUNT" and on: "em_initialized em" and src: "src \<noteq> []"
    and quiet: "\<forall>e \<in> set (em_listeners em t). \<forall>ev w. fst (call (the (ce_callback e)) ev (ce_user_data e) (em, w)) = em"
  shows "event_manager_broadcast call t (Some src) data sz (em, w) = (RESULT_SUCCESS, em,
    fold (\<lambda>e w. snd (call (the (ce_callback e))
        \<lparr>ed_type = t, ed_source_module = src, ed_data = data, ed_data_size = sz\<rparr> (ce_user_data e) (em, w)))
      (em_listeners em t) w)"
  using assms by (rule broadcast_quiet)

theorem broadcast_notifies_all_witness:
  "event_manager_broadcast (\<lambda>cb ev ud (em, w). (em, w @ [cb])) 3 (Some ''sim'') None 0 (em_demo, []) = (RESULT_SUCCESS, em_demo, [7, 8])"
  using broadcast_notifies_all [OF em_demo_inv, of 3 "''sim''" "\<lambda>cb ev ud (em, w). (em, w @ [cb])" None 0 "[]"] em_demo_listeners
  by (simp add: EVENT_COUNT_def)

text \<open>A callback \<open>cb\<close> that unregisters itself when it is called, among others that leave the registries
  alone; \<open>f\<close> is what the callbacks do to the rest of the program.\<close>

definition self_removing ::
    "nat \<Rightarrow> nat \<Rightarrow> (nat \<Rightarrow> event_data \<Rightarrow> nat \<Rightarrow> 'w \<Rightarrow> 'w) \<Rightarrow> nat \<Rightarrow> event_data \<Rightarrow> nat \<Rightarrow> event_manager \<times> 'w \<Rightarrow> event_manager \<times> 'w" where
  "self_removing cb t f c ev ud s =
     ((if c = cb then snd (event_manager_unregister t (Some cb) (fst s)) else fst s), f c ev ud (snd s))"

definition effect :: "(nat \<Rightarrow> event_data \<Rightarrow> nat \<Rightarrow> 'w \<Rightarrow> 'w) \<Rightarrow> event_data \<Rightarrow> callback_entry \<Rightarrow> 'w \<Rightarrow> 'w" where
  "effect f ev e = f (the (ce_callback e)) ev (ce_user_data e)"

lemma broadcast_loop_add:
  "broadcast_loop call t ev (m + n) i s = broadcast_loop call t ev n (i + m) (broadcast_loop call t ev m i s)"
  by (induction m arbitrary: i s) (simp_all add: Let_def)

lemma broadcast_loop_others:
  assumes wf: "wf_registry (em_registries em ! t)" and n: "i + n \<le> length (em_listeners em t)"
    and cb: "Some cb \<notin> ce_callback ` set (take n (drop i (em_listeners em t)))"
  shows "broadcast_loop (self_removing cb t f) t ev n i (em, w) = (em, fold (effect f ev) (take n (drop i (em_listeners em t))) w)"
proof -
  let ?cs = "er_callbacks (em_registries em ! t)"
  have c: "length (em_listeners em t) = er_count (em_registries em ! t)" "er_count (em_registries em ! t) \<le> length ?cs"
    using wf length_listeners[OF wf] by (simp_all add: em_listeners_def wf_registry_def)
  have d: "take n (drop i ?cs) = take n (drop i (em_listeners em t))"
    using n c by (simp add: em_listeners_def listeners_def drop_take)
  have ok: "list_all entry_ok (em_listeners em t)" using wf by (simp add: wf_registry_def em_listeners_def)
  have ok': "list_all entry_ok (take n (drop i (em_listeners em t)))"
    using ok by (auto simp: list_all_iff dest!: in_set_takeD in_set_dropD)
  have other: "the (ce_callback e) \<noteq> cb" if "e \<in> set (take n (drop i (em_listeners em t)))" for e
    using that ok' cb by (auto simp: list_all_iff entry_ok_def image_iff)
  have "notify (self_removing cb t f) ev em (take n (drop i ?cs)) w = fold (effect f ev) (take n (drop i ?cs)) w"
    unfolding notify_def by (rule fold_cong) (simp_all add: d other self_removing_def effect_def fun_eq_iff)
  then show ?thesis
    using n c other ok' by (subst broadcast_loop_quiet) (simp_all only: d, auto simp: self_removing_def)
qed

text \<open>The rounds after the removal: the listeners that are left in their places, then an empty slot.\<close>

lemma broadcast_after_removal:
  assumes wf: "wf_registry (em_registries em ! t)" and i: "i < length (em_listeners em t)" "ce_callback (em_listeners em t ! i) = Some cb"
    and r': "em_registries em' ! t = snd (registry_remove_index (em_registries em ! t) i)"
  shows "broadcast_loop (self_removing cb t f) t ev (length (em_listeners em t) - i - 1) (i + 1) (em', w) =
    (em', fold (effect f ev) (if i + 1 < length (em_listeners em t) then drop (i + 1) (butlast (em_listeners em t)) else []) w)"
proof -
  let ?L = "em_listeners em t" and ?r = "em_registries em ! t"
  have len: "length ?L = er_count ?r" and ir: "i < er_count ?r"
    using length_listeners[OF wf] i by (simp_all add: em_listeners_def)
  note rr = registry_remove_listeners[OF wf ir]
  have L': "em_listeners em' t = swap_remove i ?L" and wf': "wf_registry (em_registries em' ! t)"
    using rr by (simp_all add: em_listeners_def r')
  have "distinct (map ce_callback ?L)" using wf by (simp add: wf_registry_def em_listeners_def)
  moreover have "?L = take i ?L @ ?L ! i # drop (i + 1) ?L" using i by (simp add: id_take_nth_drop)
  ultimately have dist': "distinct (map ce_callback (take i ?L @ ?L ! i # drop (i + 1) ?L))" by metis
  show ?thesis
  proof (cases "i + 1 < length ?L")
    case False
    then have "length ?L - i - 1 = 0" by simp
    then show ?thesis using False by (simp only: if_False) simp
  next
    case True
    then obtain m where m: "length ?L = i + 2 + m" by (metis add.commute add_2_eq_Suc' add_Suc_right less_iff_Suc_add add_Suc Suc_eq_plus1)
    have d: "take m (drop (i + 1) (em_listeners em' t)) = drop (i + 1) (butlast ?L)"
      using m by (simp add: L' swap_remove_def)
    have sw: "drop (Suc i) (swap_remove i ?L) = drop (Suc i) (butlast ?L)" by (simp add: swap_remove_def)
    have "set (drop (i + 1) (butlast ?L)) \<subseteq> set (drop (i + 1) ?L)"
      by (metis butlast_drop in_set_butlastD subsetI)
    then have "Some cb \<notin> ce_callback ` set (take m (drop (i + 1) (em_listeners em' t)))"
      using dist' i unfolding d by (auto simp: image_iff)
    with broadcast_loop_others[OF wf', of "i + 1" m cb f ev] m
    have a: "broadcast_loop (self_removing cb t f) t ev m (i + 1) (em', w) =
        (em', fold (effect f ev) (drop (i + 1) (butlast ?L)) w)" for w
      by (simp add: L' sw)
    have "er_callbacks (em_registries em' ! t) ! (i + 1 + m) = entry_zero"
    proof (rule drop_replicate_nth)
      show "drop (er_count (em_registries em' ! t)) (er_callbacks (em_registries em' ! t)) =
          replicate (MAX_CALLBACKS_PER_EVENT - er_count (em_registries em' ! t)) entry_zero"
        using wf' by (simp add: wf_registry_def)
      show "er_count (em_registries em' ! t) \<le> i + 1 + m" using rr(2) m len by (simp add: r')
      show "i + 1 + m < length (er_callbacks (em_registries em' ! t))"
        using wf' wf m len by (simp add: wf_registry_def)
    qed
    then have z: "broadcast_loop (self_removing cb t f) t ev 1 (i + 1 + m) (em', w) = (em', w)" for w
      by (simp add: Let_def entry_zero_def)
    have "length ?L - i - 1 = m + 1" using m by simp
    then show ?thesis using True by (simp only: broadcast_loop_add a z if_True)
  qed
qed

lemma take_last_swap:
  assumes "i < length xs"
  shows "take i xs @ xs ! i # (if i + 1 < length xs then drop (i + 1) (butlast xs) else []) = (if i + 1 < length xs then butlast xs else xs)"
proof (cases "i + 1 < length xs")
  case True
  then have "i < length (butlast xs)" by simp
  from id_take_nth_drop[OF this] True show ?thesis by (simp add: take_butlast nth_butlast)
next
  case False
  then have "drop (i + 1) xs = []" by simp
  with id_take_nth_drop[OF assms] False show ?thesis by simp
qed

text \<open>a listener that unregisters itself costs another listener the event. When a callback removes
  itself during a broadcast, the last entry moves to a slot the loop has passed: the broadcast still
  reports success, and every listener is called once except the last one of the registry (unless
  the last is the one that removed itself), which misses this event but stays registered.\<close>

theorem broadcast_self_removal_skips_last:
  assumes inv: "em_inv em" and t: "t < EVENT_COUNT" and on: "em_initialized em" and src: "src \<noteq> []"
    and i: "i < length (em_listeners em t)" "ce_callback (em_listeners em t ! i) = Some cb"
  shows "\<exists>em'. event_manager_broadcast (self_removing cb t f) t (Some src) data sz (em, w) = (RESULT_SUCCESS, em',
      fold (effect f \<lparr>ed_type = t, ed_source_module = src, ed_data = data, ed_data_size = sz\<rparr>)
        (if i + 1 < length (em_listeners em t) then butlast (em_listeners em t) else em_listeners em t) w) \<and>
    mset (em_listeners em' t) = filter_mset (\<lambda>e. ce_callback e \<noteq> Some cb) (mset (em_listeners em t))"
proof -
  let ?L = "em_listeners em t" and ?r = "em_registries em ! t"
  let ?ev = "\<lparr>ed_type = t, ed_source_module = src, ed_data = data, ed_data_size = sz\<rparr>"
  define em' where "em' = snd (event_manager_unregister t (Some cb) em)"
  note wf = em_inv_registry[OF inv t]
  have len: "length ?L = er_count ?r" and ir: "i < er_count ?r"
    using length_listeners[OF wf] i by (simp_all add: em_listeners_def)
  have em': "em' = set_registry em t (snd (registry_remove_index ?r i))"
    unfolding em'_def using i by (intro unregister_spec(4)[OF inv t on]) simp_all
  have r': "em_registries em' ! t = snd (registry_remove_index ?r i)"
    using inv t by (simp add: em' set_registry_def em_inv_def)
  have dist: "distinct (map ce_callback ?L)" using wf by (simp add: wf_registry_def em_listeners_def)
  have split: "?L = take i ?L @ ?L ! i # drop (i + 1) ?L" using i by (simp add: id_take_nth_drop)
  have dist': "distinct (map ce_callback (take i ?L @ ?L ! i # drop (i + 1) ?L))"
    using dist split by metis
  have first: "broadcast_loop (self_removing cb t f) t ?ev i 0 (em, w) = (em, fold (effect f ?ev) (take i ?L) w)" for w
    using broadcast_loop_others[OF wf, of 0 i cb f ?ev w] i dist' by (auto simp: image_iff)
  have act: "ce_active (er_callbacks ?r ! i)" and at: "er_callbacks ?r ! i = ?L ! i"
    using wf ir by (simp_all add: wf_registry_def list_all_length listeners_def entry_ok_def em_listeners_def)
  have step: "broadcast_loop (self_removing cb t f) t ?ev (Suc n) i (em, w) =
      broadcast_loop (self_removing cb t f) t ?ev n (i + 1) (em', effect f ?ev (?L ! i) w)" for n w
    using act at i by (simp add: Let_def self_removing_def effect_def em'_def)
  have rest: "broadcast_loop (self_removing cb t f) t ?ev (length ?L - i - 1) (i + 1) (em', w) =
      (em', fold (effect f ?ev) (if i + 1 < length ?L then drop (i + 1) (butlast ?L) else []) w)" for w
    by (rule broadcast_after_removal[OF wf i r'])
  have n: "length ?L = i + Suc (length ?L - i - 1)" using i by simp
  have run: "broadcast_loop (self_removing cb t f) t ?ev (length ?L) 0 (em, w) =
     (em', fold (effect f ?ev) (take i ?L @ ?L ! i # (if i + 1 < length ?L then drop (i + 1) (butlast ?L) else [])) w)"
    by (subst n, simp only: broadcast_loop_add first add_0 step rest) simp
  show ?thesis
    using run [unfolded take_last_swap[OF i(1)]] unregister_spec(3)[OF inv t on, of cb t] broadcast_starts[OF inv t on src, of "self_removing cb t f" data sz w]
    by (intro exI [of _ em']) (simp add: em'_def)
qed

theorem broadcast_self_removal_skips_last_witness:
  "\<exists>em'. event_manager_broadcast (self_removing 7 3 (\<lambda>c ev ud w. w @ [c])) 3 (Some ''sim'') None 0 (em_demo, []) =
    (RESULT_SUCCESS, em', [7])"
  using broadcast_self_removal_skips_last [OF em_demo_inv, of 3 "''sim''" 0 7 "\<lambda>c ev ud w. w @ [c]" None 0 "[]"] em_demo_listeners
  by (auto simp: EVENT_COUNT_def effect_def)

end
