(* ===== verification/State_Timeout.thy ===== *)
theory State_Timeout
  imports Event_Manager Utils
begin

text \<open>
  The watchdog of the module state machines, \<open>common/state_timeout.c\<close>: a timer per state, reset when
  the state changes, and an overall timer, reset in the desired states, on the wrapping millisecond
  counter. The program state of every function is the event registries, the timeout context and the
  rest \<open>'w\<close>; the counter, the event callbacks and the timeout callbacks are the environment \<open>'w
  timeout_env\<close>, and a callback may change all three. \<open>have\<close> says that the context pointer is not null.

  The counter is compared with an ideal clock \<open>T\<close> that does not wrap (\<open>clock_ok\<close>): reading it gives
  the ideal time modulo \<open>2 ^ 32\<close>, and time may pass while it is read.
\<close>

subsection \<open>State\<close>

definition STATE_TIMEOUT_ACTION_NONE :: nat where "STATE_TIMEOUT_ACTION_NONE = 0"
definition STATE_TIMEOUT_ACTION_RESET_SOFT :: nat where "STATE_TIMEOUT_ACTION_RESET_SOFT = 1"
definition STATE_TIMEOUT_ACTION_RESET_HARD :: nat where "STATE_TIMEOUT_ACTION_RESET_HARD = 2"
definition STATE_TIMEOUT_ACTION_CALLBACK :: nat where "STATE_TIMEOUT_ACTION_CALLBACK = 3"

lemmas timeout_actions = STATE_TIMEOUT_ACTION_NONE_def STATE_TIMEOUT_ACTION_RESET_SOFT_def
  STATE_TIMEOUT_ACTION_RESET_HARD_def STATE_TIMEOUT_ACTION_CALLBACK_def

record state_timeout_config =
  tc_state :: int
  tc_timeout_ms :: nat
  tc_action :: nat
  tc_reset_overall_on_entry :: bool

record timeout_ctx =
  st_current_state :: int
  st_state_entry_ticks :: nat
  st_overall_start_ticks :: nat
  st_state_timeouts :: "state_timeout_config list option"
  st_state_timeout_count :: nat
  st_current_state_config :: "state_timeout_config option"
  st_overall_timeout_ms :: nat
  st_overall_action :: nat
  st_state_timeout_callback :: "nat option"
  st_state_timeout_user_data :: nat
  st_overall_timeout_callback :: "nat option"
  st_overall_timeout_user_data :: nat
  st_timeout_count :: nat
  st_last_timeout_state :: int

type_synonym 'w timeout_state = "event_manager \<times> timeout_ctx \<times> 'w"

record 'w timeout_env =
  te_ticks :: "'w \<Rightarrow> nat \<times> 'w"
  te_event_call :: "nat \<Rightarrow> event_data \<Rightarrow> nat \<Rightarrow> 'w timeout_state \<Rightarrow> 'w timeout_state"
  te_timeout_call :: "nat \<Rightarrow> int \<Rightarrow> nat \<Rightarrow> bool \<Rightarrow> nat \<Rightarrow> 'w timeout_state \<Rightarrow> bool \<times> 'w timeout_state"

definition ctx_of :: "'w timeout_state \<Rightarrow> timeout_ctx" where
  "ctx_of s = fst (snd s)"

definition set_ctx :: "timeout_ctx \<Rightarrow> 'w timeout_state \<Rightarrow> 'w timeout_state" where
  "set_ctx c s = (fst s, c, snd (snd s))"

definition get_ticks :: "'w timeout_env \<Rightarrow> 'w timeout_state \<Rightarrow> nat \<times> 'w timeout_state" where
  "get_ticks E s = (let (t, w) = te_ticks E (snd (snd s)) in (t, fst s, fst (snd s), w))"

subsection \<open>Helpers of the module\<close>

text \<open>The search through the configuration array (\<open>st_state_timeout_count\<close> does not exceed its length).\<close>

definition find_state_config :: "timeout_ctx \<Rightarrow> int \<Rightarrow> state_timeout_config option" where
  "find_state_config ctx s =
     (case st_state_timeouts ctx of
        None \<Rightarrow> None
      | Some cs \<Rightarrow> if st_state_timeout_count ctx = 0 then None
          else find (\<lambda>c. tc_state c = s) (take (st_state_timeout_count ctx) cs))"

definition is_desired_state :: "timeout_ctx \<Rightarrow> bool" where
  "is_desired_state ctx =
     (case st_current_state_config ctx of None \<Rightarrow> False | Some c \<Rightarrow> tc_reset_overall_on_entry c)"

definition reset_overall_timeout :: "'w timeout_env \<Rightarrow> 'w timeout_state \<Rightarrow> 'w timeout_state" where
  "reset_overall_timeout E s =
     (let (t, s) = get_ticks E s in set_ctx ((ctx_of s)\<lparr>st_overall_start_ticks := t\<rparr>) s)"

definition rearm_if :: "'w timeout_env \<Rightarrow> bool \<times> 'w timeout_state \<Rightarrow> 'w timeout_state" where
  "rearm_if E r =
     (if fst r then let (t, s) = get_ticks E (snd r) in set_ctx ((ctx_of s)\<lparr>st_state_entry_ticks := t\<rparr>) s else snd r)"

definition handle_timeout_action ::
    "'w timeout_env \<Rightarrow> string \<Rightarrow> nat \<Rightarrow> int \<Rightarrow> nat \<Rightarrow> bool \<Rightarrow> 'w timeout_state \<Rightarrow> 'w timeout_state" where
  "handle_timeout_action E name action st elapsed is_overall s =
     (if action = STATE_TIMEOUT_ACTION_NONE then s
      else if action = STATE_TIMEOUT_ACTION_RESET_SOFT then
        snd (event_manager_broadcast (te_event_call E) EVENT_RESET_SOFT (Some name) None 0 s)
      else if action = STATE_TIMEOUT_ACTION_RESET_HARD then
        snd (event_manager_broadcast (te_event_call E) EVENT_RESET_HARD (Some name) None 0 s)
      else if action = STATE_TIMEOUT_ACTION_CALLBACK then
        (case (is_overall, st_overall_timeout_callback (ctx_of s), st_state_timeout_callback (ctx_of s)) of
           (True, Some cb, _) \<Rightarrow>
             rearm_if E (te_timeout_call E cb st elapsed True (st_overall_timeout_user_data (ctx_of s)) s)
         | (False, _, Some cb) \<Rightarrow>
             rearm_if E (te_timeout_call E cb st elapsed False (st_state_timeout_user_data (ctx_of s)) s)
         | _ \<Rightarrow> s)
      else s)"

definition check_state_timeout :: "'w timeout_env \<Rightarrow> string \<Rightarrow> 'w timeout_state \<Rightarrow> bool \<times> 'w timeout_state" where
  "check_state_timeout E name s =
     (case st_current_state_config (ctx_of s) of
        None \<Rightarrow> (False, s)
      | Some c \<Rightarrow>
          if st_current_state (ctx_of s) < 0 \<or> tc_timeout_ms c = 0 then (False, s)
          else let (now, s) = get_ticks E s; ctx = ctx_of s;
                   elapsed = utils_elapsed_ms_since now (st_state_entry_ticks ctx)
            in if elapsed < tc_timeout_ms c then (False, s)
               else (True, handle_timeout_action E name (tc_action c) (st_current_state ctx) elapsed False
                  (set_ctx (ctx\<lparr>st_timeout_count := u32 (st_timeout_count ctx + 1),
                                st_last_timeout_state := st_current_state ctx\<rparr>) s)))"

definition check_overall_timeout :: "'w timeout_env \<Rightarrow> string \<Rightarrow> 'w timeout_state \<Rightarrow> bool \<times> 'w timeout_state" where
  "check_overall_timeout E name s =
     (if st_overall_timeout_ms (ctx_of s) = 0 then (False, s)
      else if is_desired_state (ctx_of s) then (False, reset_overall_timeout E s)
      else let (now, s) = get_ticks E s; ctx = ctx_of s;
               elapsed = utils_elapsed_ms_since now (st_overall_start_ticks ctx)
        in if elapsed < st_overall_timeout_ms ctx then (False, s)
           else (True, reset_overall_timeout E
             (handle_timeout_action E name (st_overall_action ctx) (st_current_state ctx) elapsed True
               (set_ctx (ctx\<lparr>st_timeout_count := u32 (st_timeout_count ctx + 1)\<rparr>) s))))"

subsection \<open>Interface\<close>

definition state_timeout_init ::
    "'w timeout_env \<Rightarrow> bool \<Rightarrow> state_timeout_config list option \<Rightarrow> nat \<Rightarrow> nat \<Rightarrow> nat \<Rightarrow> nat option \<Rightarrow> nat \<Rightarrow>
     nat option \<Rightarrow> nat \<Rightarrow> 'w timeout_state \<Rightarrow> result \<times> 'w timeout_state" where
  "state_timeout_init E have cs n overall_ms overall_act scb sud ocb oud s =
     (if \<not> have \<or> (n > 0 \<and> cs = None) \<or> (overall_ms > 0 \<and> overall_act \<ge> STATE_TIMEOUT_ACTION_CALLBACK + 1)
      then (RESULT_INVALID_PARAM, s)
      else let (t1, s) = get_ticks E s; (t2, s) = get_ticks E s in
        (RESULT_SUCCESS, set_ctx
          \<lparr>st_current_state = -1, st_state_entry_ticks = t1, st_overall_start_ticks = t2,
           st_state_timeouts = cs, st_state_timeout_count = n, st_current_state_config = None,
           st_overall_timeout_ms = overall_ms, st_overall_action = overall_act,
           st_state_timeout_callback = scb, st_state_timeout_user_data = sud,
           st_overall_timeout_callback = ocb, st_overall_timeout_user_data = oud,
           st_timeout_count = 0, st_last_timeout_state = -1\<rparr> s))"

definition state_timeout_on_state_change :: "'w timeout_env \<Rightarrow> bool \<Rightarrow> int \<Rightarrow> 'w timeout_state \<Rightarrow> 'w timeout_state" where
  "state_timeout_on_state_change E have new_state s =
     (if \<not> have \<or> st_current_state (ctx_of s) = new_state then s
      else let (t, s) = get_ticks E s; ctx = ctx_of s;
               s = set_ctx (ctx\<lparr>st_current_state := new_state, st_state_entry_ticks := t,
                                st_current_state_config := find_state_config ctx new_state\<rparr>) s
        in if is_desired_state (ctx_of s) then reset_overall_timeout E s else s)"

definition state_timeout_check :: "'w timeout_env \<Rightarrow> bool \<Rightarrow> string option \<Rightarrow> 'w timeout_state \<Rightarrow> bool \<times> 'w timeout_state" where
  "state_timeout_check E have module_name s =
     (if \<not> have then (False, s)
      else case module_name of
        None \<Rightarrow> (False, s)
      | Some name \<Rightarrow>
          let (fired, s) = check_state_timeout E name s in
          if fired then (True, s) else check_overall_timeout E name s)"

definition state_timeout_reset :: "'w timeout_env \<Rightarrow> bool \<Rightarrow> 'w timeout_state \<Rightarrow> 'w timeout_state" where
  "state_timeout_reset E have s =
     (if \<not> have then s
      else let (t1, s) = get_ticks E s; (t2, s) = get_ticks E s in
        set_ctx ((ctx_of s)\<lparr>st_state_entry_ticks := t1, st_overall_start_ticks := t2\<rparr>) s)"

definition state_timeout_reset_overall :: "'w timeout_env \<Rightarrow> bool \<Rightarrow> 'w timeout_state \<Rightarrow> 'w timeout_state" where
  "state_timeout_reset_overall E have s = (if have then reset_overall_timeout E s else s)"

definition state_timeout_get_elapsed_ms :: "'w timeout_env \<Rightarrow> bool \<Rightarrow> 'w timeout_state \<Rightarrow> nat \<times> 'w timeout_state" where
  "state_timeout_get_elapsed_ms E have s =
     (if \<not> have then (0, s)
      else let (now, s) = get_ticks E s in (utils_elapsed_ms_since now (st_state_entry_ticks (ctx_of s)), s))"

definition state_timeout_get_overall_elapsed_ms :: "'w timeout_env \<Rightarrow> bool \<Rightarrow> 'w timeout_state \<Rightarrow> nat \<times> 'w timeout_state" where
  "state_timeout_get_overall_elapsed_ms E have s =
     (if \<not> have then (0, s)
      else let (now, s) = get_ticks E s in (utils_elapsed_ms_since now (st_overall_start_ticks (ctx_of s)), s))"

definition valid_state :: "int \<Rightarrow> bool" where
  "valid_state s \<longleftrightarrow> -1 \<le> s \<and> s \<le> 1000"

text \<open>\<open>last_state\<close> is the caller's variable, \<open>None\<close> a null pointer; its new value is returned.\<close>

definition state_timeout_process ::
    "'w timeout_env \<Rightarrow> bool \<Rightarrow> int \<Rightarrow> int option \<Rightarrow> string option \<Rightarrow> 'w timeout_state \<Rightarrow>
     bool \<times> int option \<times> 'w timeout_state" where
  "state_timeout_process E have current last_state module_name s =
     (if \<not> have \<or> last_state = None \<or> module_name = None \<or> \<not> valid_state current then (False, last_state, s)
      else let saved = (if valid_state (the last_state) then the last_state else current);
               changed = (current \<noteq> saved);
               s1 = (if changed then state_timeout_on_state_change E have current s else s)
        in if \<not> changed \<and> is_desired_state (ctx_of s1) \<and>
              (case st_current_state_config (ctx_of s1) of None \<Rightarrow> False | Some c \<Rightarrow> tc_timeout_ms c = 0)
           then (False, Some current, reset_overall_timeout E s1)
           else let (fired, s2) = state_timeout_check E have module_name s1 in (fired, Some current, s2))"

subsection \<open>The ideal clock\<close>

definition clock_ok :: "'w timeout_env \<Rightarrow> ('w \<Rightarrow> nat) \<Rightarrow> bool" where
  "clock_ok E T \<longleftrightarrow> (\<forall>w. fst (te_ticks E w) = u32 (T w) \<and> T w \<le> T (snd (te_ticks E w)))"

text \<open>The counter value \<open>ticks\<close> stands for the ideal time \<open>t0\<close>, less than \<open>2 ^ 32\<close> ms before \<open>w\<close>.\<close>

definition since :: "('w \<Rightarrow> nat) \<Rightarrow> 'w \<Rightarrow> nat \<Rightarrow> nat \<Rightarrow> bool" where
  "since T w ticks t0 \<longleftrightarrow> ticks = u32 t0 \<and> t0 \<le> T w \<and> T w < t0 + 2 ^ 32"

lemma get_ticks_eq: "get_ticks E (em, ctx, w) = (fst (te_ticks E w), em, ctx, snd (te_ticks E w))"
  by (simp add: get_ticks_def split: prod.splits)

lemma ctx_simps [simp]: "ctx_of (em, ctx, w) = ctx" "set_ctx c (em, ctx, w) = (em, c, w)"
  by (simp_all add: ctx_of_def set_ctx_def)

lemma elapsed_since:
  assumes "clock_ok E T" and "since T w ticks t0"
  shows "utils_elapsed_ms_since (fst (te_ticks E w)) ticks = T w - t0"
  using assms by (simp add: clock_ok_def since_def elapsed_ms_ideal)

subsection \<open>One check\<close>

text \<open>The timer of the current state runs, and is over at \<open>w\<close>.\<close>

definition state_timed :: "timeout_ctx \<Rightarrow> bool" where
  "state_timed ctx \<longleftrightarrow> st_current_state ctx \<ge> 0 \<and>
     (case st_current_state_config ctx of None \<Rightarrow> False | Some c \<Rightarrow> tc_timeout_ms c \<noteq> 0)"

definition state_due :: "('w \<Rightarrow> nat) \<Rightarrow> nat \<Rightarrow> timeout_ctx \<Rightarrow> 'w \<Rightarrow> bool" where
  "state_due T t0 ctx w \<longleftrightarrow> state_timed ctx \<and> t0 + tc_timeout_ms (the (st_current_state_config ctx)) \<le> T w"

text \<open>The world after the state timer has been looked at.\<close>

definition state_read :: "'w timeout_env \<Rightarrow> timeout_ctx \<Rightarrow> 'w \<Rightarrow> 'w" where
  "state_read E ctx w = (if state_timed ctx then snd (te_ticks E w) else w)"

lemma check_state_timeout_eq:
  assumes "clock_ok E T" and "since T w (st_state_entry_ticks ctx) t0"
  shows "check_state_timeout E name (em, ctx, w) =
    (if state_due T t0 ctx w
     then (True, handle_timeout_action E name (tc_action (the (st_current_state_config ctx))) (st_current_state ctx) (T w - t0) False
        (em, ctx\<lparr>st_timeout_count := u32 (st_timeout_count ctx + 1), st_last_timeout_state := st_current_state ctx\<rparr>, state_read E ctx w))
     else (False, em, ctx, state_read E ctx w))"
proof (cases "st_current_state_config ctx")
  case None
  then show ?thesis by (simp add: check_state_timeout_def state_due_def state_timed_def state_read_def)
next
  case (Some c)
  have "t0 \<le> T w" using assms(2) by (simp add: since_def)
  then show ?thesis
    using Some elapsed_since[OF assms]
    by (auto simp: check_state_timeout_def state_due_def state_timed_def state_read_def get_ticks_eq Let_def)
qed

lemma check_overall_timeout_eq:
  assumes "clock_ok E T" and "since T w (st_overall_start_ticks ctx) o0" and "\<not> is_desired_state ctx"
    and "st_overall_timeout_ms ctx \<noteq> 0"
  shows "check_overall_timeout E name (em, ctx, w) =
    (if o0 + st_overall_timeout_ms ctx \<le> T w
     then (True, reset_overall_timeout E (handle_timeout_action E name (st_overall_action ctx) (st_current_state ctx) (T w - o0) True
        (em, ctx\<lparr>st_timeout_count := u32 (st_timeout_count ctx + 1)\<rparr>, snd (te_ticks E w))))
     else (False, em, ctx, snd (te_ticks E w)))"
proof -
  have "o0 \<le> T w" using assms(2) by (simp add: since_def)
  then show ?thesis
    using assms(3,4) elapsed_since[OF assms(1,2)] by (auto simp: check_overall_timeout_def get_ticks_eq Let_def)
qed

text \<open>A poll in an unchanged state that has a timer of its own, or that is not a desired one, is a check.\<close>

lemma process_same:
  assumes "valid_state s" and "state_timed ctx \<or> \<not> is_desired_state ctx"
  shows "state_timeout_process E True s (Some s) (Some name) (em, ctx, w) =
    (fst (state_timeout_check E True (Some name) (em, ctx, w)), Some s, snd (state_timeout_check E True (Some name) (em, ctx, w)))"
  using assms
  by (auto simp: state_timeout_process_def Let_def state_timed_def split: prod.splits option.splits)

text \<open>the watchdog decides by the true elapsed time. Against an ideal clock that never wraps, with
  both timers started less than \<open>2 ^ 32\<close> ms ago, a poll of an unchanged state reports a timeout
  exactly when the state has lasted for its configured time or, outside the desired states, the
  overall time has passed; otherwise nothing but the clock reading changes, except that a desired
  state restarts the overall timer.\<close>

theorem state_timeout_decision:
  assumes clk: "clock_ok E T" and st: "valid_state s" and tm: "state_timed ctx \<or> \<not> is_desired_state ctx"
    and ent: "since T w (st_state_entry_ticks ctx) t0"
    and ov: "since T (state_read E ctx w) (st_overall_start_ticks ctx) o0"
  shows "case state_timeout_process E True s (Some s) (Some name) (em, ctx, w) of (fired, saved, em', ctx', w') \<Rightarrow>
    saved = Some s \<and>
    (fired \<longleftrightarrow> state_due T t0 ctx w \<or> st_overall_timeout_ms ctx \<noteq> 0 \<and> \<not> is_desired_state ctx \<and>
       o0 + st_overall_timeout_ms ctx \<le> T (state_read E ctx w)) \<and>
    (\<not> fired \<longrightarrow> em' = em \<and> T w \<le> T w' \<and> ctx' =
       (if st_overall_timeout_ms ctx \<noteq> 0 \<and> is_desired_state ctx
        then ctx\<lparr>st_overall_start_ticks := u32 (T (state_read E ctx w))\<rparr> else ctx))"
proof -
  have mono: "T w \<le> T (state_read E ctx w)" "T (state_read E ctx w) \<le> T (snd (te_ticks E (state_read E ctx w)))"
    using clk by (simp_all add: clock_ok_def state_read_def)
  have tick: "fst (te_ticks E (state_read E ctx w)) = u32 (T (state_read E ctx w))"
    using clk by (simp add: clock_ok_def)
  have el: "utils_elapsed_ms_since (u32 (T (state_read E ctx w))) (st_overall_start_ticks ctx) = T (state_read E ctx w) - o0"
    and le: "o0 \<le> T (state_read E ctx w)"
    using elapsed_since[OF clk ov] ov tick by (simp_all add: since_def)
  show ?thesis
    using mono order_trans[OF mono] tick le
    by (cases "is_desired_state ctx \<or> st_overall_timeout_ms ctx = 0")
      (auto simp: process_same[OF st tm] state_timeout_check_def check_state_timeout_eq[OF clk ent] Let_def check_overall_timeout_def
        reset_overall_timeout_def get_ticks_eq el split: prod.splits)
qed

definition demo_env :: "nat timeout_env" where
  "demo_env = \<lparr>te_ticks = \<lambda>w. (u32 w, w), te_event_call = \<lambda>cb ev ud s. s, te_timeout_call = \<lambda>cb st el ov ud s. (True, s)\<rparr>"

definition demo_config :: state_timeout_config where
  "demo_config = \<lparr>tc_state = 2, tc_timeout_ms = 500, tc_action = STATE_TIMEOUT_ACTION_RESET_SOFT, tc_reset_overall_on_entry = False\<rparr>"

definition demo_ctx :: timeout_ctx where
  "demo_ctx = ctx_of (snd (state_timeout_init demo_env True (Some [demo_config]) 1 0 0 None 0 None 0 (em_boot, undefined, 4294967000)))"

definition demo_entered :: timeout_ctx where
  "demo_entered = ctx_of (state_timeout_on_state_change demo_env True 2 (em_boot, demo_ctx, 4294967000))"

lemma demo_clock: "clock_ok demo_env (\<lambda>w. w)"
  by (simp add: clock_ok_def demo_env_def)

lemma demo_ticks [simp]: "te_ticks demo_env w = (u32 w, w)"
  by (simp add: demo_env_def)

lemma demo_ctx_fields [simp]: "find_state_config demo_ctx 2 = Some demo_config" "st_current_state demo_ctx = -1"
  "st_overall_timeout_ms demo_ctx = 0" "tc_timeout_ms demo_config = 500" "\<not> tc_reset_overall_on_entry demo_config"
  by (simp_all add: demo_ctx_def state_timeout_init_def get_ticks_def find_state_config_def demo_config_def)

lemma demo_entered_fields [simp]: "st_current_state demo_entered = 2" "st_current_state_config demo_entered = Some demo_config"
  "st_state_entry_ticks demo_entered = 4294967000" "st_overall_start_ticks demo_entered = 4294967000"
  "st_overall_timeout_ms demo_entered = 0" "st_timeout_count demo_entered = 0"
  by (simp_all add: demo_entered_def state_timeout_on_state_change_def get_ticks_def is_desired_state_def)
    (simp_all add: demo_ctx_def state_timeout_init_def get_ticks_def)

lemmas demo_simps = valid_state_def since_def state_due_def state_timed_def state_read_def is_desired_state_def

text \<open>The state was entered 296 ms before the counter wraps; 496 ms later no timeout, 4 ms after that one.\<close>

theorem state_timeout_decision_witness:
  "\<not> fst (state_timeout_process demo_env True 2 (Some 2) (Some ''TCP'') (em_boot, demo_entered, 4294967496)) \<and>
   fst (state_timeout_process demo_env True 2 (Some 2) (Some ''TCP'') (em_boot, demo_entered, 4294967500))"
  using state_timeout_decision [where s = 2 and name = "''TCP''" and em = em_boot and w = 4294967496 and ctx = demo_entered
      and ?t0.0 = 4294967000 and ?o0.0 = 4294967000, OF demo_clock]
    state_timeout_decision [where s = 2 and name = "''TCP''" and em = em_boot and w = 4294967500 and ctx = demo_entered
      and ?t0.0 = 4294967000 and ?o0.0 = 4294967000, OF demo_clock]
  by (simp add: demo_simps case_prod_unfold)

subsection \<open>A sequence of polls\<close>

text \<open>The state machine polls its watchdog again and again in state \<open>s\<close>; between two polls the rest of
  the program runs and leaves the next world of the list. The result lists the polls' answers.\<close>

fun poll_all ::
    "'w timeout_env \<Rightarrow> int \<Rightarrow> string \<Rightarrow> int option \<Rightarrow> event_manager \<Rightarrow> timeout_ctx \<Rightarrow> 'w list \<Rightarrow> bool list" where
  "poll_all E s name last_state em ctx [] = []"
| "poll_all E s name last_state em ctx (w # ws) =
     (case state_timeout_process E True s last_state (Some name) (em, ctx, w) of
        (fired, last_state', em', ctx', w') \<Rightarrow> fired # poll_all E s name last_state' em' ctx' ws)"

text \<open>The overall timer is off, or does not run out while the watchdog is polled at \<open>w\<close>.\<close>

definition overall_quiet :: "'w timeout_env \<Rightarrow> ('w \<Rightarrow> nat) \<Rightarrow> timeout_ctx \<Rightarrow> nat \<Rightarrow> 'w \<Rightarrow> bool" where
  "overall_quiet E T ctx o0 w \<longleftrightarrow> st_overall_timeout_ms ctx = 0 \<or>
     since T (snd (te_ticks E w)) (st_overall_start_ticks ctx) o0 \<and> T (snd (te_ticks E w)) < o0 + st_overall_timeout_ms ctx"

lemma check_quiet:
  assumes clk: "clock_ok E T" and tm: "state_timed ctx" and nd: "\<not> is_desired_state ctx"
    and ent: "since T w (st_state_entry_ticks ctx) t0" and nd': "\<not> state_due T t0 ctx w" and ov: "overall_quiet E T ctx o0 w"
  shows "\<exists>w'. state_timeout_check E True (Some name) (em, ctx, w) = (False, em, ctx, w')"
  using check_overall_timeout_eq[OF clk, of "snd (te_ticks E w)" ctx o0] tm nd nd' ov
  by (cases "st_overall_timeout_ms ctx = 0")
    (simp_all add: state_timeout_check_def check_state_timeout_eq[OF clk ent] overall_quiet_def check_overall_timeout_def state_read_def)

lemma poll_all_quiet:
  assumes clk: "clock_ok E T" and st: "valid_state s" and tm: "state_timed ctx" and nd: "\<not> is_desired_state ctx"
    and ws: "\<forall>w \<in> set ws. since T w (st_state_entry_ticks ctx) t0 \<and> \<not> state_due T t0 ctx w \<and> overall_quiet E T ctx o0 w"
  shows "poll_all E s name (Some s) em ctx (ws @ us) = replicate (length ws) False @ poll_all E s name (Some s) em ctx us"
  using ws
proof (induction ws)
  case (Cons w ws)
  then obtain w' where "state_timeout_check E True (Some name) (em, ctx, w) = (False, em, ctx, w')"
    using check_quiet[OF clk tm nd] by (metis list.set_intros(1))
  with Cons show ?case by (simp add: process_same[OF st disjI1[OF tm]])
qed simp

text \<open>C36: a state that lasts too long is reported, and no sooner. A module enters a state with its own
  timer and stays in it. While its polls happen within the configured time after the entry none
  reports a timeout, however many they are; the first poll after that time does, also when the
  millisecond counter has wrapped around in between.\<close>

theorem state_timeout_dwell:
  assumes clk: "clock_ok E T" and st: "valid_state s" "0 \<le> s" and prev: "valid_state p" "p \<noteq> s"
    and new: "st_current_state ctx \<noteq> s" and cfg: "find_state_config ctx s = Some c" "0 < tc_timeout_ms c"
      "tc_timeout_ms c < 2 ^ 32" "\<not> tc_reset_overall_on_entry c"
    and ov: "\<forall>w \<in> set (snd (te_ticks E w0) # ws). overall_quiet E T ctx o0 w"
    and early: "\<forall>w \<in> set (snd (te_ticks E w0) # ws). T w0 \<le> T w \<and> T w < T w0 + tc_timeout_ms c"
    and late: "T w0 + tc_timeout_ms c \<le> T wn" "T wn < T w0 + 2 ^ 32"
  shows "poll_all E s name (Some p) em ctx (w0 # ws @ [wn]) = replicate (length ws + 1) False @ [True]"
proof -
  let ?ctx = "ctx\<lparr>st_current_state := s, st_state_entry_ticks := u32 (T w0), st_current_state_config := Some c\<rparr>"
  have tick: "fst (te_ticks E w0) = u32 (T w0)" using clk by (simp add: clock_ok_def)
  have nd: "\<not> is_desired_state ?ctx" using cfg by (simp add: is_desired_state_def)
  have tm: "state_timed ?ctx" using cfg st by (simp add: state_timed_def)
  have change: "state_timeout_on_state_change E True s (em, ctx, w0) = (em, ?ctx, snd (te_ticks E w0))"
    using new cfg nd tick by (simp add: state_timeout_on_state_change_def get_ticks_eq)
  have q: "since T w (st_state_entry_ticks ?ctx) (T w0) \<and> \<not> state_due T (T w0) ?ctx w \<and> overall_quiet E T ?ctx o0 w"
    if "w \<in> set (snd (te_ticks E w0) # ws)" for w
    using bspec[OF early that] bspec[OF ov that] cfg(3)
    by (auto simp: since_def state_due_def overall_quiet_def)
  obtain w' where "state_timeout_check E True (Some name) (em, ?ctx, snd (te_ticks E w0)) = (False, em, ?ctx, w')"
    using check_quiet[OF clk tm nd] q by (metis list.set_intros(1))
  then have first: "state_timeout_process E True s (Some p) (Some name) (em, ctx, w0) = (False, Some s, em, ?ctx, w')"
    using st prev change by (simp add: state_timeout_process_def Let_def)
  have fin: "since T wn (st_state_entry_ticks ?ctx) (T w0)" and due: "state_due T (T w0) ?ctx wn"
    using late cfg tm by (simp_all add: since_def state_due_def)
  have "poll_all E s name (Some s) em ?ctx [wn] = [True]"
    using due by (simp add: process_same[OF st(1) disjI1[OF tm]] state_timeout_check_def check_state_timeout_eq[OF clk fin] case_prod_unfold)
  moreover have "poll_all E s name (Some s) em ?ctx (ws @ [wn]) = replicate (length ws) False @ poll_all E s name (Some s) em ?ctx [wn]"
    using q by (intro poll_all_quiet[where ?t0.0 = "T w0" and ?o0.0 = o0, OF clk st(1) tm nd]) simp
  ultimately show ?thesis using first by simp
qed

theorem state_timeout_dwell_witness:
  "poll_all demo_env 2 ''TCP'' (Some 1) em_boot demo_ctx [4294967000, 4294967100, 4294967400, 4294967510] = [False, False, False, True]"
  using state_timeout_dwell [where s = 2 and p = 1 and ctx = demo_ctx and c = demo_config and ?w0.0 = 4294967000 and
      ws = "[4294967100, 4294967400]" and ?o0.0 = 0 and wn = 4294967510 and name = "''TCP''" and em = em_boot, OF demo_clock]
  by (simp add: demo_simps overall_quiet_def)

text \<open>A timeout is repeated until it is handled. When the timer of a state runs out, the action is
  executed and counted. The timer restarts only if a callback handles the timeout: with no action,
  an unregistered callback, or a callback that answers false, the next poll of the state reports
  the timeout again, at once, and the overall timer is not looked at.\<close>

theorem state_timeout_repeats:
  assumes clk: "clock_ok E T" and st: "valid_state s" and ent: "since T w (st_state_entry_ticks ctx) t0"
    and due: "state_due T t0 ctx w" and cfg: "st_current_state_config ctx = Some c"
    and call: "\<And>cb el ud em ctx w. te_timeout_call E cb (st_current_state ctx) el False ud (em, ctx, w) = (handled, em, ctx, w)"
    and act: "tc_action c = STATE_TIMEOUT_ACTION_NONE \<or> tc_action c = STATE_TIMEOUT_ACTION_CALLBACK"
  shows "\<exists>ctx' w'. state_timeout_process E True s (Some s) (Some name) (em, ctx, w) = (True, Some s, em, ctx', w') \<and>
    st_timeout_count ctx' = u32 (st_timeout_count ctx + 1) \<and> st_overall_start_ticks ctx' = st_overall_start_ticks ctx \<and>
    (if tc_action c = STATE_TIMEOUT_ACTION_CALLBACK \<and> st_state_timeout_callback ctx \<noteq> None \<and> handled
     then \<exists>t1 \<ge> T w. st_state_entry_ticks ctx' = u32 t1
     else \<forall>w2. T w' \<le> T w2 \<and> T w2 < t0 + 2 ^ 32 \<longrightarrow>
       fst (state_timeout_process E True s (Some s) (Some name) (em, ctx', w2)))"
proof -
  let ?w = "snd (te_ticks E w)"
  let ?ctx = "ctx\<lparr>st_timeout_count := u32 (st_timeout_count ctx + 1), st_last_timeout_state := st_current_state ctx\<rparr>"
  have tm: "state_timed ctx" using due by (simp add: state_due_def)
  have mono: "T w \<le> T ?w" and tick: "fst (te_ticks E ?w) = u32 (T ?w)" and mono2: "T ?w \<le> T (snd (te_ticks E ?w))"
    using clk by (simp_all add: clock_ok_def)
  have again: "fst (state_timeout_process E True s (Some s) (Some name)
      (em, ctx\<lparr>st_timeout_count := k, st_last_timeout_state := st_current_state ctx\<rparr>, w2))"
    if "T ?w \<le> T w2" "T w2 < t0 + 2 ^ 32" for k w2
  proof -
    let ?c2 = "ctx\<lparr>st_timeout_count := k, st_last_timeout_state := st_current_state ctx\<rparr>"
    have s2: "since T w2 (st_state_entry_ticks ?c2) t0" and d2: "state_due T t0 ?c2 w2" and t2: "state_timed ?c2"
      using that ent due mono tm by (auto simp: since_def state_due_def state_timed_def)
    show ?thesis
      using d2 by (simp add: process_same[OF st disjI1[OF t2]] state_timeout_check_def check_state_timeout_eq[OF clk s2])
  qed
  have fire: "state_timeout_process E True s (Some s) (Some name) (em, ctx, w) =
      (True, Some s, handle_timeout_action E name (tc_action c) (st_current_state ctx) (T w - t0) False (em, ?ctx, ?w))"
    using due tm cfg
    by (simp add: process_same[OF st disjI1[OF tm]] state_timeout_check_def check_state_timeout_eq[OF clk ent] state_read_def)
  show ?thesis
  proof (cases "tc_action c = STATE_TIMEOUT_ACTION_CALLBACK \<and> st_state_timeout_callback ctx \<noteq> None \<and> handled")
    case True
    then have "handle_timeout_action E name (tc_action c) (st_current_state ctx) (T w - t0) False (em, ?ctx, ?w) =
        (em, ?ctx\<lparr>st_state_entry_ticks := u32 (T ?w)\<rparr>, snd (te_ticks E ?w))"
      using call[where ctx = ?ctx and w = ?w] tick
      by (auto simp: handle_timeout_action_def timeout_actions rearm_if_def get_ticks_eq)
    then show ?thesis using fire True mono by auto
  next
    case False
    then have "handle_timeout_action E name (tc_action c) (st_current_state ctx) (T w - t0) False (em, ?ctx, ?w) = (em, ?ctx, ?w)"
      using call[where ctx = ?ctx and w = ?w] act
      by (auto simp: handle_timeout_action_def timeout_actions rearm_if_def split: option.splits)
    then show ?thesis using fire False again by auto
  qed
qed

definition deaf_ctx :: timeout_ctx where
  "deaf_ctx = demo_entered\<lparr>st_current_state_config := Some (demo_config\<lparr>tc_action := STATE_TIMEOUT_ACTION_CALLBACK\<rparr>)\<rparr>"

theorem state_timeout_repeats_witness:
  "\<exists>ctx' w'. state_timeout_process demo_env True 2 (Some 2) (Some ''TCP'') (em_boot, deaf_ctx, 4294967600) =
     (True, Some 2, em_boot, ctx', w') \<and> st_timeout_count ctx' = 1"
proof -
  have "\<exists>ctx' w'. state_timeout_process demo_env True 2 (Some 2) (Some ''TCP'') (em_boot, deaf_ctx, 4294967600) =
     (True, Some 2, em_boot, ctx', w') \<and> st_timeout_count ctx' = u32 (st_timeout_count deaf_ctx + 1)"
    using state_timeout_repeats [where s = 2 and name = "''TCP''" and em = em_boot and w = 4294967600 and ctx = deaf_ctx
      and ?t0.0 = 4294967000 and handled = True and
      c = "demo_config\<lparr>tc_action := STATE_TIMEOUT_ACTION_CALLBACK\<rparr>", OF demo_clock]
    by (auto simp: demo_simps deaf_ctx_def) (auto simp: demo_env_def)
  then show ?thesis by (simp add: deaf_ctx_def)
qed

end
