(* ===== verification/Task_Stats.thy ===== *)
theory Task_Stats
  imports Prelude
begin

text \<open>
  \<open>common/task_stats.c\<close>: the statistics of a task, in the variant that is compiled at the log level of that
  file, without sampling of the stack.
\<close>

record task_stats =
  ts_task_stack_size :: nat
  ts_task_stack_used :: nat
  ts_task_stack_peak :: nat
  ts_task_stack_free :: nat
  ts_memory_allocated :: nat
  ts_last_sample_uptime_sec :: nat

definition task_stats_update_periodic :: "task_stats option \<Rightarrow> nat \<Rightarrow> bool \<times> task_stats option" where
  "task_stats_update_periodic stats memory_allocated =
     (True, map_option (\<lambda>_. \<lparr>ts_task_stack_size = 0, ts_task_stack_used = 0, ts_task_stack_peak = 0,
        ts_task_stack_free = 0, ts_memory_allocated = memory_allocated, ts_last_sample_uptime_sec = 0\<rparr>) stats)"

definition task_stats_zero :: task_stats where
  "task_stats_zero = \<lparr>ts_task_stack_size = 0, ts_task_stack_used = 0, ts_task_stack_peak = 0, ts_task_stack_free = 0,
     ts_memory_allocated = 0, ts_last_sample_uptime_sec = 0\<rparr>"

end
