(* ===== verification/Module_Manager.thy ===== *)
theory Module_Manager
  imports Queue_Fifo Event_Manager
begin

text \<open>
  \<open>module/module_manager.c\<close>: the registry of the modules, their initialisation with retries, the task
  monitor and the connection flags. The record \<open>gateway\<close> holds the state that the modules share:
  \<open>g_modules\<close>, the event registries, the pre-boot record, the list of created queues and the world.
  A pointer to a queue is the queue with its handle; a function pointer, or the pointer to a configuration
  struct, is the name of the function or variable, and \<open>os_call\<close> is what a call through a function
  pointer does. \<open>'u\<close> is the element type of the URC queues (an SDK message).
\<close>

named_theorems module_simps \<open>access to the module registry\<close>

subsection \<open>The registry\<close>

record 'u module_config =
  mc_module_id :: module_id
  mc_name :: "string option"
  mc_enabled :: bool
  mc_required :: bool
  mc_continue_on_fail :: bool
  mc_has_task :: bool
  mc_init_fn :: "string option"
  mc_deinit_fn :: "string option"
  mc_config_get_defaults_fn :: "string option"
  mc_config_validate_fn :: "string option"
  mc_config_ptr :: "string option"
  mc_config_size :: nat
  mc_config_stored :: bool
  mc_msg_q_config :: queue_config
  mc_msg_q :: "(nat \<times> module_message queue) option"
  mc_urc_q_config :: queue_config
  mc_urc_q :: "(nat \<times> 'u queue) option"

record module_status =
  ms_initialized :: bool
  ms_connected :: bool
  ms_task_uptime_sec :: nat
  ms_retries :: int
  ms_last_error :: int

record 'u module =
  m_config :: "'u module_config"
  m_status :: module_status

record ('u, 'w) gateway =
  gw_modules :: "'u module option list"
  gw_events :: event_manager
  gw_pre_boot :: pre_boot
  gw_queues :: "nat option list"
  gw_world :: 'w

text \<open>What the firmware takes from outside: flash, the layout of queue elements, the clock, the scheduler,
  and the functions behind function pointers.\<close>

record ('u, 'w) os =
  os_flash :: "'w flash"
  os_msg_abi :: "module_message abi"
  os_urc_abi :: "'u abi"
  os_ticks :: "'w \<Rightarrow> nat \<times> 'w"
  os_sleep :: "nat \<Rightarrow> 'w \<Rightarrow> 'w"
  os_call :: "string \<Rightarrow> ('u, 'w) gateway \<Rightarrow> result \<times> ('u, 'w) gateway"

abbreviation (input) MODULE_INIT_RETRY_INTERVAL_MS :: nat where "MODULE_INIT_RETRY_INTERVAL_MS \<equiv> 10000"
abbreviation (input) MODULE_INIT_RETRY_COUNT :: nat where "MODULE_INIT_RETRY_COUNT \<equiv> 6"
abbreviation (input) MODULE_TASK_TIMEOUT_SEC :: nat where "MODULE_TASK_TIMEOUT_SEC \<equiv> 60"

fun module_id_code :: "module_id \<Rightarrow> nat" where
  "module_id_code MODULE_ID_LOG = 0"
| "module_id_code MODULE_ID_UART = 1"
| "module_id_code MODULE_ID_CMD = 2"
| "module_id_code MODULE_ID_URC = 3"
| "module_id_code MODULE_ID_SIM = 4"
| "module_id_code MODULE_ID_NETWORK = 5"
| "module_id_code MODULE_ID_TCP = 6"
| "module_id_code MODULE_ID_GPS = 7"
| "module_id_code MODULE_ID_SMS = 8"
| "module_id_code MODULE_ID_BLE = 9"
| "module_id_code MODULE_ID_SYSTEM = 10"
| "module_id_code MODULE_ID_FILE_TRANSFER = 11"
| "module_id_code MODULE_ID_COUNT = 12"

definition module_get :: "module_id \<Rightarrow> ('u, 'w) gateway \<Rightarrow> 'u module option" where
  "module_get mid g =
     (if mid = MODULE_ID_COUNT \<or> module_id_code mid \<ge> length (gw_modules g) then None
      else gw_modules g ! module_id_code mid)"

text \<open>A write through a pointer to the module of slot \<open>i\<close>.\<close>

definition module_update :: "nat \<Rightarrow> ('u module \<Rightarrow> 'u module) \<Rightarrow> ('u, 'w) gateway \<Rightarrow> ('u, 'w) gateway" where
  "module_update i f g = g\<lparr>gw_modules := (gw_modules g)[i := map_option f (gw_modules g ! i)]\<rparr>"

abbreviation status_update :: "(module_status \<Rightarrow> module_status) \<Rightarrow> 'u module \<Rightarrow> 'u module" where
  "status_update f m \<equiv> m\<lparr>m_status := f (m_status m)\<rparr>"

definition get_uptime :: "('u, 'w) os \<Rightarrow> ('u, 'w) gateway \<Rightarrow> nat \<times> ('u, 'w) gateway" where
  "get_uptime S g = (let (t, w) = os_ticks S (gw_world g) in (utils_get_uptime_seconds t, g\<lparr>gw_world := w\<rparr>))"

subsection \<open>Connection flags\<close>

definition module_set_connected_internal :: "module_id \<Rightarrow> bool \<Rightarrow> ('u, 'w) gateway \<Rightarrow> ('u, 'w) gateway" where
  "module_set_connected_internal mid c g =
     (case module_get mid g of
        None \<Rightarrow> g
      | Some m \<Rightarrow> module_update (module_id_code mid) (status_update (\<lambda>s. s\<lparr>ms_connected := c\<rparr>)) g)"

definition EVENT_NETWORK_CONNECTED :: nat where "EVENT_NETWORK_CONNECTED = 0"
definition EVENT_NETWORK_DISCONNECTED :: nat where "EVENT_NETWORK_DISCONNECTED = 1"
definition EVENT_GPS_CONNECTED :: nat where "EVENT_GPS_CONNECTED = 4"
definition EVENT_GPS_DISCONNECTED :: nat where "EVENT_GPS_DISCONNECTED = 5"
definition EVENT_TCP_CONNECTED :: nat where "EVENT_TCP_CONNECTED = 7"
definition EVENT_TCP_DISCONNECTED :: nat where "EVENT_TCP_DISCONNECTED = 8"
definition EVENT_SMS_CONNECTED :: nat where "EVENT_SMS_CONNECTED = 9"
definition EVENT_SMS_DISCONNECTED :: nat where "EVENT_SMS_DISCONNECTED = 10"

lemmas connection_events = EVENT_NETWORK_CONNECTED_def EVENT_NETWORK_DISCONNECTED_def EVENT_GPS_CONNECTED_def
  EVENT_GPS_DISCONNECTED_def EVENT_TCP_CONNECTED_def EVENT_TCP_DISCONNECTED_def EVENT_SMS_CONNECTED_def
  EVENT_SMS_DISCONNECTED_def

definition module_on_connection_event ::
    "event_data option \<Rightarrow> module_id \<Rightarrow> nat \<Rightarrow> ('u, 'w) gateway \<Rightarrow> ('u, 'w) gateway" where
  "module_on_connection_event ev mid connected_event g =
     (case ev of None \<Rightarrow> g | Some e \<Rightarrow> module_set_connected_internal mid (ed_type e = connected_event) g)"

definition on_network_event :: "event_data option \<Rightarrow> ('u, 'w) gateway \<Rightarrow> ('u, 'w) gateway" where
  "on_network_event e = module_on_connection_event e MODULE_ID_NETWORK EVENT_NETWORK_CONNECTED"

definition on_gps_event :: "event_data option \<Rightarrow> ('u, 'w) gateway \<Rightarrow> ('u, 'w) gateway" where
  "on_gps_event e = module_on_connection_event e MODULE_ID_GPS EVENT_GPS_CONNECTED"

definition on_tcp_event :: "event_data option \<Rightarrow> ('u, 'w) gateway \<Rightarrow> ('u, 'w) gateway" where
  "on_tcp_event e = module_on_connection_event e MODULE_ID_TCP EVENT_TCP_CONNECTED"

definition on_sms_event :: "event_data option \<Rightarrow> ('u, 'w) gateway \<Rightarrow> ('u, 'w) gateway" where
  "on_sms_event e = module_on_connection_event e MODULE_ID_SMS EVENT_SMS_CONNECTED"

text \<open>The handles of these four functions.\<close>

definition on_network_event_fn :: nat where "on_network_event_fn = 1"
definition on_gps_event_fn :: nat where "on_gps_event_fn = 2"
definition on_tcp_event_fn :: nat where "on_tcp_event_fn = 3"
definition on_sms_event_fn :: nat where "on_sms_event_fn = 4"

definition connection_table :: "(nat \<times> nat) list" where
  "connection_table =
     [(EVENT_NETWORK_CONNECTED, on_network_event_fn), (EVENT_NETWORK_DISCONNECTED, on_network_event_fn),
      (EVENT_GPS_CONNECTED, on_gps_event_fn), (EVENT_GPS_DISCONNECTED, on_gps_event_fn),
      (EVENT_TCP_CONNECTED, on_tcp_event_fn), (EVENT_TCP_DISCONNECTED, on_tcp_event_fn),
      (EVENT_SMS_CONNECTED, on_sms_event_fn), (EVENT_SMS_DISCONNECTED, on_sms_event_fn)]"

fun register_loop :: "(nat \<times> nat) list \<Rightarrow> event_manager \<Rightarrow> result \<times> event_manager" where
  "register_loop [] em = (RESULT_SUCCESS, em)"
| "register_loop ((t, fn) # evs) em =
     (let (r, em1) = event_manager_register t (Some fn) 0 (Some ''Module Manager'') em in
      if r = RESULT_SUCCESS \<or> r = RESULT_ALREADY_INITIALIZED then register_loop evs em1 else (r, em1))"

definition module_manager_register_events :: "('u, 'w) gateway \<Rightarrow> result \<times> ('u, 'w) gateway" where
  "module_manager_register_events g =
     (let (r, em) = register_loop connection_table (gw_events g) in (r, g\<lparr>gw_events := em\<rparr>))"

subsection \<open>Public interface\<close>

definition module_message_payload_len :: "module_message option \<Rightarrow> nat" where
  "module_message_payload_len msg = (case msg of None \<Rightarrow> 0 | Some m \<Rightarrow> mm_data_len m)"

definition module_manager_update_uptime :: "('u, 'w) os \<Rightarrow> module_id \<Rightarrow> ('u, 'w) gateway \<Rightarrow> ('u, 'w) gateway" where
  "module_manager_update_uptime S mid g =
     (case module_get mid g of
        None \<Rightarrow> g
      | Some m \<Rightarrow> let (now, g) = get_uptime S g in
          module_update (module_id_code mid) (status_update (\<lambda>s. s\<lparr>ms_task_uptime_sec := now\<rparr>)) g)"

definition monitored :: "'u module option \<Rightarrow> bool" where
  "monitored m = (case m of None \<Rightarrow> False
     | Some m \<Rightarrow> mc_enabled (m_config m) \<and> mc_has_task (m_config m) \<and> ms_initialized (m_status m))"

definition task_stalled :: "nat \<Rightarrow> nat \<Rightarrow> 'u module option \<Rightarrow> bool" where
  "task_stalled now timeout_sec m \<longleftrightarrow>
     monitored m \<and> u32_minus now (ms_task_uptime_sec (m_status (the m))) > timeout_sec"

definition module_manager_monitor_tasks :: "('u, 'w) os \<Rightarrow> nat \<Rightarrow> ('u, 'w) gateway \<Rightarrow> bool \<times> ('u, 'w) gateway" where
  "module_manager_monitor_tasks S timeout_sec g =
     (let (now, g) = get_uptime S g in (list_ex (task_stalled now timeout_sec) (gw_modules g), g))"

definition module_manager_loop_iteration :: "('u, 'w) os \<Rightarrow> ('u, 'w) gateway \<Rightarrow> bool \<times> ('u, 'w) gateway" where
  "module_manager_loop_iteration S g = module_manager_monitor_tasks S MODULE_TASK_TIMEOUT_SEC g"

text \<open>\<open>P\<close> is the element layout of the queue.\<close>

definition module_persist_queue_if_needed ::
    "('u, 'w) os \<Rightarrow> 'e abi \<Rightarrow> (nat \<times> 'e queue) option \<Rightarrow> queue_config \<Rightarrow> ('u, 'w) gateway \<Rightarrow> result \<times> ('u, 'w) gateway" where
  "module_persist_queue_if_needed S P queue cfg g =
     (case queue of
        None \<Rightarrow> (RESULT_SUCCESS, g)
      | Some (h, q) \<Rightarrow>
          if \<not> qc_persist_on_reboot cfg then (RESULT_SUCCESS, g)
          else let (r, pb, w) = queue_manager_persist (os_flash S) P True cfg q (gw_pre_boot g) (gw_world g)
            in (r, g\<lparr>gw_pre_boot := pb, gw_world := w\<rparr>))"

definition persist_module ::
    "('u, 'w) os \<Rightarrow> 'u module option \<Rightarrow> result \<times> ('u, 'w) gateway \<Rightarrow> result \<times> ('u, 'w) gateway" where
  "persist_module S m rg =
     (case m of
        None \<Rightarrow> rg
      | Some m \<Rightarrow>
          if \<not> mc_enabled (m_config m) then rg
          else
            let (r1, g1) = module_persist_queue_if_needed S (os_msg_abi S) (mc_msg_q (m_config m)) (mc_msg_q_config (m_config m)) (snd rg);
                (r2, g2) = module_persist_queue_if_needed S (os_urc_abi S) (mc_urc_q (m_config m)) (mc_urc_q_config (m_config m)) g1
            in (if result_is_error r1 \<or> result_is_error r2 then RESULT_ERROR else fst rg, g2))"

definition module_manager_persist_reboot_data :: "('u, 'w) os \<Rightarrow> ('u, 'w) gateway \<Rightarrow> result \<times> ('u, 'w) gateway" where
  "module_manager_persist_reboot_data S g = fold (persist_module S) (gw_modules g) (RESULT_SUCCESS, g)"

definition module_manager_set_connected :: "module_id \<Rightarrow> bool \<Rightarrow> ('u, 'w) gateway \<Rightarrow> ('u, 'w) gateway" where
  "module_manager_set_connected mid c g = module_set_connected_internal mid c g"

definition module_manager_get_connected :: "module_id \<Rightarrow> ('u, 'w) gateway \<Rightarrow> bool" where
  "module_manager_get_connected mid g = (case module_get mid g of None \<Rightarrow> False | Some m \<Rightarrow> ms_connected (m_status m))"

definition module_manager_is_initialized :: "module_id \<Rightarrow> ('u, 'w) gateway \<Rightarrow> bool" where
  "module_manager_is_initialized mid g = (case module_get mid g of None \<Rightarrow> False | Some m \<Rightarrow> ms_initialized (m_status m))"

definition module_manager_get_module :: "module_id \<Rightarrow> ('u, 'w) gateway \<Rightarrow> 'u module option" where
  "module_manager_get_module mid g = module_get mid g"

definition module_manager_get_config :: "module_id \<Rightarrow> ('u, 'w) gateway \<Rightarrow> 'u module_config option" where
  "module_manager_get_config mid g = map_option m_config (module_get mid g)"

subsection \<open>Deinitialisation and initialisation\<close>

definition deinit_module :: "('u, 'w) os \<Rightarrow> nat \<Rightarrow> ('u, 'w) gateway \<Rightarrow> ('u, 'w) gateway" where
  "deinit_module S i g =
     (case gw_modules g ! i of
        None \<Rightarrow> g
      | Some m \<Rightarrow>
          if \<not> ms_initialized (m_status m) then g
          else case mc_deinit_fn (m_config m) of
            None \<Rightarrow> g
          | Some fn \<Rightarrow> module_update i (status_update (\<lambda>s. s\<lparr>ms_initialized := False, ms_connected := False\<rparr>))
              (snd (os_call S fn g)))"

definition module_manager_deinit :: "('u, 'w) os \<Rightarrow> ('u, 'w) gateway \<Rightarrow> result \<times> ('u, 'w) gateway" where
  "module_manager_deinit S g = (RESULT_SUCCESS, fold (deinit_module S) [0..<length (gw_modules g)] g)"

definition module_manager_init_status :: "('u, 'w) os \<Rightarrow> ('u, 'w) gateway \<Rightarrow> ('u, 'w) gateway" where
  "module_manager_init_status S g =
     (let (boot_uptime, g) = get_uptime S g in
      g\<lparr>gw_modules := map (map_option (\<lambda>m.
         m\<lparr>m_config := (m_config m)\<lparr>mc_msg_q := None, mc_urc_q := None\<rparr>,
           m_status := (m_status m)\<lparr>ms_initialized := False, ms_connected := False, ms_task_uptime_sec := boot_uptime\<rparr>\<rparr>))
         (gw_modules g)\<rparr>)"

text \<open>One turn of the inner loop of \<open>module_manager_init\<close>: does it count as initialised?\<close>

definition init_module :: "('u, 'w) os \<Rightarrow> nat \<Rightarrow> ('u, 'w) gateway \<Rightarrow> bool \<times> ('u, 'w) gateway" where
  "init_module S i g =
     (case gw_modules g ! i of
        None \<Rightarrow> (True, g)
      | Some m \<Rightarrow>
          if \<not> mc_enabled (m_config m) \<or> ms_initialized (m_status m) then (True, g)
          else case mc_init_fn (m_config m) of
            None \<Rightarrow> (True, g)
          | Some fn \<Rightarrow>
              let (res, g) = os_call S fn g in
              if \<not> result_is_error res then
                let g = module_update i (status_update (\<lambda>s. s\<lparr>ms_initialized := True, ms_last_error := 0\<rparr>)) g in
                (True,
                 if mc_has_task (m_config m)
                 then let (now, g) = get_uptime S g in module_update i (status_update (\<lambda>s. s\<lparr>ms_task_uptime_sec := now\<rparr>)) g
                 else g)
              else
                let g = module_update i (status_update
                          (\<lambda>s. s\<lparr>ms_retries := ms_retries s + 1, ms_last_error := result_code res\<rparr>)) g in
                (False, case mc_deinit_fn (m_config m) of None \<Rightarrow> g | Some fn \<Rightarrow> snd (os_call S fn g)))"

fun init_pass :: "('u, 'w) os \<Rightarrow> nat list \<Rightarrow> ('u, 'w) gateway \<Rightarrow> nat \<times> ('u, 'w) gateway" where
  "init_pass S [] g = (0, g)"
| "init_pass S (i # is) g =
     (let (ok, g) = init_module S i g; (n, g) = init_pass S is g in ((if ok then 1 else 0) + n, g))"

text \<open>The rounds still to run and the number of the next one.\<close>

fun init_rounds :: "('u, 'w) os \<Rightarrow> nat \<Rightarrow> nat \<Rightarrow> ('u, 'w) gateway \<Rightarrow> ('u, 'w) gateway" where
  "init_rounds S 0 round g = g"
| "init_rounds S (Suc left) round g =
     (let g = (if round > 0 then g\<lparr>gw_world := os_sleep S MODULE_INIT_RETRY_INTERVAL_MS (gw_world g)\<rparr> else g);
          (initialized, g) = init_pass S [0..<length (gw_modules g)] g
      in if initialized = length (gw_modules g) then g else init_rounds S left (round + 1) g)"

definition required_failed :: "'u module option \<Rightarrow> bool" where
  "required_failed m = (case m of None \<Rightarrow> False
     | Some m \<Rightarrow> mc_required (m_config m) \<and> \<not> ms_initialized (m_status m))"

definition module_manager_init :: "('u, 'w) os \<Rightarrow> ('u, 'w) gateway \<Rightarrow> result \<times> ('u, 'w) gateway" where
  "module_manager_init S g =
     (let g = module_manager_init_status S g;
          (_, g) = module_manager_register_events g;
          g = init_rounds S MODULE_INIT_RETRY_COUNT 0 g
      in (if list_ex required_failed (gw_modules g) then RESULT_ERROR else RESULT_SUCCESS, g))"

end
