(* ===== verification/Routing.thy ===== *)
theory Routing
  imports Module_Manager
begin

text \<open>
  Replies on their way back to the requester: \<open>utils_route_response_to_module\<close> of \<open>common/utils.c\<close>, with
  the packets of \<open>module/tcp/tcp_ops.c\<close> that carry a reply to the server (type 38 for text, type 39 for
  the binary answer of a BLE peripheral). The output buffer of a packet builder is the list of the bytes
  written. Text has no NUL in it.
\<close>

subsection \<open>Reply packets\<close>

definition GPS_PACKET_START_ID1 :: byte where "GPS_PACKET_START_ID1 = 0x57"
definition GPS_PACKET_START_ID2 :: byte where "GPS_PACKET_START_ID2 = 0x45"
definition GPS_PACKET_STOP_ID1 :: byte where "GPS_PACKET_STOP_ID1 = 0x77"
definition GPS_PACKET_STOP_ID2 :: byte where "GPS_PACKET_STOP_ID2 = 0x65"
definition BLE_CMD_RESP_TCP_PACKET_TYPE :: byte where "BLE_CMD_RESP_TCP_PACKET_TYPE = 39"

lemmas packet_marks = GPS_PACKET_START_ID1_def GPS_PACKET_START_ID2_def GPS_PACKET_STOP_ID1_def
  GPS_PACKET_STOP_ID2_def BLE_CMD_RESP_TCP_PACKET_TYPE_def TCP_CMD_RESP_PACKET_TYPE_def

abbreviation (input) TCP_CMD_RESP_HEADER_SIZE :: nat where "TCP_CMD_RESP_HEADER_SIZE \<equiv> 7"
abbreviation (input) TCP_CMD_RESP_PAYLOAD_MAX :: nat where
  "TCP_CMD_RESP_PAYLOAD_MAX \<equiv> MODULE_MESSAGE_INLINE_SIZE - TCP_CMD_RESP_HEADER_SIZE"

definition reply_packet :: "byte \<Rightarrow> bytes \<Rightarrow> bytes" where
  "reply_packet type body =
     [GPS_PACKET_START_ID1, GPS_PACKET_START_ID2, type, lo8 (length body), hi8 (length body)] @ body @
     [GPS_PACKET_STOP_ID1, GPS_PACKET_STOP_ID2]"

text \<open>The number of bytes, 0 on failure, and the packet.\<close>

definition tcp_command_response_packet_create :: "bool \<Rightarrow> nat \<Rightarrow> string option \<Rightarrow> int \<Rightarrow> nat \<times> bytes" where
  "tcp_command_response_packet_create out_ok out_size payload payload_len =
     (case payload of
        None \<Rightarrow> (0, [])
      | Some s \<Rightarrow>
          if \<not> out_ok then (0, [])
          else
            let len = (if payload_len < 0 then length s else nat payload_len);
                len = (if len > TCP_CMD_RESP_PAYLOAD_MAX then TCP_CMD_RESP_PAYLOAD_MAX else len);
                total = TCP_CMD_RESP_HEADER_SIZE + len
            in if out_size < total then (0, [])
               else (total, reply_packet TCP_CMD_RESP_PACKET_TYPE (map byte_of_char (take len s))))"

definition tcp_ble_cmd_response_packet_create :: "bool \<Rightarrow> nat \<Rightarrow> string option \<Rightarrow> int \<Rightarrow> nat \<times> bytes" where
  "tcp_ble_cmd_response_packet_create out_ok out_size hex_str hex_len =
     (case hex_str of
        None \<Rightarrow> (0, [])
      | Some s \<Rightarrow>
          if \<not> out_ok then (0, [])
          else
            let len = (if hex_len < 0 then int (length s) else hex_len) in
            if len \<le> 0 \<or> out_size \<le> TCP_CMD_RESP_HEADER_SIZE then (0, [])
            else
              let bin_cap = out_size - TCP_CMD_RESP_HEADER_SIZE;
                  bin_cap = (if bin_cap > TCP_CMD_RESP_PAYLOAD_MAX then TCP_CMD_RESP_PAYLOAD_MAX else bin_cap);
                  (ok, bs) = utils_hex_str_to_bytes (Some s) (nat len) True bin_cap True
              in if ok = 0 \<or> length bs = 0 then (0, [])
                 else (TCP_CMD_RESP_HEADER_SIZE + length bs, reply_packet BLE_CMD_RESP_TCP_PACKET_TYPE bs))"

subsection \<open>Messages between modules\<close>

text \<open>A message whose bytes are all zero, as \<open>memset\<close> or \<open>= {0}\<close> leave it, with source and destination.\<close>

definition blank_message :: "module_id \<Rightarrow> module_id \<Rightarrow> module_message" where
  "blank_message src dst = \<lparr>mm_source_module = src, mm_destination_module = dst,
     mm_address = replicate 64 NUL, mm_message = replicate MODULE_MESSAGE_INLINE_SIZE 0, mm_dynamic_buffer = None,
     mm_data_len = 0, mm_use_dynamic_buffer = False, mm_is_raw = False, mm_payload_is_binary = False\<rparr>"

definition set_address :: "string option \<Rightarrow> module_message \<Rightarrow> module_message" where
  "set_address address m =
     (case address of None \<Rightarrow> m
      | Some a \<Rightarrow> m\<lparr>mm_address := the (snd (utils_strncpy_safe (Some (mm_address m)) (Some a) (length (mm_address m))))\<rparr>)"

text \<open>\<open>utils_strncpy_safe\<close> into the message: its result and the bytes.\<close>

definition message_text :: "string \<Rightarrow> int \<times> bytes" where
  "message_text s =
     (let (n, b) = utils_strncpy_safe (Some (replicate MODULE_MESSAGE_INLINE_SIZE NUL)) (Some s) MODULE_MESSAGE_INLINE_SIZE
      in (n, map byte_of_char (the b)))"

text \<open>The push to the queue of a module, on the configuration the caller has looked up and checked.\<close>

definition push_to_module ::
    "('u, 'w) os \<Rightarrow> module_id \<Rightarrow> module_message \<Rightarrow> ('u, 'w) gateway \<Rightarrow> result \<times> ('u, 'w) gateway" where
  "push_to_module S mid msg g =
     (case module_manager_get_config mid g of
        None \<Rightarrow> (RESULT_INVALID_PARAM, g)
      | Some c \<Rightarrow> (case mc_msg_q c of
            None \<Rightarrow> (RESULT_INVALID_PARAM, g)
          | Some (h, q) \<Rightarrow>
              let (r, q', w) = queue_push (os_flash S) (os_msg_abi S) True (mc_msg_q_config c) q msg (gw_world g) in
              (r, module_update (module_id_code mid)
                    (\<lambda>m. m\<lparr>m_config := (m_config m)\<lparr>mc_msg_q := Some (h, q')\<rparr>\<rparr>) (g\<lparr>gw_world := w\<rparr>))))"

definition module_reachable :: "module_id \<Rightarrow> ('u, 'w) gateway \<Rightarrow> bool" where
  "module_reachable mid g \<longleftrightarrow>
     (case module_manager_get_config mid g of None \<Rightarrow> False | Some c \<Rightarrow> mc_enabled c \<and> mc_msg_q c \<noteq> None)"

definition is_hex_digit :: "char \<Rightarrow> bool" where
  "is_hex_digit c \<longleftrightarrow> is_digit c \<or> is_lower_hex c \<or> is_upper_hex c"

definition tcp_reply :: "string \<Rightarrow> nat \<times> bytes" where
  "tcp_reply response =
     (case strstr response ''cmd-rsp,'' of
        Some marker \<Rightarrow>
          let hex = drop 8 marker; hex_len = length (takeWhile is_hex_digit hex)
          in tcp_ble_cmd_response_packet_create True MODULE_MESSAGE_INLINE_SIZE (Some hex) (int hex_len)
      | None \<Rightarrow>
          tcp_command_response_packet_create True MODULE_MESSAGE_INLINE_SIZE (Some response) (int (length response)))"

text \<open>The message that is pushed, \<open>None\<close> when the reply is dropped.\<close>

definition response_message ::
    "module_id \<Rightarrow> string option \<Rightarrow> string \<Rightarrow> module_id \<Rightarrow> module_message option" where
  "response_message source_module address response sender =
     (let actual_sender = (if module_id_code sender \<noteq> 0 then sender else MODULE_ID_CMD);
          msg = set_address address (blank_message actual_sender source_module)
      in if source_module = MODULE_ID_TCP then
           (let (pkt_len, pkt) = tcp_reply response in
            if pkt_len = 0 then None
            else Some (msg\<lparr>mm_message := write_at (mm_message msg) 0 pkt, mm_data_len := pkt_len\<rparr>))
         else
           (let (n, bs) = message_text response in
            if n < 0 then None else Some (msg\<lparr>mm_message := bs, mm_data_len := nat n\<rparr>)))"

definition utils_route_response_to_module ::
    "('u, 'w) os \<Rightarrow> module_id \<Rightarrow> string option \<Rightarrow> string option \<Rightarrow> module_id \<Rightarrow> ('u, 'w) gateway \<Rightarrow> ('u, 'w) gateway" where
  "utils_route_response_to_module S source_module address response sender g =
     (case response of
        None \<Rightarrow> g
      | Some s \<Rightarrow>
          if s = [] then g
          else if \<not> module_reachable source_module g then g
          else case response_message source_module address s sender of
            None \<Rightarrow> g
          | Some msg \<Rightarrow> snd (push_to_module S source_module msg g))"

end
