(* ===== verification/Time_Utils.thy ===== *)
theory Time_Utils
  imports Prelude
begin

text \<open>
  Calendar time: \<open>system/time_utils.c\<close>, which counts days by loops over years and months, and
  \<open>utils_time_to_unix\<close> of \<open>common/utils.c\<close>, which computes them in closed form from years that begin
  in March. Calendar fields and day counts are \<open>int\<close>: years reach 65535 at most, so no C integer of
  the computation wraps, and the two casts to \<open>UINT32\<close> are written out. What the SDK's clock answers
  is an argument (\<open>None\<close> when the call fails).
\<close>

named_theorems calendar_simps \<open>calendar arithmetic\<close>

subsection \<open>Calendar to Unix time\<close>

record network_time =
  nt_year :: int
  nt_month :: int
  nt_day :: int
  nt_hour :: int
  nt_minute :: int
  nt_second :: int

definition TIME_UTILS_MAX_YEAR :: int where "TIME_UTILS_MAX_YEAR = 2099"
definition TIME_UTILS_SEC_PER_DAY :: int where "TIME_UTILS_SEC_PER_DAY = 86400"

definition is_leap_year :: "int \<Rightarrow> bool" where
  "is_leap_year y \<longleftrightarrow> (y mod 4 = 0 \<and> y mod 100 \<noteq> 0) \<or> y mod 400 = 0"

definition days_in_month :: "int \<Rightarrow> int \<Rightarrow> int" where
  "days_in_month y m =
     (let mdays = [31, 28, 31, 30, 31, 30, 31, 31, 30, 31, 30, 31] in
      if m = 2 then mdays ! nat (m - 1) + (if is_leap_year y then 1 else 0) else mdays ! nat (m - 1))"

function years_loop :: "int \<Rightarrow> int \<Rightarrow> int \<Rightarrow> int" where
  "years_loop i y days =
     (if i < y then years_loop (i + 1) y (days + (if is_leap_year i then 366 else 365)) else days)"
  by pat_completeness auto
termination by (relation "measure (\<lambda>(i, y, days). nat (y - i))") auto

function months_loop :: "int \<Rightarrow> int \<Rightarrow> int \<Rightarrow> int \<Rightarrow> int" where
  "months_loop y m mo days = (if m < mo then months_loop y (m + 1) mo (days + days_in_month y m) else days)"
  by pat_completeness auto
termination by (relation "measure (\<lambda>(y, m, mo, days). nat (mo - m))") auto

declare years_loop.simps [simp del] months_loop.simps [simp del]

definition calendar_to_unix :: "int \<Rightarrow> int \<Rightarrow> int \<Rightarrow> int \<Rightarrow> int \<Rightarrow> int \<Rightarrow> int option" where
  "calendar_to_unix y mo d h mi s =
     (if y < 1970 \<or> y > TIME_UTILS_MAX_YEAR \<or> mo < 1 \<or> mo > 12 \<or> d < 1 \<or> d > 31 \<or>
         h < 0 \<or> h > 23 \<or> mi < 0 \<or> mi > 59 \<or> s < 0 \<or> s > 59 then None
      else if d > days_in_month y mo then None
      else let days = months_loop y 1 mo (years_loop 1970 y 0) + (d - 1);
               ts = days * TIME_UTILS_SEC_PER_DAY + h * 3600 + mi * 60 + s
        in if ts > int UINT32_MAX then None else Some ts)"

definition TIME_TYPE_UTC :: nat where "TIME_TYPE_UTC = 0"
definition TIME_TYPE_LOCAL :: nat where "TIME_TYPE_LOCAL = 1"
definition TIME_TYPE_UTC_UNIX :: nat where "TIME_TYPE_UTC_UNIX = 2"
definition TIME_TYPE_LOCAL_UNIX :: nat where "TIME_TYPE_LOCAL_UNIX = 3"

text \<open>The result, the calendar fields and the Unix time; the C function stores those asked for.\<close>

definition time_utils_get_time ::
    "nat \<Rightarrow> network_time option \<Rightarrow> network_time option \<Rightarrow> result \<times> (network_time \<times> int) option" where
  "time_utils_get_time type rtc_utc rtc_local =
     (if type \<noteq> TIME_TYPE_UTC \<and> type \<noteq> TIME_TYPE_LOCAL \<and> type \<noteq> TIME_TYPE_UTC_UNIX \<and> type \<noteq> TIME_TYPE_LOCAL_UNIX
      then (RESULT_INVALID_PARAM, None)
      else case (if type = TIME_TYPE_UTC \<or> type = TIME_TYPE_UTC_UNIX then rtc_utc else rtc_local) of
        None \<Rightarrow> (RESULT_ERROR, None)
      | Some t0 \<Rightarrow>
          let t = (if nt_year t0 < 1970 \<or> nt_year t0 > TIME_UTILS_MAX_YEAR then t0\<lparr>nt_year := 2000\<rparr> else t0) in
          case calendar_to_unix (nt_year t) (nt_month t) (nt_day t) (nt_hour t) (nt_minute t) (nt_second t) of
            None \<Rightarrow> (RESULT_ERROR, None)
          | Some u \<Rightarrow> (RESULT_SUCCESS, Some (t, u)))"

definition time_utils_get_rtc_timestamp_yyyymmddhhmmss :: "network_time option \<Rightarrow> network_time option \<Rightarrow> int" where
  "time_utils_get_rtc_timestamp_yyyymmddhhmmss rtc_utc rtc_local =
     (case time_utils_get_time TIME_TYPE_LOCAL rtc_utc rtc_local of
        (RESULT_SUCCESS, Some (t, _)) \<Rightarrow>
          nt_year t mod 100 * 10000000000 + nt_month t * 100000000 + nt_day t * 1000000 +
          nt_hour t * 10000 + nt_minute t * 100 + nt_second t
      | _ \<Rightarrow> 0)"

text \<open>\<open>(unsigned)(month + (month > 2 ? -3 : 9))\<close> is not negative: the month is at least 1.\<close>

definition utils_time_to_unix :: "network_time option \<Rightarrow> int" where
  "utils_time_to_unix t =
     (case t of
        None \<Rightarrow> 0
      | Some t \<Rightarrow>
          if nt_year t < 2000 \<or> nt_month t < 1 \<or> nt_month t > 12 \<or> nt_day t < 1 \<or> nt_day t > 31 then 0
          else let y = nt_year t - (if nt_month t \<le> 2 then 1 else 0);
                   era = y div 400;
                   yoe = y - era * 400;
                   doy = (153 * (nt_month t + (if nt_month t > 2 then -3 else 9)) + 2) div 5 + nt_day t - 1;
                   doe = yoe * 365 + yoe div 4 - yoe div 100 + doy;
                   days = era * 146097 + doe - 719468
            in (days * 86400 + nt_hour t * 3600 + nt_minute t * 60 + nt_second t) mod 2 ^ 32)"

subsection \<open>Closed forms\<close>

lemma div_step:
  assumes "0 < (n::int)"
  shows "(y + 1) div n = y div n + (if n dvd y + 1 then 1 else 0)"
proof (cases "n dvd y + 1")
  case True
  then obtain q where q: "y + 1 = n * q" by (rule dvdE)
  then have "y = n * (q - 1) + (n - 1)" by (simp add: algebra_simps)
  then have "y div n = q - 1" using assms int_div_pos_eq [of y n "q - 1" "n - 1"] by simp
  then show ?thesis using q assms True by simp
next
  case False
  have "y + 1 = n * ((y + 1) div n) + (y + 1) mod n" by simp
  then have "y = n * ((y + 1) div n) + ((y + 1) mod n - 1)" by linarith
  moreover have "0 < (y + 1) mod n" "(y + 1) mod n < n"
    using False assms pos_mod_sign [of n "y + 1"] pos_mod_bound [of n "y + 1"] by (auto simp: dvd_eq_mod_eq_0 order_less_le)
  ultimately have "y div n = (y + 1) div n" by (intro int_div_pos_eq [of y n _ "(y + 1) mod n - 1"]) simp_all
  then show ?thesis using False by simp
qed

definition leap_day :: "int \<Rightarrow> int" where
  "leap_day y = (if is_leap_year y then 1 else 0)"

text \<open>Days from the year 0 to the first of January.\<close>

definition days_to_year :: "int \<Rightarrow> int" where
  "days_to_year y = 365 * y + (y - 1) div 4 - (y - 1) div 100 + (y - 1) div 400"

lemma leap_arith:
  fixes a b c :: int
  assumes "a' = a + (if A then 1 else 0)" and "b' = b + (if B then 1 else 0)" and "c' = c + (if C then 1 else 0)"
    and "C \<Longrightarrow> B" and "B \<Longrightarrow> A"
  shows "365 * (y + 1) + a' - b' + c' = 365 * y + a - b + c + 365 + (if A \<and> \<not> B \<or> C then 1 else 0)"
  using assms by auto

lemma leap_step: "days_to_year (y + 1) = days_to_year y + 365 + leap_day y"
proof -
  have d: "(400::int) dvd y \<Longrightarrow> 100 dvd y" "(100::int) dvd y \<Longrightarrow> 4 dvd y"
    by (erule dvd_trans [rotated], simp)+
  have l: "leap_day y = (if 4 dvd y \<and> \<not> 100 dvd y \<or> 400 dvd y then 1 else 0)"
    by (simp add: leap_day_def is_leap_year_def dvd_eq_mod_eq_0)
  have s: "y div n = (y - 1) div n + (if n dvd y then 1 else 0)" if "0 < n" for n
    using div_step [OF that, of "y - 1"] by (simp only: diff_add_cancel)
  have "(4::int) > 0" "(100::int) > 0" "(400::int) > 0" by simp_all
  from leap_arith [OF s [OF this(1)] s [OF this(2)] s [OF this(3)] d(1) d(2)]
  show ?thesis unfolding days_to_year_def l by (simp only: add_diff_cancel_right')
qed

lemma years_loop_closed: "i \<le> y \<Longrightarrow> years_loop i y days = days + days_to_year y - days_to_year i"
proof (induction i y days rule: years_loop.induct)
  case (1 i y days)
  show ?case
  proof (cases "i < y")
    case True
    then show ?thesis using 1(1)[OF True] leap_step [of i] by (subst years_loop.simps) (simp add: leap_day_def)
  next
    case False
    then show ?thesis using 1 by (subst years_loop.simps) simp
  qed
qed

text \<open>Days before a month: the loop, and the linear formula on years that begin in March.\<close>

definition days_to_month :: "int \<Rightarrow> int \<Rightarrow> int" where
  "days_to_month y mo =
     (153 * (mo + (if mo > 2 then -3 else 9)) + 2) div 5 + (if mo > 2 then 59 + leap_day y else -306)"

lemma month_cases:
  assumes "1 \<le> mo" "mo \<le> (12::int)"
  shows "mo = 1 \<or> mo = 2 \<or> mo = 3 \<or> mo = 4 \<or> mo = 5 \<or> mo = 6 \<or> mo = 7 \<or> mo = 8 \<or> mo = 9 \<or> mo = 10 \<or> mo = 11 \<or> mo = 12"
  using assms by arith

lemma months_loop_closed:
  assumes "1 \<le> mo" "mo \<le> 12"
  shows "months_loop y 1 mo days = days + days_to_month y mo"
  using month_cases[OF assms]
  by (elim disjE) (simp_all add: months_loop.simps days_in_month_def days_to_month_def leap_day_def)

lemma days_to_month_step:
  assumes "1 \<le> mo" "mo \<le> 11"
  shows "days_to_month y (mo + 1) = days_to_month y mo + days_in_month y mo"
  using month_cases[OF assms(1) order_trans[OF assms(2)]] assms(2)
  by (simp, elim disjE) (simp_all add: days_in_month_def days_to_month_def leap_day_def)

subsection \<open>Valid dates\<close>

text \<open>The reference for the dates that exist, made from the rule of the Gregorian calendar and not
  from the code's tables: leap years by divisibility, thirty days in April, June, September and
  November.\<close>

definition gregorian_leap :: "int \<Rightarrow> bool" where
  "gregorian_leap y \<longleftrightarrow> 4 dvd y \<and> (100 dvd y \<longrightarrow> 400 dvd y)"

definition month_length :: "int \<Rightarrow> int \<Rightarrow> int" where
  "month_length y mo =
     (if mo = 2 then (if gregorian_leap y then 29 else 28) else if mo \<in> {4, 6, 9, 11} then 30 else 31)"

definition valid_time :: "network_time \<Rightarrow> bool" where
  "valid_time t \<longleftrightarrow> nt_month t \<in> {1..12} \<and> nt_day t \<in> {1..month_length (nt_year t) (nt_month t)} \<and>
     nt_hour t \<in> {0..23} \<and> nt_minute t \<in> {0..59} \<and> nt_second t \<in> {0..59}"

text \<open>The code's test and its table agree with the reference.\<close>

lemma is_leap_year_gregorian: "is_leap_year y \<longleftrightarrow> gregorian_leap y"
proof -
  have "(400::int) dvd y \<Longrightarrow> 100 dvd y" "(400::int) dvd y \<Longrightarrow> 4 dvd y" by (erule dvd_trans [rotated], simp)+
  then show ?thesis by (auto simp: is_leap_year_def gregorian_leap_def dvd_eq_mod_eq_0)
qed

lemma days_in_month_length:
  assumes "1 \<le> mo" and "mo \<le> 12"
  shows "days_in_month y mo = month_length y mo"
  using month_cases [OF assms]
  by (elim disjE) (simp_all add: days_in_month_def month_length_def is_leap_year_gregorian)

lemma valid_time_iff:
  "valid_time t \<longleftrightarrow> 1 \<le> nt_month t \<and> nt_month t \<le> 12 \<and> 1 \<le> nt_day t \<and> nt_day t \<le> days_in_month (nt_year t) (nt_month t) \<and>
     0 \<le> nt_hour t \<and> nt_hour t \<le> 23 \<and> 0 \<le> nt_minute t \<and> nt_minute t \<le> 59 \<and> 0 \<le> nt_second t \<and> nt_second t \<le> 59"
  using days_in_month_length [of "nt_month t" "nt_year t"] by (auto simp: valid_time_def)

definition unix_of :: "network_time \<Rightarrow> int option" where
  "unix_of t = calendar_to_unix (nt_year t) (nt_month t) (nt_day t) (nt_hour t) (nt_minute t) (nt_second t)"

definition day_number :: "network_time \<Rightarrow> int" where
  "day_number t = days_to_year (nt_year t) - 719527 + days_to_month (nt_year t) (nt_month t) + (nt_day t - 1)"

definition seconds :: "network_time \<Rightarrow> int" where
  "seconds t = nt_hour t * 3600 + nt_minute t * 60 + nt_second t"

lemma days_in_month_le: "1 \<le> mo \<Longrightarrow> mo \<le> 12 \<Longrightarrow> days_in_month y mo \<le> 31"
  by (drule (1) month_cases, elim disjE) (simp_all add: days_in_month_def)

lemma seconds_bound: "valid_time t \<Longrightarrow> 0 \<le> seconds t \<and> seconds t < 86400"
  by (auto simp: valid_time_iff seconds_def)

lemma days_to_year_mono: "y \<le> y' \<Longrightarrow> days_to_year y \<le> days_to_year y'"
proof (induction y' rule: int_ge_induct)
  case (step i)
  then show ?case using leap_step [of i] by (simp add: leap_day_def)
qed simp


lemma day_number_bound:
  assumes "valid_time t" and "1970 \<le> nt_year t" and "nt_year t \<le> 2099"
  shows "0 \<le> day_number t * 86400 + seconds t" and "day_number t * 86400 + seconds t \<le> 4294967295"
proof -
  have mo: "1 \<le> nt_month t" "nt_month t \<le> 12" using assms by (auto simp: valid_time_iff)
  have d: "1 \<le> nt_day t" "nt_day t \<le> 31"
    using assms days_in_month_le[OF mo, of "nt_year t"] by (auto simp: valid_time_iff)
  have "0 \<le> days_to_month (nt_year t) (nt_month t)" "days_to_month (nt_year t) (nt_month t) \<le> 335"
    using month_cases[OF mo] by (elim disjE; simp add: days_to_month_def leap_day_def)+
  then have "0 \<le> day_number t" "day_number t \<le> 47847"
    using d days_to_year_mono[OF assms(2)] days_to_year_mono[OF assms(3)] by (simp_all add: day_number_def days_to_year_def)
  then show "0 \<le> day_number t * 86400 + seconds t" "day_number t * 86400 + seconds t \<le> 4294967295"
    using seconds_bound[OF assms(1)] by linarith+
qed

lemma unix_of_eq:
  "unix_of t = (if valid_time t \<and> 1970 \<le> nt_year t \<and> nt_year t \<le> 2099
     then Some (day_number t * 86400 + seconds t) else None)"
proof (cases "valid_time t \<and> 1970 \<le> nt_year t \<and> nt_year t \<le> 2099")
  case True
  then have mo: "1 \<le> nt_month t" "nt_month t \<le> 12" and y: "1970 \<le> nt_year t" "nt_year t \<le> 2099"
    by (auto simp: valid_time_iff)
  have d: "nt_day t \<le> 31" using True days_in_month_le[OF mo, of "nt_year t"] by (auto simp: valid_time_iff)
  have n: "months_loop (nt_year t) 1 (nt_month t) (years_loop 1970 (nt_year t) 0) + (nt_day t - 1) = day_number t"
    using months_loop_closed[OF mo] years_loop_closed[OF y(1)] by (simp add: day_number_def days_to_year_def)
  show ?thesis
    using True y d n day_number_bound(2)[of t] by (auto simp: unix_of_def calendar_to_unix_def TIME_UTILS_MAX_YEAR_def TIME_UTILS_SEC_PER_DAY_def
        valid_time_iff seconds_def Let_def)
next
  case False
  then show ?thesis
    by (auto simp: unix_of_def calendar_to_unix_def TIME_UTILS_MAX_YEAR_def valid_time_iff)
qed

lemma cal_eq [unfolded unix_of_eq]:
  "calendar_to_unix y mo d h mi s =
     unix_of \<lparr>nt_year = y, nt_month = mo, nt_day = d, nt_hour = h, nt_minute = mi, nt_second = s\<rparr>"
  by (simp add: unix_of_def)

lemma days_in_month_pos: "1 \<le> mo \<Longrightarrow> mo \<le> 12 \<Longrightarrow> 1 \<le> days_in_month y mo"
  by (drule (1) month_cases, elim disjE) (simp_all add: days_in_month_def)

text \<open>C40: calendar time is converted faithfully. The loops accept exactly the dates of the Gregorian
  calendar from 1970 to 2099 with a time of day, and count the seconds since 1970: 00:00:00 on
  1 January 1970 is 0, the next second, minute, hour or day adds 1, 60, 3600 or 86400, and the first
  of the next month or year follows the last day of this one.\<close>

theorem calendar_to_unix_correct:
  "(unix_of t \<noteq> None \<longleftrightarrow> valid_time t \<and> 1970 \<le> nt_year t \<and> nt_year t \<le> 2099) \<and>
   calendar_to_unix 1970 1 1 0 0 0 = Some 0 \<and>
   (\<forall>u y mo d h mi s. calendar_to_unix y mo d h mi s = Some u \<longrightarrow>
     (s < 59 \<longrightarrow> calendar_to_unix y mo d h mi (s + 1) = Some (u + 1)) \<and>
     (mi < 59 \<longrightarrow> calendar_to_unix y mo d h (mi + 1) s = Some (u + 60)) \<and>
     (h < 23 \<longrightarrow> calendar_to_unix y mo d (h + 1) mi s = Some (u + 3600)) \<and>
     (d < month_length y mo \<longrightarrow> calendar_to_unix y mo (d + 1) h mi s = Some (u + 86400)) \<and>
     (d = month_length y mo \<and> mo < 12 \<longrightarrow> calendar_to_unix y (mo + 1) 1 h mi s = Some (u + 86400)) \<and>
     (d = 31 \<and> mo = 12 \<and> y < 2099 \<longrightarrow> calendar_to_unix (y + 1) 1 1 h mi s = Some (u + 86400)))"
proof (intro conjI allI impI)
  show "unix_of t \<noteq> None \<longleftrightarrow> valid_time t \<and> 1970 \<le> nt_year t \<and> nt_year t \<le> 2099"
    by (simp add: unix_of_eq)
  show "calendar_to_unix 1970 1 1 0 0 0 = Some 0"
    by (simp add: cal_eq valid_time_iff days_in_month_def is_leap_year_def day_number_def days_to_year_def days_to_month_def seconds_def)
next
  fix u y mo d h mi s assume u: "calendar_to_unix y mo d h mi s = Some u"
  note u = u [unfolded cal_eq, simplified]
  have mo: "1 \<le> mo" "mo \<le> 12" using u by (auto simp: valid_time_iff split: if_splits)
  note len = days_in_month_length [OF mo, of y]
  show "s < 59 \<Longrightarrow> calendar_to_unix y mo d h mi (s + 1) = Some (u + 1)"
    "mi < 59 \<Longrightarrow> calendar_to_unix y mo d h (mi + 1) s = Some (u + 60)"
    "h < 23 \<Longrightarrow> calendar_to_unix y mo d (h + 1) mi s = Some (u + 3600)"
    "d < month_length y mo \<Longrightarrow> calendar_to_unix y mo (d + 1) h mi s = Some (u + 86400)"
    using u len by (auto simp: cal_eq valid_time_iff day_number_def seconds_def split: if_splits)
  show "d = month_length y mo \<and> mo < 12 \<Longrightarrow> calendar_to_unix y (mo + 1) 1 h mi s = Some (u + 86400)"
    using u mo len days_to_month_step[OF mo(1), of y] days_in_month_pos[of "mo + 1" y]
    by (auto simp: cal_eq valid_time_iff day_number_def seconds_def split: if_splits)
  show "d = 31 \<and> mo = 12 \<and> y < 2099 \<Longrightarrow> calendar_to_unix (y + 1) 1 1 h mi s = Some (u + 86400)"
    using u leap_step[of y] days_in_month_pos[of 1 "y + 1"]
    by (auto simp: cal_eq valid_time_iff day_number_def seconds_def days_to_month_def split: if_splits)
qed

theorem calendar_to_unix_correct_witness: "calendar_to_unix 1970 1 1 0 1 0 = Some 60"
proof -
  note c = calendar_to_unix_correct [THEN conjunct2]
  from c have "calendar_to_unix 1970 1 1 0 0 0 = Some 0" by (rule conjunct1)
  from c [THEN conjunct2, rule_format, OF this] show ?thesis by simp
qed

text \<open>The years of 400 with their leap days, as the closed form counts them.\<close>

lemma era_split:
  fixes y :: int
  shows "y div 400 * 146097 + (y - y div 400 * 400) * 365 + (y - y div 400 * 400) div 4 - (y - y div 400 * 400) div 100 =
    365 * y + y div 4 - y div 100 + y div 400"
proof -
  define e r where "e = y div 400" and "r = y mod 400"
  have y: "y = r + 400 * e" by (simp add: e_def r_def)
  have "r + 400 * e = r + 4 * (100 * e)" "r + 400 * e = r + 100 * (4 * e)" by simp_all
  then have d: "y div 4 = 100 * e + r div 4" "y div 100 = 4 * e + r div 100"
    using div_mult_self2 [of 4 r "100 * e"] div_mult_self2 [of 100 r "4 * e"] unfolding y by (simp_all only:)
  have q: "y - e * 400 = r" and t: "365 * y = 365 * r + 146000 * e" unfolding y by simp_all
  show ?thesis unfolding e_def [symmetric] q d t by simp
qed

lemma day_arith:
  fixes a b c d days l f g :: int
  assumes "a + b + c - d = days + (if p then -365 else l)"
  shows "a + (b + c - d + (f + g - 1)) - 719468 = days - 719527 + (f + (if p then -306 else 59 + l)) + (g - 1)"
  using assms by (cases p) simp_all

text \<open>The day number from years that begin in March.\<close>

lemma march_days:
  assumes Y_def: "Y = nt_year t - (if nt_month t \<le> 2 then 1 else 0)"
  shows "Y div 400 * 146097 + ((Y - Y div 400 * 400) * 365 + (Y - Y div 400 * 400) div 4 - (Y - Y div 400 * 400) div 100 +
      ((153 * (nt_month t + (if nt_month t > 2 then -3 else 9)) + 2) div 5 + nt_day t - 1)) - 719468 = day_number t"
proof -
  let ?y = "nt_year t" and ?mo = "nt_month t"
  have "365 * Y + Y div 4 - Y div 100 + Y div 400 = days_to_year ?y + (if ?mo \<le> 2 then -365 else leap_day ?y)"
    using leap_step [of ?y] unfolding Y_def days_to_year_def by (cases "?mo \<le> 2") (simp_all only: if_True if_False, auto)
  then have "Y div 400 * 146097 + (Y - Y div 400 * 400) * 365 + (Y - Y div 400 * 400) div 4 - (Y - Y div 400 * 400) div 100 =
      days_to_year ?y + (if ?mo \<le> 2 then -365 else leap_day ?y)"
    by (simp only: era_split)
  note da = day_arith [OF this, of "(153 * (?mo + (if ?mo > 2 then -3 else 9)) + 2) div 5" "nt_day t"]
  have sw: "(if ?mo > 2 then 59 + leap_day ?y else -306) = (if ?mo \<le> 2 then -306 else 59 + leap_day ?y)"
    by simp
  show ?thesis unfolding day_number_def days_to_month_def by (subst sw) (rule da)
qed

text \<open>the two conversions agree. For every valid date and time from 2000 to 2099 the closed form of
  \<open>utils_time_to_unix\<close> gives exactly the Unix time that the loops of \<open>time_utils.c\<close> count, and neither
  is truncated by its cast to 32 bits.\<close>

theorem time_conversions_agree:
  assumes valid: "valid_time t" and y: "2000 \<le> nt_year t" "nt_year t \<le> 2099"
  shows "unix_of t = Some (utils_time_to_unix (Some t))"
proof -
  let ?y = "nt_year t" and ?mo = "nt_month t"
  have b: "0 \<le> day_number t * 86400 + seconds t" "day_number t * 86400 + seconds t < 4294967296"
    using day_number_bound[OF valid] y by simp_all
  have mo: "1 \<le> ?mo" "?mo \<le> 12" and d: "1 \<le> nt_day t" "nt_day t \<le> 31"
    using valid days_in_month_le[of ?mo ?y] by (auto simp: valid_time_iff)
  define Y where "Y = ?y - (if ?mo \<le> 2 then 1 else 0)"
  note days = march_days [OF Y_def]
  have c: "\<not> (?y < 2000 \<or> ?mo < 1 \<or> ?mo > 12 \<or> nt_day t < 1 \<or> nt_day t > 31)"
    using y mo d by simp
  have "utils_time_to_unix (Some t) = (day_number t * 86400 + seconds t) mod 2 ^ 32"
    unfolding utils_time_to_unix_def option.case Let_def if_not_P [OF c] Y_def [symmetric] days
    by (simp add: seconds_def add.assoc)
  also have "\<dots> = day_number t * 86400 + seconds t" using b by simp
  finally show ?thesis using valid y by (simp add: unix_of_eq)
qed

theorem time_conversions_agree_witness:
  "utils_time_to_unix (Some \<lparr>nt_year = 2024, nt_month = 2, nt_day = 29, nt_hour = 12, nt_minute = 0, nt_second = 1\<rparr>) = 1709208001"
  using time_conversions_agree [of "\<lparr>nt_year = 2024, nt_month = 2, nt_day = 29, nt_hour = 12, nt_minute = 0, nt_second = 1\<rparr>"]
  by (simp add: unix_of_eq valid_time_iff days_in_month_def is_leap_year_def day_number_def days_to_year_def days_to_month_def
      leap_day_def seconds_def)

end
