(* ===== verification/Uart_Response.thy ===== *)
theory Uart_Response
  imports Utils Stm_Protocol Time_Utils
begin

text \<open>
  The reply texts of \<open>module/uart/uart_manager.c\<close>: what \<open>snprintf\<close> and the string builders make of the
  payload of a binary STM response. \<open>pl\<close> is the payload pointer (the frame from the payload on, so the
  check word follows), \<open>plen\<close> the payload length; a reader never looks at \<open>plen\<close> or beyond. \<open>size\<close> is
  the size of the output buffer; the result is the return value and the text in the buffer.
\<close>

subsection \<open>Formatted output\<close>

fun dec :: "nat \<Rightarrow> string" where
  "dec n = (if n < 10 then [char_of (48 + n)] else dec (n div 10) @ [char_of (48 + n mod 10)])"

declare dec.simps [simp del]

text \<open>\<open>%0wu\<close>, \<open>%u\<close> of a byte, \<open>%02x\<close>, and \<open>%.*s\<close> on bytes.\<close>

definition dec_pad :: "nat \<Rightarrow> nat \<Rightarrow> string" where
  "dec_pad w n = replicate (w - length (dec n)) (CHR ''0'') @ dec n"

abbreviation dec_byte :: "byte \<Rightarrow> string" where "dec_byte b \<equiv> dec (unat b)"

definition hex_lower :: "byte \<Rightarrow> string" where "hex_lower b = map c_tolower (hex_of_byte b)"

definition text_of :: "bytes \<Rightarrow> string" where "text_of bs = c_str (map char_of_byte bs)"

definition snprintf :: "nat \<Rightarrow> string \<Rightarrow> int \<times> string" where
  "snprintf sz s = (int (length s), take (sz - 1) s)"

text \<open>A second \<open>snprintf\<close> at \<open>out + off\<close>: the length it returns and the whole text.\<close>

definition snprintf_at :: "nat \<Rightarrow> nat \<Rightarrow> string \<Rightarrow> string \<Rightarrow> int \<times> string" where
  "snprintf_at sz off out s = (int (length s), take off out @ take (sz - off - 1) s)"

subsection \<open>Dates\<close>

text \<open>Year, month and day of a day number, counted from 1 March of year 0.\<close>

definition civil_from_days :: "int \<Rightarrow> int \<times> int \<times> int" where
  "civil_from_days z =
     (let era = (if z \<ge> 0 then z div 146097 else - ((146096 - z) div 146097));
          doe = z - era * 146097;
          yoe = (doe - doe div 1460 + doe div 36524 - doe div 146096) div 365;
          y = yoe + era * 400;
          doy = doe - (365 * yoe + yoe div 4 - yoe div 100);
          mp = (5 * doy + 2) div 153;
          d = doy - (153 * mp + 2) div 5 + 1;
          mo = (if mp < 10 then mp + 3 else mp - 9);
          y = (if mo \<le> 2 then y + 1 else y)
      in (y, mo, d))"

definition fmt_ist_datetime :: "nat \<Rightarrow> nat \<Rightarrow> int \<times> string" where
  "fmt_ist_datetime epoch sz =
     (let ist = u32 (epoch + 19800);
          tod = ist mod 86400;
          z = int (ist div 86400) + 719468;
          (y, mo, d) = civil_from_days z
      in snprintf sz (dec_pad 2 (nat d mod 100) @ ''-'' @ dec_pad 2 (nat mo mod 100) @ ''-'' @
           dec_pad 4 (nat y mod 10000) @ '' '' @ dec_pad 2 (tod div 3600) @ '':'' @
           dec_pad 2 (tod mod 3600 div 60) @ '':'' @ dec_pad 2 (tod mod 60)))"

subsection \<open>Replies to a user command\<close>

definition peri_cmd_err_str :: "byte \<Rightarrow> string option" where
  "peri_cmd_err_str code =
     (if code = 0x01 then Some ''Fail: BLE scan off''
      else if code = 0x02 then Some ''Fail: payload too short''
      else if code = 0x03 then Some ''Fail: bad device id (1-5)''
      else if code = 0x04 then Some ''Fail: no id or MAC given''
      else if code = 0x05 then Some ''Fail: MAC not found''
      else if code = 0x06 then Some ''Fail: data length overflow''
      else if code = 0x07 then Some ''Fail: device not connected''
      else if code = 0x08 then Some ''Fail: bad packet format''
      else if code = 0x09 then Some ''Fail: BLE send failed''
      else if code = 0x0A then Some ''Fail: no response (timeout)''
      else None)"

text \<open>\<open>pl[i]\<close> and the big-endian numbers at \<open>i\<close>.\<close>

abbreviation word16_at :: "bytes \<Rightarrow> nat \<Rightarrow> nat" where "word16_at pl i \<equiv> be16 (pl ! i) (pl ! (i + 1))"
abbreviation word32_at :: "bytes \<Rightarrow> nat \<Rightarrow> nat" where
  "word32_at pl i \<equiv> be32 (pl ! i) (pl ! (i + 1)) (pl ! (i + 2)) (pl ! (i + 3))"

definition mac_colons :: "bytes \<Rightarrow> string" where
  "mac_colons m = hex_lower (m ! 0) @ '':'' @ hex_lower (m ! 1) @ '':'' @ hex_lower (m ! 2) @ '':'' @
     hex_lower (m ! 3) @ '':'' @ hex_lower (m ! 4) @ '':'' @ hex_lower (m ! 5)"

definition mac_upper :: "bytes \<Rightarrow> string" where
  "mac_upper m = hex_of_byte (m ! 0) @ hex_of_byte (m ! 1) @ hex_of_byte (m ! 2) @ hex_of_byte (m ! 3) @
     hex_of_byte (m ! 4) @ hex_of_byte (m ! 5)"

text \<open>\<open>STATUS,DEV_ID,NAME_LEN,NAME,MAC\<close> as \<open><id>-<name>-<mac>\<close>, when the payload is long enough.\<close>

definition peri_info_text :: "bytes \<Rightarrow> nat \<Rightarrow> string option" where
  "peri_info_text pl plen =
     (if plen \<ge> 3 then
        let nl = unat (pl ! 2) in
        if 3 + nl + 6 \<le> plen
        then Some (dec_byte (pl ! 1) @ ''-'' @ text_of (take nl (drop 3 pl)) @ ''-'' @ mac_colons (drop (3 + nl) pl))
        else None
      else None)"

definition resp_set_ble_peri :: "bytes \<Rightarrow> nat \<Rightarrow> byte \<Rightarrow> byte \<Rightarrow> nat \<Rightarrow> int \<times> string" where
  "resp_set_ble_peri pl plen status req_dev_id sz =
     (case (if status = 0 then peri_info_text pl plen else None) of
        Some t \<Rightarrow> snprintf sz (t @ ''-configured-OK'')
      | None \<Rightarrow>
          if status = 2 then snprintf sz (''Device is already configured for id '' @ dec_byte req_dev_id @ '', first delete it.'')
          else if status = 4 then
            snprintf sz (''Device already configured with same MAC at id '' @ (if plen \<ge> 2 then dec_byte (pl ! 1) else dec 0))
          else snprintf sz ''Fail'')"

definition resp_del_ble_peri :: "bytes \<Rightarrow> nat \<Rightarrow> byte \<Rightarrow> nat \<Rightarrow> int \<times> string" where
  "resp_del_ble_peri pl plen status sz =
     (case (if status = 0 then peri_info_text pl plen else None) of
        Some t \<Rightarrow> snprintf sz (t @ ''-delete-OK'')
      | None \<Rightarrow> snprintf sz ''Fail'')"

definition resp_dev_info :: "bytes \<Rightarrow> nat \<Rightarrow> byte \<Rightarrow> nat \<Rightarrow> int \<times> string" where
  "resp_dev_info pl plen status sz =
     (if status = 0 \<and> plen \<ge> 16 then
        snprintf sz (''Ok,'' @ dec (word16_at pl 1) @ '','' @ dec (word16_at pl 3) @ '','' @ mac_upper (drop 5 pl) @ '','' @
          dec_byte (pl ! 11) @ '','' @ dec_byte (pl ! 12) @ '','' @ dec_byte (pl ! 13) @ '','' @ dec (word16_at pl 14))
      else snprintf sz ''Fail'')"

abbreviation (input) HEALTH_STM_BLOCK_LEN :: nat where "HEALTH_STM_BLOCK_LEN \<equiv> 42"

definition resp_system_update :: "bytes \<Rightarrow> nat \<Rightarrow> byte \<Rightarrow> nat \<Rightarrow> int \<times> string" where
  "resp_system_update pl plen status sz =
     (if status = 0 \<and> plen \<ge> 1 + HEALTH_STM_BLOCK_LEN then
        let b = drop 1 pl; flags1 = unat (b ! 4); masks = word16_at b 6; hex = (\<lambda>n. hex_of_byte (of_nat n)) in
        snprintf sz (''Ok,fw:'' @ dec (word16_at b 0) @ '',rc:'' @ dec (word16_at b 2) @
          '',rr:'' @ dec (flags1 div 16) @ '',pl:'' @ dec (flags1 div 8 mod 2) @
          '',up:'' @ dec (word16_at b 8 * 2) @
          '',cfg:'' @ hex (masks div 1024 mod 32) @ '',con:'' @ hex (masks div 32 mod 32) @ '',seen:'' @ hex (masks mod 32) @
          '',heap:'' @ dec_byte (b ! 10) @ '',stk:'' @ dec_byte (b ! 11) @ ''/'' @ dec_byte (b ! 12) @ ''/'' @ dec_byte (b ! 13) @
          '',lf:'' @ dec_byte (b ! 14) @ '',hci:'' @ dec_byte (b ! 15) @ '',age:'' @ dec_byte (b ! 16) @
          '',f2:'' @ hex_of_byte (b ! 5))
      else snprintf sz ''Fail'')"

text \<open>The loop over the reboot records from number \<open>i\<close>, \<open>n\<close> of them left, with \<open>off\<close> characters written.\<close>

fun reboot_loop :: "bytes \<Rightarrow> nat \<Rightarrow> nat \<Rightarrow> nat \<Rightarrow> nat \<Rightarrow> nat \<Rightarrow> string \<Rightarrow> int \<times> string" where
  "reboot_loop pl plen sz 0 i off out = (int off, out)"
| "reboot_loop pl plen sz (Suc n) i off out =
     (let base = 2 + i * 5 in
      if base + 5 > plen then (int off, out)
      else
        let (_, dt) = fmt_ist_datetime (word32_at pl (base + 1)) 24;
            (m, out) = snprintf_at sz off out ('','' @ dec_byte (pl ! base) @ ''/'' @ dt)
        in if m \<le> 0 \<or> off + nat m \<ge> sz then (int off, out) else reboot_loop pl plen sz n (i + 1) (off + nat m) out)"

definition resp_reboot_info :: "bytes \<Rightarrow> nat \<Rightarrow> byte \<Rightarrow> nat \<Rightarrow> int \<times> string" where
  "resp_reboot_info pl plen status sz =
     (if status \<noteq> 0 \<or> plen < 2 then snprintf sz ''Fail''
      else
        let (off, out) = snprintf sz (''Ok,'' @ dec_byte (pl ! 1)) in
        if off \<le> 0 \<or> off \<ge> int sz then (off, out) else reboot_loop pl plen sz (unat (pl ! 1)) 0 (nat off) out)"

text \<open>A prefix and \<open>n\<close> data bytes in hexadecimal, or \<open>Fail\<close> when they do not fit.\<close>

definition hex_reply :: "nat \<Rightarrow> string \<Rightarrow> bytes \<Rightarrow> nat \<Rightarrow> int \<times> string" where
  "hex_reply sz prefix_text data n =
     (let (off, out) = snprintf sz prefix_text in
      if off \<le> 0 \<or> off \<ge> int sz then (off, out)
      else
        let room = sz - nat off;
            (ok, h) = utils_bytes_to_hex_str (Some data) n (Some (replicate room NUL)) room
        in if ok = 0 then snprintf sz ''Fail''
           else let out = out @ c_str (the h) in (int (length out), out))"

definition resp_peri_data :: "byte \<Rightarrow> bytes \<Rightarrow> nat \<Rightarrow> byte \<Rightarrow> nat \<Rightarrow> int \<times> string" where
  "resp_peri_data cmd pl plen status sz =
     (if status \<noteq> 0 then
        (if cmd = 0x26 OR STM_CMD_RESP_BIT \<or> cmd = 0x27 OR STM_CMD_RESP_BIT then
           if status = 1 then snprintf sz ''Fail: BLE scan off''
           else if status = 2 then
             snprintf sz (if cmd = 0x27 OR STM_CMD_RESP_BIT then ''Fail: no fuel data'' else ''Fail: no ag data'')
           else snprintf sz (''Fail: error 0x'' @ hex_of_byte status)
         else case peri_cmd_err_str status of
           Some e \<Rightarrow> snprintf sz e
         | None \<Rightarrow> snprintf sz (''Fail: error 0x'' @ hex_of_byte status))
      else if plen < 3 then snprintf sz ''Fail''
      else
        let dlen = word16_at pl 1 in
        if 3 + dlen > plen then snprintf sz ''Fail''
        else hex_reply sz ''Ok,'' (drop 3 pl) dlen)"

definition resp_peri_info :: "bytes \<Rightarrow> nat \<Rightarrow> byte \<Rightarrow> nat \<Rightarrow> int \<times> string" where
  "resp_peri_info pl plen status sz =
     (if status \<noteq> 0 \<or> plen < 4 then snprintf sz ''Fail''
      else
        let hwl = unat (pl ! 3) in
        if 4 + hwl + 6 > plen then snprintf sz ''Fail''
        else snprintf sz (''Ok,'' @ dec (word16_at pl 1) @ '','' @ text_of (take hwl (drop 4 pl)) @ '','' @
               mac_upper (drop (4 + hwl) pl)))"

definition resp_ble_data :: "bytes \<Rightarrow> nat \<Rightarrow> byte \<Rightarrow> nat \<Rightarrow> int \<times> string" where
  "resp_ble_data pl plen status sz =
     (if status \<noteq> 0 \<or> plen < 4 then snprintf sz ''Fail''
      else
        let tlen = word16_at pl 2 in
        if 4 + tlen > plen then snprintf sz ''Fail''
        else hex_reply sz (''Ok,'' @ dec_byte (pl ! 1) @ '','') (drop 4 pl) tlen)"

definition resp_peri_link :: "bytes \<Rightarrow> nat \<Rightarrow> byte \<Rightarrow> nat \<Rightarrow> int \<times> string" where
  "resp_peri_link pl plen status sz =
     (if status \<noteq> 0 \<or> plen < 2 then snprintf sz ''Fail''
      else snprintf sz (''Ok,'' @ text_of (take (plen - 1) (drop 1 pl))))"

text \<open>The loop over the configured peripherals, the next one at \<open>idx\<close>.\<close>

fun peri_list_loop :: "bytes \<Rightarrow> nat \<Rightarrow> nat \<Rightarrow> nat \<Rightarrow> nat \<Rightarrow> nat \<Rightarrow> string \<Rightarrow> int \<times> string" where
  "peri_list_loop pl plen sz 0 idx off out = (int off, out)"
| "peri_list_loop pl plen sz (Suc n) idx off out =
     (if idx + 8 > plen then (int off, out)
      else
        let nl = unat (pl ! (idx + 7)); dnext = idx + 8 + nl + 4 + 1 + 1 + 1 + 1 in
        if dnext > plen then (int off, out)
        else
          let (m, out) = snprintf_at sz off out
                ('','' @ dec_byte (pl ! idx) @ ''/'' @ mac_upper (drop (idx + 1) pl) @ ''/'' @
                 text_of (take nl (drop (idx + 8) pl)) @ ''/'' @ dec (word32_at pl (idx + 8 + nl)) @ ''/'' @
                 dec (if pl ! (idx + 8 + nl + 4) = 0x33 then 1 else 0) @ ''/'' @ dec_byte (pl ! (idx + 8 + nl + 5)) @ ''/'' @
                 dec_byte (pl ! (idx + 8 + nl + 6)) @ ''/'' @ dec_byte (pl ! (idx + 8 + nl + 7)))
          in if m \<le> 0 \<or> off + nat m \<ge> sz then (int off, out)
             else peri_list_loop pl plen sz n dnext (off + nat m) out)"

definition resp_peri_list :: "bytes \<Rightarrow> nat \<Rightarrow> byte \<Rightarrow> byte \<Rightarrow> nat \<Rightarrow> int \<times> string" where
  "resp_peri_list pl plen status req_dev_id sz =
     (if status = 2 then snprintf sz ''Invalid device id, use 1-5''
      else if status = 1 then snprintf sz (dec_byte req_dev_id @ ''-Not-configured'')
      else if status \<noteq> 0 \<or> plen < 2 then snprintf sz (dec_byte req_dev_id @ ''-Fail'')
      else
        let (off, out) = snprintf sz (''Ok,'' @ dec_byte (pl ! 1)) in
        if off \<le> 0 \<or> off \<ge> int sz then (off, out) else peri_list_loop pl plen sz (unat (pl ! 1)) 2 (nat off) out)"

definition resp_scan_on :: "byte \<Rightarrow> nat \<Rightarrow> int \<times> string" where
  "resp_scan_on status sz =
     (if status = 0 then snprintf sz ''OK''
      else if status = 2 then snprintf sz ''ble-scan-on fail, no device configured''
      else snprintf sz ''Fail'')"

definition uart_build_user_resp :: "byte \<Rightarrow> bytes \<Rightarrow> nat \<Rightarrow> byte \<Rightarrow> nat \<Rightarrow> int \<times> string" where
  "uart_build_user_resp cmd pl plen req_dev_id sz =
     (let status = (if plen \<ge> 1 then pl ! 0 else 0xFF) in
      if cmd = 0x22 OR STM_CMD_RESP_BIT then resp_set_ble_peri pl plen status req_dev_id sz
      else if cmd = 0x24 OR STM_CMD_RESP_BIT then resp_del_ble_peri pl plen status sz
      else if cmd = STM_CMD_GET_DEV_INFO OR STM_CMD_RESP_BIT then resp_dev_info pl plen status sz
      else if cmd = STM_CMD_SYSTEM_UPDATE OR STM_CMD_RESP_BIT then resp_system_update pl plen status sz
      else if cmd = 0x05 OR STM_CMD_RESP_BIT then resp_reboot_info pl plen status sz
      else if cmd = 0x25 OR STM_CMD_RESP_BIT \<or> cmd = 0x26 OR STM_CMD_RESP_BIT \<or> cmd = 0x27 OR STM_CMD_RESP_BIT
        then resp_peri_data cmd pl plen status sz
      else if cmd = 0x28 OR STM_CMD_RESP_BIT then resp_peri_info pl plen status sz
      else if cmd = 0x32 OR STM_CMD_RESP_BIT then resp_ble_data pl plen status sz
      else if cmd = 0x29 OR STM_CMD_RESP_BIT then resp_peri_link pl plen status sz
      else if cmd = 0x23 OR STM_CMD_RESP_BIT then resp_peri_list pl plen status req_dev_id sz
      else if cmd = 0x20 OR STM_CMD_RESP_BIT then resp_scan_on status sz
      else snprintf sz (if status = 0 then ''OK'' else ''Fail''))"

end
