(* ===== verification/Uart_Manager.thy ===== *)
theory Uart_Manager
  imports Task_Stats Routing Uart_Response
begin

text \<open>
  \<open>module/uart/uart_manager.c\<close>: one request at a time goes to the STM co-processor and its reply back to
  the module that asked. The record \<open>uart_manager\<close> has the fields of \<open>g_uart\<close>; the receive buffer is the
  list of its first \<open>response_buffer_pos\<close> bytes, \<open>g_uart.module\<close> says whether the pointer is set (it can only
  point to the slot of the UART module). Two tasks run on this state: the receive callback and the UART task; a call
  of the callback, a turn of the task loop and a call of the public interface is each one step here.
  \<open>uart_hw\<close> is the SDK below: the port, the allocator and the scheduler.
\<close>

subsection \<open>State\<close>

datatype uart_state =
    UART_STATE_IDLE | UART_STATE_SENDING | UART_STATE_WAITING_RESPONSE | UART_STATE_RESPONSE_RECEIVED

record uart_config =
  uc_port :: nat
  uc_baud_rate :: nat
  uc_data_bits :: nat
  uc_stop_bits :: nat
  uc_parity :: nat

record uart_manager =
  u_rx_buffer_size :: nat
  u_task_stack_size :: nat
  u_task_priority :: nat
  u_task_interval_ms :: nat
  u_response_timeout_ticks :: nat
  u_module :: bool
  u_config :: uart_config
  u_task :: "nat option"
  u_state :: uart_state
  u_current_request :: "module_message option"
  u_has_pending_request :: bool
  u_response_timeout_counter :: nat
  u_response_buffer :: "bytes option"
  u_response_buffer_size :: nat
  u_uart_opened :: bool
  u_stats :: task_stats
  u_task_stats :: task_stats
  u_ping_active :: bool
  u_current_is_ping :: bool
  u_ping_attempts_left :: nat
  u_ping_requester :: module_id
  u_ping_addr :: cbuf

type_synonym ('u, 'w) uart = "uart_manager \<times> ('u, 'w) gateway"

record 'w uart_hw =
  uh_write :: "nat \<Rightarrow> bytes \<Rightarrow> 'w \<Rightarrow> bool \<times> 'w"
  uh_set_config :: "uart_config \<Rightarrow> 'w \<Rightarrow> bool \<times> 'w"
  uh_set_rx_callback :: "nat \<Rightarrow> bool \<Rightarrow> 'w \<Rightarrow> bool \<times> 'w"
  uh_close :: "nat \<Rightarrow> 'w \<Rightarrow> 'w"
  uh_alloc :: "nat \<Rightarrow> 'w \<Rightarrow> bool \<times> 'w"
  uh_queue_alloc :: "'w \<Rightarrow> (nat option \<times> bool \<times> bool \<times> module_message list) \<times> 'w"
  uh_task_create :: "'w \<Rightarrow> nat option \<times> 'w"
  uh_task_delete :: "nat \<Rightarrow> 'w \<Rightarrow> 'w"
  uh_message_size :: nat

abbreviation (input) UART_MAX_RESPONSE_BUFFER_SIZE :: nat where "UART_MAX_RESPONSE_BUFFER_SIZE \<equiv> 1280"
abbreviation (input) UART_MAX_RX_CHUNK_SIZE :: nat where "UART_MAX_RX_CHUNK_SIZE \<equiv> 1024"
abbreviation (input) UART_SHARED_BUF_SIZE :: nat where "UART_SHARED_BUF_SIZE \<equiv> 1280"
abbreviation (input) UART_PING_MAX_ATTEMPTS :: nat where "UART_PING_MAX_ATTEMPTS \<equiv> 3"
abbreviation (input) UART_PING_TIMEOUT_TICKS :: nat where "UART_PING_TIMEOUT_TICKS \<equiv> 50"
abbreviation (input) UART_TASK_STACK_SIZE :: nat where "UART_TASK_STACK_SIZE \<equiv> 4096"
abbreviation (input) TP_TIMED_ACTIVITY :: nat where "TP_TIMED_ACTIVITY \<equiv> 213"
abbreviation (input) WM_SDK_UART_PORT_1 :: nat where "WM_SDK_UART_PORT_1 \<equiv> 0"

definition set_world :: "'w \<Rightarrow> ('u, 'w) gateway \<Rightarrow> ('u, 'w) gateway" where
  "set_world w g = g\<lparr>gw_world := w\<rparr>"

subsection \<open>The request in flight\<close>

text \<open>Freeing the request is forgetting it.\<close>

definition uart_free_current_request :: "uart_manager \<Rightarrow> uart_manager" where
  "uart_free_current_request u = u\<lparr>u_current_request := None\<rparr>"

definition uart_pending_cmd :: "uart_manager \<Rightarrow> byte" where
  "uart_pending_cmd u =
     (case u_current_request u of
        None \<Rightarrow> 0
      | Some r \<Rightarrow> if \<not> mm_is_raw r then 0
          else (case module_message_payload r of None \<Rightarrow> 0 | Some f \<Rightarrow> stm_frame_cmd f))"

definition uart_reset_state :: "uart_manager \<Rightarrow> uart_manager" where
  "uart_reset_state u = (uart_free_current_request u)\<lparr>u_has_pending_request := False, u_state := UART_STATE_IDLE,
     u_response_timeout_counter := 0, u_response_buffer := map_option (\<lambda>_. []) (u_response_buffer u),
     u_current_is_ping := False\<rparr>"

subsection \<open>Routing a reply\<close>

definition uart_route_to_module_queue ::
    "('u, 'w) os \<Rightarrow> module_id \<Rightarrow> string option \<Rightarrow> string option \<Rightarrow> ('u, 'w) gateway \<Rightarrow> ('u, 'w) gateway" where
  "uart_route_to_module_queue S dest_module address message g =
     (let msg = set_address address (blank_message MODULE_ID_UART dest_module);
          msg = (case message of
                   None \<Rightarrow> msg\<lparr>mm_data_len := 0\<rparr>
                 | Some s \<Rightarrow> let (n, bs) = message_text s in
                     msg\<lparr>mm_message := bs, mm_data_len := (if n \<ge> 0 then nat n else 0)\<rparr>)
      in if dest_module = MODULE_ID_FILE_TRANSFER then g
         else if dest_module = MODULE_ID_LOG then g
         else if dest_module = MODULE_ID_TCP then
           utils_route_response_to_module S MODULE_ID_TCP address message MODULE_ID_UART g
         else if \<not> module_reachable dest_module g then g
         else snd (push_to_module S dest_module msg g))"

definition uart_route_binary_to_module_queue ::
    "('u, 'w) os \<Rightarrow> module_id \<Rightarrow> string option \<Rightarrow> bytes option \<Rightarrow> ('u, 'w) gateway \<Rightarrow> ('u, 'w) gateway" where
  "uart_route_binary_to_module_queue S dest_module address data g =
     (case data of
        None \<Rightarrow> g
      | Some d \<Rightarrow>
          if length d = 0 \<or> length d > MODULE_MESSAGE_INLINE_SIZE then g
          else if \<not> module_reachable dest_module g then g
          else
            let msg = set_address address (blank_message MODULE_ID_UART dest_module) in
            snd (push_to_module S dest_module
              (msg\<lparr>mm_message := write_at (mm_message msg) 0 d, mm_data_len := length d, mm_payload_is_binary := True\<rparr>) g))"

subsection \<open>Dispatch of a frame\<close>

text \<open>What an internal requester is sent for a response.\<close>

datatype reply = No_Reply | Reply_Text string | Reply_Binary bytes

definition reply_fw_version :: "bytes \<Rightarrow> nat \<Rightarrow> reply" where
  "reply_fw_version pl plen =
     (if plen < 3 \<or> pl ! 0 \<noteq> 0 then No_Reply
      else let fw = word16_at pl 1 in
        if fw = 0 then No_Reply else Reply_Text (snd (snprintf UART_SHARED_BUF_SIZE (''FW Version: '' @ dec fw))))"

definition reply_gw_health :: "bytes \<Rightarrow> nat \<Rightarrow> reply" where
  "reply_gw_health pl plen =
     (if plen < 4 \<or> pl ! 0 \<noteq> 0 then No_Reply
      else let dlen = word16_at pl 2 in
        if dlen = 0 \<or> 4 + dlen > plen then No_Reply
        else if 1 + dlen > MODULE_MESSAGE_INLINE_SIZE then No_Reply
        else Reply_Binary ((if pl ! 1 \<noteq> 0 then 1 else 0) # take dlen (drop 4 pl)))"

definition reply_stm_ota :: "bytes \<Rightarrow> nat \<Rightarrow> reply" where
  "reply_stm_ota pl plen =
     (if plen < 6 then No_Reply
      else if pl ! 1 = STM_OTA_CHUNK_CRC then
        Reply_Text (snd (snprintf UART_SHARED_BUF_SIZE (if pl ! 0 = 0 then ''crc ok'' else ''crc fail'')))
      else
        Reply_Text (snd (snprintf UART_SHARED_BUF_SIZE
          ((if pl ! 0 = 0 then ''ok'' else ''fail'') @ '',chunk,'' @ dec (word32_at pl 2)))))"

definition reply_peri_ota :: "bytes \<Rightarrow> nat \<Rightarrow> reply" where
  "reply_peri_ota pl plen =
     (if plen < 1 \<or> pl ! 0 \<noteq> 0 then Reply_Text ''fail''
      else
        let rlen = (if plen \<ge> 3 then word16_at pl 1 else 0);
            (off, out) = snprintf UART_SHARED_BUF_SIZE ''ok,''
        in if off \<le> 0 \<or> nat off \<ge> UART_SHARED_BUF_SIZE then No_Reply
           else if rlen > 0 \<and> 3 + rlen \<le> plen then
             let room = UART_SHARED_BUF_SIZE - nat off;
                 (_, h) = utils_bytes_to_hex_str (Some (drop 3 pl)) rlen (Some (replicate room NUL)) room
             in Reply_Text (out @ c_str (the h))
           else Reply_Text out)"

definition uart_internal_reply :: "byte \<Rightarrow> bytes \<Rightarrow> nat \<Rightarrow> reply" where
  "uart_internal_reply cmd pl plen =
     (if cmd = STM_CMD_GET_DEV_INFO OR STM_CMD_RESP_BIT then reply_fw_version pl plen
      else if cmd = STM_CMD_SYSTEM_UPDATE OR STM_CMD_RESP_BIT then
        Reply_Text (if plen \<ge> 1 \<and> pl ! 0 = 0 then ''OK'' else ''FAIL'')
      else if cmd = STM_CMD_GW_HEALTH OR STM_CMD_RESP_BIT then reply_gw_health pl plen
      else if cmd = 0x28 OR STM_CMD_RESP_BIT then
        (let (n, t) = uart_build_user_resp cmd pl plen 0 UART_SHARED_BUF_SIZE in if n > 0 then Reply_Text t else No_Reply)
      else if cmd = STM_CMD_STM_OTA OR STM_CMD_RESP_BIT then reply_stm_ota pl plen
      else if cmd = STM_CMD_PERI_OTA OR STM_CMD_RESP_BIT then reply_peri_ota pl plen
      else No_Reply)"

definition uart_user_reply :: "uart_manager \<Rightarrow> byte \<Rightarrow> bytes \<Rightarrow> nat \<Rightarrow> reply" where
  "uart_user_reply u cmd pl plen =
     (let req_dev_id = (case u_current_request u of
            None \<Rightarrow> 0
          | Some r \<Rightarrow>
              if \<not> mm_is_raw r then 0
              else (case module_message_payload r of
                  None \<Rightarrow> 0
                | Some rf \<Rightarrow> if stm_frame_payload_len rf \<ge> 1 then stm_frame_payload rf ! 0 else 0));
          (n, t) = uart_build_user_resp cmd pl plen req_dev_id UART_SHARED_BUF_SIZE
      in if n > 0 then Reply_Text t else No_Reply)"

definition send_reply ::
    "('u, 'w) os \<Rightarrow> module_id \<Rightarrow> string \<Rightarrow> reply \<Rightarrow> ('u, 'w) gateway \<Rightarrow> ('u, 'w) gateway" where
  "send_reply S origin addr r g =
     (case r of
        No_Reply \<Rightarrow> g
      | Reply_Text t \<Rightarrow> uart_route_to_module_queue S origin (Some addr) (Some t) g
      | Reply_Binary bs \<Rightarrow> uart_route_binary_to_module_queue S origin (Some addr) (Some bs) g)"

text \<open>Is the frame an answer to something other than the request in flight?\<close>

definition stale_frame :: "uart_manager \<Rightarrow> byte \<Rightarrow> bool" where
  "stale_frame u cmd \<longleftrightarrow>
     (case u_current_request u of
        None \<Rightarrow> False
      | Some r \<Rightarrow> mm_is_raw r \<and>
          cmd \<noteq> (case module_message_payload r of None \<Rightarrow> 0 | Some f \<Rightarrow> stm_frame_cmd f) OR STM_CMD_RESP_BIT)"

definition reply_origin :: "uart_manager \<Rightarrow> module_id" where
  "reply_origin u = (case u_current_request u of None \<Rightarrow> MODULE_ID_BLE | Some r \<Rightarrow> mm_source_module r)"

definition uart_dispatch_binary_frame :: "('u, 'w) os \<Rightarrow> bytes \<Rightarrow> ('u, 'w) uart \<Rightarrow> ('u, 'w) uart" where
  "uart_dispatch_binary_frame S frame s =
     (let (u, g) = s; cmd = stm_frame_cmd frame; pl = stm_frame_payload frame; plen = stm_frame_payload_len frame in
      if u_current_is_ping u then
        (if cmd = STM_CMD_GET_DEV_INFO OR STM_CMD_RESP_BIT then
           (u\<lparr>u_ping_active := False\<rparr>,
            uart_route_to_module_queue S (u_ping_requester u) (Some (c_str (u_ping_addr u))) (Some ''STM: OK'') g)
         else (u, g))
      else if stale_frame u cmd then (u, g)
      else
        let origin = reply_origin u;
            addr = (case u_current_request u of None \<Rightarrow> ''STM'' | Some r \<Rightarrow> c_str (mm_address r));
            is_user = (origin = MODULE_ID_SMS \<or> origin = MODULE_ID_TCP)
        in if \<not> is_user then (u, send_reply S origin addr (uart_internal_reply cmd pl plen) g)
           else (u, send_reply S origin addr (uart_user_reply u cmd pl plen) g))"

subsection \<open>Reception\<close>

text \<open>The loop over the buffered bytes, for any handler of a frame: what is left in the buffer, and the
  state after the handler has run on each frame found.\<close>

definition resync_index :: "bytes \<Rightarrow> nat" where
  "resync_index buf = 1 + length (takeWhile (\<lambda>b. b \<noteq> STM_SOF1) (tl buf))"

function rx_loop :: "(bytes \<Rightarrow> 's \<Rightarrow> 's) \<Rightarrow> bytes \<Rightarrow> 's \<Rightarrow> bytes \<times> 's" where
  "rx_loop handle buf s =
     (if buf = [] then (buf, s)
      else
        let r = stm_frame_complete (Some buf) in
        if r = STM_FRAME_NEED_MORE then (buf, s)
        else if r = STM_FRAME_BAD then
          (let i = resync_index buf in if i \<ge> length buf then ([], s) else rx_loop handle (drop i buf) s)
        else
          let s = handle (take (nat r) buf) s in
          if r > 0 \<and> nat r < length buf then rx_loop handle (drop (nat r) buf) s else ([], s))"
  by pat_completeness auto
termination by (relation "measure (\<lambda>(handle, buf, s). length buf)") (auto simp: resync_index_def)

declare rx_loop.simps [simp del]

definition uart_handle_frame :: "('u, 'w) os \<Rightarrow> bytes \<Rightarrow> ('u, 'w) uart \<Rightarrow> ('u, 'w) uart" where
  "uart_handle_frame S frame s =
     (let (u, g) = uart_dispatch_binary_frame S frame s in
      (if u_has_pending_request u then u\<lparr>u_state := UART_STATE_RESPONSE_RECEIVED\<rparr> else u, g))"

definition uart_process_received_data ::
    "('u, 'w) os \<Rightarrow> 'w uart_hw \<Rightarrow> bytes option \<Rightarrow> ('u, 'w) uart \<Rightarrow> ('u, 'w) uart" where
  "uart_process_received_data S H data s =
     (let (u, g) = s in
      case (data, u_response_buffer u) of
        (Some d, Some buf) \<Rightarrow>
          let len = length d; pos = length buf in
          if len = 0 then (u, g)
          else if len > UINT32_MAX - pos - 1 then (u\<lparr>u_response_buffer := Some []\<rparr>, g)
          else
            let over = pos + len + 1 > UART_MAX_RESPONSE_BUFFER_SIZE;
                buf = (if over then [] else buf);
                needed = (if over then len + 1 else pos + len + 1);
                (ok, w) = (if needed > u_response_buffer_size u then uh_alloc H needed (gw_world g) else (True, gw_world g));
                bsize = (if needed > u_response_buffer_size u \<and> ok then needed else u_response_buffer_size u);
                u = u\<lparr>u_response_buffer_size := bsize\<rparr>; g = set_world w g
            in if \<not> ok then (u\<lparr>u_response_buffer := Some []\<rparr>, g)
               else if length buf + len > bsize - 1 then (u\<lparr>u_response_buffer := Some []\<rparr>, g)
               else
                 let (rest, u, g) = rx_loop (uart_handle_frame S) (buf @ d) (u\<lparr>u_response_buffer := Some (buf @ d)\<rparr>, g)
                 in (u\<lparr>u_response_buffer := Some rest\<rparr>, g)
      | _ \<Rightarrow> (u, g))"

definition uart_rx_callback ::
    "('u, 'w) os \<Rightarrow> 'w uart_hw \<Rightarrow> nat \<Rightarrow> bytes option \<Rightarrow> ('u, 'w) uart \<Rightarrow> ('u, 'w) uart" where
  "uart_rx_callback S H port data s =
     (case data of
        None \<Rightarrow> s
      | Some d \<Rightarrow> if port \<noteq> uc_port (u_config (fst s)) \<or> d = [] then s
          else uart_process_received_data S H (Some (take UART_MAX_RX_CHUNK_SIZE d)) s)"

end
