(* ===== verification/Uart_Task.thy ===== *)
theory Uart_Task
  imports Uart_Manager
begin

text \<open>
  The task of the UART manager and its public interface (\<open>module/uart/uart_manager.c\<close>): the state machine
  that sends the queued requests and the PING-STM probe, waits for replies and gives up after a
  timeout.
\<close>

subsection \<open>Task statistics\<close>

definition uart_update_task_stats :: "'w uart_hw \<Rightarrow> uart_manager \<Rightarrow> uart_manager" where
  "uart_update_task_stats H u =
     (let mem = (if u_current_request u \<noteq> None then uh_message_size H else 0) +
                (if u_response_buffer u \<noteq> None then u_response_buffer_size u else 0);
          (ok, ts) = task_stats_update_periodic (Some (u_task_stats u)) mem;
          ts = the ts; st = u_stats u;
          st = (if ok then st\<lparr>ts_task_stack_size := ts_task_stack_size ts, ts_task_stack_used := ts_task_stack_used ts,
                  ts_task_stack_peak := ts_task_stack_peak ts, ts_task_stack_free := ts_task_stack_free ts\<rparr> else st)
      in u\<lparr>u_task_stats := ts, u_stats := st\<lparr>ts_memory_allocated := mem\<rparr>\<rparr>)"

subsection \<open>The states of the task\<close>

text \<open>The queue behind \<open>g_uart.module->config.msg_q\<close>, with its configuration.\<close>

definition uart_queue :: "('u, 'w) uart \<Rightarrow> (queue_config \<times> nat \<times> module_message queue) option" where
  "uart_queue s =
     (if \<not> u_module (fst s) then None
      else case gw_modules (snd s) ! module_id_code MODULE_ID_UART of
        None \<Rightarrow> None
      | Some m \<Rightarrow> map_option (\<lambda>hq. (mc_msg_q_config (m_config m), hq)) (mc_msg_q (m_config m)))"

definition set_uart_queue :: "(nat \<times> module_message queue) option \<Rightarrow> ('u, 'w) gateway \<Rightarrow> ('u, 'w) gateway" where
  "set_uart_queue hq = module_update (module_id_code MODULE_ID_UART) (\<lambda>m. m\<lparr>m_config := (m_config m)\<lparr>mc_msg_q := hq\<rparr>\<rparr>)"

definition uart_begin :: "module_message \<Rightarrow> bool \<Rightarrow> uart_manager \<Rightarrow> uart_manager" where
  "uart_begin req is_ping u = u\<lparr>u_current_request := Some req, u_current_is_ping := is_ping,
     u_has_pending_request := True, u_state := UART_STATE_SENDING\<rparr>"

definition ping_frame :: "int \<times> bytes" where
  "ping_frame = stm_build_frame True (int MODULE_MESSAGE_INLINE_SIZE) STM_SRC_TYPE_LOCAL STM_CMD_GET_DEV_INFO None 0"

definition ping_message :: module_message where
  "ping_message = (blank_message MODULE_ID_UART MODULE_ID_UART)\<lparr>
     mm_message := write_at (replicate MODULE_MESSAGE_INLINE_SIZE 0) 0 (snd ping_frame),
     mm_data_len := nat (fst ping_frame), mm_is_raw := True\<rparr>"

definition uart_idle_ping :: "'w uart_hw \<Rightarrow> ('u, 'w) uart \<Rightarrow> ('u, 'w) uart" where
  "uart_idle_ping H s =
     (let (u, g) = s in
      if u_ping_active u \<and> u_ping_attempts_left u > 0 then
        let (ok, w) = uh_alloc H (uh_message_size H) (gw_world g); g = set_world w g in
        if \<not> ok then (u, g)
        else if fst ping_frame > 0 then
          ((uart_begin ping_message True u)\<lparr>u_ping_attempts_left := u_ping_attempts_left u - 1\<rparr>, g)
        else (u, g)
      else (u, g))"

definition uart_idle :: "('u, 'w) os \<Rightarrow> 'w uart_hw \<Rightarrow> ('u, 'w) uart \<Rightarrow> ('u, 'w) uart" where
  "uart_idle S H s =
     (case uart_queue s of
        None \<Rightarrow> s
      | Some (cfg, h, q) \<Rightarrow>
          let (u, g) = s;
              (r, reqs, q, w) = queue_pop (os_flash S) (os_msg_abi S) True cfg 1 q (gw_world g);
              g = set_uart_queue (Some (h, q)) (set_world w g)
          in if r = RESULT_SUCCESS then
               let (ok, w) = uh_alloc H (uh_message_size H) (gw_world g); g = set_world w g in
               (if ok then uart_begin (hd reqs) False u else u, g)
             else uart_idle_ping H (u, g))"

definition uart_sending :: "'w uart_hw \<Rightarrow> ('u, 'w) uart \<Rightarrow> ('u, 'w) uart" where
  "uart_sending H s =
     (let (u, g) = s in
      case u_current_request u of
        None \<Rightarrow> (uart_reset_state u, g)
      | Some req \<Rightarrow>
          if \<not> u_uart_opened u then (uart_reset_state u, g)
          else if \<not> mm_is_raw req \<or> mm_data_len req = 0 then (uart_reset_state u, g)
          else case module_message_payload req of
            None \<Rightarrow> (uart_reset_state u, g)
          | Some raw \<Rightarrow>
              let (ok, w) = uh_write H (uc_port (u_config u)) (take (mm_data_len req) raw) (gw_world g) in
              (if ok then u\<lparr>u_state := UART_STATE_WAITING_RESPONSE\<rparr> else uart_reset_state u, set_world w g))"

definition wait_limit :: "uart_manager \<Rightarrow> nat" where
  "wait_limit u = (if u_current_is_ping u then UART_PING_TIMEOUT_TICKS else u_response_timeout_ticks u)"

definition uart_waiting :: "('u, 'w) os \<Rightarrow> ('u, 'w) uart \<Rightarrow> ('u, 'w) uart" where
  "uart_waiting S s =
     (let (u, g) = s;
          u = u\<lparr>u_response_timeout_counter := u32 (u_response_timeout_counter u + 1)\<rparr>
      in if u_response_timeout_counter u > wait_limit u then
           let (u, g) =
             (if u_current_is_ping u \<and> u_ping_attempts_left u = 0 then
                (u\<lparr>u_ping_active := False\<rparr>,
                 uart_route_to_module_queue S (u_ping_requester u) (Some (c_str (u_ping_addr u)))
                   (Some ''STM: FAIL (no response)'') g)
              else (u, g))
           in (uart_reset_state u, g)
         else (u, g))"

definition uart_state_step :: "('u, 'w) os \<Rightarrow> 'w uart_hw \<Rightarrow> ('u, 'w) uart \<Rightarrow> ('u, 'w) uart" where
  "uart_state_step S H s =
     (case u_state (fst s) of
        UART_STATE_IDLE \<Rightarrow> uart_idle S H s
      | UART_STATE_SENDING \<Rightarrow> uart_sending H s
      | UART_STATE_WAITING_RESPONSE \<Rightarrow> uart_waiting S s
      | UART_STATE_RESPONSE_RECEIVED \<Rightarrow> (uart_reset_state (fst s), snd s))"

text \<open>One turn of the loop of \<open>uart_task_entry\<close>.\<close>

definition uart_task_step :: "('u, 'w) os \<Rightarrow> 'w uart_hw \<Rightarrow> ('u, 'w) uart \<Rightarrow> ('u, 'w) uart" where
  "uart_task_step S H s =
     (let (u, g) = s;
          g = module_manager_update_uptime S MODULE_ID_UART g;
          u = uart_update_task_stats H u;
          (u, g) = uart_state_step S H (u, g)
      in (u, set_world (os_sleep S (u_task_interval_ms u) (gw_world g)) g))"

subsection \<open>Public interface\<close>

definition uart_module_initialized :: "('u, 'w) uart \<Rightarrow> bool" where
  "uart_module_initialized s \<longleftrightarrow> u_module (fst s) \<and>
     (case gw_modules (snd s) ! module_id_code MODULE_ID_UART of None \<Rightarrow> False | Some m \<Rightarrow> ms_initialized (m_status m))"

definition uart_manager_start_ping_test ::
    "module_id \<Rightarrow> string option \<Rightarrow> ('u, 'w) uart \<Rightarrow> result \<times> ('u, 'w) uart" where
  "uart_manager_start_ping_test requester addr s =
     (if \<not> uart_module_initialized s then (RESULT_ERROR, s)
      else if u_ping_active (fst s) then (RESULT_BUSY, s)
      else
        let u = fst s;
            a = the (snd (utils_strncpy_safe (Some (u_ping_addr u)) (Some (case addr of None \<Rightarrow> '''' | Some a \<Rightarrow> a))
                  (length (u_ping_addr u))))
        in (RESULT_SUCCESS,
            u\<lparr>u_ping_requester := requester, u_ping_addr := a, u_ping_attempts_left := UART_PING_MAX_ATTEMPTS,
              u_current_is_ping := False, u_ping_active := True\<rparr>, snd s))"

definition uart_manager_send_request ::
    "('u, 'w) os \<Rightarrow> module_message option \<Rightarrow> ('u, 'w) uart \<Rightarrow> result \<times> ('u, 'w) uart" where
  "uart_manager_send_request S r s =
     (case (r, uart_queue s) of
        (Some msg, Some (cfg, h, q)) \<Rightarrow>
          if \<not> uart_module_initialized s then (RESULT_ERROR, s)
          else
            let (res, q, w) = queue_push (os_flash S) (os_msg_abi S) True cfg q msg (gw_world (snd s)) in
            (if res \<noteq> RESULT_SUCCESS then RESULT_BUSY else RESULT_SUCCESS,
             fst s, set_uart_queue (Some (h, q)) (set_world w (snd s)))
      | _ \<Rightarrow> (RESULT_ERROR, s))"

definition uart_set_defaults :: "uart_manager \<Rightarrow> uart_manager" where
  "uart_set_defaults u = u\<lparr>u_rx_buffer_size := 1024, u_task_stack_size := UART_TASK_STACK_SIZE,
     u_task_priority := TP_TIMED_ACTIVITY, u_task_interval_ms := 100, u_response_timeout_ticks := 40, u_module := False,
     u_config := \<lparr>uc_port = WM_SDK_UART_PORT_1, uc_baud_rate = 115200, uc_data_bits = 8, uc_stop_bits = 1, uc_parity = 0\<rparr>,
     u_task := None, u_state := UART_STATE_IDLE, u_current_request := None, u_has_pending_request := False,
     u_response_timeout_counter := 0, u_response_buffer := None, u_response_buffer_size := 0, u_uart_opened := False,
     u_stats := task_stats_zero, u_task_stats := task_stats_zero\<rparr>"

text \<open>\<open>queue_manager_destroy\<close> of the UART queue, and the pointer set to null.\<close>

definition uart_destroy_queue :: "('u, 'w) uart \<Rightarrow> ('u, 'w) gateway" where
  "uart_destroy_queue s =
     (case uart_queue s of
        None \<Rightarrow> snd s
      | Some (cfg, h, q) \<Rightarrow>
          set_uart_queue None ((snd s)\<lparr>gw_queues := snd (queue_manager_destroy (Some h) (gw_queues (snd s)))\<rparr>))"

definition uart_manager_deinit :: "'w uart_hw \<Rightarrow> ('u, 'w) uart \<Rightarrow> result \<times> ('u, 'w) uart" where
  "uart_manager_deinit H s =
     (if \<not> uart_module_initialized s then (RESULT_SUCCESS, uart_set_defaults (fst s), snd s)
      else
        let (u, g) = s;
            g = (case u_task u of None \<Rightarrow> g | Some t \<Rightarrow> set_world (uh_task_delete H t (gw_world g)) g);
            u = u\<lparr>u_task := None\<rparr>;
            g = uart_destroy_queue (u, g);
            u = (if u_response_buffer u \<noteq> None then u\<lparr>u_response_buffer := None, u_response_buffer_size := 0\<rparr> else u);
            u = uart_reset_state u;
            port = uc_port (u_config u);
            g = (if u_uart_opened u
                 then set_world (uh_close H port (snd (uh_set_rx_callback H port False (gw_world g)))) g else g)
        in (RESULT_SUCCESS, uart_set_defaults u, g))"

text \<open>The part of \<open>uart_manager_init\<close> after the creation of the queue.\<close>

definition uart_init_port :: "'w uart_hw \<Rightarrow> ('u, 'w) uart \<Rightarrow> result \<times> ('u, 'w) uart" where
  "uart_init_port H s =
     (let (u, g) = s;
          (ok, w) = uh_alloc H (u_rx_buffer_size u) (gw_world g); g = set_world w g
      in if \<not> ok then (RESULT_ERROR, u, uart_destroy_queue (u, g))
         else
           let u = u\<lparr>u_response_buffer := Some [], u_response_buffer_size := u_rx_buffer_size u\<rparr>;
               port = uc_port (u_config u);
               (_, w) = uh_set_config H (u_config u) (gw_world g);
               (ok, w) = uh_set_rx_callback H port True w; g = set_world w g
           in if \<not> ok then (RESULT_ERROR, u\<lparr>u_response_buffer := None\<rparr>, uart_destroy_queue (u, g))
              else
                let u = u\<lparr>u_uart_opened := True\<rparr>;
                    (task, w) = uh_task_create H (gw_world g); g = set_world w g;
                    u = u\<lparr>u_task := task\<rparr>
                in if task = None then
                     let g = set_world (snd (uh_set_rx_callback H port False (gw_world g))) g in
                     (RESULT_ERROR, u\<lparr>u_uart_opened := False, u_response_buffer := None\<rparr>, uart_destroy_queue (u, g))
                   else (RESULT_SUCCESS, u, g))"

definition uart_manager_init :: "('u, 'w) os \<Rightarrow> 'w uart_hw \<Rightarrow> ('u, 'w) uart \<Rightarrow> result \<times> ('u, 'w) uart" where
  "uart_manager_init S H s =
     (let (u, g) = s; u = uart_set_defaults u in
      case gw_modules g ! module_id_code MODULE_ID_UART of
        None \<Rightarrow> (RESULT_ERROR, u, g)
      | Some m \<Rightarrow>
          let u = u\<lparr>u_module := True\<rparr> in
          if ms_initialized (m_status m) then (RESULT_SUCCESS, u, g)
          else if module_manager_get_module MODULE_ID_UART g = None then (RESULT_ERROR, u, g)
          else
            let ((h, buf_ok, mutex_ok, junk), w) = uh_queue_alloc H (gw_world g);
                (r, hq, qs, pb, w) = queue_manager_create (os_flash S) (os_msg_abi S) True h buf_ok mutex_ok junk
                   (mc_msg_q_config (m_config m)) (gw_queues g) (gw_pre_boot g) w;
                g = g\<lparr>gw_queues := qs, gw_pre_boot := pb, gw_world := w\<rparr>
            in if r \<noteq> RESULT_SUCCESS then (RESULT_ERROR, u, g)
               else uart_init_port H (u, set_uart_queue hq g))"

subsection \<open>Executions\<close>

text \<open>The steps of the running module: bytes received, a turn of the task, a ping test requested, a request
  queued. \<open>uart_event\<close> names them with their arguments.\<close>

datatype uart_event =
    Ev_Rx nat "bytes option"
  | Ev_Tick
  | Ev_Ping module_id "string option"
  | Ev_Send "module_message option"

fun uart_step :: "('u, 'w) os \<Rightarrow> 'w uart_hw \<Rightarrow> uart_event \<Rightarrow> ('u, 'w) uart \<Rightarrow> ('u, 'w) uart" where
  "uart_step S H (Ev_Rx port data) s = uart_rx_callback S H port data s"
| "uart_step S H Ev_Tick s = uart_task_step S H s"
| "uart_step S H (Ev_Ping requester addr) s = snd (uart_manager_start_ping_test requester addr s)"
| "uart_step S H (Ev_Send r) s = snd (uart_manager_send_request S r s)"

fun uart_run :: "('u, 'w) os \<Rightarrow> 'w uart_hw \<Rightarrow> uart_event list \<Rightarrow> ('u, 'w) uart \<Rightarrow> ('u, 'w) uart" where
  "uart_run S H [] s = s"
| "uart_run S H (e # es) s = uart_run S H es (uart_step S H e s)"

end
