(* ===== verification/Uart_Stream.thy ===== *)
theory Uart_Stream
  imports Uart_Task
begin

text \<open>
  Reassembly of the byte stream from the STM: what the receive loop finds does not depend on how the
  driver cuts the stream into chunks.
\<close>

subsection \<open>More bytes do not change a verdict\<close>

lemma frame_complete_less_2: "length buf < 2 \<Longrightarrow> stm_frame_complete (Some buf) = STM_FRAME_NEED_MORE"
  by (simp add: stm_frame_complete.simps Let_def)

lemma frame_complete_bad_start:
  "2 \<le> length buf \<Longrightarrow> buf ! 0 \<noteq> STM_SOF1 \<Longrightarrow> stm_frame_complete (Some buf) = STM_FRAME_BAD"
  by (simp add: stm_frame_complete.simps Let_def)

lemma frame_complete_append:
  assumes "stm_frame_complete (Some a) = r" and "r \<noteq> STM_FRAME_NEED_MORE"
  shows "stm_frame_complete (Some (a @ b)) = r"
proof -
  have nth: "(a @ b) ! i = a ! i" if "i < length a" for i using that by (simp add: nth_append)
  let ?n = "unat (a ! 5)"
  let ?m = "be16 (a ! (7 + ?n)) (a ! (8 + ?n))"
  have l2: "2 \<le> length a" using assms frame_complete_less_2 [of a] by (cases "length a < 2") auto
  have n0: "(a @ b) ! 0 = a ! 0" "(a @ b) ! Suc 0 = a ! Suc 0" using l2 by (auto intro: nth)
  note c = assms(1) [symmetric] stm_frame_complete.simps Let_def
  show ?thesis
  proof (cases "a ! 0 = STM_SOF1 \<and> a ! 1 = STM_SOF2")
    case False
    then show ?thesis using l2 by (auto simp: c n0)
  next
    case sof: True
    then have l6: "6 \<le> length a" using assms l2 by (cases "length a < 6") (auto simp: c)
    then have n5: "(a @ b) ! 5 = a ! 5" by (intro nth) simp
    show ?thesis
    proof (cases "?n > STM_SRC_LEN_MAX")
      case True
      then show ?thesis using sof l6 by (simp add: c n0 n5)
    next
      case n: False
      then have l9: "9 + ?n \<le> length a" using assms sof l6 by (cases "length a < 9 + ?n") (auto simp: c)
      then have n7: "(a @ b) ! (7 + ?n) = a ! (7 + ?n)" "(a @ b) ! (8 + ?n) = a ! (8 + ?n)" by (auto intro: nth)
      show ?thesis
      proof (cases "?m > STM_MAX_PAYLOAD")
        case True
        then show ?thesis
          using sof l6 l9 n by (simp add: c n0 n5 n7)
      next
        case m: False
        then have l: "11 + ?n + ?m \<le> length a"
          using assms sof l6 l9 n by (cases "length a < 11 + ?n + ?m") (auto simp: c add_ac)
        have "take (7 + ?n + ?m) (drop 2 (a @ b)) = take (7 + ?n + ?m) (drop 2 a)" using l by simp
        moreover have "(a @ b) ! (9 + ?n + ?m) = a ! (9 + ?n + ?m)" "(a @ b) ! (10 + ?n + ?m) = a ! (10 + ?n + ?m)"
          using l by (auto simp: nth_append)
        ultimately show ?thesis
          using stm_frame_complete_crc [of a, OF _ _ refl _ refl] stm_frame_complete_crc [of "a @ b" ?n ?m]
            sof l l6 l9 n m assms(1) n0 n5 n7
          by simp
      qed
    qed
  qed
qed

lemma frame_complete_not_below: "stm_frame_complete (Some buf) \<ge> - 1"
  by (simp add: stm_frame_complete.simps Let_def)

lemma frame_complete_range:
  "stm_frame_complete (Some buf) = STM_FRAME_NEED_MORE \<or> stm_frame_complete (Some buf) = STM_FRAME_BAD \<or>
   (11 \<le> stm_frame_complete (Some buf) \<and> nat (stm_frame_complete (Some buf)) \<le> length buf)"
proof (cases "0 < stm_frame_complete (Some buf)")
  case True
  obtain n m where "stm_frame_complete (Some buf) = int (11 + n + m)" "11 + n + m \<le> length buf"
    using stm_frame_complete_pos [OF refl True] by blast
  then show ?thesis by simp
next
  case False
  then show ?thesis using frame_complete_not_below [of buf] by linarith
qed

lemma frame_need_more_short:
  "stm_frame_complete (Some buf) = STM_FRAME_NEED_MORE \<Longrightarrow> length buf < 1082"
  by (auto simp: stm_frame_complete.simps Let_def split: if_splits)

subsection \<open>Scanning a byte stream\<close>

text \<open>The frames in a stream and what is left over, as the loop finds them.\<close>

definition skip_noise :: "bytes \<Rightarrow> bytes" where
  "skip_noise = dropWhile (\<lambda>b. b \<noteq> STM_SOF1)"

lemma length_skip_noise: "length (skip_noise xs) \<le> length xs"
  by (simp add: skip_noise_def length_dropWhile_le)

function scan :: "bytes \<Rightarrow> bytes list \<times> bytes" where
  "scan buf =
     (let r = stm_frame_complete (Some buf) in
      if r = STM_FRAME_NEED_MORE then ([], buf)
      else if r = STM_FRAME_BAD then scan (skip_noise (tl buf))
      else let (fs, rest) = scan (drop (nat r) buf) in (take (nat r) buf # fs, rest))"
  by pat_completeness auto

lemma scan_term_bad: "stm_frame_complete (Some buf) = STM_FRAME_BAD \<Longrightarrow> length (skip_noise (tl buf)) < length buf"
proof -
  assume bad: "stm_frame_complete (Some buf) = STM_FRAME_BAD"
  then have "buf \<noteq> []" using frame_complete_less_2 [of buf] by auto
  then show ?thesis using length_skip_noise [of "tl buf"] by (cases buf) auto
qed

termination scan
proof (relation "measure length")
  fix buf :: bytes and r
  assume r: "r = stm_frame_complete (Some buf)" "r \<noteq> STM_FRAME_NEED_MORE" "r \<noteq> STM_FRAME_BAD"
  then have "11 \<le> r" "nat r \<le> length buf" using frame_complete_range [of buf] by auto
  then show "(drop (nat r) buf, buf) \<in> measure length" by auto
qed (auto simp: scan_term_bad)

declare scan.simps [simp del]

lemma scan_need_more [simp]: "stm_frame_complete (Some buf) = STM_FRAME_NEED_MORE \<Longrightarrow> scan buf = ([], buf)"
  by (subst scan.simps) simp

lemma scan_bad [simp]: "stm_frame_complete (Some buf) = STM_FRAME_BAD \<Longrightarrow> scan buf = scan (skip_noise (tl buf))"
  by (subst scan.simps) simp

lemma scan_frame:
  "stm_frame_complete (Some buf) = r \<Longrightarrow> 0 < r \<Longrightarrow>
   scan buf = (take (nat r) buf # fst (scan (drop (nat r) buf)), snd (scan (drop (nat r) buf)))"
  by (subst scan.simps) (simp add: split_beta)

lemma scan_rest_need_more: "stm_frame_complete (Some (snd (scan buf))) = STM_FRAME_NEED_MORE"
proof (induction buf rule: scan.induct)
  case (1 buf)
  note R = frame_complete_range [of buf]
  show ?case
  proof (cases "stm_frame_complete (Some buf) = STM_FRAME_NEED_MORE \<or> stm_frame_complete (Some buf) = STM_FRAME_BAD")
    case True
    then show ?thesis using 1(1) by auto
  next
    case False
    then show ?thesis using 1(2) [OF refl] R by (subst scan_frame [OF refl]) auto
  qed
qed

lemma drop_resync: "drop (resync_index buf) buf = skip_noise (tl buf)"
  by (cases buf) (simp_all add: resync_index_def skip_noise_def dropWhile_eq_drop)

lemma rx_loop_scan: "rx_loop h buf s = (snd (scan buf), fold h (fst (scan buf)) s)"
proof (induction h buf s rule: rx_loop.induct)
  case (1 h buf s)
  note R = frame_complete_range [of buf]
  let ?r = "stm_frame_complete (Some buf)"
  show ?case
  proof (cases "buf = []")
    case True
    then show ?thesis using frame_complete_less_2 [of buf] by (subst rx_loop.simps) simp
  next
    case ne: False
    show ?thesis
    proof (cases "?r = STM_FRAME_NEED_MORE \<or> ?r = STM_FRAME_BAD")
      case True
      have e: "resync_index buf \<ge> length buf \<Longrightarrow> skip_noise (tl buf) = []"
        by (simp flip: drop_resync)
      show ?thesis
        using True ne 1(1) [OF ne refl] frame_complete_less_2 [of "[]"] e
        by (subst rx_loop.simps) (auto simp: drop_resync Let_def)
    next
      case False
      then have r: "11 \<le> ?r" "nat ?r \<le> length buf" using R by auto
      have e: "scan [] = ([], [])" using frame_complete_less_2 [of "[]"] by simp
      show ?thesis
        using False ne r 1(2) [OF ne refl _ _ refl] e
        by (subst rx_loop.simps, subst (1 2) scan_frame [OF refl]) (auto simp: Let_def)
    qed
  qed
qed

lemma scan_skip_noise:
  "fst (scan (skip_noise b)) = fst (scan b) \<and> skip_noise (snd (scan (skip_noise b))) = skip_noise (snd (scan b))"
proof (cases "2 \<le> length b \<and> b ! 0 \<noteq> STM_SOF1")
  case True
  then have "skip_noise b = skip_noise (tl b)" by (cases b) (auto simp: skip_noise_def)
  then show ?thesis using True frame_complete_bad_start [of b] by simp
next
  case False
  then consider "b = []" | x where "b = [x]" | "b \<noteq> []" "b ! 0 = STM_SOF1"
    by (cases b; cases "tl b") auto
  then show ?thesis
  proof cases
    case (2 x)
    then show ?thesis
      using frame_complete_less_2 [of "[x]"] frame_complete_less_2 [of "[]"]
      by (cases "x = STM_SOF1") (simp_all add: skip_noise_def)
  next
    case 3
    then have "skip_noise b = b" by (cases b) (auto simp: skip_noise_def)
    then show ?thesis by simp
  qed (simp add: skip_noise_def)
qed

lemma scan_append:
  "fst (scan (a @ b)) = fst (scan a) @ fst (scan (snd (scan a) @ b)) \<and>
   skip_noise (snd (scan (a @ b))) = skip_noise (snd (scan (snd (scan a) @ b)))"
proof (induction a rule: scan.induct)
  case (1 a)
  let ?r = "stm_frame_complete (Some a)"
  consider "?r = STM_FRAME_NEED_MORE" | "?r = STM_FRAME_BAD" | "11 \<le> ?r" "nat ?r \<le> length a"
    using frame_complete_range [of a] by auto
  then show ?case
  proof cases
    case 2
    then have ne: "a \<noteq> []" using frame_complete_less_2 [of a] by auto
    have bad: "stm_frame_complete (Some (a @ b)) = STM_FRAME_BAD"
      by (rule frame_complete_append) (use 2 in auto)
    have app: "skip_noise (tl a @ b) = (if skip_noise (tl a) = [] then skip_noise b else skip_noise (tl a) @ b)"
      by (auto simp: skip_noise_def dropWhile_append)
    have e: "scan [] = ([], [])" using frame_complete_less_2 [of "[]"] by simp
    show ?thesis
      using 2 bad ne 1(1) [OF refl] app e scan_skip_noise [of b] by auto
  next
    case 3
    have ab: "stm_frame_complete (Some (a @ b)) = ?r"
      by (rule frame_complete_append) (use 3 in auto)
    have "scan (a @ b) = (take (nat ?r) a # fst (scan (drop (nat ?r) a @ b)), snd (scan (drop (nat ?r) a @ b)))"
      using scan_frame [OF ab] 3 by simp
    moreover have "scan a = (take (nat ?r) a # fst (scan (drop (nat ?r) a)), snd (scan (drop (nat ?r) a)))"
      using scan_frame [OF refl, of a] 3 by simp
    ultimately show ?thesis using 1(2) [OF refl] 3 by auto
  qed simp
qed

subsection \<open>The handler does not see the buffer\<close>

definition rx_view :: "('u, 'w) uart \<Rightarrow> ('u, 'w) uart" where
  "rx_view s = ((fst s)\<lparr>u_response_buffer := None, u_response_buffer_size := 0\<rparr>, snd s)"

lemma stale_frame_rx [simp]:
  "stale_frame (u\<lparr>u_response_buffer := b, u_response_buffer_size := n\<rparr>) cmd = stale_frame u cmd"
  by (simp add: stale_frame_def)

lemma reply_origin_rx [simp]:
  "reply_origin (u\<lparr>u_response_buffer := b, u_response_buffer_size := n\<rparr>) = reply_origin u"
  by (simp add: reply_origin_def)

lemma user_reply_rx [simp]:
  "uart_user_reply (u\<lparr>u_response_buffer := b, u_response_buffer_size := n\<rparr>) cmd pl plen = uart_user_reply u cmd pl plen"
  by (simp add: uart_user_reply_def)

lemma handle_frame_rx:
  "rx_view (uart_handle_frame S f s) = uart_handle_frame S f (rx_view s)"
  by (cases s) (simp add: rx_view_def uart_handle_frame_def uart_dispatch_binary_frame_def Let_def split_beta)

lemma handle_frames_rx:
  "rx_view (fold (uart_handle_frame S) fs s) = fold (uart_handle_frame S) fs (rx_view s)"
  by (induction fs arbitrary: s) (simp_all add: handle_frame_rx)

lemma handle_frame_config [simp]: "u_config (fst (uart_handle_frame S f s)) = u_config (fst s)"
  by (cases s) (simp add: uart_handle_frame_def uart_dispatch_binary_frame_def Let_def split_beta)

lemma handle_frames_config [simp]: "u_config (fst (fold (uart_handle_frame S) fs s)) = u_config (fst s)"
  by (induction fs arbitrary: s) simp_all

lemma rx_view_buffer: "rx_view ((fst t)\<lparr>u_response_buffer := b\<rparr>, snd t) = rx_view t"
  by (simp add: rx_view_def)

lemma rx_view_eq_iff:
  "rx_view s = rx_view (u, g) \<Longrightarrow> snd s = g \<and> u_config (fst s) = u_config u"
  by (cases s) (auto simp: rx_view_def dest: arg_cong [where f = u_config])

subsection \<open>Chunks\<close>

text \<open>An allocator that never fails and that only hands out memory.\<close>

definition alloc_ok :: "'w uart_hw \<Rightarrow> bool" where
  "alloc_ok H \<longleftrightarrow> (\<forall>n w. uh_alloc H n w = (True, w))"

definition rx_events :: "nat \<Rightarrow> bytes list \<Rightarrow> uart_event list" where
  "rx_events port cs = map (\<lambda>c. Ev_Rx port (Some c)) cs"

abbreviation (input) UART_SAFE_CHUNK :: nat where "UART_SAFE_CHUNK \<equiv> 198"

definition fits :: "bytes \<Rightarrow> bool" where
  "fits c \<longleftrightarrow> c \<noteq> [] \<and> length c \<le> UART_SAFE_CHUNK"

lemma process_received:
  assumes "alloc_ok H" and "u_response_buffer u = Some buf" and "fits d" and "length buf < 1082"
  shows "\<exists>n. uart_process_received_data S H (Some d) (u, g) =
    (let s = fold (uart_handle_frame S) (fst (scan (buf @ d)))
               (u\<lparr>u_response_buffer_size := n, u_response_buffer := Some (buf @ d)\<rparr>, g)
     in ((fst s)\<lparr>u_response_buffer := Some (snd (scan (buf @ d)))\<rparr>, snd s))"
proof -
  have w: "set_world (gw_world g) g = g" by (simp add: set_world_def)
  have keep: "u\<lparr>u_response_buffer_size := u_response_buffer_size u\<rparr> = u" by simp
  have len: "d \<noteq> []" "length d \<le> 198" "\<not> length d > UINT32_MAX - length buf - 1"
    "\<not> length buf + length d + 1 > UART_MAX_RESPONSE_BUFFER_SIZE"
    using assms(3,4) by (auto simp: fits_def)
  have alloc: "uh_alloc H n v = (True, v)" for n v using assms(1) by (simp add: alloc_ok_def)
  let ?n = "max (u_response_buffer_size u) (length buf + length d + 1)"
  show ?thesis
  proof (cases "length buf + length d + 1 > u_response_buffer_size u")
    case True
    then show ?thesis
      using assms(2) len
      by (intro exI [of _ ?n]) (simp add: uart_process_received_data_def alloc rx_loop_scan w max_def Let_def split_beta)
  next
    case False
    then have "?n = u_response_buffer_size u" by simp
    then show ?thesis
      using assms(2) len False
      by (intro exI [of _ ?n]) (simp add: uart_process_received_data_def rx_loop_scan w keep Let_def split_beta)
  qed
qed

lemma rx_chunk:
  assumes "alloc_ok H" and "u_response_buffer (fst s) = Some buf" and "fits d" and "length buf < 1082"
    and "uc_port (u_config (fst s)) = port"
  shows "rx_view (uart_step S H (Ev_Rx port (Some d)) s) = fold (uart_handle_frame S) (fst (scan (buf @ d))) (rx_view s) \<and>
    u_response_buffer (fst (uart_step S H (Ev_Rx port (Some d)) s)) = Some (snd (scan (buf @ d)))"
proof -
  obtain u g where s: "s = (u, g)" by (cases s)
  have tk: "take UART_MAX_RX_CHUNK_SIZE d = d" and ne: "d \<noteq> []" using assms(3) by (simp_all add: fits_def)
  obtain n where p: "uart_process_received_data S H (Some d) (u, g) =
    (let s = fold (uart_handle_frame S) (fst (scan (buf @ d)))
               (u\<lparr>u_response_buffer_size := n, u_response_buffer := Some (buf @ d)\<rparr>, g)
     in ((fst s)\<lparr>u_response_buffer := Some (snd (scan (buf @ d)))\<rparr>, snd s))"
    using process_received [OF assms(1) _ assms(3,4), of u] assms(2) by (auto simp: s)
  have "rx_view (u\<lparr>u_response_buffer_size := n, u_response_buffer := Some (buf @ d)\<rparr>, g) = rx_view s"
    by (simp add: rx_view_def s)
  then show ?thesis
    using assms(5) ne p by (simp add: s rx_view_buffer uart_rx_callback_def tk Let_def handle_frames_rx)
qed

lemma rx_chunks:
  assumes "alloc_ok H" and "\<forall>c \<in> set cs. fits c"
    and "u_response_buffer (fst s) = Some buf" and "stm_frame_complete (Some buf) = STM_FRAME_NEED_MORE"
    and "uc_port (u_config (fst s)) = port"
  shows "rx_view (uart_run S H (rx_events port cs) s) =
      fold (uart_handle_frame S) (fst (scan (buf @ concat cs))) (rx_view s) \<and>
    (\<exists>rest. u_response_buffer (fst (uart_run S H (rx_events port cs) s)) = Some rest \<and>
       stm_frame_complete (Some rest) = STM_FRAME_NEED_MORE \<and>
       skip_noise rest = skip_noise (snd (scan (buf @ concat cs))))"
  using assms(2-5)
proof (induction cs arbitrary: s buf)
  case Nil
  then show ?case by (simp add: rx_events_def)
next
  case (Cons c cs)
  let ?s = "uart_step S H (Ev_Rx port (Some c)) s"
  have step: "rx_view ?s = fold (uart_handle_frame S) (fst (scan (buf @ c))) (rx_view s)"
    "u_response_buffer (fst ?s) = Some (snd (scan (buf @ c)))"
    using rx_chunk [OF assms(1) Cons.prems(2)] Cons.prems frame_need_more_short [OF Cons.prems(3)] by auto
  have "u_config (fst ?s) = u_config (fst (rx_view ?s))" by (simp add: rx_view_def)
  also have "\<dots> = u_config (fst s)" unfolding step(1) handle_frames_config by (simp add: rx_view_def)
  finally have port: "uc_port (u_config (fst ?s)) = port" using Cons.prems(4) by simp
  have app: "fst (scan (buf @ c @ concat cs)) = fst (scan (buf @ c)) @ fst (scan (snd (scan (buf @ c)) @ concat cs))"
    "skip_noise (snd (scan (buf @ c @ concat cs))) = skip_noise (snd (scan (snd (scan (buf @ c)) @ concat cs)))"
    using scan_append [of "buf @ c" "concat cs"] by simp_all
  have run: "uart_run S H (rx_events port (c # cs)) s = uart_run S H (rx_events port cs) ?s"
    by (simp add: rx_events_def)
  show ?case
    using Cons.IH [OF _ step(2) scan_rest_need_more port] Cons.prems(1)
    unfolding run by (simp add: app step(1) del: uart_step.simps)
qed

subsection \<open>Frames among noise\<close>








subsection \<open>Properties\<close>

text \<open>C8: the reception does not depend on how the bytes from the STM are cut. Two runs of the receive
  callback on the same byte stream, cut into chunks of 1 to 198 bytes in two different ways, leave the
  module, the queues of all modules and the world the same; only the buffer and its size may differ.
  (198 bytes is what always fits beside the longest incomplete frame.)\<close>

theorem uart_stream_chunking:
  assumes "alloc_ok H" and "u_response_buffer (fst s) = Some buf"
    and "stm_frame_complete (Some buf) = STM_FRAME_NEED_MORE" and "uc_port (u_config (fst s)) = port"
    and "\<forall>c \<in> set cs. fits c" and "\<forall>c \<in> set ds. fits c" and "concat cs = concat ds"
  shows "rx_view (uart_run S H (rx_events port cs) s) = rx_view (uart_run S H (rx_events port ds) s)"
  using rx_chunks [OF assms(1,5,2,3,4)] rx_chunks [OF assms(1,6,2,3,4)] assms(7) by simp


end
