(* ===== verification/Uart_Session.thy ===== *)
theory Uart_Session
  imports Uart_Stream
begin

text \<open>
  The request and reply sessions of the UART manager: who is sent a reply, what a stray frame does, the
  invariant of the state machine, and that every request and every probe ends.
\<close>

named_theorems uart_simps \<open>steps of the UART manager\<close>

subsection \<open>What a push to a module changes\<close>

text \<open>The gateways differ at most in the slot of one module and in the world.\<close>

definition only_module :: "module_id \<Rightarrow> ('u, 'w) gateway \<Rightarrow> ('u, 'w) gateway \<Rightarrow> bool" where
  "only_module mid g g' \<longleftrightarrow> gw_events g' = gw_events g \<and> gw_pre_boot g' = gw_pre_boot g \<and> gw_queues g' = gw_queues g \<and>
     length (gw_modules g') = length (gw_modules g) \<and>
     (\<forall>i. i \<noteq> module_id_code mid \<longrightarrow> gw_modules g' ! i = gw_modules g ! i)"

lemma only_module_refl [simp]: "only_module mid g g"
  by (simp add: only_module_def)

lemma only_module_push: "only_module mid g (snd (push_to_module S mid msg g))"
  by (simp add: push_to_module_def only_module_def module_update_def split_beta split: option.split)

lemma only_module_route: "only_module mid g (uart_route_to_module_queue S mid a m g)"
proof (cases "mid = MODULE_ID_TCP")
  case True
  then show ?thesis
    by (simp add: uart_route_to_module_queue_def utils_route_response_to_module_def only_module_push Let_def split_beta split: option.split)
next
  case False
  then show ?thesis by (simp add: uart_route_to_module_queue_def only_module_push Let_def split_beta)
qed

lemma only_module_send_reply: "only_module mid g (send_reply S mid a r g)"
  by (cases r) (simp_all add: send_reply_def only_module_route uart_route_binary_to_module_queue_def only_module_push Let_def)

subsection \<open>Dispatch\<close>

lemma dispatch_request:
  assumes "\<not> u_current_is_ping u"
  shows "\<exists>g'. uart_dispatch_binary_frame S frame (u, g) = (u, g') \<and> only_module (reply_origin u) g g' \<and>
    (stale_frame u (stm_frame_cmd frame) \<longrightarrow> g' = g)"
  using assms by (auto simp: uart_dispatch_binary_frame_def Let_def only_module_send_reply)

lemma dispatch_ping:
  assumes "u_current_is_ping u"
  shows "\<exists>a g'. uart_dispatch_binary_frame S frame (u, g) = (u\<lparr>u_ping_active := a\<rparr>, g') \<and> only_module (u_ping_requester u) g g' \<and>
    (if stm_frame_cmd frame = STM_CMD_GET_DEV_INFO OR STM_CMD_RESP_BIT then \<not> a else a = u_ping_active u \<and> g' = g)"
  using assms by (auto simp: uart_dispatch_binary_frame_def Let_def only_module_route intro: exI [of _ "u_ping_active u"])

text \<open>The changes of a frame to the module: it may end a ping and mark a request as answered.\<close>

lemma handle_frame_shape:
  "\<exists>a g'. uart_handle_frame S f (u, g) =
     (u\<lparr>u_ping_active := a, u_state := if u_has_pending_request u then UART_STATE_RESPONSE_RECEIVED else u_state u\<rparr>, g') \<and>
     (a = u_ping_active u \<or> (u_current_is_ping u \<and> \<not> a)) \<and>
     only_module (if u_current_is_ping u then u_ping_requester u else reply_origin u) g g'"
proof (cases "u_current_is_ping u")
  case True
  from dispatch_ping [OF True, of S f g] obtain a g' where
    "uart_dispatch_binary_frame S f (u, g) = (u\<lparr>u_ping_active := a\<rparr>, g')" "only_module (u_ping_requester u) g g'"
    "a = u_ping_active u \<or> \<not> a" by (metis (full_types))
  then show ?thesis using True by (intro exI [of _ a] exI [of _ g']) (auto simp: uart_handle_frame_def)
next
  case False
  from dispatch_request [OF False, of S f g] obtain g' where
    "uart_dispatch_binary_frame S f (u, g) = (u, g')" "only_module (reply_origin u) g g'" by blast
  then show ?thesis using False
    by (intro exI [of _ "u_ping_active u"] exI [of _ g']) (auto simp: uart_handle_frame_def)
qed

subsection \<open>The invariant of the state machine\<close>

definition uart_inv :: "uart_manager \<Rightarrow> bool" where
  "uart_inv u \<longleftrightarrow>
     (u_has_pending_request u \<longleftrightarrow> u_current_request u \<noteq> None) \<and>
     (u_state u = UART_STATE_IDLE \<longleftrightarrow> \<not> u_has_pending_request u) \<and>
     (u_state u \<in> {UART_STATE_IDLE, UART_STATE_SENDING} \<longrightarrow> u_response_timeout_counter u = 0) \<and>
     (u_state u = UART_STATE_WAITING_RESPONSE \<longrightarrow> u_response_timeout_counter u \<le> wait_limit u) \<and>
     (u_current_is_ping u \<longrightarrow> u_has_pending_request u \<and> (u_ping_active u \<or> u_state u = UART_STATE_RESPONSE_RECEIVED)) \<and>
     u_response_timeout_ticks u = 40 \<and> u_ping_attempts_left u \<le> UART_PING_MAX_ATTEMPTS"

text \<open>At most this many turns of the task are left until it is idle.\<close>

definition ticks_left :: "uart_manager \<Rightarrow> nat" where
  "ticks_left u = (case u_state u of
       UART_STATE_IDLE \<Rightarrow> 0
     | UART_STATE_SENDING \<Rightarrow> wait_limit u + 2
     | UART_STATE_WAITING_RESPONSE \<Rightarrow> wait_limit u + 1 - u_response_timeout_counter u
     | UART_STATE_RESPONSE_RECEIVED \<Rightarrow> 1)"

lemma uart_inv_reset: "uart_inv u \<Longrightarrow> uart_inv (uart_reset_state u) \<and> u_state (uart_reset_state u) = UART_STATE_IDLE"
  by (simp add: uart_inv_def uart_reset_state_def uart_free_current_request_def)

lemma update_task_stats_shape: "\<exists>a b. uart_update_task_stats H u = u\<lparr>u_task_stats := a, u_stats := b\<rparr>"
  by (simp add: uart_update_task_stats_def Let_def split_beta) blast

lemma uart_inv_stats [simp]:
  "uart_inv (uart_update_task_stats H u) = uart_inv u" "ticks_left (uart_update_task_stats H u) = ticks_left u"
  "u_state (uart_update_task_stats H u) = u_state u" "wait_limit (uart_update_task_stats H u) = wait_limit u"
proof -
  obtain a b where e: "uart_update_task_stats H u = u\<lparr>u_task_stats := a, u_stats := b\<rparr>"
    using update_task_stats_shape by blast
  show st: "u_state (uart_update_task_stats H u) = u_state u" unfolding e by simp
  show w: "wait_limit (uart_update_task_stats H u) = wait_limit u" unfolding e by (simp add: wait_limit_def)
  show "uart_inv (uart_update_task_stats H u) = uart_inv u" using w unfolding e uart_inv_def by simp
  show "ticks_left (uart_update_task_stats H u) = ticks_left u" using w unfolding e ticks_left_def by (simp split: uart_state.split)
qed

lemma uart_inv_idle_ping:
  assumes "uart_inv u" and "u_state u = UART_STATE_IDLE"
  shows "uart_inv (fst (uart_idle_ping H (u, g)))"
  using assms by (auto simp: uart_idle_ping_def uart_inv_def uart_begin_def Let_def split_beta)

lemma uart_inv_idle:
  assumes "uart_inv (fst s)" and "u_state (fst s) = UART_STATE_IDLE"
  shows "uart_inv (fst (uart_idle S H s))"
proof (cases s)
  case (Pair u g)
  have b: "uart_inv (uart_begin r False u)" for r
    using assms by (simp add: Pair uart_inv_def uart_begin_def)
  show ?thesis
    using assms uart_inv_idle_ping [OF assms [unfolded Pair fst_conv], of H]
    by (auto simp: Pair uart_idle_def b Let_def split_beta split: option.split)
qed

lemma uart_sending_cases:
  "fst (uart_sending H s) = uart_reset_state (fst s) \<or>
   (u_current_request (fst s) \<noteq> None \<and> fst (uart_sending H s) = (fst s)\<lparr>u_state := UART_STATE_WAITING_RESPONSE\<rparr>)"
  by (cases s) (simp add: uart_sending_def Let_def split_beta split: option.split)

lemma uart_waiting_cases:
  assumes "u_response_timeout_counter (fst s) \<le> 4294967294"
  shows "(u_response_timeout_counter (fst s) + 1 > wait_limit (fst s) \<and>
     (\<exists>a. fst (uart_waiting S s) = uart_reset_state ((fst s)\<lparr>u_ping_active := a\<rparr>))) \<or>
   (u_response_timeout_counter (fst s) + 1 \<le> wait_limit (fst s) \<and>
     fst (uart_waiting S s) = (fst s)\<lparr>u_response_timeout_counter := u_response_timeout_counter (fst s) + 1\<rparr>)"
proof -
  obtain u g where s: "s = (u, g)" by (cases s)
  have w: "wait_limit (u\<lparr>u_response_timeout_counter := n\<rparr>) = wait_limit u" for n by (simp add: wait_limit_def)
  have r: "uart_reset_state (u\<lparr>u_response_timeout_counter := n\<rparr>) = uart_reset_state (u\<lparr>u_ping_active := u_ping_active u\<rparr>)"
    "uart_reset_state (u\<lparr>u_response_timeout_counter := n, u_ping_active := a\<rparr>) = uart_reset_state (u\<lparr>u_ping_active := a\<rparr>)" for n a
    by (simp_all add: uart_reset_state_def uart_free_current_request_def)
  have c: "u32 (u_response_timeout_counter u + 1) = u_response_timeout_counter u + 1"
    using assms by (simp add: s)
  show ?thesis
    unfolding uart_waiting_def s Let_def split_beta fst_conv snd_conv prod.case c w
    by (cases "u_response_timeout_counter u + 1 > wait_limit u") (auto simp: r split: if_splits intro: exI [of _ "u_ping_active u"])
qed

lemma uart_inv_ping_active:
  "uart_inv u \<Longrightarrow> u_state u = UART_STATE_WAITING_RESPONSE \<Longrightarrow> uart_inv (uart_reset_state (u\<lparr>u_ping_active := a\<rparr>))"
  by (simp add: uart_inv_def uart_reset_state_def uart_free_current_request_def)

text \<open>One turn of the task keeps the invariant, and brings a busy task nearer to idle.\<close>

lemma uart_state_step_inv:
  assumes inv: "uart_inv (fst s)"
  shows "uart_inv (fst (uart_state_step S H s)) \<and>
    (u_state (fst s) \<noteq> UART_STATE_IDLE \<longrightarrow> ticks_left (fst (uart_state_step S H s)) < ticks_left (fst s))"
proof (cases "u_state (fst s)")
  case UART_STATE_IDLE
  then show ?thesis using uart_inv_idle [OF inv] by (simp add: uart_state_step_def)
next
  case UART_STATE_SENDING
  have "uart_inv ((fst s)\<lparr>u_state := UART_STATE_WAITING_RESPONSE\<rparr>)"
    "ticks_left ((fst s)\<lparr>u_state := UART_STATE_WAITING_RESPONSE\<rparr>) \<le> wait_limit (fst s) + 1"
    using inv UART_STATE_SENDING by (auto simp: uart_inv_def ticks_left_def wait_limit_def)
  then show ?thesis
    using UART_STATE_SENDING uart_sending_cases [of H s] uart_inv_reset [OF inv]
    by (auto simp: uart_state_step_def ticks_left_def)
next
  case UART_STATE_WAITING_RESPONSE
  have "u_response_timeout_counter (fst s) \<le> 4294967294"
    using inv UART_STATE_WAITING_RESPONSE by (auto simp: uart_inv_def wait_limit_def split: if_splits)
  note cs = uart_waiting_cases [OF this, of S]
  have "uart_inv ((fst s)\<lparr>u_response_timeout_counter := u_response_timeout_counter (fst s) + 1\<rparr>)"
    if "u_response_timeout_counter (fst s) + 1 \<le> wait_limit (fst s)"
    using inv UART_STATE_WAITING_RESPONSE that by (auto simp: uart_inv_def wait_limit_def split: if_splits)
  then show ?thesis
    using UART_STATE_WAITING_RESPONSE cs uart_inv_ping_active [OF inv UART_STATE_WAITING_RESPONSE] inv
    by (auto simp: uart_state_step_def ticks_left_def wait_limit_def uart_inv_def uart_reset_state_def
        uart_free_current_request_def)
next
  case UART_STATE_RESPONSE_RECEIVED
  then show ?thesis using uart_inv_reset [OF inv] by (simp add: uart_state_step_def ticks_left_def)
qed

lemma uart_task_step_fst:
  "fst (uart_task_step S H s) =
     fst (uart_state_step S H (uart_update_task_stats H (fst s), module_manager_update_uptime S MODULE_ID_UART (snd s)))"
  by (simp add: uart_task_step_def Let_def split_beta)

lemma uart_task_step_inv:
  assumes "uart_inv (fst s)"
  shows "uart_inv (fst (uart_task_step S H s)) \<and>
    (u_state (fst s) \<noteq> UART_STATE_IDLE \<longrightarrow> ticks_left (fst (uart_task_step S H s)) < ticks_left (fst s))"
  using uart_state_step_inv [of "(uart_update_task_stats H (fst s), module_manager_update_uptime S MODULE_ID_UART (snd s))" S H] assms
  by (simp add: uart_task_step_fst)

subsection \<open>Received bytes\<close>

text \<open>What a received chunk can do to the module.\<close>

definition rx_effect :: "uart_manager \<Rightarrow> uart_manager \<Rightarrow> bool" where
  "rx_effect u u' \<longleftrightarrow> (\<exists>b n a st. u' = u\<lparr>u_response_buffer := b, u_response_buffer_size := n, u_ping_active := a, u_state := st\<rparr> \<and>
     (st = u_state u \<or> (st = UART_STATE_RESPONSE_RECEIVED \<and> u_has_pending_request u)) \<and>
     (a = u_ping_active u \<or> (\<not> a \<and> u_current_is_ping u \<and> (u_has_pending_request u \<longrightarrow> st = UART_STATE_RESPONSE_RECEIVED))))"

lemma rx_effect_inv:
  assumes inv: "uart_inv u" and eff: "rx_effect u u'"
  shows "uart_inv u' \<and> ticks_left u' \<le> ticks_left u"
proof -
  obtain b n a st where u': "u' = u\<lparr>u_response_buffer := b, u_response_buffer_size := n, u_ping_active := a, u_state := st\<rparr>"
    and st: "st = u_state u \<or> (st = UART_STATE_RESPONSE_RECEIVED \<and> u_has_pending_request u)"
    and a: "a = u_ping_active u \<or> (\<not> a \<and> u_current_is_ping u \<and> (u_has_pending_request u \<longrightarrow> st = UART_STATE_RESPONSE_RECEIVED))"
    using eff by (auto simp: rx_effect_def)
  have w: "wait_limit u' = wait_limit u" by (simp add: u' wait_limit_def)
  have "uart_inv u'"
    using inv st a unfolding uart_inv_def w by (elim disjE conjE) (simp_all add: u')
  moreover have "ticks_left u' \<le> ticks_left u"
  proof (cases "st = u_state u")
    case True
    then show ?thesis using w by (simp add: ticks_left_def u' split: uart_state.split)
  next
    case False
    then have "u_state u \<noteq> UART_STATE_IDLE" using st inv by (auto simp: uart_inv_def)
    then have "1 \<le> ticks_left u" using inv by (cases "u_state u") (auto simp: ticks_left_def uart_inv_def)
    then show ?thesis using False st by (simp add: ticks_left_def u')
  qed
  ultimately show ?thesis ..
qed

lemma rx_effect_buffer: "rx_effect u (u\<lparr>u_response_buffer := b\<rparr>)" "rx_effect u (u\<lparr>u_response_buffer_size := n\<rparr>)"
  unfolding rx_effect_def
  by (rule exI [of _ b], rule exI [of _ "u_response_buffer_size u"], rule exI [of _ "u_ping_active u"], rule exI [of _ "u_state u"], simp)
     (rule exI [of _ "u_response_buffer u"], rule exI [of _ n], rule exI [of _ "u_ping_active u"], rule exI [of _ "u_state u"], simp)

lemma rx_effect_refl [simp]: "rx_effect u u"
  using rx_effect_buffer(1) [of u "u_response_buffer u"] by simp

lemma rx_effect_trans:
  assumes "rx_effect u v" and "rx_effect v w"
  shows "rx_effect u w"
proof -
  obtain b n a st where v: "v = u\<lparr>u_response_buffer := b, u_response_buffer_size := n, u_ping_active := a, u_state := st\<rparr>"
    and 1: "st = u_state u \<or> (st = UART_STATE_RESPONSE_RECEIVED \<and> u_has_pending_request u)"
     "a = u_ping_active u \<or> (\<not> a \<and> u_current_is_ping u \<and> (u_has_pending_request u \<longrightarrow> st = UART_STATE_RESPONSE_RECEIVED))"
    using assms(1) by (auto simp: rx_effect_def)
  obtain b' n' a' st' where w: "w = v\<lparr>u_response_buffer := b', u_response_buffer_size := n', u_ping_active := a', u_state := st'\<rparr>"
    and 2: "st' = u_state v \<or> (st' = UART_STATE_RESPONSE_RECEIVED \<and> u_has_pending_request v)"
     "a' = u_ping_active v \<or> (\<not> a' \<and> u_current_is_ping v \<and> (u_has_pending_request v \<longrightarrow> st' = UART_STATE_RESPONSE_RECEIVED))"
    using assms(2) by (auto simp: rx_effect_def)
  have "w = u\<lparr>u_response_buffer := b', u_response_buffer_size := n', u_ping_active := a', u_state := st'\<rparr>"
    by (simp add: v w)
  moreover have "st' = st \<or> (st' = UART_STATE_RESPONSE_RECEIVED \<and> u_has_pending_request u)"
    "a' = a \<or> (\<not> a' \<and> u_current_is_ping u \<and> (u_has_pending_request u \<longrightarrow> st' = UART_STATE_RESPONSE_RECEIVED))"
    using 2 by (simp_all add: v)
  ultimately show ?thesis
    unfolding rx_effect_def using 1 by (intro exI [of _ b'] exI [of _ n'] exI [of _ a'] exI [of _ st']) auto
qed

lemma handle_frame_effect: "rx_effect (fst s) (fst (uart_handle_frame S f s))"
proof -
  obtain u g where s: "s = (u, g)" by (cases s)
  obtain a g' where h: "uart_handle_frame S f (u, g) =
     (u\<lparr>u_ping_active := a, u_state := if u_has_pending_request u then UART_STATE_RESPONSE_RECEIVED else u_state u\<rparr>, g')"
    "a = u_ping_active u \<or> (u_current_is_ping u \<and> \<not> a)"
    using handle_frame_shape [of S f u g] by blast
  let ?st = "if u_has_pending_request u then UART_STATE_RESPONSE_RECEIVED else u_state u"
  have "u\<lparr>u_ping_active := a, u_state := ?st\<rparr> =
    u\<lparr>u_response_buffer := u_response_buffer u, u_response_buffer_size := u_response_buffer_size u, u_ping_active := a, u_state := ?st\<rparr>"
    by simp
  then show ?thesis
    unfolding rx_effect_def s h(1) fst_conv using h(2)
    by (intro exI [of _ "u_response_buffer u"] exI [of _ "u_response_buffer_size u"] exI [of _ a] exI [of _ ?st]) auto
qed

lemma handle_frames_effect: "rx_effect (fst s) (fst (fold (uart_handle_frame S) fs s))"
proof (induction fs arbitrary: s)
  case (Cons f fs)
  then show ?case using rx_effect_trans [OF handle_frame_effect [of s S f] Cons.IH] by simp
qed simp

lemma process_received_effect: "rx_effect (fst s) (fst (uart_process_received_data S H data s))"
proof -
  obtain u g where s: "s = (u, g)" by (cases s)
  have loop: "rx_effect u ((fst (fold (uart_handle_frame S) fs (u\<lparr>u_response_buffer_size := n, u_response_buffer := b\<rparr>, g')))
      \<lparr>u_response_buffer := b'\<rparr>)" for fs n b g' b'
    using rx_effect_trans [OF rx_effect_trans [OF rx_effect_buffer(2) rx_effect_buffer(1)]
        rx_effect_trans [OF handle_frames_effect [where S = S and fs = fs and
            s = "(u\<lparr>u_response_buffer_size := n, u_response_buffer := b\<rparr>, g')", unfolded fst_conv]
          rx_effect_buffer(1)]] .
  have two: "rx_effect u (u\<lparr>u_response_buffer_size := n, u_response_buffer := b\<rparr>)" for n b
    using rx_effect_trans [OF rx_effect_buffer(2) rx_effect_buffer(1)] .
  have loop': "rx_effect u ((fst (fold (uart_handle_frame S) fs (u\<lparr>u_response_buffer := b\<rparr>, g')))\<lparr>u_response_buffer := b'\<rparr>)" for fs b g' b'
    using loop [where n = "u_response_buffer_size u" and fs = fs and b = b and g' = g' and b' = b'] by simp
  show ?thesis
    unfolding s uart_process_received_data_def Let_def split_beta fst_conv snd_conv rx_loop_scan
    by (auto simp: loop loop' two rx_effect_buffer split: option.split)
qed

lemma rx_callback_effect: "rx_effect (fst s) (fst (uart_rx_callback S H port data s))"
  by (auto simp: uart_rx_callback_def process_received_effect split: option.split)

subsection \<open>Runs\<close>

lemma start_ping_inv:
  assumes inv: "uart_inv u" and quiet: "\<not> u_ping_active u"
  shows "uart_inv (u\<lparr>u_ping_requester := r, u_ping_addr := a, u_ping_attempts_left := UART_PING_MAX_ATTEMPTS,
      u_current_is_ping := False, u_ping_active := True\<rparr>) \<and>
    ticks_left (u\<lparr>u_ping_requester := r, u_ping_addr := a, u_ping_attempts_left := UART_PING_MAX_ATTEMPTS,
      u_current_is_ping := False, u_ping_active := True\<rparr>) \<le> ticks_left u" (is "uart_inv ?u \<and> _")
proof (cases "u_current_is_ping u")
  case True
  then have "u_state u = UART_STATE_RESPONSE_RECEIVED" using inv quiet by (simp add: uart_inv_def)
  then show ?thesis using inv by (auto simp: uart_inv_def ticks_left_def)
next
  case False
  then have w: "wait_limit ?u = wait_limit u" by (simp add: wait_limit_def)
  have "uart_inv ?u" using inv unfolding uart_inv_def w by simp
  moreover have "ticks_left ?u = ticks_left u" unfolding ticks_left_def w by (simp split: uart_state.split)
  ultimately show ?thesis by simp
qed

lemma uart_step_inv:
  assumes "uart_inv (fst s)"
  shows "uart_inv (fst (uart_step S H e s)) \<and>
    (e \<noteq> Ev_Tick \<longrightarrow> ticks_left (fst (uart_step S H e s)) \<le> ticks_left (fst s))"
proof (cases e)
  case (Ev_Rx port data)
  then show ?thesis using rx_effect_inv [OF assms rx_callback_effect] by simp
next
  case Ev_Tick
  then show ?thesis using uart_task_step_inv [OF assms] by simp
next
  case (Ev_Ping requester addr)
  have "uart_inv (fst (snd (uart_manager_start_ping_test requester addr s))) \<and>
     ticks_left (fst (snd (uart_manager_start_ping_test requester addr s))) \<le> ticks_left (fst s)"
  proof (cases "uart_module_initialized s \<and> \<not> u_ping_active (fst s)")
    case True
    then show ?thesis
      using start_ping_inv [OF assms] by (simp add: uart_manager_start_ping_test_def Let_def)
  qed (use assms in \<open>auto simp: uart_manager_start_ping_test_def\<close>)
  then show ?thesis using Ev_Ping by simp
next
  case (Ev_Send r)
  have "fst (snd (uart_manager_send_request S r s)) = fst s"
    by (simp add: uart_manager_send_request_def Let_def split_beta split: option.split)
  then show ?thesis using Ev_Send assms by simp
qed

lemma uart_run_inv: "uart_inv (fst s) \<Longrightarrow> uart_inv (fst (uart_run S H es s))"
  by (induction es arbitrary: s) (simp_all add: uart_step_inv del: uart_step.simps)

text \<open>Along any sequence of steps with enough turns of the task, some state is idle.\<close>

definition ticks :: "uart_event list \<Rightarrow> nat" where
  "ticks es = length (filter (\<lambda>e. e = Ev_Tick) es)"

lemma uart_run_idle:
  assumes "uart_inv (fst s)" and "ticks_left (fst s) \<le> ticks es"
  shows "\<exists>k \<le> length es. u_state (fst (uart_run S H (take k es) s)) = UART_STATE_IDLE"
  using assms
proof (induction es arbitrary: s)
  case Nil
  then have "u_state (fst s) = UART_STATE_IDLE"
    by (cases "u_state (fst s)") (auto simp: ticks_def ticks_left_def uart_inv_def)
  then show ?case by simp
next
  case (Cons e es)
  show ?case
  proof (cases "u_state (fst s) = UART_STATE_IDLE")
    case True
    then show ?thesis by (intro exI [of _ 0]) simp
  next
    case False
    let ?s = "uart_step S H e s"
    have "uart_inv (fst ?s)" using uart_step_inv [OF Cons.prems(1)] by blast
    moreover have "ticks_left (fst ?s) \<le> ticks es"
      using uart_step_inv [OF Cons.prems(1), of S H e] uart_task_step_inv [OF Cons.prems(1), of S H] False Cons.prems(2)
      by (cases "e = Ev_Tick") (auto simp: ticks_def)
    ultimately obtain k where "k \<le> length es" "u_state (fst (uart_run S H (take k es) ?s)) = UART_STATE_IDLE"
      using Cons.IH by blast
    then show ?thesis by (intro exI [of _ "Suc k"]) simp
  qed
qed

lemma ticks_left_bound: "uart_inv u \<Longrightarrow> ticks_left u \<le> UART_PING_TIMEOUT_TICKS + 2"
  by (cases "u_state u") (auto simp: uart_inv_def ticks_left_def wait_limit_def)

lemma uart_inv_fields:
  "uart_inv u \<Longrightarrow> uart_inv (u\<lparr>u_module := m\<rparr>)" "uart_inv u \<Longrightarrow> uart_inv (u\<lparr>u_response_buffer := b\<rparr>)"
  "uart_inv u \<Longrightarrow> uart_inv (u\<lparr>u_response_buffer_size := n\<rparr>)" "uart_inv u \<Longrightarrow> uart_inv (u\<lparr>u_uart_opened := o'\<rparr>)"
  "uart_inv u \<Longrightarrow> uart_inv (u\<lparr>u_task := t\<rparr>)"
  by (auto simp: uart_inv_def wait_limit_def split: if_splits)

lemma uart_init_port_inv: "uart_inv u \<Longrightarrow> uart_inv (fst (snd (uart_init_port H (u, g))))"
  by (auto simp: uart_init_port_def Let_def split_beta intro: uart_inv_fields)

lemma uart_init_inv:
  assumes "uart_manager_init S H s = (r, s')" and "\<not> u_current_is_ping (fst s)" and "u_ping_attempts_left (fst s) \<le> UART_PING_MAX_ATTEMPTS"
  shows "uart_inv (fst s')"
proof -
  have d: "uart_inv (uart_set_defaults (fst s))" using assms(2,3) by (simp add: uart_inv_def uart_set_defaults_def)
  have "uart_inv (fst (snd (uart_manager_init S H s)))"
    by (simp add: uart_manager_init_def d uart_inv_fields uart_init_port_inv Let_def split_beta split: option.split)
  then show ?thesis using assms(1) by simp
qed

subsection \<open>A ping that cannot end\<close>

text \<open>A probe is wanted, none is in flight and none may be sent any more.\<close>

definition ping_stuck :: "uart_manager \<Rightarrow> bool" where
  "ping_stuck u \<longleftrightarrow> u_ping_active u \<and> u_ping_attempts_left u = 0 \<and> \<not> u_current_is_ping u"

lemma ping_stuck_reset [simp]: "ping_stuck (uart_reset_state u) \<longleftrightarrow> u_ping_active u \<and> u_ping_attempts_left u = 0"
  by (simp add: ping_stuck_def uart_reset_state_def uart_free_current_request_def)

lemma ping_stuck_stats [simp]: "ping_stuck (uart_update_task_stats H u) = ping_stuck u"
proof -
  obtain a b where e: "uart_update_task_stats H u = u\<lparr>u_task_stats := a, u_stats := b\<rparr>"
    using update_task_stats_shape by blast
  show ?thesis unfolding e by (simp add: ping_stuck_def)
qed

lemma ping_stuck_rx: "ping_stuck u \<Longrightarrow> rx_effect u u' \<Longrightarrow> ping_stuck u'"
  by (auto simp: ping_stuck_def rx_effect_def)

lemma ping_stuck_idle: "ping_stuck u \<Longrightarrow> uart_idle_ping H (u, g) = (u, g)"
  by (simp add: uart_idle_ping_def ping_stuck_def)

lemma ping_stuck_state_step:
  assumes "ping_stuck (fst s)"
  shows "ping_stuck (fst (uart_state_step S H s))"
proof (cases "u_state (fst s)")
  case UART_STATE_IDLE
  have "ping_stuck (uart_begin r False (fst s))" for r using assms by (simp add: ping_stuck_def uart_begin_def)
  then show ?thesis
    using assms UART_STATE_IDLE
    by (simp add: uart_state_step_def uart_idle_def ping_stuck_idle [OF assms] Let_def split_beta split: option.split)
next
  case UART_STATE_SENDING
  then show ?thesis using assms uart_sending_cases [of H s] by (auto simp: uart_state_step_def ping_stuck_def uart_reset_state_def uart_free_current_request_def)
next
  case UART_STATE_WAITING_RESPONSE
  then show ?thesis using assms
    by (simp add: uart_state_step_def uart_waiting_def Let_def split_beta) (simp add: ping_stuck_def)
next
  case UART_STATE_RESPONSE_RECEIVED
  then show ?thesis using assms by (simp add: uart_state_step_def) (simp add: ping_stuck_def)
qed

lemma ping_stuck_step:
  assumes "ping_stuck (fst s)"
  shows "ping_stuck (fst (uart_step S H e s))"
proof (cases e)
  case (Ev_Rx port data)
  then show ?thesis using ping_stuck_rx [OF assms rx_callback_effect] by simp
next
  case Ev_Tick
  then show ?thesis using assms by (simp add: uart_task_step_fst ping_stuck_state_step)
next
  case (Ev_Ping requester addr)
  then show ?thesis using assms by (simp add: uart_manager_start_ping_test_def ping_stuck_def)
next
  case (Ev_Send r)
  have "fst (snd (uart_manager_send_request S r s)) = fst s"
    by (simp add: uart_manager_send_request_def Let_def split_beta split: option.split)
  then show ?thesis using Ev_Send assms by simp
qed

lemma ping_stuck_run: "ping_stuck (fst s) \<Longrightarrow> ping_stuck (fst (uart_run S H es s))"
  by (induction es arbitrary: s) (simp_all add: ping_stuck_step del: uart_step.simps)

subsection \<open>A configuration for evaluation\<close>

definition sample_os :: "(unit, ram_world) os" where
  "sample_os = \<lparr>os_flash = ram_flash, os_msg_abi = msg_abi,
     os_urc_abi = \<lparr>e_bytes = (\<lambda>_. []), e_of_bytes = (\<lambda>_. ()), e_message = (\<lambda>_. sample_msg), e_of_message = (\<lambda>_. ())\<rparr>,
     os_ticks = (\<lambda>w. (0, w)), os_sleep = (\<lambda>n w. w), os_call = (\<lambda>fn g. (RESULT_SUCCESS, g))\<rparr>"

definition sample_hw :: "ram_world uart_hw" where
  "sample_hw = \<lparr>uh_write = (\<lambda>port bs w. (True, w)), uh_set_config = (\<lambda>cfg w. (True, w)),
     uh_set_rx_callback = (\<lambda>port armed w. (True, w)), uh_close = (\<lambda>port w. w), uh_alloc = (\<lambda>n w. (True, w)),
     uh_queue_alloc = (\<lambda>w. ((Some 1, True, True, replicate 5 sample_msg), w)), uh_task_create = (\<lambda>w. (Some 1, w)),
     uh_task_delete = (\<lambda>t w. w), uh_message_size = 348\<rparr>"

definition sample_queue_config :: queue_config where
  "sample_queue_config = \<lparr>qc_name = Some ''UART_REQUEST_Q'', qc_element_size = 348, qc_capacity = 5, qc_thread_safe = False,
     qc_max_file_size = 0, qc_persist_on_reboot = False\<rparr>"

definition sample_module :: "bool \<Rightarrow> unit module" where
  "sample_module ready = \<lparr>m_config = \<lparr>mc_module_id = MODULE_ID_SYSTEM, mc_name = Some ''sample'', mc_enabled = True, mc_required = False,
       mc_continue_on_fail = True, mc_has_task = True, mc_init_fn = Some ''sample_init'', mc_deinit_fn = None,
       mc_config_get_defaults_fn = None, mc_config_validate_fn = None, mc_config_ptr = None, mc_config_size = 0,
       mc_config_stored = False, mc_msg_q_config = sample_queue_config,
       mc_msg_q = (if ready then Some (7, empty_queue 5 sample_msg) else None), mc_urc_q_config = sample_queue_config, mc_urc_q = None\<rparr>,
     m_status = \<lparr>ms_initialized = ready, ms_connected = False, ms_task_uptime_sec = 0, ms_retries = 0, ms_last_error = 0\<rparr>\<rparr>"

definition sample_gateway :: "bool \<Rightarrow> (unit, ram_world) gateway" where
  "sample_gateway ready = \<lparr>gw_modules = replicate 12 (Some (sample_module ready)), gw_events = em_boot,
     gw_pre_boot = pre_boot_boot, gw_queues = replicate 16 None, gw_world = empty_ram\<rparr>"

definition sample_uart :: uart_manager where
  "sample_uart = uart_set_defaults \<lparr>u_rx_buffer_size = 0, u_task_stack_size = 0, u_task_priority = 0, u_task_interval_ms = 0,
     u_response_timeout_ticks = 0, u_module = False,
     u_config = \<lparr>uc_port = 0, uc_baud_rate = 0, uc_data_bits = 0, uc_stop_bits = 0, uc_parity = 0\<rparr>, u_task = None,
     u_state = UART_STATE_IDLE, u_current_request = None, u_has_pending_request = False, u_response_timeout_counter = 0,
     u_response_buffer = None, u_response_buffer_size = 0, u_uart_opened = False, u_stats = task_stats_zero,
     u_task_stats = task_stats_zero, u_ping_active = False, u_current_is_ping = False, u_ping_attempts_left = 0,
     u_ping_requester = MODULE_ID_LOG, u_ping_addr = replicate 64 NUL\<rparr>"

text \<open>A request of the SMS module: \<open>get-device-info\<close>, as \<open>uart_idle\<close> has taken it from the queue.\<close>

definition sample_request :: module_message where
  "sample_request = ping_message\<lparr>mm_source_module := MODULE_ID_SMS\<rparr>"

definition busy_uart :: "bool \<Rightarrow> uart_manager" where
  "busy_uart is_ping = (uart_begin sample_request is_ping (sample_uart\<lparr>u_response_buffer := Some [], u_module := True\<rparr>))
     \<lparr>u_state := UART_STATE_WAITING_RESPONSE\<rparr>"

lemma ping_frame_eq: "ping_frame = (11, frame_bytes STM_SRC_TYPE_LOCAL [] STM_CMD_GET_DEV_INFO [])"
  by (simp add: ping_frame_def stm_build_frame_def stm_build_frame_src_def)

lemma sample_request_frame:
  "module_message_payload sample_request = Some (frame_bytes STM_SRC_TYPE_LOCAL [] STM_CMD_GET_DEV_INFO [] @ replicate 245 0)"
  "mm_is_raw sample_request" "mm_source_module sample_request = MODULE_ID_SMS"
  by (simp_all add: sample_request_def ping_message_def ping_frame_eq module_message_payload_def blank_message_def write_at_def)

lemma frame_cmd_built: "wf_fields addr pl \<Longrightarrow> stm_frame_cmd (frame_bytes st addr cmd pl @ rest) = cmd"
  by (simp add: stm_frame_cmd_def frame_src_len frame_nth_cmd)

lemma sample_request_cmd:
  "stm_frame_cmd (frame_bytes STM_SRC_TYPE_LOCAL [] STM_CMD_GET_DEV_INFO [] @ replicate 245 0) = STM_CMD_GET_DEV_INFO"
  by (rule frame_cmd_built) (simp add: wf_fields_def)

lemma stray_frame_cmd:
  "stm_frame_cmd (frame_bytes 4 [] 0x85 []) \<noteq>
   stm_frame_cmd (frame_bytes STM_SRC_TYPE_LOCAL [] STM_CMD_GET_DEV_INFO [] @ replicate 245 0) OR STM_CMD_RESP_BIT"
proof -
  have "stm_frame_cmd (frame_bytes 4 [] 0x85 []) = 0x85"
    using frame_cmd_built [of "[]" "[]" 4 "0x85" "[]"] by (simp add: wf_fields_def)
  then show ?thesis unfolding sample_request_cmd by (simp add: STM_CMD_GET_DEV_INFO_def STM_CMD_RESP_BIT_def)
qed

lemma busy_uart_fields:
  "uart_inv (busy_uart False)" "u_current_request (busy_uart p) = Some sample_request" "u_current_is_ping (busy_uart p) = p"
  "u_response_buffer (busy_uart p) = Some []" "u_config (busy_uart p) = u_config sample_uart" "u_has_pending_request (busy_uart p)"
  by (simp_all add: busy_uart_def uart_begin_def sample_uart_def uart_set_defaults_def uart_inv_def)

lemma sample_port: "uc_port (u_config sample_uart) = 0"
  by (simp add: sample_uart_def uart_set_defaults_def)

lemma sample_alloc: "alloc_ok sample_hw"
  by (simp add: alloc_ok_def sample_hw_def)

subsection \<open>Properties\<close>

lemma config_set_world: "module_manager_get_config mid (set_world w g) = module_manager_get_config mid g"
  by (simp add: set_world_def module_manager_get_config_def module_get_def)

lemma config_update_uptime:
  "module_manager_get_config mid (module_manager_update_uptime S m g) = module_manager_get_config mid g"
proof (cases "module_get m g")
  case (Some x)
  then have l: "module_id_code m < length (gw_modules g)" "gw_modules g ! module_id_code m = Some x"
    by (auto simp: module_get_def split: if_splits)
  then show ?thesis using Some
    by (cases "module_id_code mid = module_id_code m")
      (auto simp: module_manager_update_uptime_def module_manager_get_config_def module_get_def module_update_def get_uptime_def
        split_beta nth_list_update)
qed (simp add: module_manager_update_uptime_def)

theorem uart_stream_chunking_witness:
  "rx_view (uart_run sample_os sample_hw (rx_events 0 [[0xAA, 0x55], [1]]) (busy_uart False, sample_gateway True)) =
   rx_view (uart_run sample_os sample_hw (rx_events 0 [[0xAA], [0x55, 1]]) (busy_uart False, sample_gateway True))"
  using uart_stream_chunking [of sample_hw "(busy_uart False, sample_gateway True)" "[]" 0 "[[0xAA, 0x55], [1]]" "[[0xAA], [0x55, 1]]" sample_os]
  by (simp add: sample_alloc busy_uart_fields sample_port frame_complete_less_2 fits_def)

text \<open>C10: a reply goes to the requester and to nobody else. While a request (a frame with command \<open>c\<close>) is in
  flight, a frame from the STM changes at most the queue of the module that sent the request; a frame that
  does not carry \<open>c | 0x80\<close> (a late answer to an earlier request) changes nothing at all.\<close>

theorem uart_reply_only_to_requester:
  assumes "u_current_request u = Some r" and "mm_is_raw r" and "module_message_payload r = Some f"
    and "\<not> u_current_is_ping u"
  shows "\<exists>g'. uart_dispatch_binary_frame S frame (u, g) = (u, g') \<and> only_module (mm_source_module r) g g' \<and>
    (stm_frame_cmd frame \<noteq> stm_frame_cmd f OR STM_CMD_RESP_BIT \<longrightarrow> g' = g)"
  using dispatch_request [OF assms(4), of S frame g] assms(1-3) by (auto simp: reply_origin_def stale_frame_def)

theorem uart_reply_only_to_requester_witness:
  "uart_dispatch_binary_frame sample_os (frame_bytes 4 [] 0x85 []) (busy_uart False, sample_gateway True) =
     (busy_uart False, sample_gateway True)"
  using uart_reply_only_to_requester [OF busy_uart_fields(2) sample_request_frame(2,1), of False sample_os "frame_bytes 4 [] 0x85 []" "sample_gateway True"]
    stray_frame_cmd
  by (auto simp: busy_uart_fields)

text \<open>a stray frame ends the request in flight. A frame that does not answer the request is dropped as
  stale, but the receive loop marks the request as answered all the same: the next turn of the task
  frees it, and the requester is sent nothing (the configuration and queues of all modules are unchanged).\<close>

theorem uart_stray_frame_ends_request:
  assumes "uart_inv u" and "u_current_request u = Some r" and "mm_is_raw r" and "module_message_payload r = Some f"
    and "\<not> u_current_is_ping u" and "stm_frame_cmd frame \<noteq> stm_frame_cmd f OR STM_CMD_RESP_BIT"
  shows "let s1 = uart_handle_frame S frame (u, g); s2 = uart_task_step S H s1 in
    snd s1 = g \<and> u_state (fst s1) = UART_STATE_RESPONSE_RECEIVED \<and>
    u_state (fst s2) = UART_STATE_IDLE \<and> u_current_request (fst s2) = None \<and>
    (\<forall>mid. module_manager_get_config mid (snd s2) = module_manager_get_config mid g)"
proof -
  have "stale_frame u (stm_frame_cmd frame)" using assms(2-4,6) by (simp add: stale_frame_def)
  then have d: "uart_dispatch_binary_frame S frame (u, g) = (u, g)"
    using dispatch_request [OF assms(5), of S frame g] by auto
  have pend: "u_has_pending_request u" using assms(1,2) by (simp add: uart_inv_def)
  let ?u = "u\<lparr>u_state := UART_STATE_RESPONSE_RECEIVED\<rparr>"
  have h: "uart_handle_frame S frame (u, g) = (?u, g)" using d pend by (simp add: uart_handle_frame_def)
  have "\<forall>mid. module_manager_get_config mid (snd (uart_task_step S H (?u, g))) = module_manager_get_config mid g"
    by (simp add: uart_task_step_def uart_state_step_def config_set_world config_update_uptime Let_def split_beta)
  then show ?thesis
    unfolding h Let_def
    by (simp add: uart_task_step_fst uart_state_step_def) (simp add: uart_reset_state_def uart_free_current_request_def)
qed

theorem uart_stray_frame_ends_request_witness:
  "u_current_request (fst (uart_task_step sample_os sample_hw
     (uart_handle_frame sample_os (frame_bytes 4 [] 0x85 []) (busy_uart False, sample_gateway True)))) = None"
  using uart_stray_frame_ends_request [OF busy_uart_fields(1,2) sample_request_frame(2,1) _ stray_frame_cmd, of sample_os "sample_gateway True" sample_hw]
  by (simp add: busy_uart_fields Let_def)

text \<open>the invariant of the state machine. After \<open>uart_manager_init\<close> on static storage that is zero, through
  any sequence of received chunks, task turns, ping tests and queued requests: a request is held exactly while
  one is pending, the task is idle exactly when none is, the timeout counter never passes the limit, and a
  probe is in flight only while it is pending and its test active or its answer received.\<close>

theorem uart_invariant:
  assumes "uart_manager_init S H s = (r, s1)" and "\<not> u_current_is_ping (fst s)" and "u_ping_attempts_left (fst s) = 0"
  shows "uart_inv (fst (uart_run S H es (fst s1, g)))"
  using uart_init_inv [OF assms(1,2)] assms(3) by (simp add: uart_run_inv)

theorem uart_invariant_witness: "uart_inv (fst (uart_run sample_os sample_hw [Ev_Tick, Ev_Rx 0 None] (fst (snd
    (uart_manager_init sample_os sample_hw (sample_uart, sample_gateway False))), sample_gateway True)))"
  using uart_invariant [of sample_os sample_hw "(sample_uart, sample_gateway False)"
      "fst (uart_manager_init sample_os sample_hw (sample_uart, sample_gateway False))"
      "snd (uart_manager_init sample_os sample_hw (sample_uart, sample_gateway False))" "[Ev_Tick, Ev_Rx 0 None]" "sample_gateway True"]
  by (simp add: sample_uart_def uart_set_defaults_def del: uart_run.simps)

text \<open>C19: no request holds the UART for ever. From any state of the running module, along every sequence of
  steps that has 52 turns of the task (5.2 seconds) in it, whatever bytes arrive and whatever is requested in
  between, the task is idle at some point.\<close>

theorem uart_returns_to_idle:
  assumes "uart_inv (fst s)" and "ticks es \<ge> UART_PING_TIMEOUT_TICKS + 2"
  shows "\<exists>k \<le> length es. u_state (fst (uart_run S H (take k es) s)) = UART_STATE_IDLE"
  using uart_run_idle [OF assms(1), of es S H] ticks_left_bound [OF assms(1)] assms(2) by (meson order_trans)

theorem uart_returns_to_idle_witness:
  "\<exists>k \<le> 52. u_state (fst (uart_run sample_os sample_hw (take k (replicate 52 Ev_Tick)) (busy_uart False, sample_gateway True))) = UART_STATE_IDLE"
  using uart_returns_to_idle [of "(busy_uart False, sample_gateway True)" "replicate 52 Ev_Tick" sample_os sample_hw]
  by (simp add: busy_uart_fields ticks_def)

text \<open>a PING-STM test can hang. When the last probe is in flight and any frame but its answer arrives, the
  probe is given up without a verdict: one turn later no probe is in flight and none may be sent, yet the
  test still counts as running. From then on, whatever happens, no verdict is ever due and every request for a
  ping test is answered \<open>RESULT_BUSY\<close> (or \<open>RESULT_ERROR\<close> when the module is not initialised).\<close>

theorem uart_ping_hangs:
  assumes "uart_inv u" and "u_current_is_ping u" and "u_ping_active u" and "u_ping_attempts_left u = 0"
    and "stm_frame_cmd frame \<noteq> STM_CMD_GET_DEV_INFO OR STM_CMD_RESP_BIT"
    and "s = uart_run S H es (uart_task_step S H (uart_handle_frame S frame (u, g)))"
  shows "ping_stuck (fst s) \<and> uart_manager_start_ping_test requester addr s =
    (if uart_module_initialized s then RESULT_BUSY else RESULT_ERROR, s)"
proof -
  have "uart_dispatch_binary_frame S frame (u, g) = (u, g)"
    using assms(2,5) by (simp add: uart_dispatch_binary_frame_def)
  moreover have "u_has_pending_request u" using assms(1,2) by (auto simp: uart_inv_def)
  ultimately have "uart_handle_frame S frame (u, g) = (u\<lparr>u_state := UART_STATE_RESPONSE_RECEIVED\<rparr>, g)"
    by (simp add: uart_handle_frame_def)
  moreover obtain a b where "uart_update_task_stats H (u\<lparr>u_state := UART_STATE_RESPONSE_RECEIVED\<rparr>) =
      u\<lparr>u_state := UART_STATE_RESPONSE_RECEIVED, u_task_stats := a, u_stats := b\<rparr>"
    using update_task_stats_shape [of H "u\<lparr>u_state := UART_STATE_RESPONSE_RECEIVED\<rparr>"] by auto
  ultimately have "ping_stuck (fst (uart_task_step S H (uart_handle_frame S frame (u, g))))"
    using assms(3,4) by (simp add: uart_task_step_fst uart_state_step_def)
  then have "ping_stuck (fst s)" unfolding assms(6) by (rule ping_stuck_run)
  then show ?thesis by (simp add: uart_manager_start_ping_test_def ping_stuck_def)
qed

lemma last_probe:
  "uart_inv ((busy_uart True)\<lparr>u_ping_active := True\<rparr>)" "u_ping_active ((busy_uart True)\<lparr>u_ping_active := True\<rparr>)"
  "u_current_is_ping ((busy_uart True)\<lparr>u_ping_active := True\<rparr>)" "u_ping_attempts_left ((busy_uart True)\<lparr>u_ping_active := True\<rparr>) = 0"
  by (simp_all add: busy_uart_def uart_begin_def sample_uart_def uart_set_defaults_def uart_inv_def)

theorem uart_ping_hangs_witness:
  "ping_stuck (fst (uart_task_step sample_os sample_hw (uart_handle_frame sample_os (frame_bytes 4 [] 0x85 [])
     ((busy_uart True)\<lparr>u_ping_active := True\<rparr>, sample_gateway True))))"
  using uart_ping_hangs [OF last_probe(1,3,2,4), of "frame_bytes 4 [] 0x85 []" _ sample_os sample_hw "[]" "sample_gateway True"]
    stray_frame_cmd by (auto simp: sample_request_cmd)


subsection \<open>Delivery\<close>

lemma push_delivers:
  assumes "module_get mid g = Some m" and "mc_msg_q (m_config m) = Some (h, q)" and "wf_ring (mc_msg_q_config (m_config m)) q"
    and "\<not> queue_has_file (mc_msg_q_config (m_config m))" and "q_count q < qc_capacity (mc_msg_q_config (m_config m))"
  shows "\<exists>q'. module_get mid (snd (push_to_module S mid msg g)) = Some (m\<lparr>m_config := (m_config m)\<lparr>mc_msg_q := Some (h, q')\<rparr>\<rparr>) \<and>
    wf_ring (mc_msg_q_config (m_config m)) q' \<and>
    ring_items (mc_msg_q_config (m_config m)) q' = ring_items (mc_msg_q_config (m_config m)) q @ [msg]"
proof -
  have l: "module_id_code mid < length (gw_modules g)" "gw_modules g ! module_id_code mid = Some m" "mid \<noteq> MODULE_ID_COUNT"
    using assms(1) by (auto simp: module_get_def split: if_splits)
  obtain q' where q: "queue_push (os_flash S) (os_msg_abi S) True (mc_msg_q_config (m_config m)) q msg (gw_world g) =
      (RESULT_SUCCESS, q', gw_world g)" "wf_ring (mc_msg_q_config (m_config m)) q'"
    "ring_items (mc_msg_q_config (m_config m)) q' = ring_items (mc_msg_q_config (m_config m)) q @ [msg]"
    using ring_push_no_file [OF assms(3,4), of "os_flash S" "os_msg_abi S" msg "gw_world g"] assms(5) by auto
  have "snd (push_to_module S mid msg g) =
      module_update (module_id_code mid) (\<lambda>m. m\<lparr>m_config := (m_config m)\<lparr>mc_msg_q := Some (h, q')\<rparr>\<rparr>) (g\<lparr>gw_world := gw_world g\<rparr>)"
    unfolding push_to_module_def module_manager_get_config_def assms(1) option.map assms(2) q(1) option.case prod.case Let_def by simp
  then show ?thesis using q(2,3) l by (auto simp: module_update_def module_get_def)
qed

lemma map_char_of_byte_of_char [simp]: "map (char_of_byte \<circ> byte_of_char) s = s"
  by (induction s) simp_all

lemma message_text_bytes:
  "nat (fst (message_text s)) = min 255 (length s)" "0 \<le> fst (message_text s)"
  "map char_of_byte (take (nat (fst (message_text s))) (snd (message_text s))) = take 255 s"
  by (simp_all add: message_text_def utils_strncpy_safe_def bounded_len_min c_strncpy_def write_at_def take_map min_def)

lemma set_address_text:
  assumes "NUL \<notin> set a" and "length (mm_address m) = 64"
  shows "c_str (mm_address (set_address (Some a) m)) = take 63 a"
proof -
  have "NUL \<notin> set (take 63 a)" using assms(1) by (auto dest: in_set_takeD)
  moreover have "mm_address (set_address (Some a) m) = take 63 a @ NUL # replicate (63 - length a) NUL"
    using assms(2) by (simp add: set_address_def utils_strncpy_safe_def write_at_def c_strncpy_NUL)
  ultimately show ?thesis by (simp add: c_str_append_NUL)
qed

lemma set_address_fields [simp]:
  "mm_source_module (set_address a m) = mm_source_module m" "mm_destination_module (set_address a m) = mm_destination_module m"
  by (simp_all add: set_address_def split: option.split)

text \<open>A reply text for the command module that uses a plain queue: what is put into the queue.\<close>

definition reply_message :: "module_id \<Rightarrow> string \<Rightarrow> string \<Rightarrow> module_message \<Rightarrow> bool" where
  "reply_message dest addr t msg \<longleftrightarrow> mm_source_module msg = MODULE_ID_UART \<and> mm_destination_module msg = dest \<and>
     c_str (mm_address msg) = take 63 addr \<and> mm_data_len msg = min 255 (length t) \<and>
     map char_of_byte (take (mm_data_len msg) (mm_message msg)) = take 255 t"

lemma route_delivers:
  assumes "module_get mid g = Some m" and "mc_enabled (m_config m)" and "mc_msg_q (m_config m) = Some (h, q)"
    and "wf_ring (mc_msg_q_config (m_config m)) q" and "\<not> queue_has_file (mc_msg_q_config (m_config m))"
    and "q_count q < qc_capacity (mc_msg_q_config (m_config m))"
    and "mid \<notin> {MODULE_ID_FILE_TRANSFER, MODULE_ID_LOG, MODULE_ID_TCP}" and "NUL \<notin> set addr"
  shows "\<exists>q' msg. module_get mid (uart_route_to_module_queue S mid (Some addr) (Some t) g) =
      Some (m\<lparr>m_config := (m_config m)\<lparr>mc_msg_q := Some (h, q')\<rparr>\<rparr>) \<and>
    ring_items (mc_msg_q_config (m_config m)) q' = ring_items (mc_msg_q_config (m_config m)) q @ [msg] \<and>
    reply_message mid addr t msg"
proof -
  let ?msg = "(set_address (Some addr) (blank_message MODULE_ID_UART mid))
     \<lparr>mm_message := snd (message_text t), mm_data_len := nat (fst (message_text t))\<rparr>"
  have "module_reachable mid g" using assms(1-3) by (simp add: module_reachable_def module_manager_get_config_def)
  then have "uart_route_to_module_queue S mid (Some addr) (Some t) g = snd (push_to_module S mid ?msg g)"
    using assms(7) message_text_bytes(2) by (simp add: uart_route_to_module_queue_def split_beta)
  moreover have "reply_message mid addr t ?msg"
    using message_text_bytes [of t] set_address_text [OF assms(8), of "blank_message MODULE_ID_UART mid"]
    by (simp add: reply_message_def blank_message_def)
  ultimately show ?thesis using push_delivers [OF assms(1,3-6), of S ?msg] by auto
qed

text \<open>delivery. An answer with the command of the request in flight reaches the user who sent it: when an SMS
  request for a frame with command \<open>c\<close> is in flight and the queue of the SMS module has room, a frame with
  command \<open>c | 0x80\<close> appends exactly one message to that queue, from the UART module, with the address of the
  request and (the first 255 characters of) the reply text built from the payload.\<close>

theorem uart_user_reply_delivered:
  assumes "u_current_request u = Some r" and "mm_is_raw r" and "module_message_payload r = Some f" and "\<not> u_current_is_ping u"
    and "stm_frame_cmd frame = stm_frame_cmd f OR STM_CMD_RESP_BIT" and "mm_source_module r = MODULE_ID_SMS"
    and "uart_user_reply u (stm_frame_cmd frame) (stm_frame_payload frame) (stm_frame_payload_len frame) = Reply_Text t"
    and "module_get MODULE_ID_SMS g = Some m" and "mc_enabled (m_config m)" and "mc_msg_q (m_config m) = Some (h, q)"
    and "wf_ring (mc_msg_q_config (m_config m)) q" and "\<not> queue_has_file (mc_msg_q_config (m_config m))"
    and "q_count q < qc_capacity (mc_msg_q_config (m_config m))"
  shows "\<exists>g' q' msg. uart_dispatch_binary_frame S frame (u, g) = (u, g') \<and>
    module_get MODULE_ID_SMS g' = Some (m\<lparr>m_config := (m_config m)\<lparr>mc_msg_q := Some (h, q')\<rparr>\<rparr>) \<and>
    ring_items (mc_msg_q_config (m_config m)) q' = ring_items (mc_msg_q_config (m_config m)) q @ [msg] \<and>
    reply_message MODULE_ID_SMS (c_str (mm_address r)) t msg"
proof -
  have "\<not> stale_frame u (stm_frame_cmd frame)" using assms(1,3,5) by (simp add: stale_frame_def)
  then have "uart_dispatch_binary_frame S frame (u, g) =
      (u, uart_route_to_module_queue S MODULE_ID_SMS (Some (c_str (mm_address r))) (Some t) g)"
    using assms(1,4,6,7) by (simp add: uart_dispatch_binary_frame_def reply_origin_def send_reply_def)
  then show ?thesis using route_delivers [OF assms(8-13) _ c_str_no_NUL, where b1 = "mm_address r" and S = S and t = t] by simp
qed

lemma sample_sms: "module_get MODULE_ID_SMS (sample_gateway True) = Some (sample_module True)"
  by (simp add: module_get_def sample_gateway_def)

lemma sample_reply:
  "uart_user_reply (busy_uart False) (stm_frame_cmd (frame_bytes 4 [] 0x84 [])) (stm_frame_payload (frame_bytes 4 [] 0x84 []))
     (stm_frame_payload_len (frame_bytes 4 [] 0x84 [])) = Reply_Text ''Fail''"
proof -
  have f: "stm_frame_cmd (frame_bytes 4 [] 0x84 []) = 0x84" "stm_frame_payload_len (frame_bytes 4 [] 0x84 []) = 0"
    using frame_cmd_built [of "[]" "[]" 4 "0x84" "[]"] frame_src_len [of "[]" "[]" 4 "0x84" "[]"]
      frame_payload_len_field [of "[]" "[]" 4 "0x84" "[]"]
    by (simp_all add: wf_fields_def stm_frame_payload_len_def)
  show ?thesis
    unfolding f by (simp add: uart_user_reply_def uart_build_user_resp_def stm_consts resp_dev_info_def snprintf_def Let_def)
qed

theorem uart_user_reply_delivered_witness:
  "\<exists>g' q' msg. uart_dispatch_binary_frame sample_os (frame_bytes 4 [] 0x84 []) (busy_uart False, sample_gateway True) = (busy_uart False, g') \<and>
     ring_items sample_queue_config q' = [msg] \<and> reply_message MODULE_ID_SMS (c_str (mm_address sample_request)) ''Fail'' msg"
proof -
  have c: "stm_frame_cmd (frame_bytes 4 [] 0x84 []) =
      stm_frame_cmd (frame_bytes STM_SRC_TYPE_LOCAL [] STM_CMD_GET_DEV_INFO [] @ replicate 245 0) OR STM_CMD_RESP_BIT"
    unfolding sample_request_cmd using frame_cmd_built [of "[]" "[]" 4 "0x84" "[]"]
    by (simp add: wf_fields_def STM_CMD_GET_DEV_INFO_def STM_CMD_RESP_BIT_def)
  let ?m = "sample_module True" and ?q = "empty_queue 5 sample_msg"
  have cfg: "mc_msg_q_config (m_config ?m) = sample_queue_config" and en: "mc_enabled (m_config ?m)"
    and mq: "mc_msg_q (m_config ?m) = Some (7, ?q)" by (simp_all add: sample_module_def)
  have wf: "wf_ring (mc_msg_q_config (m_config ?m)) ?q" and nf: "\<not> queue_has_file (mc_msg_q_config (m_config ?m))"
    and room: "q_count ?q < qc_capacity (mc_msg_q_config (m_config ?m))"
    unfolding cfg by (simp_all add: wf_ring_def sample_queue_config_def empty_queue_def queue_has_file_def)
  have idle: "\<not> u_current_is_ping (busy_uart False)" by (simp add: busy_uart_fields)
  have empty: "ring_items sample_queue_config ?q = []" by (simp add: ring_items_def empty_queue_def)
  obtain g' q' msg where "uart_dispatch_binary_frame sample_os (frame_bytes 4 [] 0x84 []) (busy_uart False, sample_gateway True) = (busy_uart False, g')"
    "ring_items sample_queue_config q' = ring_items sample_queue_config ?q @ [msg]"
    "reply_message MODULE_ID_SMS (c_str (mm_address sample_request)) ''Fail'' msg"
    using uart_user_reply_delivered [OF busy_uart_fields(2) sample_request_frame(2,1) idle c sample_request_frame(3) sample_reply sample_sms
        en mq wf nf room, of sample_os] unfolding cfg by blast
  then show ?thesis unfolding empty by auto
qed

end
