(* ===== verification/Uart_Dates.thy ===== *)
theory Uart_Dates
  imports Uart_Response
begin

text \<open>
  The dates in the reply texts: \<open>fmt_ist_datetime\<close> of \<open>module/uart/uart_manager.c\<close> turns an epoch into
  local time by arithmetic on years that begin in March; it is the inverse of the conversions of
  \<open>Time_Utils\<close>.
\<close>

lemma div_between: "(n::int) * q \<le> x \<Longrightarrow> x < n * q + n \<Longrightarrow> 0 < n \<Longrightarrow> x div n = q"
  by (rule int_div_pos_eq [of x n q "x - n * q"]) auto

text \<open>The year of the era from the day of the era: \<open>c\<close> centuries, \<open>k\<close> groups of four years and \<open>r\<close> years.\<close>

lemma year_of_era:
  fixes c k r doy :: int
  assumes "0 \<le> c" "c \<le> 3" "0 \<le> k" "k \<le> 24" "0 \<le> r" "r \<le> 3" "0 \<le> doy" "doy \<le> 365"
    and leap: "doy = 365 \<Longrightarrow> r = 3 \<and> (k < 24 \<or> c = 3)"
    and doe: "doe = 36524 * c + 1461 * k + 365 * r + doy"
  shows "(doe - doe div 1460 + doe div 36524 - doe div 146096) div 365 = 100 * c + 4 * k + r"
proof (cases "doe = 146096")
  case True
  then have "c = 3" "k = 24" "r = 3" using assms by linarith+
  then show ?thesis using True by simp
next
  case False
  have lt: "doe < 146096" using assms False by linarith
  have "1461 * k + 365 * r + doy \<le> 36523"
  proof (cases "doy = 365 \<and> k = 24")
    case True
    then show ?thesis using leap lt doe by linarith
  next
    case False
    then show ?thesis using assms by linarith
  qed
  then have d2: "doe div 36524 = c" by (intro div_between) (use assms in linarith)+
  have d3: "doe div 146096 = 0" by (intro div_between) (use assms lt in linarith)+
  define s where "s = 24 * c + k + 365 * r + doy"
  define e where "e = (if 1460 \<le> s then 1 else (0::int))"
  have s: "doe = 1460 * (25 * c + k) + s" and sb: "0 \<le> s" "s < 2920" using assms by (simp_all add: s_def)
  have d1: "doe div 1460 = 25 * c + k + e" by (intro div_between) (use s sb in \<open>auto simp: e_def\<close>)
  have "0 \<le> doy - e \<and> doy - e < 365"
  proof (cases "1460 \<le> s")
    case True
    then show ?thesis using assms unfolding e_def s_def by (simp only: if_True) linarith
  next
    case False
    have "doy \<noteq> 365" using False leap assms by (auto simp: s_def)
    then show ?thesis using False assms by (simp add: e_def)
  qed
  moreover have "doe - doe div 1460 + doe div 36524 - doe div 146096 = 365 * (100 * c + 4 * k + r) + (doy - e)"
    unfolding d1 d2 d3 using doe by simp
  ultimately show ?thesis by (intro div_between) simp_all
qed


lemma day_of_year:
  assumes v: "valid_time t" and "doy = (153 * (nt_month t + (if nt_month t > 2 then -3 else 9)) + 2) div 5 + nt_day t - 1"
  shows "0 \<le> doy" "doy \<le> 365" "doy = 365 \<Longrightarrow> nt_month t = 2 \<and> is_leap_year (nt_year t)"
    "(5 * doy + 2) div 153 = nt_month t + (if nt_month t > 2 then -3 else 9)"
proof -
  have mo: "1 \<le> nt_month t" "nt_month t \<le> 12" and d: "1 \<le> nt_day t" "nt_day t \<le> days_in_month (nt_year t) (nt_month t)"
    using v by (auto simp: valid_time_iff)
  show "0 \<le> doy" "doy \<le> 365" "doy = 365 \<Longrightarrow> nt_month t = 2 \<and> is_leap_year (nt_year t)"
    using month_cases [OF mo] d unfolding assms(2) by (elim disjE; simp add: days_in_month_def split: if_splits)+
  show "(5 * doy + 2) div 153 = nt_month t + (if nt_month t > 2 then -3 else 9)"
    using month_cases [OF mo] d unfolding assms(2)
    by (elim disjE; intro div_between; simp add: days_in_month_def split: if_splits)
qed

lemma leap_before:
  assumes "is_leap_year (Y + 1)" and "yoe = Y mod 400"
  shows "yoe mod 4 = 3 \<and> (yoe mod 100 div 4 < 24 \<or> yoe div 100 = 3)"
proof -
  have m: "yoe mod 4 = Y mod 4" "yoe mod 100 = Y mod 100" unfolding assms(2) by (simp_all add: mod_mod_cancel)
  have b: "0 \<le> yoe" "yoe < 400" unfolding assms(2) by simp_all
  have "(Y + 1) mod 4 = 0"
    using assms(1) dvd_trans [of 4 400 "Y + 1"] by (auto simp: is_leap_year_def dvd_eq_mod_eq_0)
  then have "yoe mod 4 = 3" unfolding m by presburger
  moreover have "yoe div 100 = 3" if "yoe mod 100 = 99"
  proof -
    have "(Y + 1) mod 100 = 0" using that mod_add_left_eq [of Y 100 1] unfolding m by simp
    then have "(Y + 1) mod 400 = 0" using assms(1) by (simp add: is_leap_year_def)
    then have "yoe = 399" using mod_diff_left_eq [of "Y + 1" 400 1] unfolding assms(2) by simp
    then show ?thesis by simp
  qed
  moreover have "yoe mod 100 div 4 < 24" if "yoe mod 100 \<noteq> 99"
  proof -
    define q where "q = yoe mod 100 div 4"
    have "yoe mod 100 mod 4 = 3" using \<open>yoe mod 4 = 3\<close> by (simp add: mod_mod_cancel)
    then have "yoe mod 100 = 4 * q + 3" using mult_div_mod_eq [of 4 "yoe mod 100"] unfolding q_def by simp
    moreover have "yoe mod 100 < 100" by simp
    ultimately have "4 * q + 3 < 100" "4 * q + 3 \<noteq> 99" using that by simp_all
    then show ?thesis unfolding q_def [symmetric] by presburger
  qed
  ultimately show ?thesis by (cases "yoe mod 100 = 99") auto
qed

lemma quarters: "(x::int) = 100 * a + 4 * b + r \<Longrightarrow> 0 \<le> r \<Longrightarrow> r \<le> 3 \<Longrightarrow> x div 4 = 25 * a + b"
  by (intro div_between) simp_all

lemma year_parts:
  fixes yoe :: int
  assumes "0 \<le> yoe" and "yoe < 400"
  shows "yoe = 100 * (yoe div 100) + 4 * (yoe mod 100 div 4) + yoe mod 4" "yoe div 4 = 25 * (yoe div 100) + yoe mod 100 div 4"
    "0 \<le> yoe div 100" "yoe div 100 \<le> 3" "0 \<le> yoe mod 100 div 4" "yoe mod 100 div 4 \<le> 24" "0 \<le> yoe mod 4" "yoe mod 4 \<le> 3"
proof -
  have m: "yoe mod 100 mod 4 = yoe mod 4" by (simp add: mod_mod_cancel)
  have "yoe = 100 * (yoe div 100) + yoe mod 100" by simp
  moreover have "yoe mod 100 = 4 * (yoe mod 100 div 4) + yoe mod 4" unfolding m [symmetric] by simp
  ultimately show e: "yoe = 100 * (yoe div 100) + 4 * (yoe mod 100 div 4) + yoe mod 4" by linarith
  show r: "0 \<le> yoe mod 4" "yoe mod 4 \<le> 3" using pos_mod_bound [of 4 yoe] by (simp, linarith)
  then show "yoe div 4 = 25 * (yoe div 100) + yoe mod 100 div 4"
    by (rule quarters [OF e])
  show "0 \<le> yoe div 100" "0 \<le> yoe mod 100 div 4" using assms by (simp_all add: pos_imp_zdiv_nonneg_iff)
  have "yoe mod 100 < 100" by simp
  then show "yoe mod 100 div 4 \<le> 24" by linarith
  show "yoe div 100 \<le> 3" using assms by linarith
qed

lemma civil_from_days_inverse:
  assumes v: "valid_time t" and y: "1970 \<le> nt_year t"
  shows "civil_from_days (day_number t + 719468) = (nt_year t, nt_month t, nt_day t)"
proof -
  define Y where "Y = nt_year t - (if nt_month t \<le> 2 then 1 else 0)"
  define mp where "mp = nt_month t + (if nt_month t > 2 then -3 else 9)"
  define doy where "doy = (153 * mp + 2) div 5 + nt_day t - 1"
  define yoe where "yoe = Y - Y div 400 * 400"
  define doe where "doe = yoe * 365 + yoe div 4 - yoe div 100 + doy"
  have z: "day_number t + 719468 = Y div 400 * 146097 + doe"
    using march_days [OF Y_def] unfolding doe_def yoe_def doy_def mp_def by simp
  have ym: "yoe = Y mod 400" unfolding yoe_def by (simp add: minus_div_mult_eq_mod)
  then have yb: "0 \<le> yoe" "yoe < 400" by simp_all
  note dy = day_of_year [OF v doy_def [unfolded mp_def]]
  have lp: "doy = 365 \<Longrightarrow> yoe mod 4 = 3 \<and> (yoe mod 100 div 4 < 24 \<or> yoe div 100 = 3)"
    using leap_before [OF _ ym] dy(3) by (simp add: Y_def)
  note parts = year_parts(1,2) [OF yb] and cb = year_parts(3-8) [OF yb]
  have doe: "doe = 36524 * (yoe div 100) + 1461 * (yoe mod 100 div 4) + 365 * (yoe mod 4) + doy"
    unfolding doe_def using parts by linarith
  have yr: "(doe - doe div 1460 + doe div 36524 - doe div 146096) div 365 = yoe"
    using year_of_era [OF cb dy(1,2) lp doe] parts(1) by simp
  have db: "0 \<le> doe" "doe < 146097" using doe cb dy(1,2) lp by linarith+
  have Y0: "0 \<le> Y div 400" using y by (simp add: Y_def pos_imp_zdiv_nonneg_iff)
  then have z0: "day_number t + 719468 \<ge> 0" unfolding z using db(1) by simp
  have er: "(day_number t + 719468) div 146097 = Y div 400" unfolding z using db by (intro div_between) simp_all
  have mo: "1 \<le> nt_month t" "nt_month t \<le> 12" using v by (auto simp: valid_time_iff)
  have doyq: "doe - (365 * yoe + yoe div 4 - yoe div 100) = doy" unfolding doe_def by simp
  have dq: "day_number t + 719468 - Y div 400 * 146097 = doe" using z by simp
  have m: "(5 * doy + 2) div 153 = mp" using dy(4) unfolding mp_def .
  have "doy - (153 * mp + 2) div 5 + 1 = nt_day t" by (simp add: doy_def)
  moreover have "(if mp < 10 then mp + 3 else mp - 9) = nt_month t" using mo by (simp add: mp_def)
  moreover have "(if nt_month t \<le> 2 then yoe + Y div 400 * 400 + 1 else yoe + Y div 400 * 400) = nt_year t"
    by (simp add: yoe_def Y_def)
  ultimately show ?thesis
    unfolding civil_from_days_def Let_def if_P [OF z0] er dq yr doyq m by simp
qed

lemma time_of_day:
  fixes n D H M S :: nat
  assumes "n = D * 86400 + (H * 3600 + M * 60 + S)" and "H \<le> 23" and "M \<le> 59" and "S \<le> 59"
  shows "n div 86400 = D" "n mod 86400 div 3600 = H" "n mod 86400 mod 3600 div 60 = M" "n mod 86400 mod 60 = S"
proof -
  have b: "H * 3600 + M * 60 + S < 86400" "M * 60 + S < 3600" using assms by linarith+
  show "n div 86400 = D" using b assms(1) by simp
  have m: "n mod 86400 = M * 60 + S + H * 3600" using b assms(1) by simp
  show "n mod 86400 div 3600 = H" unfolding m using b by simp
  show "n mod 86400 mod 3600 div 60 = M" unfolding m using b assms by simp
  show "n mod 86400 mod 60 = S" unfolding m using assms mod_mult_self2 [of S 60 "M + H * 60"] by (simp add: algebra_simps)
qed

lemma dec_digits:
  "n < 100 \<Longrightarrow> length (dec_pad 2 n) = 2" "1000 \<le> n \<Longrightarrow> n < 10000 \<Longrightarrow> length (dec_pad 4 n) = 4"
  by (simp_all add: dec_pad_def dec.simps [of n] dec.simps [of "n div 10"] dec.simps [of "n div 100"]
      dec.simps [of "n div 1000"] div_mult2_eq [symmetric] less_mult_imp_div_less Let_def split: if_splits)

text \<open>the dates in the reply texts are right. For every valid date and time of day from 1970 to 2099 whose
  Unix time is at least five and a half hours, \<open>fmt_ist_datetime\<close> of the epoch five and a half hours
  earlier (the same moment in UTC) writes exactly that day, month, year and time, in 19 characters.\<close>

theorem fmt_ist_datetime_correct:
  assumes "unix_of t = Some u" and "19800 \<le> u"
  shows "fmt_ist_datetime (nat (u - 19800)) 24 =
    (19, dec_pad 2 (nat (nt_day t)) @ ''-'' @ dec_pad 2 (nat (nt_month t)) @ ''-'' @ dec_pad 4 (nat (nt_year t)) @ '' '' @
       dec_pad 2 (nat (nt_hour t)) @ '':'' @ dec_pad 2 (nat (nt_minute t)) @ '':'' @ dec_pad 2 (nat (nt_second t)))"
proof -
  have v: "valid_time t" and y: "1970 \<le> nt_year t" "nt_year t \<le> 2099" and u: "u = day_number t * 86400 + seconds t"
    using assms(1) by (auto simp: unix_of_eq split: if_splits)
  have sb: "0 \<le> seconds t" "seconds t < 86400" using seconds_bound [OF v] by auto
  have ub: "u \<le> 4294967295" using day_number_bound(2) [OF v y] u by simp
  have f: "0 \<le> nt_hour t" "nt_hour t \<le> 23" "0 \<le> nt_minute t" "nt_minute t \<le> 59" "0 \<le> nt_second t" "nt_second t \<le> 59"
    "1 \<le> nt_month t" "nt_month t \<le> 12" "1 \<le> nt_day t" "nt_day t \<le> 31"
    using v days_in_month_le [of "nt_month t" "nt_year t"] by (auto simp: valid_time_iff)
  have ist: "u32 (nat (u - 19800) + 19800) = nat u"
    using assms(2) ub by (simp add: u32_def nat_diff_distrib)
  have D: "0 \<le> day_number t" using assms(2) u sb by linarith
  have n: "nat u = nat (day_number t) * 86400 + (nat (nt_hour t) * 3600 + nat (nt_minute t) * 60 + nat (nt_second t))"
    unfolding u seconds_def using D f by (simp add: nat_add_distrib nat_mult_distrib)
  have h: "nat (nt_hour t) \<le> 23" "nat (nt_minute t) \<le> 59" "nat (nt_second t) \<le> 59" using f by simp_all
  have c: "civil_from_days (int (nat (day_number t)) + 719468) = (nt_year t, nt_month t, nt_day t)"
    using civil_from_days_inverse [OF v y(1)] D by simp
  have s: "nat (nt_day t) mod 100 = nat (nt_day t)" "nat (nt_month t) mod 100 = nat (nt_month t)"
    "nat (nt_year t) mod 10000 = nat (nt_year t)" using f y by simp_all
  have l: "length (dec_pad 2 (nat (nt_day t))) = 2" "length (dec_pad 2 (nat (nt_month t))) = 2" "length (dec_pad 4 (nat (nt_year t))) = 4"
    "length (dec_pad 2 (nat (nt_hour t))) = 2" "length (dec_pad 2 (nat (nt_minute t))) = 2" "length (dec_pad 2 (nat (nt_second t))) = 2"
    using f y by (simp_all add: dec_digits)
  show ?thesis
    unfolding fmt_ist_datetime_def Let_def ist time_of_day [OF n h] c split s by (simp add: snprintf_def l)
qed

text \<open>The last second of 29 February 2024 in India, 18:29:59 UTC.\<close>

theorem fmt_ist_datetime_correct_witness:
  "unix_of \<lparr>nt_year = 2024, nt_month = 2, nt_day = 29, nt_hour = 23, nt_minute = 59, nt_second = 59\<rparr> = Some 1709251199 \<and>
   fmt_ist_datetime 1709231399 24 = (19, ''29-02-2024 23:59:59'')"
proof -
  let ?t = "\<lparr>nt_year = 2024, nt_month = 2, nt_day = 29, nt_hour = 23, nt_minute = 59, nt_second = 59\<rparr>"
  have u: "unix_of ?t = Some 1709251199"
    by (simp add: unix_of_eq valid_time_iff days_in_month_def is_leap_year_def day_number_def days_to_year_def days_to_month_def
      leap_day_def seconds_def)
  show ?thesis using u fmt_ist_datetime_correct [OF u] by (simp add: dec_pad_def dec.simps char_of_def bit_0)
qed

end
