(* ===== verification/Uart_Text.thy ===== *)
theory Uart_Text
  imports Uart_Session Uart_Dates
begin

text \<open>
  The reply texts: they are built from the payload alone, they fit the buffer, and they are never empty;
  the dates in them are right.
\<close>

subsection \<open>Only the payload is read\<close>

definition same_payload :: "nat \<Rightarrow> bytes \<Rightarrow> bytes \<Rightarrow> bool" where
  "same_payload plen pl pl' \<longleftrightarrow> plen \<le> length pl \<and> plen \<le> length pl' \<and> take plen pl = take plen pl'"

named_theorems payload_simps \<open>what two buffers with the same payload share\<close>

lemma same_payload_nth [payload_simps]: "same_payload plen pl pl' \<Longrightarrow> i < plen \<Longrightarrow> pl' ! i = pl ! i"
  unfolding same_payload_def by (metis nth_take)

lemma same_payload_slice [payload_simps]:
  "same_payload plen pl pl' \<Longrightarrow> k + n \<le> plen \<Longrightarrow> take n (drop k pl') = take n (drop k pl)"
  unfolding same_payload_def take_drop by (metis add.commute min.absorb1 take_take)

lemma mac_at: "k + 6 \<le> length pl \<Longrightarrow> mac_upper (drop k pl) = concat (map (\<lambda>i. hex_of_byte (pl ! (k + i))) [0, 1, 2, 3, 4, 5])"
  "k + 6 \<le> length pl \<Longrightarrow> mac_colons (drop k pl) = hex_lower (pl ! k) @ concat (map (\<lambda>i. '':'' @ hex_lower (pl ! (k + i))) [1, 2, 3, 4, 5])"
  by (simp_all add: mac_upper_def mac_colons_def)

lemma same_payload_mac [payload_simps]:
  assumes "same_payload plen pl pl'" and "k + 6 \<le> plen"
  shows "mac_upper (drop k pl') = mac_upper (drop k pl)" "mac_colons (drop k pl') = mac_colons (drop k pl)"
proof -
  have "k + 6 \<le> length pl" "k + 6 \<le> length pl'" using assms by (simp_all add: same_payload_def)
  then show "mac_upper (drop k pl') = mac_upper (drop k pl)" "mac_colons (drop k pl') = mac_colons (drop k pl)"
    using assms same_payload_nth [OF assms(1)] by (simp_all add: mac_at)
qed

lemma same_peri_info: "same_payload plen pl pl' \<Longrightarrow> peri_info_text pl' plen = peri_info_text pl plen"
  by (simp add: peri_info_text_def payload_simps Let_def)

lemma same_dev_info: "same_payload plen pl pl' \<Longrightarrow> resp_dev_info pl' plen st sz = resp_dev_info pl plen st sz"
  by (simp add: resp_dev_info_def payload_simps)

lemma same_system_update: 
  assumes "same_payload plen pl pl'"
  shows "resp_system_update pl' plen st sz = resp_system_update pl plen st sz"
proof (cases "plen \<ge> 43")
  case True
  have "drop 1 pl' ! i = drop 1 pl ! i" if "i < 17" for i
    using assms True that same_payload_nth [OF assms, of "1 + i"] by (simp add: same_payload_def)
  then show ?thesis by (simp add: resp_system_update_def Let_def)
next
  case False
  then show ?thesis by (simp add: resp_system_update_def)
qed

lemma same_reboot_loop:
  "same_payload plen pl pl' \<Longrightarrow> reboot_loop pl' plen sz n i off out = reboot_loop pl plen sz n i off out"
  by (induction n arbitrary: i off out) (simp_all add: payload_simps Let_def split_beta)

lemma same_hex_reply:
  "same_payload plen pl pl' \<Longrightarrow> k + n \<le> plen \<Longrightarrow> hex_reply sz p (drop k pl') n = hex_reply sz p (drop k pl) n"
  by (simp add: hex_reply_def utils_bytes_to_hex_str_def payload_simps Let_def split_beta)

lemma same_peri_data: "same_payload plen pl pl' \<Longrightarrow> resp_peri_data cmd pl' plen st sz = resp_peri_data cmd pl plen st sz"
  by (simp add: resp_peri_data_def payload_simps same_hex_reply Let_def)

lemma same_peri_list_loop:
  "same_payload plen pl pl' \<Longrightarrow> peri_list_loop pl' plen sz n idx off out = peri_list_loop pl plen sz n idx off out"
  by (induction n arbitrary: idx off out) (simp_all add: payload_simps Let_def split_beta)

lemma same_user_resp:
  assumes "same_payload plen pl pl'"
  shows "uart_build_user_resp cmd pl' plen d sz = uart_build_user_resp cmd pl plen d sz"
proof -
  have st: "(if plen \<ge> 1 then pl' ! 0 else 0xFF) = (if plen \<ge> 1 then pl ! 0 else 0xFF)"
    using same_payload_nth [OF assms, of 0] by auto
  have "resp_set_ble_peri pl' plen s d sz = resp_set_ble_peri pl plen s d sz"
    "resp_del_ble_peri pl' plen s sz = resp_del_ble_peri pl plen s sz"
    "resp_reboot_info pl' plen s sz = resp_reboot_info pl plen s sz"
    "resp_peri_info pl' plen s sz = resp_peri_info pl plen s sz"
    "resp_ble_data pl' plen s sz = resp_ble_data pl plen s sz"
    "resp_peri_link pl' plen s sz = resp_peri_link pl plen s sz"
    "resp_peri_list pl' plen s d sz = resp_peri_list pl plen s d sz" for s
    using same_payload_nth [OF assms] same_payload_slice [OF assms] same_payload_mac [OF assms]
    by (simp_all add: resp_set_ble_peri_def resp_del_ble_peri_def same_peri_info [OF assms] resp_reboot_info_def
        same_reboot_loop [OF assms] resp_peri_info_def resp_ble_data_def same_hex_reply [OF assms] resp_peri_link_def
        resp_peri_list_def same_peri_list_loop [OF assms] Let_def split_beta split: option.split)
  then show ?thesis
    unfolding uart_build_user_resp_def st Let_def
    by (simp only: same_dev_info [OF assms] same_system_update [OF assms] same_peri_data [OF assms])
qed

lemma same_internal_reply:
  assumes "same_payload plen pl pl'"
  shows "uart_internal_reply cmd pl' plen = uart_internal_reply cmd pl plen"
proof -
  note n = same_payload_nth [OF assms] and sl = same_payload_slice [OF assms]
  have "reply_fw_version pl' plen = reply_fw_version pl plen" by (cases "plen < 3") (simp_all add: reply_fw_version_def n)
  moreover have "reply_gw_health pl' plen = reply_gw_health pl plen" by (cases "plen < 4") (simp_all add: reply_gw_health_def n sl Let_def)
  moreover have "reply_stm_ota pl' plen = reply_stm_ota pl plen" by (cases "plen < 6") (simp_all add: reply_stm_ota_def n)
  moreover have "reply_peri_ota pl' plen = reply_peri_ota pl plen"
    by (cases "plen = 0") (simp_all add: reply_peri_ota_def n sl utils_bytes_to_hex_str_def Let_def split_beta)
  moreover have "(plen \<ge> 1 \<and> pl' ! 0 = 0) = (plen \<ge> 1 \<and> pl ! 0 = 0)" using same_payload_nth [OF assms, of 0] by auto
  ultimately show ?thesis unfolding uart_internal_reply_def by (simp only: same_user_resp [OF assms])
qed

subsection \<open>The buffer is never overrun, and no reply is empty\<close>

definition good_reply :: "nat \<Rightarrow> int \<times> string \<Rightarrow> bool" where
  "good_reply sz r \<longleftrightarrow> 0 < fst r \<and> snd r \<noteq> [] \<and> length (snd r) < sz"

lemma good_snprintf: "s \<noteq> [] \<Longrightarrow> 1 < sz \<Longrightarrow> good_reply sz (snprintf sz s)"
  by (cases s) (auto simp: good_reply_def snprintf_def)

lemma good_snprintf_at:
  "0 < off \<Longrightarrow> off < sz \<Longrightarrow> out \<noteq> [] \<Longrightarrow> snd (snprintf_at sz off out s) \<noteq> [] \<and> length (snd (snprintf_at sz off out s)) < sz"
  by (auto simp: snprintf_at_def)

lemma good_reboot_loop:
  "0 < off \<Longrightarrow> off < sz \<Longrightarrow> out \<noteq> [] \<Longrightarrow> length out < sz \<Longrightarrow> good_reply sz (reboot_loop pl plen sz n i off out)"
proof (induction n arbitrary: i off out)
  case (Suc n)
  then show ?case
    using good_snprintf_at [OF Suc.prems(1-3)] Suc.IH
    by (auto simp: good_reply_def Let_def split_beta)
qed (simp add: good_reply_def)

lemma good_peri_list_loop:
  "0 < off \<Longrightarrow> off < sz \<Longrightarrow> out \<noteq> [] \<Longrightarrow> length out < sz \<Longrightarrow> good_reply sz (peri_list_loop pl plen sz n idx off out)"
proof (induction n arbitrary: idx off out)
  case (Suc n)
  then show ?case
    using good_snprintf_at [OF Suc.prems(1-3)] Suc.IH
    by (auto simp: good_reply_def Let_def split_beta)
qed (simp add: good_reply_def)

lemma hex_buffer_text:
  assumes "utils_bytes_to_hex_str (Some bs) n (Some (replicate room NUL)) room = (ok, h)" and "ok \<noteq> 0"
  shows "length (c_str (the h)) < room"
proof -
  have r: "2 * n + 1 \<le> room" and h: "the h = hex_of_bytes (take n bs) @ NUL # drop (length (hex_of_bytes (take n bs)) + 1) (replicate room NUL)"
    using assms by (auto simp: utils_bytes_to_hex_str_def write_at_def split: if_splits)
  have "length (hex_of_bytes (take n bs)) \<le> 2 * n" by (simp add: length_hex_of_bytes)
  then show ?thesis unfolding h using r by (simp add: c_str_append_NUL NUL_hex_of_bytes)
qed

lemma good_hex_reply:
  assumes "p \<noteq> []" and "length p < sz" and "4 < sz"
  shows "good_reply sz (hex_reply sz p data n)"
proof -
  obtain ok h where e: "utils_bytes_to_hex_str (Some data) n (Some (replicate (sz - length p) NUL)) (sz - length p) = (ok, h)"
    by (cases "utils_bytes_to_hex_str (Some data) n (Some (replicate (sz - length p) NUL)) (sz - length p)")
  show ?thesis
    using assms hex_buffer_text [OF e] good_snprintf [of "''Fail''" sz]
    by (auto simp: hex_reply_def snprintf_def e good_reply_def min_def intro!: add_pos_nonneg)
qed

lemma dec_nonempty [simp]: "dec n \<noteq> []"
  by (subst dec.simps) simp

lemma length_dec_byte: "length (dec (unat (b :: byte))) \<le> 3"
proof -
  have "unat b < 1000" using unat_byte_less [of b] by linarith
  then have "unat b div 10 div 10 < 10" by (simp add: div_mult2_eq [symmetric] less_mult_imp_div_less)
  then show ?thesis
    by (subst dec.simps, subst dec.simps, subst dec.simps) simp
qed

lemma good_user_resp: "good_reply 1280 (uart_build_user_resp cmd pl plen d 1280)"
proof -
  let ?st = "if plen \<ge> 1 then pl ! 0 else 0xFF"
  note g = good_snprintf [of _ 1280, simplified]
  have g1: "good_reply 1280 (snprintf 1280 (c # s))" for c s by (rule g) simp
  have g2: "good_reply 1280 (snprintf 1280 (dec n @ s))" for n s by (rule g) simp
  have ok: "snprintf 1280 (''Ok,'' @ dec_byte b) = (int (3 + length (dec_byte b)), ''Ok,'' @ dec_byte b)" for b
    using length_dec_byte [of b] by (simp add: snprintf_def)
  have loops: "good_reply 1280 (reboot_loop pl plen 1280 n 0 (3 + length (dec_byte b)) (''Ok,'' @ dec_byte b))"
    "good_reply 1280 (peri_list_loop pl plen 1280 n 2 (3 + length (dec_byte b)) (''Ok,'' @ dec_byte b))" for n b
    using length_dec_byte [of b] by (auto intro!: good_reboot_loop good_peri_list_loop)
  have small: "\<not> int (3 + length (dec_byte b)) \<le> 0" "\<not> int (3 + length (dec_byte b)) \<ge> int 1280" for b
    using length_dec_byte [of b] by simp_all
  have err: "good_reply 1280 (snprintf 1280 e)" if "peri_cmd_err_str s = Some e" for s e
    using that by (auto simp: peri_cmd_err_str_def g1 split: if_splits)
  have hexs: "good_reply 1280 (hex_reply 1280 ''Ok,'' bs n)" "good_reply 1280 (hex_reply 1280 (''Ok,'' @ dec_byte b @ '','') bs n)" for bs n b
    using length_dec_byte [of b] by (auto intro!: good_hex_reply)
  have peri: "good_reply 1280 (snprintf 1280 (t @ s))" if "peri_info_text pl plen = Some t" for t s
    using that by (auto simp: peri_info_text_def Let_def g2 split: if_splits)
  have "good_reply 1280 (resp_set_ble_peri pl plen s d 1280)" "good_reply 1280 (resp_del_ble_peri pl plen s 1280)" for s
    using peri by (auto simp: resp_set_ble_peri_def resp_del_ble_peri_def g1 split: option.split)
  moreover have "good_reply 1280 (resp_dev_info pl plen s 1280)" "good_reply 1280 (resp_system_update pl plen s 1280)"
    "good_reply 1280 (resp_peri_info pl plen s 1280)" "good_reply 1280 (resp_peri_link pl plen s 1280)"
    "good_reply 1280 (resp_scan_on s 1280)" for s
    by (simp_all add: resp_dev_info_def resp_system_update_def resp_peri_info_def resp_peri_link_def resp_scan_on_def g1 Let_def)
  moreover have "good_reply 1280 (resp_peri_data cmd pl plen s 1280)" "good_reply 1280 (resp_ble_data pl plen s 1280)" for s
    using err hexs by (auto simp: resp_peri_data_def resp_ble_data_def g1 Let_def split: option.split)
  moreover have "good_reply 1280 (resp_reboot_info pl plen s 1280)" "good_reply 1280 (resp_peri_list pl plen s d 1280)" for s
    unfolding resp_reboot_info_def resp_peri_list_def split_beta Let_def ok fst_conv snd_conv nat_int
    by (simp_all only: small simp_thms if_False) (simp_all add: g1 g2 loops [simplified])
  ultimately show ?thesis
    unfolding uart_build_user_resp_def Let_def by (simp add: g1)
qed

subsection \<open>Statements\<close>

text \<open>a reply is made of the payload alone. If two receive buffers hold the same payload of
  \<open>plen\<close> bytes, whatever follows it, an internal requester and a user are sent the same reply for the same
  command: no reader of the payload goes beyond its length, whatever the lengths inside it say.\<close>

theorem uart_replies_from_payload:
  assumes "plen \<le> length pl" and "plen \<le> length pl'" and "take plen pl = take plen pl'"
  shows "uart_internal_reply cmd pl plen = uart_internal_reply cmd pl' plen \<and>
    uart_user_reply u cmd pl plen = uart_user_reply u cmd pl' plen"
proof -
  have s: "same_payload plen pl pl'" using assms by (simp add: same_payload_def)
  show ?thesis unfolding uart_user_reply_def same_user_resp [OF s] same_internal_reply [OF s] by simp
qed

theorem uart_replies_from_payload_witness:
  "uart_user_reply (busy_uart True) (0x26 OR STM_CMD_RESP_BIT) [0, 0, 9, 7] 4 = uart_user_reply (busy_uart True) (0x26 OR STM_CMD_RESP_BIT) [0, 0, 9, 7, 1, 2] 4"
  using uart_replies_from_payload [of 4 "[0, 0, 9, 7]" "[0, 0, 9, 7, 1, 2]"] by simp

text \<open>a user is always answered, and within the shared buffer. Whatever the command, the payload and the
  request in flight, \<open>uart_build_user_resp\<close> leaves a text that is not empty and ends, with its terminator,
  within the 1280 bytes of the shared buffer, and this text is what is sent.\<close>

theorem uart_user_reply_total:
  "\<exists>n t. uart_user_reply u cmd pl plen = Reply_Text t \<and> t \<noteq> [] \<and> length t < UART_SHARED_BUF_SIZE \<and>
     (\<exists>d. uart_build_user_resp cmd pl plen d UART_SHARED_BUF_SIZE = (n, t))"
proof -
  have "\<exists>d. uart_user_reply u cmd pl plen =
      (let (n, t) = uart_build_user_resp cmd pl plen d UART_SHARED_BUF_SIZE in if n > 0 then Reply_Text t else No_Reply)"
    unfolding uart_user_reply_def Let_def by blast
  then obtain d where "uart_user_reply u cmd pl plen =
      (let (n, t) = uart_build_user_resp cmd pl plen d UART_SHARED_BUF_SIZE in if n > 0 then Reply_Text t else No_Reply)" ..
  then show ?thesis
    using good_user_resp [of cmd pl plen d]
    by (cases "uart_build_user_resp cmd pl plen d UART_SHARED_BUF_SIZE") (auto simp: good_reply_def)
qed

end
