(* ===== verification/Module_Registry.thy ===== *)
theory Module_Registry
  imports Module_Manager
begin

text \<open>
  The table of the modules (\<open>module/module_config.c\<close>), and what \<open>module_manager.c\<close> guarantees: which
  modules run after the start-up with its retries, that the connection flags follow the events, and when the
  task monitor reports a stall.
\<close>

subsection \<open>The table\<close>

text \<open>The sizes of the structs in the table, which the compiler fixes.\<close>

record struct_sizes =
  sz_module_message :: nat
  sz_gps_urc_queued :: nat
  sz_sms_urc_queued :: nat
  sz_config :: "string \<Rightarrow> nat"

definition no_queue :: queue_config where
  "no_queue = \<lparr>qc_name = None, qc_element_size = 0, qc_capacity = 0, qc_thread_safe = False, qc_max_file_size = 0,
     qc_persist_on_reboot = False\<rparr>"

definition status_zero :: module_status where
  "status_zero = \<lparr>ms_initialized = False, ms_connected = False, ms_task_uptime_sec = 0, ms_retries = 0, ms_last_error = 0\<rparr>"

definition g_module_log :: "struct_sizes \<Rightarrow> 'u module" where
  "g_module_log sz = \<lparr>m_config = \<lparr>mc_module_id = MODULE_ID_LOG, mc_name = Some ''Log Manager'', mc_enabled = True,
     mc_required = False, mc_continue_on_fail = True, mc_has_task = False,
     mc_init_fn = Some ''log_module_init'', mc_deinit_fn = Some ''logger_deinit'',
     mc_config_get_defaults_fn = Some ''log_config_get_defaults'', mc_config_validate_fn = Some ''log_config_validate'',
     mc_config_ptr = Some ''g_log_config'', mc_config_size = sz_config sz ''g_log_config'', mc_config_stored = False,
     mc_msg_q_config = no_queue, mc_msg_q = None, mc_urc_q_config = no_queue, mc_urc_q = None\<rparr>, m_status = status_zero\<rparr>"

definition g_module_uart :: "struct_sizes \<Rightarrow> 'u module" where
  "g_module_uart sz = \<lparr>m_config = \<lparr>mc_module_id = MODULE_ID_UART, mc_name = Some ''UART Manager'', mc_enabled = False,
     mc_required = False, mc_continue_on_fail = True, mc_has_task = True,
     mc_init_fn = Some ''uart_manager_init'', mc_deinit_fn = Some ''uart_manager_deinit'',
     mc_config_get_defaults_fn = None, mc_config_validate_fn = None,
     mc_config_ptr = None, mc_config_size = 0, mc_config_stored = False,
     mc_msg_q_config = \<lparr>qc_name = Some ''UART_REQUEST_Q'', qc_element_size = sz_module_message sz, qc_capacity = 5,
       qc_thread_safe = False, qc_max_file_size = 0, qc_persist_on_reboot = False\<rparr>,
     mc_msg_q = None, mc_urc_q_config = no_queue, mc_urc_q = None\<rparr>, m_status = status_zero\<rparr>"

definition g_module_cmd :: "struct_sizes \<Rightarrow> 'u module" where
  "g_module_cmd sz = \<lparr>m_config = \<lparr>mc_module_id = MODULE_ID_CMD, mc_name = Some ''Command Manager'', mc_enabled = True,
     mc_required = True, mc_continue_on_fail = False, mc_has_task = True,
     mc_init_fn = Some ''command_manager_init'', mc_deinit_fn = Some ''command_manager_deinit'',
     mc_config_get_defaults_fn = Some ''command_config_get_defaults'', mc_config_validate_fn = Some ''command_config_validate'',
     mc_config_ptr = Some ''g_command_config'', mc_config_size = sz_config sz ''g_command_config'', mc_config_stored = True,
     mc_msg_q_config = \<lparr>qc_name = Some ''CMD_REQUEST_Q'', qc_element_size = sz_module_message sz, qc_capacity = 5,
       qc_thread_safe = True, qc_max_file_size = 0, qc_persist_on_reboot = False\<rparr>,
     mc_msg_q = None, mc_urc_q_config = no_queue, mc_urc_q = None\<rparr>, m_status = status_zero\<rparr>"

definition g_module_urc :: "struct_sizes \<Rightarrow> 'u module" where
  "g_module_urc sz = \<lparr>m_config = \<lparr>mc_module_id = MODULE_ID_URC, mc_name = Some ''URC Processor'', mc_enabled = True,
     mc_required = True, mc_continue_on_fail = False, mc_has_task = True,
     mc_init_fn = Some ''urc_processor_init'', mc_deinit_fn = Some ''urc_processor_deinit'',
     mc_config_get_defaults_fn = None, mc_config_validate_fn = None,
     mc_config_ptr = None, mc_config_size = 0, mc_config_stored = False,
     mc_msg_q_config = no_queue, mc_msg_q = None, mc_urc_q_config = no_queue, mc_urc_q = None\<rparr>, m_status = status_zero\<rparr>"

definition g_module_sim :: "struct_sizes \<Rightarrow> 'u module" where
  "g_module_sim sz = \<lparr>m_config = \<lparr>mc_module_id = MODULE_ID_SIM, mc_name = Some ''SIM Manager'', mc_enabled = True,
     mc_required = True, mc_continue_on_fail = False, mc_has_task = True,
     mc_init_fn = Some ''weware_sim_init'', mc_deinit_fn = Some ''weware_sim_deinit'',
     mc_config_get_defaults_fn = None, mc_config_validate_fn = None,
     mc_config_ptr = None, mc_config_size = 0, mc_config_stored = False,
     mc_msg_q_config = no_queue, mc_msg_q = None, mc_urc_q_config = no_queue, mc_urc_q = None\<rparr>, m_status = status_zero\<rparr>"

definition g_module_network :: "struct_sizes \<Rightarrow> 'u module" where
  "g_module_network sz = \<lparr>m_config = \<lparr>mc_module_id = MODULE_ID_NETWORK, mc_name = Some ''Network Manager'', mc_enabled = True,
     mc_required = True, mc_continue_on_fail = False, mc_has_task = True,
     mc_init_fn = Some ''weware_network_init'', mc_deinit_fn = Some ''weware_network_deinit'',
     mc_config_get_defaults_fn = Some ''network_config_get_defaults'', mc_config_validate_fn = Some ''network_config_validate'',
     mc_config_ptr = Some ''g_network_config'', mc_config_size = sz_config sz ''g_network_config'', mc_config_stored = True,
     mc_msg_q_config = no_queue, mc_msg_q = None,
     mc_urc_q_config = \<lparr>qc_name = Some ''NET_URC_Q'', qc_element_size = 4, qc_capacity = 8,
       qc_thread_safe = True, qc_max_file_size = 0, qc_persist_on_reboot = False\<rparr>, mc_urc_q = None\<rparr>,
     m_status = status_zero\<rparr>"

definition g_module_tcp :: "struct_sizes \<Rightarrow> 'u module" where
  "g_module_tcp sz = \<lparr>m_config = \<lparr>mc_module_id = MODULE_ID_TCP, mc_name = Some ''TCP Client'', mc_enabled = True,
     mc_required = False, mc_continue_on_fail = True, mc_has_task = True,
     mc_init_fn = Some ''weware_tcp_init'', mc_deinit_fn = Some ''weware_tcp_deinit'',
     mc_config_get_defaults_fn = Some ''weware_tcp_config_get_defaults'', mc_config_validate_fn = Some ''weware_tcp_config_validate'',
     mc_config_ptr = Some ''g_tcp_config'', mc_config_size = sz_config sz ''g_tcp_config'', mc_config_stored = True,
     mc_msg_q_config = \<lparr>qc_name = Some ''TCP_SEND_Q'', qc_element_size = sz_module_message sz, qc_capacity = 7,
       qc_thread_safe = True, qc_max_file_size = 1024 * 200, qc_persist_on_reboot = True\<rparr>,
     mc_msg_q = None, mc_urc_q_config = no_queue, mc_urc_q = None\<rparr>, m_status = status_zero\<rparr>"

definition g_module_gps :: "struct_sizes \<Rightarrow> 'u module" where
  "g_module_gps sz = \<lparr>m_config = \<lparr>mc_module_id = MODULE_ID_GPS, mc_name = Some ''GPS Manager'', mc_enabled = True,
     mc_required = False, mc_continue_on_fail = True, mc_has_task = True,
     mc_init_fn = Some ''gps_manager_init'', mc_deinit_fn = Some ''gps_manager_deinit'',
     mc_config_get_defaults_fn = Some ''gps_config_get_defaults'', mc_config_validate_fn = Some ''gps_config_validate'',
     mc_config_ptr = Some ''g_gps_config'', mc_config_size = sz_config sz ''g_gps_config'', mc_config_stored = True,
     mc_msg_q_config = no_queue, mc_msg_q = None,
     mc_urc_q_config = \<lparr>qc_name = Some ''GPS_URC_Q'', qc_element_size = sz_gps_urc_queued sz, qc_capacity = 4,
       qc_thread_safe = True, qc_max_file_size = 0, qc_persist_on_reboot = False\<rparr>, mc_urc_q = None\<rparr>,
     m_status = status_zero\<rparr>"

definition g_module_sms :: "struct_sizes \<Rightarrow> 'u module" where
  "g_module_sms sz = \<lparr>m_config = \<lparr>mc_module_id = MODULE_ID_SMS, mc_name = Some ''SMS Manager'', mc_enabled = True,
     mc_required = True, mc_continue_on_fail = False, mc_has_task = True,
     mc_init_fn = Some ''sms_manager_init'', mc_deinit_fn = Some ''sms_manager_deinit'',
     mc_config_get_defaults_fn = Some ''sms_config_get_defaults'', mc_config_validate_fn = Some ''sms_config_validate'',
     mc_config_ptr = Some ''g_sms_config'', mc_config_size = sz_config sz ''g_sms_config'', mc_config_stored = True,
     mc_msg_q_config = \<lparr>qc_name = Some ''SMS_SEND_Q'', qc_element_size = sz_module_message sz, qc_capacity = 5,
       qc_thread_safe = True, qc_max_file_size = 0, qc_persist_on_reboot = False\<rparr>,
     mc_msg_q = None,
     mc_urc_q_config = \<lparr>qc_name = Some ''SMS_URC_Q'', qc_element_size = sz_sms_urc_queued sz, qc_capacity = 5,
       qc_thread_safe = True, qc_max_file_size = 0, qc_persist_on_reboot = False\<rparr>, mc_urc_q = None\<rparr>,
     m_status = status_zero\<rparr>"

definition g_module_ble :: "'u module" where
  "g_module_ble = \<lparr>m_config = \<lparr>mc_module_id = MODULE_ID_BLE, mc_name = Some ''BLE Manager'', mc_enabled = False,
     mc_required = False, mc_continue_on_fail = True, mc_has_task = False, mc_init_fn = None, mc_deinit_fn = None,
     mc_config_get_defaults_fn = None, mc_config_validate_fn = None,
     mc_config_ptr = None, mc_config_size = 0, mc_config_stored = False,
     mc_msg_q_config = no_queue, mc_msg_q = None, mc_urc_q_config = no_queue, mc_urc_q = None\<rparr>, m_status = status_zero\<rparr>"

definition g_module_system :: "struct_sizes \<Rightarrow> 'u module" where
  "g_module_system sz = \<lparr>m_config = \<lparr>mc_module_id = MODULE_ID_SYSTEM, mc_name = Some ''System Manager'', mc_enabled = True,
     mc_required = False, mc_continue_on_fail = True, mc_has_task = False, mc_init_fn = None, mc_deinit_fn = None,
     mc_config_get_defaults_fn = Some ''system_config_get_defaults'', mc_config_validate_fn = Some ''system_config_validate'',
     mc_config_ptr = Some ''g_system_config'', mc_config_size = sz_config sz ''g_system_config'', mc_config_stored = True,
     mc_msg_q_config = no_queue, mc_msg_q = None, mc_urc_q_config = no_queue, mc_urc_q = None\<rparr>, m_status = status_zero\<rparr>"

definition g_modules :: "struct_sizes \<Rightarrow> 'u module option list" where
  "g_modules sz =
     [Some (g_module_log sz), Some (g_module_uart sz), Some (g_module_cmd sz), Some (g_module_urc sz),
      Some (g_module_sim sz), Some (g_module_network sz), Some (g_module_tcp sz), Some (g_module_gps sz),
      Some (g_module_sms sz), Some g_module_ble, Some (g_module_system sz), None]"

lemmas module_table = g_module_log_def g_module_uart_def g_module_cmd_def g_module_urc_def g_module_sim_def
  g_module_network_def g_module_tcp_def g_module_gps_def g_module_sms_def g_module_ble_def g_module_system_def

subsection \<open>Start-up\<close>

text \<open>What the start-up reads and writes of a module: whether it is enabled and required, its functions,
  whether it is initialised, its retries and its last error.\<close>

record module_view =
  mv_enabled :: bool
  mv_required :: bool
  mv_init_fn :: "string option"
  mv_deinit_fn :: "string option"
  mv_initialized :: bool
  mv_retries :: int
  mv_last_error :: int

definition module_view :: "'u module \<Rightarrow> module_view" where
  "module_view m = \<lparr>mv_enabled = mc_enabled (m_config m), mv_required = mc_required (m_config m),
     mv_init_fn = mc_init_fn (m_config m), mv_deinit_fn = mc_deinit_fn (m_config m),
     mv_initialized = ms_initialized (m_status m), mv_retries = ms_retries (m_status m),
     mv_last_error = ms_last_error (m_status m)\<rparr>"

definition registry_view :: "('u, 'w) gateway \<Rightarrow> module_view option list" where
  "registry_view g = map (map_option module_view) (gw_modules g)"

text \<open>Only the module manager writes these members: a call of a module's function leaves them alone. It may
  change everything else.\<close>

definition calls_keep_registry :: "('u, 'w) os \<Rightarrow> bool" where
  "calls_keep_registry S \<longleftrightarrow> (\<forall>fn g. registry_view (snd (os_call S fn g)) = registry_view g)"

definition eligible :: "module_view \<Rightarrow> bool" where
  "eligible v \<longleftrightarrow> mv_enabled v \<and> mv_init_fn v \<noteq> None"

text \<open>One attempt on a module, and a module after \<open>r\<close> rounds.\<close>

definition attempted :: "module_view option \<Rightarrow> module_view option \<Rightarrow> bool" where
  "attempted a b \<longleftrightarrow>
     (case a of
        None \<Rightarrow> b = None
      | Some v \<Rightarrow>
          if eligible v \<and> \<not> mv_initialized v
          then b = Some (v\<lparr>mv_initialized := True, mv_last_error := 0\<rparr>) \<or>
               (\<exists>e < 0. b = Some (v\<lparr>mv_retries := mv_retries v + 1, mv_last_error := e\<rparr>))
          else b = Some v)"

definition pending :: "module_view option \<Rightarrow> bool" where
  "pending a \<longleftrightarrow> (\<exists>v. a = Some v \<and> eligible v \<and> \<not> mv_initialized v)"

lemma length_registry_view [simp]: "length (registry_view g) = length (gw_modules g)"
  by (simp add: registry_view_def)

lemma nth_registry_view: "i < length (gw_modules g) \<Longrightarrow> registry_view g ! i = map_option module_view (gw_modules g ! i)"
  by (simp add: registry_view_def)

lemma view_uptime: "registry_view (snd (get_uptime S g)) = registry_view g"
  by (simp add: get_uptime_def registry_view_def split_beta Let_def)

lemma view_update:
  "i < length (gw_modules g) \<Longrightarrow>
     registry_view (module_update i f g) = (registry_view g)[i := map_option (\<lambda>m. module_view (f m)) (gw_modules g ! i)]"
  by (simp add: module_update_def registry_view_def map_update option.map_comp comp_def)

lemma view_update_same:
  "i < length (gw_modules g) \<Longrightarrow> (\<And>m. module_view (f m) = module_view m) \<Longrightarrow> registry_view (module_update i f g) = registry_view g"
  by (simp add: view_update nth_registry_view [symmetric])

lemma length_modules: "registry_view g = registry_view g' \<Longrightarrow> length (gw_modules g) = length (gw_modules g')"
  by (metis length_registry_view)

text \<open>One attempt, seen through the view.\<close>

lemma init_module_view:
  assumes keep: "calls_keep_registry S" and i: "i < length (gw_modules g)" and e: "init_module S i g = (ok, g')"
  shows "\<exists>b. registry_view g' = (registry_view g)[i := b] \<and> attempted (registry_view g ! i) b \<and> (ok \<longrightarrow> \<not> pending b)"
proof (cases "pending (registry_view g ! i)")
  case False
  then have "ok \<and> g' = g"
    using e i by (auto simp: init_module_def nth_registry_view pending_def eligible_def module_view_def split: option.splits if_splits)
  moreover have "attempted (registry_view g ! i) (registry_view g ! i)"
    using False by (auto simp: attempted_def pending_def split: option.split)
  ultimately show ?thesis using False by (intro exI [of _ "registry_view g ! i"]) simp
next
  case True
  then obtain m fn where m: "gw_modules g ! i = Some m" "mc_enabled (m_config m)" "\<not> ms_initialized (m_status m)" "mc_init_fn (m_config m) = Some fn"
    and el: "eligible (module_view m)"
    using i by (auto simp: nth_registry_view pending_def eligible_def module_view_def)
  obtain res g1 where c: "os_call S fn g = (res, g1)" by fastforce
  have v1: "registry_view g1 = registry_view g" using keep c by (simp add: calls_keep_registry_def) (metis snd_conv)
  then have i1: "i < length (gw_modules g1)" using i length_modules by metis
  obtain m1 where m1: "gw_modules g1 ! i = Some m1" "module_view m1 = module_view m"
    using v1 m(1) i i1 nth_registry_view [OF i] nth_registry_view [OF i1] by (cases "gw_modules g1 ! i") auto
  have vi: "registry_view g ! i = Some (module_view m)" using i m(1) by (simp add: nth_registry_view)
  let ?ok = "\<lambda>m. m\<lparr>m_status := (m_status m)\<lparr>ms_initialized := True, ms_last_error := 0\<rparr>\<rparr>"
  let ?bad = "\<lambda>m. m\<lparr>m_status := (m_status m)\<lparr>ms_retries := ms_retries (m_status m) + 1, ms_last_error := result_code res\<rparr>\<rparr>"
  have upd: "registry_view (module_update i f g1) = (registry_view g)[i := Some (module_view (f m1))]" for f
    using view_update [OF i1] v1 m1(1) by simp
  show ?thesis
  proof (cases "result_is_error res")
    case False
    let ?g2 = "module_update i ?ok g1"
    have g2: "i < length (gw_modules ?g2)" using i1 by (simp add: module_update_def)
    have g3: "i < length (gw_modules (snd (get_uptime S ?g2)))" using g2 length_modules [OF view_uptime] by metis
    have "ok" "registry_view g' = registry_view ?g2"
      using e m c False view_update_same [OF g3] view_uptime [of S ?g2]
      by (auto simp: init_module_def Let_def split_beta module_view_def split: if_splits)
    moreover have "module_view (?ok m1) = (module_view m)\<lparr>mv_initialized := True, mv_last_error := 0\<rparr>"
      using m1(2) by (simp add: module_view_def)
    ultimately show ?thesis
      using el m(3) upd [of ?ok] by (intro exI [of _ "Some (module_view (?ok m1))"])
        (simp add: vi attempted_def pending_def module_view_def)
  next
    case True
    let ?g2 = "module_update i ?bad g1"
    have "\<not> ok" "registry_view g' = registry_view ?g2"
      using e m c True keep by (auto simp: init_module_def Let_def split_beta calls_keep_registry_def split: option.splits)
    moreover have "module_view (?bad m1) = (module_view m)\<lparr>mv_retries := mv_retries (module_view m) + 1, mv_last_error := result_code res\<rparr>"
      using m1(2) by (simp add: module_view_def)
    moreover have "result_code res < 0" using True by (cases res) (simp_all add: result_is_error_def)
    ultimately show ?thesis
      using el m(3) upd [of ?bad] by (intro exI [of _ "Some (module_view (?bad m1))"])
        (auto simp: vi attempted_def module_view_def)
  qed
qed

lemma init_pass_view:
  assumes "calls_keep_registry S" and "distinct is" and "\<forall>i \<in> set is. i < length (gw_modules g)" and "init_pass S is g = (n, g')"
  shows "length (gw_modules g') = length (gw_modules g) \<and> n \<le> length is \<and>
    (\<forall>j < length (gw_modules g). if j \<in> set is then attempted (registry_view g ! j) (registry_view g' ! j) \<and>
         (n = length is \<longrightarrow> \<not> pending (registry_view g' ! j))
       else registry_view g' ! j = registry_view g ! j)"
  using assms(2-)
proof (induction "is" arbitrary: g n)
  case (Cons i "is")
  obtain ok g1 where e1: "init_module S i g = (ok, g1)" by fastforce
  obtain k where e2: "init_pass S is g1 = (k, g')" and n: "n = (if ok then 1 else 0) + k"
    using Cons.prems(3) e1 by (auto simp: Let_def split_beta) (metis prod.collapse)
  obtain b where v1: "registry_view g1 = (registry_view g)[i := b]" "attempted (registry_view g ! i) b" "ok \<longrightarrow> \<not> pending b"
    using init_module_view [OF assms(1) _ e1] Cons.prems(2) by auto
  then have l1: "length (gw_modules g1) = length (gw_modules g)" by (metis length_list_update length_registry_view)
  note IH = Cons.IH [OF _ _ e2, unfolded l1]
  show ?case
  proof (intro conjI allI impI)
    show "length (gw_modules g') = length (gw_modules g)" "n \<le> length (i # is)" using IH Cons.prems n by auto
    fix j assume j: "j < length (gw_modules g)"
    show "if j \<in> set (i # is) then attempted (registry_view g ! j) (registry_view g' ! j) \<and>
         (n = length (i # is) \<longrightarrow> \<not> pending (registry_view g' ! j))
       else registry_view g' ! j = registry_view g ! j"
      using IH Cons.prems(1,2) v1 n j by (cases "j = i") (auto split: if_splits)
  qed
qed simp

lemma init_rounds_view:
  assumes "calls_keep_registry S" and "init_rounds S left round g = g'"
  shows "length (gw_modules g') = length (gw_modules g) \<and> (\<exists>r \<le> left.
    (\<forall>j < length (gw_modules g). (attempted ^^ r) (registry_view g ! j) (registry_view g' ! j)) \<and>
    (r = left \<or> (\<forall>j < length (gw_modules g). \<not> pending (registry_view g' ! j))))"
  using assms(2)
proof (induction left arbitrary: round g)
  case (Suc left)
  define g0 where "g0 = (if round > 0 then g\<lparr>gw_world := os_sleep S MODULE_INIT_RETRY_INTERVAL_MS (gw_world g)\<rparr> else g)"
  have v0: "registry_view g0 = registry_view g" "gw_modules g0 = gw_modules g" by (simp_all add: g0_def registry_view_def)
  obtain n g1 where e1: "init_pass S [0..<length (gw_modules g0)] g0 = (n, g1)" by fastforce
  have e: "g' = (if n = length (gw_modules g1) then g1 else init_rounds S left (round + 1) g1)"
    using Suc.prems e1 unfolding init_rounds.simps Let_def g0_def [symmetric] by simp
  have p: "length (gw_modules g1) = length (gw_modules g)"
    "\<forall>j < length (gw_modules g). attempted (registry_view g ! j) (registry_view g1 ! j) \<and>
       (n = length (gw_modules g) \<longrightarrow> \<not> pending (registry_view g1 ! j))"
    using init_pass_view [OF assms(1) _ _ e1] by (simp_all add: v0)
  show ?case
  proof (cases "n = length (gw_modules g1)")
    case True
    then show ?thesis using e p by (intro conjI exI [of _ 1]) auto
  next
    case False
    then have "g' = init_rounds S left (round + 1) g1" using e by simp
    from Suc.IH [OF this [symmetric]] obtain r where r: "r \<le> left" "length (gw_modules g') = length (gw_modules g1)"
      "\<forall>j < length (gw_modules g1). (attempted ^^ r) (registry_view g1 ! j) (registry_view g' ! j)"
      "r = left \<or> (\<forall>j < length (gw_modules g1). \<not> pending (registry_view g' ! j))" by blast
    moreover have "(attempted ^^ Suc r) (registry_view g ! j) (registry_view g' ! j)" if "j < length (gw_modules g)" for j
      using p r(3) that by (intro relpowp_Suc_I2 [of attempted _ "registry_view g1 ! j"]) simp_all
    ultimately show ?thesis
      using p(1) by (intro conjI exI [of _ "Suc r"]) (simp_all del: relpowp.simps)
  qed
qed simp

lemma attempts_idle: "(attempted ^^ r) a b \<Longrightarrow> \<not> pending a \<Longrightarrow> b = a"
proof (induction r arbitrary: b)
  case (Suc r)
  then obtain c where "(attempted ^^ r) a c" "attempted c b" by auto
  moreover then have "c = a" using Suc.IH Suc.prems(2) by blast
  ultimately have "attempted a b" by simp
  then show ?case using Suc.prems(2) unfolding attempted_def pending_def by (auto split: option.splits)
qed simp

lemma attempts_eligible:
  assumes "(attempted ^^ r) (Some v) b" and "eligible v" and "\<not> mv_initialized v"
  shows "(\<exists>k < r. b = Some (v\<lparr>mv_initialized := True, mv_retries := mv_retries v + int k, mv_last_error := 0\<rparr>)) \<or>
    (\<exists>e. (r > 0 \<longrightarrow> e < 0) \<and> b = Some (v\<lparr>mv_retries := mv_retries v + int r, mv_last_error := e\<rparr>))"
  using assms(1)
proof (induction r arbitrary: b)
  case 0
  then show ?case by (auto intro!: exI [of _ "mv_last_error v"])
next
  case (Suc r)
  then obtain a where a: "(attempted ^^ r) (Some v) a" "attempted a b" by auto
  from Suc.IH [OF a(1)] show ?case
  proof (elim disjE exE conjE)
    fix k assume "k < r" "a = Some (v\<lparr>mv_initialized := True, mv_retries := mv_retries v + int k, mv_last_error := 0\<rparr>)"
    then show ?thesis using a(2) by (intro disjI1 exI [of _ k]) (simp add: attempted_def)
  next
    fix e assume "a = Some (v\<lparr>mv_retries := mv_retries v + int r, mv_last_error := e\<rparr>)"
    then show ?thesis using a(2) assms(2,3) by (auto simp: attempted_def eligible_def algebra_simps)
  qed
qed

lemma init_status_view:
  "registry_view (module_manager_init_status S g) = map (map_option (\<lambda>v. v\<lparr>mv_initialized := False\<rparr>)) (registry_view g)"
proof -
  have "gw_modules (snd (get_uptime S g)) = gw_modules g" by (simp add: get_uptime_def split_beta Let_def)
  then show ?thesis
    by (simp add: module_manager_init_status_def registry_view_def split_beta Let_def option.map_comp comp_def module_view_def)
qed

text \<open>After the start-up, in the view.\<close>

definition started :: "module_view option \<Rightarrow> module_view option \<Rightarrow> bool" where
  "started a b \<longleftrightarrow>
     (case a of
        None \<Rightarrow> b = None
      | Some v \<Rightarrow>
          if eligible v
          then (\<exists>k < MODULE_INIT_RETRY_COUNT. b = Some (v\<lparr>mv_initialized := True, mv_retries := mv_retries v + int k, mv_last_error := 0\<rparr>)) \<or>
               (\<exists>e < 0. b = Some (v\<lparr>mv_initialized := False, mv_retries := mv_retries v + int MODULE_INIT_RETRY_COUNT, mv_last_error := e\<rparr>))
          else b = Some (v\<lparr>mv_initialized := False\<rparr>))"

lemma init_view:
  assumes keep: "calls_keep_registry S" and e: "module_manager_init S g = (r, g')"
  shows "length (gw_modules g') = length (gw_modules g) \<and>
    (\<forall>j < length (gw_modules g). started (registry_view g ! j) (registry_view g' ! j)) \<and>
    r = (if list_ex required_failed (gw_modules g') then RESULT_ERROR else RESULT_SUCCESS)"
proof -
  define g1 where "g1 = snd (module_manager_register_events (module_manager_init_status S g))"
  have "gw_modules g1 = gw_modules (module_manager_init_status S g)"
    by (simp add: g1_def module_manager_register_events_def split_beta Let_def)
  then have v1: "registry_view g1 = map (map_option (\<lambda>v. v\<lparr>mv_initialized := False\<rparr>)) (registry_view g)"
    by (simp add: registry_view_def [of g1]) (simp add: registry_view_def [symmetric] init_status_view)
  then have l1: "length (gw_modules g1) = length (gw_modules g)" by (metis length_map length_registry_view)
  have g': "init_rounds S MODULE_INIT_RETRY_COUNT 0 g1 = g'" and r: "r = (if list_ex required_failed (gw_modules g') then RESULT_ERROR else RESULT_SUCCESS)"
    using e by (auto simp: module_manager_init_def g1_def Let_def split_beta)
  obtain n where n: "n \<le> 6" "length (gw_modules g') = length (gw_modules g)"
    "\<forall>j < length (gw_modules g). (attempted ^^ n) (registry_view g1 ! j) (registry_view g' ! j)"
    "n = 6 \<or> (\<forall>j < length (gw_modules g). \<not> pending (registry_view g' ! j))"
    using init_rounds_view [OF keep g'] l1 by auto
  have "started (registry_view g ! j) (registry_view g' ! j)" if j: "j < length (gw_modules g)" for j
  proof (cases "registry_view g ! j")
    case None
    then have "(attempted ^^ n) None (registry_view g' ! j)" using n(3) [rule_format, OF j] v1 j by simp
    then show ?thesis using None attempts_idle [of n None] by (auto simp: started_def pending_def)
  next
    case (Some v)
    let ?v = "v\<lparr>mv_initialized := False\<rparr>"
    have a: "(attempted ^^ n) (Some ?v) (registry_view g' ! j)" using n(3) [rule_format, OF j] j v1 Some by simp
    show ?thesis
    proof (cases "eligible v")
      case False
      then show ?thesis using attempts_idle [OF a] Some by (auto simp: started_def pending_def eligible_def)
    next
      case True
      then have el: "eligible ?v" by (simp add: eligible_def)
      have ini: "\<not> mv_initialized ?v" by simp
      from attempts_eligible [OF a el ini] show ?thesis
      proof (elim disjE exE conjE)
        fix k assume "k < n" "registry_view g' ! j = Some (?v\<lparr>mv_initialized := True, mv_retries := mv_retries ?v + int k, mv_last_error := 0\<rparr>)"
        then show ?thesis using n(1) Some True by (auto simp: started_def intro!: exI [of _ k])
      next
        fix e assume e: "n > 0 \<longrightarrow> e < 0" "registry_view g' ! j = Some (?v\<lparr>mv_retries := mv_retries ?v + int n, mv_last_error := e\<rparr>)"
        then have "pending (registry_view g' ! j)" using el by (simp add: pending_def eligible_def)
        then have "n = 6" using n(4) j by auto
        then show ?thesis using e Some True by (auto simp: started_def)
      qed
    qed
  qed
  then show ?thesis using n(2) r by blast
qed

lemma required_view:
  "list_ex required_failed (gw_modules g) \<longleftrightarrow>
     (\<exists>j < length (gw_modules g). \<exists>v. registry_view g ! j = Some v \<and> mv_required v \<and> \<not> mv_initialized v)"
proof -
  have "required_failed (gw_modules g ! j) \<longleftrightarrow> (\<exists>v. registry_view g ! j = Some v \<and> mv_required v \<and> \<not> mv_initialized v)"
    if "j < length (gw_modules g)" for j
    using that by (auto simp: nth_registry_view required_failed_def module_view_def split: option.split)
  then show ?thesis by (auto simp: list_ex_length)
qed

text \<open>C12: the start-up initialises what can be initialised and says when it failed. If the functions of the
  modules leave the registry's bookkeeping alone, then after \<open>module_manager_init\<close> every enabled
  module with an initialisation function either is initialised, after at most five failed attempts, each counted
  as a retry, with its last error cleared, or has failed all six attempts, each counted, and carries a negative
  error; no other module is initialised and its retries are as before; and the result is an error exactly
  when some required module is not initialised, be it only because it is disabled.\<close>

theorem module_manager_init_outcome:
  assumes "calls_keep_registry S" and "module_manager_init S g = (r, g')"
  shows "length (gw_modules g') = length (gw_modules g) \<and>
    (\<forall>j < length (gw_modules g). case gw_modules g ! j of
        None \<Rightarrow> gw_modules g' ! j = None
      | Some m \<Rightarrow> \<exists>m'. gw_modules g' ! j = Some m' \<and>
          (if mc_enabled (m_config m) \<and> mc_init_fn (m_config m) \<noteq> None
           then ms_initialized (m_status m') \<and> ms_last_error (m_status m') = 0 \<and>
                (\<exists>k \<le> 5. ms_retries (m_status m') = ms_retries (m_status m) + int k) \<or>
                \<not> ms_initialized (m_status m') \<and> ms_last_error (m_status m') < 0 \<and>
                ms_retries (m_status m') = ms_retries (m_status m) + 6
           else \<not> ms_initialized (m_status m') \<and> ms_retries (m_status m') = ms_retries (m_status m))) \<and>
    r = (if \<exists>m'. Some m' \<in> set (gw_modules g') \<and> mc_required (m_config m') \<and> \<not> ms_initialized (m_status m')
         then RESULT_ERROR else RESULT_SUCCESS)"
proof -
  note v = init_view [OF assms]
  have "case gw_modules g ! j of
        None \<Rightarrow> gw_modules g' ! j = None
      | Some m \<Rightarrow> \<exists>m'. gw_modules g' ! j = Some m' \<and>
          (if mc_enabled (m_config m) \<and> mc_init_fn (m_config m) \<noteq> None
           then ms_initialized (m_status m') \<and> ms_last_error (m_status m') = 0 \<and>
                (\<exists>k \<le> 5. ms_retries (m_status m') = ms_retries (m_status m) + int k) \<or>
                \<not> ms_initialized (m_status m') \<and> ms_last_error (m_status m') < 0 \<and>
                ms_retries (m_status m') = ms_retries (m_status m) + 6
           else \<not> ms_initialized (m_status m') \<and> ms_retries (m_status m') = ms_retries (m_status m))"
    if j: "j < length (gw_modules g)" for j
  proof -
    have "started (map_option module_view (gw_modules g ! j)) (map_option module_view (gw_modules g' ! j))"
      using v [THEN conjunct2, THEN conjunct1, rule_format, OF j] v j by (simp add: nth_registry_view)
    then show ?thesis
      by (cases "gw_modules g ! j"; cases "gw_modules g' ! j")
        (auto simp: started_def eligible_def module_view_def split: if_splits)
  qed
  moreover have "list_ex required_failed (gw_modules g') \<longleftrightarrow>
      (\<exists>m'. Some m' \<in> set (gw_modules g') \<and> mc_required (m_config m') \<and> \<not> ms_initialized (m_status m'))"
    by (auto simp: list_ex_iff required_failed_def split: option.splits)
  ultimately show ?thesis using v by simp
qed

text \<open>the gateway's own start-up. With the registry of \<open>module_config.c\<close>, \<open>module_manager_init\<close> succeeds
  exactly when the command, URC, SIM, network and SMS modules are initialised; the UART, BLE and system modules are
  never initialised, and the file transfer slot stays empty.\<close>

theorem gateway_start_up:
  assumes keep: "calls_keep_registry S" and table: "gw_modules g = g_modules sz" and e: "module_manager_init S g = (r, g')"
  shows "(r = RESULT_SUCCESS \<longleftrightarrow>
      (\<forall>mid \<in> {MODULE_ID_CMD, MODULE_ID_URC, MODULE_ID_SIM, MODULE_ID_NETWORK, MODULE_ID_SMS}. module_manager_is_initialized mid g')) \<and>
    (\<forall>mid \<in> {MODULE_ID_UART, MODULE_ID_BLE, MODULE_ID_SYSTEM}. \<not> module_manager_is_initialized mid g') \<and>
    module_manager_get_module MODULE_ID_FILE_TRANSFER g' = None"
proof -
  note v = init_view [OF keep e]
  have len: "length (gw_modules g) = 12" by (simp add: table g_modules_def)
  have st: "started (map_option module_view (gw_modules g ! j)) (registry_view g' ! j)" if "j < 12" for j
    using v [THEN conjunct2, THEN conjunct1, rule_format, of j] that len by (simp add: nth_registry_view)
  have get: "module_manager_is_initialized mid g' \<longleftrightarrow> (\<exists>v. registry_view g' ! module_id_code mid = Some v \<and> mv_initialized v)"
    if "module_id_code mid < 12" for mid
    using that v len by (cases mid) (auto simp: module_manager_is_initialized_def module_get_def nth_registry_view module_view_def split: option.split)
  have req: "(\<exists>v. registry_view g' ! j = Some v \<and> mv_required v \<and> \<not> mv_initialized v) \<longleftrightarrow>
      j \<in> {2, 3, 4, 5, 8} \<and> \<not> (\<exists>v. registry_view g' ! j = Some v \<and> mv_initialized v)" if "j < 12" for j
  proof -
    have "j = 0 \<or> j = 1 \<or> j = 2 \<or> j = 3 \<or> j = 4 \<or> j = 5 \<or> j = 6 \<or> j = 7 \<or> j = 8 \<or> j = 9 \<or> j = 10 \<or> j = 11" using that by arith
    then show ?thesis using st [OF that, unfolded table]
      by (elim disjE) (auto simp: g_modules_def module_table started_def eligible_def module_view_def)
  qed
  have off: "\<not> (\<exists>v. registry_view g' ! j = Some v \<and> mv_initialized v)" if "j = 1 \<or> j = 9 \<or> j = 10" for j
    using that st [of j, unfolded table] by (elim disjE) (auto simp: g_modules_def module_table started_def eligible_def module_view_def)
  have "list_ex required_failed (gw_modules g') \<longleftrightarrow>
      (\<exists>j < 12. j \<in> {2, 3, 4, 5, 8} \<and> \<not> (\<exists>v. registry_view g' ! j = Some v \<and> mv_initialized v))"
    unfolding required_view using v len req by (simp cong: conj_cong)
  also have "\<dots> \<longleftrightarrow> (\<exists>j \<in> {2, 3, 4, 5, 8}. \<not> (\<exists>v. registry_view g' ! j = Some v \<and> mv_initialized v))"
  proof -
    have "j < 12" if "j \<in> {2, 3, 4, 5, 8}" for j :: nat using that by auto
    then show ?thesis by blast
  qed
  finally have "r = RESULT_SUCCESS \<longleftrightarrow> (\<forall>j \<in> {2, 3, 4, 5, 8}. \<exists>v. registry_view g' ! j = Some v \<and> mv_initialized v)"
    using v by (cases "list_ex required_failed (gw_modules g')") auto
  also have "\<dots> \<longleftrightarrow> (\<forall>mid \<in> {MODULE_ID_CMD, MODULE_ID_URC, MODULE_ID_SIM, MODULE_ID_NETWORK, MODULE_ID_SMS}. module_manager_is_initialized mid g')"
    by (simp add: get)
  finally have 1: "r = RESULT_SUCCESS \<longleftrightarrow>
      (\<forall>mid \<in> {MODULE_ID_CMD, MODULE_ID_URC, MODULE_ID_SIM, MODULE_ID_NETWORK, MODULE_ID_SMS}. module_manager_is_initialized mid g')" .
  have 2: "\<forall>mid \<in> {MODULE_ID_UART, MODULE_ID_BLE, MODULE_ID_SYSTEM}. \<not> module_manager_is_initialized mid g'"
    using off [of 1] off [of 9] off [of 10] by (simp add: get)
  have "registry_view g' ! 11 = None" using st [of 11, unfolded table] by (simp add: g_modules_def started_def)
  then have 3: "module_manager_get_module MODULE_ID_FILE_TRANSFER g' = None"
    using v len by (simp add: module_manager_get_module_def module_get_def nth_registry_view)
  show ?thesis using 1 2 3 by blast
qed

subsection \<open>The task monitor\<close>

lemma u32_minus_sub: "b \<le> a \<Longrightarrow> a < 4294967296 \<Longrightarrow> u32_minus a b = a - b"
proof -
  assume "b \<le> a" "a < 4294967296"
  then have "u32_minus a b = (a - b + 4294967296) mod 4294967296" by (simp add: u32_minus_def u32_def)
  also have "\<dots> = a - b" using \<open>a < 4294967296\<close> by (simp only: mod_add_self2) simp
  finally show ?thesis .
qed

lemma u32_minus_wrap: "a < b \<Longrightarrow> b < 4294967296 \<Longrightarrow> u32_minus a b = 4294967296 + a - b"
  by (simp add: u32_minus_def u32_def)

lemma mod_same_epoch:
  fixes a b M :: nat
  assumes "a \<le> b" and "a div M = b div M"
  shows "b mod M = a mod M + (b - a)"
proof -
  have "a = b div M * M + a mod M" "b = b div M * M + b mod M" using assms(2) div_mult_mod_eq [of a M] by simp_all
  then show ?thesis using assms(1) by linarith
qed

lemma mod_next_epoch:
  fixes a b M n :: nat
  assumes "a div M < b div M" and "b - a < n" and "0 < M"
  shows "M < a mod M + n" and "b mod M < n"
proof -
  have e: "a = a div M * M + a mod M" "b = b div M * M + b mod M" by simp_all
  have m: "a mod M < M" using assms(3) by simp
  have "(a div M + 1) * M \<le> b div M * M" using assms(1) by (intro mult_le_mono1) simp
  then have "a div M * M + M \<le> b div M * M" by simp
  then show "M < a mod M + n" "b mod M < n" using e m assms(2) by linarith+
qed

text \<open>The clock in seconds, of a counter of milliseconds that wraps at \<open>2 ^ 32\<close>.\<close>

definition clock_seconds :: "nat \<Rightarrow> nat" where
  "clock_seconds ms = utils_get_uptime_seconds (ms mod 2 ^ 32)"

lemma clock_seconds_less: "clock_seconds ms \<le> 4294967"
proof -
  have "ms mod 4294967296 \<le> 4294967295" by (simp add: less_Suc_eq_le [symmetric])
  then have "ms mod 4294967296 div 1000 \<le> 4294967295 div 1000" by (rule div_le_mono)
  then show ?thesis unfolding clock_seconds_def utils_get_uptime_seconds_def by simp
qed

lemma seconds_apart:
  fixes x d :: nat
  shows "d < 60000 \<Longrightarrow> (x + d) div 1000 - x div 1000 \<le> 60" and "61000 \<le> d \<Longrightarrow> 61 \<le> (x + d) div 1000 - x div 1000"
  by linarith+

lemma clock_same_epoch:
  assumes "a \<le> b" and "a div 2 ^ 32 = b div 2 ^ 32"
  shows "u32_minus (clock_seconds b) (clock_seconds a) = clock_seconds b - clock_seconds a"
    and "b - a < 60000 \<Longrightarrow> clock_seconds b - clock_seconds a \<le> 60" and "61000 \<le> b - a \<Longrightarrow> 61 \<le> clock_seconds b - clock_seconds a"
proof -
  note d = mod_same_epoch [OF assms]
  have "clock_seconds a \<le> clock_seconds b" unfolding clock_seconds_def utils_get_uptime_seconds_def d by (intro div_le_mono) simp
  then show "u32_minus (clock_seconds b) (clock_seconds a) = clock_seconds b - clock_seconds a"
    using clock_seconds_less [of b] by (intro u32_minus_sub) simp_all
  show "b - a < 60000 \<Longrightarrow> clock_seconds b - clock_seconds a \<le> 60" "61000 \<le> b - a \<Longrightarrow> 61 \<le> clock_seconds b - clock_seconds a"
    unfolding clock_seconds_def utils_get_uptime_seconds_def d by (rule seconds_apart; assumption)+
qed

lemma seconds_next:
  fixes x y :: nat
  assumes "4294967296 < x + 60000" and "y < 60000"
  shows "4294907 \<le> x div 1000" and "y div 1000 \<le> 60"
  using assms by linarith+

lemma clock_next_epoch:
  assumes "a div 2 ^ 32 < b div (2 ^ 32 :: nat)" and "b - a < 60000"
  shows "60 < u32_minus (clock_seconds b) (clock_seconds a)"
proof -
  have "4294967296 < a mod 2 ^ 32 + 60000" "b mod 2 ^ 32 < 60000" using mod_next_epoch [OF assms] by simp_all
  from seconds_next [OF this] have "4294907 \<le> clock_seconds a" "clock_seconds b \<le> 60"
    unfolding clock_seconds_def utils_get_uptime_seconds_def .
  then show ?thesis using clock_seconds_less [of a] u32_minus_wrap [of "clock_seconds b" "clock_seconds a"] by linarith
qed

lemma stalled_monitored: "task_stalled now timeout_sec m \<Longrightarrow> monitored m \<and> (\<exists>x. m = Some x)"
  by (cases m) (simp_all add: task_stalled_def monitored_def)

lemma monitor_iff:
  assumes "os_ticks S (gw_world g) = (b mod 2 ^ 32, w)"
  shows "fst (module_manager_loop_iteration S g) \<longleftrightarrow> (\<exists>m \<in> set (gw_modules g). task_stalled (clock_seconds b) 60 m)"
  using assms by (simp add: module_manager_loop_iteration_def module_manager_monitor_tasks_def get_uptime_def Let_def clock_seconds_def list_ex_iff)

text \<open>C24: the task monitor. Let every monitored task have written its uptime at the time \<open>hb\<close> (milliseconds since
  power-up, not wrapped) when the clock shows \<open>b\<close>. While the 32-bit counter has not wrapped since, a task that
  is silent for 61 seconds is reported. When all tasks are fresh (less than 60 seconds old), the monitor is
  silent before a wrap-around and reports a stall exactly when the counter has wrapped since some task's
  last sign of life: after 49.7 days a healthy gateway is taken for stalled, which the main loop answers
  with a soft reset.\<close>

theorem task_monitor_verdict:
  assumes clock: "os_ticks S (gw_world g) = (b mod 2 ^ 32, w)"
    and hb: "\<forall>m. Some m \<in> set (gw_modules g) \<and> monitored (Some m) \<longrightarrow>
      hb m \<le> b \<and> ms_task_uptime_sec (m_status m) = utils_get_uptime_seconds (hb m mod 2 ^ 32)"
  shows "((\<exists>m. Some m \<in> set (gw_modules g) \<and> monitored (Some m) \<and> hb m div 2 ^ 32 = b div 2 ^ 32 \<and> 61000 \<le> b - hb m) \<longrightarrow>
      fst (module_manager_loop_iteration S g)) \<and>
    ((\<forall>m. Some m \<in> set (gw_modules g) \<and> monitored (Some m) \<longrightarrow> b - hb m < 60000) \<longrightarrow>
      (fst (module_manager_loop_iteration S g) \<longleftrightarrow>
       (\<exists>m. Some m \<in> set (gw_modules g) \<and> monitored (Some m) \<and> hb m div 2 ^ 32 < b div 2 ^ 32)))"
proof (intro conjI impI)
  have st: "task_stalled (clock_seconds b) 60 (Some m) \<longleftrightarrow> 60 < u32_minus (clock_seconds b) (clock_seconds (hb m))"
    if "Some m \<in> set (gw_modules g)" "monitored (Some m)" for m
    using hb that by (simp add: task_stalled_def clock_seconds_def)
  have mon: "fst (module_manager_loop_iteration S g) \<longleftrightarrow>
      (\<exists>m. Some m \<in> set (gw_modules g) \<and> monitored (Some m) \<and> 60 < u32_minus (clock_seconds b) (clock_seconds (hb m)))"
    using st stalled_monitored unfolding monitor_iff [OF clock] by blast
  {
    assume "\<exists>m. Some m \<in> set (gw_modules g) \<and> monitored (Some m) \<and> hb m div 2 ^ 32 = b div 2 ^ 32 \<and> 61000 \<le> b - hb m"
    then obtain m where m: "Some m \<in> set (gw_modules g)" "monitored (Some m)" "hb m div 2 ^ 32 = b div 2 ^ 32" "61000 \<le> b - hb m" by blast
    then have "60 < u32_minus (clock_seconds b) (clock_seconds (hb m))"
      using clock_same_epoch(1,3) [of "hb m" b] hb by simp
    then show "fst (module_manager_loop_iteration S g)" using m mon by blast
  next
    assume fresh: "\<forall>m. Some m \<in> set (gw_modules g) \<and> monitored (Some m) \<longrightarrow> b - hb m < 60000"
    have "60 < u32_minus (clock_seconds b) (clock_seconds (hb m)) \<longleftrightarrow> hb m div 2 ^ 32 < b div 2 ^ 32"
      if m: "Some m \<in> set (gw_modules g)" "monitored (Some m)" for m
    proof (cases "hb m div 2 ^ 32 = b div 2 ^ 32")
      case True
      then show ?thesis using clock_same_epoch(1,2) [of "hb m" b] hb fresh m by (simp add: not_less)
    next
      case False
      then have "hb m div 2 ^ 32 < b div 2 ^ 32" using hb m div_le_mono [of "hb m" b "2 ^ 32"] by simp
      then show ?thesis using clock_next_epoch fresh m by simp
    qed
    then show "fst (module_manager_loop_iteration S g) \<longleftrightarrow>
        (\<exists>m. Some m \<in> set (gw_modules g) \<and> monitored (Some m) \<and> hb m div 2 ^ 32 < b div 2 ^ 32)"
      using mon by blast
  }
qed

subsection \<open>Connection flags\<close>

lemma register_new_listeners:
  assumes "em_inv em" and "em_initialized em" and "distinct (map fst evs)" and "\<forall>(t, fn) \<in> set evs. t < EVENT_COUNT \<and> Some fn \<notin> ce_callback ` set (em_listeners em t)"
    and "register_loop evs em = (RESULT_SUCCESS, em')"
  shows "em_inv em' \<and> em_initialized em' \<and> (\<forall>t < EVENT_COUNT. em_listeners em' t = em_listeners em t @
      (case map_of evs t of None \<Rightarrow> [] | Some fn \<Rightarrow>
         [\<lparr>ce_callback = Some fn, ce_user_data = 0, ce_module_name = Some ''Module Manager'', ce_active = True\<rparr>]))"
  using assms
proof (induction evs arbitrary: em)
  case (Cons x evs)
  obtain t fn where x: "x = (t, fn)" by fastforce
  let ?nm = "''Module Manager''"
  have t: "t < EVENT_COUNT" and new: "Some fn \<notin> ce_callback ` set (em_listeners em t)" using Cons.prems(4) x by auto
  note sp = register_spec [OF Cons.prems(1) t Cons.prems(2), of ?nm fn 0]
  obtain r em1 where e1: "event_manager_register t (Some fn) 0 (Some ?nm) em = (r, em1)" by fastforce
  have "r = RESULT_SUCCESS" "length (em_listeners em t) \<noteq> MAX_CALLBACKS_PER_EVENT"
    using sp(1) [unfolded e1 if_not_P [OF new] snd_conv] Cons.prems(5) e1 x by (auto split: if_splits)
  then have rest: "register_loop evs em1 = (RESULT_SUCCESS, em')"
    and l1: "em_listeners em1 t' = (if t' = t then em_listeners em t @ [\<lparr>ce_callback = Some fn, ce_user_data = 0,
        ce_module_name = Some ?nm, ce_active = True\<rparr>] else em_listeners em t')" for t'
    using Cons.prems(5) e1 x sp(2) [OF _ new] by auto
  have i1: "em_inv em1" "em_initialized em1"
    using register_inv [OF Cons.prems(1), of t "Some fn" 0 "Some ?nm"] e1 Cons.prems(2)
    by (auto simp: event_manager_register_def Let_def split: if_splits option.splits)
  have "\<forall>(t, fn) \<in> set evs. t < EVENT_COUNT \<and> Some fn \<notin> ce_callback ` set (em_listeners em1 t)"
    using Cons.prems(3,4) x l1 by (force simp: image_iff)
  note IH = Cons.IH [OF i1 _ this rest]
  have "map_of evs t = None" using Cons.prems(3) x by (simp add: map_of_eq_None_iff)
  then show ?case using IH Cons.prems(3) x l1 by auto
qed simp

lemma register_loop_succeeds:
  assumes "em_inv em" and "em_initialized em" and "distinct (map fst evs)" and "\<forall>(t, fn) \<in> set evs. t < EVENT_COUNT \<and> em_listeners em t = []"
  shows "fst (register_loop evs em) = RESULT_SUCCESS"
  using assms
proof (induction evs arbitrary: em)
  case (Cons x evs)
  obtain t fn where x: "x = (t, fn)" by fastforce
  have t: "t < EVENT_COUNT" "em_listeners em t = []" using Cons.prems(4) x by auto
  let ?r = "event_manager_register t (Some fn) 0 (Some ''Module Manager'') em"
  note sp = register_spec [OF Cons.prems(1) t(1) Cons.prems(2), of "''Module Manager''" fn 0]
  have r: "?r = (RESULT_SUCCESS, snd ?r)" using sp(1) t(2) by (simp add: MAX_CALLBACKS_PER_EVENT_def)
  have "em_inv (snd ?r)" "em_initialized (snd ?r)"
    using register_inv [OF Cons.prems(1)] Cons.prems(2) by (auto simp: event_manager_register_def Let_def split: option.splits)
  moreover have "\<forall>(t', fn) \<in> set evs. t' < EVENT_COUNT \<and> em_listeners (snd ?r) t' = []"
    using Cons.prems(3,4) x sp(2) t(2) by (force simp: MAX_CALLBACKS_PER_EVENT_def)
  ultimately have "fst (register_loop evs (snd ?r)) = RESULT_SUCCESS" using Cons.IH Cons.prems(3) by simp
  then show ?case unfolding x register_loop.simps by (subst r) simp
qed simp

text \<open>A call through a listener's handle: the module manager's own callbacks, or another one (\<open>other\<close>).\<close>

definition connection_callback :: "nat \<Rightarrow> event_data \<Rightarrow> ('u, 'w) gateway \<Rightarrow> ('u, 'w) gateway" where
  "connection_callback cb ev =
     (if cb = on_network_event_fn then on_network_event (Some ev)
      else if cb = on_gps_event_fn then on_gps_event (Some ev)
      else if cb = on_tcp_event_fn then on_tcp_event (Some ev)
      else on_sms_event (Some ev))"

definition call_listener ::
    "(nat \<Rightarrow> event_data \<Rightarrow> nat \<Rightarrow> event_manager \<times> ('u, 'w) gateway \<Rightarrow> event_manager \<times> ('u, 'w) gateway) \<Rightarrow>
     nat \<Rightarrow> event_data \<Rightarrow> nat \<Rightarrow> event_manager \<times> ('u, 'w) gateway \<Rightarrow> event_manager \<times> ('u, 'w) gateway" where
  "call_listener other cb ev ud s =
     (if cb \<in> snd ` set connection_table then (fst s, connection_callback cb ev (snd s)) else other cb ev ud s)"

text \<open>The module whose flag an event sets, and the flags of a gateway.\<close>

definition flag_owner :: "nat \<Rightarrow> module_id" where
  "flag_owner t = (if t \<le> 1 then MODULE_ID_NETWORK else if t \<le> 5 then MODULE_ID_GPS else if t \<le> 8 then MODULE_ID_TCP else MODULE_ID_SMS)"

definition flags :: "('u, 'w) gateway \<Rightarrow> module_id \<Rightarrow> bool option" where
  "flags g mid = map_option (\<lambda>m. ms_connected (m_status m)) (module_get mid g)"

lemma module_get_update:
  "module_get mid (module_update (module_id_code mid') f g) =
     (if mid = mid' then map_option f (module_get mid g) else module_get mid g)"
proof (cases "mid = mid'")
  case True
  then show ?thesis by (simp add: module_get_def module_update_def)
next
  case False
  then have "module_id_code mid \<noteq> module_id_code mid'" by (cases mid; cases mid') simp_all
  then show ?thesis using False by (simp add: module_get_def module_update_def)
qed

lemma flags_set: "flags (module_set_connected_internal mid c g) mid' = (if mid' = mid then map_option (\<lambda>_. c) (flags g mid) else flags g mid')"
  by (auto simp: module_set_connected_internal_def flags_def module_get_update option.map_comp comp_def split: option.split)

lemma fold_one_listener:
  assumes "\<forall>e \<in> set es. \<forall>w. F (step e w) = F w"
  shows "F (fold step (es @ [e]) w) = F (step e (fold step es w)) \<and> F (fold step es w) = F w"
  using assms by (induction es arbitrary: w) simp_all

lemma own_callback:
  "t \<in> fst ` set connection_table \<Longrightarrow> map_of connection_table t = Some fn \<Longrightarrow>
     connection_callback fn \<lparr>ed_type = t, ed_source_module = src, ed_data = data, ed_data_size = sz\<rparr> g =
     module_set_connected_internal (flag_owner t)
       (t \<in> {EVENT_NETWORK_CONNECTED, EVENT_GPS_CONNECTED, EVENT_TCP_CONNECTED, EVENT_SMS_CONNECTED}) g"
  by (auto simp: connection_table_def connection_events connection_callback_def on_network_event_fn_def on_gps_event_fn_def
      on_tcp_event_fn_def on_sms_event_fn_def on_network_event_def on_gps_event_def on_tcp_event_def on_sms_event_def module_on_connection_event_def
      flag_owner_def)

text \<open>the connection flags follow the events. Once \<open>module_manager_register_events\<close> has succeeded on an
  initialised event manager, broadcasting one of the eight connection events sets the connected flag of the
  module that owns the event, to true for a connected event and to false for a disconnected one, and changes no
  other flag, whatever other listeners run, if they leave the registries and the flags alone.\<close>

theorem connection_flags_follow_events:
  assumes inv: "em_inv (gw_events g)" and on: "em_initialized (gw_events g)"
    and fresh: "\<forall>t < EVENT_COUNT. \<forall>fn \<in> snd ` set connection_table. Some fn \<notin> ce_callback ` set (em_listeners (gw_events g) t)"
    and reg: "module_manager_register_events g = (RESULT_SUCCESS, g1)"
    and t: "t \<in> fst ` set connection_table" and src: "src \<noteq> []"
    and quiet: "\<forall>cb ev ud s. fst (other cb ev ud s) = fst s \<and> flags (snd (other cb ev ud s)) = flags (snd s)"
  shows "\<exists>g'. event_manager_broadcast (call_listener other) t (Some src) data sz (gw_events g1, g1) = (RESULT_SUCCESS, gw_events g1, g') \<and>
    (\<forall>mid. flags g' mid =
       (if mid = flag_owner t
        then map_option (\<lambda>_. t \<in> {EVENT_NETWORK_CONNECTED, EVENT_GPS_CONNECTED, EVENT_TCP_CONNECTED, EVENT_SMS_CONNECTED}) (flags g mid)
        else flags g mid))"
proof -
  let ?em = "gw_events g1" and ?ev = "\<lparr>ed_type = t, ed_source_module = src, ed_data = data, ed_data_size = sz\<rparr>"
  obtain r em where l: "register_loop connection_table (gw_events g) = (r, em)" by fastforce
  have r: "r = RESULT_SUCCESS" "?em = em" "gw_modules g1 = gw_modules g" using reg l by (auto simp: module_manager_register_events_def)
  then have fl: "flags g1 = flags g" by (simp add: flags_def module_get_def fun_eq_iff)
  have tc: "t < EVENT_COUNT" using t by (auto simp: connection_table_def connection_events EVENT_COUNT_def)
  have d: "distinct (map fst connection_table)" "\<forall>(t, fn) \<in> set connection_table. t < EVENT_COUNT"
    by (simp_all add: connection_table_def connection_events EVENT_COUNT_def)
  obtain fn where fn: "map_of connection_table t = Some fn" "fn \<in> snd ` set connection_table"
    using t by (auto simp: connection_table_def connection_events)
  let ?new = "\<lparr>ce_callback = Some fn, ce_user_data = 0, ce_module_name = Some ''Module Manager'', ce_active = True\<rparr>"
  have ls: "em_inv ?em" "em_initialized ?em" "em_listeners ?em t = em_listeners (gw_events g) t @ [?new]"
  proof -
    have "\<forall>(t, fn) \<in> set connection_table. t < EVENT_COUNT \<and> Some fn \<notin> ce_callback ` set (em_listeners (gw_events g) t)"
      using fresh d(2) by force
    note nl = register_new_listeners [OF inv on d(1) this l [unfolded r(1)]]
    show "em_inv ?em" "em_initialized ?em" "em_listeners ?em t = em_listeners (gw_events g) t @ [?new]"
      using nl tc fn(1) r(2) by auto
  qed
  let ?es = "em_listeners (gw_events g) t" and ?step = "\<lambda>e w. snd (call_listener other (the (ce_callback e)) ?ev (ce_user_data e) (?em, w))"
  have quiet': "fst (call_listener other cb ev ud s) = fst s" for cb ev ud s
    using quiet [rule_format, of cb ev ud s] by (simp add: call_listener_def)
  have "event_manager_broadcast (call_listener other) t (Some src) data sz (?em, g1) = (RESULT_SUCCESS, ?em, fold ?step (?es @ [?new]) g1)"
    using broadcast_quiet [OF ls(1) tc ls(2) src, of "call_listener other" data sz g1] quiet' by (simp add: ls(3))
  moreover have "flags (?step e w) = flags w" if e: "e \<in> set ?es" for e w
  proof -
    obtain cb where "ce_callback e = Some cb"
      using em_inv_registry [OF inv tc] e by (auto simp: wf_registry_def em_listeners_def list_all_iff entry_ok_def)
    then have "the (ce_callback e) \<notin> snd ` set connection_table" using fresh tc e by (metis image_eqI option.sel)
    then show ?thesis using quiet by (simp add: call_listener_def)
  qed
  then have "flags (fold ?step (?es @ [?new]) g1) = flags (?step ?new (fold ?step ?es g1)) \<and> flags (fold ?step ?es g1) = flags g1"
    by (intro fold_one_listener) blast
  moreover have "?step ?new w = module_set_connected_internal (flag_owner t) (t \<in> {EVENT_NETWORK_CONNECTED, EVENT_GPS_CONNECTED, EVENT_TCP_CONNECTED, EVENT_SMS_CONNECTED}) w" for w
    using own_callback [OF t fn(1)] fn(2) by (simp add: call_listener_def)
  ultimately show ?thesis using fl by (auto simp: flags_set intro!: exI)
qed

subsection \<open>Evaluation\<close>

text \<open>A gateway whose SIM module fails twice; the world counts its attempts.\<close>

definition flaky_os :: "(unit, ram_world) os" where
  "flaky_os = \<lparr>os_flash = ram_flash, os_msg_abi = msg_abi,
     os_urc_abi = \<lparr>e_bytes = (\<lambda>_. []), e_of_bytes = (\<lambda>_. ()), e_message = (\<lambda>_. sample_msg), e_of_message = (\<lambda>_. ())\<rparr>,
     os_ticks = (\<lambda>w. (5, w)), os_sleep = (\<lambda>n w. w),
     os_call = (\<lambda>fn g. if fn = ''weware_sim_init'' \<and> rw_next (gw_world g) < 2
       then (RESULT_ERROR, g\<lparr>gw_world := (gw_world g)\<lparr>rw_next := rw_next (gw_world g) + 1\<rparr>\<rparr>) else (RESULT_SUCCESS, g))\<rparr>"

definition plain_sizes :: struct_sizes where
  "plain_sizes = \<lparr>sz_module_message = 348, sz_gps_urc_queued = 256, sz_sms_urc_queued = 256, sz_config = (\<lambda>_. 64)\<rparr>"

definition plain_gateway :: "(unit, ram_world) gateway" where
  "plain_gateway = \<lparr>gw_modules = g_modules plain_sizes, gw_events = snd (event_manager_init em_boot),
     gw_pre_boot = pre_boot_boot, gw_queues = replicate 16 None, gw_world = empty_ram\<rparr>"

lemma flaky_keeps: "calls_keep_registry flaky_os"
  by (simp add: calls_keep_registry_def flaky_os_def registry_view_def)

lemma plain_modules: "gw_modules plain_gateway = g_modules plain_sizes"
  by (simp add: plain_gateway_def)

text \<open>The SIM module is tried, the BLE module is not.\<close>

theorem module_manager_init_outcome_witness:
  "let g' = snd (module_manager_init flaky_os plain_gateway) in
     length (gw_modules g') = 12 \<and>
     (\<exists>m. gw_modules g' ! 4 = Some m \<and> (ms_initialized (m_status m) \<and> ms_retries (m_status m) \<le> 5 \<or> ms_retries (m_status m) = 6)) \<and>
     (\<exists>m. gw_modules g' ! 9 = Some m \<and> \<not> ms_initialized (m_status m) \<and> ms_retries (m_status m) = 0)"
proof -
  note t = module_manager_init_outcome [OF flaky_keeps prod.collapse [symmetric], of plain_gateway, unfolded plain_modules]
  have l: "length (g_modules plain_sizes) = 12" by (simp add: g_modules_def)
  from t [THEN conjunct2, THEN conjunct1, rule_format, of 4] t [THEN conjunct2, THEN conjunct1, rule_format, of 9]
  show ?thesis using t l by (auto simp: g_modules_def g_module_sim_def g_module_ble_def status_zero_def)
qed

theorem gateway_start_up_witness:
  "\<not> module_manager_is_initialized MODULE_ID_UART (snd (module_manager_init flaky_os plain_gateway)) \<and>
   module_manager_get_module MODULE_ID_FILE_TRANSFER (snd (module_manager_init flaky_os plain_gateway)) = None"
  using gateway_start_up [OF flaky_keeps plain_modules prod.collapse [symmetric]] by blast

text \<open>A task that last reported 5 ms before the counter wrapped, 10 ms ago.\<close>

definition wrapped_gateway :: "(unit, ram_world) gateway" where
  "wrapped_gateway = plain_gateway\<lparr>gw_modules :=
     [Some ((g_module_sim plain_sizes)\<lparr>m_status := status_zero\<lparr>ms_initialized := True, ms_task_uptime_sec := 4294967\<rparr>\<rparr>)]\<rparr>"

theorem task_monitor_verdict_witness: "fst (module_manager_loop_iteration flaky_os wrapped_gateway)"
  using task_monitor_verdict [of flaky_os wrapped_gateway 4294967301 empty_ram "\<lambda>m. 4294967291"]
  by (simp add: flaky_os_def wrapped_gateway_def plain_gateway_def monitored_def g_module_sim_def utils_get_uptime_seconds_def)

text \<open>Losing the TCP connection, with another listener that does nothing.\<close>

definition registered_gateway :: "(unit, ram_world) gateway" where
  "registered_gateway = snd (module_manager_register_events plain_gateway)"

theorem connection_flags_follow_events_witness:
  "fst (event_manager_broadcast (call_listener (\<lambda>cb ev ud s. s)) EVENT_TCP_CONNECTED (Some ''TCP'') None 0
     (gw_events registered_gateway, registered_gateway)) = RESULT_SUCCESS"
proof -
  have e: "em_inv (gw_events plain_gateway)" "em_initialized (gw_events plain_gateway)"
    using init_inv [OF em_inv_boot] by (simp_all add: plain_gateway_def event_manager_init_def em_boot_def)
  have f: "\<forall>t < EVENT_COUNT. \<forall>fn \<in> snd ` set connection_table. Some fn \<notin> ce_callback ` set (em_listeners (gw_events plain_gateway) t)"
    by (simp add: plain_gateway_def event_manager_init_def em_boot_def em_listeners_def listeners_def registry_clear_def)
  have l: "\<forall>t < EVENT_COUNT. em_listeners (gw_events plain_gateway) t = []"
    by (simp add: plain_gateway_def event_manager_init_def em_boot_def em_listeners_def listeners_def registry_clear_def)
  have "fst (register_loop connection_table (gw_events plain_gateway)) = RESULT_SUCCESS"
    by (rule register_loop_succeeds [OF e]) (use l in \<open>simp_all add: connection_table_def connection_events EVENT_COUNT_def\<close>)
  then have r: "fst (module_manager_register_events plain_gateway) = RESULT_SUCCESS"
    by (simp add: module_manager_register_events_def split_beta Let_def)
  have t: "EVENT_TCP_CONNECTED \<in> fst ` set connection_table" by (simp add: connection_table_def)
  show ?thesis
    using connection_flags_follow_events [OF e f _ t, of registered_gateway "''TCP''" "\<lambda>cb ev ud s. s" None 0] r
    by (auto simp: registered_gateway_def prod_eq_iff)
qed

end
