(* ===== verification/Device_Utils.thy ===== *)
theory Device_Utils
  imports Utils
begin

text \<open>
  \<open>system/device_utils.c\<close>: the cache of the IMEI and of the firmware version of the STM, and the table of the
  BLE peripherals. \<open>wm_SdkResult\<close> has the codes of \<open>Result\<close>, so it is \<open>result\<close> here. A cached string is
  its text; the buffer behind it is one character larger than the longest text.
\<close>

subsection \<open>State\<close>

abbreviation (input) DEVICE_UTILS_IMEI_LENGTH :: nat where "DEVICE_UTILS_IMEI_LENGTH \<equiv> 15"
abbreviation (input) DEVICE_UTILS_IMEI_BUFFER_SIZE :: nat where "DEVICE_UTILS_IMEI_BUFFER_SIZE \<equiv> 16"
abbreviation (input) DEVICE_UTILS_ST_FW_VERSION_BUFFER_SIZE :: nat where "DEVICE_UTILS_ST_FW_VERSION_BUFFER_SIZE \<equiv> 32"
abbreviation (input) PERI_DEVICE_MAX :: nat where "PERI_DEVICE_MAX \<equiv> 4"
abbreviation (input) IMEI_RETRY_DELAY_MS :: nat where "IMEI_RETRY_DELAY_MS \<equiv> 200"
abbreviation (input) IMEI_MAX_RETRIES :: nat where "IMEI_MAX_RETRIES \<equiv> 20"

record peri_device_info =
  pd_device_id :: nat
  pd_is_ready :: bool
  pd_version_valid :: bool
  pd_fw_version :: nat
  pd_hw_version :: nat

record device_info =
  dv_global_imei :: string
  dv_imei_initialized :: bool
  dv_st_firmware_version :: string
  dv_st_fw_version_initialized :: bool
  dv_peri_devices :: "peri_device_info list option"

text \<open>The SDK calls: the IMEI (the text left in the buffer, of at most 15 characters) and the scheduler.\<close>

record 'w device_sdk =
  dk_get_imei :: "'w \<Rightarrow> result \<times> string \<times> 'w"
  dk_sleep :: "nat \<Rightarrow> 'w \<Rightarrow> 'w"

subsection \<open>The IMEI\<close>

definition du_strncpy_safe :: "string option \<Rightarrow> nat \<Rightarrow> string" where
  "du_strncpy_safe src dst_size = (case src of None \<Rightarrow> [] | Some s \<Rightarrow> take (dst_size - 1) s)"

definition imei_reset :: "device_info \<Rightarrow> device_info" where
  "imei_reset d = d\<lparr>dv_global_imei := [], dv_imei_initialized := False\<rparr>"

definition imei_store :: "string option \<Rightarrow> device_info \<Rightarrow> device_info" where
  "imei_store imei d =
     d\<lparr>dv_global_imei := du_strncpy_safe imei DEVICE_UTILS_IMEI_BUFFER_SIZE, dv_imei_initialized := True\<rparr>"

text \<open>The loop of \<open>device_utils_init\<close>, with the attempts that are left.\<close>

fun imei_attempts :: "'w device_sdk \<Rightarrow> nat \<Rightarrow> device_info \<Rightarrow> 'w \<Rightarrow> result \<times> device_info \<times> 'w" where
  "imei_attempts K 0 d w = (RESULT_ERROR, d, w)"
| "imei_attempts K (Suc left) d w =
     (let (r, imei_string, w) = dk_get_imei K w in
      if r = RESULT_NOT_SUPPORTED then (RESULT_NOT_SUPPORTED, imei_reset d, w)
      else if r = RESULT_SUCCESS \<and> length imei_string \<ge> DEVICE_UTILS_IMEI_LENGTH
      then (RESULT_SUCCESS, imei_store (Some ''860056081830565'') d, w)
      else imei_attempts K left d (if left > 0 then dk_sleep K IMEI_RETRY_DELAY_MS w else w))"

definition device_utils_init :: "'w device_sdk \<Rightarrow> device_info \<Rightarrow> 'w \<Rightarrow> result \<times> device_info \<times> 'w" where
  "device_utils_init K d w =
     (if dv_imei_initialized d then (RESULT_SUCCESS, d, w)
      else imei_attempts K IMEI_MAX_RETRIES d (dk_sleep K IMEI_RETRY_DELAY_MS w))"

text \<open>\<open>None\<close> is the result 0.\<close>

definition device_utils_get_imei :: "bool \<Rightarrow> device_info \<Rightarrow> string option" where
  "device_utils_get_imei buffer_ok d =
     (if \<not> buffer_ok \<or> \<not> dv_imei_initialized d then None
      else Some (take DEVICE_UTILS_IMEI_LENGTH (dv_global_imei d)))"

definition device_utils_set_imei :: "string option \<Rightarrow> device_info \<Rightarrow> result \<times> device_info" where
  "device_utils_set_imei imei d =
     (case imei of
        None \<Rightarrow> (RESULT_INVALID_PARAM, d)
      | Some s \<Rightarrow>
          if length s < DEVICE_UTILS_IMEI_LENGTH \<or> length s \<ge> DEVICE_UTILS_IMEI_BUFFER_SIZE then (RESULT_INVALID_PARAM, d)
          else (RESULT_SUCCESS, imei_store imei d))"

definition device_utils_is_imei_initialized :: "device_info \<Rightarrow> bool" where
  "device_utils_is_imei_initialized d = dv_imei_initialized d"

definition device_utils_refresh_imei :: "'w device_sdk \<Rightarrow> device_info \<Rightarrow> 'w \<Rightarrow> result \<times> device_info \<times> 'w" where
  "device_utils_refresh_imei K d w = device_utils_init K (imei_reset d) w"

definition device_utils_deinit :: "device_info \<Rightarrow> result \<times> device_info" where
  "device_utils_deinit d =
     (RESULT_SUCCESS, (imei_reset d)\<lparr>dv_st_firmware_version := [], dv_st_fw_version_initialized := False\<rparr>)"

subsection \<open>The firmware version of the STM\<close>

definition device_utils_get_st_firmware_version :: "bool \<Rightarrow> device_info \<Rightarrow> string option" where
  "device_utils_get_st_firmware_version buffer_ok d =
     (if \<not> buffer_ok \<or> \<not> dv_st_fw_version_initialized d then None
      else Some (du_strncpy_safe (Some (dv_st_firmware_version d)) DEVICE_UTILS_ST_FW_VERSION_BUFFER_SIZE))"

definition device_utils_set_st_firmware_version :: "string option \<Rightarrow> device_info \<Rightarrow> result \<times> device_info" where
  "device_utils_set_st_firmware_version version d =
     (let len = (case version of None \<Rightarrow> 0 | Some s \<Rightarrow> length s) in
      if len = 0 \<or> len \<ge> DEVICE_UTILS_ST_FW_VERSION_BUFFER_SIZE then (RESULT_INVALID_PARAM, d)
      else (RESULT_SUCCESS, d\<lparr>dv_st_firmware_version := du_strncpy_safe version DEVICE_UTILS_ST_FW_VERSION_BUFFER_SIZE,
        dv_st_fw_version_initialized := True\<rparr>))"

definition device_utils_is_st_firmware_version_initialized :: "device_info \<Rightarrow> bool" where
  "device_utils_is_st_firmware_version_initialized d = dv_st_fw_version_initialized d"

definition device_utils_invalidate_st_firmware_version :: "device_info \<Rightarrow> device_info" where
  "device_utils_invalidate_st_firmware_version d = d\<lparr>dv_st_fw_version_initialized := False, dv_st_firmware_version := []\<rparr>"

subsection \<open>The peripherals\<close>

definition peri_blank :: "nat \<Rightarrow> peri_device_info" where
  "peri_blank i = \<lparr>pd_device_id = i, pd_is_ready = False, pd_version_valid = False, pd_fw_version = 0, pd_hw_version = 0\<rparr>"

text \<open>\<open>alloc_ok\<close>: does the allocation, made when there is no table yet, succeed?\<close>

definition device_utils_peri_reset_all :: "bool \<Rightarrow> device_info \<Rightarrow> device_info" where
  "device_utils_peri_reset_all alloc_ok d =
     (if dv_peri_devices d = None \<and> \<not> alloc_ok then d
      else d\<lparr>dv_peri_devices := Some (map (\<lambda>i. peri_blank (i + 1)) [0..<PERI_DEVICE_MAX])\<rparr>)"

definition peri_slot :: "nat \<Rightarrow> device_info \<Rightarrow> nat option" where
  "peri_slot device_id d =
     (if dv_peri_devices d = None \<or> device_id < 1 \<or> device_id > PERI_DEVICE_MAX then None else Some (device_id - 1))"

definition peri_update :: "nat \<Rightarrow> (peri_device_info \<Rightarrow> peri_device_info) \<Rightarrow> device_info \<Rightarrow> device_info" where
  "peri_update i f d = d\<lparr>dv_peri_devices := map_option (\<lambda>ps. ps[i := f (ps ! i)]) (dv_peri_devices d)\<rparr>"

definition device_utils_peri_set_ready :: "nat \<Rightarrow> device_info \<Rightarrow> result \<times> device_info" where
  "device_utils_peri_set_ready device_id d =
     (case peri_slot device_id d of
        None \<Rightarrow> (RESULT_INVALID_PARAM, d)
      | Some i \<Rightarrow> (RESULT_SUCCESS, peri_update i (\<lambda>p. p\<lparr>pd_device_id := device_id, pd_is_ready := True\<rparr>) d))"

definition device_utils_peri_set_version :: "nat \<Rightarrow> nat \<Rightarrow> nat \<Rightarrow> device_info \<Rightarrow> result \<times> device_info" where
  "device_utils_peri_set_version device_id fw_version hw_version d =
     (case peri_slot device_id d of
        None \<Rightarrow> (RESULT_INVALID_PARAM, d)
      | Some i \<Rightarrow> (RESULT_SUCCESS, peri_update i
          (\<lambda>p. p\<lparr>pd_fw_version := fw_version, pd_hw_version := hw_version, pd_version_valid := True\<rparr>) d))"

definition device_utils_peri_get_info :: "nat \<Rightarrow> bool \<Rightarrow> device_info \<Rightarrow> result \<times> peri_device_info option" where
  "device_utils_peri_get_info device_id out_ok d =
     (case peri_slot device_id d of
        None \<Rightarrow> (RESULT_INVALID_PARAM, None)
      | Some i \<Rightarrow> if \<not> out_ok then (RESULT_INVALID_PARAM, None) else (RESULT_SUCCESS, Some (the (dv_peri_devices d) ! i)))"

definition device_utils_peri_is_ready :: "nat \<Rightarrow> device_info \<Rightarrow> bool" where
  "device_utils_peri_is_ready device_id d =
     (case peri_slot device_id d of None \<Rightarrow> False | Some i \<Rightarrow> pd_is_ready (the (dv_peri_devices d) ! i))"

definition device_utils_peri_has_version :: "nat \<Rightarrow> device_info \<Rightarrow> bool" where
  "device_utils_peri_has_version device_id d =
     (case peri_slot device_id d of None \<Rightarrow> False | Some i \<Rightarrow> pd_version_valid (the (dv_peri_devices d) ! i))"

subsection \<open>What the cache holds\<close>

text \<open>Whatever the modem answers, the IMEI that is stored is the one in the source.\<close>

lemma imei_attempts_result:
  "imei_attempts K n d w = (r, d', w') \<Longrightarrow> \<not> dv_imei_initialized d \<Longrightarrow>
     (r = RESULT_SUCCESS \<longleftrightarrow> dv_imei_initialized d') \<and> (r = RESULT_SUCCESS \<longrightarrow> dv_global_imei d' = ''860056081830565'')"
proof (induction n arbitrary: w)
  case 0
  then show ?case by auto
next
  case (Suc n)
  then show ?case
    by (auto simp: imei_reset_def imei_store_def du_strncpy_safe_def split: prod.splits if_splits)
qed

lemma device_utils_init_imei:
  assumes "device_utils_init K d w = (RESULT_SUCCESS, d', w')" and "\<not> dv_imei_initialized d"
  shows "device_utils_get_imei True d' = Some ''860056081830565''"
  using imei_attempts_result [of K 20 d "dk_sleep K IMEI_RETRY_DELAY_MS w"] assms
  by (auto simp: device_utils_init_def device_utils_get_imei_def)

end
