(* ===== verification/Login_Packet.thy ===== *)
theory Login_Packet
  imports Device_Utils Routing
begin

text \<open>
  \<open>module/tcp/login_packet.c\<close>: the packet that opens a session with the server. A packet is the list of its
  bytes, in the order of the offsets of \<open>login_packet.h\<close>.
\<close>

subsection \<open>The builder\<close>

definition LOGIN_START_ID1 :: byte where "LOGIN_START_ID1 = 0x57"
definition LOGIN_START_ID2 :: byte where "LOGIN_START_ID2 = 0x45"
definition LOGIN_PACKET_TYPE :: byte where "LOGIN_PACKET_TYPE = 0x48"
definition LOGIN_STOP_ID1 :: byte where "LOGIN_STOP_ID1 = 0x77"
definition LOGIN_STOP_ID2 :: byte where "LOGIN_STOP_ID2 = 0x65"
definition LOGIN_PACKET_LENGTH :: byte where "LOGIN_PACKET_LENGTH = 0x12"
abbreviation (input) LOGIN_PACKET_TOTAL_SIZE :: nat where "LOGIN_PACKET_TOTAL_SIZE \<equiv> 24"

definition FIRMWARE_VERSION :: string where "FIRMWARE_VERSION = ''0100''"
definition HARDWARE_VERSION :: string where "HARDWARE_VERSION = ''0106''"

lemmas login_marks = LOGIN_START_ID1_def LOGIN_START_ID2_def LOGIN_PACKET_TYPE_def LOGIN_STOP_ID1_def LOGIN_STOP_ID2_def
  LOGIN_PACKET_LENGTH_def

definition hex_char_to_val :: "char \<Rightarrow> nat" where
  "hex_char_to_val c =
     (if 48 \<le> char_code c \<and> char_code c \<le> 57 then char_code c - 48
      else if 65 \<le> char_code c \<and> char_code c \<le> 70 then char_code c - 65 + 10
      else if 97 \<le> char_code c \<and> char_code c \<le> 102 then char_code c - 97 + 10
      else 0xFF)"

fun convert_loop :: "nat \<Rightarrow> string \<Rightarrow> bytes option" where
  "convert_loop (Suc n) (a # b # s) =
     (let v1 = hex_char_to_val a; v2 = hex_char_to_val b in
      if v1 = 0xFF \<or> v2 = 0xFF then None else map_option (\<lambda>bs. byte_of_nibbles v1 v2 # bs) (convert_loop n s))"
| "convert_loop n s = Some []"

definition convert_hex_string_to_bytes :: "string \<Rightarrow> nat \<Rightarrow> bytes option" where
  "convert_hex_string_to_bytes hex_str output_size =
     (if output_size < 2 then None else if length hex_str < 4 then None else convert_loop output_size hex_str)"

text \<open>The loop of \<open>imei_to_8bytes\<close>, from \<open>out_idx\<close> for \<open>n\<close> more bytes.\<close>

fun pack_loop :: "string \<Rightarrow> nat \<Rightarrow> nat \<Rightarrow> bytes option" where
  "pack_loop s out_idx 0 = Some []"
| "pack_loop s out_idx (Suc n) =
     (let str_idx = (if length s = 15 then out_idx * 2 - 1 else out_idx * 2) in
      if str_idx + 1 \<ge> length s then None
      else
        let v1 = hex_char_to_val (s ! str_idx); v2 = hex_char_to_val (s ! (str_idx + 1)) in
        if v1 = 0xFF \<or> v2 = 0xFF then None
        else map_option (\<lambda>bs. byte_of_nibbles v1 v2 # bs) (pack_loop s (out_idx + 1) n))"

definition imei_to_8bytes :: "string \<Rightarrow> bytes option" where
  "imei_to_8bytes s =
     (if length s \<noteq> 15 \<and> length s \<noteq> 16 then None
      else if length s = 15 then
        (let v2 = hex_char_to_val (s ! 0) in
         if v2 = 0xFF then None else map_option (\<lambda>bs. of_nat v2 # bs) (pack_loop s 1 7))
      else pack_loop s 0 8)"

definition calculate_checksum :: "bytes \<Rightarrow> byte" where
  "calculate_checksum data = foldl (\<lambda>c b. c XOR b) 0 data"

definition write_version_field :: "string \<Rightarrow> bytes" where
  "write_version_field version =
     (if length version \<ge> 4 then
        (case convert_hex_string_to_bytes version 2 of Some [t0, t1] \<Rightarrow> [t1, t0] | _ \<Rightarrow> [0, 0])
      else [0, 0])"

text \<open>The number of bytes (0 on failure), the packet, and the session count after the call.\<close>

definition login_packet_create :: "bool \<Rightarrow> nat \<Rightarrow> device_info \<Rightarrow> nat \<Rightarrow> nat \<times> bytes \<times> nat" where
  "login_packet_create buffer_ok buffer_size d session_count =
     (if \<not> buffer_ok \<or> buffer_size < LOGIN_PACKET_TOTAL_SIZE then (0, [], session_count)
      else case device_utils_get_imei True d of
        None \<Rightarrow> (0, [], session_count)
      | Some imei \<Rightarrow> (case imei_to_8bytes imei of
            None \<Rightarrow> (0, [], session_count)
          | Some imei8 \<Rightarrow>
              let session_count = u32 (session_count + 1);
                  body = [0, LOGIN_PACKET_LENGTH] @ imei8 @ write_version_field FIRMWARE_VERSION @
                    write_version_field HARDWARE_VERSION @ [lo8 session_count, hi8 session_count] @ [0, 0]
              in (LOGIN_PACKET_TOTAL_SIZE,
                  [LOGIN_START_ID1, LOGIN_START_ID2, LOGIN_PACKET_TYPE] @ body @ [calculate_checksum body] @
                  [LOGIN_STOP_ID1, LOGIN_STOP_ID2], session_count)))"

subsection \<open>The packet\<close>

lemma hex_char_to_val_macro: "hex_char_to_val c = UTILS_HEX_VAL c"
  by (simp add: hex_char_to_val_def UTILS_HEX_VAL_def)

lemma hex_char_to_val_table: "hex_char_to_val c = (case hex_val c of Some v \<Rightarrow> v | None \<Rightarrow> 0xFF)"
  by (simp add: hex_char_to_val_macro UTILS_HEX_VAL_table)

lemma pack_loop_utils: "pack_loop s i n = imei_loop s i n"
  by (induction n arbitrary: i) (simp_all only: pack_loop.simps imei_loop.simps hex_char_to_val_macro)

lemma imei_to_8bytes_utils: "imei_to_8bytes s = utils_imei_to_8bytes (Some s) True"
  by (simp add: imei_to_8bytes_def utils_imei_to_8bytes_def pack_loop_utils hex_char_to_val_macro byte_of_nibbles_def Let_def)

lemma length_hex_bytes_loop: "hex_bytes_loop s i n = Some bs \<Longrightarrow> length bs = n"
  by (induction n arbitrary: i bs) (auto split: option.splits)

lemma imei8: "imei_to_8bytes s = Some bs \<Longrightarrow> length bs = 8"
  by (auto simp: imei_to_8bytes_utils imei_to_8bytes_loop split: if_splits intro: length_hex_bytes_loop)

lemma version_fields: "write_version_field FIRMWARE_VERSION = [0, 1]" "write_version_field HARDWARE_VERSION = [6, 1]"
  by (simp_all add: write_version_field_def FIRMWARE_VERSION_def HARDWARE_VERSION_def convert_hex_string_to_bytes_def
      numeral_eq_Suc hex_char_to_val_table hex_val_code is_digit_def char_code_def byte_of_nibbles_def)

lemma hex_of_digits:
  assumes "is_digit a" and "is_digit b"
  shows "\<exists>x y. hex_val a = Some x \<and> hex_val b = Some y \<and> hex_of_byte (byte_of_nibbles x y) = [a, b]"
proof -
  have d: "hex_digit_upper (char_code c - 48) = c" "char_code c - 48 < 16" if "is_digit c" for c
  proof -
    have "char_code c \<in> {48, 49, 50, 51, 52, 53, 54, 55, 56, 57}"
      using that unfolding is_digit_def insert_iff empty_iff by presburger
    then have "char_code (hex_digit_upper (char_code c - 48)) = char_code c"
      unfolding insert_iff empty_iff by (elim disjE) (simp_all add: hex_digit_upper_def, simp_all add: char_code_def)
    then show "hex_digit_upper (char_code c - 48) = c" by (simp add: char_code_def)
    show "char_code c - 48 < 16" using that unfolding is_digit_def by linarith
  qed
  let ?x = "char_code a - 48" and ?y = "char_code b - 48"
  have "unat (byte_of_nibbles ?x ?y) = 16 * ?x + ?y" using d(2) assms by (simp add: unat_byte_of_nibbles)
  moreover have "unat (drop_bit 4 (byte_of_nibbles ?x ?y)) = unat (byte_of_nibbles ?x ?y) div 16"
    by (simp only: unat_drop_bit_eq) (simp add: drop_bit_eq_div)
  ultimately have "hex_of_byte (byte_of_nibbles ?x ?y) = [a, b]"
    using d assms by (simp add: hex_of_byte_def)
  then show ?thesis using assms by (simp add: hex_val_code)
qed

lemma decode_digits:
  "length s = 2 * n \<Longrightarrow> list_all is_digit s \<Longrightarrow> \<exists>bs. decode_hex n s = Some bs \<and> length bs = n \<and> hex_of_bytes bs = s"
proof (induction n arbitrary: s)
  case 0
  then show ?case by (simp add: hex_of_bytes_def)
next
  case (Suc n)
  then obtain c d t where s: "s = c # d # t" by (cases s; cases "tl s") auto
  then obtain bs where "decode_hex n t = Some bs" "length bs = n" "hex_of_bytes bs = t" using Suc by auto
  then show ?case using s hex_of_digits [of c d] Suc.prems(2) by (auto simp: hex_of_bytes_def)
qed

lemma imei_digits:
  assumes "length imei = 15" and "list_all is_digit imei"
  shows "\<exists>bs. imei_to_8bytes imei = Some bs \<and> length bs = 8 \<and> hex_of_bytes bs = CHR ''0'' # imei"
  using assms decode_digits [of "CHR ''0'' # imei" 8]
  by (simp add: imei_to_8bytes_utils imei_to_8bytes_loop hex_bytes_loop_decode is_digit_def char_code_def)

lemma checksum_append: "calculate_checksum (xs @ [calculate_checksum xs]) = 0"
  by (simp add: calculate_checksum_def)

text \<open>the login packet carries what it should. When an IMEI of 15 digits is cached, the packet has 24 bytes:
  the start and stop marks, type and length, the IMEI as decimal digits in nibbles with a leading zero, the
  versions with their bytes swapped, the session number that the call has just counted, low byte first, and a
  check byte under which the bytes from the length field on add up to zero by exclusive or.\<close>

theorem login_packet_layout:
  assumes "device_utils_get_imei True d = Some imei" and "length imei = 15" and "list_all is_digit imei" and "24 \<le> sz"
  shows "\<exists>p. login_packet_create True sz d n = (24, p, u32 (n + 1)) \<and> length p = 24 \<and>
    take 5 p = [0x57, 0x45, 0x48, 0, 0x12] \<and> hex_of_bytes (take 8 (drop 5 p)) = ''0'' @ imei \<and>
    take 8 (drop 13 p) = [0x00, 0x01, 0x06, 0x01, lo8 (u32 (n + 1)), hi8 (u32 (n + 1)), 0, 0] \<and>
    foldl (\<lambda>c b. c XOR b) 0 (take 19 (drop 3 p)) = 0 \<and> drop 22 p = [0x77, 0x65]"
proof -
  obtain bs where bs: "imei_to_8bytes imei = Some bs" "length bs = 8" "hex_of_bytes bs = CHR ''0'' # imei"
    using imei_digits [OF assms(2,3)] by blast
  let ?body = "[0, LOGIN_PACKET_LENGTH] @ bs @ [0, 1, 6, 1, lo8 (u32 (n + 1)), hi8 (u32 (n + 1)), 0, 0]"
  let ?p = "[LOGIN_START_ID1, LOGIN_START_ID2, LOGIN_PACKET_TYPE] @ ?body @ [calculate_checksum ?body] @ [LOGIN_STOP_ID1, LOGIN_STOP_ID2]"
  have c: "login_packet_create True sz d n = (24, ?p, u32 (n + 1))"
    using assms bs(1) by (simp add: login_packet_create_def version_fields Let_def)
  have t: "take 19 (drop 3 ?p) = ?body @ [calculate_checksum ?body]" using bs(2) by simp
  have x: "foldl (\<lambda>c b. c XOR b) 0 (take 19 (drop 3 ?p)) = 0"
    using checksum_append [of ?body] by (simp only: t flip: calculate_checksum_def)
  show ?thesis
    by (rule exI [of _ ?p]) (use bs(2,3) c x in \<open>simp add: login_marks\<close>)
qed

text \<open>every device logs in as the same device. When \<open>device_utils_init\<close> succeeds on a device whose IMEI was not
  cached, whatever IMEI the modem has, each login packet built afterwards names 860056081830565.\<close>

theorem login_identity_is_constant:
  assumes "device_utils_init K d w = (RESULT_SUCCESS, d', w')" and "\<not> dv_imei_initialized d" and "24 \<le> sz"
  shows "\<exists>p. login_packet_create True sz d' n = (24, p, u32 (n + 1)) \<and> hex_of_bytes (take 8 (drop 5 p)) = ''0860056081830565''"
proof -
  have i: "device_utils_get_imei True d' = Some ''860056081830565''" by (rule device_utils_init_imei [OF assms(1,2)])
  have g: "list_all is_digit ''860056081830565''" by (simp add: is_digit_def char_code_def)
  obtain bs where bs: "imei_to_8bytes ''860056081830565'' = Some bs" "length bs = 8" "hex_of_bytes bs = ''0860056081830565''"
    using imei_digits [OF _ g] by auto
  then show ?thesis using i assms(3) by (simp add: login_packet_create_def Let_def)
qed

text \<open>A modem whose IMEI is another one.\<close>

definition no_device :: device_info where
  "no_device = \<lparr>dv_global_imei = [], dv_imei_initialized = False, dv_st_firmware_version = [],
     dv_st_fw_version_initialized = False, dv_peri_devices = None\<rparr>"

definition other_modem :: "unit device_sdk" where
  "other_modem = \<lparr>dk_get_imei = (\<lambda>w. (RESULT_SUCCESS, ''356938035643809'', w)), dk_sleep = (\<lambda>n w. w)\<rparr>"

lemma other_modem_init:
  "device_utils_init other_modem no_device () = (RESULT_SUCCESS, imei_store (Some ''860056081830565'') no_device, ())"
  by (simp add: device_utils_init_def no_device_def other_modem_def numeral_eq_Suc)

theorem login_packet_layout_witness:
  "\<exists>p. login_packet_create True 79 (imei_store (Some ''356938035643809'') no_device) 65535 = (24, p, 65536) \<and>
     hex_of_bytes (take 8 (drop 5 p)) = ''0356938035643809''"
  using login_packet_layout [of "imei_store (Some ''356938035643809'') no_device" "''356938035643809''" 79 65535]
  by (auto simp: device_utils_get_imei_def imei_store_def du_strncpy_safe_def is_digit_def char_code_def u32_def)

theorem login_identity_is_constant_witness:
  "\<exists>p. login_packet_create True 79 (imei_store (Some ''860056081830565'') no_device) 0 = (24, p, 1) \<and>
     hex_of_bytes (take 8 (drop 5 p)) = ''0860056081830565''"
  using login_identity_is_constant [OF other_modem_init, of 79 0] by (simp add: no_device_def u32_def)

end
