(* ===== verification/Tcp_Client.thy ===== *)
theory Tcp_Client
  imports Task_Stats Module_Registry Login_Packet Uart_Response
begin

text \<open>
  \<open>module/tcp/tcp.c\<close> and \<open>module/tcp/tcp_ops.c\<close>: the client that keeps a session with the server and sends the
  packets of the TCP send queue. The record \<open>tcp_client\<close> has the fields of \<open>g_tcp_client\<close>, the local
  \<open>last_state\<close> of the task loop and the static variables of the two files and of \<open>login_packet.c\<close>. The
  socket layer is the table of functions \<open>SdkTcpFunctionalityOps\<close>, as in the code. A turn of the task loop,
  a socket event and a call of the public interface is each one step.
\<close>

subsection \<open>State\<close>

datatype tcp_state =
    TCP_STATE_INIT | TCP_STATE_WAIT_NETWORK | TCP_STATE_SOCKET_CREATING | TCP_STATE_SOCKET_CREATED
  | TCP_STATE_CONNECTING | TCP_STATE_CONNECTED | TCP_STATE_SENDING_LOGIN | TCP_STATE_WAIT_ACK_LOGIN
  | TCP_STATE_ACK_RECEIVED | TCP_STATE_SENDING_DATA | TCP_STATE_WAIT_ACK_DATA | TCP_STATE_RECEIVING
  | TCP_STATE_CLOSED | TCP_STATE_RECONNECT_DELAY | TCP_STATE_ERROR

record tcp_config =
  tcf_server_ip :: string
  tcf_server_port :: nat
  tcf_connection_timeout_ms :: nat
  tcf_send_timeout_ms :: nat
  tcf_retry_interval_ms :: nat
  tcf_login_with_gps :: bool
  tcf_live_first :: bool

record tcp_client =
  tc_initialized :: bool
  tc_state :: tcp_state
  tc_tcp_fd :: int
  tc_last_connected_state :: bool
  tc_session_up :: bool
  tc_config :: "tcp_config option"
  tc_bytes_sent :: int
  tc_bytes_acked :: int
  tc_batch_count :: nat
  tc_recv_pending :: bool
  tc_state_entry_tick :: nat
  tc_session_down_since :: nat
  tc_total_iterations :: nat
  tc_reconnect_delay_cycles :: nat
  tc_last_state :: tcp_state
  tc_session_count :: nat
  tc_task :: "nat option"
  tc_task_stats :: task_stats

type_synonym ('u, 'w) tcp = "tcp_client \<times> ('u, 'w) gateway"

text \<open>\<open>SdkTcpFunctionalityOps\<close>: a result below zero is an error; \<open>recv\<close> also yields the bytes.\<close>

record 'w tcp_functionality =
  tf_socket_create_with_callback :: "'w \<Rightarrow> int \<times> 'w"
  tf_connect :: "int \<Rightarrow> bytes \<Rightarrow> 'w \<Rightarrow> int \<times> 'w"
  tf_send :: "int \<Rightarrow> bytes \<Rightarrow> 'w \<Rightarrow> int \<times> 'w"
  tf_recv :: "int \<Rightarrow> nat \<Rightarrow> 'w \<Rightarrow> int \<times> bytes \<times> 'w"
  tf_close :: "int \<Rightarrow> 'w \<Rightarrow> int \<times> 'w"
  tf_get_sock_errno :: "int \<Rightarrow> 'w \<Rightarrow> int \<times> 'w"
  tf_get_errno :: "'w \<Rightarrow> int \<times> 'w"

text \<open>What the client takes from the rest of the system: the resolver and \<open>lwip_shutdown\<close> of the kernel, task creation,
  the flag \<open>g_network.connected\<close>, the last valid GPS packet (\<open>gps_packet_create\<close>: its result and bytes for a
  buffer of that size), the device cache, is the command manager ready, and the listeners of other modules.\<close>

record ('u, 'w) tcp_env =
  tv_os :: "('u, 'w) os"
  tv_tcp :: "'w tcp_functionality"
  tv_getaddrinfo :: "string \<Rightarrow> string \<Rightarrow> 'w \<Rightarrow> int \<times> bytes option \<times> 'w"
  tv_shutdown :: "int \<Rightarrow> 'w \<Rightarrow> 'w"
  tv_task_create :: "'w \<Rightarrow> nat option \<times> 'w"
  tv_task_delete :: "nat \<Rightarrow> 'w \<Rightarrow> 'w"
  tv_queue_alloc :: "'w \<Rightarrow> (nat option \<times> bool \<times> bool \<times> module_message list) \<times> 'w"
  tv_network_connected :: "'w \<Rightarrow> bool"
  tv_last_gps_packet :: "nat \<Rightarrow> 'w \<Rightarrow> int \<times> bytes \<times> 'w"
  tv_device :: "'w \<Rightarrow> device_info"
  tv_command_ready :: "'w \<Rightarrow> bool"
  tv_listener :: "nat \<Rightarrow> event_data \<Rightarrow> nat \<Rightarrow> event_manager \<times> ('u, 'w) gateway \<Rightarrow> event_manager \<times> ('u, 'w) gateway"

abbreviation (input) MAX_COMBINED_SIZE :: nat where "MAX_COMBINED_SIZE \<equiv> 512"
abbreviation (input) MAX_MESSAGES :: nat where "MAX_MESSAGES \<equiv> 5"
abbreviation (input) TCP_TASK_INTERVAL_MS :: nat where "TCP_TASK_INTERVAL_MS \<equiv> 200"
abbreviation (input) RECONNECT_DELAY_CYCLES :: nat where "RECONNECT_DELAY_CYCLES \<equiv> 40"
abbreviation (input) TCP_OVERALL_TIMEOUT_MS :: nat where "TCP_OVERALL_TIMEOUT_MS \<equiv> 300000"
abbreviation (input) TCP_RECV_BUF_SIZE :: nat where "TCP_RECV_BUF_SIZE \<equiv> 256"
abbreviation (input) TCP_LOGIN_BUFFER_SIZE :: nat where "TCP_LOGIN_BUFFER_SIZE \<equiv> 79"
abbreviation (input) GPS_PACKET_TOTAL_SIZE :: nat where "GPS_PACKET_TOTAL_SIZE \<equiv> 55"

text \<open>The error numbers of lwIP's \<open>arch.h\<close>.\<close>

abbreviation (input) EAGAIN :: int where "EAGAIN \<equiv> 11"
abbreviation (input) EPIPE :: int where "EPIPE \<equiv> 32"
abbreviation (input) ECONNABORTED :: int where "ECONNABORTED \<equiv> 103"
abbreviation (input) ECONNRESET :: int where "ECONNRESET \<equiv> 104"
abbreviation (input) ENOTCONN :: int where "ENOTCONN \<equiv> 107"
abbreviation (input) EINPROGRESS :: int where "EINPROGRESS \<equiv> 115"

definition set_tcp_world :: "'w \<Rightarrow> ('u, 'w) tcp \<Rightarrow> ('u, 'w) tcp" where
  "set_tcp_world w s = (fst s, (snd s)\<lparr>gw_world := w\<rparr>)"

abbreviation tcp_world :: "('u, 'w) tcp \<Rightarrow> 'w" where "tcp_world s \<equiv> gw_world (snd s)"

text \<open>A reading of the clock, and a call that yields a number.\<close>

definition tcp_ticks :: "('u, 'w) tcp_env \<Rightarrow> ('u, 'w) tcp \<Rightarrow> nat \<times> ('u, 'w) tcp" where
  "tcp_ticks E s = (let (t, w) = os_ticks (tv_os E) (tcp_world s) in (t, set_tcp_world w s))"

definition tcp_call :: "('w \<Rightarrow> int \<times> 'w) \<Rightarrow> ('u, 'w) tcp \<Rightarrow> int \<times> ('u, 'w) tcp" where
  "tcp_call f s = (let (r, w) = f (tcp_world s) in (r, set_tcp_world w s))"

definition set_state :: "tcp_state \<Rightarrow> tcp_client \<Rightarrow> tcp_client" where
  "set_state st u = u\<lparr>tc_state := st\<rparr>"

text \<open>The macro \<open>HANDLE_STATE\<close>.\<close>

definition handle_state ::
    "result \<times> ('u, 'w) tcp \<Rightarrow> tcp_state \<Rightarrow> tcp_state \<Rightarrow> tcp_state \<Rightarrow> ('u, 'w) tcp" where
  "handle_state rs on_success on_error on_busy =
     (let (r, u, g) = rs in
      (set_state (if r = RESULT_SUCCESS then on_success else if r = RESULT_ERROR then on_error else on_busy) u, g))"

subsection \<open>Sending\<close>

definition tcp_reset_send_tracking :: "tcp_client \<Rightarrow> tcp_client" where
  "tcp_reset_send_tracking u = u\<lparr>tc_bytes_sent := -1, tc_bytes_acked := 0, tc_batch_count := 0\<rparr>"

definition tcp_check_ack_received :: "tcp_client \<Rightarrow> bool" where
  "tcp_check_ack_received u \<longleftrightarrow> tc_bytes_sent u > 0 \<and> tc_bytes_acked u \<ge> tc_bytes_sent u"

definition tcp_fatal_errno :: "int \<Rightarrow> bool" where
  "tcp_fatal_errno err \<longleftrightarrow> err = ENOTCONN \<or> err = ECONNRESET \<or> err = ECONNABORTED \<or> err = EPIPE"

definition tcp_validate_socket_for_send :: "('u, 'w) tcp_env \<Rightarrow> ('u, 'w) tcp \<Rightarrow> bool \<times> ('u, 'w) tcp" where
  "tcp_validate_socket_for_send E s =
     (if tc_tcp_fd (fst s) < 0 then (False, s)
      else let (err, s) = tcp_call (tf_get_sock_errno (tv_tcp E) (tc_tcp_fd (fst s))) s
        in (\<not> tcp_fatal_errno err, s))"

definition tcp_send_data :: "('u, 'w) tcp_env \<Rightarrow> int \<Rightarrow> bytes \<Rightarrow> ('u, 'w) tcp \<Rightarrow> int \<times> ('u, 'w) tcp" where
  "tcp_send_data E sockfd buffer s =
     (if sockfd < 0 \<or> buffer = [] then (-1, s)
      else let (send_result, u, g) = tcp_call (tf_send (tv_tcp E) sockfd buffer) s in
        if send_result < 0 then
          let (_, u, g) = tcp_call (tf_get_sock_errno (tv_tcp E) sockfd) (u, g) in (-1, tcp_reset_send_tracking u, g)
        else if send_result = 0 then (0, u, g)
        else (send_result, u\<lparr>tc_bytes_sent := send_result, tc_bytes_acked := 0\<rparr>, g))"

definition tcp_close_socket :: "('u, 'w) tcp_env \<Rightarrow> int \<Rightarrow> ('u, 'w) tcp \<Rightarrow> int \<times> ('u, 'w) tcp" where
  "tcp_close_socket E fd s = (if fd < 0 then (0, s) else tcp_call (tf_close (tv_tcp E) fd) s)"

subsection \<open>The send queue\<close>

definition tcp_get_module_config :: "('u, 'w) tcp \<Rightarrow> 'u module_config option" where
  "tcp_get_module_config s = module_manager_get_config MODULE_ID_TCP (snd s)"

text \<open>The queue behind \<open>tcp_config->msg_q\<close>, with its configuration.\<close>

definition tcp_queue :: "('u, 'w) gateway \<Rightarrow> (queue_config \<times> nat \<times> module_message queue) option" where
  "tcp_queue g =
     (case module_manager_get_config MODULE_ID_TCP g of
        None \<Rightarrow> None
      | Some c \<Rightarrow> map_option (\<lambda>hq. (mc_msg_q_config c, hq)) (mc_msg_q c))"

definition set_tcp_queue :: "(nat \<times> module_message queue) option \<Rightarrow> ('u, 'w) gateway \<Rightarrow> ('u, 'w) gateway" where
  "set_tcp_queue hq = module_update (module_id_code MODULE_ID_TCP) (\<lambda>m. m\<lparr>m_config := (m_config m)\<lparr>mc_msg_q := hq\<rparr>\<rparr>)"

definition tcp_free_module_msg_dynamic :: "module_message \<Rightarrow> module_message" where
  "tcp_free_module_msg_dynamic m =
     (if mm_use_dynamic_buffer m \<and> mm_dynamic_buffer m \<noteq> None
      then m\<lparr>mm_dynamic_buffer := None, mm_use_dynamic_buffer := False, mm_data_len := 0\<rparr> else m)"

text \<open>The elements that were popped are freed and forgotten.\<close>

definition tcp_pop_send_queue_batch_and_free :: "('u, 'w) tcp_env \<Rightarrow> nat \<Rightarrow> ('u, 'w) tcp \<Rightarrow> ('u, 'w) tcp" where
  "tcp_pop_send_queue_batch_and_free E n s =
     (case tcp_queue (snd s) of
        None \<Rightarrow> s
      | Some (cfg, h, q) \<Rightarrow>
          if n = 0 then s
          else
            let n = (if n > MAX_MESSAGES then MAX_MESSAGES else n);
                (r, sink, q, w) = queue_pop (os_flash (tv_os E)) (os_msg_abi (tv_os E)) True cfg n q (tcp_world s)
            in (fst s, set_tcp_queue (Some (h, q)) ((snd s)\<lparr>gw_world := w\<rparr>)))"

text \<open>The buffer is the list of its bytes in use.\<close>

definition tcp_prepend_live_first_queue_tail ::
    "('u, 'w) tcp_env \<Rightarrow> bytes \<Rightarrow> nat \<Rightarrow> ('u, 'w) tcp \<Rightarrow> bytes \<times> ('u, 'w) tcp" where
  "tcp_prepend_live_first_queue_tail E buf buf_max s =
     (case tcp_queue (snd s) of
        None \<Rightarrow> (buf, s)
      | Some (cfg, h, q) \<Rightarrow>
          if buf = [] \<or> buf_max = 0 then (buf, s)
          else if \<not> (case tc_config (fst s) of None \<Rightarrow> False | Some c \<Rightarrow> tcf_live_first c) then (buf, s)
          else if \<not> queue_is_full (Some q) (Some cfg) then (buf, s)
          else
            let (r, tail, q) = queue_pop_tail True cfg q in
            if r \<noteq> RESULT_SUCCESS then (buf, fst s, set_tcp_queue (Some (h, q)) (snd s))
            else
              let tail_msg = the tail;
                  payload = module_message_payload tail_msg;
                  payload_len = module_message_payload_len (Some tail_msg);
                  space = buf_max - length buf
              in if payload = None \<or> payload_len = 0 \<or> payload_len > space then
                   let (_, q, w) = queue_push (os_flash (tv_os E)) (os_msg_abi (tv_os E)) True cfg q tail_msg (tcp_world s)
                   in (buf, fst s, set_tcp_queue (Some (h, q)) ((snd s)\<lparr>gw_world := w\<rparr>))
                 else (take payload_len (the payload) @ buf, fst s, set_tcp_queue (Some (h, q)) (snd s)))"

text \<open>The loop of \<open>tcp_combine_messages\<close>, with the messages processed and the bytes so far.\<close>

fun combine_loop :: "nat \<Rightarrow> module_message list \<Rightarrow> nat \<Rightarrow> bytes \<Rightarrow> bytes" where
  "combine_loop max_size [] messages_processed buffer = buffer"
| "combine_loop max_size (m # ms) messages_processed buffer =
     (if messages_processed \<ge> MAX_MESSAGES then buffer
      else case module_message_payload m of
        None \<Rightarrow> combine_loop max_size ms messages_processed buffer
      | Some payload \<Rightarrow>
          let plen = module_message_payload_len (Some m) in
          if plen = 0 then combine_loop max_size ms messages_processed buffer
          else if plen > max_size then combine_loop max_size ms messages_processed buffer
          else if length buffer \<ge> max_size then buffer
          else
            let remaining_space = max_size - length buffer;
                bytes_to_copy = (if plen < remaining_space then plen else remaining_space);
                buffer = buffer @ take bytes_to_copy payload
            in if length buffer \<ge> max_size then buffer
               else combine_loop max_size ms (messages_processed + 1) buffer)"

definition tcp_combine_messages :: "module_message list \<Rightarrow> nat \<Rightarrow> bytes" where
  "tcp_combine_messages msgs max_size = combine_loop max_size msgs 0 []"

subsection \<open>The state handlers\<close>

definition tcp_state_handle_wait_network :: "('u, 'w) tcp_env \<Rightarrow> ('u, 'w) tcp \<Rightarrow> result \<times> ('u, 'w) tcp" where
  "tcp_state_handle_wait_network E s =
     (if tv_network_connected E (tcp_world s) then (RESULT_SUCCESS, s) else (RESULT_BUSY, s))"

definition tcp_state_handle_socket_creating :: "('u, 'w) tcp_env \<Rightarrow> ('u, 'w) tcp \<Rightarrow> result \<times> ('u, 'w) tcp" where
  "tcp_state_handle_socket_creating E s =
     (let (fd, u, g) = tcp_call (tf_socket_create_with_callback (tv_tcp E)) s; u = u\<lparr>tc_tcp_fd := fd\<rparr> in
      if fd < 0 then (RESULT_ERROR, u, g) else (RESULT_SUCCESS, u, g))"

definition tcp_connect_pending :: "int \<Rightarrow> bool" where
  "tcp_connect_pending err \<longleftrightarrow> err = EINPROGRESS \<or> err = 115 \<or> err = EAGAIN \<or> err = 11"

definition tcp_state_handle_socket_created :: "('u, 'w) tcp_env \<Rightarrow> ('u, 'w) tcp \<Rightarrow> result \<times> ('u, 'w) tcp" where
  "tcp_state_handle_socket_created E s =
     (case tc_config (fst s) of
        None \<Rightarrow> (RESULT_ERROR, s)
      | Some c \<Rightarrow>
          let portstr = snd (snprintf 6 (dec (tcf_server_port c)));
              (ret, addr, w) = tv_getaddrinfo E (tcf_server_ip c) portstr (tcp_world s);
              s = set_tcp_world w s
          in (case addr of
                None \<Rightarrow> (RESULT_ERROR, s)
              | Some a \<Rightarrow>
                  if ret \<noteq> 0 then (RESULT_ERROR, s)
                  else
                    let (ret, s) = tcp_call (tf_connect (tv_tcp E) (tc_tcp_fd (fst s)) a) s in
                    if ret < 0 then
                      let (err, s) = tcp_call (tf_get_errno (tv_tcp E)) s;
                          (err, s) = (if err = 0 then tcp_call (tf_get_sock_errno (tv_tcp E) (tc_tcp_fd (fst s))) s else (err, s))
                      in if tcp_connect_pending err then (RESULT_SUCCESS, s) else (RESULT_ERROR, s)
                    else (RESULT_SUCCESS, s)))"

definition tcp_state_handle_connecting :: "('u, 'w) tcp_env \<Rightarrow> ('u, 'w) tcp \<Rightarrow> result \<times> ('u, 'w) tcp" where
  "tcp_state_handle_connecting E s =
     (let (ok, s) = tcp_validate_socket_for_send E s in (if ok then RESULT_BUSY else RESULT_ERROR, s))"

definition tcp_broadcast :: "('u, 'w) tcp_env \<Rightarrow> nat \<Rightarrow> ('u, 'w) tcp \<Rightarrow> ('u, 'w) tcp" where
  "tcp_broadcast E t s =
     (let (r, em, g) = event_manager_broadcast (call_listener (tv_listener E)) t (Some ''TCP Client'') None 0
            (gw_events (snd s), snd s)
      in (fst s, g\<lparr>gw_events := em\<rparr>))"

definition tcp_state_handle_connected :: "('u, 'w) tcp_env \<Rightarrow> ('u, 'w) tcp \<Rightarrow> result \<times> ('u, 'w) tcp" where
  "tcp_state_handle_connected E s =
     (RESULT_SUCCESS,
      if \<not> tc_last_connected_state (fst s) then
        let (u, g) = tcp_broadcast E EVENT_TCP_CONNECTED s in (u\<lparr>tc_last_connected_state := True\<rparr>, g)
      else s)"

definition tcp_login_packet :: "('u, 'w) tcp_env \<Rightarrow> bytes \<Rightarrow> ('u, 'w) tcp \<Rightarrow> bytes \<times> ('u, 'w) tcp" where
  "tcp_login_packet E login s =
     (if (case tc_config (fst s) of None \<Rightarrow> False | Some c \<Rightarrow> tcf_login_with_gps c) then
        let (gps_len, gps, w) = tv_last_gps_packet E (TCP_LOGIN_BUFFER_SIZE - LOGIN_PACKET_TOTAL_SIZE) (tcp_world s);
            s = set_tcp_world w s
        in if gps_len \<noteq> int GPS_PACKET_TOTAL_SIZE then (login, s) else (login @ take GPS_PACKET_TOTAL_SIZE gps, s)
      else (login, s))"

definition tcp_state_handle_sending_login :: "('u, 'w) tcp_env \<Rightarrow> ('u, 'w) tcp \<Rightarrow> result \<times> ('u, 'w) tcp" where
  "tcp_state_handle_sending_login E s =
     (let (ok, u, g) = tcp_validate_socket_for_send E s in
      if \<not> ok then (RESULT_ERROR, u, g)
      else
        let (packet_size, login, n) = login_packet_create True TCP_LOGIN_BUFFER_SIZE (tv_device E (gw_world g)) (tc_session_count u);
            u = u\<lparr>tc_session_count := n\<rparr>
        in if packet_size \<noteq> LOGIN_PACKET_TOTAL_SIZE then (RESULT_BUSY, u, g)
           else
             let (buf, s) = tcp_login_packet E login (u, g);
                 (bytes_sent, s) = tcp_send_data E (tc_tcp_fd (fst s)) buf s
             in (if bytes_sent > 0 then RESULT_SUCCESS else if bytes_sent = 0 then RESULT_BUSY else RESULT_ERROR, s))"

text \<open>\<open>tcp_state_handle_wait_ack_login\<close> and \<open>tcp_state_handle_wait_ack_data\<close> have the same body.\<close>

definition tcp_wait_ack :: "('u, 'w) tcp_env \<Rightarrow> ('u, 'w) tcp \<Rightarrow> result \<times> ('u, 'w) tcp" where
  "tcp_wait_ack E s =
     (if tcp_check_ack_received (fst s) then (RESULT_SUCCESS, s)
      else
        let (ok, u, g) = tcp_validate_socket_for_send E s in
        if \<not> ok then (RESULT_ERROR, tcp_reset_send_tracking u, g)
        else
          let (err, u, g) = tcp_call (tf_get_sock_errno (tv_tcp E) (tc_tcp_fd u)) (u, g) in
          if tcp_fatal_errno err then (RESULT_ERROR, tcp_reset_send_tracking u, g)
          else if err \<noteq> 0 \<and> err \<noteq> EAGAIN \<and> err \<noteq> 11 then (RESULT_ERROR, tcp_reset_send_tracking u, g)
          else if tc_bytes_sent u \<le> 0 then (RESULT_ERROR, tcp_reset_send_tracking u, g)
          else (RESULT_BUSY, u, g))"

definition tcp_state_handle_wait_ack_login :: "('u, 'w) tcp_env \<Rightarrow> ('u, 'w) tcp \<Rightarrow> result \<times> ('u, 'w) tcp" where
  "tcp_state_handle_wait_ack_login E s = tcp_wait_ack E s"

definition tcp_clear_snapshot :: "('u, 'w) tcp_env \<Rightarrow> ('u, 'w) tcp \<Rightarrow> ('u, 'w) tcp" where
  "tcp_clear_snapshot E s =
     (case tcp_queue (snd s) of
        None \<Rightarrow> s
      | Some (cfg, h, q) \<Rightarrow>
          let (r, pb, w) = queue_persist_clear_snapshot_after_consume (os_flash (tv_os E)) True cfg q
                             (gw_pre_boot (snd s)) (tcp_world s)
          in (fst s, (snd s)\<lparr>gw_pre_boot := pb, gw_world := w\<rparr>))"

definition tcp_state_handle_ack_received :: "('u, 'w) tcp_env \<Rightarrow> ('u, 'w) tcp \<Rightarrow> result \<times> ('u, 'w) tcp" where
  "tcp_state_handle_ack_received E s =
     (let s = (if tc_batch_count (fst s) > 0 then tcp_pop_send_queue_batch_and_free E (tc_batch_count (fst s)) s else s);
          (u, g) = tcp_clear_snapshot E s
      in (RESULT_SUCCESS, (tcp_reset_send_tracking u)\<lparr>tc_session_up := True\<rparr>, g))"

definition tcp_state_handle_sending_data :: "('u, 'w) tcp_env \<Rightarrow> ('u, 'w) tcp \<Rightarrow> result \<times> ('u, 'w) tcp" where
  "tcp_state_handle_sending_data E s =
     (case tcp_queue (snd s) of
        None \<Rightarrow> (RESULT_BUSY, s)
      | Some (cfg, h, q) \<Rightarrow>
          if qc_element_size cfg = 0 then (RESULT_BUSY, s)
          else
            let (ok, s) = tcp_validate_socket_for_send E s in
            if \<not> ok then (RESULT_ERROR, s)
            else
              let (r, module_msgs, w) = queue_peek_batch (os_flash (tv_os E)) (os_msg_abi (tv_os E)) True cfg MAX_MESSAGES q (tcp_world s);
                  s = set_tcp_world w s;
                  peeked = length module_msgs
              in if r \<noteq> RESULT_SUCCESS \<or> peeked = 0 then (RESULT_BUSY, s)
                 else
                   let buf = tcp_combine_messages module_msgs MAX_COMBINED_SIZE in
                   if buf = [] then (RESULT_BUSY, tcp_pop_send_queue_batch_and_free E peeked s)
                   else
                     let (buf, s) = tcp_prepend_live_first_queue_tail E buf MAX_COMBINED_SIZE s;
                         (bytes_sent, u, g) = tcp_send_data E (tc_tcp_fd (fst s)) buf s
                     in if bytes_sent > 0 then (RESULT_SUCCESS, u\<lparr>tc_batch_count := peeked\<rparr>, g)
                        else (if bytes_sent = 0 then RESULT_BUSY else RESULT_ERROR, u, g))"

definition tcp_state_handle_wait_ack_data :: "('u, 'w) tcp_env \<Rightarrow> ('u, 'w) tcp \<Rightarrow> result \<times> ('u, 'w) tcp" where
  "tcp_state_handle_wait_ack_data E s = tcp_wait_ack E s"

definition tcp_state_handle_receiving :: "('u, 'w) tcp \<Rightarrow> result \<times> ('u, 'w) tcp" where
  "tcp_state_handle_receiving s = (RESULT_BUSY, s)"

definition tcp_shutdown_socket :: "('u, 'w) tcp_env \<Rightarrow> ('u, 'w) tcp \<Rightarrow> ('u, 'w) tcp" where
  "tcp_shutdown_socket E s =
     (let fd = tc_tcp_fd (fst s) in
      if fd \<ge> 0 then
        let s = set_tcp_world (tv_shutdown E fd (tcp_world s)) s; (_, u, g) = tcp_close_socket E fd s in (u\<lparr>tc_tcp_fd := -1\<rparr>, g)
      else s)"

definition tcp_state_handle_closed :: "('u, 'w) tcp_env \<Rightarrow> ('u, 'w) tcp \<Rightarrow> result \<times> ('u, 'w) tcp" where
  "tcp_state_handle_closed E s =
     (let s = (tcp_reset_send_tracking (fst s), snd s);
          (u, g) = (if tc_last_connected_state (fst s) then
                      let (u, g) = tcp_broadcast E EVENT_TCP_DISCONNECTED s in (u\<lparr>tc_last_connected_state := False\<rparr>, g)
                    else s);
          u = u\<lparr>tc_session_up := False, tc_recv_pending := False\<rparr>;
          (u, g) = tcp_shutdown_socket E (u, g)
      in (RESULT_SUCCESS, u\<lparr>tc_reconnect_delay_cycles := 0\<rparr>, g))"

definition tcp_state_handle_error :: "('u, 'w) tcp_env \<Rightarrow> ('u, 'w) tcp \<Rightarrow> result \<times> ('u, 'w) tcp" where
  "tcp_state_handle_error E s =
     (let (u, g) = tcp_shutdown_socket E s in (RESULT_SUCCESS, (tcp_reset_send_tracking u)\<lparr>tc_reconnect_delay_cycles := 0\<rparr>, g))"

definition tcp_target_cycles :: "tcp_config option \<Rightarrow> nat" where
  "tcp_target_cycles config =
     (let target_cycles = (case config of
              None \<Rightarrow> RECONNECT_DELAY_CYCLES
            | Some c \<Rightarrow> if tcf_retry_interval_ms c > 0 then tcf_retry_interval_ms c div TCP_TASK_INTERVAL_MS
                else RECONNECT_DELAY_CYCLES)
      in if target_cycles = 0 then 1 else target_cycles)"

definition tcp_state_handle_reconnect_delay :: "('u, 'w) tcp \<Rightarrow> result \<times> ('u, 'w) tcp" where
  "tcp_state_handle_reconnect_delay s =
     (let (u, g) = s; n = u32 (tc_reconnect_delay_cycles u + 1) in
      if n \<ge> tcp_target_cycles (tc_config u) then (RESULT_SUCCESS, u\<lparr>tc_reconnect_delay_cycles := 0\<rparr>, g)
      else (RESULT_BUSY, u\<lparr>tc_reconnect_delay_cycles := n\<rparr>, g))"

subsection \<open>Receiving\<close>

text \<open>\<open>command_manager_accept_request\<close>: a push to the queue of the command module, once its manager is ready.\<close>

definition command_manager_accept_request ::
    "('u, 'w) tcp_env \<Rightarrow> module_message \<Rightarrow> ('u, 'w) gateway \<Rightarrow> result \<times> ('u, 'w) gateway" where
  "command_manager_accept_request E request g =
     (case module_manager_get_config MODULE_ID_CMD g of
        None \<Rightarrow> (RESULT_ERROR, g)
      | Some c \<Rightarrow>
          if \<not> tv_command_ready E (gw_world g) \<or> mc_msg_q c = None then (RESULT_ERROR, g)
          else let (r, g) = push_to_module (tv_os E) MODULE_ID_CMD request g
            in (if r = RESULT_SUCCESS then RESULT_SUCCESS else RESULT_BUSY, g))"

text \<open>The address buffer has 32 characters, that of the message 64: an address that \<open>snprintf\<close> had to cut
  still fits the message, but one that would need 64 or more characters does not and is left out.\<close>

definition tcp_peer_address :: "tcp_config option \<Rightarrow> string option" where
  "tcp_peer_address config =
     (case config of
        None \<Rightarrow> None
      | Some c \<Rightarrow>
          let (addr_len, text) = snprintf 32 (tcf_server_ip c @ '':'' @ dec (tcf_server_port c))
          in if addr_len > 0 \<and> addr_len < 64 then Some text else None)"

definition tcp_command_message :: "tcp_config option \<Rightarrow> bytes \<Rightarrow> module_message" where
  "tcp_command_message config received =
     (let m = set_address (tcp_peer_address config) (blank_message MODULE_ID_TCP MODULE_ID_CMD);
          (copied, bs) = message_text (text_of received)
      in if copied \<ge> 0 then m\<lparr>mm_message := bs, mm_data_len := nat copied\<rparr> else m)"

text \<open>The result: may more data be pending?\<close>

definition tcp_try_recv_once_and_dispatch :: "('u, 'w) tcp_env \<Rightarrow> ('u, 'w) tcp \<Rightarrow> bool \<times> ('u, 'w) tcp" where
  "tcp_try_recv_once_and_dispatch E s =
     (let fd = tc_tcp_fd (fst s) in
      if fd < 0 then (False, s)
      else
        let (rlen, received, w) = tf_recv (tv_tcp E) fd (TCP_RECV_BUF_SIZE - 1) (tcp_world s); s = set_tcp_world w s in
        if rlen > 0 then
          if rlen < 5 then (True, s)
          else (True, fst s, snd (command_manager_accept_request E
                 (tcp_command_message (tc_config (fst s)) (take (nat rlen) received)) (snd s)))
        else if rlen = 0 then (False, s)
        else
          let (err, s) = tcp_call (tf_get_sock_errno (tv_tcp E) fd) s in
          if err = EAGAIN then (False, s)
          else let (err, s) = tcp_call (tf_get_sock_errno (tv_tcp E) fd) s in (False, s))"

subsection \<open>Socket events\<close>

definition SDK_NETCONN_EVT_RCVPLUS :: nat where "SDK_NETCONN_EVT_RCVPLUS = 0"
definition SDK_NETCONN_EVT_SENDPLUS :: nat where "SDK_NETCONN_EVT_SENDPLUS = 2"
definition SDK_NETCONN_EVT_SENDMINUS :: nat where "SDK_NETCONN_EVT_SENDMINUS = 3"
definition SDK_NETCONN_EVT_CONNECTED :: nat where "SDK_NETCONN_EVT_CONNECTED = 4"
definition SDK_NETCONN_EVT_ERROR_CLSD :: nat where "SDK_NETCONN_EVT_ERROR_CLSD = 6"
definition SDK_NETCONN_EVT_ERROR_RST :: nat where "SDK_NETCONN_EVT_ERROR_RST = 7"
definition SDK_NETCONN_EVT_ERROR_ABRT :: nat where "SDK_NETCONN_EVT_ERROR_ABRT = 8"
definition SDK_NETCONN_EVT_CLOSE_WAIT :: nat where "SDK_NETCONN_EVT_CLOSE_WAIT = 9"
definition SDK_NETCONN_EVT_SENDACKED :: nat where "SDK_NETCONN_EVT_SENDACKED = 10"
definition SDK_NETCONN_EVT_CLOSE_NORMAL :: nat where "SDK_NETCONN_EVT_CLOSE_NORMAL = 11"
definition SDK_NETCONN_EVT_ERROR :: nat where "SDK_NETCONN_EVT_ERROR = 12"

lemmas netconn_events = SDK_NETCONN_EVT_RCVPLUS_def SDK_NETCONN_EVT_SENDPLUS_def SDK_NETCONN_EVT_SENDMINUS_def
  SDK_NETCONN_EVT_CONNECTED_def SDK_NETCONN_EVT_ERROR_CLSD_def SDK_NETCONN_EVT_ERROR_RST_def
  SDK_NETCONN_EVT_ERROR_ABRT_def SDK_NETCONN_EVT_CLOSE_WAIT_def SDK_NETCONN_EVT_SENDACKED_def
  SDK_NETCONN_EVT_CLOSE_NORMAL_def SDK_NETCONN_EVT_ERROR_def

definition closing_events :: "nat list" where
  "closing_events = [SDK_NETCONN_EVT_CLOSE_WAIT, SDK_NETCONN_EVT_CLOSE_NORMAL, SDK_NETCONN_EVT_ERROR_CLSD,
     SDK_NETCONN_EVT_ERROR_RST, SDK_NETCONN_EVT_ERROR_ABRT, SDK_NETCONN_EVT_ERROR]"

text \<open>The other events are only logged. Every branch of the \<open>CONNECTED\<close> case but the duplicate sets the
  state to \<open>CONNECTED\<close>, which a duplicate has already.\<close>

definition tcp_socket_event_callback :: "int \<Rightarrow> nat \<Rightarrow> nat \<Rightarrow> tcp_client \<Rightarrow> tcp_client" where
  "tcp_socket_event_callback fd evt len u =
     (let current_state = tc_state u in
      if fd \<noteq> tc_tcp_fd u \<or> tc_tcp_fd u < 0 then u
      else if current_state = TCP_STATE_CLOSED then u
      else if evt = SDK_NETCONN_EVT_CONNECTED then set_state TCP_STATE_CONNECTED u
      else if evt = SDK_NETCONN_EVT_SENDACKED then
        (if tc_bytes_sent u > 0 then
           let u = u\<lparr>tc_bytes_acked := tc_bytes_acked u + int len\<rparr> in
           if tc_bytes_acked u \<ge> tc_bytes_sent u then
             (if tc_state u = TCP_STATE_WAIT_ACK_LOGIN \<or> tc_state u = TCP_STATE_WAIT_ACK_DATA
              then set_state TCP_STATE_ACK_RECEIVED u else u)
           else u
         else u)
      else if evt = SDK_NETCONN_EVT_RCVPLUS then u\<lparr>tc_recv_pending := True\<rparr>
      else if evt \<in> set closing_events then
        set_state TCP_STATE_CLOSED
          (if current_state = TCP_STATE_SENDING_DATA \<or> current_state = TCP_STATE_WAIT_ACK_DATA \<or>
              current_state = TCP_STATE_SENDING_LOGIN \<or> current_state = TCP_STATE_WAIT_ACK_LOGIN
           then tcp_reset_send_tracking u else u)
      else u)"

subsection \<open>Timeouts\<close>

text \<open>State, timeout, and does the state re-anchor the overall timeout?\<close>

definition g_tcp_state_timeouts :: "(tcp_state \<times> nat \<times> bool) list" where
  "g_tcp_state_timeouts =
     [(TCP_STATE_WAIT_NETWORK, 60000, False), (TCP_STATE_SOCKET_CREATING, 20000, False),
      (TCP_STATE_SOCKET_CREATED, 5000, False), (TCP_STATE_CONNECTING, 30000, False), (TCP_STATE_CONNECTED, 0, True),
      (TCP_STATE_SENDING_LOGIN, 10000, False), (TCP_STATE_WAIT_ACK_LOGIN, 20000, False),
      (TCP_STATE_ACK_RECEIVED, 0, True), (TCP_STATE_SENDING_DATA, 100000, False), (TCP_STATE_WAIT_ACK_DATA, 30000, False),
      (TCP_STATE_RECEIVING, 0, False), (TCP_STATE_RECONNECT_DELAY, 20000, False)]"

definition tcp_state_timeout :: "tcp_client \<Rightarrow> nat" where
  "tcp_state_timeout u =
     (case (tc_state u, tc_config u) of
        (TCP_STATE_CONNECTING, Some c) \<Rightarrow> tcf_connection_timeout_ms c
      | _ \<Rightarrow> (case map_of g_tcp_state_timeouts (tc_state u) of None \<Rightarrow> 0 | Some (t, _) \<Rightarrow> t))"

definition tcp_check_state_timeout :: "('u, 'w) tcp_env \<Rightarrow> ('u, 'w) tcp \<Rightarrow> ('u, 'w) tcp" where
  "tcp_check_state_timeout E s =
     (let (now, u, g) = tcp_ticks E s;
          elapsed = u32_minus now (tc_state_entry_tick u);
          timeout = tcp_state_timeout u
      in if timeout = 0 \<or> elapsed < timeout then (u, g)
         else
           let u = tcp_reset_send_tracking u;
               u = set_state (if tc_state u = TCP_STATE_CLOSED \<or> tc_state u = TCP_STATE_RECONNECT_DELAY
                              then TCP_STATE_INIT else TCP_STATE_CLOSED) u;
               (now, u, g) = tcp_ticks E (u, g)
           in (u\<lparr>tc_state_entry_tick := now\<rparr>, g))"

definition tcp_desired_state :: "tcp_state \<Rightarrow> bool" where
  "tcp_desired_state st \<longleftrightarrow> (\<exists>(st', _, reset_overall) \<in> set g_tcp_state_timeouts. st' = st \<and> reset_overall)"

definition tcp_check_overall_timeout :: "('u, 'w) tcp_env \<Rightarrow> ('u, 'w) tcp \<Rightarrow> ('u, 'w) tcp" where
  "tcp_check_overall_timeout E s =
     (let (now, u, g) = tcp_ticks E s in
      if tcp_desired_state (tc_state u) then (u\<lparr>tc_session_down_since := now\<rparr>, g)
      else if u32_minus now (tc_session_down_since u) < TCP_OVERALL_TIMEOUT_MS then (u, g)
      else
        let u = set_state TCP_STATE_CLOSED (tcp_reset_send_tracking u); (now, u, g) = tcp_ticks E (u, g)
        in (u\<lparr>tc_session_down_since := now\<rparr>, g))"

subsection \<open>The task\<close>

definition tcp_dispatch :: "('u, 'w) tcp_env \<Rightarrow> ('u, 'w) tcp \<Rightarrow> ('u, 'w) tcp" where
  "tcp_dispatch E s =
     (case tc_state (fst s) of
        TCP_STATE_INIT \<Rightarrow> (set_state TCP_STATE_WAIT_NETWORK (fst s), snd s)
      | TCP_STATE_WAIT_NETWORK \<Rightarrow> handle_state (tcp_state_handle_wait_network E s)
          TCP_STATE_SOCKET_CREATING TCP_STATE_ERROR TCP_STATE_WAIT_NETWORK
      | TCP_STATE_SOCKET_CREATING \<Rightarrow> handle_state (tcp_state_handle_socket_creating E s)
          TCP_STATE_SOCKET_CREATED TCP_STATE_ERROR TCP_STATE_SOCKET_CREATING
      | TCP_STATE_SOCKET_CREATED \<Rightarrow> handle_state (tcp_state_handle_socket_created E s)
          TCP_STATE_CONNECTING TCP_STATE_ERROR TCP_STATE_SOCKET_CREATED
      | TCP_STATE_CONNECTING \<Rightarrow> handle_state (tcp_state_handle_connecting E s)
          TCP_STATE_CONNECTED TCP_STATE_ERROR TCP_STATE_CONNECTING
      | TCP_STATE_CONNECTED \<Rightarrow> handle_state (tcp_state_handle_connected E s)
          TCP_STATE_SENDING_LOGIN TCP_STATE_ERROR TCP_STATE_CONNECTED
      | TCP_STATE_SENDING_LOGIN \<Rightarrow> handle_state (tcp_state_handle_sending_login E s)
          TCP_STATE_WAIT_ACK_LOGIN TCP_STATE_ERROR TCP_STATE_SENDING_LOGIN
      | TCP_STATE_WAIT_ACK_LOGIN \<Rightarrow> handle_state (tcp_state_handle_wait_ack_login E s)
          TCP_STATE_ACK_RECEIVED TCP_STATE_ERROR TCP_STATE_WAIT_ACK_LOGIN
      | TCP_STATE_ACK_RECEIVED \<Rightarrow> handle_state (tcp_state_handle_ack_received E s)
          TCP_STATE_SENDING_DATA TCP_STATE_ERROR TCP_STATE_ACK_RECEIVED
      | TCP_STATE_SENDING_DATA \<Rightarrow> handle_state (tcp_state_handle_sending_data E s)
          TCP_STATE_WAIT_ACK_DATA TCP_STATE_ERROR TCP_STATE_SENDING_DATA
      | TCP_STATE_WAIT_ACK_DATA \<Rightarrow> handle_state (tcp_state_handle_wait_ack_data E s)
          TCP_STATE_ACK_RECEIVED TCP_STATE_ERROR TCP_STATE_WAIT_ACK_DATA
      | TCP_STATE_RECEIVING \<Rightarrow> handle_state (tcp_state_handle_receiving s)
          TCP_STATE_SENDING_DATA TCP_STATE_ERROR TCP_STATE_RECEIVING
      | TCP_STATE_CLOSED \<Rightarrow> handle_state (tcp_state_handle_closed E s)
          TCP_STATE_RECONNECT_DELAY TCP_STATE_ERROR TCP_STATE_CLOSED
      | TCP_STATE_RECONNECT_DELAY \<Rightarrow> handle_state (tcp_state_handle_reconnect_delay s)
          TCP_STATE_INIT TCP_STATE_ERROR TCP_STATE_RECONNECT_DELAY
      | TCP_STATE_ERROR \<Rightarrow> handle_state (tcp_state_handle_error E s) TCP_STATE_CLOSED TCP_STATE_ERROR TCP_STATE_ERROR)"

text \<open>The state changed since the last turn: its clock starts.\<close>

definition tcp_note_transition :: "('u, 'w) tcp_env \<Rightarrow> ('u, 'w) tcp \<Rightarrow> ('u, 'w) tcp" where
  "tcp_note_transition E s =
     (if tc_last_state (fst s) \<noteq> tc_state (fst s) then
        let (now, u, g) = tcp_ticks E s in (u\<lparr>tc_last_state := tc_state u, tc_state_entry_tick := now\<rparr>, g)
      else s)"

definition tcp_receive :: "('u, 'w) tcp_env \<Rightarrow> ('u, 'w) tcp \<Rightarrow> ('u, 'w) tcp" where
  "tcp_receive E s =
     (if tc_recv_pending (fst s) then
        let (more, u, g) = tcp_try_recv_once_and_dispatch E s in (if more then u else u\<lparr>tc_recv_pending := False\<rparr>, g)
      else s)"

text \<open>One turn of the loop of \<open>tcp_client_main_loop\<close>. A \<open>tcp_state\<close> is never out of its range, so the test for
  that has no counterpart.\<close>

definition tcp_turn :: "('u, 'w) tcp_env \<Rightarrow> ('u, 'w) tcp \<Rightarrow> ('u, 'w) tcp" where
  "tcp_turn E s =
     (let (u, g) = s;
          u = u\<lparr>tc_total_iterations := u32 (tc_total_iterations u + 1)\<rparr>;
          g = module_manager_update_uptime (tv_os E) MODULE_ID_TCP g;
          u = u\<lparr>tc_task_stats := the (snd (task_stats_update_periodic (Some (tc_task_stats u)) 0))\<rparr>;
          s = tcp_note_transition E (u, g);
          s = tcp_check_state_timeout E s;
          s = tcp_check_overall_timeout E s;
          s = tcp_receive E s;
          s = tcp_dispatch E s
      in set_tcp_world (os_sleep (tv_os E) TCP_TASK_INTERVAL_MS (tcp_world s)) s)"

text \<open>What the task does before its loop.\<close>

definition tcp_client_main_loop_start :: "('u, 'w) tcp_env \<Rightarrow> ('u, 'w) tcp \<Rightarrow> ('u, 'w) tcp" where
  "tcp_client_main_loop_start E s =
     (let s = ((fst s)\<lparr>tc_last_state := tc_state (fst s)\<rparr>, snd s);
          (now, u, g) = tcp_ticks E s; u = u\<lparr>tc_state_entry_tick := now\<rparr>;
          (now, u, g) = tcp_ticks E (u, g)
      in (u\<lparr>tc_session_down_since := now\<rparr>, g))"

subsection \<open>Public interface\<close>

definition weware_tcp_get_state :: "tcp_client \<Rightarrow> tcp_state" where
  "weware_tcp_get_state u = tc_state u"

definition weware_tcp_is_ready :: "tcp_client \<Rightarrow> bool" where
  "weware_tcp_is_ready u = tc_session_up u"

definition tcp_data_message :: "bytes \<Rightarrow> module_message" where
  "tcp_data_message data = (blank_message MODULE_ID_TCP MODULE_ID_TCP)\<lparr>
     mm_message := write_at (replicate MODULE_MESSAGE_INLINE_SIZE 0) 0 data, mm_data_len := length data\<rparr>"

definition weware_tcp_send :: "('u, 'w) tcp_env \<Rightarrow> bytes option \<Rightarrow> ('u, 'w) gateway \<Rightarrow> result \<times> ('u, 'w) gateway" where
  "weware_tcp_send E data g =
     (case data of
        None \<Rightarrow> (RESULT_INVALID_PARAM, g)
      | Some d \<Rightarrow>
          if length d = 0 \<or> length d > MODULE_MESSAGE_INLINE_SIZE then (RESULT_INVALID_PARAM, g)
          else case tcp_queue g of
            None \<Rightarrow> (RESULT_ERROR, g)
          | Some (cfg, h, q) \<Rightarrow>
              if qc_element_size cfg = 0 then (RESULT_ERROR, g)
              else
                let (qr, q, w) = queue_push (os_flash (tv_os E)) (os_msg_abi (tv_os E)) True cfg q (tcp_data_message d) (gw_world g);
                    g = set_tcp_queue (Some (h, q)) (g\<lparr>gw_world := w\<rparr>)
                in (if qr \<noteq> RESULT_SUCCESS then (if qr = RESULT_BUSY then RESULT_BUSY else RESULT_ERROR) else RESULT_SUCCESS, g))"

definition weware_tcp_reset_connection :: "tcp_client \<Rightarrow> result \<times> tcp_client" where
  "weware_tcp_reset_connection u = (RESULT_SUCCESS, set_state TCP_STATE_CLOSED u)"

text \<open>The creation of the send queue, when the module has none yet: did it fail?\<close>

definition tcp_create_queue :: "('u, 'w) tcp_env \<Rightarrow> ('u, 'w) gateway \<Rightarrow> bool \<times> ('u, 'w) gateway" where
  "tcp_create_queue E g =
     (case module_manager_get_module MODULE_ID_TCP g of
        None \<Rightarrow> (False, g)
      | Some m \<Rightarrow>
          let cfg = mc_msg_q_config (m_config m) in
          if mc_msg_q (m_config m) = None \<and> qc_element_size cfg > 0 \<and> qc_capacity cfg > 0 then
            let ((h, buf_ok, mutex_ok, junk), w) = tv_queue_alloc E (gw_world g);
                (r, hq, qs, pb, w) = queue_manager_create (os_flash (tv_os E)) (os_msg_abi (tv_os E)) True h buf_ok mutex_ok junk
                   cfg (gw_queues g) (gw_pre_boot g) w;
                g = g\<lparr>gw_queues := qs, gw_pre_boot := pb, gw_world := w\<rparr>
            in if r \<noteq> RESULT_SUCCESS then (True, g) else (False, set_tcp_queue hq g)
          else (False, g))"

text \<open>\<open>config\<close> is what \<open>weware_tcp_config_get\<close> points to.\<close>

definition weware_tcp_init :: "('u, 'w) tcp_env \<Rightarrow> tcp_config \<Rightarrow> ('u, 'w) tcp \<Rightarrow> result \<times> ('u, 'w) tcp" where
  "weware_tcp_init E config s =
     (let (u, g) = s in
      if tc_initialized u then (RESULT_SUCCESS, s)
      else
        let u = u\<lparr>tc_config := Some config\<rparr>; (failed, g) = tcp_create_queue E g in
        if failed then (RESULT_ERROR, u, g)
        else
          let u = tcp_reset_send_tracking u;
              (task, w) = (case tc_task u of None \<Rightarrow> tv_task_create E (gw_world g) | Some t \<Rightarrow> (Some t, gw_world g));
              g = g\<lparr>gw_world := w\<rparr>; u = u\<lparr>tc_task := task\<rparr>
          in if task = None then (RESULT_ERROR, u, g) else (RESULT_SUCCESS, u\<lparr>tc_initialized := True\<rparr>, g))"

text \<open>The record after \<open>memset\<close>; the variables beside \<open>g_tcp_client\<close> are kept.\<close>

definition tcp_client_zero :: "tcp_client \<Rightarrow> tcp_client" where
  "tcp_client_zero u = u\<lparr>tc_initialized := False, tc_state := TCP_STATE_INIT, tc_tcp_fd := 0, tc_last_connected_state := False,
     tc_session_up := False, tc_config := None, tc_bytes_sent := 0, tc_bytes_acked := 0, tc_batch_count := 0,
     tc_recv_pending := False, tc_state_entry_tick := 0, tc_session_down_since := 0, tc_total_iterations := 0,
     tc_reconnect_delay_cycles := 0\<rparr>"

definition weware_tcp_deinit :: "('u, 'w) tcp_env \<Rightarrow> ('u, 'w) tcp \<Rightarrow> result \<times> ('u, 'w) tcp" where
  "weware_tcp_deinit E s =
     (if \<not> tc_initialized (fst s) then (RESULT_SUCCESS, s)
      else
        let (u, g) = s;
            (u, g) = (case tc_task u of None \<Rightarrow> (u, g)
                      | Some t \<Rightarrow> (u\<lparr>tc_task := None\<rparr>, g\<lparr>gw_world := tv_task_delete E t (gw_world g)\<rparr>));
            (u, g) = (if tc_tcp_fd u \<ge> 0 then
                        let (_, u, g) = tcp_call (tf_close (tv_tcp E) (tc_tcp_fd u)) (u, g) in (u\<lparr>tc_tcp_fd := -1\<rparr>, g)
                      else (u, g));
            g = (case module_manager_get_module MODULE_ID_TCP g of
                   None \<Rightarrow> g
                 | Some m \<Rightarrow> (case mc_msg_q (m_config m) of
                       None \<Rightarrow> g
                     | Some (h, q) \<Rightarrow> set_tcp_queue None
                         (g\<lparr>gw_queues := snd (queue_manager_destroy (Some h) (gw_queues g))\<rparr>)));
            u = (tcp_client_zero u)\<lparr>tc_state := TCP_STATE_INIT, tc_tcp_fd := -1\<rparr>
        in (RESULT_SUCCESS, tcp_reset_send_tracking u, g))"

subsection \<open>Executions\<close>

text \<open>The steps of the running module: a turn of the task, an event of the socket layer for a descriptor, a packet
  queued by another module, and a request to reset the connection.\<close>

datatype tcp_event =
    Tcp_Turn
  | Tcp_Socket int nat nat
  | Tcp_Send "bytes option"
  | Tcp_Reset

fun tcp_step :: "('u, 'w) tcp_env \<Rightarrow> tcp_event \<Rightarrow> ('u, 'w) tcp \<Rightarrow> ('u, 'w) tcp" where
  "tcp_step E Tcp_Turn s = tcp_turn E s"
| "tcp_step E (Tcp_Socket fd evt len) s = (tcp_socket_event_callback fd evt len (fst s), snd s)"
| "tcp_step E (Tcp_Send data) s = (fst s, snd (weware_tcp_send E data (snd s)))"
| "tcp_step E Tcp_Reset s = (snd (weware_tcp_reset_connection (fst s)), snd s)"

fun tcp_run :: "('u, 'w) tcp_env \<Rightarrow> tcp_event list \<Rightarrow> ('u, 'w) tcp \<Rightarrow> ('u, 'w) tcp" where
  "tcp_run E [] s = s"
| "tcp_run E (e # es) s = tcp_run E es (tcp_step E e s)"

end
