(* ===== verification/Flash_Frame.thy ===== *)
theory Flash_Frame
  imports Queue_Manager
begin

text \<open>
  What the queue operations leave alone: a property of the world that every flash call keeps is kept by every
  queue operation. The locale \<open>flash_frame\<close> is the contract; it is interpreted on the observations \<open>f\<close> that
  the flash calls do not change (\<open>flash_keeps F f\<close>).
\<close>

inductive_set flash_calls :: "'w flash \<Rightarrow> ('w \<Rightarrow> 'w) set" for F where
  Open: "(\<lambda>w. snd (f_open F p m w)) \<in> flash_calls F"
| Close: "(\<lambda>w. snd (f_close F h w)) \<in> flash_calls F"
| Write: "(\<lambda>w. snd (snd (f_write F h d w))) \<in> flash_calls F"
| Read: "(\<lambda>w. snd (snd (f_read F h n w))) \<in> flash_calls F"
| Seek: "(\<lambda>w. snd (f_seek F h n w)) \<in> flash_calls F"
| Exists: "(\<lambda>w. snd (f_exists F p w)) \<in> flash_calls F"
| Delete: "(\<lambda>w. snd (f_delete F p w)) \<in> flash_calls F"
| Mkdir: "(\<lambda>w. snd (f_mkdir F p w)) \<in> flash_calls F"

locale flash_frame =
  fixes F :: "'w flash" and P :: "'w \<Rightarrow> bool"
  assumes calls_keep: "f \<in> flash_calls F \<Longrightarrow> P w \<Longrightarrow> P (f w)"
begin

lemma open_keeps: "f_open F p m w = (r, w') \<Longrightarrow> P w \<Longrightarrow> P w'"
  using calls_keep [OF flash_calls.Open] by (metis snd_conv)

lemma close_keeps: "f_close F h w = (r, w') \<Longrightarrow> P w \<Longrightarrow> P w'"
  using calls_keep [OF flash_calls.Close] by (metis snd_conv)

lemma write_keeps: "f_write F h d w = (ok, n, w') \<Longrightarrow> P w \<Longrightarrow> P w'"
  using calls_keep [OF flash_calls.Write] by (metis snd_conv)

lemma read_keeps: "f_read F h n w = (ok, bs, w') \<Longrightarrow> P w \<Longrightarrow> P w'"
  using calls_keep [OF flash_calls.Read] by (metis snd_conv)

lemma seek_keeps: "f_seek F h n w = (ok, w') \<Longrightarrow> P w \<Longrightarrow> P w'"
  using calls_keep [OF flash_calls.Seek] by (metis snd_conv)

lemma exists_keeps: "f_exists F p w = (ok, w') \<Longrightarrow> P w \<Longrightarrow> P w'"
  using calls_keep [OF flash_calls.Exists] by (metis snd_conv)

lemma delete_keeps: "f_delete F p w = (ok, w') \<Longrightarrow> P w \<Longrightarrow> P w'"
  using calls_keep [OF flash_calls.Delete] by (metis snd_conv)

lemma mkdir_keeps: "f_mkdir F p w = (ok, w') \<Longrightarrow> P w \<Longrightarrow> P w'"
  using calls_keep [OF flash_calls.Mkdir] by (metis snd_conv)

lemma make_room_keeps: "file_make_room F cfg n q w = (q', w') \<Longrightarrow> P w \<Longrightarrow> P w'"
  by (auto simp: file_make_room_def Let_def split: prod.splits if_splits dest: delete_keeps)

lemma compact_write_keeps: "queue_tcp_file_write_compact_record F h m w = (r, n, w') \<Longrightarrow> P w \<Longrightarrow> P w'"
  by (auto simp: queue_tcp_file_write_compact_record_def Let_def split: option.splits prod.splits if_splits dest: write_keeps)

lemma write_record_keeps: "file_write_record F A cfg h e w = (r, n, w') \<Longrightarrow> P w \<Longrightarrow> P w'"
  by (auto simp: file_write_record_def Let_def split: prod.splits if_splits dest: write_keeps compact_write_keeps)

lemma append_keeps: "queue_file_append F A cfg q e w = (r, q', w') \<Longrightarrow> P w \<Longrightarrow> P w'"
  by (auto simp: queue_file_append_def Let_def split: prod.splits if_splits option.splits
      dest!: make_room_keeps open_keeps write_record_keeps close_keeps)

lemma push_keeps: "queue_push F A ok cfg q d w = (r, q', w') \<Longrightarrow> P w \<Longrightarrow> P w'"
  by (auto simp: queue_push_def Let_def split: prod.splits if_splits option.splits dest: append_keeps)

lemma compact_read_keeps: "queue_tcp_file_read_compact_record F h off n w = (r, m, off', w') \<Longrightarrow> P w \<Longrightarrow> P w'"
  by (auto simp: queue_tcp_file_read_compact_record_def Let_def split: prod.splits if_splits dest!: seek_keeps read_keeps)

lemma read_record_keeps: "file_read_record F A cfg h q w = (r, e, off, w') \<Longrightarrow> P w \<Longrightarrow> P w'"
  by (auto simp: file_read_record_def Let_def split: prod.splits if_splits dest!: seek_keeps read_keeps compact_read_keeps)

lemma file_read_keeps: "queue_file_read F A cfg q w = (r, e, q', w') \<Longrightarrow> P w \<Longrightarrow> P w'"
  by (auto simp: queue_file_read_def Let_def split: prod.splits if_splits option.splits
      dest!: open_keeps read_record_keeps close_keeps delete_keeps)

lemma pop_loop_keeps: "pop_loop F A cfg n q w = (es, q', w') \<Longrightarrow> P w \<Longrightarrow> P w'"
proof (induction n arbitrary: q w es)
  case 0
  then show ?case by simp
next
  case (Suc n)
  then show ?case by (auto split: prod.splits if_splits option.splits dest: file_read_keeps)
qed

lemma pop_keeps: "queue_pop F A ok cfg n q w = (r, es, q', w') \<Longrightarrow> P w \<Longrightarrow> P w'"
  by (auto simp: queue_pop_def Let_def split: prod.splits if_splits dest: pop_loop_keeps)

lemma peek_record_loop_keeps: "peek_record_loop F h n i off w = (r, m, w') \<Longrightarrow> P w \<Longrightarrow> P w'"
proof (induction i arbitrary: off w)
  case 0
  then show ?case by (auto split: prod.splits if_splits dest: compact_read_keeps)
next
  case (Suc i)
  then show ?case by (auto simp: Let_def split: prod.splits if_splits dest!: seek_keeps read_keeps)
qed

lemma peek_element_keeps: "queue_file_peek_element F A cfg q i w = (r, e, w') \<Longrightarrow> P w \<Longrightarrow> P w'"
  by (auto simp: queue_file_peek_element_def Let_def split: prod.splits if_splits option.splits
      dest!: open_keeps peek_record_loop_keeps seek_keeps read_keeps close_keeps)

lemma peek_loop_keeps: "peek_loop F A cfg q slots i n w = (es, w') \<Longrightarrow> P w \<Longrightarrow> P w'"
proof (induction n arbitrary: i w es)
  case 0
  then show ?case by simp
next
  case (Suc n)
  then show ?case by (auto split: prod.splits if_splits option.splits dest: peek_element_keeps)
qed

lemma count_records_loop_keeps: "count_records_loop F h n off cnt w = (m, w') \<Longrightarrow> P w \<Longrightarrow> P w'"
proof (induction "n - off" arbitrary: off cnt w rule: less_induct)
  case less
  obtain b w1 where s: "f_seek F h off w = (b, w1)" by fastforce
  obtain ok hdr w2 where r: "f_read F h 3 w1 = (ok, hdr, w2)" by (metis prod_cases3)
  have P2: "P w2" using s r less.prems(2) by (blast intro: seek_keeps read_keeps)
  have eq: "count_records_loop F h n off cnt w = (m, w')" by fact
  show ?case
  proof (cases "off + 3 \<le> n \<and> ok \<and> length hdr = 3 \<and> hdr_len hdr \<noteq> 0 \<and> hdr_len hdr \<le> MODULE_MESSAGE_INLINE_SIZE \<and> off + 3 + hdr_len hdr \<le> n")
    case True
    then have "count_records_loop F h n (off + 3 + hdr_len hdr) (cnt + 1) w2 = (m, w')"
      using eq s r by (simp add: count_records_loop.simps [of F h n off cnt w])
    moreover have "n - (off + 3 + hdr_len hdr) < n - off" using True by linarith
    ultimately show ?thesis using less.hyps P2 by blast
  next
    case False
    then show ?thesis using eq s r less.prems(2) P2
      by (auto simp: count_records_loop.simps [of F h n off cnt w] split: if_splits)
  qed
qed

lemma count_records_keeps: "queue_tcp_file_count_records F q cfg w = (n, w') \<Longrightarrow> P w \<Longrightarrow> P w'"
  by (auto simp: queue_tcp_file_count_records_def Let_def split: prod.splits if_splits option.splits
      dest!: open_keeps count_records_loop_keeps close_keeps)

lemma slot_count_keeps: "file_slot_count F cfg q w = (n, w') \<Longrightarrow> P w \<Longrightarrow> P w'"
  by (auto simp: file_slot_count_def split: if_splits dest: count_records_keeps)

lemma peek_batch_keeps: "queue_peek_batch F A ok cfg n q w = (r, es, w') \<Longrightarrow> P w \<Longrightarrow> P w'"
  by (auto simp: queue_peek_batch_def Let_def split: prod.splits if_splits dest!: slot_count_keeps peek_loop_keeps)

lemma write_file_keeps: "file_system_write_file F p d n w = (r, w') \<Longrightarrow> P w \<Longrightarrow> P w'"
  by (auto simp: file_system_write_file_def open_for_write_def fs_ensure_parent_dir_def Let_def
      split: prod.splits if_splits option.splits dest!: open_keeps write_keeps close_keeps exists_keeps mkdir_keeps)

lemma clear_offset_keeps: "pre_boot_handler_clear_tcp_send_queue_offset F pb w = (r, pb', w') \<Longrightarrow> P w \<Longrightarrow> P w'"
  by (auto simp: pre_boot_handler_clear_tcp_send_queue_offset_def disk_store_def disk_write_def split: prod.splits
      dest: write_file_keeps)

lemma clear_snapshot_keeps: "queue_persist_clear_snapshot_after_consume F ok cfg q pb w = (r, pb', w') \<Longrightarrow> P w \<Longrightarrow> P w'"
  by (auto simp: queue_persist_clear_snapshot_after_consume_def queue_persist_delete_snapshot_def Let_def
      split: prod.splits if_splits dest!: clear_offset_keeps exists_keeps delete_keeps)

end

text \<open>The observations the flash calls do not change.\<close>

definition flash_keeps :: "'w flash \<Rightarrow> ('w \<Rightarrow> 'x) \<Rightarrow> bool" where
  "flash_keeps F f \<longleftrightarrow> (\<forall>c \<in> flash_calls F. \<forall>w. f (c w) = f w)"

interpretation observe: flash_frame F "\<lambda>w. flash_keeps F f \<and> f w = x" for F :: "'w flash" and f :: "'w \<Rightarrow> 'x" and x
  by unfold_locales (auto simp: flash_keeps_def)

subsection \<open>A flash inside a larger world\<close>

definition flash_at :: "('v \<Rightarrow> 'w) \<Rightarrow> ('w \<Rightarrow> 'v \<Rightarrow> 'v) \<Rightarrow> 'w flash \<Rightarrow> 'v flash" where
  "flash_at get put F =
     (let at = \<lambda>f v. let (r, w) = f (get v) in (r :: bool, put w v) in
      \<lparr>f_open = \<lambda>p m v. (let (r, w) = f_open F p m (get v) in (r, put w v)), f_close = \<lambda>h. at (f_close F h),
       f_write = \<lambda>h d v. (let (r, n, w) = f_write F h d (get v) in (r, n, put w v)),
       f_read = \<lambda>h n v. (let (r, bs, w) = f_read F h n (get v) in (r, bs, put w v)),
       f_seek = \<lambda>h n. at (f_seek F h n), f_size = \<lambda>h v. (let (r, n, w) = f_size F h (get v) in (r, n, put w v)),
       f_exists = \<lambda>p. at (f_exists F p), f_delete = \<lambda>p. at (f_delete F p),
       f_mkdir = \<lambda>p v. (let (r, w) = f_mkdir F p (get v) in (r, put w v)),
       f_rename = \<lambda>p q v. (let (r, w) = f_rename F p q (get v) in (r, put w v)),
       f_seek_cur = \<lambda>h n. at (f_seek_cur F h n), f_sync = \<lambda>h. at (f_sync F h)\<rparr>)"

lemma flash_at_laws:
  assumes g: "\<And>w v. get (put w v) = w" and L: "flash_laws F C H"
  shows "flash_laws (flash_at get put F) (\<lambda>v. C (get v)) (\<lambda>v. H (get v))"
  unfolding flash_laws_def
proof (intro conjI)
  show "open_law (flash_at get put F) (\<lambda>v. C (get v)) (\<lambda>v. H (get v))"
    unfolding open_law_def
  proof (intro allI impI)
    fix p m v r v'
    assume "f_open (flash_at get put F) p m v = (r, v')"
    then obtain w where "f_open F p m (get v) = (r, w)" "v' = put w v"
      by (auto simp: flash_at_def Let_def split: prod.splits)
    then show "case r of None \<Rightarrow> C (get v') = C (get v)
        | Some h \<Rightarrow> if m = ''rb'' then C (get v) p \<noteq> None \<and> C (get v') = C (get v) \<and> H (get v') h = Some (p, 0, False)
          else if m = ''wb'' \<or> m = ''wb+'' then C (get v') = (C (get v))(p \<mapsto> []) \<and> H (get v') h = Some (p, 0, False)
          else if m = ''ab+'' then
            C (get v') = (C (get v))(p \<mapsto> (case C (get v) p of None \<Rightarrow> [] | Some c \<Rightarrow> c)) \<and> (\<exists>k. H (get v') h = Some (p, k, True))
          else True"
      using open_spec [OF L] g by simp
  qed
  show "write_law (flash_at get put F) (\<lambda>v. C (get v)) (\<lambda>v. H (get v))"
    unfolding write_law_def by (auto simp: flash_at_def Let_def g split: prod.splits dest: write_spec [OF L])
  show "read_law (flash_at get put F) (\<lambda>v. C (get v)) (\<lambda>v. H (get v))"
    unfolding read_law_def by (auto simp: flash_at_def Let_def g split: prod.splits dest: read_spec [OF L])
  show "seek_law (flash_at get put F) (\<lambda>v. C (get v)) (\<lambda>v. H (get v))"
    unfolding seek_law_def by (auto simp: flash_at_def Let_def g split: prod.splits dest: seek_spec [OF L])
  show "skip_law (flash_at get put F) (\<lambda>v. C (get v)) (\<lambda>v. H (get v))"
    unfolding skip_law_def by (auto simp: flash_at_def Let_def g split: prod.splits dest: skip_spec [OF L])
  show "path_law (flash_at get put F) (\<lambda>v. C (get v)) (\<lambda>v. H (get v))"
    unfolding path_law_def
    by (auto simp: flash_at_def Let_def g path_specs [OF L] split: prod.splits dest: path_specs [OF L])
qed

lemma flash_at_reliable:
  assumes g: "\<And>w v. get (put w v) = w" and R: "flash_reliable F C H"
  shows "flash_reliable (flash_at get put F) (\<lambda>v. C (get v)) (\<lambda>v. H (get v))"
  using R unfolding flash_reliable_def by (simp add: flash_at_def Let_def split_beta) blast

lemma flash_at_keeps:
  assumes "\<And>w v. f (put w v) = f v"
  shows "flash_keeps (flash_at get put F) f"
  unfolding flash_keeps_def by (auto elim!: flash_calls.cases simp: flash_at_def Let_def assms split: prod.split)

end
