(* ===== verification/Tcp_Delivery.thy ===== *)
theory Tcp_Delivery
  imports Tcp_Client Flash_Frame Queue_Snapshot "HOL-Library.Sublist"
begin

text \<open>
  What becomes of the packets in the TCP send queue: the client hands them to the socket layer in order and
  removes them when the bytes it handed over are acknowledged. The locale \<open>tcp_link\<close> is what the client
  relies on: \<open>T\<close> is what the socket layer has accepted so far.
\<close>

subsection \<open>Rows of the queue\<close>

text \<open>A message whose payload is inside it. Only such messages are queued by the modules.\<close>

definition plain_row :: "module_message \<Rightarrow> bool" where
  "plain_row e \<longleftrightarrow> \<not> mm_use_dynamic_buffer e \<and> mm_data_len e \<le> length (mm_message e)"

definition row_view :: "module_message abi \<Rightarrow> module_message \<Rightarrow> bool \<times> bytes" where
  "row_view A e = (plain_row e, tcp_view A e)"

definition row_rel :: "'w flash \<Rightarrow> 'w contents \<Rightarrow> 'w handles \<Rightarrow> module_message abi \<Rightarrow> queue_config \<Rightarrow>
    module_message queue \<Rightarrow> 'w \<Rightarrow> (bool \<times> bytes) list \<Rightarrow> bool" where
  "row_rel F C H A cfg q w xs \<longleftrightarrow> tcp_rel F C H A cfg q w (map snd xs) \<and> list_all fst xs \<and>
     (\<forall>m. e_message A m = m \<and> e_of_message A m = m)"

lemma plain_restored: "length p \<le> MODULE_MESSAGE_INLINE_SIZE \<Longrightarrow> plain_row (restored_message s p)"
  by (simp add: plain_row_def restored_message_def)

lemma compact_record_plain:
  "queue_tcp_file_read_compact_record F h off n w = (r, Some m, off', w') \<Longrightarrow> plain_row m"
  by (auto simp: queue_tcp_file_read_compact_record_def Let_def split: prod.splits if_splits intro!: plain_restored)

lemma peek_record_plain: "peek_record_loop F h n i off w = (r, Some m, w') \<Longrightarrow> plain_row m"
proof (induction i arbitrary: off w)
  case 0
  then show ?case by (auto split: prod.splits if_splits intro: compact_record_plain)
next
  case (Suc i)
  then show ?case by (auto simp: Let_def split: prod.splits if_splits)
qed

lemma file_read_plain:
  assumes "queue_file_read F A cfg q w = (r, Some e, q', w')" and "queue_is_tcp_send_q cfg" and "\<forall>m. e_of_message A m = m"
  shows "plain_row e"
  using assms compact_record_plain
  by (fastforce simp: queue_file_read_def file_read_record_def Let_def split: prod.splits if_splits option.splits)

lemma file_peek_plain:
  assumes "queue_file_peek_element F A cfg q i w = (r, Some e, w')" and "queue_is_tcp_send_q cfg" and "\<forall>m. e_of_message A m = m"
  shows "plain_row e"
  using assms peek_record_plain
  by (fastforce simp: queue_file_peek_element_def Let_def split: prod.splits if_splits option.splits)

interpretation rows: overflow_format F A cfg "row_rel F C H A cfg" "row_view A" "\<lambda>e. tcp_storable A e \<and> plain_row e"
    "\<lambda>q e. clears_size cfg (3 + length (tcp_view A e)) q" for F :: "'w flash" and C H and A :: "module_message abi" and cfg
proof
  fix q :: "module_message queue" and w xs
  assume r: "row_rel F C H A cfg q w xs"
  then have t: "tcp_rel F C H A cfg q w (map snd xs)" by (simp add: row_rel_def)
  show "(queue_has_file cfg \<and> q_file_read_offset q < q_file_size q) = (xs \<noteq> [])"
    using tcp.unread_law [OF t] by simp
  show "row_rel F C H A cfg q' w xs" if "same_file q q'" for q'
    using r tcp.ring_law [OF t that] by (simp add: row_rel_def)
  show "\<exists>q' w'. queue_file_append F A cfg q e w = (RESULT_SUCCESS, q', w') \<and> same_ring q q' \<and>
      row_rel F C H A cfg q' w' ((if clears_size cfg (3 + length (tcp_view A e)) q then [] else xs) @ [row_view A e])"
    if hf: "queue_has_file cfg" and st: "tcp_storable A e \<and> plain_row e" for e
  proof -
    obtain q' w' where a: "queue_file_append F A cfg q e w = (RESULT_SUCCESS, q', w')" "same_ring q q'"
      "tcp_rel F C H A cfg q' w' ((if clears_size cfg (3 + length (tcp_view A e)) q then [] else map snd xs) @ [tcp_view A e])"
      using tcp.append_law [OF t hf] st by blast
    then have "row_rel F C H A cfg q' w' ((if clears_size cfg (3 + length (tcp_view A e)) q then [] else xs) @ [row_view A e])"
      using r st by (auto simp: row_rel_def row_view_def)
    then show ?thesis using a(1,2) by blast
  qed
  show "\<exists>w'. file_slot_count F cfg q w = (length xs, w') \<and> row_rel F C H A cfg q w' xs" if "xs \<noteq> []"
    using tcp.count_law [OF t] that r by (auto simp: row_rel_def)
  show "\<exists>e w'. queue_file_peek_element F A cfg q i w = (RESULT_SUCCESS, Some e, w') \<and> row_view A e = xs ! i \<and>
      row_rel F C H A cfg q w' xs" if i: "i < length xs" for i
  proof -
    obtain e w' where e: "queue_file_peek_element F A cfg q i w = (RESULT_SUCCESS, Some e, w')" "tcp_view A e = snd (xs ! i)"
      "tcp_rel F C H A cfg q w' (map snd xs)"
      using tcp.peek_law [OF t, of i] i by auto
    have "plain_row e" using file_peek_plain [OF e(1)] r by (simp add: row_rel_def tcp_rel_def)
    moreover have "fst (xs ! i)" using r i by (simp add: row_rel_def list_all_length)
    ultimately show ?thesis using e r by (auto simp: row_rel_def row_view_def prod_eq_iff)
  qed
next
  fix q :: "module_message queue" and w x xs
  assume r: "row_rel F C H A cfg q w (x # xs)"
  then have t: "tcp_rel F C H A cfg q w (snd x # map snd xs)" by (simp add: row_rel_def)
  obtain e q' w' where e: "queue_file_read F A cfg q w = (RESULT_SUCCESS, Some e, q', w')" "same_ring q q'" "tcp_view A e = snd x"
    "tcp_rel F C H A cfg q' w' (map snd xs)"
    using tcp.read_law [OF t] by blast
  have "plain_row e" using file_read_plain [OF e(1)] r by (simp add: row_rel_def tcp_rel_def)
  then show "\<exists>e q' w'. queue_file_read F A cfg q w = (RESULT_SUCCESS, Some e, q', w') \<and> same_ring q q' \<and>
      row_view A e = x \<and> row_rel F C H A cfg q' w' xs"
    using e r by (auto simp: row_rel_def row_view_def prod_eq_iff)
qed

subsection \<open>Combining rows\<close>

lemma row_payload:
  assumes "plain_row e" and "wf_packet (tcp_view A e)" and "e_message A e = e"
  shows "module_message_payload e = Some (mm_message e)" "tcp_view A e = take (mm_data_len e) (mm_message e)"
    "mm_data_len e = length (tcp_view A e)"
    "queue_tcp_payload_len_from_message e = Some (mm_message e, mm_data_len e)"
proof -
  show p: "module_message_payload e = Some (mm_message e)" using assms(1) by (simp add: plain_row_def module_message_payload_def)
  have "queue_tcp_payload_len_from_message e \<noteq> None"
    using assms(2,3) unfolding tcp_view_def wf_packet_def by (cases "queue_tcp_payload_len_from_message e") simp_all
  then show "queue_tcp_payload_len_from_message e = Some (mm_message e, mm_data_len e)"
    using assms(1) by (simp add: queue_tcp_payload_len_from_message_def p plain_row_def split: if_splits)
  then show "tcp_view A e = take (mm_data_len e) (mm_message e)" using assms(3) by (simp add: tcp_view_def)
  then show "mm_data_len e = length (tcp_view A e)" using assms(1) by (simp add: plain_row_def)
qed

lemma combine_loop_rows:
  assumes "\<forall>e \<in> set es. plain_row e \<and> wf_packet (tcp_view A e)" and "\<forall>m. e_message A m = m"
    and "n + length es \<le> MAX_MESSAGES" and "length buf < MAX_COMBINED_SIZE"
  shows "combine_loop MAX_COMBINED_SIZE es n buf = take MAX_COMBINED_SIZE (buf @ concat (map (tcp_view A) es))"
  using assms
proof (induction es arbitrary: n buf)
  case Nil
  then show ?case by simp
next
  case (Cons e es)
  let ?x = "tcp_view A e"
  note r = row_payload [of e A]
  have p: "module_message_payload e = Some (mm_message e)" "?x = take (mm_data_len e) (mm_message e)" "mm_data_len e = length ?x"
    using r Cons.prems(1,2) by auto
  have x: "0 < length ?x" "length ?x \<le> 256" using Cons.prems(1) by (auto simp: wf_packet_def)
  have t: "take (if length ?x < 512 - length buf then length ?x else 512 - length buf) (mm_message e) = take (512 - length buf) ?x"
    using arg_cong [OF p(2), of "take (512 - length buf)"] p(3) by (auto simp: take_take min_def)
  have "combine_loop MAX_COMBINED_SIZE (e # es) n buf =
      (let b = buf @ take (if length ?x < 512 - length buf then length ?x else 512 - length buf) (mm_message e)
       in if 512 \<le> length b then b else combine_loop MAX_COMBINED_SIZE es (n + 1) b)"
    using Cons.prems(3,4) p(1,3) x by (simp add: module_message_payload_len_def Let_def split del: if_split)
  then have s: "combine_loop MAX_COMBINED_SIZE (e # es) n buf =
      (let b = buf @ take (512 - length buf) ?x in if 512 \<le> length b then b else combine_loop MAX_COMBINED_SIZE es (n + 1) b)"
    unfolding t .
  show ?case
  proof (cases "512 \<le> length buf + length ?x")
    case True
    then show ?thesis unfolding s using Cons.prems(4) by (simp add: Let_def min_def)
  next
    case False
    then have "combine_loop MAX_COMBINED_SIZE es (n + 1) (buf @ ?x) = take 512 ((buf @ ?x) @ concat (map (tcp_view A) es))"
      using Cons by simp
    then show ?thesis unfolding s using False by (simp add: Let_def)
  qed
qed

lemma combine_rows:
  assumes "\<forall>e \<in> set es. plain_row e \<and> wf_packet (tcp_view A e)" and "\<forall>m. e_message A m = m" and "length es \<le> MAX_MESSAGES"
  shows "tcp_combine_messages es MAX_COMBINED_SIZE = take MAX_COMBINED_SIZE (concat (map (tcp_view A) es))"
  using combine_loop_rows [OF assms(1,2), of 0 "[]"] assms(3) by (simp add: tcp_combine_messages_def)

subsection \<open>The link\<close>

text \<open>The calls that neither send nor touch files, and the listeners of other modules.\<close>

inductive_set env_calls :: "('u, 'w) tcp_env \<Rightarrow> ('w \<Rightarrow> 'w) set" for E where
  Getaddrinfo: "(\<lambda>w. snd (snd (tv_getaddrinfo E host port w))) \<in> env_calls E"
| Shutdown: "(\<lambda>w. tv_shutdown E fd w) \<in> env_calls E"
| Last_Gps: "(\<lambda>w. snd (snd (tv_last_gps_packet E n w))) \<in> env_calls E"
| Ticks: "(\<lambda>w. snd (os_ticks (tv_os E) w)) \<in> env_calls E"
| Sleep: "(\<lambda>w. os_sleep (tv_os E) n w) \<in> env_calls E"

inductive_set quiet_calls :: "('u, 'w) tcp_env \<Rightarrow> ('w \<Rightarrow> 'w) set" for E where
  Create: "(\<lambda>w. snd (tf_socket_create_with_callback (tv_tcp E) w)) \<in> quiet_calls E"
| Connect: "(\<lambda>w. snd (tf_connect (tv_tcp E) fd a w)) \<in> quiet_calls E"
| Recv: "(\<lambda>w. snd (snd (tf_recv (tv_tcp E) fd n w))) \<in> quiet_calls E"
| Close: "(\<lambda>w. snd (tf_close (tv_tcp E) fd w)) \<in> quiet_calls E"
| Sock_Errno: "(\<lambda>w. snd (tf_get_sock_errno (tv_tcp E) fd w)) \<in> quiet_calls E"
| Errno: "(\<lambda>w. snd (tf_get_errno (tv_tcp E) w)) \<in> quiet_calls E"
| Env: "c \<in> env_calls E \<Longrightarrow> c \<in> quiet_calls E"

definition command_queue_has_file :: "('u, 'w) gateway \<Rightarrow> bool" where
  "command_queue_has_file g =
     (case module_manager_get_config MODULE_ID_CMD g of None \<Rightarrow> False | Some c \<Rightarrow> queue_has_file (mc_msg_q_config c))"

text \<open>Two gateways agree on what matters for the send queue: the queue, the files, the pre-boot record, and
  whether the command queue has a file; and the bytes sent may only have grown.\<close>

definition calm :: "'w contents \<Rightarrow> ('w \<Rightarrow> bytes) \<Rightarrow> ('u, 'w) gateway \<Rightarrow> ('u, 'w) gateway \<Rightarrow> bool" where
  "calm C T g g' \<longleftrightarrow> tcp_queue g' = tcp_queue g \<and> C (gw_world g') = C (gw_world g) \<and> prefix (T (gw_world g)) (T (gw_world g')) \<and>
     gw_pre_boot g' = gw_pre_boot g \<and> command_queue_has_file g' = command_queue_has_file g"

locale tcp_link =
  fixes E :: "('u, 'w) tcp_env" and C :: "'w contents" and T :: "'w \<Rightarrow> bytes"
  assumes flash_law: "flash_keeps (os_flash (tv_os E)) T"
    and send_law: "tf_send (tv_tcp E) fd b w = (n, w') \<Longrightarrow>
      n \<le> int (length b) \<and> T w' = T w @ take (nat n) b \<and> C w' = C w"
    and quiet_law: "c \<in> quiet_calls E \<Longrightarrow> T (c w) = T w \<and> C (c w) = C w"
    and listener_law: "calm C T g (snd (tv_listener E cb ev ud (em, g)))"

lemma calm_refl [simp]: "calm C T g g"
  by (simp add: calm_def)

lemma calm_trans: "calm C T g g' \<Longrightarrow> calm C T g' g'' \<Longrightarrow> calm C T g g''"
  by (auto simp: calm_def intro: prefix_order.trans)

lemma tcp_queue_world [simp]: "tcp_queue (g\<lparr>gw_world := w\<rparr>) = tcp_queue g"
  by (simp add: tcp_queue_def module_manager_get_config_def module_get_def)

lemma command_queue_world [simp]: "command_queue_has_file (g\<lparr>gw_world := w\<rparr>) = command_queue_has_file g"
  by (simp add: command_queue_has_file_def module_manager_get_config_def module_get_def)

lemma pre_boot_update [simp]:
  "tcp_queue (g\<lparr>gw_pre_boot := pb\<rparr>) = tcp_queue g" "command_queue_has_file (g\<lparr>gw_pre_boot := pb\<rparr>) = command_queue_has_file g"
  by (simp_all add: tcp_queue_def command_queue_has_file_def module_manager_get_config_def module_get_def)

lemma calm_world: "prefix (T (gw_world g)) (T w) \<Longrightarrow> C w = C (gw_world g) \<Longrightarrow> calm C T g (g\<lparr>gw_world := w\<rparr>)"
  by (simp add: calm_def)

lemma module_config_update:
  "module_manager_get_config mid (module_update (module_id_code mid') f g) =
     (if mid = mid' then map_option (\<lambda>m. m_config (f m)) (module_get mid g) else module_manager_get_config mid g)"
  by (simp add: module_manager_get_config_def module_get_update option.map_comp comp_def)

lemma calm_status: "calm C T g (module_update (module_id_code mid) (\<lambda>m. m\<lparr>m_status := f (m_status m)\<rparr>) g)"
proof -
  have c: "module_manager_get_config m' (module_update (module_id_code mid) (\<lambda>m. m\<lparr>m_status := f (m_status m)\<rparr>) g) =
      module_manager_get_config m' g" for m'
    unfolding module_config_update by (simp add: module_manager_get_config_def)
  show ?thesis unfolding calm_def tcp_queue_def command_queue_has_file_def c by (simp add: module_update_def)
qed

text \<open>Steps that leave the send queue alone: the batch in flight is the same or given up.\<close>

definition quiet :: "'w contents \<Rightarrow> ('w \<Rightarrow> bytes) \<Rightarrow> ('u, 'w) tcp \<Rightarrow> ('u, 'w) tcp \<Rightarrow> bool" where
  "quiet C T s s' \<longleftrightarrow> calm C T (snd s) (snd s') \<and> tc_config (fst s') = tc_config (fst s) \<and>
     (tc_batch_count (fst s') = tc_batch_count (fst s) \<or> tc_batch_count (fst s') = 0)"

lemma quiet_refl: "quiet C T s s"
  by (simp add: quiet_def)

lemma quiet_trans: "quiet C T s s' \<Longrightarrow> quiet C T s' s'' \<Longrightarrow> quiet C T s s''"
  by (auto simp: quiet_def intro: calm_trans)

text \<open>Changes of the client alone.\<close>

lemma quiet_client:
  "tc_config u' = tc_config u \<Longrightarrow> tc_batch_count u' = tc_batch_count u \<or> tc_batch_count u' = 0 \<Longrightarrow> quiet C T (u, g) (u', g)"
  by (simp add: quiet_def)

lemma reset_tracking_simps [simp]:
  "tc_config (tcp_reset_send_tracking u) = tc_config u" "tc_batch_count (tcp_reset_send_tracking u) = 0"
  "tc_state (tcp_reset_send_tracking u) = tc_state u"
  "tc_config (set_state st u) = tc_config u" "tc_batch_count (set_state st u) = tc_batch_count u" "tc_state (set_state st u) = st"
  by (simp_all add: tcp_reset_send_tracking_def set_state_def)

lemma quiet_handle: "quiet C T s (snd rs) \<Longrightarrow> quiet C T s (handle_state rs a b c)"
  by (auto simp: quiet_def handle_state_def split_beta)

context tcp_link
begin

lemma quiet_call:
  "(\<lambda>w. snd (f w)) \<in> quiet_calls E \<Longrightarrow> quiet C T s (snd (tcp_call f s))"
  using quiet_law [of "\<lambda>w. snd (f w)" "gw_world (snd s)"]
  by (simp add: quiet_def tcp_call_def set_tcp_world_def split_beta calm_world)

lemma quiet_set_world: "prefix (T (tcp_world s)) (T w) \<Longrightarrow> C w = C (tcp_world s) \<Longrightarrow> quiet C T s (set_tcp_world w s)"
  by (simp add: quiet_def set_tcp_world_def calm_world)

lemma quiet_ticks: "quiet C T s (snd (tcp_ticks E s))"
  using quiet_law [OF quiet_calls.Env [OF env_calls.Ticks], of "gw_world (snd s)"]
  by (simp add: tcp_ticks_def split_beta quiet_set_world)

lemma quiet_validate: "quiet C T s (snd (tcp_validate_socket_for_send E s))"
  by (simp add: tcp_validate_socket_for_send_def split_beta Let_def quiet_refl quiet_call [OF quiet_calls.Sock_Errno])

lemma quiet_wait_network: "quiet C T s (snd (tcp_state_handle_wait_network E s))"
  by (simp add: tcp_state_handle_wait_network_def quiet_refl)

lemma quiet_socket_creating: "quiet C T s (snd (tcp_state_handle_socket_creating E s))"
  using quiet_call [OF quiet_calls.Create, of s]
  by (auto simp: tcp_state_handle_socket_creating_def split_beta Let_def quiet_def)

lemma quiet_getaddrinfo: "quiet C T s (set_tcp_world (snd (snd (tv_getaddrinfo E h p (tcp_world s)))) s)"
  using quiet_law [OF quiet_calls.Env [OF env_calls.Getaddrinfo], of "h" p "tcp_world s"] by (simp add: quiet_set_world)

lemma quiet_connecting: "quiet C T s (snd (tcp_state_handle_connecting E s))"
  using quiet_validate [of s] by (simp add: tcp_state_handle_connecting_def split_beta Let_def)

text \<open>One after another.\<close>

lemma quiet_then_call: "quiet C T s s1 \<Longrightarrow> (\<lambda>w. snd (f w)) \<in> quiet_calls E \<Longrightarrow> tcp_call f s1 = (r, s2) \<Longrightarrow> quiet C T s s2"
  using quiet_call [of f s1] by (metis quiet_trans snd_conv)

lemma quiet_socket_created: "quiet C T s (snd (tcp_state_handle_socket_created E s))"
proof (cases "tc_config (fst s)")
  case None
  then show ?thesis by (simp add: tcp_state_handle_socket_created_def quiet_refl)
next
  case (Some c)
  let ?p = "snd (snprintf 6 (dec (tcf_server_port c)))"
  obtain ret addr w where a: "tv_getaddrinfo E (tcf_server_ip c) ?p (tcp_world s) = (ret, addr, w)"
    by (metis prod_cases3)
  have q1: "quiet C T s (set_tcp_world w s)" using quiet_getaddrinfo [of s "tcf_server_ip c" ?p] a by simp
  note q2 = quiet_then_call [OF q1 quiet_calls.Connect]
  note q3 = quiet_then_call [OF q2 quiet_calls.Errno]
  note q4 = quiet_then_call [OF q3 quiet_calls.Sock_Errno]
  show ?thesis
    using Some a q1 by (auto simp: tcp_state_handle_socket_created_def Let_def split: option.split prod.split dest: q2 q3 q4)
qed

end

lemma events_update [simp]:
  "tcp_queue (g\<lparr>gw_events := em\<rparr>) = tcp_queue g" "command_queue_has_file (g\<lparr>gw_events := em\<rparr>) = command_queue_has_file g"
  by (simp_all add: tcp_queue_def command_queue_has_file_def module_manager_get_config_def module_get_def)

lemma calm_connection_event: "calm C T g (module_on_connection_event ev mid t g)"
  by (simp add: module_on_connection_event_def module_set_connected_internal_def calm_status split: option.split)

context tcp_link
begin

lemma calm_listener: "calm C T (snd s) (snd (call_listener (tv_listener E) cb ev ud s))"
  using listener_law [of "snd s" cb ev ud "fst s"]
  by (simp add: call_listener_def connection_callback_def on_network_event_def on_gps_event_def on_tcp_event_def
      on_sms_event_def calm_connection_event)

lemma calm_broadcast_loop: "calm C T (snd s) (snd (broadcast_loop (call_listener (tv_listener E)) t ev n i s))"
proof (induction n arbitrary: i s)
  case 0
  then show ?case by simp
next
  case (Suc n)
  then show ?case
    by (auto simp: Let_def split: option.split intro: calm_trans [OF calm_listener] Suc.IH)
qed

lemma quiet_broadcast: "quiet C T s (tcp_broadcast E t s)"
proof -
  have "calm C T (snd s) (snd (snd (event_manager_broadcast (call_listener (tv_listener E)) t (Some ''TCP Client'') None 0
      (gw_events (snd s), snd s))))"
    using calm_broadcast_loop [of "(gw_events (snd s), snd s)"] by (simp add: event_manager_broadcast_def Let_def)
  then show ?thesis by (simp add: tcp_broadcast_def quiet_def split_beta Let_def calm_def)
qed

lemma quiet_connected: "quiet C T s (snd (tcp_state_handle_connected E s))"
  using quiet_broadcast [of s EVENT_TCP_CONNECTED]
  by (auto simp: tcp_state_handle_connected_def quiet_refl split_beta Let_def quiet_def)

lemma quiet_send_data: "quiet C T s (snd (tcp_send_data E fd b s))"
proof -
  obtain r u g where c: "tcp_call (tf_send (tv_tcp E) fd b) s = (r, u, g)" by (metis prod_cases3)
  obtain w where w: "tf_send (tv_tcp E) fd b (tcp_world s) = (r, w)" "u = fst s" "g = (snd s)\<lparr>gw_world := w\<rparr>"
    using c by (auto simp: tcp_call_def set_tcp_world_def split: prod.splits)
  have q: "quiet C T s (u, g)" using send_law [OF w(1)] w(2,3) by (simp add: quiet_def calm_world)
  obtain r2 u2 g2 where c2: "tcp_call (tf_get_sock_errno (tv_tcp E) fd) (u, g) = (r2, u2, g2)" by (metis prod_cases3)
  have q2: "quiet C T s (u2, g2)" using quiet_then_call [OF q quiet_calls.Sock_Errno c2] .
  show ?thesis using q q2 by (auto simp: tcp_send_data_def c c2 Let_def quiet_refl) (auto simp: quiet_def)
qed

lemma quiet_login_packet: "quiet C T s (snd (tcp_login_packet E login s))"
  using quiet_law [OF quiet_calls.Env [OF env_calls.Last_Gps], of "TCP_LOGIN_BUFFER_SIZE - LOGIN_PACKET_TOTAL_SIZE" "tcp_world s"]
  by (auto simp: tcp_login_packet_def quiet_refl split_beta Let_def intro: quiet_set_world)

lemma quiet_sending_login: "quiet C T s (snd (tcp_state_handle_sending_login E s))"
proof -
  obtain ok u g where v: "tcp_validate_socket_for_send E s = (ok, u, g)" by (metis prod_cases3)
  have q1: "quiet C T s (u, g)" using quiet_validate [of s] v by simp
  obtain n login k where l: "login_packet_create True TCP_LOGIN_BUFFER_SIZE (tv_device E (gw_world g)) (tc_session_count u) = (n, login, k)"
    by (metis prod_cases3)
  let ?u = "u\<lparr>tc_session_count := k\<rparr>"
  have q2: "quiet C T s (?u, g)" using q1 by (simp add: quiet_def)
  have q3: "quiet C T s (snd (tcp_login_packet E login (?u, g)))" by (rule quiet_trans [OF q2 quiet_login_packet])
  show ?thesis
    using q1 q2 quiet_trans [OF q3 quiet_send_data]
    by (simp add: tcp_state_handle_sending_login_def v l Let_def split_beta)
qed

lemma quiet_wait_ack: "quiet C T s (snd (tcp_wait_ack E s))"
proof -
  obtain ok u g where v: "tcp_validate_socket_for_send E s = (ok, u, g)" by (metis prod_cases3)
  have q1: "quiet C T s (u, g)" using quiet_validate [of s] v by simp
  obtain r2 u2 g2 where c2: "tcp_call (tf_get_sock_errno (tv_tcp E) (tc_tcp_fd u)) (u, g) = (r2, u2, g2)" by (metis prod_cases3)
  have q2: "quiet C T s (u2, g2)" using quiet_then_call [OF q1 quiet_calls.Sock_Errno c2] .
  have "quiet C T s (tcp_reset_send_tracking u, g)" "quiet C T s (tcp_reset_send_tracking u2, g2)"
    using q1 q2 by (simp_all add: quiet_def)
  then show ?thesis using q1 q2 by (simp add: tcp_wait_ack_def v c2 quiet_refl)
qed

lemma quiet_shutdown: "quiet C T s (tcp_shutdown_socket E s)"
proof -
  let ?s = "set_tcp_world (tv_shutdown E (tc_tcp_fd (fst s)) (tcp_world s)) s"
  have q1: "quiet C T s ?s"
    using quiet_law [OF quiet_calls.Env [OF env_calls.Shutdown], of "tc_tcp_fd (fst s)" "tcp_world s"] by (simp add: quiet_set_world)
  obtain r u g where c: "tcp_close_socket E (tc_tcp_fd (fst s)) ?s = (r, u, g)" by (metis prod_cases3)
  have "quiet C T s (u, g)"
    using c q1 quiet_then_call [OF q1 quiet_calls.Close] by (auto simp: tcp_close_socket_def split: if_splits)
  then have "quiet C T s (u\<lparr>tc_tcp_fd := -1\<rparr>, g)" by (simp add: quiet_def)
  then show ?thesis by (simp add: tcp_shutdown_socket_def Let_def c quiet_refl)
qed

lemma quiet_closed: "quiet C T s (snd (tcp_state_handle_closed E s))"
proof -
  let ?s1 = "(tcp_reset_send_tracking (fst s), snd s)"
  obtain u2 g2 where b: "(if tc_last_connected_state (fst ?s1) then
      let (u, g) = tcp_broadcast E EVENT_TCP_DISCONNECTED ?s1 in (u\<lparr>tc_last_connected_state := False\<rparr>, g) else ?s1) = (u2, g2)"
    by fastforce
  have q1: "quiet C T s ?s1" by (simp add: quiet_def)
  have q2: "quiet C T s (u2, g2)"
    using b q1 quiet_trans [OF q1 quiet_broadcast [of ?s1 EVENT_TCP_DISCONNECTED]]
    by (auto simp: split_beta Let_def quiet_def split: if_splits)
  have q3: "quiet C T s (u2\<lparr>tc_session_up := False, tc_recv_pending := False\<rparr>, g2)" using q2 by (simp add: quiet_def)
  have q4: "quiet C T s (tcp_shutdown_socket E (u2\<lparr>tc_session_up := False, tc_recv_pending := False\<rparr>, g2))"
    by (rule quiet_trans [OF q3 quiet_shutdown])
  then show ?thesis
    unfolding tcp_state_handle_closed_def Let_def [of ?s1] b by (simp add: Let_def split_beta) (simp add: quiet_def)
qed

lemma quiet_error: "quiet C T s (snd (tcp_state_handle_error E s))"
  using quiet_shutdown [of s] by (simp add: tcp_state_handle_error_def split_beta Let_def) (simp add: quiet_def)

lemma quiet_note_transition: "quiet C T s (tcp_note_transition E s)"
  using quiet_ticks [of s] by (simp add: tcp_note_transition_def split_beta Let_def quiet_refl) (simp add: quiet_def)

lemma quiet_check_state: "quiet C T s (tcp_check_state_timeout E s)"
proof -
  obtain now u g where t: "tcp_ticks E s = (now, u, g)" by (metis prod_cases3)
  have q1: "quiet C T s (u, g)" using quiet_ticks [of s] t by simp
  have q2: "quiet C T s (set_state st (tcp_reset_send_tracking u), g)" for st using q1 by (simp add: quiet_def)
  show ?thesis
    using q1 quiet_trans [OF q2 quiet_ticks] by (simp add: tcp_check_state_timeout_def t Let_def split_beta) (simp add: quiet_def)
qed

lemma quiet_check_overall: "quiet C T s (tcp_check_overall_timeout E s)"
proof -
  obtain now u g where t: "tcp_ticks E s = (now, u, g)" by (metis prod_cases3)
  have q1: "quiet C T s (u, g)" using quiet_ticks [of s] t by simp
  have q2: "quiet C T s (set_state st (tcp_reset_send_tracking u), g)" for st using q1 by (simp add: quiet_def)
  show ?thesis
    using q1 quiet_trans [OF q2 quiet_ticks] by (simp add: tcp_check_overall_timeout_def t Let_def split_beta) (simp add: quiet_def)
qed

end

lemma quiet_receiving: "quiet C T s (snd (tcp_state_handle_receiving s))"
  by (simp add: tcp_state_handle_receiving_def quiet_refl)

lemma quiet_reconnect: "quiet C T s (snd (tcp_state_handle_reconnect_delay s))"
  by (simp add: tcp_state_handle_reconnect_delay_def split_beta Let_def quiet_def)

subsection \<open>Receiving and the turn around the handlers\<close>

text \<open>A change of a module that keeps its queue configuration, and the queue of the TCP module.\<close>

lemma calm_module_update:
  assumes "\<And>m. mc_msg_q_config (m_config (f m)) = mc_msg_q_config (m_config m)" and "mid \<noteq> MODULE_ID_TCP"
  shows "calm C T g (module_update (module_id_code mid) f g)"
proof -
  have "command_queue_has_file (module_update (module_id_code mid) f g) = command_queue_has_file g"
    using assms(1) by (simp add: command_queue_has_file_def module_config_update) (simp add: module_manager_get_config_def split: option.split)
  then show ?thesis
    using assms(2) by (simp add: calm_def tcp_queue_def module_config_update) (simp add: module_update_def)
qed

lemma push_without_file: "\<not> queue_has_file cfg \<Longrightarrow> queue_push F A ok cfg q d w = (r, q', w') \<Longrightarrow> w' = w"
  by (auto simp: queue_push_def split: option.splits if_splits)

lemma calm_push_command:
  assumes "\<not> command_queue_has_file g"
  shows "calm C T g (snd (push_to_module S MODULE_ID_CMD msg g))"
proof (cases "module_manager_get_config MODULE_ID_CMD g")
  case None
  then show ?thesis by (simp add: push_to_module_def)
next
  case (Some c)
  then have nf: "\<not> queue_has_file (mc_msg_q_config c)" using assms by (simp add: command_queue_has_file_def)
  show ?thesis
  proof (cases "mc_msg_q c")
    case None
    then show ?thesis using Some by (simp add: push_to_module_def)
  next
    case hq: (Some hq)
    obtain r q' w where p: "queue_push (os_flash S) (os_msg_abi S) True (mc_msg_q_config c) (snd hq) msg (gw_world g) = (r, q', w)"
      by (metis prod_cases3)
    have "g\<lparr>gw_world := w\<rparr> = g" using push_without_file [OF nf p] by simp
    then show ?thesis
      using Some hq p by (simp add: push_to_module_def split_beta calm_module_update del: module_id_code.simps)
  qed
qed

context tcp_link
begin

lemma quiet_receive:
  assumes "\<not> command_queue_has_file (snd s)"
  shows "quiet C T s (tcp_receive E s)"
proof -
  let ?fd = "tc_tcp_fd (fst s)"
  obtain n bs w where r: "tf_recv (tv_tcp E) ?fd 255 (tcp_world s) = (n, bs, w)" by (metis prod_cases3)
  let ?s = "set_tcp_world w s"
  have q1: "quiet C T s ?s"
    using quiet_law [OF quiet_calls.Recv, of "?fd" 255 "tcp_world s"] r by (simp add: quiet_set_world)
  have nf: "\<not> command_queue_has_file (snd ?s)" using assms by (simp add: set_tcp_world_def)
  have q2: "quiet C T s (fst ?s, snd (command_manager_accept_request E m (snd ?s)))" for m
    using q1 calm_push_command [OF nf, of C T "tv_os E" m]
    by (auto simp: command_manager_accept_request_def quiet_def split_beta Let_def intro: calm_trans split: option.split)
  note q3 = quiet_then_call [OF q1 quiet_calls.Sock_Errno]
  note q4 = quiet_then_call [OF q3 quiet_calls.Sock_Errno]
  have "quiet C T s (snd (tcp_try_recv_once_and_dispatch E s))"
    using q1 q2 by (simp add: tcp_try_recv_once_and_dispatch_def r Let_def quiet_refl split: prod.split) (blast dest: q3 q4)
  moreover have "quiet C T s s' \<Longrightarrow> quiet C T s ((fst s')\<lparr>tc_recv_pending := False\<rparr>, snd s')" for s'
    by (simp add: quiet_def)
  ultimately show ?thesis by (auto simp: tcp_receive_def quiet_refl split_beta Let_def)
qed

lemma quiet_uptime: "quiet C T (u, g) (u, module_manager_update_uptime (tv_os E) mid g)"
proof -
  obtain t w where t: "os_ticks (tv_os E) (gw_world g) = (t, w)" by fastforce
  have "calm C T g (g\<lparr>gw_world := w\<rparr>)"
    using quiet_law [OF quiet_calls.Env [OF env_calls.Ticks], of "gw_world g"] t by (simp add: calm_world)
  then show ?thesis
    by (auto simp: module_manager_update_uptime_def get_uptime_def t quiet_def split: option.split
        intro!: calm_trans [OF _ calm_status [of C T _ mid "\<lambda>s. s\<lparr>ms_task_uptime_sec := _\<rparr>"]])
qed

lemma quiet_sleep: "quiet C T s (set_tcp_world (os_sleep (tv_os E) n (tcp_world s)) s)"
  using quiet_law [OF quiet_calls.Env [OF env_calls.Sleep], of n "tcp_world s"] by (simp add: quiet_set_world)

text \<open>What a turn does before it dispatches on the state.\<close>

lemma quiet_before_dispatch:
  assumes "\<not> command_queue_has_file (snd s)"
  shows "quiet C T s (tcp_receive E (tcp_check_overall_timeout E (tcp_check_state_timeout E (tcp_note_transition E
      ((fst s)\<lparr>tc_total_iterations := n, tc_task_stats := st\<rparr>, module_manager_update_uptime (tv_os E) mid (snd s))))))"
    (is "quiet C T s (tcp_receive E ?s3)")
proof -
  let ?u = "(fst s)\<lparr>tc_total_iterations := n, tc_task_stats := st\<rparr>"
  have "quiet C T s (?u, snd s)" by (simp add: quiet_def)
  then have "quiet C T s ?s3"
    by (meson quiet_trans quiet_uptime quiet_note_transition quiet_check_state quiet_check_overall)
  moreover from this have "\<not> command_queue_has_file (snd ?s3)" using assms by (simp add: quiet_def calm_def)
  ultimately show ?thesis by (meson quiet_trans quiet_receive)
qed

end

subsection \<open>What the queue holds\<close>

definition tcp_holds :: "('u, 'w) tcp_env \<Rightarrow> 'w contents \<Rightarrow> 'w handles \<Rightarrow> ('u, 'w) gateway \<Rightarrow> bytes list \<Rightarrow> bool" where
  "tcp_holds E C H g l \<longleftrightarrow>
     (\<exists>cfg h q. tcp_queue g = Some (cfg, h, q) \<and> 0 < qc_element_size cfg \<and>
        queue_holds (row_rel (os_flash (tv_os E)) C H (os_msg_abi (tv_os E)) cfg) (row_view (os_msg_abi (tv_os E))) cfg q
          (gw_world g) (map (Pair True) l)) \<and>
     list_all wf_packet l \<and> pb_inv (gw_pre_boot g) \<and> \<not> command_queue_has_file g"

lemma row_rel_world: "row_rel F C H A cfg q w xs \<Longrightarrow> C w' = C w \<Longrightarrow> row_rel F C H A cfg q w' xs"
  by (simp add: row_rel_def tcp_rel_def)

lemma calm_holds: "calm C T g g' \<Longrightarrow> tcp_holds E C H g l \<Longrightarrow> tcp_holds E C H g' l"
  by (auto simp: calm_def tcp_holds_def queue_holds_def intro: row_rel_world)

text \<open>The rows handed over, one after another, with other traffic between them.\<close>

fun in_order :: "bytes list \<Rightarrow> bytes \<Rightarrow> bool" where
  "in_order [] t = True"
| "in_order (r # rs) t = (\<exists>a b. t = a @ r @ b \<and> in_order rs b)"

lemma in_order_prefix: "in_order rs t \<Longrightarrow> prefix t t' \<Longrightarrow> in_order rs t'"
  by (induction rs arbitrary: t t') (auto simp: prefix_def, metis append.assoc)

lemma in_order_suffix: "in_order rs t \<Longrightarrow> in_order rs (a @ t)"
  by (cases rs) (auto, metis append.assoc)

lemma in_order_append: "in_order rs t \<Longrightarrow> in_order (rs @ es) (t @ concat es)"
proof (induction rs arbitrary: t)
  case Nil
  have "in_order es (concat es)"
  proof (induction es)
    case (Cons e es)
    have "concat (e # es) = [] @ e @ concat es" by simp
    then show ?case using Cons unfolding in_order.simps by blast
  qed simp
  then show ?case by (simp add: in_order_suffix)
qed (auto, metis append.assoc)

lemma in_order_butlast: "in_order (rs @ es) t \<Longrightarrow> in_order rs t"
  by (induction rs arbitrary: t) auto

lemma in_order_butlast_prefix: "in_order (rs @ es) t \<Longrightarrow> prefix t t' \<Longrightarrow> in_order rs t'"
  by (rule in_order_prefix [OF in_order_butlast])

lemma in_order_sublist: "in_order rs t \<Longrightarrow> r \<in> set rs \<Longrightarrow> sublist r t"
  by (induction rs arbitrary: t) (auto simp: sublist_append)

text \<open>The invariant: \<open>R\<close> are the rows already removed; the rows of the batch in flight have been handed over.\<close>

definition tcp_inv :: "('u, 'w) tcp_env \<Rightarrow> 'w contents \<Rightarrow> 'w handles \<Rightarrow> ('w \<Rightarrow> bytes) \<Rightarrow> bytes list \<Rightarrow> bytes list \<Rightarrow>
    ('u, 'w) tcp \<Rightarrow> bool" where
  "tcp_inv E C H T R l s \<longleftrightarrow> tcp_holds E C H (snd s) l \<and> tc_batch_count (fst s) \<le> min MAX_MESSAGES (length l) \<and>
     in_order (R @ take (tc_batch_count (fst s)) l) (T (tcp_world s))"

lemma inv_quiet:
  assumes i: "tcp_inv E C H T R l s" and q: "quiet C T s s'"
  shows "tcp_inv E C H T R l s'"
proof -
  have o: "in_order (R @ take (tc_batch_count (fst s)) l) (T (tcp_world s))" and b: "tc_batch_count (fst s) \<le> min 5 (length l)"
    and h: "tcp_holds E C H (snd s') l"
    using i q calm_holds by (auto simp: tcp_inv_def quiet_def)
  have p: "prefix (T (tcp_world s)) (T (tcp_world s'))" using q by (simp add: quiet_def calm_def)
  have "tc_batch_count (fst s') = tc_batch_count (fst s) \<or> tc_batch_count (fst s') = 0" using q by (simp add: quiet_def)
  then show ?thesis
    using h b in_order_prefix [OF o p] in_order_butlast_prefix [OF o p] by (auto simp: tcp_inv_def)
qed

lemma inv_result: "tcp_inv E C H T R l s \<Longrightarrow> tcp_holds E C H (snd s) l \<and> in_order R (T (tcp_world s))"
  by (auto simp: tcp_inv_def dest: in_order_butlast)

lemma inv_command_queue: "tcp_inv E C H T R l s \<Longrightarrow> \<not> command_queue_has_file (snd s)"
  by (simp add: tcp_inv_def tcp_holds_def)

lemma inv_client:
  "tcp_inv E C H T R l s \<Longrightarrow> tc_batch_count u = tc_batch_count (fst s) \<or> tc_batch_count u = 0 \<Longrightarrow> tcp_inv E C H T R l (u, snd s)"
  by (auto simp: tcp_inv_def dest: in_order_butlast)

text \<open>Live-first mode does not take the newest row out of turn.\<close>

definition tail_stays :: "('u, 'w) tcp \<Rightarrow> bool" where
  "tail_stays s \<longleftrightarrow> \<not> ((case tc_config (fst s) of None \<Rightarrow> False | Some c \<Rightarrow> tcf_live_first c) \<and>
     (case tcp_queue (snd s) of None \<Rightarrow> False | Some (cfg, h, q) \<Rightarrow> queue_is_full (Some q) (Some cfg)))"

lemma quiet_tail_stays: "quiet C T s s' \<Longrightarrow> tail_stays s' = tail_stays s"
  by (simp add: tail_stays_def quiet_def calm_def)

lemma prepend_nothing: "tail_stays s \<Longrightarrow> tcp_prepend_live_first_queue_tail E buf n s = (buf, s)"
  by (auto simp: tail_stays_def tcp_prepend_live_first_queue_tail_def split: option.splits prod.splits)

subsection \<open>The acknowledgement\<close>

lemma clear_offset_spec:
  assumes L: "flash_laws F C H" and pb: "pb_inv pb"
    and c: "pre_boot_handler_clear_tcp_send_queue_offset F pb w = (r, pb', w')"
  shows "pb_inv pb'" and "q \<noteq> PRE_BOOT_INFO_FILE_PATH \<Longrightarrow> C w' q = C w q"
proof -
  let ?r = "disk_clear_tcp_offset (staged_from_cache pb)"
  have wf: "wf_disk ?r \<and> disk_header_ok ?r" using staged_wf [OF pb] disk_clear_tcp_offset_wf by blast
  note d = disk_store_spec [OF L _ c [unfolded pre_boot_handler_clear_tcp_send_queue_offset_def]]
  show "pb_inv pb'"
    using d(1,2) wf pb by (cases "r = RESULT_SUCCESS") (auto simp: pb_inv_def cache_set_def)
  show "C w' q = C w q" if "q \<noteq> PRE_BOOT_INFO_FILE_PATH" using d(3) wf that by blast
qed

lemma clear_snapshot_spec:
  assumes L: "flash_laws F C H" and pb: "pb_inv pb" and tq: "queue_is_tcp_send_q cfg"
    and c: "queue_persist_clear_snapshot_after_consume F ok cfg q pb w = (r, pb', w')"
  shows "pb_inv pb' \<and> C w' (overflow_file cfg) = C w (overflow_file cfg)"
proof -
  obtain pb1 w1 where m: "(if queue_overflow_drained_locked q cfg \<and> queue_is_tcp_send_q cfg then
      let (_, pb', w') = pre_boot_handler_clear_tcp_send_queue_offset F pb w in (pb', w') else (pb, w)) = (pb1, w1)"
    by fastforce
  have 1: "pb_inv pb1 \<and> C w1 (overflow_file cfg) = C w (overflow_file cfg)"
    using m pb clear_offset_spec [OF L pb] tcp_paths(2) [OF tq] by (auto split: if_splits prod.splits)
  have 2: "C w2 (overflow_file cfg) = C w1 (overflow_file cfg)" if "queue_persist_delete_snapshot F cfg w1 = (r2, w2)" for r2 w2
    using that tcp_paths(1) [OF tq]
    by (auto simp: queue_persist_delete_snapshot_def split: if_splits prod.splits
        dest!: exists_spec [OF L] delete_spec [OF L])
  show ?thesis
    using c 1 pb by (auto simp: queue_persist_clear_snapshot_after_consume_def m split: if_splits prod.splits dest!: 2)
qed

lemma tcp_queue_set:
  assumes "tcp_queue g = Some (cfg, h, q)"
  shows "tcp_queue (set_tcp_queue hq g) = map_option (\<lambda>hq. (cfg, hq)) hq"
    and "command_queue_has_file (set_tcp_queue hq g) = command_queue_has_file g"
    and "gw_world (set_tcp_queue hq g) = gw_world g" "gw_pre_boot (set_tcp_queue hq g) = gw_pre_boot g"
proof -
  obtain m where m: "module_get MODULE_ID_TCP g = Some m" "mc_msg_q_config (m_config m) = cfg"
    using assms by (auto simp: tcp_queue_def module_manager_get_config_def split: option.splits)
  then show "tcp_queue (set_tcp_queue hq g) = map_option (\<lambda>hq. (cfg, hq)) hq"
    by (simp add: tcp_queue_def set_tcp_queue_def module_config_update del: module_id_code.simps)
  show "command_queue_has_file (set_tcp_queue hq g) = command_queue_has_file g"
    by (simp add: command_queue_has_file_def set_tcp_queue_def module_config_update del: module_id_code.simps)
  show "gw_world (set_tcp_queue hq g) = gw_world g" "gw_pre_boot (set_tcp_queue hq g) = gw_pre_boot g"
    by (simp_all add: set_tcp_queue_def module_update_def)
qed

lemma holds_set_queue:
  assumes "tcp_queue g = Some (cfg, h, q)" and "0 < qc_element_size cfg" and "list_all wf_packet l" and "pb_inv (gw_pre_boot g)"
    and "\<not> command_queue_has_file g"
    and "queue_holds (row_rel (os_flash (tv_os E)) C H (os_msg_abi (tv_os E)) cfg) (row_view (os_msg_abi (tv_os E))) cfg q' w
          (map (Pair True) l)"
  shows "tcp_holds E C H (set_tcp_queue (Some (h, q')) (g\<lparr>gw_world := w\<rparr>)) l"
  using assms tcp_queue_set [of "g\<lparr>gw_world := w\<rparr>" cfg h q] by (simp add: tcp_holds_def)

lemma row_rel_tcp: "queue_holds (row_rel F C H A cfg) v cfg q w l \<Longrightarrow> flash_laws F C H \<and> queue_is_tcp_send_q cfg"
  by (auto simp: queue_holds_def row_rel_def tcp_rel_def)

lemma row_rel_msg: "queue_holds (row_rel F C H A cfg) v cfg q w l \<Longrightarrow> \<forall>m. e_message A m = m"
  by (auto simp: queue_holds_def row_rel_def)

lemma clear_snapshot_holds:
  assumes h: "tcp_holds E C H (snd s) l"
  shows "tcp_holds E C H (snd (tcp_clear_snapshot E s)) l"
proof -
  obtain cfg i q where q: "tcp_queue (snd s) = Some (cfg, i, q)" "0 < qc_element_size cfg"
    "queue_holds (row_rel (os_flash (tv_os E)) C H (os_msg_abi (tv_os E)) cfg) (row_view (os_msg_abi (tv_os E))) cfg q
          (tcp_world s) (map (Pair True) l)" and o: "list_all wf_packet l" "pb_inv (gw_pre_boot (snd s))" "\<not> command_queue_has_file (snd s)"
    using h by (auto simp: tcp_holds_def)
  obtain r pb w where c: "queue_persist_clear_snapshot_after_consume (os_flash (tv_os E)) True cfg q
      (gw_pre_boot (snd s)) (tcp_world s) = (r, pb, w)" by (metis prod_cases3)
  have k: "pb_inv pb \<and> C w (overflow_file cfg) = C (tcp_world s) (overflow_file cfg)"
    using row_rel_tcp [OF q(3)] clear_snapshot_spec [OF _ o(2) _ c] by blast
  have "queue_holds (row_rel (os_flash (tv_os E)) C H (os_msg_abi (tv_os E)) cfg) (row_view (os_msg_abi (tv_os E))) cfg q
          w (map (Pair True) l)"
    using q(3) k by (auto simp: queue_holds_def row_rel_def tcp_rel_def)
  then show ?thesis using q(1,2) o k by (simp add: tcp_clear_snapshot_def q(1) c tcp_holds_def)
qed

context tcp_link
begin

lemma clear_snapshot_sent: "T (tcp_world (tcp_clear_snapshot E s)) = T (tcp_world s)"
  using flash_law
  by (auto simp: tcp_clear_snapshot_def split: option.split prod.split dest!: observe.clear_snapshot_keeps [where f = T])

lemma inv_pop_batch:
  assumes h: "tcp_holds E C H (snd s) l" and n: "0 < n" "n \<le> MAX_MESSAGES"
  shows "tcp_holds E C H (snd (tcp_pop_send_queue_batch_and_free E n s)) (drop n l) \<and>
    T (tcp_world (tcp_pop_send_queue_batch_and_free E n s)) = T (tcp_world s) \<and>
    fst (tcp_pop_send_queue_batch_and_free E n s) = fst s"
proof -
  let ?F = "os_flash (tv_os E)" and ?A = "os_msg_abi (tv_os E)"
  obtain cfg i q where q: "tcp_queue (snd s) = Some (cfg, i, q)" "0 < qc_element_size cfg"
    "queue_holds (row_rel ?F C H ?A cfg) (row_view ?A) cfg q (tcp_world s) (map (Pair True) l)"
    and o: "list_all wf_packet l" "pb_inv (gw_pre_boot (snd s))" "\<not> command_queue_has_file (snd s)"
    using h by (auto simp: tcp_holds_def)
  obtain r es q' w' where p: "queue_pop ?F ?A True cfg n q (tcp_world s) = (r, es, q', w')"
    "queue_holds (row_rel ?F C H ?A cfg) (row_view ?A) cfg q' w' (map (Pair True) (drop n l))"
    using rows.pop_fifo [OF q(3) n(1)] by (auto simp: drop_map)
  have "T w' = T (tcp_world s)" using observe.pop_keeps [OF p(1), where f = T] flash_law by blast
  moreover have "list_all wf_packet (drop n l)" using o(1) by (auto simp: list_all_iff dest: in_set_dropD)
  ultimately show ?thesis
    using n holds_set_queue [OF q(1,2) _ o(2,3) p(2)] tcp_queue_set(3) [of "(snd s)\<lparr>gw_world := w'\<rparr>" cfg i q]
    by (simp add: tcp_pop_send_queue_batch_and_free_def q(1) p(1))
qed

text \<open>The acknowledged batch leaves the queue, and nothing else.\<close>

lemma ack_holds:
  assumes h: "tcp_holds E C H (snd s) l" and b: "tc_batch_count (fst s) \<le> MAX_MESSAGES"
  defines "s' \<equiv> snd (tcp_state_handle_ack_received E s)"
  shows "tcp_holds E C H (snd s') (drop (tc_batch_count (fst s)) l) \<and> T (tcp_world s') = T (tcp_world s) \<and>
    tc_batch_count (fst s') = 0"
proof -
  define n where "n = tc_batch_count (fst s)"
  let ?s = "if n > 0 then tcp_pop_send_queue_batch_and_free E n s else s"
  have s: "tcp_holds E C H (snd ?s) (drop n l)" "T (tcp_world ?s) = T (tcp_world s)"
    using inv_pop_batch [OF h _ b] h by (auto simp: n_def)
  show ?thesis
    using clear_snapshot_holds [OF s(1)] clear_snapshot_sent [of ?s] s(2)
    by (simp add: s'_def tcp_state_handle_ack_received_def n_def [symmetric] split_beta Let_def split del: if_split cong: if_cong)
qed

lemma inv_ack_received:
  assumes i: "tcp_inv E C H T R l s"
  defines "n \<equiv> tc_batch_count (fst s)"
  shows "tcp_inv E C H T (R @ take n l) (drop n l) (snd (tcp_state_handle_ack_received E s))"
  using i ack_holds [of H s l] by (simp add: tcp_inv_def n_def)

end

subsection \<open>Sending a batch\<close>

lemma concat_small: "\<forall>r \<in> set l. length r \<le> m \<Longrightarrow> length (concat (take n l)) \<le> n * m"
proof (induction l arbitrary: n)
  case (Cons r l)
  then show ?case by (cases n) (auto intro: add_mono)
qed simp

lemma view_rows:
  assumes "map (row_view A) es = map (Pair True) xs"
  shows "map (tcp_view A) es = xs" and "\<forall>e \<in> set es. plain_row e"
proof -
  have "length es = length xs" using assms by (metis length_map)
  moreover have "row_view A (es ! i) = (True, xs ! i)" if "i < length es" for i
    using assms that calculation by (metis nth_map)
  ultimately show "map (tcp_view A) es = xs" and "\<forall>e \<in> set es. plain_row e"
    by (auto simp: row_view_def list_eq_iff_nth_eq in_set_conv_nth)
qed

context tcp_link
begin

text \<open>The batch is the first five rows, and the bytes made from it their first 512.\<close>

lemma peek_and_combine:
  assumes h: "tcp_holds E C H g l" and tq: "tcp_queue g = Some (cfg, i, q)"
  shows "\<exists>es w. queue_peek_batch (os_flash (tv_os E)) (os_msg_abi (tv_os E)) True cfg MAX_MESSAGES q (gw_world g) =
      (if l = [] then RESULT_NOT_FOUND else RESULT_SUCCESS, es, w) \<and> length es = min MAX_MESSAGES (length l) \<and>
    tcp_combine_messages es MAX_COMBINED_SIZE = take MAX_COMBINED_SIZE (concat (take MAX_MESSAGES l)) \<and>
    tcp_holds E C H (g\<lparr>gw_world := w\<rparr>) l \<and> T w = T (gw_world g)"
proof -
  let ?F = "os_flash (tv_os E)" and ?A = "os_msg_abi (tv_os E)"
  have q: "queue_holds (row_rel ?F C H ?A cfg) (row_view ?A) cfg q (gw_world g) (map (Pair True) l)" and o: "list_all wf_packet l"
    and sz: "0 < qc_element_size cfg"
    using h tq by (auto simp: tcp_holds_def)
  obtain es w where p: "queue_peek_batch ?F ?A True cfg MAX_MESSAGES q (gw_world g) =
      (if l = [] then RESULT_NOT_FOUND else RESULT_SUCCESS, es, w)" "map (row_view ?A) es = map (Pair True) (take MAX_MESSAGES l)"
    "queue_holds (row_rel ?F C H ?A cfg) (row_view ?A) cfg q w (map (Pair True) l)"
    using rows.peek_batch_fifo [OF q, of MAX_MESSAGES] by (auto simp: take_map)
  have rows: "\<forall>e \<in> set es. plain_row e \<and> wf_packet (tcp_view ?A e)" "map (tcp_view ?A) es = take MAX_MESSAGES l"
    using view_rows [OF p(2)] o by (auto simp: list_all_iff dest: in_set_takeD) (metis image_eqI in_set_takeD list.set_map)
  have len: "length es = min MAX_MESSAGES (length l)" using rows(2) by (metis length_map length_take min.commute)
  have "tcp_combine_messages es MAX_COMBINED_SIZE = take MAX_COMBINED_SIZE (concat (take MAX_MESSAGES l))"
    using combine_rows [OF rows(1)] row_rel_msg [OF p(3)] len rows(2) by simp
  moreover have "T w = T (gw_world g)" using observe.peek_batch_keeps [OF p(1), where f = T] flash_law by blast
  moreover have "tcp_holds E C H (g\<lparr>gw_world := w\<rparr>) l" using h p(3) tq sz by (auto simp: tcp_holds_def)
  ultimately show ?thesis using p(1) len by blast
qed

lemma validate_sent: "T (tcp_world (snd (tcp_validate_socket_for_send E s))) = T (tcp_world s)"
  using quiet_law [OF quiet_calls.Sock_Errno]
  by (simp add: tcp_validate_socket_for_send_def tcp_call_def set_tcp_world_def split_beta Let_def)

lemma batch_nonempty: "tcp_holds E C H g l \<Longrightarrow> l \<noteq> [] \<Longrightarrow> take MAX_COMBINED_SIZE (concat (take MAX_MESSAGES l)) \<noteq> []"
  by (cases l) (auto simp: tcp_holds_def wf_packet_def)

text \<open>With a usable socket and rows to send, the handler hands over the batch.\<close>

lemma sending_data_sends:
  assumes h: "tcp_holds E C H (snd s) l" and t: "tail_stays s" and ne: "l \<noteq> []"
    and v: "tcp_validate_socket_for_send E s = (True, u1, g1)"
  shows "\<exists>w. tcp_holds E C H (g1\<lparr>gw_world := w\<rparr>) l \<and> T w = T (tcp_world s) \<and> tcp_state_handle_sending_data E s =
    (let (n, u, g) = tcp_send_data E (tc_tcp_fd u1) (take MAX_COMBINED_SIZE (concat (take MAX_MESSAGES l))) (u1, g1\<lparr>gw_world := w\<rparr>)
     in if n > 0 then (RESULT_SUCCESS, u\<lparr>tc_batch_count := min MAX_MESSAGES (length l)\<rparr>, g)
        else (if n = 0 then RESULT_BUSY else RESULT_ERROR, u, g))"
proof -
  define buf where "buf = take MAX_COMBINED_SIZE (concat (take MAX_MESSAGES l))"
  obtain cfg i q where q: "tcp_queue (snd s) = Some (cfg, i, q)" "0 < qc_element_size cfg"
    using h by (auto simp: tcp_holds_def)
  have q1: "quiet C T s (u1, g1)" using quiet_validate [of s] v by simp
  have h1: "tcp_holds E C H g1 l" using q1 h calm_holds by (auto simp: quiet_def)
  have tq1: "tcp_queue g1 = Some (cfg, i, q)" using q1 q(1) by (simp add: quiet_def calm_def)
  obtain es w where p: "queue_peek_batch (os_flash (tv_os E)) (os_msg_abi (tv_os E)) True cfg MAX_MESSAGES q (gw_world g1) =
      (if l = [] then RESULT_NOT_FOUND else RESULT_SUCCESS, es, w)" "length es = min MAX_MESSAGES (length l)"
    "tcp_combine_messages es MAX_COMBINED_SIZE = buf" "tcp_holds E C H (g1\<lparr>gw_world := w\<rparr>) l" "T w = T (gw_world g1)"
    using peek_and_combine [OF h1 tq1] unfolding buf_def by blast
  have T1: "T (gw_world g1) = T (tcp_world s)" using validate_sent [of s] v by simp
  have ts: "tail_stays (u1, g1\<lparr>gw_world := w\<rparr>)" using t quiet_tail_stays [OF q1] by (simp add: tail_stays_def)
  have e: "buf \<noteq> []" "es \<noteq> []" using batch_nonempty [OF h ne] ne p(2) by (auto simp: buf_def min_def split: if_splits)
  have "tcp_state_handle_sending_data E s =
      (let (n, u, g) = tcp_send_data E (tc_tcp_fd u1) buf (u1, g1\<lparr>gw_world := w\<rparr>)
       in if n > 0 then (RESULT_SUCCESS, u\<lparr>tc_batch_count := min MAX_MESSAGES (length l)\<rparr>, g)
          else (if n = 0 then RESULT_BUSY else RESULT_ERROR, u, g))"
    using ne q v p(1) ts e unfolding p(2) [symmetric]
    by (simp add: tcp_state_handle_sending_data_def set_tcp_world_def Let_def p(3) prepend_nothing)
  then show ?thesis unfolding buf_def using p(4,5) T1 by auto
qed

lemma sending_data_nothing:
  assumes h: "tcp_holds E C H (snd s) l" and no: "\<not> (fst (tcp_validate_socket_for_send E s) \<and> l \<noteq> [])"
    and r: "tcp_state_handle_sending_data E s = (r, s')"
  shows "r \<noteq> RESULT_SUCCESS \<and> tcp_holds E C H (snd s') l \<and> T (tcp_world s') = T (tcp_world s) \<and>
    tc_config (fst s') = tc_config (fst s) \<and> (tc_batch_count (fst s') = tc_batch_count (fst s) \<or> tc_batch_count (fst s') = 0)"
proof -
  obtain cfg i q where q: "tcp_queue (snd s) = Some (cfg, i, q)" "0 < qc_element_size cfg"
    using h by (auto simp: tcp_holds_def)
  obtain ok u1 g1 where v: "tcp_validate_socket_for_send E s = (ok, u1, g1)" by (metis prod_cases3)
  have q1: "quiet C T s (u1, g1)" using quiet_validate [of s] v by simp
  have h1: "tcp_holds E C H g1 l" using q1 h calm_holds by (auto simp: quiet_def)
  have tq1: "tcp_queue g1 = Some (cfg, i, q)" using q1 q(1) by (simp add: quiet_def calm_def)
  obtain es w where p: "queue_peek_batch (os_flash (tv_os E)) (os_msg_abi (tv_os E)) True cfg MAX_MESSAGES q (gw_world g1) =
      (if l = [] then RESULT_NOT_FOUND else RESULT_SUCCESS, es, w)" "tcp_holds E C H (g1\<lparr>gw_world := w\<rparr>) l" "T w = T (gw_world g1)"
    using peek_and_combine [OF h1 tq1] by blast
  have T1: "T (gw_world g1) = T (tcp_world s)" using validate_sent [of s] v by simp
  have "r \<noteq> RESULT_SUCCESS \<and> (s' = (u1, g1) \<or> s' = (u1, g1\<lparr>gw_world := w\<rparr>))"
    using r q v p(1) no by (auto simp: tcp_state_handle_sending_data_def set_tcp_world_def Let_def split: if_splits)
  then show ?thesis using h1 p(2,3) T1 q1 by (auto simp: quiet_def)
qed

text \<open>The outcome of \<open>SENDING_DATA\<close>: nothing is in flight but what was, or the batch was handed over as far as
  the socket layer took it.\<close>

lemma sending_data_cases:
  assumes h: "tcp_holds E C H (snd s) l" and t: "tail_stays s" and r: "tcp_state_handle_sending_data E s = (r, s')"
  shows "tcp_holds E C H (snd s') l \<and> tc_config (fst s') = tc_config (fst s) \<and>
    (prefix (T (tcp_world s)) (T (tcp_world s')) \<and> (tc_batch_count (fst s') = tc_batch_count (fst s) \<or> tc_batch_count (fst s') = 0) \<and>
       r \<noteq> RESULT_SUCCESS \<or>
     r = RESULT_SUCCESS \<and> tc_batch_count (fst s') = min MAX_MESSAGES (length l) \<and>
       (\<exists>fd n w w'. 0 < n \<and> tf_send (tv_tcp E) fd (take MAX_COMBINED_SIZE (concat (take MAX_MESSAGES l))) w = (n, w') \<and>
          tc_bytes_sent (fst s') = n \<and>
          T (tcp_world s') = T (tcp_world s) @ take (nat n) (take MAX_COMBINED_SIZE (concat (take MAX_MESSAGES l)))))"
proof -
  define buf where "buf = take MAX_COMBINED_SIZE (concat (take MAX_MESSAGES l))"
  obtain ok u1 g1 where v: "tcp_validate_socket_for_send E s = (ok, u1, g1)" by (metis prod_cases3)
  show ?thesis
  proof (cases "ok \<and> l \<noteq> []")
    case False
    then show ?thesis using sending_data_nothing [OF h _ r] v by auto
  next
    case True
    then have vt: "tcp_validate_socket_for_send E s = (True, u1, g1)" and lne: "l \<noteq> []" using v by auto
    have q1: "quiet C T s (u1, g1)" using quiet_validate [of s] v by simp
    obtain w where w: "tcp_holds E C H (g1\<lparr>gw_world := w\<rparr>) l" "T w = T (tcp_world s)" "tcp_state_handle_sending_data E s =
        (let (n, u, g) = tcp_send_data E (tc_tcp_fd u1) buf (u1, g1\<lparr>gw_world := w\<rparr>)
         in if n > 0 then (RESULT_SUCCESS, u\<lparr>tc_batch_count := min MAX_MESSAGES (length l)\<rparr>, g)
            else (if n = 0 then RESULT_BUSY else RESULT_ERROR, u, g))"
      using sending_data_sends [OF h t lne vt] unfolding buf_def by blast
    let ?s2 = "(u1, g1\<lparr>gw_world := w\<rparr>)"
    obtain n u3 g3 where sd: "tcp_send_data E (tc_tcp_fd u1) buf ?s2 = (n, u3, g3)" by (metis prod_cases3)
    have q3: "quiet C T ?s2 (u3, g3)" using quiet_send_data [of "?s2" "tc_tcp_fd u1" buf] sd by simp
    have h3: "tcp_holds E C H g3 l" using q3 w(1) calm_holds by (auto simp: quiet_def)
    have c3: "tc_config u3 = tc_config (fst s)" "tc_batch_count u3 = tc_batch_count (fst s) \<or> tc_batch_count u3 = 0"
      and T3: "prefix (T (tcp_world s)) (T (gw_world g3))"
      using q3 q1 w(2) by (auto simp: quiet_def calm_def)
    have res: "(r, s') = (if n > 0 then (RESULT_SUCCESS, u3\<lparr>tc_batch_count := min MAX_MESSAGES (length l)\<rparr>, g3)
         else (if n = 0 then RESULT_BUSY else RESULT_ERROR, u3, g3))" using r w(3) sd by simp
    show ?thesis
    proof (cases "n > 0")
      case False
      then show ?thesis using res h3 c3 T3 by auto
    next
      case pos: True
      have "buf \<noteq> []" using batch_nonempty [OF h lne] by (simp add: buf_def)
      then obtain w3 where f: "tf_send (tv_tcp E) (tc_tcp_fd u1) buf w = (n, w3)" "gw_world g3 = w3" "tc_bytes_sent u3 = n"
        using sd pos by (auto simp: tcp_send_data_def tcp_call_def set_tcp_world_def split: if_splits prod.splits)
      have "T (gw_world g3) = T (tcp_world s) @ take (nat n) buf" using send_law [OF f(1)] f(2) w(2) by simp
      then show ?thesis using res pos h3 c3 f(1,3) unfolding buf_def by auto
    qed
  qed
qed

end

subsection \<open>Queueing a packet\<close>

lemma row_storable:
  assumes "row_view A e = (True, x)" and "wf_packet x" and "e_message A e = e"
  shows "tcp_storable A e \<and> plain_row e"
proof -
  have pl: "plain_row e" and v: "tcp_view A e = x" using assms(1) by (auto simp: row_view_def)
  have "queue_tcp_payload_len_from_message e = Some (mm_message e, mm_data_len e)" "x = take (mm_data_len e) (mm_message e)"
    using row_payload(2,4) [OF pl] assms(2,3) v by auto
  moreover have "mm_data_len e \<le> length (mm_message e)" using pl by (simp add: plain_row_def)
  ultimately have "tcp_storable A e" using assms(2,3) by (simp add: tcp_storable_def)
  then show ?thesis using pl by simp
qed

lemma data_message_row:
  assumes "wf_packet d" and "\<forall>m. e_message A m = m"
  shows "row_view A (tcp_data_message d) = (True, d)"
proof -
  have d: "3 \<le> length d" "length d \<le> 256" "d ! 0 = 0x57" "d ! 1 = 0x45" using assms(1) by (simp_all add: wf_packet_def)
  have "plain_row (tcp_data_message d)" using d by (simp add: plain_row_def tcp_data_message_def blank_message_def)
  moreover have "tcp_view A (tcp_data_message d) = d"
    using d assms(2) by (simp add: tcp_view_def queue_tcp_payload_len_from_message_def tcp_data_message_def blank_message_def
        module_message_payload_def write_at_def nth_append)
  ultimately show ?thesis by (simp add: row_view_def)
qed

text \<open>There is room: in the ring, or in the overflow file for the row that has to leave the ring.\<close>

definition tcp_room :: "('u, 'w) gateway \<Rightarrow> bool" where
  "tcp_room g = (case tcp_queue g of None \<Rightarrow> False | Some (cfg, h, q) \<Rightarrow>
     q_count q < qc_capacity cfg \<or> q_file_size q + 259 \<le> qc_max_file_size cfg)"

context tcp_link
begin

lemma send_appends:
  assumes h: "tcp_holds E C H g l" and d: "wf_packet d" and room: "tcp_room g"
  shows "\<exists>g'. weware_tcp_send E (Some d) g = (RESULT_SUCCESS, g') \<and> tcp_holds E C H g' (l @ [d]) \<and>
    T (gw_world g') = T (gw_world g)"
proof -
  let ?F = "os_flash (tv_os E)" and ?A = "os_msg_abi (tv_os E)"
  obtain cfg i q where q: "tcp_queue g = Some (cfg, i, q)" "0 < qc_element_size cfg"
    "queue_holds (row_rel ?F C H ?A cfg) (row_view ?A) cfg q (gw_world g) (map (Pair True) l)"
    and o: "list_all wf_packet l" "pb_inv (gw_pre_boot g)" "\<not> command_queue_has_file g"
    using h by (auto simp: tcp_holds_def)
  obtain xs where wf: "wf_ring cfg q" and rel: "row_rel ?F C H ?A cfg q (gw_world g) xs"
    and l: "map (Pair True) l = xs @ map (row_view ?A) (ring_items cfg q)"
    using q(3) by (auto simp: queue_holds_def)
  note abi = row_rel_msg [OF q(3)]
  have hf: "queue_has_file cfg" and mx: "qc_max_file_size cfg < 2 ^ 32"
    using rel by (auto simp: row_rel_def tcp_rel_def queue_has_file_def)
  have head: "tcp_storable ?A (hd (ring_items cfg q)) \<and> plain_row (hd (ring_items cfg q)) \<and>
      \<not> clears_size cfg (3 + length (tcp_view ?A (hd (ring_items cfg q)))) q" if "q_count q = qc_capacity cfg"
  proof -
    let ?e = "hd (ring_items cfg q)"
    have "0 < length (ring_items cfg q)" using that wf_ring_indices [OF wf] by simp
    then have "?e \<in> set (ring_items cfg q)" by (metis hd_in_set length_greater_0_conv)
    then have "row_view ?A ?e \<in> set (map (Pair True) l)" unfolding l by simp
    then obtain x where x: "row_view ?A ?e = (True, x)" "x \<in> set l" by auto
    have w: "wf_packet x" using o(1) x(2) by (simp add: list_all_iff)
    have "tcp_view ?A ?e = x" using x(1) by (simp add: row_view_def)
    moreover have "length x \<le> 256" using w by (simp add: wf_packet_def)
    moreover have "q_file_size q + 259 \<le> qc_max_file_size cfg" using room q(1) that by (simp add: tcp_room_def)
    ultimately have "\<not> clears_size cfg (3 + length (tcp_view ?A ?e)) q" using mx by (auto simp: clears_size_def)
    then show ?thesis using row_storable [OF x(1) w] abi by blast
  qed
  then have st: "q_count q = qc_capacity cfg \<Longrightarrow> queue_has_file cfg \<and> tcp_storable ?A (hd (ring_items cfg q)) \<and>
      plain_row (hd (ring_items cfg q))" using hf by blast
  obtain q' w' where p: "queue_push ?F ?A True cfg q (tcp_data_message d) (gw_world g) = (RESULT_SUCCESS, q', w')"
    "queue_holds (row_rel ?F C H ?A cfg) (row_view ?A) cfg q' w' (map (Pair True) (l @ [d]))"
  proof -
    have nc: "(if q_count q = qc_capacity cfg \<and> clears_size cfg (3 + length (tcp_view ?A (hd (ring_items cfg q)))) q
        then drop (length (map (Pair True) l) - q_count q) (map (Pair True) l) else map (Pair True) l) = map (Pair True) l"
      using head by auto
    show thesis
      using rows.push_fifo [OF q(3) st, of "tcp_data_message d"] data_message_row [OF d abi] that unfolding nc by auto
  qed
  have "T w' = T (gw_world g)" using observe.push_keeps [OF p(1), where f = T] flash_law by blast
  moreover have "list_all wf_packet (l @ [d])" using o(1) d by simp
  moreover have "0 < length d" "length d \<le> 256" using d by (auto simp: wf_packet_def)
  ultimately show ?thesis
    using q(1,2) holds_set_queue [OF q(1,2) _ o(2,3) p(2)] tcp_queue_set(3) [of "g\<lparr>gw_world := w'\<rparr>" cfg i q]
    by (simp add: weware_tcp_send_def p(1))
qed

end

subsection \<open>Runs\<close>

text \<open>A send takes all of the buffer, or nothing.\<close>

definition whole_sends :: "('u, 'w) tcp_env \<Rightarrow> bool" where
  "whole_sends E \<longleftrightarrow> (\<forall>fd b w n w'. tf_send (tv_tcp E) fd b w = (n, w') \<longrightarrow> n \<le> 0 \<or> n = int (length b))"

text \<open>Rows of which five fit a batch, queued while there is room, and no turn in which live-first mode takes
  the newest row out of a full ring.\<close>

fun smooth_step :: "tcp_event \<Rightarrow> ('u, 'w) tcp \<Rightarrow> bool" where
  "smooth_step Tcp_Turn s = tail_stays s"
| "smooth_step (Tcp_Send (Some d)) s = (wf_packet d \<and> length d \<le> 102 \<and> tcp_room (snd s))"
| "smooth_step _ s = True"

fun smooth_run :: "('u, 'w) tcp_env \<Rightarrow> tcp_event list \<Rightarrow> ('u, 'w) tcp \<Rightarrow> bool" where
  "smooth_run E [] s = True"
| "smooth_run E (e # es) s = (smooth_step e s \<and> smooth_run E es (tcp_step E e s))"

fun queued_event :: "tcp_event \<Rightarrow> bytes list" where
  "queued_event (Tcp_Send (Some d)) = [d]"
| "queued_event _ = []"

definition queued :: "tcp_event list \<Rightarrow> bytes list" where
  "queued es = concat (map queued_event es)"

lemma queued_simps [simp]: "queued [] = []" "queued (e # es) = queued_event e @ queued es"
  by (simp_all add: queued_def)

lemma queued_append: "queued (es @ es') = queued es @ queued es'"
  by (simp add: queued_def)

text \<open>Removing from the front twice.\<close>

lemma take_then_take: "\<exists>m. take j xs @ take k (drop j xs @ ys) = take m (xs @ ys) \<and> drop k (drop j xs @ ys) = drop m (xs @ ys)"
proof (cases "j \<le> length xs")
  case True
  then show ?thesis by (intro exI [of _ "j + k"]) (auto simp: take_add add.commute)
next
  case False
  then show ?thesis by (intro exI [of _ "length xs + k"]) auto
qed

definition small_rows :: "bytes list \<Rightarrow> bool" where
  "small_rows l \<longleftrightarrow> (\<forall>r \<in> set l. length r \<le> 102)"

lemma small_batch: "small_rows l \<Longrightarrow> take MAX_COMBINED_SIZE (concat (take MAX_MESSAGES l)) = concat (take MAX_MESSAGES l)"
  using concat_small [of l 102 5] by (simp add: small_rows_def)

lemma quiet_event: "quiet C T s (tcp_socket_event_callback fd evt len (fst s), snd s)"
  by (simp add: quiet_def tcp_socket_event_callback_def Let_def)

context tcp_link
begin

lemma inv_sending_data:
  assumes i: "tcp_inv E C H T R l s" and t: "tail_stays s" and w: "whole_sends E" and sm: "small_rows l"
  shows "tcp_inv E C H T R l (snd (tcp_state_handle_sending_data E s))"
proof -
  obtain r s' where r: "tcp_state_handle_sending_data E s = (r, s')" by (rule prod.exhaust)
  have h: "tcp_holds E C H (snd s) l" and b: "tc_batch_count (fst s) \<le> min MAX_MESSAGES (length l)"
    and o: "in_order (R @ take (tc_batch_count (fst s)) l) (T (tcp_world s))" using i by (simp_all add: tcp_inv_def)
  have h': "tcp_holds E C H (snd s') l" using sending_data_cases [OF h t r] by blast
  from sending_data_cases [OF h t r] consider
      "prefix (T (tcp_world s)) (T (tcp_world s'))" "tc_batch_count (fst s') = tc_batch_count (fst s) \<or> tc_batch_count (fst s') = 0"
    | fd n x x' where "tc_batch_count (fst s') = min MAX_MESSAGES (length l)" "0 < n"
        "tf_send (tv_tcp E) fd (concat (take MAX_MESSAGES l)) x = (n, x')"
        "T (tcp_world s') = T (tcp_world s) @ take (nat n) (concat (take MAX_MESSAGES l))"
    unfolding small_batch [OF sm] by (elim conjE disjE exE) fast+
  then have "tc_batch_count (fst s') \<le> min MAX_MESSAGES (length l) \<and> in_order (R @ take (tc_batch_count (fst s')) l) (T (tcp_world s'))"
  proof cases
    case 1
    then show ?thesis using b in_order_prefix [OF o] in_order_butlast_prefix [OF o] by auto
  next
    case 2
    have "n \<le> 0 \<or> n = int (length (concat (take MAX_MESSAGES l)))" using w 2(3) unfolding whole_sends_def by blast
    then have "T (tcp_world s') = T (tcp_world s) @ concat (take MAX_MESSAGES l)" using 2(2,4) by simp
    moreover have "take (tc_batch_count (fst s')) l = take MAX_MESSAGES l" using 2(1) by (simp add: min_def)
    ultimately show ?thesis using 2(1) in_order_append [OF in_order_butlast [OF o]] by simp
  qed
  then show ?thesis using r h' by (simp add: tcp_inv_def)
qed

lemma inv_dispatch:
  assumes i: "tcp_inv E C H T R l s" and t: "tail_stays s" and w: "whole_sends E" and sm: "small_rows l"
  shows "\<exists>k. tcp_inv E C H T (R @ take k l) (drop k l) (tcp_dispatch E s) \<and>
    (k > 0 \<longrightarrow> tc_state (fst s) = TCP_STATE_ACK_RECEIVED \<and> k = tc_batch_count (fst s))"
proof -
  have hs: "tcp_inv E C H T R' l' (snd rs) \<Longrightarrow> tcp_inv E C H T R' l' (handle_state rs a b c)" for R' l' rs a b c
    by (auto simp: tcp_inv_def handle_state_def split_beta)
  have q: "tcp_inv E C H T R l (handle_state rs a b c)" if "quiet C T s (snd rs)" for rs a b c
    by (rule inv_quiet [OF i quiet_handle [OF that]])
  have ini: "tcp_inv E C H T R l (set_state TCP_STATE_WAIT_NETWORK (fst s), snd s)" by (rule inv_client [OF i]) simp
  have same: "tcp_inv E C H T R l (tcp_dispatch E s)" if "tc_state (fst s) \<noteq> TCP_STATE_ACK_RECEIVED"
    using that inv_sending_data [OF i t w sm] ini
    by (cases "tc_state (fst s)")
      (simp_all add: tcp_dispatch_def hs q quiet_wait_network quiet_socket_creating quiet_socket_created quiet_connecting quiet_connected
        quiet_sending_login tcp_state_handle_wait_ack_login_def tcp_state_handle_wait_ack_data_def quiet_wait_ack quiet_receiving
        quiet_closed quiet_reconnect quiet_error)
  show ?thesis
  proof (cases "tc_state (fst s) = TCP_STATE_ACK_RECEIVED")
    case True
    then have "tcp_inv E C H T (R @ take (tc_batch_count (fst s)) l) (drop (tc_batch_count (fst s)) l) (tcp_dispatch E s)"
      using inv_ack_received [OF i] by (simp add: tcp_dispatch_def hs)
    then show ?thesis using True by blast
  next
    case False
    then show ?thesis using same by (intro exI [of _ 0]) simp
  qed
qed

lemma inv_turn:
  assumes i: "tcp_inv E C H T R l s" and t: "tail_stays s" and w: "whole_sends E" and sm: "small_rows l"
  shows "\<exists>k. tcp_inv E C H T (R @ take k l) (drop k l) (tcp_turn E s)"
proof -
  let ?s = "tcp_receive E (tcp_check_overall_timeout E (tcp_check_state_timeout E (tcp_note_transition E
      ((fst s)\<lparr>tc_total_iterations := u32 (tc_total_iterations (fst s) + 1),
          tc_task_stats := the (snd (task_stats_update_periodic (Some (tc_task_stats (fst s))) 0))\<rparr>,
       module_manager_update_uptime (tv_os E) MODULE_ID_TCP (snd s)))))"
  have q: "quiet C T s ?s" by (rule quiet_before_dispatch [OF inv_command_queue [OF i]])
  obtain k where "tcp_inv E C H T (R @ take k l) (drop k l) (tcp_dispatch E ?s)"
    using inv_dispatch [OF inv_quiet [OF i q] _ w sm] quiet_tail_stays [OF q] t by blast
  then have "tcp_inv E C H T (R @ take k l) (drop k l) (tcp_turn E s)"
    using inv_quiet [OF _ quiet_sleep] by (simp add: tcp_turn_def split_beta Let_def)
  then show ?thesis by blast
qed

lemma inv_send:
  assumes i: "tcp_inv E C H T R l s" and d: "wf_packet d" and room: "tcp_room (snd s)"
  shows "tcp_inv E C H T R (l @ [d]) (tcp_step E (Tcp_Send (Some d)) s)"
  using i send_appends [OF _ d room, of H l] by (auto simp: tcp_inv_def)

lemma inv_step:
  assumes i: "tcp_inv E C H T R l s" and w: "whole_sends E" and sm: "small_rows l" and ss: "smooth_step e s"
  shows "small_rows (l @ queued [e]) \<and> (\<exists>k. tcp_inv E C H T (R @ take k (l @ queued [e])) (drop k (l @ queued [e])) (tcp_step E e s))"
proof (cases "\<exists>d. e = Tcp_Send (Some d)")
  case True
  then obtain d where e: "e = Tcp_Send (Some d)" by blast
  have "small_rows (l @ [d])" using sm ss e by (auto simp: small_rows_def)
  moreover have "tcp_inv E C H T R (l @ [d]) (tcp_step E e s)" using inv_send [OF i, of d] ss e by simp
  ultimately show ?thesis using e by (simp, intro exI [of _ 0]) simp
next
  case False
  then have q: "queued [e] = []" by (cases e rule: queued_event.cases) auto
  have "\<exists>k. tcp_inv E C H T (R @ take k l) (drop k l) (tcp_step E e s)"
  proof (cases "e = Tcp_Turn")
    case True
    then show ?thesis using inv_turn [OF i _ w sm] ss by simp
  next
    case other: False
    have "tcp_inv E C H T R l (tcp_step E e s)"
      using False other inv_quiet [OF i quiet_event] i inv_client [OF i]
      by (cases e) (auto simp: weware_tcp_send_def weware_tcp_reset_connection_def split: option.split)
    then show ?thesis by (intro exI [of _ 0]) simp
  qed
  then show ?thesis using sm q by simp
qed

lemma inv_run:
  assumes w: "whole_sends E"
  shows "tcp_inv E C H T R l s \<Longrightarrow> smooth_run E es s \<Longrightarrow> small_rows l \<Longrightarrow>
    \<exists>k. tcp_inv E C H T (R @ take k (l @ queued es)) (drop k (l @ queued es)) (tcp_run E es s)"
proof (induction es arbitrary: R l s)
  case Nil
  then show ?case by (intro exI [of _ 0]) simp
next
  case (Cons e es)
  let ?l = "l @ queued [e]"
  obtain j where j: "tcp_inv E C H T (R @ take j ?l) (drop j ?l) (tcp_step E e s)" and sm: "small_rows ?l"
    using inv_step [OF Cons.prems(1) w Cons.prems(3)] Cons.prems(2) by auto
  have "small_rows (drop j ?l)" using sm by (auto simp: small_rows_def dest: in_set_dropD)
  then obtain k where k: "tcp_inv E C H T ((R @ take j ?l) @ take k (drop j ?l @ queued es)) (drop k (drop j ?l @ queued es))
      (tcp_run E es (tcp_step E e s))"
    using Cons.IH [OF j] Cons.prems(2) by auto
  obtain m where "take j ?l @ take k (drop j ?l @ queued es) = take m (?l @ queued es)"
    "drop k (drop j ?l @ queued es) = drop m (?l @ queued es)"
    using take_then_take [of j ?l k "queued es"] by blast
  then show ?case using k queued_append [of "[e]" es] by auto
qed

end

subsection \<open>Live-first mode\<close>

lemma pop_tail_same_file: "queue_pop_tail ok cfg q = (r, e, q') \<Longrightarrow> same_file q q'"
  by (auto simp: queue_pop_tail_def same_file_def split: if_splits prod.splits)

lemma pop_tail_rows:
  assumes h: "queue_holds (row_rel F C H A cfg) (row_view A) cfg q w (map (Pair True) l)" and full: "queue_is_full (Some q) (Some cfg)"
  shows "\<exists>e q'. queue_pop_tail True cfg q = (RESULT_SUCCESS, Some e, q') \<and> l \<noteq> [] \<and> row_view A e = (True, last l) \<and>
    queue_holds (row_rel F C H A cfg) (row_view A) cfg q' w (map (Pair True) (butlast l))"
proof -
  obtain xs where wf: "wf_ring cfg q" and rel: "row_rel F C H A cfg q w xs"
    and l: "map (Pair True) l = xs @ map (row_view A) (ring_items cfg q)"
    using h by (auto simp: queue_holds_def)
  have pos: "q_count q \<noteq> 0" using full wf_ring_indices [OF wf] by (auto simp: queue_is_full_def)
  then have ne: "ring_items cfg q \<noteq> []" by (metis length_0_conv length_ring_items)
  obtain q' where p: "queue_pop_tail True cfg q = (RESULT_SUCCESS, Some (last (ring_items cfg q)), q')" "wf_ring cfg q'"
    "ring_items cfg q' = butlast (ring_items cfg q)"
    using ring_peek_and_tail [OF wf] pos by auto
  have lne: "l \<noteq> []" using l ne by auto
  have "row_view A (last (ring_items cfg q)) = last (map (Pair True) l)" using ne by (simp add: l last_map)
  moreover have "last (map (Pair True) l) = (True, last l)" using lne by (simp add: last_map)
  moreover have "map (Pair True) (butlast l) = xs @ map (row_view A) (ring_items cfg q')"
    using l ne by (simp add: p(3) map_butlast butlast_append)
  moreover have "row_rel F C H A cfg q' w xs" by (rule rows.ring_law [OF rel pop_tail_same_file [OF p(1)]])
  ultimately show ?thesis using p(1,2) lne by (auto simp: queue_holds_def)
qed

context tcp_link
begin

text \<open>A send that fails after the newest row was taken out of the full ring.\<close>

lemma live_first_failed_send:
  assumes h: "tcp_holds E C H (snd s) l" and lf: "\<not> tail_stays s" and fit: "length (take MAX_COMBINED_SIZE (concat (take MAX_MESSAGES l))) + length (last l) \<le> MAX_COMBINED_SIZE"
    and fd: "0 \<le> tc_tcp_fd (fst s)" "\<forall>w. \<not> tcp_fatal_errno (fst (tf_get_sock_errno (tv_tcp E) (tc_tcp_fd (fst s)) w))"
    and busy: "\<forall>b w. fst (tf_send (tv_tcp E) (tc_tcp_fd (fst s)) b w) \<le> 0"
    and r: "tcp_state_handle_sending_data E s = (r, s')"
  shows "r \<noteq> RESULT_SUCCESS \<and> tcp_holds E C H (snd s') (butlast l) \<and> T (tcp_world s') = T (tcp_world s)"
proof -
  define buf where "buf = take MAX_COMBINED_SIZE (concat (take MAX_MESSAGES l))"
  let ?fd = "tc_tcp_fd (fst s)" and ?A = "os_msg_abi (tv_os E)"
  obtain cfg i q where q: "tcp_queue (snd s) = Some (cfg, i, q)" "0 < qc_element_size cfg"
    using h by (auto simp: tcp_holds_def)
  have full: "queue_is_full (Some q) (Some cfg)" and live: "case tc_config (fst s) of None \<Rightarrow> False | Some c \<Rightarrow> tcf_live_first c"
    using lf q(1) by (auto simp: tail_stays_def)
  obtain err w1 where e1: "tf_get_sock_errno (tv_tcp E) ?fd (tcp_world s) = (err, w1)" "\<not> tcp_fatal_errno err"
    using fd(2) by (metis fst_conv surj_pair)
  let ?g1 = "(snd s)\<lparr>gw_world := w1\<rparr>"
  have v: "tcp_validate_socket_for_send E s = (True, fst s, ?g1)"
    using fd(1) e1 by (simp add: tcp_validate_socket_for_send_def tcp_call_def set_tcp_world_def)
  have T1: "T w1 = T (tcp_world s)" using validate_sent [of s] v by simp
  have h1: "tcp_holds E C H ?g1 l" using quiet_validate [of s] v h calm_holds by (auto simp: quiet_def)
  have tq1: "tcp_queue ?g1 = Some (cfg, i, q)" using q(1) by simp
  obtain es w where p: "queue_peek_batch (os_flash (tv_os E)) ?A True cfg MAX_MESSAGES q (gw_world ?g1) =
      (if l = [] then RESULT_NOT_FOUND else RESULT_SUCCESS, es, w)" "length es = min MAX_MESSAGES (length l)"
    "tcp_combine_messages es MAX_COMBINED_SIZE = buf" "tcp_holds E C H (?g1\<lparr>gw_world := w\<rparr>) l" "T w = T (gw_world ?g1)"
    using peek_and_combine [OF h1 tq1] unfolding buf_def by blast
  have hq: "queue_holds (row_rel (os_flash (tv_os E)) C H ?A cfg) (row_view ?A) cfg q w (map (Pair True) l)"
    and o: "list_all wf_packet l" "pb_inv (gw_pre_boot (snd s))" "\<not> command_queue_has_file (snd s)"
    using p(4) q(1) by (auto simp: tcp_holds_def)
  obtain e q' where pt: "queue_pop_tail True cfg q = (RESULT_SUCCESS, Some e, q')" "l \<noteq> []" "row_view ?A e = (True, last l)"
    "queue_holds (row_rel (os_flash (tv_os E)) C H ?A cfg) (row_view ?A) cfg q' w (map (Pair True) (butlast l))"
    using pop_tail_rows [OF hq full] by blast
  have wl: "wf_packet (last l)" using o(1) pt(2) by (simp add: list_all_iff)
  have e: "plain_row e" "tcp_view ?A e = last l" "e_message ?A e = e" using pt(3) row_rel_msg [OF hq] by (auto simp: row_view_def)
  have pay: "module_message_payload e = Some (mm_message e)" "mm_data_len e = length (last l)"
    using row_payload [OF e(1) _ e(3)] wl e(2) by auto
  have len: "0 < mm_data_len e" "mm_data_len e \<le> MAX_COMBINED_SIZE - length buf" "mm_data_len e \<le> MODULE_MESSAGE_INLINE_SIZE"
    using wl fit pay(2) by (auto simp: wf_packet_def buf_def)
  let ?g2 = "set_tcp_queue (Some (i, q')) (?g1\<lparr>gw_world := w\<rparr>)"
  define b where "b = take (mm_data_len e) (mm_message e) @ buf"
  have ne: "buf \<noteq> []" "es \<noteq> []" "b \<noteq> []" using batch_nonempty [OF h pt(2)] pt(2) p(2) by (auto simp: buf_def b_def min_def split: if_splits)
  have pre: "tcp_prepend_live_first_queue_tail E buf MAX_COMBINED_SIZE (fst s, ?g1\<lparr>gw_world := w\<rparr>) = (b, fst s, ?g2)"
    using q(1) ne(1) live full pay len
    by (simp add: tcp_prepend_live_first_queue_tail_def pt(1) module_message_payload_len_def b_def)
  have h2: "tcp_holds E C H ?g2 (butlast l)"
    using holds_set_queue [of "snd s" cfg i q "butlast l" E C H q' w] q o pt(4)
    by (auto simp: list_all_iff dest: in_set_butlastD)
  obtain n u3 g3 where sd: "tcp_send_data E ?fd b (fst s, ?g2) = (n, u3, g3)" by (metis prod_cases3)
  have q3: "quiet C T (fst s, ?g2) (u3, g3)" using quiet_send_data [of "(fst s, ?g2)" ?fd b] sd by simp
  obtain m w3 where f: "tf_send (tv_tcp E) ?fd b (gw_world ?g2) = (m, w3)" "m \<le> 0" using busy by (metis fst_conv surj_pair)
  have "T w3 = T (gw_world ?g2)" using send_law [OF f(1)] f(2) by simp
  moreover have "T (snd (tf_get_sock_errno (tv_tcp E) ?fd w3)) = T w3" using quiet_law [OF quiet_calls.Sock_Errno] by blast
  ultimately have n: "n \<le> 0 \<and> T (gw_world g3) = T (gw_world ?g2)"
    using sd f fd(1) ne(3) by (auto simp: tcp_send_data_def tcp_call_def set_tcp_world_def split: if_splits prod.splits)
  have "gw_world ?g2 = w" using tcp_queue_set(3) [of "?g1\<lparr>gw_world := w\<rparr>" cfg i q] q(1) by simp
  then have T3: "T (gw_world g3) = T (tcp_world s)" using n p(5) T1 by simp
  have h3: "tcp_holds E C H g3 (butlast l)" using q3 h2 calm_holds by (auto simp: quiet_def)
  have "tcp_state_handle_sending_data E s = (if n = 0 then RESULT_BUSY else RESULT_ERROR, u3, g3)"
    using v q p(1) ne pt(2) n pre sd
    by (simp add: tcp_state_handle_sending_data_def set_tcp_world_def Let_def p(3))
  then show ?thesis using r h3 T3 by auto
qed

end

end
