(* ===== verification/Tcp_Socket.thy ===== *)
theory Tcp_Socket
  imports Tcp_Client
begin

text \<open>
  The socket layer under the TCP client: \<open>module/tcp/sdk_walnut_socket_poll.c\<close> (a task that polls the sockets and
  turns what it sees into events), \<open>sdk_walnut_tcp.c\<close> (the table of functions the client calls) and
  \<open>sdk_platform_tcp.c\<close> (which table is in use). The lwIP calls of the kernel are the parameter \<open>lwip\<close>. A pass of
  the poll task is one step; the events it reports are a list, in the order of the calls of the callback, which
  does not touch the slots. \<open>int\<close> values are unbounded here.
\<close>

subsection \<open>The slots\<close>

text \<open>\<open>sl_cb\<close>: is a callback registered?\<close>

record socket_poll_slot =
  sl_fd :: int
  sl_cb :: bool
  sl_connect_pending :: bool
  sl_last_writable :: bool
  sl_fin_emitted :: bool
  sl_err_emitted :: bool
  sl_sndbuf_supported :: bool
  sl_sndbuf_capacity :: int
  sl_sndbuf_last :: int
  sl_unacked :: int
  sl_synth_ack_pending :: int

record socket_poll =
  g_socket_slots :: "socket_poll_slot list"
  g_socket_poll_started :: bool

text \<open>The kernel: the socket calls with their results, \<open>select\<close> with the flags (readable, writable, excepted) of a
  socket, the resolver, task creation, the clock and sleep.\<close>

record 'p lwip =
  lw_socket :: "'p \<Rightarrow> int \<times> 'p"
  lw_set_nonblocking :: "int \<Rightarrow> 'p \<Rightarrow> int \<times> 'p"
  lw_nread :: "int \<Rightarrow> 'p \<Rightarrow> (int \<times> int) \<times> 'p"
  lw_connect :: "int \<Rightarrow> bytes \<Rightarrow> 'p \<Rightarrow> int \<times> 'p"
  lw_send :: "int \<Rightarrow> bytes \<Rightarrow> 'p \<Rightarrow> int \<times> 'p"
  lw_recv :: "int \<Rightarrow> nat \<Rightarrow> 'p \<Rightarrow> int \<times> bytes \<times> 'p"
  lw_close :: "int \<Rightarrow> 'p \<Rightarrow> int \<times> 'p"
  lw_getsockerrno :: "int \<Rightarrow> 'p \<Rightarrow> int \<times> 'p"
  lw_sndbuf :: "int \<Rightarrow> 'p \<Rightarrow> (int \<times> int) \<times> 'p"
  lw_so_error :: "int \<Rightarrow> 'p \<Rightarrow> (int \<times> int) \<times> 'p"
  lw_getpeername :: "int \<Rightarrow> 'p \<Rightarrow> int \<times> 'p"
  lw_select :: "int list \<Rightarrow> nat \<Rightarrow> 'p \<Rightarrow> (int \<times> (int \<Rightarrow> bool \<times> bool \<times> bool)) \<times> 'p"
  lw_getaddrinfo :: "string \<Rightarrow> string \<Rightarrow> 'p \<Rightarrow> (int \<times> bytes option) \<times> 'p"
  lw_task_create :: "'p \<Rightarrow> bool \<times> 'p"
  lw_ticks :: "'p \<Rightarrow> nat \<times> 'p"
  lw_sleep :: "nat \<Rightarrow> 'p \<Rightarrow> 'p"

type_synonym socket_event = "int \<times> nat \<times> nat"

abbreviation (input) SOCKET_POLL_MAX :: nat where "SOCKET_POLL_MAX \<equiv> 2"
abbreviation (input) SOCKET_POLL_WAIT_MS :: nat where "SOCKET_POLL_WAIT_MS \<equiv> 100"
abbreviation (input) WALNUT_TCP_DNS_RETRY_MS :: nat where "WALNUT_TCP_DNS_RETRY_MS \<equiv> 500"

definition slot_free :: socket_poll_slot where
  "slot_free = \<lparr>sl_fd = -1, sl_cb = False, sl_connect_pending = False, sl_last_writable = False, sl_fin_emitted = False,
     sl_err_emitted = False, sl_sndbuf_supported = False, sl_sndbuf_capacity = 0, sl_sndbuf_last = 0, sl_unacked = 0,
     sl_synth_ack_pending = 0\<rparr>"

definition socket_poll_boot :: socket_poll where
  "socket_poll_boot = \<lparr>g_socket_slots = replicate SOCKET_POLL_MAX slot_free, g_socket_poll_started = False\<rparr>"

text \<open>The index of the first slot with the property, of those from \<open>i\<close> on.\<close>

fun slot_index :: "(socket_poll_slot \<Rightarrow> bool) \<Rightarrow> nat \<Rightarrow> socket_poll_slot list \<Rightarrow> nat option" where
  "slot_index P i [] = None"
| "slot_index P i (sl # sls) = (if P sl then Some i else slot_index P (i + 1) sls)"

definition socket_poll_find :: "int \<Rightarrow> socket_poll \<Rightarrow> nat option" where
  "socket_poll_find fd sp = (if fd < 0 then None else slot_index (\<lambda>sl. sl_fd sl = fd) 0 (g_socket_slots sp))"

definition socket_poll_alloc :: "socket_poll \<Rightarrow> nat option" where
  "socket_poll_alloc sp = slot_index (\<lambda>sl. sl_fd sl < 0) 0 (g_socket_slots sp)"

definition slot_update :: "nat \<Rightarrow> (socket_poll_slot \<Rightarrow> socket_poll_slot) \<Rightarrow> socket_poll \<Rightarrow> socket_poll" where
  "slot_update i f sp = sp\<lparr>g_socket_slots := (g_socket_slots sp)[i := f (g_socket_slots sp ! i)]\<rparr>"

definition sndbuf_avail :: "'p lwip \<Rightarrow> int \<Rightarrow> 'p \<Rightarrow> int \<times> 'p" where
  "sndbuf_avail L fd p = (let ((ret, val), p) = lw_sndbuf L fd p in (if ret \<noteq> 0 then -1 else if val > 0 then val else -1, p))"

definition errno_to_error_event :: "int \<Rightarrow> nat" where
  "errno_to_error_event err =
     (if err = ECONNRESET then SDK_NETCONN_EVT_ERROR_RST
      else if err = ECONNABORTED then SDK_NETCONN_EVT_ERROR_ABRT
      else if err = ENOTCONN \<or> err = EPIPE then SDK_NETCONN_EVT_ERROR_CLSD
      else SDK_NETCONN_EVT_ERROR)"

text \<open>The cast to \<open>unsigned short\<close> with its limit.\<close>

definition event_len :: "int \<Rightarrow> nat" where
  "event_len n = (if n > 65535 then 65535 else nat n)"

subsection \<open>A pass over a slot\<close>

definition service_excepted :: "'p lwip \<Rightarrow> socket_poll_slot \<Rightarrow> 'p \<Rightarrow> socket_poll_slot \<times> socket_event list \<times> 'p" where
  "service_excepted L sl p =
     (if sl_err_emitted sl then (sl, [], p)
      else
        let ((gs_ret, so_error), p) = lw_so_error L (sl_fd sl) p; sl = sl\<lparr>sl_err_emitted := True\<rparr> in
        if gs_ret = 0 \<and> so_error \<noteq> 0 then (sl, [(sl_fd sl, errno_to_error_event so_error, 0)], p) else (sl, [], p))"

definition service_connecting :: "'p lwip \<Rightarrow> bool \<Rightarrow> socket_poll_slot \<Rightarrow> 'p \<Rightarrow> socket_poll_slot \<times> socket_event list \<times> 'p" where
  "service_connecting L writable sl p =
     (if writable then
        let ((gs_ret, so_error), p) = lw_so_error L (sl_fd sl) p in
        if gs_ret = 0 \<and> so_error \<noteq> 0 then
          (sl\<lparr>sl_connect_pending := False, sl_last_writable := writable\<rparr>, [(sl_fd sl, errno_to_error_event so_error, 0)], p)
        else
          let (ret, p) = lw_getpeername L (sl_fd sl) p in
          if ret \<noteq> 0 then (sl\<lparr>sl_last_writable := writable\<rparr>, [], p)
          else (sl\<lparr>sl_connect_pending := False, sl_last_writable := writable\<rparr>, [(sl_fd sl, SDK_NETCONN_EVT_CONNECTED, 0)], p)
      else (sl\<lparr>sl_last_writable := writable\<rparr>, [], p))"

definition service_readable :: "'p lwip \<Rightarrow> socket_poll_slot \<Rightarrow> 'p \<Rightarrow> socket_poll_slot \<times> socket_event list \<times> 'p" where
  "service_readable L sl p =
     (let ((io_ret, avail), p) = lw_nread L (sl_fd sl) p in
      if io_ret = 0 \<and> avail > 0 then (sl, [(sl_fd sl, SDK_NETCONN_EVT_RCVPLUS, event_len avail)], p)
      else if \<not> sl_fin_emitted sl then (sl\<lparr>sl_fin_emitted := True\<rparr>, [], p) else (sl, [], p))"

definition service_acks :: "'p lwip \<Rightarrow> socket_poll_slot \<Rightarrow> 'p \<Rightarrow> socket_poll_slot \<times> socket_event list \<times> 'p" where
  "service_acks L sl p =
     (if sl_sndbuf_supported sl \<and> sl_unacked sl > 0 then
        let (cur, p) = sndbuf_avail L (sl_fd sl) p in
        if cur > sl_sndbuf_last sl then
          let delta = cur - sl_sndbuf_last sl; delta = (if delta > sl_unacked sl then sl_unacked sl else delta)
          in (sl\<lparr>sl_sndbuf_last := cur, sl_unacked := sl_unacked sl - delta\<rparr>,
              [(sl_fd sl, SDK_NETCONN_EVT_SENDACKED, event_len delta)], p)
        else if cur = sl_sndbuf_capacity sl then
          (sl\<lparr>sl_unacked := 0, sl_sndbuf_last := cur\<rparr>, [(sl_fd sl, SDK_NETCONN_EVT_SENDACKED, event_len (sl_unacked sl))], p)
        else (sl, [], p)
      else (sl, [], p))"

definition service_edges :: "bool \<Rightarrow> socket_poll_slot \<Rightarrow> socket_poll_slot \<times> socket_event list" where
  "service_edges writable sl =
     (if writable \<noteq> sl_last_writable sl then
        (sl\<lparr>sl_last_writable := writable\<rparr>,
         [(sl_fd sl, if writable then SDK_NETCONN_EVT_SENDPLUS else SDK_NETCONN_EVT_SENDMINUS, 0)])
      else (sl, []))"

definition socket_poll_service_slot ::
    "'p lwip \<Rightarrow> bool \<times> bool \<times> bool \<Rightarrow> socket_poll_slot \<Rightarrow> 'p \<Rightarrow> socket_poll_slot \<times> socket_event list \<times> 'p" where
  "socket_poll_service_slot L ready sl p =
     (let (readable, writable, excepted) = ready in
      if sl_fd sl < 0 \<or> \<not> sl_cb sl then (sl, [], p)
      else if excepted then service_excepted L sl p
      else if sl_connect_pending sl then service_connecting L writable sl p
      else
        let (sl, e1, p) = (if readable then service_readable L sl p else (sl, [], p));
            (sl, e2, p) = service_acks L sl p;
            (sl, e3) = service_edges writable sl
        in (sl, e1 @ e2 @ e3, p))"

text \<open>The deferred acknowledgements.\<close>

definition synth_ack :: "socket_poll_slot \<Rightarrow> socket_poll_slot \<times> socket_event list" where
  "synth_ack sl =
     (let pending = sl_synth_ack_pending sl in
      if sl_fd sl \<ge> 0 \<and> sl_cb sl \<and> pending > 0 then
        (sl\<lparr>sl_synth_ack_pending := sl_synth_ack_pending sl - pending\<rparr>, [(sl_fd sl, SDK_NETCONN_EVT_SENDACKED, event_len pending)])
      else (sl, []))"

fun synth_acks :: "socket_poll_slot list \<Rightarrow> socket_poll_slot list \<times> socket_event list" where
  "synth_acks [] = ([], [])"
| "synth_acks (sl # sls) =
     (let (sl, e) = synth_ack sl; (sls, es) = synth_acks sls in (sl # sls, e @ es))"

fun service_slots ::
    "'p lwip \<Rightarrow> (int \<Rightarrow> bool \<times> bool \<times> bool) \<Rightarrow> socket_poll_slot list \<Rightarrow> 'p \<Rightarrow> socket_poll_slot list \<times> socket_event list \<times> 'p" where
  "service_slots L ready [] p = ([], [], p)"
| "service_slots L ready (sl # sls) p =
     (if sl_fd sl < 0 then let (sls, es, p) = service_slots L ready sls p in (sl # sls, es, p)
      else
        let (sl, e, p) = socket_poll_service_slot L (ready (sl_fd sl)) sl p; (sls, es, p) = service_slots L ready sls p
        in (sl # sls, e @ es, p))"

text \<open>One turn of \<open>socket_poll_loop\<close>. No slot changes while \<open>select\<close> waits.\<close>

definition socket_poll_pass :: "'p lwip \<Rightarrow> socket_poll \<Rightarrow> 'p \<Rightarrow> socket_poll \<times> socket_event list \<times> 'p" where
  "socket_poll_pass L sp p =
     (let fds = filter (\<lambda>fd. fd \<ge> 0) (map sl_fd (g_socket_slots sp)) in
      if fds = [] then (sp, [], lw_sleep L SOCKET_POLL_WAIT_MS p)
      else
        let ((ret, ready), p) = lw_select L fds SOCKET_POLL_WAIT_MS p;
            (sls, e1) = synth_acks (g_socket_slots sp)
        in if ret < 0 then (sp\<lparr>g_socket_slots := sls\<rparr>, e1, lw_sleep L SOCKET_POLL_WAIT_MS p)
           else if ret = 0 then (sp\<lparr>g_socket_slots := sls\<rparr>, e1, p)
           else
             let (sls, e2, p) = service_slots L ready sls p
             in (sp\<lparr>g_socket_slots := sls\<rparr>, e1 @ e2, lw_sleep L SOCKET_POLL_WAIT_MS p))"

subsection \<open>The interface of the poll task\<close>

definition socket_poll_start :: "'p lwip \<Rightarrow> socket_poll \<times> 'p \<Rightarrow> bool \<times> socket_poll \<times> 'p" where
  "socket_poll_start L s =
     (let (sp, p) = s in
      if g_socket_poll_started sp then (True, sp, p)
      else let (ok, p) = lw_task_create L p in if ok then (True, sp\<lparr>g_socket_poll_started := True\<rparr>, p) else (False, sp, p))"

text \<open>The last argument of the C function, the callback, is not null.\<close>

definition sdk_walnut_socket_with_callback :: "'p lwip \<Rightarrow> socket_poll \<times> 'p \<Rightarrow> int \<times> socket_poll \<times> 'p" where
  "sdk_walnut_socket_with_callback L s =
     (let (ok, sp, p) = socket_poll_start L s in
      if \<not> ok then (-1, sp, p)
      else case socket_poll_alloc sp of
        None \<Rightarrow> (-1, sp, p)
      | Some i \<Rightarrow>
          let (fd, p) = lw_socket L p in
          if fd < 0 then (fd, sp, p)
          else
            let (r, p) = lw_set_nonblocking L fd p in
            if r \<noteq> 0 then
              let (err, p) = lw_getsockerrno L fd p; (_, p) = lw_close L fd p in (-1, sp, p)
            else
              let (cap, p) = sndbuf_avail L fd p
              in (fd, slot_update i (\<lambda>_. slot_free\<lparr>sl_cb := True, sl_sndbuf_supported := cap > 0, sl_sndbuf_capacity := cap,
                        sl_sndbuf_last := cap, sl_fd := fd\<rparr>) sp, p))"

definition sdk_walnut_socket_poll_release :: "int \<Rightarrow> socket_poll \<Rightarrow> socket_poll" where
  "sdk_walnut_socket_poll_release fd sp =
     (case socket_poll_find fd sp of None \<Rightarrow> sp | Some i \<Rightarrow> slot_update i (\<lambda>_. slot_free) sp)"

definition sdk_walnut_socket_poll_mark_connecting :: "int \<Rightarrow> socket_poll \<Rightarrow> socket_poll" where
  "sdk_walnut_socket_poll_mark_connecting fd sp =
     (case socket_poll_find fd sp of
        None \<Rightarrow> sp
      | Some i \<Rightarrow> slot_update i (\<lambda>sl. sl\<lparr>sl_fin_emitted := False, sl_err_emitted := False, sl_connect_pending := True\<rparr>) sp)"

definition sdk_walnut_socket_poll_note_sent :: "'p lwip \<Rightarrow> int \<Rightarrow> int \<Rightarrow> socket_poll \<times> 'p \<Rightarrow> socket_poll \<times> 'p" where
  "sdk_walnut_socket_poll_note_sent L fd len s =
     (let (sp, p) = s in
      case socket_poll_find fd sp of
        None \<Rightarrow> s
      | Some i \<Rightarrow>
          if len \<le> 0 then s
          else if sl_sndbuf_supported (g_socket_slots sp ! i) then
            let (after, p) = sndbuf_avail L fd p
            in (slot_update i (\<lambda>sl. sl\<lparr>sl_connect_pending := False,
                  sl_sndbuf_last := (if after \<ge> 0 then after else sl_sndbuf_capacity sl - len), sl_unacked := sl_unacked sl + len\<rparr>) sp, p)
          else (slot_update i (\<lambda>sl. sl\<lparr>sl_connect_pending := False, sl_synth_ack_pending := sl_synth_ack_pending sl + len\<rparr>) sp, p))"

subsection \<open>The functions of the client\<close>

text \<open>The address as the kernel wants it: the first two bytes are the family, least significant byte first. Of an
  address of one byte the code would read the second byte from an uninitialised variable.\<close>

definition kernel_address :: "bytes \<Rightarrow> bytes" where
  "kernel_address a =
     (if take 2 a = [2, 0] then [0x10, 0x02] @ drop 2 a
      else if take 2 a = [10, 0] then [0x18, 0x10] @ drop 2 a else a)"

definition connect_impl :: "'p lwip \<Rightarrow> int \<Rightarrow> bytes \<Rightarrow> socket_poll \<times> 'p \<Rightarrow> int \<times> socket_poll \<times> 'p" where
  "connect_impl L fd addr s =
     (if addr = [] \<or> length addr > 16 then (-1, s)
      else let (ret, p) = lw_connect L fd (kernel_address addr) (snd s)
        in (ret, sdk_walnut_socket_poll_mark_connecting fd (fst s), p))"

definition send_impl :: "'p lwip \<Rightarrow> int \<Rightarrow> bytes \<Rightarrow> socket_poll \<times> 'p \<Rightarrow> int \<times> socket_poll \<times> 'p" where
  "send_impl L fd buf s =
     (let (sp, p) = s; (sent, p) = lw_send L fd buf p in
      if sent < 0 then
        let (err, p) = lw_getsockerrno L fd p in (if err = EAGAIN \<or> err = 11 then 0 else sent, sp, p)
      else if sent > 0 then (sent, sdk_walnut_socket_poll_note_sent L fd sent (sp, p))
      else (sent, sp, p))"

definition recv_impl :: "'p lwip \<Rightarrow> int \<Rightarrow> nat \<Rightarrow> socket_poll \<times> 'p \<Rightarrow> int \<times> bytes \<times> socket_poll \<times> 'p" where
  "recv_impl L fd n s = (let (r, bs, p) = lw_recv L fd n (snd s) in (r, bs, fst s, p))"

definition close_impl :: "'p lwip \<Rightarrow> int \<Rightarrow> socket_poll \<times> 'p \<Rightarrow> int \<times> socket_poll \<times> 'p" where
  "close_impl L fd s =
     (let sp = sdk_walnut_socket_poll_release fd (fst s) in
      if fd < 0 then (0, sp, snd s) else let (r, p) = lw_close L fd (snd s) in (r, sp, p))"

definition get_sock_errno_impl :: "'p lwip \<Rightarrow> int \<Rightarrow> socket_poll \<times> 'p \<Rightarrow> int \<times> socket_poll \<times> 'p" where
  "get_sock_errno_impl L fd s =
     (if fd < 0 then (0, s) else let (r, p) = lw_getsockerrno L fd (snd s) in (r, fst s, p))"

definition get_errno_impl :: "socket_poll \<times> 'p \<Rightarrow> int \<times> socket_poll \<times> 'p" where
  "get_errno_impl s = (0, s)"

definition s_walnut_tcp_ops :: "'p lwip \<Rightarrow> (socket_poll \<times> 'p) tcp_functionality" where
  "s_walnut_tcp_ops L = \<lparr>tf_socket_create_with_callback = sdk_walnut_socket_with_callback L, tf_connect = connect_impl L,
     tf_send = send_impl L, tf_recv = recv_impl L, tf_close = close_impl L,
     tf_get_sock_errno = get_sock_errno_impl L, tf_get_errno = get_errno_impl\<rparr>"

text \<open>\<open>sdk_platform_tcp.c\<close>: the table in use is the registered one, by default that of the kernel above.\<close>

definition tcp_ops :: "'p lwip \<Rightarrow> (socket_poll \<times> 'p) tcp_functionality option \<Rightarrow> (socket_poll \<times> 'p) tcp_functionality" where
  "tcp_ops L g_tcp_ops = (case g_tcp_ops of None \<Rightarrow> s_walnut_tcp_ops L | Some ops \<Rightarrow> ops)"

text \<open>The loop of \<open>sdk_tcp_connect_host\<close> until the name is resolved or the time is over.\<close>

partial_function (option) resolve_loop ::
    "'p lwip \<Rightarrow> string \<Rightarrow> string \<Rightarrow> nat \<Rightarrow> nat \<Rightarrow> 'p \<Rightarrow> (bytes option \<times> 'p) option" where
  "resolve_loop L host port start timeout p =
     (case lw_getaddrinfo L host port p of
        ((ret, result), p1) \<Rightarrow>
          if ret = 0 \<and> result \<noteq> None then Some (result, p1)
          else case lw_ticks L p1 of
            (now, p2) \<Rightarrow>
              if u32_minus now start \<ge> timeout then Some (None, p2)
              else resolve_loop L host port start timeout (lw_sleep L WALNUT_TCP_DNS_RETRY_MS p2))"

text \<open>The outer option: does the call return?\<close>

definition sdk_tcp_connect_host ::
    "'p lwip \<Rightarrow> int \<Rightarrow> string option \<Rightarrow> nat \<Rightarrow> nat \<Rightarrow> socket_poll \<times> 'p \<Rightarrow> (int \<times> socket_poll \<times> 'p) option" where
  "sdk_tcp_connect_host L fd host port timeout_ms s =
     (case host of
        None \<Rightarrow> Some (-1, s)
      | Some h \<Rightarrow>
          if fd < 0 \<or> h = [] then Some (-1, s)
          else
            let portstr = snd (snprintf 6 (dec port)); (start, p) = lw_ticks L (snd s) in
            (case resolve_loop L h portstr start timeout_ms p of
               None \<Rightarrow> None
             | Some (None, p) \<Rightarrow> Some (-1, fst s, p)
             | Some (Some addr, p) \<Rightarrow>
                 let (ret, sp, p) = connect_impl L fd addr (fst s, p) in
                 if ret < 0 then
                   let (err, p) = lw_getsockerrno L fd p
                   in Some (if err = EINPROGRESS \<or> err = EAGAIN \<or> err = 11 then 0 else -1, sp, p)
                 else Some (0, sp, p)))"

subsection \<open>Acknowledgements and bytes accepted\<close>

text \<open>The bytes that events acknowledge for a descriptor, and those still to be acknowledged.\<close>

definition acked :: "int \<Rightarrow> socket_event list \<Rightarrow> int" where
  "acked fd es = (\<Sum>(f, e, n) \<leftarrow> es. if f = fd \<and> e = SDK_NETCONN_EVT_SENDACKED then int n else 0)"

definition slot_pending :: "int \<Rightarrow> socket_poll_slot \<Rightarrow> int" where
  "slot_pending fd sl = (if sl_fd sl = fd then sl_unacked sl + sl_synth_ack_pending sl else 0)"

definition unconfirmed :: "int \<Rightarrow> socket_poll_slot list \<Rightarrow> int" where
  "unconfirmed fd sls = (\<Sum>sl \<leftarrow> sls. slot_pending fd sl)"

definition slot_ok :: "socket_poll_slot \<Rightarrow> bool" where
  "slot_ok sl \<longleftrightarrow> 0 \<le> sl_unacked sl \<and> 0 \<le> sl_synth_ack_pending sl"

lemma acked_simps [simp]:
  "acked fd [] = 0" "acked fd (es @ es') = acked fd es + acked fd es'"
  "acked fd ((f, e, n) # es) = (if f = fd \<and> e = SDK_NETCONN_EVT_SENDACKED then int n else 0) + acked fd es"
  by (simp_all add: acked_def)

lemma unconfirmed_simps [simp]: "unconfirmed fd [] = 0" "unconfirmed fd (sl # sls) = slot_pending fd sl + unconfirmed fd sls"
  by (simp_all add: unconfirmed_def)

lemma error_event_not_ack [simp]: "errno_to_error_event err \<noteq> SDK_NETCONN_EVT_SENDACKED"
  by (simp add: errno_to_error_event_def netconn_events)

lemma event_len_le: "0 \<le> n \<Longrightarrow> int (event_len n) \<le> n"
  by (simp add: event_len_def)

text \<open>What a pass over a slot keeps: the descriptor; and it acknowledges no more than is pending.\<close>

definition slot_step_ok :: "socket_poll_slot \<Rightarrow> socket_poll_slot \<Rightarrow> socket_event list \<Rightarrow> bool" where
  "slot_step_ok sl sl' es \<longleftrightarrow> sl_fd sl' = sl_fd sl \<and> slot_ok sl' \<and> (\<forall>fd. acked fd es + slot_pending fd sl' \<le> slot_pending fd sl)"

lemma slot_step_refl: "slot_ok sl \<Longrightarrow> slot_step_ok sl sl []"
  by (simp add: slot_step_ok_def)

lemma slot_step_trans: "slot_step_ok sl sl1 e1 \<Longrightarrow> slot_step_ok sl1 sl2 e2 \<Longrightarrow> slot_step_ok sl sl2 (e1 @ e2)"
  unfolding slot_step_ok_def by (auto, smt (verit))

text \<open>Events of other kinds, and flags, do not matter.\<close>

lemma slot_step_other:
  assumes "slot_ok sl" and "sl_fd sl' = sl_fd sl" "sl_unacked sl' = sl_unacked sl" "sl_synth_ack_pending sl' = sl_synth_ack_pending sl"
    and "\<forall>(f, e, n) \<in> set es. e \<noteq> SDK_NETCONN_EVT_SENDACKED"
  shows "slot_step_ok sl sl' es"
proof -
  have "acked fd es = 0" for fd using assms(5) by (induction es) auto
  then show ?thesis using assms(1-4) by (simp add: slot_step_ok_def slot_ok_def slot_pending_def)
qed

lemma service_acks_ok: "slot_ok sl \<Longrightarrow> service_acks L sl p = (sl', es, p') \<Longrightarrow> slot_step_ok sl sl' es"
  by (auto simp: service_acks_def Let_def slot_step_refl split: prod.splits if_splits)
    (auto simp: slot_step_ok_def slot_ok_def slot_pending_def event_len_def)

lemma service_edges_ok: "slot_ok sl \<Longrightarrow> service_edges wr sl = (sl', es) \<Longrightarrow> slot_step_ok sl sl' es"
  by (auto simp: service_edges_def netconn_events intro!: slot_step_other split: if_splits)

lemma service_readable_ok: "slot_ok sl \<Longrightarrow> service_readable L sl p = (sl', es, p') \<Longrightarrow> slot_step_ok sl sl' es"
  by (auto simp: service_readable_def Let_def netconn_events intro!: slot_step_other split: prod.splits if_splits)

lemma service_slot_ok:
  assumes "slot_ok sl" and "socket_poll_service_slot L fl sl p = (sl', es, p')"
  shows "slot_step_ok sl sl' es"
proof (cases "sl_fd sl < 0 \<or> \<not> sl_cb sl \<or> snd (snd fl) \<or> sl_connect_pending sl")
  case True
  then show ?thesis
    using assms
    by (auto simp: socket_poll_service_slot_def service_excepted_def service_connecting_def Let_def netconn_events
        errno_to_error_event_def intro!: slot_step_other split: prod.splits if_splits)
next
  case False
  obtain sl1 e1 p1 where 1: "(if fst fl then service_readable L sl p else (sl, [], p)) = (sl1, e1, p1)" by (metis prod_cases3)
  obtain sl2 e2 p2 where 2: "service_acks L sl1 p1 = (sl2, e2, p2)" by (metis prod_cases3)
  obtain sl3 e3 where 3: "service_edges (fst (snd fl)) sl2 = (sl3, e3)" by fastforce
  have s1: "slot_step_ok sl sl1 e1" using 1 assms(1) by (auto simp: slot_step_refl dest: service_readable_ok split: if_splits)
  then have s2: "slot_step_ok sl1 sl2 e2" using 2 by (auto simp: slot_step_ok_def [of sl] intro: service_acks_ok)
  then have s3: "slot_step_ok sl2 sl3 e3" using 3 by (auto simp: slot_step_ok_def [of sl1] intro: service_edges_ok)
  have "sl' = sl3 \<and> es = e1 @ e2 @ e3"
    using assms(2) False 1 2 3 by (auto simp: socket_poll_service_slot_def split_beta Let_def)
  then show ?thesis using slot_step_trans [OF s1 slot_step_trans [OF s2 s3]] by simp
qed

lemma synth_ack_ok: "slot_ok sl \<Longrightarrow> synth_ack sl = (sl', es) \<Longrightarrow> slot_step_ok sl sl' es"
  by (auto simp: synth_ack_def Let_def slot_step_refl split: if_splits)
    (auto simp: slot_step_ok_def slot_ok_def slot_pending_def event_len_def)

lemma synth_acks_ok:
  "synth_acks sls = (sls', es) \<Longrightarrow> list_all slot_ok sls \<Longrightarrow> list_all slot_ok sls' \<and> length sls' = length sls \<and>
     acked fd es + unconfirmed fd sls' \<le> unconfirmed fd sls"
proof (induction sls arbitrary: sls' es)
  case (Cons sl sls)
  obtain sl1 e1 where 1: "synth_ack sl = (sl1, e1)" by fastforce
  obtain sls2 e2 where 2: "synth_acks sls = (sls2, e2)" by fastforce
  have "slot_step_ok sl sl1 e1" using synth_ack_ok [OF _ 1] Cons.prems(2) by simp
  then show ?case using Cons.IH [OF 2] Cons.prems 1 2 by (auto simp: slot_step_ok_def) (smt (verit))
qed simp

lemma service_slots_ok:
  "service_slots L ready sls p = (sls', es, p') \<Longrightarrow> list_all slot_ok sls \<Longrightarrow> list_all slot_ok sls' \<and> length sls' = length sls \<and>
     acked fd es + unconfirmed fd sls' \<le> unconfirmed fd sls"
proof (induction sls arbitrary: sls' es p p')
  case (Cons sl sls)
  obtain sl1 e1 p1 where 1: "(if sl_fd sl < 0 then (sl, [], p) else socket_poll_service_slot L (ready (sl_fd sl)) sl p) = (sl1, e1, p1)"
    by (metis prod_cases3)
  obtain sls2 e2 p2 where 2: "service_slots L ready sls p1 = (sls2, e2, p2)" by (metis prod_cases3)
  have s: "slot_step_ok sl sl1 e1"
    using 1 Cons.prems(2) by (auto intro: slot_step_refl service_slot_ok split: if_splits)
  have "sls' = sl1 # sls2 \<and> es = e1 @ e2"
    using Cons.prems(1) 1 2 by (auto split: if_splits)
  then show ?case using Cons.IH [OF 2] Cons.prems(2) s by (auto simp: slot_step_ok_def) (smt (verit))
qed simp

lemma poll_pass_ok:
  assumes "socket_poll_pass L sp p = (sp', es, p')" and ok: "list_all slot_ok (g_socket_slots sp)"
  shows "list_all slot_ok (g_socket_slots sp') \<and> acked fd es + unconfirmed fd (g_socket_slots sp') \<le> unconfirmed fd (g_socket_slots sp)"
proof -
  obtain sls1 e1 where 1: "synth_acks (g_socket_slots sp) = (sls1, e1)" by fastforce
  note s1 = synth_acks_ok [OF 1 ok, of fd]
  have s2: "list_all slot_ok sls2 \<and> acked fd e2 + unconfirmed fd sls2 \<le> unconfirmed fd sls1"
    if "service_slots L ready sls1 q = (sls2, e2, q')" for ready q sls2 e2 q'
    using service_slots_ok [OF that, of fd] s1 by blast
  show ?thesis
    using assms s1 by (auto simp: socket_poll_pass_def 1 Let_def split: prod.splits if_splits dest!: s2)
qed

subsection \<open>Sessions of calls\<close>

datatype walnut_call =
    Walnut_Create
  | Walnut_Connect int bytes
  | Walnut_Send int bytes
  | Walnut_Recv int nat
  | Walnut_Close int
  | Walnut_Poll

text \<open>A call: the bytes accepted for a descriptor, if any, and the events reported.\<close>

fun walnut_step :: "'p lwip \<Rightarrow> walnut_call \<Rightarrow> socket_poll \<times> 'p \<Rightarrow> (int \<times> int) list \<times> socket_event list \<times> socket_poll \<times> 'p" where
  "walnut_step L Walnut_Create s = ([], [], snd (sdk_walnut_socket_with_callback L s))"
| "walnut_step L (Walnut_Connect fd a) s = ([], [], snd (connect_impl L fd a s))"
| "walnut_step L (Walnut_Send fd b) s = (let (n, s) = send_impl L fd b s in (if n > 0 then [(fd, n)] else [], [], s))"
| "walnut_step L (Walnut_Recv fd n) s = ([], [], snd (snd (recv_impl L fd n s)))"
| "walnut_step L (Walnut_Close fd) s = ([], [], snd (close_impl L fd s))"
| "walnut_step L Walnut_Poll s = (let (sp, es, p) = socket_poll_pass L (fst s) (snd s) in ([], es, sp, p))"

fun walnut_run ::
    "'p lwip \<Rightarrow> walnut_call list \<Rightarrow> socket_poll \<times> 'p \<Rightarrow> (int \<times> int) list \<times> socket_event list \<times> socket_poll \<times> 'p" where
  "walnut_run L [] s = ([], [], s)"
| "walnut_run L (c # cs) s =
     (let (a, e, s) = walnut_step L c s; (as, es, s) = walnut_run L cs s in (a @ as, e @ es, s))"

definition accepted :: "int \<Rightarrow> (int \<times> int) list \<Rightarrow> int" where
  "accepted fd as = (\<Sum>(f, n) \<leftarrow> as. if f = fd then n else 0)"

lemma accepted_simps [simp]:
  "accepted fd [] = 0" "accepted fd (as @ bs) = accepted fd as + accepted fd bs"
  "accepted fd ((f, n) # as) = (if f = fd then n else 0) + accepted fd as"
  by (simp_all add: accepted_def)

lemma slot_index_Some: "slot_index P i sls = Some j \<Longrightarrow> i \<le> j \<and> j - i < length sls \<and> P (sls ! (j - i))"
proof (induction sls arbitrary: i)
  case (Cons sl sls)
  then show ?case
  proof (cases "P sl")
    case False
    then have "Suc i \<le> j \<and> j - Suc i < length sls \<and> P (sls ! (j - Suc i))" using Cons by simp
    moreover then have "j - i = Suc (j - Suc i)" by linarith
    ultimately show ?thesis by simp
  qed simp
qed simp

lemma slot_index_0: "slot_index P 0 sls = Some j \<Longrightarrow> j < length sls \<and> P (sls ! j)"
  using slot_index_Some [of P 0 sls j] by simp

lemma unconfirmed_update: "i < length sls \<Longrightarrow> unconfirmed fd (sls[i := sl]) = unconfirmed fd sls - slot_pending fd (sls ! i) + slot_pending fd sl"
  unfolding unconfirmed_def by (induction sls arbitrary: i) (auto split: nat.split)

lemma slots_update_ok: "list_all slot_ok sls \<Longrightarrow> slot_ok sl \<Longrightarrow> list_all slot_ok (sls[i := sl])"
  by (auto simp: list_all_iff dest: set_update_subset_insert [THEN subsetD])

lemma unconfirmed_nonneg: "list_all slot_ok sls \<Longrightarrow> 0 \<le> unconfirmed fd sls"
  by (induction sls) (auto simp: slot_pending_def slot_ok_def)

lemma slot_free_ok [simp]: "slot_ok slot_free" "slot_pending fd slot_free = 0"
  by (simp_all add: slot_ok_def slot_pending_def slot_free_def)

text \<open>A changed slot.\<close>

lemma slot_change:
  assumes ok: "list_all slot_ok (g_socket_slots sp)" and i: "i < length (g_socket_slots sp)"
    and f: "slot_ok (f (g_socket_slots sp ! i))"
      "slot_pending fd (f (g_socket_slots sp ! i)) \<le> slot_pending fd (g_socket_slots sp ! i) + d"
  shows "list_all slot_ok (g_socket_slots (slot_update i f sp)) \<and>
    unconfirmed fd (g_socket_slots (slot_update i f sp)) \<le> unconfirmed fd (g_socket_slots sp) + d"
  using assms by (simp add: slot_update_def slots_update_ok unconfirmed_update)

lemma slot_nth_ok: "list_all slot_ok sls \<Longrightarrow> i < length sls \<Longrightarrow> slot_ok (sls ! i) \<and> 0 \<le> slot_pending fd (sls ! i)"
  by (auto simp: list_all_length slot_pending_def slot_ok_def)

lemma find_index: "socket_poll_find fd sp = Some i \<Longrightarrow> i < length (g_socket_slots sp) \<and> sl_fd (g_socket_slots sp ! i) = fd"
  by (auto simp: socket_poll_find_def dest: slot_index_0 split: if_splits)

lemma create_slot:
  assumes "socket_poll_alloc sp = Some i" and "list_all slot_ok (g_socket_slots sp)"
    and "sl_unacked sl = 0" "sl_synth_ack_pending sl = 0"
  shows "list_all slot_ok (g_socket_slots (slot_update i (\<lambda>_. sl) sp)) \<and>
    unconfirmed fd (g_socket_slots (slot_update i (\<lambda>_. sl) sp)) \<le> unconfirmed fd (g_socket_slots sp)"
  using slot_change [OF assms(2), of i "\<lambda>_. sl" fd 0] slot_nth_ok [OF assms(2), of i fd] assms(1,3,4)
  by (auto simp: socket_poll_alloc_def slot_ok_def slot_pending_def dest: slot_index_0)

lemma create_budget:
  assumes "list_all slot_ok (g_socket_slots sp)" and "sdk_walnut_socket_with_callback L (sp, p) = (n, sp', p')"
  shows "list_all slot_ok (g_socket_slots sp') \<and> unconfirmed fd (g_socket_slots sp') \<le> unconfirmed fd (g_socket_slots sp)"
proof -
  obtain ok sp1 p1 where 1: "socket_poll_start L (sp, p) = (ok, sp1, p1)" by (metis prod_cases3)
  then have sls: "g_socket_slots sp1 = g_socket_slots sp" by (auto simp: socket_poll_start_def split: if_splits prod.splits)
  show ?thesis
    using assms(2) create_slot [of sp1] assms(1) sls
    by (auto simp: sdk_walnut_socket_with_callback_def 1 slot_free_def Let_def split: prod.splits if_splits option.splits)
qed

lemma connecting_budget:
  assumes "list_all slot_ok (g_socket_slots sp)"
  shows "list_all slot_ok (g_socket_slots (sdk_walnut_socket_poll_mark_connecting f sp)) \<and>
    unconfirmed fd (g_socket_slots (sdk_walnut_socket_poll_mark_connecting f sp)) \<le> unconfirmed fd (g_socket_slots sp)"
proof (cases "socket_poll_find f sp")
  case (Some i)
  then show ?thesis
    using slot_change [OF assms, of i _ fd 0] slot_nth_ok [OF assms, of i fd] find_index [OF Some]
    by (simp add: sdk_walnut_socket_poll_mark_connecting_def slot_ok_def slot_pending_def)
qed (simp add: assms sdk_walnut_socket_poll_mark_connecting_def)

lemma release_budget:
  assumes "list_all slot_ok (g_socket_slots sp)"
  shows "list_all slot_ok (g_socket_slots (sdk_walnut_socket_poll_release f sp)) \<and>
    unconfirmed fd (g_socket_slots (sdk_walnut_socket_poll_release f sp)) \<le> unconfirmed fd (g_socket_slots sp)"
proof (cases "socket_poll_find f sp")
  case (Some i)
  then show ?thesis
    using slot_change [OF assms, of i "\<lambda>_. slot_free" fd 0] slot_nth_ok [OF assms, of i fd] find_index [OF Some]
    by (simp add: sdk_walnut_socket_poll_release_def)
qed (simp add: assms sdk_walnut_socket_poll_release_def)

lemma note_sent_budget:
  fixes L :: "'p lwip"
  assumes ok: "list_all slot_ok (g_socket_slots sp)" and "n > 0"
  shows "list_all slot_ok (g_socket_slots (fst (sdk_walnut_socket_poll_note_sent L f n (sp, p)))) \<and>
    unconfirmed fd (g_socket_slots (fst (sdk_walnut_socket_poll_note_sent L f n (sp, p)))) \<le> unconfirmed fd (g_socket_slots sp) + (if f = fd then n else 0)"
proof (cases "socket_poll_find f sp")
  case None
  then show ?thesis using assms by (auto simp: sdk_walnut_socket_poll_note_sent_def)
next
  case (Some i)
  note c = slot_change [OF ok, of i _ fd "if f = fd then n else 0"] slot_nth_ok [OF ok, of i fd] find_index [OF Some]
  show ?thesis
    using Some c \<open>n > 0\<close>
    by (auto simp: sdk_walnut_socket_poll_note_sent_def slot_ok_def slot_pending_def Let_def split: prod.split)
qed

text \<open>The budget: acknowledgements reported and to come never exceed the bytes accepted.\<close>

lemma walnut_step_budget:
  assumes "walnut_step L c s = (as, es, s')" and ok: "list_all slot_ok (g_socket_slots (fst s))"
  shows "list_all slot_ok (g_socket_slots (fst s')) \<and>
    acked fd es + unconfirmed fd (g_socket_slots (fst s')) \<le> unconfirmed fd (g_socket_slots (fst s)) + accepted fd as"
proof (cases c)
  case Walnut_Create
  then show ?thesis using assms create_budget [OF ok, of L "snd s"] by (cases "sdk_walnut_socket_with_callback L s") auto
next
  case (Walnut_Connect f a)
  then show ?thesis using assms connecting_budget [OF ok] by (auto simp: connect_impl_def split: if_splits prod.splits)
next
  case (Walnut_Send f b)
  then show ?thesis
    using assms note_sent_budget [of "fst s" _ L] by (auto simp: send_impl_def Let_def split: if_splits prod.splits)
next
  case (Walnut_Recv f n)
  then show ?thesis using assms by (auto simp: recv_impl_def split: prod.splits)
next
  case (Walnut_Close f)
  then show ?thesis using assms release_budget [OF ok] by (auto simp: close_impl_def Let_def split: if_splits prod.splits)
next
  case Walnut_Poll
  then show ?thesis using assms poll_pass_ok [of L "fst s" "snd s" _ _ _ fd] by (auto split: prod.splits)
qed

text \<open>In every session of calls and polls from the start, the bytes acknowledged to the client for a socket by \<open>SENDACKED\<close>
  events never exceed the bytes that the kernel accepted for it, whatever the kernel reports about its send buffer.\<close>

theorem walnut_acks_within_accepted:
  "acked fd (fst (snd (walnut_run L cs (socket_poll_boot, p)))) \<le> accepted fd (fst (walnut_run L cs (socket_poll_boot, p)))"
proof -
  obtain as es s' where r: "walnut_run L cs (socket_poll_boot, p) = (as, es, s')" by (metis prod_cases3)
  have "list_all slot_ok (g_socket_slots (fst s)) \<Longrightarrow> walnut_run L cs s = (as, es, s') \<Longrightarrow>
      list_all slot_ok (g_socket_slots (fst s')) \<and>
      acked fd es + unconfirmed fd (g_socket_slots (fst s')) \<le> unconfirmed fd (g_socket_slots (fst s)) + accepted fd as" for s
  proof (induction cs arbitrary: s as es)
    case (Cons c cs)
    obtain a e s1 where 1: "walnut_step L c s = (a, e, s1)" by (metis prod_cases3)
    obtain as' es' s2 where 2: "walnut_run L cs s1 = (as', es', s2)" by (metis prod_cases3)
    note b = walnut_step_budget [OF 1 Cons.prems(1), of fd]
    have "as = a @ as' \<and> es = e @ es' \<and> s' = s2" using Cons.prems(2) 1 2 by simp
    then show ?case using Cons.IH [of s1 as' es'] b 2 by auto
  qed simp
  note budget = this [OF _ r]
  have "list_all slot_ok (g_socket_slots socket_poll_boot)" "unconfirmed fd (g_socket_slots socket_poll_boot) = 0"
    by (simp_all add: socket_poll_boot_def numeral_2_eq_2)
  then show ?thesis using budget unconfirmed_nonneg [of "g_socket_slots (fst s')" fd] r by auto
qed

text \<open>When the send buffer of a connected socket is empty again, two passes acknowledge all that was accepted.\<close>

lemma service_acks_drained:
  assumes "sl_sndbuf_supported sl" and "sl_unacked sl \<le> 65535"
    and "\<forall>p. fst (sndbuf_avail L (sl_fd sl) p) = sl_sndbuf_capacity sl" and "sl_sndbuf_last sl \<le> sl_sndbuf_capacity sl"
    and "service_acks L sl p = (sl1, e1, p1)" and "service_acks L sl1 p2 = (sl2, e2, p3)" and "0 \<le> sl_unacked sl"
  shows "sl_unacked sl2 = 0 \<and> acked (sl_fd sl) (e1 @ e2) = sl_unacked sl"
proof -
  obtain c q where c: "sndbuf_avail L (sl_fd sl) p = (c, q)" "c = sl_sndbuf_capacity sl" using assms(3) by (metis fst_conv surj_pair)
  obtain c' q' where c': "sndbuf_avail L (sl_fd sl) p2 = (c', q')" "c' = sl_sndbuf_capacity sl" using assms(3) by (metis fst_conv surj_pair)
  show ?thesis
    using assms(1,2,4-7) c c'
    by (auto simp: service_acks_def Let_def event_len_def split: if_splits)
qed

subsection \<open>Connecting to a host returns\<close>

lemma u32_minus_clock:
  assumes "b \<le> a" and "a - b < 4294967296"
  shows "u32_minus (u32 a) (u32 b) = a - b"
proof -
  have "(x + (4294967296 - y mod 4294967296)) mod 4294967296 = (x - y) mod 4294967296" for x y :: int
  proof -
    have "x + (4294967296 - y mod 4294967296) = x - y mod 4294967296 + 4294967296" by simp
    then show ?thesis by (simp only: mod_add_self2 mod_diff_right_eq)
  qed
  then have "(int (u32 a) + (4294967296 - int (u32 b))) mod 4294967296 = (int a - int b) mod 4294967296"
    by (simp add: u32_def zmod_int mod_simps)
  moreover have "int (4294967296 - u32 b) = 4294967296 - int (u32 b)" by (simp add: of_nat_diff less_imp_le)
  moreover have "int (u32_minus (u32 a) (u32 b)) = (int (u32 a) + int (4294967296 - u32 b)) mod 4294967296"
    unfolding u32_minus_def u32_idem u32_def [of "u32 a + (2 ^ 32 - u32 b)"] by (simp only: of_nat_mod of_nat_add) simp
  ultimately have "int (u32_minus (u32 a) (u32 b)) = int (a - b) mod 4294967296" using assms(1) by simp
  then show ?thesis using assms(2) by simp
qed

text \<open>What the clock must do: a reading is the time in milliseconds, modulo \<open>2 ^ 32\<close>; a round of the loop takes
  time, but less than would carry the reading past the window in which the timeout is seen.\<close>

definition clock_advances :: "'p lwip \<Rightarrow> ('p \<Rightarrow> nat) \<Rightarrow> nat \<Rightarrow> bool" where
  "clock_advances L time timeout \<longleftrightarrow>
     (\<forall>p. fst (lw_ticks L p) = u32 (time p) \<and> time (snd (lw_ticks L p)) = time p) \<and>
     (\<forall>p h s. time p \<le> time (snd (lw_getaddrinfo L h s p)) \<and> time (snd (lw_getaddrinfo L h s p)) + timeout < time p + 2 ^ 31) \<and>
     (\<forall>p. time p < time (lw_sleep L WALNUT_TCP_DNS_RETRY_MS p) \<and> time (lw_sleep L WALNUT_TCP_DNS_RETRY_MS p) < time p + 2 ^ 31)"

lemma resolve_loop_returns:
  assumes clk: "clock_advances L time timeout"
  shows "time p \<ge> t0 \<Longrightarrow> time p - t0 < timeout + 2 ^ 31 \<Longrightarrow> \<exists>r. resolve_loop L h s (u32 t0) timeout p = Some r"
proof (induction "t0 + timeout - time p" arbitrary: p rule: less_induct)
  case less
  obtain ret res p1 where g: "lw_getaddrinfo L h s p = ((ret, res), p1)" by (metis prod.exhaust)
  obtain now p2 where t: "lw_ticks L p1 = (now, p2)" by fastforce
  have p1: "time p \<le> time p1" "time p1 + timeout < time p + 2 ^ 31" using clk g unfolding clock_advances_def by (metis snd_conv)+
  have p2: "now = u32 (time p1)" "time p2 = time p1" using clk t unfolding clock_advances_def by (metis fst_conv snd_conv)+
  let ?p3 = "lw_sleep L WALNUT_TCP_DNS_RETRY_MS p2"
  have p3: "time p2 < time ?p3" "time ?p3 < time p2 + 2 ^ 31" using clk unfolding clock_advances_def by blast+
  show ?case
  proof (cases "ret = 0 \<and> res \<noteq> None \<or> u32_minus now (u32 t0) \<ge> timeout")
    case True
    then show ?thesis by (subst resolve_loop.simps) (auto simp: g t)
  next
    case False
    have e: "u32_minus now (u32 t0) = time p1 - t0"
      using less.prems p1 p2(1) by (simp add: u32_minus_clock)
    have "time p1 - t0 < timeout" using False e by simp
    then have "\<exists>r. resolve_loop L h s (u32 t0) timeout ?p3 = Some r"
      using less.hyps [of ?p3] less.prems p1 p2 p3 by simp
    then show ?thesis using False by (subst resolve_loop.simps) (auto simp: g t)
  qed
qed

text \<open>Connecting to a host by name returns, whatever the resolver answers, as long as the clock runs and no single
  round of the retry loop takes more than 24 days.\<close>

theorem sdk_tcp_connect_host_returns:
  assumes "clock_advances L time timeout_ms" and "timeout_ms < 2 ^ 31"
  shows "\<exists>r. sdk_tcp_connect_host L fd host port timeout_ms s = Some r"
proof -
  obtain start p where t: "lw_ticks L (snd s) = (start, p)" by fastforce
  have p: "start = u32 (time (snd s))" "time p = time (snd s)"
    using assms(1) t unfolding clock_advances_def by (metis fst_conv snd_conv)+
  have "\<exists>r. resolve_loop L h (snd (snprintf 6 (dec port))) start timeout_ms p = Some r" for h
    unfolding p(1) by (rule resolve_loop_returns [OF assms(1)]) (use p in auto)
  then show ?thesis
    by (auto simp: sdk_tcp_connect_host_def t split: option.split prod.split) (metis option.distinct(1))
qed

text \<open>A kernel whose resolver never answers: the world is the time.\<close>

definition deaf_lwip :: "nat lwip" where
  "deaf_lwip = \<lparr>lw_socket = (\<lambda>p. (-1, p)), lw_set_nonblocking = (\<lambda>fd p. (-1, p)), lw_nread = (\<lambda>fd p. ((-1, 0), p)),
     lw_connect = (\<lambda>fd a p. (-1, p)), lw_send = (\<lambda>fd b p. (-1, p)), lw_recv = (\<lambda>fd n p. (-1, [], p)),
     lw_close = (\<lambda>fd p. (-1, p)), lw_getsockerrno = (\<lambda>fd p. (0, p)), lw_sndbuf = (\<lambda>fd p. ((-1, 0), p)),
     lw_so_error = (\<lambda>fd p. ((-1, 0), p)), lw_getpeername = (\<lambda>fd p. (-1, p)),
     lw_select = (\<lambda>fds n p. ((-1, \<lambda>fd. (False, False, False)), p)), lw_getaddrinfo = (\<lambda>h s p. ((-1, None), p)),
     lw_task_create = (\<lambda>p. (False, p)), lw_ticks = (\<lambda>p. (u32 p, p)), lw_sleep = (\<lambda>n p. p + n)\<rparr>"

theorem sdk_tcp_connect_host_returns_witness:
  "\<exists>r. sdk_tcp_connect_host deaf_lwip 3 (Some ''server'') 9616 30000 (socket_poll_boot, 4294960000) = Some r"
  by (rule sdk_tcp_connect_host_returns [where time = id]) (simp_all add: clock_advances_def deaf_lwip_def)

end
