(* ===== verification/Tcp_Session.thy ===== *)
theory Tcp_Session
  imports Tcp_Client
begin

text \<open>
  The state machine of the TCP client: when it takes a send as acknowledged, and how it leaves a state in which
  nothing happens.
\<close>

subsection \<open>Acknowledgements\<close>

text \<open>The state \<open>ACK_RECEIVED\<close> is only entered with enough bytes acknowledged.\<close>

definition ack_inv :: "tcp_client \<Rightarrow> bool" where
  "ack_inv u \<longleftrightarrow> (tc_state u = TCP_STATE_ACK_RECEIVED \<longrightarrow> tcp_check_ack_received u)"

lemma handle_state_simps [simp]:
  "fst (handle_state (r, s) a b c) = set_state (if r = RESULT_SUCCESS then a else if r = RESULT_ERROR then b else c) (fst s)"
  by (simp add: handle_state_def split_beta)

lemma set_state_simps [simp]:
  "tc_state (set_state st u) = st" "tcp_check_ack_received (set_state st u) = tcp_check_ack_received u"
  by (simp_all add: set_state_def tcp_check_ack_received_def)

lemma wait_ack_success: "tcp_wait_ack E s = (RESULT_SUCCESS, s') \<Longrightarrow> s' = s \<and> tcp_check_ack_received (fst s)"
  by (auto simp: tcp_wait_ack_def Let_def split: if_splits prod.splits)

lemma ack_received_succeeds: "fst (tcp_state_handle_ack_received E s) = RESULT_SUCCESS"
  by (simp add: tcp_state_handle_ack_received_def Let_def split: prod.split)

lemma dispatch_ack: "ack_inv (fst (tcp_dispatch E s))"
proof (cases "tc_state (fst s) = TCP_STATE_WAIT_ACK_LOGIN \<or> tc_state (fst s) = TCP_STATE_WAIT_ACK_DATA")
  case True
  obtain r s' where r: "tcp_wait_ack E s = (r, s')" by (rule prod.exhaust)
  then show ?thesis
    using True wait_ack_success [of E s s']
    by (cases "r = RESULT_SUCCESS")
      (auto simp: ack_inv_def tcp_dispatch_def tcp_state_handle_wait_ack_login_def tcp_state_handle_wait_ack_data_def split: if_splits)
next
  case False
  then show ?thesis
    using ack_received_succeeds [of E s]
    by (cases "tc_state (fst s)") (auto simp: ack_inv_def tcp_dispatch_def handle_state_def set_state_def split: prod.split)
qed

lemma event_ack: "ack_inv u \<Longrightarrow> ack_inv (tcp_socket_event_callback fd evt len u)"
  by (auto simp: ack_inv_def tcp_socket_event_callback_def tcp_check_ack_received_def set_state_def Let_def)

lemma step_ack: "ack_inv (fst s) \<Longrightarrow> ack_inv (fst (tcp_step E e s))"
proof (cases e)
  case Tcp_Turn
  then show ?thesis by (simp add: tcp_turn_def set_tcp_world_def Let_def split_beta dispatch_ack)
next
  case (Tcp_Socket fd evt len)
  then show "ack_inv (fst s) \<Longrightarrow> ?thesis" by (simp add: event_ack)
qed (simp_all add: weware_tcp_reset_connection_def ack_inv_def)

text \<open>In every run the client takes a send as acknowledged (state \<open>ACK_RECEIVED\<close>, in which the rows of the batch are
  removed) only when the acknowledged bytes reach the bytes of the last send.\<close>

theorem tcp_ack_needs_all_bytes:
  assumes "tc_state (fst s) \<noteq> TCP_STATE_ACK_RECEIVED" and "tcp_run E es s = s'" and "tc_state (fst s') = TCP_STATE_ACK_RECEIVED"
  shows "0 < tc_bytes_sent (fst s') \<and> tc_bytes_sent (fst s') \<le> tc_bytes_acked (fst s')"
proof -
  have "ack_inv (fst s) \<Longrightarrow> ack_inv (fst (tcp_run E es s))" for s
    by (induction es arbitrary: s) (simp_all add: step_ack)
  moreover have "ack_inv (fst s)" using assms(1) by (simp add: ack_inv_def)
  ultimately have "ack_inv (fst s')" using assms(2) by blast
  then show ?thesis using assms(3) by (simp add: ack_inv_def tcp_check_ack_received_def)
qed

subsection \<open>Timeouts\<close>

lemma timeout_cong: "tc_state u' = tc_state u \<Longrightarrow> tc_config u' = tc_config u \<Longrightarrow> tcp_state_timeout u' = tcp_state_timeout u"
  by (simp only: tcp_state_timeout_def)

text \<open>After the checks of a turn a client whose time is over is in state \<open>CLOSED\<close>, with nothing in flight.\<close>

lemma timeout_fires:
  assumes "tc_last_state u = tc_state u" and "tcp_state_timeout u \<noteq> 0"
    and "tc_state u \<noteq> TCP_STATE_CLOSED" "tc_state u \<noteq> TCP_STATE_RECONNECT_DELAY"
    and "os_ticks (tv_os E) (gw_world g) = (now, w)" and "tcp_state_timeout u \<le> u32_minus now (tc_state_entry_tick u)"
  shows "tc_state (fst (tcp_check_state_timeout E (tcp_note_transition E (u, g)))) = TCP_STATE_CLOSED"
proof -
  have "tcp_note_transition E (u, g) = (u, g)" using assms(1) by (simp add: tcp_note_transition_def)
  moreover have "tcp_ticks E (u, g) = (now, u, g\<lparr>gw_world := w\<rparr>)" using assms(5) by (simp add: tcp_ticks_def set_tcp_world_def)
  ultimately show ?thesis
    using assms(2-4,6) by (simp add: tcp_check_state_timeout_def tcp_ticks_def set_tcp_world_def tcp_reset_send_tracking_def set_state_def
        split: prod.split)
qed

lemma overall_keeps_closed: "tc_state (fst s) = TCP_STATE_CLOSED \<Longrightarrow> tc_state (fst (tcp_check_overall_timeout E s)) = TCP_STATE_CLOSED"
  by (simp add: tcp_check_overall_timeout_def tcp_ticks_def set_tcp_world_def set_state_def Let_def split_beta)

lemma receive_keeps_state: "tc_state (fst (tcp_receive E s)) = tc_state (fst s)"
  by (simp add: tcp_receive_def tcp_try_recv_once_and_dispatch_def tcp_call_def set_tcp_world_def Let_def split_beta)

lemma shutdown_fd: "tc_tcp_fd (fst (tcp_shutdown_socket E s)) < 0 \<and> tc_state (fst (tcp_shutdown_socket E s)) = tc_state (fst s) \<and>
    tc_session_up (fst (tcp_shutdown_socket E s)) = tc_session_up (fst s) \<and>
    tc_batch_count (fst (tcp_shutdown_socket E s)) = tc_batch_count (fst s) \<and>
    tc_last_connected_state (fst (tcp_shutdown_socket E s)) = tc_last_connected_state (fst s)"
  by (simp add: tcp_shutdown_socket_def tcp_close_socket_def tcp_call_def set_tcp_world_def Let_def split_beta)

lemma closed_dispatch:
  fixes E :: "('u, 'w) tcp_env"
  assumes "tc_state (fst s) = TCP_STATE_CLOSED"
  defines "u \<equiv> fst (tcp_dispatch E s)"
  shows "tc_state u = TCP_STATE_RECONNECT_DELAY \<and> tc_tcp_fd u < 0 \<and> \<not> tc_session_up u \<and> tc_batch_count u = 0 \<and>
    \<not> tc_last_connected_state u"
  using assms(1) shutdown_fd [of E]
  by (simp add: u_def tcp_dispatch_def handle_state_def tcp_state_handle_closed_def tcp_broadcast_def Let_def split_beta
      set_state_def tcp_reset_send_tracking_def)

text \<open>A client that has been in one state for the time configured for it gives the session up in its next turn: the
  socket is closed, no batch is in flight, the listeners have been told, and the client waits to reconnect.\<close>

theorem tcp_silent_state_gives_up:
  assumes "tc_last_state u = tc_state u" and "tcp_state_timeout u \<noteq> 0"
    and "tc_state u \<noteq> TCP_STATE_CLOSED" and "tc_state u \<noteq> TCP_STATE_RECONNECT_DELAY"
    and "\<forall>w. tcp_state_timeout u \<le> u32_minus (fst (os_ticks (tv_os E) w)) (tc_state_entry_tick u)"
  shows "tc_state (fst (tcp_turn E (u, g))) = TCP_STATE_RECONNECT_DELAY \<and> tc_tcp_fd (fst (tcp_turn E (u, g))) < 0 \<and>
    \<not> weware_tcp_is_ready (fst (tcp_turn E (u, g))) \<and> tc_batch_count (fst (tcp_turn E (u, g))) = 0 \<and>
    \<not> tc_last_connected_state (fst (tcp_turn E (u, g)))"
proof -
  let ?u = "u\<lparr>tc_total_iterations := u32 (tc_total_iterations u + 1),
      tc_task_stats := the (snd (task_stats_update_periodic (Some (tc_task_stats u)) 0))\<rparr>"
  let ?g = "module_manager_update_uptime (tv_os E) MODULE_ID_TCP g"
  let ?s = "tcp_receive E (tcp_check_overall_timeout E (tcp_check_state_timeout E (tcp_note_transition E (?u, ?g))))"
  have to: "tcp_state_timeout ?u = tcp_state_timeout u" by (rule timeout_cong) simp_all
  have "tc_state (fst (tcp_check_state_timeout E (tcp_note_transition E (?u, ?g)))) = TCP_STATE_CLOSED"
    by (rule timeout_fires) (use assms to in \<open>auto simp: prod_eq_iff\<close>)
  then have "tc_state (fst ?s) = TCP_STATE_CLOSED" using overall_keeps_closed receive_keeps_state by metis
  from closed_dispatch [OF this, of E] show ?thesis
    by (simp add: tcp_turn_def set_tcp_world_def weware_tcp_is_ready_def Let_def)
qed

end
