(* ===== verification/Tcp_Walnut.thy ===== *)
theory Tcp_Walnut
  imports Tcp_Delivery Tcp_Socket Tcp_Session
begin

text \<open>
  The TCP client on the socket layer of \<open>Tcp_Socket\<close>. The locale \<open>walnut_link\<close> says what is left to the kernel
  and the rest of the system; it makes the socket layer a provider of the contract \<open>tcp_link\<close>. The composed
  system adds the passes of the poll task, whose events reach the client, to the steps of the client.
\<close>

subsection \<open>The socket layer keeps the contract of the client\<close>

text \<open>The kernel calls that send nothing.\<close>

inductive_set lwip_calls :: "'p lwip \<Rightarrow> ('p \<Rightarrow> 'p) set" for L where
  Socket: "(\<lambda>p. snd (lw_socket L p)) \<in> lwip_calls L"
| Nonblocking: "(\<lambda>p. snd (lw_set_nonblocking L fd p)) \<in> lwip_calls L"
| Nread: "(\<lambda>p. snd (lw_nread L fd p)) \<in> lwip_calls L"
| Connect: "(\<lambda>p. snd (lw_connect L fd a p)) \<in> lwip_calls L"
| Recv: "(\<lambda>p. snd (snd (lw_recv L fd n p))) \<in> lwip_calls L"
| Close: "(\<lambda>p. snd (lw_close L fd p)) \<in> lwip_calls L"
| Errno: "(\<lambda>p. snd (lw_getsockerrno L fd p)) \<in> lwip_calls L"
| Sndbuf: "(\<lambda>p. snd (lw_sndbuf L fd p)) \<in> lwip_calls L"
| So_Error: "(\<lambda>p. snd (lw_so_error L fd p)) \<in> lwip_calls L"
| Peer: "(\<lambda>p. snd (lw_getpeername L fd p)) \<in> lwip_calls L"
| Select: "(\<lambda>p. snd (lw_select L fds n p)) \<in> lwip_calls L"
| Task: "(\<lambda>p. snd (lw_task_create L p)) \<in> lwip_calls L"
| Sleep: "(\<lambda>p. lw_sleep L n p) \<in> lwip_calls L"

locale walnut_link =
  fixes L :: "'p lwip" and E :: "('u, socket_poll \<times> 'p) tcp_env" and K :: "'p contents" and T :: "'p \<Rightarrow> bytes"
  assumes ops_law: "tv_tcp E = s_walnut_tcp_ops L"
    and files_law: "flash_keeps (os_flash (tv_os E)) (\<lambda>w. T (snd w))"
    and lwip_send_law: "lw_send L fd b p = (n, p') \<Longrightarrow>
      n \<le> int (length b) \<and> T p' = T p @ take (nat n) b \<and> K p' = K p"
    and lwip_law: "c \<in> lwip_calls L \<Longrightarrow> T (c p) = T p \<and> K (c p) = K p"
    and env_law: "d \<in> env_calls E \<Longrightarrow> T (snd (d w)) = T (snd w) \<and> K (snd (d w)) = K (snd w)"
    and callbacks_law: "calm (\<lambda>w. K (snd w)) (\<lambda>w. T (snd w)) g (snd (tv_listener E cb ev ud (em, g)))"
begin

abbreviation same :: "'p \<Rightarrow> 'p \<Rightarrow> bool" where "same p p' \<equiv> T p' = T p \<and> K p' = K p"

lemma kernel_keeps:
  shows "lw_socket L p = (r, p') \<Longrightarrow> same p p'" and "lw_set_nonblocking L fd p = (r, p') \<Longrightarrow> same p p'"
    and "lw_nread L fd p = (rr, p') \<Longrightarrow> same p p'" and "lw_connect L fd a p = (r, p') \<Longrightarrow> same p p'"
    and "lw_recv L fd n p = (r, bs, p') \<Longrightarrow> same p p'" and "lw_close L fd p = (r, p') \<Longrightarrow> same p p'"
    and "lw_getsockerrno L fd p = (r, p') \<Longrightarrow> same p p'" and "lw_sndbuf L fd p = (rr, p') \<Longrightarrow> same p p'"
    and "lw_so_error L fd p = (rr, p') \<Longrightarrow> same p p'" and "lw_getpeername L fd p = (r, p') \<Longrightarrow> same p p'"
    and "lw_select L fds n p = (sel, p') \<Longrightarrow> same p p'" and "lw_task_create L p = (ok, p') \<Longrightarrow> same p p'"
  using lwip_law [OF lwip_calls.Socket, of p] lwip_law [OF lwip_calls.Nonblocking, of fd p] lwip_law [OF lwip_calls.Nread, of fd p]
    lwip_law [OF lwip_calls.Connect, of fd a p] lwip_law [OF lwip_calls.Recv, of fd n p] lwip_law [OF lwip_calls.Close, of fd p]
    lwip_law [OF lwip_calls.Errno, of fd p] lwip_law [OF lwip_calls.Sndbuf, of fd p] lwip_law [OF lwip_calls.So_Error, of fd p]
    lwip_law [OF lwip_calls.Peer, of fd p] lwip_law [OF lwip_calls.Select, of fds n p] lwip_law [OF lwip_calls.Task, of p]
  by simp_all

lemma sleep_keeps: "same p (lw_sleep L n p)"
  using lwip_law [OF lwip_calls.Sleep, of n p] by simp

lemma sndbuf_keeps: "sndbuf_avail L fd p = (n, p') \<Longrightarrow> same p p'"
  by (auto simp: sndbuf_avail_def Let_def split: prod.splits dest: kernel_keeps)

lemma create_keeps: "same (snd s) (snd (snd (sdk_walnut_socket_with_callback L s)))"
  by (auto simp: sdk_walnut_socket_with_callback_def socket_poll_start_def Let_def split: prod.split option.split
      dest!: kernel_keeps sndbuf_keeps)

lemma note_sent_keeps: "same (snd s) (snd (sdk_walnut_socket_poll_note_sent L fd n s))"
  by (auto simp: sdk_walnut_socket_poll_note_sent_def Let_def split: prod.split option.split dest!: sndbuf_keeps)

lemma send_impl_law:
  assumes "tf_send (tv_tcp E) fd b w = (n, w')"
  shows "n \<le> int (length b) \<and> T (snd w') = T (snd w) @ take (nat n) b \<and> K (snd w') = K (snd w)"
proof -
  obtain sent p where s: "lw_send L fd b (snd w) = (sent, p)" by fastforce
  obtain e p1 where e: "lw_getsockerrno L fd p = (e, p1)" by fastforce
  note l = lwip_send_law [OF s] kernel_keeps(7) [OF e] note_sent_keeps [of fd sent "(fst w, p)"]
  have "send_impl L fd b w = (n, w')" using assms by (simp add: ops_law s_walnut_tcp_ops_def)
  then show ?thesis using l by (auto simp: send_impl_def s e split_beta Let_def split: if_splits)
qed

lemma quiet_calls_keep: "c \<in> quiet_calls E \<Longrightarrow> same (snd w) (snd (c w))"
proof (erule quiet_calls.cases)
  show "same (snd w) (snd (c w))" if "c = (\<lambda>w. snd (tf_socket_create_with_callback (tv_tcp E) w))"
    using create_keeps [of w] that by (simp add: ops_law s_walnut_tcp_ops_def)
  show "same (snd w) (snd (c w))" if "c = (\<lambda>w. snd (tf_connect (tv_tcp E) fd a w))" for fd a
    using that kernel_keeps(4) by (simp add: ops_law s_walnut_tcp_ops_def connect_impl_def split: prod.split)
  show "same (snd w) (snd (c w))" if "c = (\<lambda>w. snd (snd (tf_recv (tv_tcp E) fd n w)))" for fd n
    using that kernel_keeps(5) by (simp add: ops_law s_walnut_tcp_ops_def recv_impl_def split: prod.split)
  show "same (snd w) (snd (c w))" if "c = (\<lambda>w. snd (tf_close (tv_tcp E) fd w))" for fd
    using that kernel_keeps(6) by (simp add: ops_law s_walnut_tcp_ops_def close_impl_def Let_def split: prod.split)
  show "same (snd w) (snd (c w))" if "c = (\<lambda>w. snd (tf_get_sock_errno (tv_tcp E) fd w))" for fd
    using that kernel_keeps(7) by (simp add: ops_law s_walnut_tcp_ops_def get_sock_errno_impl_def split: prod.split)
  show "same (snd w) (snd (c w))" if "c = (\<lambda>w. snd (tf_get_errno (tv_tcp E) w))"
    using that by (simp add: ops_law s_walnut_tcp_ops_def get_errno_impl_def)
  show "same (snd w) (snd (c w))" if "c = c'" "c' \<in> env_calls E" for c'
    using env_law that by blast
qed

end

sublocale walnut_link \<subseteq> tcp_link E "\<lambda>w. K (snd w)" "\<lambda>w. T (snd w)"
  by unfold_locales (use files_law send_impl_law quiet_calls_keep callbacks_law in auto)

subsection \<open>The poll task\<close>

context walnut_link
begin

lemma service_slot_keeps: "socket_poll_service_slot L fl sl p = (sl', es, p') \<Longrightarrow> same p p'"
  by (auto simp: socket_poll_service_slot_def service_excepted_def service_connecting_def service_readable_def service_acks_def
      Let_def split: prod.splits if_splits dest!: kernel_keeps sndbuf_keeps)

lemma service_slots_keep: "service_slots L rd sls p = (sls', es, p') \<Longrightarrow> same p p'"
proof (induction sls arbitrary: p sls' es)
  case Nil
  then show ?case by simp
next
  case (Cons sl sls)
  then show ?case by (fastforce split: if_splits prod.splits dest: service_slot_keeps)
qed

lemma poll_pass_keeps: "socket_poll_pass L sp p = (sp', es, p') \<Longrightarrow> same p p'"
  using sleep_keeps
  by (auto simp: socket_poll_pass_def Let_def split: prod.splits if_splits dest!: kernel_keeps service_slots_keep)

end

text \<open>A pass of the poll task, with the events it reports handled by the client in their order.\<close>

definition net_poll :: "'p lwip \<Rightarrow> ('u, socket_poll \<times> 'p) tcp \<Rightarrow> ('u, socket_poll \<times> 'p) tcp" where
  "net_poll L s =
     (let (sp, es, p) = socket_poll_pass L (fst (tcp_world s)) (snd (tcp_world s))
      in set_tcp_world (sp, p) (foldl (\<lambda>u (fd, evt, len). tcp_socket_event_callback fd evt len u) (fst s) es, snd s))"

datatype net_event = Net_Client tcp_event | Net_Poll

fun net_step :: "'p lwip \<Rightarrow> ('u, socket_poll \<times> 'p) tcp_env \<Rightarrow> net_event \<Rightarrow> ('u, socket_poll \<times> 'p) tcp \<Rightarrow> ('u, socket_poll \<times> 'p) tcp" where
  "net_step L E (Net_Client e) s = tcp_step E e s"
| "net_step L E Net_Poll s = net_poll L s"

fun net_run :: "'p lwip \<Rightarrow> ('u, socket_poll \<times> 'p) tcp_env \<Rightarrow> net_event list \<Rightarrow> ('u, socket_poll \<times> 'p) tcp \<Rightarrow> ('u, socket_poll \<times> 'p) tcp" where
  "net_run L E [] s = s"
| "net_run L E (e # es) s = net_run L E es (net_step L E e s)"

fun net_queued :: "net_event list \<Rightarrow> bytes list" where
  "net_queued [] = []"
| "net_queued (Net_Client e # es) = queued_event e @ net_queued es"
| "net_queued (Net_Poll # es) = net_queued es"

fun net_smooth :: "'p lwip \<Rightarrow> ('u, socket_poll \<times> 'p) tcp_env \<Rightarrow> net_event list \<Rightarrow> ('u, socket_poll \<times> 'p) tcp \<Rightarrow> bool" where
  "net_smooth L E [] s = True"
| "net_smooth L E (e # es) s =
     ((case e of Net_Client c \<Rightarrow> smooth_step c s | Net_Poll \<Rightarrow> True) \<and> net_smooth L E es (net_step L E e s))"

lemma quiet_events:
  "quiet C T (u, g) (foldl (\<lambda>u (fd, evt, len). tcp_socket_event_callback fd evt len u) u es, g)"
proof (induction es arbitrary: u)
  case Nil
  then show ?case by (simp add: quiet_refl)
next
  case (Cons e es)
  obtain fd evt len where e: "e = (fd, evt, len)" by (metis prod_cases3)
  show ?case using quiet_trans [OF quiet_event [of C T "(u, g)" fd evt len, unfolded fst_conv snd_conv] Cons.IH] by (simp add: e)
qed

context walnut_link
begin

lemma quiet_poll: "quiet (\<lambda>w. K (snd w)) (\<lambda>w. T (snd w)) s (net_poll L s)"
proof -
  obtain sp es p where r: "socket_poll_pass L (fst (tcp_world s)) (snd (tcp_world s)) = (sp, es, p)" by (metis prod_cases3)
  have k: "T p = T (snd (tcp_world s))" "K p = K (snd (tcp_world s))" using poll_pass_keeps [OF r] by simp_all
  show ?thesis
    using quiet_trans [OF quiet_events [of "\<lambda>w. K (snd w)" "\<lambda>w. T (snd w)" "fst s" "snd s" es] quiet_set_world] k
    by (simp add: net_poll_def r)
qed

lemma inv_net_run:
  assumes w: "whole_sends E"
  shows "tcp_inv E (\<lambda>w. K (snd w)) H (\<lambda>w. T (snd w)) R l s \<Longrightarrow> net_smooth L E es s \<Longrightarrow> small_rows l \<Longrightarrow>
    \<exists>k. tcp_inv E (\<lambda>w. K (snd w)) H (\<lambda>w. T (snd w)) (R @ take k (l @ net_queued es)) (drop k (l @ net_queued es)) (net_run L E es s)"
proof (induction es arbitrary: R l s)
  case Nil
  then show ?case by (intro exI [of _ 0]) simp
next
  case (Cons e es)
  show ?case
  proof (cases e)
    case Net_Poll
    then show ?thesis using Cons.IH [OF inv_quiet [OF Cons.prems(1) quiet_poll]] Cons.prems(2,3) by simp
  next
    case (Net_Client c)
    let ?l = "l @ queued_event c"
    obtain j where j: "tcp_inv E (\<lambda>w. K (snd w)) H (\<lambda>w. T (snd w)) (R @ take j ?l) (drop j ?l) (net_step L E e s)" and sm: "small_rows ?l"
      using inv_step [OF Cons.prems(1) w Cons.prems(3), of c] Cons.prems(2) Net_Client by auto
    have "small_rows (drop j ?l)" using sm by (auto simp: small_rows_def dest: in_set_dropD)
    then obtain k where k: "tcp_inv E (\<lambda>w. K (snd w)) H (\<lambda>w. T (snd w)) ((R @ take j ?l) @ take k (drop j ?l @ net_queued es))
        (drop k (drop j ?l @ net_queued es)) (net_run L E es (net_step L E e s))"
      using Cons.IH [OF j] Cons.prems(2) by auto
    obtain m where "take j ?l @ take k (drop j ?l @ net_queued es) = take m (?l @ net_queued es)"
      "drop k (drop j ?l @ net_queued es) = drop m (?l @ net_queued es)"
      using take_then_take [of j ?l k "net_queued es"] by blast
    then show ?thesis using k Net_Client by auto
  qed
qed

end

subsection \<open>A kernel in memory\<close>

text \<open>Files, and the bytes sent: a kernel that takes everything, or nothing because its buffer is full.\<close>

type_synonym ram_kernel = "ram_world \<times> bytes"

definition ram_lwip :: "bool \<Rightarrow> ram_kernel lwip" where
  "ram_lwip ok = \<lparr>lw_socket = (\<lambda>p. (3, p)), lw_set_nonblocking = (\<lambda>fd p. (0, p)), lw_nread = (\<lambda>fd p. ((0, 0), p)),
     lw_connect = (\<lambda>fd a p. (0, p)), lw_send = (\<lambda>fd b p. if ok then (int (length b), fst p, snd p @ b) else (-1, p)), lw_recv = (\<lambda>fd n p. (0, [], p)),
     lw_close = (\<lambda>fd p. (0, p)), lw_getsockerrno = (\<lambda>fd p. (if ok then 0 else EAGAIN, p)), lw_sndbuf = (\<lambda>fd p. ((-1, 0), p)),
     lw_so_error = (\<lambda>fd p. ((0, 0), p)), lw_getpeername = (\<lambda>fd p. (0, p)),
     lw_select = (\<lambda>fds n p. ((1, \<lambda>fd. (False, True, False)), p)), lw_getaddrinfo = (\<lambda>h s p. ((0, Some (replicate 16 0)), p)),
     lw_task_create = (\<lambda>p. (True, p)), lw_ticks = (\<lambda>p. (0, p)), lw_sleep = (\<lambda>n p. p)\<rparr>"

definition ram_tcp_env :: "bool \<Rightarrow> (unit, socket_poll \<times> ram_kernel) tcp_env" where
  "ram_tcp_env ok = \<lparr>tv_os = \<lparr>os_flash = flash_at (\<lambda>w. fst (snd w)) (\<lambda>r w. (fst w, r, snd (snd w))) ram_flash, os_msg_abi = msg_abi,
       os_urc_abi = \<lparr>e_bytes = (\<lambda>_. []), e_of_bytes = (\<lambda>_. ()), e_message = (\<lambda>_. sample_msg), e_of_message = (\<lambda>_. ())\<rparr>,
       os_ticks = (\<lambda>w. (0, w)), os_sleep = (\<lambda>n w. w), os_call = (\<lambda>fn g. (RESULT_SUCCESS, g))\<rparr>,
     tv_tcp = s_walnut_tcp_ops (ram_lwip ok), tv_getaddrinfo = (\<lambda>h s w. (0, Some (replicate 16 0), w)), tv_shutdown = (\<lambda>fd w. w),
     tv_task_create = (\<lambda>w. (Some 1, w)), tv_task_delete = (\<lambda>t w. w),
     tv_queue_alloc = (\<lambda>w. ((Some 1, True, True, replicate 2 sample_msg), w)), tv_network_connected = (\<lambda>w. True),
     tv_last_gps_packet = (\<lambda>n w. (0, [], w)), tv_device = (\<lambda>w. no_device), tv_command_ready = (\<lambda>w. False),
     tv_listener = (\<lambda>cb ev ud s. s)\<rparr>"

interpretation ram: walnut_link "ram_lwip ok" "ram_tcp_env ok" "\<lambda>p. rw_files (fst p)" snd for ok
proof
  show "tv_tcp (ram_tcp_env ok) = s_walnut_tcp_ops (ram_lwip ok)" by (simp add: ram_tcp_env_def)
  show "flash_keeps (os_flash (tv_os (ram_tcp_env ok))) (\<lambda>w. snd (snd w))"
    by (simp add: ram_tcp_env_def flash_at_keeps)
  show "lw_send (ram_lwip ok) fd b p = (n, p') \<Longrightarrow> n \<le> int (length b) \<and> snd p' = snd p @ take (nat n) b \<and> rw_files (fst p') = rw_files (fst p)"
    for fd b p n p' by (auto simp: ram_lwip_def split: if_splits)
  show "c \<in> lwip_calls (ram_lwip ok) \<Longrightarrow> snd (c p) = snd p \<and> rw_files (fst (c p)) = rw_files (fst p)" for c p
    by (auto elim!: lwip_calls.cases simp: ram_lwip_def)
  show "d \<in> env_calls (ram_tcp_env ok) \<Longrightarrow> snd (snd (d w)) = snd (snd w) \<and> rw_files (fst (snd (d w))) = rw_files (fst (snd w))" for d w
    by (auto elim!: env_calls.cases simp: ram_tcp_env_def)
  show "calm (\<lambda>w. rw_files (fst (snd w))) (\<lambda>w. snd (snd w)) g (snd (tv_listener (ram_tcp_env ok) cb ev ud (em, g)))" for g cb ev ud em
    by (simp add: ram_tcp_env_def)
qed

subsection \<open>Properties\<close>

text \<open>C2: The packets leave the TCP send queue from the front and only after the socket layer has accepted them, each in one
  piece and in their order; all others, also those queued meanwhile, stay. This holds for every interleaving of turns of
  the client, socket events, packets queued and resets, when sends take all or nothing, the packets have at most 102
  bytes, the overflow file has room, and the ring is not full at a turn in live-first mode.\<close>

theorem tcp_rows_leave_only_when_sent:
  assumes "tcp_link E C T" and "whole_sends E" and "tcp_holds E C H (snd s) l" and "tc_batch_count (fst s) = 0"
    and "small_rows l" and "smooth_run E es s"
  shows "\<exists>k. tcp_holds E C H (snd (tcp_run E es s)) (drop k (l @ queued es)) \<and>
    in_order (take k (l @ queued es)) (T (tcp_world (tcp_run E es s)))"
proof -
  have "tcp_inv E C H T [] l s" using assms(3,4) by (simp add: tcp_inv_def)
  then obtain k where k: "tcp_inv E C H T (take k (l @ queued es)) (drop k (l @ queued es)) (tcp_run E es s)"
    using tcp_link.inv_run [OF assms(1,2), of H "[]" l s es] assms(5,6) by auto
  then show ?thesis using inv_result by blast
qed

text \<open>C3: The same for the client on the poll task and the kernel sockets, with the passes of the poll task
  among the steps.\<close>

theorem walnut_rows_leave_only_when_sent:
  assumes "walnut_link L E K T" and "whole_sends E" and "tcp_holds E (\<lambda>w. K (snd w)) H (snd s) l"
    and "tc_batch_count (fst s) = 0" and "small_rows l" and "net_smooth L E es s"
  shows "\<exists>k. tcp_holds E (\<lambda>w. K (snd w)) H (snd (net_run L E es s)) (drop k (l @ net_queued es)) \<and>
    in_order (take k (l @ net_queued es)) (T (snd (tcp_world (net_run L E es s))))"
proof -
  have "tcp_inv E (\<lambda>w. K (snd w)) H (\<lambda>w. T (snd w)) [] l s" using assms(3,4) by (simp add: tcp_inv_def)
  then obtain k where k: "tcp_inv E (\<lambda>w. K (snd w)) H (\<lambda>w. T (snd w)) (take k (l @ net_queued es))
      (drop k (l @ net_queued es)) (net_run L E es s)"
    using walnut_link.inv_net_run [OF assms(1,2), of H "[]" l s es] assms(5,6) by auto
  then show ?thesis using inv_result [OF k] by blast
qed


text \<open>In live-first mode the newest packet is taken out of a full ring before the batch is sent. When that send takes
  nothing, the packet is neither sent nor put back: it is lost, with the result busy or error.\<close>

theorem tcp_live_first_loses_newest:
  assumes "tcp_link E C T" and "tcp_holds E C H (snd s) l" and "\<not> tail_stays s"
    and "length (take MAX_COMBINED_SIZE (concat (take MAX_MESSAGES l))) + length (last l) \<le> MAX_COMBINED_SIZE"
    and "0 \<le> tc_tcp_fd (fst s)" and "\<forall>w. \<not> tcp_fatal_errno (fst (tf_get_sock_errno (tv_tcp E) (tc_tcp_fd (fst s)) w))"
    and "\<forall>b w. fst (tf_send (tv_tcp E) (tc_tcp_fd (fst s)) b w) \<le> 0"
  shows "\<exists>r s'. tcp_state_handle_sending_data E s = (r, s') \<and> r \<noteq> RESULT_SUCCESS \<and>
    tcp_holds E C H (snd s') (butlast l) \<and> T (tcp_world s') = T (tcp_world s)"
proof -
  obtain r s' where r: "tcp_state_handle_sending_data E s = (r, s')" by (rule prod.exhaust)
  show ?thesis using tcp_link.live_first_failed_send [OF assms r] r by blast
qed

subsection \<open>Runs of the model\<close>

text \<open>A gateway whose only module is TCP, with an empty send queue.\<close>

definition ram_module :: "unit module" where
  "ram_module = \<lparr>m_config = \<lparr>mc_module_id = MODULE_ID_TCP, mc_name = Some ''tcp'', mc_enabled = True, mc_required = True,
       mc_continue_on_fail = True, mc_has_task = True, mc_init_fn = None, mc_deinit_fn = None,
       mc_config_get_defaults_fn = None, mc_config_validate_fn = None, mc_config_ptr = None, mc_config_size = 0,
       mc_config_stored = False, mc_msg_q_config = tcp_cfg 2, mc_msg_q = Some (1, empty_queue 2 sample_msg),
       mc_urc_q_config = tcp_cfg 2, mc_urc_q = None\<rparr>,
     m_status = \<lparr>ms_initialized = True, ms_connected = False, ms_task_uptime_sec = 0, ms_retries = 0, ms_last_error = 0\<rparr>\<rparr>"

definition ram_gateway :: "(unit, socket_poll \<times> ram_kernel) gateway" where
  "ram_gateway = \<lparr>gw_modules = (replicate 12 None)[module_id_code MODULE_ID_TCP := Some ram_module], gw_events = em_boot,
     gw_pre_boot = pre_boot_boot, gw_queues = replicate 16 None, gw_world = (socket_poll_boot, empty_ram, [])\<rparr>"

definition ram_client :: tcp_client where
  "ram_client = \<lparr>tc_initialized = True, tc_state = TCP_STATE_INIT, tc_tcp_fd = -1, tc_last_connected_state = False,
     tc_session_up = False, tc_config = None, tc_bytes_sent = -1, tc_bytes_acked = 0, tc_batch_count = 0, tc_recv_pending = False,
     tc_state_entry_tick = 0, tc_session_down_since = 0, tc_total_iterations = 0, tc_reconnect_delay_cycles = 0,
     tc_last_state = TCP_STATE_INIT, tc_session_count = 0, tc_task = Some 1, tc_task_stats = task_stats_zero\<rparr>"

abbreviation ram_files :: "(socket_poll \<times> ram_kernel) contents" where "ram_files \<equiv> \<lambda>w. rw_files (fst (snd w))"
abbreviation ram_open_files :: "(socket_poll \<times> ram_kernel) handles" where "ram_open_files \<equiv> \<lambda>w. rw_handles (fst (snd w))"

lemma ram_queue: "tcp_queue ram_gateway = Some (tcp_cfg 2, 1, empty_queue 2 sample_msg)"
  by (simp add: tcp_queue_def ram_gateway_def module_manager_get_config_def module_get_def ram_module_def)

lemma ram_holds: "tcp_holds (ram_tcp_env ok) ram_files ram_open_files ram_gateway []"
proof -
  have l: "flash_laws (os_flash (tv_os (ram_tcp_env ok))) ram_files ram_open_files" "flash_reliable (os_flash (tv_os (ram_tcp_env ok))) ram_files ram_open_files"
    using flash_at_laws [OF _ ram_laws, of "\<lambda>w. fst (snd w)" "\<lambda>r w. (fst w, r, snd (snd w))"]
      flash_at_reliable [OF _ ram_reliable, of "\<lambda>w. fst (snd w)" "\<lambda>r w. (fst w, r, snd (snd w))"]
    by (simp_all add: ram_tcp_env_def)
  have "tcp_rel (os_flash (tv_os (ram_tcp_env ok))) ram_files ram_open_files (os_msg_abi (tv_os (ram_tcp_env ok))) (tcp_cfg 2)
      (empty_queue 2 sample_msg) (gw_world ram_gateway) []"
    using l by (simp add: tcp_rel_def tcp_cfg_def empty_queue_def file_rel_def msg_abi_ok_def ram_tcp_env_def msg_abi_def
        queue_is_tcp_send_q_def ram_gateway_def empty_ram_def)
  moreover have "wf_ring (tcp_cfg 2) (empty_queue 2 sample_msg)" "ring_items (tcp_cfg 2) (empty_queue 2 sample_msg) = []"
    by (simp_all add: wf_ring_def tcp_cfg_def empty_queue_def ring_items_def)
  moreover have "\<not> command_queue_has_file ram_gateway"
    by (simp add: command_queue_has_file_def ram_gateway_def module_manager_get_config_def module_get_def)
  moreover have "os_msg_abi (tv_os (ram_tcp_env ok)) = msg_abi" by (simp add: ram_tcp_env_def)
  ultimately show ?thesis
    by (simp add: tcp_holds_def ram_queue queue_holds_def row_rel_def) (simp add: tcp_cfg_def msg_abi_def ram_gateway_def)
qed

lemma ram_whole_sends: "whole_sends (ram_tcp_env True)"
  by (auto simp: whole_sends_def ram_tcp_env_def s_walnut_tcp_ops_def send_impl_def ram_lwip_def Let_def split: prod.splits if_splits)

lemma ram_link: "tcp_link (ram_tcp_env ok) ram_files (\<lambda>w. snd (snd w))"
  by (rule ram.tcp_link_axioms)

theorem tcp_rows_leave_only_when_sent_witness:
  "\<exists>k. tcp_holds (ram_tcp_env True) ram_files ram_open_files (snd (tcp_run (ram_tcp_env True) [Tcp_Send (Some [0x57, 0x45, 0x49]), Tcp_Turn]
      (ram_client, ram_gateway))) (drop k [[0x57, 0x45, 0x49]])"
proof -
  have "smooth_run (ram_tcp_env True) [Tcp_Send (Some [0x57, 0x45, 0x49]), Tcp_Turn] (ram_client, ram_gateway)"
    by (simp add: wf_packet_def tcp_type_ok_def GPS_PACKET_TYPE_def tcp_room_def ram_queue tcp_cfg_def empty_queue_def tail_stays_def ram_client_def)
  then show ?thesis
    using tcp_rows_leave_only_when_sent [OF ram_link ram_whole_sends, of ram_open_files "(ram_client, ram_gateway)" "[]"] ram_holds
    by (fastforce simp: ram_client_def small_rows_def)
qed

theorem walnut_rows_leave_only_when_sent_witness:
  "\<exists>k. tcp_holds (ram_tcp_env True) ram_files ram_open_files (snd (net_run (ram_lwip True) (ram_tcp_env True)
      [Net_Client (Tcp_Send (Some [0x57, 0x45, 0x49])), Net_Poll] (ram_client, ram_gateway))) (drop k [[0x57, 0x45, 0x49]])"
proof -
  have "net_smooth (ram_lwip True) (ram_tcp_env True) [Net_Client (Tcp_Send (Some [0x57, 0x45, 0x49])), Net_Poll] (ram_client, ram_gateway)"
    by (simp add: wf_packet_def tcp_type_ok_def GPS_PACKET_TYPE_def tcp_room_def ram_queue tcp_cfg_def empty_queue_def)
  then show ?thesis
    using walnut_rows_leave_only_when_sent [OF ram.walnut_link_axioms ram_whole_sends, of ram_open_files "(ram_client, ram_gateway)" "[]"]
      ram_holds
    by (fastforce simp: ram_client_def small_rows_def)
qed

text \<open>Two packets fill the ring.\<close>

definition ram_packet :: "byte \<Rightarrow> bytes" where
  "ram_packet n = [0x57, 0x45, 0x49, n]"

definition ram_one :: "(unit, socket_poll \<times> ram_kernel) gateway" where
  "ram_one = snd (weware_tcp_send (ram_tcp_env True) (Some (ram_packet 1)) ram_gateway)"

definition ram_filled :: "(unit, socket_poll \<times> ram_kernel) gateway" where
  "ram_filled = snd (weware_tcp_send (ram_tcp_env True) (Some (ram_packet 2)) ram_one)"

lemma ram_counts:
  "tcp_room ram_one" "map_option (\<lambda>(cfg, h, q). queue_is_full (Some q) (Some cfg)) (tcp_queue ram_filled) = Some True"
  by code_simp+

lemma ram_env_same: "tcp_holds (ram_tcp_env ok) C H g l \<Longrightarrow> tcp_holds (ram_tcp_env ok') C H g l"
  by (simp add: tcp_holds_def ram_tcp_env_def)

lemma ram_filled_holds: "tcp_holds (ram_tcp_env ok) ram_files ram_open_files ram_filled [ram_packet 1, ram_packet 2]"
proof -
  have p: "wf_packet (ram_packet n)" for n by (simp add: ram_packet_def wf_packet_def tcp_type_ok_def GPS_PACKET_TYPE_def)
  have r: "tcp_room ram_gateway" by (simp add: tcp_room_def ram_queue tcp_cfg_def empty_queue_def)
  have h1: "tcp_holds (ram_tcp_env True) ram_files ram_open_files ram_one [ram_packet 1]"
    using ram.send_appends [OF ram_holds p [of 1] r, of True] by (auto simp: ram_one_def)
  have "tcp_holds (ram_tcp_env True) ram_files ram_open_files ram_filled [ram_packet 1, ram_packet 2]"
    using ram.send_appends [OF h1 p [of 2] ram_counts(1)] by (auto simp: ram_filled_def)
  then show ?thesis by (rule ram_env_same)
qed

text \<open>A client with a socket, and one that sends the newest packet first.\<close>

definition ram_connected :: "bool \<Rightarrow> tcp_client" where
  "ram_connected live = ram_client\<lparr>tc_tcp_fd := 3, tc_config := Some \<lparr>tcf_server_ip = ''localhost'', tcf_server_port = 9616,
     tcf_connection_timeout_ms = 30000, tcf_send_timeout_ms = 5000, tcf_retry_interval_ms = 10000, tcf_login_with_gps = False,
     tcf_live_first = live\<rparr>\<rparr>"


theorem tcp_live_first_loses_newest_witness:
  "\<exists>r s'. tcp_state_handle_sending_data (ram_tcp_env False) (ram_connected True, ram_filled) = (r, s') \<and>
     r \<noteq> RESULT_SUCCESS \<and> tcp_holds (ram_tcp_env False) ram_files ram_open_files (snd s') [ram_packet 1]"
proof -
  have h: "tcp_holds (ram_tcp_env False) ram_files ram_open_files (snd (ram_connected True, ram_filled)) [ram_packet 1, ram_packet 2]"
    using ram_filled_holds by simp
  have "\<not> tail_stays (ram_connected True, ram_filled)"
    using ram_counts(2) by (auto simp: tail_stays_def ram_connected_def split: option.splits)
  moreover have "\<forall>w. \<not> tcp_fatal_errno (fst (tf_get_sock_errno (tv_tcp (ram_tcp_env False)) 3 w))"
    by (simp add: ram_tcp_env_def s_walnut_tcp_ops_def get_sock_errno_impl_def ram_lwip_def tcp_fatal_errno_def)
  moreover have "\<forall>b w. fst (tf_send (tv_tcp (ram_tcp_env False)) 3 b w) \<le> 0"
    by (simp add: ram_tcp_env_def s_walnut_tcp_ops_def send_impl_def ram_lwip_def split_beta)
  ultimately show ?thesis
    using tcp_live_first_loses_newest [OF ram_link h] by (simp add: ram_connected_def ram_packet_def) blast
qed

theorem tcp_ack_needs_all_bytes_witness:
  "tc_state (fst (tcp_run (ram_tcp_env True) [Tcp_Socket 3 10 20, Tcp_Socket 3 10 4]
     ((ram_connected False)\<lparr>tc_state := TCP_STATE_WAIT_ACK_DATA, tc_bytes_sent := 24\<rparr>, ram_gateway))) = TCP_STATE_ACK_RECEIVED \<and>
   (let u = fst (tcp_run (ram_tcp_env True) [Tcp_Socket 3 10 20, Tcp_Socket 3 10 4]
     ((ram_connected False)\<lparr>tc_state := TCP_STATE_WAIT_ACK_DATA, tc_bytes_sent := 24\<rparr>, ram_gateway))
    in 0 < tc_bytes_sent u \<and> tc_bytes_sent u \<le> tc_bytes_acked u)"
proof -
  let ?s = "((ram_connected False)\<lparr>tc_state := TCP_STATE_WAIT_ACK_DATA, tc_bytes_sent := 24\<rparr>, ram_gateway)"
  have n: "tc_state (fst ?s) \<noteq> TCP_STATE_ACK_RECEIVED" by simp
  have a: "tc_state (fst (tcp_run (ram_tcp_env True) [Tcp_Socket 3 10 20, Tcp_Socket 3 10 4] ?s)) = TCP_STATE_ACK_RECEIVED"
    by (simp add: tcp_socket_event_callback_def netconn_events ram_connected_def ram_client_def Let_def set_state_def)
  show ?thesis using tcp_ack_needs_all_bytes [OF n refl a] a unfolding Let_def by blast
qed

text \<open>A client that has waited for the network for a minute.\<close>

definition ram_waiting :: tcp_client where
  "ram_waiting = ram_client\<lparr>tc_state := TCP_STATE_WAIT_NETWORK, tc_last_state := TCP_STATE_WAIT_NETWORK\<rparr>"

definition ram_minute_env :: "(unit, socket_poll \<times> ram_kernel) tcp_env" where
  "ram_minute_env = (ram_tcp_env True)\<lparr>tv_os := (tv_os (ram_tcp_env True))\<lparr>os_ticks := \<lambda>w. (60000, w)\<rparr>\<rparr>"

lemma ram_waiting_simps:
  "tc_state ram_waiting = TCP_STATE_WAIT_NETWORK" "tc_last_state ram_waiting = TCP_STATE_WAIT_NETWORK"
  "tcp_state_timeout ram_waiting = 60000" "tc_state_entry_tick ram_waiting = 0" "os_ticks (tv_os ram_minute_env) w = (60000, w)"
  by (simp_all add: ram_waiting_def ram_client_def tcp_state_timeout_def g_tcp_state_timeouts_def ram_minute_env_def)

theorem tcp_silent_state_gives_up_witness:
  "tc_state (fst (tcp_turn ram_minute_env (ram_waiting, ram_gateway))) = TCP_STATE_RECONNECT_DELAY"
  using tcp_silent_state_gives_up [of ram_waiting ram_minute_env ram_gateway] by (simp add: ram_waiting_simps u32_minus_def u32_def)

end
