(* ===== verification/Config_Text.thy ===== *)
theory Config_Text
  imports Uart_Response
begin

text \<open>
  Configuration as text, \<open>key:value,key:value\<close>: decimal numbers read back, and the loop that
  \<open>command_config_set\<close> and \<open>network_config_set\<close> share. Each of them reads the tokens into a copy of its
  configuration and applies the copy only when every token was good. The locale \<open>keyed_config\<close> states what such a
  module provides and proves once that its text form reads back.
\<close>

subsection \<open>Decimal numbers read back\<close>

lemma is_digit_dec_digit: "k < 10 \<Longrightarrow> is_digit (char_of (48 + k)) \<and> digit_val (char_of (48 + k)) = k"
  by (simp add: is_digit_def digit_val_def char_code_def)

lemma list_all_digit_dec: "list_all is_digit (dec n)"
  by (induction n rule: dec.induct) (simp add: dec.simps [of n for n] is_digit_dec_digit)

lemma dec_not_Nil [simp]: "dec n \<noteq> []"
  by (subst dec.simps) simp

lemma dec_prefix_append: "list_all is_digit s \<Longrightarrow> dec_prefix acc (s @ t) = dec_prefix (dec_prefix acc s) t"
  by (induction s arbitrary: acc) auto

lemma dec_prefix_dec: "dec_prefix 0 (dec n) = n"
proof (induction n rule: dec.induct)
  case (1 n)
  show ?case
  proof (cases "n < 10")
    case True
    then show ?thesis by (subst dec.simps) (simp add: is_digit_dec_digit)
  next
    case False
    then have "dec_prefix 0 (dec n) = dec_prefix (n div 10) [char_of (48 + n mod 10)]"
      using 1 by (subst dec.simps) (simp add: dec_prefix_append list_all_digit_dec)
    then show ?thesis by (simp add: is_digit_dec_digit)
  qed
qed

lemma digit_chars:
  assumes "list_all is_digit s"
  shows "CHR '':'' \<notin> set s" and "CHR '','' \<notin> set s" and "NUL \<notin> set s" and "\<forall>c \<in> set s. \<not> is_blank c \<and> \<not> c_isspace c"
  using assms by (auto simp: list_all_iff is_digit_def is_blank_def c_isspace_def char_code_def)

lemma split_sign_dec: "split_sign (dec n @ t) = (False, dec n @ t)"
proof -
  obtain c s where "dec n = c # s" by (cases "dec n") auto
  moreover have "is_digit c" using list_all_digit_dec [of n] calculation by simp
  ultimately show ?thesis by (auto simp: split_sign_def is_digit_def c_isspace_def char_code_def)
qed

lemma atoi_dec: "n \<le> 2147483647 \<Longrightarrow> atoi (dec n) = int n"
  using split_sign_dec [of n "[]"] by (simp add: atoi_def dec_prefix_dec)

lemma strtoul10_dec: "n \<le> UINT32_MAX \<Longrightarrow> strtoul10 (dec n) = n"
  using split_sign_dec [of n "[]"] by (simp add: strtoul10_def dec_prefix_dec)

text \<open>\<open>dec n\<close> has at most \<open>k\<close> digits when \<open>n < 10 ^ k\<close>.\<close>

lemma length_dec: "n < 10 ^ k \<Longrightarrow> 0 < k \<Longrightarrow> length (dec n) \<le> k"
proof (induction n arbitrary: k rule: dec.induct)
  case (1 n)
  show ?case
  proof (cases "n < 10")
    case True
    then show ?thesis using 1(3) by (subst dec.simps) simp
  next
    case False
    then obtain j where k: "k = Suc j" "0 < j" using 1(2) by (cases k; cases "k - 1") auto
    then have "n div 10 < 10 ^ j" using 1(2) by (simp add: less_mult_imp_div_less mult.commute)
    then show ?thesis using 1(1) [OF False _ k(2)] False k(1) by (subst dec.simps) simp
  qed
qed

subsection \<open>Numbers with nothing behind them\<close>

text \<open>\<open>strtol\<close> and \<open>strtoul\<close> set \<open>end\<close>: the number, if there are digits and nothing follows them.\<close>

definition whole_number :: "string \<Rightarrow> bool" where
  "whole_number s = (let t = snd (split_sign s) in t \<noteq> [] \<and> list_all is_digit t)"

lemma whole_number_dec: "whole_number (dec n)"
  using split_sign_dec [of n "[]"] by (simp add: whole_number_def list_all_digit_dec)

subsection \<open>The loop over the tokens\<close>

type_synonym config_keys = "(string option \<times> int) list"

text \<open>\<open>setter i v c\<close>: the copy \<open>c\<close> with the value \<open>v\<close> for the key with index \<open>i\<close>, \<open>None\<close> when the value is refused.
  \<open>parsed_any\<close>: was there a token with a key?\<close>

fun keyed_loop ::
    "(int \<Rightarrow> string \<Rightarrow> 'c \<Rightarrow> 'c option) \<Rightarrow> config_keys \<Rightarrow> string list \<Rightarrow> bool \<Rightarrow> 'c \<Rightarrow> (bool \<times> 'c) option" where
  "keyed_loop setter keys [] parsed_any c = Some (parsed_any, c)"
| "keyed_loop setter keys (tok # toks) parsed_any c =
     (let token = utils_trim_whitespace (Some tok) in
      case utils_config_parse_key token True 32 of
        None \<Rightarrow> keyed_loop setter keys toks parsed_any c
      | Some key \<Rightarrow>
          let i = utils_config_key_to_index (Some key) (Some keys) in
          if i < 0 then None
          else case setter i (the (utils_extract_config_value token)) c of
            None \<Rightarrow> None
          | Some c \<Rightarrow> keyed_loop setter keys toks True c)"

text \<open>\<open>TRUE\<close>, \<open>FALSE\<close> in any case, or a digit.\<close>

definition parse_flag :: "string \<Rightarrow> bool option" where
  "parse_flag v =
     (if strcasecmp_eq v ''TRUE'' \<or> v = ''1'' then Some True
      else if strcasecmp_eq v ''FALSE'' \<or> v = ''0'' then Some False else None)"

definition flag_text :: "bool \<Rightarrow> string" where
  "flag_text b = (if b then ''TRUE'' else ''FALSE'')"

lemma parse_flag_text [simp]: "parse_flag (flag_text b) = Some b"
  by (simp add: parse_flag_def flag_text_def strcasecmp_eq_def c_tolower_def char_code_def)

definition field_text :: "string \<times> string \<Rightarrow> string" where
  "field_text kv = fst kv @ CHR '':'' # snd kv"

text \<open>The fields with commas between them.\<close>

fun fields_text :: "(string \<times> string) list \<Rightarrow> string" where
  "fields_text [] = []"
| "fields_text [kv] = field_text kv"
| "fields_text (kv # kvs) = field_text kv @ CHR '','' # fields_text kvs"

text \<open>A value that survives the tokeniser and the trimming of blanks.\<close>

definition plain_value :: "string \<Rightarrow> bool" where
  "plain_value v \<longleftrightarrow> CHR '','' \<notin> set v \<and> (v \<noteq> [] \<longrightarrow> \<not> is_blank (last v))"

definition plain_key :: "string \<Rightarrow> bool" where
  "plain_key k \<longleftrightarrow> k \<noteq> [] \<and> length k < 32 \<and> CHR '':'' \<notin> set k \<and> CHR '','' \<notin> set k \<and> \<not> is_blank (hd k)"

lemma blank_chars [simp]: "\<not> is_blank CHR '':''"
  by (simp add: is_blank_def)

lemma plain_value_digits: "list_all is_digit s \<Longrightarrow> plain_value s"
  using digit_chars(2,4) [of s] by (auto simp: plain_value_def)

lemma plain_value_flag [simp]: "plain_value (flag_text b)"
  by (simp add: plain_value_def flag_text_def is_blank_def)

lemma trim_plain:
  assumes "s \<noteq> []" and "\<not> is_blank (hd s)" and "\<not> is_blank (last s)"
  shows "utils_trim_whitespace (Some s) = Some s"
proof -
  have "dropWhile is_blank s = s" using assms(1,2) by (cases s) auto
  moreover have "dropWhile is_blank (rev s) = rev s"
    using assms(1,3) by (cases "rev s") (auto simp: hd_rev [symmetric])
  ultimately show ?thesis by (simp add: trim_whitespace_strips)
qed

lemma field_token:
  assumes "plain_key k" and "plain_value v"
  shows "utils_trim_whitespace (Some (field_text (k, v))) = Some (field_text (k, v))"
    and "utils_config_parse_key (Some (field_text (k, v))) True 32 = Some k"
    and "utils_extract_config_value (Some (field_text (k, v))) = Some v"
proof -
  have "last (field_text (k, v)) = (if v = [] then CHR '':'' else last v)" by (simp add: field_text_def)
  then show "utils_trim_whitespace (Some (field_text (k, v))) = Some (field_text (k, v))"
    using assms by (intro trim_plain) (auto simp: field_text_def plain_key_def plain_value_def)
  have c: "strchr (k @ CHR '':'' # v) CHR '':'' = Some (CHR '':'' # v)"
    using assms(1) by (simp add: plain_key_def cstr_simps)
  show "utils_config_parse_key (Some (field_text (k, v))) True 32 = Some k"
    using assms(1) by (simp add: utils_config_parse_key_def field_text_def c plain_key_def)
  show "utils_extract_config_value (Some (field_text (k, v))) = Some v"
    by (simp add: utils_extract_config_value_def field_text_def c)
qed

lemma fields_split:
  assumes "kvs \<noteq> []" and "\<forall>kv \<in> set kvs. CHR '','' \<notin> set (field_text kv)"
  shows "split_chars {CHR '',''} (fields_text kvs) = map field_text kvs"
  using assms by (induction kvs rule: fields_text.induct) (simp_all add: split_chars_last split_chars_token)

lemma fields_tokens:
  assumes "\<forall>(k, v) \<in> set kvs. plain_key k \<and> plain_value v"
  shows "tok_loop '','' (Some (fields_text kvs)) = map field_text kvs"
proof (cases "kvs = []")
  case False
  have "\<forall>kv \<in> set kvs. CHR '','' \<notin> set (field_text kv)"
    using assms by (auto simp: field_text_def plain_key_def plain_value_def)
  moreover have "\<forall>t \<in> set (map field_text kvs). t \<noteq> []" by (auto simp: field_text_def)
  ultimately show ?thesis using False by (simp add: strtok_r_tokens fields_split del: map_map)
qed (simp add: strtok_r_tokens)

subsection \<open>A module with such a configuration\<close>

text \<open>\<open>valid\<close> is what the module keeps true of its configuration, \<open>fields\<close> the keys and values of its text form,
  \<open>merge c c0\<close> the configuration \<open>c0\<close> with all of \<open>c\<close> that the text form shows.\<close>

fun set_fields :: "(int \<Rightarrow> string \<Rightarrow> 'c \<Rightarrow> 'c option) \<Rightarrow> config_keys \<Rightarrow> (string \<times> string) list \<Rightarrow> 'c \<Rightarrow> 'c option" where
  "set_fields setter keys [] c = Some c"
| "set_fields setter keys ((k, v) # kvs) c =
     (case setter (key_index_loop k keys) v c of None \<Rightarrow> None | Some c \<Rightarrow> set_fields setter keys kvs c)"

locale keyed_config =
  fixes setter :: "int \<Rightarrow> string \<Rightarrow> 'c \<Rightarrow> 'c option" and keys :: config_keys
    and valid :: "'c \<Rightarrow> bool" and fields :: "'c \<Rightarrow> (string \<times> string) list" and merge :: "'c \<Rightarrow> 'c \<Rightarrow> 'c"
  assumes setter_valid: "valid c \<Longrightarrow> 0 \<le> i \<Longrightarrow> setter i v c = Some c' \<Longrightarrow> valid c'"
    and fields_keys: "(k, v) \<in> set (fields c) \<Longrightarrow> plain_key k \<and> 0 \<le> key_index_loop k keys"
    and fields_some: "fields c \<noteq> []"
    and fields_set: "valid c \<Longrightarrow> set_fields setter keys (fields c) c0 = Some (merge c c0)"
begin

lemma loop_valid:
  "valid c \<Longrightarrow> keyed_loop setter keys toks p c = Some (p', c') \<Longrightarrow> valid c'"
proof (induction toks arbitrary: p c)
  case (Cons t toks)
  then show ?case
    by (auto simp: Let_def not_less split: option.splits if_splits) (use setter_valid in blast)
qed simp

lemma loop_fields:
  assumes "\<forall>(k, v) \<in> set kvs. plain_key k \<and> plain_value v \<and> 0 \<le> key_index_loop k keys"
    and "set_fields setter keys kvs c = Some c'"
  shows "keyed_loop setter keys (map field_text kvs) p c = Some (p \<or> kvs \<noteq> [], c')"
  using assms
proof (induction kvs arbitrary: p c)
  case (Cons kv kvs)
  obtain k v where kv: "kv = (k, v)" by fastforce
  then have "plain_key k" "plain_value v" "\<not> key_index_loop k keys < 0" using Cons.prems(1) by auto
  then show ?case
    using Cons by (auto simp: kv field_token utils_config_key_to_index_def Let_def split: option.splits)
qed simp

lemma text_reads_back:
  assumes "valid c" and "\<forall>(k, v) \<in> set (fields c). plain_value v"
  shows "keyed_loop setter keys (tok_loop '','' (Some (fields_text (fields c)))) False c0 = Some (True, merge c c0)"
proof -
  have "\<forall>(k, v) \<in> set (fields c). plain_key k \<and> plain_value v \<and> 0 \<le> key_index_loop k keys"
    using assms(2) fields_keys by blast
  then show ?thesis
    using loop_fields [OF _ fields_set [OF assms(1)], of False c0] fields_some by (auto simp: fields_tokens split_def)
qed

end

end
