(* ===== verification/Command_Parser.thy ===== *)
theory Command_Parser
  imports Utils Config_Text
begin

text \<open>
  The text half of \<open>module/command/command_handler.c\<close> and the table of \<open>command_manager.c\<close>: how the line of a remote
  command is taken apart, which row of the table it means, whether its password is right, and what of the line the
  handler of the command gets.
\<close>

subsection \<open>The table\<close>

datatype cmd_enum =
    CMD_UNKNOWN | CMD_SET_GPS_CONFIG | CMD_GET_GPS_CONFIG | CMD_SET_NETWORK_CONFIG | CMD_GET_NETWORK_CONFIG
  | CMD_SET_TCP_CONFIG | CMD_GET_TCP_CONFIG | CMD_SET_COMMAND_CONFIG | CMD_GET_COMMAND_CONFIG
  | CMD_SET_SYSTEM_CONFIG | CMD_GET_SYSTEM_CONFIG | CMD_REBOOT | CMD_HARD_RESET | CMD_GET_DEV_INFO
  | CMD_GET_DEV_STATUS | CMD_DELETE_FOLDER | CMD_FACTORY_RESET | CMD_DIGOUT | CMD_SET_MIN_CSQ | CMD_FORCED_OTA
  | CMD_GET_OTA_STATUS | CMD_PING_STM | CMD_SET_GPS_ON | CMD_SET_GPS_OFF | CMD_MAX

text \<open>A row: the command, its name, does it need the password, and the name of the function that executes it.\<close>

record cmd_handler_entry =
  he_cmd_enum :: cmd_enum
  he_name :: string
  he_requires_auth :: bool
  he_module_func :: "string option"

definition row :: "cmd_enum \<Rightarrow> string \<Rightarrow> bool \<Rightarrow> string option \<Rightarrow> cmd_handler_entry" where
  "row e name auth f = \<lparr>he_cmd_enum = e, he_name = name, he_requires_auth = auth, he_module_func = f\<rparr>"

definition g_cmd_table :: "cmd_handler_entry list" where
  "g_cmd_table =
    [row CMD_SET_GPS_CONFIG ''SET-GPS-CONFIG'' True (Some ''gps_config_set''),
     row CMD_GET_GPS_CONFIG ''GET-GPS-CONFIG'' False (Some ''gps_config_get_string''),
     row CMD_SET_NETWORK_CONFIG ''SET-NETWORK-CONFIG'' True (Some ''network_config_set''),
     row CMD_GET_NETWORK_CONFIG ''GET-NETWORK-CONFIG'' False (Some ''network_config_get_string''),
     row CMD_SET_TCP_CONFIG ''SET-TCP-CONFIG'' True (Some ''weware_tcp_config_set''),
     row CMD_GET_TCP_CONFIG ''GET-TCP-CONFIG'' False (Some ''weware_tcp_config_get_string''),
     row CMD_SET_COMMAND_CONFIG ''SET-COMMAND-CONFIG'' True (Some ''command_config_set''),
     row CMD_GET_COMMAND_CONFIG ''GET-COMMAND-CONFIG'' True (Some ''command_config_get_string''),
     row CMD_SET_SYSTEM_CONFIG ''SET-SYSTEM-CONFIG'' True (Some ''system_config_set''),
     row CMD_GET_SYSTEM_CONFIG ''GET-SYSTEM-CONFIG'' False (Some ''system_config_get_string''),
     row CMD_REBOOT ''REBOOT'' True (Some ''cmd_mod_reboot''),
     row CMD_HARD_RESET ''HARD-RESET'' True (Some ''cmd_hard_reset''),
     row CMD_GET_DEV_INFO ''GET-DEV-INFO'' False (Some ''cmd_get_dev_info''),
     row CMD_GET_DEV_STATUS ''GET-DEV-STATUS'' False (Some ''cmd_get_dev_status''),
     row CMD_DELETE_FOLDER ''DELETE-FOLDER'' True (Some ''cmd_delete_folder''),
     row CMD_FACTORY_RESET ''FACTORY-RESET'' True (Some ''cmd_factory_reset''),
     row CMD_DIGOUT ''DIGOUT'' True (Some ''cmd_digout''),
     row CMD_SET_MIN_CSQ ''SET-MIN-CSQ'' True (Some ''cmd_set_min_csq''),
     row CMD_FORCED_OTA ''FORCED-OTA'' True (Some ''cmd_force_ota''),
     row CMD_GET_OTA_STATUS ''GET-OTA-STATUS'' True (Some ''cmd_get_ota_status''),
     row CMD_PING_STM ''PING-STM'' True None,
     row CMD_SET_GPS_ON ''SET-GPS-ON'' True (Some ''cmd_set_gps_on''),
     row CMD_SET_GPS_OFF ''SET-GPS-OFF'' True (Some ''cmd_set_gps_off'')]"

definition cmd_find_command_enum :: "string option \<Rightarrow> cmd_enum" where
  "cmd_find_command_enum name =
     (case name of None \<Rightarrow> CMD_UNKNOWN
      | Some n \<Rightarrow> (case find (\<lambda>e. strcasecmp_eq (he_name e) n) g_cmd_table of
            None \<Rightarrow> CMD_UNKNOWN | Some e \<Rightarrow> he_cmd_enum e))"

definition cmd_get_command_entry :: "cmd_enum \<Rightarrow> cmd_handler_entry option" where
  "cmd_get_command_entry c =
     (if c = CMD_UNKNOWN \<or> c = CMD_MAX then None else find (\<lambda>e. he_cmd_enum e = c) g_cmd_table)"

subsection \<open>The line\<close>

definition c_toupper :: "char \<Rightarrow> char" where
  "c_toupper c = (if 97 \<le> char_code c \<and> char_code c \<le> 122 then char_of (char_code c - 32) else c)"

abbreviation (input) CMD_SIZE :: nat where "CMD_SIZE \<equiv> 64"
abbreviation (input) ARGS_SIZE :: nat where "ARGS_SIZE \<equiv> 256"

text \<open>The name and the arguments, \<open>None\<close> when the line is no command.\<close>

definition cmd_parse_command :: "string option \<Rightarrow> (string \<times> string) option" where
  "cmd_parse_command text =
     (case text of
        None \<Rightarrow> None
      | Some t \<Rightarrow>
          let start = the (utils_trim_whitespace (Some (take 511 t))) in
          if \<not> strncasecmp_eq 4 start ''MOD:'' then None
          else
            let cmd_start = dropWhile c_isspace (drop 4 start);
                name = takeWhile (\<lambda>c. c \<noteq> CHR '' '') cmd_start;
                rest = drop (Suc (length name)) cmd_start;
                cmd = map c_toupper (take (CMD_SIZE - 1) name)
            in if cmd = [] then None else Some (cmd, take (ARGS_SIZE - 1) rest))"

text \<open>Blanks and tabs are the separators of \<open>strtok\<close>; the first word is the password.\<close>

definition blank_delims :: string where "blank_delims = [CHR '' '', CHR 0x09]"

definition arg_words :: "string \<Rightarrow> string list" where
  "arg_words args = tok_loop blank_delims (Some (take (ARGS_SIZE - 1) args))"

definition password_given :: "string \<Rightarrow> string \<Rightarrow> bool" where
  "password_given password args \<longleftrightarrow> (case arg_words args of [] \<Rightarrow> False | w # _ \<Rightarrow> w = password)"

text \<open>What is left of the arguments behind the password.\<close>

definition without_password :: "string \<Rightarrow> string \<Rightarrow> string" where
  "without_password password args =
     (if args = [] then args
      else
        let start = dropWhile is_blank (take (ARGS_SIZE - 1) args) in
        if take (length password) start = password then take (ARGS_SIZE - 1) (dropWhile is_blank (drop (length password) start))
        else args)"

text \<open>The loop of \<open>cmd_state_handle_execute\<close> that puts commas between the words; \<open>out\<close> is what is written so far.\<close>

abbreviation (input) PROCESSED_SIZE :: nat where "PROCESSED_SIZE \<equiv> 512"

fun comma_loop :: "string \<Rightarrow> string list \<Rightarrow> string" where
  "comma_loop out [] = out"
| "comma_loop out (w # ws) =
     (if length out < PROCESSED_SIZE - 1 then
        let (len, s) = snprintf (PROCESSED_SIZE - length out) ((if out \<noteq> [] then '','' else []) @ w)
        in if len \<ge> int (PROCESSED_SIZE - length out) then out @ s else comma_loop (out @ s) ws
      else out)"

definition is_set_command :: "cmd_handler_entry \<Rightarrow> bool" where
  "is_set_command e \<longleftrightarrow> take 4 (he_name e) = ''SET-''"

definition processed_args :: "cmd_handler_entry \<Rightarrow> string \<Rightarrow> string" where
  "processed_args e args =
     (let p = (if is_set_command e \<and> args \<noteq> [] then comma_loop [] (arg_words args) else [])
      in if is_set_command e \<and> p \<noteq> [] then p else args)"

subsection \<open>The argument of DELETE-FOLDER\<close>

text \<open>\<open>sscanf (s, "%79s %7s", name, extra)\<close>: the number of conversions, -1 at the end of the text, and the name.\<close>

definition scan_folder :: "string \<Rightarrow> int \<times> string" where
  "scan_folder s =
     (let t = dropWhile c_isspace s;
          name = take 79 (takeWhile (\<lambda>c. \<not> c_isspace c) t);
          rest = dropWhile c_isspace (drop (length name) t)
      in if t = [] then (-1, []) else (if rest = [] then 1 else 2, name))"

definition cmd_delete_folder_name_valid :: "string option \<Rightarrow> bool" where
  "cmd_delete_folder_name_valid name =
     (case name of None \<Rightarrow> False
      | Some n \<Rightarrow> n \<noteq> [] \<and> n \<noteq> ''.'' \<and> n \<noteq> ''..'' \<and> length n < 64 \<and> strstr n ''..'' = None \<and>
          CHR ''/'' \<notin> set n \<and> CHR 0x5C \<notin> set n)"

definition FLASH_ROOT :: string where "FLASH_ROOT = ''C:/''"

definition cmd_delete_folder_resolved_ok :: "string option \<Rightarrow> bool" where
  "cmd_delete_folder_resolved_ok path =
     (case path of None \<Rightarrow> False
      | Some p \<Rightarrow> p \<noteq> [] \<and> strstr p ''..'' = None \<and> strncasecmp_eq (length FLASH_ROOT) p FLASH_ROOT \<and>
          drop (length FLASH_ROOT) p \<noteq> [])"

subsection \<open>The table and the words\<close>

lemma table_rows:
  "distinct (map he_cmd_enum g_cmd_table)" "\<forall>e \<in> set g_cmd_table. he_cmd_enum e \<noteq> CMD_UNKNOWN \<and> he_cmd_enum e \<noteq> CMD_MAX"
  by (simp_all add: g_cmd_table_def row_def)

lemma find_distinct:
  assumes "distinct (map f xs)" and "x \<in> set xs"
  shows "find (\<lambda>y. f y = f x) xs = Some x"
  using assms by (induction xs) auto

text \<open>A name that is found has a row, so the step that looks for the row does not fail.\<close>

lemma find_entry_row:
  assumes "cmd_find_command_enum (Some n) = c" and "c \<noteq> CMD_UNKNOWN"
  obtains e where "e \<in> set g_cmd_table" and "he_cmd_enum e = c" and "strcasecmp_eq (he_name e) n" and "cmd_get_command_entry c = Some e"
proof -
  obtain e where e: "find (\<lambda>e. strcasecmp_eq (he_name e) n) g_cmd_table = Some e" "he_cmd_enum e = c"
    using assms by (auto simp: cmd_find_command_enum_def split: option.splits)
  then have m: "e \<in> set g_cmd_table" "strcasecmp_eq (he_name e) n" by (auto simp: find_Some_iff)
  then have "cmd_get_command_entry c = Some e"
    using find_distinct [OF table_rows(1) m(1)] table_rows(2) e(2) by (auto simp: cmd_get_command_entry_def)
  then show ?thesis using that m e(2) by blast
qed

subsection \<open>Words\<close>

lemma blank_delim: "c \<in> set blank_delims \<longleftrightarrow> is_blank c"
  by (auto simp: blank_delims_def is_blank_def)

lemma tok_loop_drop: "tok_loop blank_delims (Some (dropWhile is_blank s)) = tok_loop blank_delims (Some s)"
  using split_chars_drop [of "set blank_delims" s] by (simp add: strtok_r_tokens blank_delim)

lemma tok_loop_step:
  assumes "dropWhile is_blank s = t" and "t \<noteq> []"
  shows "tok_loop blank_delims (Some s) =
    takeWhile (\<lambda>c. \<not> is_blank c) t # tok_loop blank_delims (Some (dropWhile (\<lambda>c. \<not> is_blank c) t))"
proof -
  let ?w = "takeWhile (\<lambda>c. \<not> is_blank c) t" and ?r = "dropWhile (\<lambda>c. \<not> is_blank c) t"
  have s: "tok_loop blank_delims (Some s) = filter (\<lambda>t. t \<noteq> []) (split_chars (set blank_delims) t)"
    using tok_loop_drop [of s] assms(1) by (simp add: strtok_r_tokens)
  have d: "set ?w \<inter> set blank_delims = {}" by (auto simp: blank_delim dest: set_takeWhileD)
  have w: "?w \<noteq> []" using assms dropWhile_hd [of is_blank s] by (cases t) auto
  show ?thesis
  proof (cases ?r)
    case Nil
    then have "t = ?w" by (metis append.right_neutral takeWhile_dropWhile_id)
    then have "split_chars (set blank_delims) t = [?w]" using split_chars_last [OF d] by metis
    moreover have "tok_loop blank_delims (Some ?r) = []" by (simp add: strtok_r_tokens Nil)
    ultimately show ?thesis using s w by simp
  next
    case (Cons c u)
    have "c \<in> set blank_delims" using dropWhile_hd [OF Cons] by (simp add: blank_delim)
    then have r: "split_chars (set blank_delims) ?r = [] # split_chars (set blank_delims) u" unfolding Cons by simp
    have e: "?w @ c # u = t" by (simp only: Cons [symmetric] takeWhile_dropWhile_id)
    have "split_chars (set blank_delims) t = ?w # split_chars (set blank_delims) u"
      using split_chars_token [OF d \<open>c \<in> set blank_delims\<close>, of u] unfolding e .
    with r show ?thesis using s w by (simp add: strtok_r_tokens)
  qed
qed

text \<open>Behind the right password the words are the others.\<close>

lemma without_password_words:
  assumes "password_given pw args"
  shows "arg_words (without_password pw args) = tl (arg_words args)"
    and "dropWhile is_blank (without_password pw args) = without_password pw args" and "length (without_password pw args) \<le> 255"
proof -
  define s where "s = take 255 args"
  define t where "t = dropWhile is_blank s"
  define r where "r = dropWhile (\<lambda>c. \<not> is_blank c) t"
  have ne: "t \<noteq> []"
  proof
    assume "t = []"
    then have "tok_loop blank_delims (Some s) = tok_loop blank_delims (Some [])" using tok_loop_drop [of s] unfolding t_def by metis
    then show False using assms by (simp add: password_given_def arg_words_def strtok_r_tokens s_def)
  qed
  have w: "arg_words args = takeWhile (\<lambda>c. \<not> is_blank c) t # tok_loop blank_delims (Some r)"
    using tok_loop_step [of s t] ne by (simp add: arg_words_def s_def t_def r_def)
  then have "takeWhile (\<lambda>c. \<not> is_blank c) t = pw" using assms by (simp add: password_given_def)
  then have t: "t = pw @ r" using takeWhile_dropWhile_id [of "\<lambda>c. \<not> is_blank c" t] by (simp add: r_def)
  have "length t \<le> 255" using length_dropWhile_le [of is_blank s] by (simp add: t_def s_def)
  then have l: "length (dropWhile is_blank r) \<le> 255" using t length_dropWhile_le [of is_blank r] by simp
  have "args \<noteq> []" using ne by (auto simp: t_def s_def)
  then have x: "without_password pw args = take 255 (dropWhile is_blank r)"
    by (simp add: without_password_def flip: s_def) (simp add: t flip: t_def)
  then have x: "without_password pw args = dropWhile is_blank r" using l by simp
  then show "arg_words (without_password pw args) = tl (arg_words args)" using w l tok_loop_drop [of r] by (simp add: arg_words_def)
  show "dropWhile is_blank (without_password pw args) = without_password pw args" "length (without_password pw args) \<le> 255"
    using x l by (simp_all add: dropWhile_dropWhile1)
qed

subsection \<open>Commas between the words\<close>

fun commas :: "string list \<Rightarrow> string" where
  "commas [] = []"
| "commas [w] = w"
| "commas (w # ws) = w @ CHR '','' # commas ws"

lemma commas_Cons: "commas (w # ws) = w @ concat (map (Cons CHR '','') ws)"
  by (induction ws arbitrary: w) auto

lemma comma_loop_rest:
  "out \<noteq> [] \<Longrightarrow> length out + length (concat (map (Cons CHR '','') ws)) < PROCESSED_SIZE \<Longrightarrow>
   comma_loop out ws = out @ concat (map (Cons CHR '','') ws)"
proof (induction ws arbitrary: out)
  case (Cons w ws)
  then show ?case using Cons.IH [of "out @ CHR '','' # w"] by (simp add: snprintf_def)
qed simp

lemma split_chars_length: "(\<Sum>w \<leftarrow> split_chars D s. Suc (length w)) = Suc (length s)"
proof (induction s)
  case (Cons c s)
  then show ?case by (cases "split_chars D s") auto
qed simp

lemma tokens_length: "(\<Sum>w \<leftarrow> tok_loop dl (Some s). Suc (length w)) \<le> Suc (length s)"
proof -
  have "(\<Sum>w \<leftarrow> filter (\<lambda>t. t \<noteq> []) ws. Suc (length w)) \<le> (\<Sum>w \<leftarrow> ws. Suc (length w))" for ws :: "string list"
    by (induction ws) auto
  then show ?thesis using split_chars_length [of "set dl" s] by (simp add: strtok_r_tokens) (metis)
qed

lemma concat_length: "length (concat (map (Cons c) ws)) = (\<Sum>w \<leftarrow> ws. Suc (length w))"
  by (induction ws) auto

lemma words_nonempty: "w \<in> set (arg_words args) \<Longrightarrow> w \<noteq> []"
  by (simp add: arg_words_def strtok_r_tokens)

lemma comma_loop_words: "comma_loop [] (arg_words args) = commas (arg_words args)"
proof (cases "arg_words args")
  case (Cons w ws)
  have "(\<Sum>w \<leftarrow> arg_words args. Suc (length w)) \<le> 256"
    using tokens_length [of blank_delims "take 255 args"] by (simp add: arg_words_def)
  then have l: "length w + length (concat (map (Cons CHR '','') ws)) < 512" using Cons by (simp add: concat_length)
  have "w \<noteq> []" using Cons words_nonempty [of w args] by simp
  then show ?thesis using Cons l comma_loop_rest [of w ws] by (simp add: snprintf_def commas_Cons)
qed simp

text \<open>What a SET command hands to its module: the words behind the password, with commas between them.\<close>

lemma processed_without_password:
  assumes "is_set_command e" and "password_given pw args"
  shows "processed_args e (without_password pw args) = commas (tl (arg_words args))"
proof -
  let ?a = "without_password pw args"
  note W = without_password_words [OF assms(2)]
  show ?thesis
  proof (cases "?a = []")
    case True
    then show ?thesis using W(1) by (simp add: processed_args_def arg_words_def strtok_r_tokens)
  next
    case False
    have "arg_words ?a \<noteq> []" using tok_loop_step [OF W(2) False] W(3) by (simp add: arg_words_def)
    then obtain w ws where "arg_words ?a = w # ws" "w \<noteq> []" using words_nonempty [of _ ?a] by (cases "arg_words ?a") auto
    then have "commas (arg_words ?a) \<noteq> []" by (simp add: commas_Cons)
    then have c: "comma_loop [] (arg_words ?a) = commas (arg_words ?a)" "comma_loop [] (arg_words ?a) \<noteq> []"
      by (simp_all add: comma_loop_words)
    show ?thesis using False assms(1) W(1) c by (simp add: processed_args_def Let_def)
  qed
qed

end
