(* ===== verification/Config_Store.thy ===== *)
theory Config_Store
  imports Module_Registry
begin

text \<open>
  \<open>config/config.c\<close>: the configuration structs of the modules in one file. A struct is its bytes in memory,
  found by the name of its pointer; the default and validation functions of the modules are arguments
  (\<open>config_env\<close>), called by name. The registry of the modules is an argument too: the code only reads it.
\<close>

subsection \<open>State\<close>

record 'w config_env =
  cv_flash :: "'w flash"
  cv_sleep :: "nat \<Rightarrow> 'w \<Rightarrow> 'w"
  cv_defaults :: "string \<Rightarrow> bytes \<Rightarrow> bytes"
  cv_validate :: "string \<Rightarrow> bytes \<Rightarrow> result"

type_synonym config_memory = "string \<Rightarrow> bytes"

record config_store =
  cs_config_initialized :: bool
  cs_file_loaded :: bool
  cs_defaults_initialized :: bool
  cs_memory :: config_memory

type_synonym 'u registry = "'u module option list"

definition CONFIG_FILE_MAGIC :: nat where "CONFIG_FILE_MAGIC = 0x57454346"
definition CONFIG_FILE_VERSION :: nat where "CONFIG_FILE_VERSION = 5"
definition CONFIG_FILE_PATH :: string where "CONFIG_FILE_PATH = ''C:/config/system_config.dat''"
abbreviation (input) MAX_LOAD_RETRIES :: nat where "MAX_LOAD_RETRIES \<equiv> 3"
abbreviation (input) CONFIG_LOAD_RETRY_DELAY_MS :: nat where "CONFIG_LOAD_RETRY_DELAY_MS \<equiv> 100"
abbreviation (input) MODULE_NAME_MAX_SIZE :: nat where "MODULE_NAME_MAX_SIZE \<equiv> 32"
abbreviation (input) CONFIG_HEADER_SIZE :: nat where "CONFIG_HEADER_SIZE \<equiv> 12"

text \<open>The header of the file, as the struct lies in memory.\<close>

record config_file_header =
  ch_magic :: nat
  ch_version :: nat
  ch_entry_count :: nat

definition header_bytes :: "config_file_header \<Rightarrow> bytes" where
  "header_bytes h = le32_bytes (ch_magic h) @ le32_bytes (ch_version h) @ le32_bytes (ch_entry_count h)"

definition header_of_bytes :: "bytes \<Rightarrow> config_file_header" where
  "header_of_bytes bs = \<lparr>ch_magic = le32 bs, ch_version = le32 (drop 4 bs), ch_entry_count = le32 (drop 8 bs)\<rparr>"

subsection \<open>The registry\<close>

definition has_name :: "string \<Rightarrow> 'u module option \<Rightarrow> bool" where
  "has_name name m \<longleftrightarrow> (\<exists>x. m = Some x \<and> mc_name (m_config x) = Some name)"

definition find_module_by_name :: "'u registry \<Rightarrow> string option \<Rightarrow> 'u module option" where
  "find_module_by_name R name =
     (case name of
        None \<Rightarrow> None
      | Some s \<Rightarrow> (case find (has_name s) R of None \<Rightarrow> None | Some m \<Rightarrow> m))"

definition get_module_config_size :: "'u module option \<Rightarrow> nat" where
  "get_module_config_size m =
     (case m of None \<Rightarrow> 0 | Some m \<Rightarrow> if mc_config_ptr (m_config m) = None then 0 else mc_config_size (m_config m))"

text \<open>The guard of the load and save loops: a struct, a validation function, and kept in the file.\<close>

definition stored_module :: "'u module option \<Rightarrow> bool" where
  "stored_module m = (case m of None \<Rightarrow> False
     | Some m \<Rightarrow> mc_config_ptr (m_config m) \<noteq> None \<and> mc_config_validate_fn (m_config m) \<noteq> None \<and> mc_config_stored (m_config m))"

definition config_valid :: "'w config_env \<Rightarrow> config_memory \<Rightarrow> 'u module \<Rightarrow> bool" where
  "config_valid E mem m \<longleftrightarrow>
     cv_validate E (the (mc_config_validate_fn (m_config m))) (mem (the (mc_config_ptr (m_config m)))) = RESULT_SUCCESS"

definition savable :: "'w config_env \<Rightarrow> config_memory \<Rightarrow> 'u module option \<Rightarrow> bool" where
  "savable E mem m \<longleftrightarrow> stored_module m \<and> config_valid E mem (the m)"

definition count_savable_modules :: "'w config_env \<Rightarrow> 'u registry \<Rightarrow> config_memory \<Rightarrow> nat" where
  "count_savable_modules E R mem = length (filter (savable E mem) R)"

subsection \<open>Defaults\<close>

definition set_defaults :: "'w config_env \<Rightarrow> 'u module option \<Rightarrow> config_memory \<Rightarrow> config_memory" where
  "set_defaults E m mem =
     (case m of
        None \<Rightarrow> mem
      | Some m \<Rightarrow>
          case (mc_config_get_defaults_fn (m_config m), mc_config_ptr (m_config m)) of
            (Some f, Some p) \<Rightarrow> mem(p := cv_defaults E f (mem p))
          | _ \<Rightarrow> mem)"

definition initialize_module_defaults :: "'w config_env \<Rightarrow> 'u registry \<Rightarrow> config_store \<Rightarrow> config_store" where
  "initialize_module_defaults E R s =
     (if cs_defaults_initialized s then s
      else s\<lparr>cs_memory := fold (set_defaults E) R (cs_memory s), cs_defaults_initialized := True\<rparr>)"

definition config_init_defaults :: "'w config_env \<Rightarrow> 'u registry \<Rightarrow> config_store \<Rightarrow> config_store" where
  "config_init_defaults E R s = initialize_module_defaults E R s"

subsection \<open>Writing\<close>

text \<open>\<open>write_all\<close>: a write that fails unless it is complete.\<close>

definition write_all :: "'w config_env \<Rightarrow> nat \<Rightarrow> bytes \<Rightarrow> 'w \<Rightarrow> bool \<times> 'w" where
  "write_all E fp d w = (let (ok, n, w) = f_write (cv_flash E) fp d w in (ok \<and> n = length d, w))"

definition write_config_header :: "'w config_env \<Rightarrow> nat \<Rightarrow> nat \<Rightarrow> 'w \<Rightarrow> result \<times> 'w" where
  "write_config_header E fp module_count w =
     (let (ok, w) = write_all E fp (header_bytes \<lparr>ch_magic = CONFIG_FILE_MAGIC, ch_version = CONFIG_FILE_VERSION,
            ch_entry_count = module_count\<rparr>) w
      in (if ok then RESULT_SUCCESS else RESULT_ERROR, w))"

definition write_module_entry :: "'w config_env \<Rightarrow> nat \<Rightarrow> config_memory \<Rightarrow> 'u module \<Rightarrow> 'w \<Rightarrow> result \<times> 'w" where
  "write_module_entry E fp mem m w =
     (case (mc_config_ptr (m_config m), mc_name (m_config m)) of
        (Some p, Some name) \<Rightarrow>
          let config_size = get_module_config_size (Some m) in
          if config_size = 0 then (RESULT_SUCCESS, w)
          else
            let (n, buf) = utils_strncpy_safe (Some (replicate MODULE_NAME_MAX_SIZE NUL)) (Some name) MODULE_NAME_MAX_SIZE in
            if n < 0 then (RESULT_ERROR, w)
            else
              let (ok, w) = write_all E fp (map byte_of_char (the buf)) w in
              if \<not> ok then (RESULT_ERROR, w)
              else let (ok, w) = write_all E fp (le32_bytes (u32 config_size)) w in
                if \<not> ok then (RESULT_ERROR, w)
                else let (ok, w) = write_all E fp (take config_size (mem p)) w in
                  if \<not> ok then (RESULT_ERROR, w) else (RESULT_SUCCESS, w)
      | _ \<Rightarrow> (RESULT_INVALID_PARAM, w))"

fun write_entries :: "'w config_env \<Rightarrow> nat \<Rightarrow> config_memory \<Rightarrow> 'u registry \<Rightarrow> 'w \<Rightarrow> bool \<times> 'w" where
  "write_entries E fp mem [] w = (True, w)"
| "write_entries E fp mem (m # R) w =
     (if \<not> stored_module m then write_entries E fp mem R w
      else if \<not> config_valid E mem (the m) then write_entries E fp mem R w
      else let (r, w) = write_module_entry E fp mem (the m) w in
        if r = RESULT_SUCCESS then write_entries E fp mem R w else (False, w))"

definition config_save_to_file ::
    "'w config_env \<Rightarrow> 'u registry \<Rightarrow> string option \<Rightarrow> config_store \<Rightarrow> 'w \<Rightarrow> result \<times> 'w" where
  "config_save_to_file E R config_file_path s w =
     (let module_count = count_savable_modules E R (cs_memory s) in
      if module_count = 0 then (RESULT_SUCCESS, w)
      else
        let file_path = (case config_file_path of None \<Rightarrow> CONFIG_FILE_PATH | Some p \<Rightarrow> p);
            (h, w) = f_open (cv_flash E) file_path ''wb'' w
        in case h of
          None \<Rightarrow> (RESULT_ERROR, w)
        | Some fp \<Rightarrow>
            let (r, w) = write_config_header E fp module_count w in
            if r \<noteq> RESULT_SUCCESS then (RESULT_ERROR, snd (f_close (cv_flash E) fp w))
            else
              let (ok, w) = write_entries E fp (cs_memory s) R w in
              if \<not> ok then (RESULT_ERROR, snd (f_close (cv_flash E) fp w))
              else (RESULT_SUCCESS, snd (f_close (cv_flash E) fp (snd (f_sync (cv_flash E) fp w)))))"

subsection \<open>Reading\<close>

text \<open>\<open>read_config_header\<close> with the attempts left: the file is closed and opened again between two of them.
  The caller keeps the handle it passed.\<close>

fun read_config_header :: "'w config_env \<Rightarrow> string \<Rightarrow> nat \<Rightarrow> nat \<Rightarrow> 'w \<Rightarrow> config_file_header option \<times> 'w" where
  "read_config_header E path 0 fp w = (None, w)"
| "read_config_header E path (Suc n) fp w =
     (let (ok, bs, w) = f_read (cv_flash E) fp CONFIG_HEADER_SIZE w in
      if ok \<and> length bs = CONFIG_HEADER_SIZE then (Some (header_of_bytes bs), w)
      else if n = 0 then (None, w)
      else
        let w = cv_sleep E CONFIG_LOAD_RETRY_DELAY_MS (snd (f_close (cv_flash E) fp w));
            (h, w) = f_open (cv_flash E) path ''rb'' w
        in case h of None \<Rightarrow> (None, w) | Some fp \<Rightarrow> read_config_header E path n fp w)"

text \<open>The name buffer and the size of an entry. A name without terminator is taken as its 32 characters (the C
  code would read on).\<close>

definition read_config_entry :: "'w config_env \<Rightarrow> nat \<Rightarrow> 'w \<Rightarrow> (string \<times> nat) option \<times> 'w" where
  "read_config_entry E fp w =
     (let (ok, nm, w) = f_read (cv_flash E) fp MODULE_NAME_MAX_SIZE w in
      if \<not> ok \<or> length nm \<noteq> MODULE_NAME_MAX_SIZE then (None, w)
      else let (ok, sz, w) = f_read (cv_flash E) fp 4 w in
        if \<not> ok \<or> length sz \<noteq> 4 then (None, w)
        else (Some (c_str (map char_of_byte nm), le32 sz), w))"

definition load_module_config ::
    "'w config_env \<Rightarrow> nat \<Rightarrow> 'u module \<Rightarrow> nat \<Rightarrow> config_memory \<Rightarrow> 'w \<Rightarrow> result \<times> config_memory \<times> 'w" where
  "load_module_config E fp m file_config_size mem w =
     (case mc_config_ptr (m_config m) of
        None \<Rightarrow> (RESULT_INVALID_PARAM, mem, w)
      | Some p \<Rightarrow>
          let expected_size = get_module_config_size (Some m);
              mem = set_defaults E (Some m) mem;
              load_size = (if file_config_size < expected_size then file_config_size else expected_size);
              (ok, bs, w) = f_read (cv_flash E) fp load_size w;
              mem = mem(p := write_at (mem p) 0 bs);
              skip = (\<lambda>w. if file_config_size > load_size
                          then snd (f_seek_cur (cv_flash E) fp (file_config_size - load_size) w) else w)
          in if \<not> ok \<or> length bs \<noteq> load_size then (RESULT_ERROR, mem, skip w)
             else
               let w = skip w in
               if mc_config_validate_fn (m_config m) \<noteq> None \<and> \<not> config_valid E mem m
               then (RESULT_ERROR, set_defaults E (Some m) mem, w)
               else (RESULT_SUCCESS, mem, w))"

text \<open>The loop over the entries: was a config updated, is the file corrupted, and the memory.\<close>

fun load_entries ::
    "'w config_env \<Rightarrow> 'u registry \<Rightarrow> nat \<Rightarrow> nat \<Rightarrow> bool \<Rightarrow> config_memory \<Rightarrow> 'w \<Rightarrow> bool \<times> bool \<times> config_memory \<times> 'w" where
  "load_entries E R fp 0 upd mem w = (upd, False, mem, w)"
| "load_entries E R fp (Suc n) upd mem w =
     (let (entry, w) = read_config_entry E fp w in
      case entry of
        None \<Rightarrow> (upd, True, mem, w)
      | Some (name, config_size) \<Rightarrow>
          let m = find_module_by_name R (Some name) in
          if \<not> stored_module m
          then load_entries E R fp n upd mem (snd (f_seek_cur (cv_flash E) fp config_size w))
          else
            let (r, mem, w) = load_module_config E fp (the m) config_size mem w in
            load_entries E R fp n (upd \<or> (r \<noteq> RESULT_SUCCESS \<and> config_size > get_module_config_size m)) mem w)"

text \<open>\<open>config_load_from_file\<close> from the check of the header on, with the defaults in place.\<close>

definition config_load_body ::
    "'w config_env \<Rightarrow> 'u registry \<Rightarrow> string \<Rightarrow> nat \<Rightarrow> config_file_header \<Rightarrow> config_store \<Rightarrow> 'w \<Rightarrow> result \<times> config_store \<times> 'w" where
  "config_load_body E R file_path fp header s w =
     (let loaded = s\<lparr>cs_file_loaded := True\<rparr> in
      if ch_magic header \<noteq> CONFIG_FILE_MAGIC then (RESULT_SUCCESS, loaded, snd (f_close (cv_flash E) fp w))
      else if ch_version header \<noteq> CONFIG_FILE_VERSION then
        let w = snd (f_close (cv_flash E) fp w); w = snd (f_delete (cv_flash E) file_path w)
        in (RESULT_SUCCESS, loaded, snd (config_save_to_file E R (Some file_path) s w))
      else
        let (upd, corrupted, mem, w) = load_entries E R fp (ch_entry_count header) False (cs_memory s) w;
            w = snd (f_close (cv_flash E) fp w);
            loaded = loaded\<lparr>cs_memory := mem\<rparr>
        in (RESULT_SUCCESS, loaded,
            if upd \<or> corrupted then snd (config_save_to_file E R (Some file_path) loaded w) else w))"

definition config_load_from_file ::
    "'w config_env \<Rightarrow> 'u registry \<Rightarrow> string option \<Rightarrow> config_store \<Rightarrow> 'w \<Rightarrow> result \<times> config_store \<times> 'w" where
  "config_load_from_file E R config_file_path s w =
     (if cs_file_loaded s then (RESULT_SUCCESS, s, w)
      else
        let s = config_init_defaults E R s;
            file_path = (case config_file_path of None \<Rightarrow> CONFIG_FILE_PATH | Some p \<Rightarrow> p);
            loaded = s\<lparr>cs_file_loaded := True\<rparr>;
            (h, w) = f_open (cv_flash E) file_path ''rb'' w
        in case h of
          None \<Rightarrow> (RESULT_SUCCESS, loaded, snd (config_save_to_file E R (Some file_path) s w))
        | Some fp \<Rightarrow>
            let (header, w) = read_config_header E file_path MAX_LOAD_RETRIES fp w in
            case header of
              None \<Rightarrow> (RESULT_SUCCESS, loaded, snd (f_close (cv_flash E) fp w))
            | Some hdr \<Rightarrow> config_load_body E R file_path fp hdr s w)"

subsection \<open>Access\<close>

definition config_validate :: "'w config_env \<Rightarrow> 'u registry \<Rightarrow> config_store \<Rightarrow> result" where
  "config_validate E R s =
     (if list_all (\<lambda>m. case m of None \<Rightarrow> True
          | Some m \<Rightarrow> mc_config_validate_fn (m_config m) = None \<or> mc_config_ptr (m_config m) = None \<or> config_valid E (cs_memory s) m) R
      then RESULT_SUCCESS else RESULT_INVALID_PARAM)"

definition config_get_module_config :: "'u registry \<Rightarrow> string option \<Rightarrow> string option" where
  "config_get_module_config R module_name =
     (case find_module_by_name R module_name of None \<Rightarrow> None | Some m \<Rightarrow> mc_config_ptr (m_config m))"

definition config_get_module_config_mutable :: "'u registry \<Rightarrow> string option \<Rightarrow> string option" where
  "config_get_module_config_mutable R module_name =
     (case find_module_by_name R module_name of None \<Rightarrow> None | Some m \<Rightarrow> mc_config_ptr (m_config m))"

definition config_get_current :: "'w config_env \<Rightarrow> 'u registry \<Rightarrow> config_store \<Rightarrow> 'w \<Rightarrow> config_store \<times> 'w" where
  "config_get_current E R s w =
     (if cs_config_initialized s then (s, w)
      else let (_, s, w) = config_load_from_file E R None s w in (s\<lparr>cs_config_initialized := True\<rparr>, w))"

subsection \<open>Writing: the file that is left\<close>

named_theorems config_simps \<open>the file of the configuration store\<close>

definition name_field :: "string \<Rightarrow> bytes" where
  "name_field s = map byte_of_char (the (snd (utils_strncpy_safe (Some (replicate MODULE_NAME_MAX_SIZE NUL)) (Some s) MODULE_NAME_MAX_SIZE)))"

definition entry_bytes :: "config_memory \<Rightarrow> 'u module option \<Rightarrow> bytes" where
  "entry_bytes mem m = name_field (the (mc_name (m_config (the m)))) @ le32_bytes (u32 (get_module_config_size m)) @
     take (get_module_config_size m) (mem (the (mc_config_ptr (m_config (the m)))))"

text \<open>A module that can be kept: a name that fits, and a struct of the size in the table.\<close>

definition module_ok :: "config_memory \<Rightarrow> 'u module option \<Rightarrow> bool" where
  "module_ok mem m \<longleftrightarrow> (\<exists>x s p. m = Some x \<and> mc_name (m_config x) = Some s \<and> NUL \<notin> set s \<and> length s < MODULE_NAME_MAX_SIZE \<and>
     mc_config_ptr (m_config x) = Some p \<and> 0 < mc_config_size (m_config x) \<and> mc_config_size (m_config x) < 2 ^ 32 \<and>
     length (mem p) = mc_config_size (m_config x))"

lemma name_field:
  assumes "NUL \<notin> set s" and "length s < 32"
  shows "length (name_field s) = 32" and "c_str (map char_of_byte (name_field s)) = s"
    and "0 \<le> fst (utils_strncpy_safe (Some (replicate 32 NUL)) (Some s) 32)"
proof -
  have b: "snd (utils_strncpy_safe (Some (replicate 32 NUL)) (Some s) 32) = Some (write_at (replicate 32 NUL) 0 (c_strncpy s 31 @ [NUL]))"
    by (simp add: utils_strncpy_safe_def Let_def)
  show "length (name_field s) = 32" unfolding name_field_def b by (simp add: write_at_def c_strncpy_def)
  show "c_str (map char_of_byte (name_field s)) = s"
    using assms unfolding name_field_def b by (simp add: comp_def write_at_def c_strncpy_NUL c_str_append_NUL)
  show "0 \<le> fst (utils_strncpy_safe (Some (replicate 32 NUL)) (Some s) 32)"
    by (simp add: utils_strncpy_safe_def Let_def)
qed

lemma length_header [simp]: "length (header_bytes h) = 12"
  by (simp add: header_bytes_def)

lemma header_roundtrip:
  assumes "ch_magic h < 4294967296" and "ch_version h < 4294967296" and "ch_entry_count h < 4294967296"
  shows "header_of_bytes (header_bytes h) = h"
  using assms le32_le32_bytes [of "ch_entry_count h" "[]"]
  by (simp add: header_of_bytes_def header_bytes_def bytes_simps)

lemma write_all_append:
  assumes "flash_laws F C H" and "flash_reliable F C H" and "cv_flash E = F" and "C w p = Some c" and "H w h = Some (p, length c, False)"
  shows "\<exists>w'. write_all E h d w = (True, w') \<and> C w' p = Some (c @ d) \<and> H w' h = Some (p, length (c @ d), False)"
proof -
  obtain w' where w: "f_write F h d w = (True, length d, w')" using reliable_write [OF assms(2), of w h d] assms(5) by auto
  then show ?thesis using write_spec(2) [OF assms(1) w assms(5,4)] assms(3) by (simp add: write_all_def)
qed

lemma write_entry_append:
  assumes F: "flash_laws F C H" "flash_reliable F C H" "cv_flash E = F" and ok: "module_ok mem (Some m)"
    and w: "C w p = Some c" "H w h = Some (p, length c, False)"
  shows "\<exists>w'. write_module_entry E h mem m w = (RESULT_SUCCESS, w') \<and> C w' p = Some (c @ entry_bytes mem (Some m)) \<and>
    H w' h = Some (p, length (c @ entry_bytes mem (Some m)), False)"
proof -
  obtain s q where m: "mc_name (m_config m) = Some s" "NUL \<notin> set s" "length s < 32" "mc_config_ptr (m_config m) = Some q"
    "0 < mc_config_size (m_config m)" "length (mem q) = mc_config_size (m_config m)"
    using ok by (auto simp: module_ok_def)
  let ?n = "mc_config_size (m_config m)"
  obtain w1 where w1: "write_all E h (name_field s) w = (True, w1)" "C w1 p = Some (c @ name_field s)"
      "H w1 h = Some (p, length (c @ name_field s), False)"
    using write_all_append [OF F w] by blast
  obtain w2 where w2: "write_all E h (le32_bytes (u32 ?n)) w1 = (True, w2)" "C w2 p = Some ((c @ name_field s) @ le32_bytes (u32 ?n))"
      "H w2 h = Some (p, length ((c @ name_field s) @ le32_bytes (u32 ?n)), False)"
    using write_all_append [OF F w1(2,3)] by blast
  obtain w3 where w3: "write_all E h (take ?n (mem q)) w2 = (True, w3)"
      "C w3 p = Some (((c @ name_field s) @ le32_bytes (u32 ?n)) @ take ?n (mem q))"
      "H w3 h = Some (p, length (((c @ name_field s) @ le32_bytes (u32 ?n)) @ take ?n (mem q)), False)"
    using write_all_append [OF F w2(2,3)] by blast
  have sz: "get_module_config_size (Some m) = ?n" using m by (simp add: get_module_config_size_def)
  obtain k buf where nb: "utils_strncpy_safe (Some (replicate 32 NUL)) (Some s) 32 = (k, buf)" by fastforce
  have nf: "name_field s = map byte_of_char (the buf)" "0 \<le> k" using name_field(3) [OF m(2,3)] nb by (simp_all add: name_field_def)
  show ?thesis
    using m(1,4,5) w1(1) w2(1) w3 nf
    by (simp add: write_module_entry_def sz nb entry_bytes_def Let_def)
qed

lemma write_entries_append:
  assumes F: "flash_laws F C H" "flash_reliable F C H" "cv_flash E = F"
    and ok: "\<forall>m \<in> set R. stored_module m \<longrightarrow> module_ok mem m"
    and w: "C w p = Some c" "H w h = Some (p, length c, False)"
  shows "\<exists>w'. write_entries E h mem R w = (True, w') \<and>
    C w' p = Some (c @ concat (map (entry_bytes mem) (filter (savable E mem) R)))"
  using ok w
proof (induction R arbitrary: w c)
  case (Cons m R)
  show ?case
  proof (cases "savable E mem m")
    case False
    then show ?thesis using Cons by (auto simp: savable_def)
  next
    case True
    then obtain x where x: "m = Some x" by (cases m) (simp_all add: savable_def stored_module_def)
    have "module_ok mem (Some x)" using Cons.prems(1) True x by (simp add: savable_def)
    from write_entry_append [OF F this Cons.prems(2,3)]
    obtain w1 where w1: "write_module_entry E h mem x w = (RESULT_SUCCESS, w1)" "C w1 p = Some (c @ entry_bytes mem m)"
      "H w1 h = Some (p, length (c @ entry_bytes mem m), False)"
      using x by blast
    then show ?thesis using Cons.IH [OF _ w1(2,3)] Cons.prems(1) True x by (auto simp: savable_def)
  qed
qed simp

definition file_path :: "string option \<Rightarrow> string" where
  "file_path p = (case p of None \<Rightarrow> CONFIG_FILE_PATH | Some q \<Rightarrow> q)"

definition config_file :: "'w config_env \<Rightarrow> 'u registry \<Rightarrow> config_memory \<Rightarrow> bytes" where
  "config_file E R mem = header_bytes \<lparr>ch_magic = CONFIG_FILE_MAGIC, ch_version = CONFIG_FILE_VERSION,
     ch_entry_count = count_savable_modules E R mem\<rparr> @ concat (map (entry_bytes mem) (filter (savable E mem) R))"

lemma save_leaves:
  assumes F: "flash_laws F C H" "flash_reliable F C H" "cv_flash E = F"
    and ok: "\<forall>m \<in> set R. stored_module m \<longrightarrow> module_ok (cs_memory s) m" and n: "count_savable_modules E R (cs_memory s) \<noteq> 0"
  shows "\<exists>w'. config_save_to_file E R path s w = (RESULT_SUCCESS, w') \<and> C w' (file_path path) = Some (config_file E R (cs_memory s))"
proof -
  let ?p = "file_path path"
  obtain h w1 where w1: "f_open F ?p ''wb'' w = (Some h, w1)" using reliable_open [OF F(2), of "''wb''" w ?p] by auto
  have o: "C w1 ?p = Some []" "H w1 h = Some (?p, length ([] :: bytes), False)" using open_wb(2) [OF F(1) w1] by simp_all
  let ?hb = "header_bytes \<lparr>ch_magic = CONFIG_FILE_MAGIC, ch_version = CONFIG_FILE_VERSION, ch_entry_count = count_savable_modules E R (cs_memory s)\<rparr>"
  obtain w2 where w2: "write_all E h ?hb w1 = (True, w2)" "C w2 ?p = Some ([] @ ?hb)" "H w2 h = Some (?p, length ([] @ ?hb), False)"
    using write_all_append [OF F o] by blast
  obtain w3 where w3: "write_entries E h (cs_memory s) R w2 = (True, w3)" "C w3 ?p = Some (([] @ ?hb) @ concat (map (entry_bytes (cs_memory s)) (filter (savable E (cs_memory s)) R)))"
    using write_entries_append [OF F ok w2(2,3)] by blast
  show ?thesis
    using w1 w2(1) w3 n F(3) close_C [OF F(1)] sync_C [OF F(1)]
    by (simp add: config_save_to_file_def file_path_def [symmetric] write_config_header_def Let_def config_file_def)
qed

subsection \<open>Reading it back\<close>

definition ptr_of :: "'u module option \<Rightarrow> string" where
  "ptr_of m = the (mc_config_ptr (m_config (the m)))"

text \<open>No two modules share a name, and no two stored modules a struct.\<close>

definition registry_ok :: "'u registry \<Rightarrow> bool" where
  "registry_ok R \<longleftrightarrow>
     (\<forall>m \<in> set R. \<forall>m' \<in> set R. \<forall>s. has_name s m \<and> has_name s m' \<longrightarrow> m = m') \<and>
     distinct (map ptr_of (filter stored_module R))"

lemma savable_stored: "filter (savable E mem) R = filter (\<lambda>m. config_valid E mem (the m)) (filter stored_module R)"
  by (induction R) (auto simp: savable_def)

lemma same_struct:
  "registry_ok R \<Longrightarrow> m \<in> set R \<Longrightarrow> stored_module m \<Longrightarrow> m' \<in> set R \<Longrightarrow> stored_module m' \<Longrightarrow> ptr_of m = ptr_of m' \<Longrightarrow> m = m'"
  unfolding registry_ok_def distinct_map inj_on_def by auto

lemma find_registered:
  assumes "registry_ok R" and "m \<in> set R" and "has_name s m"
  shows "find_module_by_name R (Some s) = m"
proof -
  obtain m' where f: "find (has_name s) R = Some m'" using assms(2,3) by (cases "find (has_name s) R") (auto simp: find_None_iff)
  then have "m' \<in> set R" "has_name s m'" by (auto simp: find_Some_iff)
  then show ?thesis using assms f unfolding registry_ok_def by (simp add: find_module_by_name_def) blast
qed

lemma read_entry_back:
  assumes F: "flash_laws F C H" "flash_reliable F C H" "cv_flash E = F"
    and w: "C w p = Some (pre @ nm @ le32_bytes n @ rest)" "H w h = Some (p, length pre, a)" and l: "length nm = 32" "n < 4294967296"
  shows "\<exists>w'. read_config_entry E h w = (Some (c_str (map char_of_byte nm), n), w') \<and> C w' = C w \<and> H w' h = Some (p, length pre + 36, a)"
proof -
  obtain w1 where r1: "f_read F h 32 w = (True, nm, w1)" "C w1 = C w" "H w1 h = Some (p, length pre + 32, a)"
    using reliable_read [OF F(1,2) w(2,1), of 32] l(1) by auto
  obtain w2 where r2: "f_read F h 4 w1 = (True, le32_bytes n, w2)" "C w2 = C w1" "H w2 h = Some (p, length pre + 36, a)"
    using reliable_read [OF F(1,2) r1(3), of _ 4] r1(2) w(1) l(1) by auto
  show ?thesis using r1 r2 l F(3) le32_le32_bytes [OF l(2), of "[]"] by (simp add: read_config_entry_def)
qed

lemma length_set_defaults:
  "(\<forall>f b. length (cv_defaults E f b) = length b) \<Longrightarrow> length (set_defaults E m mem p) = length (mem p)"
  by (auto simp: set_defaults_def split: option.split)

lemma set_defaults_other:
  "mc_config_ptr (m_config m) = Some q \<Longrightarrow> p \<noteq> q \<Longrightarrow> set_defaults E (Some m) mem p = mem p"
  by (auto simp: set_defaults_def split: option.split)

lemma load_back:
  assumes F: "flash_laws F C H" "flash_reliable F C H" "cv_flash E = F" and keep: "\<forall>f b. length (cv_defaults E f b) = length b"
    and m: "mc_config_ptr (m_config m) = Some q" "length d = mc_config_size (m_config m)" "length (mem q) = length d"
    and v: "cv_validate E (the (mc_config_validate_fn (m_config m))) d = RESULT_SUCCESS"
    and w: "C w p = Some (pre @ d @ rest)" "H w h = Some (p, length pre, a)"
  shows "\<exists>w' mem'. load_module_config E h m (length d) mem w = (RESULT_SUCCESS, mem', w') \<and> C w' = C w \<and>
    H w' h = Some (p, length pre + length d, a) \<and> mem' = mem(q := d)"
proof -
  obtain w1 where r: "f_read F h (length d) w = (True, d, w1)" "C w1 = C w" "H w1 h = Some (p, length pre + length d, a)"
    using reliable_read [OF F(1,2) w(2,1), of "length d"] by auto
  have sz: "get_module_config_size (Some m) = length d" using m by (simp add: get_module_config_size_def)
  have "length (set_defaults E (Some m) mem q) = length d" using length_set_defaults [OF keep] m(3) by metis
  then have wr: "write_at (set_defaults E (Some m) mem q) 0 d = d" by (simp add: write_at_def)
  have mm: "(set_defaults E (Some m) mem)(q := d) = mem(q := d)"
    by (rule ext) (simp add: set_defaults_other [OF m(1)])
  have "config_valid E (mem(q := d)) m" using v m(1) by (simp add: config_valid_def)
  then have "load_module_config E h m (length d) mem w = (RESULT_SUCCESS, mem(q := d), w1)"
    unfolding load_module_config_def m(1) option.case Let_def sz F(3) less_irrefl if_False by (simp add: r(1) wr mm)
  then show ?thesis using r(2,3) by blast
qed

lemma load_entries_back:
  assumes F: "flash_laws F C H" "flash_reliable F C H" "cv_flash E = F" and keep: "\<forall>f b. length (cv_defaults E f b) = length b"
    and R: "registry_ok R" and ms: "\<forall>m \<in> set ms. m \<in> set R \<and> savable E mem m \<and> module_ok mem m" "distinct (map ptr_of ms)"
    and mem: "\<forall>m \<in> set ms. length (mem1 (ptr_of m)) = length (mem (ptr_of m))"
    and w: "C w p = Some (pre @ concat (map (entry_bytes mem) ms) @ rest)" "H w h = Some (p, length pre, a)"
  shows "\<exists>w' mem2. load_entries E R h (length ms + n) upd mem1 w = load_entries E R h n upd mem2 w' \<and> C w' = C w \<and>
    H w' h = Some (p, length pre + length (concat (map (entry_bytes mem) ms)), a) \<and>
    (\<forall>q. mem2 q = (if q \<in> ptr_of ` set ms then mem q else mem1 q))"
  using ms mem w
proof (induction ms arbitrary: pre w mem1)
  case (Cons m ms)
  from Cons.prems(1) have sv: "savable E mem m" "m \<in> set R" and ok: "module_ok mem m" by simp_all
  then obtain x s q where x: "m = Some x" "mc_name (m_config x) = Some s" "NUL \<notin> set s" "length s < 32"
    "mc_config_ptr (m_config x) = Some q" "0 < mc_config_size (m_config x)" "mc_config_size (m_config x) < 2 ^ 32"
    "length (mem q) = mc_config_size (m_config x)" by (auto simp: module_ok_def)
  have q: "ptr_of m = q" using x by (simp add: ptr_of_def)
  let ?n = "mc_config_size (m_config x)"
  have eb: "entry_bytes mem m = name_field s @ le32_bytes ?n @ mem q"
    using x by (simp add: entry_bytes_def get_module_config_size_def)
  let ?rest = "concat (map (entry_bytes mem) ms) @ rest"
  have lt: "?n < 4294967296" using x(7) by simp
  have c: "C w p = Some (pre @ name_field s @ le32_bytes ?n @ mem q @ ?rest)" using Cons.prems(4) eb by simp
  obtain w1 where w1: "read_config_entry E h w = (Some (s, ?n), w1)" "C w1 = C w" "H w1 h = Some (p, length pre + 36, a)"
    using read_entry_back [OF F c Cons.prems(5) name_field(1) [OF x(3,4)] lt] name_field(2) [OF x(3,4)] by auto
  have fnd: "find_module_by_name R (Some s) = m"
    by (rule find_registered [OF R sv(2)]) (simp add: has_name_def x)
  let ?pre = "pre @ name_field s @ le32_bytes ?n"
  have c1: "C w1 p = Some (?pre @ mem q @ ?rest)" "H w1 h = Some (p, length ?pre, a)"
    using w1(2,3) c name_field(1) [OF x(3,4)] by simp_all
  have v: "cv_validate E (the (mc_config_validate_fn (m_config x))) (mem q) = RESULT_SUCCESS" and st: "stored_module m"
    using sv(1) x by (simp_all add: savable_def config_valid_def)
  have l1: "length (mem1 q) = length (mem q)" using Cons.prems(3) q by simp
  obtain w2 where w2: "load_module_config E h x (length (mem q)) mem1 w1 = (RESULT_SUCCESS, mem1(q := mem q), w2)"
      "C w2 = C w1" "H w2 h = Some (p, length ?pre + length (mem q), a)"
    using load_back [where mem = mem1 and q = q, OF F keep x(5) x(8) l1 v c1] by auto
  have nin: "q \<notin> ptr_of ` set ms" using Cons.prems(2) q by auto
  have c2: "C w2 p = Some ((?pre @ mem q) @ ?rest)" "H w2 h = Some (p, length (?pre @ mem q), a)" using w2(2,3) c1 by simp_all
  have mem': "\<forall>m \<in> set ms. length ((mem1(q := mem q)) (ptr_of m)) = length (mem (ptr_of m))" using Cons.prems(3) by simp
  have rest: "\<forall>m \<in> set ms. m \<in> set R \<and> savable E mem m \<and> module_ok mem m" "distinct (map ptr_of ms)" using Cons.prems(1,2) by simp_all
  obtain w3 mem2 where w3: "load_entries E R h (length ms + n) upd (mem1(q := mem q)) w2 = load_entries E R h n upd mem2 w3" "C w3 = C w2"
      "H w3 h = Some (p, length (?pre @ mem q) + length (concat (map (entry_bytes mem) ms)), a)"
      "\<forall>r. mem2 r = (if r \<in> ptr_of ` set ms then mem r else (mem1(q := mem q)) r)"
    using Cons.IH [OF rest mem' c2] by blast
  have "load_entries E R h (length (m # ms) + n) upd mem1 w = load_entries E R h n upd mem2 w3"
    using w1(1) w2(1) w3(1) st x(1) x(8) fnd by (simp add: Let_def)
  moreover have "H w3 h = Some (p, length pre + length (concat (map (entry_bytes mem) (m # ms))), a)"
    using w3(3) eb by (simp add: add.assoc)
  moreover have "C w3 = C w" using w1(2) w2(2) w3(2) by simp
  moreover have "\<forall>r. mem2 r = (if r \<in> ptr_of ` set (m # ms) then mem r else mem1 r)" using w3(4) q nin by simp
  ultimately show ?case by blast
qed auto

lemma fold_defaults_length:
  "(\<forall>f b. length (cv_defaults E f b) = length b) \<Longrightarrow> length (fold (set_defaults E) R mem p) = length (mem p)"
  by (induction R arbitrary: mem) (simp_all add: length_set_defaults)

lemma length_init_defaults:
  "(\<forall>f b. length (cv_defaults E f b) = length b) \<Longrightarrow> length (cs_memory (config_init_defaults E R s) p) = length (cs_memory s p)"
  by (simp add: config_init_defaults_def initialize_module_defaults_def fold_defaults_length)

text \<open>A header that reads back, up to the loop over the entries.\<close>

lemma load_opens:
  assumes F: "flash_laws F C H" "flash_reliable F C H" "cv_flash E = F" and boot: "\<not> cs_file_loaded s"
    and w: "C w (file_path path) = Some (header_bytes h @ body)"
    and hdr: "ch_magic h < 4294967296" "ch_version h < 4294967296" "ch_entry_count h < 4294967296"
  shows "\<exists>fp w2. C w2 = C w \<and> H w2 fp = Some (file_path path, length (header_bytes h), False) \<and>
    config_load_from_file E R path s w =
      config_load_body E R (file_path path) fp h (config_init_defaults E R s) w2"
proof -
  let ?p = "file_path path"
  obtain fp w1 where w1: "f_open F ?p ''rb'' w = (Some fp, w1)" using reliable_open [OF F(2), of "''rb''" w ?p] w by auto
  have o: "C w1 = C w" "H w1 fp = Some (?p, 0, False)" using open_rb [OF F(1) w1] by auto
  have c1: "C w1 ?p = Some (header_bytes h @ body)" using o(1) w by simp
  obtain w2 where w2: "f_read F fp 12 w1 = (True, header_bytes h, w2)" "C w2 = C w1" "H w2 fp = Some (?p, length (header_bytes h), False)"
    using reliable_read [OF F(1,2) o(2) c1, of 12] by auto
  have rh: "read_config_header E ?p 3 fp w1 = (Some h, w2)"
    using w2(1) F(3) header_roundtrip [OF hdr] by (simp add: numeral_3_eq_3)
  have "config_load_from_file E R path s w =
      config_load_body E R (file_path path) fp h (config_init_defaults E R s) w2"
    using boot w1 rh F(3) by (simp add: config_load_from_file_def file_path_def [symmetric] Let_def)
  then show ?thesis using o(1) w2(2,3) by auto
qed

lemma file_header_bounds:
  fixes R :: "'u registry" and E :: "'w config_env" and mem :: config_memory
  assumes "length R < 2 ^ 32"
  defines "h \<equiv> \<lparr>ch_magic = CONFIG_FILE_MAGIC, ch_version = CONFIG_FILE_VERSION, ch_entry_count = count_savable_modules E R mem\<rparr>"
  shows "ch_magic h < 4294967296" "ch_version h < 4294967296" "ch_entry_count h < 4294967296"
  using assms(1) le_less_trans [OF length_filter_le [of "savable E mem" R]]
  by (simp_all add: h_def CONFIG_FILE_MAGIC_def CONFIG_FILE_VERSION_def count_savable_modules_def)

lemma load_reads:
  assumes F: "flash_laws F C H" "flash_reliable F C H" "cv_flash E = F" and keep: "\<forall>f b. length (cv_defaults E f b) = length b"
    and R: "registry_ok R" "length R < 2 ^ 32" and ok: "\<forall>m \<in> set R. stored_module m \<longrightarrow> module_ok mem m"
    and boot: "\<not> cs_file_loaded s" and sizes: "\<forall>m \<in> set R. stored_module m \<longrightarrow> length (cs_memory s (ptr_of m)) = length (mem (ptr_of m))"
    and w: "C w (file_path path) = Some (config_file E R mem)"
  shows "\<exists>s' w'. config_load_from_file E R path s w = (RESULT_SUCCESS, s', w') \<and> C w' = C w \<and> cs_file_loaded s' \<and>
    (\<forall>q. cs_memory s' q = (if q \<in> ptr_of ` set (filter (savable E mem) R) then mem q else cs_memory (config_init_defaults E R s) q))"
proof -
  let ?p = "file_path path" and ?ms = "filter (savable E mem) R" and ?s = "config_init_defaults E R s"
  let ?h = "\<lparr>ch_magic = CONFIG_FILE_MAGIC, ch_version = CONFIG_FILE_VERSION, ch_entry_count = count_savable_modules E R mem\<rparr>"
  have c1: "C w ?p = Some (header_bytes ?h @ concat (map (entry_bytes mem) ?ms))" using w by (simp add: config_file_def)
  note hb = file_header_bounds [OF R(2), of E mem]
  obtain h w2 where w2: "C w2 = C w" "H w2 h = Some (?p, length (header_bytes ?h), False)"
    "config_load_from_file E R path s w = config_load_body E R ?p h ?h ?s w2"
    using load_opens [OF F boot c1 hb] by blast
  have ms: "\<forall>m \<in> set ?ms. m \<in> set R \<and> savable E mem m \<and> module_ok mem m" using ok by (auto simp: savable_def)
  have d: "distinct (map ptr_of ?ms)"
    using R(1) unfolding savable_stored registry_ok_def by (simp only: distinct_map_filter)
  have sz: "\<forall>m \<in> set ?ms. length (cs_memory ?s (ptr_of m)) = length (mem (ptr_of m))"
    using sizes by (simp add: length_init_defaults [OF keep] savable_def)
  have c2: "C w2 ?p = Some (header_bytes ?h @ concat (map (entry_bytes mem) ?ms) @ [])" using w2(1) c1 by simp
  obtain w3 mem2 where l: "load_entries E R h (length ?ms) False (cs_memory ?s) w2 = (False, False, mem2, w3)" "C w3 = C w2"
    "\<forall>q. mem2 q = (if q \<in> ptr_of ` set ?ms then mem q else cs_memory ?s q)"
    using load_entries_back [OF F keep R(1) ms d sz c2 w2(2), of 0] by (simp only: add_0_right load_entries.simps) blast
  show ?thesis
    using w2 l F(3) close_C [OF F(1)]
    by (simp add: config_load_body_def count_savable_modules_def Let_def)
qed

text \<open>C11: the configuration survives a restart. On a flash that works, with a registry whose names and structs are
  distinct, \<open>config_save_to_file\<close> succeeds, and after a restart \<open>config_load_from_file\<close> on the same
  file gives every stored module whose configuration was valid exactly the bytes it had, and every other struct the
  value of its defaults; the file is left as it was.\<close>

theorem config_survives_restart:
  assumes "flash_laws F C H" and "flash_reliable F C H" and "cv_flash E = F"
    and "\<forall>f b. length (cv_defaults E f b) = length b"
    and "registry_ok R" and "length R < 2 ^ 32" and ok: "\<forall>m \<in> set R. stored_module m \<longrightarrow> module_ok (cs_memory s) m"
    and "count_savable_modules E R (cs_memory s) \<noteq> 0"
    and save: "config_save_to_file E R path s w = (r, w1)"
    and "C w2 (file_path path) = C w1 (file_path path)"
    and "\<not> cs_file_loaded s'" and "\<forall>m \<in> set R. stored_module m \<longrightarrow> length (cs_memory s' (ptr_of m)) = length (cs_memory s (ptr_of m))"
    and load: "config_load_from_file E R path s' w2 = (r', s'', w3)"
  shows "r = RESULT_SUCCESS \<and> r' = RESULT_SUCCESS \<and> C w3 = C w2 \<and>
    (\<forall>m \<in> set R. stored_module m \<longrightarrow> cs_memory s'' (ptr_of m) =
       (if config_valid E (cs_memory s) (the m) then cs_memory s (ptr_of m) else cs_memory (config_init_defaults E R s') (ptr_of m)))"
proof -
  have sv: "r = RESULT_SUCCESS" "C w1 (file_path path) = Some (config_file E R (cs_memory s))"
    using save_leaves [OF assms(1-3) ok assms(8), of path w] save by auto
  have "C w2 (file_path path) = Some (config_file E R (cs_memory s))" using sv(2) assms(10) by simp
  from load_reads [OF assms(1-6) ok assms(11,12) this]
  have l: "r' = RESULT_SUCCESS" "C w3 = C w2" "cs_memory s'' q = (if q \<in> ptr_of ` set (filter (savable E (cs_memory s)) R)
      then cs_memory s q else cs_memory (config_init_defaults E R s') q)" for q
    using load by auto
  have "ptr_of m \<in> ptr_of ` set (filter (savable E (cs_memory s)) R) \<longleftrightarrow> config_valid E (cs_memory s) (the m)"
    if "m \<in> set R" "stored_module m" for m
    using that same_struct [OF assms(5) that] by (auto simp: savable_def)
  then show ?thesis using sv(1) l by simp
qed

lemma file_path_Some [simp]: "file_path (Some p) = p"
  by (simp add: file_path_def)

lemma init_defaults_twice: "config_init_defaults E R (config_init_defaults E R s) = config_init_defaults E R s"
  by (simp add: config_init_defaults_def initialize_module_defaults_def)

text \<open>what is loaded when there is no usable file. On a flash that works, if the file is missing, or has another
  magic number or another version, loading succeeds with every struct at its defaults; a missing or outdated file
  is replaced by the file of the defaults, and a file with a foreign magic number is left alone.\<close>

theorem config_load_fallbacks:
  assumes F: "flash_laws F C H" "flash_reliable F C H" "cv_flash E = F" and keep: "\<forall>f b. length (cv_defaults E f b) = length b"
    and ok: "\<forall>m \<in> set R. stored_module m \<longrightarrow> module_ok (cs_memory s) m"
    and n: "count_savable_modules E R (cs_memory (config_init_defaults E R s)) \<noteq> 0" and boot: "\<not> cs_file_loaded s"
    and cfile: "C w (file_path path) = None \<or> (C w (file_path path) = Some (header_bytes h @ body) \<and>
        ch_magic h < 2 ^ 32 \<and> ch_version h < 2 ^ 32 \<and> ch_entry_count h < 2 ^ 32 \<and>
        (ch_magic h \<noteq> CONFIG_FILE_MAGIC \<or> ch_version h \<noteq> CONFIG_FILE_VERSION))"
  shows "\<exists>s' w'. config_load_from_file E R path s w = (RESULT_SUCCESS, s', w') \<and> cs_file_loaded s' \<and>
    cs_memory s' = cs_memory (config_init_defaults E R s) \<and>
    (if C w (file_path path) \<noteq> None \<and> ch_magic h \<noteq> CONFIG_FILE_MAGIC then C w' = C w
     else C w' (file_path path) = Some (config_file E R (cs_memory s')))"
proof -
  let ?s = "config_init_defaults E R s"
  have ok': "\<forall>m \<in> set R. stored_module m \<longrightarrow> module_ok (cs_memory ?s) m"
    using ok length_init_defaults [OF keep] unfolding module_ok_def by metis
  have saved: "\<exists>w'. snd (config_save_to_file E R (Some (file_path path)) ?s w0) = w' \<and> C w' (file_path path) = Some (config_file E R (cs_memory ?s))" for w0
    using save_leaves [OF F ok' n, of "Some (file_path path)" w0] by auto
  show ?thesis
  proof (cases "C w (file_path path)")
    case None
    have "fst (f_open F (file_path path) ''rb'' w) = None"
      using open_rb(2) [OF F(1), of "file_path path" w] None by (cases "f_open F (file_path path) ''rb'' w"; cases "fst (f_open F (file_path path) ''rb'' w)") auto
    then obtain w1 where "f_open F (file_path path) ''rb'' w = (None, w1)" by (cases "f_open F (file_path path) ''rb'' w") auto
    then show ?thesis
      using None boot F(3) saved [of w1] by (simp add: config_load_from_file_def file_path_def [symmetric] Let_def)
  next
    case (Some c)
    then have hb: "C w (file_path path) = Some (header_bytes h @ body)" "ch_magic h < 4294967296" "ch_version h < 4294967296"
      "ch_entry_count h < 4294967296" "ch_magic h \<noteq> CONFIG_FILE_MAGIC \<or> ch_version h \<noteq> CONFIG_FILE_VERSION"
      using cfile by simp_all
    obtain fp w2 where "C w2 = C w" "config_load_from_file E R path s w =
      config_load_body E R (file_path path) fp h (config_init_defaults E R s) w2"
      using load_opens [OF F boot hb(1-4)] by blast
    then show ?thesis
      using hb(1,5) saved [of "snd (f_delete F (file_path path) (snd (f_close F fp w2)))"] close_C [OF F(1)] by (auto simp: config_load_body_def F(3) Let_def)
  qed
qed

lemma load_cut:
  assumes F: "flash_laws F C H" "flash_reliable F C H" "cv_flash E = F" and keep: "\<forall>f b. length (cv_defaults E f b) = length b"
    and m: "mc_config_ptr (m_config m) = Some q" "n = mc_config_size (m_config m)" "length (mem q) = n" "length d < n"
    and w: "C w p = Some (pre @ d)" "H w h = Some (p, length pre, a)"
  shows "\<exists>w'. load_module_config E h m n mem w =
      (RESULT_ERROR, (set_defaults E (Some m) mem)(q := d @ drop (length d) (set_defaults E (Some m) mem q)), w') \<and> C w' = C w"
proof -
  obtain w1 where r: "f_read F h n w = (True, d, w1)" "C w1 = C w"
    using reliable_read [OF F(1,2) w(2,1), of n] m(4) by auto
  have sz: "get_module_config_size (Some m) = n" using m by (simp add: get_module_config_size_def)
  have "load_module_config E h m n mem w =
      (RESULT_ERROR, (set_defaults E (Some m) mem)(q := write_at (set_defaults E (Some m) mem q) 0 d), w1)"
    unfolding load_module_config_def m(1) option.case Let_def sz F(3) less_irrefl if_False using m(4) by (simp add: r(1))
  then show ?thesis using r(2) by (simp add: write_at_def)
qed

text \<open>The last entry of a file that ends after the bytes \<open>d\<close> of its data.\<close>

lemma load_entries_cut:
  assumes F: "flash_laws F C H" "flash_reliable F C H" "cv_flash E = F" and keep: "\<forall>f b. length (cv_defaults E f b) = length b"
    and R: "registry_ok R" "Some x \<in> set R" "stored_module (Some x)"
    and x: "mc_name (m_config x) = Some t" "NUL \<notin> set t" "length t < 32" "mc_config_ptr (m_config x) = Some q"
    and n: "n = mc_config_size (m_config x)" "n < 2 ^ 32" "length (mem q) = n" "length d < n"
    and w: "C w p = Some (pre @ name_field t @ le32_bytes n @ d)" "H w h = Some (p, length pre, a)"
  shows "\<exists>w'. load_entries E R h 1 False mem w = (False, False,
      (set_defaults E (Some x) mem)(q := d @ drop (length d) (set_defaults E (Some x) mem q)), w') \<and> C w' = C w"
proof -
  have lt: "n < 4294967296" using n(2) by simp
  obtain w4 where w4: "read_config_entry E h w = (Some (t, n), w4)" "C w4 = C w" "H w4 h = Some (p, length pre + 36, a)"
    using read_entry_back [OF F w name_field(1) [OF x(2,3)] lt] name_field(2) [OF x(2,3)] by auto
  have c: "C w4 p = Some ((pre @ name_field t @ le32_bytes n) @ d)" "H w4 h = Some (p, length (pre @ name_field t @ le32_bytes n), a)"
    using w4(2,3) w name_field(1) [OF x(2,3)] by simp_all
  have sz: "get_module_config_size (Some x) = n" using x(4) n(1) by (simp add: get_module_config_size_def)
  have "find_module_by_name R (Some t) = Some x"
    by (rule find_registered [OF R(1,2)]) (simp add: has_name_def x)
  then show ?thesis
    using load_cut [where mem = mem and q = q, OF F keep x(4) n(1,3,4) c] w4(1,2) R(3) sz by auto
qed

text \<open>a file that was cut short is not noticed. If the file of valid configurations lost its last \<open>j\<close> bytes, all
  inside the data of the last entry, then loading still reports success and leaves the file as it is, and the
  struct of that entry is the bytes that were left followed by the rest of the defaults: a mixture that no
  validation has seen, even when the module's validation function rejects it.\<close>

theorem config_truncated_entry_unnoticed:
  assumes F: "flash_laws F C H" "flash_reliable F C H" "cv_flash E = F" and keep: "\<forall>f b. length (cv_defaults E f b) = length b"
    and R: "registry_ok R" "length R < 2 ^ 32" and ok: "\<forall>m \<in> set R. stored_module m \<longrightarrow> module_ok mem m"
    and boot: "\<not> cs_file_loaded s" and sizes: "\<forall>m \<in> set R. stored_module m \<longrightarrow> length (cs_memory s (ptr_of m)) = length (mem (ptr_of m))"
    and last: "filter (savable E mem) R = ms @ [m]" and cut: "0 < j" "j \<le> get_module_config_size m"
    and cfile: "C w (file_path path) = Some (take (length (config_file E R mem) - j) (config_file E R mem))"
    and mix: "mix = take (get_module_config_size m - j) (mem (ptr_of m)) @
        drop (get_module_config_size m - j) (set_defaults E m (cs_memory (config_init_defaults E R s)) (ptr_of m))"
  shows "\<exists>s' w'. config_load_from_file E R path s w = (RESULT_SUCCESS, s', w') \<and> C w' = C w \<and> cs_memory s' (ptr_of m) = mix \<and>
    (cv_validate E (the (mc_config_validate_fn (m_config (the m)))) mix \<noteq> RESULT_SUCCESS \<longrightarrow>
       config_validate E R s' = RESULT_INVALID_PARAM)"
proof -
  let ?p = "file_path path" and ?s = "config_init_defaults E R s"
  let ?h = "\<lparr>ch_magic = CONFIG_FILE_MAGIC, ch_version = CONFIG_FILE_VERSION, ch_entry_count = count_savable_modules E R mem\<rparr>"
  have all: "\<forall>x \<in> set (ms @ [m]). x \<in> set R \<and> savable E mem x \<and> module_ok mem x"
    unfolding last [symmetric] using ok by (auto simp: savable_def)
  then have sv: "m \<in> set R" "savable E mem m" "module_ok mem m" by simp_all
  then obtain x t q where x: "m = Some x" "mc_name (m_config x) = Some t" "NUL \<notin> set t" "length t < 32"
    "mc_config_ptr (m_config x) = Some q" "0 < mc_config_size (m_config x)" "mc_config_size (m_config x) < 2 ^ 32"
    "length (mem q) = mc_config_size (m_config x)" by (auto simp: module_ok_def)
  let ?n = "mc_config_size (m_config x)"
  have q: "ptr_of m = q" and sz: "get_module_config_size m = ?n" using x by (simp_all add: ptr_of_def get_module_config_size_def)
  let ?d = "take (?n - j) (mem q)" and ?es = "concat (map (entry_bytes mem) ms)"
  have eb: "entry_bytes mem m = name_field t @ le32_bytes ?n @ mem q" using x by (simp add: entry_bytes_def get_module_config_size_def)
  have "config_file E R mem = (header_bytes ?h @ ?es @ name_field t @ le32_bytes ?n) @ mem q"
    using eb by (simp add: config_file_def last)
  then have c: "C w ?p = Some (header_bytes ?h @ ?es @ name_field t @ le32_bytes ?n @ ?d)"
    using cfile cut x(8) sz by simp
  note hb = file_header_bounds [OF R(2), of E mem]
  obtain h w2 where w2: "C w2 = C w" "H w2 h = Some (?p, length (header_bytes ?h), False)"
    "config_load_from_file E R path s w = config_load_body E R ?p h ?h ?s w2"
    using load_opens [OF F boot c hb] by blast
  have d: "distinct (map ptr_of (ms @ [m]))"
    using R(1) unfolding last [symmetric] savable_stored registry_ok_def by (simp only: distinct_map_filter)
  have szs: "\<forall>x \<in> set ms. length (cs_memory ?s (ptr_of x)) = length (mem (ptr_of x))"
    using sizes all by (simp add: length_init_defaults [OF keep] savable_def)
  have c2: "C w2 ?p = Some (header_bytes ?h @ ?es @ name_field t @ le32_bytes ?n @ ?d)" using w2(1) c by simp
  have all': "\<forall>x \<in> set ms. x \<in> set R \<and> savable E mem x \<and> module_ok mem x" and d': "distinct (map ptr_of ms)" using all d by simp_all
  obtain w3 mem2 where l: "load_entries E R h (length ms + 1) False (cs_memory ?s) w2 = load_entries E R h 1 False mem2 w3" "C w3 = C w2"
    "H w3 h = Some (?p, length (header_bytes ?h) + length ?es, False)"
    "\<forall>q. mem2 q = (if q \<in> ptr_of ` set ms then mem q else cs_memory ?s q)"
    using load_entries_back [OF F keep R(1) all' d' szs c2 w2(2), of 1 False] by blast
  have m2: "mem2 q = cs_memory ?s q" using l(4) d q by auto
  have l2: "length (mem2 q) = ?n" using m2 sizes [rule_format, OF sv(1)] sv(2) x(8) q by (simp add: length_init_defaults [OF keep] savable_def)
  have c3: "C w3 ?p = Some ((header_bytes ?h @ ?es) @ name_field t @ le32_bytes ?n @ ?d)" using l(2) c2 by simp
  have h3: "H w3 h = Some (?p, length (header_bytes ?h @ ?es), False)" using l(3) by simp
  have dl: "length ?d < ?n" "length ?d = ?n - j" using x(6,8) cut sz by simp_all
  let ?mem3 = "(set_defaults E (Some x) mem2)(q := ?d @ drop (length ?d) (set_defaults E (Some x) mem2 q))"
  have st: "stored_module m" using sv(2) by (simp add: savable_def)
  obtain w5 where l1: "load_entries E R h 1 False mem2 w3 = (False, False, ?mem3, w5)" "C w5 = C w3"
    using load_entries_cut [where mem = mem2 and q = q, OF F keep R(1) _ _ x(2-5) refl x(7) l2 dl(1) c3 h3] sv(1) st x(1) by auto
  have cnt: "ch_entry_count ?h = length ms + 1" by (simp add: count_savable_modules_def last)
  let ?s' = "?s\<lparr>cs_file_loaded := True, cs_memory := ?mem3\<rparr>"
  have e: "config_load_from_file E R path s w = (RESULT_SUCCESS, ?s', snd (f_close F h w5))"
    unfolding w2(3) config_load_body_def F(3) cnt l(1) l1(1) by simp
  have sd: "set_defaults E (Some x) mem2 q = set_defaults E (Some x) (cs_memory ?s) q"
    using m2 x(5) by (simp add: set_defaults_def split: option.split)
  have mm: "cs_memory ?s' (ptr_of m) = mix" unfolding mix sz q using dl(2) sd x(1) by simp
  have "config_validate E R ?s' = RESULT_INVALID_PARAM"
    if "cv_validate E (the (mc_config_validate_fn (m_config (the m)))) mix \<noteq> RESULT_SUCCESS"
  proof -
    have "\<not> config_valid E (cs_memory ?s') x" using that mm x(1) q x(5) by (simp add: config_valid_def)
    then show ?thesis using sv(1) st x(1) unfolding config_validate_def list_all_iff stored_module_def by (auto split: option.splits)
  qed
  then show ?thesis using e mm l1(2) l(2) w2(1) close_C [OF F(1)] by auto
qed

subsection \<open>Evaluation\<close>

text \<open>The gateway's registry can be kept: names and structs are distinct.\<close>

lemma names_distinct:
  assumes "distinct (map (\<lambda>m. mc_name (m_config (the m))) (filter (\<lambda>m. m \<noteq> None) R))" and "distinct (map ptr_of (filter stored_module R))"
  shows "registry_ok R"
proof -
  have i: "inj_on (\<lambda>m. mc_name (m_config (the m))) (set (filter (\<lambda>m. m \<noteq> None) R))" using assms(1) by (simp add: distinct_map)
  have "m = m'" if "m \<in> set R" "m' \<in> set R" "has_name s m" "has_name s m'" for m m' s
    using that by (intro inj_onD [OF i]) (auto simp: has_name_def)
  then show ?thesis using assms(2) unfolding registry_ok_def by blast
qed

lemma g_modules_names:
  "map (\<lambda>m. mc_name (m_config (the m))) (filter (\<lambda>m. m \<noteq> None) (g_modules sz)) = map Some
     [''Log Manager'', ''UART Manager'', ''Command Manager'', ''URC Processor'', ''SIM Manager'', ''Network Manager'',
      ''TCP Client'', ''GPS Manager'', ''SMS Manager'', ''BLE Manager'', ''System Manager'']"
  by (simp add: g_modules_def module_table)

lemma g_modules_structs:
  "map ptr_of (filter stored_module (g_modules sz)) =
     [''g_command_config'', ''g_network_config'', ''g_tcp_config'', ''g_gps_config'', ''g_sms_config'', ''g_system_config'']"
  by (simp add: g_modules_def module_table stored_module_def ptr_of_def)

lemma g_modules_registry_ok: "registry_ok (g_modules sz)"
  by (rule names_distinct) (simp_all only: g_modules_names g_modules_structs, simp_all)

text \<open>Structs of 64 bytes whose defaults are all zero; a struct is valid when it does not begin with \<open>0xFF\<close>.\<close>

definition plain_env :: "ram_world config_env" where
  "plain_env = \<lparr>cv_flash = ram_flash, cv_sleep = (\<lambda>n w. w), cv_defaults = (\<lambda>f b. replicate (length b) 0),
     cv_validate = (\<lambda>f b. if hd b = 0xFF then RESULT_ERROR else RESULT_SUCCESS)\<rparr>"

definition plain_store :: "byte \<Rightarrow> config_store" where
  "plain_store b = \<lparr>cs_config_initialized = False, cs_file_loaded = False, cs_defaults_initialized = False,
     cs_memory = (\<lambda>_. replicate 64 b)\<rparr>"

lemma plain_env_keeps: "\<forall>f b. length (cv_defaults plain_env f b) = length b" "cv_flash plain_env = ram_flash"
  by (simp_all add: plain_env_def)

lemma plain_ok: "\<forall>m \<in> set (g_modules plain_sizes). stored_module m \<longrightarrow> module_ok (cs_memory (plain_store b)) m"
  by (simp add: g_modules_def module_table stored_module_def module_ok_def plain_store_def plain_sizes_def)

lemma plain_length: "length (g_modules plain_sizes) < 2 ^ 32"
  by (simp add: g_modules_def)

lemma plain_savable: "filter (savable plain_env (\<lambda>_. replicate 64 7)) (g_modules plain_sizes) =
    [Some (g_module_cmd plain_sizes), Some (g_module_network plain_sizes), Some (g_module_tcp plain_sizes), Some (g_module_gps plain_sizes),
     Some (g_module_sms plain_sizes)] @ [Some (g_module_system plain_sizes)]"
  by (simp add: g_modules_def module_table savable_def stored_module_def config_valid_def plain_env_def)

lemma plain_env_count: "count_savable_modules plain_env (g_modules plain_sizes) (\<lambda>_. replicate 64 7) \<noteq> 0"
  by (simp add: count_savable_modules_def plain_savable)

text \<open>Saved with all bytes 7 and restarted with all bytes 9: the GPS configuration is back.\<close>

theorem config_survives_restart_witness:
  "let (r, w1) = config_save_to_file plain_env (g_modules plain_sizes :: unit registry) None (plain_store 7) empty_ram;
       (r', s'', w3) = config_load_from_file plain_env (g_modules plain_sizes :: unit registry) None (plain_store 9) w1
   in r = RESULT_SUCCESS \<and> r' = RESULT_SUCCESS \<and> cs_memory s'' ''g_gps_config'' = replicate 64 7"
proof -
  let ?R = "g_modules plain_sizes :: unit module option list"
  obtain r w1 where s: "config_save_to_file plain_env ?R None (plain_store 7) empty_ram = (r, w1)" by fastforce
  obtain r' s'' w3 where l: "config_load_from_file plain_env ?R None (plain_store 9) w1 = (r', s'', w3)" by (metis prod_cases3)
  have n: "count_savable_modules plain_env ?R (cs_memory (plain_store 7)) \<noteq> 0" using plain_env_count by (simp add: plain_store_def)
  have b: "\<not> cs_file_loaded (plain_store 9)" by (simp add: plain_store_def)
  have z: "\<forall>m \<in> set ?R. stored_module m \<longrightarrow> length (cs_memory (plain_store 9) (ptr_of m)) = length (cs_memory (plain_store 7) (ptr_of m))"
    by (simp add: plain_store_def)
  note t = config_survives_restart [OF ram_laws ram_reliable plain_env_keeps(2,1) g_modules_registry_ok plain_length plain_ok n s refl b z l]
  have g: "Some (g_module_gps plain_sizes) \<in> set ?R" "stored_module (Some (g_module_gps plain_sizes) :: unit module option)"
    "ptr_of (Some (g_module_gps plain_sizes) :: unit module option) = ''g_gps_config''"
    "config_valid plain_env (cs_memory (plain_store 7)) (g_module_gps plain_sizes :: unit module)"
    by (simp_all add: g_modules_def g_module_gps_def stored_module_def ptr_of_def config_valid_def plain_env_def plain_store_def)
  have "cs_memory (plain_store 7) ''g_gps_config'' = replicate 64 7" by (simp add: plain_store_def)
  then show ?thesis unfolding s Let_def split l using t g by auto
qed

text \<open>An outdated file, and one of foreign origin.\<close>

theorem config_load_fallbacks_witness:
  "let w = empty_ram\<lparr>rw_files := [CONFIG_FILE_PATH \<mapsto> header_bytes \<lparr>ch_magic = CONFIG_FILE_MAGIC, ch_version = 4, ch_entry_count = 9\<rparr>]\<rparr>;
       (r, s', w') = config_load_from_file plain_env (g_modules plain_sizes :: unit registry) None (plain_store 9) w
   in r = RESULT_SUCCESS \<and> rw_files w' CONFIG_FILE_PATH = Some (config_file plain_env (g_modules plain_sizes :: unit registry) (cs_memory s'))"
proof -
  let ?R = "g_modules plain_sizes :: unit registry" and ?h = "\<lparr>ch_magic = CONFIG_FILE_MAGIC, ch_version = 4, ch_entry_count = 9\<rparr>"
  let ?w = "empty_ram\<lparr>rw_files := [CONFIG_FILE_PATH \<mapsto> header_bytes ?h]\<rparr>"
  have "filter (savable plain_env (cs_memory (config_init_defaults plain_env ?R (plain_store 9)))) ?R \<noteq> []"
    by (simp add: plain_store_def config_init_defaults_def initialize_module_defaults_def g_modules_def module_table set_defaults_def plain_env_def
        savable_def stored_module_def config_valid_def)
  then have n: "count_savable_modules plain_env ?R (cs_memory (config_init_defaults plain_env ?R (plain_store 9))) \<noteq> 0"
    by (simp add: count_savable_modules_def)
  have b: "\<not> cs_file_loaded (plain_store 9)" by (simp add: plain_store_def)
  have p: "file_path None = CONFIG_FILE_PATH" by (simp add: file_path_def)
  have c: "rw_files ?w (file_path None) = None \<or> (rw_files ?w (file_path None) = Some (header_bytes ?h @ []) \<and>
        ch_magic ?h < 2 ^ 32 \<and> ch_version ?h < 2 ^ 32 \<and> ch_entry_count ?h < 2 ^ 32 \<and>
        (ch_magic ?h \<noteq> CONFIG_FILE_MAGIC \<or> ch_version ?h \<noteq> CONFIG_FILE_VERSION))"
    by (simp add: p CONFIG_FILE_MAGIC_def CONFIG_FILE_VERSION_def)
  obtain s' w' where "config_load_from_file plain_env ?R None (plain_store 9) ?w = (RESULT_SUCCESS, s', w')"
    "rw_files w' CONFIG_FILE_PATH = Some (config_file plain_env ?R (cs_memory s'))"
    using config_load_fallbacks [OF ram_laws ram_reliable plain_env_keeps(2,1) plain_ok n b c] p by auto
  then show ?thesis by (simp add: Let_def)
qed

text \<open>The last 60 of the 64 bytes of the system configuration are lost.\<close>

theorem config_truncated_entry_unnoticed_witness:
  "\<exists>w r s' w'. config_load_from_file plain_env (g_modules plain_sizes :: unit registry) None (plain_store 9) w = (r, s', w') \<and>
     r = RESULT_SUCCESS \<and> rw_files w' = rw_files w \<and> cs_memory s' ''g_system_config'' = replicate 4 7 @ replicate 60 0"
proof -
  let ?R = "g_modules plain_sizes :: unit registry" and ?mem = "\<lambda>_ :: string. replicate 64 (7 :: byte)" and ?m = "Some (g_module_system plain_sizes) :: unit module option"
  let ?f = "config_file plain_env ?R ?mem"
  let ?w = "empty_ram\<lparr>rw_files := [CONFIG_FILE_PATH \<mapsto> take (length ?f - 60) ?f]\<rparr>"
  have b: "\<not> cs_file_loaded (plain_store 9)" by (simp add: plain_store_def)
  have ok: "\<forall>m \<in> set ?R. stored_module m \<longrightarrow> module_ok ?mem m" using plain_ok [of 7] by (simp add: plain_store_def)
  have z: "\<forall>m \<in> set ?R. stored_module m \<longrightarrow> length (cs_memory (plain_store 9) (ptr_of m)) = length (?mem (ptr_of m))"
    by (simp add: plain_store_def)
  have p: "ptr_of ?m = ''g_system_config''" and sz: "get_module_config_size ?m = 64"
    by (simp_all add: ptr_of_def g_module_system_def get_module_config_size_def plain_sizes_def)
  have j: "0 < (60 :: nat)" "60 \<le> get_module_config_size ?m" by (simp_all add: sz)
  have c: "rw_files ?w (file_path None) = Some (take (length ?f - 60) ?f)" by (simp add: file_path_def)
  have "length (cs_memory (config_init_defaults plain_env ?R (plain_store 9)) ''g_system_config'') = 64"
    by (simp add: length_init_defaults [OF plain_env_keeps(1)]) (simp add: plain_store_def)
  then have d: "set_defaults plain_env ?m (cs_memory (config_init_defaults plain_env ?R (plain_store 9))) (ptr_of ?m) = replicate 64 0"
    unfolding p by (simp add: set_defaults_def g_module_system_def plain_env_def)
  obtain s' w' where t: "config_load_from_file plain_env ?R None (plain_store 9) ?w = (RESULT_SUCCESS, s', w')" "rw_files w' = rw_files ?w"
    "cs_memory s' ''g_system_config'' = take (64 - 60) (replicate 64 7) @ drop (64 - 60) (replicate 64 0)"
    using config_truncated_entry_unnoticed [OF ram_laws ram_reliable plain_env_keeps(2,1) g_modules_registry_ok plain_length ok b z plain_savable j c refl,
        unfolded d [unfolded p] d p sz] by blast
  then show ?thesis by (intro exI [of _ ?w] exI [of _ RESULT_SUCCESS] exI [of _ s'] exI [of _ w']) simp
qed

end
