(* ===== verification/Network_Config.thy ===== *)
theory Network_Config
  imports Config_Text Config_Store
begin

text \<open>
  \<open>module/network/network_config.c\<close> and \<open>module/command/command_config.c\<close>: the configurations that remote commands
  read and change as text. A configuration lies as a struct in the memory of the configuration store, under the name
  of its pointer; how its fields lie there is the parameter \<open>struct_abi\<close>. A character array in it is its text.
\<close>

subsection \<open>Structs in memory\<close>

record 'c struct_abi =
  sa_get :: "bytes \<Rightarrow> 'c"
  sa_put :: "'c \<Rightarrow> bytes \<Rightarrow> bytes"

type_synonym ('u, 'w) config_state = "config_store \<times> ('u, 'w) gateway"

definition config_pointer :: "module_id \<Rightarrow> ('u, 'w) gateway \<Rightarrow> string option" where
  "config_pointer mid g = (case module_manager_get_config mid g of None \<Rightarrow> None | Some c \<Rightarrow> mc_config_ptr c)"

definition struct_read :: "'c struct_abi \<Rightarrow> string \<Rightarrow> config_store \<Rightarrow> 'c" where
  "struct_read A p cs = sa_get A (cs_memory cs p)"

definition struct_write :: "'c struct_abi \<Rightarrow> string \<Rightarrow> 'c \<Rightarrow> config_store \<Rightarrow> config_store" where
  "struct_write A p c cs = cs\<lparr>cs_memory := (cs_memory cs)(p := sa_put A c (cs_memory cs p))\<rparr>"

text \<open>\<open>config_get_current\<close> and \<open>config_save_to_file\<close>, as every change of a configuration ends.\<close>

definition save_config :: "'w config_env \<Rightarrow> ('u, 'w) config_state \<Rightarrow> result \<times> ('u, 'w) config_state" where
  "save_config E st =
     (let (cs, w) = config_get_current E (gw_modules (snd st)) (fst st) (gw_world (snd st));
          (r, w) = config_save_to_file E (gw_modules (snd st)) None cs w
      in (r, cs, (snd st)\<lparr>gw_world := w\<rparr>))"

subsection \<open>The network configuration\<close>

record network_config =
  nc_apn :: string
  nc_username :: string
  nc_password :: string
  nc_cid :: int
  nc_auto_connect :: bool

definition s_net_cfg_keys :: config_keys where
  "s_net_cfg_keys = [(Some ''apn'', 0), (Some ''user'', 1), (Some ''pass'', 2), (Some ''cid'', 3), (Some ''auto'', 4)]"

definition network_config_get_defaults :: network_config where
  "network_config_get_defaults = \<lparr>nc_apn = ''wheelseye.com'', nc_username = [], nc_password = [], nc_cid = 1,
     nc_auto_connect = True\<rparr>"

definition network_config_validate :: "network_config option \<Rightarrow> result" where
  "network_config_validate c =
     (case c of None \<Rightarrow> RESULT_INVALID_PARAM
      | Some c \<Rightarrow> if nc_apn c = [] then RESULT_INVALID_PARAM else RESULT_SUCCESS)"

definition network_config_get_storage :: "('u, 'w) gateway \<Rightarrow> string option" where
  "network_config_get_storage g = config_pointer MODULE_ID_NETWORK g"

text \<open>The second and third argument: the text for an optional credential, or what refuses it.\<close>

definition credential :: "string option \<Rightarrow> string option" where
  "credential s = (case s of None \<Rightarrow> Some [] | Some s \<Rightarrow> if length s \<ge> 32 then None else Some s)"

text \<open>\<open>network_config_set_apn\<close> writes each field as soon as it is checked.\<close>

definition network_config_set_apn ::
    "'w config_env \<Rightarrow> network_config struct_abi \<Rightarrow> string option \<Rightarrow> string option \<Rightarrow> string option \<Rightarrow>
     ('u, 'w) config_state \<Rightarrow> result \<times> ('u, 'w) config_state" where
  "network_config_set_apn E A apn username password st =
     (case network_config_get_storage (snd st) of
        None \<Rightarrow> (RESULT_ERROR, st)
      | Some p \<Rightarrow>
          (case apn of
             None \<Rightarrow> (RESULT_INVALID_PARAM, st)
           | Some a \<Rightarrow>
               if a = [] \<or> length a \<ge> 32 then (RESULT_INVALID_PARAM, st)
               else
                 let c = (struct_read A p (fst st))\<lparr>nc_apn := a\<rparr> in
                 case credential username of
                   None \<Rightarrow> (RESULT_INVALID_PARAM, struct_write A p c (fst st), snd st)
                 | Some user \<Rightarrow>
                     let c = c\<lparr>nc_username := user\<rparr> in
                     case credential password of
                       None \<Rightarrow> (RESULT_INVALID_PARAM, struct_write A p c (fst st), snd st)
                     | Some pass \<Rightarrow>
                         (RESULT_SUCCESS, snd (save_config E (struct_write A p (c\<lparr>nc_password := pass\<rparr>) (fst st), snd st)))))"

definition network_setter :: "int \<Rightarrow> string \<Rightarrow> network_config \<Rightarrow> network_config option" where
  "network_setter i v c =
     (if i = 0 then if v = [] \<or> length v \<ge> 32 then None else Some (c\<lparr>nc_apn := v\<rparr>)
      else if i = 1 then if length v \<ge> 32 then None else Some (c\<lparr>nc_username := v\<rparr>)
      else if i = 2 then if length v \<ge> 32 then None else Some (c\<lparr>nc_password := v\<rparr>)
      else if i = 3 then let n = atoi v in if n < 1 \<or> n > 16 then None else Some (c\<lparr>nc_cid := n\<rparr>)
      else if i = 4 then map_option (\<lambda>b. c\<lparr>nc_auto_connect := b\<rparr>) (parse_flag v)
      else Some c)"

definition network_config_set ::
    "'w config_env \<Rightarrow> network_config struct_abi \<Rightarrow> bool \<Rightarrow> string option \<Rightarrow> ('u, 'w) config_state \<Rightarrow>
     result \<times> ('u, 'w) config_state" where
  "network_config_set E A alloc_ok config_string st =
     (case config_string of
        None \<Rightarrow> (RESULT_INVALID_PARAM, st)
      | Some s \<Rightarrow>
          (case network_config_get_storage (snd st) of
             None \<Rightarrow> (RESULT_ERROR, st)
           | Some p \<Rightarrow>
               (case utils_strdup_for_tokenization alloc_ok (Some s) of
                  None \<Rightarrow> (RESULT_INVALID_PARAM, st)
                | Some str_copy \<Rightarrow>
                    (case keyed_loop network_setter s_net_cfg_keys (tok_loop '','' (Some str_copy)) False (struct_read A p (fst st)) of
                       None \<Rightarrow> (RESULT_INVALID_PARAM, st)
                     | Some (parsed_any, c) \<Rightarrow>
                         if \<not> parsed_any then (RESULT_INVALID_PARAM, st)
                         else (RESULT_SUCCESS, snd (save_config E (struct_write A p c (fst st), snd st)))))))"

definition int_text :: "int \<Rightarrow> string" where
  "int_text n = (if n < 0 then CHR ''-'' # dec (nat (- n)) else dec (nat n))"

definition network_fields :: "network_config \<Rightarrow> (string \<times> string) list" where
  "network_fields c = [(''apn'', nc_apn c), (''user'', nc_username c), (''pass'', nc_password c), (''cid'', int_text (nc_cid c)),
     (''auto'', flag_text (nc_auto_connect c))]"

text \<open>The result and the text in the buffer.\<close>

definition config_text :: "nat \<Rightarrow> (string \<times> string) list \<Rightarrow> result \<times> string" where
  "config_text buffer_size kvs =
     (let (len, s) = snprintf buffer_size (fields_text kvs)
      in (if len \<ge> int buffer_size then RESULT_ERROR else RESULT_SUCCESS, s))"

definition network_config_get_string ::
    "network_config struct_abi \<Rightarrow> bool \<Rightarrow> nat \<Rightarrow> ('u, 'w) config_state \<Rightarrow> result \<times> string" where
  "network_config_get_string A buffer_ok buffer_size st =
     (if \<not> buffer_ok \<or> buffer_size = 0 then (RESULT_INVALID_PARAM, [])
      else case config_pointer MODULE_ID_NETWORK (snd st) of
        None \<Rightarrow> (RESULT_ERROR, [])
      | Some p \<Rightarrow> config_text buffer_size (network_fields (struct_read A p (fst st))))"

subsection \<open>The command configuration\<close>

record command_config =
  cc_auth_enable :: bool
  cc_auth_password :: string
  cc_digout_on :: bool
  cc_min_csq_threshold :: nat
  cc_adoc_net_task_flag :: bool

definition s_cmd_cfg_keys :: config_keys where
  "s_cmd_cfg_keys = [(Some ''auth-en'', 0), (Some ''pass'', 1), (Some ''min-csq'', 2), (Some ''adoc-net-task'', 3)]"

definition command_config_get_defaults :: command_config where
  "command_config_get_defaults = \<lparr>cc_auth_enable = True, cc_auth_password = ''WEWARE2024'', cc_digout_on = False,
     cc_min_csq_threshold = 20, cc_adoc_net_task_flag = True\<rparr>"

definition command_config_validate :: "command_config option \<Rightarrow> result" where
  "command_config_validate c =
     (case c of None \<Rightarrow> RESULT_INVALID_PARAM
      | Some c \<Rightarrow>
          if cc_auth_password c = [] \<or> length (cc_auth_password c) \<ge> 32 then RESULT_INVALID_PARAM else RESULT_SUCCESS)"

definition command_config_get_storage :: "('u, 'w) gateway \<Rightarrow> string option" where
  "command_config_get_storage g = config_pointer MODULE_ID_CMD g"

text \<open>\<open>motion_on\<close> is what \<open>gps_manager_is_motion_on\<close> answers.\<close>

definition command_config_adoc_net_task_blocked ::
    "command_config struct_abi \<Rightarrow> bool \<Rightarrow> ('u, 'w) config_state \<Rightarrow> bool" where
  "command_config_adoc_net_task_blocked A motion_on st =
     (case command_config_get_storage (snd st) of
        None \<Rightarrow> False
      | Some p \<Rightarrow> if \<not> cc_adoc_net_task_flag (struct_read A p (fst st)) then False else motion_on)"

definition command_setter :: "int \<Rightarrow> string \<Rightarrow> command_config \<Rightarrow> command_config option" where
  "command_setter i v c =
     (if i = 0 then map_option (\<lambda>b. c\<lparr>cc_auth_enable := b\<rparr>) (parse_flag v)
      else if i = 1 then if v = [] \<or> length v \<ge> 32 then None else Some (c\<lparr>cc_auth_password := v\<rparr>)
      else if i = 2 then
        if \<not> whole_number v \<or> atoi v < 0 \<or> atoi v > 31 then None else Some (c\<lparr>cc_min_csq_threshold := nat (atoi v)\<rparr>)
      else if i = 3 then map_option (\<lambda>b. c\<lparr>cc_adoc_net_task_flag := b\<rparr>) (parse_flag v)
      else Some c)"

definition command_config_set ::
    "'w config_env \<Rightarrow> command_config struct_abi \<Rightarrow> bool \<Rightarrow> string option \<Rightarrow> ('u, 'w) config_state \<Rightarrow>
     result \<times> ('u, 'w) config_state" where
  "command_config_set E A alloc_ok config_string st =
     (case config_string of
        None \<Rightarrow> (RESULT_INVALID_PARAM, st)
      | Some s \<Rightarrow>
          if s = [] then (RESULT_INVALID_PARAM, st)
          else
            (case config_pointer MODULE_ID_CMD (snd st) of
               None \<Rightarrow> (RESULT_INVALID_PARAM, st)
             | Some p \<Rightarrow>
                 (case utils_strdup_for_tokenization alloc_ok (Some s) of
                    None \<Rightarrow> (RESULT_ERROR, st)
                  | Some str_copy \<Rightarrow>
                      (case keyed_loop command_setter s_cmd_cfg_keys (tok_loop '','' (Some str_copy)) False (struct_read A p (fst st)) of
                         None \<Rightarrow> (RESULT_INVALID_PARAM, st)
                       | Some (parsed_any, c) \<Rightarrow>
                           if \<not> parsed_any then (RESULT_INVALID_PARAM, st)
                           else (RESULT_SUCCESS, snd (save_config E (struct_write A p c (fst st), snd st)))))))"

definition command_fields :: "command_config \<Rightarrow> (string \<times> string) list" where
  "command_fields c = [(''auth-en'', flag_text (cc_auth_enable c)), (''pass'', cc_auth_password c),
     (''min-csq'', dec (cc_min_csq_threshold c)), (''adoc-net-task'', flag_text (cc_adoc_net_task_flag c))]"

definition command_config_get_string ::
    "command_config struct_abi \<Rightarrow> bool \<Rightarrow> nat \<Rightarrow> ('u, 'w) config_state \<Rightarrow> result \<times> string" where
  "command_config_get_string A buffer_ok buffer_size st =
     (if \<not> buffer_ok \<or> buffer_size = 0 then (RESULT_INVALID_PARAM, [])
      else case config_pointer MODULE_ID_CMD (snd st) of
        None \<Rightarrow> (RESULT_INVALID_PARAM, [])
      | Some p \<Rightarrow> config_text buffer_size (command_fields (struct_read A p (fst st))))"

subsection \<open>The text forms read back\<close>

definition network_config_ok :: "network_config \<Rightarrow> bool" where
  "network_config_ok c \<longleftrightarrow> nc_apn c \<noteq> [] \<and> length (nc_apn c) < 32 \<and> length (nc_username c) < 32 \<and>
     length (nc_password c) < 32 \<and> 1 \<le> nc_cid c \<and> nc_cid c \<le> 16"

definition command_config_ok :: "command_config \<Rightarrow> bool" where
  "command_config_ok c \<longleftrightarrow> cc_auth_password c \<noteq> [] \<and> length (cc_auth_password c) < 32 \<and> cc_min_csq_threshold c \<le> 31"

lemma key_eq: "strcasecmp_eq s s"
  by (simp add: strcasecmp_eq_def)

lemma map_option_field: "map_option f x = Some y \<longleftrightarrow> (\<exists>b. x = Some b \<and> f b = y)"
  by (cases x) auto

interpretation network_text: keyed_config network_setter s_net_cfg_keys network_config_ok network_fields "\<lambda>c c0. c"
proof
  fix c c' :: network_config and i v
  show "network_config_ok c \<Longrightarrow> 0 \<le> i \<Longrightarrow> network_setter i v c = Some c' \<Longrightarrow> network_config_ok c'"
    by (auto simp: network_setter_def network_config_ok_def Let_def map_option_field split: if_splits)
next
  fix c :: network_config and k v
  show "(k, v) \<in> set (network_fields c) \<Longrightarrow> plain_key k \<and> 0 \<le> key_index_loop k s_net_cfg_keys"
    by (auto simp: network_fields_def s_net_cfg_keys_def plain_key_def is_blank_def key_eq)
next
  fix c :: network_config
  show "network_fields c \<noteq> []" by (simp add: network_fields_def)
next
  fix c c0 :: network_config
  assume c: "network_config_ok c"
  then have "atoi (int_text (nc_cid c)) = nc_cid c"
    using atoi_dec [of "nat (nc_cid c)"] by (auto simp: network_config_ok_def int_text_def)
  then show "set_fields network_setter s_net_cfg_keys (network_fields c) c0 = Some c"
    using c by (simp add: network_fields_def s_net_cfg_keys_def network_setter_def network_config_ok_def
        strcasecmp_eq_def c_tolower_def char_code_def Let_def)
qed

interpretation command_text: keyed_config command_setter s_cmd_cfg_keys command_config_ok command_fields
  "\<lambda>c c0. c\<lparr>cc_digout_on := cc_digout_on c0\<rparr>"
proof
  fix c c' :: command_config and i v
  show "command_config_ok c \<Longrightarrow> 0 \<le> i \<Longrightarrow> command_setter i v c = Some c' \<Longrightarrow> command_config_ok c'"
    by (auto simp: command_setter_def command_config_ok_def Let_def map_option_field split: if_splits)
next
  fix c :: command_config and k v
  show "(k, v) \<in> set (command_fields c) \<Longrightarrow> plain_key k \<and> 0 \<le> key_index_loop k s_cmd_cfg_keys"
    by (auto simp: command_fields_def s_cmd_cfg_keys_def plain_key_def is_blank_def key_eq)
next
  fix c :: command_config
  show "command_fields c \<noteq> []" by (simp add: command_fields_def)
next
  fix c c0 :: command_config
  assume c: "command_config_ok c"
  then show "set_fields command_setter s_cmd_cfg_keys (command_fields c) c0 = Some (c\<lparr>cc_digout_on := cc_digout_on c0\<rparr>)"
    by (simp add: command_fields_def s_cmd_cfg_keys_def command_setter_def command_config_ok_def whole_number_dec atoi_dec
        strcasecmp_eq_def c_tolower_def char_code_def Let_def)
qed

end
