(* ===== verification/Tcp_Config.thy ===== *)
theory Tcp_Config
  imports Tcp_Client Config_Text
begin

text \<open>
  \<open>module/tcp/tcp_config.c\<close>: the configuration of the TCP client, its defaults and checks, and its text form. A new
  text is read into a copy, which replaces the configuration only when every value is good; the connection is then
  closed so that the client connects with the new values. \<open>long\<close> has 32 bits.
\<close>

subsection \<open>State\<close>

record tcp_settings =
  ts_config :: tcp_config
  ts_initialized :: bool

type_synonym tcp_setup = "tcp_settings \<times> tcp_client"

abbreviation (input) SERVER_IP_SIZE :: nat where "SERVER_IP_SIZE \<equiv> 64"
abbreviation (input) WEWARE_TCP_CONFIG_STRING_MAX :: nat where "WEWARE_TCP_CONFIG_STRING_MAX \<equiv> 192"

subsection \<open>Checks\<close>

definition c_isalnum :: "char \<Rightarrow> bool" where
  "c_isalnum c \<longleftrightarrow> is_digit c \<or> (65 \<le> char_code c \<and> char_code c \<le> 90) \<or> (97 \<le> char_code c \<and> char_code c \<le> 122)"

definition tcp_config_host_is_valid :: "string option \<Rightarrow> bool" where
  "tcp_config_host_is_valid host =
     (case host of
        None \<Rightarrow> False
      | Some h \<Rightarrow>
          h \<noteq> [] \<and> length h < SERVER_IP_SIZE \<and> list_all (\<lambda>c. c_isalnum c \<or> c = CHR ''.'' \<or> c = CHR ''-'') h)"

definition tcp_config_port_is_valid :: "int \<Rightarrow> bool" where
  "tcp_config_port_is_valid port \<longleftrightarrow> 1 \<le> port \<and> port \<le> 65535"

definition tcp_config_parse_bool :: "string option \<Rightarrow> bool option" where
  "tcp_config_parse_bool v =
     (case v of
        None \<Rightarrow> None
      | Some s \<Rightarrow>
          if s = ''1'' \<or> s = ''true'' \<or> s = ''TRUE'' \<or> s = ''True'' then Some True
          else if s = ''0'' \<or> s = ''false'' \<or> s = ''FALSE'' \<or> s = ''False'' then Some False else None)"

definition tcp_config_parse_timeout :: "string option \<Rightarrow> nat option" where
  "tcp_config_parse_timeout v =
     (case v of
        None \<Rightarrow> None
      | Some s \<Rightarrow>
          if s = [] then None
          else if \<not> whole_number s \<or> strtoul10 s = 0 \<or> strtoul10 s > UINT32_MAX then None else Some (strtoul10 s))"

definition tcp_config_trim :: "string \<Rightarrow> string" where
  "tcp_config_trim s = rev (dropWhile c_isspace (rev (dropWhile c_isspace s)))"

subsection \<open>Defaults\<close>

definition tcp_config_defaults :: tcp_config where
  "tcp_config_defaults = \<lparr>tcf_server_ip = ''13.126.118.139'', tcf_server_port = 9616, tcf_connection_timeout_ms = 30000,
     tcf_send_timeout_ms = 5000, tcf_retry_interval_ms = 10000, tcf_login_with_gps = False, tcf_live_first = True\<rparr>"

text \<open>\<open>weware_tcp_config_get_defaults\<close> on the live storage and on any other; then \<open>weware_tcp_config_get\<close>.\<close>

definition weware_tcp_config_get_defaults :: "tcp_settings \<Rightarrow> tcp_settings" where
  "weware_tcp_config_get_defaults t = t\<lparr>ts_initialized := True, ts_config := tcp_config_defaults\<rparr>"

definition weware_tcp_config_get :: "tcp_settings \<Rightarrow> tcp_settings" where
  "weware_tcp_config_get t =
     (if \<not> ts_initialized t then (weware_tcp_config_get_defaults t)\<lparr>ts_initialized := True\<rparr> else t)"

definition weware_tcp_config_validate :: "tcp_config option \<Rightarrow> result" where
  "weware_tcp_config_validate c =
     (case c of
        None \<Rightarrow> RESULT_INVALID_PARAM
      | Some c \<Rightarrow>
          if \<not> tcp_config_host_is_valid (Some (tcf_server_ip c)) then RESULT_INVALID_PARAM
          else if \<not> tcp_config_port_is_valid (int (tcf_server_port c)) then RESULT_INVALID_PARAM
          else if tcf_connection_timeout_ms c = 0 \<or> tcf_send_timeout_ms c = 0 \<or> tcf_retry_interval_ms c = 0
          then RESULT_INVALID_PARAM else RESULT_SUCCESS)"

subsection \<open>Changes\<close>

definition weware_tcp_config_set_server :: "string option \<Rightarrow> nat \<Rightarrow> tcp_setup \<Rightarrow> result \<times> tcp_setup" where
  "weware_tcp_config_set_server server_ip server_port s =
     (let (t, u) = s; t = weware_tcp_config_get t in
      if \<not> tcp_config_host_is_valid server_ip then (RESULT_INVALID_PARAM, t, u)
      else if \<not> tcp_config_port_is_valid (int server_port) then (RESULT_INVALID_PARAM, t, u)
      else
        let t = t\<lparr>ts_config := (ts_config t)\<lparr>tcf_server_ip := the server_ip, tcf_server_port := server_port\<rparr>\<rparr>
        in (RESULT_SUCCESS, t, snd (weware_tcp_reset_connection u)))"

text \<open>The value for a key, put into the copy.\<close>

definition tcp_config_stage :: "string \<Rightarrow> string \<Rightarrow> tcp_config \<Rightarrow> tcp_config option" where
  "tcp_config_stage key v c =
     (if key = ''ip'' then if \<not> tcp_config_host_is_valid (Some v) then None else Some (c\<lparr>tcf_server_ip := v\<rparr>)
      else if key = ''port'' then
        let port = atoi v in if \<not> tcp_config_port_is_valid port then None else Some (c\<lparr>tcf_server_port := nat port\<rparr>)
      else if key = ''conn-to'' then map_option (\<lambda>n. c\<lparr>tcf_connection_timeout_ms := n\<rparr>) (tcp_config_parse_timeout (Some v))
      else if key = ''send-to'' then map_option (\<lambda>n. c\<lparr>tcf_send_timeout_ms := n\<rparr>) (tcp_config_parse_timeout (Some v))
      else if key = ''retry'' then map_option (\<lambda>n. c\<lparr>tcf_retry_interval_ms := n\<rparr>) (tcp_config_parse_timeout (Some v))
      else if key = ''loginwithgps'' then map_option (\<lambda>b. c\<lparr>tcf_login_with_gps := b\<rparr>) (tcp_config_parse_bool (Some v))
      else if key = ''live-first'' then map_option (\<lambda>b. c\<lparr>tcf_live_first := b\<rparr>) (tcp_config_parse_bool (Some v))
      else None)"

text \<open>The loop over the pieces between commas; the empty ones are skipped.\<close>

fun tcp_config_tokens :: "string list \<Rightarrow> tcp_config \<Rightarrow> tcp_config option" where
  "tcp_config_tokens [] c = Some c"
| "tcp_config_tokens (tok # toks) c =
     (let key = tcp_config_trim tok in
      if key = [] then tcp_config_tokens toks c
      else case strchr key CHR '':'' of
        None \<Rightarrow> None
      | Some colon \<Rightarrow>
          (case tcp_config_stage (tcp_config_trim (take (length key - length colon) key)) (tcp_config_trim (tl colon)) c of
             None \<Rightarrow> None
           | Some c \<Rightarrow> tcp_config_tokens toks c))"

definition weware_tcp_config_set :: "string option \<Rightarrow> tcp_setup \<Rightarrow> result \<times> tcp_setup" where
  "weware_tcp_config_set config_string s =
     (let (t, u) = s; t = weware_tcp_config_get t in
      case config_string of
        None \<Rightarrow> (RESULT_INVALID_PARAM, t, u)
      | Some work \<Rightarrow>
          if length work \<ge> WEWARE_TCP_CONFIG_STRING_MAX then (RESULT_INVALID_PARAM, t, u)
          else case tcp_config_tokens (split_chars {CHR '',''} work) (ts_config t) of
            None \<Rightarrow> (RESULT_INVALID_PARAM, t, u)
          | Some staged \<Rightarrow>
              if weware_tcp_config_validate (Some staged) \<noteq> RESULT_SUCCESS then (RESULT_INVALID_PARAM, t, u)
              else (RESULT_SUCCESS, t\<lparr>ts_config := staged\<rparr>, snd (weware_tcp_reset_connection u)))"

definition lower_flag :: "bool \<Rightarrow> string" where
  "lower_flag b = (if b then ''true'' else ''false'')"

definition tcp_fields :: "tcp_config \<Rightarrow> (string \<times> string) list" where
  "tcp_fields c = [(''ip'', tcf_server_ip c), (''port'', dec (tcf_server_port c)), (''conn-to'', dec (tcf_connection_timeout_ms c)),
     (''send-to'', dec (tcf_send_timeout_ms c)), (''retry'', dec (tcf_retry_interval_ms c)),
     (''loginwithgps'', lower_flag (tcf_login_with_gps c)), (''live-first'', lower_flag (tcf_live_first c))]"

definition weware_tcp_config_get_string :: "bool \<Rightarrow> nat \<Rightarrow> tcp_settings \<Rightarrow> (result \<times> string) \<times> tcp_settings" where
  "weware_tcp_config_get_string buffer_ok buffer_size t =
     (let t = weware_tcp_config_get t in
      if \<not> buffer_ok \<or> buffer_size = 0 then ((RESULT_INVALID_PARAM, []), t)
      else
        let (len, s) = snprintf buffer_size (fields_text (tcp_fields (ts_config t)))
        in ((if len \<ge> int buffer_size then RESULT_ERROR else RESULT_SUCCESS, s), t))"

subsection \<open>The text form reads back\<close>

definition tcp_config_ok :: "tcp_config \<Rightarrow> bool" where
  "tcp_config_ok c \<longleftrightarrow> weware_tcp_config_validate (Some c) = RESULT_SUCCESS"

text \<open>The fields of a configuration have the ranges of their C types.\<close>

definition tcp_config_ranges :: "tcp_config \<Rightarrow> bool" where
  "tcp_config_ranges c \<longleftrightarrow> tcf_connection_timeout_ms c \<le> UINT32_MAX \<and> tcf_send_timeout_ms c \<le> UINT32_MAX \<and>
     tcf_retry_interval_ms c \<le> UINT32_MAX"

lemma host_chars:
  assumes "tcp_config_host_is_valid (Some h)"
  shows "h \<noteq> []" and "length h < 64" and "\<forall>c \<in> set h. \<not> c_isspace c \<and> c \<noteq> CHR '':'' \<and> c \<noteq> CHR '',''"
  using assms by (auto simp: tcp_config_host_is_valid_def list_all_iff c_isalnum_def c_isspace_def is_digit_def char_code_def)

lemma trim_solid:
  assumes "\<forall>c \<in> set s. \<not> c_isspace c"
  shows "tcp_config_trim s = s"
proof -
  have "dropWhile c_isspace s = s" using assms by (cases s) simp_all
  moreover have "dropWhile c_isspace (rev s) = rev s" using assms by (cases s rule: rev_cases) simp_all
  ultimately show ?thesis by (simp add: tcp_config_trim_def)
qed

text \<open>Keys and values without white space, colons and commas.\<close>

definition solid :: "string \<Rightarrow> bool" where
  "solid s \<longleftrightarrow> (\<forall>c \<in> set s. \<not> c_isspace c \<and> c \<noteq> CHR '':'' \<and> c \<noteq> CHR '','')"

lemma solid_dec: "solid (dec n)"
  using digit_chars [OF list_all_digit_dec [of n]] by (auto simp: solid_def)

lemma solid_flag: "solid (lower_flag b)"
  by (simp add: solid_def lower_flag_def c_isspace_def char_code_def)

fun stage_fields :: "(string \<times> string) list \<Rightarrow> tcp_config \<Rightarrow> tcp_config option" where
  "stage_fields [] c = Some c"
| "stage_fields ((k, v) # kvs) c = (case tcp_config_stage k v c of None \<Rightarrow> None | Some c \<Rightarrow> stage_fields kvs c)"

lemma tokens_fields:
  assumes "\<forall>(k, v) \<in> set kvs. solid k \<and> solid v"
  shows "tcp_config_tokens (map field_text kvs) c = stage_fields kvs c"
  using assms
proof (induction kvs arbitrary: c)
  case (Cons kv kvs)
  obtain k v where kv: "kv = (k, v)" by fastforce
  have s: "\<forall>x \<in> set k. \<not> c_isspace x \<and> x \<noteq> CHR '':''" "\<forall>x \<in> set v. \<not> c_isspace x"
    using Cons.prems by (auto simp: kv solid_def)
  then have t: "tcp_config_trim (field_text (k, v)) = field_text (k, v)" "tcp_config_trim k = k" "tcp_config_trim v = v"
  proof -
    have "\<forall>x \<in> set (field_text (k, v)). \<not> c_isspace x" using s by (simp add: field_text_def ball_Un c_isspace_def char_code_def)
    then show "tcp_config_trim (field_text (k, v)) = field_text (k, v)" by (rule trim_solid)
    show "tcp_config_trim k = k" "tcp_config_trim v = v" using s by (simp_all add: trim_solid)
  qed
  have c: "strchr (field_text (k, v)) CHR '':'' = Some (CHR '':'' # v)"
    using s(1) by (simp add: field_text_def) (rule strchr_Some, blast)
  have f: "field_text (k, v) \<noteq> []" "take (length (field_text (k, v)) - length (CHR '':'' # v)) (field_text (k, v)) = k"
    by (simp_all add: field_text_def)
  have "tcp_config_tokens (field_text (k, v) # toks) c =
      (case tcp_config_stage k v c of None \<Rightarrow> None | Some c \<Rightarrow> tcp_config_tokens toks c)" for toks
    by (simp only: tcp_config_tokens.simps t Let_def c f if_False option.case list.sel)
  then show ?case using Cons by (simp add: kv split: option.split)
qed simp

lemma parse_timeout_dec: "0 < n \<Longrightarrow> n \<le> UINT32_MAX \<Longrightarrow> tcp_config_parse_timeout (Some (dec n)) = Some n"
  by (simp add: tcp_config_parse_timeout_def whole_number_dec strtoul10_dec)

lemma stage_all:
  assumes "tcp_config_ok c" and "tcp_config_ranges c"
  shows "stage_fields (tcp_fields c) c0 = Some c"
proof -
  have h: "tcp_config_host_is_valid (Some (tcf_server_ip c))" "tcp_config_port_is_valid (int (tcf_server_port c))"
    and z: "0 < tcf_connection_timeout_ms c" "0 < tcf_send_timeout_ms c" "0 < tcf_retry_interval_ms c"
    using assms(1) by (auto simp: tcp_config_ok_def weware_tcp_config_validate_def split: if_splits)
  have p: "atoi (dec (tcf_server_port c)) = int (tcf_server_port c)"
    using h(2) by (intro atoi_dec) (simp add: tcp_config_port_is_valid_def)
  have b: "tcp_config_parse_bool (Some (lower_flag b)) = Some b" for b
    by (simp add: tcp_config_parse_bool_def lower_flag_def)
  show ?thesis
    using h z assms(2) by (simp add: tcp_fields_def tcp_config_stage_def tcp_config_ranges_def parse_timeout_dec p b Let_def)
qed

lemma length_tcp_text:
  assumes "tcp_config_ok c" and "tcp_config_ranges c"
  shows "length (fields_text (tcp_fields c)) \<le> 168"
proof -
  have d: "length (dec n) \<le> 10" if "n \<le> UINT32_MAX" for n using that by (intro length_dec) simp_all
  have h: "tcp_config_host_is_valid (Some (tcf_server_ip c))" "tcp_config_port_is_valid (int (tcf_server_port c))"
    using assms(1) by (auto simp: tcp_config_ok_def weware_tcp_config_validate_def split: if_splits)
  have p: "length (dec (tcf_server_port c)) \<le> 5" using h(2) by (intro length_dec) (simp_all add: tcp_config_port_is_valid_def)
  have f: "length (lower_flag b) \<le> 5" for b by (simp add: lower_flag_def)
  have "length (fields_text (tcp_fields c)) = length (tcf_server_ip c) + length (dec (tcf_server_port c)) +
      length (dec (tcf_connection_timeout_ms c)) + length (dec (tcf_send_timeout_ms c)) +
      length (dec (tcf_retry_interval_ms c)) + length (lower_flag (tcf_login_with_gps c)) +
      length (lower_flag (tcf_live_first c)) + 60"
    by (simp add: tcp_fields_def field_text_def)
  moreover have "length (tcf_server_ip c) < 64" using host_chars(2) [OF h(1)] .
  ultimately show ?thesis
    using p f [of "tcf_login_with_gps c"] f [of "tcf_live_first c"] d [of "tcf_connection_timeout_ms c"]
      d [of "tcf_send_timeout_ms c"] d [of "tcf_retry_interval_ms c"] assms(2)
    unfolding tcp_config_ranges_def by linarith
qed

end
