(* ===== verification/Remote_Config.thy ===== *)
theory Remote_Config
  imports Network_Config Tcp_Config
begin

text \<open>
  What the configurations that are set by text have in common: a text that is refused changes nothing, the text a module
  prints is the text that sets it again, and a setting that was accepted is in force after a restart.
\<close>

subsection \<open>Structs\<close>

text \<open>A struct of \<open>n\<close> bytes keeps what is put into it.\<close>

definition struct_law :: "'c struct_abi \<Rightarrow> ('c \<Rightarrow> bool) \<Rightarrow> nat \<Rightarrow> bool" where
  "struct_law A ok n \<longleftrightarrow> (\<forall>c b. ok c \<longrightarrow> length b = n \<longrightarrow> length (sa_put A c b) = n \<and> sa_get A (sa_put A c b) = c)"

lemma struct_read_write:
  "struct_law A ok n \<Longrightarrow> ok c \<Longrightarrow> length (cs_memory cs p) = n \<Longrightarrow> struct_read A p (struct_write A p c cs) = c"
  by (simp add: struct_law_def struct_read_def struct_write_def)

lemma current_initialized: "cs_config_initialized cs \<Longrightarrow> config_get_current E R cs w = (cs, w)"
  by (simp add: config_get_current_def)

lemma save_config_keeps: "cs_config_initialized (fst st) \<Longrightarrow> fst (snd (save_config E st)) = fst st"
  by (simp add: save_config_def current_initialized split_beta Let_def)

lemma struct_write_flags [simp]:
  "cs_config_initialized (struct_write A p c cs) = cs_config_initialized cs"
  "cs_file_loaded (struct_write A p c cs) = cs_file_loaded cs"
  by (simp_all add: struct_write_def)

lemma strdup_short: "length s < 2048 \<Longrightarrow> utils_strdup_for_tokenization True (Some s) = Some s"
  by (simp add: utils_strdup_for_tokenization_def bounded_len_min)

lemma config_text_success: "config_text n kvs = (RESULT_SUCCESS, s) \<Longrightarrow> s = fields_text kvs"
  by (auto simp: config_text_def snprintf_def split: if_splits)

subsection \<open>All or nothing\<close>

lemma network_set_success:
  assumes "network_config_set E A alloc_ok s st = (RESULT_SUCCESS, st')"
  obtains p t c where "network_config_get_storage (snd st) = Some p"
    and "keyed_loop network_setter s_net_cfg_keys t False (struct_read A p (fst st)) = Some (True, c)"
    and "st' = snd (save_config E (struct_write A p c (fst st), snd st))"
  using assms that by (auto simp: network_config_set_def split: option.splits prod.splits if_splits)

lemma command_set_success:
  assumes "command_config_set E A alloc_ok s st = (RESULT_SUCCESS, st')"
  obtains p t c where "config_pointer MODULE_ID_CMD (snd st) = Some p"
    and "keyed_loop command_setter s_cmd_cfg_keys t False (struct_read A p (fst st)) = Some (True, c)"
    and "st' = snd (save_config E (struct_write A p c (fst st), snd st))"
  using assms that by (auto simp: command_config_set_def split: option.splits prod.splits if_splits)

lemma set_refused:
  "network_config_set E A alloc_ok s st = (r, st') \<Longrightarrow> r \<noteq> RESULT_SUCCESS \<Longrightarrow> st' = st"
  "command_config_set E A' alloc_ok s st = (r, st') \<Longrightarrow> r \<noteq> RESULT_SUCCESS \<Longrightarrow> st' = st"
  by (auto simp: network_config_set_def command_config_set_def split: option.splits prod.splits if_splits)

text \<open>C37: A text is taken whole or not at all. When the network or the command configuration refuses it, nothing has
  changed; when it is accepted, the one in memory is a valid configuration again. The TCP client's text is refused with
  its configuration and connection as they were, or accepted with a valid configuration and the connection closed.\<close>

theorem config_set_all_or_nothing:
  assumes "cs_config_initialized (fst st)"
    and "network_config_set E A ok s st = (r, st')" and "struct_law A network_config_ok n"
    and "network_config_get_storage (snd st) = Some p" and "network_config_ok (struct_read A p (fst st))" "length (cs_memory (fst st) p) = n"
    and "command_config_set E A' ok s st = (r2, st2)" and "struct_law A' command_config_ok n'"
    and "command_config_get_storage (snd st) = Some p'" and "command_config_ok (struct_read A' p' (fst st))" "length (cs_memory (fst st) p') = n'"
    and "weware_tcp_config_set s (t, u) = (r3, t3, u3)"
  shows "(if r = RESULT_SUCCESS then network_config_ok (struct_read A p (fst st')) else st' = st) \<and>
    (if r2 = RESULT_SUCCESS then command_config_ok (struct_read A' p' (fst st2)) else st2 = st) \<and>
    (if r3 = RESULT_SUCCESS then tcp_config_ok (ts_config t3) \<and> u3 = u\<lparr>tc_state := TCP_STATE_CLOSED\<rparr>
     else ts_config t3 = ts_config (weware_tcp_config_get t) \<and> u3 = u)"
proof (intro conjI)
  show "if r = RESULT_SUCCESS then network_config_ok (struct_read A p (fst st')) else st' = st"
  proof (cases "r = RESULT_SUCCESS")
    case True
    then obtain tt c where c: "keyed_loop network_setter s_net_cfg_keys tt False (struct_read A p (fst st)) = Some (True, c)"
      "st' = snd (save_config E (struct_write A p c (fst st), snd st))"
      using network_set_success [of E A ok s st st'] assms(2,4) by (metis option.inject)
    have "network_config_ok c" by (rule network_text.loop_valid [OF assms(5) c(1)])
    then show ?thesis using c(2) assms(1,3,6) True by (simp add: save_config_keeps struct_read_write)
  next
    case False
    then show ?thesis using set_refused(1) [OF assms(2)] by simp
  qed
  show "if r2 = RESULT_SUCCESS then command_config_ok (struct_read A' p' (fst st2)) else st2 = st"
  proof (cases "r2 = RESULT_SUCCESS")
    case True
    then obtain tt c where c: "keyed_loop command_setter s_cmd_cfg_keys tt False (struct_read A' p' (fst st)) = Some (True, c)"
      "st2 = snd (save_config E (struct_write A' p' c (fst st), snd st))"
      using command_set_success [of E A' ok s st st2] assms(7,9) by (metis command_config_get_storage_def option.inject)
    have "command_config_ok c" by (rule command_text.loop_valid [OF assms(10) c(1)])
    then show ?thesis using c(2) assms(1,8,11) True by (simp add: save_config_keeps struct_read_write)
  next
    case False
    then show ?thesis using set_refused(2) [OF assms(7)] by simp
  qed
  show "if r3 = RESULT_SUCCESS then tcp_config_ok (ts_config t3) \<and> u3 = u\<lparr>tc_state := TCP_STATE_CLOSED\<rparr>
     else ts_config t3 = ts_config (weware_tcp_config_get t) \<and> u3 = u"
    using assms(12)
    by (auto simp: weware_tcp_config_set_def Let_def tcp_config_ok_def weware_tcp_reset_connection_def set_state_def
        split: option.splits if_splits)
qed

text \<open>\<open>network_config_set_apn\<close> is not so careful: with a user name that is too long it fails after it has replaced the
  access point, which is neither undone nor saved.\<close>

lemma set_apn_half_applied:
  assumes "network_config_get_storage (snd st) = Some p" and "a \<noteq> []" "length a < 32" and "32 \<le> length user"
  shows "network_config_set_apn E A (Some a) (Some user) pass st =
    (RESULT_INVALID_PARAM, struct_write A p ((struct_read A p (fst st))\<lparr>nc_apn := a\<rparr>) (fst st), snd st)"
  using assms by (simp add: network_config_set_apn_def credential_def)

text \<open>A negative number is a timeout too: \<open>strtoul\<close> reads \<open>-1\<close> as \<open>2 ^ 32 - 1\<close>.\<close>

lemma negative_timeout_accepted: "tcp_config_parse_timeout (Some ''-1'') = Some 4294967295"
  by (simp add: tcp_config_parse_timeout_def whole_number_def strtoul10_def split_sign_def is_digit_def digit_val_def
      c_isspace_def char_code_def u32_minus_def)

subsection \<open>Texts read back\<close>

lemma solid_field: "solid k \<Longrightarrow> solid v \<Longrightarrow> CHR '','' \<notin> set (field_text (k, v))"
  by (simp add: solid_def field_text_def) blast

text \<open>The text that the TCP client prints for a valid configuration is the text that sets it: given to any other
  client it is accepted, the client has the printed configuration, and its connection is closed. The buffer needs 169
  bytes at most.\<close>

theorem tcp_config_text_roundtrip:
  assumes "tcp_config_ok (ts_config t)" and "tcp_config_ranges (ts_config t)" and "ts_initialized t" and "168 < n"
  shows "\<exists>s t' u'. weware_tcp_config_get_string True n t = ((RESULT_SUCCESS, s), t) \<and>
    weware_tcp_config_set (Some s) (t0, u) = (RESULT_SUCCESS, t', u') \<and> ts_config t' = ts_config t \<and> tc_state u' = TCP_STATE_CLOSED"
proof -
  let ?c = "ts_config t" and ?s = "fields_text (tcp_fields (ts_config t))"
  have l: "length ?s \<le> 168" by (rule length_tcp_text [OF assms(1,2)])
  have h: "tcp_config_host_is_valid (Some (tcf_server_ip ?c))"
    using assms(1) by (auto simp: tcp_config_ok_def weware_tcp_config_validate_def split: if_splits)
  have so: "\<forall>(k, v) \<in> set (tcp_fields ?c). solid k \<and> solid v"
  proof -
    have "solid (tcf_server_ip ?c)" using host_chars(3) [OF h] by (simp add: solid_def)
    moreover have "solid ''ip''" "solid ''port''" "solid ''conn-to''" "solid ''send-to''" "solid ''retry''"
      "solid ''loginwithgps''" "solid ''live-first''"
      by (simp_all add: solid_def c_isspace_def char_code_def)
    ultimately show ?thesis by (simp add: tcp_fields_def solid_dec solid_flag)
  qed
  then have "\<forall>kv \<in> set (tcp_fields ?c). CHR '','' \<notin> set (field_text kv)"
    using solid_field by (metis (no_types, lifting) case_prodE)
  then have "split_chars {CHR '',''} ?s = map field_text (tcp_fields ?c)" by (intro fields_split) (simp_all add: tcp_fields_def)
  then have tok: "tcp_config_tokens (split_chars {CHR '',''} ?s) c0 = Some ?c" for c0
    using tokens_fields [OF so] stage_all [OF assms(1,2)] by simp
  have "weware_tcp_config_get_string True n t = ((RESULT_SUCCESS, ?s), t)"
    using l assms(3,4) by (simp add: weware_tcp_config_get_string_def weware_tcp_config_get_def snprintf_def Let_def)
  moreover have "weware_tcp_config_set (Some ?s) (t0, u) =
      (RESULT_SUCCESS, (weware_tcp_config_get t0)\<lparr>ts_config := ?c\<rparr>, u\<lparr>tc_state := TCP_STATE_CLOSED\<rparr>)"
    using l assms(1) tok
    by (simp add: weware_tcp_config_set_def tcp_config_ok_def weware_tcp_reset_connection_def set_state_def Let_def)
  ultimately show ?thesis by simp
qed

lemma length_fields: "length (fields_text kvs) \<le> (\<Sum>kv \<leftarrow> kvs. length (fst kv) + length (snd kv) + 2)"
  by (induction kvs rule: fields_text.induct) (simp_all add: field_text_def)

lemma network_text_short: "network_config_ok c \<Longrightarrow> length (fields_text (network_fields c)) < 2048"
proof -
  assume c: "network_config_ok c"
  then have "length (int_text (nc_cid c)) \<le> 2" by (auto simp: network_config_ok_def int_text_def intro!: length_dec)
  then show ?thesis
    using c length_fields [of "network_fields c"] by (simp add: network_config_ok_def network_fields_def flag_text_def split: if_splits)
qed

lemma command_text_short: "command_config_ok c \<Longrightarrow> length (fields_text (command_fields c)) < 2048"
proof -
  assume c: "command_config_ok c"
  then have "length (dec (cc_min_csq_threshold c)) \<le> 2" by (auto simp: command_config_ok_def intro!: length_dec)
  then show ?thesis
    using c length_fields [of "command_fields c"] by (simp add: command_config_ok_def command_fields_def flag_text_def split: if_splits)
qed

text \<open>The text that the network and the command module print for a valid configuration is the text that sets it: given
  to any device it is accepted, and that device has the printed configuration (of the command configuration all but the
  state of the relay, which is not in the text), as long as the texts in it have no comma and end in no blank.\<close>

theorem config_text_roundtrip:
  assumes "network_config_ok c" and "\<forall>(k, v) \<in> set (network_fields c). plain_value v"
    and "network_config_get_storage (snd st) = Some p" and "struct_read A p (fst st) = c"
    and "network_config_get_string A True bsz st = (RESULT_SUCCESS, s)"
    and "command_config_ok d" and "\<forall>(k, v) \<in> set (command_fields d). plain_value v"
    and "command_config_get_storage (snd st) = Some q" and "struct_read B q (fst st) = d"
    and "command_config_get_string B True bsz' st = (RESULT_SUCCESS, s')"
    and "cs_config_initialized (fst st0)" and "struct_law A network_config_ok n" and "struct_law B command_config_ok n'"
    and "network_config_get_storage (snd st0) = Some p0" and "length (cs_memory (fst st0) p0) = n"
    and "command_config_get_storage (snd st0) = Some q0" and "length (cs_memory (fst st0) q0) = n'"
  shows "\<exists>st1 st2. network_config_set E A True (Some s) st0 = (RESULT_SUCCESS, st1) \<and> struct_read A p0 (fst st1) = c \<and>
    command_config_set E B True (Some s') st0 = (RESULT_SUCCESS, st2) \<and>
    struct_read B q0 (fst st2) = d\<lparr>cc_digout_on := cc_digout_on (struct_read B q0 (fst st0))\<rparr>"
proof -
  have s: "s = fields_text (network_fields c)" "s' = fields_text (command_fields d)"
    using assms(3-5,8-10)
    by (auto simp: network_config_get_string_def command_config_get_string_def network_config_get_storage_def
        command_config_get_storage_def intro: config_text_success split: if_splits)
  have l: "length s < 2048" "length s' < 2048" "s' \<noteq> []"
    using network_text_short [OF assms(1)] command_text_short [OF assms(6)] by (simp_all add: s command_fields_def field_text_def)
  let ?d = "d\<lparr>cc_digout_on := cc_digout_on (struct_read B q0 (fst st0))\<rparr>"
  have k: "keyed_loop network_setter s_net_cfg_keys (tok_loop '','' (Some s)) False c0 = Some (True, c)"
    "keyed_loop command_setter s_cmd_cfg_keys (tok_loop '','' (Some s')) False (struct_read B q0 (fst st0)) = Some (True, ?d)" for c0
    unfolding s using network_text.text_reads_back [OF assms(1,2)] command_text.text_reads_back [OF assms(6,7)] by simp_all
  have d: "command_config_ok ?d" using assms(6) by (simp add: command_config_ok_def)
  have "network_config_set E A True (Some s) st0 =
      (RESULT_SUCCESS, snd (save_config E (struct_write A p0 c (fst st0), snd st0)))"
    using assms(14) l(1) k(1) by (simp add: network_config_set_def strdup_short)
  moreover have "command_config_set E B True (Some s') st0 =
      (RESULT_SUCCESS, snd (save_config E (struct_write B q0 ?d (fst st0), snd st0)))"
    using assms(16) l(2,3) k(2) by (simp add: command_config_set_def command_config_get_storage_def strdup_short)
  ultimately show ?thesis
    using assms(1,11-13,15,17) d by (simp add: save_config_keeps struct_read_write)
qed

subsection \<open>After a restart\<close>

text \<open>A setting that was accepted is in force after a restart. When a text for the command configuration has been
  accepted, so that the configurations were saved, then a restart that reads the file back gives the command module
  the configuration it had, with the password and the threshold that the text set.\<close>

theorem accepted_setting_survives_restart:
  assumes F: "flash_laws F C H" "flash_reliable F C H" "cv_flash E = F" and keep: "\<forall>f b. length (cv_defaults E f b) = length b"
    and R: "registry_ok (gw_modules g)" "length (gw_modules g) < 2 ^ 32" and ini: "cs_config_initialized cs"
    and ok: "\<forall>m \<in> set (gw_modules g). stored_module m \<longrightarrow> module_ok (cs_memory cs) m"
    and m: "Some m \<in> set (gw_modules g)" "stored_module (Some m)" "ptr_of (Some m) = p" "command_config_get_storage g = Some p"
    and A: "struct_law A command_config_ok (length (cs_memory cs p))" "command_config_ok (struct_read A p cs)"
    and v: "\<forall>b. cv_validate E (the (mc_config_validate_fn (m_config m))) b = command_config_validate (Some (sa_get A b))"
    and set: "command_config_set E A alloc_ok s (cs, g) = (RESULT_SUCCESS, cs', g')"
    and boot: "C w2 (file_path None) = C (gw_world g') (file_path None)" "\<not> cs_file_loaded cs2"
      "\<forall>x. length (cs_memory cs2 x) = length (cs_memory cs x)"
    and load: "config_load_from_file E (gw_modules g) None cs2 w2 = (r, cs3, w3)"
  shows "r = RESULT_SUCCESS \<and> struct_read A p cs3 = struct_read A p cs' \<and> command_config_ok (struct_read A p cs')"
proof -
  let ?R = "gw_modules g"
  obtain tt c where c: "keyed_loop command_setter s_cmd_cfg_keys tt False (struct_read A p cs) = Some (True, c)"
    "(cs', g') = snd (save_config E (struct_write A p c cs, g))"
    using command_set_success [OF set] m(4) unfolding command_config_get_storage_def by (metis fst_conv snd_conv option.inject)
  have cok: "command_config_ok c" by (rule command_text.loop_valid [OF A(2) c(1)])
  let ?cs = "struct_write A p c cs"
  have len: "length (cs_memory ?cs x) = length (cs_memory cs x)" for x
    using A(1) cok by (simp add: struct_write_def struct_law_def)
  then have ok': "\<forall>m \<in> set ?R. stored_module m \<longrightarrow> module_ok (cs_memory ?cs) m" using ok unfolding module_ok_def by metis
  have rd: "struct_read A p ?cs = c" by (rule struct_read_write [OF A(1) cok refl])
  have "command_config_validate (Some c) = RESULT_SUCCESS" using cok by (simp add: command_config_validate_def command_config_ok_def)
  then have cv: "config_valid E (cs_memory ?cs) m"
    using v rd m(3) by (simp add: config_valid_def ptr_of_def struct_read_def)
  then have sv: "savable E (cs_memory ?cs) (Some m)" using m(2) by (simp add: savable_def)
  then have "Some m \<in> set (filter (savable E (cs_memory ?cs)) ?R)" using m(1) by simp
  then have n: "count_savable_modules E ?R (cs_memory ?cs) \<noteq> 0" unfolding count_savable_modules_def by (metis length_0_conv list.set(1) empty_iff)
  obtain w1 where w1: "config_save_to_file E ?R None ?cs (gw_world g) = (RESULT_SUCCESS, w1)"
    "C w1 (file_path None) = Some (config_file E ?R (cs_memory ?cs))"
    using save_leaves [OF F ok' n] by blast
  have s1: "cs' = ?cs" "gw_world g' = w1"
    using c(2) ini w1(1) by (simp_all add: save_config_def current_initialized)
  have w2: "C w2 (file_path None) = Some (config_file E ?R (cs_memory ?cs))" using boot(1) s1(2) w1(2) by simp
  have sz: "\<forall>m \<in> set ?R. stored_module m \<longrightarrow> length (cs_memory cs2 (ptr_of m)) = length (cs_memory ?cs (ptr_of m))"
    using boot(3) len by simp
  have "r = RESULT_SUCCESS" "cs_memory cs3 p = cs_memory ?cs p"
    using load_reads [OF F keep R ok' boot(2) sz w2] load m(1,3) sv by auto
  then show ?thesis using s1(1) rd cok by (simp add: struct_read_def)
qed

subsection \<open>Evaluation\<close>

text \<open>A layout of the structs: a text of at most 31 characters has its length in front of it.\<close>

definition put_text :: "string \<Rightarrow> bytes" where
  "put_text s = byte_of_nat (length s) # map byte_of_char s @ replicate (31 - length s) 0"

definition get_text :: "bytes \<Rightarrow> string" where
  "get_text b = map char_of_byte (take (unat (hd b)) (tl b))"

lemma text_layout: "length s < 32 \<Longrightarrow> length (put_text s) = 32 \<and> get_text (put_text s @ t) = s"
  by (simp add: put_text_def get_text_def unat_byte_of_nat byte_of_nat_def comp_def)

definition flat_network :: "network_config struct_abi" where
  "flat_network = \<lparr>sa_get = (\<lambda>b. \<lparr>nc_apn = get_text (drop 2 b), nc_username = get_text (drop 34 b), nc_password = get_text (drop 66 b),
       nc_cid = int (unat (b ! 0)), nc_auto_connect = b ! 1 \<noteq> 0\<rparr>),
     sa_put = (\<lambda>c b. [byte_of_nat (nat (nc_cid c)), of_bool (nc_auto_connect c)] @ put_text (nc_apn c) @ put_text (nc_username c) @
       put_text (nc_password c) @ drop 98 b)\<rparr>"

definition flat_command :: "command_config struct_abi" where
  "flat_command = \<lparr>sa_get = (\<lambda>b. \<lparr>cc_auth_enable = b ! 0 \<noteq> 0, cc_auth_password = get_text (drop 4 b), cc_digout_on = b ! 1 \<noteq> 0,
       cc_min_csq_threshold = unat (b ! 2), cc_adoc_net_task_flag = b ! 3 \<noteq> 0\<rparr>),
     sa_put = (\<lambda>c b. [of_bool (cc_auth_enable c), of_bool (cc_digout_on c), byte_of_nat (cc_min_csq_threshold c),
       of_bool (cc_adoc_net_task_flag c)] @ put_text (cc_auth_password c) @ drop 36 b)\<rparr>"

lemma flat_laws: "struct_law flat_network network_config_ok (98 + k)" "struct_law flat_command command_config_ok (36 + k)"
proof -
  have "uint (word_of_int i :: byte) = i" if "1 \<le> i" "i \<le> 16" for i
    using that by (simp add: uint_word_of_int take_bit_int_eq_self)
  then show "struct_law flat_network network_config_ok (98 + k)"
    by (simp add: struct_law_def flat_network_def network_config_ok_def text_layout byte_of_nat_def)
  show "struct_law flat_command command_config_ok (36 + k)"
    by (simp add: struct_law_def flat_command_def command_config_ok_def text_layout byte_of_nat_def unat_byte_of_nat)
qed

text \<open>Structs of 128 bytes with the defaults in them.\<close>

definition default_store :: config_store where
  "default_store = \<lparr>cs_config_initialized = True, cs_file_loaded = True, cs_defaults_initialized = True,
     cs_memory = (\<lambda>p. if p = ''g_network_config'' then sa_put flat_network network_config_get_defaults (replicate 128 0)
       else sa_put flat_command command_config_get_defaults (replicate 128 0))\<rparr>"

lemma default_structs:
  "network_config_get_storage plain_gateway = Some ''g_network_config''"
  "command_config_get_storage plain_gateway = Some ''g_command_config''"
  "length (cs_memory default_store p) = 128"
  "struct_read flat_network ''g_network_config'' default_store = network_config_get_defaults"
  "struct_read flat_command ''g_command_config'' default_store = command_config_get_defaults"
proof -
  have ok: "network_config_ok network_config_get_defaults" "command_config_ok command_config_get_defaults"
    by (simp_all add: network_config_ok_def command_config_ok_def network_config_get_defaults_def command_config_get_defaults_def)
  note l = flat_laws(1) [of 30, unfolded struct_law_def] flat_laws(2) [of 92, unfolded struct_law_def]
  show "struct_read flat_network ''g_network_config'' default_store = network_config_get_defaults"
    "struct_read flat_command ''g_command_config'' default_store = command_config_get_defaults"
    "length (cs_memory default_store p) = 128"
    using l ok by (simp_all add: struct_read_def default_store_def)
  show "network_config_get_storage plain_gateway = Some ''g_network_config''"
    "command_config_get_storage plain_gateway = Some ''g_command_config''"
    by (simp_all add: network_config_get_storage_def command_config_get_storage_def config_pointer_def module_manager_get_config_def
        module_get_def plain_gateway_def g_modules_def g_module_network_def g_module_cmd_def)
qed

lemma defaults_ok:
  "network_config_ok network_config_get_defaults" "command_config_ok command_config_get_defaults" "tcp_config_ok tcp_config_defaults"
  by (simp_all add: network_config_ok_def command_config_ok_def network_config_get_defaults_def command_config_get_defaults_def
      tcp_config_ok_def weware_tcp_config_validate_def tcp_config_defaults_def tcp_config_host_is_valid_def c_isalnum_def
      is_digit_def char_code_def tcp_config_port_is_valid_def)

lemma default_laws: "struct_law flat_network network_config_ok 128" "struct_law flat_command command_config_ok 128"
  using flat_laws(1) [of 30] flat_laws(2) [of 92] by simp_all

text \<open>\<open>cid:7\<close> is a text for the network configuration only.\<close>

theorem config_set_all_or_nothing_witness:
  "\<forall>u. \<exists>r st' t3 u3. command_config_set plain_env flat_command True (Some ''cid:7'') (default_store, plain_gateway) = (r, st') \<and>
     r \<noteq> RESULT_SUCCESS \<and> st' = (default_store, plain_gateway) \<and>
     weware_tcp_config_set (Some ''cid:7'') (\<lparr>ts_config = tcp_config_defaults, ts_initialized = True\<rparr>, u) = (RESULT_INVALID_PARAM, t3, u3) \<and>
     ts_config t3 = tcp_config_defaults \<and> u3 = u"
proof (intro allI)
  fix u
  let ?st = "(default_store, plain_gateway)" and ?t = "\<lparr>ts_config = tcp_config_defaults, ts_initialized = True\<rparr>"
  obtain r1 s1 where 1: "network_config_set plain_env flat_network True (Some ''cid:7'') ?st = (r1, s1)" by (rule prod.exhaust)
  obtain r2 s2 where 2: "command_config_set plain_env flat_command True (Some ''cid:7'') ?st = (r2, s2)" by (rule prod.exhaust)
  obtain r3 t3 u3 where 3: "weware_tcp_config_set (Some ''cid:7'') (?t, u) = (r3, t3, u3)" by (metis prod_cases3)
  have r: "r2 = RESULT_INVALID_PARAM"
    using 2 default_structs(2)
    by (simp add: command_config_set_def command_config_get_storage_def strdup_short strtok_r_tokens trim_whitespace_strips is_blank_def
        utils_config_parse_key_def utils_config_key_to_index_def s_cmd_cfg_keys_def strcasecmp_eq_def)
  have r3: "r3 = RESULT_INVALID_PARAM"
    using 3 by (simp add: weware_tcp_config_set_def weware_tcp_config_get_def tcp_config_trim_def c_isspace_def char_code_def
        tcp_config_stage_def Let_def)
  have i: "cs_config_initialized (fst ?st)" by (simp add: default_store_def)
  note t = config_set_all_or_nothing [OF i 1 default_laws(1) _ _ _ 2 default_laws(2) _ _ _ 3]
  have "s2 = ?st \<and> ts_config t3 = tcp_config_defaults \<and> u3 = u"
    using t r r3 default_structs defaults_ok by (simp add: weware_tcp_config_get_def)
  then show "\<exists>r st' t3 u3. command_config_set plain_env flat_command True (Some ''cid:7'') ?st = (r, st') \<and>
     r \<noteq> RESULT_SUCCESS \<and> st' = ?st \<and> weware_tcp_config_set (Some ''cid:7'') (?t, u) = (RESULT_INVALID_PARAM, t3, u3) \<and>
     ts_config t3 = tcp_config_defaults \<and> u3 = u"
    using 2 3 r r3 by auto
qed

theorem tcp_config_text_roundtrip_witness:
  "\<forall>t0 u. \<exists>s t' u'. weware_tcp_config_get_string True 192 \<lparr>ts_config = tcp_config_defaults, ts_initialized = True\<rparr> =
       ((RESULT_SUCCESS, s), \<lparr>ts_config = tcp_config_defaults, ts_initialized = True\<rparr>) \<and>
     weware_tcp_config_set (Some s) (t0, u) = (RESULT_SUCCESS, t', u') \<and> ts_config t' = tcp_config_defaults"
proof (intro allI)
  fix t0 :: tcp_settings and u
  have "tcp_config_ranges tcp_config_defaults" by (simp add: tcp_config_ranges_def tcp_config_defaults_def)
  then show "\<exists>s t' u'. weware_tcp_config_get_string True 192 \<lparr>ts_config = tcp_config_defaults, ts_initialized = True\<rparr> =
       ((RESULT_SUCCESS, s), \<lparr>ts_config = tcp_config_defaults, ts_initialized = True\<rparr>) \<and>
     weware_tcp_config_set (Some s) (t0, u) = (RESULT_SUCCESS, t', u') \<and> ts_config t' = tcp_config_defaults"
    using tcp_config_text_roundtrip [of "\<lparr>ts_config = tcp_config_defaults, ts_initialized = True\<rparr>" 192 t0 u] defaults_ok(3) by auto
qed

theorem config_text_roundtrip_witness:
  "\<exists>s s' st1. network_config_get_string flat_network True 160 (default_store, plain_gateway) = (RESULT_SUCCESS, s) \<and>
     command_config_get_string flat_command True 160 (default_store, plain_gateway) = (RESULT_SUCCESS, s') \<and>
     network_config_set plain_env flat_network True (Some s) (default_store, plain_gateway) = (RESULT_SUCCESS, st1) \<and>
     struct_read flat_network ''g_network_config'' (fst st1) = network_config_get_defaults"
proof -
  let ?st = "(default_store, plain_gateway)"
  have "length (dec 20) \<le> 2" "length (int_text 1) \<le> 2" by (auto simp: int_text_def intro!: length_dec)
  then have t: "network_config_get_string flat_network True 160 ?st = (RESULT_SUCCESS, fields_text (network_fields network_config_get_defaults))"
    "command_config_get_string flat_command True 160 ?st = (RESULT_SUCCESS, fields_text (command_fields command_config_get_defaults))"
    using default_structs
    by (simp_all add: network_config_get_string_def command_config_get_string_def network_config_get_storage_def
        command_config_get_storage_def config_text_def snprintf_def network_fields_def command_fields_def field_text_def
        network_config_get_defaults_def command_config_get_defaults_def flag_text_def)
  have p: "\<forall>(k, v) \<in> set (network_fields network_config_get_defaults). plain_value v"
    "\<forall>(k, v) \<in> set (command_fields command_config_get_defaults). plain_value v"
    using plain_value_digits [OF list_all_digit_dec]
    by (simp_all add: network_fields_def command_fields_def network_config_get_defaults_def command_config_get_defaults_def int_text_def)
      (simp_all add: plain_value_def is_blank_def)
  have i: "cs_config_initialized (fst ?st)" by (simp add: default_store_def)
  show ?thesis
    using config_text_roundtrip [OF defaults_ok(1) p(1) _ _ t(1) defaults_ok(2) p(2) _ _ t(2) i default_laws, of _ _ _ _ plain_env] t default_structs
    by fastforce
qed

text \<open>A device whose password is changed to \<open>secret\<close>.\<close>

definition command_env :: "ram_world config_env" where
  "command_env = plain_env\<lparr>cv_validate := \<lambda>f b. command_config_validate (Some (sa_get flat_command b))\<rparr>"

definition command_store :: "bool \<Rightarrow> config_store" where
  "command_store on = \<lparr>cs_config_initialized = on, cs_file_loaded = on, cs_defaults_initialized = on,
     cs_memory = (\<lambda>p. sa_put flat_command command_config_get_defaults (replicate 64 0))\<rparr>"

theorem accepted_setting_survives_restart_witness:
  "\<exists>cs g r cs3 w3. command_config_set command_env flat_command True (Some ''pass:secret'') (command_store True, plain_gateway) =
       (RESULT_SUCCESS, cs, g) \<and>
     config_load_from_file command_env (gw_modules plain_gateway) None (command_store False) (gw_world g) = (r, cs3, w3) \<and>
     cc_auth_password (struct_read flat_command ''g_command_config'' cs3) = ''secret''"
proof -
  let ?c = "command_config_get_defaults" and ?m = "g_module_cmd plain_sizes :: unit module"
  let ?c' = "?c\<lparr>cc_auth_password := ''secret''\<rparr>" and ?p = "''g_command_config''"
  have law: "struct_law flat_command command_config_ok 64" using flat_laws(2) [of 28] by simp
  have len: "length (cs_memory (command_store on) x) = 64" for on x
    using law defaults_ok(2) by (simp add: command_store_def struct_law_def)
  have rd: "struct_read flat_command x (command_store on) = ?c" for on x
    using law defaults_ok(2) by (simp add: command_store_def struct_law_def struct_read_def)
  have k: "keyed_loop command_setter s_cmd_cfg_keys (tok_loop '','' (Some ''pass:secret'')) False ?c = Some (True, ?c')"
    by (simp add: strtok_r_tokens trim_whitespace_strips is_blank_def utils_config_parse_key_def utils_config_key_to_index_def
        s_cmd_cfg_keys_def strcasecmp_eq_def utils_extract_config_value_def command_setter_def)
  obtain cs g where s: "command_config_set command_env flat_command True (Some ''pass:secret'') (command_store True, plain_gateway) = (RESULT_SUCCESS, cs, g)"
    and cs: "cs = struct_write flat_command ?p ?c' (command_store True)"
    using default_structs(2) k save_config_keeps [of "(struct_write flat_command ?p ?c' (command_store True), plain_gateway)" command_env]
    by (simp add: command_config_set_def command_config_get_storage_def strdup_short rd) (simp add: command_store_def prod_eq_iff)
  obtain r cs3 w3 where l: "config_load_from_file command_env (gw_modules plain_gateway) None (command_store False) (gw_world g) = (r, cs3, w3)"
    by (metis prod_cases3)
  have E: "cv_flash command_env = ram_flash" "\<forall>f b. length (cv_defaults command_env f b) = length b"
    "\<forall>b. cv_validate command_env (the (mc_config_validate_fn (m_config ?m))) b = command_config_validate (Some (sa_get flat_command b))"
    by (simp_all add: command_env_def plain_env_def)
  have m: "Some ?m \<in> set (gw_modules plain_gateway)" "stored_module (Some ?m)" "ptr_of (Some ?m) = ?p"
    by (simp_all add: plain_modules g_modules_def g_module_cmd_def stored_module_def ptr_of_def)
  have ok: "\<forall>m \<in> set (gw_modules plain_gateway). stored_module m \<longrightarrow> module_ok (cs_memory (command_store True)) m"
    using plain_ok [of 0] len by (simp add: plain_modules module_ok_def plain_store_def)
  have R: "registry_ok (gw_modules plain_gateway)" "length (gw_modules plain_gateway) < 2 ^ 32"
    using g_modules_registry_ok plain_length by (simp_all add: plain_modules)
  have b: "cs_config_initialized (command_store True)" "\<not> cs_file_loaded (command_store False)" by (simp_all add: command_store_def)
  have "struct_read flat_command ?p cs3 = struct_read flat_command ?p cs"
    using accepted_setting_survives_restart [OF ram_laws ram_reliable E(1,2) R b(1) ok m default_structs(2) _ _ E(3) s refl b(2) _ l]
      law defaults_ok(2) by (simp add: len rd)
  moreover have "struct_read flat_command ?p cs = ?c'"
    unfolding cs by (rule struct_read_write [OF law]) (simp_all add: len command_config_ok_def command_config_get_defaults_def)
  ultimately show ?thesis using s l by auto
qed

end
