(* ===== verification/File_Purge.thy ===== *)
theory File_Purge
  imports File_System
begin

text \<open>
  The directory half of \<open>system/storage/file_system.c\<close>: the listing over the directory calls of the kernel, the purge
  of a directory that \<open>DELETE-FOLDER\<close> and \<open>FACTORY-RESET\<close> use, and the report of the disk. The kernel calls are a
  parameter (\<open>'w dir_api\<close>, \<open>components/inc/fs_api.h\<close>) with the laws the code relies on (\<open>dir_laws\<close>): a stream gives the
  entries of its directory one by one, and a deleted file leaves the listing of its directory and no other. The purge
  loops until a listing is empty, so it is an option: \<open>None\<close> when it does not return.
\<close>

subsection \<open>The directory calls\<close>

record dir_file_info =
  di_file_name :: string
  di_size :: nat
  di_permissions :: nat

text \<open>\<open>fs_readdir\<close> answers \<open>None\<close> on failure, an entry with an empty name at the end.\<close>

record 'w dir_api =
  fs_opendir :: "string \<Rightarrow> 'w \<Rightarrow> nat \<times> 'w"
  fs_readdir :: "nat \<Rightarrow> 'w \<Rightarrow> dir_file_info option \<times> 'w"
  fs_closedir :: "nat \<Rightarrow> 'w \<Rightarrow> 'w"
  sys_get_stats :: "'w \<Rightarrow> (int \<times> int) option \<times> 'w"

record file_info =
  fi_name :: string
  fi_size :: nat
  fi_type :: nat

definition FS_KERNEL_PERM_DIR :: nat where "FS_KERNEL_PERM_DIR = 0x200"
abbreviation (input) FS_ENTRY_TYPE_DIR :: nat where "FS_ENTRY_TYPE_DIR \<equiv> 1"
abbreviation (input) FS_DIR_PURGE_PATH_MAX :: nat where "FS_DIR_PURGE_PATH_MAX \<equiv> 320"
abbreviation (input) FS_DIR_PURGE_BATCH :: nat where "FS_DIR_PURGE_BATCH \<equiv> 16"

definition file_entry :: "dir_file_info \<Rightarrow> file_info" where
  "file_entry i = \<lparr>fi_name = take 259 (di_file_name i), fi_size = di_size i,
     fi_type = (if di_permissions i = FS_KERNEL_PERM_DIR then 1 else 0)\<rparr>"

fun list_loop :: "'w dir_api \<Rightarrow> nat \<Rightarrow> nat \<Rightarrow> 'w \<Rightarrow> file_info list \<times> 'w" where
  "list_loop D stream 0 w = ([], w)"
| "list_loop D stream (Suc n) w =
     (case fs_readdir D stream w of
        (None, w) \<Rightarrow> ([], w)
      | (Some info, w) \<Rightarrow>
          if di_file_name info = [] then ([], w)
          else let (es, w) = list_loop D stream n w in (file_entry info # es, w))"

definition dir_no_slash :: "string \<Rightarrow> string" where
  "dir_no_slash path = (if length path > 3 \<and> last path = CHR ''/'' then butlast path else path)"

definition sdk_file_list_dir ::
    "'w dir_api \<Rightarrow> string option \<Rightarrow> bool \<Rightarrow> nat \<Rightarrow> bool \<Rightarrow> 'w \<Rightarrow> sdk_result \<times> file_info list \<times> 'w" where
  "sdk_file_list_dir D path entries_ok max_entries out_ok w =
     (case path of
        None \<Rightarrow> (SDK_INVALID_PARAM, [], w)
      | Some p \<Rightarrow>
          if \<not> entries_ok \<or> max_entries = 0 \<or> \<not> out_ok then (SDK_INVALID_PARAM, [], w)
          else if p = [] \<or> length p \<ge> 128 then (SDK_INVALID_PARAM, [], w)
          else
            let (stream, w) = fs_opendir D (dir_no_slash p) w in
            if stream = 0 then (SDK_ERROR, [], w)
            else let (es, w) = list_loop D stream max_entries w in (SDK_SUCCESS, es, fs_closedir D stream w))"

definition file_system_list_dir ::
    "'w dir_api \<Rightarrow> string option \<Rightarrow> bool \<Rightarrow> nat \<Rightarrow> bool \<Rightarrow> 'w \<Rightarrow> result \<times> file_info list \<times> 'w" where
  "file_system_list_dir D path entries_ok max_entries out_ok w =
     (if path = None \<or> \<not> entries_ok \<or> max_entries = 0 then (RESULT_INVALID_PARAM, [], w)
      else let (sr, es, w) = sdk_file_list_dir D path entries_ok max_entries out_ok w in (sdk_to_result sr, es, w))"

text \<open>Total, free and used size in bytes.\<close>

definition sdk_file_get_disk_info ::
    "'w dir_api \<Rightarrow> string option \<Rightarrow> 'w \<Rightarrow> sdk_result \<times> (int \<times> int \<times> int) option \<times> 'w" where
  "sdk_file_get_disk_info D root_path w =
     (case root_path of
        None \<Rightarrow> (SDK_INVALID_PARAM, None, w)
      | Some r \<Rightarrow>
          if \<not> strncasecmp_eq 3 r ''C:/'' \<and> \<not> strncasecmp_eq 2 r ''C:'' then (SDK_NOT_SUPPORTED, None, w)
          else case sys_get_stats D w of
            (None, w) \<Rightarrow> (SDK_ERROR, None, w)
          | (Some (total_kb, free_kb), w) \<Rightarrow>
              (SDK_SUCCESS, Some (total_kb * 1024, free_kb * 1024, (total_kb - free_kb) * 1024), w))"

definition file_system_get_disk_info ::
    "'w dir_api \<Rightarrow> string option \<Rightarrow> 'w \<Rightarrow> result \<times> (int \<times> int \<times> int) option \<times> 'w" where
  "file_system_get_disk_info D root_path w =
     (if root_path = None then (RESULT_INVALID_PARAM, None, w)
      else let (sr, d, w) = sdk_file_get_disk_info D root_path w in (sdk_to_result sr, d, w))"

definition file_system_deinit :: result where
  "file_system_deinit = RESULT_SUCCESS"

subsection \<open>The purge of a directory\<close>

definition fs_dir_purge_path_ok :: "string option \<Rightarrow> bool" where
  "fs_dir_purge_path_ok path =
     (case path of None \<Rightarrow> False
      | Some p \<Rightarrow> p \<noteq> [] \<and> strstr p ''..'' = None \<and> strncasecmp_eq 3 p ''C:/'')"

definition fs_dir_purge_ensure_slash :: "string \<Rightarrow> nat \<Rightarrow> string" where
  "fs_dir_purge_ensure_slash dir cap =
     (if length dir = 0 \<or> length dir + 2 > cap then dir
      else if last dir \<noteq> CHR ''/'' then dir @ ''/'' else dir)"

text \<open>The counters of one round: deleted in the round, deleted and failed in total.\<close>

type_synonym purge_counts = "nat \<times> nat \<times> nat"

definition purge_entry :: "'w flash \<Rightarrow> string \<Rightarrow> file_info \<Rightarrow> purge_counts \<times> 'w \<Rightarrow> purge_counts \<times> 'w" where
  "purge_entry F folder e s =
     (let ((round_deleted, deleted, failed), w) = s; ent = fi_name e in
      if ent = [] \<or> ent = ''.'' \<or> ent = ''..'' then s
      else if fi_type e = FS_ENTRY_TYPE_DIR then s
      else if length folder + length ent + 1 > FS_DIR_PURGE_PATH_MAX then ((round_deleted, deleted, u32 (failed + 1)), w)
      else if \<not> fs_dir_purge_path_ok (Some (folder @ ent)) then ((round_deleted, deleted, u32 (failed + 1)), w)
      else
        let (ok, w) = f_delete F (folder @ ent) w in
        if ok then ((round_deleted + 1, u32 (deleted + 1), failed), w)
        else ((round_deleted, deleted, u32 (failed + 1)), w))"

partial_function (option) purge_loop ::
    "'w flash \<Rightarrow> 'w dir_api \<Rightarrow> string \<Rightarrow> nat \<Rightarrow> nat \<Rightarrow> 'w \<Rightarrow> (result \<times> (nat \<times> nat) \<times> 'w) option" where
  "purge_loop F D folder deleted failed w =
     (case sdk_file_list_dir D (Some folder) True FS_DIR_PURGE_BATCH True w of
        (sr, entries, w) \<Rightarrow>
          if sr = SDK_NOT_SUPPORTED then Some (RESULT_NOT_SUPPORTED, (0, 0), w)
          else if sr \<noteq> SDK_SUCCESS then Some (RESULT_ERROR, (0, 0), w)
          else if entries = [] then Some (RESULT_SUCCESS, (deleted, failed), w)
          else case fold (purge_entry F folder) entries ((0, deleted, failed), w) of
            ((round_deleted, deleted, failed), w) \<Rightarrow>
              if round_deleted = 0 then Some (RESULT_ERROR, (0, 0), w)
              else purge_loop F D folder deleted failed w)"

text \<open>The result, the numbers of files deleted and failed, and the world, if the loop ends.\<close>

definition file_system_delete_all_files_in_directory ::
    "'w flash \<Rightarrow> 'w dir_api \<Rightarrow> string option \<Rightarrow> 'w \<Rightarrow> (result \<times> (nat \<times> nat) \<times> 'w) option" where
  "file_system_delete_all_files_in_directory F D dir_path w =
     (case dir_path of
        None \<Rightarrow> Some (RESULT_INVALID_PARAM, (0, 0), w)
      | Some p \<Rightarrow>
          if length p \<ge> FS_DIR_PURGE_PATH_MAX then Some (RESULT_INVALID_PARAM, (0, 0), w)
          else
            let folder = fs_dir_purge_ensure_slash p FS_DIR_PURGE_PATH_MAX in
            if \<not> fs_dir_purge_path_ok (Some folder) then Some (RESULT_INVALID_PARAM, (0, 0), w)
            else purge_loop F D folder 0 0 w)"

fun wipe_loop :: "'w flash \<Rightarrow> 'w dir_api \<Rightarrow> string list \<Rightarrow> 'w \<Rightarrow> (result \<times> 'w) option" where
  "wipe_loop F D [] w = Some (RESULT_SUCCESS, w)"
| "wipe_loop F D (d # dirs) w =
     (case file_system_delete_all_files_in_directory F D (Some d) w of
        None \<Rightarrow> None
      | Some (r, _, w) \<Rightarrow> if r \<noteq> RESULT_SUCCESS then Some (r, w) else wipe_loop F D dirs w)"

definition file_system_wipe_user_flash_c :: "'w flash \<Rightarrow> 'w dir_api \<Rightarrow> 'w \<Rightarrow> (result \<times> 'w) option" where
  "file_system_wipe_user_flash_c F D w = wipe_loop F D [''C:/config/'', ''C:/queue/'', ''C:/fota/'', ''C:/preboot/''] w"

subsection \<open>What the kernel promises\<close>

text \<open>\<open>L w d\<close>: the entries of the directory \<open>d\<close>. \<open>R w s\<close>: what an open stream will still give. A read may fail
  (the stream then seems to end), an open may fail, a deletion may fail.\<close>

type_synonym 'w listing = "'w \<Rightarrow> string \<Rightarrow> dir_file_info list"

definition slashed :: "string \<Rightarrow> string" where
  "slashed d = (if d \<noteq> [] \<and> last d = CHR ''/'' then d else d @ ''/'')"

definition entry_name_ok :: "string \<Rightarrow> bool" where
  "entry_name_ok n \<longleftrightarrow> n \<noteq> [] \<and> length n < 256 \<and> CHR ''/'' \<notin> set n"

definition dir_laws ::
    "'w flash \<Rightarrow> 'w dir_api \<Rightarrow> 'w contents \<Rightarrow> 'w listing \<Rightarrow> ('w \<Rightarrow> nat \<Rightarrow> dir_file_info list option) \<Rightarrow> bool" where
  "dir_laws F D C L R \<longleftrightarrow>
     (\<forall>d w s w'. fs_opendir D d w = (s, w') \<longrightarrow> C w' = C w \<and> L w' = L w \<and> (s \<noteq> 0 \<longrightarrow> R w' s = Some (L w d))) \<and>
     (\<forall>s w r w'. fs_readdir D s w = (r, w') \<longrightarrow> C w' = C w \<and> L w' = L w \<and>
        (\<forall>es i. R w s = Some es \<and> r = Some i \<and> di_file_name i \<noteq> [] \<longrightarrow>
           (\<exists>es'. es = i # es' \<and> R w' s = Some es'))) \<and>
     (\<forall>s w. C (fs_closedir D s w) = C w \<and> L (fs_closedir D s w) = L w) \<and>
     (\<forall>p w ok w'. f_delete F p w = (ok, w') \<longrightarrow>
        C w' = (if ok then (C w)(p := None) else C w) \<and>
        L w' = (if ok then (\<lambda>d. filter (\<lambda>i. slashed d @ di_file_name i \<noteq> p) (L w d)) else L w)) \<and>
     (\<forall>w d. distinct (map di_file_name (L w d)) \<and> (\<forall>i \<in> set (L w d). entry_name_ok (di_file_name i)))"

definition dir_reliable ::
    "'w flash \<Rightarrow> 'w dir_api \<Rightarrow> 'w listing \<Rightarrow> ('w \<Rightarrow> nat \<Rightarrow> dir_file_info list option) \<Rightarrow> bool" where
  "dir_reliable F D L R \<longleftrightarrow>
     (\<forall>d w. 0 < fst (fs_opendir D d w)) \<and>
     (\<forall>s w i es. R w s = Some (i # es) \<longrightarrow> fst (fs_readdir D s w) = Some i) \<and>
     (\<forall>d w i. i \<in> set (L w d) \<and> di_permissions i \<noteq> FS_KERNEL_PERM_DIR \<longrightarrow> fst (f_delete F (slashed d @ di_file_name i) w))"

text \<open>The folders the code purges, with their slash, and the entries it deletes.\<close>

definition proper_folder :: "string \<Rightarrow> bool" where
  "proper_folder folder \<longleftrightarrow> (\<exists>d. folder = d @ ''/'' \<and> 3 \<le> length d \<and> last d \<noteq> CHR ''/'')"

definition purgeable :: "string \<Rightarrow> dir_file_info \<Rightarrow> bool" where
  "purgeable folder i \<longleftrightarrow> di_permissions i \<noteq> FS_KERNEL_PERM_DIR \<and> di_file_name i \<noteq> ''.'' \<and> di_file_name i \<noteq> ''..'' \<and>
     length folder + length (di_file_name i) + 1 \<le> FS_DIR_PURGE_PATH_MAX \<and> fs_dir_purge_path_ok (Some (folder @ di_file_name i))"

subsection \<open>Listing\<close>

lemma proper_folder_no_slash:
  assumes "proper_folder folder"
  shows "slashed (dir_no_slash folder) = folder" and "folder \<noteq> []" and "3 < length folder"
  using assms by (auto simp: proper_folder_def slashed_def dir_no_slash_def butlast_append)

lemma list_loop_spec:
  assumes "dir_laws F D C L R" and "R w s = Some es" and "list_loop D s n w = (xs, w')"
  shows "C w' = C w \<and> L w' = L w \<and> (\<exists>k \<le> n. xs = map file_entry (take k es))"
  using assms(2,3)
proof (induction n arbitrary: w es xs w')
  case 0
  then show ?case by auto
next
  case (Suc n)
  obtain r w1 where r: "fs_readdir D s w = (r, w1)" by fastforce
  have k: "C w1 = C w" "L w1 = L w" using assms(1) r unfolding dir_laws_def by blast+
  show ?case
  proof (cases "r = None \<or> (\<exists>i. r = Some i \<and> di_file_name i = [])")
    case True
    then have "xs = [] \<and> w' = w1" using Suc.prems(2) r by auto
    then show ?thesis using k by auto
  next
    case False
    then obtain i where i: "r = Some i" "di_file_name i \<noteq> []" by (cases r) auto
    then obtain es' where es: "es = i # es'" "R w1 s = Some es'"
      using assms(1) r Suc.prems(1) unfolding dir_laws_def by blast
    obtain ys w2 where l: "list_loop D s n w1 = (ys, w2)" by fastforce
    from Suc.IH [OF es(2) l] obtain m where "m \<le> n" "ys = map file_entry (take m es')" "C w2 = C w1" "L w2 = L w1"
      by blast
    then show ?thesis using Suc.prems(2) r i l es k by (auto intro!: exI [of _ "Suc m"])
  qed
qed

lemma list_loop_all:
  assumes "dir_laws F D C L R" and "dir_reliable F D L R" and "R w s = Some es" and "\<forall>i \<in> set es. di_file_name i \<noteq> []"
  shows "fst (list_loop D s n w) = map file_entry (take n es)"
  using assms(3,4)
proof (induction n arbitrary: w es)
  case (Suc n)
  show ?case
  proof (cases es)
    case Nil
    then show ?thesis using list_loop_spec [OF assms(1) Suc.prems(1) prod.collapse [symmetric], of "Suc n"]
      by (auto simp del: list_loop.simps)
  next
    case (Cons i es')
    obtain r w1 where r: "fs_readdir D s w = (r, w1)" by fastforce
    then have i: "r = Some i" "di_file_name i \<noteq> []"
      using assms(2) Suc.prems Cons unfolding dir_reliable_def by (metis fst_conv, simp)
    then have R: "R w1 s = Some es'" using assms(1) r Suc.prems(1) Cons unfolding dir_laws_def by blast
    have "fst (list_loop D s n w1) = map file_entry (take n es')"
      by (rule Suc.IH [OF R]) (use Suc.prems(2) Cons in simp)
    then show ?thesis using Cons r i by (auto split: prod.splits)
  qed
qed simp

text \<open>A listing is a part of the directory from its start, all of it (up to the size of the batch) when no call fails.\<close>

lemma sdk_file_list_dir_spec:
  assumes "dir_laws F D C L R" and "sdk_file_list_dir D (Some p) True (Suc n) True w = (sr, xs, w')"
  shows "C w' = C w \<and> L w' = L w \<and> (\<exists>k \<le> Suc n. xs = map file_entry (take k (L w (dir_no_slash p)))) \<and>
    (sr = SDK_SUCCESS \<longrightarrow> p \<noteq> [] \<and> length p < 128)"
    and "dir_reliable F D L R \<Longrightarrow> p \<noteq> [] \<Longrightarrow> length p < 128 \<Longrightarrow>
      sr = SDK_SUCCESS \<and> xs = map file_entry (take (Suc n) (L w (dir_no_slash p)))"
proof -
  let ?d = "dir_no_slash p"
  obtain s w1 where o: "fs_opendir D ?d w = (s, w1)" by fastforce
  have o1: "C w1 = C w" "L w1 = L w" "s \<noteq> 0 \<Longrightarrow> R w1 s = Some (L w ?d)" using assms(1) o unfolding dir_laws_def by blast+
  obtain ys w2 where l: "list_loop D s (Suc n) w1 = (ys, w2)" by fastforce
  have c: "C (fs_closedir D s w2) = C w2" "L (fs_closedir D s w2) = L w2" using assms(1) unfolding dir_laws_def by blast+
  have ne: "\<forall>i \<in> set (L w ?d). di_file_name i \<noteq> []" using assms(1) unfolding dir_laws_def entry_name_ok_def by blast
  show "C w' = C w \<and> L w' = L w \<and> (\<exists>k \<le> Suc n. xs = map file_entry (take k (L w ?d))) \<and>
    (sr = SDK_SUCCESS \<longrightarrow> p \<noteq> [] \<and> length p < 128)"
    using assms(2) o o1 c list_loop_spec [OF assms(1) o1(3) l] l
    by (auto simp: sdk_file_list_dir_def simp del: list_loop.simps split: if_splits intro: exI [of _ 0])
  assume D: "dir_reliable F D L R" "p \<noteq> []" "length p < 128"
  have "s \<noteq> 0" using D(1) o unfolding dir_reliable_def by (metis fst_conv less_numeral_extra(3))
  then show "sr = SDK_SUCCESS \<and> xs = map file_entry (take (Suc n) (L w ?d))"
    using assms(2) o D(2,3) l list_loop_all [OF assms(1) D(1) o1(3) ne, of "Suc n"]
    by (auto simp: sdk_file_list_dir_def simp del: list_loop.simps)
qed

subsection \<open>One round\<close>

text \<open>What deleting the set \<open>G\<close> of entries of a folder does to the flash.\<close>

definition purged :: "'w contents \<Rightarrow> 'w listing \<Rightarrow> string \<Rightarrow> dir_file_info set \<Rightarrow> 'w \<Rightarrow> 'w \<Rightarrow> bool" where
  "purged C L folder G w w' \<longleftrightarrow> G \<subseteq> set (L w (dir_no_slash folder)) \<and> (\<forall>i \<in> G. purgeable folder i) \<and>
     C w' = (\<lambda>p. if p \<in> (\<lambda>i. folder @ di_file_name i) ` G then None else C w p) \<and>
     L w' = (\<lambda>d. filter (\<lambda>i. slashed d @ di_file_name i \<notin> (\<lambda>i. folder @ di_file_name i) ` G) (L w d))"

lemma purged_empty: "purged C L folder {} w w' \<longleftrightarrow> C w' = C w \<and> L w' = L w"
  by (simp add: purged_def)

lemma purged_trans:
  assumes "purged C L folder G w w1" and "purged C L folder G' w1 w2" and "proper_folder folder"
  shows "purged C L folder (G \<union> G') w w2 \<and> G \<inter> G' = {}"
proof -
  note sl = proper_folder_no_slash(1) [OF assms(3)]
  have "G' \<subseteq> set (L w1 (dir_no_slash folder))" using assms(2) by (simp add: purged_def)
  then have G': "G' \<subseteq> set (L w (dir_no_slash folder))" "\<forall>j \<in> G'. folder @ di_file_name j \<notin> (\<lambda>i. folder @ di_file_name i) ` G"
    using assms(1) sl by (auto simp: purged_def)
  then have "G \<inter> G' = {}" by blast
  then show ?thesis using assms(1,2) G'(1) by (auto simp: purged_def image_Un intro!: filter_cong)
qed

lemma slashed_ends: "\<exists>x. slashed d = x @ ''/''"
  by (cases d rule: rev_cases) (auto simp: slashed_def)

lemma after_last_slash:
  assumes "x @ CHR ''/'' # n = y @ CHR ''/'' # m" and "CHR ''/'' \<notin> set n" and "CHR ''/'' \<notin> set m"
  shows "x = y \<and> n = m"
proof -
  have t: "takeWhile (\<lambda>c. c \<noteq> CHR ''/'') (rev (z @ CHR ''/'' # k)) = rev k" if "CHR ''/'' \<notin> set k" for z k
    using that takeWhile_append2 [of "rev k" "\<lambda>c. c \<noteq> CHR ''/''" "CHR ''/'' # rev z"] by auto
  show ?thesis using t [OF assms(2), of x] t [OF assms(3), of y] assms(1) by simp
qed

lemma child_eq:
  assumes "slashed d @ n = folder @ m" and "proper_folder folder" and "CHR ''/'' \<notin> set n" and "CHR ''/'' \<notin> set m"
  shows "slashed d = folder \<and> n = m"
proof -
  obtain x where "slashed d = x @ ''/''" using slashed_ends by blast
  moreover obtain y where "folder = y @ ''/''" using assms(2) by (auto simp: proper_folder_def)
  ultimately
  show ?thesis using after_last_slash [of x n y m] assms by auto
qed

lemma purge_entry_spec:
  assumes L: "dir_laws F D C L R" and P: "proper_folder folder" and i: "i \<in> set (L w (dir_no_slash folder))"
    and e: "purge_entry F folder (file_entry i) ((rd, del, fail), w) = ((rd', del', fail'), w')" and d: "del < 4294967296"
  obtains G where "purged C L folder G w w'" and "G \<subseteq> {i}" and "rd' = rd + card G" and "del' = u32 (del + card G)"
    and "dir_reliable F D L R \<longrightarrow> (purgeable folder i \<longleftrightarrow> G = {i})" and "G = {i} \<longrightarrow> fail' = fail"
proof -
  let ?p = "folder @ di_file_name i" and ?d = "dir_no_slash folder"
  note sl = proper_folder_no_slash(1) [OF P]
  have "entry_name_ok (di_file_name i)" using L i unfolding dir_laws_def by blast
  then have n: "fi_name (file_entry i) = di_file_name i" "di_file_name i \<noteq> []" by (simp_all add: file_entry_def entry_name_ok_def)
  show ?thesis
  proof (cases "purgeable folder i")
    case False
    then have "rd' = rd \<and> del' = del \<and> w' = w"
      using e n by (auto simp: purge_entry_def Let_def purgeable_def file_entry_def split: if_splits)
    then show ?thesis using that [of "{}"] d False by (simp add: purged_empty)
  next
    case True
    obtain b w1 where f: "f_delete F ?p w = (b, w1)" by fastforce
    have s: "((rd', del', fail'), w') = (if b then ((rd + 1, u32 (del + 1), fail), w1) else ((rd, del, u32 (fail + 1)), w1))"
      using e n True f by (auto simp: purge_entry_def Let_def purgeable_def file_entry_def)
    have fd: "C w1 = (if b then (C w)(?p := None) else C w)"
      "L w1 = (if b then (\<lambda>d. filter (\<lambda>j. slashed d @ di_file_name j \<noteq> ?p) (L w d)) else L w)"
      using L f unfolding dir_laws_def by blast+
    show ?thesis
    proof (cases b)
      case False
      then show ?thesis using that [of "{}"] s fd d True f i sl unfolding dir_reliable_def purgeable_def
        by (auto simp: purged_empty) (metis fst_conv sl)
    next
      case b: True
      have "C w1 = (\<lambda>p. if p \<in> (\<lambda>i. folder @ di_file_name i) ` {i} then None else C w p)" using fd(1) b by auto
      moreover have "L w1 = (\<lambda>d. filter (\<lambda>j. slashed d @ di_file_name j \<notin> (\<lambda>i. folder @ di_file_name i) ` {i}) (L w d))"
        using fd(2) b by simp
      ultimately have "purged C L folder {i} w w1" using i True by (simp add: purged_def)
      then show ?thesis using that [of "{i}"] s b True by simp
    qed
  qed
qed

lemma purged_rest:
  assumes "purged C L folder G w w'" and "proper_folder folder"
    and "j \<in> set (L w (dir_no_slash folder))" and "di_file_name j \<notin> di_file_name ` G"
  shows "j \<in> set (L w' (dir_no_slash folder))"
  using assms proper_folder_no_slash(1) [OF assms(2)] by (auto simp: purged_def)

lemma purge_fold:
  assumes L: "dir_laws F D C L R" and P: "proper_folder folder"
    and "distinct (map di_file_name xs)" and "set xs \<subseteq> set (L w (dir_no_slash folder))"
    and "fold (purge_entry F folder) (map file_entry xs) ((rd, del, fail), w) = ((rd', del', fail'), w')" and "del < 4294967296"
  obtains G where "purged C L folder G w w'" and "G \<subseteq> set xs" and "rd' = rd + card G" and "del' = u32 (del + card G)"
    and "dir_reliable F D L R \<longrightarrow> G = {i \<in> set xs. purgeable folder i}" and "G = set xs \<longrightarrow> fail' = fail"
  using assms(3-)
proof (induction xs arbitrary: w rd del fail thesis)
  case Nil
  then show ?case by (auto simp: purged_empty)
next
  case (Cons x xs)
  obtain rd1 del1 fail1 w1 where e: "purge_entry F folder (file_entry x) ((rd, del, fail), w) = ((rd1, del1, fail1), w1)"
    by (metis prod_cases3 prod.collapse)
  have x: "x \<in> set (L w (dir_no_slash folder))" using Cons.prems(3) by simp
  obtain G where G: "purged C L folder G w w1" "G \<subseteq> {x}" "rd1 = rd + card G" "del1 = u32 (del + card G)"
    "dir_reliable F D L R \<longrightarrow> (purgeable folder x \<longleftrightarrow> G = {x})" "G = {x} \<longrightarrow> fail1 = fail"
    by (rule purge_entry_spec [OF L P x e Cons.prems(5)])
  have sub: "set xs \<subseteq> set (L w1 (dir_no_slash folder))"
  proof
    fix j assume j: "j \<in> set xs"
    moreover have "di_file_name j \<noteq> di_file_name x" using Cons.prems(2) j by (metis distinct.simps(2) image_eqI list.simps(9) list.set_map)
    ultimately have "di_file_name j \<notin> di_file_name ` G" using G(2) by auto
    then show "j \<in> set (L w1 (dir_no_slash folder))" using purged_rest [OF G(1) P] Cons.prems(3) j by auto
  qed
  have f: "fold (purge_entry F folder) (map file_entry xs) ((rd1, del1, fail1), w1) = ((rd', del', fail'), w')"
    using Cons.prems(4) e by simp
  have d: "distinct (map di_file_name xs)" "del1 < 4294967296" using Cons.prems(2) G(4) by simp_all
  obtain G' where G': "purged C L folder G' w1 w'" "G' \<subseteq> set xs" "rd' = rd1 + card G'" "del' = u32 (del1 + card G')"
    "dir_reliable F D L R \<longrightarrow> G' = {i \<in> set xs. purgeable folder i}" "G' = set xs \<longrightarrow> fail' = fail1"
    by (rule Cons.IH [OF _ d(1) sub f d(2)])
  note T = purged_trans [OF G(1) G'(1) P]
  have fin: "finite G" "finite G'" using G(2) G'(2) finite_subset by auto
  then have c: "card (G \<union> G') = card G + card G'" using T by (simp add: card_Un_disjoint)
  have xx: "x \<notin> set xs" using Cons.prems(2) by auto
  show ?case
  proof (rule Cons.prems(1))
    show "purged C L folder (G \<union> G') w w'" using T by blast
    show "G \<union> G' \<subseteq> set (x # xs)" using G(2) G'(2) by auto
    show "rd' = rd + card (G \<union> G')" using G(3) G'(3) c by simp
    show "del' = u32 (del + card (G \<union> G'))" using G(4) G'(4) c by (simp add: u32_def mod_simps add.assoc)
    show "dir_reliable F D L R \<longrightarrow> G \<union> G' = {i \<in> set (x # xs). purgeable folder i}"
      using G(2,5) G'(5) xx by auto
    show "G \<union> G' = set (x # xs) \<longrightarrow> fail' = fail"
    proof
      assume u: "G \<union> G' = set (x # xs)"
      then have "x \<in> G" using G'(2) xx by auto
      moreover have "set xs \<subseteq> G'" using u G(2) xx by auto
      ultimately show "fail' = fail" using G(2,6) G'(2,6) by auto
    qed
  qed
qed

subsection \<open>The loop\<close>

lemma purge_loop_ends:
  assumes L: "dir_laws F D C L R" and P: "proper_folder folder" and "del < 4294967296"
  shows "\<exists>r del' fail' w' G. purge_loop F D folder del fail w = Some (r, (del', fail'), w') \<and> r \<in> {RESULT_SUCCESS, RESULT_ERROR} \<and>
    purged C L folder G w w' \<and> (r = RESULT_SUCCESS \<longrightarrow> del' = u32 (del + card G)) \<and>
    (dir_reliable F D L R \<and> length folder < 128 \<longrightarrow>
       (r = RESULT_SUCCESS \<longleftrightarrow> (\<forall>i \<in> set (L w (dir_no_slash folder)). purgeable folder i)) \<and>
       (r = RESULT_SUCCESS \<longrightarrow> fail' = fail \<and> G = set (L w (dir_no_slash folder))))"
  using assms(3)
proof (induction "length (L w (dir_no_slash folder))" arbitrary: w del fail rule: less_induct)
  case less
  let ?d = "dir_no_slash folder"
  obtain sr xs w1 where l: "sdk_file_list_dir D (Some folder) True FS_DIR_PURGE_BATCH True w = (sr, xs, w1)" by (metis prod_cases3)
  have l': "sdk_file_list_dir D (Some folder) True (Suc 15) True w = (sr, xs, w1)" using l by (simp add: numeral_eq_Suc)
  from sdk_file_list_dir_spec(1) [OF L l']
  obtain k where k: "C w1 = C w" "L w1 = L w" "xs = map file_entry (take k (L w ?d))" "k \<le> 16" by auto
  have rel: "sr = SDK_SUCCESS \<and> xs = map file_entry (take 16 (L w ?d))" if "dir_reliable F D L R" "length folder < 128"
    using sdk_file_list_dir_spec(2) [OF L l' that(1) _ that(2)] proper_folder_no_slash(2) [OF P] by simp
  note step = purge_loop.simps [of F D folder del fail w, unfolded l]
  have ns: "sr \<noteq> SDK_NOT_SUPPORTED" using l by (auto simp: sdk_file_list_dir_def split: if_splits prod.splits)
  have same: "purged C L folder {} w w1" using k by (simp add: purged_empty)
  consider (fail) "sr \<noteq> SDK_SUCCESS" | (done_) "sr = SDK_SUCCESS" "xs = []" | (go) "sr = SDK_SUCCESS" "xs \<noteq> []" by blast
  then show ?case
  proof cases
    case fail
    then have "purge_loop F D folder del fail w = Some (RESULT_ERROR, (0, 0), w1)" using step ns by simp
    moreover have "\<not> (dir_reliable F D L R \<and> length folder < 128)" using rel fail by blast
    ultimately show ?thesis using same by blast
  next
    case done_
    then have "purge_loop F D folder del fail w = Some (RESULT_SUCCESS, (del, fail), w1)" using step ns by simp
    moreover have "L w ?d = []" if "dir_reliable F D L R" "length folder < 128" using rel [OF that] done_(2) by simp
    ultimately show ?thesis using same less.prems by (intro exI [of _ "RESULT_SUCCESS"] exI conjI) auto
  next
    case go
    let ?xs = "take k (L w ?d)"
    have dist: "distinct (map di_file_name (L w ?d))" using L unfolding dir_laws_def by blast
    then have dx: "distinct (map di_file_name ?xs)" by (simp add: take_map [symmetric])
    have sx: "set ?xs \<subseteq> set (L w1 ?d)" using k(2) by (simp add: set_take_subset)
    obtain rd del1 fail1 w2 where f: "fold (purge_entry F folder) (map file_entry ?xs) ((0, del, fail), w1) = ((rd, del1, fail1), w2)"
      by (metis prod_cases3 prod.collapse)
    obtain G where G: "purged C L folder G w1 w2" "G \<subseteq> set ?xs" "rd = 0 + card G" "del1 = u32 (del + card G)"
      "dir_reliable F D L R \<longrightarrow> G = {i \<in> set ?xs. purgeable folder i}" "G = set ?xs \<longrightarrow> fail1 = fail"
      by (rule purge_fold [OF L P dx sx f less.prems])
    have fin: "finite G" using G(2) finite_subset by auto
    have G0: "purged C L folder G w w2" using purged_trans [OF same G(1) P] by simp
    show ?thesis
    proof (cases "rd = 0")
      case True
      then have e: "G = {}" using G(3) fin by simp
      have "purge_loop F D folder del fail w = Some (RESULT_ERROR, (0, 0), w2)"
        using step ns go f k(3) True by simp
      moreover have "\<exists>i \<in> set (L w ?d). \<not> purgeable folder i" if "dir_reliable F D L R"
        using G(5) that e go(2) k(3) by (metis (mono_tags, lifting) empty_Collect_eq in_set_takeD list.map_disc_iff list.set_sel(1))
      ultimately show ?thesis using G0 by blast
    next
      case False
      have "length (L w2 ?d) < length (L w ?d)"
      proof -
        obtain g where "g \<in> G" "g \<in> set (L w ?d)" using False G(2,3) in_set_takeD by (metis add_0 card.empty ex_in_conv subsetD)
        then show ?thesis using G0 proper_folder_no_slash(1) [OF P] unfolding purged_def
          by (metis (no_types, lifting) imageI length_filter_less)
      qed
      moreover have "del1 < 4294967296" using G(4) by simp
      ultimately have "\<exists>r del' fail' w' G'. purge_loop F D folder del1 fail1 w2 = Some (r, (del', fail'), w') \<and>
          r \<in> {RESULT_SUCCESS, RESULT_ERROR} \<and> purged C L folder G' w2 w' \<and> (r = RESULT_SUCCESS \<longrightarrow> del' = u32 (del1 + card G')) \<and>
          (dir_reliable F D L R \<and> length folder < 128 \<longrightarrow>
             (r = RESULT_SUCCESS \<longleftrightarrow> (\<forall>i \<in> set (L w2 ?d). purgeable folder i)) \<and>
             (r = RESULT_SUCCESS \<longrightarrow> fail' = fail1 \<and> G' = set (L w2 ?d)))" by (rule less.hyps)
      then
      obtain r del' fail' w' G' where I: "purge_loop F D folder del1 fail1 w2 = Some (r, (del', fail'), w')"
        "r \<in> {RESULT_SUCCESS, RESULT_ERROR}" "purged C L folder G' w2 w'" "r = RESULT_SUCCESS \<longrightarrow> del' = u32 (del1 + card G')"
        "dir_reliable F D L R \<and> length folder < 128 \<longrightarrow>
           (r = RESULT_SUCCESS \<longleftrightarrow> (\<forall>i \<in> set (L w2 ?d). purgeable folder i)) \<and>
           (r = RESULT_SUCCESS \<longrightarrow> fail' = fail1 \<and> G' = set (L w2 ?d))" by (elim exE conjE)
      have e: "purge_loop F D folder del fail w = Some (r, (del', fail'), w')" using step ns go f k(3) False I(1) by simp
      note T = purged_trans [OF G0 I(3) P]
      have sub: "G \<subseteq> set (L w ?d)" "G' \<subseteq> set (L w2 ?d)" "set (L w2 ?d) \<subseteq> set (L w ?d)"
        using G0 I(3) by (auto simp: purged_def)
      have stay: "j \<in> set (L w2 ?d)" if "j \<in> set (L w ?d)" "j \<notin> G" for j
        using purged_rest [OF G0 P that(1)] that dist sub(1) by (auto simp: distinct_map inj_on_def) 
      have "del' = u32 (del + card (G \<union> G'))" if "r = RESULT_SUCCESS"
        using that I(4) G(4) T fin finite_subset [OF sub(2)] by (simp add: card_Un_disjoint u32_def mod_simps add.assoc)
      moreover have "(r = RESULT_SUCCESS \<longleftrightarrow> (\<forall>i \<in> set (L w ?d). purgeable folder i)) \<and>
           (r = RESULT_SUCCESS \<longrightarrow> fail' = fail \<and> G \<union> G' = set (L w ?d))" if rl: "dir_reliable F D L R" "length folder < 128"
      proof -
        have i: "r = RESULT_SUCCESS \<longleftrightarrow> (\<forall>i \<in> set (L w2 ?d). purgeable folder i)"
          "r = RESULT_SUCCESS \<Longrightarrow> fail' = fail1 \<and> G' = set (L w2 ?d)" using I(5) that by blast+
        have g: "G = {i \<in> set ?xs. purgeable folder i}" using G(5) rl(1) by blast
        have a: "(\<forall>i \<in> set (L w2 ?d). purgeable folder i) \<longleftrightarrow> (\<forall>i \<in> set (L w ?d). purgeable folder i)"
          using stay g sub(3) by blast
        have "fail1 = fail" if "r = RESULT_SUCCESS"
        proof -
          have "G = set ?xs" using g a i(1) that by (auto dest: in_set_takeD)
          then show ?thesis using G(6) by blast
        qed
        then show ?thesis using i a stay sub by blast
      qed
      ultimately show ?thesis using e I(2) T by blast
    qed
  qed
qed

lemma purged_folder:
  assumes "dir_laws F D C L R" and "proper_folder folder" and "length folder < 128" and "fs_dir_purge_path_ok (Some folder)"
  shows "\<exists>r n m w' G. file_system_delete_all_files_in_directory F D (Some folder) w = Some (r, (n, m), w') \<and>
    r \<in> {RESULT_SUCCESS, RESULT_ERROR} \<and> purged C L folder G w w' \<and> (r = RESULT_SUCCESS \<longrightarrow> n = u32 (card G)) \<and>
    (dir_reliable F D L R \<longrightarrow>
       (r = RESULT_SUCCESS \<longleftrightarrow> (\<forall>i \<in> set (L w (dir_no_slash folder)). purgeable folder i)) \<and>
       (r = RESULT_SUCCESS \<longrightarrow> m = 0 \<and> G = set (L w (dir_no_slash folder))))"
proof -
  have "fs_dir_purge_ensure_slash folder FS_DIR_PURGE_PATH_MAX = folder" using assms(2)
    by (auto simp: fs_dir_purge_ensure_slash_def proper_folder_def)
  then have "file_system_delete_all_files_in_directory F D (Some folder) w = purge_loop F D folder 0 0 w"
    using assms(3,4) by (simp add: file_system_delete_all_files_in_directory_def)
  then show ?thesis using purge_loop_ends [OF assms(1,2), of 0 0 w] assms(3) by simp
qed

lemma purged_others:
  assumes "dir_laws F D C L R" and "purged C L folder G w w'" and "proper_folder folder" and "slashed d \<noteq> folder"
  shows "L w' d = L w d"
proof -
  have ok: "CHR ''/'' \<notin> set (di_file_name i)" if "i \<in> set (L w x)" for i x
    using assms(1) that unfolding dir_laws_def entry_name_ok_def by blast
  have "slashed d @ di_file_name i \<noteq> folder @ di_file_name j" if "i \<in> set (L w d)" "j \<in> G" for i j
    using child_eq [OF _ assms(3) ok [OF that(1)] ok] that(2) assms(2,4) by (auto simp: purged_def)
  then show ?thesis using assms(2) by (auto simp: purged_def filter_id_conv)
qed

subsection \<open>The user area\<close>

lemma wipe_loop_ends:
  assumes L: "dir_laws F D C L R" and rel: "dir_reliable F D L R"
    and P: "\<forall>f \<in> set dirs. proper_folder f \<and> length f < 128 \<and> fs_dir_purge_path_ok (Some f)" and "distinct dirs"
  shows "\<exists>r w'. wipe_loop F D dirs w = Some (r, w') \<and>
    (\<forall>p. C w' p \<noteq> C w p \<longrightarrow> C w' p = None \<and> (\<exists>f \<in> set dirs. \<exists>n. p = f @ n)) \<and>
    (\<forall>d. slashed d \<notin> set dirs \<longrightarrow> L w' d = L w d) \<and>
    (r = RESULT_SUCCESS \<longleftrightarrow> (\<forall>f \<in> set dirs. \<forall>i \<in> set (L w (dir_no_slash f)). purgeable f i)) \<and>
    (r = RESULT_SUCCESS \<longrightarrow> (\<forall>f \<in> set dirs. L w' (dir_no_slash f) = []))"
  using P assms(4)
proof (induction dirs arbitrary: w)
  case Nil
  then show ?case by simp
next
  case (Cons f dirs)
  have f: "proper_folder f" "length f < 128" "fs_dir_purge_path_ok (Some f)" and nf: "f \<notin> set dirs" using Cons.prems by simp_all
  note sf = proper_folder_no_slash(1) [OF f(1)]
  obtain r n m w1 G where p: "file_system_delete_all_files_in_directory F D (Some f) w = Some (r, (n, m), w1)"
    "purged C L f G w w1" "r = RESULT_SUCCESS \<longleftrightarrow> (\<forall>i \<in> set (L w (dir_no_slash f)). purgeable f i)"
    "r = RESULT_SUCCESS \<longrightarrow> G = set (L w (dir_no_slash f))"
    using purged_folder [OF L f, of w] rel by blast
  have o: "L w1 d = L w d" if "slashed d \<noteq> f" for d by (rule purged_others [OF L p(2) f(1) that])
  have c: "C w1 q = None \<and> (\<exists>n. q = f @ n)" if "C w1 q \<noteq> C w q" for q using p(2) that by (auto simp: purged_def split: if_splits)
  show ?case
  proof (cases "r = RESULT_SUCCESS")
    case False
    then show ?thesis using p(1,3) c o by auto
  next
    case True
    obtain r2 w2 where I: "wipe_loop F D dirs w1 = Some (r2, w2)"
      "\<forall>p. C w2 p \<noteq> C w1 p \<longrightarrow> C w2 p = None \<and> (\<exists>f \<in> set dirs. \<exists>n. p = f @ n)" "\<forall>d. slashed d \<notin> set dirs \<longrightarrow> L w2 d = L w1 d"
      "r2 = RESULT_SUCCESS \<longleftrightarrow> (\<forall>f \<in> set dirs. \<forall>i \<in> set (L w1 (dir_no_slash f)). purgeable f i)"
      "r2 = RESULT_SUCCESS \<longrightarrow> (\<forall>f \<in> set dirs. L w2 (dir_no_slash f) = [])"
      using Cons.IH [of w1] Cons.prems by auto
    have e: "L w1 (dir_no_slash f) = []" using p(2,4) True sf by (auto simp: purged_def filter_empty_conv)
    have f2: "L w2 (dir_no_slash f) = []" using I(3) sf nf e by simp
    have same: "L w1 (dir_no_slash g) = L w (dir_no_slash g)" if "g \<in> set dirs" for g
      using o [of "dir_no_slash g"] that proper_folder_no_slash(1) [of g] Cons.prems nf by auto
    have frame: "C w2 q = None \<and> (\<exists>f' \<in> set (f # dirs). \<exists>n. q = f' @ n)" if "C w2 q \<noteq> C w q" for q
      using I(2) c [of q] that by (cases "C w2 q = C w1 q") auto
    have "wipe_loop F D (f # dirs) w = Some (r2, w2)" using p(1) True I(1) by simp
    moreover have "r2 = RESULT_SUCCESS \<longleftrightarrow> (\<forall>f' \<in> set (f # dirs). \<forall>i \<in> set (L w (dir_no_slash f')). purgeable f' i)"
      using I(4) same p(3) True by auto
    moreover have "r2 = RESULT_SUCCESS \<longrightarrow> (\<forall>f' \<in> set (f # dirs). L w2 (dir_no_slash f') = [])" using I(5) f2 by simp
    moreover have "\<forall>d. slashed d \<notin> set (f # dirs) \<longrightarrow> L w2 d = L w d" using I(3) o by auto
    ultimately show ?thesis using frame by blast
  qed
qed

definition user_folders :: "string list" where
  "user_folders = [''C:/config/'', ''C:/queue/'', ''C:/fota/'', ''C:/preboot/'']"

lemma user_folders_ok: "\<forall>f \<in> set user_folders. proper_folder f \<and> length f < 128 \<and> fs_dir_purge_path_ok (Some f)"
  by (auto simp: user_folders_def proper_folder_def fs_dir_purge_path_ok_def strncasecmp_eq.simps numeral_eq_Suc
      intro: exI [of _ "''C:/config''"] exI [of _ "''C:/queue''"] exI [of _ "''C:/fota''"] exI [of _ "''C:/preboot''"])

subsection \<open>A directory in memory\<close>

text \<open>The entries \<open>B\<close> that can be there, which of them are, and the open stream.\<close>

type_synonym flat_world = "(string \<Rightarrow> bool) \<times> dir_file_info list option"

definition flat_list :: "(string \<Rightarrow> dir_file_info list) \<Rightarrow> flat_world listing" where
  "flat_list B w d = filter (\<lambda>i. fst w (slashed d @ di_file_name i)) (B d)"

definition flat_contents :: "flat_world contents" where
  "flat_contents w p = (if fst w p then Some [] else None)"

definition flat_dir :: "(string \<Rightarrow> dir_file_info list) \<Rightarrow> flat_world dir_api" where
  "flat_dir B = \<lparr>fs_opendir = (\<lambda>d w. (1, fst w, Some (flat_list B w d))),
     fs_readdir = (\<lambda>s w. case snd w of Some (i # es) \<Rightarrow> (Some i, fst w, Some es) | _ \<Rightarrow> (None, w)),
     fs_closedir = (\<lambda>s w. (fst w, None)), sys_get_stats = (\<lambda>w. (Some (1024, 512), w))\<rparr>"

definition flat_flash :: "flat_world flash" where
  "flat_flash = \<lparr>f_open = (\<lambda>p m w. (None, w)), f_close = (\<lambda>h w. (True, w)), f_write = (\<lambda>h d w. (False, 0, w)),
     f_read = (\<lambda>h n w. (False, [], w)), f_seek = (\<lambda>h i w. (False, w)), f_size = (\<lambda>h w. (False, 0, w)),
     f_exists = (\<lambda>p w. (fst w p, w)), f_delete = (\<lambda>p w. (True, (fst w)(p := False), snd w)),
     f_mkdir = (\<lambda>p w. (SDK_SUCCESS, w)), f_rename = (\<lambda>p q w. (SDK_ERROR, w)), f_seek_cur = (\<lambda>h n w. (False, w)),
     f_sync = (\<lambda>h w. (True, w))\<rparr>"

lemma flat_dir_laws:
  assumes "\<forall>d. distinct (map di_file_name (B d)) \<and> (\<forall>i \<in> set (B d). entry_name_ok (di_file_name i))"
  shows "dir_laws flat_flash (flat_dir B) flat_contents (flat_list B) (\<lambda>w s. snd w)"
    and "dir_reliable flat_flash (flat_dir B) (flat_list B) (\<lambda>w s. snd w)"
proof -
  have "distinct (map di_file_name (flat_list B w d))" for w d using assms by (simp add: flat_list_def distinct_map_filter)
  then show "dir_laws flat_flash (flat_dir B) flat_contents (flat_list B) (\<lambda>w s. snd w)"
    using assms unfolding dir_laws_def
    by (auto simp: flat_flash_def flat_dir_def flat_contents_def flat_list_def fun_eq_iff split: option.splits list.splits intro!: filter_cong) metis
  show "dir_reliable flat_flash (flat_dir B) (flat_list B) (\<lambda>w s. snd w)"
    by (auto simp: dir_reliable_def flat_flash_def flat_dir_def)
qed

subsection \<open>Deleting a folder, and the factory reset\<close>

text \<open>C23: The purge of a folder always comes to an end. It deletes files of that folder and nothing else; and when the
  flash does not fail it reports success exactly when every entry of the folder is a file it may delete, and then the
  folder is empty. So a folder that holds a directory (or that lists the entries . and ..) is emptied of files
  round by round but always reported as an error, although directories are documented to be skipped.\<close>

theorem folder_purge_ends:
  assumes "dir_laws F D C L R" and "proper_folder folder" and "length folder < 128" and "fs_dir_purge_path_ok (Some folder)"
  shows "\<exists>r n w'. file_system_delete_all_files_in_directory F D (Some folder) w = Some (r, n, w') \<and>
    (\<forall>p. C w' p \<noteq> C w p \<longrightarrow> (\<exists>i \<in> set (L w (dir_no_slash folder)). purgeable folder i \<and> p = folder @ di_file_name i)) \<and>
    (dir_reliable F D L R \<longrightarrow>
      (if \<forall>i \<in> set (L w (dir_no_slash folder)). purgeable folder i
       then r = RESULT_SUCCESS \<and> n = (u32 (length (L w (dir_no_slash folder))), 0) \<and> L w' (dir_no_slash folder) = []
       else r = RESULT_ERROR))"
proof -
  let ?d = "dir_no_slash folder"
  obtain r n m w' G where p: "file_system_delete_all_files_in_directory F D (Some folder) w = Some (r, (n, m), w')"
    "r \<in> {RESULT_SUCCESS, RESULT_ERROR}" "purged C L folder G w w'" "r = RESULT_SUCCESS \<longrightarrow> n = u32 (card G)"
    "dir_reliable F D L R \<longrightarrow> (r = RESULT_SUCCESS \<longleftrightarrow> (\<forall>i \<in> set (L w ?d). purgeable folder i)) \<and>
       (r = RESULT_SUCCESS \<longrightarrow> m = 0 \<and> G = set (L w ?d))"
    using purged_folder [OF assms, of w] by blast
  have "\<exists>i \<in> set (L w ?d). purgeable folder i \<and> q = folder @ di_file_name i" if "C w' q \<noteq> C w q" for q
    using p(3) that unfolding purged_def by (auto split: if_splits)
  moreover have "card (set (L w ?d)) = length (L w ?d)"
    using assms(1) unfolding dir_laws_def by (metis distinct_card distinct_map)
  moreover have "L w' ?d = []" if "G = set (L w ?d)"
    using p(3) that proper_folder_no_slash(1) [OF assms(2)] by (auto simp: purged_def filter_empty_conv)
  ultimately show ?thesis using p by auto
qed

definition logs_folder :: "string \<Rightarrow> dir_file_info list" where
  "logs_folder d = (if d = ''C:/logs'' then [\<lparr>di_file_name = ''a.txt'', di_size = 3, di_permissions = 0\<rparr>,
     \<lparr>di_file_name = ''old'', di_size = 0, di_permissions = FS_KERNEL_PERM_DIR\<rparr>] else [])"

lemma folder_purge_ends_witness:
  "\<exists>r n w'. file_system_delete_all_files_in_directory flat_flash (flat_dir logs_folder) (Some ''C:/logs/'') (\<lambda>p. True, None) = Some (r, n, w') \<and>
     r = RESULT_ERROR \<and> flat_contents w' ''C:/logs2/a.txt'' \<noteq> None"
proof -
  have B: "\<forall>d. distinct (map di_file_name (logs_folder d)) \<and> (\<forall>i \<in> set (logs_folder d). entry_name_ok (di_file_name i))"
    by (simp add: logs_folder_def entry_name_ok_def)
  have P: "proper_folder ''C:/logs/''" by (auto simp: proper_folder_def intro: exI [of _ "''C:/logs''"])
  have o: "fs_dir_purge_path_ok (Some ''C:/logs/'')" by (simp add: fs_dir_purge_path_ok_def strncasecmp_eq.simps numeral_eq_Suc)
  have d: "dir_no_slash ''C:/logs/'' = ''C:/logs''" by (simp add: dir_no_slash_def)
  let ?w = "(\<lambda>p. True, None)"
  have l: "flat_list logs_folder ?w ''C:/logs'' = logs_folder ''C:/logs''" by (simp add: flat_list_def)
  have np: "\<not> (\<forall>i \<in> set (logs_folder ''C:/logs''). purgeable ''C:/logs/'' i)" by (simp add: logs_folder_def purgeable_def)
  obtain r n w' where r: "file_system_delete_all_files_in_directory flat_flash (flat_dir logs_folder) (Some ''C:/logs/'') ?w = Some (r, n, w')"
    "\<forall>p. flat_contents w' p \<noteq> flat_contents ?w p \<longrightarrow> (\<exists>i \<in> set (logs_folder ''C:/logs''). purgeable ''C:/logs/'' i \<and> p = ''C:/logs/'' @ di_file_name i)"
    "r = RESULT_ERROR"
    using folder_purge_ends [OF flat_dir_laws(1) [OF B] P _ o, of ?w] flat_dir_laws(2) [OF B] np unfolding d l by auto
  have "flat_contents w' ''C:/logs2/a.txt'' = flat_contents ?w ''C:/logs2/a.txt''" using r(2) [THEN spec, of "''C:/logs2/a.txt''"] by auto
  then show ?thesis using r by (auto simp: flat_contents_def)
qed

text \<open>The factory reset ends too. With flash that does not fail it reports success exactly when nothing in the four
  folders of the user area resists, and then they are empty; whatever it reports, only files in these folders are gone.\<close>

theorem factory_wipe_outcome:
  assumes "dir_laws F D C L R" and "dir_reliable F D L R"
  shows "\<exists>r w'. file_system_wipe_user_flash_c F D w = Some (r, w') \<and>
    (\<forall>p. C w' p \<noteq> C w p \<longrightarrow> C w' p = None \<and> (\<exists>f \<in> set user_folders. \<exists>n. p = f @ n)) \<and>
    (r = RESULT_SUCCESS \<longleftrightarrow> (\<forall>f \<in> set user_folders. \<forall>i \<in> set (L w (dir_no_slash f)). purgeable f i)) \<and>
    (r = RESULT_SUCCESS \<longrightarrow> (\<forall>f \<in> set user_folders. L w' (dir_no_slash f) = []))"
proof -
  have "distinct user_folders" by (simp add: user_folders_def)
  from wipe_loop_ends [OF assms user_folders_ok this, of w] show ?thesis
    by (auto simp: file_system_wipe_user_flash_c_def user_folders_def [symmetric])
qed

definition user_area :: "string \<Rightarrow> dir_file_info list" where
  "user_area d = (if d = ''C:/queue'' then [\<lparr>di_file_name = ''tcp.dat'', di_size = 3, di_permissions = 0\<rparr>] else [])"

lemma factory_wipe_outcome_witness:
  "\<exists>w'. file_system_wipe_user_flash_c flat_flash (flat_dir user_area) (\<lambda>p. True, None) = Some (RESULT_SUCCESS, w')"
proof -
  have B: "\<forall>d. distinct (map di_file_name (user_area d)) \<and> (\<forall>i \<in> set (user_area d). entry_name_ok (di_file_name i))"
    by (simp add: user_area_def entry_name_ok_def)
  have "\<forall>f \<in> set user_folders. \<forall>i \<in> set (flat_list user_area (\<lambda>p. True, None) (dir_no_slash f)). purgeable f i"
    by (simp add: user_folders_def flat_list_def user_area_def dir_no_slash_def purgeable_def fs_dir_purge_path_ok_def
        FS_KERNEL_PERM_DIR_def strncasecmp_eq.simps numeral_eq_Suc)
  then show ?thesis using factory_wipe_outcome [OF flat_dir_laws [OF B], of "(\<lambda>p. True, None)"] by blast
qed

end
