(* ===== verification/Command_Handler.thy ===== *)
theory Command_Handler
  imports Command_Parser Remote_Config File_Purge Uart_Task Stm_Command_Map Time_Utils
begin

text \<open>
  \<open>module/command/command_handler.c\<close>: the steps that process a command and the functions that execute one. The
  state \<open>('u, 'w) device\<close> bundles what commands act on: the command manager, the UART manager, the TCP client with its
  settings, the configuration store and the gateway that all modules share. Functions of modules that are not modelled
  (GPS, system configuration, firmware update) are the parameter \<open>ce_call\<close>. A handler returns its result, the text of
  the answer and the device; \<open>None\<close> says that it does not return (a purge of a folder is a loop of the kernel's doing).
\<close>

subsection \<open>State\<close>

record cmd_handler_stats =
  hs_total_received :: nat
  hs_total_processed :: nat
  hs_error_count :: nat
  hs_invalid_cmd_count :: nat
  hs_auth_failures :: nat

record command_manager =
  cm_task_ref :: "nat option"
  cm_initialized :: bool
  cm_module :: bool
  cm_config :: string
  cm_stats :: cmd_handler_stats
  cm_task_stats :: task_stats
  cm_task_interval_ms :: nat

record ('u, 'w) device =
  dv_command :: command_manager
  dv_uart :: uart_manager
  dv_tcp :: tcp_setup
  dv_store :: config_store
  dv_gateway :: "('u, 'w) gateway"

text \<open>\<open>ce_call f args n\<close>: the function \<open>f\<close> of another module with its argument text and a buffer of \<open>n\<close> characters.\<close>

record ('u, 'w) cmd_env =
  ce_os :: "('u, 'w) os"
  ce_config :: "'w config_env"
  ce_network_abi :: "network_config struct_abi"
  ce_command_abi :: "command_config struct_abi"
  ce_alloc_ok :: "'w \<Rightarrow> bool"
  ce_dir :: "'w dir_api"
  ce_rtc :: "'w \<Rightarrow> network_time option \<times> network_time option"
  ce_queue_alloc :: "'w \<Rightarrow> (nat option \<times> bool \<times> bool \<times> module_message list) \<times> 'w"
  ce_task_create :: "'w \<Rightarrow> nat option \<times> 'w"
  ce_task_delete :: "nat \<Rightarrow> 'w \<Rightarrow> 'w"
  ce_system_reset :: "'w \<Rightarrow> 'w"
  ce_listener :: "nat \<Rightarrow> event_data \<Rightarrow> nat \<Rightarrow> event_manager \<times> ('u, 'w) gateway \<Rightarrow> event_manager \<times> ('u, 'w) gateway"
  ce_call :: "string \<Rightarrow> string option \<Rightarrow> nat \<Rightarrow> ('u, 'w) device \<Rightarrow> (result \<times> string) \<times> ('u, 'w) device"

type_synonym ('u, 'w) answer = "(result \<times> string) \<times> ('u, 'w) device"

abbreviation dv_world :: "('u, 'w) device \<Rightarrow> 'w" where "dv_world d \<equiv> gw_world (dv_gateway d)"

definition dv_set_world :: "'w \<Rightarrow> ('u, 'w) device \<Rightarrow> ('u, 'w) device" where
  "dv_set_world w d = d\<lparr>dv_gateway := (dv_gateway d)\<lparr>gw_world := w\<rparr>\<rparr>"

definition dv_config :: "('u, 'w) device \<Rightarrow> ('u, 'w) config_state" where
  "dv_config d = (dv_store d, dv_gateway d)"

definition dv_set_config :: "('u, 'w) config_state \<Rightarrow> ('u, 'w) device \<Rightarrow> ('u, 'w) device" where
  "dv_set_config st d = d\<lparr>dv_store := fst st, dv_gateway := snd st\<rparr>"

definition count_stats :: "(cmd_handler_stats \<Rightarrow> cmd_handler_stats) \<Rightarrow> ('u, 'w) device \<Rightarrow> ('u, 'w) device" where
  "count_stats f d = d\<lparr>dv_command := (dv_command d)\<lparr>cm_stats := f (cm_stats (dv_command d))\<rparr>\<rparr>"

definition inc_received :: "cmd_handler_stats \<Rightarrow> cmd_handler_stats" where
  "inc_received s = s\<lparr>hs_total_received := u32 (hs_total_received s + 1)\<rparr>"
definition inc_invalid :: "cmd_handler_stats \<Rightarrow> cmd_handler_stats" where
  "inc_invalid s = s\<lparr>hs_invalid_cmd_count := u32 (hs_invalid_cmd_count s + 1)\<rparr>"
definition inc_error :: "cmd_handler_stats \<Rightarrow> cmd_handler_stats" where
  "inc_error s = s\<lparr>hs_error_count := u32 (hs_error_count s + 1)\<rparr>"
definition inc_auth_failures :: "cmd_handler_stats \<Rightarrow> cmd_handler_stats" where
  "inc_auth_failures s = s\<lparr>hs_auth_failures := u32 (hs_auth_failures s + 1)\<rparr>"

definition cmd_state_handle_update_stats :: "result \<Rightarrow> ('u, 'w) device \<Rightarrow> ('u, 'w) device" where
  "cmd_state_handle_update_stats r d = count_stats (\<lambda>s.
     let s = s\<lparr>hs_total_processed := u32 (hs_total_processed s + 1)\<rparr> in if r \<noteq> RESULT_SUCCESS then inc_error s else s) d"

text \<open>What \<open>snprintf\<close> leaves in the buffer of the answer.\<close>

definition reply :: "nat \<Rightarrow> string \<Rightarrow> string" where
  "reply n s = snd (snprintf n s)"

subsection \<open>Functions of the commands\<close>

definition cmd_broadcast_reset :: "('u, 'w) cmd_env \<Rightarrow> string \<Rightarrow> ('u, 'w) device \<Rightarrow> ('u, 'w) device" where
  "cmd_broadcast_reset E source d =
     (let (r, em, g) = event_manager_broadcast (call_listener (ce_listener E)) EVENT_RESET_SOFT (Some source) None 0
            (gw_events (dv_gateway d), dv_gateway d)
      in d\<lparr>dv_gateway := g\<lparr>gw_events := em\<rparr>\<rparr>)"

definition cmd_mod_reboot :: "('u, 'w) cmd_env \<Rightarrow> nat \<Rightarrow> ('u, 'w) device \<Rightarrow> ('u, 'w) answer" where
  "cmd_mod_reboot E n d =
     (if n = 0 then ((RESULT_ERROR, []), d)
      else ((RESULT_SUCCESS, reply n ''OK: Soft reset event broadcast''), cmd_broadcast_reset E ''Command Manager'' d))"

definition cmd_hard_reset :: "('u, 'w) cmd_env \<Rightarrow> nat \<Rightarrow> ('u, 'w) device \<Rightarrow> ('u, 'w) answer" where
  "cmd_hard_reset E n d = ((RESULT_ERROR, []), dv_set_world (ce_system_reset E (dv_world d)) d)"

definition folder_path :: "string \<Rightarrow> string" where
  "folder_path name = FLASH_ROOT @ name @ ''/''"

text \<open>The end of \<open>cmd_delete_folder\<close>, once the folder is known.\<close>

definition folder_answer :: "nat \<Rightarrow> string \<Rightarrow> result \<times> nat \<times> nat \<Rightarrow> result \<times> string" where
  "folder_answer n name p =
     (case p of (r, deleted, failed) \<Rightarrow>
        if r = RESULT_NOT_SUPPORTED then (RESULT_ERROR, reply n ''ERROR: list_dir not supported on this platform'')
        else if r \<noteq> RESULT_SUCCESS then (RESULT_ERROR, reply n (''ERROR: delete folder failed for '' @ CHR 0x27 # folder_path name @ [CHR 0x27]))
        else if failed > 0 then
          (RESULT_SUCCESS, reply n (''OK: deleted '' @ dec deleted @ '' fail '' @ dec failed @ '' folder='' @ name))
        else (RESULT_SUCCESS, reply n (''OK: deleted '' @ dec deleted @ '' files folder='' @ name)))"

definition cmd_delete_folder :: "('u, 'w) cmd_env \<Rightarrow> string option \<Rightarrow> nat \<Rightarrow> ('u, 'w) device \<Rightarrow> ('u, 'w) answer option" where
  "cmd_delete_folder E args n d =
     (if n = 0 then Some ((RESULT_ERROR, []), d)
      else case args of
        None \<Rightarrow> Some ((RESULT_INVALID_PARAM, reply n ''ERROR: Missing folder name''), d)
      | Some a \<Rightarrow>
          let args_trim = the (utils_trim_whitespace (Some (take (ARGS_SIZE - 1) a))) in
          if args_trim = [] then Some ((RESULT_INVALID_PARAM, reply n ''ERROR: Missing folder name''), d)
          else
            let (count, name) = scan_folder args_trim in
            if count \<noteq> 1 then Some ((RESULT_INVALID_PARAM, reply n ''ERROR: Pass one folder name only''), d)
            else if \<not> cmd_delete_folder_name_valid (Some name) then
              Some ((RESULT_INVALID_PARAM, reply n ''ERROR: Invalid folder name (no path or ..)''), d)
            else if length (folder_path name) \<ge> 320 then Some ((RESULT_INVALID_PARAM, reply n ''ERROR: Path too long''), d)
            else if \<not> cmd_delete_folder_resolved_ok (Some (folder_path name)) then
              Some ((RESULT_INVALID_PARAM, reply n ''ERROR: Invalid resolved path''), d)
            else
              (case file_system_delete_all_files_in_directory (os_flash (ce_os E)) (ce_dir E) (Some (folder_path name)) (dv_world d) of
                 None \<Rightarrow> None
               | Some (r, c, w) \<Rightarrow> Some (folder_answer n name (r, c), dv_set_world w d)))"

definition cmd_factory_reset :: "('u, 'w) cmd_env \<Rightarrow> nat \<Rightarrow> ('u, 'w) device \<Rightarrow> ('u, 'w) answer option" where
  "cmd_factory_reset E n d =
     (if n = 0 then Some ((RESULT_ERROR, []), d)
      else
        (case file_system_wipe_user_flash_c (os_flash (ce_os E)) (ce_dir E) (dv_world d) of
           None \<Rightarrow> None
         | Some (r, w) \<Rightarrow>
             let d = dv_set_world w d in
             if r = RESULT_NOT_SUPPORTED then Some ((RESULT_ERROR, reply n ''ERROR: wipe not supported (no reboot)''), d)
             else if r \<noteq> RESULT_SUCCESS then Some ((RESULT_ERROR, reply n ''ERROR: wipe failed (no reboot)''), d)
             else Some ((RESULT_SUCCESS, reply n ''OK: factory folders cleared; rebooting''), cmd_broadcast_reset E ''FACTORY-RESET'' d)))"

definition cmd_force_ota :: "('u, 'w) cmd_env \<Rightarrow> nat \<Rightarrow> ('u, 'w) device \<Rightarrow> ('u, 'w) answer" where
  "cmd_force_ota E n d =
     (if n = 0 then ((RESULT_ERROR, []), d)
      else let ((r, _), d) = ce_call E ''ota_manager_force_update'' None 0 d in
        if r = RESULT_BUSY then ((RESULT_SUCCESS, reply n ''OTA already in progress; not restarted''), d)
        else ((RESULT_SUCCESS, reply n ''OK: FORCED-OTA armed (SIMCOM,STM,peripheral; gates bypassed)''), d))"

definition cmd_get_ota_status :: "('u, 'w) cmd_env \<Rightarrow> nat \<Rightarrow> ('u, 'w) device \<Rightarrow> ('u, 'w) answer" where
  "cmd_get_ota_status E n d =
     (if n = 0 then ((RESULT_ERROR, []), d)
      else let ((_, s), d) = ce_call E ''ota_manager_get_status_string'' None n d in ((RESULT_SUCCESS, s), d))"

text \<open>The variant compiled with \<open>DIGOUT_UNAVAILABLE\<close>, as \<open>command_config.h\<close> sets it.\<close>

definition cmd_digout :: "nat \<Rightarrow> result \<times> string" where
  "cmd_digout n =
     (RESULT_ERROR, if n = 0 then [] else reply n ''ERROR: DIGOUT unavailable (digout manager not present)'')"

definition cmd_set_min_csq :: "('u, 'w) cmd_env \<Rightarrow> string option \<Rightarrow> nat \<Rightarrow> ('u, 'w) device \<Rightarrow> ('u, 'w) answer" where
  "cmd_set_min_csq E args n d =
     (if n = 0 then ((RESULT_ERROR, []), d)
      else case args of
        None \<Rightarrow> ((RESULT_INVALID_PARAM, reply n ''ERROR: Missing CSQ value (0-31)''), d)
      | Some a \<Rightarrow>
          if a = [] then ((RESULT_INVALID_PARAM, reply n ''ERROR: Missing CSQ value (0-31)''), d)
          else
            let trim = the (utils_trim_whitespace (Some (take 31 a))) in
            if \<not> whole_number trim \<or> atoi trim < 0 \<or> atoi trim > 31 then
              ((RESULT_INVALID_PARAM, reply n ''ERROR: Invalid CSQ (use 0-31, 0=disabled)''), d)
            else
              (case command_config_get_storage (dv_gateway d) of
                 None \<Rightarrow> ((RESULT_ERROR, reply n ''ERROR: Command config unavailable''), d)
               | Some p \<Rightarrow>
                   let A = ce_command_abi E; v = nat (atoi trim);
                       c = (struct_read A p (dv_store d))\<lparr>cc_min_csq_threshold := v\<rparr>;
                       (r, st) = save_config (ce_config E) (struct_write A p c (dv_store d), dv_gateway d);
                       d = dv_set_config st d
                   in if r \<noteq> RESULT_SUCCESS then ((RESULT_ERROR, reply n ''ERROR: Failed to save config''), d)
                      else ((RESULT_SUCCESS, reply n (''OK: min-csq:'' @ dec (cc_min_csq_threshold (struct_read A p (dv_store d))))), d)))"

definition cmd_gps_power_common :: "('u, 'w) cmd_env \<Rightarrow> bool \<Rightarrow> nat \<Rightarrow> ('u, 'w) device \<Rightarrow> ('u, 'w) answer" where
  "cmd_gps_power_common E on n d =
     (if n = 0 then ((RESULT_ERROR, []), d)
      else let ((r, _), d) = ce_call E ''gps_ops_set_power_enabled'' (Some (flag_text on)) 0 d in
        if r \<noteq> RESULT_SUCCESS then
          ((RESULT_ERROR, reply n (''ERROR: GPS power '' @ (if on then ''ON'' else ''OFF'') @ '' failed'')), d)
        else if on then ((RESULT_SUCCESS, reply n ''OK: GPS ON - power + config re-applied within a few seconds''), d)
        else ((RESULT_SUCCESS, reply n ''OK: GPS OFF - no fix until SET-GPS-ON (no auto-reboot while off)''), d))"

definition cmd_set_gps_on :: "('u, 'w) cmd_env \<Rightarrow> nat \<Rightarrow> ('u, 'w) device \<Rightarrow> ('u, 'w) answer" where
  "cmd_set_gps_on E n d = cmd_gps_power_common E True n d"

definition cmd_set_gps_off :: "('u, 'w) cmd_env \<Rightarrow> nat \<Rightarrow> ('u, 'w) device \<Rightarrow> ('u, 'w) answer" where
  "cmd_set_gps_off E n d = cmd_gps_power_common E False n d"

subsection \<open>Calling them\<close>

text \<open>The functions behind the rows of the table, by their names.\<close>

definition call_setter :: "('u, 'w) cmd_env \<Rightarrow> string \<Rightarrow> string option \<Rightarrow> ('u, 'w) device \<Rightarrow> result \<times> ('u, 'w) device" where
  "call_setter E f args d =
     (if f = ''network_config_set'' then
        let (r, st) = network_config_set (ce_config E) (ce_network_abi E) (ce_alloc_ok E (dv_world d)) args (dv_config d)
        in (r, dv_set_config st d)
      else if f = ''command_config_set'' then
        let (r, st) = command_config_set (ce_config E) (ce_command_abi E) (ce_alloc_ok E (dv_world d)) args (dv_config d)
        in (r, dv_set_config st d)
      else if f = ''weware_tcp_config_set'' then
        let (r, t) = weware_tcp_config_set args (dv_tcp d) in (r, d\<lparr>dv_tcp := t\<rparr>)
      else let ((r, _), d) = ce_call E f args 0 d in (r, d))"

definition call_getter :: "('u, 'w) cmd_env \<Rightarrow> string \<Rightarrow> nat \<Rightarrow> ('u, 'w) device \<Rightarrow> ('u, 'w) answer" where
  "call_getter E f n d =
     (if f = ''network_config_get_string'' then (network_config_get_string (ce_network_abi E) True n (dv_config d), d)
      else if f = ''command_config_get_string'' then (command_config_get_string (ce_command_abi E) True n (dv_config d), d)
      else if f = ''weware_tcp_config_get_string'' then
        let (a, t) = weware_tcp_config_get_string True n (fst (dv_tcp d)) in (a, d\<lparr>dv_tcp := (t, snd (dv_tcp d))\<rparr>)
      else ce_call E f None n d)"

definition cmd_handler_generic ::
    "('u, 'w) cmd_env \<Rightarrow> cmd_enum \<Rightarrow> string option \<Rightarrow> nat \<Rightarrow> ('u, 'w) device \<Rightarrow> ('u, 'w) answer" where
  "cmd_handler_generic E c args n d =
     (if n = 0 then ((RESULT_ERROR, []), d)
      else case (case cmd_get_command_entry c of None \<Rightarrow> None | Some e \<Rightarrow> map_option (Pair e) (he_module_func e)) of
        None \<Rightarrow> ((RESULT_ERROR, reply n ''ERROR: No module function mapped for command''), d)
      | Some (e, f) \<Rightarrow>
          if is_set_command e \<and> args = None then
            ((RESULT_ERROR, reply n ''ERROR: Missing arguments for SET command''), d)
          else
            let ((r, text), d) =
              (if is_set_command e then
                 let (r, d) = call_setter E f args d in ((r, reply n (if r = RESULT_SUCCESS then ''OK'' else ''ERROR: Module function returned error'')), d)
               else
                 let ((r, text), d) = call_getter E f n d
                 in ((r, if r \<noteq> RESULT_SUCCESS then reply n ''ERROR: Module function returned error'' else text), d))
            in (if length text \<ge> n then ((RESULT_ERROR, text), d) else ((r, text), d)))"

definition special_commands :: "cmd_enum list" where
  "special_commands = [CMD_REBOOT, CMD_HARD_RESET, CMD_GET_DEV_INFO, CMD_GET_DEV_STATUS, CMD_DELETE_FOLDER, CMD_FACTORY_RESET,
     CMD_DIGOUT, CMD_SET_MIN_CSQ, CMD_FORCED_OTA, CMD_GET_OTA_STATUS, CMD_SET_GPS_ON, CMD_SET_GPS_OFF]"

definition special_func :: "('u, 'w) cmd_env \<Rightarrow> string \<Rightarrow> string option \<Rightarrow> nat \<Rightarrow> ('u, 'w) device \<Rightarrow> ('u, 'w) answer option" where
  "special_func E f args n d =
     (if f = ''cmd_mod_reboot'' then Some (cmd_mod_reboot E n d)
      else if f = ''cmd_hard_reset'' then Some (cmd_hard_reset E n d)
      else if f = ''cmd_delete_folder'' then cmd_delete_folder E args n d
      else if f = ''cmd_factory_reset'' then cmd_factory_reset E n d
      else if f = ''cmd_digout'' then Some (cmd_digout n, d)
      else if f = ''cmd_set_min_csq'' then Some (cmd_set_min_csq E args n d)
      else if f = ''cmd_force_ota'' then Some (cmd_force_ota E n d)
      else if f = ''cmd_get_ota_status'' then Some (cmd_get_ota_status E n d)
      else if f = ''cmd_set_gps_on'' then Some (cmd_set_gps_on E n d)
      else if f = ''cmd_set_gps_off'' then Some (cmd_set_gps_off E n d)
      else Some (ce_call E f args n d))"

subsection \<open>The steps\<close>

definition cmd_state_handle_parse_command :: "string option \<Rightarrow> nat \<Rightarrow> ('u, 'w) device \<Rightarrow> ((result \<times> string) \<times> (string \<times> string)) \<times> ('u, 'w) device" where
  "cmd_state_handle_parse_command text n d =
     (if text = None \<or> n = 0 then (((RESULT_INVALID_PARAM, []), [], []), d)
      else case cmd_parse_command text of
        None \<Rightarrow> (((RESULT_INVALID_PARAM, reply n ''ERROR: Invalid format. Use 'MOD:<COMMAND>' for commands or 'STM:...' for UART commands.''),
                  [], []), count_stats inc_invalid d)
      | Some ca \<Rightarrow> (((RESULT_SUCCESS, []), ca), d))"

definition cmd_state_handle_find_command :: "string option \<Rightarrow> nat \<Rightarrow> ('u, 'w) device \<Rightarrow> ((result \<times> string) \<times> cmd_enum) \<times> ('u, 'w) device" where
  "cmd_state_handle_find_command cmd n d =
     (case cmd of
        None \<Rightarrow> (((RESULT_INVALID_PARAM, []), CMD_UNKNOWN), d)
      | Some c \<Rightarrow>
          if n = 0 then (((RESULT_INVALID_PARAM, []), CMD_UNKNOWN), d)
          else let e = cmd_find_command_enum cmd in
            if e = CMD_UNKNOWN then
              (((RESULT_INVALID_PARAM, reply n (''ERROR: Unknown command '' @ CHR 0x27 # c @ [CHR 0x27])), e), count_stats inc_invalid d)
            else (((RESULT_SUCCESS, []), e), d))"

definition cmd_state_handle_get_entry :: "cmd_enum \<Rightarrow> nat \<Rightarrow> ('u, 'w) device \<Rightarrow> ((result \<times> string) \<times> cmd_handler_entry option) \<times> ('u, 'w) device" where
  "cmd_state_handle_get_entry c n d =
     (if n = 0 then (((RESULT_ERROR, []), None), d)
      else case cmd_get_command_entry c of
        None \<Rightarrow> (((RESULT_ERROR, reply n ''ERROR: Command handler error''), None), count_stats inc_error d)
      | Some e \<Rightarrow> (((RESULT_SUCCESS, []), Some e), d))"

definition cmd_authenticate :: "('u, 'w) cmd_env \<Rightarrow> string option \<Rightarrow> ('u, 'w) device \<Rightarrow> bool" where
  "cmd_authenticate E args d =
     (case (command_config_get_storage (dv_gateway d), args) of
        (Some p, Some a) \<Rightarrow> a \<noteq> [] \<and> password_given (cc_auth_password (struct_read (ce_command_abi E) p (dv_store d))) a
      | _ \<Rightarrow> False)"

text \<open>The configuration the step works with; without storage, \<open>g_command_config\<close> with its defaults.\<close>

definition auth_config :: "('u, 'w) cmd_env \<Rightarrow> ('u, 'w) device \<Rightarrow> command_config \<times> ('u, 'w) device" where
  "auth_config E d =
     (case command_config_get_storage (dv_gateway d) of
        Some p \<Rightarrow> (struct_read (ce_command_abi E) p (dv_store d), d)
      | None \<Rightarrow> (command_config_get_defaults,
          d\<lparr>dv_store := struct_write (ce_command_abi E) ''g_command_config'' command_config_get_defaults (dv_store d)\<rparr>))"

definition always_require_auth :: "string \<Rightarrow> bool" where
  "always_require_auth cmd \<longleftrightarrow> cmd = ''SET-COMMAND-CONFIG'' \<or> cmd = ''GET-COMMAND-CONFIG''"

text \<open>The result, the answer, and the arguments behind the password.\<close>

definition cmd_state_handle_authenticate ::
    "('u, 'w) cmd_env \<Rightarrow> string \<Rightarrow> string \<Rightarrow> cmd_handler_entry option \<Rightarrow> nat \<Rightarrow> ('u, 'w) device \<Rightarrow>
     ((result \<times> string) \<times> string) \<times> ('u, 'w) device" where
  "cmd_state_handle_authenticate E cmd args entry n d =
     (case entry of
        None \<Rightarrow> (((RESULT_ERROR, []), args), d)
      | Some e \<Rightarrow>
          if n = 0 then (((RESULT_ERROR, []), args), d)
          else
            let (cfg, d) = auth_config E d in
            if \<not> cc_auth_enable cfg \<and> \<not> always_require_auth cmd then (((RESULT_SUCCESS, []), args), d)
            else if he_requires_auth e \<or> always_require_auth cmd then
              (if \<not> cmd_authenticate E (Some args) d then
                 (((RESULT_ERROR, reply n (''ERROR: Authentication required for '' @ CHR 0x27 # cmd @ [CHR 0x27])), args),
                  count_stats inc_auth_failures d)
               else (((RESULT_SUCCESS, []), without_password (cc_auth_password cfg) args), d))
            else (((RESULT_SUCCESS, []), args), d))"

definition cmd_state_handle_execute ::
    "('u, 'w) cmd_env \<Rightarrow> cmd_handler_entry option \<Rightarrow> cmd_enum \<Rightarrow> string \<Rightarrow> nat \<Rightarrow> ('u, 'w) device \<Rightarrow> ('u, 'w) answer option" where
  "cmd_state_handle_execute E entry c args n d =
     (case entry of
        None \<Rightarrow> Some ((RESULT_ERROR, []), d)
      | Some e \<Rightarrow>
          if n = 0 then Some ((RESULT_ERROR, []), d)
          else if c \<in> set special_commands then special_func E (case he_module_func e of None \<Rightarrow> [] | Some f \<Rightarrow> f) (Some args) n d
          else if he_module_func e \<noteq> None then Some (cmd_handler_generic E c (Some (processed_args e args)) n d)
          else Some ((RESULT_ERROR, reply n ''ERROR: No module function for command''), d))"

subsection \<open>Commands for the STM\<close>

definition stm_source :: "module_id \<Rightarrow> string \<Rightarrow> byte \<times> bytes option \<times> nat" where
  "stm_source src address =
     (if src = MODULE_ID_SMS then
        (STM_SRC_TYPE_SMS,
         if address \<noteq> [] then (Some (map byte_of_char address), if length address > STM_SRC_LEN_MAX then STM_SRC_LEN_MAX else length address)
         else (None, 0))
      else (STM_SRC_TYPE_TCP, None, 0))"

definition stm_request :: "module_id \<Rightarrow> string \<Rightarrow> string \<Rightarrow> int \<times> module_message" where
  "stm_request src address body =
     (let m = set_address (Some address) (blank_message src MODULE_ID_UART);
          (src_type, src_addr, src_len) = stm_source src address;
          (flen, out) = stm_cmd_build_from_ascii (Some body) src_type src_addr src_len True (int MODULE_MESSAGE_INLINE_SIZE);
          flen = (if flen = STM_CMD_UNKNOWN then stm_cmd_try_hex_passthrough (Some body) else flen)
      in (flen, m\<lparr>mm_message := write_at (mm_message m) 0 out, mm_data_len := nat flen, mm_is_raw := True\<rparr>))"

text \<open>The pre-boot record that \<open>system-restart\<close> leaves.\<close>

definition save_restart :: "('u, 'w) cmd_env \<Rightarrow> string \<Rightarrow> ('u, 'w) device \<Rightarrow> ('u, 'w) device" where
  "save_restart E address d =
     (let (utc, local) = ce_rtc E (dv_world d);
          t = (case time_utils_get_time TIME_TYPE_UTC_UNIX utc local of (RESULT_SUCCESS, Some (_, u)) \<Rightarrow> nat u | _ \<Rightarrow> 0);
          src = (if address \<noteq> [] then address else ''STM system-restart'');
          (_, pb, w) = pre_boot_handler_save_before_soc_reset (os_flash (ce_os E)) RESET_TYPE_HARD t (Some src)
                         (gw_pre_boot (dv_gateway d)) (dv_world d)
      in d\<lparr>dv_gateway := (dv_gateway d)\<lparr>gw_pre_boot := pb, gw_world := w\<rparr>\<rparr>)"

text \<open>\<open>RESULT_BUSY\<close>: not for the STM.\<close>

definition cmd_state_handle_check_stm_prefix ::
    "('u, 'w) cmd_env \<Rightarrow> module_id \<Rightarrow> string option \<Rightarrow> string \<Rightarrow> nat \<Rightarrow> ('u, 'w) device \<Rightarrow> ('u, 'w) answer" where
  "cmd_state_handle_check_stm_prefix E src text address n d =
     (case text of
        None \<Rightarrow> ((RESULT_BUSY, []), d)
      | Some t \<Rightarrow>
          if \<not> strncasecmp_eq 4 t ''STM:'' then ((RESULT_BUSY, []), d)
          else if \<not> (case module_manager_get_config MODULE_ID_UART (dv_gateway d) of None \<Rightarrow> False | Some c \<Rightarrow> mc_enabled c) \<or>
             \<not> module_manager_is_initialized MODULE_ID_UART (dv_gateway d) then ((RESULT_ERROR, []), d)
          else
            let body = dropWhile c_isspace (drop 4 t);
                (flen, req) = stm_request src address body in
            if flen \<le> 0 then ((RESULT_ERROR, if n > 0 then reply n ''ERROR: STM command not supported'' else []), d)
            else
              let (r, u, g) = uart_manager_send_request (ce_os E) (Some req) (dv_uart d, dv_gateway d);
                  d = d\<lparr>dv_uart := u, dv_gateway := g\<rparr>
              in if r \<noteq> RESULT_SUCCESS then ((RESULT_ERROR, []), d)
                 else ((RESULT_SUCCESS, []), if strncasecmp_eq 14 body ''system-restart'' then save_restart E address d else d))"

end
