(* ===== verification/Command_Task.thy ===== *)
theory Command_Task
  imports Command_Handler
begin

text \<open>
  \<open>module/command/command_manager.c\<close>: the waterfall of steps for one command, the task that takes commands from the queue
  of the module and sends the answers back, start and stop.
\<close>

abbreviation (input) CMD_HANDLER_MAX_RESPONSE_LENGTH :: nat where "CMD_HANDLER_MAX_RESPONSE_LENGTH \<equiv> 160"

subsection \<open>One command\<close>

definition finish :: "result \<Rightarrow> ('u, 'w) answer \<Rightarrow> ('u, 'w) answer" where
  "finish r a = (fst a, cmd_state_handle_update_stats r (snd a))"

text \<open>The steps behind the parser.\<close>

definition cmd_run :: "('u, 'w) cmd_env \<Rightarrow> module_id \<Rightarrow> string \<Rightarrow> string \<Rightarrow> string \<Rightarrow> nat \<Rightarrow> ('u, 'w) device \<Rightarrow> ('u, 'w) answer option" where
  "cmd_run E src address cmd args n d =
     (case cmd_state_handle_find_command (Some cmd) n d of ((a, c), d) \<Rightarrow>
        if fst a \<noteq> RESULT_SUCCESS then Some (finish RESULT_INVALID_PARAM (a, d))
        else case cmd_state_handle_get_entry c n d of ((a, entry), d) \<Rightarrow>
          if fst a \<noteq> RESULT_SUCCESS then Some (finish RESULT_ERROR (a, d))
          else case cmd_state_handle_authenticate E cmd args entry n d of ((a, args), d) \<Rightarrow>
            if fst a \<noteq> RESULT_SUCCESS then Some (finish RESULT_ERROR (a, d))
            else if c = CMD_PING_STM then
              (case uart_manager_start_ping_test src (Some address) (dv_uart d, dv_gateway d) of (pr, u, g) \<Rightarrow>
                 Some (finish RESULT_SUCCESS ((RESULT_SUCCESS, reply n
                   (if pr = RESULT_SUCCESS then ''PING-STM started (result to follow, up to 15s)''
                    else if pr = RESULT_BUSY then ''PING-STM busy, try again shortly'' else ''ERROR: PING-STM could not start'')),
                   d\<lparr>dv_uart := u, dv_gateway := g\<rparr>)))
            else case cmd_state_handle_execute E entry c args n d of
              None \<Rightarrow> None
            | Some a \<Rightarrow> Some (finish (fst (fst a)) a))"

text \<open>The text of the request and its length; the buffer ends in a NUL.\<close>

definition cmd_process_command :: "('u, 'w) cmd_env \<Rightarrow> module_message option \<Rightarrow> bool \<Rightarrow> nat \<Rightarrow> ('u, 'w) device \<Rightarrow> ('u, 'w) answer option" where
  "cmd_process_command E request buffer_ok n d =
     (case request of
        None \<Rightarrow> Some ((RESULT_ERROR, []), d)
      | Some m \<Rightarrow>
          if \<not> buffer_ok \<or> n = 0 then Some ((RESULT_ERROR, []), d)
          else if module_id_code (mm_source_module m) = 0 \<or> module_id_code (mm_source_module m) \<ge> module_id_code MODULE_ID_COUNT then
            Some ((RESULT_ERROR, []), d)
          else
            let d = count_stats inc_received d; address = c_str (mm_address m) in
            case module_message_payload m of
              None \<Rightarrow> Some (finish RESULT_ERROR ((RESULT_ERROR, reply n ''ERROR: Empty command payload''), d))
            | Some payload \<Rightarrow>
                if mm_data_len m = 0 then Some (finish RESULT_ERROR ((RESULT_ERROR, reply n ''ERROR: Empty command payload''), d))
                else
                  let text = text_of payload; a = cmd_state_handle_check_stm_prefix E (mm_source_module m) (Some text) address n d in
                  if fst (fst a) = RESULT_SUCCESS then Some (finish RESULT_SUCCESS a)
                  else if fst (fst a) = RESULT_ERROR then Some (finish RESULT_ERROR a)
                  else
                    (case cmd_state_handle_parse_command (Some text) n d of ((a, cmd, args), d) \<Rightarrow>
                       if fst a \<noteq> RESULT_SUCCESS then Some (finish RESULT_INVALID_PARAM (a, d))
                       else cmd_run E (mm_source_module m) address cmd args n d))"

subsection \<open>The task\<close>

definition cmd_queue :: "('u, 'w) device \<Rightarrow> (queue_config \<times> nat \<times> module_message queue) option" where
  "cmd_queue d =
     (if \<not> cm_module (dv_command d) then None
      else case module_get MODULE_ID_CMD (dv_gateway d) of
        None \<Rightarrow> None
      | Some m \<Rightarrow> map_option (\<lambda>hq. (mc_msg_q_config (m_config m), hq)) (mc_msg_q (m_config m)))"

definition set_cmd_queue :: "(nat \<times> module_message queue) option \<Rightarrow> ('u, 'w) device \<Rightarrow> ('u, 'w) device" where
  "set_cmd_queue hq d = d\<lparr>dv_gateway :=
     module_update (module_id_code MODULE_ID_CMD) (\<lambda>m. m\<lparr>m_config := (m_config m)\<lparr>mc_msg_q := hq\<rparr>\<rparr>) (dv_gateway d)\<rparr>"

definition cmd_update_task_stats :: "('u, 'w) device \<Rightarrow> ('u, 'w) device" where
  "cmd_update_task_stats d = d\<lparr>dv_command := (dv_command d)\<lparr>
     cm_task_stats := the (snd (task_stats_update_periodic (Some (cm_task_stats (dv_command d))) 0))\<rparr>\<rparr>"

definition cmd_sleep :: "('u, 'w) cmd_env \<Rightarrow> ('u, 'w) device \<Rightarrow> ('u, 'w) device" where
  "cmd_sleep E d = dv_set_world (os_sleep (ce_os E) (cm_task_interval_ms (dv_command d)) (dv_world d)) d"

definition cmd_request_ok :: "module_message \<Rightarrow> bool" where
  "cmd_request_ok m \<longleftrightarrow> mm_destination_module m = MODULE_ID_CMD \<and> module_message_payload m \<noteq> None \<and> mm_data_len m \<noteq> 0"

text \<open>One turn of the loop of \<open>cmd_task_entry\<close>, up to the sleep.\<close>

definition cmd_turn_work :: "('u, 'w) cmd_env \<Rightarrow> ('u, 'w) device \<Rightarrow> ('u, 'w) device option" where
  "cmd_turn_work E d =
     (case cmd_queue d of
        None \<Rightarrow> Some d
      | Some (cfg, h, q) \<Rightarrow>
          (case queue_pop (os_flash (ce_os E)) (os_msg_abi (ce_os E)) True cfg 1 q (dv_world d) of (r, reqs, q, w) \<Rightarrow>
             let d = set_cmd_queue (Some (h, q)) (dv_set_world w d) in
             if r \<noteq> RESULT_SUCCESS \<or> \<not> cmd_request_ok (hd reqs) then Some d
             else
               (case cmd_process_command E (Some (hd reqs)) True CMD_HANDLER_MAX_RESPONSE_LENGTH d of
                  None \<Rightarrow> None
                | Some ((_, text), d) \<Rightarrow>
                    Some (d\<lparr>dv_gateway := utils_route_response_to_module (ce_os E) (mm_source_module (hd reqs))
                      (Some (c_str (mm_address (hd reqs)))) (Some text) MODULE_ID_CMD (dv_gateway d)\<rparr>))))"

definition cmd_task_turn :: "('u, 'w) cmd_env \<Rightarrow> ('u, 'w) device \<Rightarrow> ('u, 'w) device option" where
  "cmd_task_turn E d =
     (let d = d\<lparr>dv_gateway := module_manager_update_uptime (ce_os E) MODULE_ID_CMD (dv_gateway d)\<rparr>;
          d = cmd_update_task_stats d
      in map_option (cmd_sleep E) (cmd_turn_work E d))"

subsection \<open>Start and stop\<close>

definition stats_zero :: cmd_handler_stats where
  "stats_zero = \<lparr>hs_total_received = 0, hs_total_processed = 0, hs_error_count = 0, hs_invalid_cmd_count = 0, hs_auth_failures = 0\<rparr>"

definition cmd_set_runtime_defaults :: "('u, 'w) device \<Rightarrow> ('u, 'w) device" where
  "cmd_set_runtime_defaults d = d\<lparr>dv_command := (dv_command d)\<lparr>cm_task_interval_ms := 100\<rparr>\<rparr>"

definition cmd_clear_stats :: "('u, 'w) device \<Rightarrow> ('u, 'w) device" where
  "cmd_clear_stats d = d\<lparr>dv_command := (dv_command d)\<lparr>cm_stats := stats_zero, cm_task_stats := task_stats_zero\<rparr>\<rparr>"

definition cmd_destroy_queue :: "('u, 'w) device \<Rightarrow> ('u, 'w) device" where
  "cmd_destroy_queue d =
     (case cmd_queue d of
        None \<Rightarrow> d
      | Some (cfg, h, q) \<Rightarrow> set_cmd_queue None (d\<lparr>dv_gateway := (dv_gateway d)\<lparr>
          gw_queues := snd (queue_manager_destroy (Some h) (gw_queues (dv_gateway d)))\<rparr>\<rparr>))"

definition command_manager_deinit :: "('u, 'w) cmd_env \<Rightarrow> ('u, 'w) device \<Rightarrow> result \<times> ('u, 'w) device" where
  "command_manager_deinit E d =
     (if \<not> cm_initialized (dv_command d) then (RESULT_SUCCESS, d)
      else
        let d = (case cm_task_ref (dv_command d) of
              None \<Rightarrow> d
            | Some t \<Rightarrow> (dv_set_world (ce_task_delete E t (dv_world d)) d)\<lparr>dv_command := (dv_command d)\<lparr>cm_task_ref := None\<rparr>\<rparr>);
            d = cmd_clear_stats (cmd_set_runtime_defaults (cmd_destroy_queue d))
        in (RESULT_SUCCESS, d\<lparr>dv_command := (dv_command d)\<lparr>cm_module := False, cm_initialized := False\<rparr>\<rparr>))"

text \<open>The configuration the module works with: its entry of the module table, or \<open>g_command_config\<close> with the defaults.\<close>

definition cmd_bind_config :: "('u, 'w) cmd_env \<Rightarrow> ('u, 'w) device \<Rightarrow> ('u, 'w) device" where
  "cmd_bind_config E d =
     (case config_pointer MODULE_ID_CMD (dv_gateway d) of
        Some p \<Rightarrow> d\<lparr>dv_command := (dv_command d)\<lparr>cm_config := p\<rparr>\<rparr>
      | None \<Rightarrow> d\<lparr>dv_store := struct_write (ce_command_abi E) ''g_command_config'' command_config_get_defaults (dv_store d),
            dv_command := (dv_command d)\<lparr>cm_config := ''g_command_config''\<rparr>\<rparr>)"

definition command_manager_init :: "('u, 'w) cmd_env \<Rightarrow> ('u, 'w) device \<Rightarrow> result \<times> ('u, 'w) device" where
  "command_manager_init E d =
     (if cm_initialized (dv_command d) then (RESULT_SUCCESS, d)
      else case module_get MODULE_ID_CMD (dv_gateway d) of
        None \<Rightarrow> (RESULT_ERROR, d\<lparr>dv_command := (dv_command d)\<lparr>cm_module := False\<rparr>\<rparr>)
      | Some m \<Rightarrow>
          let d = cmd_set_runtime_defaults (cmd_bind_config E (d\<lparr>dv_command := (dv_command d)\<lparr>cm_module := True\<rparr>\<rparr>));
              ((h, buf_ok, mutex_ok, junk), w) = ce_queue_alloc E (dv_world d);
              g = dv_gateway d;
              (r, hq, qs, pb, w) = queue_manager_create (os_flash (ce_os E)) (os_msg_abi (ce_os E)) True h buf_ok mutex_ok junk
                 (mc_msg_q_config (m_config m)) (gw_queues g) (gw_pre_boot g) w;
              d = d\<lparr>dv_gateway := g\<lparr>gw_queues := qs, gw_pre_boot := pb, gw_world := w\<rparr>\<rparr>
          in if r \<noteq> RESULT_SUCCESS then (RESULT_ERROR, d)
             else
               let d = cmd_clear_stats (set_cmd_queue hq d);
                   (task, w) = ce_task_create E (dv_world d);
                   d = (dv_set_world w d)\<lparr>dv_command := (dv_command d)\<lparr>cm_task_ref := task\<rparr>\<rparr>
               in if task = None then (RESULT_ERROR, cmd_destroy_queue d)
                  else (RESULT_SUCCESS, d\<lparr>dv_command := (dv_command d)\<lparr>cm_initialized := True\<rparr>\<rparr>))"

end
