(* ===== verification/Command_Session.thy ===== *)
theory Command_Session
  imports Command_Task
begin

text \<open>
  What the command module promises: a protected command does nothing without the password, with it the words behind the
  password reach the function of the command, every command is counted once and comes to an end.
\<close>

subsection \<open>Names\<close>

text \<open>The names of the table have no small letters, and neither has a parsed name: the comparison that ignores case is
  equality.\<close>

definition not_lower :: "char \<Rightarrow> bool" where
  "not_lower c \<longleftrightarrow> \<not> (97 \<le> char_code c \<and> char_code c \<le> 122)"

lemma tolower_inj: "not_lower c \<Longrightarrow> not_lower d \<Longrightarrow> c_tolower c = c_tolower d \<Longrightarrow> c = d"
proof -
  assume a: "not_lower c" "not_lower d" "c_tolower c = c_tolower d"
  have t: "char_code (c_tolower x) = (if 65 \<le> char_code x \<and> char_code x \<le> 90 then char_code x + 32 else char_code x)" for x
    by (auto simp: c_tolower_def char_code_def)
  have "char_code (c_tolower c) = char_code (c_tolower d)" using a(3) by simp
  then have "char_code c = char_code d" using a(1,2) unfolding t not_lower_def by (auto split: if_splits)
  then show "c = d" by (simp add: char_code_def)
qed

lemma strcasecmp_upper:
  "list_all not_lower s \<Longrightarrow> list_all not_lower t \<Longrightarrow> strcasecmp_eq s t \<longleftrightarrow> s = t"
  unfolding strcasecmp_eq_def
proof (induction s arbitrary: t)
  case (Cons c s)
  then show ?case by (cases t) (auto dest: tolower_inj)
qed auto

lemma table_names: "\<forall>e \<in> set g_cmd_table. list_all not_lower (he_name e)"
  by (simp add: g_cmd_table_def row_def not_lower_def char_code_def)

lemma find_upper_name:
  assumes "list_all not_lower n"
  shows "cmd_find_command_enum (Some n) = (case find (\<lambda>e. he_name e = n) g_cmd_table of None \<Rightarrow> CMD_UNKNOWN | Some e \<Rightarrow> he_cmd_enum e)"
proof -
  have "find (\<lambda>e. strcasecmp_eq (he_name e) n) g_cmd_table = find (\<lambda>e. he_name e = n) g_cmd_table"
    using table_names assms by (intro find_cong) (auto simp: strcasecmp_upper)
  then show ?thesis by (simp add: cmd_find_command_enum_def)
qed

subsection \<open>Lines\<close>

text \<open>The name, the arguments and the row of a line; \<open>None\<close> when it is no command or an unknown one.\<close>

definition command_line :: "string \<Rightarrow> (string \<times> string \<times> cmd_handler_entry) option" where
  "command_line text =
     (case cmd_parse_command (Some text) of
        None \<Rightarrow> None
      | Some (cmd, args) \<Rightarrow> map_option (\<lambda>e. (cmd, args, e)) (cmd_get_command_entry (cmd_find_command_enum (Some cmd))))"

definition needs_password :: "command_config \<Rightarrow> string \<Rightarrow> cmd_handler_entry \<Rightarrow> bool" where
  "needs_password cfg cmd e \<longleftrightarrow> (cc_auth_enable cfg \<or> always_require_auth cmd) \<and> (he_requires_auth e \<or> always_require_auth cmd)"

definition authorised :: "command_config \<Rightarrow> string \<Rightarrow> bool" where
  "authorised cfg text \<longleftrightarrow>
     (case command_line text of
        None \<Rightarrow> False
      | Some (cmd, args, e) \<Rightarrow> needs_password cfg cmd e \<longrightarrow> password_given (cc_auth_password cfg) args)"

text \<open>A request the task passes on: a text for the module itself from a module that exists.\<close>

definition command_request :: "module_message \<Rightarrow> string \<Rightarrow> bool" where
  "command_request m text \<longleftrightarrow> 0 < module_id_code (mm_source_module m) \<and> mm_source_module m \<noteq> MODULE_ID_COUNT \<and>
     (\<exists>pl. module_message_payload m = Some pl \<and> text = text_of pl) \<and> mm_data_len m \<noteq> 0 \<and> \<not> strncasecmp_eq 4 text ''STM:''"

definition stored_config :: "('u, 'w) cmd_env \<Rightarrow> ('u, 'w) device \<Rightarrow> command_config option" where
  "stored_config E d = map_option (\<lambda>p. struct_read (ce_command_abi E) p (dv_store d)) (command_config_get_storage (dv_gateway d))"

lemma code_less_count: "mid \<noteq> MODULE_ID_COUNT \<Longrightarrow> module_id_code mid < module_id_code MODULE_ID_COUNT"
  by (cases mid) auto

lemma count_stats_fields [simp]:
  "dv_gateway (count_stats f d) = dv_gateway d" "dv_store (count_stats f d) = dv_store d" "dv_uart (count_stats f d) = dv_uart d"
  "dv_tcp (count_stats f d) = dv_tcp d" "cm_stats (dv_command (count_stats f d)) = f (cm_stats (dv_command d))"
  by (simp_all add: count_stats_def)

lemma count_stats_twice [simp]: "count_stats f (count_stats g d) = count_stats (\<lambda>s. f (g s)) d"
  by (simp add: count_stats_def)

lemma stored_config_count [simp]: "stored_config E (count_stats f d) = stored_config E d"
  by (simp add: stored_config_def)

lemma update_stats_count: "cmd_state_handle_update_stats r d =
  count_stats (\<lambda>s. let s = s\<lparr>hs_total_processed := u32 (hs_total_processed s + 1)\<rparr> in if r \<noteq> RESULT_SUCCESS then inc_error s else s) d"
  by (simp add: cmd_state_handle_update_stats_def)

lemma auth_config_stored: "stored_config E d = Some cfg \<Longrightarrow> auth_config E d = (cfg, d)"
  by (auto simp: stored_config_def auth_config_def)

lemma authenticate_stored:
  "stored_config E d = Some cfg \<Longrightarrow> cmd_authenticate E (Some args) d \<longleftrightarrow> password_given (cc_auth_password cfg) args"
  by (auto simp: stored_config_def cmd_authenticate_def password_given_def arg_words_def strtok_r_tokens)

lemma process_request:
  assumes "command_request m text" and "0 < n"
  shows "cmd_process_command E (Some m) True n d =
    (case cmd_state_handle_parse_command (Some text) n (count_stats inc_received d) of ((a, cmd, args), d) \<Rightarrow>
       if fst a \<noteq> RESULT_SUCCESS then Some (finish RESULT_INVALID_PARAM (a, d))
       else cmd_run E (mm_source_module m) (c_str (mm_address m)) cmd args n d)"
  using assms code_less_count [of "mm_source_module m"]
  by (auto simp: cmd_process_command_def command_request_def cmd_state_handle_check_stm_prefix_def Let_def)

text \<open>The steps of a line that is a command, up to the execution.\<close>

lemma run_row:
  assumes "command_line text = Some (cmd, args, e)" and "stored_config E d = Some cfg" and "0 < n"
  shows "cmd_parse_command (Some text) = Some (cmd, args)" and "e \<in> set g_cmd_table"
    and "needs_password cfg cmd e \<Longrightarrow> \<not> password_given (cc_auth_password cfg) args \<Longrightarrow>
      cmd_run E src address cmd args n d = Some (finish RESULT_ERROR ((RESULT_ERROR,
        reply n (''ERROR: Authentication required for '' @ CHR 0x27 # cmd @ [CHR 0x27])), count_stats inc_auth_failures d))"
    and "needs_password cfg cmd e \<longrightarrow> password_given (cc_auth_password cfg) args \<Longrightarrow> he_cmd_enum e \<noteq> CMD_PING_STM \<Longrightarrow>
      cmd_run E src address cmd args n d =
        (case cmd_state_handle_execute E (Some e) (he_cmd_enum e)
            (if needs_password cfg cmd e then without_password (cc_auth_password cfg) args else args) n d of
           None \<Rightarrow> None | Some a \<Rightarrow> Some (finish (fst (fst a)) a))"
proof -
  let ?c = "cmd_find_command_enum (Some cmd)"
  have l: "cmd_parse_command (Some text) = Some (cmd, args)" "cmd_get_command_entry ?c = Some e"
    using assms(1) by (auto simp: command_line_def split: option.splits)
  then have c: "?c \<noteq> CMD_UNKNOWN" by (auto simp: cmd_get_command_entry_def)
  obtain e' where e: "e' \<in> set g_cmd_table" "he_cmd_enum e' = ?c" "cmd_get_command_entry ?c = Some e'"
    by (rule find_entry_row [OF refl c])
  then have e2: "e \<in> set g_cmd_table" "he_cmd_enum e = ?c" using l(2) by auto
  show "cmd_parse_command (Some text) = Some (cmd, args)" "e \<in> set g_cmd_table" by (fact l(1), fact e2(1))
  have find: "cmd_state_handle_find_command (Some cmd) n d = (((RESULT_SUCCESS, []), ?c), d)"
    using c assms(3) by (simp add: cmd_state_handle_find_command_def Let_def)
  have entry: "cmd_state_handle_get_entry ?c n d = (((RESULT_SUCCESS, []), Some e), d)"
    using l(2) assms(3) by (simp add: cmd_state_handle_get_entry_def)
  note auth = authenticate_stored [OF assms(2)]
  show "cmd_run E src address cmd args n d = Some (finish RESULT_ERROR ((RESULT_ERROR,
        reply n (''ERROR: Authentication required for '' @ CHR 0x27 # cmd @ [CHR 0x27])), count_stats inc_auth_failures d))"
    if "needs_password cfg cmd e" "\<not> password_given (cc_auth_password cfg) args"
    using that assms(3) auth
    by (auto simp: cmd_run_def find entry cmd_state_handle_authenticate_def auth_config_stored [OF assms(2)] needs_password_def)
  show "cmd_run E src address cmd args n d =
        (case cmd_state_handle_execute E (Some e) (he_cmd_enum e)
            (if needs_password cfg cmd e then without_password (cc_auth_password cfg) args else args) n d of
           None \<Rightarrow> None | Some a \<Rightarrow> Some (finish (fst (fst a)) a))"
    if "needs_password cfg cmd e \<longrightarrow> password_given (cc_auth_password cfg) args" "he_cmd_enum e \<noteq> CMD_PING_STM"
    using that assms(3) auth e2(2)
    by (auto simp: cmd_run_def find entry cmd_state_handle_authenticate_def auth_config_stored [OF assms(2)] needs_password_def)
qed

subsection \<open>The password\<close>

text \<open>What the sender of a refused line reads.\<close>

definition refusal :: "nat \<Rightarrow> string \<Rightarrow> string" where
  "refusal n text = reply n
     (case cmd_parse_command (Some text) of
        None \<Rightarrow> ''ERROR: Invalid format. Use 'MOD:<COMMAND>' for commands or 'STM:...' for UART commands.''
      | Some (cmd, args) \<Rightarrow>
          (if cmd_get_command_entry (cmd_find_command_enum (Some cmd)) = None then ''ERROR: Unknown command ''
           else ''ERROR: Authentication required for '') @ CHR 0x27 # cmd @ [CHR 0x27])"

definition refusal_count :: "string \<Rightarrow> cmd_handler_stats \<Rightarrow> cmd_handler_stats" where
  "refusal_count text = (\<lambda>s.
      let s = (if command_line text = None then inc_invalid (inc_received s) else inc_auth_failures (inc_received s))
      in inc_error (s\<lparr>hs_total_processed := u32 (hs_total_processed s + 1)\<rparr>))"

lemma unknown_command: "cmd_get_command_entry (cmd_find_command_enum (Some cmd)) = None \<longleftrightarrow> cmd_find_command_enum (Some cmd) = CMD_UNKNOWN"
proof
  show "cmd_find_command_enum (Some cmd) = CMD_UNKNOWN" if "cmd_get_command_entry (cmd_find_command_enum (Some cmd)) = None"
    using that find_entry_row [OF refl, of cmd] by (metis option.distinct(1))
qed (simp add: cmd_get_command_entry_def)

text \<open>C5: Without the password a protected command does nothing. A line that is no command, names none, or is a
  protected command whose first word is not the password, changes the counters of the command module and nothing
  else of the device, and the answer is made from the line alone, so it tells nothing about the configuration.\<close>

theorem unauthorised_command_refused:
  assumes "command_request m text" and "0 < n" and "stored_config E d = Some cfg" and "\<not> authorised cfg text"
  shows "\<exists>r. cmd_process_command E (Some m) True n d = Some ((r, refusal n text), count_stats (refusal_count text) d) \<and> r \<noteq> RESULT_SUCCESS"
proof (cases "cmd_parse_command (Some text)")
  case None
  then show ?thesis using assms
    by (simp add: process_request cmd_state_handle_parse_command_def refusal_def refusal_count_def finish_def update_stats_count
        command_line_def Let_def)
next
  case (Some ca)
  obtain cmd args where ca: "ca = (cmd, args)" by fastforce
  have P: "cmd_process_command E (Some m) True n d = cmd_run E (mm_source_module m) (c_str (mm_address m)) cmd args n (count_stats inc_received d)"
    using assms(1,2) Some ca by (simp add: process_request cmd_state_handle_parse_command_def)
  show ?thesis
  proof (cases "cmd_get_command_entry (cmd_find_command_enum (Some cmd))")
    case None
    then have "cmd_find_command_enum (Some cmd) = CMD_UNKNOWN" by (simp add: unknown_command)
    then show ?thesis using P Some ca None assms(2)
      by (simp add: cmd_run_def cmd_state_handle_find_command_def refusal_def refusal_count_def finish_def update_stats_count
          command_line_def Let_def)
  next
    case e: (Some e)
    then have l: "command_line text = Some (cmd, args, e)" using Some ca by (simp add: command_line_def)
    then have "needs_password cfg cmd e" "\<not> password_given (cc_auth_password cfg) args" using assms(4) by (simp_all add: authorised_def)
    moreover have "stored_config E (count_stats inc_received d) = Some cfg" using assms(3) by simp
    ultimately have "cmd_process_command E (Some m) True n d =
        Some (finish RESULT_ERROR ((RESULT_ERROR, reply n (''ERROR: Authentication required for '' @ CHR 0x27 # cmd @ [CHR 0x27])),
          count_stats inc_auth_failures (count_stats inc_received d)))"
      unfolding P using run_row(3) [OF l _ assms(2)] by blast
    then show ?thesis using Some ca e l
      by (simp add: refusal_def refusal_count_def finish_def update_stats_count Let_def)
  qed
qed

lemma set_reaches_module:
  assumes "command_request m text" and "stored_config E d = Some cfg" and "command_line text = Some (cmd, args, e)"
    and "he_module_func e = Some f" and "is_set_command e" and "he_cmd_enum e \<notin> set special_commands"
    and "needs_password cfg cmd e" and "password_given (cc_auth_password cfg) args"
  shows "cmd_process_command E (Some m) True CMD_HANDLER_MAX_RESPONSE_LENGTH d =
    (case call_setter E f (Some (commas (tl (arg_words args)))) (count_stats inc_received d) of (r, d) \<Rightarrow>
       Some ((r, if r = RESULT_SUCCESS then ''OK'' else ''ERROR: Module function returned error''), cmd_state_handle_update_stats r d))"
proof -
  have s: "stored_config E (count_stats inc_received d) = Some cfg" using assms(2) by simp
  note R = run_row [OF assms(3) s]
  have P: "cmd_process_command E (Some m) True 160 d = cmd_run E (mm_source_module m) (c_str (mm_address m)) cmd args 160 (count_stats inc_received d)"
    using assms(1) R(1) [of 160] by (simp add: process_request cmd_state_handle_parse_command_def)
  have row: "cmd_get_command_entry (he_cmd_enum e) = Some e"
    using find_distinct [OF table_rows(1) R(2) [of 160]] table_rows(2) R(2) [of 160] by (auto simp: cmd_get_command_entry_def)
  have np: "he_cmd_enum e \<noteq> CMD_PING_STM"
    using R(2) [of 160] assms(4) by (auto simp: g_cmd_table_def row_def)
  have "cmd_process_command E (Some m) True 160 d =
      (case cmd_state_handle_execute E (Some e) (he_cmd_enum e) (without_password (cc_auth_password cfg) args) 160 (count_stats inc_received d) of
         None \<Rightarrow> None | Some a \<Rightarrow> Some (finish (fst (fst a)) a))"
    using R(4) [of 160] assms(7,8) np unfolding P by simp
  then show ?thesis using assms(4,5,6) processed_without_password [OF assms(5,8)]
    by (simp add: cmd_state_handle_execute_def cmd_handler_generic_def row reply_def snprintf_def finish_def split: prod.splits)
qed


text \<open>The new password is in force at once: when a line gives the password and \<open>pass:\<close> with a new one, it is answered
  with OK and the stored configuration is the old one with the new password.\<close>

theorem password_change_takes_effect:
  assumes "command_request m text" and "stored_config E d = Some cfg" and "command_line text = Some (''SET-COMMAND-CONFIG'', args, e)"
    and "password_given (cc_auth_password cfg) args" and "tl (arg_words args) = [''pass:'' @ new]"
    and "plain_value new" and "new \<noteq> []" and "length new < 32" and "cs_config_initialized (dv_store d)" and "ce_alloc_ok E (dv_world d)"
    and "command_config_get_storage (dv_gateway d) = Some p" and "command_config_ok cfg"
    and "struct_law (ce_command_abi E) command_config_ok (length (cs_memory (dv_store d) p))"
  shows "\<exists>d'. cmd_process_command E (Some m) True CMD_HANDLER_MAX_RESPONSE_LENGTH d = Some ((RESULT_SUCCESS, ''OK''), d') \<and>
    stored_config E d' = Some (cfg\<lparr>cc_auth_password := new\<rparr>)"
proof -
  have s: "stored_config E (count_stats inc_received d) = Some cfg" using assms(2) by simp
  note R = run_row(2) [OF assms(3) s, of 160]
  have c: "cmd_get_command_entry (cmd_find_command_enum (Some ''SET-COMMAND-CONFIG'')) = Some e"
    using assms(3) by (auto simp: command_line_def split: option.splits)
  then have e: "e = row CMD_SET_COMMAND_CONFIG ''SET-COMMAND-CONFIG'' True (Some ''command_config_set'')"
    by (simp add: cmd_find_command_enum_def cmd_get_command_entry_def g_cmd_table_def row_def strcasecmp_eq_def c_tolower_def char_code_def)
  let ?d = "count_stats inc_received d" and ?c = "cfg\<lparr>cc_auth_password := new\<rparr>"
  have cfg: "struct_read (ce_command_abi E) p (dv_store d) = cfg" using assms(2,11) by (simp add: stored_config_def)
  have ok: "command_config_ok ?c" using assms(7,8,12) by (simp add: command_config_ok_def)
  have len: "length (''pass:'' @ new) < 2048" using assms(8) by simp
  have t: "''pass:'' @ new = fields_text [(''pass'', new)]" by (simp add: field_text_def)
  have k: "\<forall>(k, v) \<in> set [(''pass'', new)]. plain_key k \<and> plain_value v \<and> 0 \<le> key_index_loop k s_cmd_cfg_keys"
    using assms(6) by (simp add: plain_key_def is_blank_def s_cmd_cfg_keys_def strcasecmp_eq_def c_tolower_def char_code_def)
  have i: "key_index_loop ''pass'' s_cmd_cfg_keys = 1"
    by (simp add: s_cmd_cfg_keys_def strcasecmp_eq_def c_tolower_def char_code_def)
  have set: "set_fields command_setter s_cmd_cfg_keys [(''pass'', new)] cfg = Some ?c"
    using assms(7,8) by (simp add: i command_setter_def)
  have tok: "tok_loop '','' (Some (''pass:'' @ new)) = map field_text [(''pass'', new)]"
    unfolding t by (rule fields_tokens) (use k in auto)
  have loop: "keyed_loop command_setter s_cmd_cfg_keys (tok_loop '','' (Some (''pass:'' @ new))) False cfg = Some (True, ?c)"
    unfolding tok using command_text.loop_fields [OF k set, of False] by simp
  obtain st where st: "command_config_set (ce_config E) (ce_command_abi E) True (Some (''pass:'' @ new)) (dv_config ?d) = (RESULT_SUCCESS, st)"
    "st = snd (save_config (ce_config E) (struct_write (ce_command_abi E) p ?c (dv_store d), dv_gateway d))"
    using assms(11) cfg loop len strdup_short [OF len]
    by (simp add: command_config_set_def dv_config_def command_config_get_storage_def)
  have "fst st = struct_write (ce_command_abi E) p ?c (dv_store d)" using st(2) assms(9) by (simp add: save_config_keeps)
  moreover have "gw_modules (snd st) = gw_modules (dv_gateway d)" using st(2) by (simp add: save_config_def split_beta Let_def)
  moreover have "struct_read (ce_command_abi E) p (struct_write (ce_command_abi E) p ?c (dv_store d)) = ?c"
    by (rule struct_read_write [OF assms(13) ok refl])
  moreover have "command_config_get_storage (snd st) = command_config_get_storage (dv_gateway d)" if "gw_modules (snd st) = gw_modules (dv_gateway d)"
    using that by (simp add: command_config_get_storage_def config_pointer_def module_manager_get_config_def module_get_def)
  ultimately have new: "stored_config E (dv_set_config st ?d) = Some ?c" using assms(11) by (simp add: stored_config_def dv_set_config_def)
  have "call_setter E ''command_config_set'' (Some (commas (tl (arg_words args)))) ?d = (RESULT_SUCCESS, dv_set_config st ?d)"
    using st(1) assms(5,10) by (simp add: call_setter_def)
  moreover have "he_module_func e = Some ''command_config_set''" "is_set_command e" "he_cmd_enum e \<notin> set special_commands"
    "needs_password cfg ''SET-COMMAND-CONFIG'' e"
    by (simp_all add: e row_def is_set_command_def special_commands_def needs_password_def always_require_auth_def)
  ultimately show ?thesis
    using set_reaches_module [OF assms(1,2,3) _ _ _ _ assms(4)] new by (simp add: update_stats_count)
qed

subsection \<open>Every command is counted\<close>

definition calls_keep_stats :: "('u, 'w) cmd_env \<Rightarrow> bool" where
  "calls_keep_stats E \<longleftrightarrow> (\<forall>f a n d. dv_command (snd (ce_call E f a n d)) = dv_command d)"

lemma dv_command_keeps [simp]:
  "dv_command (dv_set_world w d) = dv_command d" "dv_command (dv_set_config st d) = dv_command d"
  "dv_command (cmd_broadcast_reset E src d) = dv_command d" "dv_command (save_restart E address d) = dv_command d"
  "dv_command (snd (auth_config E d)) = dv_command d"
  by (simp_all add: dv_set_world_def dv_set_config_def cmd_broadcast_reset_def save_restart_def auth_config_def split_beta Let_def split: option.split)

lemma call_keeps: "calls_keep_stats E \<Longrightarrow> ce_call E f a n d = (x, d') \<Longrightarrow> dv_command d' = dv_command d"
  unfolding calls_keep_stats_def by (metis snd_conv)

lemma special_keeps:
  assumes "calls_keep_stats E" and "special_func E f args n d = Some (a, d')"
  shows "dv_command d' = dv_command d"
  using assms(2) unfolding special_func_def
  by (auto simp: cmd_mod_reboot_def cmd_hard_reset_def cmd_delete_folder_def cmd_factory_reset_def cmd_set_min_csq_def cmd_force_ota_def
      cmd_get_ota_status_def cmd_set_gps_on_def cmd_set_gps_off_def cmd_gps_power_common_def Let_def
      dest: call_keeps [OF assms(1)] split: if_splits option.splits prod.splits)

lemma generic_keeps:
  assumes "calls_keep_stats E" and "cmd_handler_generic E c args n d = (a, d')"
  shows "dv_command d' = dv_command d"
  using assms(2) unfolding cmd_handler_generic_def call_setter_def call_getter_def
  by (auto simp: Let_def dest: call_keeps [OF assms(1)] split: if_splits option.splits prod.splits)

lemma execute_keeps:
  "calls_keep_stats E \<Longrightarrow> cmd_state_handle_execute E e c args n d = Some (a, d') \<Longrightarrow> dv_command d' = dv_command d"
  by (auto simp: cmd_state_handle_execute_def dest: special_keeps generic_keeps split: option.splits if_splits)

text \<open>\<open>counted r s s'\<close>: the counters before and after a command that was processed with the result \<open>r\<close>.\<close>

definition counted :: "result \<Rightarrow> cmd_handler_stats \<Rightarrow> cmd_handler_stats \<Rightarrow> bool" where
  "counted r s s' \<longleftrightarrow> hs_total_received s' = hs_total_received s \<and> hs_total_processed s' = u32 (hs_total_processed s + 1) \<and>
     hs_error_count s' = (if r = RESULT_SUCCESS then hs_error_count s else u32 (hs_error_count s + 1))"

lemma count_fields [simp]:
  "hs_total_received (inc_invalid s) = hs_total_received s" "hs_total_processed (inc_invalid s) = hs_total_processed s"
  "hs_error_count (inc_invalid s) = hs_error_count s" "hs_total_received (inc_auth_failures s) = hs_total_received s"
  "hs_total_processed (inc_auth_failures s) = hs_total_processed s" "hs_error_count (inc_auth_failures s) = hs_error_count s"
  "hs_total_received (inc_error s) = hs_total_received s" "hs_total_processed (inc_error s) = hs_total_processed s"
  "hs_error_count (inc_error s) = u32 (hs_error_count s + 1)" "hs_total_received (inc_received s) = u32 (hs_total_received s + 1)"
  "hs_total_processed (inc_received s) = hs_total_processed s" "hs_error_count (inc_received s) = hs_error_count s"
  by (simp_all add: inc_invalid_def inc_auth_failures_def inc_error_def inc_received_def)

lemma counted_finish:
  "hs_total_received (cm_stats (dv_command d)) = hs_total_received s \<Longrightarrow> hs_total_processed (cm_stats (dv_command d)) = hs_total_processed s \<Longrightarrow>
   hs_error_count (cm_stats (dv_command d)) = hs_error_count s \<Longrightarrow> (q = RESULT_SUCCESS) = (r = RESULT_SUCCESS) \<Longrightarrow>
   counted r s (cm_stats (dv_command (cmd_state_handle_update_stats q d)))"
  by (simp add: counted_def update_stats_count Let_def)

lemma authenticate_counts:
  assumes "cmd_state_handle_authenticate E cmd args e n d = (x, d')"
  shows "hs_total_received (cm_stats (dv_command d')) = hs_total_received (cm_stats (dv_command d)) \<and>
    hs_total_processed (cm_stats (dv_command d')) = hs_total_processed (cm_stats (dv_command d)) \<and>
    hs_error_count (cm_stats (dv_command d')) = hs_error_count (cm_stats (dv_command d))"
proof -
  obtain cfg d2 where "auth_config E d = (cfg, d2)" by fastforce
  moreover from this have "dv_command d2 = dv_command d" using dv_command_keeps(5) [of E d] by simp
  ultimately show ?thesis using assms by (auto simp: cmd_state_handle_authenticate_def split: option.splits if_splits)
qed

lemma run_counted:
  assumes "calls_keep_stats E" and "0 < n" and "cmd_run E src address cmd args n d = Some ((r, s), d')"
  shows "counted r (cm_stats (dv_command d)) (cm_stats (dv_command d'))"
proof (cases "cmd_find_command_enum (Some cmd) = CMD_UNKNOWN")
  case True
  then show ?thesis using assms(2,3)
    by (auto simp: cmd_run_def cmd_state_handle_find_command_def finish_def intro!: counted_finish)
next
  case False
  let ?c = "cmd_find_command_enum (Some cmd)"
  obtain e where e: "cmd_get_command_entry ?c = Some e" by (rule find_entry_row [OF refl False])
  obtain ar as args2 d2 where au: "cmd_state_handle_authenticate E cmd args (Some e) n d = (((ar, as), args2), d2)" by (metis prod.collapse)
  note ac = authenticate_counts [OF au]
  have R: "cmd_run E src address cmd args n d =
      (if ar \<noteq> RESULT_SUCCESS then Some (finish RESULT_ERROR ((ar, as), d2))
       else if ?c = CMD_PING_STM then
         (case uart_manager_start_ping_test src (Some address) (dv_uart d2, dv_gateway d2) of (pr, u, g) \<Rightarrow>
            Some (finish RESULT_SUCCESS ((RESULT_SUCCESS, reply n
              (if pr = RESULT_SUCCESS then ''PING-STM started (result to follow, up to 15s)''
               else if pr = RESULT_BUSY then ''PING-STM busy, try again shortly'' else ''ERROR: PING-STM could not start'')),
              d2\<lparr>dv_uart := u, dv_gateway := g\<rparr>)))
       else case cmd_state_handle_execute E (Some e) ?c args2 n d2 of None \<Rightarrow> None | Some a \<Rightarrow> Some (finish (fst (fst a)) a))"
    using False assms(2) e au
    by (simp add: cmd_run_def cmd_state_handle_find_command_def cmd_state_handle_get_entry_def Let_def)
  show ?thesis
  proof (cases "ar \<noteq> RESULT_SUCCESS")
    case True
    then show ?thesis using R assms(3) ac by (auto simp: finish_def intro!: counted_finish)
  next
    case ok: False
    show ?thesis
    proof (cases "?c = CMD_PING_STM")
      case True
      then show ?thesis using R ok assms(3) ac by (auto simp: finish_def split: prod.splits intro!: counted_finish)
    next
      case False
      then obtain a d3 where x: "cmd_state_handle_execute E (Some e) ?c args2 n d2 = Some (a, d3)"
        using R ok assms(3) by (auto split: option.splits)
      then show ?thesis using R ok False assms(3) ac execute_keeps [OF assms(1) x]
        by (auto simp: finish_def intro!: counted_finish)
    qed
  qed
qed

lemma stm_keeps: "dv_command (snd (cmd_state_handle_check_stm_prefix E src text address n d)) = dv_command d"
  by (simp add: cmd_state_handle_check_stm_prefix_def Let_def split_beta split: option.split)

text \<open>Every command that reaches the waterfall is counted once as received and once as processed, and as an error
  exactly when its result is not success.\<close>

theorem commands_are_counted:
  assumes "calls_keep_stats E" and "0 < n" and "0 < module_id_code (mm_source_module m)" and "mm_source_module m \<noteq> MODULE_ID_COUNT"
    and "cmd_process_command E (Some m) True n d = Some ((r, s), d')"
  shows "hs_total_received (cm_stats (dv_command d')) = u32 (hs_total_received (cm_stats (dv_command d)) + 1) \<and>
    hs_total_processed (cm_stats (dv_command d')) = u32 (hs_total_processed (cm_stats (dv_command d)) + 1) \<and>
    hs_error_count (cm_stats (dv_command d')) =
      (if r = RESULT_SUCCESS then hs_error_count (cm_stats (dv_command d)) else u32 (hs_error_count (cm_stats (dv_command d)) + 1))"
proof -
  let ?s = "inc_received (cm_stats (dv_command d))" and ?d = "count_stats inc_received d"
  have "counted r ?s (cm_stats (dv_command d'))"
  proof (cases "module_message_payload m = None \<or> mm_data_len m = 0")
    case True
    then show ?thesis using assms code_less_count [of "mm_source_module m"]
      by (auto simp: cmd_process_command_def finish_def Let_def split: option.splits intro!: counted_finish)
  next
    case False
    then obtain pl where pl: "module_message_payload m = Some pl" "mm_data_len m \<noteq> 0" by auto
    let ?a = "cmd_state_handle_check_stm_prefix E (mm_source_module m) (Some (text_of pl)) (c_str (mm_address m)) n ?d"
    have P: "cmd_process_command E (Some m) True n d =
      (if fst (fst ?a) = RESULT_SUCCESS then Some (finish RESULT_SUCCESS ?a)
       else if fst (fst ?a) = RESULT_ERROR then Some (finish RESULT_ERROR ?a)
       else (case cmd_state_handle_parse_command (Some (text_of pl)) n ?d of ((a, cmd, args), d) \<Rightarrow>
         if fst a \<noteq> RESULT_SUCCESS then Some (finish RESULT_INVALID_PARAM (a, d))
         else cmd_run E (mm_source_module m) (c_str (mm_address m)) cmd args n d))"
      using assms(2-4) code_less_count [of "mm_source_module m"] pl by (simp add: cmd_process_command_def Let_def)
    obtain ar as ad where A: "?a = ((ar, as), ad)" by (metis prod.collapse)
    have k: "cm_stats (dv_command ad) = ?s" using stm_keeps [of E "mm_source_module m" "Some (text_of pl)" "c_str (mm_address m)" n ?d] A by simp
    show ?thesis
    proof (cases "ar = RESULT_SUCCESS \<or> ar = RESULT_ERROR")
      case True
      then show ?thesis using P [unfolded A] assms(5) k by (auto simp: finish_def intro!: counted_finish)
    next
      case False
      obtain a cmd args d2 where pc: "cmd_state_handle_parse_command (Some (text_of pl)) n ?d = ((a, cmd, args), d2)" by (metis prod.collapse)
      show ?thesis
      proof (cases "fst a = RESULT_SUCCESS")
        case True
        then have "d2 = ?d" using pc assms(2) by (auto simp: cmd_state_handle_parse_command_def split: option.splits)
        moreover have "cmd_run E (mm_source_module m) (c_str (mm_address m)) cmd args n d2 = Some ((r, s), d')"
          using P [unfolded A] False pc True assms(5) by simp
        ultimately show ?thesis using run_counted [OF assms(1,2)] by fastforce
      next
        case np: False
        then show ?thesis using P [unfolded A] False pc assms(2,5)
          by (auto simp: cmd_state_handle_parse_command_def finish_def split: option.splits intro!: counted_finish)
      qed
    qed
  qed
  then show ?thesis by (simp add: counted_def)
qed

subsection \<open>Every command comes to an end\<close>

lemma valid_folder:
  assumes "cmd_delete_folder_name_valid (Some name)" and "cmd_delete_folder_resolved_ok (Some (folder_path name))"
  shows "proper_folder (folder_path name)" and "length (folder_path name) < 128" and "fs_dir_purge_path_ok (Some (folder_path name))"
proof -
  have n: "name \<noteq> []" "CHR ''/'' \<notin> set name" "length name < 64" using assms(1) by (auto simp: cmd_delete_folder_name_valid_def)
  then have "last (FLASH_ROOT @ name) \<noteq> CHR ''/''" by (metis last_appendR last_in_set)
  then show "proper_folder (folder_path name)" unfolding proper_folder_def folder_path_def
    by (intro exI [of _ "FLASH_ROOT @ name"]) (simp add: FLASH_ROOT_def)
  show "length (folder_path name) < 128" using n by (simp add: folder_path_def FLASH_ROOT_def)
  show "fs_dir_purge_path_ok (Some (folder_path name))"
    using assms(2) by (simp add: cmd_delete_folder_resolved_ok_def fs_dir_purge_path_ok_def FLASH_ROOT_def numeral_3_eq_3)
qed

lemma wipe_loop_returns:
  assumes "dir_laws F D C L R" and "\<forall>f \<in> set dirs. proper_folder f \<and> length f < 128 \<and> fs_dir_purge_path_ok (Some f)"
  shows "wipe_loop F D dirs w \<noteq> None"
  using assms(2)
proof (induction dirs arbitrary: w)
  case (Cons f dirs)
  then obtain r n m w' where "file_system_delete_all_files_in_directory F D (Some f) w = Some (r, (n, m), w')"
    using purged_folder [OF assms(1), of f w] by auto
  then show ?case using Cons by simp
qed simp

lemma delete_folder_returns:
  assumes "dir_laws (os_flash (ce_os E)) (ce_dir E) C L R"
  shows "cmd_delete_folder E args n d \<noteq> None"
proof -
  have "file_system_delete_all_files_in_directory (os_flash (ce_os E)) (ce_dir E) (Some (folder_path name)) w = None \<Longrightarrow> False"
    if "cmd_delete_folder_name_valid (Some name)" "cmd_delete_folder_resolved_ok (Some (folder_path name))" for name w
    using purged_folder [OF assms(1) valid_folder [OF that], of w] by auto
  then have "cmd_delete_folder E args n d = None \<Longrightarrow> False"
    unfolding cmd_delete_folder_def Let_def by (simp split: option.splits prod.splits if_splits) blast
  then show ?thesis by blast
qed

lemma special_returns:
  assumes "dir_laws (os_flash (ce_os E)) (ce_dir E) C L R" and "special_func E f args n d = None"
  shows False
proof -
  have "cmd_factory_reset E n d = None \<Longrightarrow> False"
    using wipe_loop_returns [OF assms(1) user_folders_ok, of "dv_world d"]
    by (simp add: cmd_factory_reset_def file_system_wipe_user_flash_c_def user_folders_def Let_def split: option.splits prod.splits if_splits)
  then show ?thesis using assms(2) delete_folder_returns [OF assms(1), of args n d] by (simp add: special_func_def split: if_splits)
qed

lemma execute_returns:
  assumes "dir_laws (os_flash (ce_os E)) (ce_dir E) C L R" and "cmd_state_handle_execute E e c args n d = None"
  shows False
  using assms(2) by (simp add: cmd_state_handle_execute_def special_returns [OF assms(1)] split: option.splits if_splits)
    (use special_returns [OF assms(1)] in blast)+

lemma run_returns:
  assumes "dir_laws (os_flash (ce_os E)) (ce_dir E) C L R" and "cmd_run E src address cmd args n d = None"
  shows False
  using assms(2) unfolding cmd_run_def
  by (simp split: prod.splits option.splits if_splits) (use execute_returns [OF assms(1)] in blast)+

text \<open>C21: A turn of the command task always comes to an end, whatever is in the queue: the only loops that depend on the
  flash are the purges of folders, and they end because each round deletes a file.\<close>

theorem command_turn_returns:
  assumes "dir_laws (os_flash (ce_os E)) (ce_dir E) C L R"
  shows "\<exists>d'. cmd_task_turn E d = Some d'"
proof -
  have p: False if "cmd_process_command E m ok n x = None" for m ok n x
    using that unfolding cmd_process_command_def Let_def
    by (simp split: option.splits prod.splits if_splits) (use run_returns [OF assms] in blast)+
  have "cmd_turn_work E x = None \<Longrightarrow> False" for x
    unfolding cmd_turn_work_def Let_def by (simp split: option.splits prod.splits if_splits) (use p in blast)+
  then show ?thesis by (cases "cmd_turn_work E (cmd_update_task_stats (d\<lparr>dv_gateway := module_manager_update_uptime (ce_os E) MODULE_ID_CMD (dv_gateway d)\<rparr>))")
      (auto simp: cmd_task_turn_def Let_def)
qed

text \<open>C22: DELETE-FOLDER stays in its folder. Whatever its arguments are, the files that are gone afterwards were entries of
  the one folder of the user area that the arguments name, and the rest of the device is as it was.\<close>

theorem delete_folder_confined:
  assumes "dir_laws (os_flash (ce_os E)) (ce_dir E) C L R"
  shows "\<exists>a name w. cmd_delete_folder E args n d = Some (a, dv_set_world w d) \<and> CHR ''/'' \<notin> set name \<and>
    (\<forall>p. C w p \<noteq> C (dv_world d) p \<longrightarrow>
       (\<exists>f. p = FLASH_ROOT @ name @ ''/'' @ f \<and> CHR ''/'' \<notin> set f) \<and>
       (\<exists>s. args = Some s \<and> scan_folder (the (utils_trim_whitespace (Some (take (ARGS_SIZE - 1) s)))) = (1, name)))"
proof (cases "\<exists>s name. args = Some s \<and> scan_folder (the (utils_trim_whitespace (Some (take (ARGS_SIZE - 1) s)))) = (1, name) \<and>
    cmd_delete_folder_name_valid (Some name) \<and> cmd_delete_folder_resolved_ok (Some (folder_path name))")
  case True
  obtain a d' where d': "cmd_delete_folder E args n d = Some (a, d')" using delete_folder_returns [OF assms, of args n d] by auto
  from True obtain s name where s: "args = Some s" "scan_folder (the (utils_trim_whitespace (Some (take 255 s)))) = (1, name)"
    "cmd_delete_folder_name_valid (Some name)" "cmd_delete_folder_resolved_ok (Some (folder_path name))" by auto
  have nm: "CHR ''/'' \<notin> set name" using s(3) by (simp add: cmd_delete_folder_name_valid_def)
  note vf = valid_folder [OF s(3,4)]
  obtain r c m w G where p: "file_system_delete_all_files_in_directory (os_flash (ce_os E)) (ce_dir E) (Some (folder_path name)) (dv_world d) = Some (r, (c, m), w)"
    "purged C L (folder_path name) G (dv_world d) w" using purged_folder [OF assms vf, of "dv_world d"] by blast
  have "d' = dv_set_world w d \<or> d' = dv_set_world (dv_world d) d"
    using d' s p(1) by (auto simp: cmd_delete_folder_def Let_def dv_set_world_def split: if_splits)
  moreover have "\<exists>f. q = FLASH_ROOT @ name @ ''/'' @ f \<and> CHR ''/'' \<notin> set f" if "C w q \<noteq> C (dv_world d) q" for q
  proof -
    have "q \<in> (\<lambda>i. folder_path name @ di_file_name i) ` G" using p(2) that unfolding purged_def by metis
    then obtain i where i: "i \<in> G" "q = folder_path name @ di_file_name i" by blast
    then have "i \<in> set (L (dv_world d) (dir_no_slash (folder_path name)))" using p(2) by (auto simp: purged_def)
    then have "CHR ''/'' \<notin> set (di_file_name i)" using assms unfolding dir_laws_def entry_name_ok_def by blast
    then show ?thesis using i(2) by (simp add: folder_path_def)
  qed
  ultimately show ?thesis using d' s(1,2) nm by auto
next
  case False
  obtain a d' where d': "cmd_delete_folder E args n d = Some (a, d')" using delete_folder_returns [OF assms, of args n d] by auto
  then have "d' = dv_set_world (dv_world d) d"
    using False by (auto simp: cmd_delete_folder_def Let_def dv_set_world_def split: option.splits prod.splits if_splits)
  then show ?thesis using d' by (intro exI [of _ a] exI [of _ "[]"] exI [of _ "dv_world d"]) auto
qed

subsection \<open>A device\<close>

text \<open>The module table after the start, the default configurations, flash in memory with no directory entries.\<close>

definition bare_dir :: "ram_world dir_api" where
  "bare_dir = \<lparr>fs_opendir = (\<lambda>d w. (1, w)), fs_readdir = (\<lambda>s w. (None, w)), fs_closedir = (\<lambda>s w. w), sys_get_stats = (\<lambda>w. (None, w))\<rparr>"

lemma bare_dir_laws: "dir_laws ram_flash bare_dir rw_files (\<lambda>w d. []) (\<lambda>w s. Some [])"
  by (auto simp: dir_laws_def bare_dir_def ram_flash_def fun_upd_idem_iff)

definition sample_env :: "(unit, ram_world) cmd_env" where
  "sample_env = \<lparr>ce_os = flaky_os, ce_config = plain_env, ce_network_abi = flat_network, ce_command_abi = flat_command,
     ce_alloc_ok = (\<lambda>w. True), ce_dir = bare_dir, ce_rtc = (\<lambda>w. (None, None)), ce_queue_alloc = (\<lambda>w. ((None, True, True, []), w)),
     ce_task_create = (\<lambda>w. (None, w)), ce_task_delete = (\<lambda>t w. w), ce_system_reset = (\<lambda>w. w), ce_listener = (\<lambda>cb ev ud s. s),
     ce_call = (\<lambda>f a n d. ((RESULT_SUCCESS, ''OK''), d))\<rparr>"

definition sample_device :: "uart_manager \<Rightarrow> tcp_setup \<Rightarrow> (unit, ram_world) device" where
  "sample_device u t = \<lparr>dv_command = \<lparr>cm_task_ref = Some 1, cm_initialized = True, cm_module = True, cm_config = ''g_command_config'',
     cm_stats = stats_zero, cm_task_stats = task_stats_zero, cm_task_interval_ms = 100\<rparr>,
     dv_uart = u, dv_tcp = t, dv_store = default_store, dv_gateway = plain_gateway\<rparr>"

definition sample_message :: "string \<Rightarrow> module_message" where
  "sample_message s = (blank_message MODULE_ID_SMS MODULE_ID_CMD)\<lparr>mm_message := map byte_of_char s, mm_data_len := length s\<rparr>"

lemma sample_config: "stored_config sample_env (sample_device u t) = Some command_config_get_defaults"
  using default_structs(2,5) by (simp add: stored_config_def sample_env_def sample_device_def)

lemma sample_initialized: "cs_config_initialized default_store"
  by (simp add: default_store_def)

lemma sample_request:
  assumes "text_of (map byte_of_char s) = s" and "s \<noteq> []" and "\<not> strncasecmp_eq 4 s ''STM:''"
  shows "command_request (sample_message s) s"
  using assms by (simp add: command_request_def sample_message_def blank_message_def module_message_payload_def)

lemma sample_parsed:
  "cmd_parse_command (Some ''MOD:REBOOT wrong'') = Some (''REBOOT'', ''wrong'')"
  "cmd_parse_command (Some ''mod:set-command-config WEWARE2024 pass:secret'') = Some (''SET-COMMAND-CONFIG'', ''WEWARE2024 pass:secret'')"
  by code_simp+

lemma sample_found:
  "cmd_find_command_enum (Some ''REBOOT'') = CMD_REBOOT" "cmd_find_command_enum (Some ''SET-COMMAND-CONFIG'') = CMD_SET_COMMAND_CONFIG"
proof -
  have "list_all not_lower ''REBOOT''" "list_all not_lower ''SET-COMMAND-CONFIG''" by code_simp+
  then show "cmd_find_command_enum (Some ''REBOOT'') = CMD_REBOOT" "cmd_find_command_enum (Some ''SET-COMMAND-CONFIG'') = CMD_SET_COMMAND_CONFIG"
    by (simp_all add: find_upper_name) (simp_all add: g_cmd_table_def row_def)
qed

lemma sample_lines:
  "command_line ''MOD:REBOOT wrong'' = Some (''REBOOT'', ''wrong'', row CMD_REBOOT ''REBOOT'' True (Some ''cmd_mod_reboot''))"
  "command_line ''mod:set-command-config WEWARE2024 pass:secret'' = Some (''SET-COMMAND-CONFIG'', ''WEWARE2024 pass:secret'',
     row CMD_SET_COMMAND_CONFIG ''SET-COMMAND-CONFIG'' True (Some ''command_config_set''))"
  by (simp_all add: command_line_def sample_parsed sample_found cmd_get_command_entry_def g_cmd_table_def row_def)

lemma sample_words: "arg_words ''WEWARE2024 pass:secret'' = [''WEWARE2024'', ''pass:secret'']" "arg_words ''wrong'' = [''wrong'']"
  by code_simp+

lemma sample_requests: "command_request (sample_message ''MOD:REBOOT wrong'') ''MOD:REBOOT wrong''"
  "command_request (sample_message ''mod:set-command-config WEWARE2024 pass:secret'') ''mod:set-command-config WEWARE2024 pass:secret''"
  by (rule sample_request; code_simp)+

lemma unauthorised_command_refused_witness:
  "\<forall>u t. \<exists>r d. cmd_process_command sample_env (Some (sample_message ''MOD:REBOOT wrong'')) True 160 (sample_device u t) =
     Some ((r, ''ERROR: Authentication required for '' @ CHR 0x27 # ''REBOOT'' @ [CHR 0x27]), d) \<and> r \<noteq> RESULT_SUCCESS \<and> dv_gateway d = plain_gateway"
proof (intro allI)
  fix u t
  have "\<not> authorised command_config_get_defaults ''MOD:REBOOT wrong''"
    by (simp add: authorised_def sample_lines needs_password_def row_def command_config_get_defaults_def password_given_def sample_words)
  from unauthorised_command_refused [OF sample_requests(1) _ sample_config this, of 160 u t]
  show "\<exists>r d. cmd_process_command sample_env (Some (sample_message ''MOD:REBOOT wrong'')) True 160 (sample_device u t) =
     Some ((r, ''ERROR: Authentication required for '' @ CHR 0x27 # ''REBOOT'' @ [CHR 0x27]), d) \<and> r \<noteq> RESULT_SUCCESS \<and> dv_gateway d = plain_gateway"
    by (auto simp: refusal_def sample_parsed sample_found cmd_get_command_entry_def g_cmd_table_def row_def reply_def snprintf_def sample_device_def)
qed


lemma password_change_takes_effect_witness:
  "\<forall>u t. \<exists>d'. cmd_process_command sample_env (Some (sample_message ''mod:set-command-config WEWARE2024 pass:secret'')) True 160 (sample_device u t) =
       Some ((RESULT_SUCCESS, ''OK''), d') \<and> stored_config sample_env d' = Some (command_config_get_defaults\<lparr>cc_auth_password := ''secret''\<rparr>)"
proof (intro allI)
  fix u t
  have p: "password_given (cc_auth_password command_config_get_defaults) ''WEWARE2024 pass:secret''"
    by (simp add: password_given_def sample_words command_config_get_defaults_def)
  show "\<exists>d'. cmd_process_command sample_env (Some (sample_message ''mod:set-command-config WEWARE2024 pass:secret'')) True 160 (sample_device u t) =
       Some ((RESULT_SUCCESS, ''OK''), d') \<and> stored_config sample_env d' = Some (command_config_get_defaults\<lparr>cc_auth_password := ''secret''\<rparr>)"
    by (rule password_change_takes_effect [where new = "''secret''" and p = "''g_command_config''", OF sample_requests(2) sample_config sample_lines(2) p])
      (insert default_structs(2,3) default_laws(2) defaults_ok(2) sample_initialized, simp_all add: sample_words sample_device_def sample_env_def
         plain_value_def is_blank_def)
qed

lemma commands_are_counted_witness:
  "\<forall>u t. \<forall>r s d'. cmd_process_command sample_env (Some (sample_message ''MOD:REBOOT wrong'')) True 160 (sample_device u t) = Some ((r, s), d') \<longrightarrow>
     hs_total_received (cm_stats (dv_command d')) = 1"
proof (intro allI impI)
  fix u t r s d'
  assume a: "cmd_process_command sample_env (Some (sample_message ''MOD:REBOOT wrong'')) True 160 (sample_device u t) = Some ((r, s), d')"
  have k: "calls_keep_stats sample_env" by (simp add: calls_keep_stats_def sample_env_def)
  show "hs_total_received (cm_stats (dv_command d')) = 1"
    using commands_are_counted [OF k _ _ _ a] by (simp add: sample_message_def blank_message_def sample_device_def stats_zero_def)
qed

lemma command_turn_returns_witness: "\<forall>u t. \<exists>d'. cmd_task_turn sample_env (sample_device u t) = Some d'"
  using command_turn_returns [of sample_env rw_files "\<lambda>w d. []" "\<lambda>w s. Some []"] bare_dir_laws by (simp add: sample_env_def flaky_os_def)

lemma delete_folder_confined_witness:
  "\<forall>E d. \<exists>a d'. cmd_delete_folder ((E :: ('u, flat_world) cmd_env)\<lparr>ce_os := (ce_os E)\<lparr>os_flash := flat_flash\<rparr>, ce_dir := flat_dir logs_folder\<rparr>)
     (Some ''logs'') 160 (dv_set_world (\<lambda>p. True, None) d) = Some (a, d') \<and> fst (dv_world d') ''C:/config/a.txt''"
proof (intro allI)
  fix E :: "('u, flat_world) cmd_env" and d :: "('u, flat_world) device"
  let ?E = "E\<lparr>ce_os := (ce_os E)\<lparr>os_flash := flat_flash\<rparr>, ce_dir := flat_dir logs_folder\<rparr>" and ?d = "dv_set_world (\<lambda>p. True, None) d"
  have B: "\<forall>d. distinct (map di_file_name (logs_folder d)) \<and> (\<forall>i \<in> set (logs_folder d). entry_name_ok (di_file_name i))"
    by (simp add: logs_folder_def entry_name_ok_def)
  have D: "dir_laws (os_flash (ce_os ?E)) (ce_dir ?E) flat_contents (flat_list logs_folder) (\<lambda>w s. snd w)"
    using flat_dir_laws(1) [OF B] by simp
  have n: "scan_folder (the (utils_trim_whitespace (Some (take 255 ''logs'')))) = (1, ''logs'')" by code_simp
  obtain a name w where w: "cmd_delete_folder ?E (Some ''logs'') 160 ?d = Some (a, dv_set_world w ?d)"
    "\<forall>p. flat_contents w p \<noteq> flat_contents (dv_world ?d) p \<longrightarrow> (\<exists>f. p = FLASH_ROOT @ name @ ''/'' @ f) \<and> name = ''logs''"
    using delete_folder_confined [OF D, of "Some ''logs''" 160 ?d] n by simp blast
  have "fst w ''C:/config/a.txt''"
  proof (rule ccontr)
    assume "\<not> fst w ''C:/config/a.txt''"
    then have "flat_contents w ''C:/config/a.txt'' \<noteq> flat_contents (dv_world ?d) ''C:/config/a.txt''"
      by (simp add: flat_contents_def dv_set_world_def)
    then show False using w(2) by (auto simp: FLASH_ROOT_def)
  qed
  then show "\<exists>a d'. cmd_delete_folder ?E (Some ''logs'') 160 ?d = Some (a, d') \<and> fst (dv_world d') ''C:/config/a.txt''"
    using w(1) by (auto simp: dv_set_world_def)
qed

end
