(* ===== verification/C_Float.thy ===== *)
theory C_Float
  imports Complex_Main Config_Text
begin

text \<open>
  The type \<open>float\<close> of the code: IEEE 754 single precision, rounding to nearest, ties to even, subnormal numbers kept. A
  finite number is a sign and a rational magnitude, so that the two zeros differ in print and nowhere else. With it the part
  of the C library that reads and prints such numbers: \<open>strtof\<close> and \<open>printf\<close> with \<open>%.kf\<close>.
\<close>

subsection \<open>Numbers\<close>

text \<open>The boolean is the sign bit.\<close>

datatype float32 = FNan | FInf bool | FFin bool rat

abbreviation FZERO :: float32 where "FZERO \<equiv> FFin False 0"

definition pow2 :: "int \<Rightarrow> rat" where
  "pow2 e = (if 0 \<le> e then 2 ^ nat e else 1 / 2 ^ nat (- e))"

fun bit_count :: "nat \<Rightarrow> nat" where
  "bit_count n = (if n = 0 then 0 else Suc (bit_count (n div 2)))"

declare bit_count.simps [simp del]

text \<open>The exponent \<open>e\<close> with \<open>2 ^ e \<le> x < 2 ^ (e + 1)\<close>.\<close>

definition rat_exponent :: "rat \<Rightarrow> int" where
  "rat_exponent x = (case quotient_of x of (p, q) \<Rightarrow>
     let d = int (bit_count (nat p)) - int (bit_count (nat q)) in if pow2 d \<le> x then d else d - 1)"

definition round_half_even :: "rat \<Rightarrow> int" where
  "round_half_even x =
     (let k = \<lfloor>x\<rfloor>; f = x - of_int k
      in if f < 1 / 2 then k else if 1 / 2 < f then k + 1 else if even k then k else k + 1)"

text \<open>The number nearest to a magnitude with \<open>p + 1\<close> bits, whose smallest unit is \<open>2 ^ (emin - p)\<close> and which is below
  \<open>2 ^ emax\<close>.\<close>

definition fp_round :: "nat \<Rightarrow> int \<Rightarrow> int \<Rightarrow> bool \<Rightarrow> rat \<Rightarrow> float32" where
  "fp_round p emin emax s x =
     (if x = 0 then FFin s 0
      else let u = pow2 (max (rat_exponent x) emin - int p); y = of_int (round_half_even (x / u)) * u
        in if y \<ge> pow2 emax then FInf s else FFin s y)"

definition f32_round :: "bool \<Rightarrow> rat \<Rightarrow> float32" where
  "f32_round = fp_round 23 (- 126) 128"

definition f32_of_rat :: "rat \<Rightarrow> float32" where
  "f32_of_rat x = f32_round (x < 0) \<bar>x\<bar>"

definition signed :: "bool \<Rightarrow> rat \<Rightarrow> rat" where
  "signed s x = (if s then - x else x)"

text \<open>Comparisons with a NaN are false.\<close>

fun f32_lt :: "float32 \<Rightarrow> float32 \<Rightarrow> bool" where
  "f32_lt (FFin s x) (FFin t y) = (signed s x < signed t y)"
| "f32_lt (FInf s) (FFin t y) = s"
| "f32_lt (FFin s x) (FInf t) = (\<not> t)"
| "f32_lt (FInf s) (FInf t) = (s \<and> \<not> t)"
| "f32_lt _ _ = False"

fun f32_le :: "float32 \<Rightarrow> float32 \<Rightarrow> bool" where
  "f32_le (FFin s x) (FFin t y) = (signed s x \<le> signed t y)"
| "f32_le (FInf s) (FFin t y) = s"
| "f32_le (FFin s x) (FInf t) = (\<not> t)"
| "f32_le (FInf s) (FInf t) = (s \<or> \<not> t)"
| "f32_le _ _ = False"

fun f32_div :: "float32 \<Rightarrow> float32 \<Rightarrow> float32" where
  "f32_div (FFin s x) (FFin t y) = (if y = 0 then if x = 0 then FNan else FInf (s \<noteq> t) else f32_round (s \<noteq> t) (x / y))"
| "f32_div (FInf s) (FFin t y) = FInf (s \<noteq> t)"
| "f32_div (FFin s x) (FInf t) = FFin (s \<noteq> t) 0"
| "f32_div _ _ = FNan"

fun f32_mul :: "float32 \<Rightarrow> float32 \<Rightarrow> float32" where
  "f32_mul (FFin s x) (FFin t y) = f32_round (s \<noteq> t) (x * y)"
| "f32_mul (FInf s) (FFin t y) = (if y = 0 then FNan else FInf (s \<noteq> t))"
| "f32_mul (FFin s x) (FInf t) = (if x = 0 then FNan else FInf (s \<noteq> t))"
| "f32_mul (FInf s) (FInf t) = FInf (s \<noteq> t)"
| "f32_mul _ _ = FNan"

definition f32_is_nan :: "float32 \<Rightarrow> bool" where
  "f32_is_nan x \<longleftrightarrow> x = FNan"

lemma f32_order:
  "f32_lt x y \<Longrightarrow> \<not> f32_le y x"
  "f32_le x y \<Longrightarrow> \<not> f32_lt y x"
  "x \<noteq> FNan \<Longrightarrow> y \<noteq> FNan \<Longrightarrow> f32_lt x y \<longleftrightarrow> \<not> f32_le y x"
  by (cases x; cases y; auto)+

lemma f32_le_lt_trans: "f32_le x y \<Longrightarrow> f32_lt y z \<Longrightarrow> f32_lt x z"
  by (cases x; cases y; cases z) auto

lemma f32_lt_irrefl [simp]: "\<not> f32_lt x x"
  by (cases x) auto

lemma f32_le_refl: "x \<noteq> FNan \<Longrightarrow> f32_le x x"
  by (cases x) auto

subsection \<open>Rounding\<close>

lemma pow2_pos [simp]: "0 < pow2 e"
  by (simp add: pow2_def)

lemma pow2_nat: "pow2 (int n) = 2 ^ n"
  by (simp add: pow2_def)

lemma pow2_Suc: "pow2 (e + 1) = 2 * pow2 e"
proof (cases "0 \<le> e")
  case True
  then show ?thesis by (simp add: pow2_def nat_add_distrib)
next
  case False
  then have "nat (- e) = Suc (nat (- (e + 1)))" by simp
  then show ?thesis using False by (auto simp: pow2_def)
qed

lemma pow2_add: "pow2 (a + int n) = pow2 a * 2 ^ n"
proof (induction n)
  case (Suc n)
  have "pow2 (a + int (Suc n)) = pow2 ((a + int n) + 1)" by (simp add: algebra_simps)
  then show ?case using Suc by (simp only: pow2_Suc) simp
qed simp

lemma pow2_diff: "pow2 (int a - int b) = 2 ^ a / 2 ^ b"
proof -
  have "pow2 (int a - int b) * 2 ^ b = pow2 (int a - int b + int b)" by (rule pow2_add [symmetric])
  then have "pow2 (int a - int b) * 2 ^ b = 2 ^ a" by (simp add: pow2_nat)
  then show ?thesis by (simp add: field_simps)
qed

lemma bit_count_pos: "0 < n \<Longrightarrow> 0 < bit_count n"
  by (subst bit_count.simps) simp

lemma bit_count_bounds: "0 < n \<Longrightarrow> 2 ^ (bit_count n - 1) \<le> n \<and> n < 2 ^ bit_count n"
proof (induction n rule: bit_count.induct)
  case (1 n)
  show ?case
  proof (cases "n div 2 = 0")
    case True
    then have "n = 1" using 1(2) by simp
    then show ?thesis by (simp add: bit_count.simps)
  next
    case False
    obtain k where k: "bit_count (n div 2) = Suc k" using bit_count_pos [of "n div 2"] False by (cases "bit_count (n div 2)") auto
    have "2 ^ k \<le> n div 2" "n div 2 < 2 ^ Suc k" using 1 False k by auto
    then have "2 * 2 ^ k \<le> n" "n < 2 * 2 ^ Suc k" by linarith+
    then show ?thesis using k 1(2) by (subst (1 2) bit_count.simps) simp
  qed
qed

lemma rat_exponent_bounds:
  assumes "0 < x"
  shows "pow2 (rat_exponent x) \<le> x" and "x < pow2 (rat_exponent x + 1)"
proof -
  obtain p q where pq: "quotient_of x = (p, q)" by fastforce
  then have q: "0 < q" and x: "x = of_int p / of_int q" using quotient_of_denom_pos quotient_of_div by auto
  then have p: "0 < p" using assms by (simp add: zero_less_divide_iff)
  let ?a = "bit_count (nat p)" and ?b = "bit_count (nat q)" let ?d = "int ?a - int ?b"
  have ab: "0 < ?a" "0 < ?b" using p q by (simp_all add: bit_count_pos)
  have B: "2 ^ (bit_count (nat i) - 1) \<le> (of_int i :: rat) \<and> of_int i < (2 :: rat) ^ bit_count (nat i)" if i: "0 < i" for i
  proof -
    obtain n where n: "i = int n" "0 < n" using zero_less_imp_eq_int [OF i] by blast
    have "of_nat (2 ^ (bit_count n - 1)) \<le> (of_nat n :: rat)" "of_nat n < (of_nat (2 ^ bit_count n) :: rat)"
      unfolding of_nat_le_iff of_nat_less_iff using bit_count_bounds [OF n(2)] by blast+
    then show ?thesis by (simp add: n(1))
  qed
  note P' = B [OF p, THEN conjunct1] B [OF p, THEN conjunct2] and Q' = B [OF q, THEN conjunct1] B [OF q, THEN conjunct2]
  have qp: "0 < (of_int q :: rat)" using q by simp
  have a2: "(2 :: rat) ^ ?a = 2 * 2 ^ (?a - 1)" and b2: "(2 :: rat) ^ ?b = 2 * 2 ^ (?b - 1)"
    using ab power_Suc [of "2 :: rat" "?a - 1"] power_Suc [of "2 :: rat" "?b - 1"] by simp_all
  have lo: "pow2 (?d - 1) \<le> x"
  proof -
    have "(2 :: rat) ^ (?a - 1) * of_int q \<le> of_int p * 2 ^ ?b" using P' Q' qp p by (intro mult_mono) auto
    then have "2 ^ (?a - 1) / 2 ^ ?b \<le> x" using qp by (simp add: x field_simps)
    moreover have "pow2 (?d - 1) = 2 ^ (?a - 1) / 2 ^ ?b" using pow2_diff [of "?a - 1" ?b] ab by (simp add: of_nat_diff algebra_simps)
    ultimately show ?thesis by simp
  qed
  have hi: "x < pow2 (?d + 1)"
  proof -
    have "of_int p * (2 :: rat) ^ (?b - 1) < 2 ^ ?a * of_int q" using P' Q' qp p by (intro mult_less_le_imp_less) auto
    then have "x < 2 ^ ?a / 2 ^ (?b - 1)" using qp by (simp add: x field_simps)
    moreover have "pow2 (?d + 1) = 2 ^ ?a / 2 ^ (?b - 1)" using pow2_diff [of ?a "?b - 1"] ab by (simp add: of_nat_diff algebra_simps)
    ultimately show ?thesis by simp
  qed
  show "pow2 (rat_exponent x) \<le> x" "x < pow2 (rat_exponent x + 1)"
    using lo hi by (auto simp: rat_exponent_def pq Let_def)
qed

lemma round_half_even_error: "\<bar>of_int (round_half_even x) - x\<bar> \<le> 1 / 2"
proof -
  let ?k = "\<lfloor>x\<rfloor>"
  have "of_int ?k \<le> x" "x < of_int ?k + 1" by linarith+
  then show ?thesis by (auto simp: round_half_even_def Let_def abs_le_iff; linarith)
qed

lemma abs_scale: "0 < u \<Longrightarrow> \<bar>r * u - x\<bar> = \<bar>r - x / u\<bar> * (u :: rat)"
proof -
  assume "0 < u"
  then have "r * u - x = (r - x / u) * u" by (simp add: left_diff_distrib)
  then show ?thesis using \<open>0 < u\<close> by (simp add: abs_mult)
qed

lemma pow2_plus: "pow2 (a + b) = pow2 a * pow2 b"
proof -
  have n: "pow2 (a - int n) = pow2 a / 2 ^ n" for a n using pow2_add [of "a - int n" n] by (simp add: eq_divide_eq)
  show ?thesis
  proof (cases "0 \<le> b")
    case True
    then obtain m where "b = int m" by (metis nonneg_int_cases)
    then show ?thesis by (simp add: pow2_add pow2_nat)
  next
    case False
    then obtain m where "b = - int m" by (metis int_cases2 of_nat_0_le_iff)
    then show ?thesis using n [of a m] n [of 0 m] by (simp add: pow2_def)
  qed
qed

lemma pow2_mono: "a \<le> b \<Longrightarrow> pow2 a \<le> pow2 b"
proof -
  assume "a \<le> b"
  then obtain n where "b = a + int n" using zle_iff_zadd by blast
  then show ?thesis by (simp add: pow2_add)
qed

lemma round_half_even_nonneg: "0 \<le> x \<Longrightarrow> 0 \<le> round_half_even x"
  by (auto simp: round_half_even_def Let_def)

text \<open>The rounded number is at most half a unit away.\<close>

lemma fp_round_error:
  assumes "0 \<le> x" and "x < pow2 k" and "emin < k" and "k < emax"
  shows "\<exists>y. fp_round p emin emax s x = FFin s y \<and> 0 \<le> y \<and> \<bar>y - x\<bar> \<le> pow2 (k - 2 - int p)"
proof (cases "x = 0")
  case True
  then show ?thesis by (simp add: fp_round_def less_imp_le)
next
  case False
  then have x: "0 < x" using assms(1) by simp
  let ?u = "pow2 (max (rat_exponent x) emin - int p)"
  let ?y = "of_int (round_half_even (x / ?u)) * ?u"
  have "\<bar>of_int (round_half_even (x / ?u)) - x / ?u\<bar> * ?u \<le> 1 / 2 * ?u"
    by (rule mult_right_mono [OF round_half_even_error]) (simp add: less_imp_le)
  then have e: "\<bar>?y - x\<bar> \<le> ?u / 2" using abs_scale [OF pow2_pos] by simp
  have "rat_exponent x < k"
  proof (rule ccontr)
    assume "\<not> rat_exponent x < k"
    then obtain j where "rat_exponent x = k + int j" by (metis linorder_not_less zle_iff_zadd)
    then have "pow2 k \<le> pow2 (rat_exponent x)" by (simp add: pow2_add)
    then show False using rat_exponent_bounds(1) [OF x] assms(2) by linarith
  qed
  then have "max (rat_exponent x) emin - int p \<le> k - 1 - int p" using assms(3) by simp
  then have "?u \<le> pow2 (k - 1 - int p)" by (rule pow2_mono)
  moreover have "pow2 (k - 1 - int p) = 2 * pow2 (k - 2 - int p)" 
    by (subst pow2_Suc [symmetric]) (simp add: algebra_simps)
  ultimately have b: "\<bar>?y - x\<bar> \<le> pow2 (k - 2 - int p)" using e by linarith
  have "pow2 (k - 2 - int p) \<le> pow2 k" by (rule pow2_mono) simp
  moreover have "2 * pow2 k \<le> pow2 emax" using pow2_mono [of "k + 1" emax] assms(4) by (simp add: pow2_Suc)
  ultimately have "?y < pow2 emax" using b assms(2) by linarith
  moreover have "0 \<le> ?y" using x round_half_even_nonneg [of "x / ?u"] by (simp add: less_imp_le)
  ultimately show ?thesis using b x by (simp add: fp_round_def Let_def)
qed

lemma f32_round_error:
  assumes "0 \<le> x" and "x < pow2 (int k)" and "k < 128"
  shows "\<exists>y. f32_round s x = FFin s y \<and> \<bar>y - x\<bar> \<le> pow2 (int k - 25)"
  using fp_round_error [of x "int k" "- 126" 128 23 s] assms by (auto simp: f32_round_def)

text \<open>Rounding keeps the order.\<close>

lemma round_half_even_mono: "x \<le> y \<Longrightarrow> round_half_even x \<le> round_half_even y"
proof -
  assume xy: "x \<le> y"
  have k: "\<lfloor>x\<rfloor> \<le> \<lfloor>y\<rfloor>" using xy by (rule floor_mono)
  show ?thesis
  proof (cases "\<lfloor>x\<rfloor> = \<lfloor>y\<rfloor>")
    case True
    then have "x - of_int \<lfloor>x\<rfloor> \<le> y - of_int \<lfloor>y\<rfloor>" using xy by simp
    then show ?thesis using True by (auto simp: round_half_even_def Let_def)
  next
    case False
    then have "\<lfloor>x\<rfloor> + 1 \<le> \<lfloor>y\<rfloor>" using k by simp
    moreover have "round_half_even x \<le> \<lfloor>x\<rfloor> + 1" "\<lfloor>y\<rfloor> \<le> round_half_even y" by (auto simp: round_half_even_def Let_def)
    ultimately show ?thesis by linarith
  qed
qed

lemma round_half_even_int [simp]: "round_half_even (of_int n) = n"
  by (simp add: round_half_even_def Let_def)

lemma pow2_nat_of_int: "pow2 (int n) = of_int (2 ^ n)"
  by (simp add: pow2_nat)

lemma rat_exponent_mono: "0 < x \<Longrightarrow> x \<le> y \<Longrightarrow> rat_exponent x \<le> rat_exponent y"
proof (rule ccontr)
  assume x: "0 < x" "x \<le> y" and "\<not> rat_exponent x \<le> rat_exponent y"
  then have "pow2 (rat_exponent y + 1) \<le> pow2 (rat_exponent x)" by (intro pow2_mono) simp
  then show False using rat_exponent_bounds(1) [of x] rat_exponent_bounds(2) [of y] x by linarith
qed

lemma fp_scale:
  assumes "0 < x" and "e = max (rat_exponent x) emin"
  shows "x / pow2 (e - int p) < pow2 (int p + 1)" and "rat_exponent x = e \<Longrightarrow> pow2 (int p) \<le> x / pow2 (e - int p)"
proof -
  have u: "pow2 (int p + 1) * pow2 (e - int p) = pow2 (e + 1)" "pow2 (int p) * pow2 (e - int p) = pow2 e"
    using pow2_plus [of "int p + 1" "e - int p"] pow2_plus [of "int p" "e - int p"] by (simp_all add: algebra_simps)
  have "x < pow2 (e + 1)"
    using rat_exponent_bounds(2) [OF assms(1)] pow2_mono [of "rat_exponent x + 1" "e + 1"] assms(2) by auto
  then show "x / pow2 (e - int p) < pow2 (int p + 1)" by (simp add: divide_less_eq u)
  assume "rat_exponent x = e"
  then have "pow2 e \<le> x" using rat_exponent_bounds(1) [OF assms(1)] by simp
  then show "pow2 (int p) \<le> x / pow2 (e - int p)" by (simp add: le_divide_eq u)
qed

lemma fp_round_mono:
  assumes "0 \<le> x" and "x \<le> y"
  shows "f32_le (fp_round p emin emax False x) (fp_round p emin emax False y)"
proof (cases "x = 0")
  case True
  have "0 \<le> round_half_even (y / pow2 (max (rat_exponent y) emin - int p))"
    using assms by (intro round_half_even_nonneg) (simp add: less_imp_le)
  then show ?thesis using True by (auto simp: fp_round_def Let_def signed_def less_imp_le)
next
  case False
  then have x: "0 < x" "0 < y" using assms by simp_all
  define e where "e = max (rat_exponent x) emin"
  define f where "f = max (rat_exponent y) emin"
  have ef: "e \<le> f" using rat_exponent_mono [OF x(1) assms(2)] by (simp add: e_def f_def)
  let ?r = "of_int (round_half_even (x / pow2 (e - int p))) * pow2 (e - int p)"
  let ?s = "of_int (round_half_even (y / pow2 (f - int p))) * pow2 (f - int p)"
  have "?r \<le> ?s"
  proof (cases "e = f")
    case True
    have "x / pow2 (e - int p) \<le> y / pow2 (e - int p)" using assms(2) by (intro divide_right_mono) (simp_all add: less_imp_le)
    then show ?thesis using round_half_even_mono True by (simp add: less_imp_le)
  next
    case False
    then have lt: "e < f" "rat_exponent y = f" using ef by (auto simp: e_def f_def)
    have "x / pow2 (e - int p) \<le> of_int (2 ^ (p + 1))"
      using fp_scale(1) [OF x(1) e_def, of p] pow2_nat_of_int [of "p + 1"] by (simp add: add.commute)
    from round_half_even_mono [OF this] have "round_half_even (x / pow2 (e - int p)) \<le> 2 ^ (p + 1)" unfolding round_half_even_int .
    then have "of_int (round_half_even (x / pow2 (e - int p))) \<le> (of_int (2 ^ (p + 1)) :: rat)" unfolding of_int_le_iff .
    then have "?r \<le> pow2 (int p + 1) * pow2 (e - int p)"
      using pow2_nat_of_int [of "p + 1"] by (intro mult_right_mono) (simp_all add: less_imp_le add.commute)
    also have "\<dots> = pow2 (e + 1)" using pow2_plus [of "int p + 1" "e - int p"] by (simp add: algebra_simps)
    also have "\<dots> \<le> pow2 f" using lt by (intro pow2_mono) simp
    also have "\<dots> = pow2 (int p) * pow2 (f - int p)" using pow2_plus [of "int p" "f - int p"] by (simp add: algebra_simps)
    also have "\<dots> \<le> ?s"
    proof -
      have "of_int (2 ^ p) \<le> y / pow2 (f - int p)" using fp_scale(2) [OF x(2) f_def lt(2), of p] pow2_nat_of_int [of p] by simp
      from round_half_even_mono [OF this] have "2 ^ p \<le> round_half_even (y / pow2 (f - int p))" unfolding round_half_even_int .
      then have "(of_int (2 ^ p) :: rat) \<le> of_int (round_half_even (y / pow2 (f - int p)))" unfolding of_int_le_iff .
      then show ?thesis using pow2_nat_of_int [of p] by (intro mult_right_mono) (simp_all add: less_imp_le)
    qed
    finally show ?thesis .
  qed
  then show ?thesis using x by (auto simp: fp_round_def Let_def signed_def e_def f_def)
qed

lemma f32_round_mono: "0 \<le> x \<Longrightarrow> x \<le> y \<Longrightarrow> f32_le (f32_round False x) (f32_round False y)"
  by (simp add: f32_round_def fp_round_mono)

subsection \<open>Reading and printing\<close>

definition pow10 :: "int \<Rightarrow> rat" where
  "pow10 e = (if 0 \<le> e then 10 ^ nat e else 1 / 10 ^ nat (- e))"

definition is_hex_digit :: "char \<Rightarrow> bool" where
  "is_hex_digit c \<longleftrightarrow> hex_val c \<noteq> None"

fun hex_prefix :: "nat \<Rightarrow> string \<Rightarrow> nat" where
  "hex_prefix acc [] = acc"
| "hex_prefix acc (c # s) = (case hex_val c of None \<Rightarrow> acc | Some d \<Rightarrow> hex_prefix (acc * 16 + d) s)"

text \<open>The exponent behind the letter \<open>e\<close>, when there is one, and the rest.\<close>

definition read_exponent :: "char \<Rightarrow> string \<Rightarrow> int \<times> string" where
  "read_exponent e s =
     (case s of [] \<Rightarrow> (0, s)
      | c # t \<Rightarrow>
          if c_tolower c \<noteq> e then (0, s)
          else
            let (neg, u) = (case t of [] \<Rightarrow> (False, t) | d # v \<Rightarrow> if d = CHR ''-'' then (True, v) else if d = CHR ''+'' then (False, v) else (False, t));
                n = int (dec_prefix 0 u)
            in if u = [] \<or> \<not> is_digit (hd u) then (0, s) else (if neg then - n else n, dropWhile is_digit u))"

text \<open>Digits with at most one point among them: those before it, those behind it, the rest.\<close>

definition read_digits :: "(char \<Rightarrow> bool) \<Rightarrow> string \<Rightarrow> string \<times> string \<times> string" where
  "read_digits digit s =
     (let i = takeWhile digit s; r = dropWhile digit s
      in if r \<noteq> [] \<and> hd r = CHR ''.'' then (i, takeWhile digit (tl r), dropWhile digit (tl r)) else (i, [], r))"

definition read_decimal :: "string \<Rightarrow> (rat \<times> string) option" where
  "read_decimal s =
     (let (i, f, r) = read_digits is_digit s; (e, r') = read_exponent CHR ''e'' r
      in if i = [] \<and> f = [] then None else Some (of_nat (dec_prefix 0 (i @ f)) * pow10 (e - int (length f)), r'))"

definition read_hex :: "string \<Rightarrow> (rat \<times> string) option" where
  "read_hex s =
     (let (i, f, r) = read_digits is_hex_digit s; (e, r') = read_exponent CHR ''p'' r
      in if i = [] \<and> f = [] then None else Some (of_nat (hex_prefix 0 (i @ f)) * pow2 (e - 4 * int (length f)), r'))"

definition has_prefix :: "string \<Rightarrow> string \<Rightarrow> bool" where
  "has_prefix p s \<longleftrightarrow> length p \<le> length s \<and> strcasecmp_eq (take (length p) s) p"

text \<open>The number at the start of a text and the text behind it, \<open>None\<close> when there is none and \<open>end\<close> is the start.\<close>

definition read_float :: "(bool \<Rightarrow> rat \<Rightarrow> float32) \<Rightarrow> string \<Rightarrow> (float32 \<times> string) option" where
  "read_float rnd s =
     (let (neg, t) = split_sign s in
      if has_prefix ''infinity'' t then Some (FInf neg, drop 8 t)
      else if has_prefix ''inf'' t then Some (FInf neg, drop 3 t)
      else if has_prefix ''nan'' t then
        (let r = drop 3 t; w = dropWhile (\<lambda>c. is_digit c \<or> is_hex_digit c \<or> c = CHR ''_'' \<or> (97 \<le> char_code (c_tolower c) \<and> char_code (c_tolower c) \<le> 122)) (tl r)
         in if r \<noteq> [] \<and> hd r = CHR ''('' \<and> w \<noteq> [] \<and> hd w = CHR '')'' then Some (FNan, tl w) else Some (FNan, r))
      else case (if has_prefix ''0x'' t then read_hex (drop 2 t) else None) of
        Some (x, r) \<Rightarrow> Some (rnd neg x, r)
      | None \<Rightarrow> map_option (\<lambda>(x, r). (rnd neg x, r)) (read_decimal t))"

definition strtof :: "string \<Rightarrow> (float32 \<times> string) option" where
  "strtof = read_float f32_round"

text \<open>\<open>strtof\<close> and the test that nothing follows: a number and nothing else.\<close>

definition whole_float :: "string \<Rightarrow> float32 option" where
  "whole_float s = (case strtof s of Some (x, []) \<Rightarrow> Some x | _ \<Rightarrow> None)"

text \<open>\<open>%.kf\<close>; a float is exact as the \<open>double\<close> that is passed.\<close>

definition fixed_mag :: "nat \<Rightarrow> rat \<Rightarrow> string" where
  "fixed_mag k x =
     (let n = nat (round_half_even (x * 10 ^ k))
      in if k = 0 then dec n else dec (n div 10 ^ k) @ CHR ''.'' # dec_pad k (n mod 10 ^ k))"

fun fixed_text :: "nat \<Rightarrow> float32 \<Rightarrow> string" where
  "fixed_text k FNan = ''nan''"
| "fixed_text k (FInf s) = (if s then ''-inf'' else ''inf'')"
| "fixed_text k (FFin s x) = (if s then CHR ''-'' # fixed_mag k x else fixed_mag k x)"

subsection \<open>Decimal numbers read back\<close>

text \<open>\<open>n\<close> units of the \<open>k\<close>-th decimal.\<close>

definition decimal :: "nat \<Rightarrow> nat \<Rightarrow> string" where
  "decimal k n = (if k = 0 then dec n else dec (n div 10 ^ k) @ CHR ''.'' # dec_pad k (n mod 10 ^ k))"

definition decimal_float :: "nat \<Rightarrow> nat \<Rightarrow> float32" where
  "decimal_float k n = f32_round False (of_nat n / 10 ^ k)"

lemma round_half_even_near: "\<bar>x - of_int n\<bar> < 1 / 2 \<Longrightarrow> round_half_even x = n"
proof -
  assume a: "\<bar>x - of_int n\<bar> < 1 / 2"
  let ?k = "\<lfloor>x\<rfloor>"
  have "of_int ?k \<le> x" "x < of_int ?k + 1" by linarith+
  then have "of_int n < (of_int (?k + 2) :: rat)" "of_int ?k < (of_int (n + 1) :: rat)" using a
    by (simp_all only: of_int_add of_int_1 of_int_numeral abs_less_iff) linarith+
  then have k: "n = ?k \<or> n = ?k + 1" unfolding of_int_less_iff by linarith
  show ?thesis
  proof (cases "n = ?k")
    case True
    then show ?thesis using a unfolding round_half_even_def Let_def by (simp add: abs_less_iff)
  next
    case False
    then have "of_int n = (of_int ?k + 1 :: rat)" using k by simp
    then show ?thesis using a k False unfolding round_half_even_def Let_def by (simp add: abs_less_iff; linarith)
  qed
qed

lemma fixed_text_decimal:
  assumes "n < 10 ^ k * 131072" and "k \<le> 2"
  shows "fixed_text k (decimal_float k n) = decimal k n"
proof -
  have "of_nat n < (of_nat (10 ^ k * 131072) :: rat)" using assms(1) unfolding of_nat_less_iff .
  then have x: "(of_nat n / 10 ^ k :: rat) < 131072" by (simp add: field_simps)
  obtain y where y: "decimal_float k n = FFin False y" "\<bar>y - of_nat n / 10 ^ k\<bar> \<le> pow2 (int 17 - 25)"
    using f32_round_error [of "of_nat n / 10 ^ k" 17 False] x unfolding decimal_float_def by (auto simp: pow2_def)
  have "\<bar>y * 10 ^ k - of_nat n\<bar> = \<bar>y - of_nat n / 10 ^ k\<bar> * 10 ^ k" using abs_scale [of "10 ^ k" y "of_nat n"] by simp
  also have "\<dots> \<le> pow2 (int 17 - 25) * 10 ^ k" using y(2) by (rule mult_right_mono) simp
  also have "\<dots> \<le> pow2 (int 17 - 25) * 10 ^ 2" using assms(2) by (intro mult_left_mono power_increasing) (simp_all add: less_imp_le)
  also have "\<dots> < 1 / 2" by (simp add: pow2_def)
  finally have "round_half_even (y * 10 ^ k) = int n" using round_half_even_near [of "y * 10 ^ k" "int n"] by simp
  then show ?thesis by (simp add: y(1) fixed_mag_def decimal_def)
qed

lemma takeWhile_digits:
  "list_all is_digit s \<Longrightarrow> t = [] \<or> \<not> is_digit (hd t) \<Longrightarrow> takeWhile is_digit (s @ t) = s \<and> dropWhile is_digit (s @ t) = t"
  by (induction s) (cases t; auto)+

lemma digit_span [simp]:
  "list_all is_digit s \<Longrightarrow> takeWhile is_digit s = s" "list_all is_digit s \<Longrightarrow> dropWhile is_digit s = []"
  by (induction s) auto

lemma list_all_dec_pad: "list_all is_digit (dec_pad k n)"
  by (simp add: dec_pad_def list_all_digit_dec) (simp add: list_all_iff is_digit_def char_code_def)

lemma dec_prefix_zeros: "dec_prefix 0 (replicate m CHR ''0'' @ s) = dec_prefix 0 s"
  by (induction m) (simp_all add: is_digit_def digit_val_def char_code_def)

lemma dec_prefix_scale: "list_all is_digit s \<Longrightarrow> dec_prefix a s = a * 10 ^ length s + dec_prefix 0 s"
proof (induction s arbitrary: a)
  case (Cons c s)
  have "dec_prefix (a * 10 + digit_val c) s = (a * 10 + digit_val c) * 10 ^ length s + dec_prefix 0 s"
    "dec_prefix (digit_val c) s = digit_val c * 10 ^ length s + dec_prefix 0 s"
    using Cons.IH [of "a * 10 + digit_val c"] Cons.IH [of "digit_val c"] Cons.prems by simp_all
  then show ?case using Cons.prems by (simp add: algebra_simps)
qed simp

lemma decimal_digits:
  assumes "n < 10 ^ k" and "0 < k"
  shows "length (dec_pad k n) = k" and "dec_prefix 0 (dec_pad k n) = n"
  using length_dec [OF assms] by (simp_all add: dec_pad_def dec_prefix_zeros dec_prefix_dec)

lemma read_decimal_text: "read_decimal (decimal k n) = Some (of_nat n / 10 ^ k, [])"
proof (cases "k = 0")
  case True
  then show ?thesis by (simp add: list_all_digit_dec decimal_def read_decimal_def read_digits_def read_exponent_def pow10_def dec_prefix_dec)
next
  case False
  let ?f = "dec_pad k (n mod 10 ^ k)"
  have f: "length ?f = k" "dec_prefix 0 ?f = n mod 10 ^ k" using decimal_digits [of "n mod 10 ^ k" k] False by simp_all
  have d: "\<not> is_digit CHR ''.''" by (simp add: is_digit_def char_code_def)
  have "dec_prefix 0 (dec (n div 10 ^ k) @ ?f) = n div 10 ^ k * 10 ^ k + n mod 10 ^ k"
    using dec_prefix_scale [OF list_all_dec_pad, of "n div 10 ^ k"] f
    by (simp add: dec_prefix_append list_all_digit_dec dec_prefix_dec)
  then have v: "dec_prefix 0 (dec (n div 10 ^ k) @ ?f) = n" by (simp only: div_mult_mod_eq)
  show ?thesis
    using takeWhile_digits [OF list_all_digit_dec, of "CHR ''.'' # ?f" "n div 10 ^ k"] False d f(1)
    by (simp add: list_all_dec_pad decimal_def read_decimal_def read_digits_def read_exponent_def pow10_def v)
qed

lemma read_float_decimal: "read_float rnd (decimal k n) = Some (rnd False (of_nat n / 10 ^ k), [])"
proof -
  obtain c s where c: "decimal k n = c # s" "is_digit c" and rest: "s = [] \<or> is_digit (hd s) \<or> hd s = CHR ''.''"
  proof -
    obtain c s where cs: "dec (if k = 0 then n else n div 10 ^ k) = c # s" by (cases "dec (if k = 0 then n else n div 10 ^ k)") auto
    then have "is_digit c" "list_all is_digit s" using list_all_digit_dec [of "if k = 0 then n else n div 10 ^ k"] by auto
    then show ?thesis using cs that by (cases "k = 0"; cases s) (auto simp: decimal_def)
  qed
  have "split_sign (decimal k n) = (False, decimal k n)"
    using split_sign_dec [of n "[]"] split_sign_dec [of "n div 10 ^ k"] by (auto simp: decimal_def)
  moreover have p: "\<not> has_prefix p (decimal k n)" if "p \<in> {''infinity'', ''inf'', ''nan'', ''0x''}" for p
    using that c rest by (cases s) (auto simp: has_prefix_def strcasecmp_eq_def c_tolower_def is_digit_def char_code_def split: if_splits)
  ultimately show ?thesis
    using read_decimal_text [of k n] by (simp add: read_float_def)
qed

lemma whole_float_decimal: "whole_float (decimal k n) = Some (decimal_float k n)"
  by (simp add: whole_float_def strtof_def read_float_decimal decimal_float_def)

end
