(* ===== verification/System_Config.thy ===== *)
theory System_Config
  imports C_Float Remote_Config
begin

text \<open>
  \<open>system/system_config.c\<close>: the configuration of the ignition and motion detection. Its text form has positional
  values as well as keys, and thresholds that are floats. Of the words of a setting each is taken over into a copy, and the
  copy is checked as a whole before it is stored.
\<close>

subsection \<open>The struct\<close>

datatype ign_source = SYSTEM_IGN_SOURCE_WIRE | SYSTEM_IGN_SOURCE_SOFT

datatype motion_source = SYSTEM_MOT_SOURCE_IGN | SYSTEM_MOT_SOURCE_SOFT

datatype soft_motion_method =
    SYSTEM_SOFT_MOT_GNSS_SPEED | SYSTEM_SOFT_MOT_ACCEL | SYSTEM_SOFT_MOT_GPS_DIST | SYSTEM_SOFT_MOT_TRIP | SYSTEM_SOFT_MOT_ANY

record system_config =
  sc_ign_source :: ign_source
  sc_wire_on_v :: float32
  sc_wire_off_v :: float32
  sc_soft_lo_v :: float32
  sc_soft_hi_v :: float32
  sc_debounce_polls :: nat
  sc_motion_source :: motion_source
  sc_soft_motion_method :: soft_motion_method
  sc_mot_spd_kmh :: float32
  sc_mot_dist_m :: float32
  sc_accel_g :: float32
  sc_accel_dur_ms :: nat
  sc_mot_stop_debounce_sec :: nat
  sc_mot_spd_calc :: bool
  sc_mot_spd_en :: bool
  sc_mot_dist_en :: bool
  sc_accel_en :: bool

definition system_config_get_defaults :: system_config where
  "system_config_get_defaults = \<lparr>sc_ign_source = SYSTEM_IGN_SOURCE_WIRE,
     sc_wire_on_v = decimal_float 1 50, sc_wire_off_v = decimal_float 1 49, sc_soft_lo_v = decimal_float 1 127,
     sc_soft_hi_v = decimal_float 1 150, sc_debounce_polls = 5, sc_motion_source = SYSTEM_MOT_SOURCE_IGN,
     sc_soft_motion_method = SYSTEM_SOFT_MOT_ANY, sc_mot_spd_kmh = decimal_float 0 5, sc_mot_dist_m = decimal_float 0 200,
     sc_accel_g = decimal_float 2 5, sc_accel_dur_ms = 2000, sc_mot_stop_debounce_sec = 5, sc_mot_spd_calc = False,
     sc_mot_spd_en = False, sc_mot_dist_en = True, sc_accel_en = False\<rparr>"

definition system_config_validate :: "system_config option \<Rightarrow> result" where
  "system_config_validate config =
     (case config of
        None \<Rightarrow> RESULT_INVALID_PARAM
      | Some c \<Rightarrow>
          if f32_le (sc_wire_on_v c) (sc_wire_off_v c) then RESULT_INVALID_PARAM
          else if f32_le (sc_soft_hi_v c) (sc_soft_lo_v c) then RESULT_INVALID_PARAM
          else if sc_debounce_polls c = 0 then RESULT_INVALID_PARAM
          else if f32_lt (sc_mot_spd_kmh c) FZERO \<or> f32_lt (sc_mot_dist_m c) FZERO \<or> f32_lt (sc_accel_g c) FZERO then RESULT_INVALID_PARAM
          else if sc_accel_dur_ms c = 0 \<or> sc_mot_stop_debounce_sec c = 0 then RESULT_INVALID_PARAM
          else RESULT_SUCCESS)"

definition system_config_get_storage :: "('u, 'w) gateway \<Rightarrow> string" where
  "system_config_get_storage g = (case config_pointer MODULE_ID_SYSTEM g of None \<Rightarrow> ''g_system_config'' | Some p \<Rightarrow> p)"

subsection \<open>Reading a value\<close>

definition s_sys_cfg_keys :: config_keys where
  "s_sys_cfg_keys = [(Some ''ign-src'', 0), (Some ''is'', 0), (Some ''wire-on-v'', 1), (Some ''wo'', 1), (Some ''wire-off-v'', 2),
     (Some ''wf'', 2), (Some ''soft-lo-v'', 3), (Some ''sl'', 3), (Some ''soft-hi-v'', 4), (Some ''sh'', 4), (Some ''deb'', 5), (Some ''d'', 5),
     (Some ''mot-src'', 6), (Some ''ms'', 6), (Some ''mot-method'', 7), (Some ''mm'', 7), (Some ''mot-spd-kmh'', 8), (Some ''mot-spd'', 8),
     (Some ''sp'', 8), (Some ''mot-dist-m'', 9), (Some ''mot-dist'', 9), (Some ''di'', 9), (Some ''accel-g'', 10), (Some ''ag'', 10),
     (Some ''accel-dur-ms'', 11), (Some ''ad'', 11), (Some ''mot-stop-sec'', 12), (Some ''st'', 12), (Some ''mot-spd-en'', 13), (Some ''se'', 13),
     (Some ''mot-dist-en'', 14), (Some ''de'', 14), (Some ''accel-en'', 15), (Some ''ae'', 15), (Some ''mot-spd-calc'', 16), (Some ''sc'', 16)]"

definition parse_enum_digit :: "string \<Rightarrow> int \<Rightarrow> int option" where
  "parse_enum_digit s max_inclusive =
     (if \<not> whole_number s \<or> atoi s < 0 \<or> atoi s > max_inclusive then None else Some (atoi s))"

definition parse_ign_src :: "string \<Rightarrow> ign_source option" where
  "parse_ign_src s =
     (case parse_enum_digit s 1 of
        Some v \<Rightarrow> Some (if v = 0 then SYSTEM_IGN_SOURCE_WIRE else SYSTEM_IGN_SOURCE_SOFT)
      | None \<Rightarrow>
          if strcasecmp_eq s ''WIRE'' \<or> strcasecmp_eq s ''W'' then Some SYSTEM_IGN_SOURCE_WIRE
          else if strcasecmp_eq s ''SOFT'' \<or> strcasecmp_eq s ''S'' then Some SYSTEM_IGN_SOURCE_SOFT else None)"

definition parse_mot_src :: "string \<Rightarrow> motion_source option" where
  "parse_mot_src s =
     (case parse_enum_digit s 1 of
        Some v \<Rightarrow> Some (if v = 0 then SYSTEM_MOT_SOURCE_IGN else SYSTEM_MOT_SOURCE_SOFT)
      | None \<Rightarrow>
          if strcasecmp_eq s ''IGN'' \<or> strcasecmp_eq s ''IGNITION'' then Some SYSTEM_MOT_SOURCE_IGN
          else if strcasecmp_eq s ''SOFT'' then Some SYSTEM_MOT_SOURCE_SOFT else None)"

definition mot_methods :: "soft_motion_method list" where
  "mot_methods = [SYSTEM_SOFT_MOT_GNSS_SPEED, SYSTEM_SOFT_MOT_ACCEL, SYSTEM_SOFT_MOT_GPS_DIST, SYSTEM_SOFT_MOT_TRIP, SYSTEM_SOFT_MOT_ANY]"

definition parse_mot_method :: "string \<Rightarrow> soft_motion_method option" where
  "parse_mot_method s =
     (case parse_enum_digit s 4 of
        Some v \<Rightarrow> Some (mot_methods ! nat v)
      | None \<Rightarrow>
          if strcasecmp_eq s ''GNSS_SPEED'' \<or> strcasecmp_eq s ''GNSS'' then Some SYSTEM_SOFT_MOT_GNSS_SPEED
          else if strcasecmp_eq s ''ACCEL'' then Some SYSTEM_SOFT_MOT_ACCEL
          else if strcasecmp_eq s ''GPS_DIST'' \<or> strcasecmp_eq s ''DIST'' then Some SYSTEM_SOFT_MOT_GPS_DIST
          else if strcasecmp_eq s ''TRIP'' then Some SYSTEM_SOFT_MOT_TRIP
          else if strcasecmp_eq s ''ANY'' then Some SYSTEM_SOFT_MOT_ANY else None)"

text \<open>The cases of the switch; an index that no case names changes nothing.\<close>

definition set_threshold :: "int \<Rightarrow> float32 \<Rightarrow> system_config \<Rightarrow> system_config" where
  "set_threshold i v c =
     (if i = 1 then c\<lparr>sc_wire_on_v := v\<rparr> else if i = 2 then c\<lparr>sc_wire_off_v := v\<rparr>
      else if i = 3 then c\<lparr>sc_soft_lo_v := v\<rparr> else c\<lparr>sc_soft_hi_v := v\<rparr>)"

definition set_motion_limit :: "int \<Rightarrow> float32 \<Rightarrow> system_config \<Rightarrow> system_config" where
  "set_motion_limit i v c =
     (if i = 8 then c\<lparr>sc_mot_spd_kmh := v\<rparr> else if i = 9 then c\<lparr>sc_mot_dist_m := v\<rparr> else c\<lparr>sc_accel_g := v\<rparr>)"

definition set_switch :: "int \<Rightarrow> bool \<Rightarrow> system_config \<Rightarrow> system_config" where
  "set_switch i b c =
     (if i = 13 then c\<lparr>sc_mot_spd_en := b\<rparr> else if i = 14 then c\<lparr>sc_mot_dist_en := b\<rparr>
      else if i = 15 then c\<lparr>sc_accel_en := b\<rparr> else c\<lparr>sc_mot_spd_calc := b\<rparr>)"

definition system_setter :: "int \<Rightarrow> string \<Rightarrow> system_config \<Rightarrow> system_config option" where
  "system_setter i s c =
     (if i = 0 then map_option (\<lambda>v. c\<lparr>sc_ign_source := v\<rparr>) (parse_ign_src s)
      else if i \<in> {1, 2, 3, 4} then map_option (\<lambda>v. set_threshold i v c) (whole_float s)
      else if i = 5 then
        (if \<not> whole_number s \<or> atoi s \<le> 0 \<or> atoi s > 255 then None else Some (c\<lparr>sc_debounce_polls := nat (atoi s)\<rparr>))
      else if i = 6 then map_option (\<lambda>v. c\<lparr>sc_motion_source := v\<rparr>) (parse_mot_src s)
      else if i = 7 then map_option (\<lambda>v. c\<lparr>sc_soft_motion_method := v\<rparr>) (parse_mot_method s)
      else if i \<in> {8, 9, 10} then
        (case whole_float s of None \<Rightarrow> None | Some v \<Rightarrow> if f32_lt v FZERO then None else Some (set_motion_limit i v c))
      else if i = 11 \<or> i = 12 then
        (if \<not> whole_number s \<or> strtoul10 s = 0 then None
         else Some (if i = 11 then c\<lparr>sc_accel_dur_ms := strtoul10 s\<rparr> else c\<lparr>sc_mot_stop_debounce_sec := strtoul10 s\<rparr>))
      else if i \<in> {13, 14, 15, 16} then map_option (\<lambda>b. set_switch i b c) (parse_flag s)
      else Some c)"

subsection \<open>Setting\<close>

text \<open>The index a token is for: that of its key, without a key its position; \<open>None\<close> when the key is refused.\<close>

definition token_index :: "nat \<Rightarrow> string \<Rightarrow> int option" where
  "token_index param_index token =
     (case strchr token CHR '':'' of
        None \<Rightarrow> Some (int param_index)
      | Some colon \<Rightarrow>
          let key_len = length token - length colon in
          if key_len = 0 \<or> key_len \<ge> 32 then None
          else let i = utils_config_key_to_index (Some (take key_len token)) (Some s_sys_cfg_keys) in
            if i < 0 then None else Some i)"

text \<open>The tokens one by one: how many there were, and the copy.\<close>

fun system_loop :: "string list \<Rightarrow> nat \<Rightarrow> system_config \<Rightarrow> (nat \<times> system_config) option" where
  "system_loop [] param_index c = Some (param_index, c)"
| "system_loop (tok # toks) param_index c =
     (let token = the (utils_trim_whitespace (Some tok)) in
      case token_index param_index token of
        None \<Rightarrow> None
      | Some i \<Rightarrow>
          (case system_setter i (the (utils_extract_config_value (Some token))) c of
             None \<Rightarrow> None
           | Some c \<Rightarrow> system_loop toks (param_index + 1) c))"

definition system_config_set ::
    "'w config_env \<Rightarrow> system_config struct_abi \<Rightarrow> bool \<Rightarrow> string option \<Rightarrow> ('u, 'w) config_state \<Rightarrow>
     result \<times> ('u, 'w) config_state" where
  "system_config_set E A alloc_ok config_string st =
     (case config_string of
        None \<Rightarrow> (RESULT_INVALID_PARAM, st)
      | Some s \<Rightarrow>
          if s = [] then (RESULT_INVALID_PARAM, st)
          else
            let p = system_config_get_storage (snd st) in
            (case utils_strdup_for_tokenization alloc_ok (Some s) of
               None \<Rightarrow> (RESULT_ERROR, st)
             | Some str_copy \<Rightarrow>
                 (case system_loop (tok_loop '','' (Some str_copy)) 0 (struct_read A p (fst st)) of
                    None \<Rightarrow> (RESULT_INVALID_PARAM, st)
                  | Some (n, c) \<Rightarrow>
                      if n = 0 then (RESULT_SUCCESS, st)
                      else if system_config_validate (Some c) \<noteq> RESULT_SUCCESS then (system_config_validate (Some c), st)
                      else (RESULT_SUCCESS, snd (save_config E (struct_write A p c (fst st), snd st))))))"

subsection \<open>Showing\<close>

definition ign_src_code :: "ign_source \<Rightarrow> nat" where
  "ign_src_code s = (case s of SYSTEM_IGN_SOURCE_WIRE \<Rightarrow> 0 | SYSTEM_IGN_SOURCE_SOFT \<Rightarrow> 1)"

definition mot_src_code :: "motion_source \<Rightarrow> nat" where
  "mot_src_code s = (case s of SYSTEM_MOT_SOURCE_IGN \<Rightarrow> 0 | SYSTEM_MOT_SOURCE_SOFT \<Rightarrow> 1)"

definition mot_method_code :: "soft_motion_method \<Rightarrow> nat" where
  "mot_method_code m = (case m of SYSTEM_SOFT_MOT_GNSS_SPEED \<Rightarrow> 0 | SYSTEM_SOFT_MOT_ACCEL \<Rightarrow> 1 | SYSTEM_SOFT_MOT_GPS_DIST \<Rightarrow> 2
     | SYSTEM_SOFT_MOT_TRIP \<Rightarrow> 3 | SYSTEM_SOFT_MOT_ANY \<Rightarrow> 4)"

definition bit_text :: "bool \<Rightarrow> string" where
  "bit_text b = (if b then ''1'' else ''0'')"

definition system_fields :: "system_config \<Rightarrow> (string \<times> string) list" where
  "system_fields c = [(''is'', dec (ign_src_code (sc_ign_source c))), (''wo'', fixed_text 1 (sc_wire_on_v c)),
     (''wf'', fixed_text 1 (sc_wire_off_v c)), (''sl'', fixed_text 1 (sc_soft_lo_v c)), (''sh'', fixed_text 1 (sc_soft_hi_v c)),
     (''d'', dec (sc_debounce_polls c)), (''ms'', dec (mot_src_code (sc_motion_source c))),
     (''mm'', dec (mot_method_code (sc_soft_motion_method c))), (''sp'', fixed_text 0 (sc_mot_spd_kmh c)),
     (''di'', fixed_text 0 (sc_mot_dist_m c)), (''ag'', fixed_text 2 (sc_accel_g c)), (''ad'', dec (sc_accel_dur_ms c)),
     (''st'', dec (sc_mot_stop_debounce_sec c)), (''se'', bit_text (sc_mot_spd_en c)), (''de'', bit_text (sc_mot_dist_en c)),
     (''ae'', bit_text (sc_accel_en c)), (''sc'', bit_text (sc_mot_spd_calc c))]"

definition system_config_get_string ::
    "system_config struct_abi \<Rightarrow> bool \<Rightarrow> nat \<Rightarrow> ('u, 'w) config_state \<Rightarrow> result \<times> string" where
  "system_config_get_string A buffer_ok buffer_size st =
     (if \<not> buffer_ok \<or> buffer_size = 0 then (RESULT_INVALID_PARAM, [])
      else config_text buffer_size (system_fields (struct_read A (system_config_get_storage (snd st)) (fst st))))"

subsection \<open>The text reads back\<close>

text \<open>What the text can show: thresholds with one decimal, speed and distance whole, the acceleration with two decimals.\<close>

definition shown :: "nat \<Rightarrow> float32 \<Rightarrow> bool" where
  "shown k x \<longleftrightarrow> (\<exists>n. x = decimal_float k n \<and> n < 10 ^ k * 131072)"

definition system_config_shown :: "system_config \<Rightarrow> bool" where
  "system_config_shown c \<longleftrightarrow>
     shown 1 (sc_wire_on_v c) \<and> shown 1 (sc_wire_off_v c) \<and> shown 1 (sc_soft_lo_v c) \<and> shown 1 (sc_soft_hi_v c) \<and>
     shown 0 (sc_mot_spd_kmh c) \<and> shown 0 (sc_mot_dist_m c) \<and> shown 2 (sc_accel_g c) \<and>
     sc_debounce_polls c \<le> 255 \<and> sc_accel_dur_ms c \<le> UINT32_MAX \<and> sc_mot_stop_debounce_sec c \<le> UINT32_MAX \<and>
     system_config_validate (Some c) = RESULT_SUCCESS"

lemma shown_text: "shown k x \<Longrightarrow> k \<le> 2 \<Longrightarrow> whole_float (fixed_text k x) = Some x"
  by (auto simp: shown_def fixed_text_decimal whole_float_decimal)

lemma shown_plain: "shown k x \<Longrightarrow> k \<le> 2 \<Longrightarrow> plain_value (fixed_text k x)"
proof -
  assume a: "shown k x" "k \<le> 2"
  then obtain n where n: "fixed_text k x = decimal k n" by (auto simp: shown_def fixed_text_decimal)
  have l: "\<not> is_blank (last (dec m))" for m
    using digit_chars(4) [OF list_all_digit_dec, of m] last_in_set [OF dec_not_Nil, of m] by blast
  then have "\<not> is_blank (last (dec_pad j m))" for j m by (simp add: dec_pad_def)
  then show ?thesis
    using digit_chars(2) [OF list_all_digit_dec] digit_chars(2) [OF list_all_dec_pad] l by (auto simp: n plain_value_def decimal_def dec_pad_def)
qed

lemma not_negative: "0 \<le> x \<Longrightarrow> \<not> f32_lt (f32_round False x) FZERO"
proof -
  assume "0 \<le> x"
  let ?u = "pow2 (max (rat_exponent x) (- 126) - 23)"
  have "0 \<le> x / ?u" using \<open>0 \<le> x\<close> by (simp add: less_imp_le)
  then have "0 \<le> round_half_even (x / ?u)" by (auto simp: round_half_even_def Let_def)
  then have "0 \<le> of_int (round_half_even (x / ?u)) * ?u" by (simp add: less_imp_le)
  then show ?thesis by (simp add: f32_round_def fp_round_def Let_def signed_def)
qed

lemma shown_not_negative: "shown k x \<Longrightarrow> \<not> f32_lt x FZERO"
  by (auto simp: shown_def decimal_float_def not_negative)

lemma sys_keys:
  "key_index_loop ''is'' s_sys_cfg_keys = 0" "key_index_loop ''wo'' s_sys_cfg_keys = 1" "key_index_loop ''wf'' s_sys_cfg_keys = 2"
  "key_index_loop ''sl'' s_sys_cfg_keys = 3" "key_index_loop ''sh'' s_sys_cfg_keys = 4" "key_index_loop ''d'' s_sys_cfg_keys = 5"
  "key_index_loop ''ms'' s_sys_cfg_keys = 6" "key_index_loop ''mm'' s_sys_cfg_keys = 7" "key_index_loop ''sp'' s_sys_cfg_keys = 8"
  "key_index_loop ''di'' s_sys_cfg_keys = 9" "key_index_loop ''ag'' s_sys_cfg_keys = 10" "key_index_loop ''ad'' s_sys_cfg_keys = 11"
  "key_index_loop ''st'' s_sys_cfg_keys = 12" "key_index_loop ''se'' s_sys_cfg_keys = 13" "key_index_loop ''de'' s_sys_cfg_keys = 14"
  "key_index_loop ''ae'' s_sys_cfg_keys = 15" "key_index_loop ''sc'' s_sys_cfg_keys = 16"
  by (simp_all add: s_sys_cfg_keys_def strcasecmp_eq_def c_tolower_def char_code_def)

lemma parse_flag_bit [simp]: "parse_flag (bit_text b) = Some b"
  by (cases b) (simp_all add: parse_flag_def bit_text_def strcasecmp_eq_def c_tolower_def char_code_def)

lemma parse_enum_dec: "int n \<le> m \<Longrightarrow> m \<le> 2147483647 \<Longrightarrow> parse_enum_digit (dec n) m = Some (int n)"
  by (simp add: parse_enum_digit_def whole_number_dec atoi_dec)

lemma parse_codes:
  "parse_ign_src (dec (ign_src_code s)) = Some s" "parse_mot_src (dec (mot_src_code m)) = Some m"
  "parse_mot_method (dec (mot_method_code k)) = Some k"
  by (cases s, simp_all add: parse_ign_src_def ign_src_code_def parse_enum_dec)
    (cases m, simp_all add: parse_mot_src_def mot_src_code_def parse_enum_dec,
     cases k, simp_all add: parse_mot_method_def mot_method_code_def parse_enum_dec mot_methods_def)

lemma setter_shown:
  assumes "system_config_shown c"
  shows "set_fields system_setter s_sys_cfg_keys (system_fields c) c0 = Some c"
proof -
  note a = assms [unfolded system_config_shown_def]
  have v: "0 < sc_debounce_polls c" "0 < sc_accel_dur_ms c" "0 < sc_mot_stop_debounce_sec c"
    using a by (auto simp: system_config_validate_def split: if_splits)
  have t: "whole_float (fixed_text 1 (sc_wire_on_v c)) = Some (sc_wire_on_v c)" "whole_float (fixed_text 1 (sc_wire_off_v c)) = Some (sc_wire_off_v c)"
    "whole_float (fixed_text 1 (sc_soft_lo_v c)) = Some (sc_soft_lo_v c)" "whole_float (fixed_text 1 (sc_soft_hi_v c)) = Some (sc_soft_hi_v c)"
    "whole_float (fixed_text 0 (sc_mot_spd_kmh c)) = Some (sc_mot_spd_kmh c)" "whole_float (fixed_text 0 (sc_mot_dist_m c)) = Some (sc_mot_dist_m c)"
    "whole_float (fixed_text 2 (sc_accel_g c)) = Some (sc_accel_g c)"
    using a by (simp_all add: shown_text)
  have z: "\<not> f32_lt (sc_mot_spd_kmh c) FZERO" "\<not> f32_lt (sc_mot_dist_m c) FZERO" "\<not> f32_lt (sc_accel_g c) FZERO"
    using a shown_not_negative by blast+
  have n: "atoi (dec (sc_debounce_polls c)) = int (sc_debounce_polls c)" "strtoul10 (dec (sc_accel_dur_ms c)) = sc_accel_dur_ms c"
    "strtoul10 (dec (sc_mot_stop_debounce_sec c)) = sc_mot_stop_debounce_sec c"
    using a by (simp_all add: atoi_dec strtoul10_dec)
  have d: "\<not> 255 < sc_debounce_polls c" using a by simp
  show ?thesis
    unfolding system_fields_def
    by (simp add: d sys_keys system_setter_def parse_codes set_threshold_def set_motion_limit_def set_switch_def t z n whole_number_dec v a
        del: fixed_text.simps One_nat_def)
qed

lemma system_loop_fields:
  assumes "\<forall>(k, v) \<in> set kvs. plain_key k \<and> plain_value v \<and> 0 \<le> key_index_loop k s_sys_cfg_keys"
    and "set_fields system_setter s_sys_cfg_keys kvs c = Some c'"
  shows "system_loop (map field_text kvs) n c = Some (n + length kvs, c')"
  using assms
proof (induction kvs arbitrary: n c)
  case (Cons kv kvs)
  obtain k v where kv: "kv = (k, v)" by fastforce
  then have p: "plain_key k" "plain_value v" "\<not> key_index_loop k s_sys_cfg_keys < 0" using Cons.prems(1) by auto
  have c: "strchr (field_text (k, v)) CHR '':'' = Some (CHR '':'' # v)"
    using p(1) by (simp add: field_text_def plain_key_def cstr_simps)
  have "token_index n (field_text (k, v)) = Some (key_index_loop k s_sys_cfg_keys)"
    unfolding token_index_def c using p by (simp add: field_text_def plain_key_def utils_config_key_to_index_def)
  then show ?case using Cons p by (auto simp: kv field_token Let_def split: option.splits)
qed simp

lemma fields_plain:
  assumes "system_config_shown c"
  shows "\<forall>(k, v) \<in> set (system_fields c). plain_key k \<and> plain_value v \<and> 0 \<le> key_index_loop k s_sys_cfg_keys"
proof -
  have "plain_value (dec n)" "plain_value (bit_text b)" for n b
    by (simp_all add: plain_value_digits list_all_digit_dec) (simp add: bit_text_def plain_value_def is_blank_def)
  moreover have "plain_value (fixed_text 1 (sc_wire_on_v c))" "plain_value (fixed_text 1 (sc_wire_off_v c))"
    "plain_value (fixed_text 1 (sc_soft_lo_v c))" "plain_value (fixed_text 1 (sc_soft_hi_v c))"
    "plain_value (fixed_text 0 (sc_mot_spd_kmh c))" "plain_value (fixed_text 0 (sc_mot_dist_m c))" "plain_value (fixed_text 2 (sc_accel_g c))"
    using assms by (auto simp: system_config_shown_def intro: shown_plain)
  ultimately show ?thesis unfolding system_fields_def
    by (simp add: sys_keys plain_key_def is_blank_def del: fixed_text.simps One_nat_def)
qed

lemma system_set_accepts:
  assumes "s \<noteq> []" and "length s < 2048" and "system_loop (tok_loop '','' (Some s)) 0 (struct_read A (system_config_get_storage (snd st)) (fst st)) = Some (n, c)"
    and "0 < n" and "system_config_validate (Some c) = RESULT_SUCCESS"
  shows "system_config_set E A True (Some s) st =
    (RESULT_SUCCESS, snd (save_config E (struct_write A (system_config_get_storage (snd st)) c (fst st), snd st)))"
  using assms by (simp add: system_config_set_def strdup_short Let_def)

text \<open>The text that shows a system configuration sets exactly that configuration when it is sent back, as long as the
  configuration has no more decimals than the text.\<close>

theorem system_config_text_roundtrip:
  assumes "system_config_shown c" and "struct_read A (system_config_get_storage (snd st)) (fst st) = c"
    and "system_config_get_string A True n st = (RESULT_SUCCESS, s)" and "n \<le> 2048"
    and "cs_config_initialized (fst st0)" and "struct_law A ok m" and "ok c"
    and "length (cs_memory (fst st0) (system_config_get_storage (snd st0))) = m"
  shows "\<exists>st1. system_config_set E A True (Some s) st0 = (RESULT_SUCCESS, st1) \<and>
    struct_read A (system_config_get_storage (snd st0)) (fst st1) = c"
proof -
  let ?p = "system_config_get_storage (snd st0)"
  have t: "config_text n (system_fields c) = (RESULT_SUCCESS, s)"
    using assms(2,3) by (simp add: system_config_get_string_def split: if_splits)
  then have s: "s = fields_text (system_fields c)" by (rule config_text_success)
  have "length s < n" using t by (auto simp: config_text_def snprintf_def split: if_splits)
  then have l: "length s < 2048" "s \<noteq> []" using assms(4) by (simp_all add: s system_fields_def field_text_def)
  have "system_loop (tok_loop '','' (Some s)) 0 (struct_read A ?p (fst st0)) = Some (0 + length (system_fields c), c)"
    unfolding s using system_loop_fields [OF fields_plain [OF assms(1)] setter_shown [OF assms(1)]] fields_plain [OF assms(1)]
    by (simp add: fields_tokens split_def)
  moreover have "0 < length (system_fields c)" by (simp add: system_fields_def)
  moreover have "system_config_validate (Some c) = RESULT_SUCCESS" using assms(1) by (simp add: system_config_shown_def)
  ultimately show ?thesis
    using system_set_accepts [OF l(2,1), of A st0] assms(5-8) by (simp add: save_config_keeps struct_read_write)
qed

text \<open>A refused text changes nothing, an accepted one leaves a configuration that passes the validation.\<close>

lemma system_set_outcome:
  assumes "system_config_set E A ok s st = (r, st')"
  shows "if r = RESULT_SUCCESS then st' = st \<or> (\<exists>c. system_config_validate (Some c) = RESULT_SUCCESS \<and>
      st' = snd (save_config E (struct_write A (system_config_get_storage (snd st)) c (fst st), snd st))) else st' = st"
  using assms by (auto simp: system_config_set_def Let_def split: option.splits if_splits prod.splits)

text \<open>A threshold that is not a number passes every comparison of the validation.\<close>

lemma nan_threshold_loop:
  "system_loop (tok_loop '','' (Some ''wire-on-v:nan'')) 0 c = Some (1, c\<lparr>sc_wire_on_v := FNan\<rparr>)"
proof -
  have t: "''wire-on-v:nan'' = fields_text [(''wire-on-v'', ''nan'')]" by (simp add: field_text_def)
  have i: "key_index_loop ''wire-on-v'' s_sys_cfg_keys = 1"
    by (simp add: s_sys_cfg_keys_def strcasecmp_eq_def c_tolower_def char_code_def)
  have p: "plain_key ''wire-on-v''" "plain_value ''nan''" by (simp_all add: plain_key_def plain_value_def is_blank_def)
  have w: "whole_float ''nan'' = Some FNan" by code_simp
  let ?kvs = "[(''wire-on-v'', ''nan'')]"
  have f: "set_fields system_setter s_sys_cfg_keys ?kvs c = Some (c\<lparr>sc_wire_on_v := FNan\<rparr>)"
    by (simp add: i system_setter_def w set_threshold_def)
  have m: "tok_loop '','' (Some (fields_text ?kvs)) = map field_text ?kvs" using p by (intro fields_tokens) simp
  have "system_loop (map field_text ?kvs) 0 c = Some (0 + length ?kvs, c\<lparr>sc_wire_on_v := FNan\<rparr>)"
    using p i by (intro system_loop_fields [OF _ f]) simp
  then show ?thesis unfolding t m by simp
qed

lemma nan_threshold_valid:
  "system_config_validate (Some c) = RESULT_SUCCESS \<Longrightarrow> system_config_validate (Some (c\<lparr>sc_wire_on_v := FNan\<rparr>)) = RESULT_SUCCESS"
  by (auto simp: system_config_validate_def split: if_splits)

subsection \<open>Evaluation\<close>

lemma default_valid: "system_config_validate (Some system_config_get_defaults) = RESULT_SUCCESS"
  by code_simp

lemma default_shown: "system_config_shown system_config_get_defaults"
proof -
  have "shown k (decimal_float k n)" if "n < 10 ^ k * 131072" for k n using that by (auto simp: shown_def)
  then show ?thesis
    using default_valid by (simp add: system_config_shown_def system_config_get_defaults_def del: One_nat_def)
qed

text \<open>A struct that holds the defaults or has nine debounce polls.\<close>

definition one_system :: "system_config struct_abi" where
  "one_system = \<lparr>sa_get = (\<lambda>b. if hd b = 1 then system_config_get_defaults else system_config_get_defaults\<lparr>sc_debounce_polls := 9\<rparr>),
     sa_put = (\<lambda>c b. 1 # tl b)\<rparr>"

definition one_store :: "byte \<Rightarrow> config_store" where
  "one_store b = \<lparr>cs_config_initialized = True, cs_file_loaded = True, cs_defaults_initialized = True, cs_memory = (\<lambda>p. [b])\<rparr>"

lemma system_config_text_roundtrip_witness:
  "\<exists>s st1. system_config_get_string one_system True 160 (one_store 1, plain_gateway) = (RESULT_SUCCESS, s) \<and>
     system_config_set plain_env one_system True (Some s) (one_store 0, plain_gateway) = (RESULT_SUCCESS, st1) \<and>
     struct_read one_system (system_config_get_storage plain_gateway) (fst st1) = system_config_get_defaults"
proof -
  have "fst (config_text 160 (system_fields system_config_get_defaults)) = RESULT_SUCCESS" by code_simp
  then obtain s where "config_text 160 (system_fields system_config_get_defaults) = (RESULT_SUCCESS, s)" by (metis prod.collapse)
  then have g: "system_config_get_string one_system True 160 (one_store 1, plain_gateway) = (RESULT_SUCCESS, s)"
    by (simp add: system_config_get_string_def struct_read_def one_system_def one_store_def)
  have L: "struct_law one_system (\<lambda>c. c = system_config_get_defaults) 1" by (simp add: struct_law_def one_system_def)
  have r: "struct_read one_system (system_config_get_storage (snd (one_store 1, plain_gateway))) (fst (one_store 1, plain_gateway)) = system_config_get_defaults"
    by (simp add: struct_read_def one_system_def one_store_def)
  have "\<exists>st1. system_config_set plain_env one_system True (Some s) (one_store 0, plain_gateway) = (RESULT_SUCCESS, st1) \<and>
      struct_read one_system (system_config_get_storage (snd (one_store 0, plain_gateway))) (fst st1) = system_config_get_defaults"
    by (rule system_config_text_roundtrip [OF default_shown r g _ _ L]) (simp_all add: one_store_def)
  then show ?thesis using g by auto
qed

end
