(* ===== verification/C_Double.thy ===== *)
theory C_Double
  imports C_Float
begin

text \<open>
  The type \<open>double\<close>, 53 bits, as a number of the same datatype, so that a \<open>float\<close> used as a \<open>double\<close> is itself and the
  comparisons serve both. Addition and multiplication of either type, the conversions to a \<open>float\<close> and to an integer, and
  \<open>atof\<close>.
\<close>

type_synonym float64 = float32

definition f64_round :: "bool \<Rightarrow> rat \<Rightarrow> float64" where
  "f64_round = fp_round 52 (- 1022) 1024"

definition f64_of_rat :: "rat \<Rightarrow> float64" where
  "f64_of_rat x = f64_round (x < 0) \<bar>x\<bar>"

fun f32_of_double :: "float64 \<Rightarrow> float32" where
  "f32_of_double (FFin s x) = f32_round s x"
| "f32_of_double x = x"

fun f_neg :: "float32 \<Rightarrow> float32" where
  "f_neg (FFin s x) = FFin (\<not> s) x"
| "f_neg (FInf s) = FInf (\<not> s)"
| "f_neg FNan = FNan"

text \<open>The operations with the rounding of their type. A sum that is zero is \<open>- 0\<close> only when both summands are.\<close>

fun f_add :: "(bool \<Rightarrow> rat \<Rightarrow> float32) \<Rightarrow> float32 \<Rightarrow> float32 \<Rightarrow> float32" where
  "f_add rnd (FFin s x) (FFin t y) =
     (let r = signed s x + signed t y in if r = 0 then FFin (s \<and> t) 0 else rnd (r < 0) \<bar>r\<bar>)"
| "f_add rnd (FInf s) (FInf t) = (if s = t then FInf s else FNan)"
| "f_add rnd (FInf s) (FFin t y) = FInf s"
| "f_add rnd (FFin s x) (FInf t) = FInf t"
| "f_add rnd _ _ = FNan"

fun f_mul :: "(bool \<Rightarrow> rat \<Rightarrow> float32) \<Rightarrow> float32 \<Rightarrow> float32 \<Rightarrow> float32" where
  "f_mul rnd (FFin s x) (FFin t y) = rnd (s \<noteq> t) (x * y)"
| "f_mul rnd (FInf s) (FFin t y) = (if y = 0 then FNan else FInf (s \<noteq> t))"
| "f_mul rnd (FFin s x) (FInf t) = (if x = 0 then FNan else FInf (s \<noteq> t))"
| "f_mul rnd (FInf s) (FInf t) = FInf (s \<noteq> t)"
| "f_mul rnd _ _ = FNan"

fun f_div :: "(bool \<Rightarrow> rat \<Rightarrow> float32) \<Rightarrow> float32 \<Rightarrow> float32 \<Rightarrow> float32" where
  "f_div rnd (FFin s x) (FFin t y) = (if y = 0 then if x = 0 then FNan else FInf (s \<noteq> t) else rnd (s \<noteq> t) (x / y))"
| "f_div rnd (FInf s) (FFin t y) = FInf (s \<noteq> t)"
| "f_div rnd (FFin s x) (FInf t) = FFin (s \<noteq> t) 0"
| "f_div rnd _ _ = FNan"

definition f32_sub :: "float32 \<Rightarrow> float32 \<Rightarrow> float32" where
  "f32_sub x y = f_add f32_round x (f_neg y)"

definition f64_add :: "float64 \<Rightarrow> float64 \<Rightarrow> float64" where "f64_add = f_add f64_round"
definition f64_sub :: "float64 \<Rightarrow> float64 \<Rightarrow> float64" where "f64_sub x y = f64_add x (f_neg y)"
definition f64_mul :: "float64 \<Rightarrow> float64 \<Rightarrow> float64" where "f64_mul = f_mul f64_round"
definition f64_div :: "float64 \<Rightarrow> float64 \<Rightarrow> float64" where "f64_div = f_div f64_round"

text \<open>The conversion to an integer drops the fraction. C leaves it open for what is no number of the integer type; the
  properties stay where it is one.\<close>

fun c_trunc :: "float32 \<Rightarrow> int" where
  "c_trunc (FFin s x) = (if s then - \<lfloor>x\<rfloor> else \<lfloor>x\<rfloor>)"
| "c_trunc x = 0"

definition f32_of_int :: "int \<Rightarrow> float32" where "f32_of_int n = f32_of_rat (of_int n)"
definition f64_of_int :: "int \<Rightarrow> float64" where "f64_of_int n = f64_of_rat (of_int n)"

definition atof :: "string \<Rightarrow> float64" where
  "atof s = (case read_float f64_round s of None \<Rightarrow> FFin False 0 | Some (x, r) \<Rightarrow> x)"

subsection \<open>Rounding\<close>

lemma f64_round_error:
  assumes "0 \<le> x" and "x < 2 ^ k" and "k < 1024"
  shows "\<exists>y. f64_round s x = FFin s y \<and> 0 \<le> y \<and> \<bar>y - x\<bar> \<le> pow2 (int k - 54)"
  using fp_round_error [of x "int k" "- 1022" 1024 52 s] assms by (auto simp: f64_round_def pow2_nat)

text \<open>A whole number of at most 53 bits is exact.\<close>

lemma fp_round_int:
  assumes "n < 2 ^ (p + 1)" and "emin \<le> 0" and "int p + 1 < emax"
  shows "fp_round p emin emax s (of_nat n) = FFin s (of_nat n)"
proof (cases "n = 0")
  case True
  then show ?thesis by (simp add: fp_round_def)
next
  case False
  let ?x = "of_nat n :: rat"
  have x: "0 < ?x" "1 \<le> ?x" using False by simp_all
  have "pow2 0 < pow2 (rat_exponent ?x + 1)" using rat_exponent_bounds(2) [OF x(1)] x(2) by (simp add: pow2_def)
  then have e0: "0 \<le> rat_exponent ?x" using pow2_mono [of "rat_exponent ?x + 1" 0] by (cases "0 \<le> rat_exponent ?x") auto
  have "?x < of_nat (2 ^ (p + 1))" using assms(1) unfolding of_nat_less_iff .
  then have "pow2 (rat_exponent ?x) < pow2 (int (p + 1))"
    unfolding pow2_nat using rat_exponent_bounds(1) [OF x(1)] by simp
  then have "rat_exponent ?x \<le> int p" using pow2_mono [of "int (p + 1)" "rat_exponent ?x"] by (cases "rat_exponent ?x \<le> int p") auto
  then obtain j where j: "int p = rat_exponent ?x + int j" using zle_iff_zadd by blast
  have m: "max (rat_exponent ?x) emin - int p = - int j" using e0 assms(2) j by simp
  have u: "pow2 (- int j) = 1 / 2 ^ j" using pow2_diff [of 0 j] by simp
  have s: "?x / pow2 (- int j) = of_int (int (n * 2 ^ j))" by (simp add: u)
  have r: "round_half_even (?x / pow2 (- int j)) = int (n * 2 ^ j)" unfolding s by (rule round_half_even_int)
  have "?x < pow2 emax"
  proof -
    have "?x < pow2 (int p + 1)" using \<open>?x < of_nat (2 ^ (p + 1))\<close> pow2_nat [of "p + 1"] by (simp add: add.commute)
    also have "\<dots> \<le> pow2 emax" using assms(3) by (intro pow2_mono) simp
    finally show ?thesis .
  qed
  moreover have y: "of_int (int (n * 2 ^ j)) * pow2 (- int j) = ?x" by (simp add: u)
  ultimately show ?thesis using x(1) unfolding fp_round_def m r Let_def y by simp
qed

lemma f32_of_small_nat: "n < 2 ^ 24 \<Longrightarrow> f32_of_int (int n) = FFin False (of_nat n)"
  using fp_round_int [of n 23 "- 126" 128 False] by (simp add: f32_of_int_def f32_of_rat_def f32_round_def)

end
