(* ===== verification/Gps_Config.thy ===== *)
theory Gps_Config
  imports C_Double Remote_Config
begin

text \<open>
  \<open>module/gps/gps_config.c\<close>: the configuration of the GPS module. Its text form is that of the other modules; thresholds are
  shown as whole numbers. A new start mode makes the module configure the receiver again. Nothing is written to flash.
\<close>

subsection \<open>The struct\<close>

datatype gps_time_source = GPS_TIME_SOURCE_AUTO | GPS_TIME_SOURCE_GPS | GPS_TIME_SOURCE_GSM

record gps_config =
  gc_ign_on_interval_sec :: int
  gc_ign_off_interval_sec :: int
  gc_angle_threshold_deg :: float32
  gc_distance_threshold_m :: float32
  gc_enable_angle_trigger :: bool
  gc_enable_distance_trigger :: bool
  gc_enable_agps :: bool
  gc_agps_ref :: bool
  gc_start_mode :: nat
  gc_send_last_valid_on_boot_no_fix :: bool
  gc_send_last_valid_on_ign_off_no_movement :: bool
  gc_send_last_valid_on_no_fix :: bool
  gc_time_source :: gps_time_source
  gc_speed_filter_kmh :: float32

abbreviation (input) SDK_GNSS_START_HOT :: nat where "SDK_GNSS_START_HOT \<equiv> 0"
abbreviation (input) SDK_GNSS_START_WARM :: nat where "SDK_GNSS_START_WARM \<equiv> 1"
abbreviation (input) SDK_GNSS_START_COLD :: nat where "SDK_GNSS_START_COLD \<equiv> 2"

definition GPS_KMH_TO_KNOTS :: float32 where "GPS_KMH_TO_KNOTS = f32_of_rat (1852 / 1000)"
definition GPS_DEFAULT_SPEED_FILTER_KMH :: float32 where "GPS_DEFAULT_SPEED_FILTER_KMH = decimal_float 1 50"
definition GPS_TIME_VALID_MIN_UTC_UNIX :: nat where "GPS_TIME_VALID_MIN_UTC_UNIX = 1577836800"

definition gps_config_get_defaults :: gps_config where
  "gps_config_get_defaults = \<lparr>gc_ign_on_interval_sec = 10, gc_ign_off_interval_sec = 30, gc_angle_threshold_deg = decimal_float 1 200,
     gc_distance_threshold_m = decimal_float 1 500, gc_enable_angle_trigger = True, gc_enable_distance_trigger = True,
     gc_enable_agps = True, gc_agps_ref = False, gc_start_mode = SDK_GNSS_START_HOT, gc_send_last_valid_on_boot_no_fix = True,
     gc_send_last_valid_on_ign_off_no_movement = False, gc_send_last_valid_on_no_fix = True, gc_time_source = GPS_TIME_SOURCE_AUTO,
     gc_speed_filter_kmh = GPS_DEFAULT_SPEED_FILTER_KMH\<rparr>"

text \<open>An enum of C can hold any number; here it is one of its names.\<close>

definition gps_config_validate :: "gps_config option \<Rightarrow> sdk_result" where
  "gps_config_validate config =
     (case config of
        None \<Rightarrow> SDK_INVALID_PARAM
      | Some c \<Rightarrow>
          if gc_ign_on_interval_sec c \<le> 0 \<or> gc_ign_off_interval_sec c \<le> 0 then SDK_INVALID_PARAM
          else if f32_lt (gc_angle_threshold_deg c) FZERO \<or> f32_lt (f32_of_int 180) (gc_angle_threshold_deg c) then SDK_INVALID_PARAM
          else if f32_lt (gc_distance_threshold_m c) FZERO then SDK_INVALID_PARAM
          else if gc_start_mode c \<noteq> SDK_GNSS_START_HOT \<and> gc_start_mode c \<noteq> SDK_GNSS_START_WARM \<and> gc_start_mode c \<noteq> SDK_GNSS_START_COLD
            then SDK_INVALID_PARAM
          else if f32_lt (gc_speed_filter_kmh c) FZERO then SDK_INVALID_PARAM
          else SDK_SUCCESS)"

subsection \<open>Setting\<close>

definition s_gps_cfg_keys :: config_keys where
  "s_gps_cfg_keys = [(Some ''i-on'', 0), (Some ''i-off'', 1), (Some ''ang'', 2), (Some ''dist'', 3), (Some ''ang-tr'', 4), (Some ''dist-tr'', 5),
     (Some ''agps'', 6), (Some ''start'', 7), (Some ''lv-boot'', 8), (Some ''lv-ign-off'', 9), (Some ''lv-no-fix'', 10), (Some ''time-src'', 11),
     (Some ''agps-ref'', 12), (Some ''agps_ref'', 12), (Some ''spd-filt'', 13), (Some ''speed-filter'', 13), (Some ''sf'', 13)]"

definition gps_config_parse_time_source :: "string \<Rightarrow> gps_time_source option" where
  "gps_config_parse_time_source v =
     (if strcasecmp_eq v ''AUTO'' \<or> v = ''0'' then Some GPS_TIME_SOURCE_AUTO
      else if strcasecmp_eq v ''GPS'' \<or> v = ''1'' then Some GPS_TIME_SOURCE_GPS
      else if strcasecmp_eq v ''GSM'' \<or> v = ''2'' then Some GPS_TIME_SOURCE_GSM else None)"

definition gps_config_start_mode_to_index :: "nat \<Rightarrow> nat" where
  "gps_config_start_mode_to_index mode = (if mode = SDK_GNSS_START_WARM then 1 else if mode = SDK_GNSS_START_COLD then 2 else 0)"

definition parse_start_mode :: "string \<Rightarrow> nat option" where
  "parse_start_mode v =
     (if strcasecmp_eq v ''HOT'' then Some SDK_GNSS_START_HOT
      else if strcasecmp_eq v ''WARM'' then Some SDK_GNSS_START_WARM
      else if strcasecmp_eq v ''COLD'' then Some SDK_GNSS_START_COLD
      else if atoi v = 0 then Some SDK_GNSS_START_HOT
      else if atoi v = 1 then Some SDK_GNSS_START_WARM
      else if atoi v = 2 then Some SDK_GNSS_START_COLD else None)"

definition set_gps_switch :: "int \<Rightarrow> bool \<Rightarrow> gps_config \<Rightarrow> gps_config" where
  "set_gps_switch i b c =
     (if i = 4 then c\<lparr>gc_enable_angle_trigger := b\<rparr> else if i = 5 then c\<lparr>gc_enable_distance_trigger := b\<rparr>
      else if i = 6 then c\<lparr>gc_enable_agps := b\<rparr> else if i = 8 then c\<lparr>gc_send_last_valid_on_boot_no_fix := b\<rparr>
      else if i = 9 then c\<lparr>gc_send_last_valid_on_ign_off_no_movement := b\<rparr>
      else if i = 10 then c\<lparr>gc_send_last_valid_on_no_fix := b\<rparr> else c\<lparr>gc_agps_ref := b\<rparr>)"

text \<open>The cases of the switch; an index beyond them changes nothing.\<close>

definition gps_setter :: "int \<Rightarrow> string \<Rightarrow> gps_config \<Rightarrow> gps_config option" where
  "gps_setter i v c =
     (if i = 0 then (if atoi v \<le> 0 then None else Some (c\<lparr>gc_ign_on_interval_sec := atoi v\<rparr>))
      else if i = 1 then (if atoi v \<le> 0 then None else Some (c\<lparr>gc_ign_off_interval_sec := atoi v\<rparr>))
      else if i = 2 then
        (let x = f32_of_double (atof v)
         in if f32_lt x FZERO \<or> f32_lt (f32_of_int 180) x then None else Some (c\<lparr>gc_angle_threshold_deg := x\<rparr>))
      else if i = 3 then
        (let x = f32_of_double (atof v) in if f32_lt x FZERO then None else Some (c\<lparr>gc_distance_threshold_m := x\<rparr>))
      else if i = 7 then map_option (\<lambda>m. c\<lparr>gc_start_mode := m\<rparr>) (parse_start_mode v)
      else if i \<in> {4, 5, 6, 8, 9, 10, 12} then map_option (\<lambda>b. set_gps_switch i b c) (parse_flag v)
      else if i = 11 then map_option (\<lambda>s. c\<lparr>gc_time_source := s\<rparr>) (gps_config_parse_time_source v)
      else if i = 13 then
        (case whole_float v of None \<Rightarrow> None | Some x \<Rightarrow> if f32_lt x FZERO then None else Some (c\<lparr>gc_speed_filter_kmh := x\<rparr>))
      else Some c)"

text \<open>With the configuration goes the flag of the runtime that the start mode has been given to the receiver.\<close>

definition gps_config_set :: "bool \<Rightarrow> string option \<Rightarrow> gps_config \<times> bool \<Rightarrow> sdk_result \<times> gps_config \<times> bool" where
  "gps_config_set alloc_ok config_string st =
     (case config_string of
        None \<Rightarrow> (SDK_INVALID_PARAM, st)
      | Some s \<Rightarrow>
          (case utils_strdup_for_tokenization alloc_ok (Some s) of
             None \<Rightarrow> (SDK_INVALID_PARAM, st)
           | Some str_copy \<Rightarrow>
               (case keyed_loop gps_setter s_gps_cfg_keys (tok_loop '','' (Some str_copy)) False (fst st) of
                  None \<Rightarrow> (SDK_INVALID_PARAM, st)
                | Some (any_provided, c) \<Rightarrow>
                    if \<not> any_provided then (SDK_INVALID_PARAM, st)
                    else (SDK_SUCCESS, c, if gc_start_mode c \<noteq> gc_start_mode (fst st) then False else snd st))))"

subsection \<open>Showing\<close>

definition time_source_code :: "gps_time_source \<Rightarrow> nat" where
  "time_source_code s = (case s of GPS_TIME_SOURCE_AUTO \<Rightarrow> 0 | GPS_TIME_SOURCE_GPS \<Rightarrow> 1 | GPS_TIME_SOURCE_GSM \<Rightarrow> 2)"

definition digit_of_bool :: "bool \<Rightarrow> string" where
  "digit_of_bool b = (if b then ''1'' else ''0'')"

definition gps_fields :: "gps_config \<Rightarrow> (string \<times> string) list" where
  "gps_fields c = [(''i-on'', int_text (gc_ign_on_interval_sec c)), (''i-off'', int_text (gc_ign_off_interval_sec c)),
     (''ang'', int_text (c_trunc (gc_angle_threshold_deg c))), (''dist'', int_text (c_trunc (gc_distance_threshold_m c))),
     (''ang-tr'', digit_of_bool (gc_enable_angle_trigger c)), (''dist-tr'', digit_of_bool (gc_enable_distance_trigger c)),
     (''agps'', digit_of_bool (gc_enable_agps c)), (''start'', dec (gps_config_start_mode_to_index (gc_start_mode c))),
     (''lv-boot'', digit_of_bool (gc_send_last_valid_on_boot_no_fix c)),
     (''lv-ign-off'', digit_of_bool (gc_send_last_valid_on_ign_off_no_movement c)),
     (''lv-no-fix'', digit_of_bool (gc_send_last_valid_on_no_fix c)), (''time-src'', dec (time_source_code (gc_time_source c))),
     (''agps-ref'', digit_of_bool (gc_agps_ref c)), (''spd-filt'', int_text (c_trunc (gc_speed_filter_kmh c)))]"

definition gps_config_get_string :: "bool \<Rightarrow> nat \<Rightarrow> gps_config \<Rightarrow> sdk_result \<times> string" where
  "gps_config_get_string buffer_ok buffer_size c =
     (if \<not> buffer_ok \<or> buffer_size = 0 then (SDK_INVALID_PARAM, [])
      else let (r, s) = config_text buffer_size (gps_fields c) in (if r = RESULT_SUCCESS then SDK_SUCCESS else SDK_ERROR, s))"

subsection \<open>The text reads back, without the fractions\<close>

text \<open>What the text leaves of a threshold.\<close>

definition whole_part :: "float32 \<Rightarrow> float32" where
  "whole_part x = f32_of_double (f64_round False (of_int (c_trunc x)))"

definition gps_shown :: "gps_config \<Rightarrow> gps_config" where
  "gps_shown c = c\<lparr>gc_angle_threshold_deg := whole_part (gc_angle_threshold_deg c),
     gc_distance_threshold_m := whole_part (gc_distance_threshold_m c),
     gc_speed_filter_kmh := f32_round False (of_int (c_trunc (gc_speed_filter_kmh c)))\<rparr>"

definition gps_config_ok :: "gps_config \<Rightarrow> bool" where
  "gps_config_ok c \<longleftrightarrow> gps_config_validate (Some c) = SDK_SUCCESS \<and> gc_ign_on_interval_sec c \<le> 2147483647 \<and> gc_ign_off_interval_sec c \<le> 2147483647"

lemma gps_config_ok_iff:
  "gps_config_ok c \<longleftrightarrow> 0 < gc_ign_on_interval_sec c \<and> 0 < gc_ign_off_interval_sec c \<and>
     gc_ign_on_interval_sec c \<le> 2147483647 \<and> gc_ign_off_interval_sec c \<le> 2147483647 \<and>
     \<not> f32_lt (gc_angle_threshold_deg c) FZERO \<and> \<not> f32_lt (f32_of_int 180) (gc_angle_threshold_deg c) \<and>
     \<not> f32_lt (gc_distance_threshold_m c) FZERO \<and> gc_start_mode c \<in> {0, 1, 2} \<and> \<not> f32_lt (gc_speed_filter_kmh c) FZERO"
  by (auto simp: gps_config_ok_def gps_config_validate_def)

lemma atoi_int: "atoi v \<le> 2147483647"
  by (simp add: atoi_def Let_def split_beta)

lemma switch_ok: "gps_config_ok (set_gps_switch i b c) = gps_config_ok c"
  by (simp add: set_gps_switch_def gps_config_ok_iff)

lemma gps_setter_ok:
  assumes "gps_config_ok c" and "gps_setter i v c = Some c'"
  shows "gps_config_ok c'"
proof -
  consider "i = 0" | "i = 1" | "i = 2" | "i = 3" | "i = 7" | "i \<in> {4, 5, 6, 8, 9, 10, 12}" | "i = 11" | "i = 13"
    | "i \<notin> {0, 1, 2, 3, 4, 5, 6, 7, 8, 9, 10, 11, 12, 13}" by auto
  then show ?thesis
  proof cases
    case 6
    then show ?thesis using assms by (auto simp: gps_setter_def switch_ok)
  next
    case 1
    then have "0 < atoi v \<and> c' = c\<lparr>gc_ign_on_interval_sec := atoi v\<rparr>" using assms(2) by (simp add: gps_setter_def not_le split: if_splits)
    then show ?thesis using assms(1) by (simp add: gps_config_ok_iff atoi_int)
  next
    case 2
    then have "0 < atoi v \<and> c' = c\<lparr>gc_ign_off_interval_sec := atoi v\<rparr>" using assms(2) by (simp add: gps_setter_def not_le split: if_splits)
    then show ?thesis using assms(1) by (simp add: gps_config_ok_iff atoi_int)
  next
    case 3
    then obtain x where "\<not> f32_lt x FZERO" "\<not> f32_lt (f32_of_int 180) x" "c' = c\<lparr>gc_angle_threshold_deg := x\<rparr>"
      using assms(2) by (auto simp: gps_setter_def Let_def split: if_splits)
    then show ?thesis using assms(1) by (simp add: gps_config_ok_iff)
  next
    case 4
    then obtain x where "\<not> f32_lt x FZERO" "c' = c\<lparr>gc_distance_threshold_m := x\<rparr>"
      using assms(2) by (auto simp: gps_setter_def Let_def split: if_splits)
    then show ?thesis using assms(1) by (simp add: gps_config_ok_iff)
  next
    case 5
    then obtain m where "parse_start_mode v = Some m" "c' = c\<lparr>gc_start_mode := m\<rparr>" using assms(2) by (auto simp: gps_setter_def)
    then show ?thesis using assms(1) by (auto simp: gps_config_ok_iff parse_start_mode_def split: if_splits)
  next
    case 7
    then obtain t where "c' = c\<lparr>gc_time_source := t\<rparr>" using assms(2) by (auto simp: gps_setter_def)
    then show ?thesis using assms(1) by (simp add: gps_config_ok_iff)
  next
    case 8
    then obtain x where "\<not> f32_lt x FZERO" "c' = c\<lparr>gc_speed_filter_kmh := x\<rparr>"
      using assms(2) by (simp add: gps_setter_def split: if_splits option.splits)
    then show ?thesis using assms(1) by (simp add: gps_config_ok_iff)
  next
    case 9
    then show ?thesis using assms by (simp add: gps_setter_def)
  qed
qed

lemma trunc_nonneg: "\<not> f32_lt x FZERO \<Longrightarrow> 0 \<le> c_trunc x"
  by (cases x rule: c_trunc.cases) (auto simp: signed_def split: if_splits)

lemma trunc_le: "\<not> f32_lt (f32_of_int 180) x \<Longrightarrow> c_trunc x \<le> 180"
proof -
  have e: "f32_of_int 180 = FFin False 180" using f32_of_small_nat [of 180] by simp
  assume "\<not> f32_lt (f32_of_int 180) x"
  then show ?thesis unfolding e by (cases x rule: c_trunc.cases) (auto simp: signed_def floor_le_iff minus_le_iff [of "\<lfloor>x\<rfloor>" 180 for x] le_floor_iff split: if_splits)
qed

lemma round_not_negative: "0 \<le> x \<Longrightarrow> \<not> f32_lt (fp_round p emin emax False x) FZERO"
proof -
  assume "0 \<le> x"
  then have "0 \<le> round_half_even (x / pow2 (max (rat_exponent x) emin - int p))"
    by (intro round_half_even_nonneg) (simp add: less_imp_le)
  then show ?thesis by (simp add: fp_round_def Let_def signed_def not_less less_imp_le)
qed

lemma f32_of_double_not_negative: "\<not> f32_lt (f64_round False (of_nat n)) FZERO \<Longrightarrow> \<not> f32_lt (f32_of_double (f64_round False (of_nat n))) FZERO"
proof -
  assume a: "\<not> f32_lt (f64_round False (of_nat n)) FZERO"
  have "f64_round False (of_nat n) = FInf False \<or> (\<exists>y. f64_round False (of_nat n) = FFin False y)"
    by (auto simp: f64_round_def fp_round_def Let_def)
  then show ?thesis using a round_not_negative by (auto simp: f32_round_def signed_def not_less)
qed

lemma atof_dec: "atof (dec n) = f64_round False (of_nat n)"
  using read_float_decimal [of f64_round 0 n] by (simp add: atof_def decimal_def)

lemma whole_float_dec: "whole_float (dec n) = Some (f32_round False (of_nat n))"
  using whole_float_decimal [of 0 n] by (simp add: decimal_def decimal_float_def)

lemma small_exact: "n \<le> 180 \<Longrightarrow> f32_of_double (f64_round False (of_nat n)) = FFin False (of_nat n)"
  using fp_round_int [of n 52 "- 1022" 1024 False] fp_round_int [of n 23 "- 126" 128 False] by (simp add: f64_round_def f32_round_def)

lemma gps_keys:
  "key_index_loop ''i-on'' s_gps_cfg_keys = 0" "key_index_loop ''i-off'' s_gps_cfg_keys = 1" "key_index_loop ''ang'' s_gps_cfg_keys = 2"
  "key_index_loop ''dist'' s_gps_cfg_keys = 3" "key_index_loop ''ang-tr'' s_gps_cfg_keys = 4" "key_index_loop ''dist-tr'' s_gps_cfg_keys = 5"
  "key_index_loop ''agps'' s_gps_cfg_keys = 6" "key_index_loop ''start'' s_gps_cfg_keys = 7" "key_index_loop ''lv-boot'' s_gps_cfg_keys = 8"
  "key_index_loop ''lv-ign-off'' s_gps_cfg_keys = 9" "key_index_loop ''lv-no-fix'' s_gps_cfg_keys = 10"
  "key_index_loop ''time-src'' s_gps_cfg_keys = 11" "key_index_loop ''agps-ref'' s_gps_cfg_keys = 12" "key_index_loop ''spd-filt'' s_gps_cfg_keys = 13"
  by (simp_all add: s_gps_cfg_keys_def strcasecmp_eq_def c_tolower_def char_code_def)

lemma parse_flag_digit [simp]: "parse_flag (digit_of_bool b) = Some b"
  by (cases b) (simp_all add: parse_flag_def digit_of_bool_def strcasecmp_eq_def c_tolower_def char_code_def)

lemma dec_no_word: "a \<noteq> [] \<Longrightarrow> \<not> is_digit (c_tolower (hd a)) \<Longrightarrow> \<not> strcasecmp_eq (dec n) a"
proof -
  assume a: "a \<noteq> []" "\<not> is_digit (c_tolower (hd a))"
  obtain c s where c: "dec n = c # s" by (cases "dec n") auto
  then have "is_digit c" using list_all_digit_dec [of n] by simp
  then have "c_tolower c = c" by (auto simp: c_tolower_def is_digit_def char_code_def)
  then show ?thesis using a c \<open>is_digit c\<close> by (cases a) (auto simp: strcasecmp_eq_def)
qed

lemma words_no_digit:
  "\<not> strcasecmp_eq (dec n) ''HOT''" "\<not> strcasecmp_eq (dec n) ''WARM''" "\<not> strcasecmp_eq (dec n) ''COLD''"
  "\<not> strcasecmp_eq (dec n) ''AUTO''" "\<not> strcasecmp_eq (dec n) ''GPS''" "\<not> strcasecmp_eq (dec n) ''GSM''"
  by (simp_all add: dec_no_word is_digit_def c_tolower_def char_code_def)

lemma parse_mode: "m \<le> 2 \<Longrightarrow> parse_start_mode (dec (gps_config_start_mode_to_index m)) = Some m"
  by (auto simp: parse_start_mode_def words_no_digit atoi_dec gps_config_start_mode_to_index_def)

lemma dec_small: "dec 0 = ''0''" "dec (Suc 0) = ''1''" "dec 2 = ''2''"
  by code_simp+

lemma parse_source: "gps_config_parse_time_source (dec (time_source_code s)) = Some s"
  by (cases s) (simp_all add: gps_config_parse_time_source_def time_source_code_def dec_small strcasecmp_eq_def c_tolower_def char_code_def)

lemma int_text_dec: "0 \<le> i \<Longrightarrow> int_text i = dec (nat i)"
  by (simp add: int_text_def)

interpretation gps_text: keyed_config gps_setter s_gps_cfg_keys gps_config_ok gps_fields "\<lambda>c c0. gps_shown c"
proof
  fix c c' :: gps_config and i v
  show "gps_config_ok c \<Longrightarrow> 0 \<le> i \<Longrightarrow> gps_setter i v c = Some c' \<Longrightarrow> gps_config_ok c'"
    by (rule gps_setter_ok)
next
  fix c :: gps_config and k v
  show "(k, v) \<in> set (gps_fields c) \<Longrightarrow> plain_key k \<and> 0 \<le> key_index_loop k s_gps_cfg_keys"
    by (auto simp: gps_fields_def plain_key_def is_blank_def gps_keys)
next
  fix c :: gps_config
  show "gps_fields c \<noteq> []" by (simp add: gps_fields_def)
next
  fix c c0 :: gps_config
  assume ok: "gps_config_ok c"
  have v: "0 < gc_ign_on_interval_sec c" "0 < gc_ign_off_interval_sec c" "gc_start_mode c \<le> 2"
    "\<not> f32_lt (gc_angle_threshold_deg c) FZERO" "\<not> f32_lt (f32_of_int 180) (gc_angle_threshold_deg c)"
    "\<not> f32_lt (gc_distance_threshold_m c) FZERO" "\<not> f32_lt (gc_speed_filter_kmh c) FZERO"
    and a: "gc_ign_on_interval_sec c \<le> 2147483647" "gc_ign_off_interval_sec c \<le> 2147483647"
    using ok unfolding gps_config_ok_iff by auto
  have t: "atoi (int_text (gc_ign_on_interval_sec c)) = gc_ign_on_interval_sec c" "atoi (int_text (gc_ign_off_interval_sec c)) = gc_ign_off_interval_sec c"
    using v a by (simp_all add: int_text_dec atoi_dec)
  obtain n where n: "c_trunc (gc_angle_threshold_deg c) = int n" "n \<le> 180"
    using trunc_nonneg [OF v(4)] trunc_le [OF v(5)] by (metis nonneg_int_cases of_nat_le_numeral_iff)
  obtain d where d: "c_trunc (gc_distance_threshold_m c) = int d" using trunc_nonneg [OF v(6)] by (metis nonneg_int_cases)
  obtain s where s: "c_trunc (gc_speed_filter_kmh c) = int s" using trunc_nonneg [OF v(7)] by (metis nonneg_int_cases)
  have w: "whole_part (gc_angle_threshold_deg c) = FFin False (of_nat n)" "whole_part (gc_distance_threshold_m c) = f32_of_double (f64_round False (of_nat d))"
    using n small_exact [OF n(2)] by (simp_all add: whole_part_def d)
  have ang: "\<not> f32_lt (FFin False (of_nat n)) FZERO" "\<not> f32_lt (f32_of_int 180) (FFin False (of_nat n))"
    using n(2) f32_of_small_nat [of 180] of_nat_le_iff [of n 180] by (simp_all add: signed_def not_less del: of_nat_le_iff)
  have dist: "\<not> f32_lt (f32_of_double (f64_round False (of_nat d))) FZERO"
    by (intro f32_of_double_not_negative) (simp add: f64_round_def round_not_negative)
  have spd: "\<not> f32_lt (f32_round False (of_nat s)) FZERO" by (simp add: f32_round_def round_not_negative)
  show "set_fields gps_setter s_gps_cfg_keys (gps_fields c) c0 = Some (gps_shown c)"
    unfolding gps_fields_def n(1) d s int_text_dec [OF of_nat_0_le_iff] nat_int
    using v(1,2) small_exact [OF n(2)]
    by (simp add: gps_keys gps_setter_def t atof_dec whole_float_dec ang dist spd parse_mode v(3) parse_source set_gps_switch_def gps_shown_def w s
        del: f32_lt.simps of_nat_0_less_iff)
qed

lemma gps_fields_plain:
  assumes "gps_config_ok c"
  shows "\<forall>(k, v) \<in> set (gps_fields c). plain_value v"
proof -
  have d: "plain_value (dec n)" for n by (simp add: plain_value_digits list_all_digit_dec)
  have b: "plain_value (digit_of_bool b)" for b by (simp add: digit_of_bool_def plain_value_def is_blank_def)
  have i: "plain_value (int_text i)" if "0 \<le> i" for i using that d by (simp add: int_text_dec)
  have "0 \<le> gc_ign_on_interval_sec c" "0 \<le> gc_ign_off_interval_sec c" "0 \<le> c_trunc (gc_angle_threshold_deg c)"
    "0 \<le> c_trunc (gc_distance_threshold_m c)" "0 \<le> c_trunc (gc_speed_filter_kmh c)"
    using assms trunc_nonneg by (auto simp: gps_config_ok_iff)
  then show ?thesis by (simp add: gps_fields_def b d i)
qed

text \<open>The text of a valid configuration sets the configuration without its fractions, on any gateway; a fraction of a
  threshold is lost. With the start mode the receiver is configured anew exactly when it changes.\<close>

theorem gps_config_text_reads_back:
  assumes "gps_config_ok c" and "gps_config_get_string True n c = (SDK_SUCCESS, s)" and "n \<le> 2048"
  shows "gps_config_set True (Some s) (c0, flag) =
    (SDK_SUCCESS, gps_shown c, flag \<and> gc_start_mode c = gc_start_mode c0)"
proof -
  have t: "config_text n (gps_fields c) = (RESULT_SUCCESS, s)"
    using assms(2) by (auto simp: gps_config_get_string_def split: prod.splits if_splits)
  then have s: "s = fields_text (gps_fields c)" by (rule config_text_success)
  have "length s < n" using t by (auto simp: config_text_def snprintf_def split: if_splits)
  then have "length s < 2048" using assms(3) by simp
  then have "utils_strdup_for_tokenization True (Some s) = Some s" by (rule strdup_short)
  moreover have "keyed_loop gps_setter s_gps_cfg_keys (tok_loop '','' (Some s)) False c0 = Some (True, gps_shown c)"
    unfolding s by (rule gps_text.text_reads_back [OF assms(1) gps_fields_plain [OF assms(1)]])
  ultimately show ?thesis by (auto simp: gps_config_set_def gps_shown_def)
qed

lemma gps_defaults_ok: "gps_config_ok gps_config_get_defaults"
  by (simp add: gps_config_ok_def gps_config_get_defaults_def) code_simp

theorem gps_config_text_reads_back_witness:
  "\<exists>s. gps_config_get_string True 256 gps_config_get_defaults = (SDK_SUCCESS, s) \<and>
     gps_config_set True (Some s) (gps_config_get_defaults\<lparr>gc_start_mode := 2\<rparr>, True) = (SDK_SUCCESS, gps_shown gps_config_get_defaults, False)"
proof -
  have "fst (gps_config_get_string True 256 gps_config_get_defaults) = SDK_SUCCESS" by code_simp
  then obtain s where s: "gps_config_get_string True 256 gps_config_get_defaults = (SDK_SUCCESS, s)" by (metis prod.collapse)
  then show ?thesis using gps_config_text_reads_back [OF gps_defaults_ok s] by (simp add: gps_config_get_defaults_def)
qed

text \<open>A refused text changes nothing, an accepted one leaves a valid configuration.\<close>

theorem gps_config_set_outcome:
  assumes "gps_config_ok c" and "gps_config_set alloc_ok s (c, flag) = (r, c', flag')"
  shows "gps_config_ok c' \<and> (r \<noteq> SDK_SUCCESS \<longrightarrow> c' = c \<and> flag' = flag)"
  using assms gps_text.loop_valid [OF assms(1)]
  by (auto simp: gps_config_set_def split: option.splits prod.splits if_splits)

theorem gps_config_set_outcome_witness:
  "\<exists>r c'. gps_config_set True (Some ''start:fast'') (gps_config_get_defaults, True) = (r, c', True) \<and> gps_config_ok c'"
proof -
  have "snd (snd (gps_config_set True (Some ''start:fast'') (gps_config_get_defaults, True)))" by code_simp
  then obtain r c' where g: "gps_config_set True (Some ''start:fast'') (gps_config_get_defaults, True) = (r, c', True)"
    by (cases "gps_config_set True (Some ''start:fast'') (gps_config_get_defaults, True)") auto
  then show ?thesis using gps_config_set_outcome [OF gps_defaults_ok g] by auto
qed

end
