(* ===== verification/Vehicle_State.thy ===== *)
theory Vehicle_State
  imports System_Config Gps_Config Event_Manager
begin

text \<open>
  \<open>system/vehicle_state.c\<close>: is the ignition on, is the vehicle moving. The poll works on the power information of the
  system manager (\<open>power_info\<close>) and its own statics (\<open>vehicle\<close>). What it reads elsewhere comes in as \<open>gps_view\<close>: the
  current fix, the clock, and the two functions of the GPS module and of the mathematics library that are not modelled. The
  events it broadcasts and the latches it sets in the GPS manager come out as a list, in order.
\<close>

subsection \<open>State\<close>

record power_info =
  pi_external_voltage :: float32
  pi_input_wire_voltage :: float32
  pi_battery_percentage :: nat
  pi_charge_connected :: bool
  pi_ignition_on :: bool
  pi_motion_on :: bool
  pi_adc_poll_count :: nat
  pi_post_boot_ignition_ready :: bool
  pi_last_update_timestamp :: nat

definition power_info_zero :: power_info where
  "power_info_zero = \<lparr>pi_external_voltage = FZERO, pi_input_wire_voltage = FZERO, pi_battery_percentage = 0, pi_charge_connected = False,
     pi_ignition_on = False, pi_motion_on = False, pi_adc_poll_count = 0, pi_post_boot_ignition_ready = False, pi_last_update_timestamp = 0\<rparr>"

record vehicle =
  vs_ign_debounce_count :: nat
  vs_motion_raw_on :: bool
  vs_motion_stop_since_uptime :: nat
  vs_anchor_lat :: float32
  vs_anchor_lon :: float32
  vs_anchor_valid :: bool
  vs_prev_ign :: bool
  vs_prev_mot :: bool
  vs_prev_raw_ign :: bool
  vs_prev_raw_mot :: bool

record gps_view =
  gv_fix_valid_calculated :: bool
  gv_latitude_deg :: float64
  gv_longitude_deg :: float64
  gv_speed_knots :: float32
  gv_speed_from_last_sent :: float32
  gv_distance :: "float64 \<Rightarrow> float64 \<Rightarrow> float64 \<Rightarrow> float64 \<Rightarrow> float32"
  gv_uptime_seconds :: nat
  gv_ticks :: nat

datatype vehicle_output = VO_broadcast nat | VO_gps_ignition bool | VO_gps_motion bool

definition EVENT_IGN_ON :: nat where "EVENT_IGN_ON = 16"
definition EVENT_IGN_OFF :: nat where "EVENT_IGN_OFF = 17"
definition EVENT_MOTION_ON :: nat where "EVENT_MOTION_ON = 18"
definition EVENT_MOTION_OFF :: nat where "EVENT_MOTION_OFF = 19"

subsection \<open>Ignition\<close>

definition soft_ign_base_voltage :: "power_info \<Rightarrow> float32" where
  "soft_ign_base_voltage p =
     (let divisor = (if f32_lt (decimal_float 1 400) (pi_external_voltage p) then decimal_float 1 42
                     else if f32_lt (decimal_float 1 200) (pi_external_voltage p) then decimal_float 1 21 else decimal_float 1 10)
      in f32_div (pi_external_voltage p) divisor)"

definition eval_ignition_wire :: "system_config \<Rightarrow> power_info \<Rightarrow> bool" where
  "eval_ignition_wire cfg p =
     (if f32_le (sc_wire_on_v cfg) (pi_input_wire_voltage p) then True
      else if f32_le (pi_input_wire_voltage p) (sc_wire_off_v cfg) then False
      else pi_ignition_on p)"

definition eval_ignition_soft :: "system_config \<Rightarrow> power_info \<Rightarrow> bool" where
  "eval_ignition_soft cfg p =
     (let ign_base = soft_ign_base_voltage p in f32_lt (sc_soft_lo_v cfg) ign_base \<and> f32_le ign_base (sc_soft_hi_v cfg))"

definition eval_ignition :: "system_config \<Rightarrow> power_info \<Rightarrow> bool" where
  "eval_ignition cfg p = (if sc_ign_source cfg = SYSTEM_IGN_SOURCE_WIRE then eval_ignition_wire cfg p else eval_ignition_soft cfg p)"

subsection \<open>Motion\<close>

definition eval_soft_gnss_speed :: "gps_view \<Rightarrow> system_config \<Rightarrow> bool" where
  "eval_soft_gnss_speed g cfg =
     (if \<not> gv_fix_valid_calculated g then False
      else f32_le (sc_mot_spd_kmh cfg)
             (if sc_mot_spd_calc cfg then gv_speed_from_last_sent g else f32_mul (gv_speed_knots g) GPS_KMH_TO_KNOTS))"

definition eval_soft_gps_dist :: "gps_view \<Rightarrow> vehicle \<Rightarrow> system_config \<Rightarrow> bool" where
  "eval_soft_gps_dist g v cfg =
     (if \<not> gv_fix_valid_calculated g \<or> \<not> vs_anchor_valid v then False
      else f32_le (sc_mot_dist_m cfg)
             (gv_distance g (vs_anchor_lat v) (vs_anchor_lon v) (gv_latitude_deg g) (gv_longitude_deg g)))"

definition eval_soft_accel :: bool where "eval_soft_accel = False"

definition eval_soft_motion_raw :: "gps_view \<Rightarrow> vehicle \<Rightarrow> system_config \<Rightarrow> bool" where
  "eval_soft_motion_raw g v cfg =
     (case sc_soft_motion_method cfg of
        SYSTEM_SOFT_MOT_GNSS_SPEED \<Rightarrow> eval_soft_gnss_speed g cfg
      | SYSTEM_SOFT_MOT_GPS_DIST \<Rightarrow> eval_soft_gps_dist g v cfg
      | SYSTEM_SOFT_MOT_ACCEL \<Rightarrow> eval_soft_accel
      | SYSTEM_SOFT_MOT_TRIP \<Rightarrow> eval_soft_accel \<and> eval_soft_gps_dist g v cfg
      | SYSTEM_SOFT_MOT_ANY \<Rightarrow>
          (sc_mot_spd_en cfg \<and> eval_soft_gnss_speed g cfg) \<or> (sc_mot_dist_en cfg \<and> eval_soft_gps_dist g v cfg) \<or>
          (sc_accel_en cfg \<and> eval_soft_accel))"

definition eval_motion_raw :: "gps_view \<Rightarrow> vehicle \<Rightarrow> system_config \<Rightarrow> bool \<Rightarrow> bool" where
  "eval_motion_raw g v cfg ignition_on =
     (if sc_motion_source cfg = SYSTEM_MOT_SOURCE_IGN then ignition_on else eval_soft_motion_raw g v cfg)"

definition motion_needs_accel_poll :: "system_config \<Rightarrow> bool" where
  "motion_needs_accel_poll cfg =
     (if sc_motion_source cfg \<noteq> SYSTEM_MOT_SOURCE_SOFT then False
      else if sc_soft_motion_method cfg = SYSTEM_SOFT_MOT_ACCEL \<or> sc_soft_motion_method cfg = SYSTEM_SOFT_MOT_TRIP then True
      else sc_soft_motion_method cfg = SYSTEM_SOFT_MOT_ANY \<and> sc_accel_en cfg)"

text \<open>Zero seconds is the mark for "not stopped".\<close>

definition apply_motion_stop_debounce :: "gps_view \<Rightarrow> system_config \<Rightarrow> bool \<Rightarrow> vehicle \<Rightarrow> bool \<times> vehicle" where
  "apply_motion_stop_debounce g cfg raw_on v =
     (let now = gv_uptime_seconds g in
      if raw_on then (True, v\<lparr>vs_motion_stop_since_uptime := 0\<rparr>)
      else
        let v = (if vs_motion_stop_since_uptime v = 0 then v\<lparr>vs_motion_stop_since_uptime := now\<rparr> else v) in
        if vs_motion_stop_since_uptime v \<le> now \<and> now - vs_motion_stop_since_uptime v < sc_mot_stop_debounce_sec cfg
        then (vs_motion_raw_on v, v) else (False, v))"

definition sync_motion_anchor :: "gps_view \<Rightarrow> bool \<Rightarrow> vehicle \<Rightarrow> vehicle" where
  "sync_motion_anchor g motion_on v =
     (if motion_on then v\<lparr>vs_anchor_valid := False\<rparr>
      else if \<not> vs_anchor_valid v \<and> gv_fix_valid_calculated g then
        v\<lparr>vs_anchor_lat := f32_of_double (gv_latitude_deg g), vs_anchor_lon := f32_of_double (gv_longitude_deg g), vs_anchor_valid := True\<rparr>
      else v)"

subsection \<open>The poll\<close>

definition poll_ignition :: "system_config \<Rightarrow> bool \<Rightarrow> power_info \<times> vehicle \<Rightarrow> power_info \<times> vehicle" where
  "poll_ignition cfg adc_poll_done s =
     (if \<not> adc_poll_done then s
      else
        let (p, v) = s; raw_ign = eval_ignition cfg p;
            v = (if raw_ign then
                   (if vs_ign_debounce_count v < sc_debounce_polls cfg then v\<lparr>vs_ign_debounce_count := vs_ign_debounce_count v + 1\<rparr> else v)
                 else v\<lparr>vs_ign_debounce_count := 0\<rparr>);
            p = p\<lparr>pi_ignition_on := raw_ign \<and> vs_ign_debounce_count v \<ge> sc_debounce_polls cfg\<rparr>;
            p = (if pi_adc_poll_count p < 255 then p\<lparr>pi_adc_poll_count := pi_adc_poll_count p + 1\<rparr> else p);
            p = p\<lparr>pi_post_boot_ignition_ready := pi_adc_poll_count p > sc_debounce_polls cfg\<rparr>
        in (p, if raw_ign \<noteq> vs_prev_raw_ign v \<or> pi_ignition_on p \<noteq> vs_prev_ign v then v\<lparr>vs_prev_raw_ign := raw_ign\<rparr> else v))"

definition poll_motion :: "gps_view \<Rightarrow> system_config \<Rightarrow> bool \<Rightarrow> power_info \<times> vehicle \<Rightarrow> power_info \<times> vehicle" where
  "poll_motion g cfg adc_poll_done s =
     (let (p, v) = s; raw_mot = eval_motion_raw g v cfg (pi_ignition_on p);
          (on, v) = apply_motion_stop_debounce g cfg raw_mot v;
          v = sync_motion_anchor g on (v\<lparr>vs_motion_raw_on := on\<rparr>)
      in (p\<lparr>pi_motion_on := on\<rparr>,
          if adc_poll_done \<or> raw_mot \<noteq> vs_prev_raw_mot v \<or> raw_mot \<noteq> on then v\<lparr>vs_prev_raw_mot := raw_mot\<rparr> else v))"

definition emit_state_events :: "power_info \<Rightarrow> vehicle \<Rightarrow> vehicle_output list \<times> vehicle" where
  "emit_state_events p v =
     (let (o1, v) = (if pi_ignition_on p \<noteq> vs_prev_ign v then
            ([VO_broadcast (if pi_ignition_on p then EVENT_IGN_ON else EVENT_IGN_OFF), VO_gps_ignition (pi_ignition_on p)],
             v\<lparr>vs_prev_ign := pi_ignition_on p\<rparr>) else ([], v));
          (o2, v) = (if pi_motion_on p \<noteq> vs_prev_mot v then
            ([VO_broadcast (if pi_motion_on p then EVENT_MOTION_ON else EVENT_MOTION_OFF), VO_gps_motion (pi_motion_on p)],
             v\<lparr>vs_prev_mot := pi_motion_on p\<rparr>) else ([], v))
      in (o1 @ o2, v))"

definition vehicle_state_poll :: "gps_view \<Rightarrow> system_config \<Rightarrow> bool \<Rightarrow> power_info \<times> vehicle \<Rightarrow> vehicle_output list \<times> power_info \<times> vehicle" where
  "vehicle_state_poll g cfg adc_poll_done s =
     (let (p, v) = poll_motion g cfg adc_poll_done (poll_ignition cfg adc_poll_done s);
          p = p\<lparr>pi_last_update_timestamp := gv_ticks g\<rparr>; (outs, v) = emit_state_events p v
      in (outs, p, v))"

text \<open>The coordinates of the anchor are left as they are.\<close>

definition vehicle_state_init :: "vehicle \<Rightarrow> vehicle" where
  "vehicle_state_init v = v\<lparr>vs_ign_debounce_count := 0, vs_motion_raw_on := False, vs_motion_stop_since_uptime := 0, vs_anchor_valid := False,
     vs_prev_ign := False, vs_prev_mot := False, vs_prev_raw_ign := False, vs_prev_raw_mot := False\<rparr>"

subsection \<open>Runs\<close>

text \<open>A turn of the system loop: with new readings of the supply and of the ignition wire, or without.\<close>

datatype vehicle_turn = Adc_poll float32 float32 gps_view | Idle_poll gps_view

fun vehicle_step :: "system_config \<Rightarrow> vehicle_turn \<Rightarrow> power_info \<times> vehicle \<Rightarrow> vehicle_output list \<times> power_info \<times> vehicle" where
  "vehicle_step cfg (Adc_poll ev iv g) (p, v) =
     vehicle_state_poll g cfg True (p\<lparr>pi_external_voltage := ev, pi_input_wire_voltage := iv\<rparr>, v)"
| "vehicle_step cfg (Idle_poll g) s = vehicle_state_poll g cfg False s"

fun vehicle_run :: "system_config \<Rightarrow> vehicle_turn list \<Rightarrow> power_info \<times> vehicle \<Rightarrow> vehicle_output list \<times> power_info \<times> vehicle" where
  "vehicle_run cfg [] s = ([], s)"
| "vehicle_run cfg (x # xs) s =
     (let (o1, s) = vehicle_step cfg x s; (o2, s) = vehicle_run cfg xs s in (o1 @ o2, s))"

lemma vehicle_run_append:
  "vehicle_run cfg (xs @ ys) s =
     (let (o1, s) = vehicle_run cfg xs s; (o2, s) = vehicle_run cfg ys s in (o1 @ o2, s))"
  by (induction xs arbitrary: s) (simp_all add: Let_def split_beta)

fun readings :: "vehicle_turn list \<Rightarrow> (float32 \<times> float32) list" where
  "readings [] = []"
| "readings (Adc_poll ev iv g # xs) = (ev, iv) # readings xs"
| "readings (Idle_poll g # xs) = readings xs"

lemma readings_append: "readings (xs @ ys) = readings xs @ readings ys"
  by (induction xs rule: readings.induct) simp_all

definition vehicle_start :: "vehicle \<Rightarrow> power_info \<times> vehicle" where
  "vehicle_start v = (power_info_zero, vehicle_state_init v)"

subsection \<open>Ignition over a run\<close>

text \<open>The ignition is a matter of the readings alone.\<close>

type_synonym ign_view = "bool \<times> nat \<times> nat \<times> bool"

definition ign_view :: "power_info \<times> vehicle \<Rightarrow> ign_view" where
  "ign_view s = (pi_ignition_on (fst s), vs_ign_debounce_count (snd s), pi_adc_poll_count (fst s), pi_post_boot_ignition_ready (fst s))"

definition ign_raw :: "system_config \<Rightarrow> bool \<Rightarrow> float32 \<times> float32 \<Rightarrow> bool" where
  "ign_raw cfg on r =
     eval_ignition cfg (power_info_zero\<lparr>pi_external_voltage := fst r, pi_input_wire_voltage := snd r, pi_ignition_on := on\<rparr>)"

fun ign_next :: "system_config \<Rightarrow> float32 \<times> float32 \<Rightarrow> ign_view \<Rightarrow> ign_view" where
  "ign_next cfg r (on, n, polls, ready) =
     (let raw = ign_raw cfg on r; c = (if raw then if n < sc_debounce_polls cfg then n + 1 else n else 0);
          m = (if polls < 255 then polls + 1 else polls)
      in (raw \<and> sc_debounce_polls cfg \<le> c, c, m, sc_debounce_polls cfg < m))"

lemma eval_ignition_cong:
  "pi_external_voltage p = pi_external_voltage q \<Longrightarrow> pi_input_wire_voltage p = pi_input_wire_voltage q \<Longrightarrow>
    pi_ignition_on p = pi_ignition_on q \<Longrightarrow> eval_ignition cfg p = eval_ignition cfg q"
  by (simp add: eval_ignition_def eval_ignition_wire_def eval_ignition_soft_def soft_ign_base_voltage_def)

lemma motion_keeps_ign: "ign_view (poll_motion g cfg adc s) = ign_view s"
  by (auto simp: poll_motion_def ign_view_def apply_motion_stop_debounce_def sync_motion_anchor_def Let_def split: prod.split)

lemma poll_ign: "ign_view (snd (vehicle_state_poll g cfg adc s)) = ign_view (poll_ignition cfg adc s)"
  using motion_keeps_ign [of g cfg adc "poll_ignition cfg adc s"]
  by (auto simp: vehicle_state_poll_def emit_state_events_def ign_view_def Let_def split: prod.splits if_splits)

lemma step_ign:
  "ign_view (snd (vehicle_step cfg x s)) = (case x of Adc_poll ev iv g \<Rightarrow> ign_next cfg (ev, iv) (ign_view s) | Idle_poll g \<Rightarrow> ign_view s)"
proof (cases x)
  case (Adc_poll ev iv g)
  obtain p v where s: "s = (p, v)" by fastforce
  have "eval_ignition cfg (p\<lparr>pi_external_voltage := ev, pi_input_wire_voltage := iv\<rparr>) = ign_raw cfg (pi_ignition_on p) (ev, iv)"
    unfolding ign_raw_def by (rule eval_ignition_cong) simp_all
  then show ?thesis by (simp add: Adc_poll s poll_ign) (auto simp: poll_ignition_def ign_view_def Let_def)
next
  case (Idle_poll g)
  then show ?thesis by (simp add: poll_ign poll_ignition_def)
qed

lemma run_ign: "ign_view (snd (vehicle_run cfg xs s)) = fold (ign_next cfg) (readings xs) (ign_view s)"
proof (induction xs arbitrary: s)
  case (Cons x xs)
  then show ?case by (cases x) (simp_all add: Let_def split_beta step_ign del: vehicle_step.simps)
qed simp

text \<open>The wire: on after \<open>d\<close> readings in a row at the upper threshold, off at the first reading at the lower one.\<close>

definition wire_on :: "system_config \<Rightarrow> float32 list \<Rightarrow> bool" where
  "wire_on cfg vs \<longleftrightarrow> (\<exists>before block after. vs = before @ block @ after \<and> length block = sc_debounce_polls cfg \<and>
     (\<forall>v \<in> set block. f32_le (sc_wire_on_v cfg) v) \<and> (\<forall>v \<in> set after. \<not> f32_le v (sc_wire_off_v cfg)))"

definition soft_in_range :: "system_config \<Rightarrow> float32 \<Rightarrow> bool" where
  "soft_in_range cfg ev \<longleftrightarrow> eval_ignition_soft cfg (power_info_zero\<lparr>pi_external_voltage := ev\<rparr>)"

text \<open>The length of the last run of readings with \<open>P\<close>.\<close>

definition tail_run :: "('a \<Rightarrow> bool) \<Rightarrow> 'a list \<Rightarrow> nat" where
  "tail_run P xs = length (takeWhile P (rev xs))"

lemma tail_run_snoc [simp]: "tail_run P [] = 0" "tail_run P (xs @ [x]) = (if P x then Suc (tail_run P xs) else 0)"
  by (simp_all add: tail_run_def)

lemma tail_run_ge: "n \<le> tail_run P xs \<longleftrightarrow> n \<le> length xs \<and> (\<forall>x \<in> set (drop (length xs - n) xs). P x)"
proof (induction xs arbitrary: n rule: rev_induct)
  case (snoc x xs)
  show ?case
  proof (cases n)
    case (Suc m)
    then show ?thesis using snoc [of m] by (auto simp: Suc_diff_le)
  qed simp
qed simp

lemma f32_le_trans: "f32_le x y \<Longrightarrow> f32_le y z \<Longrightarrow> f32_le x z"
  by (cases x; cases y; cases z) auto

lemma valid_thresholds:
  "system_config_validate (Some c) = RESULT_SUCCESS \<Longrightarrow>
    0 < sc_debounce_polls c \<and> (f32_le (sc_wire_on_v c) v \<longrightarrow> \<not> f32_le v (sc_wire_off_v c))"
  by (auto simp: system_config_validate_def split: if_splits dest: f32_le_trans)

lemma wire_on_snoc:
  assumes "system_config_validate (Some cfg) = RESULT_SUCCESS"
  shows "wire_on cfg (vs @ [v]) \<longleftrightarrow>
    (\<not> f32_le v (sc_wire_off_v cfg) \<and> wire_on cfg vs) \<or>
    (f32_le (sc_wire_on_v cfg) v \<and> sc_debounce_polls cfg \<le> Suc (tail_run (f32_le (sc_wire_on_v cfg)) vs))"
proof
  let ?d = "sc_debounce_polls cfg" and ?P = "f32_le (sc_wire_on_v cfg)"
  have d: "0 < ?d" and ex: "?P v \<Longrightarrow> \<not> f32_le v (sc_wire_off_v cfg)" using valid_thresholds [OF assms] by auto
  {
    assume "wire_on cfg (vs @ [v])"
    then obtain b k a where w: "vs @ [v] = b @ k @ a" "length k = ?d" "\<forall>x \<in> set k. ?P x" "\<forall>x \<in> set a. \<not> f32_le x (sc_wire_off_v cfg)"
      unfolding wire_on_def by blast
    show "(\<not> f32_le v (sc_wire_off_v cfg) \<and> wire_on cfg vs) \<or> (?P v \<and> ?d \<le> Suc (tail_run ?P vs))"
    proof (cases a rule: rev_exhaust)
      case Nil
      then obtain k' where k: "k = k' @ [v]" "vs = b @ k'" using w(1,2) d by (cases k rule: rev_exhaust) auto
      then have "length k' \<le> tail_run ?P vs" using w(3) by (simp add: tail_run_ge)
      then show ?thesis using w(2,3) k by simp
    next
      case (snoc a' x)
      then have "x = v" "vs = b @ k @ a'" using w(1) by auto
      then have "wire_on cfg vs" using w(2-4) snoc unfolding wire_on_def by (intro exI [of _ b] exI [of _ k] exI [of _ a']) simp
      moreover have "\<not> f32_le v (sc_wire_off_v cfg)" using w(4) snoc \<open>x = v\<close> by simp
      ultimately show ?thesis by simp
    qed
  next
    assume r: "(\<not> f32_le v (sc_wire_off_v cfg) \<and> wire_on cfg vs) \<or> (?P v \<and> ?d \<le> Suc (tail_run ?P vs))"
    then show "wire_on cfg (vs @ [v])"
    proof
      assume "\<not> f32_le v (sc_wire_off_v cfg) \<and> wire_on cfg vs"
      then obtain b k a where "vs = b @ k @ a" "length k = ?d" "\<forall>x \<in> set k. ?P x" "\<forall>x \<in> set (a @ [v]). \<not> f32_le x (sc_wire_off_v cfg)"
        unfolding wire_on_def by auto
      then show ?thesis unfolding wire_on_def by (intro exI [of _ b] exI [of _ k] exI [of _ "a @ [v]"]) auto
    next
      assume a: "?P v \<and> ?d \<le> Suc (tail_run ?P vs)"
      then have "?d - 1 \<le> tail_run ?P vs" by linarith
      then have t: "?d - 1 \<le> length vs" "\<forall>x \<in> set (drop (length vs - (?d - 1)) vs). ?P x" unfolding tail_run_ge by auto
      let ?n = "length vs - (?d - 1)"
      have "length (drop ?n vs @ [v]) = ?d" using t(1) d by simp
      then show ?thesis using t(2) a unfolding wire_on_def
        by (intro exI [of _ "take ?n vs"] exI [of _ "drop ?n vs @ [v]"] exI [of _ "[]"]) auto
    qed
  }
qed

definition reading_on :: "system_config \<Rightarrow> (float32 \<times> float32) list \<Rightarrow> bool" where
  "reading_on cfg rs =
     (if sc_ign_source cfg = SYSTEM_IGN_SOURCE_WIRE then wire_on cfg (map snd rs)
      else sc_debounce_polls cfg \<le> length rs \<and> (\<forall>r \<in> set (drop (length rs - sc_debounce_polls cfg) rs). soft_in_range cfg (fst r)))"

text \<open>The counter of the debounce, for the wire and for the supply voltage.\<close>

definition reading_count :: "system_config \<Rightarrow> (float32 \<times> float32) list \<Rightarrow> nat" where
  "reading_count cfg rs =
     (if sc_ign_source cfg = SYSTEM_IGN_SOURCE_WIRE
      then if wire_on cfg (map snd rs) then sc_debounce_polls cfg else tail_run (f32_le (sc_wire_on_v cfg)) (map snd rs)
      else min (sc_debounce_polls cfg) (tail_run (\<lambda>r. soft_in_range cfg (fst r)) rs))"

lemma soft_reading_on:
  "sc_ign_source cfg \<noteq> SYSTEM_IGN_SOURCE_WIRE \<Longrightarrow> reading_on cfg rs \<longleftrightarrow> sc_debounce_polls cfg \<le> tail_run (\<lambda>r. soft_in_range cfg (fst r)) rs"
  by (simp add: reading_on_def tail_run_ge)

lemma wire_off_tail: "\<not> wire_on cfg vs \<Longrightarrow> tail_run (f32_le (sc_wire_on_v cfg)) vs < sc_debounce_polls cfg"
proof (rule ccontr)
  let ?d = "sc_debounce_polls cfg"
  assume a: "\<not> wire_on cfg vs" "\<not> tail_run (f32_le (sc_wire_on_v cfg)) vs < ?d"
  then have t: "?d \<le> length vs" "\<forall>x \<in> set (drop (length vs - ?d) vs). f32_le (sc_wire_on_v cfg) x"
    using tail_run_ge [of ?d "f32_le (sc_wire_on_v cfg)" vs] by auto
  then have "wire_on cfg vs" unfolding wire_on_def
    by (intro exI [of _ "take (length vs - ?d) vs"] exI [of _ "drop (length vs - ?d) vs"] exI [of _ "[]"]) simp
  then show False using a by simp
qed

lemma ign_raw_cases:
  "ign_raw cfg on (ev, iv) =
     (if sc_ign_source cfg = SYSTEM_IGN_SOURCE_WIRE
      then f32_le (sc_wire_on_v cfg) iv \<or> (\<not> f32_le iv (sc_wire_off_v cfg) \<and> on) else soft_in_range cfg ev)"
  by (simp add: ign_raw_def eval_ignition_def eval_ignition_wire_def soft_in_range_def eval_ignition_soft_def soft_ign_base_voltage_def)

lemma fold_readings:
  assumes "system_config_validate (Some cfg) = RESULT_SUCCESS"
  shows "fold (ign_next cfg) rs (False, 0, 0, False) =
    (reading_on cfg rs, reading_count cfg rs, min 255 (length rs), sc_debounce_polls cfg < min 255 (length rs))"
proof (induction rs rule: rev_induct)
  case Nil
  then show ?case using valid_thresholds [OF assms, of FZERO]
    by (auto simp: reading_on_def reading_count_def wire_on_def)
next
  case (snoc r rs)
  obtain ev iv where r: "r = (ev, iv)" by fastforce
  have d: "0 < sc_debounce_polls cfg" and ex: "f32_le (sc_wire_on_v cfg) iv \<Longrightarrow> \<not> f32_le iv (sc_wire_off_v cfg)"
    using valid_thresholds [OF assms] by auto
  show ?case
  proof (cases "sc_ign_source cfg = SYSTEM_IGN_SOURCE_WIRE")
    case True
    then show ?thesis
      using snoc.IH d ex wire_on_snoc [OF assms, of "map snd rs" iv] wire_off_tail [of cfg "map snd rs"]
      by (auto simp: r reading_on_def reading_count_def ign_raw_cases Let_def)
  next
    case False
    then show ?thesis
      using snoc.IH d by (auto simp: r soft_reading_on reading_count_def ign_raw_cases Let_def)
  qed
qed

lemma ign_after_run:
  assumes "system_config_validate (Some cfg) = RESULT_SUCCESS"
  shows "ign_view (snd (vehicle_run cfg xs (vehicle_start v))) =
    (reading_on cfg (readings xs), reading_count cfg (readings xs), min 255 (length (readings xs)), sc_debounce_polls cfg < min 255 (length (readings xs)))"
proof -
  have "ign_view (vehicle_start v) = (False, 0, 0, False)"
    by (simp add: vehicle_start_def ign_view_def power_info_zero_def vehicle_state_init_def)
  then show ?thesis using run_ign [of cfg xs "vehicle_start v"] fold_readings [OF assms, of "readings xs"] by simp
qed

text \<open>C25: The ignition follows its readings. With the wire as source it turns on when as many readings in a row as the
  debounce asks for have reached the upper threshold, and stays on until a reading is down at the lower one, whatever
  lies between; with the supply voltage as source it is on when that many last readings were in the range. The first
  reports after a restart are held back until more polls than that have been made; as the counter of the polls stops at
  255, a debounce of 255 polls holds them back for ever.\<close>

theorem ignition_follows_readings:
  assumes "system_config_validate (Some cfg) = RESULT_SUCCESS"
  shows "let p = fst (snd (vehicle_run cfg xs (vehicle_start v))) in (pi_ignition_on p \<longleftrightarrow>
      (if sc_ign_source cfg = SYSTEM_IGN_SOURCE_WIRE
       then \<exists>before block after. map snd (readings xs) = before @ block @ after \<and> length block = sc_debounce_polls cfg \<and>
         (\<forall>x \<in> set block. f32_le (sc_wire_on_v cfg) x) \<and> (\<forall>x \<in> set after. \<not> f32_le x (sc_wire_off_v cfg))
       else sc_debounce_polls cfg \<le> length (readings xs) \<and>
         (\<forall>r \<in> set (drop (length (readings xs) - sc_debounce_polls cfg) (readings xs)). soft_in_range cfg (fst r)))) \<and>
    (pi_post_boot_ignition_ready p \<longleftrightarrow> sc_debounce_polls cfg < min 255 (length (readings xs)))"
  using ign_after_run [OF assms(1), of xs v] by (simp add: Let_def ign_view_def reading_on_def wire_on_def)

subsection \<open>Motion over a run\<close>

fun turn_gps :: "vehicle_turn \<Rightarrow> gps_view" where
  "turn_gps (Adc_poll ev iv g) = g"
| "turn_gps (Idle_poll g) = g"

abbreviation turn_uptime :: "vehicle_turn \<Rightarrow> nat" where "turn_uptime x \<equiv> gv_uptime_seconds (turn_gps x)"

text \<open>What the polls of a run saw: the ignition, the motion before its debounce, and the motion reported.\<close>

fun vehicle_trace :: "system_config \<Rightarrow> vehicle_turn list \<Rightarrow> power_info \<times> vehicle \<Rightarrow> (bool \<times> bool \<times> bool) list" where
  "vehicle_trace cfg [] s = []"
| "vehicle_trace cfg (x # xs) s =
     (let s' = snd (vehicle_step cfg x s)
      in (pi_ignition_on (fst s'), vs_prev_raw_mot (snd s'), pi_motion_on (fst s')) # vehicle_trace cfg xs s')"

text \<open>Between the polls the remembered values are those reported.\<close>

definition vehicle_sync :: "power_info \<times> vehicle \<Rightarrow> bool" where
  "vehicle_sync s \<longleftrightarrow> vs_prev_ign (snd s) = pi_ignition_on (fst s) \<and> vs_prev_mot (snd s) = pi_motion_on (fst s) \<and>
     vs_motion_raw_on (snd s) = pi_motion_on (fst s) \<and> (vs_prev_raw_mot (snd s) \<longrightarrow> pi_motion_on (fst s) \<and> vs_motion_stop_since_uptime (snd s) = 0)"

lemma start_sync: "vehicle_sync (vehicle_start v)"
  by (simp add: vehicle_start_def vehicle_sync_def power_info_zero_def vehicle_state_init_def)

definition edge_outputs :: "bool \<Rightarrow> bool \<Rightarrow> bool \<Rightarrow> bool \<Rightarrow> vehicle_output list" where
  "edge_outputs ign ign' mot mot' =
     (if ign' \<noteq> ign then [VO_broadcast (if ign' then EVENT_IGN_ON else EVENT_IGN_OFF), VO_gps_ignition ign'] else []) @
     (if mot' \<noteq> mot then [VO_broadcast (if mot' then EVENT_MOTION_ON else EVENT_MOTION_OFF), VO_gps_motion mot'] else [])"

lemma poll_ignition_frame:
  "pi_motion_on (fst (poll_ignition cfg adc s)) = pi_motion_on (fst s)"
  "vs_motion_raw_on (snd (poll_ignition cfg adc s)) = vs_motion_raw_on (snd s)"
  "vs_motion_stop_since_uptime (snd (poll_ignition cfg adc s)) = vs_motion_stop_since_uptime (snd s)"
  "vs_prev_ign (snd (poll_ignition cfg adc s)) = vs_prev_ign (snd s)"
  "vs_prev_mot (snd (poll_ignition cfg adc s)) = vs_prev_mot (snd s)"
  "vs_prev_raw_mot (snd (poll_ignition cfg adc s)) = vs_prev_raw_mot (snd s)"
  by (cases s; auto simp: poll_ignition_def Let_def)+

lemma poll_motion_effect:
  fixes g cfg adc s
  defines "s' \<equiv> poll_motion g cfg adc s" and "raw \<equiv> eval_motion_raw g (snd s) cfg (pi_ignition_on (fst s))"
  shows "vs_prev_raw_mot (snd s') = raw" "vs_motion_raw_on (snd s') = pi_motion_on (fst s')"
    "vs_motion_stop_since_uptime (snd s') = (if raw then 0 else if vs_motion_stop_since_uptime (snd s) = 0 then gv_uptime_seconds g
       else vs_motion_stop_since_uptime (snd s))"
    "pi_motion_on (fst s') \<longleftrightarrow> raw \<or> (vs_motion_raw_on (snd s) \<and> vs_motion_stop_since_uptime (snd s') \<le> gv_uptime_seconds g \<and>
       gv_uptime_seconds g - vs_motion_stop_since_uptime (snd s') < sc_mot_stop_debounce_sec cfg)"
    "pi_ignition_on (fst s') = pi_ignition_on (fst s)" "vs_prev_ign (snd s') = vs_prev_ign (snd s)" "vs_prev_mot (snd s') = vs_prev_mot (snd s)"
  unfolding s'_def raw_def
  by (cases s; auto simp: poll_motion_def apply_motion_stop_debounce_def sync_motion_anchor_def Let_def split: if_splits)+

lemma poll_effect:
  assumes "vehicle_sync s" and "vehicle_state_poll g cfg adc s = (outs, s')"
  shows "vehicle_sync s'"
    and "outs = edge_outputs (pi_ignition_on (fst s)) (pi_ignition_on (fst s')) (pi_motion_on (fst s)) (pi_motion_on (fst s'))"
    and "vs_motion_stop_since_uptime (snd s') = (if vs_prev_raw_mot (snd s') then 0
      else if vs_motion_stop_since_uptime (snd s) = 0 then gv_uptime_seconds g else vs_motion_stop_since_uptime (snd s))"
    and "pi_motion_on (fst s') \<longleftrightarrow> vs_prev_raw_mot (snd s') \<or> (pi_motion_on (fst s) \<and> vs_motion_stop_since_uptime (snd s') \<le> gv_uptime_seconds g \<and>
      gv_uptime_seconds g - vs_motion_stop_since_uptime (snd s') < sc_mot_stop_debounce_sec cfg)"
proof -
  let ?i = "poll_ignition cfg adc s"
  let ?m = "poll_motion g cfg adc ?i"
  note e = poll_motion_effect [of g cfg adc ?i] poll_ignition_frame [of cfg adc s]
  obtain p v where m: "?m = (p, v)" by fastforce
  have s': "fst s' = p\<lparr>pi_last_update_timestamp := gv_ticks g\<rparr>" "snd s' = v\<lparr>vs_prev_ign := pi_ignition_on p, vs_prev_mot := pi_motion_on p\<rparr>"
    and o: "outs = edge_outputs (vs_prev_ign v) (pi_ignition_on p) (vs_prev_mot v) (pi_motion_on p)"
    using assms(2) by (auto simp: vehicle_state_poll_def m emit_state_events_def edge_outputs_def Let_def split: if_splits prod.splits)
  show "vehicle_sync s'" using e unfolding vehicle_sync_def s' m by (auto simp: m)
  show "outs = edge_outputs (pi_ignition_on (fst s)) (pi_ignition_on (fst s')) (pi_motion_on (fst s)) (pi_motion_on (fst s'))"
    using e assms(1) unfolding o s' vehicle_sync_def by (simp add: m)
  show "vs_motion_stop_since_uptime (snd s') = (if vs_prev_raw_mot (snd s') then 0
      else if vs_motion_stop_since_uptime (snd s) = 0 then gv_uptime_seconds g else vs_motion_stop_since_uptime (snd s))"
    using e unfolding s' by (simp add: m)
  show "pi_motion_on (fst s') \<longleftrightarrow> vs_prev_raw_mot (snd s') \<or> (pi_motion_on (fst s) \<and> vs_motion_stop_since_uptime (snd s') \<le> gv_uptime_seconds g \<and>
      gv_uptime_seconds g - vs_motion_stop_since_uptime (snd s') < sc_mot_stop_debounce_sec cfg)"
    using e assms(1) unfolding s' vehicle_sync_def by (simp add: m)
qed

lemma step_effect:
  assumes "vehicle_sync s" and "vehicle_step cfg x s = (outs, s')"
  shows "vehicle_sync s'"
    and "outs = edge_outputs (pi_ignition_on (fst s)) (pi_ignition_on (fst s')) (pi_motion_on (fst s)) (pi_motion_on (fst s'))"
    and "vs_motion_stop_since_uptime (snd s') = (if vs_prev_raw_mot (snd s') then 0
      else if vs_motion_stop_since_uptime (snd s) = 0 then turn_uptime x else vs_motion_stop_since_uptime (snd s))"
    and "pi_motion_on (fst s') \<longleftrightarrow> vs_prev_raw_mot (snd s') \<or> (pi_motion_on (fst s) \<and> vs_motion_stop_since_uptime (snd s') \<le> turn_uptime x \<and>
      turn_uptime x - vs_motion_stop_since_uptime (snd s') < sc_mot_stop_debounce_sec cfg)"
proof -
  obtain p v where s: "s = (p, v)" by fastforce
  obtain q adc where q: "vehicle_state_poll (turn_gps x) cfg adc (q, v) = (outs, s')"
    "pi_ignition_on q = pi_ignition_on p" "pi_motion_on q = pi_motion_on p"
    using assms(2) s by (cases x) auto
  have y: "vehicle_sync (q, v)" using assms(1) q(2,3) by (simp add: vehicle_sync_def s)
  note P = poll_effect [OF y q(1)]
  show "vehicle_sync s'" by (rule P(1))
  show "outs = edge_outputs (pi_ignition_on (fst s)) (pi_ignition_on (fst s')) (pi_motion_on (fst s)) (pi_motion_on (fst s'))"
    using P(2) q(2,3) s by simp
  show "vs_motion_stop_since_uptime (snd s') = (if vs_prev_raw_mot (snd s') then 0
      else if vs_motion_stop_since_uptime (snd s) = 0 then turn_uptime x else vs_motion_stop_since_uptime (snd s))"
    using P(3) s by simp
  show "pi_motion_on (fst s') \<longleftrightarrow> vs_prev_raw_mot (snd s') \<or> (pi_motion_on (fst s) \<and> vs_motion_stop_since_uptime (snd s') \<le> turn_uptime x \<and>
      turn_uptime x - vs_motion_stop_since_uptime (snd s') < sc_mot_stop_debounce_sec cfg)"
    using P(4) q(3) s by simp
qed

lemma run_sync: "vehicle_sync s \<Longrightarrow> vehicle_sync (snd (vehicle_run cfg xs s))"
proof (induction xs arbitrary: s)
  case (Cons x xs)
  obtain o1 s1 where x: "vehicle_step cfg x s = (o1, s1)" by (meson surj_pair)
  show ?case using Cons.IH [OF step_effect(1) [OF Cons.prems x]] by (simp add: x split_beta)
qed simp

text \<open>The changes of a value that was \<open>prev\<close> before.\<close>

fun changes :: "bool \<Rightarrow> bool list \<Rightarrow> bool list" where
  "changes prev [] = []"
| "changes prev (b # bs) = (if b \<noteq> prev then b # changes b bs else changes prev bs)"

fun ignition_output :: "vehicle_output \<Rightarrow> bool list" where
  "ignition_output (VO_gps_ignition b) = [b]"
| "ignition_output _ = []"

fun motion_output :: "vehicle_output \<Rightarrow> bool list" where
  "motion_output (VO_gps_motion b) = [b]"
| "motion_output _ = []"

fun event_output :: "nat \<Rightarrow> nat \<Rightarrow> vehicle_output \<Rightarrow> bool list" where
  "event_output on off (VO_broadcast e) = (if e = on then [True] else if e = off then [False] else [])"
| "event_output on off _ = []"

lemma edge_outputs_split:
  "concat (map ignition_output (edge_outputs i i' m m')) = changes i [i']"
  "concat (map motion_output (edge_outputs i i' m m')) = changes m [m']"
  "concat (map (event_output EVENT_IGN_ON EVENT_IGN_OFF) (edge_outputs i i' m m')) = changes i [i']"
  "concat (map (event_output EVENT_MOTION_ON EVENT_MOTION_OFF) (edge_outputs i i' m m')) = changes m [m']"
  by (cases i; cases i'; cases m; cases m'; simp add: edge_outputs_def EVENT_IGN_ON_def EVENT_IGN_OFF_def EVENT_MOTION_ON_def EVENT_MOTION_OFF_def)+

lemma changes_Cons: "changes i (b # bs) = changes i [b] @ changes b bs"
  by auto

lemma run_outputs:
  assumes "vehicle_sync s" and "vehicle_run cfg xs s = (outs, s')"
  shows "concat (map ignition_output outs) = changes (pi_ignition_on (fst s)) (map fst (vehicle_trace cfg xs s)) \<and>
    concat (map (event_output EVENT_IGN_ON EVENT_IGN_OFF) outs) = changes (pi_ignition_on (fst s)) (map fst (vehicle_trace cfg xs s)) \<and>
    concat (map motion_output outs) = changes (pi_motion_on (fst s)) (map (snd \<circ> snd) (vehicle_trace cfg xs s)) \<and>
    concat (map (event_output EVENT_MOTION_ON EVENT_MOTION_OFF) outs) = changes (pi_motion_on (fst s)) (map (snd \<circ> snd) (vehicle_trace cfg xs s))"
  using assms
proof (induction xs arbitrary: s outs)
  case (Cons x xs)
  obtain o1 s1 where x: "vehicle_step cfg x s = (o1, s1)" by (meson surj_pair)
  obtain o2 s2 where r: "vehicle_run cfg xs s1 = (o2, s2)" by (meson surj_pair)
  then have o2: "vehicle_run cfg xs s1 = (o2, s')" "outs = o1 @ o2" using Cons.prems(2) x by auto
  note E = step_effect [OF Cons.prems(1) x]
  have t: "vehicle_trace cfg (x # xs) s = (pi_ignition_on (fst s1), vs_prev_raw_mot (snd s1), pi_motion_on (fst s1)) # vehicle_trace cfg xs s1"
    by (simp add: x Let_def)
  show ?case using Cons.IH [OF E(1) o2(1)] unfolding t o2(2) E(2) list.map fst_conv snd_conv comp_def
    by (simp only: map_append concat_append edge_outputs_split changes_Cons [of _ _ "map _ _"] simp_thms)
qed simp

text \<open>Every change is reported once, and nothing else. In a run from the start the events of the ignition, and the
  values given to the GPS manager, are exactly the changes of the ignition, in order and beginning with off; the same
  holds for the motion. So they alternate, and the last of them is the state the vehicle is in.\<close>

theorem vehicle_events_are_edges:
  "let outs = fst (vehicle_run cfg xs (vehicle_start v)) in
    concat (map (event_output EVENT_IGN_ON EVENT_IGN_OFF) outs) = changes False (map fst (vehicle_trace cfg xs (vehicle_start v))) \<and>
    concat (map ignition_output outs) = changes False (map fst (vehicle_trace cfg xs (vehicle_start v))) \<and>
    concat (map (event_output EVENT_MOTION_ON EVENT_MOTION_OFF) outs) = changes False (map (snd \<circ> snd) (vehicle_trace cfg xs (vehicle_start v))) \<and>
    concat (map motion_output outs) = changes False (map (snd \<circ> snd) (vehicle_trace cfg xs (vehicle_start v)))"
proof -
  have "\<not> pi_ignition_on (fst (vehicle_start v))" "\<not> pi_motion_on (fst (vehicle_start v))"
    by (simp_all add: vehicle_start_def power_info_zero_def)
  then show ?thesis using run_outputs [OF start_sync, of cfg xs v] unfolding Let_def by (metis prod.collapse)
qed

lemma stop_run:
  assumes "vehicle_sync s" and "vs_motion_stop_since_uptime (snd s) = t" and "0 < t" and "\<forall>r \<in> set (vehicle_trace cfg xs s). \<not> fst (snd r)"
    and "\<forall>x \<in> set xs. t \<le> turn_uptime x" and "sorted (map turn_uptime xs)"
    and "pi_motion_on (fst s) \<longleftrightarrow> u - t < sc_mot_stop_debounce_sec cfg" and "\<forall>x \<in> set xs. u \<le> turn_uptime x"
  shows "pi_motion_on (fst (snd (vehicle_run cfg xs s))) \<longleftrightarrow> (if xs = [] then u else turn_uptime (last xs)) - t < sc_mot_stop_debounce_sec cfg"
  using assms
proof (induction xs arbitrary: s u)
  case (Cons x xs)
  obtain o1 s1 where x: "vehicle_step cfg x s = (o1, s1)" by (meson surj_pair)
  note E = step_effect [OF Cons.prems(1) x]
  have r: "\<not> vs_prev_raw_mot (snd s1)" using Cons.prems(4) by (simp add: x Let_def)
  have t: "vs_motion_stop_since_uptime (snd s1) = t" using E(3) Cons.prems(2,3) r by simp
  have "pi_motion_on (fst s1) \<longleftrightarrow> turn_uptime x - t < sc_mot_stop_debounce_sec cfg"
    using E(4) r t Cons.prems(5,7,8) by auto
  then show ?case
    using Cons.IH [OF E(1) t Cons.prems(3), of "turn_uptime x"] Cons.prems(4-6) by (auto simp: x Let_def split_beta)
qed simp

text \<open>Standing still is reported after the time set for it and not before. While what the polls see is motion, motion
  is reported; from the first poll that sees none it is still reported until the configured number of seconds have
  passed since that poll, and no longer, provided the clock does not go back in between and does not stand at zero.\<close>

theorem motion_stop_debounce:
  assumes "vehicle_run cfg before (vehicle_start v) = (o1, s1)" and "vs_prev_raw_mot (snd s1)"
    and "vehicle_run cfg (x # xs) s1 = (o2, p, v2)" and "\<forall>r \<in> set (vehicle_trace cfg (x # xs) s1). \<not> fst (snd r)"
    and "0 < turn_uptime x" and "sorted (map turn_uptime (x # xs))"
  shows "pi_motion_on (fst s1) \<and>
    (pi_motion_on p \<longleftrightarrow> turn_uptime (last (x # xs)) - turn_uptime x < sc_mot_stop_debounce_sec cfg)"
proof -
  have y: "vehicle_sync s1" using run_sync [OF start_sync, of cfg before v] assms(1) by simp
  then have m: "pi_motion_on (fst s1)" "vs_motion_stop_since_uptime (snd s1) = 0" using assms(2) by (auto simp: vehicle_sync_def)
  obtain o3 s2 where x: "vehicle_step cfg x s1 = (o3, s2)" by (meson surj_pair)
  note E = step_effect [OF y x]
  have r: "\<not> vs_prev_raw_mot (snd s2)" "\<forall>r \<in> set (vehicle_trace cfg xs s2). \<not> fst (snd r)"
    using assms(4) by (simp_all add: x Let_def)
  have t: "vs_motion_stop_since_uptime (snd s2) = turn_uptime x" using E(3) m(2) r(1) by simp
  have "pi_motion_on (fst s2) \<longleftrightarrow> turn_uptime x - turn_uptime x < sc_mot_stop_debounce_sec cfg" using E(4) r(1) t m(1) by simp
  then have "pi_motion_on (fst (snd (vehicle_run cfg xs s2))) \<longleftrightarrow>
      (if xs = [] then turn_uptime x else turn_uptime (last xs)) - turn_uptime x < sc_mot_stop_debounce_sec cfg"
    using assms(6) by (intro stop_run [OF E(1) t assms(5) r(2)]) auto
  moreover have "snd (vehicle_run cfg xs s2) = (p, v2)" using assms(3) x by (simp add: Let_def split_beta)
  ultimately show ?thesis using m(1) by simp
qed

subsection \<open>A threshold that is not a number\<close>

text \<open>The validation does not notice a threshold that is not a number. The text \<open>wire-on-v:nan\<close> is accepted on top of
  every valid configuration and stored, and from then on the ignition never turns on, whatever the wire says.\<close>

theorem nan_threshold_disables_ignition:
  assumes "system_config_get_storage (snd st) = p" and "system_config_validate (Some (struct_read A p (fst st))) = RESULT_SUCCESS"
    and "sc_ign_source (struct_read A p (fst st)) = SYSTEM_IGN_SOURCE_WIRE" and "cs_config_initialized (fst st)"
    and "struct_law A ok n" and "length (cs_memory (fst st) p) = n" and "ok ((struct_read A p (fst st))\<lparr>sc_wire_on_v := FNan\<rparr>)"
  shows "\<exists>st1. system_config_set E A True (Some ''wire-on-v:nan'') st = (RESULT_SUCCESS, st1) \<and>
    (\<forall>xs v. \<not> pi_ignition_on (fst (snd (vehicle_run (struct_read A p (fst st1)) xs (vehicle_start v)))))"
proof -
  let ?c = "(struct_read A p (fst st))\<lparr>sc_wire_on_v := FNan\<rparr>"
  have "system_config_set E A True (Some ''wire-on-v:nan'') st = (RESULT_SUCCESS, snd (save_config E (struct_write A p ?c (fst st), snd st)))"
    using system_set_accepts [OF _ _ nan_threshold_loop _ nan_threshold_valid, of A st E] assms(1,2) by simp
  moreover have "struct_read A p (fst (snd (save_config E (struct_write A p ?c (fst st), snd st)))) = ?c"
    using assms(4-7) by (simp add: save_config_keeps struct_read_write)
  moreover have "\<not> pi_ignition_on (fst (snd (vehicle_run ?c xs (vehicle_start v))))" for xs v
  proof -
    have V: "system_config_validate (Some ?c) = RESULT_SUCCESS" by (rule nan_threshold_valid [OF assms(2)])
    have "\<not> reading_on ?c (readings xs)"
      using valid_thresholds [OF V, of FZERO] assms(3) by (auto simp: reading_on_def wire_on_def neq_Nil_conv)
    then show ?thesis using ign_after_run [OF V, of xs v] by (simp add: ign_view_def)
  qed
  ultimately show ?thesis by auto
qed

subsection \<open>Evaluation\<close>

definition no_gps :: "nat \<Rightarrow> gps_view" where
  "no_gps t = \<lparr>gv_fix_valid_calculated = False, gv_latitude_deg = FZERO, gv_longitude_deg = FZERO, gv_speed_knots = FZERO,
     gv_speed_from_last_sent = FZERO, gv_distance = (\<lambda>a b c d. FZERO), gv_uptime_seconds = t, gv_ticks = 1000 * t\<rparr>"

definition vehicle_zero :: vehicle where
  "vehicle_zero = \<lparr>vs_ign_debounce_count = 0, vs_motion_raw_on = False, vs_motion_stop_since_uptime = 0, vs_anchor_lat = FZERO,
     vs_anchor_lon = FZERO, vs_anchor_valid = False, vs_prev_ign = False, vs_prev_mot = False, vs_prev_raw_ign = False, vs_prev_raw_mot = False\<rparr>"

text \<open>Five readings of six volts and one of 4.95: the ignition is on.\<close>

lemma ignition_follows_readings_witness:
  "\<forall>v g. pi_ignition_on (fst (snd (vehicle_run system_config_get_defaults
     (replicate 5 (Adc_poll FZERO (decimal_float 0 6) g) @ [Adc_poll FZERO (decimal_float 2 495) g]) (vehicle_start v))))"
proof (intro allI)
  fix v g
  let ?xs = "replicate 5 (Adc_poll FZERO (decimal_float 0 6) g) @ [Adc_poll FZERO (decimal_float 2 495) g]"
  have r: "map snd (readings ?xs) = [] @ replicate 5 (decimal_float 0 6) @ [decimal_float 2 495]" by (simp add: numeral_eq_Suc)
  have c: "f32_le (sc_wire_on_v system_config_get_defaults) (decimal_float 0 6)"
    "\<not> f32_le (decimal_float 2 495) (sc_wire_off_v system_config_get_defaults)" by code_simp+
  have d: "sc_debounce_polls system_config_get_defaults = 5" "sc_ign_source system_config_get_defaults = SYSTEM_IGN_SOURCE_WIRE"
    by (simp_all add: system_config_get_defaults_def)
  have w: "\<exists>before block after. map snd (readings ?xs) = before @ block @ after \<and> length block = sc_debounce_polls system_config_get_defaults \<and>
      (\<forall>x \<in> set block. f32_le (sc_wire_on_v system_config_get_defaults) x) \<and> (\<forall>x \<in> set after. \<not> f32_le x (sc_wire_off_v system_config_get_defaults))"
    unfolding r d(1)
    by (intro exI [of _ "[]"] exI [of _ "replicate 5 (decimal_float 0 6)"] exI [of _ "[decimal_float 2 495]"]) (simp add: c)
  show "pi_ignition_on (fst (snd (vehicle_run system_config_get_defaults ?xs (vehicle_start v))))"
    using ignition_follows_readings [OF default_valid, of ?xs v] unfolding Let_def if_P [OF d(2)] using w by blast
qed

text \<open>On at two seconds, off at 20: in motion at 24, standing at 25.\<close>

definition round_config :: system_config where
  "round_config = system_config_get_defaults\<lparr>sc_wire_on_v := FFin False 5, sc_wire_off_v := FFin False 4, sc_soft_lo_v := FFin False 12,
     sc_soft_hi_v := FFin False 15, sc_debounce_polls := 1, sc_mot_spd_kmh := FFin False 5, sc_mot_dist_m := FFin False 200, sc_accel_g := FFin False 1\<rparr>"

lemma round_config_fields:
  "sc_ign_source round_config = SYSTEM_IGN_SOURCE_WIRE" "sc_motion_source round_config = SYSTEM_MOT_SOURCE_IGN"
  "sc_wire_on_v round_config = FFin False 5" "sc_wire_off_v round_config = FFin False 4" "sc_debounce_polls round_config = 1"
  "sc_mot_stop_debounce_sec round_config = 5"
  by (simp_all add: round_config_def system_config_get_defaults_def)

lemmas vehicle_eval = vehicle_state_poll_def poll_ignition_def poll_motion_def emit_state_events_def eval_ignition_def eval_ignition_wire_def
  eval_motion_raw_def apply_motion_stop_debounce_def sync_motion_anchor_def round_config_fields signed_def vehicle_start_def
  vehicle_state_init_def power_info_zero_def no_gps_def

lemma motion_stop_debounce_witness:
  "\<forall>v. pi_motion_on (fst (snd (vehicle_run round_config [Adc_poll FZERO (FFin False 6) (no_gps 2),
       Adc_poll FZERO FZERO (no_gps 20), Idle_poll (no_gps 24)] (vehicle_start v)))) \<and>
     \<not> pi_motion_on (fst (snd (vehicle_run round_config [Adc_poll FZERO (FFin False 6) (no_gps 2),
       Adc_poll FZERO FZERO (no_gps 20), Idle_poll (no_gps 25)] (vehicle_start v))))"
proof
  fix v
  let ?on = "Adc_poll FZERO (FFin False 6) (no_gps 2)" and ?off = "Adc_poll FZERO FZERO (no_gps 20)"
  obtain o1 s1 where s: "vehicle_run round_config [?on] (vehicle_start v) = (o1, s1)" by (meson surj_pair)
  have m: "vs_prev_raw_mot (snd s1)" and off: "\<forall>r \<in> set (vehicle_trace round_config [?off, Idle_poll (no_gps t)] s1). \<not> fst (snd r)" for t
    using s [symmetric] by (simp_all add: vehicle_eval Let_def)
  have "pi_motion_on (fst (snd (vehicle_run round_config [?on, ?off, Idle_poll (no_gps t)] (vehicle_start v)))) \<longleftrightarrow> t - 20 < 5" if "20 \<le> t" for t
  proof -
    obtain o2 p v2 where r: "vehicle_run round_config [?off, Idle_poll (no_gps t)] s1 = (o2, p, v2)" by (metis surj_pair)
    have "pi_motion_on p \<longleftrightarrow> t - 20 < 5"
      using motion_stop_debounce [OF s m r off] that by (simp add: no_gps_def round_config_fields)
    moreover have "snd (vehicle_run round_config [?on, ?off, Idle_poll (no_gps t)] (vehicle_start v)) = (p, v2)"
      using vehicle_run_append [of round_config "[?on]" "[?off, Idle_poll (no_gps t)]" "vehicle_start v"]
      by (simp only: s r Let_def append.simps prod.case snd_conv)
    ultimately show ?thesis by simp
  qed
  from this [of 24] this [of 25]
  show "pi_motion_on (fst (snd (vehicle_run round_config [?on, ?off, Idle_poll (no_gps 24)] (vehicle_start v)))) \<and>
     \<not> pi_motion_on (fst (snd (vehicle_run round_config [?on, ?off, Idle_poll (no_gps 25)] (vehicle_start v))))" by simp
qed

definition nan_system :: "system_config struct_abi" where
  "nan_system = \<lparr>sa_get = (\<lambda>b. if hd b = 1 then system_config_get_defaults else system_config_get_defaults\<lparr>sc_wire_on_v := FNan\<rparr>),
     sa_put = (\<lambda>c b. 0 # tl b)\<rparr>"

lemma nan_threshold_disables_ignition_witness:
  "\<exists>st1. system_config_set plain_env nan_system True (Some ''wire-on-v:nan'') (one_store 1, plain_gateway) = (RESULT_SUCCESS, st1) \<and>
    (\<forall>xs v. \<not> pi_ignition_on (fst (snd (vehicle_run (struct_read nan_system (system_config_get_storage plain_gateway) (fst st1)) xs (vehicle_start v)))))"
proof -
  have r: "struct_read nan_system p (fst (one_store 1, plain_gateway)) = system_config_get_defaults" for p
    by (simp add: struct_read_def nan_system_def one_store_def)
  have L: "struct_law nan_system (\<lambda>c. c = system_config_get_defaults\<lparr>sc_wire_on_v := FNan\<rparr>) 1" by (simp add: struct_law_def nan_system_def)
  show ?thesis
    by (rule nan_threshold_disables_ignition [OF _ _ _ _ L], simp, simp only: r default_valid, simp only: r, simp add: system_config_get_defaults_def)
      (simp_all only: r, simp_all add: one_store_def)
qed

end
