(* ===== verification/Reset_Handler.thy ===== *)
theory Reset_Handler
  imports Module_Registry Queue_Snapshot Flash_Frame Time_Utils
begin

text \<open>
  \<open>system/reset/reset_handler.c\<close> and \<open>post_boot_handler.c\<close>: a reset is asked for by an event, waits 200 ms for the modules
  to settle, writes down why it happened, saves the queues and resets the chip; the next boot tells what it was. The
  call that resets the chip is a parameter that returns only when it fails; then the handler waits and gives up, a loop
  of the clock's doing, so that it is an option.
\<close>

subsection \<open>State\<close>

abbreviation (input) RESET_DEFER_DELAY_MS :: nat where "RESET_DEFER_DELAY_MS \<equiv> 200"
abbreviation (input) RESET_SOFT_STABILIZE_MS :: nat where "RESET_SOFT_STABILIZE_MS \<equiv> 500"
abbreviation (input) RESET_HARD_STABILIZE_MS :: nat where "RESET_HARD_STABILIZE_MS \<equiv> 10000"
abbreviation (input) RESET_SOC_FAIL_TIMEOUT_MS :: nat where "RESET_SOC_FAIL_TIMEOUT_MS \<equiv> 20000"
abbreviation (input) RESET_SOC_FAIL_POLL_MS :: nat where "RESET_SOC_FAIL_POLL_MS \<equiv> 500"

record deferred_reset =
  dr_source_name :: cbuf
  dr_scheduled_start_ms :: nat
  dr_pending :: bool
  dr_executing :: bool
  dr_type :: nat

definition deferred_boot :: deferred_reset where
  "deferred_boot = \<lparr>dr_source_name = replicate 33 NUL, dr_scheduled_start_ms = 0, dr_pending = False, dr_executing = False, dr_type = 0\<rparr>"

record ('u, 'w) reset_env =
  re_os :: "('u, 'w) os"
  re_rtc :: "'w \<Rightarrow> network_time option \<times> network_time option"
  re_system_reset :: "'w \<Rightarrow> 'w"
  re_reset_reason :: "'w \<Rightarrow> nat"
  re_reason_string :: "nat \<Rightarrow> string option"

subsection \<open>Scheduling\<close>

definition deferred_source :: "deferred_reset \<Rightarrow> string" where
  "deferred_source d = (if c_str (dr_source_name d) \<noteq> [] then c_str (dr_source_name d) else ''SYSTEM'')"

text \<open>\<open>now\<close> is what the clock reads if it is asked.\<close>

definition schedule_reset :: "nat \<Rightarrow> reset_type \<Rightarrow> string option \<Rightarrow> deferred_reset \<Rightarrow> deferred_reset" where
  "schedule_reset now t source_module d =
     (if t \<noteq> RESET_TYPE_SOFT \<and> t \<noteq> RESET_TYPE_HARD then d
      else if dr_pending d \<or> dr_executing d then d
      else
        let d = d\<lparr>dr_pending := True, dr_type := reset_type_code t, dr_scheduled_start_ms := utils_monotonic_ms_now now\<rparr>
        in case source_module of
             Some s \<Rightarrow>
               if s \<noteq> [] then
                 (case snd (utils_strncpy_safe (Some (dr_source_name d)) (Some s) 33) of
                    None \<Rightarrow> d | Some b \<Rightarrow> d\<lparr>dr_source_name := b\<rparr>)
               else d\<lparr>dr_source_name := (dr_source_name d)[0 := NUL]\<rparr>
           | None \<Rightarrow> d\<lparr>dr_source_name := (dr_source_name d)[0 := NUL]\<rparr>)"

definition on_reset_event :: "nat \<Rightarrow> event_data option \<Rightarrow> deferred_reset \<Rightarrow> deferred_reset" where
  "on_reset_event now event d =
     (case event of
        None \<Rightarrow> d
      | Some e \<Rightarrow>
          if ed_type e = EVENT_RESET_SOFT then schedule_reset now RESET_TYPE_SOFT (Some (ed_source_module e)) d
          else if ed_type e = EVENT_RESET_HARD then schedule_reset now RESET_TYPE_HARD (Some (ed_source_module e)) d
          else d)"

definition on_reset_event_fn :: nat where "on_reset_event_fn = 5"

fun register_reset_loop :: "nat list \<Rightarrow> event_manager \<Rightarrow> result \<times> event_manager" where
  "register_reset_loop [] em = (RESULT_SUCCESS, em)"
| "register_reset_loop (t # ts) em =
     (let (r, em) = event_manager_register t (Some on_reset_event_fn) 0 (Some ''Reset Handler'') em in
      if r \<noteq> RESULT_SUCCESS \<and> r \<noteq> RESULT_ALREADY_INITIALIZED then (r, em) else register_reset_loop ts em)"

definition register_reset_events :: "event_manager \<Rightarrow> result \<times> event_manager" where
  "register_reset_events em = register_reset_loop [EVENT_RESET_SOFT, EVENT_RESET_HARD] em"

text \<open>The event a request is broadcast as.\<close>

definition reset_request_event :: "int \<Rightarrow> nat option" where
  "reset_request_event reset_type =
     (if reset_type = int (reset_type_code RESET_TYPE_SOFT) then Some EVENT_RESET_SOFT
      else if reset_type = int (reset_type_code RESET_TYPE_HARD) then Some EVENT_RESET_HARD else None)"

definition reset_handler_request_reset ::
    "(nat \<Rightarrow> event_data \<Rightarrow> nat \<Rightarrow> event_manager \<times> 's \<Rightarrow> event_manager \<times> 's) \<Rightarrow> int \<Rightarrow> event_manager \<times> 's \<Rightarrow>
     result \<times> event_manager \<times> 's" where
  "reset_handler_request_reset call reset_type s =
     (case reset_request_event reset_type of
        None \<Rightarrow> (RESULT_INVALID_PARAM, s)
      | Some ev \<Rightarrow> event_manager_broadcast call ev (Some ''reset_handler_request_reset'') None 0 s)"

subsection \<open>The reset\<close>

definition u32_of_int :: "int \<Rightarrow> nat" where "u32_of_int i = nat (i mod 2 ^ 32)"

text \<open>Everything before the call that resets the chip: the record, the queues, the pause.\<close>

definition reset_utc :: "('u, 'w) reset_env \<Rightarrow> 'w \<Rightarrow> nat" where
  "reset_utc E w =
     (let (utc_rtc, local_rtc) = re_rtc E w
      in case time_utils_get_time TIME_TYPE_UTC_UNIX utc_rtc local_rtc of (_, Some (_, u)) \<Rightarrow> u32_of_int u | _ \<Rightarrow> 0)"

definition persist_before_reset :: "('u, 'w) reset_env \<Rightarrow> reset_type \<Rightarrow> nat \<Rightarrow> string \<Rightarrow> ('u, 'w) gateway \<Rightarrow> ('u, 'w) gateway" where
  "persist_before_reset E kind stabilize_ms source g =
     (let (_, pb, w) = pre_boot_handler_save_before_soc_reset (os_flash (re_os E)) kind (reset_utc E (gw_world g)) (Some source) (gw_pre_boot g) (gw_world g);
          (_, g) = module_manager_persist_reboot_data (re_os E) (g\<lparr>gw_pre_boot := pb, gw_world := w\<rparr>)
      in g\<lparr>gw_world := os_sleep (re_os E) stabilize_ms (gw_world g)\<rparr>)"

definition persist_and_reset :: "('u, 'w) reset_env \<Rightarrow> reset_type \<Rightarrow> nat \<Rightarrow> string \<Rightarrow> ('u, 'w) gateway \<Rightarrow> ('u, 'w) gateway" where
  "persist_and_reset E kind stabilize_ms source g =
     (let g = persist_before_reset E kind stabilize_ms source g in g\<lparr>gw_world := re_system_reset E (gw_world g)\<rparr>)"

partial_function (option) fail_loop :: "('u, 'w) reset_env \<Rightarrow> nat \<Rightarrow> 'w \<Rightarrow> 'w option" where
  "fail_loop E fail_start w =
     (case os_ticks (re_os E) w of (now, w) \<Rightarrow>
        if utils_monotonic_ms_elapsed now fail_start \<ge> RESET_SOC_FAIL_TIMEOUT_MS then Some w
        else fail_loop E fail_start (os_sleep (re_os E) RESET_SOC_FAIL_POLL_MS w))"

definition reset_handler_process_deferred_reset ::
    "('u, 'w) reset_env \<Rightarrow> deferred_reset \<times> ('u, 'w) gateway \<Rightarrow> (bool \<times> deferred_reset \<times> ('u, 'w) gateway) option" where
  "reset_handler_process_deferred_reset E s =
     (let (d, g) = s in
      if \<not> dr_pending d then Some (False, s)
      else
        let (now, w) = os_ticks (re_os E) (gw_world g); g = g\<lparr>gw_world := w\<rparr> in
        if utils_monotonic_ms_elapsed now (dr_scheduled_start_ms d) < RESET_DEFER_DELAY_MS then Some (False, d, g)
        else if dr_type d \<noteq> reset_type_code RESET_TYPE_SOFT \<and> dr_type d \<noteq> reset_type_code RESET_TYPE_HARD then
          Some (False, d\<lparr>dr_pending := False\<rparr>, g)
        else
          let kind = reset_type_of (dr_type d);
              stabilize_ms = (if kind = RESET_TYPE_SOFT then RESET_SOFT_STABILIZE_MS else RESET_HARD_STABILIZE_MS);
              d = d\<lparr>dr_pending := False, dr_executing := True\<rparr>;
              g = persist_and_reset E kind stabilize_ms (deferred_source d) g;
              (now, w) = os_ticks (re_os E) (gw_world g)
          in map_option (\<lambda>w. (True, d\<lparr>dr_executing := False\<rparr>, g\<lparr>gw_world := w\<rparr>)) (fail_loop E (utils_monotonic_ms_now now) w))"

subsection \<open>After the boot\<close>

record post_boot =
  po_prior :: last_sw_reset_info
  po_soc_reset_reason :: nat
  po_init_done :: bool

definition post_boot_boot :: post_boot where
  "post_boot_boot = \<lparr>po_prior = prior_empty, po_soc_reset_reason = 0, po_init_done = False\<rparr>"

definition soc_reason_is_power_key :: "('u, 'w) reset_env \<Rightarrow> nat \<Rightarrow> bool" where
  "soc_reason_is_power_key E code =
     (if code = char_code CHR ''N'' \<or> code = 2 then True
      else case re_reason_string E code of None \<Rightarrow> False | Some s \<Rightarrow> s = ''POWER-KEY'' \<or> s = ''NORMAL'')"

definition post_boot_handler_init ::
    "('u, 'w) reset_env \<Rightarrow> post_boot \<times> ('u, 'w) gateway \<Rightarrow> result \<times> post_boot \<times> ('u, 'w) gateway" where
  "post_boot_handler_init E s =
     (let (b, g) = s in
      if po_init_done b then (RESULT_SUCCESS, s)
      else
        let (r, prior, pb, w) = pre_boot_handler_load_prior_reset (os_flash (re_os E)) True (gw_pre_boot g) (gw_world g)
        in (RESULT_SUCCESS,
            \<lparr>po_prior = (case prior of None \<Rightarrow> prior_empty | Some p \<Rightarrow> p), po_soc_reset_reason = re_reset_reason E (gw_world g), po_init_done = True\<rparr>,
            g\<lparr>gw_pre_boot := pb, gw_world := w\<rparr>))"

definition post_boot_handler_get_prior_reset_snapshot :: "post_boot \<Rightarrow> last_sw_reset_info" where
  "post_boot_handler_get_prior_reset_snapshot b = po_prior b"

text \<open>The answer, and what the pointers that are given receive: type, time, module name, number of resets.\<close>

definition post_boot_handler_load_reset_state :: "bool \<Rightarrow> post_boot \<Rightarrow> bool \<times> (reset_type \<times> nat \<times> string \<times> nat) option" where
  "post_boot_handler_load_reset_state reset_type_ok b =
     (if \<not> reset_type_ok then (False, None)
      else (lr_valid (po_prior b),
        Some (lr_reset_type (po_prior b), lr_reset_time (po_prior b), take 32 (c_str (lr_module_name (po_prior b))), lr_total_resets (po_prior b))))"

definition post_boot_handler_get_soc_reset_reason :: "post_boot \<Rightarrow> nat" where
  "post_boot_handler_get_soc_reset_reason b = po_soc_reset_reason b"

definition post_boot_handler_get_soc_reset_reason_string :: "('u, 'w) reset_env \<Rightarrow> post_boot \<Rightarrow> string option" where
  "post_boot_handler_get_soc_reset_reason_string E b = re_reason_string E (po_soc_reset_reason b)"

definition post_boot_handler_boot_is_power_on_reset :: "('u, 'w) reset_env \<Rightarrow> post_boot \<Rightarrow> bool" where
  "post_boot_handler_boot_is_power_on_reset E b = soc_reason_is_power_key E (po_soc_reset_reason b)"

definition post_boot_handler_prior_reset_was_planned_sw :: "post_boot \<Rightarrow> bool" where
  "post_boot_handler_prior_reset_was_planned_sw b \<longleftrightarrow>
     lr_valid (po_prior b) \<and> (lr_reset_type (po_prior b) = RESET_TYPE_SOFT \<or> lr_reset_type (po_prior b) = RESET_TYPE_HARD)"

definition post_boot_handler_boot_is_unplanned_sw_reset :: "('u, 'w) reset_env \<Rightarrow> post_boot \<Rightarrow> bool" where
  "post_boot_handler_boot_is_unplanned_sw_reset E b \<longleftrightarrow>
     \<not> post_boot_handler_prior_reset_was_planned_sw b \<and> \<not> post_boot_handler_boot_is_power_on_reset E b"

definition reset_handler_init :: "post_boot \<Rightarrow> event_manager \<Rightarrow> result \<times> last_sw_reset_info \<times> event_manager" where
  "reset_handler_init b em = (let (r, em) = register_reset_events em in (r, post_boot_handler_get_prior_reset_snapshot b, em))"

subsection \<open>What saving the queues leaves alone\<close>

lemma save_elements_frame:
  assumes L: "flash_laws F C H" and R: "flash_reliable F C H"
  shows "H w h = Some (f, length c, False) \<Longrightarrow> C w f = Some c \<Longrightarrow> save_elements F A cfg h buf i n w = (ok, w') \<Longrightarrow> p \<noteq> f \<Longrightarrow> C w' p = C w p"
proof (induction n arbitrary: i w c)
  case (Suc n)
  let ?d = "e_bytes A (buf ! i)"
  obtain w1 where w1: "f_write F h ?d w = (True, length ?d, w1)" "C w1 = (C w)(f \<mapsto> c @ ?d)" "H w1 h = Some (f, length (c @ ?d), False)"
    using write_end [OF L R Suc.prems(1,2)] by blast
  have "C w1 p = C w p" using w1(2) Suc.prems(4) by simp
  then show ?case using Suc.IH [OF w1(3), of "(i + 1) mod qc_capacity cfg"] Suc.prems(3,4) w1 by (auto split: if_splits)
qed simp

lemma persist_save_frame:
  assumes L: "flash_laws F C H" and R: "flash_reliable F C H" and s: "queue_persist_save F A cfg q w = (r, w')" and p: "p \<noteq> snapshot_file cfg"
  shows "C w' p = C w p"
proof (cases "qc_persist_on_reboot cfg")
  case False
  then show ?thesis using s by (simp add: queue_persist_save_def)
next
  case True
  let ?f = "snapshot_file cfg"
  obtain h w1 where o: "f_open F ?f ''wb'' w = (Some h, w1)" using reliable_open [OF R, of "''wb''" w ?f] by auto
  have c1: "C w1 = (C w)(?f \<mapsto> [])" "H w1 h = Some (?f, length ([] :: bytes), False)" using open_wb(2) [OF L o] by auto
  obtain w2 where w2: "write_u32 F h (q_count q) w1 = (True, w2)" "C w2 = (C w1)(?f \<mapsto> [] @ le32_bytes (q_count q))"
    "H w2 h = Some (?f, length ([] @ le32_bytes (q_count q)), False)" using write_u32_end [OF L R c1(2)] c1(1) by fastforce
  obtain w3 where w3: "write_u32 F h (q_head q) w2 = (True, w3)" "C w3 = (C w2)(?f \<mapsto> ([] @ le32_bytes (q_count q)) @ le32_bytes (q_head q))"
    "H w3 h = Some (?f, length (([] @ le32_bytes (q_count q)) @ le32_bytes (q_head q)), False)"
    using write_u32_end [OF L R w2(3)] w2(2) by (metis fun_upd_same)
  obtain w4 where w4: "write_u32 F h (q_tail q) w3 = (True, w4)"
    "C w4 = (C w3)(?f \<mapsto> (([] @ le32_bytes (q_count q)) @ le32_bytes (q_head q)) @ le32_bytes (q_tail q))"
    "H w4 h = Some (?f, length ((([] @ le32_bytes (q_count q)) @ le32_bytes (q_head q)) @ le32_bytes (q_tail q)), False)"
    using write_u32_end [OF L R w3(3)] w3(2) by (metis fun_upd_same)
  obtain ok w5 where w5: "save_elements F A cfg h (case q_buffer q of None \<Rightarrow> [] | Some b \<Rightarrow> b) (q_head q) (q_count q) w4 = (ok, w5)" by fastforce
  have "C w5 p = C w4 p" using save_elements_frame [OF L R w4(3) _ w5 p] w4(2) by simp
  then have c5: "C w5 p = C w p" using w4(2) w3(2) w2(2) c1(1) p by simp
  obtain b w6 where w6: "f_close F h w5 = (b, w6)" by fastforce
  have "w' = w6" using s True o w2(1) w3(1) w4(1) w5 w6 by (auto simp: queue_persist_save_def split: if_splits)
  then show ?thesis using c5 close_spec [OF L w6] by simp
qed

text \<open>The record of a reset stays on flash while the queues are saved; the offset of the TCP queue is another part of it.\<close>

definition reset_recorded :: "'w contents \<Rightarrow> pre_boot_on_disk \<Rightarrow> ('u, 'w) gateway \<Rightarrow> bool" where
  "reset_recorded C r g \<longleftrightarrow> s_cache_have (gw_pre_boot g) \<and> wf_disk (s_disk (gw_pre_boot g)) \<and> disk_header_ok (s_disk (gw_pre_boot g)) \<and>
     (\<exists>off v. s_disk (gw_pre_boot g) = r\<lparr>pb_offset := off, pb_offset_valid := v\<rparr>) \<and>
     C (gw_world g) PRE_BOOT_INFO_FILE_PATH = Some (disk_bytes (s_disk (gw_pre_boot g)))"

lemma snapshot_not_preboot: "snapshot_file cfg \<noteq> PRE_BOOT_INFO_FILE_PATH"
  by (simp add: snapshot_file_def queue_make_filename_def PRE_BOOT_INFO_FILE_PATH_def)

text \<open>File offsets are 32 bits wide.\<close>

definition offset_ok :: "(nat \<times> 'e queue) option \<Rightarrow> bool" where
  "offset_ok hq \<longleftrightarrow> (case hq of None \<Rightarrow> True | Some (h, q) \<Rightarrow> q_file_read_offset q < 2 ^ 32)"

definition offsets_ok :: "'u module option \<Rightarrow> bool" where
  "offsets_ok m \<longleftrightarrow> (case m of None \<Rightarrow> True | Some m \<Rightarrow> offset_ok (mc_msg_q (m_config m)) \<and> offset_ok (mc_urc_q (m_config m)))"

lemma store_keeps_record:
  assumes L: "flash_laws F C H" and R: "flash_reliable F C H" and g: "reset_recorded C r g"
    and d: "wf_disk d" "disk_header_ok d" "\<exists>off v. d = (s_disk (gw_pre_boot g))\<lparr>pb_offset := off, pb_offset_valid := v\<rparr>"
    and st: "disk_store F d (gw_pre_boot g) (gw_world g) = (x, pb, w)"
  shows "reset_recorded C r (g\<lparr>gw_pre_boot := pb, gw_world := w\<rparr>)"
proof -
  have "pb = cache_set d (gw_pre_boot g)" "C w = (C (gw_world g))(PRE_BOOT_INFO_FILE_PATH \<mapsto> disk_bytes d)"
    using reliable_store [OF L R d(1), of "gw_pre_boot g" "gw_world g"] st by auto
  moreover obtain off v where d': "d = (s_disk (gw_pre_boot g))\<lparr>pb_offset := off, pb_offset_valid := v\<rparr>" using d(3) by blast
  moreover obtain off' v' where "s_disk (gw_pre_boot g) = r\<lparr>pb_offset := off', pb_offset_valid := v'\<rparr>"
    using g unfolding reset_recorded_def by blast
  then have "d = r\<lparr>pb_offset := off, pb_offset_valid := v\<rparr>" using d' by simp
  ultimately show ?thesis using d(1,2) unfolding reset_recorded_def
    by (intro conjI exI [of _ off] exI [of _ v]) (auto simp: cache_set_def)
qed

lemma persist_queue_keeps_record:
  assumes L: "flash_laws (os_flash S) C H" and R: "flash_reliable (os_flash S) C H" and g: "reset_recorded C r g" and q: "offset_ok hq"
  shows "reset_recorded C r (snd (module_persist_queue_if_needed S P hq cfg g))"
proof (cases hq)
  case None
  then show ?thesis using g by (simp add: module_persist_queue_if_needed_def)
next
  case (Some hq')
  obtain h qu where hq: "hq = Some (h, qu)" using Some by (cases hq') auto
  let ?F = "os_flash S"
  show ?thesis
  proof (cases "qc_persist_on_reboot cfg")
    case False
    then show ?thesis using g by (simp add: module_persist_queue_if_needed_def hq)
  next
    case True
    obtain x w1 where s: "queue_persist_save ?F P cfg qu (gw_world g) = (x, w1)" by fastforce
    let ?g = "g\<lparr>gw_world := w1\<rparr>"
    have "C w1 PRE_BOOT_INFO_FILE_PATH = C (gw_world g) PRE_BOOT_INFO_FILE_PATH"
      using persist_save_frame [OF L R s] snapshot_not_preboot [of cfg] by metis
    then have g1: "reset_recorded C r ?g" using g by (simp add: reset_recorded_def)
    obtain y pb w2 where o: "queue_tcp_persist_file_offset ?F cfg qu (gw_pre_boot g) w1 = (y, pb, w2)" by (metis prod_cases3)
    have wf: "wf_disk (s_disk (gw_pre_boot g))" "disk_header_ok (s_disk (gw_pre_boot g))" "s_cache_have (gw_pre_boot g)"
      using g by (simp_all add: reset_recorded_def)
    have "reset_recorded C r (?g\<lparr>gw_pre_boot := pb, gw_world := w2\<rparr>)"
    proof (cases "queue_is_tcp_send_q cfg")
      case False
      then have "pb = gw_pre_boot g" "w2 = w1" using o by (simp_all add: queue_tcp_persist_file_offset_def)
      then show ?thesis using g1 by (simp add: reset_recorded_def)
    next
      case True
      define d where "d = (if q_file_size qu = 0 \<or> q_file_read_offset qu \<ge> q_file_size qu then disk_clear_tcp_offset (s_disk (gw_pre_boot g))
          else (s_disk (gw_pre_boot g))\<lparr>pb_offset := q_file_read_offset qu, pb_offset_valid := 1\<rparr>)"
      have "disk_store ?F d (gw_pre_boot ?g) (gw_world ?g) = (y, pb, w2)"
        using o True wf(3) by (auto simp: d_def queue_tcp_persist_file_offset_def pre_boot_handler_clear_tcp_send_queue_offset_def
            pre_boot_handler_save_tcp_send_queue_offset_def staged_from_cache_def split: if_splits)
      moreover have "wf_disk d" "disk_header_ok d" "\<exists>off v. d = (s_disk (gw_pre_boot ?g))\<lparr>pb_offset := off, pb_offset_valid := v\<rparr>"
        using wf q by (auto simp: d_def hq offset_ok_def wf_disk_def disk_header_ok_def disk_clear_tcp_offset_def)
      ultimately show ?thesis using store_keeps_record [OF L R g1] by blast
    qed
    then show ?thesis
      using True g1 s o by (auto simp: module_persist_queue_if_needed_def hq queue_manager_persist_def Let_def)
  qed
qed

lemma persist_keeps_record:
  assumes L: "flash_laws (os_flash S) C H" and R: "flash_reliable (os_flash S) C H"
  shows "\<forall>m \<in> set ms. offsets_ok m \<Longrightarrow> reset_recorded C r g \<Longrightarrow> reset_recorded C r (snd (fold (persist_module S) ms (x, g)))"
proof (induction ms arbitrary: x g)
  case (Cons m ms)
  have "reset_recorded C r (snd (persist_module S m (x, g)))"
  proof (cases m)
    case None
    then show ?thesis using Cons.prems by (simp add: persist_module_def)
  next
    case (Some m')
    then have o: "offset_ok (mc_msg_q (m_config m'))" "offset_ok (mc_urc_q (m_config m'))" using Cons.prems(1) by (auto simp: offsets_ok_def)
    note k = persist_queue_keeps_record [OF L R persist_queue_keeps_record [OF L R Cons.prems(2) o(1)] o(2)]
    show ?thesis using k Some Cons.prems(2) by (simp add: persist_module_def split_beta Let_def)
  qed
  then show ?case using Cons.IH Cons.prems(1) by (metis fold_simps(2) list.set_intros(2) prod.collapse)
qed simp

subsection \<open>A planned reset and the next boot\<close>

lemma reset_utc_bound: "reset_utc E w < 2 ^ 32"
proof -
  have "u32_of_int i < 2 ^ 32" for i by (simp add: u32_of_int_def nat_less_iff)
  then show ?thesis unfolding reset_utc_def by (simp add: split_beta split: option.split)
qed

text \<open>C26: A planned reset is reported by the next boot. When the handler has done everything but the reset itself, on flash
  that does not fail, the record of the reset is still there after the queues of all modules were saved: whatever happens
  to the chip then, the next boot reports the type, the time and the source of the reset as a planned one, and the boot
  after that reports none.\<close>

theorem planned_reset_reported:
  assumes L: "flash_laws (os_flash (re_os E)) C H" and R: "flash_reliable (os_flash (re_os E)) C H"
    and "pb_inv (gw_pre_boot g)" and "\<forall>m \<in> set (gw_modules g). offsets_ok m" and "\<forall>n w. C (os_sleep (re_os E) n w) = C w"
    and "t = RESET_TYPE_SOFT \<or> t = RESET_TYPE_HARD" and "source \<noteq> []" and "NUL \<notin> set source"
    and "gw_pre_boot g1 = pre_boot_boot"
    and "C (gw_world g1) PRE_BOOT_INFO_FILE_PATH = C (gw_world (persist_before_reset E t ms source g)) PRE_BOOT_INFO_FILE_PATH"
  shows "\<exists>b g2 total. post_boot_handler_init E (post_boot_boot, g1) = (RESULT_SUCCESS, b, g2) \<and>
    post_boot_handler_load_reset_state True b = (True, Some (t, reset_utc E (gw_world g), take 32 source, total)) \<and>
    post_boot_handler_prior_reset_was_planned_sw b \<and> \<not> post_boot_handler_boot_is_unplanned_sw_reset E b \<and>
    (\<exists>b2 g3. post_boot_handler_init E (post_boot_boot, g2\<lparr>gw_pre_boot := pre_boot_boot\<rparr>) = (RESULT_SUCCESS, b2, g3) \<and>
      fst (post_boot_handler_load_reset_state True b2) = False)"
proof -
  let ?F = "os_flash (re_os E)" and ?u = "reset_utc E (gw_world g)"
  let ?r = "stage_reset t ?u (Some source) (gw_pre_boot g)"
  have wf: "wf_disk ?r" "disk_header_ok ?r"
    using stage_reset_wf [OF assms(3) reset_utc_bound, of "Some source"] assms(8) by simp_all
  obtain w1 where s: "disk_store ?F ?r (gw_pre_boot g) (gw_world g) = (RESULT_SUCCESS, cache_set ?r (gw_pre_boot g), w1)"
    and c1: "C w1 = (C (gw_world g))(PRE_BOOT_INFO_FILE_PATH \<mapsto> disk_bytes ?r)"
    using reliable_store [OF L R wf(1)] by blast
  have sv: "pre_boot_handler_save_before_soc_reset ?F t ?u (Some source) (gw_pre_boot g) (gw_world g) =
      (RESULT_SUCCESS, cache_set ?r (gw_pre_boot g), w1)"
    using s assms(6) by (auto simp: pre_boot_handler_save_before_soc_reset_def)
  let ?g = "g\<lparr>gw_pre_boot := cache_set ?r (gw_pre_boot g), gw_world := w1\<rparr>"
  have "reset_recorded C ?r ?g"
    unfolding reset_recorded_def using wf c1 by (auto simp: cache_set_def intro!: exI [of _ "pb_offset ?r"] exI [of _ "pb_offset_valid ?r"])
  then have rec: "reset_recorded C ?r (snd (module_manager_persist_reboot_data (re_os E) ?g))"
    unfolding module_manager_persist_reboot_data_def using assms(4) by (intro persist_keeps_record [OF L R]) simp_all
  have "gw_world (persist_before_reset E t ms source g) =
      os_sleep (re_os E) ms (gw_world (snd (module_manager_persist_reboot_data (re_os E) ?g)))"
    by (simp add: persist_before_reset_def sv split_beta Let_def)
  with rec obtain off v where d: "C (gw_world g1) PRE_BOOT_INFO_FILE_PATH = Some (disk_bytes (?r\<lparr>pb_offset := off, pb_offset_valid := v\<rparr>))"
    and wfd: "wf_disk (?r\<lparr>pb_offset := off, pb_offset_valid := v\<rparr>)" "disk_header_ok (?r\<lparr>pb_offset := off, pb_offset_valid := v\<rparr>)"
    using assms(5,10) unfolding reset_recorded_def by fastforce
  let ?d = "?r\<lparr>pb_offset := off, pb_offset_valid := v\<rparr>" and ?p = "prior_from_disk ?r"
  have code: "pb_reset_type ?d \<noteq> 0" using assms(6) by (auto simp: stage_reset_def Let_def)
  have p: "prior_from_disk ?d = ?p" by (simp add: prior_from_disk_def disk_header_ok_def)
  let ?c = "disk_clear_reset_slot ?d"
  obtain w2 where b1: "pre_boot_handler_load_prior_reset ?F True pre_boot_boot (gw_world g1) = (RESULT_SUCCESS, Some ?p, cache_set ?c pre_boot_boot, w2)"
    and c2: "C w2 PRE_BOOT_INFO_FILE_PATH = Some (disk_bytes ?c)"
    using boot_load [OF L R wfd d] code p by (auto simp: Let_def)
  have wfc: "wf_disk ?c" "disk_header_ok ?c" using disk_clear_reset_slot_wf [OF wfd] by simp_all
  have "prior_from_disk ?c = prior_empty" "pb_reset_type ?c = 0" by (simp_all add: prior_from_disk_def disk_clear_reset_slot_def)
  then obtain w3 where b2: "pre_boot_handler_load_prior_reset ?F True pre_boot_boot w2 = (RESULT_SUCCESS, Some prior_empty, cache_set ?c pre_boot_boot, w3)"
    using boot_load [OF L R wfc c2] by (auto simp: Let_def)
  note q = prior_of_staged [OF assms(3,6) reset_utc_bound [of E "gw_world g"] assms(7,8)]
  have "\<not> lr_valid prior_empty" by (simp add: prior_empty_def)
  then show ?thesis
    using b1 b2 assms(6,9) q by (simp add: post_boot_handler_init_def post_boot_boot_def post_boot_handler_load_reset_state_def
        post_boot_handler_prior_reset_was_planned_sw_def post_boot_handler_boot_is_unplanned_sw_reset_def)
qed

text \<open>A chip whose world is its clock and its flash; the reset call fails.\<close>

definition ram_reset :: "(unit, nat \<times> ram_world) reset_env" where
  "ram_reset = \<lparr>re_os = \<lparr>os_flash = flash_at snd (\<lambda>r w. (fst w, r)) ram_flash, os_msg_abi = msg_abi,
       os_urc_abi = \<lparr>e_bytes = (\<lambda>_. []), e_of_bytes = (\<lambda>_. ()), e_message = (\<lambda>_. sample_msg), e_of_message = (\<lambda>_. ())\<rparr>,
       os_ticks = (\<lambda>w. (u32 (fst w), w)), os_sleep = (\<lambda>n w. (fst w + n, snd w)), os_call = (\<lambda>fn g. (RESULT_SUCCESS, g))\<rparr>,
     re_rtc = (\<lambda>w. (None, None)), re_system_reset = id, re_reset_reason = (\<lambda>w. 3), re_reason_string = (\<lambda>n. None)\<rparr>"

definition ram_gateway :: "nat \<Rightarrow> (unit, nat \<times> ram_world) gateway" where
  "ram_gateway n = \<lparr>gw_modules = g_modules plain_sizes, gw_events = snd (event_manager_init em_boot),
     gw_pre_boot = pre_boot_boot, gw_queues = replicate 16 None, gw_world = (n, empty_ram)\<rparr>"

lemma ram_reset_laws:
  "flash_laws (os_flash (re_os ram_reset)) (\<lambda>w. rw_files (snd w)) (\<lambda>w. rw_handles (snd w))"
  "flash_reliable (os_flash (re_os ram_reset)) (\<lambda>w. rw_files (snd w)) (\<lambda>w. rw_handles (snd w))"
  unfolding ram_reset_def by (simp_all add: flash_at_laws [OF _ ram_laws] flash_at_reliable [OF _ ram_reliable])

lemma plain_offsets: "m \<in> set (g_modules plain_sizes) \<Longrightarrow> offsets_ok m"
  by (auto simp: g_modules_def module_table offsets_ok_def offset_ok_def)

theorem planned_reset_reported_witness:
  "\<exists>b g2. post_boot_handler_init ram_reset
      (post_boot_boot, (ram_gateway 0)\<lparr>gw_world := gw_world (persist_before_reset ram_reset RESET_TYPE_HARD 500 ''OTA'' (ram_gateway 7))\<rparr>) = (RESULT_SUCCESS, b, g2) \<and>
    post_boot_handler_prior_reset_was_planned_sw b"
proof -
  let ?g1 = "(ram_gateway 0)\<lparr>gw_world := gw_world (persist_before_reset ram_reset RESET_TYPE_HARD 500 ''OTA'' (ram_gateway 7))\<rparr>"
  have "pb_inv (gw_pre_boot (ram_gateway 7))" "\<forall>m \<in> set (gw_modules (ram_gateway 7)). offsets_ok m" "gw_pre_boot ?g1 = pre_boot_boot"
    by (simp_all add: ram_gateway_def plain_offsets)
  moreover have "\<forall>n w. rw_files (snd (os_sleep (re_os ram_reset) n w)) = rw_files (snd w)" by (simp add: ram_reset_def)
  ultimately show ?thesis
    using planned_reset_reported [OF ram_reset_laws, of "ram_gateway 7" RESET_TYPE_HARD "''OTA''" ?g1 500] by auto
qed

subsection \<open>One request, one reset\<close>

definition reset_clock :: "('u, 'w) os \<Rightarrow> ('w \<Rightarrow> nat) \<Rightarrow> bool" where
  "reset_clock S time \<longleftrightarrow> (\<forall>w. fst (os_ticks S w) = u32 (time w) \<and> time (snd (os_ticks S w)) = time w) \<and>
     (\<forall>w. time w < time (os_sleep S RESET_SOC_FAIL_POLL_MS w) \<and> time (os_sleep S RESET_SOC_FAIL_POLL_MS w) < time w + 2 ^ 31)"

lemma monotonic_elapsed_ideal: "t0 \<le> t \<Longrightarrow> t < t0 + 4294967296 \<Longrightarrow> utils_monotonic_ms_elapsed (u32 t) (u32 t0) = t - t0"
  using elapsed_ms_ideal [of t0 t] by (simp add: utils_monotonic_ms_elapsed_def utils_monotonic_ms_now_def utils_elapsed_ms_since_def)

lemma fail_loop_returns:
  assumes clk: "reset_clock (re_os E) time"
  shows "t0 \<le> time w \<Longrightarrow> time w < t0 + RESET_SOC_FAIL_TIMEOUT_MS + 2 ^ 31 \<Longrightarrow> \<exists>w'. fail_loop E (u32 t0) w = Some w'"
proof (induction "t0 + RESET_SOC_FAIL_TIMEOUT_MS - time w" arbitrary: w rule: less_induct)
  case less
  obtain now w1 where t: "os_ticks (re_os E) w = (now, w1)" by fastforce
  have w1: "now = u32 (time w)" "time w1 = time w" using clk t unfolding reset_clock_def by (metis fst_conv snd_conv)+
  have e: "utils_monotonic_ms_elapsed now (u32 t0) = time w - t0" using less.prems by (simp add: w1(1) monotonic_elapsed_ideal)
  let ?w2 = "os_sleep (re_os E) RESET_SOC_FAIL_POLL_MS w1"
  have w2: "time w1 < time ?w2" "time ?w2 < time w1 + 2 ^ 31" using clk unfolding reset_clock_def by blast+
  show ?case
  proof (cases "time w - t0 \<ge> RESET_SOC_FAIL_TIMEOUT_MS")
    case True
    then show ?thesis by (subst fail_loop.simps) (simp add: t e)
  next
    case False
    then have "\<exists>w'. fail_loop E (u32 t0) ?w2 = Some w'" using less.hyps [of ?w2] less.prems w1 w2 by simp
    then show ?thesis using False by (subst fail_loop.simps) (simp add: t e)
  qed
qed

lemma later_requests_ignored: "dr_pending d \<Longrightarrow> fold (\<lambda>(n, e). on_reset_event n e) es d = d"
  by (induction es) (auto simp: on_reset_event_def schedule_reset_def split: option.split)

text \<open>C27: One request, one reset. The first request of a type is the one carried out, whatever is asked for afterwards: not
  before 200 ms are over, then with the pause of its type and in the name of the module that asked. If the chip does not
  reset, the handler gives up after 20 s, and is ready for the next request, provided that the clock runs.\<close>

theorem reset_request_runs_once:
  assumes "\<not> dr_pending d0" and "\<not> dr_executing d0" and "length (dr_source_name d0) = 33"
    and "ed_type e = (if t = RESET_TYPE_SOFT then EVENT_RESET_SOFT else EVENT_RESET_HARD)" and "t = RESET_TYPE_SOFT \<or> t = RESET_TYPE_HARD"
    and "ed_source_module e \<noteq> []" and "length (ed_source_module e) \<le> 32" and "NUL \<notin> set (ed_source_module e)"
    and "reset_clock (re_os E) time" and "t0 \<le> time (gw_world g)" and "time (gw_world g) < t0 + 2 ^ 32"
  shows "let d = fold (\<lambda>(n, e). on_reset_event n e) later (on_reset_event (u32 t0) (Some e) d0);
      g1 = g\<lparr>gw_world := snd (os_ticks (re_os E) (gw_world g))\<rparr>
    in if time (gw_world g) < t0 + 200 then reset_handler_process_deferred_reset E (d, g) = Some (False, d, g1)
       else \<exists>w. reset_handler_process_deferred_reset E (d, g) =
         Some (True, d\<lparr>dr_pending := False, dr_executing := False\<rparr>,
           (persist_and_reset E t (if t = RESET_TYPE_SOFT then 500 else 10000) (ed_source_module e) g1)\<lparr>gw_world := w\<rparr>)"
proof -
  define d where "d = fold (\<lambda>(n, e). on_reset_event n e) later (on_reset_event (u32 t0) (Some e) d0)"
  have l: "length (dr_source_name d0) = MODULE_NAME_SIZE" using assms(3) by simp
  obtain b where b: "snd (utils_strncpy_safe (Some (dr_source_name d0)) (Some (ed_source_module e)) 33) = Some b" "c_str b = ed_source_module e"
    using strncpy_33 [OF l assms(8)] assms(7) by auto
  have first: "on_reset_event (u32 t0) (Some e) d0 =
      d0\<lparr>dr_pending := True, dr_type := reset_type_code t, dr_scheduled_start_ms := u32 t0, dr_source_name := b\<rparr>"
    using assms(1,2,4,5,6) b(1) by (cases t) (auto simp: on_reset_event_def schedule_reset_def EVENT_RESET_SOFT_def EVENT_RESET_HARD_def
        utils_monotonic_ms_now_def Let_def)
  then have d: "d = d0\<lparr>dr_pending := True, dr_type := reset_type_code t, dr_scheduled_start_ms := u32 t0, dr_source_name := b\<rparr>"
    unfolding d_def using later_requests_ignored by simp
  have src: "deferred_source d' = ed_source_module e" if "dr_source_name d' = b" for d'
    using b(2) assms(6) that by (simp add: deferred_source_def)
  obtain now w1 where t: "os_ticks (re_os E) (gw_world g) = (now, w1)" by fastforce
  have "now = u32 (time (gw_world g))" using assms(9) t unfolding reset_clock_def by (metis fst_conv)
  then have e: "utils_monotonic_ms_elapsed now (u32 t0) = time (gw_world g) - t0" using assms(10,11) by (simp add: monotonic_elapsed_ideal)
  have code: "reset_type_code t = reset_type_code RESET_TYPE_SOFT \<or> reset_type_code t = reset_type_code RESET_TYPE_HARD"
    using assms(5) by (cases t) simp_all
  let ?g1 = "g\<lparr>gw_world := w1\<rparr>"
  let ?g2 = "persist_and_reset E t (if t = RESET_TYPE_SOFT then 500 else 10000) (ed_source_module e) ?g1"
  obtain now2 w2 where t2: "os_ticks (re_os E) (gw_world ?g2) = (now2, w2)" by fastforce
  have n2: "now2 = u32 (time (gw_world ?g2))" "time w2 = time (gw_world ?g2)" using assms(9) t2 unfolding reset_clock_def by (metis fst_conv snd_conv)+
  obtain w3 where w3: "fail_loop E now2 w2 = Some w3"
    using fail_loop_returns [OF assms(9), of "time (gw_world ?g2)" w2] n2 by auto
  show ?thesis
    unfolding d_def [symmetric] Let_def
    using code w3 t2 e assms(10)
    by (auto simp: reset_handler_process_deferred_reset_def d t src utils_monotonic_ms_now_def Let_def)
qed

theorem reset_request_runs_once_witness:
  "\<exists>d g w. reset_handler_process_deferred_reset ram_reset
      (fold (\<lambda>(n, e). on_reset_event n e) [(20, Some (\<lparr>ed_type = EVENT_RESET_HARD, ed_source_module = ''TCP'', ed_data = None, ed_data_size = 0\<rparr>))]
        (on_reset_event (u32 4294967200) (Some \<lparr>ed_type = EVENT_RESET_SOFT, ed_source_module = ''OTA'', ed_data = None, ed_data_size = 0\<rparr>) deferred_boot),
       ram_gateway 4294967400) = Some (True, d, g\<lparr>gw_world := w\<rparr>) \<and> \<not> dr_pending d"
proof -
  have "reset_clock (re_os ram_reset) fst" by (simp add: reset_clock_def ram_reset_def)
  from reset_request_runs_once [OF _ _ _ _ _ _ _ _ this, of deferred_boot
      "\<lparr>ed_type = EVENT_RESET_SOFT, ed_source_module = ''OTA'', ed_data = None, ed_data_size = 0\<rparr>" RESET_TYPE_SOFT 4294967200 "ram_gateway 4294967400"
      "[(20, Some (\<lparr>ed_type = EVENT_RESET_HARD, ed_source_module = ''TCP'', ed_data = None, ed_data_size = 0\<rparr>))]"]
  show ?thesis by (fastforce simp: deferred_boot_def ram_gateway_def Let_def)
qed

end
