(* ===== verification/Utils_Geo.thy ===== *)
theory Utils_Geo
  imports C_Double
begin

text \<open>
  The two functions of \<open>common/utils.c\<close> that compute with floats: the distance of two positions and the change of a course.
  The functions of the mathematics library are parameters. The loops that normalise a course do not end when its unit in the
  last place is above 360, so the change is an option.
\<close>

record libm =
  lm_sin :: "float64 \<Rightarrow> float64"
  lm_cos :: "float64 \<Rightarrow> float64"
  lm_atan2 :: "float64 \<Rightarrow> float64 \<Rightarrow> float64"
  lm_sqrt :: "float64 \<Rightarrow> float64"

definition outside :: "int \<Rightarrow> float64 \<Rightarrow> bool" where
  "outside b x \<longleftrightarrow> f32_lt x (f64_of_int (- b)) \<or> f32_lt (f64_of_int b) x"

definition utils_calculate_gps_distance :: "libm \<Rightarrow> float64 \<Rightarrow> float64 \<Rightarrow> float64 \<Rightarrow> float64 \<Rightarrow> float32" where
  "utils_calculate_gps_distance M lat1 lon1 lat2 lon2 =
     (if outside 90 lat1 \<or> outside 90 lat2 \<or> outside 180 lon1 \<or> outside 180 lon2 then FZERO
      else
        let R = f64_of_int 6371000; PI = f64_of_rat (314159265359 / 100000000000);
            dlat = f64_div (f64_mul (f64_sub lat2 lat1) PI) (f64_of_int 180);
            dlon = f64_div (f64_mul (f64_sub lon2 lon1) PI) (f64_of_int 180);
            slat = lm_sin M (f64_div dlat (f64_of_int 2)); slon = lm_sin M (f64_div dlon (f64_of_int 2));
            rad = (\<lambda>x. f64_div (f64_mul x PI) (f64_of_int 180));
            a = f64_add (f64_mul slat slat) (f64_mul (f64_mul (f64_mul (lm_cos M (rad lat1)) (lm_cos M (rad lat2))) slon) slon);
            c = f64_mul (f64_of_int 2) (lm_atan2 M (lm_sqrt M a) (lm_sqrt M (f64_sub (f64_of_int 1) a)))
        in f32_of_double (f64_mul R c))"

partial_function (option) course_up :: "float32 \<Rightarrow> float32 option" where
  "course_up c = (if f32_lt c FZERO then course_up (f_add f32_round c (f32_of_int 360)) else Some c)"

partial_function (option) course_down :: "float32 \<Rightarrow> float32 option" where
  "course_down c = (if f32_le (f32_of_int 360) c then course_down (f32_sub c (f32_of_int 360)) else Some c)"

definition normal_course :: "float32 \<Rightarrow> float32 option" where
  "normal_course c = Option.bind (course_up c) course_down"

fun f_abs :: "float32 \<Rightarrow> float32" where
  "f_abs (FFin s x) = FFin False x"
| "f_abs (FInf s) = FInf False"
| "f_abs FNan = FNan"

definition utils_calculate_angle_change :: "float32 \<Rightarrow> float32 \<Rightarrow> float32 option" where
  "utils_calculate_angle_change course1 course2 =
     Option.bind (normal_course course1) (\<lambda>c1. Option.bind (normal_course course2) (\<lambda>c2.
       let diff = f_abs (f32_sub c2 c1) in Some (if f32_lt (f32_of_int 180) diff then f32_sub (f32_of_int 360) diff else diff)))"

subsection \<open>Courses of a receiver\<close>

text \<open>A course from 0 to 360 degrees: 360 becomes 0.\<close>

definition compass :: "float32 \<Rightarrow> bool" where
  "compass c \<longleftrightarrow> (\<exists>x. c = FFin False x \<and> 0 \<le> x \<and> x \<le> 360)"

lemma f360: "f32_of_int 360 = FFin False 360"
  using f32_of_small_nat [of 360] by simp

lemma normal_compass:
  assumes "compass c"
  shows "\<exists>x. normal_course c = Some (FFin False x) \<and> 0 \<le> x \<and> x < 360 \<and> (c \<noteq> FFin False 360 \<longrightarrow> FFin False x = c)"
proof -
  obtain x where c: "c = FFin False x" "0 \<le> x" "x \<le> 360" using assms by (auto simp: compass_def)
  have u: "course_up c = Some c" using c by (subst course_up.simps) (simp add: signed_def)
  show ?thesis
  proof (cases "x = 360")
    case False
    then have "course_down c = Some c" using c by (subst course_down.simps) (simp add: f360 signed_def)
    then show ?thesis using u c False by (simp add: normal_course_def)
  next
    case True
    have s: "f32_sub c (f32_of_int 360) = FFin False 0" by (simp add: f32_sub_def f360 c True signed_def)
    have z: "course_down (FFin False 0) = Some (FFin False 0)" by (subst course_down.simps) (simp add: f360 signed_def)
    have "course_down c = Some (FFin False 0)" using s z by (subst course_down.simps) (simp add: f360 signed_def c True)
    then show ?thesis using u c True by (simp add: normal_course_def)
  qed
qed

lemma angle_change_defined:
  assumes "compass c1" and "compass c2"
  shows "\<exists>d. utils_calculate_angle_change c1 c2 = Some d"
  using normal_compass [OF assms(1)] normal_compass [OF assms(2)] by (auto simp: utils_calculate_angle_change_def Let_def)

end
