(* ===== verification/Gps_Packet.thy ===== *)
theory Gps_Packet
  imports Gps_Config Utils_Geo
begin

text \<open>
  \<open>module/gps/gps_packet.c\<close> and \<open>gps_triggers.c\<close>: the position packet of 55 bytes, and the decision to send one. The state
  of the module, \<open>g_gps\<close>, is the record \<open>gps_runtime\<close>; what the packet takes from other modules is \<open>packet_view\<close>. The
  pointer to the configuration in \<open>g_gps\<close> is never null and is an argument here.
\<close>

subsection \<open>State\<close>

record gps_packet =
  gp_fix_valid_real :: bool
  gp_fix_valid_calculated :: bool
  gp_latitude_deg :: float64
  gp_longitude_deg :: float64
  gp_altitude_m :: float32
  gp_speed_knots :: float32
  gp_course_deg :: float32
  gp_sats_in_use :: nat
  gp_hdop_x100 :: nat
  gp_utc_time :: nat

definition gps_packet_zero :: gps_packet where
  "gps_packet_zero = \<lparr>gp_fix_valid_real = False, gp_fix_valid_calculated = False, gp_latitude_deg = FZERO, gp_longitude_deg = FZERO,
     gp_altitude_m = FZERO, gp_speed_knots = FZERO, gp_course_deg = FZERO, gp_sats_in_use = 0, gp_hdop_x100 = 0, gp_utc_time = 0\<rparr>"

record gps_runtime =
  gr_task_ref :: "nat option"
  gr_ign_status :: bool
  gr_mot_status :: bool
  gr_charge_status :: bool
  gr_trigger_reason :: int
  gr_current_gps_data :: gps_packet
  gr_last_valid_gps_data :: gps_packet
  gr_should_trigger :: bool
  gr_last_packet_send_uptime_sec :: nat
  gr_packets_dropped :: nat
  gr_gnss_mode_set :: bool
  gr_gnss_nmea_rate_set :: bool
  gr_gnss_nmea_output_configured :: bool
  gr_gnss_nmea_output_started :: bool
  gr_gnss_info_report_set :: bool
  gr_gnss_start_mode_set :: bool
  gr_gnss_agps_set :: bool
  gr_last_agps_open_time :: nat
  gr_last_agps_open_attempt_time :: nat

record radio_snapshot =
  rd_signal_strength :: int
  rd_mcc :: int
  rd_mnc :: int
  rd_lac :: int
  rd_cell_id :: int
  rd_valid :: bool

definition radio_zero :: radio_snapshot where
  "radio_zero = \<lparr>rd_signal_strength = 0, rd_mcc = 0, rd_mnc = 0, rd_lac = 0, rd_cell_id = 0, rd_valid = False\<rparr>"

record packet_view =
  pv_network_state :: int
  pv_tcp_state :: int
  pv_radio :: "radio_snapshot option"
  pv_sim_status :: bool

subsection \<open>The packet\<close>

abbreviation (input) GPS_PACKET_TOTAL_SIZE :: nat where "GPS_PACKET_TOTAL_SIZE \<equiv> 55"
abbreviation (input) GPS_PH_INPUT_WIRE_MV :: int where "GPS_PH_INPUT_WIRE_MV \<equiv> 12000"
abbreviation (input) GPS_PH_EXTERNAL_MV :: int where "GPS_PH_EXTERNAL_MV \<equiv> 12000"
abbreviation (input) GPS_PH_BATTERY_PCT :: int where "GPS_PH_BATTERY_PCT \<equiv> 100"

text \<open>\<open>(v >> 8 * k) & 0xFF\<close>, for a signed \<open>v\<close> as well.\<close>

definition byte_at :: "int \<Rightarrow> nat \<Rightarrow> byte" where
  "byte_at v k = of_int (v div 2 ^ (8 * k))"

definition int_be16 :: "int \<Rightarrow> bytes" where "int_be16 v = [byte_at v 1, byte_at v 0]"
definition int_be32 :: "int \<Rightarrow> bytes" where "int_be32 v = [byte_at v 3, byte_at v 2, byte_at v 1, byte_at v 0]"

definition write_fixed_point_be :: "float32 \<Rightarrow> int \<Rightarrow> bytes" where
  "write_fixed_point_be x scale = int_be16 (c_trunc (f32_mul x (f32_of_int scale)))"

definition lat_lon_fixed :: "float64 \<Rightarrow> int" where
  "lat_lon_fixed x = c_trunc (f64_mul x (f64_of_int 1800000))"

definition on_off :: "bool \<Rightarrow> byte" where "on_off b = (if b then 1 else 0)"

text \<open>The bytes under the check byte, from the length to the reserved ones; \<open>n\<close> is the packet counter.\<close>

definition gps_packet_body :: "packet_view \<Rightarrow> gps_runtime \<Rightarrow> nat \<Rightarrow> gps_packet \<Rightarrow> bytes" where
  "gps_packet_body V g n p =
     (let radio = (case pv_radio V of Some r \<Rightarrow> if rd_valid r then r else radio_zero | None \<Rightarrow> radio_zero);
          coords_valid = (\<not> f32_le (gp_latitude_deg p) FZERO \<or> \<not> f32_le FZERO (gp_latitude_deg p) \<or>
            \<not> f32_le (gp_longitude_deg p) FZERO \<or> \<not> f32_le FZERO (gp_longitude_deg p))
      in [0x00, 0x31] @
         [on_off (gp_fix_valid_calculated p)] @
         int_be32 (int (gp_utc_time p)) @
         int_be32 (lat_lon_fixed (gp_latitude_deg p)) @
         int_be32 (lat_lon_fixed (gp_longitude_deg p)) @
         [byte_at (c_trunc (f32_mul (gp_speed_knots p) GPS_KMH_TO_KNOTS)) 0] @
         write_fixed_point_be (gp_course_deg p) 100 @
         write_fixed_point_be (gp_altitude_m p) 10 @
         [byte_of_nat (if coords_valid then gp_sats_in_use p else 0)] @
         [byte_of_nat (gp_hdop_x100 p div 100)] @
         [byte_at (pv_network_state V) 0] @
         [byte_at (pv_tcp_state V) 0] @
         [on_off (gp_fix_valid_real p)] @
         [byte_at (rd_signal_strength radio) 0] @
         int_be16 (rd_mcc radio) @
         [byte_at (rd_mnc radio) 0] @
         int_be16 (rd_lac radio) @
         int_be32 (rd_cell_id radio) @
         int_be16 GPS_PH_INPUT_WIRE_MV @ [0x00] @
         [on_off (gr_ign_status g), on_off (gr_charge_status g), on_off (pv_sim_status V)] @
         int_be16 GPS_PH_EXTERNAL_MV @
         int_be16 GPS_PH_BATTERY_PCT @
         [lo8 n, hi8 n] @
         [0x00, on_off (gr_mot_status g)])"

definition gps_packet_create ::
    "packet_view \<Rightarrow> gps_runtime \<Rightarrow> bool \<Rightarrow> int \<Rightarrow> gps_packet option \<Rightarrow> nat \<Rightarrow> int \<times> bytes \<times> nat" where
  "gps_packet_create V g buffer_ok buffer_size gps_data packet_counter =
     (case gps_data of
        None \<Rightarrow> (0, [], packet_counter)
      | Some p \<Rightarrow>
          if \<not> buffer_ok \<or> buffer_size < int GPS_PACKET_TOTAL_SIZE then (0, [], packet_counter)
          else
            let n = u32 (packet_counter + 1); body = gps_packet_body V g n p; check = fold (XOR) body 0
            in (int GPS_PACKET_TOTAL_SIZE, [0x57, 0x45, 0x49] @ body @ [check, 0x77, 0x65], n))"

subsection \<open>Triggers\<close>

abbreviation (input) GPS_TRIGGER_IGN_INTERVAL :: int where "GPS_TRIGGER_IGN_INTERVAL \<equiv> 1"
abbreviation (input) GPS_TRIGGER_ANGLE :: int where "GPS_TRIGGER_ANGLE \<equiv> 2"
abbreviation (input) GPS_TRIGGER_DISTANCE :: int where "GPS_TRIGGER_DISTANCE \<equiv> 3"
abbreviation (input) GPS_TRIGGER_SIM_REMOVED :: int where "GPS_TRIGGER_SIM_REMOVED \<equiv> 4"
abbreviation (input) GPS_TRIGGER_CHARGE_CONNECTED :: int where "GPS_TRIGGER_CHARGE_CONNECTED \<equiv> 6"
abbreviation (input) GPS_TRIGGER_CHARGE_DISCONNECTED :: int where "GPS_TRIGGER_CHARGE_DISCONNECTED \<equiv> 7"
abbreviation (input) GPS_TRIGGER_SIM_INSERTED :: int where "GPS_TRIGGER_SIM_INSERTED \<equiv> 8"
abbreviation (input) GPS_TRIGGER_IGN_ON :: int where "GPS_TRIGGER_IGN_ON \<equiv> 9"
abbreviation (input) GPS_TRIGGER_IGN_OFF :: int where "GPS_TRIGGER_IGN_OFF \<equiv> 10"
abbreviation (input) GPS_TRIGGER_GPS_FIX :: int where "GPS_TRIGGER_GPS_FIX \<equiv> 11"

text \<open>\<open>now\<close> is the uptime in seconds.\<close>

definition gps_uptime_elapsed_since_last_send :: "nat \<Rightarrow> gps_runtime \<Rightarrow> nat" where
  "gps_uptime_elapsed_since_last_send now g =
     (let last = gr_last_packet_send_uptime_sec g in
      if last = 0 then now else if last \<le> now then now - last else u32 (UINT32_MAX - last + now + 1))"

definition at_least_one :: "int \<Rightarrow> nat" where
  "at_least_one i = (let n = nat (i mod 2 ^ 32) in if n = 0 then 1 else n)"

definition gps_check_ign_trigger :: "gps_config \<Rightarrow> nat \<Rightarrow> gps_runtime \<Rightarrow> bool" where
  "gps_check_ign_trigger c now g \<longleftrightarrow>
     at_least_one (if gr_mot_status g then gc_ign_on_interval_sec c else gc_ign_off_interval_sec c) \<le> gps_uptime_elapsed_since_last_send now g"

definition gps_check_angle_trigger :: "gps_config \<Rightarrow> gps_runtime \<Rightarrow> bool option" where
  "gps_check_angle_trigger c g =
     (let cur = gr_current_gps_data g; last = gr_last_valid_gps_data g in
      if \<not> gc_enable_angle_trigger c \<or> \<not> gp_fix_valid_calculated cur \<or> \<not> gr_mot_status g then Some False
      else if gp_utc_time last = 0 then Some False
      else map_option (\<lambda>change. \<not> f32_lt change (gc_angle_threshold_deg c)) (utils_calculate_angle_change (gp_course_deg last) (gp_course_deg cur)))"

definition gps_check_distance_trigger :: "libm \<Rightarrow> gps_config \<Rightarrow> nat \<Rightarrow> gps_runtime \<Rightarrow> bool" where
  "gps_check_distance_trigger M c now g =
     (let cur = gr_current_gps_data g; last = gr_last_valid_gps_data g in
      if \<not> gc_enable_distance_trigger c \<or> \<not> gp_fix_valid_calculated cur \<or>
        (\<not> gr_mot_status g \<and> gc_send_last_valid_on_ign_off_no_movement c) \<or> gp_utc_time last = 0 then False
      else
        \<not> f32_lt (utils_calculate_gps_distance M (gp_latitude_deg last) (gp_longitude_deg last) (gp_latitude_deg cur) (gp_longitude_deg cur))
            (gc_distance_threshold_m c) \<and>
        at_least_one (gc_ign_on_interval_sec c) \<le> gps_uptime_elapsed_since_last_send now g)"

text \<open>The reason to send, if there is one.\<close>

definition gps_triggers_compute_decider :: "libm \<Rightarrow> gps_config \<Rightarrow> nat \<Rightarrow> gps_runtime \<Rightarrow> int option option" where
  "gps_triggers_compute_decider M c now g =
     (if gps_check_ign_trigger c now g then Some (Some GPS_TRIGGER_IGN_INTERVAL)
      else map_option (\<lambda>angle. if angle then Some GPS_TRIGGER_ANGLE
        else if gps_check_distance_trigger M c now g then Some GPS_TRIGGER_DISTANCE else None) (gps_check_angle_trigger c g))"

definition gps_triggers_should_send :: "libm \<Rightarrow> gps_config \<Rightarrow> nat \<Rightarrow> gps_runtime \<Rightarrow> (bool \<times> gps_runtime) option" where
  "gps_triggers_should_send M c now g =
     (if gr_should_trigger g then Some (True, g)
      else map_option (\<lambda>r. case r of Some reason \<Rightarrow> (True, g\<lparr>gr_trigger_reason := reason\<rparr>) | None \<Rightarrow> (False, g))
        (gps_triggers_compute_decider M c now g))"

definition gps_triggers_clear_after_send :: "gps_runtime \<Rightarrow> gps_runtime" where
  "gps_triggers_clear_after_send g = g\<lparr>gr_should_trigger := False\<rparr>"

end
