(* ===== verification/Gps_Nmea.thy ===== *)
theory Gps_Nmea
  imports Gps_Packet Time_Utils
begin

text \<open>
  The parser of \<open>module/gps/gps_ops.c\<close> for a pair of NMEA sentences, RMC and GGA. Texts are NUL-free \<open>string\<close>s; a pointer
  into a sentence is the text from there to its end, since the parser ends each field with a NUL in place. A field of the
  array that was not set is not read: both arrays hold nine fields before the first access.
\<close>

subsection \<open>Fields\<close>

definition nmea_strip_checksum :: "string \<Rightarrow> string" where
  "nmea_strip_checksum line = takeWhile (\<lambda>c. c \<noteq> CHR ''*'') line"

fun nmea_split_fields :: "string \<Rightarrow> nat \<Rightarrow> string list" where
  "nmea_split_fields payload maxtok =
     (if maxtok < 1 then []
      else case strchr payload CHR '','' of
        Some (_ # rest) \<Rightarrow>
          if 1 < maxtok then takeWhile (\<lambda>c. c \<noteq> CHR '','') payload # nmea_split_fields rest (maxtok - 1) else [payload]
      | _ \<Rightarrow> [payload])"

declare nmea_split_fields.simps [simp del]

definition nmea_parse_dec2 :: "string \<Rightarrow> int" where
  "nmea_parse_dec2 s =
     (case s of a # b # _ \<Rightarrow> if is_digit a \<and> is_digit b then int (digit_val a * 10 + digit_val b) else -1 | _ \<Rightarrow> -1)"

subsection \<open>Date and time\<close>

definition nmea_is_leap :: "int \<Rightarrow> bool" where
  "nmea_is_leap year \<longleftrightarrow> (year mod 4 = 0 \<and> year mod 100 \<noteq> 0) \<or> year mod 400 = 0"

definition nmea_days_in_month :: "int \<Rightarrow> int \<Rightarrow> int" where
  "nmea_days_in_month year month =
     (if month < 1 \<or> month > 12 then 0
      else if month = 2 \<and> nmea_is_leap year then 29
      else [31, 28, 31, 30, 31, 30, 31, 31, 30, 31, 30, 31] ! nat (month - 1))"

definition month_days_before :: "int list" where
  "month_days_before = [0, 31, 59, 90, 120, 151, 181, 212, 243, 273, 304, 334]"

text \<open>The four tests of the code for a field that is no pair of digits look at fields that may lie behind the end of a short
  text; the result is 0 then, whatever they read.\<close>

definition nmea_rmc_time_date_to_unix :: "string \<Rightarrow> string \<Rightarrow> int" where
  "nmea_rmc_time_date_to_unix hhmmss ddmmyy =
     (if hhmmss = [] \<or> ddmmyy = [] then 0
      else
        let day = nmea_parse_dec2 ddmmyy; month = nmea_parse_dec2 (drop 2 ddmmyy); year2 = nmea_parse_dec2 (drop 4 ddmmyy);
            hour = nmea_parse_dec2 hhmmss; minute = nmea_parse_dec2 (drop 2 hhmmss); sec = nmea_parse_dec2 (drop 4 hhmmss)
        in if day < 0 \<or> month < 0 \<or> year2 < 0 \<or> hour < 0 \<or> minute < 0 \<or> sec < 0 then 0
        else
          let year = year2 + (if year2 \<ge> 70 then 1900 else 2000)
          in if year < 1970 \<or> month < 1 \<or> month > 12 \<or> day < 1 \<or> day > nmea_days_in_month year month then 0
          else
            let days = (\<Sum>y\<leftarrow>[1970 .. year - 1]. if nmea_is_leap y then 366 else 365);
                days = days + month_days_before ! nat (month - 1);
                days = (if month > 2 \<and> nmea_is_leap year then days + 1 else days);
                days = days + (day - 1);
                ts = days * 86400 + hour * 3600 + minute * 60 + sec
            in if ts \<le> int UINT32_MAX then ts else 0)"

subsection \<open>Position\<close>

definition gps_validate_coordinates :: "float64 \<Rightarrow> float64 \<Rightarrow> bool" where
  "gps_validate_coordinates lat lon =
     (if f32_is_nan lat \<or> f32_is_nan lon then False
      else if lat \<in> {FInf False, FInf True} \<or> lon \<in> {FInf False, FInf True} then False
      else if outside 90 lat \<or> outside 180 lon then False
      else if f32_le lat FZERO \<and> f32_le FZERO lat \<and> f32_le lon FZERO \<and> f32_le FZERO lon then False
      else True)"

text \<open>The altitude is in field 8, its unit in field 9.\<close>

definition nmea_parse_gga_msl_altitude :: "string list \<Rightarrow> float32 option" where
  "nmea_parse_gga_msl_altitude g_fields =
     (let ng = length g_fields in
      if ng < 9 \<or> g_fields ! 8 = [] then None
      else if ng \<ge> 10 \<and> g_fields ! 9 \<noteq> [] \<and> hd (g_fields ! 9) \<noteq> CHR ''M'' \<and> hd (g_fields ! 9) \<noteq> CHR ''m'' then None
      else
        let m = f32_of_double (atof (g_fields ! 8))
        in if f32_lt m (f32_of_int (- 450)) \<or> f32_lt (f32_of_int 10000) m then None else Some m)"

definition nmea_parse_latlon :: "string \<Rightarrow> string \<Rightarrow> bool \<Rightarrow> float64 option" where
  "nmea_parse_latlon ddmm hemi is_lat =
     (if ddmm = [] \<or> hemi = [] then None
      else
        let v = atof ddmm in
        if f32_lt v FZERO then None
        else
          let ideg = c_trunc (f64_div v (f64_of_int 100));
              minutes = f64_sub v (f64_mul (f64_of_int ideg) (f64_of_int 100))
          in if f32_lt minutes FZERO \<or> f32_le (f64_of_int 60) minutes then None
          else if is_lat \<and> (ideg > 90 \<or> hd hemi \<notin> set ''NnSs'') then None
          else if \<not> is_lat \<and> (ideg > 180 \<or> hd hemi \<notin> set ''EeWw'') then None
          else
            let deg = f64_add (f64_of_int ideg) (f64_div minutes (f64_of_int 60));
                deg = (if is_lat then if hd hemi \<in> set ''Ss'' then f_neg deg else deg
                       else if hd hemi \<in> set ''Ww'' then f_neg deg else deg)
            in Some deg)"

definition nmea_coords_from_sentence :: "bool \<Rightarrow> string \<Rightarrow> string \<Rightarrow> string \<Rightarrow> string \<Rightarrow> (float64 \<times> float64) option" where
  "nmea_coords_from_sentence active lat_ddmm lat_hemi lon_ddmm lon_hemi =
     (if \<not> active then None
      else case nmea_parse_latlon lat_ddmm lat_hemi True of
        None \<Rightarrow> None
      | Some lat \<Rightarrow>
          (case nmea_parse_latlon lon_ddmm lon_hemi False of
             None \<Rightarrow> None
           | Some lon \<Rightarrow> if \<not> gps_validate_coordinates lat lon then None else Some (lat, lon)))"

abbreviation (input) GPS_NMEA_RMC_GGA_MAX_DIST_M :: int where "GPS_NMEA_RMC_GGA_MAX_DIST_M \<equiv> 200"

definition nmea_resolve_latlon ::
    "libm \<Rightarrow> bool \<Rightarrow> string \<Rightarrow> string \<Rightarrow> string \<Rightarrow> string \<Rightarrow> int \<Rightarrow> string \<Rightarrow> string \<Rightarrow> string \<Rightarrow> string \<Rightarrow> (float64 \<times> float64) option" where
  "nmea_resolve_latlon M rmc_ok rmc_lat rmc_ns rmc_lon rmc_ew gga_qual gga_lat gga_ns gga_lon gga_ew =
     (case (nmea_coords_from_sentence rmc_ok rmc_lat rmc_ns rmc_lon rmc_ew,
            nmea_coords_from_sentence (gga_qual > 0) gga_lat gga_ns gga_lon gga_ew) of
        (Some (rlat, rlon), Some (glat, glon)) \<Rightarrow>
          if f32_lt (f32_of_int GPS_NMEA_RMC_GGA_MAX_DIST_M) (utils_calculate_gps_distance M rlat rlon glat glon)
          then None else Some (glat, glon)
      | (None, Some gga) \<Rightarrow> Some gga
      | (Some rmc, None) \<Rightarrow> Some rmc
      | (None, None) \<Rightarrow> None)"

subsection \<open>A pair of sentences\<close>

definition nmea_line_is :: "string \<Rightarrow> string \<Rightarrow> bool" where
  "nmea_line_is line type3 =
     (case line of
        a # b # c # rest \<Rightarrow>
          if a \<noteq> CHR ''$'' \<or> b \<noteq> CHR ''G'' \<or> (c \<noteq> CHR ''N'' \<and> c \<noteq> CHR ''P'') then False
          else take 3 rest = type3 \<and> take 1 (drop 3 rest) = '',''
      | _ \<Rightarrow> False)"

text \<open>What the code writes to the packet from the fields \<open>r\<close> of RMC and \<open>g\<close> of GGA, at least nine of each. The packet is
  cleared before the position is known to be rejected.\<close>

definition set_speed :: "string \<Rightarrow> gps_packet \<Rightarrow> gps_packet" where
  "set_speed sog p = (if sog \<noteq> [] then p\<lparr>gp_speed_knots := f32_of_double (atof sog)\<rparr> else p)"

definition set_course :: "string \<Rightarrow> gps_packet \<Rightarrow> gps_packet" where
  "set_course cog p =
     (let c = f32_of_double (atof cog) in
      if cog \<noteq> [] \<and> f32_le FZERO c \<and> f32_le c (f32_of_int 360) then p\<lparr>gp_course_deg := c\<rparr> else p)"

definition set_altitude :: "string list \<Rightarrow> gps_packet \<Rightarrow> gps_packet" where
  "set_altitude g p = (case nmea_parse_gga_msl_altitude g of Some m \<Rightarrow> p\<lparr>gp_altitude_m := m\<rparr> | None \<Rightarrow> p)"

definition set_sats :: "string \<Rightarrow> gps_packet \<Rightarrow> gps_packet" where
  "set_sats sats p = (if sats \<noteq> [] then p\<lparr>gp_sats_in_use := nat (atoi sats mod 256)\<rparr> else p)"

definition set_hdop :: "string \<Rightarrow> gps_packet \<Rightarrow> gps_packet" where
  "set_hdop hdop p =
     (let h = f32_of_double (atof hdop) in
      if hdop \<noteq> [] \<and> f32_lt FZERO h \<and> f32_lt h (f32_of_int 100)
      then p\<lparr>gp_hdop_x100 := nat (c_trunc (f32_mul h (f32_of_int 100)) mod 65536)\<rparr> else p)"

definition gps_packet_of_fields :: "libm \<Rightarrow> string list \<Rightarrow> string list \<Rightarrow> bool \<times> gps_packet" where
  "gps_packet_of_fields M r g =
     (let rmc_ok = (r ! 1 \<noteq> [] \<and> hd (r ! 1) = CHR ''A''); qual = atoi (g ! 5); fix_indicated = (rmc_ok \<or> qual > 0);
          pos = nmea_resolve_latlon M rmc_ok (r ! 2) (r ! 3) (r ! 4) (r ! 5) qual (g ! 1) (g ! 2) (g ! 3) (g ! 4)
      in if pos = None \<and> fix_indicated then (False, gps_packet_zero)
      else
        let (lat, lon) = (case pos of None \<Rightarrow> (FZERO, FZERO) | Some p \<Rightarrow> p);
            p = gps_packet_zero\<lparr>gp_latitude_deg := lat, gp_longitude_deg := lon, gp_fix_valid_real := fix_indicated,
                gp_fix_valid_calculated := False, gp_utc_time := nat (nmea_rmc_time_date_to_unix (r ! 0) (r ! 8))\<rparr>
        in (True, set_hdop (g ! 7) (set_sats (g ! 6) (set_altitude g (set_course (r ! 7) (set_speed (r ! 6) p))))))"

definition before_newline :: "string \<Rightarrow> string" where
  "before_newline = takeWhile (\<lambda>c. char_code c \<noteq> 10)"

definition gps_ops_parse_gnrmc_gngga_combined :: "libm \<Rightarrow> string \<Rightarrow> gps_packet \<Rightarrow> bool \<times> gps_packet" where
  "gps_ops_parse_gnrmc_gngga_combined M combined out =
     (let combined = map (\<lambda>c. if char_code c = 13 then char_of (10 :: nat) else c) combined in
      case dropWhile (\<lambda>c. char_code c \<noteq> 10) combined of
        [] \<Rightarrow> (False, out)
      | nl # rest \<Rightarrow>
          let line_a = before_newline combined; line_b = dropWhile (\<lambda>c. char_code c = 10 \<or> char_code c = 13) rest;
              rmc = (if nmea_line_is line_a ''RMC'' then Some line_a else None);
              gga = (if rmc = None \<and> nmea_line_is line_a ''GGA'' then Some line_a else None);
              (rmc, gga) = (if nmea_line_is line_b ''RMC'' then (Some line_b, gga)
                            else if nmea_line_is line_b ''GGA'' then (rmc, Some line_b) else (rmc, gga))
          in case (rmc, gga) of
            (Some rmc, Some gga) \<Rightarrow>
              let rmc = nmea_strip_checksum (before_newline rmc); gga = nmea_strip_checksum (before_newline gga)
              in (case (strchr rmc CHR '','', strchr gga CHR '','') of
                    (Some (_ # r), Some (_ # g)) \<Rightarrow>
                      let r_fields = nmea_split_fields r 16; g_fields = nmea_split_fields g 16
                      in if length r_fields < 9 \<or> length g_fields < 9 then (False, out)
                      else gps_packet_of_fields M r_fields g_fields
                  | _ \<Rightarrow> (False, out))
          | _ \<Rightarrow> (False, out))"


subsection \<open>Date and time\<close>

lemma nmea_dec2:
  assumes "n < 100"
  shows "nmea_parse_dec2 (dec_pad 2 n @ r) = int n"
proof -
  have "length (dec_pad 2 n) = 2" using decimal_digits(1) [of n 2] assms by simp
  then obtain a b where ab: "dec_pad 2 n = [a, b]" by (auto simp: numeral_2_eq_2 length_Suc_conv)
  have "list_all is_digit [a, b]" "dec_prefix 0 [a, b] = n"
    using list_all_dec_pad [of 2 n] decimal_digits(2) [of n 2] assms by (simp_all add: ab)
  then show ?thesis by (simp add: ab nmea_parse_dec2_def mult.commute)
qed

lemma dec_pad_2_drop: "n < 100 \<Longrightarrow> drop 2 (dec_pad 2 n @ r) = r" "n < 100 \<Longrightarrow> dec_pad 2 n \<noteq> []"
  using decimal_digits(1) [of n 2] by auto

lemma dec_pad_2_drop_4:
  assumes "a < 100" and "b < 100"
  shows "drop 4 (dec_pad 2 a @ dec_pad 2 b @ t) = t"
proof -
  have "drop (2 + 2) (dec_pad 2 a @ dec_pad 2 b @ t) = drop 2 (drop 2 (dec_pad 2 a @ dec_pad 2 b @ t))" by (simp only: drop_drop)
  then have "drop (2 + 2) (dec_pad 2 a @ dec_pad 2 b @ t) = t" using assms by (simp only: dec_pad_2_drop)
  then show ?thesis by simp
qed

lemma two_digit_year:
  assumes "1970 \<le> y" and "y \<le> 2069"
  shows "int (y mod 100) + (if int (y mod 100) \<ge> 70 then 1900 else 2000) = int y"
proof (cases "y < 2000")
  case True
  then have "y mod 100 = y - 1900" using assms(1) by (simp add: mod_if)
  then show ?thesis using True assms(1) by simp
next
  case False
  then have "y mod 100 = y - 2000" using assms(2) by (simp add: mod_if)
  then show ?thesis using False assms(2) by simp
qed

lemma nmea_year_days: "1970 \<le> y \<Longrightarrow> (\<Sum>i\<leftarrow>[1970 .. y - 1]. if nmea_is_leap i then 366 else 365) = years_loop 1970 y 0"
proof (induction y rule: int_ge_induct)
  case base
  then show ?case by (simp add: years_loop.simps)
next
  case (step y)
  have s: "[1970 .. y] = [1970 .. y - 1] @ [y]" using step.hyps upto_rec2 [of 1970 y] by simp
  show ?case
    using step leap_step [of y]
    by (simp add: s years_loop_closed leap_day_def nmea_is_leap_def is_leap_year_def)
qed

lemma nmea_month_days:
  assumes "1 \<le> mo" and "mo \<le> 12"
  shows "month_days_before ! nat (mo - 1) + (if mo > 2 \<and> nmea_is_leap y then 1 else 0) = months_loop y 1 mo 0"
    and "nmea_days_in_month y mo = days_in_month y mo"
  using month_cases [OF assms]
  by (elim disjE; simp add: months_loop_closed days_to_month_def leap_day_def nmea_is_leap_def is_leap_year_def month_days_before_def
      nmea_days_in_month_def days_in_month_def)+

text \<open>C28: the time of a sentence is the time of the calendar. For two-digit fields, whatever follows them, the parser
  gives exactly the Unix time that the conversion of \<open>time_utils.c\<close> gives for the date and the time of day, and 0
  when that conversion refuses the date; years from 70 on are of the last century.\<close>

theorem nmea_time_is_calendar_time:
  assumes "d < 100" and "mo < 100" and "1970 \<le> y" and "y \<le> 2069" and "h < 24" and "mi < 60" and "s < 60"
  shows "nmea_rmc_time_date_to_unix (dec_pad 2 h @ dec_pad 2 mi @ dec_pad 2 s @ r) (dec_pad 2 d @ dec_pad 2 mo @ dec_pad 2 (y mod 100) @ r') =
    (case calendar_to_unix (int y) (int mo) (int d) (int h) (int mi) (int s) of Some u \<Rightarrow> u | None \<Rightarrow> 0)"
proof -
  have ym: "y mod 100 < 100" by simp
  have f: "h < 100" "mi < 100" "s < 100" using assms by auto
  note parse = nmea_dec2 [OF assms(1)] nmea_dec2 [OF assms(2)] nmea_dec2 [OF ym] f [THEN nmea_dec2] dec_pad_2_drop(1) [OF assms(1)]
    dec_pad_2_drop(1) [OF f(1)] dec_pad_2_drop_4 [OF assms(1,2)] dec_pad_2_drop_4 [OF f(1,2)]
  note year = two_digit_year [OF assms(3,4)]
  have ne: "dec_pad 2 h @ u \<noteq> []" "dec_pad 2 d @ u \<noteq> []" for u using dec_pad_2_drop(2) f(1) assms(1) by auto
  let ?t = "\<lparr>nt_year = int y, nt_month = int mo, nt_day = int d, nt_hour = int h, nt_minute = int mi, nt_second = int s\<rparr>"
  show ?thesis
  proof (cases "1 \<le> mo \<and> mo \<le> 12 \<and> 1 \<le> d \<and> int d \<le> days_in_month (int y) (int mo)")
    case False
    then have "calendar_to_unix (int y) (int mo) (int d) (int h) (int mi) (int s) = None"
      by (auto simp: cal_eq valid_time_iff)
    moreover have "int mo < 1 \<or> int mo > 12 \<or> int d < 1 \<or> int d > nmea_days_in_month (int y) (int mo)"
      using False nmea_month_days(2) [of "int mo" "int y"] by auto
    ultimately show ?thesis
      unfolding nmea_rmc_time_date_to_unix_def Let_def using ne by (simp only: parse year if_False simp_thms ne) auto
  next
    case True
    then have mo: "1 \<le> int mo" "int mo \<le> 12" by auto
    have v: "valid_time ?t" using True assms by (auto simp: valid_time_iff)
    let ?D = "years_loop 1970 (int y) 0 + months_loop (int y) 1 (int mo) 0 + (int d - 1)"
    have y: "1970 \<le> int y" using assms(3) by simp
    have D: "?D = day_number ?t"
      using months_loop_closed [OF mo] years_loop_closed [OF y] by (simp add: day_number_def days_to_year_def)
    have u: "calendar_to_unix (int y) (int mo) (int d) (int h) (int mi) (int s) = Some (day_number ?t * 86400 + seconds ?t)"
      using v assms by (simp add: cal_eq)
    have b: "day_number ?t * 86400 + seconds ?t \<le> int UINT32_MAX" using day_number_bound(2) [OF v] assms by simp
    have ok: "\<not> (int d < 0 \<or> int mo < 0 \<or> int (y mod 100) < 0 \<or> int h < 0 \<or> int mi < 0 \<or> int s < 0)" by simp
    have ok2: "\<not> (int y < 1970 \<or> int mo < 1 \<or> int mo > 12 \<or> int d < 1 \<or> int d > nmea_days_in_month (int y) (int mo))"
      using True y nmea_month_days(2) [OF mo, of "int y"] by simp
    have m: "(if int mo > 2 \<and> nmea_is_leap (int y) then Y + month_days_before ! nat (int mo - 1) + 1
        else Y + month_days_before ! nat (int mo - 1)) = Y + months_loop (int y) 1 (int mo) 0" for Y
      using nmea_month_days(1) [OF mo, of "int y"] by (simp split: if_splits)
    have e: "?D * 86400 + int h * 3600 + int mi * 60 + int s = day_number ?t * 86400 + seconds ?t"
      unfolding D by (simp add: seconds_def)
    show ?thesis
      unfolding nmea_rmc_time_date_to_unix_def Let_def u option.case
      by (simp only: ne parse year if_False simp_thms ok ok2 nmea_year_days [OF y] m e b if_True)
  qed
qed

theorem nmea_time_is_calendar_time_witness:
  "nmea_rmc_time_date_to_unix ''120001.00'' ''290224'' = 1709208001"
proof -
  have t: "''120001.00'' = dec_pad 2 12 @ dec_pad 2 0 @ dec_pad 2 1 @ ''.00''" "''290224'' = dec_pad 2 29 @ dec_pad 2 2 @ dec_pad 2 (2024 mod 100) @ []"
    by code_simp+
  show ?thesis
    unfolding t using nmea_time_is_calendar_time [of 29 2 2024 12 0 1 "''.00''" "[]"]
    by (simp add: cal_eq valid_time_iff days_in_month_def is_leap_year_def day_number_def days_to_year_def days_to_month_def
        leap_day_def seconds_def)
qed


subsection \<open>Positions\<close>

lemma read_decimal_point:
  assumes "list_all is_digit i" and "list_all is_digit f" and "i \<noteq> []"
  shows "read_decimal (i @ CHR ''.'' # f) = Some (of_nat (dec_prefix 0 (i @ f)) / 10 ^ length f, [])"
proof -
  have d: "\<not> is_digit CHR ''.''" by (simp add: is_digit_def char_code_def)
  show ?thesis
    using takeWhile_digits [OF assms(1), of "CHR ''.'' # f"] assms d
    by (simp add: read_decimal_def read_digits_def read_exponent_def pow10_def divide_inverse)
qed

lemma atof_point:
  assumes "list_all is_digit i" and "list_all is_digit f" and "i \<noteq> []"
  shows "atof (i @ CHR ''.'' # f) = f64_round False (of_nat (dec_prefix 0 (i @ f)) / 10 ^ length f)"
proof -
  obtain c s where i: "i = c # s" "is_digit c" "list_all is_digit s" using assms by (cases i) auto
  have c: "\<not> c_isspace c \<and> c \<noteq> CHR ''-'' \<and> c \<noteq> CHR ''+''" using i(2) by (auto simp: c_isspace_def is_digit_def char_code_def)
  have "split_sign (i @ CHR ''.'' # f) = (False, i @ CHR ''.'' # f)" using c by (simp add: split_sign_def i)
  moreover have "\<not> has_prefix p (i @ CHR ''.'' # f)" if "p \<in> {''infinity'', ''inf'', ''nan'', ''0x''}" for p
    using that i by (cases s) (auto simp: has_prefix_def strcasecmp_eq_def c_tolower_def is_digit_def char_code_def split: if_splits)
  ultimately show ?thesis using read_decimal_point [OF assms] by (simp add: atof_def read_float_def)
qed

lemma near_less: "\<bar>u - x\<bar> \<le> a \<Longrightarrow> x + a < (b :: rat) \<Longrightarrow> u < b"
  unfolding abs_le_iff by linarith

lemma near_diff: "\<bar>w - u\<bar> \<le> a \<Longrightarrow> \<bar>u - m\<bar> \<le> b \<Longrightarrow> \<bar>w - m\<bar> \<le> a + (b :: rat)"
  unfolding abs_le_iff by linarith

lemma near_sum:
  fixes z :: rat
  assumes "\<bar>z - (d + x)\<bar> \<le> a" and "\<bar>x - u / 60\<bar> \<le> b" and "\<bar>u - m\<bar> \<le> c" and "a + b + c / 60 \<le> e"
  shows "\<bar>z - (d + m / 60)\<bar> \<le> e"
  using assms unfolding abs_le_iff by linarith

lemma f64_round_int_le:
  assumes "of_nat n \<le> x" and "n < 2 ^ 53" and "f64_round False x = FFin False y"
  shows "of_nat n \<le> y"
  using fp_round_mono [OF _ assms(1), of 52 "- 1022" 1024] fp_round_int [of n 52 "- 1022" 1024 False] assms(2,3)
  by (simp add: f64_round_def signed_def)

lemma f64_of_small [simp]: "f64_of_int 100 = FFin False 100" "f64_of_int 60 = FFin False 60"
  using fp_round_int [of 100 52 "- 1022" 1024 False] fp_round_int [of 60 52 "- 1022" 1024 False]
  by (simp_all add: f64_of_int_def f64_of_rat_def f64_round_def)

lemma f64_of_nat: "n < 2 ^ 53 \<Longrightarrow> f64_of_int (int n) = FFin False (of_nat n)"
  using fp_round_int [of n 52 "- 1022" 1024 False] by (simp add: f64_of_int_def f64_of_rat_def f64_round_def)

text \<open>The computation on a number \<open>v\<close> near \<open>100 * d + m\<close>: degrees \<open>d\<close> and minutes \<open>m\<close>.\<close>

lemma degrees_of_ddmm:
  assumes d: "d \<le> 180" and m: "0 \<le> m" "m \<le> 60 - 1 / 10 ^ 8" and v: "v = f64_round False (of_nat (100 * d) + m)"
  shows "\<exists>u. v = FFin False u \<and> of_nat (100 * d) \<le> u" and "c_trunc (f64_div v (f64_of_int 100)) = int d"
    and "\<exists>u. f64_sub v (f64_mul (f64_of_int (int d)) (f64_of_int 100)) = FFin False u \<and> 0 \<le> u \<and> u < 60 \<and> \<bar>u - m\<bar> \<le> 2 / 2 ^ 39"
proof -
  have "of_nat (100 * d) \<le> (of_nat 18000 :: rat)" unfolding of_nat_le_iff using d by simp
  then have D: "of_nat (100 * d) + m < (2 ^ 15 :: rat)" "0 \<le> of_nat (100 * d) + m" "of_nat (100 * d) + m < 20000" using m by simp_all
  obtain u where u: "v = FFin False u" "0 \<le> u" "\<bar>u - (of_nat (100 * d) + m)\<bar> \<le> 1 / 2 ^ 39"
    using f64_round_error [OF D(2,1), of False] v by (auto simp: pow2_def)
  have ul: "of_nat (100 * d) \<le> u" using f64_round_int_le [of "100 * d" "of_nat (100 * d) + m" u] d m v u(1) by simp
  then show "\<exists>u. v = FFin False u \<and> of_nat (100 * d) \<le> u" using u(1) by blast
  have e: "0 \<le> u - of_nat (100 * d)" "u - of_nat (100 * d) < 60 - 1 / 10 ^ 9" "\<bar>u - of_nat (100 * d) - m\<bar> \<le> 1 / 2 ^ 39"
    using u(3) [unfolded abs_le_iff] ul m unfolding abs_le_iff by (simp_all; linarith)+
  show "c_trunc (f64_div v (f64_of_int 100)) = int d"
  proof -
    have "u < 25600" by (rule near_less [OF u(3)]) (use D in simp)
    then have q: "0 \<le> u / 100" "u / 100 < 2 ^ 8" using u by simp_all
    obtain w where w: "f64_round False (u / 100) = FFin False w" "\<bar>w - u / 100\<bar> \<le> 1 / 2 ^ 46"
      using f64_round_error [OF q, of False] by (auto simp: pow2_def)
    have "of_nat d \<le> w" using f64_round_int_le [of d "u / 100" w] ul d w by simp
    moreover have "w < of_nat d + 1" by (rule near_less [OF w(2)]) (use e(2) in \<open>simp add: field_simps\<close>)
    ultimately have "\<lfloor>w\<rfloor> = int d" by (simp add: floor_eq_iff)
    then show ?thesis using u(1) w(1) by (simp add: f64_div_def)
  qed
  have p: "f64_mul (f64_of_int (int d)) (f64_of_int 100) = FFin False (of_nat (100 * d))"
    using f64_of_nat [of d] fp_round_int [of "100 * d" 52 "- 1022" 1024 False] d by (simp add: f64_mul_def f64_round_def mult.commute)
  have s: "f64_sub v (FFin False (of_nat (100 * d))) = (if u - of_nat (100 * d) = 0 then FFin False 0 else f64_round False (u - of_nat (100 * d)))"
    using u(1) e(1) by (simp add: f64_sub_def f64_add_def signed_def Let_def)
  obtain w where w: "f64_round False (u - of_nat (100 * d)) = FFin False w" "0 \<le> w" "\<bar>w - (u - of_nat (100 * d))\<bar> \<le> 1 / 2 ^ 48"
    using f64_round_error [of "u - of_nat (100 * d)" 6 False] e by (auto simp: pow2_def)
  show "\<exists>u. f64_sub v (f64_mul (f64_of_int (int d)) (f64_of_int 100)) = FFin False u \<and> 0 \<le> u \<and> u < 60 \<and> \<bar>u - m\<bar> \<le> 2 / 2 ^ 39"
  proof -
    have "w < 60" by (rule near_less [OF w(3)]) (use e(2) in \<open>simp add: field_simps\<close>)
    moreover have "\<bar>w - m\<bar> \<le> 2 / 2 ^ 39" by (rule order_trans [OF near_diff [OF w(3) e(3)]]) simp
    moreover have "u - of_nat (100 * d) = 0 \<Longrightarrow> \<bar>0 - m\<bar> \<le> 2 / 2 ^ 39" by (rule order_trans [OF _ order_refl]) (use e(3) in simp)
    ultimately show ?thesis unfolding p s using w(1,2) by auto
  qed
qed

text \<open>The field \<open>dddmm.ffff\<close>, with \<open>w\<close> digits of degrees and at most eight decimals.\<close>

definition ddmm_field :: "nat \<Rightarrow> nat \<Rightarrow> nat \<Rightarrow> string \<Rightarrow> string" where
  "ddmm_field w d m f = dec_pad w d @ dec_pad 2 m @ CHR ''.'' # f"

definition decimals :: "string \<Rightarrow> rat" where
  "decimals f = of_nat (dec_prefix 0 f) / 10 ^ length f"

lemma decimals_bounds:
  assumes "list_all is_digit f" and "length f \<le> 8"
  shows "0 \<le> decimals f \<and> decimals f \<le> 1 - 1 / 10 ^ 8"
proof -
  have "dec_prefix 0 f + 1 \<le> 10 ^ length f" using assms(1)
  proof (induction f)
    case (Cons c s)
    have "digit_val c \<le> 9" using Cons.prems by (auto simp: digit_val_def is_digit_def)
    then have "digit_val c * 10 ^ length s \<le> 9 * 10 ^ length s" by (rule mult_right_mono) simp
    moreover have "dec_prefix 0 (c # s) = digit_val c * 10 ^ length s + dec_prefix 0 s"
      using Cons.prems dec_prefix_scale [of s "digit_val c"] by simp
    moreover have "dec_prefix 0 s + 1 \<le> 10 ^ length s" using Cons by simp
    ultimately show ?case unfolding length_Cons power_Suc by linarith
  qed simp
  then have "of_nat (dec_prefix 0 f + 1) \<le> (of_nat (10 ^ length f) :: rat)" unfolding of_nat_le_iff .
  then have a: "of_nat (dec_prefix 0 f) + 1 \<le> (10 :: rat) ^ length f" by simp
  have "(10 :: rat) ^ length f \<le> 10 ^ 8" using assms(2) by (intro power_increasing) simp_all
  then have "1 / 10 ^ 8 \<le> 1 / (10 :: rat) ^ length f" by (intro divide_left_mono) simp_all
  moreover have "decimals f \<le> 1 - 1 / 10 ^ length f"
    using divide_right_mono [OF a, of "10 ^ length f"] by (simp add: decimals_def add_divide_distrib)
  ultimately have "decimals f \<le> 1 - 1 / 10 ^ 8" by (rule order_trans [rotated, OF diff_left_mono])
  then show ?thesis by (simp add: decimals_def)
qed

lemma atof_ddmm:
  assumes "d < 10 ^ w" and "0 < w" and "m < 60" and "list_all is_digit f"
  shows "atof (ddmm_field w d m f) = f64_round False (of_nat (100 * d) + (of_nat m + decimals f))"
proof -
  have m: "m < 100" "length (dec_pad 2 m) = 2" "dec_prefix 0 (dec_pad 2 m) = m" using decimal_digits [of m 2] assms(3) by simp_all
  let ?i = "dec_pad w d @ dec_pad 2 m"
  have i: "list_all is_digit ?i" by (simp add: list_all_dec_pad)
  have "dec_prefix 0 ?i = 100 * d + m"
    using dec_prefix_scale [OF list_all_dec_pad, of "dec_prefix 0 (dec_pad w d)" 2 m] decimal_digits(2) [OF assms(1,2)] m
    by (simp add: dec_prefix_append list_all_dec_pad)
  then have "dec_prefix 0 (?i @ f) = (100 * d + m) * 10 ^ length f + dec_prefix 0 f"
    using dec_prefix_scale [OF assms(4), of "100 * d + m"] by (simp only: dec_prefix_append [OF i])
  then have v: "of_nat (dec_prefix 0 (?i @ f)) / 10 ^ length f = of_nat (100 * d) + (of_nat m + decimals f)"
    by (simp add: decimals_def add_divide_distrib)
  have "?i \<noteq> []" using m(2) by auto
  from atof_point [OF i assms(4) this] show ?thesis unfolding v by (simp add: ddmm_field_def)
qed

text \<open>C29: positions are read to a fraction of a millimetre. A field of at most 90 degrees of latitude, or 180 of
  longitude, minutes below 60 with at most eight decimals and a letter of its hemisphere gives a finite number within
  \<open>2 ^ - 43\<close> degrees of the exact position, negative for the south and the west.\<close>

theorem nmea_latlon_accuracy:
  assumes d: "d \<le> (if is_lat then 90 else 180)" "d < 10 ^ w" "0 < w" and m: "m < 60" and f: "list_all is_digit f" "length f \<le> 8"
    and hemi: "hemi \<noteq> []" "hd hemi \<in> set (if is_lat then ''NnSs'' else ''EeWw'')"
  shows "\<exists>u. nmea_parse_latlon (ddmm_field w d m f) hemi is_lat = Some (FFin (hd hemi \<in> set ''SsWw'') u) \<and>
    \<bar>u - (of_nat d + (of_nat m + decimals f) / 60)\<bar> \<le> 1 / 2 ^ 43"
proof -
  let ?m = "of_nat m + decimals f :: rat"
  have "of_nat m \<le> (of_nat 59 :: rat)" unfolding of_nat_le_iff using m by simp
  then have mb: "0 \<le> ?m" "?m \<le> 60 - 1 / 10 ^ 8" using decimals_bounds [OF f] by simp_all
  have d180: "d \<le> 180" using d(1) by (simp split: if_splits)
  note D = degrees_of_ddmm [OF d180 mb atof_ddmm [OF d(2,3) m f(1)]]
  obtain v where v: "atof (ddmm_field w d m f) = FFin False v" "0 \<le> v" using D(1) by (auto intro: order_trans [rotated])
  obtain u where u: "f64_sub (atof (ddmm_field w d m f)) (f64_mul (f64_of_int (int d)) (f64_of_int 100)) = FFin False u"
    "0 \<le> u" "u < 60" "\<bar>u - ?m\<bar> \<le> 2 / 2 ^ 39" using D(3) by blast
  obtain x where x: "f64_round False (u / 60) = FFin False x" "0 \<le> x" "\<bar>x - u / 60\<bar> \<le> 1 / 2 ^ 54"
    using f64_round_error [of "u / 60" 0 False] u by (auto simp: pow2_def)
  have "x - u / 60 \<le> 1" using x(3) [unfolded abs_le_iff, THEN conjunct1] by (rule order_trans) simp
  moreover have "of_nat d \<le> (of_nat 180 :: rat)" unfolding of_nat_le_iff by (rule d180)
  ultimately have "of_nat d + x < 182" using u(3) by linarith
  then have db: "of_nat d + x < 2 ^ 8" "0 \<le> of_nat d + x" using x(2) by simp_all
  obtain z where z: "f64_round False (of_nat d + x) = FFin False z" "0 \<le> z" "\<bar>z - (of_nat d + x)\<bar> \<le> 1 / 2 ^ 46"
    using f64_round_error [OF db(2,1), of False] by (auto simp: pow2_def)
  have deg: "\<exists>z. f64_add (f64_of_int (int d)) (f64_div (FFin False u) (f64_of_int 60)) = FFin False z \<and> \<bar>z - (of_nat d + ?m / 60)\<bar> \<le> 1 / 2 ^ 43"
  proof -
    have e: "\<bar>z - (of_nat d + ?m / 60)\<bar> \<le> 1 / 2 ^ 43" by (rule near_sum [OF z(3) x(3) u(4)]) simp
    show ?thesis
    proof (cases "of_nat d + x = 0")
      case True
      then have "z = 0" using z(1) by (simp add: f64_round_def fp_round_def)
      then show ?thesis using e x(1) f64_of_nat [of d] d180 True by (simp add: f64_add_def f64_div_def signed_def Let_def)
    next
      case False
      then show ?thesis using e z(1) x(1) f64_of_nat [of d] d180 db(2) by (simp add: f64_add_def f64_div_def signed_def Let_def)
    qed
  qed
  then obtain z where z: "f64_add (f64_of_int (int d)) (f64_div (FFin False u) (f64_of_int 60)) = FFin False z"
    "\<bar>z - (of_nat d + ?m / 60)\<bar> \<le> 1 / 2 ^ 43" by blast
  have ne: "ddmm_field w d m f \<noteq> []" by (simp add: ddmm_field_def)
  have c: "\<not> (f32_lt (FFin False u) FZERO \<or> f32_le (f64_of_int 60) (FFin False u))" "\<not> f32_lt (FFin False v) FZERO"
    using u v by (simp_all add: signed_def)
  show ?thesis
    using hemi d z(2) unfolding nmea_parse_latlon_def Let_def D(2) u(1) z(1) using c ne v by (cases is_lat) (auto simp: D(2) [unfolded v(1)] u(1) [unfolded v(1)] z(1))
qed

theorem nmea_latlon_accuracy_witness:
  "\<exists>u. nmea_parse_latlon ''7701.25000'' ''W'' False = Some (FFin True u) \<and> \<bar>u - (77 + 125 / 100 / 60)\<bar> \<le> 1 / 2 ^ 43"
proof -
  have t: "''7701.25000'' = ddmm_field 2 77 1 ''25000''" by code_simp
  have f: "decimals ''25000'' = 25 / 100" "list_all is_digit ''25000''"
    by (simp_all add: decimals_def is_digit_def digit_val_def char_code_def)
  show ?thesis unfolding t using nmea_latlon_accuracy [of 77 False 2 1 "''25000''" "''W''"] f by simp
qed

subsection \<open>Parsed packets\<close>

definition packet_ok :: "gps_packet \<Rightarrow> bool" where
  "packet_ok p \<longleftrightarrow>
     (gp_fix_valid_real p \<longrightarrow> gps_validate_coordinates (gp_latitude_deg p) (gp_longitude_deg p)) \<and>
     (\<not> gp_fix_valid_real p \<longrightarrow> gp_latitude_deg p = FZERO \<and> gp_longitude_deg p = FZERO) \<and>
     f32_le FZERO (gp_course_deg p) \<and> f32_le (gp_course_deg p) (f32_of_int 360) \<and>
     gp_sats_in_use p < 256 \<and> gp_hdop_x100 p < 65536 \<and> gp_utc_time p \<le> UINT32_MAX"

lemma coords_from_sentence_valid:
  "nmea_coords_from_sentence a lat ns lon ew = Some (x, y) \<Longrightarrow> a \<and> gps_validate_coordinates x y"
  by (auto simp: nmea_coords_from_sentence_def split: if_splits option.splits)

lemma resolved_position_valid:
  "nmea_resolve_latlon M ok rlat rns rlon rew q glat gns glon gew = Some (x, y) \<Longrightarrow>
     (ok \<or> q > 0) \<and> gps_validate_coordinates x y"
  by (auto simp: nmea_resolve_latlon_def split: if_splits option.splits prod.splits dest: coords_from_sentence_valid)

lemma nmea_time_range: "0 \<le> nmea_rmc_time_date_to_unix t d \<and> nmea_rmc_time_date_to_unix t d \<le> int UINT32_MAX"
proof -
  have s: "0 \<le> (\<Sum>y\<leftarrow>ys. if nmea_is_leap y then 366 else (365 :: int))" for ys by (rule sum_list_nonneg) auto
  have m: "0 \<le> month_days_before ! nat (mo - 1)" if "\<not> mo < 1" "\<not> mo > 12" for mo :: int
    using month_cases [of mo] that by (auto simp: month_days_before_def)
  show ?thesis
    unfolding nmea_rmc_time_date_to_unix_def Let_def using s m by (auto intro!: add_nonneg_nonneg mult_nonneg_nonneg)
qed

lemma zero_course: "f32_le FZERO FZERO" "f32_le FZERO (f32_of_int 360)"
  by (simp_all add: f360 signed_def)

lemma set_fields_ok: "packet_ok p \<Longrightarrow> packet_ok (set_hdop h (set_sats s (set_altitude g (set_course c (set_speed v p)))))"
proof -
  assume p: "packet_ok p"
  have 1: "packet_ok (set_speed v p)" using p by (simp add: set_speed_def packet_ok_def)
  have 2: "packet_ok q \<Longrightarrow> packet_ok (set_course c q)" for q by (simp add: set_course_def packet_ok_def Let_def)
  have 3: "packet_ok q \<Longrightarrow> packet_ok (set_altitude g q)" for q by (simp add: set_altitude_def packet_ok_def split: option.split)
  have 4: "packet_ok q \<Longrightarrow> packet_ok (set_sats s q)" for q by (simp add: set_sats_def packet_ok_def nat_less_iff)
  have 5: "packet_ok q \<Longrightarrow> packet_ok (set_hdop h q)" for q by (simp add: set_hdop_def packet_ok_def nat_less_iff Let_def)
  show ?thesis by (intro 1 2 3 4 5)
qed

lemma fixed_packet_ok:
  "(fix \<Longrightarrow> gps_validate_coordinates lat lon) \<Longrightarrow> (\<not> fix \<Longrightarrow> lat = FZERO \<and> lon = FZERO) \<Longrightarrow> u \<le> UINT32_MAX \<Longrightarrow>
   packet_ok (gps_packet_zero\<lparr>gp_latitude_deg := lat, gp_longitude_deg := lon, gp_fix_valid_real := fix,
     gp_fix_valid_calculated := False, gp_utc_time := u\<rparr>)"
  by (auto simp: packet_ok_def gps_packet_zero_def zero_course)

lemma gps_packet_of_fields_ok:
  assumes "gps_packet_of_fields M r g = (True, p)"
  shows "packet_ok p"
proof -
  have t: "nat (nmea_rmc_time_date_to_unix (r ! 0) (r ! 8)) \<le> UINT32_MAX" using nmea_time_range [of "r ! 0" "r ! 8"] by (simp add: nat_le_iff)
  let ?rmc_ok = "r ! 1 \<noteq> [] \<and> hd (r ! 1) = CHR ''A''" let ?fix = "?rmc_ok \<or> atoi (g ! 5) > 0"
  let ?pos = "nmea_resolve_latlon M ?rmc_ok (r ! 2) (r ! 3) (r ! 4) (r ! 5) (atoi (g ! 5)) (g ! 1) (g ! 2) (g ! 3) (g ! 4)"
  note P = assms [unfolded gps_packet_of_fields_def Let_def]
  show ?thesis
  proof (cases ?pos)
    case None
    with P have "\<not> ?fix" and p: "p = set_hdop (g ! 7) (set_sats (g ! 6) (set_altitude g (set_course (r ! 7) (set_speed (r ! 6)
      (gps_packet_zero\<lparr>gp_latitude_deg := FZERO, gp_longitude_deg := FZERO, gp_fix_valid_real := ?fix,
     gp_fix_valid_calculated := False, gp_utc_time := nat (nmea_rmc_time_date_to_unix (r ! 0) (r ! 8))\<rparr>)))))"
      by (auto split: if_splits)
    then show ?thesis unfolding p by (intro set_fields_ok fixed_packet_ok t) auto
  next
    case (Some xy)
    obtain x y where xy: "xy = (x, y)" by (cases xy)
    with P Some have p: "p = set_hdop (g ! 7) (set_sats (g ! 6) (set_altitude g (set_course (r ! 7) (set_speed (r ! 6)
      (gps_packet_zero\<lparr>gp_latitude_deg := x, gp_longitude_deg := y, gp_fix_valid_real := ?fix,
     gp_fix_valid_calculated := False, gp_utc_time := nat (nmea_rmc_time_date_to_unix (r ! 0) (r ! 8))\<rparr>)))))"
      by simp
    have "?fix \<and> gps_validate_coordinates x y" using Some xy by (intro resolved_position_valid) simp
    then show ?thesis unfolding p by (intro set_fields_ok fixed_packet_ok t) auto
  qed
qed

text \<open>C31: what the parser accepts is well formed. Whatever text the receiver sends, a packet the parser returns has
  coordinates on the globe that are not both zero when it claims a fix and zero coordinates otherwise, a course from 0
  to 360 degrees and counts and times that fit their fields.\<close>

theorem nmea_packet_well_formed:
  assumes "gps_ops_parse_gnrmc_gngga_combined M text out = (True, p)"
  shows "packet_ok p"
  using assms unfolding gps_ops_parse_gnrmc_gngga_combined_def Let_def
  by (auto split: list.splits option.splits if_splits prod.splits intro: gps_packet_of_fields_ok)

definition still_libm :: libm where
  "still_libm = \<lparr>lm_sin = \<lambda>_. FZERO, lm_cos = \<lambda>_. FZERO, lm_atan2 = \<lambda>_ _. FZERO, lm_sqrt = \<lambda>_. FZERO\<rparr>"

text \<open>A receiver without a fix.\<close>

definition sample_pair :: string where
  "sample_pair = ''$GNRMC,,V,,,,,,,,,,N'' @ [char_of (10 :: nat)] @ ''$GNGGA,,,,,,0,00,,,,,,,''"

lemma sample_pair_parsed: "fst (gps_ops_parse_gnrmc_gngga_combined still_libm sample_pair gps_packet_zero)"
  by code_simp

theorem nmea_packet_well_formed_witness:
  "packet_ok (snd (gps_ops_parse_gnrmc_gngga_combined still_libm sample_pair gps_packet_zero))"
  using nmea_packet_well_formed [of still_libm sample_pair gps_packet_zero] sample_pair_parsed by (metis (full_types) prod.collapse)

end
