(* ===== verification/Gps_Storage.thy ===== *)
theory Gps_Storage
  imports Gps_Nmea Tcp_Client
begin

text \<open>
  The state of the GPS module, what it takes from outside, and \<open>module/gps/gps_storage.c\<close>: the last position on flash.
  The static variables of \<open>gps_ops.c\<close> and \<open>gps_manager.c\<close> are the record \<open>gps_statics\<close>, without those that only keep a
  message from being logged twice. The modules that are not modelled are part of the world; what the GPS module asks them
  is the record \<open>gps_peers\<close>. The layout of the record on flash is a parameter.
\<close>

subsection \<open>State\<close>

record gps_statics =
  gs_configured_event_sent :: bool
  gs_implausible_speed_streak :: nat
  gs_parse_fail_streak :: nat
  gs_parse_fail_reset_sent :: bool
  gs_last_power_status_check :: nat
  gs_cached_power_on :: bool
  gs_pwr_nmea_setup_done :: bool
  gs_power_forced_off :: bool
  gs_no_nmea_count :: nat
  gs_had_fix :: bool
  gs_prev_charge :: bool
  gs_prev_sim :: bool
  gs_slot_rmc :: string
  gs_slot_gga :: string
  gs_packet_counter :: nat
  gs_running :: bool
  gs_defaults_applied :: bool
  gs_task_stats :: task_stats

record ('u, 'w) gps_module =
  gm_rt :: gps_runtime
  gm_st :: gps_statics
  gm_config :: gps_config
  gm_gateway :: "('u, 'w) gateway"

record gps_stored =
  sd_magic :: nat
  sd_version :: nat
  sd_packet :: gps_packet

record gps_peers =
  pe_view :: packet_view
  pe_network_connected :: bool
  pe_network_stable :: bool

text \<open>The calls of the SDK. A reading that fails is \<open>None\<close>. \<open>ge_queue_alloc\<close> is what the heap gives for the queue of the
  sentences, \<open>ge_reboot\<close> returns when the call does, and the mask of the two satellite systems depends on the receiver the
  SDK is built for.\<close>

record ('u, 'w) gps_env =
  ge_os :: "('u, 'w) os"
  ge_libm :: libm
  ge_listener :: "nat \<Rightarrow> event_data \<Rightarrow> nat \<Rightarrow> event_manager \<times> ('u, 'w) gateway \<Rightarrow> event_manager \<times> ('u, 'w) gateway"
  ge_peers :: "'w \<Rightarrow> gps_peers"
  ge_utc_time :: "'w \<Rightarrow> network_time option"
  ge_set_power_status :: "nat \<Rightarrow> 'w \<Rightarrow> sdk_result \<times> 'w"
  ge_get_power_status :: "'w \<Rightarrow> nat option \<times> 'w"
  ge_enable_nmea_output :: "nat \<Rightarrow> 'w \<Rightarrow> sdk_result \<times> 'w"
  ge_gps_and_glonass :: nat
  ge_set_mode :: "nat \<Rightarrow> 'w \<Rightarrow> sdk_result \<times> 'w"
  ge_set_nmea_rate :: "nat \<Rightarrow> 'w \<Rightarrow> sdk_result \<times> 'w"
  ge_start_mode :: "nat \<Rightarrow> 'w \<Rightarrow> sdk_result \<times> 'w"
  ge_set_gnss_info_period :: "nat \<Rightarrow> 'w \<Rightarrow> sdk_result \<times> 'w"
  ge_open_agps_service :: "'w \<Rightarrow> sdk_result \<times> 'w"
  ge_set_nmea_callback :: "bool \<Rightarrow> 'w \<Rightarrow> sdk_result \<times> 'w"
  ge_reboot :: "'w \<Rightarrow> 'w"
  ge_reset_reason :: "'w \<Rightarrow> nat"
  ge_queue_alloc :: "'w \<Rightarrow> (nat option \<times> bool \<times> bool \<times> 'u list) \<times> 'w"
  ge_task_create :: "'w \<Rightarrow> nat option \<times> 'w"
  ge_task_delete :: "nat \<Rightarrow> 'w \<Rightarrow> 'w"
  ge_store_bytes :: "gps_stored \<Rightarrow> bytes"
  ge_store_of_bytes :: "bytes \<Rightarrow> gps_stored"
  ge_store_size :: nat

abbreviation ge_flash :: "('u, 'w) gps_env \<Rightarrow> 'w flash" where "ge_flash E \<equiv> os_flash (ge_os E)"

subsection \<open>The record on flash\<close>

abbreviation (input) GPS_STORE_MAGIC :: nat where "GPS_STORE_MAGIC \<equiv> 0x47505356"
abbreviation (input) GPS_STORE_VERSION :: nat where "GPS_STORE_VERSION \<equiv> 2"
definition GPS_LAST_VALID_FILE_PATH :: string where "GPS_LAST_VALID_FILE_PATH = ''C:/config/gps_last_valid.bin''"

text \<open>An error code of the SDK is \<open>SDK_ERROR\<close>: the callers ask for success only.\<close>

definition gps_file_write :: "'w flash \<Rightarrow> string \<Rightarrow> bytes \<Rightarrow> 'w \<Rightarrow> sdk_result \<times> 'w" where
  "gps_file_write F path data w =
     (let (_, w) = f_mkdir F ''C:/config'' w; (f, w) = f_open F path ''wb'' w in
      case f of
        None \<Rightarrow> (SDK_ERROR, w)
      | Some h \<Rightarrow>
          let (ok, written, w) = f_write F h data w;
              r = (if \<not> ok \<or> written \<noteq> length data then SDK_ERROR else SDK_SUCCESS);
              (_, w) = f_sync F h w; (_, w) = f_close F h w
          in (r, w))"

definition gps_file_read :: "'w flash \<Rightarrow> string \<Rightarrow> nat \<Rightarrow> 'w \<Rightarrow> sdk_result \<times> bytes \<times> 'w" where
  "gps_file_read F path len w =
     (let (f, w) = f_open F path ''rb'' w in
      case f of
        None \<Rightarrow> (SDK_ERROR, [], w)
      | Some h \<Rightarrow>
          let (ok, data, w) = f_read F h len w; (_, w) = f_close F h w
          in (if ok then SDK_SUCCESS else SDK_ERROR, data, w))"

definition disk_write_record :: "('u, 'w) gps_env \<Rightarrow> gps_stored \<Rightarrow> 'w \<Rightarrow> sdk_result \<times> 'w" where
  "disk_write_record E rec w = gps_file_write (ge_flash E) GPS_LAST_VALID_FILE_PATH (ge_store_bytes E rec) w"

definition disk_read_record :: "('u, 'w) gps_env \<Rightarrow> 'w \<Rightarrow> gps_stored option \<times> 'w" where
  "disk_read_record E w =
     (let (r, data, w) = gps_file_read (ge_flash E) GPS_LAST_VALID_FILE_PATH (ge_store_size E) w;
          out = ge_store_of_bytes E data
      in if r \<noteq> SDK_SUCCESS then (None, w)
         else if length data = ge_store_size E \<and> sd_magic out = GPS_STORE_MAGIC \<and> sd_version out = GPS_STORE_VERSION
         then (Some out, w) else (None, w))"

definition gps_storage_clear :: "('u, 'w) gps_env \<Rightarrow> 'w \<Rightarrow> sdk_result \<times> 'w" where
  "gps_storage_clear E w = (SDK_SUCCESS, snd (f_delete (ge_flash E) GPS_LAST_VALID_FILE_PATH w))"

definition stamp_utc :: "('u, 'w) gps_env \<Rightarrow> 'w \<Rightarrow> gps_packet \<Rightarrow> gps_packet" where
  "stamp_utc E w p =
     (case ge_utc_time E w of
        None \<Rightarrow> p
      | Some t \<Rightarrow> let utc = nat (utils_time_to_unix (Some t)) in if utc \<noteq> 0 then p\<lparr>gp_utc_time := utc\<rparr> else p)"

definition gps_storage_save_packet :: "('u, 'w) gps_env \<Rightarrow> gps_packet option \<Rightarrow> 'w \<Rightarrow> sdk_result \<times> 'w" where
  "gps_storage_save_packet E pkt w =
     (case pkt of
        None \<Rightarrow> (SDK_SUCCESS, w)
      | Some p \<Rightarrow>
          if \<not> gps_validate_coordinates (gp_latitude_deg p) (gp_longitude_deg p) then (SDK_SUCCESS, w)
          else disk_write_record E \<lparr>sd_magic = GPS_STORE_MAGIC, sd_version = GPS_STORE_VERSION, sd_packet = stamp_utc E w p\<rparr> w)"

definition gps_storage_save_last_valid :: "('u, 'w) gps_env \<Rightarrow> gps_packet \<Rightarrow> 'w \<Rightarrow> sdk_result \<times> 'w" where
  "gps_storage_save_last_valid E p w =
     (if gp_utc_time p = 0 \<or> \<not> gps_validate_coordinates (gp_latitude_deg p) (gp_longitude_deg p) then (SDK_SUCCESS, w)
      else gps_storage_save_packet E (Some p) w)"

subsection \<open>After a boot\<close>

definition gps_post_boot_is_power_on_reset :: "('u, 'w) gps_env \<Rightarrow> 'w \<Rightarrow> bool" where
  "gps_post_boot_is_power_on_reset E w \<longleftrightarrow> (let reason = ge_reset_reason E w in reason = char_code CHR ''N'' \<or> reason = 0)"

definition gps_storage_rtc_utc_is_valid :: "('u, 'w) gps_env \<Rightarrow> 'w \<Rightarrow> nat option" where
  "gps_storage_rtc_utc_is_valid E w =
     (case ge_utc_time E w of
        None \<Rightarrow> None
      | Some t \<Rightarrow> let utc = nat (utils_time_to_unix (Some t)) in if utc < GPS_TIME_VALID_MIN_UTC_UNIX then None else Some utc)"

definition gps_storage_load_from_disk :: "('u, 'w) gps_env \<Rightarrow> gps_packet \<Rightarrow> 'w \<Rightarrow> gps_packet \<times> 'w" where
  "gps_storage_load_from_disk E last_valid w =
     (case disk_read_record E w of
        (None, w) \<Rightarrow> (last_valid, w)
      | (Some rec, w) \<Rightarrow>
          if \<not> gps_validate_coordinates (gp_latitude_deg (sd_packet rec)) (gp_longitude_deg (sd_packet rec)) then (last_valid, w)
          else (sd_packet rec, w))"

text \<open>The last valid position of the runtime, before and after.\<close>

definition gps_storage_handle_post_boot :: "('u, 'w) gps_env \<Rightarrow> gps_packet \<Rightarrow> 'w \<Rightarrow> gps_packet \<times> 'w" where
  "gps_storage_handle_post_boot E last_valid w =
     (if gps_post_boot_is_power_on_reset E w then
        (case gps_storage_rtc_utc_is_valid E w of
           Some _ \<Rightarrow> gps_storage_load_from_disk E last_valid w
         | None \<Rightarrow> (last_valid, snd (gps_storage_clear E w)))
      else gps_storage_load_from_disk E last_valid w)"

subsection \<open>The position survives a reboot\<close>

text \<open>The law of the layout: what is read back from the bytes of the record is the record, for the position \<open>p\<close> at any time that
  fits its field.\<close>

definition store_law :: "('u, 'w) gps_env \<Rightarrow> gps_packet \<Rightarrow> bool" where
  "store_law E p \<longleftrightarrow> (\<forall>t. t \<le> UINT32_MAX \<longrightarrow>
     (let rec = \<lparr>sd_magic = GPS_STORE_MAGIC, sd_version = GPS_STORE_VERSION, sd_packet = p\<lparr>gp_utc_time := t\<rparr>\<rparr> in
      length (ge_store_bytes E rec) = ge_store_size E \<and> ge_store_of_bytes E (ge_store_bytes E rec) = rec))"

lemma gps_file_write_reliable:
  assumes laws: "flash_laws F C H" and rel: "flash_reliable F C H"
  shows "\<exists>w'. gps_file_write F path data w = (SDK_SUCCESS, w') \<and> C w' = (C w)(path \<mapsto> data)"
proof -
  obtain r w1 where 1: "f_mkdir F ''C:/config'' w = (r, w1)" "C w1 = C w" using mkdir_C [OF laws] by (metis prod.collapse)
  obtain h w2 where 2: "f_open F path ''wb'' w1 = (Some h, w2)" using reliable_open [OF rel, of "''wb''" w1 path] by auto
  have o: "C w2 = (C w)(path \<mapsto> [])" "H w2 h = Some (path, 0, False)" using open_wb(2) [OF laws 2] 1 by auto
  obtain w3 where 3: "f_write F h data w2 = (True, length data, w3)" using reliable_write [OF rel] o by (metis option.discI)
  have c: "C w2 path = Some []" using o by simp
  have "C w3 q = ((C w)(path \<mapsto> data)) q" for q
    using write_spec(1) [OF laws 3 o(2) c, of q] write_spec(2) [OF laws 3 o(2) c] o by (cases "q = path") auto
  then have 4: "C w3 = (C w)(path \<mapsto> data)" by (rule ext)
  obtain b w4 where 5: "f_sync F h w3 = (b, w4)" "C w4 = C w3" using sync_C [OF laws] by (metis prod.collapse)
  obtain b' w5 where 6: "f_close F h w4 = (b', w5)" "C w5 = C w4" using close_C [OF laws] by (metis prod.collapse)
  show ?thesis using 1 2 3 4 5 6 by (simp add: gps_file_write_def Let_def)
qed

lemma gps_file_read_reliable:
  assumes laws: "flash_laws F C H" and rel: "flash_reliable F C H" and c: "C w path = Some c" and n: "length c = n"
  shows "\<exists>w'. gps_file_read F path n w = (SDK_SUCCESS, c, w') \<and> C w' = C w"
proof -
  obtain h w1 where 1: "f_open F path ''rb'' w = (Some h, w1)" using reliable_open [OF rel, of "''rb''" w path] c by auto
  have o: "C w1 = C w" "H w1 h = Some (path, 0, False)" using open_rb [OF laws 1] by auto
  obtain w2 where 2: "f_read F h n w1 = (True, c, w2)" "C w2 = C w1"
    using reliable_read [OF laws rel o(2), where c = c and n = n] o c n by auto
  obtain b w3 where 3: "f_close F h w2 = (b, w3)" "C w3 = C w2" using close_C [OF laws] by (metis prod.collapse)
  show ?thesis using 1 2 3 o by (simp add: gps_file_read_def Let_def)
qed

lemma time_to_unix_fits: "nat (utils_time_to_unix t) \<le> UINT32_MAX"
proof -
  have m: "i mod 2 ^ 32 \<le> int UINT32_MAX" for i :: int using pos_mod_bound [of "2 ^ 32" i] by simp
  show ?thesis unfolding utils_time_to_unix_def Let_def nat_le_iff using m by (simp only: split: option.split if_split) simp
qed

lemma stamp_time: "gp_utc_time p \<le> UINT32_MAX \<Longrightarrow> \<exists>t. t \<le> UINT32_MAX \<and> stamp_utc E w p = p\<lparr>gp_utc_time := t\<rparr>"
proof (cases "stamp_utc E w p = p")
  case True
  then show "gp_utc_time p \<le> UINT32_MAX \<Longrightarrow> ?thesis" by (intro exI [of _ "gp_utc_time p"]) simp
next
  case False
  then obtain t where "stamp_utc E w p = p\<lparr>gp_utc_time := nat (utils_time_to_unix t)\<rparr>"
    by (auto simp: stamp_utc_def Let_def split: option.splits if_splits)
  then show ?thesis using time_to_unix_fits [of t] by blast
qed

lemma stamp_coordinates [simp]:
  "gp_latitude_deg (stamp_utc E w p) = gp_latitude_deg p" "gp_longitude_deg (stamp_utc E w p) = gp_longitude_deg p"
  by (auto simp: stamp_utc_def Let_def split: option.split)

text \<open>C35: the last position survives a reboot. A valid position that was saved, on flash that does not fail, is the last valid
  position after the next boot, with the time it was saved at where the clock gave one. Only after a power-on without a valid clock
  is it removed from flash and not used.\<close>

theorem saved_position_survives_reboot:
  assumes laws: "flash_laws (ge_flash E) C H" and rel: "flash_reliable (ge_flash E) C H" and store: "store_law E p"
    and p: "gp_utc_time p \<le> UINT32_MAX" "gps_validate_coordinates (gp_latitude_deg p) (gp_longitude_deg p)"
    and saved: "gps_storage_save_packet E (Some p) w = (r, w1)"
    and boot: "C w2 GPS_LAST_VALID_FILE_PATH = C w1 GPS_LAST_VALID_FILE_PATH"
    and post: "gps_storage_handle_post_boot E old w2 = (new, w3)"
  shows "r = SDK_SUCCESS \<and>
    (if gps_post_boot_is_power_on_reset E w2 \<and> gps_storage_rtc_utc_is_valid E w2 = None
     then new = old \<and> C w3 = (C w2)(GPS_LAST_VALID_FILE_PATH := None)
     else new = stamp_utc E w p \<and> C w3 = C w2)"
proof -
  let ?q = "stamp_utc E w p" and ?f = GPS_LAST_VALID_FILE_PATH
  let ?rec = "\<lparr>sd_magic = GPS_STORE_MAGIC, sd_version = GPS_STORE_VERSION, sd_packet = ?q\<rparr>"
  have rec: "length (ge_store_bytes E ?rec) = ge_store_size E" "ge_store_of_bytes E (ge_store_bytes E ?rec) = ?rec"
    using store stamp_time [OF p(1), of E w] by (auto simp: store_law_def Let_def)
  obtain w' where wr: "gps_file_write (ge_flash E) ?f (ge_store_bytes E ?rec) w = (SDK_SUCCESS, w')" "C w' = (C w)(?f \<mapsto> ge_store_bytes E ?rec)"
    using gps_file_write_reliable [OF laws rel] by blast
  then have r: "r = SDK_SUCCESS" and w1: "C w1 = (C w)(?f \<mapsto> ge_store_bytes E ?rec)"
    using saved p(2) by (simp_all add: gps_storage_save_packet_def disk_write_record_def)
  have c: "C w2 ?f = Some (ge_store_bytes E ?rec)" using boot w1 by simp
  obtain w4 where rd: "gps_file_read (ge_flash E) ?f (ge_store_size E) w2 = (SDK_SUCCESS, ge_store_bytes E ?rec, w4)" "C w4 = C w2"
    using gps_file_read_reliable [OF laws rel c rec(1)] by blast
  have load: "gps_storage_load_from_disk E old w2 = (?q, w4)"
    using rd rec p(2) by (simp add: gps_storage_load_from_disk_def disk_read_record_def)
  obtain w5 where del: "f_delete (ge_flash E) ?f w2 = (True, w5)" using reliable_delete [OF rel, of w2 ?f] c by auto
  show ?thesis
    using post r load rd(2) delete_spec [OF laws del] del
    by (auto simp: gps_storage_handle_post_boot_def gps_storage_clear_def split: option.splits if_splits)
qed

end
