(* ===== verification/Gps_Ops.thy ===== *)
theory Gps_Ops
  imports Gps_Storage
begin

text \<open>
  The rest of \<open>module/gps/gps_ops.c\<close>: configuration of the receiver, samples and their filters, time sources, fix
  transitions, and the packet for the TCP queue. A loop that drains the queue of the sentences makes what uses it an
  option. The variables that only keep a message from being logged twice are left out.
\<close>

subsection \<open>State\<close>

definition gm_world :: "('u, 'w) gps_module \<Rightarrow> 'w" where "gm_world g = gw_world (gm_gateway g)"

definition set_gm_world :: "'w \<Rightarrow> ('u, 'w) gps_module \<Rightarrow> ('u, 'w) gps_module" where
  "set_gm_world w g = g\<lparr>gm_gateway := (gm_gateway g)\<lparr>gw_world := w\<rparr>\<rparr>"

abbreviation rt_update :: "(gps_runtime \<Rightarrow> gps_runtime) \<Rightarrow> ('u, 'w) gps_module \<Rightarrow> ('u, 'w) gps_module" where
  "rt_update f g \<equiv> g\<lparr>gm_rt := f (gm_rt g)\<rparr>"

abbreviation st_update :: "(gps_statics \<Rightarrow> gps_statics) \<Rightarrow> ('u, 'w) gps_module \<Rightarrow> ('u, 'w) gps_module" where
  "st_update f g \<equiv> g\<lparr>gm_st := f (gm_st g)\<rparr>"

abbreviation gm_current :: "('u, 'w) gps_module \<Rightarrow> gps_packet" where "gm_current g \<equiv> gr_current_gps_data (gm_rt g)"
abbreviation gm_last_valid :: "('u, 'w) gps_module \<Rightarrow> gps_packet" where "gm_last_valid g \<equiv> gr_last_valid_gps_data (gm_rt g)"

definition set_current :: "gps_packet \<Rightarrow> ('u, 'w) gps_module \<Rightarrow> ('u, 'w) gps_module" where
  "set_current p = rt_update (\<lambda>r. r\<lparr>gr_current_gps_data := p\<rparr>)"

definition set_last_valid :: "gps_packet \<Rightarrow> ('u, 'w) gps_module \<Rightarrow> ('u, 'w) gps_module" where
  "set_last_valid p = rt_update (\<lambda>r. r\<lparr>gr_last_valid_gps_data := p\<rparr>)"

text \<open>A call of the SDK, and the clock.\<close>

definition sdk :: "('w \<Rightarrow> 'r \<times> 'w) \<Rightarrow> ('u, 'w) gps_module \<Rightarrow> 'r \<times> ('u, 'w) gps_module" where
  "sdk f g = (let (r, w) = f (gm_world g) in (r, set_gm_world w g))"

definition gps_sleep :: "('u, 'w) gps_env \<Rightarrow> nat \<Rightarrow> ('u, 'w) gps_module \<Rightarrow> ('u, 'w) gps_module" where
  "gps_sleep E ms g = set_gm_world (os_sleep (ge_os E) ms (gm_world g)) g"

definition gps_uptime :: "('u, 'w) gps_env \<Rightarrow> ('u, 'w) gps_module \<Rightarrow> nat \<times> ('u, 'w) gps_module" where
  "gps_uptime E g = (let (t, gw) = get_uptime (ge_os E) (gm_gateway g) in (t, g\<lparr>gm_gateway := gw\<rparr>))"

subsection \<open>Implausible jumps\<close>

abbreviation (input) GPS_IMPLAUSIBLE_SPEED_STREAK_ACCEPT :: nat where "GPS_IMPLAUSIBLE_SPEED_STREAK_ACCEPT \<equiv> 5"
abbreviation (input) GPS_IMPLAUSIBLE_SPEED_MIN_DT_SEC :: nat where "GPS_IMPLAUSIBLE_SPEED_MIN_DT_SEC \<equiv> 1"
abbreviation (input) GPS_IMPLAUSIBLE_SPEED_KMH_MAX :: int where "GPS_IMPLAUSIBLE_SPEED_KMH_MAX \<equiv> 500"

definition gps_ops_is_valid_utc :: "nat \<Rightarrow> bool" where
  "gps_ops_is_valid_utc utc_time \<longleftrightarrow> utc_time \<ge> GPS_TIME_VALID_MIN_UTC_UNIX"

definition position_valid :: "gps_packet \<Rightarrow> bool" where
  "position_valid p \<longleftrightarrow> gps_validate_coordinates (gp_latitude_deg p) (gp_longitude_deg p)"

definition gps_ops_get_jump_filter_reference :: "gps_packet \<Rightarrow> gps_packet option" where
  "gps_ops_get_jump_filter_reference last_valid =
     (if gp_utc_time last_valid \<noteq> 0 \<and> position_valid last_valid then Some last_valid else None)"

definition packet_distance :: "libm \<Rightarrow> gps_packet \<Rightarrow> gps_packet \<Rightarrow> float32" where
  "packet_distance M p q =
     utils_calculate_gps_distance M (gp_latitude_deg p) (gp_longitude_deg p) (gp_latitude_deg q) (gp_longitude_deg q)"

definition speed_kmh :: "float32 \<Rightarrow> nat \<Rightarrow> float32" where
  "speed_kmh dist_m dt_sec = f32_div (f32_mul dist_m (f32_of_rat (36 / 10))) (f32_of_int (int dt_sec))"

text \<open>The sample after the filter, and the streak.\<close>

definition gps_ops_filter_implausible_jump :: "libm \<Rightarrow> gps_packet \<Rightarrow> gps_packet \<Rightarrow> nat \<Rightarrow> gps_packet \<times> nat" where
  "gps_ops_filter_implausible_jump M last_valid out streak =
     (if \<not> position_valid out then (out, streak)
      else case gps_ops_get_jump_filter_reference last_valid of
        None \<Rightarrow> (out, 0)
      | Some ref \<Rightarrow>
          if \<not> gps_ops_is_valid_utc (gp_utc_time out) \<or> \<not> gps_ops_is_valid_utc (gp_utc_time ref) then (out, 0)
          else if gp_utc_time out \<le> gp_utc_time ref then (out, 0)
          else
            let dt_sec = max (gp_utc_time out - gp_utc_time ref) GPS_IMPLAUSIBLE_SPEED_MIN_DT_SEC;
                v = speed_kmh (packet_distance M ref out) dt_sec
            in if f32_le v (f32_of_int GPS_IMPLAUSIBLE_SPEED_KMH_MAX) then (out, 0)
            else
              let streak = u32 (streak + 1)
              in if streak < GPS_IMPLAUSIBLE_SPEED_STREAK_ACCEPT then (ref\<lparr>gp_utc_time := gp_utc_time out\<rparr>, streak)
                 else (out, 0))"

subsection \<open>Time sources\<close>

definition gps_ops_get_gsm_utc_time :: "network_time option \<Rightarrow> bool \<times> nat" where
  "gps_ops_get_gsm_utc_time rtc =
     (case rtc of
        None \<Rightarrow> (False, 0)
      | Some t \<Rightarrow> let utc = nat (utils_time_to_unix (Some t)) in (gps_ops_is_valid_utc utc, utc))"

definition gps_ops_apply_time_source_to_packet :: "gps_time_source \<Rightarrow> network_time option \<Rightarrow> gps_packet \<Rightarrow> gps_packet" where
  "gps_ops_apply_time_source_to_packet source rtc p =
     (let gps_valid_utc = gps_ops_is_valid_utc (gp_utc_time p); (gsm_valid_utc, gsm_utc) = gps_ops_get_gsm_utc_time rtc in
      case source of
        GPS_TIME_SOURCE_GPS \<Rightarrow> if \<not> gps_valid_utc \<and> gsm_valid_utc then p\<lparr>gp_utc_time := gsm_utc\<rparr> else p
      | GPS_TIME_SOURCE_GSM \<Rightarrow> if gps_valid_utc \<and> \<not> gsm_valid_utc then p else p\<lparr>gp_utc_time := gsm_utc\<rparr>
      | GPS_TIME_SOURCE_AUTO \<Rightarrow>
          if gp_fix_valid_real p \<and> gps_valid_utc then p
          else if gsm_valid_utc then p\<lparr>gp_utc_time := gsm_utc\<rparr>
          else if gps_valid_utc then p
          else p\<lparr>gp_utc_time := gsm_utc\<rparr>)"

subsection \<open>Configuration of the receiver\<close>

abbreviation (input) GPS_WALNUT_NMEA_DATA_GET_MODE :: nat where "GPS_WALNUT_NMEA_DATA_GET_MODE \<equiv> 0"
abbreviation (input) GPS_GNSS_POWER_ON_PRE_DELAY_MS :: nat where "GPS_GNSS_POWER_ON_PRE_DELAY_MS \<equiv> 2000"
abbreviation (input) GPS_GNSS_POWER_STABILIZE_MS :: nat where "GPS_GNSS_POWER_STABILIZE_MS \<equiv> 2000"
abbreviation (input) GPS_POWER_STATUS_CHECK_GAP_SEC :: nat where "GPS_POWER_STATUS_CHECK_GAP_SEC \<equiv> 5"
abbreviation (input) GPS_NMEA_RATE_DEFAULT :: nat where "GPS_NMEA_RATE_DEFAULT \<equiv> 1"
abbreviation (input) GPS_GNSS_INFO_PERIOD_S :: nat where "GPS_GNSS_INFO_PERIOD_S \<equiv> 1"
abbreviation (input) GPS_AGPS_VALIDITY_SEC :: nat where "GPS_AGPS_VALIDITY_SEC \<equiv> 4 * 3600"
abbreviation (input) GPS_AGPS_FAIL_COOLDOWN_SEC :: nat where "GPS_AGPS_FAIL_COOLDOWN_SEC \<equiv> 600"
definition EVENT_GPS_CONFIGURED :: nat where "EVENT_GPS_CONFIGURED = 6"

definition gps_ops_configure_nmea_output :: "('u, 'w) gps_env \<Rightarrow> ('u, 'w) gps_module \<Rightarrow> bool \<times> ('u, 'w) gps_module" where
  "gps_ops_configure_nmea_output E g =
     (if gr_gnss_nmea_output_configured (gm_rt g) then (True, g)
      else
        let (nr, g) = sdk (ge_enable_nmea_output E GPS_WALNUT_NMEA_DATA_GET_MODE) g
        in if nr = SDK_SUCCESS \<or> nr = SDK_NOT_SUPPORTED then (True, rt_update (\<lambda>r. r\<lparr>gr_gnss_nmea_output_configured := True\<rparr>) g)
           else (False, g))"

definition gps_ops_try_start_nmea_output :: "('u, 'w) gps_env \<Rightarrow> ('u, 'w) gps_module \<Rightarrow> bool \<times> ('u, 'w) gps_module" where
  "gps_ops_try_start_nmea_output E g =
     (if gr_gnss_nmea_output_configured (gm_rt g) then (False, g) else (True, snd (gps_ops_configure_nmea_output E g)))"

definition gps_ops_power_on_and_configure_nmea_step :: "('u, 'w) gps_env \<Rightarrow> ('u, 'w) gps_module \<Rightarrow> bool \<times> ('u, 'w) gps_module" where
  "gps_ops_power_on_and_configure_nmea_step E g =
     (if gs_power_forced_off (gm_st g) then (False, g)
      else if gs_pwr_nmea_setup_done (gm_st g) then (True, g)
      else
        let g = gps_sleep E GPS_GNSS_POWER_ON_PRE_DELAY_MS g; (r, g) = sdk (ge_set_power_status E 1) g
        in if r \<noteq> SDK_SUCCESS then (False, g)
        else
          let g = gps_sleep E GPS_GNSS_POWER_STABILIZE_MS g; (ok, g) = gps_ops_configure_nmea_output E g
          in if \<not> ok then (False, g) else (True, st_update (\<lambda>s. s\<lparr>gs_pwr_nmea_setup_done := True\<rparr>) g))"

definition gps_ops_set_power_enabled :: "('u, 'w) gps_env \<Rightarrow> bool \<Rightarrow> ('u, 'w) gps_module \<Rightarrow> result \<times> ('u, 'w) gps_module" where
  "gps_ops_set_power_enabled E on g =
     (if on then
        (if \<not> gs_power_forced_off (gm_st g) then (RESULT_SUCCESS, g)
         else (RESULT_SUCCESS,
           st_update (\<lambda>s. s\<lparr>gs_power_forced_off := False, gs_pwr_nmea_setup_done := False, gs_last_power_status_check := 0,
               gs_cached_power_on := False, gs_parse_fail_streak := 0, gs_parse_fail_reset_sent := False\<rparr>)
             (rt_update (\<lambda>r. r\<lparr>gr_gnss_mode_set := False, gr_gnss_nmea_rate_set := False, gr_gnss_nmea_output_configured := False,
                 gr_gnss_nmea_output_started := False, gr_gnss_start_mode_set := False, gr_gnss_info_report_set := False\<rparr>) g)))
      else if gs_power_forced_off (gm_st g) then (RESULT_SUCCESS, g)
      else
        let (r, g) = sdk (ge_set_power_status E 0) g
        in if r \<noteq> SDK_SUCCESS then (RESULT_ERROR, g)
           else (RESULT_SUCCESS, set_current gps_packet_zero (rt_update (\<lambda>r. r\<lparr>gr_gnss_nmea_output_started := False\<rparr>)
             (st_update (\<lambda>s. s\<lparr>gs_power_forced_off := True\<rparr>) g))))"

definition gps_ops_is_power_forced_off :: "('u, 'w) gps_module \<Rightarrow> bool" where
  "gps_ops_is_power_forced_off g = gs_power_forced_off (gm_st g)"

definition gps_ops_can_proceed_config :: "('u, 'w) gps_env \<Rightarrow> ('u, 'w) gps_module \<Rightarrow> bool \<times> ('u, 'w) gps_module" where
  "gps_ops_can_proceed_config E g =
     (if gr_gnss_nmea_output_started (gm_rt g) then (True, g)
      else
        let (now, g) = gps_uptime E g; last = gs_last_power_status_check (gm_st g);
            g = (if last = 0 \<or> u32_minus now last \<ge> GPS_POWER_STATUS_CHECK_GAP_SEC then
                   let (power_on, g) = sdk (ge_get_power_status E) g
                   in st_update (\<lambda>s. s\<lparr>gs_cached_power_on := (case power_on of None \<Rightarrow> False | Some n \<Rightarrow> n \<noteq> 0),
                        gs_last_power_status_check := now\<rparr>) g
                 else g)
        in (gs_cached_power_on (gm_st g), g))"

definition gps_all_configured :: "gps_runtime \<Rightarrow> bool" where
  "gps_all_configured r \<longleftrightarrow> gr_gnss_mode_set r \<and> gr_gnss_nmea_rate_set r \<and> gr_gnss_nmea_output_configured r \<and>
     gr_gnss_start_mode_set r \<and> gr_gnss_info_report_set r"

definition broadcast_configured :: "('u, 'w) gps_env \<Rightarrow> ('u, 'w) gps_module \<Rightarrow> ('u, 'w) gps_module" where
  "broadcast_configured E g =
     (let g = st_update (\<lambda>s. s\<lparr>gs_configured_event_sent := True\<rparr>) g;
          (_, em, gw) = event_manager_broadcast (call_listener (ge_listener E)) EVENT_GPS_CONFIGURED (Some ''GPS'') None 0
            (gw_events (gm_gateway g), gm_gateway g)
      in g\<lparr>gm_gateway := gw\<lparr>gw_events := em\<rparr>\<rparr>)"

definition receiver_start_mode :: "('u, 'w) gps_env \<Rightarrow> ('u, 'w) gps_module \<Rightarrow> nat" where
  "receiver_start_mode E g =
     (if \<not> gps_post_boot_is_power_on_reset E (gm_world g) then SDK_GNSS_START_HOT
      else
        let m = gc_start_mode (gm_config g)
        in if m \<noteq> SDK_GNSS_START_HOT \<and> m \<noteq> SDK_GNSS_START_WARM \<and> m \<noteq> SDK_GNSS_START_COLD then SDK_GNSS_START_WARM else m)"

definition gps_ops_retry_configuration :: "('u, 'w) gps_env \<Rightarrow> ('u, 'w) gps_module \<Rightarrow> ('u, 'w) gps_module" where
  "gps_ops_retry_configuration E g =
     (if gs_power_forced_off (gm_st g) then g
      else
        let all_configured = gps_all_configured (gm_rt g);
            g = (if \<not> gs_configured_event_sent (gm_st g) \<and> all_configured then broadcast_configured E g else g)
        in if all_configured then g
        else case gps_ops_can_proceed_config E g of (proceed, g) \<Rightarrow>
          if \<not> proceed then g
          else case gps_ops_try_start_nmea_output E g of (tried, g) \<Rightarrow>
            if tried then g
            else if \<not> gr_gnss_mode_set (gm_rt g) then
              let (r, g) = sdk (ge_set_mode E (ge_gps_and_glonass E)) g
              in if r = SDK_SUCCESS then rt_update (\<lambda>r. r\<lparr>gr_gnss_mode_set := True\<rparr>) g else g
            else if \<not> gr_gnss_nmea_rate_set (gm_rt g) then
              let (r, g) = sdk (ge_set_nmea_rate E GPS_NMEA_RATE_DEFAULT) g
              in if r = SDK_SUCCESS then rt_update (\<lambda>r. r\<lparr>gr_gnss_nmea_rate_set := True\<rparr>) g else g
            else if \<not> gr_gnss_start_mode_set (gm_rt g) then
              let (r, g) = sdk (ge_start_mode E (receiver_start_mode E g)) g
              in if r = SDK_SUCCESS then rt_update (\<lambda>r. r\<lparr>gr_gnss_start_mode_set := True\<rparr>) g else g
            else if \<not> gr_gnss_info_report_set (gm_rt g) then
              rt_update (\<lambda>r. r\<lparr>gr_gnss_info_report_set := True\<rparr>) (snd (sdk (ge_set_gnss_info_period E GPS_GNSS_INFO_PERIOD_S) g))
            else g)"

definition gps_ops_open_agps_if_needed :: "('u, 'w) gps_env \<Rightarrow> ('u, 'w) gps_module \<Rightarrow> ('u, 'w) gps_module" where
  "gps_ops_open_agps_if_needed E g =
     (if \<not> gc_enable_agps (gm_config g) then g
      else if \<not> pe_network_connected (ge_peers E (gm_world g)) then g
      else if \<not> pe_network_stable (ge_peers E (gm_world g)) then g
      else if \<not> gr_gnss_mode_set (gm_rt g) \<or> \<not> gr_gnss_nmea_rate_set (gm_rt g) \<or> \<not> gr_gnss_nmea_output_configured (gm_rt g) \<or>
        \<not> gr_gnss_start_mode_set (gm_rt g) then g
      else if gr_gnss_agps_set (gm_rt g) then g
      else
        let (uptime, g) = gps_uptime E g; last = gr_last_agps_open_attempt_time (gm_rt g)
        in if last \<noteq> 0 \<and> u32_minus uptime last < GPS_AGPS_FAIL_COOLDOWN_SEC then g
        else
          let (ret, g) = sdk (ge_open_agps_service E) g
          in if ret = SDK_SUCCESS then
               let (t, g) = gps_uptime E g
               in rt_update (\<lambda>r. r\<lparr>gr_gnss_agps_set := True, gr_last_agps_open_time := t, gr_last_agps_open_attempt_time := 0\<rparr>) g
             else if ret = SDK_NOT_SUPPORTED then rt_update (\<lambda>r. r\<lparr>gr_gnss_agps_set := True\<rparr>) g
             else let (t, g) = gps_uptime E g in rt_update (\<lambda>r. r\<lparr>gr_last_agps_open_attempt_time := t\<rparr>) g)"

definition gps_ops_agps_refresh_if_needed :: "('u, 'w) gps_env \<Rightarrow> ('u, 'w) gps_module \<Rightarrow> ('u, 'w) gps_module" where
  "gps_ops_agps_refresh_if_needed E g =
     (if \<not> gc_enable_agps (gm_config g) \<or> \<not> gr_gnss_agps_set (gm_rt g) then g
      else if gp_fix_valid_calculated (gm_current g) then g
      else if gr_last_agps_open_time (gm_rt g) = 0 then g
      else
        let (uptime, g) = gps_uptime E g
        in if u32_minus uptime (gr_last_agps_open_time (gm_rt g)) < GPS_AGPS_VALIDITY_SEC then g
           else rt_update (\<lambda>r. r\<lparr>gr_gnss_agps_set := False\<rparr>) g)"

subsection \<open>Samples\<close>

abbreviation (input) GPS_PARSE_FAIL_SOFT_RESET_COUNT :: nat where "GPS_PARSE_FAIL_SOFT_RESET_COUNT \<equiv> 60"
abbreviation (input) GPS_NMEA_STALL_CYCLES :: nat where "GPS_NMEA_STALL_CYCLES \<equiv> 20"
abbreviation (input) GPS_URC_SENTENCE_MAX :: nat where "GPS_URC_SENTENCE_MAX \<equiv> 96"
abbreviation (input) GPS_URC_COMBINED_MAX :: nat where "GPS_URC_COMBINED_MAX \<equiv> 200"

text \<open>The text of an element of the queue.\<close>

definition urc_text :: "('u, 'w) gps_env \<Rightarrow> 'u \<Rightarrow> string" where
  "urc_text E el = c_str (map char_of_byte (e_bytes (os_urc_abi (ge_os E)) el))"

definition gps_urc_queue :: "('u, 'w) gps_module \<Rightarrow> (queue_config \<times> nat \<times> 'u queue) option" where
  "gps_urc_queue g =
     (case module_get MODULE_ID_GPS (gm_gateway g) of
        None \<Rightarrow> None
      | Some m \<Rightarrow> map_option (\<lambda>hq. (mc_urc_q_config (m_config m), hq)) (mc_urc_q (m_config m)))"

definition set_gps_urc_queue :: "(nat \<times> 'u queue) option \<Rightarrow> ('u, 'w) gps_module \<Rightarrow> ('u, 'w) gps_module" where
  "set_gps_urc_queue hq g = g\<lparr>gm_gateway :=
     module_update (module_id_code MODULE_ID_GPS) (\<lambda>m. m\<lparr>m_config := (m_config m)\<lparr>mc_urc_q := hq\<rparr>\<rparr>) (gm_gateway g)\<rparr>"

text \<open>The last text in the queue, if there is one.\<close>

partial_function (option) drain_urc ::
    "('u, 'w) gps_env \<Rightarrow> queue_config \<Rightarrow> string option \<Rightarrow> 'u queue \<Rightarrow> 'w \<Rightarrow> (string option \<times> 'u queue \<times> 'w) option" where
  "drain_urc E cfg newest q w =
     (case queue_pop (ge_flash E) (os_urc_abi (ge_os E)) True cfg 1 q w of (r, els, q, w) \<Rightarrow>
        if r \<noteq> RESULT_SUCCESS \<or> els = [] then Some (newest, q, w)
        else drain_urc E cfg (if urc_text E (hd els) \<noteq> [] then Some (urc_text E (hd els)) else newest) q w)"

definition gps_manager_nmea_feed_register :: "('u, 'w) gps_env \<Rightarrow> ('u, 'w) gps_module \<Rightarrow> bool \<times> ('u, 'w) gps_module" where
  "gps_manager_nmea_feed_register E g = (let (r, g) = sdk (ge_set_nmea_callback E True) g in (r = SDK_SUCCESS, g))"

definition without_position :: "gps_packet \<Rightarrow> gps_packet" where
  "without_position p = (if position_valid p then p else p\<lparr>gp_latitude_deg := FZERO, gp_longitude_deg := FZERO, gp_speed_knots := FZERO\<rparr>)"

definition parse_newest :: "('u, 'w) gps_env \<Rightarrow> string \<Rightarrow> gps_packet \<Rightarrow> bool \<times> gps_packet" where
  "parse_newest E text out =
     (case utils_strncpy_safe (Some (replicate GPS_URC_COMBINED_MAX NUL)) (Some text) GPS_URC_COMBINED_MAX of
        (n, Some scratch) \<Rightarrow>
          if n < 0 then (False, out)
          else
            let (ok, p) = gps_ops_parse_gnrmc_gngga_combined (ge_libm E) (c_str scratch) out
            in if \<not> ok then (False, p) else (True, without_position p)
      | (n, None) \<Rightarrow> (False, out))"

definition gps_ops_query_and_parse_from_urc_queue :: "('u, 'w) gps_env \<Rightarrow> ('u, 'w) gps_module \<Rightarrow> (bool \<times> ('u, 'w) gps_module) option" where
  "gps_ops_query_and_parse_from_urc_queue E g =
     (case gps_urc_queue g of
        None \<Rightarrow> Some (False, g)
      | Some (cfg, h, q) \<Rightarrow>
          (case drain_urc E cfg None q (gm_world g) of
             None \<Rightarrow> None
           | Some (newest, q, w) \<Rightarrow>
               let g = set_gps_urc_queue (Some (h, q)) (set_gm_world w g);
                   g = (if gs_no_nmea_count (gm_st g) > GPS_NMEA_STALL_CYCLES
                        then st_update (\<lambda>s. s\<lparr>gs_no_nmea_count := 0\<rparr>) (snd (gps_manager_nmea_feed_register E g)) else g)
               in (case newest of
                     None \<Rightarrow> Some (False, st_update (\<lambda>s. s\<lparr>gs_no_nmea_count := (gs_no_nmea_count s + 1) mod 256\<rparr>) g)
                   | Some text \<Rightarrow>
                       let g = st_update (\<lambda>s. s\<lparr>gs_no_nmea_count := 0\<rparr>) g; (ok, p) = parse_newest E text (gm_current g)
                       in Some (ok, set_current p g))))"

definition gps_ops_query_and_parse :: "('u, 'w) gps_env \<Rightarrow> ('u, 'w) gps_module \<Rightarrow> (bool \<times> ('u, 'w) gps_module) option" where
  "gps_ops_query_and_parse E g =
     map_option (\<lambda>(rc, g).
       if rc then
         let (p, streak) = gps_ops_filter_implausible_jump (ge_libm E) (gm_last_valid g) (gm_current g) (gs_implausible_speed_streak (gm_st g))
         in (rc, set_current p (st_update (\<lambda>s. s\<lparr>gs_implausible_speed_streak := streak\<rparr>) g))
       else (rc, g)) (gps_ops_query_and_parse_from_urc_queue E g)"

definition gps_ops_update_fix_valid_calculated :: "gps_packet \<Rightarrow> gps_packet" where
  "gps_ops_update_fix_valid_calculated p = p\<lparr>gp_fix_valid_calculated := position_valid p\<rparr>"

definition count_parse_failure :: "('u, 'w) gps_env \<Rightarrow> ('u, 'w) gps_module \<Rightarrow> ('u, 'w) gps_module" where
  "count_parse_failure E g =
     (if gs_power_forced_off (gm_st g) \<or> gs_parse_fail_reset_sent (gm_st g) then g
      else
        let g = st_update (\<lambda>s. s\<lparr>gs_parse_fail_streak := u32 (gs_parse_fail_streak s + 1)\<rparr>) g
        in if gs_parse_fail_streak (gm_st g) \<ge> GPS_PARSE_FAIL_SOFT_RESET_COUNT then
             let g = st_update (\<lambda>s. s\<lparr>gs_parse_fail_reset_sent := True\<rparr>) g in set_gm_world (ge_reboot E (gm_world g)) g
           else g)"

definition finish_sample :: "('u, 'w) gps_env \<Rightarrow> ('u, 'w) gps_module \<Rightarrow> ('u, 'w) gps_module" where
  "finish_sample E g =
     set_current (gps_ops_update_fix_valid_calculated
       (gps_ops_apply_time_source_to_packet (gc_time_source (gm_config g)) (ge_utc_time E (gm_world g)) (gm_current g))) g"

definition gps_ops_refresh_current_sample :: "('u, 'w) gps_env \<Rightarrow> ('u, 'w) gps_module \<Rightarrow> ('u, 'w) gps_module option" where
  "gps_ops_refresh_current_sample E g =
     map_option (\<lambda>(rc, g).
       finish_sample E
         (if \<not> rc then count_parse_failure E (set_current gps_packet_zero (rt_update (\<lambda>r. r\<lparr>gr_gnss_nmea_output_started := False\<rparr>) g))
          else st_update (\<lambda>s. s\<lparr>gs_parse_fail_streak := 0, gs_parse_fail_reset_sent := False\<rparr>)
            (rt_update (\<lambda>r. r\<lparr>gr_gnss_nmea_output_started := True\<rparr>) g)))
       (gps_ops_query_and_parse E g)"

subsection \<open>Fix transitions\<close>

datatype gps_fix_transition = GPS_FIX_TRANSITION_NONE | GPS_FIX_TRANSITION_CONNECTED | GPS_FIX_TRANSITION_DISCONNECTED

definition gps_ops_has_valid_fix :: "('u, 'w) gps_module \<Rightarrow> bool" where
  "gps_ops_has_valid_fix g \<longleftrightarrow> gp_fix_valid_real (gm_current g)"

definition gps_ops_loc_storage_on_edge :: "('u, 'w) gps_env \<Rightarrow> bool \<Rightarrow> ('u, 'w) gps_module \<Rightarrow> ('u, 'w) gps_module" where
  "gps_ops_loc_storage_on_edge E active_on g =
     (if \<not> gps_ops_has_valid_fix g then g
      else if active_on then snd (sdk (gps_storage_clear E) g)
      else snd (sdk (gps_storage_save_packet E (Some (gm_current g))) g))"

definition gps_ops_loc_storage_update_on_motion_changed :: "('u, 'w) gps_env \<Rightarrow> bool \<Rightarrow> ('u, 'w) gps_module \<Rightarrow> ('u, 'w) gps_module" where
  "gps_ops_loc_storage_update_on_motion_changed E mot_on g = gps_ops_loc_storage_on_edge E mot_on g"

definition gps_ops_process_fix_transition :: "('u, 'w) gps_module \<Rightarrow> gps_fix_transition \<times> ('u, 'w) gps_module" where
  "gps_ops_process_fix_transition g =
     (let has_fix = gps_ops_has_valid_fix g; had_fix = gs_had_fix (gm_st g); g = st_update (\<lambda>s. s\<lparr>gs_had_fix := has_fix\<rparr>) g in
      if \<not> had_fix \<and> has_fix then (GPS_FIX_TRANSITION_CONNECTED, g)
      else if had_fix \<and> \<not> has_fix then (GPS_FIX_TRANSITION_DISCONNECTED, g)
      else (GPS_FIX_TRANSITION_NONE, g))"

definition update_last_valid_gps_data :: "gps_packet \<Rightarrow> ('u, 'w) gps_module \<Rightarrow> ('u, 'w) gps_module" where
  "update_last_valid_gps_data p = set_last_valid (p\<lparr>gp_speed_knots := FZERO\<rparr>)"

definition gps_ops_handle_fix_transition :: "('u, 'w) gps_env \<Rightarrow> gps_fix_transition \<Rightarrow> ('u, 'w) gps_module \<Rightarrow> ('u, 'w) gps_module" where
  "gps_ops_handle_fix_transition E ev g =
     (case ev of
        GPS_FIX_TRANSITION_CONNECTED \<Rightarrow>
          let g = rt_update (\<lambda>r. r\<lparr>gr_should_trigger := True, gr_trigger_reason := GPS_TRIGGER_GPS_FIX\<rparr>) g;
              g = snd (if \<not> gr_mot_status (gm_rt g) then sdk (gps_storage_save_packet E (Some (gm_current g))) g
                       else sdk (gps_storage_clear E) g)
          in update_last_valid_gps_data (gm_current g) g
      | GPS_FIX_TRANSITION_DISCONNECTED \<Rightarrow> snd (sdk (gps_storage_save_last_valid E (gm_last_valid g)) g)
      | GPS_FIX_TRANSITION_NONE \<Rightarrow> g)"

subsection \<open>The packet to send\<close>

datatype gps_packet_build_kind = GPS_PACKET_BUILD_CURRENT | GPS_PACKET_BUILD_LAST_VALID_MERGED

abbreviation (input) GPS_LAST_VALID_MIN_SATS :: nat where "GPS_LAST_VALID_MIN_SATS \<equiv> 4"

definition gps_ops_calc_speed_kmh_from_last_sent :: "('u, 'w) gps_env \<Rightarrow> ('u, 'w) gps_module \<Rightarrow> float32 \<times> ('u, 'w) gps_module" where
  "gps_ops_calc_speed_kmh_from_last_sent E g =
     (let cur = gm_current g; last = gm_last_valid g; last_send = gr_last_packet_send_uptime_sec (gm_rt g) in
      if \<not> gp_fix_valid_calculated cur \<or> gp_utc_time last = 0 \<or> last_send = 0 then (FZERO, g)
      else if \<not> position_valid last then (FZERO, g)
      else
        let (now, g) = gps_uptime E g; dt_sec = (if now \<ge> last_send then now - last_send else 0);
            dt_sec = (if dt_sec = 0 then GPS_IMPLAUSIBLE_SPEED_MIN_DT_SEC else dt_sec)
        in (speed_kmh (packet_distance (ge_libm E) last cur) dt_sec, g))"

definition gps_ops_speed_backfill_min_kmh :: "gps_config \<Rightarrow> float32" where
  "gps_ops_speed_backfill_min_kmh c =
     (if f32_lt FZERO (gc_speed_filter_kmh c) then gc_speed_filter_kmh c else GPS_DEFAULT_SPEED_FILTER_KMH)"

text \<open>It is called on the current sample only.\<close>

definition gps_ops_backfill_speed_from_motion :: "('u, 'w) gps_env \<Rightarrow> ('u, 'w) gps_module \<Rightarrow> ('u, 'w) gps_module" where
  "gps_ops_backfill_speed_from_motion E g =
     (let pkt = gm_current g in
      if f32_lt FZERO (gp_speed_knots pkt) \<or> \<not> gp_fix_valid_calculated pkt then g
      else case gps_ops_calc_speed_kmh_from_last_sent E g of (v, g) \<Rightarrow>
        if f32_le v FZERO then g
        else if f32_lt v (gps_ops_speed_backfill_min_kmh (gm_config g)) then g
        else set_current (pkt\<lparr>gp_speed_knots := f32_div v GPS_KMH_TO_KNOTS\<rparr>) g)"

definition gps_ops_speed_filter_send_last_valid :: "('u, 'w) gps_env \<Rightarrow> ('u, 'w) gps_module \<Rightarrow> bool \<times> ('u, 'w) gps_module" where
  "gps_ops_speed_filter_send_last_valid E g =
     (if f32_le (gc_speed_filter_kmh (gm_config g)) FZERO then (False, g)
      else case gps_ops_calc_speed_kmh_from_last_sent E g of (v, g) \<Rightarrow>
        if f32_le v FZERO then (False, g) else (f32_lt v (gps_ops_speed_backfill_min_kmh (gm_config g)), g))"

definition gps_ops_pick_send_kind :: "('u, 'w) gps_env \<Rightarrow> ('u, 'w) gps_module \<Rightarrow> gps_packet_build_kind \<times> ('u, 'w) gps_module" where
  "gps_ops_pick_send_kind E g =
     (let cur_fix_valid = gp_fix_valid_calculated (gm_current g); c = gm_config g in
      if (\<not> gr_charge_status (gm_rt g) \<and> cur_fix_valid) \<or> gr_trigger_reason (gm_rt g) = GPS_TRIGGER_DISTANCE then (GPS_PACKET_BUILD_CURRENT, g)
      else if (gc_send_last_valid_on_no_fix c \<and> \<not> cur_fix_valid) \<or>
        (gc_send_last_valid_on_ign_off_no_movement c \<and> \<not> gr_mot_status (gm_rt g)) then (GPS_PACKET_BUILD_LAST_VALID_MERGED, g)
      else case gps_ops_speed_filter_send_last_valid E g of (slow, g) \<Rightarrow>
        (if slow then GPS_PACKET_BUILD_LAST_VALID_MERGED else GPS_PACKET_BUILD_CURRENT, g))"

definition create_packet ::
    "('u, 'w) gps_env \<Rightarrow> bool \<Rightarrow> int \<Rightarrow> gps_packet \<Rightarrow> ('u, 'w) gps_module \<Rightarrow> (int \<times> bytes) \<times> ('u, 'w) gps_module" where
  "create_packet E buffer_ok buffer_size p g =
     (let (len, b, n) = gps_packet_create (pe_view (ge_peers E (gm_world g))) (gm_rt g) buffer_ok buffer_size (Some p) (gs_packet_counter (gm_st g))
      in ((len, b), st_update (\<lambda>s. s\<lparr>gs_packet_counter := n\<rparr>) g))"

definition merged_last_valid :: "gps_packet \<Rightarrow> gps_packet \<Rightarrow> gps_packet" where
  "merged_last_valid cur old = old\<lparr>gp_fix_valid_real := gp_fix_valid_real cur, gp_speed_knots := FZERO,
     gp_sats_in_use := (if gp_sats_in_use old < GPS_LAST_VALID_MIN_SATS \<and> gp_fix_valid_calculated old
       then GPS_LAST_VALID_MIN_SATS else gp_sats_in_use old),
     gp_utc_time := gp_utc_time cur\<rparr>"

definition counted_current :: "gps_packet \<Rightarrow> gps_packet \<Rightarrow> gps_packet" where
  "counted_current cur old = cur\<lparr>gp_sats_in_use :=
     (if gp_sats_in_use cur < GPS_LAST_VALID_MIN_SATS \<and> gp_fix_valid_calculated cur then GPS_LAST_VALID_MIN_SATS else gp_sats_in_use old)\<rparr>"

definition gps_ops_build_position_packet ::
    "('u, 'w) gps_env \<Rightarrow> bool \<Rightarrow> int \<Rightarrow> gps_packet_build_kind \<Rightarrow> ('u, 'w) gps_module \<Rightarrow> (int \<times> bytes) \<times> ('u, 'w) gps_module" where
  "gps_ops_build_position_packet E buffer_ok buffer_size kind g =
     (if \<not> buffer_ok \<or> buffer_size < int GPS_PACKET_TOTAL_SIZE then ((0, []), g)
      else case kind of
        GPS_PACKET_BUILD_CURRENT \<Rightarrow>
          let g = gps_ops_backfill_speed_from_motion E (set_current (counted_current (gm_current g) (gm_last_valid g)) g)
          in create_packet E buffer_ok buffer_size (gm_current g) g
      | GPS_PACKET_BUILD_LAST_VALID_MERGED \<Rightarrow>
          let g = set_last_valid (merged_last_valid (gm_current g) (gm_last_valid g)) g
          in create_packet E buffer_ok buffer_size (gm_last_valid g) g)"

definition gps_ops_build_send_packet ::
    "('u, 'w) gps_env \<Rightarrow> bool \<Rightarrow> int \<Rightarrow> gps_packet_build_kind \<Rightarrow> ('u, 'w) gps_module \<Rightarrow> (int \<times> bytes) \<times> ('u, 'w) gps_module" where
  "gps_ops_build_send_packet E buffer_ok buffer_size kind g =
     (case gps_ops_build_position_packet E buffer_ok buffer_size kind g of ((len, b), g) \<Rightarrow>
        ((len, b), if len = int GPS_PACKET_TOTAL_SIZE \<and> kind = GPS_PACKET_BUILD_CURRENT
                   then update_last_valid_gps_data (gm_current g) g else g))"

text \<open>The message so far and what is appended to it; an empty message stands for no packet.\<close>

definition gps_ops_merge_tcp_append :: "bytes \<Rightarrow> bytes \<Rightarrow> bytes" where
  "gps_ops_merge_tcp_append msg extra =
     (if msg = [] \<or> extra = [] then msg
      else if length msg + length extra < MODULE_MESSAGE_INLINE_SIZE then msg @ extra else msg)"

definition gps_message :: "bytes \<Rightarrow> module_message" where
  "gps_message data = (blank_message MODULE_ID_GPS MODULE_ID_TCP)\<lparr>
     mm_message := write_at (replicate MODULE_MESSAGE_INLINE_SIZE 0) 0 data, mm_data_len := length data\<rparr>"

definition count_dropped :: "('u, 'w) gps_module \<Rightarrow> ('u, 'w) gps_module" where
  "count_dropped = rt_update (\<lambda>r. r\<lparr>gr_packets_dropped := u32 (gr_packets_dropped r + 1)\<rparr>)"

definition gps_ops_push_tcp_position_message ::
    "('u, 'w) gps_env \<Rightarrow> bytes \<Rightarrow> ('u, 'w) gps_module \<Rightarrow> sdk_result \<times> ('u, 'w) gps_module" where
  "gps_ops_push_tcp_position_message E data g =
     (if data = [] \<or> length data > MODULE_MESSAGE_INLINE_SIZE then (SDK_ERROR, g)
      else case tcp_queue (gm_gateway g) of
        None \<Rightarrow> (SDK_ERROR, count_dropped g)
      | Some (cfg, h, q) \<Rightarrow>
          if qc_element_size cfg = 0 then (SDK_ERROR, count_dropped g)
          else case queue_push (ge_flash E) (os_msg_abi (ge_os E)) True cfg q (gps_message data) (gm_world g) of (qr, q, w) \<Rightarrow>
            let g = g\<lparr>gm_gateway := set_tcp_queue (Some (h, q)) ((gm_gateway g)\<lparr>gw_world := w\<rparr>)\<rparr>
            in if qr \<noteq> RESULT_SUCCESS then (SDK_ERROR, count_dropped g)
               else let (now, g) = gps_uptime E g in (SDK_SUCCESS, rt_update (\<lambda>r. r\<lparr>gr_last_packet_send_uptime_sec := now\<rparr>) g))"

definition gps_ops_build_last_valid_position_for_tcp ::
    "('u, 'w) gps_env \<Rightarrow> bool \<Rightarrow> int \<Rightarrow> ('u, 'w) gps_module \<Rightarrow> (int \<times> bytes) \<times> ('u, 'w) gps_module" where
  "gps_ops_build_last_valid_position_for_tcp E buffer_ok buffer_size g = create_packet E buffer_ok buffer_size (gm_last_valid g) g"

subsection \<open>Defaults\<close>

definition runtime_defaults :: gps_runtime where
  "runtime_defaults = \<lparr>gr_task_ref = None, gr_ign_status = False, gr_mot_status = False, gr_charge_status = False, gr_trigger_reason = 0,
     gr_current_gps_data = gps_packet_zero, gr_last_valid_gps_data = gps_packet_zero, gr_should_trigger = False,
     gr_last_packet_send_uptime_sec = 0, gr_packets_dropped = 0, gr_gnss_mode_set = False, gr_gnss_nmea_rate_set = False,
     gr_gnss_nmea_output_configured = False, gr_gnss_nmea_output_started = False, gr_gnss_info_report_set = False,
     gr_gnss_start_mode_set = False, gr_gnss_agps_set = False, gr_last_agps_open_time = 0, gr_last_agps_open_attempt_time = 0\<rparr>"

definition gps_ops_set_runtime_defaults :: "('u, 'w) gps_module \<Rightarrow> ('u, 'w) gps_module" where
  "gps_ops_set_runtime_defaults g = g\<lparr>gm_rt := runtime_defaults, gm_st := (gm_st g)\<lparr>gs_configured_event_sent := False,
     gs_parse_fail_streak := 0, gs_parse_fail_reset_sent := False, gs_last_power_status_check := 0, gs_cached_power_on := False,
     gs_pwr_nmea_setup_done := False, gs_implausible_speed_streak := 0, gs_power_forced_off := False\<rparr>\<rparr>"

end
