(* ===== verification/Gps_Task.thy ===== *)
theory Gps_Task
  imports Gps_Ops
begin

text \<open>
  \<open>module/gps/gps_manager.c\<close>: the latches that the system manager and the SIM set, the callback that pairs the sentences
  of the receiver, the loop of the task, start and stop. A turn of the task and a call of the callback are whole steps; the triggers of a turn see one reading
  of the clock.
\<close>

subsection \<open>Latches\<close>

definition gps_latch_send_trigger :: "int \<Rightarrow> ('u, 'w) gps_module \<Rightarrow> ('u, 'w) gps_module" where
  "gps_latch_send_trigger reason = rt_update (\<lambda>r. r\<lparr>gr_should_trigger := True, gr_trigger_reason := reason\<rparr>)"

definition gps_set_ignition_status :: "bool \<Rightarrow> ('u, 'w) gps_module \<Rightarrow> ('u, 'w) gps_module" where
  "gps_set_ignition_status on g =
     (if gr_ign_status (gm_rt g) = on then g
      else gps_latch_send_trigger (if on then GPS_TRIGGER_IGN_ON else GPS_TRIGGER_IGN_OFF) (rt_update (\<lambda>r. r\<lparr>gr_ign_status := on\<rparr>) g))"

definition gps_set_motion_status :: "('u, 'w) gps_env \<Rightarrow> bool \<Rightarrow> ('u, 'w) gps_module \<Rightarrow> ('u, 'w) gps_module" where
  "gps_set_motion_status E on g =
     (if gr_mot_status (gm_rt g) = on then g
      else gps_ops_loc_storage_update_on_motion_changed E on (rt_update (\<lambda>r. r\<lparr>gr_mot_status := on\<rparr>) g))"

definition gps_set_charge_status :: "bool \<Rightarrow> ('u, 'w) gps_module \<Rightarrow> ('u, 'w) gps_module" where
  "gps_set_charge_status charging g =
     (if gs_prev_charge (gm_st g) = charging then g
      else gps_latch_send_trigger (if charging then GPS_TRIGGER_CHARGE_CONNECTED else GPS_TRIGGER_CHARGE_DISCONNECTED)
        (rt_update (\<lambda>r. r\<lparr>gr_charge_status := charging\<rparr>) (st_update (\<lambda>s. s\<lparr>gs_prev_charge := charging\<rparr>) g)))"

definition gps_set_sim_status :: "bool \<Rightarrow> ('u, 'w) gps_module \<Rightarrow> ('u, 'w) gps_module" where
  "gps_set_sim_status available g =
     (if gs_prev_sim (gm_st g) = available then g
      else gps_latch_send_trigger (if available then GPS_TRIGGER_SIM_INSERTED else GPS_TRIGGER_SIM_REMOVED)
        (st_update (\<lambda>s. s\<lparr>gs_prev_sim := available\<rparr>) g))"

definition gps_manager_get_last_valid_position :: "('u, 'w) gps_module \<Rightarrow> (float64 \<times> float64 \<times> float32) option" where
  "gps_manager_get_last_valid_position g =
     (let p = gm_last_valid g in if gp_utc_time p = 0 then None else Some (gp_latitude_deg p, gp_longitude_deg p, gp_course_deg p))"

definition gps_manager_is_ignition_on :: "('u, 'w) gps_module \<Rightarrow> bool" where "gps_manager_is_ignition_on g = gr_ign_status (gm_rt g)"
definition gps_manager_is_motion_on :: "('u, 'w) gps_module \<Rightarrow> bool" where "gps_manager_is_motion_on g = gr_mot_status (gm_rt g)"
definition gps_manager_get_charge_status :: "('u, 'w) gps_module \<Rightarrow> bool" where "gps_manager_get_charge_status g = gr_charge_status (gm_rt g)"

subsection \<open>Sentences\<close>

definition gps_nmea_trim_eol :: "string \<Rightarrow> string" where
  "gps_nmea_trim_eol s = rev (dropWhile (\<lambda>c. char_code c = 13 \<or> char_code c = 10) (rev s))"

definition clear_slots :: "('u, 'w) gps_module \<Rightarrow> ('u, 'w) gps_module" where
  "clear_slots = st_update (\<lambda>s. s\<lparr>gs_slot_rmc := [], gs_slot_gga := []\<rparr>)"

definition urc_element :: "('u, 'w) gps_env \<Rightarrow> string \<Rightarrow> 'u" where
  "urc_element E s = e_of_bytes (os_urc_abi (ge_os E)) (map byte_of_char (s @ replicate (GPS_URC_COMBINED_MAX - length s) NUL))"

definition gps_nmea_push_combined_pair :: "('u, 'w) gps_env \<Rightarrow> ('u, 'w) gps_module \<Rightarrow> ('u, 'w) gps_module" where
  "gps_nmea_push_combined_pair E g =
     (let rmc = gs_slot_rmc (gm_st g); gga = gs_slot_gga (gm_st g); combined = rmc @ char_of (10 :: nat) # gga in
      if rmc = [] \<or> gga = [] then g
      else case gps_urc_queue g of
        None \<Rightarrow> g
      | Some (cfg, h, q) \<Rightarrow>
          if length combined \<ge> GPS_URC_COMBINED_MAX then clear_slots g
          else case queue_push (ge_flash E) (os_urc_abi (ge_os E)) True cfg q (urc_element E combined) (gm_world g) of (_, q, w) \<Rightarrow>
            clear_slots (set_gps_urc_queue (Some (h, q)) (set_gm_world w g)))"

text \<open>A slot holds at most 95 characters of a sentence.\<close>

definition gps_nmea_sentence_cb :: "('u, 'w) gps_env \<Rightarrow> string option \<Rightarrow> ('u, 'w) gps_module \<Rightarrow> ('u, 'w) gps_module" where
  "gps_nmea_sentence_cb E sentence g =
     (case sentence of
        Some (a # b # c # rest) \<Rightarrow>
          let text = gps_nmea_trim_eol (take (GPS_URC_SENTENCE_MAX - 1) (a # b # c # rest)) in
          if a \<noteq> CHR ''$'' \<or> b \<noteq> CHR ''G'' \<or> (c \<noteq> CHR ''N'' \<and> c \<noteq> CHR ''P'') then g
          else if take 4 rest = ''RMC,'' then
            let g = st_update (\<lambda>s. s\<lparr>gs_slot_rmc := text\<rparr>) g
            in if gs_slot_gga (gm_st g) \<noteq> [] then gps_nmea_push_combined_pair E g else g
          else if take 4 rest = ''GGA,'' then
            let g = st_update (\<lambda>s. s\<lparr>gs_slot_gga := text\<rparr>) g
            in if gs_slot_rmc (gm_st g) \<noteq> [] then gps_nmea_push_combined_pair E g else g
          else g
      | _ \<Rightarrow> g)"

subsection \<open>The task\<close>

abbreviation (input) GPS_TASK_LOOP_SLEEP_MS :: nat where "GPS_TASK_LOOP_SLEEP_MS \<equiv> 1000"

definition gps_poll_sim_presence :: "('u, 'w) gps_env \<Rightarrow> ('u, 'w) gps_module \<Rightarrow> ('u, 'w) gps_module" where
  "gps_poll_sim_presence E g = gps_set_sim_status (pv_sim_status (pe_view (ge_peers E (gm_world g)))) g"

definition gps_update_task_stats :: "('u, 'w) gps_module \<Rightarrow> ('u, 'w) gps_module" where
  "gps_update_task_stats = st_update (\<lambda>s. s\<lparr>gs_task_stats := the (snd (task_stats_update_periodic (Some (gs_task_stats s)) 0))\<rparr>)"

definition gps_turn_prepare :: "('u, 'w) gps_env \<Rightarrow> ('u, 'w) gps_module \<Rightarrow> ('u, 'w) gps_module" where
  "gps_turn_prepare E g =
     (let g = gps_sleep E GPS_TASK_LOOP_SLEEP_MS g;
          g = g\<lparr>gm_gateway := module_manager_update_uptime (ge_os E) MODULE_ID_GPS (gm_gateway g)\<rparr>;
          g = gps_poll_sim_presence E (gps_update_task_stats g);
          g = gps_ops_retry_configuration E (snd (gps_ops_power_on_and_configure_nmea_step E g))
      in gps_ops_agps_refresh_if_needed E (gps_ops_open_agps_if_needed E g))"

definition gps_turn_sample :: "('u, 'w) gps_env \<Rightarrow> ('u, 'w) gps_module \<Rightarrow> ('u, 'w) gps_module option" where
  "gps_turn_sample E g =
     map_option (\<lambda>g. case gps_ops_process_fix_transition g of (ev, g) \<Rightarrow> gps_ops_handle_fix_transition E ev g) (gps_ops_refresh_current_sample E g)"

text \<open>The queue of the module whose messages are appended is a stub that gives nothing.\<close>

definition gps_ops_pop_gps_msg_queue_latch_append :: bytes where "gps_ops_pop_gps_msg_queue_latch_append = []"

definition gps_turn_build :: "('u, 'w) gps_env \<Rightarrow> ('u, 'w) gps_module \<Rightarrow> (int \<times> bytes) \<times> ('u, 'w) gps_module" where
  "gps_turn_build E g =
     (case gps_ops_pick_send_kind E g of (kind, g) \<Rightarrow> gps_ops_build_send_packet E True (int MODULE_MESSAGE_INLINE_SIZE) kind g)"

definition gps_turn_transmit :: "('u, 'w) gps_env \<Rightarrow> ('u, 'w) gps_module \<Rightarrow> ('u, 'w) gps_module" where
  "gps_turn_transmit E g =
     (case gps_turn_build E g of ((gps_len, msg), g) \<Rightarrow>
        if gps_len \<le> 0 then g
        else rt_update gps_triggers_clear_after_send
          (snd (gps_ops_push_tcp_position_message E (gps_ops_merge_tcp_append msg gps_ops_pop_gps_msg_queue_latch_append) g)))"

definition gps_turn_send :: "('u, 'w) gps_env \<Rightarrow> ('u, 'w) gps_module \<Rightarrow> ('u, 'w) gps_module option" where
  "gps_turn_send E g =
     (case gps_uptime E g of (now, g') \<Rightarrow>
        let g = (if gr_should_trigger (gm_rt g) then g else g') in
        case gps_triggers_should_send (ge_libm E) (gm_config g) now (gm_rt g) of
          None \<Rightarrow> None
        | Some (send, rt) \<Rightarrow> let g = g\<lparr>gm_rt := rt\<rparr> in Some (if send then gps_turn_transmit E g else g))"

definition gps_task_turn :: "('u, 'w) gps_env \<Rightarrow> ('u, 'w) gps_module \<Rightarrow> ('u, 'w) gps_module option" where
  "gps_task_turn E g = Option.bind (gps_turn_sample E (gps_turn_prepare E g)) (gps_turn_send E)"

subsection \<open>Start and stop\<close>

definition gps_destroy_queue :: "('u, 'w) gps_module \<Rightarrow> ('u, 'w) gps_module" where
  "gps_destroy_queue g =
     (case gps_urc_queue g of
        None \<Rightarrow> g
      | Some (cfg, h, q) \<Rightarrow> set_gps_urc_queue None (g\<lparr>gm_gateway := (gm_gateway g)\<lparr>
          gw_queues := snd (queue_manager_destroy (Some h) (gw_queues (gm_gateway g)))\<rparr>\<rparr>))"

definition gps_manager_deinit :: "('u, 'w) gps_env \<Rightarrow> ('u, 'w) gps_module \<Rightarrow> sdk_result \<times> ('u, 'w) gps_module" where
  "gps_manager_deinit E g =
     (let g = snd (sdk (ge_set_nmea_callback E False) g);
          g = (case gr_task_ref (gm_rt g) of
                 None \<Rightarrow> g
               | Some t \<Rightarrow> set_gm_world (ge_task_delete E t (gm_world g)) (st_update (\<lambda>s. s\<lparr>gs_running := False\<rparr>)
                   (rt_update (\<lambda>r. r\<lparr>gr_task_ref := None\<rparr>) g)))
      in (SDK_SUCCESS, gps_ops_set_runtime_defaults (gps_destroy_queue g)))"

definition gps_create_queue :: "('u, 'w) gps_env \<Rightarrow> ('u, 'w) gps_module \<Rightarrow> ('u, 'w) gps_module" where
  "gps_create_queue E g =
     (case module_get MODULE_ID_GPS (gm_gateway g) of
        None \<Rightarrow> g
      | Some m \<Rightarrow>
          let cfg = mc_urc_q_config (m_config m) in
          if mc_urc_q (m_config m) = None \<and> qc_capacity cfg > 0 \<and> qc_element_size cfg > 0 then
            let ((h, buf_ok, mutex_ok, junk), w) = ge_queue_alloc E (gm_world g); gw = gm_gateway g;
                (r, hq, qs, pb, w) = queue_manager_create (ge_flash E) (os_urc_abi (ge_os E)) True h buf_ok mutex_ok junk cfg
                  (gw_queues gw) (gw_pre_boot gw) w
            in set_gps_urc_queue (if r = RESULT_SUCCESS then hq else None)
                 (g\<lparr>gm_gateway := gw\<lparr>gw_queues := qs, gw_pre_boot := pb, gw_world := w\<rparr>\<rparr>)
          else g)"

definition gps_apply_defaults :: "('u, 'w) gps_module \<Rightarrow> ('u, 'w) gps_module" where
  "gps_apply_defaults g =
     (if gs_defaults_applied (gm_st g) then g
      else st_update (\<lambda>s. s\<lparr>gs_defaults_applied := True\<rparr>) (g\<lparr>gm_config := gps_config_get_defaults\<rparr>))"

definition gps_manager_init :: "('u, 'w) gps_env \<Rightarrow> ('u, 'w) gps_module \<Rightarrow> sdk_result \<times> ('u, 'w) gps_module" where
  "gps_manager_init E g =
     (if gr_task_ref (gm_rt g) \<noteq> None then (SDK_SUCCESS, g)
      else
        let g = gps_ops_set_runtime_defaults g;
            (last_valid, g) = sdk (gps_storage_handle_post_boot E (gm_last_valid g)) g;
            g = gps_apply_defaults (set_last_valid last_valid g);
            g = rt_update (\<lambda>r. r\<lparr>gr_ign_status := True, gr_mot_status := True, gr_charge_status := False\<rparr>) g;
            g = snd (gps_manager_nmea_feed_register E (clear_slots (gps_create_queue E g)));
            g = st_update (\<lambda>s. s\<lparr>gs_running := True\<rparr>) g;
            (task, g) = sdk (ge_task_create E) g;
            g = rt_update (\<lambda>r. r\<lparr>gr_task_ref := task\<rparr>) g
        in if task = None then (SDK_ERROR, st_update (\<lambda>s. s\<lparr>gs_running := False\<rparr>) g) else (SDK_SUCCESS, g))"

end
