(* ===== verification/Gps_Wire.thy ===== *)
theory Gps_Wire
  imports Gps_Packet Queue_Fifo
begin

text \<open>
  The position packet as its reader sees it: what each field says, how exact the coordinates are, and that the packet is one
  the TCP queue can keep in its file.
\<close>

subsection \<open>Signed fields\<close>

text \<open>The reader's view of four bytes as a signed number.\<close>

definition sbe32 :: "bytes \<Rightarrow> int" where
  "sbe32 b = (let v = int (be32 (b ! 0) (b ! 1) (b ! 2) (b ! 3)) in if v < 2 ^ 31 then v else v - 2 ^ 32)"

lemma byte_at_mod: "k \<le> 3 \<Longrightarrow> byte_at v k = of_nat (nat (v mod 2 ^ 32) div 2 ^ (8 * k))"
proof -
  assume k: "k \<le> 3"
  define q where "q = v div 2 ^ 32"
  define r where "r = v mod 2 ^ 32"
  have v: "v = r + 2 ^ (8 * k) * (2 ^ (32 - 8 * k) * q)"
  proof -
    have "(2 :: int) ^ (8 * k) * 2 ^ (32 - 8 * k) = 2 ^ 32" using k by (simp flip: power_add)
    then have "2 ^ (8 * k) * (2 ^ (32 - 8 * k) * q) = 2 ^ 32 * q" by (metis mult.assoc)
    moreover have "v = r + 2 ^ 32 * q" unfolding q_def r_def by presburger
    ultimately show ?thesis by (simp only:)
  qed
  have "v div 2 ^ (8 * k) = r div 2 ^ (8 * k) + 2 ^ (32 - 8 * k) * q" by (subst v) simp
  moreover have "of_int (2 ^ (32 - 8 * k) * q) = (0 :: byte)"
  proof -
    have "(2 :: int) ^ (32 - 8 * k) = 256 * 2 ^ (24 - 8 * k)" using k power_add [of "2 :: int" 8 "24 - 8 * k"] by simp
    moreover have "(256 :: byte) = 0" by simp
    then have "of_int (256 * m) = (0 :: byte)" for m by (simp only: of_int_mult of_int_numeral mult_zero_left)
    ultimately show ?thesis by (simp only: mult.assoc)
  qed
  ultimately have "byte_at v k = of_int (r div 2 ^ (8 * k))" by (simp add: byte_at_def)
  also have "r div 2 ^ (8 * k) = int (nat r div 2 ^ (8 * k))"
  proof -
    obtain m where m: "r = int m" using nonneg_int_cases [of r] by (auto simp: r_def)
    have "int m div 2 ^ (8 * k) = int (m div 2 ^ (8 * k))" by (simp add: zdiv_int)
    then show ?thesis by (simp add: m)
  qed
  finally show ?thesis by (simp add: r_def)
qed

lemma int_be32_bytes: "int_be32 v = be32_bytes (nat (v mod 2 ^ 32))"
  by (simp add: int_be32_def be32_bytes_def byte_at_mod)

lemma sbe32_int: "- (2 ^ 31) \<le> v \<Longrightarrow> v < 2 ^ 31 \<Longrightarrow> sbe32 (int_be32 v) = v"
proof -
  assume v: "- (2 ^ 31) \<le> v" "v < 2 ^ 31"
  have m: "v mod 4294967296 = (if 0 \<le> v then v else v + 4294967296)"
    using v mod_pos_pos_trivial [of v 4294967296] mod_pos_pos_trivial [of "v + 4294967296" 4294967296] by (auto simp: mod_add_self2)
  have "int (be32 (int_be32 v ! 0) (int_be32 v ! 1) (int_be32 v ! 2) (int_be32 v ! 3)) = v mod 2 ^ 32"
    using be32_be32_bytes [of "nat (v mod 2 ^ 32)"] by (simp add: int_be32_bytes be32_bytes_def nat_less_iff)
  then show ?thesis using v unfolding sbe32_def Let_def by (simp add: m)
qed

text \<open>A coordinate in units of 1/1800000 degree is off by one unit and the rounding of the product.\<close>

lemma lat_lon_fixed_error:
  assumes "0 \<le> x" and "x \<le> 180"
  shows "\<bar>of_int (lat_lon_fixed (FFin s x)) - signed s x * 1800000\<bar> < 1 + 1 / 2 ^ 25" and "\<bar>lat_lon_fixed (FFin s x)\<bar> < 2 ^ 31"
proof -
  have e: "f64_of_int 1800000 = FFin False 1800000"
    using fp_round_int [of 1800000 52 "- 1022" 1024 False] by (simp add: f64_of_int_def f64_of_rat_def f64_round_def)
  obtain y where y: "f64_round s (x * 1800000) = FFin s y" "0 \<le> y" "\<bar>y - x * 1800000\<bar> \<le> pow2 (int 29 - 54)"
    using f64_round_error [of "x * 1800000" 29 s] assms by fastforce
  have p: "pow2 (int 29 - 54) = 1 / 2 ^ 25" using pow2_diff [of 29 54] by simp
  have f: "lat_lon_fixed (FFin s x) = (if s then - \<lfloor>y\<rfloor> else \<lfloor>y\<rfloor>)" using y(1) by (simp add: lat_lon_fixed_def f64_mul_def e)
  have "of_int \<lfloor>y\<rfloor> \<le> y" "y < of_int \<lfloor>y\<rfloor> + 1" by linarith+
  then have "\<bar>of_int \<lfloor>y\<rfloor> - x * 1800000\<bar> < 1 + 1 / 2 ^ 25" using y(3) p by linarith
  then show "\<bar>of_int (lat_lon_fixed (FFin s x)) - signed s x * 1800000\<bar> < 1 + 1 / 2 ^ 25"
    unfolding f by (cases s) (simp_all add: signed_def abs_minus_commute)
  have "y < 2 ^ 31" using y(3) p assms by (simp add: abs_le_iff)
  then have "\<lfloor>y\<rfloor> < 2 ^ 31" by (simp add: floor_less_iff)
  then show "\<bar>lat_lon_fixed (FFin s x)\<bar> < 2 ^ 31" using y(2) unfolding f by simp
qed

lemma body_length [simp]: "length (gps_packet_body V g n p) = 49"
  by (simp add: gps_packet_body_def int_be16_def int_be32_def write_fixed_point_be_def Let_def)

lemma be32_reads: "n < 2 ^ 32 \<Longrightarrow> be32 (int_be32 (int n) ! 0) (int_be32 (int n) ! 1) (int_be32 (int n) ! 2) (int_be32 (int n) ! 3) = n"
  using be32_be32_bytes [of n] by (simp add: int_be32_bytes be32_bytes_def)

lemma fix_fields:
  assumes "b = [0x57, 0x45, 0x49] @ gps_packet_body V g n p @ [c, 0x77, 0x65]"
  shows "b ! 5 = on_off (gp_fix_valid_calculated p)" and "take 4 (drop 6 b) = int_be32 (int (gp_utc_time p))"
    and "take 4 (drop 10 b) = int_be32 (lat_lon_fixed (gp_latitude_deg p))" and "take 4 (drop 14 b) = int_be32 (lat_lon_fixed (gp_longitude_deg p))"
    and "b ! 27 = on_off (gp_fix_valid_real p)"
    and "b ! 41 = on_off (gr_ign_status g)" and "b ! 42 = on_off (gr_charge_status g)" and "b ! 43 = on_off (pv_sim_status V)"
    and "b ! 48 = lo8 n" and "b ! 49 = hi8 n" and "b ! 51 = on_off (gr_mot_status g)"
  unfolding assms by (simp_all add: gps_packet_body_def int_be16_def int_be32_def write_fixed_point_be_def Let_def)

text \<open>C30: The position packet says what it is made from. It has 55 bytes, between the marks of its start and end, with the
  exclusive or of its body as check byte; the time is exact, the coordinates are off by little more than one unit of
  1/1800000 degree, the states and the running number are those of the module, and it is a packet that the file of the TCP
  queue takes. A buffer too small gives no packet and does not count.\<close>

theorem gps_packet_layout:
  assumes "gp_latitude_deg p = FFin s x" and "0 \<le> x" and "x \<le> 90" and "gp_longitude_deg p = FFin t y" and "0 \<le> y" and "y \<le> 180"
    and "gp_utc_time p < 2 ^ 32" and "gps_packet_create V g True room (Some p) n = (len, b, n')"
  shows "if room < 55 then len = 0 \<and> n' = n
    else len = 55 \<and> length b = 55 \<and> wf_packet b \<and> drop 53 b = [0x77, 0x65] \<and> fold (XOR) (take 49 (drop 3 b)) 0 = b ! 52 \<and>
      n' = u32 (n + 1) \<and> be16 (b ! 49) (b ! 48) = n' mod 65536 \<and>
      be32 (b ! 6) (b ! 7) (b ! 8) (b ! 9) = gp_utc_time p \<and>
      \<bar>of_int (sbe32 (take 4 (drop 10 b))) - signed s x * 1800000\<bar> < 1 + 1 / 2 ^ 25 \<and>
      \<bar>of_int (sbe32 (take 4 (drop 14 b))) - signed t y * 1800000\<bar> < 1 + 1 / 2 ^ 25 \<and>
      b ! 5 = on_off (gp_fix_valid_calculated p) \<and> b ! 27 = on_off (gp_fix_valid_real p) \<and> b ! 41 = on_off (gr_ign_status g) \<and>
      b ! 42 = on_off (gr_charge_status g) \<and> b ! 43 = on_off (pv_sim_status V) \<and> b ! 51 = on_off (gr_mot_status g)"
proof (cases "room < 55")
  case True
  then show ?thesis using assms(8) by (simp add: gps_packet_create_def)
next
  case False
  let ?n = "u32 (n + 1)"
  have b: "b = [0x57, 0x45, 0x49] @ gps_packet_body V g ?n p @ [fold (XOR) (gps_packet_body V g ?n p) 0, 0x77, 0x65]"
    and r: "len = 55" "n' = ?n" using assms(8) False by (auto simp: gps_packet_create_def Let_def)
  note f = fix_fields [OF b]
  have l: "length b = 55" "take 3 b = [0x57, 0x45, 0x49]" "take 49 (drop 3 b) = gps_packet_body V g ?n p" "drop 53 b = [0x77, 0x65]"
    "b ! 52 = fold (XOR) (gps_packet_body V g ?n p) 0" unfolding b by (simp_all add: nth_append)
  have "wf_packet b" using l(1,2) nth_take [of 0 3 b] nth_take [of 1 3 b] nth_take [of 2 3 b]
    by (simp add: wf_packet_def tcp_type_ok_def GPS_PACKET_TYPE_def)
  moreover have "be16 (b ! 49) (b ! 48) = ?n mod 65536"
    using mod_mult2_eq [of ?n 256 256] unfolding f by (simp add: be16_def hi8_def lo8_def unat_byte_of_nat)
  moreover have "be32 (b ! 6) (b ! 7) (b ! 8) (b ! 9) = gp_utc_time p"
  proof -
    have "b ! (6 + i) = take 4 (drop 6 b) ! i" if "i < 4" for i using that l(1) by simp
    from this [of 0] this [of 1] this [of 2] this [of 3] show ?thesis
      using be32_reads [OF assms(7)] unfolding f by simp
  qed
  moreover have "\<bar>of_int (sbe32 (take 4 (drop 10 b))) - signed s x * 1800000\<bar> < 1 + 1 / 2 ^ 25"
  proof -
    have "x \<le> 180" using assms(3) by simp
    note e = lat_lon_fixed_error [OF assms(2) this, of s]
    have "sbe32 (int_be32 (lat_lon_fixed (FFin s x))) = lat_lon_fixed (FFin s x)" using e(2) by (intro sbe32_int) simp_all
    then show ?thesis using e(1) unfolding f(3) assms(1) by simp
  qed
  moreover have "\<bar>of_int (sbe32 (take 4 (drop 14 b))) - signed t y * 1800000\<bar> < 1 + 1 / 2 ^ 25"
  proof -
    note e = lat_lon_fixed_error [OF assms(5,6), of t]
    have "sbe32 (int_be32 (lat_lon_fixed (FFin t y))) = lat_lon_fixed (FFin t y)" using e(2) by (intro sbe32_int) simp_all
    then show ?thesis using e(1) unfolding f(4) assms(4) by simp
  qed
  ultimately show ?thesis using False l r f by simp
qed

definition home_packet :: gps_packet where
  "home_packet = gps_packet_zero\<lparr>gp_fix_valid_real := True, gp_fix_valid_calculated := True, gp_latitude_deg := FFin False (2861 / 100),
     gp_longitude_deg := FFin True (772 / 10), gp_utc_time := 1700000000\<rparr>"

definition gps_boot :: gps_runtime where
  "gps_boot = \<lparr>gr_task_ref = None, gr_ign_status = False, gr_mot_status = False, gr_charge_status = False, gr_trigger_reason = 0,
     gr_current_gps_data = gps_packet_zero, gr_last_valid_gps_data = gps_packet_zero, gr_should_trigger = False,
     gr_last_packet_send_uptime_sec = 0, gr_packets_dropped = 0, gr_gnss_mode_set = False, gr_gnss_nmea_rate_set = False,
     gr_gnss_nmea_output_configured = False, gr_gnss_nmea_output_started = False, gr_gnss_info_report_set = False,
     gr_gnss_start_mode_set = False, gr_gnss_agps_set = False, gr_last_agps_open_time = 0, gr_last_agps_open_attempt_time = 0\<rparr>"

definition still_view :: packet_view where
  "still_view = \<lparr>pv_network_state = 12, pv_tcp_state = 5, pv_radio = None, pv_sim_status = True\<rparr>"

theorem gps_packet_layout_witness:
  "\<exists>b. gps_packet_create still_view gps_boot True 55 (Some home_packet) 65535 = (55, b, 65536) \<and> wf_packet b \<and>
     be32 (b ! 6) (b ! 7) (b ! 8) (b ! 9) = 1700000000"
proof -
  obtain l b n where c: "gps_packet_create still_view gps_boot True 55 (Some home_packet) 65535 = (l, b, n)" by (metis prod_cases3)
  have "gp_latitude_deg home_packet = FFin False (2861 / 100)" "gp_longitude_deg home_packet = FFin True (772 / 10)" "gp_utc_time home_packet = 1700000000"
    by (simp_all add: home_packet_def)
  from gps_packet_layout [OF this(1) _ _ this(2) _ _ _ c] this(3) show ?thesis using c by (simp add: u32_def)
qed

end
