(* ===== verification/Gps_Session.thy ===== *)
theory Gps_Session
  imports Gps_Task Gps_Wire Tcp_Delivery
begin

text \<open>
  What the GPS module does over its steps: implausible samples, silence of the receiver, the way of a pair of sentences
  to the parser, and the packets it puts into the send queue of the TCP module.
\<close>

subsection \<open>Implausible samples\<close>

definition implausible :: "libm \<Rightarrow> gps_packet \<Rightarrow> gps_packet \<Rightarrow> bool" where
  "implausible M old p \<longleftrightarrow> position_valid p \<and> position_valid old \<and> gps_ops_is_valid_utc (gp_utc_time old) \<and> gp_utc_time old < gp_utc_time p \<and>
     \<not> f32_le (speed_kmh (packet_distance M old p) (gp_utc_time p - gp_utc_time old)) (f32_of_int 500)"

text \<open>Samples with the last valid position at their time.\<close>

fun filter_run :: "libm \<Rightarrow> (gps_packet \<times> gps_packet) list \<Rightarrow> nat \<Rightarrow> gps_packet list" where
  "filter_run M [] k = []"
| "filter_run M ((old, p) # ps) k = (let (q, k) = gps_ops_filter_implausible_jump M old p k in q # filter_run M ps k)"

lemma filter_implausible:
  assumes "implausible M old p" and "k < 5"
  shows "gps_ops_filter_implausible_jump M old p k = (if k < 4 then (old\<lparr>gp_utc_time := gp_utc_time p\<rparr>, k + 1) else (p, 0))"
proof -
  have u: "gp_utc_time old \<noteq> 0" "gps_ops_is_valid_utc (gp_utc_time p)" "\<not> gp_utc_time p \<le> gp_utc_time old" "max (gp_utc_time p - gp_utc_time old) 1 = gp_utc_time p - gp_utc_time old"
    using assms(1) by (auto simp: implausible_def gps_ops_is_valid_utc_def GPS_TIME_VALID_MIN_UTC_UNIX_def)
  have k: "u32 (k + 1) = k + 1" using assms(2) by simp
  show ?thesis
    unfolding gps_ops_filter_implausible_jump_def gps_ops_get_jump_filter_reference_def Let_def k u(4)
    using assms u by (auto simp: implausible_def)
qed

text \<open>the fifth implausible sample in a row is believed. While every sample implies a speed above 500 km/h, four are replaced by
  the last valid position with the new time and the fifth is taken as it is, again and again; a sample without such
  a jump passes unchanged and starts the count anew.\<close>

theorem implausible_samples_held_back:
  assumes "\<forall>(old, p) \<in> set ps. implausible M old p" and "i < length ps"
  shows "filter_run M ps 0 ! i = (let (old, p) = ps ! i in if i mod 5 = 4 then p else old\<lparr>gp_utc_time := gp_utc_time p\<rparr>) \<and>
    (position_valid p' \<and> \<not> implausible M old' p' \<longrightarrow> gps_ops_filter_implausible_jump M old' p' k = (p', 0))"
proof -
  have run: "filter_run M ps k ! i = (let (old, p) = ps ! i in if (i + k) mod 5 = 4 then p else old\<lparr>gp_utc_time := gp_utc_time p\<rparr>)"
    if "\<forall>(old, p) \<in> set ps. implausible M old p" "i < length ps" "k < 5" for ps i k
    using that
  proof (induction ps arbitrary: i k)
    case (Cons x ps)
    obtain old p where x: "x = (old, p)" by (cases x)
    have f: "gps_ops_filter_implausible_jump M old p k = (if k < 4 then (old\<lparr>gp_utc_time := gp_utc_time p\<rparr>, k + 1) else (p, 0))"
      using Cons.prems x by (intro filter_implausible) auto
    show ?case
    proof (cases i)
      case 0
      then show ?thesis using f Cons.prems(3) by (auto simp: x)
    next
      case (Suc j)
      have "k = 4 \<or> k < 4" using Cons.prems(3) by auto
      then show ?thesis
      proof
        assume k: "k = 4"
        have "(Suc j + 4) mod 5 = j mod 5" using mod_add_self2 [of j 5] by (simp add: add.commute)
        then show ?thesis using Cons.IH [of j 0] Cons.prems f k Suc by (simp add: x)
      next
        assume k: "k < 4"
        then show ?thesis using Cons.IH [of j "k + 1"] Cons.prems f Suc by (simp add: x)
      qed
    qed
  qed simp
  have plain: "gps_ops_filter_implausible_jump M old' p' k = (p', 0)" if "position_valid p'" "\<not> implausible M old' p'"
  proof -
    have m: "max (a - b) 1 = a - b" if "b < a" for a b :: nat using that by (intro max_absorb1) arith
    show ?thesis
      using that m [of "gp_utc_time old'" "gp_utc_time p'"]
      by (auto simp: gps_ops_filter_implausible_jump_def gps_ops_get_jump_filter_reference_def implausible_def Let_def
          simp del: max_less_iff_conj)
  qed
  show ?thesis using run [OF assms, of 0] plain by simp
qed

subsection \<open>The queue of the sentences\<close>

definition urc_ring :: "nat \<Rightarrow> ('u, 'w) gps_module \<Rightarrow> 'u list \<Rightarrow> bool" where
  "urc_ring cap g es \<longleftrightarrow> (\<exists>cfg h q. gps_urc_queue g = Some (cfg, h, q) \<and> wf_ring cfg q \<and> \<not> queue_has_file cfg \<and> ring_items cfg q = es \<and> qc_capacity cfg = cap)"

lemma pop_ring:
  assumes wf: "wf_ring cfg q" and nf: "\<not> queue_has_file cfg"
  shows "\<exists>q'. queue_pop F A True cfg 1 q w = (if ring_items cfg q = [] then RESULT_NOT_FOUND else RESULT_SUCCESS, take 1 (ring_items cfg q), q', w) \<and>
    wf_ring cfg q' \<and> ring_items cfg q' = tl (ring_items cfg q) \<and> (ring_items cfg q = [] \<longrightarrow> q' = q)"
proof -
  obtain buf where b: "q_buffer q = Some buf" using wf by (auto simp: wf_ring_def)
  show ?thesis
  proof (cases "q_count q = 0")
    case True
    then have "ring_items cfg q = []" by (simp add: ring_items_def)
    then show ?thesis using True wf nf b wf_ring_indices [OF wf] by (simp add: queue_pop_def)
  next
    case False
    then have n: "0 < q_count q" by simp
    note d = ring_drop_items [OF wf n]
    have ne: "ring_items cfg q \<noteq> []" using False by (metis length_0_conv length_ring_items)
    then have t: "take 1 (ring_items cfg q) = [hd (ring_items cfg q)]" by (cases "ring_items cfg q") auto
    show ?thesis using d ne nf b wf_ring_indices [OF wf] False t by (simp add: queue_pop_def bad_indices_def)
  qed
qed

lemma push_ring:
  assumes wf: "wf_ring cfg q" and nf: "\<not> queue_has_file cfg"
  shows "\<exists>r q'. queue_push F A True cfg q d w = (r, q', w) \<and> wf_ring cfg q' \<and>
    ring_items cfg q' = ring_items cfg q @ (if length (ring_items cfg q) < qc_capacity cfg then [d] else [])"
proof (cases "q_count q < qc_capacity cfg")
  case True
  then show ?thesis using no_file.push_room [OF wf _ True] nf by (metis length_ring_items)
next
  case False
  then have "q_count q = qc_capacity cfg" using wf by (auto simp: wf_ring_def)
  then have "queue_push F A True cfg q d w = (RESULT_BUSY, q, w)" by (rule no_file.push_busy [OF wf _ nf])
  then show ?thesis using wf False by (intro exI) simp
qed

text \<open>Draining gives the last text that is not empty.\<close>

lemma drain_ring:
  assumes "wf_ring cfg q" and "\<not> queue_has_file cfg"
  shows "\<exists>q'. drain_urc E cfg t q w = Some (let ts = filter (\<lambda>s. s \<noteq> []) (map (urc_text E) (ring_items cfg q)) in if ts = [] then t else Some (last ts), q', w) \<and>
    wf_ring cfg q' \<and> ring_items cfg q' = [] \<and> (ring_items cfg q = [] \<longrightarrow> q' = q)"
  using assms
proof (induction "ring_items cfg q" arbitrary: q t)
  case Nil
  obtain q' where "queue_pop (ge_flash E) (os_urc_abi (ge_os E)) True cfg 1 q w = (RESULT_NOT_FOUND, [], q', w)" "q' = q"
    using pop_ring [OF Nil(2,3), of "ge_flash E" "os_urc_abi (ge_os E)" w] Nil(1) by auto
  then show ?case using Nil by (subst drain_urc.simps) (simp flip: Nil(1))
next
  case (Cons e es)
  note r = Cons(2) [symmetric]
  obtain q1 where p: "queue_pop (ge_flash E) (os_urc_abi (ge_os E)) True cfg 1 q w = (RESULT_SUCCESS, [e], q1, w)"
    "wf_ring cfg q1" "ring_items cfg q1 = es"
    using pop_ring [OF Cons.prems, of "ge_flash E" "os_urc_abi (ge_os E)" w] unfolding r by auto
  let ?t = "if urc_text E e \<noteq> [] then Some (urc_text E e) else t"
  obtain q' where d: "drain_urc E cfg ?t q1 w = Some (let ts = filter (\<lambda>s. s \<noteq> []) (map (urc_text E) es) in if ts = [] then ?t else Some (last ts), q', w)"
    "wf_ring cfg q'" "ring_items cfg q' = []"
    using Cons.hyps(1) [OF p(3) [symmetric] p(2) Cons.prems(2), of ?t] unfolding p(3) by blast
  have "drain_urc E cfg t q w = drain_urc E cfg ?t q1 w" using p(1) by (subst drain_urc.simps) simp
  then show ?case using d unfolding r by (cases "urc_text E e = []") (auto simp: Let_def)
qed

subsection \<open>The gateway under the module\<close>

lemma gm_world_simps [simp]:
  "gm_world (set_gm_world w g) = w" "gm_world (set_gps_urc_queue hq g) = gm_world g"
  "gm_rt (set_gm_world w g) = gm_rt g" "gm_st (set_gm_world w g) = gm_st g" "gm_config (set_gm_world w g) = gm_config g"
  "gm_rt (set_gps_urc_queue hq g) = gm_rt g" "gm_st (set_gps_urc_queue hq g) = gm_st g" "gm_config (set_gps_urc_queue hq g) = gm_config g"
  "gm_world (g\<lparr>gm_rt := rt\<rparr>) = gm_world g" "gm_world (g\<lparr>gm_st := st\<rparr>) = gm_world g" "gm_world (g\<lparr>gm_config := c\<rparr>) = gm_world g"
  by (simp_all add: gm_world_def set_gm_world_def set_gps_urc_queue_def module_update_def)

lemma gps_urc_queue_simps [simp]:
  "gps_urc_queue (set_gm_world w g) = gps_urc_queue g" "gps_urc_queue (g\<lparr>gm_rt := rt\<rparr>) = gps_urc_queue g"
  "gps_urc_queue (g\<lparr>gm_st := st\<rparr>) = gps_urc_queue g" "gps_urc_queue (set_current p g) = gps_urc_queue g"
  by (simp_all add: gps_urc_queue_def set_gm_world_def set_current_def module_get_def)

lemma set_current_simps [simp]:
  "gm_world (set_current p g) = gm_world g" "gm_st (set_current p g) = gm_st g" "gm_config (set_current p g) = gm_config g"
  "gm_current (set_current p g) = p" "gm_last_valid (set_current p g) = gm_last_valid g"
  by (simp_all add: set_current_def gm_world_def)

lemma gps_urc_queue_set:
  "gps_urc_queue g = Some (cfg, h, q) \<Longrightarrow> gps_urc_queue (set_gps_urc_queue (Some (h', q')) g) = Some (cfg, h', q')"
  by (auto simp: gps_urc_queue_def set_gps_urc_queue_def module_get_update [of MODULE_ID_GPS MODULE_ID_GPS]
      simp del: module_id_code.simps split: option.splits)

lemma sdk_simps [simp]:
  "gm_st (snd (sdk f g)) = gm_st g" "gm_rt (snd (sdk f g)) = gm_rt g" "gm_config (snd (sdk f g)) = gm_config g"
  "gps_urc_queue (snd (sdk f g)) = gps_urc_queue g" "gm_world (snd (sdk f g)) = snd (f (gm_world g))"
  by (simp_all add: sdk_def split_beta Let_def)

lemma nmea_feed_register_simps [simp]:
  "snd (gps_manager_nmea_feed_register E g) = snd (sdk (ge_set_nmea_callback E True) g)"
  by (simp add: gps_manager_nmea_feed_register_def split_beta Let_def)

subsection \<open>A silent receiver\<close>

fun refresh_run :: "('u, 'w) gps_env \<Rightarrow> nat \<Rightarrow> ('u, 'w) gps_module \<Rightarrow> ('u, 'w) gps_module option" where
  "refresh_run E 0 g = Some g"
| "refresh_run E (Suc n) g = Option.bind (refresh_run E n g) (gps_ops_refresh_current_sample E)"

text \<open>A refresh without sentences: what happens before the failure is counted.\<close>

definition stall_step :: "('u, 'w) gps_env \<Rightarrow> ('u, 'w) gps_module \<Rightarrow> ('u, 'w) gps_module" where
  "stall_step E g = st_update (\<lambda>s. s\<lparr>gs_no_nmea_count := (gs_no_nmea_count s + 1) mod 256\<rparr>)
     (if gs_no_nmea_count (gm_st g) > 20
      then st_update (\<lambda>s. s\<lparr>gs_no_nmea_count := 0\<rparr>) (snd (sdk (ge_set_nmea_callback E True) g)) else g)"

lemma refresh_silent:
  assumes "urc_ring cap g []"
  shows "\<exists>g1. gm_rt g1 = gm_rt g \<and> gm_st g1 = gm_st g \<and> gm_world g1 = gm_world g \<and> gm_config g1 = gm_config g \<and> urc_ring cap g1 [] \<and>
    gps_ops_refresh_current_sample E g = Some (finish_sample E (count_parse_failure E
      (set_current gps_packet_zero (rt_update (\<lambda>r. r\<lparr>gr_gnss_nmea_output_started := False\<rparr>) (stall_step E g1)))))"
proof -
  obtain cfg h q where g: "gps_urc_queue g = Some (cfg, h, q)" and q: "wf_ring cfg q" "\<not> queue_has_file cfg" "ring_items cfg q = []" "qc_capacity cfg = cap"
    using assms by (auto simp: urc_ring_def)
  have d: "drain_urc E cfg None q (gm_world g) = Some (None, q, gm_world g)"
    using drain_ring [OF q(1,2), of E None "gm_world g"] q(3) by auto
  let ?g = "set_gps_urc_queue (Some (h, q)) (set_gm_world (gm_world g) g)"
  have "gps_urc_queue ?g = Some (cfg, h, q)" using g by (simp add: gps_urc_queue_set)
  then have "urc_ring cap ?g []" using q by (auto simp: urc_ring_def)
  moreover have Q: "gps_ops_query_and_parse E g = Some (False, stall_step E ?g)"
    by (auto simp: gps_ops_query_and_parse_def gps_ops_query_and_parse_from_urc_queue_def g d stall_step_def)
  ultimately show ?thesis unfolding gps_ops_refresh_current_sample_def Q by (intro exI [of _ ?g]) simp
qed

lemma finish_sample_simps [simp]:
  "gm_st (finish_sample E g) = gm_st g" "gm_world (finish_sample E g) = gm_world g" "gps_urc_queue (finish_sample E g) = gps_urc_queue g"
  by (simp_all add: finish_sample_def)

lemma zero_sample:
  "gps_ops_update_fix_valid_calculated (gps_ops_apply_time_source_to_packet src rtc gps_packet_zero) =
     gps_packet_zero\<lparr>gp_utc_time := gp_utc_time (gps_ops_apply_time_source_to_packet src rtc gps_packet_zero)\<rparr>"
proof -
  have "\<not> gps_validate_coordinates FZERO FZERO" by (simp add: gps_validate_coordinates_def)
  then show ?thesis
    by (cases src) (simp_all add: gps_ops_apply_time_source_to_packet_def gps_ops_update_fix_valid_calculated_def position_valid_def
        gps_packet_zero_def split_beta Let_def)
qed

text \<open>The count of samples without a sentence.\<close>

lemma stall_cycle:
  fixes n :: nat
  defines "c \<equiv> if n = 0 then 0 else (n - 1) mod 21 + 1"
  shows "c > 20 \<longleftrightarrow> n \<noteq> 0 \<and> n mod 21 = 0" and "n div 21 = (n - 1) div 21 + (if n \<noteq> 0 \<and> n mod 21 = 0 then 1 else 0)"
    and "\<not> c > 20 \<Longrightarrow> c = n mod 21"
proof -
  have X: "(c > 20 \<longleftrightarrow> n \<noteq> 0 \<and> n mod 21 = 0) \<and> n div 21 = (n - 1) div 21 + (if n \<noteq> 0 \<and> n mod 21 = 0 then 1 else 0) \<and> (\<not> c > 20 \<longrightarrow> c = n mod 21)"
  proof (cases n)
    case (Suc m)
    have "m mod 21 < 21" by simp
    then show ?thesis unfolding c_def Suc by (cases "m mod 21 = 20") (simp_all add: mod_Suc div_Suc)
  qed (simp add: c_def)
  show "c > 20 \<longleftrightarrow> n \<noteq> 0 \<and> n mod 21 = 0" by (rule conjunct1 [OF X])
  show "n div 21 = (n - 1) div 21 + (if n \<noteq> 0 \<and> n mod 21 = 0 then 1 else 0)" by (rule conjunct1 [OF conjunct2 [OF X]])
  show "\<not> c > 20 \<Longrightarrow> c = n mod 21" by (rule conjunct2 [OF conjunct2 [OF X], rule_format])
qed

lemma stall_counts:
  assumes count: "gs_no_nmea_count (gm_st g) = (if n = 0 then 0 else (n - 1) mod 21 + 1)"
    and callback: "\<forall>w. calls (snd (ge_set_nmea_callback E True w)) = (fst (calls w) + 1, snd (calls w))"
    and world: "calls (gm_world g) = (a + (n - 1) div 21, b :: nat)" and ring: "urc_ring cap g []"
  shows "gs_no_nmea_count (gm_st (stall_step E g)) = n mod 21 + 1"
    and "calls (gm_world (stall_step E g)) = (a + n div 21, b)"
    and "gm_st (stall_step E g) = (gm_st g)\<lparr>gs_no_nmea_count := n mod 21 + 1\<rparr>"
    and "urc_ring cap (stall_step E g) []"
proof -
  have c: "gs_no_nmea_count (gm_st g) > 20 \<longleftrightarrow> n \<noteq> 0 \<and> n mod 21 = 0" "n div 21 = (n - 1) div 21 + (if n \<noteq> 0 \<and> n mod 21 = 0 then 1 else 0)"
    "\<not> gs_no_nmea_count (gm_st g) > 20 \<Longrightarrow> gs_no_nmea_count (gm_st g) = n mod 21"
    using count stall_cycle [of n] by simp_all
  have m: "(n mod 21 + 1) mod 256 = n mod 21 + 1" by simp
  show "gm_st (stall_step E g) = (gm_st g)\<lparr>gs_no_nmea_count := n mod 21 + 1\<rparr>"
    "gs_no_nmea_count (gm_st (stall_step E g)) = n mod 21 + 1"
    using c m by (auto simp: stall_step_def)
  show "urc_ring cap (stall_step E g) []" using ring by (simp add: stall_step_def urc_ring_def)
  show "calls (gm_world (stall_step E g)) = (a + n div 21, b)"
    using callback world c(1,2) by (simp add: stall_step_def)
qed

text \<open>C34: a receiver that falls silent. From a fresh state, with the queue of the sentences empty, every sample is the zero position
  with at most a time of the network; the callback is registered with the SDK once more after every 21 samples without a
  sentence; and the sixtieth sample resets the chip, once, unless the receiver was switched off.\<close>

theorem silent_receiver_resets_once:
  assumes ring: "urc_ring cap g []"
    and start: "gs_no_nmea_count (gm_st g) = 0" "gs_parse_fail_streak (gm_st g) = 0" "\<not> gs_parse_fail_reset_sent (gm_st g)"
    and callback: "\<forall>w. calls (snd (ge_set_nmea_callback E True w)) = (fst (calls w) + 1, snd (calls w))"
    and reboot: "\<forall>w. calls (ge_reboot E w) = (fst (calls w), snd (calls w) + (1 :: nat))"
  shows "\<exists>g'. refresh_run E n g = Some g' \<and>
    calls (gm_world g') = (fst (calls (gm_world g)) + (n - 1) div 21,
      snd (calls (gm_world g)) + (if 60 \<le> n \<and> \<not> gs_power_forced_off (gm_st g) then 1 else 0)) \<and>
    (0 < n \<longrightarrow> gm_current g' = gps_packet_zero\<lparr>gp_utc_time := gp_utc_time (gm_current g')\<rparr>)"
proof -
  let ?off = "gs_power_forced_off (gm_st g)"
  have "\<exists>g'. refresh_run E n g = Some g' \<and> urc_ring cap g' [] \<and> gs_power_forced_off (gm_st g') = ?off \<and>
    gs_no_nmea_count (gm_st g') = (if n = 0 then 0 else (n - 1) mod 21 + 1) \<and>
    gs_parse_fail_streak (gm_st g') = (if ?off then 0 else min n 60) \<and> gs_parse_fail_reset_sent (gm_st g') = (60 \<le> n \<and> \<not> ?off) \<and>
    calls (gm_world g') = (fst (calls (gm_world g)) + (n - 1) div 21, snd (calls (gm_world g)) + (if 60 \<le> n \<and> \<not> ?off then 1 else 0)) \<and>
    (0 < n \<longrightarrow> gm_current g' = gps_packet_zero\<lparr>gp_utc_time := gp_utc_time (gm_current g')\<rparr>)"
  proof (induction n)
    case 0
    then show ?case using assms by auto
  next
    case (Suc n)
    then obtain g' where IH: "refresh_run E n g = Some g'" "urc_ring cap g' []" "gs_power_forced_off (gm_st g') = ?off"
      "gs_no_nmea_count (gm_st g') = (if n = 0 then 0 else (n - 1) mod 21 + 1)"
      "gs_parse_fail_streak (gm_st g') = (if ?off then 0 else min n 60)" "gs_parse_fail_reset_sent (gm_st g') = (60 \<le> n \<and> \<not> ?off)"
      "calls (gm_world g') = (fst (calls (gm_world g)) + (n - 1) div 21, snd (calls (gm_world g)) + (if 60 \<le> n \<and> \<not> ?off then 1 else 0))"
      by blast
    obtain g1 where g1: "gm_st g1 = gm_st g'" "gm_world g1 = gm_world g'" "urc_ring cap g1 []"
      "gps_ops_refresh_current_sample E g' = Some (finish_sample E (count_parse_failure E
        (set_current gps_packet_zero (rt_update (\<lambda>r. r\<lparr>gr_gnss_nmea_output_started := False\<rparr>) (stall_step E g1)))))"
      using refresh_silent [OF IH(2), of E] by blast
    let ?h = "set_current gps_packet_zero (rt_update (\<lambda>r. r\<lparr>gr_gnss_nmea_output_started := False\<rparr>) (stall_step E g1))"
    let ?c = "count_parse_failure E ?h"
    have w: "calls (gm_world g1) = (fst (calls (gm_world g)) + (n - 1) div 21, snd (calls (gm_world g')))"
      using IH(7) by (simp add: g1(2))
    note stall = stall_counts [OF IH(4) [folded g1(1)] callback w g1(3), unfolded g1(1)]
    have cnt: "gs_no_nmea_count (gm_st ?c) = n mod 21 + 1" "gs_power_forced_off (gm_st ?c) = ?off"
      "gs_parse_fail_streak (gm_st ?c) = (if ?off then 0 else min (Suc n) 60)" "gs_parse_fail_reset_sent (gm_st ?c) = (60 \<le> Suc n \<and> \<not> ?off)"
      "calls (gm_world ?c) = (fst (calls (gm_world g)) + n div 21, snd (calls (gm_world g)) + (if 60 \<le> Suc n \<and> \<not> ?off then 1 else 0))"
      "urc_ring cap ?c []" "gm_current ?c = gps_packet_zero"
      using IH(3,5,6) stall reboot IH(7)
      by (auto simp: count_parse_failure_def Let_def urc_ring_def min_def)
    have "gm_current (finish_sample E ?c) = gps_packet_zero\<lparr>gp_utc_time := gp_utc_time (gm_current (finish_sample E ?c))\<rparr>"
      using zero_sample by (simp add: finish_sample_def cnt)
    then show ?case using IH(1) g1(4) cnt by (simp add: urc_ring_def)
  qed
  then show ?thesis by blast
qed

subsection \<open>Sentences in pairs\<close>

definition nmea_type :: "string \<Rightarrow> string \<Rightarrow> bool" where
  "nmea_type t s \<longleftrightarrow> take 2 s = ''$G'' \<and> take 1 (drop 2 s) \<in> {''N'', ''P''} \<and> take 4 (drop 3 s) = t"

lemma nmea_type_shape: "nmea_type t s \<longleftrightarrow> (\<exists>c rest. s = CHR ''$'' # CHR ''G'' # c # rest \<and> (c = CHR ''N'' \<or> c = CHR ''P'') \<and> take 4 rest = t)"
  by (cases s; cases "tl s"; cases "tl (tl s)") (auto simp: nmea_type_def)

definition nmea_text :: "string \<Rightarrow> string" where
  "nmea_text s = gps_nmea_trim_eol (take 95 s)"

text \<open>The pairs that a run of sentences completes, and the two sentences that wait for their other half. A new sentence
  takes the place of a waiting one of its type.\<close>

fun pair_texts :: "string \<Rightarrow> string \<Rightarrow> string list \<Rightarrow> string list \<times> string \<times> string" where
  "pair_texts rmc gga [] = ([], rmc, gga)"
| "pair_texts rmc gga (s # ss) =
     (let rmc' = (if nmea_type ''RMC,'' s then nmea_text s else rmc); gga' = (if nmea_type ''GGA,'' s then nmea_text s else gga)
      in if rmc' \<noteq> [] \<and> gga' \<noteq> [] then map_prod ((#) (rmc' @ char_of (10 :: nat) # gga')) id (pair_texts [] [] ss)
         else pair_texts rmc' gga' ss)"

lemma nmea_text_facts:
  assumes "nmea_type t s"
  shows "nmea_text s \<noteq> []" and "length (nmea_text s) \<le> 95" and "set (nmea_text s) \<subseteq> set s"
proof -
  obtain r where s: "s = CHR ''$'' # r" using assms by (auto simp: nmea_type_shape)
  have "CHR ''$'' \<in> set (take 95 s)" by (simp add: s)
  moreover have "char_code CHR ''$'' = 36" by (simp add: char_code_def)
  ultimately have "\<exists>x \<in> set (take 95 s). char_code x \<noteq> 13 \<and> char_code x \<noteq> 10" by (intro bexI [of _ "CHR ''$''"]) simp_all
  then show "nmea_text s \<noteq> []" by (auto simp: nmea_text_def gps_nmea_trim_eol_def dropWhile_eq_Nil_conv)
  have "length (nmea_text s) \<le> length (take 95 s)" unfolding nmea_text_def gps_nmea_trim_eol_def
    by (metis length_dropWhile_le length_rev)
  then show "length (nmea_text s) \<le> 95" by simp
  show "set (nmea_text s) \<subseteq> set s" unfolding nmea_text_def gps_nmea_trim_eol_def
    by (metis (no_types, lifting) in_set_takeD set_dropWhileD set_rev subsetI)
qed

text \<open>One call of the callback.\<close>

lemma sentence_cb:
  "gps_nmea_sentence_cb E (Some s) g =
     (if nmea_type ''RMC,'' s then
        let g = st_update (\<lambda>st. st\<lparr>gs_slot_rmc := nmea_text s\<rparr>) g
        in if gs_slot_gga (gm_st g) \<noteq> [] then gps_nmea_push_combined_pair E g else g
      else if nmea_type ''GGA,'' s then
        let g = st_update (\<lambda>st. st\<lparr>gs_slot_gga := nmea_text s\<rparr>) g
        in if gs_slot_rmc (gm_st g) \<noteq> [] then gps_nmea_push_combined_pair E g else g
      else g)"
proof (cases "\<exists>a b c rest. s = a # b # c # rest")
  case True
  then obtain a b c rest where s: "s = a # b # c # rest" by blast
  show ?thesis by (auto simp: gps_nmea_sentence_cb_def nmea_type_shape nmea_text_def s Let_def)
next
  case False
  then have "\<not> nmea_type t s" for t by (auto simp: nmea_type_shape)
  then show ?thesis using False by (auto simp: gps_nmea_sentence_cb_def split: list.split)
qed

lemma sentence_step:
  fixes s :: string and g :: "('u, 'w) gps_module"
  assumes ring: "urc_ring cap g es" and slots: "gs_slot_rmc (gm_st g) = [] \<or> gs_slot_gga (gm_st g) = []"
  defines "rmc \<equiv> if nmea_type ''RMC,'' s then nmea_text s else gs_slot_rmc (gm_st g)"
    and "gga \<equiv> if nmea_type ''GGA,'' s then nmea_text s else gs_slot_gga (gm_st g)"
  defines "both \<equiv> rmc \<noteq> [] \<and> gga \<noteq> []"
  assumes short: "length rmc \<le> 95" "length gga \<le> 95"
  shows "\<exists>g'. gps_nmea_sentence_cb E (Some s) g = g' \<and> gm_rt g' = gm_rt g \<and>
    gs_slot_rmc (gm_st g') = (if both then [] else rmc) \<and> gs_slot_gga (gm_st g') = (if both then [] else gga) \<and>
    urc_ring cap g' (es @ (if both \<and> length es < cap then [urc_element E (rmc @ char_of (10 :: nat) # gga)] else []))"
proof -
  have push: "gm_rt (gps_nmea_push_combined_pair E g0) = gm_rt g0 \<and> gs_slot_rmc (gm_st (gps_nmea_push_combined_pair E g0)) = [] \<and>
      gs_slot_gga (gm_st (gps_nmea_push_combined_pair E g0)) = [] \<and>
      urc_ring cap (gps_nmea_push_combined_pair E g0) (es @ (if length es < cap then [urc_element E (r @ char_of (10 :: nat) # t)] else []))"
    if g0: "urc_ring cap g0 es" "gs_slot_rmc (gm_st g0) = r" "gs_slot_gga (gm_st g0) = t" "r \<noteq> []" "t \<noteq> []" "length r \<le> 95" "length t \<le> 95" for g0 r t
  proof -
    obtain cfg h q where q: "gps_urc_queue g0 = Some (cfg, h, q)" "wf_ring cfg q" "\<not> queue_has_file cfg" "ring_items cfg q = es" "qc_capacity cfg = cap"
      using g0(1) by (auto simp: urc_ring_def)
    let ?e = "urc_element E (r @ char_of (10 :: nat) # t)"
    obtain rs q' where p: "queue_push (ge_flash E) (os_urc_abi (ge_os E)) True cfg q ?e (gm_world g0) = (rs, q', gm_world g0)" "wf_ring cfg q'"
      "ring_items cfg q' = es @ (if length es < cap then [?e] else [])" using push_ring [OF q(2,3), of "ge_flash E" "os_urc_abi (ge_os E)" ?e "gm_world g0"] unfolding q(4,5) by blast
    let ?g = "set_gps_urc_queue (Some (h, q')) (set_gm_world (gm_world g0) g0)"
    have "gps_nmea_push_combined_pair E g0 = clear_slots ?g" using g0 q p(1) by (simp add: gps_nmea_push_combined_pair_def Let_def)
    moreover have "gps_urc_queue (clear_slots ?g) = Some (cfg, h, q')" using q(1) by (simp add: clear_slots_def gps_urc_queue_set)
    ultimately show ?thesis using p q by (auto simp: urc_ring_def clear_slots_def)
  qed
  have excl: "\<not> (nmea_type ''RMC,'' s \<and> nmea_type ''GGA,'' s)" by (auto simp: nmea_type_shape)
  consider (rmc) "nmea_type ''RMC,'' s" "\<not> nmea_type ''GGA,'' s" | (gga) "nmea_type ''GGA,'' s" "\<not> nmea_type ''RMC,'' s"
    | (other) "\<not> nmea_type ''RMC,'' s" "\<not> nmea_type ''GGA,'' s" using excl by blast
  then show ?thesis
  proof cases
    case rmc
    let ?g = "st_update (\<lambda>st. st\<lparr>gs_slot_rmc := nmea_text s\<rparr>) g"
    have r: "urc_ring cap ?g es" using ring by (simp add: urc_ring_def)
    have "rmc \<noteq> []" "rmc = nmea_text s" "gga = gs_slot_gga (gm_st g)" using rmc nmea_text_facts(1) [OF rmc(1)] by (simp_all add: rmc_def gga_def)
    then show ?thesis using rmc push [OF r, of "nmea_text s" gga] r short by (auto simp: sentence_cb both_def Let_def)
  next
    case gga
    let ?g = "st_update (\<lambda>st. st\<lparr>gs_slot_gga := nmea_text s\<rparr>) g"
    have r: "urc_ring cap ?g es" using ring by (simp add: urc_ring_def)
    have "gga \<noteq> []" "gga = nmea_text s" "rmc = gs_slot_rmc (gm_st g)" using gga nmea_text_facts(1) [OF gga(1)] by (simp_all add: rmc_def gga_def)
    then show ?thesis using gga push [OF r, of rmc "nmea_text s"] r short by (auto simp: sentence_cb both_def Let_def)
  next
    case other
    then show ?thesis using ring slots by (auto simp: sentence_cb both_def rmc_def gga_def)
  qed
qed

text \<open>A run of sentences: the queue takes the pairs it has room for.\<close>

lemma sentences_run:
  assumes "urc_ring cap g es" and "gs_slot_rmc (gm_st g) = [] \<or> gs_slot_gga (gm_st g) = []"
    and "length (gs_slot_rmc (gm_st g)) \<le> 95" "length (gs_slot_gga (gm_st g)) \<le> 95"
    and "pair_texts (gs_slot_rmc (gm_st g)) (gs_slot_gga (gm_st g)) ss = (ps, r, t)"
  shows "\<exists>g'. fold (\<lambda>s. gps_nmea_sentence_cb E (Some s)) ss g = g' \<and> gm_rt g' = gm_rt g \<and>
    gs_slot_rmc (gm_st g') = r \<and> gs_slot_gga (gm_st g') = t \<and> urc_ring cap g' (es @ take (cap - length es) (map (urc_element E) ps))"
  using assms
proof (induction ss arbitrary: g es ps)
  case Nil
  then show ?case by simp
next
  case (Cons s ss)
  let ?r = "if nmea_type ''RMC,'' s then nmea_text s else gs_slot_rmc (gm_st g)"
  let ?t = "if nmea_type ''GGA,'' s then nmea_text s else gs_slot_gga (gm_st g)"
  let ?both = "?r \<noteq> [] \<and> ?t \<noteq> []" and ?p = "?r @ char_of (10 :: nat) # ?t"
  have l: "length ?r \<le> 95" "length ?t \<le> 95" using Cons.prems(3,4) nmea_text_facts(2) by auto
  obtain g1 where g1: "gps_nmea_sentence_cb E (Some s) g = g1" "gm_rt g1 = gm_rt g"
    "gs_slot_rmc (gm_st g1) = (if ?both then [] else ?r)" "gs_slot_gga (gm_st g1) = (if ?both then [] else ?t)"
    "urc_ring cap g1 (es @ (if ?both \<and> length es < cap then [urc_element E ?p] else []))"
    using sentence_step [OF Cons.prems(1,2) l, of E] by blast
  obtain ps1 where ps: "pair_texts (gs_slot_rmc (gm_st g1)) (gs_slot_gga (gm_st g1)) ss = (ps1, r, t)" "ps = (if ?both then ?p # ps1 else ps1)"
    using Cons.prems(5) unfolding g1(3,4) by (auto simp: Let_def map_prod_def split: if_splits prod.splits)
  have "es @ take (cap - length es) (map (urc_element E) ps) =
    (es @ (if ?both \<and> length es < cap then [urc_element E ?p] else [])) @
      take (cap - length (es @ (if ?both \<and> length es < cap then [urc_element E ?p] else []))) (map (urc_element E) ps1)"
  proof (cases "cap - length es")
    case (Suc n)
    then have "cap - Suc (length es) = n" "length es < cap" by simp_all
    then show ?thesis using Suc unfolding ps(2) by auto
  qed (auto simp: ps(2))
  moreover note Cons.IH [OF g1(5) _ _ _ ps(1)]
  ultimately show ?case using g1(1,2,3,4) l by auto
qed

text \<open>The text of a pair comes out of the queue as it went in.\<close>

lemma urc_text_element:
  assumes "\<forall>bs. length bs = 200 \<longrightarrow> e_bytes (os_urc_abi (ge_os E)) (e_of_bytes (os_urc_abi (ge_os E)) bs) = bs"
    and "NUL \<notin> set s" and "length s < 200"
  shows "urc_text E (urc_element E s) = s"
proof -
  obtain k where k: "200 - length s = Suc k" using assms(3) by (cases "200 - length s") auto
  have "e_bytes (os_urc_abi (ge_os E)) (urc_element E s) = map byte_of_char (s @ NUL # replicate k NUL)"
    using assms(1) [rule_format, of "map byte_of_char (s @ NUL # replicate k NUL)"] assms(3) k unfolding urc_element_def by simp
  then show ?thesis using assms(2) by (simp add: urc_text_def c_str_append_NUL map_char_roundtrip del: map_append list.map map_map)
qed

lemma parse_newest_text:
  assumes "NUL \<notin> set s" and "length s < 200"
  shows "parse_newest E s out = (let (ok, p) = gps_ops_parse_gnrmc_gngga_combined (ge_libm E) s out in (ok, if ok then without_position p else p))"
proof -
  obtain n d where n: "utils_strncpy_safe (Some (replicate 200 NUL)) (Some s) 200 = (n, Some d)" "0 \<le> n" "c_str d = s"
  proof -
    obtain n d where "utils_strncpy_safe (Some (replicate 200 NUL)) (Some s) 200 = (n, d)" by fastforce
    then show ?thesis using that assms c_str_append_NUL [OF assms(1)]
      by (auto simp: utils_strncpy_safe_def Let_def c_strncpy_NUL write_at_def bounded_len_min)
  qed
  have "\<not> n < 0" using n(2) by simp
  then show ?thesis unfolding parse_newest_def n(1) by (simp only: prod.case option.case n(3) if_False) (simp add: split_beta Let_def)
qed

lemma pair_texts_safe:
  assumes "pair_texts rmc gga ss = (ps, r, t)" and "\<forall>s \<in> set (rmc # gga # ss). NUL \<notin> set s" and "length rmc \<le> 95" "length gga \<le> 95"
  shows "\<forall>p \<in> set ps. NUL \<notin> set p \<and> length p < 200 \<and> p \<noteq> []"
  using assms
proof (induction rmc gga ss arbitrary: ps rule: pair_texts.induct)
  case (2 rmc gga s ss)
  let ?r = "if nmea_type ''RMC,'' s then nmea_text s else rmc" and ?t = "if nmea_type ''GGA,'' s then nmea_text s else gga"
  have l: "length ?r \<le> 95" "length ?t \<le> 95" using 2(5,6) nmea_text_facts(2) by auto
  have n: "NUL \<notin> set ?r" "NUL \<notin> set ?t"
    using 2(4) nmea_text_facts(3) [of "''RMC,''" s] nmea_text_facts(3) [of "''GGA,''" s] by (auto split: if_splits)
  have nl: "char_of (10 :: nat) \<noteq> NUL" by (simp add: char_of_def)
  show ?case
  proof (cases "?r \<noteq> [] \<and> ?t \<noteq> []")
    case True
    then obtain ps1 where ps: "pair_texts [] [] ss = (ps1, r, t)" "ps = (?r @ char_of (10 :: nat) # ?t) # ps1"
      using 2(3) by (cases "pair_texts [] [] ss") (auto simp: Let_def)
    have "\<forall>p \<in> set ps1. NUL \<notin> set p \<and> length p < 200 \<and> p \<noteq> []" using 2(1) [OF refl refl True ps(1)] 2(4) by simp
    then show ?thesis using ps(2) l n nl by auto
  next
    case False
    then have "pair_texts ?r ?t ss = (ps, r, t)" using 2(3) by (auto simp: Let_def)
    then show ?thesis using 2(2) [OF refl refl False] l n 2(4) by auto
  qed
qed simp

text \<open>C33: the sentences of the receiver reach the parser in pairs. Whatever the receiver sends between two samples, when none waited before, an RMC and a GGA
  sentence that follow each other (with others between them, the last of each type) go into the queue together; as long as it has room
  for the pairs, the next sample is what the parser makes of the last of them, and the queue is empty again. Without a pair
  there is no sample and the position stays; a sentence without its other half waits.\<close>

theorem newest_pair_is_parsed:
  assumes ring: "urc_ring cap g []" and slots: "gs_slot_rmc (gm_st g) = []" "gs_slot_gga (gm_st g) = []"
    and abi: "\<forall>bs. length bs = 200 \<longrightarrow> e_bytes (os_urc_abi (ge_os E)) (e_of_bytes (os_urc_abi (ge_os E)) bs) = bs"
    and clean: "\<forall>s \<in> set ss. NUL \<notin> set s" and pairs: "pair_texts [] [] ss = (ps, r, t)" and room: "length ps \<le> cap"
  shows "\<exists>ok g'. gps_ops_query_and_parse_from_urc_queue E (fold (\<lambda>s. gps_nmea_sentence_cb E (Some s)) ss g) = Some (ok, g') \<and>
    urc_ring cap g' [] \<and> gs_slot_rmc (gm_st g') = r \<and> gs_slot_gga (gm_st g') = t \<and>
    (ok, gm_current g') = (if ps = [] then (False, gm_current g)
      else let (ok, p) = gps_ops_parse_gnrmc_gngga_combined (ge_libm E) (last ps) (gm_current g) in (ok, if ok then without_position p else p))"
proof -
  let ?g = "fold (\<lambda>s. gps_nmea_sentence_cb E (Some s)) ss g"
  have safe: "NUL \<notin> set p \<and> length p < 200 \<and> p \<noteq> []" if "p \<in> set ps" for p
    using pair_texts_safe [OF pairs] clean that by auto
  have run: "gm_rt ?g = gm_rt g" "gs_slot_rmc (gm_st ?g) = r" "gs_slot_gga (gm_st ?g) = t" "urc_ring cap ?g (map (urc_element E) ps)"
    using sentences_run [OF ring, of ss ps r t E] slots pairs room by auto
  obtain cfg h q where q: "gps_urc_queue ?g = Some (cfg, h, q)" "wf_ring cfg q" "\<not> queue_has_file cfg"
    "ring_items cfg q = map (urc_element E) ps" "qc_capacity cfg = cap" using run(4) by (auto simp: urc_ring_def)
  have "urc_text E (urc_element E p) = p" if "p \<in> set ps" for p using urc_text_element [OF abi] safe [OF that] by blast
  then have "map (urc_text E) (ring_items cfg q) = ps" unfolding q(4) by (simp add: map_idI)
  moreover have "filter (\<lambda>s. s \<noteq> []) ps = ps" using safe by (auto simp: filter_id_conv)
  ultimately obtain q' where d: "drain_urc E cfg None q (gm_world ?g) = Some (if ps = [] then None else Some (last ps), q', gm_world ?g)"
    "wf_ring cfg q'" "ring_items cfg q' = []" using drain_ring [OF q(2,3), of E None "gm_world ?g"] by (auto simp: Let_def)
  let ?h = "set_gps_urc_queue (Some (h, q')) (set_gm_world (gm_world ?g) ?g)"
  have h: "gps_urc_queue ?h = Some (cfg, h, q')" using q(1) by (simp add: gps_urc_queue_set)
  have "parse_newest E (last ps) out = (let (ok, p) = gps_ops_parse_gnrmc_gngga_combined (ge_libm E) (last ps) out in (ok, if ok then without_position p else p))"
    if "ps \<noteq> []" for out using parse_newest_text safe last_in_set [OF that] by blast
  then show ?thesis
    using h d q(3,5) run by (cases "ps = []") (auto simp: gps_ops_query_and_parse_from_urc_queue_def q(1) Let_def urc_ring_def split: prod.splits)
qed

subsection \<open>The packet in the send queue\<close>

lemma created_packet:
  assumes "gps_packet_create V g True room (Some p) n = (len, b, n')" and "55 \<le> room"
  shows "len = 55 \<and> length b = 55 \<and> wf_packet b \<and> n' = u32 (n + 1)"
proof -
  let ?n = "u32 (n + 1)"
  have b: "b = [0x57, 0x45, 0x49] @ gps_packet_body V g ?n p @ [fold (XOR) (gps_packet_body V g ?n p) 0, 0x77, 0x65]"
    and r: "len = 55" "n' = ?n" using assms by (auto simp: gps_packet_create_def Let_def)
  have l: "length b = 55" "take 3 b = [0x57, 0x45, 0x49]" unfolding b by simp_all
  then have "wf_packet b" using nth_take [of 0 3 b] nth_take [of 1 3 b] nth_take [of 2 3 b]
    by (simp add: wf_packet_def tcp_type_ok_def GPS_PACKET_TYPE_def)
  with l r show ?thesis by blast
qed

lemma gps_uptime_simps [simp]:
  "gm_rt (snd (gps_uptime E g)) = gm_rt g" "gm_st (snd (gps_uptime E g)) = gm_st g" "gm_config (snd (gps_uptime E g)) = gm_config g"
  "gm_world (snd (gps_uptime E g)) = snd (os_ticks (ge_os E) (gm_world g))" "tcp_queue (gm_gateway (snd (gps_uptime E g))) = tcp_queue (gm_gateway g)"
  by (simp_all add: gps_uptime_def get_uptime_def gm_world_def tcp_queue_def module_manager_get_config_def module_get_def split_beta Let_def)

text \<open>What building a packet leaves alone: the send queue, and the files as far as the clock does.\<close>

definition same_queue :: "'w contents \<Rightarrow> ('u, 'w) gps_module \<Rightarrow> ('u, 'w) gps_module \<Rightarrow> bool" where
  "same_queue C g g' \<longleftrightarrow> tcp_queue (gm_gateway g') = tcp_queue (gm_gateway g) \<and> C (gm_world g') = C (gm_world g) \<and>
     gr_should_trigger (gm_rt g') = gr_should_trigger (gm_rt g) \<and> gr_packets_dropped (gm_rt g') = gr_packets_dropped (gm_rt g)"

lemma same_queue_refl [simp]: "same_queue C g g" by (simp add: same_queue_def)
lemma same_queue_trans [trans]: "same_queue C g g1 \<Longrightarrow> same_queue C g1 g2 \<Longrightarrow> same_queue C g g2" by (simp add: same_queue_def)

lemma same_queue_updates [simp]:
  "same_queue C g (set_current p g') = same_queue C g g'" "same_queue C g (set_last_valid p g') = same_queue C g g'"
  "same_queue C g (g'\<lparr>gm_st := st\<rparr>) = same_queue C g g'"
  by (simp_all add: same_queue_def set_current_def set_last_valid_def gm_world_def)

text \<open>The clock changes no file.\<close>

definition clock_law :: "('u, 'w) os \<Rightarrow> 'w contents \<Rightarrow> bool" where
  "clock_law S C \<longleftrightarrow> (\<forall>w. C (snd (os_ticks S w)) = C w)"

lemma uptime_keeps: "clock_law (ge_os E) C \<Longrightarrow> same_queue C g (snd (gps_uptime E g))"
  by (simp add: same_queue_def clock_law_def)

lemma speed_keeps: "clock_law (ge_os E) C \<Longrightarrow> same_queue C g (snd (gps_ops_calc_speed_kmh_from_last_sent E g))"
  using uptime_keeps [of E C g] by (simp add: gps_ops_calc_speed_kmh_from_last_sent_def Let_def split_beta)

lemma backfill_keeps: "clock_law (ge_os E) C \<Longrightarrow> same_queue C g (gps_ops_backfill_speed_from_motion E g)"
  using speed_keeps [of E C g] by (simp add: gps_ops_backfill_speed_from_motion_def Let_def split_beta)

lemma pick_keeps: "clock_law (ge_os E) C \<Longrightarrow> same_queue C g (snd (gps_ops_pick_send_kind E g))"
  using speed_keeps [of E C g]
  by (simp add: gps_ops_pick_send_kind_def gps_ops_speed_filter_send_last_valid_def Let_def split_beta)

lemma gps_create_keeps:
  assumes "create_packet E True 256 p g = (m, g')"
  shows "same_queue C g g' \<and> fst m = 55 \<and> length (snd m) = 55 \<and> wf_packet (snd m)"
proof -
  obtain len b n where c: "gps_packet_create (pe_view (ge_peers E (gm_world g))) (gm_rt g) True 256 (Some p) (gs_packet_counter (gm_st g)) = (len, b, n)"
    by (metis prod_cases3)
  then show ?thesis using assms created_packet [OF c] by (auto simp: create_packet_def)
qed

lemma build_keeps_queue:
  assumes ticks: "clock_law (ge_os E) C" and build: "gps_turn_build E g = (m, g')"
  shows "same_queue C g g' \<and> fst m = 55 \<and> length (snd m) = 55 \<and> wf_packet (snd m)"
proof -
  obtain kind g1 where k: "gps_ops_pick_send_kind E g = (kind, g1)" by fastforce
  then have s1: "same_queue C g g1" using pick_keeps [OF ticks, of g] by simp
  obtain m1 g2 where p: "gps_ops_build_position_packet E True 256 kind g1 = (m1, g2)" by fastforce
  have "same_queue C g1 g2 \<and> fst m1 = 55 \<and> length (snd m1) = 55 \<and> wf_packet (snd m1)"
  proof (cases kind)
    case GPS_PACKET_BUILD_CURRENT
    let ?g = "gps_ops_backfill_speed_from_motion E (set_current (counted_current (gm_current g1) (gm_last_valid g1)) g1)"
    have "create_packet E True 256 (gm_current ?g) ?g = (m1, g2)" using p by (simp add: gps_ops_build_position_packet_def GPS_PACKET_BUILD_CURRENT Let_def)
    note gps_create_keeps [OF this, of C]
    moreover have "same_queue C g1 ?g" using same_queue_trans [OF _ backfill_keeps [OF ticks]] by simp
    ultimately show ?thesis using same_queue_trans by blast
  next
    case GPS_PACKET_BUILD_LAST_VALID_MERGED
    let ?g = "set_last_valid (merged_last_valid (gm_current g1) (gm_last_valid g1)) g1"
    have "create_packet E True 256 (gm_last_valid ?g) ?g = (m1, g2)" using p by (simp add: gps_ops_build_position_packet_def GPS_PACKET_BUILD_LAST_VALID_MERGED Let_def)
    note gps_create_keeps [OF this, of C]
    moreover have "same_queue C g1 ?g" by simp
    ultimately show ?thesis using same_queue_trans by blast
  qed
  moreover have "m = m1 \<and> same_queue C g2 g'" using build
    by (auto simp: gps_turn_build_def k gps_ops_build_send_packet_def p update_last_valid_gps_data_def split: prod.splits if_splits)
  ultimately show ?thesis using s1 same_queue_trans by blast
qed

lemma rows_world: "queue_holds (row_rel F C H A cfg) v cfg q w l \<Longrightarrow> C w' = C w \<Longrightarrow> queue_holds (row_rel F C H A cfg) v cfg q w' l"
  unfolding queue_holds_def by (elim conjE exE) (intro conjI exI; (rule row_rel_world)?; assumption)

lemma gps_message_row:
  assumes "wf_packet b" and "e_message A (gps_message b) = gps_message b"
  shows "row_view A (gps_message b) = (True, b)"
proof -
  have l: "3 \<le> length b" "length b \<le> 256" "b ! 0 = 0x57" "b ! 1 = 0x45" using assms(1) by (simp_all add: wf_packet_def)
  let ?m = "write_at (replicate MODULE_MESSAGE_INLINE_SIZE 0) 0 b"
  have m: "?m = b @ replicate (256 - length b) 0" by (simp add: write_at_def)
  have "0 < length b" "Suc 0 < length b" using l(1) by linarith+
  with l have "(b @ z) ! 0 = 0x57" "(b @ z) ! Suc 0 = 0x45" for z by (simp_all add: nth_append_left)
  with l have "queue_tcp_payload_len_from_message (gps_message b) = Some (b @ replicate (256 - length b) 0, length b)"
    by (auto simp: queue_tcp_payload_len_from_message_def module_message_payload_def gps_message_def m blank_message_def)
  then show ?thesis using assms(2) l by (simp add: row_view_def tcp_view_def plain_row_def gps_message_def m blank_message_def)
qed

text \<open>The packet is pushed, the uptime noted.\<close>

lemma push_position:
  assumes queue: "tcp_queue (gm_gateway g) = Some (cfg, h, q)" "0 < qc_element_size cfg"
    and holds: "queue_holds (row_rel (ge_flash E) C H (os_msg_abi (ge_os E)) cfg) (row_view (os_msg_abi (ge_os E))) cfg q (gm_world g) l"
    and spill: "q_count q = qc_capacity cfg \<longrightarrow> queue_has_file cfg \<and> tcp_storable (os_msg_abi (ge_os E)) (hd (ring_items cfg q)) \<and> plain_row (hd (ring_items cfg q))"
    and ticks: "clock_law (ge_os E) C" and b: "wf_packet b"
  shows "\<exists>g' q'. gps_ops_push_tcp_position_message E b g = (SDK_SUCCESS, g') \<and> tcp_queue (gm_gateway g') = Some (cfg, h, q') \<and>
    gr_packets_dropped (gm_rt g') = gr_packets_dropped (gm_rt g) \<and>
    queue_holds (row_rel (ge_flash E) C H (os_msg_abi (ge_os E)) cfg) (row_view (os_msg_abi (ge_os E))) cfg q' (gm_world g')
      ((if q_count q = qc_capacity cfg \<and> clears_size cfg (3 + length (tcp_view (os_msg_abi (ge_os E)) (hd (ring_items cfg q)))) q
        then drop (length l - q_count q) l else l) @ [(True, b)])"
proof -
  let ?A = "os_msg_abi (ge_os E)"
  have A: "e_message ?A (gps_message b) = gps_message b" using holds by (auto simp: queue_holds_def row_rel_def)
  obtain q' w' where p: "queue_push (ge_flash E) ?A True cfg q (gps_message b) (gm_world g) = (RESULT_SUCCESS, q', w')"
    "queue_holds (row_rel (ge_flash E) C H ?A cfg) (row_view ?A) cfg q' w'
      ((if q_count q = qc_capacity cfg \<and> clears_size cfg (3 + length (tcp_view ?A (hd (ring_items cfg q)))) q
        then drop (length l - q_count q) l else l) @ [(True, b)])"
    using rows.push_fifo [OF holds, of "gps_message b"] spill gps_message_row [OF b A] by auto
  let ?g = "g\<lparr>gm_gateway := set_tcp_queue (Some (h, q')) ((gm_gateway g)\<lparr>gw_world := w'\<rparr>)\<rparr>"
  obtain now g2 where u: "gps_uptime E ?g = (now, g2)" by fastforce
  have "module_get MODULE_ID_TCP ((gm_gateway g)\<lparr>gw_world := w'\<rparr>) = module_get MODULE_ID_TCP (gm_gateway g)" by (simp add: module_get_def)
  then have "tcp_queue ((gm_gateway g)\<lparr>gw_world := w'\<rparr>) = Some (cfg, h, q)" using queue(1)
    by (simp add: tcp_queue_def module_manager_get_config_def)
  then have q2: "tcp_queue (gm_gateway ?g) = Some (cfg, h, q')" by (simp add: tcp_queue_set)
  have w: "gm_world ?g = w'" by (simp add: gm_world_def set_tcp_queue_def module_update_def)
  have g2: "tcp_queue (gm_gateway g2) = Some (cfg, h, q')" "C (gm_world g2) = C w'" "gm_rt g2 = gm_rt g"
    using gps_uptime_simps [of E ?g] u q2 w ticks by (simp_all add: clock_law_def)
  have l: "b \<noteq> []" "length b \<le> 256" using b by (auto simp: wf_packet_def)
  have "gps_ops_push_tcp_position_message E b g = (SDK_SUCCESS, rt_update (\<lambda>r. r\<lparr>gr_last_packet_send_uptime_sec := now\<rparr>) g2)"
    using queue l p(1) u by (simp add: gps_ops_push_tcp_position_message_def)
  then show ?thesis using g2 rows_world [OF p(2) g2(2)] by (simp add: gm_world_def)
qed

text \<open>C32: a due position joins the packets to be sent. When a turn of the task finds that a position is to be sent, it
  appends one well-formed packet of 55 bytes, whose bytes lie inside the message, to the send queue of the TCP module, on
  flash that does not fail and when the oldest row of a full ring is one that its file takes; the trigger is cleared. The
  packets before it stay, but for those of a full file that has to be cleared.\<close>

theorem due_position_is_queued:
  assumes queue: "tcp_queue (gm_gateway g) = Some (cfg, h, q)" "0 < qc_element_size cfg"
    and holds: "queue_holds (row_rel (ge_flash E) C H (os_msg_abi (ge_os E)) cfg) (row_view (os_msg_abi (ge_os E))) cfg q (gm_world g) l"
    and spill: "q_count q = qc_capacity cfg \<longrightarrow> queue_has_file cfg \<and> tcp_storable (os_msg_abi (ge_os E)) (hd (ring_items cfg q)) \<and> plain_row (hd (ring_items cfg q))"
    and ticks: "clock_law (ge_os E) C"
    and due: "gps_triggers_should_send (ge_libm E) (gm_config g) (fst (gps_uptime E g)) (gm_rt g) = Some (True, rt)"
  shows "\<exists>g' q' b old. gps_turn_send E g = Some g' \<and> tcp_queue (gm_gateway g') = Some (cfg, h, q') \<and>
    queue_holds (row_rel (ge_flash E) C H (os_msg_abi (ge_os E)) cfg) (row_view (os_msg_abi (ge_os E))) cfg q' (gm_world g') (old @ [(True, b)]) \<and>
    length b = 55 \<and> wf_packet b \<and> \<not> gr_should_trigger (gm_rt g') \<and> gr_packets_dropped (gm_rt g') = gr_packets_dropped rt \<and>
    old = (if q_count q = qc_capacity cfg \<and> clears_size cfg (3 + length (tcp_view (os_msg_abi (ge_os E)) (hd (ring_items cfg q)))) q
      then drop (length l - q_count q) l else l)"
proof -
  obtain now g1 where u: "gps_uptime E g = (now, g1)" by fastforce
  let ?pre = "if gr_should_trigger (gm_rt g) then g else g1" and ?A = "os_msg_abi (ge_os E)"
  let ?g = "?pre\<lparr>gm_rt := rt\<rparr>"
  have g0: "same_queue C g ?pre" using uptime_keeps [OF ticks, of g] u by simp
  obtain m g2 where bd: "gps_turn_build E ?g = (m, g2)" by fastforce
  note k = build_keeps_queue [OF ticks bd]
  obtain b where m: "m = (55, b)" "length b = 55" "wf_packet b" using k by (cases m) auto
  have q2: "tcp_queue (gm_gateway g2) = Some (cfg, h, q)" and w2: "C (gm_world g2) = C (gm_world g)"
    and d2: "gr_packets_dropped (gm_rt g2) = gr_packets_dropped rt"
    using k g0 queue(1) by (simp_all add: same_queue_def gm_world_def)
  obtain g3 q' where p: "gps_ops_push_tcp_position_message E b g2 = (SDK_SUCCESS, g3)" "tcp_queue (gm_gateway g3) = Some (cfg, h, q')"
    "gr_packets_dropped (gm_rt g3) = gr_packets_dropped (gm_rt g2)"
    "queue_holds (row_rel (ge_flash E) C H ?A cfg) (row_view ?A) cfg q' (gm_world g3)
      ((if q_count q = qc_capacity cfg \<and> clears_size cfg (3 + length (tcp_view ?A (hd (ring_items cfg q)))) q
        then drop (length l - q_count q) l else l) @ [(True, b)])"
    using push_position [OF q2 queue(2) rows_world [OF holds w2] spill ticks m(3)] by blast
  have pre: "gm_rt g1 = gm_rt g" "gm_config g1 = gm_config g" using gps_uptime_simps(1,3) [of E g] u by simp_all
  have "gps_turn_send E g = Some (rt_update gps_triggers_clear_after_send g3)"
    using due u bd m(1) p(1)
    by (cases "gr_should_trigger (gm_rt g)") (simp_all add: gps_turn_send_def gps_turn_transmit_def gps_ops_merge_tcp_append_def gps_ops_pop_gps_msg_queue_latch_append_def Let_def pre)
  then show ?thesis using p d2 m by (auto simp: gps_triggers_clear_after_send_def gm_world_def)
qed

text \<open>Without a send queue the packet is counted as dropped, and the trigger is cleared all the same: it is not sent again.\<close>

lemma lost_position_clears_trigger:
  assumes "tcp_queue (gm_gateway g) = None"
    and due: "gps_triggers_should_send (ge_libm E) (gm_config g) (fst (gps_uptime E g)) (gm_rt g) = Some (True, rt)"
  shows "\<exists>g'. gps_turn_send E g = Some g' \<and> \<not> gr_should_trigger (gm_rt g') \<and> gr_packets_dropped (gm_rt g') = u32 (gr_packets_dropped rt + 1)"
proof -
  obtain now g1 where u: "gps_uptime E g = (now, g1)" by fastforce
  let ?C = "\<lambda>_. Map.empty :: string \<Rightarrow> bytes option"
  have ticks: "clock_law (ge_os E) ?C" by (simp add: clock_law_def)
  let ?pre = "if gr_should_trigger (gm_rt g) then g else g1"
  have p: "same_queue ?C g ?pre" using uptime_keeps [OF ticks, of g] u by simp
  obtain m g2 where bd: "gps_turn_build E (?pre\<lparr>gm_rt := rt\<rparr>) = (m, g2)" by fastforce
  note k = build_keeps_queue [OF ticks bd]
  obtain b where m: "m = (55, b)" "length b = 55" using k by (cases m) auto
  have q2: "tcp_queue (gm_gateway g2) = None" "gr_packets_dropped (gm_rt g2) = gr_packets_dropped rt"
    using k p assms(1) by (simp_all add: same_queue_def)
  have pre: "gm_rt g1 = gm_rt g" "gm_config g1 = gm_config g" using gps_uptime_simps(1,3) [of E g] u by simp_all
  have "gps_ops_push_tcp_position_message E b g2 = (SDK_ERROR, count_dropped g2)"
    using q2 m(2) by (auto simp: gps_ops_push_tcp_position_message_def)
  then have "gps_turn_send E g = Some (rt_update gps_triggers_clear_after_send (count_dropped g2))"
    using due u bd m(1)
    by (cases "gr_should_trigger (gm_rt g)") (simp_all add: gps_turn_send_def gps_turn_transmit_def gps_ops_merge_tcp_append_def
        gps_ops_pop_gps_msg_queue_latch_append_def Let_def pre)
  then show ?thesis using q2 by (simp add: gps_triggers_clear_after_send_def count_dropped_def)
qed

text \<open>A packet made from the last valid position takes the time of the current sample into that position; without a time the module
  then has no last valid position any more.\<close>

lemma merged_packet_forgets_position:
  assumes "gp_utc_time (gm_current g) = 0" and "gps_ops_build_position_packet E True 256 GPS_PACKET_BUILD_LAST_VALID_MERGED g = (m, g')"
  shows "gps_manager_get_last_valid_position g' = None"
  using assms by (auto simp: gps_ops_build_position_packet_def create_packet_def gps_manager_get_last_valid_position_def merged_last_valid_def
      set_last_valid_def split: prod.splits)

text \<open>A stop and a start with the charger connected leave the charge status off; connecting does not set it.\<close>

lemma charge_status_stale:
  assumes "gs_prev_charge (gm_st g)" and "\<not> gr_charge_status (gm_rt g)"
  shows "\<not> gr_charge_status (gm_rt (gps_set_charge_status True g))"
  using assms by (simp add: gps_set_charge_status_def)

subsection \<open>Runs of the model\<close>

text \<open>A gateway with the queues of TCP and GPS, both empty, on a given world.\<close>

definition bench_queue_config :: queue_config where
  "bench_queue_config = \<lparr>qc_name = Some ''GPS_URC_Q'', qc_element_size = 200, qc_capacity = 4, qc_thread_safe = True,
     qc_max_file_size = 0, qc_persist_on_reboot = False\<rparr>"

definition bench_slot :: "module_id \<Rightarrow> bytes module" where
  "bench_slot mid = \<lparr>m_config = \<lparr>mc_module_id = mid, mc_name = Some ''bench'', mc_enabled = True, mc_required = True,
       mc_continue_on_fail = True, mc_has_task = True, mc_init_fn = None, mc_deinit_fn = None,
       mc_config_get_defaults_fn = None, mc_config_validate_fn = None, mc_config_ptr = None, mc_config_size = 0,
       mc_config_stored = False, mc_msg_q_config = tcp_cfg 2, mc_msg_q = Some (1, empty_queue 2 sample_msg),
       mc_urc_q_config = bench_queue_config, mc_urc_q = Some (2, empty_queue 4 [])\<rparr>,
     m_status = \<lparr>ms_initialized = True, ms_connected = False, ms_task_uptime_sec = 0, ms_retries = 0, ms_last_error = 0\<rparr>\<rparr>"

definition bench_statics :: gps_statics where
  "bench_statics = \<lparr>gs_configured_event_sent = False, gs_implausible_speed_streak = 0, gs_parse_fail_streak = 0,
     gs_parse_fail_reset_sent = False, gs_last_power_status_check = 0, gs_cached_power_on = False, gs_pwr_nmea_setup_done = False,
     gs_power_forced_off = False, gs_no_nmea_count = 0, gs_had_fix = False, gs_prev_charge = False, gs_prev_sim = False,
     gs_slot_rmc = [], gs_slot_gga = [], gs_packet_counter = 0, gs_running = True, gs_defaults_applied = True,
     gs_task_stats = task_stats_zero\<rparr>"

definition bench_module :: "'w \<Rightarrow> (bytes, 'w) gps_module" where
  "bench_module w = \<lparr>gm_rt = runtime_defaults\<lparr>gr_should_trigger := True\<rparr>, gm_st = bench_statics, gm_config = gps_config_get_defaults,
     gm_gateway = \<lparr>gw_modules = (replicate 12 None)[6 := Some (bench_slot MODULE_ID_TCP), 7 := Some (bench_slot MODULE_ID_GPS)],
       gw_events = em_boot, gw_pre_boot = pre_boot_boot, gw_queues = replicate 16 None, gw_world = w\<rparr>\<rparr>"

text \<open>An SDK without network time, after a reset that was not a power-on. Its record of a position holds the time only.\<close>

definition bench_libm :: libm where
  "bench_libm = still_libm\<lparr>lm_atan2 := \<lambda>_ _. FNan\<rparr>"

definition bench_env :: "'w flash \<Rightarrow> ('w \<Rightarrow> 'w) \<Rightarrow> ('w \<Rightarrow> 'w) \<Rightarrow> (bytes, 'w) gps_env" where
  "bench_env F registered rebooted = \<lparr>
     ge_os = \<lparr>os_flash = F, os_msg_abi = msg_abi, os_urc_abi = \<lparr>e_bytes = \<lambda>b. b, e_of_bytes = \<lambda>b. b, e_message = \<lambda>_. sample_msg, e_of_message = \<lambda>_. []\<rparr>,
       os_ticks = \<lambda>w. (5000, w), os_sleep = \<lambda>n w. w, os_call = \<lambda>f g. (RESULT_SUCCESS, g)\<rparr>,
     ge_libm = bench_libm, ge_listener = \<lambda>cb ev ud s. s,
     ge_peers = \<lambda>w. \<lparr>pe_view = still_view, pe_network_connected = False, pe_network_stable = False\<rparr>, ge_utc_time = \<lambda>w. None,
     ge_set_power_status = \<lambda>n w. (SDK_SUCCESS, w), ge_get_power_status = \<lambda>w. (Some 1, w), ge_enable_nmea_output = \<lambda>n w. (SDK_SUCCESS, w),
     ge_gps_and_glonass = 3, ge_set_mode = \<lambda>n w. (SDK_SUCCESS, w), ge_set_nmea_rate = \<lambda>n w. (SDK_SUCCESS, w),
     ge_start_mode = \<lambda>n w. (SDK_SUCCESS, w), ge_set_gnss_info_period = \<lambda>n w. (SDK_SUCCESS, w),
     ge_open_agps_service = \<lambda>w. (SDK_NOT_SUPPORTED, w), ge_set_nmea_callback = \<lambda>on w. (SDK_SUCCESS, registered w),
     ge_reboot = rebooted, ge_reset_reason = \<lambda>w. 1, ge_queue_alloc = \<lambda>w. ((Some 2, True, True, replicate 4 []), w),
     ge_task_create = \<lambda>w. (Some 1, w), ge_task_delete = \<lambda>t w. w,
     ge_store_bytes = \<lambda>r. be32_bytes (gp_utc_time (sd_packet r)),
     ge_store_of_bytes = \<lambda>b. \<lparr>sd_magic = GPS_STORE_MAGIC, sd_version = GPS_STORE_VERSION,
       sd_packet = home_packet\<lparr>gp_utc_time := be32 (b ! 0) (b ! 1) (b ! 2) (b ! 3)\<rparr>\<rparr>,
     ge_store_size = 4\<rparr>"

lemma outside_fin:
  assumes "0 < n" and "n < 2 ^ 53"
  shows "outside (int n) (FFin s x) \<longleftrightarrow> signed s x < - of_nat n \<or> of_nat n < signed s x"
proof -
  have "f64_of_int (- int n) = FFin True (of_nat n)"
    using fp_round_int [of n 52 "- 1022" 1024 True] assms by (simp add: f64_of_int_def f64_of_rat_def f64_round_def)
  then show ?thesis using f64_of_nat [OF assms(2)] by (simp add: outside_def signed_def)
qed

lemma outside_home [simp]: "\<not> outside 90 (FFin False (2861 / 100))" "\<not> outside 180 (FFin True (386 / 5))"
  using outside_fin [of 90] outside_fin [of 180] by (simp_all add: signed_def)

lemma home_valid: "position_valid home_packet" "position_valid (home_packet\<lparr>gp_utc_time := t\<rparr>)"
  by (simp_all add: position_valid_def gps_validate_coordinates_def home_packet_def f32_is_nan_def signed_def)

theorem saved_position_survives_reboot_witness:
  "\<exists>r w1 new w3. gps_storage_save_packet (bench_env ram_flash id id) (Some home_packet) empty_ram = (r, w1) \<and> r = SDK_SUCCESS \<and>
     gps_storage_handle_post_boot (bench_env ram_flash id id) gps_packet_zero w1 = (new, w3) \<and> new = home_packet"
proof -
  let ?E = "bench_env ram_flash id id"
  obtain r w1 where s: "gps_storage_save_packet ?E (Some home_packet) empty_ram = (r, w1)" by fastforce
  obtain new w3 where b: "gps_storage_handle_post_boot ?E gps_packet_zero w1 = (new, w3)" by fastforce
  have "flash_laws (ge_flash ?E) rw_files rw_handles" "flash_reliable (ge_flash ?E) rw_files rw_handles"
    by (simp_all add: bench_env_def ram_laws ram_reliable)
  moreover have "store_law ?E home_packet"
  proof -
    have "be32 (be32_bytes t ! 0) (be32_bytes t ! 1) (be32_bytes t ! 2) (be32_bytes t ! 3) = t" if "t \<le> UINT32_MAX" for t
      using be32_be32_bytes [of t] that by (simp add: be32_bytes_def)
    moreover have "length (be32_bytes t) = 4" for t by (simp add: be32_bytes_def)
    ultimately show ?thesis unfolding store_law_def bench_env_def Let_def by (simp only: gps_env.simps gps_stored.simps gps_packet.simps) simp
  qed
  moreover have "gp_utc_time home_packet \<le> UINT32_MAX" by (simp add: home_packet_def)
  moreover have "gps_validate_coordinates (gp_latitude_deg home_packet) (gp_longitude_deg home_packet)"
    using home_valid(1) by (simp add: position_valid_def)
  ultimately have "r = SDK_SUCCESS \<and> new = home_packet"
    using saved_position_survives_reboot [of ?E rw_files rw_handles home_packet empty_ram r w1 w1 gps_packet_zero new w3, OF _ _ _ _ _ s refl b]
    by (simp add: gps_post_boot_is_power_on_reset_def bench_env_def stamp_utc_def char_code_def)
  then show ?thesis using s b by blast
qed

theorem implausible_samples_held_back_witness:
  "filter_run bench_libm (replicate 5 (home_packet, home_packet\<lparr>gp_utc_time := 1700000009\<rparr>)) 0 ! 4 = home_packet\<lparr>gp_utc_time := 1700000009\<rparr>"
proof -
  have "packet_distance bench_libm home_packet (home_packet\<lparr>gp_utc_time := 1700000009\<rparr>) = FNan"
    unfolding packet_distance_def utils_calculate_gps_distance_def Let_def
    using f64_of_nat [of 2] f64_of_nat [of 6371000] by (simp add: home_packet_def bench_libm_def f64_mul_def)
  then have "implausible bench_libm home_packet (home_packet\<lparr>gp_utc_time := 1700000009\<rparr>)"
    unfolding implausible_def using home_valid
    by (simp add: gps_ops_is_valid_utc_def GPS_TIME_VALID_MIN_UTC_UNIX_def home_packet_def speed_kmh_def)
  then show ?thesis
    using implausible_samples_held_back [of "replicate 5 (home_packet, home_packet\<lparr>gp_utc_time := 1700000009\<rparr>)" bench_libm 4] by simp
qed

lemma bench_ring: "urc_ring 4 (bench_module w) []"
  by (simp add: urc_ring_def gps_urc_queue_def module_get_def bench_module_def bench_slot_def wf_ring_def empty_queue_def
      bench_queue_config_def queue_has_file_def queue_is_tcp_send_q_def ring_items_def)

theorem silent_receiver_resets_once_witness:
  "\<exists>g'. refresh_run (bench_env (flash_at fst (\<lambda>r w. (r, snd w)) ram_flash) (\<lambda>w. (fst w, fst (snd w) + 1, snd (snd w))) (\<lambda>w. (fst w, fst (snd w), snd (snd w) + 1)))
     100 (bench_module (empty_ram, 0, 0)) = Some g' \<and> snd (gm_world g') = (4 :: nat, 1 :: nat)"
proof -
  let ?E = "bench_env (flash_at fst (\<lambda>r w. (r, snd w)) ram_flash) (\<lambda>w. (fst w, fst (snd w) + 1, snd (snd w))) (\<lambda>w. (fst w, fst (snd w), snd (snd w) + 1))"
  let ?g = "bench_module (empty_ram, 0 :: nat, 0 :: nat)"
  have c: "\<forall>w. snd (snd (ge_set_nmea_callback ?E True w)) = (fst (snd w) + 1, snd (snd w))" "\<forall>w. snd (ge_reboot ?E w) = (fst (snd w), snd (snd w) + 1)"
    by (simp_all add: bench_env_def)
  have s: "gs_no_nmea_count (gm_st ?g) = 0" "gs_parse_fail_streak (gm_st ?g) = 0" "\<not> gs_parse_fail_reset_sent (gm_st ?g)"
    "\<not> gs_power_forced_off (gm_st ?g)" "snd (gm_world ?g) = (0, 0)" by (simp_all add: bench_module_def bench_statics_def gm_world_def)
  obtain g' where "refresh_run ?E 100 ?g = Some g'" "snd (gm_world g') = (fst (snd (gm_world ?g)) + (100 - 1) div 21,
      snd (snd (gm_world ?g)) + (if 60 \<le> (100 :: nat) \<and> \<not> gs_power_forced_off (gm_st ?g) then 1 else 0))"
    using silent_receiver_resets_once [where calls = snd and n = 100, OF bench_ring s(1-3) c] by blast
  then show ?thesis using s(4,5) by auto
qed

lemma sample_pair_accepted: "fst (gps_ops_parse_gnrmc_gngga_combined bench_libm sample_pair gps_packet_zero)"
  by code_simp

lemma sample_pair_texts: "pair_texts [] [] [''$GNRMC,,V,,,,,,,,,,N'', ''$GPGSV,1'', ''$GNGGA,,,,,,0,00,,,,,,,''] = ([sample_pair], [], [])"
  by code_simp

theorem newest_pair_is_parsed_witness:
  "\<exists>g'. gps_ops_query_and_parse_from_urc_queue (bench_env ram_flash id id)
     (fold (\<lambda>s. gps_nmea_sentence_cb (bench_env ram_flash id id) (Some s))
       [''$GNRMC,,V,,,,,,,,,,N'', ''$GPGSV,1'', ''$GNGGA,,,,,,0,00,,,,,,,''] (bench_module empty_ram)) = Some (True, g') \<and> urc_ring 4 g' []"
proof -
  let ?E = "bench_env ram_flash id id" and ?ss = "[''$GNRMC,,V,,,,,,,,,,N'', ''$GPGSV,1'', ''$GNGGA,,,,,,0,00,,,,,,,'']"
  have n: "\<forall>s \<in> set ?ss. NUL \<notin> set s" by code_simp
  have s: "gs_slot_rmc (gm_st (bench_module empty_ram)) = []" "gs_slot_gga (gm_st (bench_module empty_ram)) = []"
    "gm_current (bench_module empty_ram) = gps_packet_zero" by (simp_all add: bench_module_def bench_statics_def runtime_defaults_def)
  have a: "\<forall>bs. length bs = 200 \<longrightarrow> e_bytes (os_urc_abi (ge_os ?E)) (e_of_bytes (os_urc_abi (ge_os ?E)) bs) = bs" "ge_libm ?E = bench_libm"
    by (simp_all add: bench_env_def)
  have "length [sample_pair] \<le> 4" by simp
  from newest_pair_is_parsed [OF bench_ring s(1,2) a(1) n sample_pair_texts this] show ?thesis
    using sample_pair_accepted unfolding s(3) a(2) by (auto simp: split_beta)
qed

theorem due_position_is_queued_witness:
  "\<exists>g' b. gps_turn_send (bench_env ram_flash id id) (bench_module empty_ram) = Some g' \<and> length b = 55 \<and> wf_packet b \<and>
     (\<exists>q. tcp_queue (gm_gateway g') = Some (tcp_cfg 2, 1, q) \<and>
       queue_holds (row_rel ram_flash rw_files rw_handles msg_abi (tcp_cfg 2)) (row_view msg_abi) (tcp_cfg 2) q (gm_world g') [(True, b)])"
proof -
  let ?E = "bench_env ram_flash id id" and ?g = "bench_module empty_ram"
  have q: "tcp_queue (gm_gateway ?g) = Some (tcp_cfg 2, 1, empty_queue 2 sample_msg)"
    by (simp add: tcp_queue_def module_manager_get_config_def module_get_def bench_module_def bench_slot_def)
  have E: "ge_flash ?E = ram_flash" "os_msg_abi (ge_os ?E) = msg_abi" by (simp_all add: bench_env_def)
  have h: "queue_holds (row_rel ram_flash rw_files rw_handles msg_abi (tcp_cfg 2)) (row_view msg_abi) (tcp_cfg 2) (empty_queue 2 sample_msg) (gm_world ?g) []"
    using empty_tcp_queue [of 2 sample_msg] by (auto simp: queue_holds_def row_rel_def msg_abi_def gm_world_def bench_module_def)
  have due: "gps_triggers_should_send (ge_libm ?E) (gm_config ?g) (fst (gps_uptime ?E ?g)) (gm_rt ?g) = Some (True, gm_rt ?g)"
    by (simp add: gps_triggers_should_send_def bench_module_def)
  have t: "clock_law (ge_os ?E) rw_files" by (simp add: clock_law_def bench_env_def)
  show ?thesis
    using due_position_is_queued [of ?g "tcp_cfg 2" 1 "empty_queue 2 sample_msg" ?E rw_files rw_handles "[]", OF q _ _ _ t due, unfolded E] h
    by (fastforce simp: tcp_cfg_def empty_queue_def)
qed

end
