(* ===== verification/Spec2Isabelle.thy ===== *)
theory Spec2Isabelle
  imports Stm_Command_Map Queue_Snapshot State_Timeout Uart_Text Tcp_Walnut Command_Session Vehicle_State Reset_Handler Gps_Session
begin

text \<open>
  The WALNUT gateway firmware: a verification of its core services and
  of the modules built on them.

  The program (\<open>Code/sdk/wm_src/weware_app\<close>) is the application of a telematics gateway: a cellular
  module that reads GPS and BLE data, exchanges binary frames with an STM co-processor over a UART,
  and sends packets to a server over TCP, with remote commands arriving over TCP, SMS and BLE. The
  modules (GPS, TCP, SMS, UART, command, network, system) are tasks that talk through the queues of
  the queue manager and the events of the event manager; the platform SDK below them (tasks,
  sockets, flash files, clock) is a binary library that is not in the repository. This development
  models the services the modules are built from.

  Theories and what they model (paths below \<open>Code/sdk/wm_src/weware_app\<close>):

  \<^item> \<open>Prelude\<close>, \<open>C_Strings\<close>: machine integers, the \<open>Result\<close> type of \<open>inc/common/types.h\<close>, bytes, C strings and
    the library functions on them. A \<open>UINT32\<close> is a natural number with the wrap-around written out.
  \<^item> \<open>Crc\<close>: the contract of a table-free CRC register (locale \<open>crc_register\<close>): one changed byte always
    changes the check word. It is interpreted by both CRCs of the firmware.
  \<^item> \<open>Stm_Protocol\<close>: the frame format of \<open>src/common/stm_binary_protocol.c\<close>: builder, incremental
    recogniser, accessors, self test.
  \<^item> \<open>Stm_Command_Map\<close>: \<open>src/common/stm_command_map.c\<close>: the command table, the encoders of the command
    arguments (locale \<open>arg_encoder\<close>, one interpretation for each encoder of the table) and the translation
    of an ASCII command line to a frame.
  \<^item> \<open>Utils\<close>: \<open>src/common/utils.c\<close>: bounded string functions, tokeniser, validation, hexadecimal text,
    JSON and configuration extraction, check sums, elapsed time.
  \<^item> \<open>Flash\<close>: the file calls of the SDK as a record of parameters with the laws the firmware relies on
    (\<open>flash_laws\<close>; \<open>flash_reliable\<close> where a property is about flash that does not fail) and a store in memory
    that satisfies them.
  \<^item> \<open>File_System\<close>: \<open>src/system/storage/file_system.c\<close> and \<open>flash_paths.c\<close>.
  \<^item> \<open>Pre_Boot\<close>: \<open>src/system/reset/pre_boot_handler.c\<close>: the record that carries the reason of a reset and
    the read position of the TCP queue over a restart.
  \<^item> \<open>Queue_Manager\<close>: \<open>src/common/queue_manager.c\<close>, every operation: ring buffer, overflow file, the
    compact records of the TCP send queue, the reboot snapshot.
  \<^item> \<open>Queue_Fifo\<close>: the abstract queue (unread records of the file, then the ring) and the proof that the
    operations implement it, once, over the contract of an overflow file (locale \<open>overflow_format\<close>),
    interpreted for queues without a file, with fixed-size records, and with TCP records.
  \<^item> \<open>Queue_Snapshot\<close>: queues across a reboot, with the pre-boot record.
  \<^item> \<open>Event_Manager\<close>: \<open>src/common/event_manager.c\<close>: registries, registration and removal, and the broadcast
    loop with callbacks that may change the registries while it runs.
  \<^item> \<open>State_Timeout\<close>: \<open>src/common/state_timeout.c\<close>, on top of the event manager: the timers that watch the
    state machines of the modules, compared with a clock that does not wrap.
  \<^item> \<open>Time_Utils\<close>: \<open>src/system/time_utils.c\<close> and \<open>utils_time_to_unix\<close>: calendar conversions.
  \<^item> \<open>Module_Manager\<close>, \<open>Module_Registry\<close>: \<open>src/module/module_manager.c\<close> and \<open>module_config.c\<close>: the table of the
    modules, the start-up with its retries, the connection flags that follow the events, the task monitor.
    The record \<open>gateway\<close> is the state that the modules share.
  \<^item> \<open>Config_Store\<close>: \<open>src/config/config.c\<close>: the configuration structs of the modules, their defaults and
    validation, and the file that keeps them.
  \<^item> \<open>Routing\<close>: \<open>utils_route_response_to_module\<close> and the reply packets of \<open>src/module/tcp/tcp_ops.c\<close>: how a
    reply finds the module that asked.
  \<^item> \<open>Uart_Response\<close>, \<open>Uart_Dates\<close>, \<open>Uart_Text\<close>: the reply texts of \<open>src/module/uart/uart_manager.c\<close>, the
    dates in them, and what they are made from.
  \<^item> \<open>Uart_Manager\<close>, \<open>Uart_Task\<close>: the rest of \<open>uart_manager.c\<close>: the receive callback, the reassembly and the
    dispatch of frames, the state machine of the task, the PING-STM probe, the public interface.
  \<^item> \<open>Uart_Stream\<close>: reassembly against a specification on streams of items (frames and noise).
  \<^item> \<open>Uart_Session\<close>: requests, replies and probes over any interleaving of chunks, turns and calls.
  \<^item> \<open>Device_Utils\<close>: \<open>src/system/device_utils.c\<close>: the cached IMEI and version, the table of BLE peripherals.
  \<^item> \<open>Login_Packet\<close>: \<open>src/module/tcp/login_packet.c\<close>: the packet that opens a session.
  \<^item> \<open>Tcp_Client\<close>: \<open>tcp_ops.c\<close> and \<open>tcp.c\<close> of \<open>src/module/tcp\<close>: the state machine of the client, its
    batches over the send queue, the packets received, over a socket layer that is a parameter (\<open>'s tcp_ops\<close>).
  \<^item> \<open>Flash_Frame\<close>, \<open>Tcp_Delivery\<close>: the overflow files of distinct queues do not touch each other; what a turn
    of the client does to its queue.
  \<^item> \<open>Tcp_Socket\<close>: \<open>sdk_tcp_api.c\<close>, \<open>sdk_walnut_tcp.c\<close> and \<open>sdk_walnut_socket_poll.c\<close>: the socket functions and
    the poll task below the client, over the sockets of the kernel (\<open>'k kernel\<close>).
  \<^item> \<open>Tcp_Session\<close>, \<open>Tcp_Walnut\<close>: runs of the client, first over any socket layer that keeps the laws of a
    link (locale \<open>tcp_link\<close>), then over the poll task of this repository.
  \<^item> \<open>Config_Text\<close>: the texts \<open>key:value,key:value\<close> that set and show a configuration, once for all modules
    (locale \<open>keyed_config\<close>).
  \<^item> \<open>Network_Config\<close>, \<open>Tcp_Config\<close>, \<open>Remote_Config\<close>: \<open>network_config.c\<close>, \<open>command_config.c\<close> and \<open>tcp_config.c\<close>,
    and what a remote change of the settings does to the store of the configuration.
  \<^item> \<open>File_Purge\<close>: the directory calls of \<open>file_system.c\<close>: listing, the purge of a folder, the wipe of the flash,
    over the directory calls of the kernel (\<open>'w dir_api\<close>, laws \<open>dir_laws\<close> and \<open>dir_reliable\<close>).
  \<^item> \<open>Command_Parser\<close>, \<open>Command_Handler\<close>, \<open>Command_Task\<close>: \<open>command_handler.c\<close> and \<open>command_manager.c\<close> of
    \<open>src/module/command\<close>: the table of the remote commands, the words of a command line, the password, the
    functions that execute a command, the task that takes commands from its queue and routes the answers. The
    functions of modules that are not modelled are the parameter \<open>ce_call\<close>. The record \<open>device\<close> bundles the
    modules that a command can change.
  \<^item> \<open>Command_Session\<close>: what a remote command can and cannot do.
  \<^item> \<open>C_Float\<close>, \<open>C_Double\<close>: a C \<open>float\<close> or \<open>double\<close> as NaN, an infinity or a signed rational, with rounding to nearest
    even, comparisons, arithmetic and conversions, the decimal texts of \<open>printf\<close>, \<open>strtof\<close> and \<open>atof\<close>, error bounds of the
    rounding, and the text that is read back as the value it came from.
  \<^item> \<open>System_Config\<close>: \<open>src/system/system_config.c\<close>: thresholds and debounce times of the vehicle, set and shown as a text.
  \<^item> \<open>Vehicle_State\<close>: \<open>src/system/vehicle_state.c\<close>: ignition and motion from the readings of a poll, their debouncing, and
    the events and reports of their changes. A run is a list of turns, each with what it reads.
  \<^item> \<open>Reset_Handler\<close>: \<open>src/system/reset/reset_handler.c\<close> and \<open>post_boot_handler.c\<close>: the deferred reset, what it saves,
    and what the next boot makes of it.
  \<^item> \<open>Gps_Config\<close>: \<open>src/module/gps/gps_config.c\<close>. \<open>Utils_Geo\<close>: the distance and the change of course of \<open>utils.c\<close>.
  \<^item> \<open>Gps_Packet\<close>, \<open>Gps_Wire\<close>: \<open>gps_packet.c\<close> and \<open>gps_triggers.c\<close> of \<open>src/module/gps\<close>: the runtime state \<open>g_gps\<close>, the
    position packet of 55 bytes and what its reader finds in it, the decision to send one.
  \<^item> \<open>Gps_Nmea\<close>: the parser of \<open>gps_ops.c\<close> for the sentences of the receiver.
  \<^item> \<open>Gps_Storage\<close>: \<open>gps_storage.c\<close>, the last position on flash. The record \<open>gps_module\<close> is the state of the GPS module (its
    statics, \<open>g_gps\<close> and the world), \<open>gps_env\<close> what it takes from outside (SDK calls, flash, other modules).
  \<^item> \<open>Gps_Ops\<close>, \<open>Gps_Task\<close>: the rest of \<open>gps_ops.c\<close> (control of the receiver, samples and their filters, time sources, the choice
    and the queueing of a packet) and \<open>gps_manager.c\<close> (the pairing of sentences, the states and turns of the task).
  \<^item> \<open>Gps_Session\<close>: what the GPS module does over its steps.

  State and effects. Static variables are records that are passed and returned (\<open>pre_boot\<close>, \<open>'e queue\<close>,
  \<open>event_manager\<close>, \<open>timeout_ctx\<close>, \<open>gateway\<close>, \<open>uart_manager\<close>, \<open>config_store\<close>). The world outside, \<open>'w\<close>, is threaded through every call that reaches
  the SDK. A pointer that may be null is an \<open>option\<close>, or a boolean argument that says whether the
  pointers are valid. Function pointers are handles or the names of the functions, their behaviour is a parameter
  (\<open>os_call\<close>, \<open>config_env\<close>, the callbacks of the events). A mutex is
  exclusive access: an operation is one step. In a run of the TCP client, too, a turn, a socket event and a
  pass of the poll task are whole steps; the socket layer counts in unbounded integers. The tasks of the UART manager share \<open>g_uart\<close> without a lock; a run
  of \<open>Uart_Task\<close> is a sequence of whole steps (a chunk received, a turn of the task, a call of the public
  interface) in any order, so a preemption inside a step is not covered. Logging is left out.

  What the lemmas show. Protocol: frames are built and recognised consistently, a prefix of a frame is
  never rejected, what is accepted is a frame, a changed byte is detected; a command line reaches the other side as the command it
  names. Queues: they are first-in first-out over ring and file, a full ring spills to the file,
  peeking agrees with popping, and an orderly reboot keeps every packet; the one way in which the TCP
  queue gets stuck is proved too. Records: they are read back as written, reported and handed out once. Events:
  the registries stay well formed and a broadcast reaches every listener unless one of them removes
  itself. Timers: they fire on time and not before, across the wrap of the counter. Utilities: no
  write leaves its buffer, conversions round trip, parsers return exactly the item asked for. References are
  made apart from the code: the calendar from the Gregorian rule, hexadecimal digits from a table. Modules:
  after the start-up a module runs or has failed six times, and the result tells whether a required one
  is missing. Configuration: what was saved is what is loaded, and each way in which the file can be
  missing, foreign or cut short has its outcome. UART: the frames dispatched are those of the stream,
  however the driver cuts it; a reply goes to the module that asked and to no other; every request ends;
  a reply text is made from the payload alone. TCP: in every run a packet leaves the send queue only
  after the socket layer took it, whole and in order, provided that the batch fits (\<open>whole_sends\<close>, rows of at
  most 102 bytes) and the overflow file stays; what happens to larger batches is proved as well; a
  client that hears nothing gives up in time. Settings: a text that is refused changes nothing, the
  text shown for a configuration sets that configuration, and an accepted one survives a restart. Commands: without the password a
  protected command changes nothing but the counters, with it the setter of the row gets the words behind the
  password; a new password is in force at once; every command is counted; a turn ends, however full the folders are;
  a deletion stays in the folder named. Vehicle: the ignition is on exactly after enough readings in a row, motion ends after
  the configured time and not before, every change is reported once. Resets: one request is carried out, once, and the next
  boot reports it. Position: the time of a sentence is that of the calendar, coordinates are read within \<open>2 ^ - 43\<close> degrees
  and sent within little more than a unit of the packet, and no text of the receiver gives an ill-formed packet; a sample is the
  parse of the newest pair of sentences, a silent receiver is reset once, a position that is due is appended to the send
  queue, and the last valid position survives a reboot. Defects are proved as well: the false stall at the wrap of
  the clock, the request that a stray frame ends, the ping test that hangs, the truncated entry.

  Bounds and termination. Nearly all loops of the code are bounded; in the model they are recursions on the
  data or on a measure, so no fuel is needed. Where a loop may run for ever (the rounds of a purge, the drain of a queue,
  the normalisation of a course) the model returns an option, and the properties prove that it returns. Assumptions are stated where they are used: strings
  shorter than \<open>2 ^ 32\<close>, file limits below \<open>2 ^ 32\<close>, intervals below \<open>2 ^ 32\<close> ms, the years 1970 to 2099;
  the clock of the reset handler advances by less than \<open>2 ^ 31\<close> ms in a pause (\<open>reset_clock\<close>), offsets in a file are 32 bits
  wide (\<open>offsets_ok\<close>); the coordinates of the GPS are compared and passed on only, their distance and the speed from it are
  parameters (\<open>gv_distance\<close>, \<open>gv_speed_from_last_sent\<close>); the functions of the modules leave alone what only the module manager writes in the module table
  (\<open>calls_keep_registry\<close>); the trigonometric functions and the square root are parameters (\<open>libm\<close>); a number too large for the
  integer type it is cast to, which C leaves open, becomes the integer itself or 0, and the properties stay where it fits; the sizes of the structs are the parameter \<open>struct_sizes\<close>, their layout in memory is \<open>struct_abi\<close> with the law that
  a struct is read as it was written (\<open>struct_law\<close>); a function behind \<open>ce_call\<close> leaves the counters of the command module alone where a property says so
  (\<open>calls_keep_stats\<close>); the struct of the last position is read as it was written (\<open>store_law\<close>) and reading the clock changes
  no file (\<open>clock_law\<close>); memory for the receive
  buffer is available where a property says so (\<open>alloc_ok\<close>).

  Not modelled: the texts of GET-DEV-INFO and GET-DEV-STATUS, SMS handling, the
  network and SIM state machines, the URC processor, the loop of the system manager,
  the bookkeeping of the firmware update. Of \<open>common/task_stats.c\<close> only the variant compiled without stack sampling is modelled. Drivers,
  logging, the SDK, the vendor's demonstration and the third-party libraries (zlib, mbedtls, lwip,
  newlib) are outside.
\<close>

end
